(* ===== verification/Prelude.thy ===== *)
theory Prelude
  imports Main "HOL-Library.AList" "HOL-Library.Sublist"
begin

section \<open>Shared vocabulary: Python dictionaries, errors, strings, JSON values\<close>

text \<open>
  What every component theory uses: Python's insertion-ordered dictionaries as association
  lists, the exceptions the modelled code raises, the string operations it calls, and the
  values its JSON payloads are made of.  Text is a HOL \<open>string\<close>; the modelled code only
  compares characters with ASCII literals, slices and concatenates.
\<close>

named_theorems dict_simps \<open>equations of dictionary operations\<close>

subsection \<open>Exceptions as values\<close>

datatype py_error =
    KeyError | ValueError | QueueEmpty | AssertionError | AttributeError | TypeError
  | ConversionError | IllTyped | IndexError

type_synonym 'a result = "py_error + 'a"

fun bind_result :: "'a result \<Rightarrow> ('a \<Rightarrow> 'b result) \<Rightarrow> 'b result" where
  "bind_result (Inl e) f = Inl e"
| "bind_result (Inr x) f = f x"

lemma bind_result_Inl: "bind_result r f = Inl e \<longleftrightarrow> r = Inl e \<or> (\<exists>x. r = Inr x \<and> f x = Inl e)"
  by (cases r) auto

lemma bind_result_Inr_iff [simp]:
  "bind_result r f = Inr y \<longleftrightarrow> (\<exists>x. r = Inr x \<and> f x = Inr y)"
  by (cases r) auto

subsection \<open>Insertion-ordered dictionaries\<close>

text \<open>
  A Python \<open>dict\<close> iterates in insertion order; assigning to an existing key keeps its
  place.  \<open>AList.update\<close> does exactly this.
\<close>

type_synonym ('k, 'v) pydict = "('k \<times> 'v) list"

definition dict_get :: "'k \<Rightarrow> ('k, 'v) pydict \<Rightarrow> 'v option" where
  "dict_get k d = map_of d k"

definition dict_set :: "'k \<Rightarrow> 'v \<Rightarrow> ('k, 'v) pydict \<Rightarrow> ('k, 'v) pydict" where
  "dict_set k v d = AList.update k v d"

definition dict_del :: "'k \<Rightarrow> ('k, 'v) pydict \<Rightarrow> ('k, 'v) pydict" where
  "dict_del k d = AList.delete k d"

definition dict_keys :: "('k, 'v) pydict \<Rightarrow> 'k list" where
  "dict_keys d = map fst d"

definition dict_values :: "('k, 'v) pydict \<Rightarrow> 'v list" where
  "dict_values d = map snd d"

definition dict_has :: "'k \<Rightarrow> ('k, 'v) pydict \<Rightarrow> bool" where
  "dict_has k d = (dict_get k d \<noteq> None)"

definition dict_ok :: "('k, 'v) pydict \<Rightarrow> bool" where
  "dict_ok d = distinct (dict_keys d)"

text \<open>The interface the clients reason with: lookups after writes, and the key list.\<close>

locale dictionary =
  fixes lookup :: "'k \<Rightarrow> 'd \<Rightarrow> 'v option"
    and store :: "'k \<Rightarrow> 'v \<Rightarrow> 'd \<Rightarrow> 'd"
    and remove :: "'k \<Rightarrow> 'd \<Rightarrow> 'd"
    and keys :: "'d \<Rightarrow> 'k list"
    and ok :: "'d \<Rightarrow> bool"
  assumes lookup_store: "lookup k (store j v d) = (if k = j then Some v else lookup k d)"
    and lookup_remove: "lookup k (remove j d) = (if k = j then None else lookup k d)"
    and keys_store: "keys (store k v d) = (if k \<in> set (keys d) then keys d else keys d @ [k])"
    and keys_remove: "keys (remove k d) = removeAll k (keys d)"
    and lookup_keys: "lookup k d \<noteq> None \<longleftrightarrow> k \<in> set (keys d)"
    and ok_distinct: "ok d = distinct (keys d)"
begin

lemma ok_store: "ok d \<Longrightarrow> ok (store k v d)"
  by (auto simp: ok_distinct keys_store)

lemma ok_remove: "ok d \<Longrightarrow> ok (remove k d)"
  by (auto simp: ok_distinct keys_remove distinct_removeAll)

lemma set_keys_store: "set (keys (store k v d)) = insert k (set (keys d))"
  by (auto simp: keys_store)

lemma set_keys_remove: "set (keys (remove k d)) = set (keys d) - {k}"
  by (simp add: keys_remove)

lemma lookup_SomeD: "lookup k d = Some v \<Longrightarrow> k \<in> set (keys d)"
  using lookup_keys [of k d] by simp

lemma lookup_None_iff: "lookup k d = None \<longleftrightarrow> k \<notin> set (keys d)"
  using lookup_keys [of k d] by auto

end

interpretation pd: dictionary dict_get dict_set dict_del dict_keys dict_ok
proof
  fix k j :: 'a and v :: 'b and d :: "('a, 'b) pydict"
  show "dict_get k (dict_set j v d) = (if k = j then Some v else dict_get k d)"
    by (simp add: dict_get_def dict_set_def AList.update_conv)
  show "dict_get k (dict_del j d) = (if k = j then None else dict_get k d)"
    by (simp add: dict_get_def dict_del_def AList.delete_conv)
  show "dict_keys (dict_set k v d) =
      (if k \<in> set (dict_keys d) then dict_keys d else dict_keys d @ [k])"
    by (simp add: dict_keys_def dict_set_def AList.update_keys)
  show "dict_keys (dict_del k d) = removeAll k (dict_keys d)"
    by (simp add: dict_keys_def dict_del_def AList.delete_keys)
  show "(dict_get k d \<noteq> None) = (k \<in> set (dict_keys d))"
    unfolding dict_get_def dict_keys_def by (metis list.set_map map_of_eq_None_iff)
  show "dict_ok d = distinct (dict_keys d)"
    by (simp add: dict_ok_def)
qed

declare pd.lookup_store [simp, dict_simps] pd.lookup_remove [simp, dict_simps]
  pd.set_keys_store [simp, dict_simps] pd.set_keys_remove [simp, dict_simps]
  pd.ok_store [simp, intro] pd.ok_remove [simp, intro]

lemma dict_empty [simp]: "dict_get k [] = None" "dict_keys [] = []" "dict_ok []"
  by (simp_all add: dict_get_def dict_keys_def dict_ok_def)

lemma dict_has_iff [simp]: "dict_has k d \<longleftrightarrow> k \<in> set (dict_keys d)"
  using pd.lookup_keys [of k d] by (simp add: dict_has_def)

lemma dict_get_mem: "dict_get k d = Some v \<Longrightarrow> (k, v) \<in> set d"
  by (simp add: dict_get_def map_of_SomeD)

lemma dict_mem_get: "dict_ok d \<Longrightarrow> (k, v) \<in> set d \<Longrightarrow> dict_get k d = Some v"
  by (simp add: dict_get_def dict_ok_def dict_keys_def)

lemma dict_keys_Cons [simp]: "dict_keys ((k, v) # d) = k # dict_keys d"
  by (simp add: dict_keys_def)

lemma dict_get_Cons [simp]: "dict_get j ((k, v) # d) = (if j = k then Some v else dict_get j d)"
  by (auto simp: dict_get_def)

lemma dict_set_last: "k \<notin> set (dict_keys d) \<Longrightarrow> dict_set k v d = d @ [(k, v)]"
  by (induction d) (auto simp: dict_set_def dict_keys_def)

lemma dict_set_get_same: "dict_get k d = Some v \<Longrightarrow> dict_set k v d = d"
  by (simp add: dict_get_def dict_set_def AList.update_triv)

lemma filter_neq_removeAll [simp]: "filter (\<lambda>y. y \<noteq> x) xs = removeAll x xs"
  by (induction xs) auto

subsection \<open>JSON values\<close>

text \<open>
  The values \<open>json.loads\<close> returns and the payload dictionaries the code builds.  A number
  with a fraction or exponent is kept as its literal: the modelled code never computes with one.
\<close>

datatype json =
    JNull | JBool bool | JInt int | JFloat string | JStr string
  | JList "json list" | JObj "(string \<times> json) list"

text \<open>The values of a dictionary are smaller than it, for recursion through objects.\<close>

lemma dict_get_size: "dict_get k d = Some c \<Longrightarrow> size c < Suc (size_list (size_prod (\<lambda>_. 0) size) d)"
  by (induction d) (auto split: if_splits)

fun json_get :: "string \<Rightarrow> json \<Rightarrow> json option" where
  "json_get k (JObj d) = dict_get k d"
| "json_get k _ = None"

fun is_obj :: "json \<Rightarrow> bool" where
  "is_obj (JObj _) = True"
| "is_obj _ = False"

text \<open>\<open>isinstance(v, int)\<close>: a Python bool is an int, \<open>True\<close> is \<open>1\<close>.\<close>

fun json_int :: "json \<Rightarrow> int option" where
  "json_int (JInt i) = Some i"
| "json_int (JBool b) = Some (if b then 1 else 0)"
| "json_int _ = None"

subsection \<open>Truthiness and strings\<close>

definition truthy_str :: "string option \<Rightarrow> bool" where
  "truthy_str s = (case s of None \<Rightarrow> False | Some t \<Rightarrow> t \<noteq> [])"

lemma truthy_str_simps [simp]:
  "\<not> truthy_str None" "truthy_str (Some s) \<longleftrightarrow> s \<noteq> []"
  by (simp_all add: truthy_str_def)

text \<open>\<open>s.find(p)\<close>: the leftmost position of \<open>p\<close>; \<open>None\<close> is Python's \<open>-1\<close>.\<close>

fun py_find :: "'a list \<Rightarrow> 'a list \<Rightarrow> nat option" where
  "py_find p [] = (if p = [] then Some 0 else None)"
| "py_find p (x # xs) = (if prefix p (x # xs) then Some 0 else map_option Suc (py_find p xs))"

text \<open>\<open>s.rfind(c)\<close> for one character.\<close>

fun py_rfind :: "'a \<Rightarrow> 'a list \<Rightarrow> nat option" where
  "py_rfind c [] = None"
| "py_rfind c (x # xs) =
     (case py_rfind c xs of Some i \<Rightarrow> Some (Suc i) | None \<Rightarrow> if x = c then Some 0 else None)"

lemma py_find_Some_split:
  "py_find p s = Some i \<Longrightarrow> s = take i s @ p @ drop (i + length p) s \<and> i + length p \<le> length s"
proof (induction s arbitrary: i)
  case Nil
  then show ?case by (auto split: if_splits)
next
  case (Cons x xs)
  show ?case
  proof (cases "prefix p (x # xs)")
    case True
    with Cons.prems show ?thesis
      by (metis add.commute add_0 append_eq_conv_conj option.inject prefix_def prefix_length_le
          py_find.simps(2) self_append_conv2 take0)
  next
    case False
    with Cons.prems obtain j where "py_find p xs = Some j" "i = Suc j"
      by auto
    with Cons.IH [of j] show ?thesis by auto
  qed
qed

lemma py_rfind_Some:
  "py_rfind c s = Some i \<Longrightarrow> i < length s \<and> s ! i = c \<and> c \<notin> set (drop (Suc i) s)"
proof (induction s arbitrary: i)
  case Nil
  then show ?case by simp
next
  case (Cons x xs)
  show ?case
  proof (cases "py_rfind c xs")
    case None
    then have "c \<notin> set xs"
      by (induction xs) (auto split: option.splits if_splits)
    with None Cons.prems show ?thesis by (auto split: if_splits)
  next
    case (Some j)
    with Cons.prems Cons.IH [of j] show ?thesis by auto
  qed
qed

lemma py_rfind_None: "py_rfind c s = None \<longleftrightarrow> c \<notin> set s"
  by (induction s) (auto split: option.splits)


text \<open>\<open>s.strip()\<close>: Python's whitespace among the characters of a HOL string.\<close>

definition py_space :: "char \<Rightarrow> bool" where
  "py_space c = (of_char c \<in> ({9, 10, 11, 12, 13, 28, 29, 30, 31, 32, 133, 160} :: nat set))"

definition py_lstrip :: "string \<Rightarrow> string" where
  "py_lstrip s = dropWhile py_space s"

definition py_rstrip :: "string \<Rightarrow> string" where
  "py_rstrip s = rev (dropWhile py_space (rev s))"

definition py_strip :: "string \<Rightarrow> string" where
  "py_strip s = py_rstrip (py_lstrip s)"

text \<open>\<open>str(i)\<close>\<close>

fun show_nat :: "nat \<Rightarrow> string" where
  "show_nat n = (if n < 10 then [char_of (48 + n)] else show_nat (n div 10) @ [char_of (48 + n mod 10)])"

declare show_nat.simps [simp del]

definition show_int :: "int \<Rightarrow> string" where
  "show_int i = (if i < 0 then CHR ''-'' # show_nat (nat (- i)) else show_nat (nat i))"

text \<open>Different numbers are written differently: the text can be read back.\<close>

definition read_nat :: "string \<Rightarrow> nat" where
  "read_nat s = foldl (\<lambda>n c. 10 * n + (of_char c - 48)) 0 s"

lemma digit_value: "d < 10 \<Longrightarrow> (of_char (char_of (48 + d) :: char) :: nat) - 48 = d"
  by simp

lemma read_show_nat: "read_nat (show_nat n) = n"
proof (induction n rule: show_nat.induct)
  case (1 n)
  show ?case
  proof (cases "n < 10")
    case True
    then show ?thesis by (subst show_nat.simps) (simp add: read_nat_def)
  next
    case False
    have d: "n mod 10 < 10" by simp
    have "read_nat (show_nat n) = 10 * read_nat (show_nat (n div 10)) + (of_char (char_of (48 + n mod 10) :: char) - 48)"
      using False by (subst show_nat.simps) (simp add: read_nat_def)
    also have "\<dots> = 10 * (n div 10) + n mod 10" using 1 [OF False] digit_value [OF d] by (simp only:)
    finally show ?thesis by simp
  qed
qed

lemma show_nat_inj: "show_nat m = show_nat n \<longleftrightarrow> m = n"
  using read_show_nat by metis

end
