(* ===== verification/SnapshotQueue.thy ===== *)
theory SnapshotQueue
  imports Prelude
begin

section \<open>The per-tree snapshot queue (\<open>messaging/trees/data.py\<close>, \<open>_SnapshotQueue\<close>)\<close>

text \<open>
  A FIFO of node ids: a deque together with a set index used for constant-time membership.
  The operations are the class's methods; an \<open>asyncio.QueueEmpty\<close> is the error \<open>QueueEmpty\<close>.
\<close>

record snapshot_queue =
  sq_deque :: "string list"
  sq_set :: "string set"

definition sq_init :: snapshot_queue where
  "sq_init = \<lparr>sq_deque = [], sq_set = {}\<rparr>"

definition sq_put :: "string \<Rightarrow> snapshot_queue \<Rightarrow> snapshot_queue" where
  "sq_put x q = q\<lparr>sq_deque := sq_deque q @ [x], sq_set := insert x (sq_set q)\<rparr>"

definition sq_put_nowait :: "string \<Rightarrow> snapshot_queue \<Rightarrow> snapshot_queue" where
  "sq_put_nowait x q = q\<lparr>sq_deque := sq_deque q @ [x], sq_set := insert x (sq_set q)\<rparr>"

definition sq_get_nowait :: "snapshot_queue \<Rightarrow> (string \<times> snapshot_queue) result" where
  "sq_get_nowait q =
     (case sq_deque q of
        [] \<Rightarrow> Inl QueueEmpty
      | x # xs \<Rightarrow> Inr (x, q\<lparr>sq_deque := xs, sq_set := sq_set q - {x}\<rparr>))"

definition sq_qsize :: "snapshot_queue \<Rightarrow> nat" where
  "sq_qsize q = length (sq_deque q)"

definition sq_get_snapshot :: "snapshot_queue \<Rightarrow> string list" where
  "sq_get_snapshot q = sq_deque q"

definition sq_remove_if_present :: "string \<Rightarrow> snapshot_queue \<Rightarrow> bool \<times> snapshot_queue" where
  "sq_remove_if_present x q =
     (if x \<notin> sq_set q then (False, q)
      else (True, q\<lparr>sq_deque := filter (\<lambda>y. y \<noteq> x) (sq_deque q), sq_set := sq_set q - {x}\<rparr>))"

text \<open>The set is an index of the deque, and no id is queued twice.\<close>

definition sq_ok :: "snapshot_queue \<Rightarrow> bool" where
  "sq_ok q \<longleftrightarrow> sq_set q = set (sq_deque q) \<and> distinct (sq_deque q)"

lemmas sq_defs = sq_init_def sq_put_def sq_put_nowait_def sq_get_nowait_def sq_qsize_def
  sq_get_snapshot_def sq_remove_if_present_def

subsection \<open>The queue contract\<close>

text \<open>
  What the tree relies on: a queue represents a duplicate-free list, \<open>put\<close> of a new item
  appends, \<open>get\<close> takes the oldest item, and removal deletes one item wherever it waits.
\<close>

locale removable_fifo =
  fixes empty :: 'q
    and put :: "'a \<Rightarrow> 'q \<Rightarrow> 'q"
    and get :: "'q \<Rightarrow> ('a \<times> 'q) result"
    and remove :: "'a \<Rightarrow> 'q \<Rightarrow> bool \<times> 'q"
    and items :: "'q \<Rightarrow> 'a list"
    and ok :: "'q \<Rightarrow> bool"
  assumes ok_empty: "ok empty" and items_empty: "items empty = []"
    and ok_items: "ok q \<Longrightarrow> distinct (items q)"
    and ok_put: "ok q \<Longrightarrow> x \<notin> set (items q) \<Longrightarrow> ok (put x q)"
    and items_put: "items (put x q) = items q @ [x]"
    and get_empty: "items q = [] \<Longrightarrow> get q = Inl QueueEmpty"
    and get_Cons: "items q = x # xs \<Longrightarrow> ok q \<Longrightarrow>
          \<exists>q'. get q = Inr (x, q') \<and> items q' = xs \<and> ok q'"
    and remove_spec: "ok q \<Longrightarrow> remove x q = (b, q') \<Longrightarrow>
          b = (x \<in> set (items q)) \<and> items q' = removeAll x (items q) \<and> ok q'"
begin

lemma get_result:
  assumes "ok q" and "get q = Inr (x, q')"
  shows "items q = x # items q' \<and> ok q'"
proof (cases "items q")
  case Nil
  then show ?thesis using assms(2) get_empty by simp
next
  case (Cons y ys)
  then show ?thesis using get_Cons [OF Cons assms(1)] assms(2) by auto
qed

lemma removed_is_gone: "ok q \<Longrightarrow> x \<notin> set (items (snd (remove x q)))"
  using remove_spec [of q x "fst (remove x q)" "snd (remove x q)"] by simp

lemma remove_keeps_others:
  "ok q \<Longrightarrow> y \<noteq> x \<Longrightarrow> y \<in> set (items (snd (remove x q))) \<longleftrightarrow> y \<in> set (items q)"
  using remove_spec [of q x "fst (remove x q)" "snd (remove x q)"] by simp

end

interpretation sq: removable_fifo sq_init sq_put_nowait sq_get_nowait sq_remove_if_present
  sq_get_snapshot sq_ok
  by unfold_locales
    (auto simp: sq_defs sq_ok_def distinct_removeAll split: if_splits)

lemma sq_put_eq: "sq_put = sq_put_nowait"
  by (intro ext) (simp add: sq_defs)

subsection \<open>A whole history of the queue\<close>

datatype sq_op = Put string | Get | Remove string

fun sq_step :: "sq_op \<Rightarrow> snapshot_queue \<Rightarrow> snapshot_queue" where
  "sq_step (Put x) q = sq_put x q"
| "sq_step Get q = (case sq_get_nowait q of Inl e \<Rightarrow> q | Inr (x, q') \<Rightarrow> q')"
| "sq_step (Remove x) q = snd (sq_remove_if_present x q)"

text \<open>The callers never queue an id that is already waiting.\<close>

fun sq_fresh_puts :: "sq_op list \<Rightarrow> snapshot_queue \<Rightarrow> bool" where
  "sq_fresh_puts [] q = True"
| "sq_fresh_puts (a # as) q =
     ((case a of Put x \<Rightarrow> x \<notin> set (sq_deque q) | _ \<Rightarrow> True) \<and> sq_fresh_puts as (sq_step a q))"

lemma sq_step_ok:
  assumes "sq_ok q" and "case a of Put x \<Rightarrow> x \<notin> set (sq_deque q) | _ \<Rightarrow> True"
  shows "sq_ok (sq_step a q)"
proof (cases a)
  case (Put x)
  then show ?thesis using assms sq.ok_put [of q x] by (simp add: sq_put_eq sq_get_snapshot_def)
next
  case Get
  then show ?thesis using assms(1) sq.get_result [of q]
    by (auto split: sum.splits)
next
  case (Remove x)
  then show ?thesis using assms(1)
      sq.remove_spec [of q x "fst (sq_remove_if_present x q)" "snd (sq_remove_if_present x q)"]
    by simp
qed

lemma sq_run_ok: "sq_ok q \<Longrightarrow> sq_fresh_puts as q \<Longrightarrow> sq_ok (fold sq_step as q)"
  by (induction as arbitrary: q) (auto intro: sq_step_ok)


text \<open>The list a history denotes.\<close>

fun list_step :: "sq_op \<Rightarrow> string list \<Rightarrow> string list" where
  "list_step (Put x) xs = xs @ [x]"
| "list_step Get xs = tl xs"
| "list_step (Remove x) xs = removeAll x xs"

lemma sq_step_items:
  assumes "sq_ok q"
  shows "sq_get_snapshot (sq_step a q) = list_step a (sq_get_snapshot q)"
proof (cases a)
  case (Put x)
  then show ?thesis by (simp add: sq_defs)
next
  case Get
  then show ?thesis by (cases "sq_deque q") (simp_all add: sq_defs)
next
  case (Remove x)
  then show ?thesis using assms sq.remove_spec [of q x] by (cases "sq_remove_if_present x q") simp
qed

text \<open>Over every history in which an id is put only while it is not waiting, the queue is the
  duplicate-free list of the waiting ids, oldest first: \<open>put\<close> appends, \<open>get_nowait\<close> takes the
  head, \<open>remove_if_present\<close> deletes, and the membership index agrees with the list.\<close>

theorem queue_refines_list:
  assumes "sq_fresh_puts as sq_init"
  shows "sq_get_snapshot (fold sq_step as sq_init) = fold list_step as [] \<and>
    distinct (fold list_step as []) \<and>
    sq_set (fold sq_step as sq_init) = set (fold list_step as [])"
proof -
  have run: "sq_get_snapshot (fold sq_step as q) = fold list_step as (sq_get_snapshot q)"
    if "sq_ok q" "sq_fresh_puts as q" for q
    using that
  proof (induction as arbitrary: q)
    case (Cons a as)
    then show ?case using sq_step_items [OF Cons.prems(1), of a] sq_step_ok [OF Cons.prems(1), of a] by simp
  qed simp
  have "sq_ok (fold sq_step as sq_init)" using sq_run_ok [OF sq.ok_empty assms] .
  then show ?thesis using run [OF sq.ok_empty assms] sq.items_empty by (simp add: sq_ok_def sq_get_snapshot_def)
qed

theorem queue_refines_list_witness:
  "sq_get_snapshot (fold sq_step [Put ''x'', Put ''y'', Put ''z'', Remove ''y'', Get] sq_init) = [''z'']"
proof -
  have "sq_fresh_puts [Put ''x'', Put ''y'', Put ''z'', Remove ''y'', Get] sq_init"
    by (simp add: sq_defs)
  from queue_refines_list [OF this] show ?thesis by simp
qed

end
