(* ===== verification/Worklist.thy ===== *)
theory Worklist
  imports Prelude "HOL-Library.Multiset"
begin

section \<open>Stack-driven traversals\<close>

text \<open>
  The \<open>while stack: x = stack.pop(); ...; stack.extend(children(x))\<close> loops of the message
  tree.  Whether such a loop ends depends on the data, so the loops return an option
  (\<open>None\<close>: the loop does not end).  The stack's top is the end of the list, as in Python.
  On a forest (every node has at most one parent, children rank above their parents) the
  traversal ends, visits each node once and visits exactly what is reachable.
\<close>

partial_function (option) worklist ::
  "('a \<Rightarrow> 'a list) \<Rightarrow> 'a list \<Rightarrow> 'a list \<Rightarrow> 'a list option" where
  "worklist ch stack res =
     (if stack = [] then Some res
      else worklist ch (butlast stack @ ch (last stack)) (res @ [last stack]))"

text \<open>The variant that collects the children it pushes instead of the nodes it pops.\<close>

partial_function (option) collectlist ::
  "('a \<Rightarrow> 'a list) \<Rightarrow> 'a list \<Rightarrow> 'a list \<Rightarrow> 'a list option" where
  "collectlist ch stack acc =
     (if stack = [] then Some acc
      else collectlist ch (butlast stack @ ch (last stack)) (acc @ ch (last stack)))"

definition edges :: "('a \<Rightarrow> 'a list) \<Rightarrow> ('a \<times> 'a) set" where
  "edges ch = {(x, y). y \<in> set (ch x)}"

text \<open>
  The contract of a store of trees: children are nodes, no node has two parents or occurs
  twice below its parent, and children rank above their parents (so there is no cycle).
\<close>

locale forest =
  fixes ch :: "'t \<Rightarrow> 'a \<Rightarrow> 'a list" and nodes :: "'t \<Rightarrow> 'a list" and ok :: "'t \<Rightarrow> bool"
  assumes child_node: "ok t \<Longrightarrow> x \<in> set (nodes t) \<Longrightarrow> y \<in> set (ch t x) \<Longrightarrow> y \<in> set (nodes t)"
    and ranked: "ok t \<Longrightarrow>
          \<exists>rank :: 'a \<Rightarrow> nat. \<forall>x \<in> set (nodes t). \<forall>y \<in> set (ch t x). rank x < rank y"
    and child_distinct: "ok t \<Longrightarrow> x \<in> set (nodes t) \<Longrightarrow> distinct (ch t x)"
    and parent_unique: "ok t \<Longrightarrow> x \<in> set (nodes t) \<Longrightarrow> x' \<in> set (nodes t) \<Longrightarrow>
          y \<in> set (ch t x) \<Longrightarrow> y \<in> set (ch t x') \<Longrightarrow> x = x'"
begin

lemma reach_node:
  "(s, y) \<in> (edges (ch t))\<^sup>* \<Longrightarrow> ok t \<Longrightarrow> s \<in> set (nodes t) \<Longrightarrow> y \<in> set (nodes t)"
proof (induction rule: rtrancl_induct)
  case base
  then show ?case by simp
next
  case (step y z)
  then show ?case using child_node [of t y z] by (auto simp: edges_def)
qed

lemma no_cycle:
  assumes "ok t" "s \<in> set (nodes t)" "(s, x) \<in> (edges (ch t))\<^sup>*"
  shows "s \<notin> set (ch t x)"
proof -
  obtain rank :: "'a \<Rightarrow> nat"
    where rank: "\<forall>x \<in> set (nodes t). \<forall>y \<in> set (ch t x). rank x < rank y"
    using ranked [OF assms(1)] by blast
  have "x \<in> set (nodes t) \<and> rank s \<le> rank x"
    using assms(3)
  proof (induction rule: rtrancl_induct)
    case base
    then show ?case using assms(2) by simp
  next
    case (step y z)
    then have z: "z \<in> set (ch t y)" by (simp add: edges_def)
    with step.IH rank have "rank y < rank z" by blast
    then show ?case using step.IH z child_node [OF assms(1)] by fastforce
  qed
  then show ?thesis using rank by force
qed

text \<open>The loop invariant of a traversal from \<open>s\<close>.\<close>

definition trav :: "'t \<Rightarrow> 'a \<Rightarrow> 'a list \<Rightarrow> 'a list \<Rightarrow> bool" where
  "trav t s stack res \<longleftrightarrow>
     distinct (res @ stack) \<and> s \<in> set (res @ stack) \<and>
     (\<forall>y \<in> set (res @ stack). (s, y) \<in> (edges (ch t))\<^sup>*) \<and>
     (\<forall>y \<in> set (res @ stack). y = s \<or> (\<exists>x \<in> set res. y \<in> set (ch t x))) \<and>
     (\<forall>x \<in> set res. set (ch t x) \<subseteq> set (res @ stack))"

lemma trav_start: "trav t s [s] []"
  by (simp add: trav_def)

lemma trav_new_child:
  assumes t: "trav t s stack res" "ok t" "s \<in> set (nodes t)" and x: "x \<in> set stack"
    and y: "y \<in> set (ch t x)"
  shows "y \<notin> set (res @ stack)"
proof
  assume yin: "y \<in> set (res @ stack)"
  have sx: "(s, x) \<in> (edges (ch t))\<^sup>*" using t(1) x by (auto simp: trav_def)
  then have xn: "x \<in> set (nodes t)" using reach_node t by blast
  have "y \<noteq> s" using no_cycle [OF t(2,3) sx] y by auto
  then obtain z where z: "z \<in> set res" "y \<in> set (ch t z)"
    using yin t(1) unfolding trav_def by blast
  then have "(s, z) \<in> (edges (ch t))\<^sup>*" using t(1) by (simp add: trav_def)
  then have "z \<in> set (nodes t)" using reach_node t by blast
  then have "z = x" using parent_unique [OF t(2)] xn z(2) y by blast
  then show False using z(1) t(1) x by (auto simp: trav_def)
qed

lemma trav_step:
  assumes t: "trav t s stack res" "ok t" "s \<in> set (nodes t)" and ne: "stack \<noteq> []"
  shows "trav t s (butlast stack @ ch t (last stack)) (res @ [last stack])"
proof -
  obtain st x where stack: "stack = st @ [x]" using ne by (metis append_butlast_last_id)
  have x: "(s, x) \<in> (edges (ch t))\<^sup>*" using t stack by (auto simp: trav_def)
  then have xn: "x \<in> set (nodes t)" using reach_node t by blast
  have new: "set (ch t x) \<inter> set (res @ stack) = {}"
    using trav_new_child [OF t, of x] stack by auto
  have reach: "(s, y) \<in> (edges (ch t))\<^sup>*" if "y \<in> set (ch t x)" for y
    using x that by (auto simp: edges_def intro: rtrancl_into_rtrancl)
  show ?thesis
    using t new reach child_distinct [OF t(2) xn] unfolding stack trav_def by auto
qed

lemma trav_length:
  assumes "trav t s stack res" "ok t" "s \<in> set (nodes t)"
  shows "length (res @ stack) \<le> card (set (nodes t))"
proof -
  have "set (res @ stack) \<subseteq> set (nodes t)"
    using assms reach_node unfolding trav_def by blast
  then have "card (set (res @ stack)) \<le> card (set (nodes t))" by (simp add: card_mono)
  moreover have "distinct (res @ stack)" using assms(1) by (simp add: trav_def)
  ultimately show ?thesis by (metis distinct_card)
qed

lemma worklist_from:
  assumes "trav t s stack res" and ok: "ok t" "s \<in> set (nodes t)"
  shows "\<exists>r. worklist (ch t) stack res = Some r \<and> trav t s [] r"
  using assms(1)
proof (induction "card (set (nodes t)) - length res" arbitrary: stack res rule: less_induct)
  case less
  show ?case
  proof (cases "stack = []")
    case True
    then show ?thesis using less.prems by (simp add: worklist.simps)
  next
    case False
    let ?stack' = "butlast stack @ ch t (last stack)" and ?res' = "res @ [last stack]"
    have "trav t s ?stack' ?res'" using trav_step [OF less.prems ok False] .
    moreover have "card (set (nodes t)) - length ?res' < card (set (nodes t)) - length res"
      using trav_length [OF less.prems ok] False by (cases stack) auto
    ultimately have "\<exists>r. worklist (ch t) ?stack' ?res' = Some r \<and> trav t s [] r"
      using less.hyps by blast
    then show ?thesis using False by (simp add: worklist.simps [of "ch t" stack])
  qed
qed

lemma trav_done:
  assumes "trav t s [] r"
  shows "distinct r \<and> set r = {y. (s, y) \<in> (edges (ch t))\<^sup>*}"
proof -
  have "y \<in> set r" if "(s, y) \<in> (edges (ch t))\<^sup>*" for y
    using that
  proof (induction rule: rtrancl_induct)
    case base
    then show ?case using assms by (simp add: trav_def)
  next
    case (step y z)
    then show ?case using assms by (auto simp: trav_def edges_def)
  qed
  then show ?thesis using assms by (auto simp: trav_def)
qed

lemma worklist_reachable:
  assumes "ok t" "s \<in> set (nodes t)"
  shows "\<exists>r. worklist (ch t) [s] [] = Some r \<and> distinct r \<and>
            set r = {y. (s, y) \<in> (edges (ch t))\<^sup>*}"
  using worklist_from [OF trav_start assms] trav_done by blast

end

text \<open>Both traversals see the same nodes: one lists what it pops, the other what it pushes.\<close>

lemma collectlist_worklist:
  assumes "worklist ch stack res = Some r"
  shows "\<exists>p. collectlist ch stack acc = Some p \<and> mset p + mset stack + mset res = mset r + mset acc"
proof -
  have "\<forall>acc. \<exists>p. collectlist ch stack acc = Some p \<and>
          mset p + mset stack + mset res = mset r + mset acc"
  proof (rule worklist.raw_induct [where P = "\<lambda>ch stack res r. \<forall>acc. \<exists>p.
        collectlist ch stack acc = Some p \<and> mset p + mset stack + mset res = mset r + mset acc",
        OF _ assms])
    fix f ch stack res r
    assume IH: "\<And>ch stack res r. f ch stack res = Some r \<Longrightarrow> \<forall>acc. \<exists>p.
        collectlist ch stack acc = Some p \<and> mset p + mset stack + mset res = mset r + mset acc"
      and eq: "(if stack = [] then Some res
          else f ch (butlast stack @ ch (last stack)) (res @ [last stack])) = Some r"
    show "\<forall>acc. \<exists>p. collectlist ch stack acc = Some p \<and>
        mset p + mset stack + mset res = mset r + mset acc"
    proof (cases "stack = []")
      case True
      then show ?thesis using eq by (simp add: collectlist.simps)
    next
      case False
      then have ms: "mset stack = add_mset (last stack) (mset (butlast stack))"
        by (metis add_mset_add_single append_butlast_last_id mset.simps mset_append)
      show ?thesis
      proof
        fix acc
        have "f ch (butlast stack @ ch (last stack)) (res @ [last stack]) = Some r"
          using eq False by simp
        from IH [OF this] obtain p where "collectlist ch (butlast stack @ ch (last stack)) (acc @ ch (last stack)) = Some p"
          and "mset p + mset (butlast stack @ ch (last stack)) + mset (res @ [last stack])
               = mset r + mset (acc @ ch (last stack))"
          by blast
        then show "\<exists>p. collectlist ch stack acc = Some p \<and>
            mset p + mset stack + mset res = mset r + mset acc"
          using False ms by (simp add: collectlist.simps [of ch stack] ac_simps)
      qed
    qed
  qed
  then show ?thesis by blast
qed

lemma collectlist_reachable:
  assumes "worklist ch [s] [] = Some r" and "distinct r" and "set r = A" and "s \<in> A"
  shows "\<exists>p. collectlist ch [s] [] = Some p \<and> distinct p \<and> set p = A - {s}"
proof -
  obtain p where p: "collectlist ch [s] [] = Some p" "mset p + {#s#} = mset r"
    using collectlist_worklist [OF assms(1), of "[]"] by auto
  then have "mset r = add_mset s (mset p)" by simp
  then have "mset r = mset (s # p)" by simp
  then have "distinct (s # p)" "set r = set (s # p)"
    using assms(2) by (metis mset_eq_imp_distinct_iff, metis set_mset_mset)
  then show ?thesis using p assms(3) by auto
qed

end
