(* ===== verification/MessageTree.thy ===== *)
theory MessageTree
  imports SnapshotQueue Worklist
begin

section \<open>Message trees (\<open>messaging/trees/data.py\<close>, \<open>messaging/models.py\<close>)\<close>

text \<open>
  The node and tree classes of the message queue.  A method that mutates the tree returns
  the new tree; the clock (\<open>datetime.now\<close>) is an argument, in microseconds.  A task handle
  is a number; whether a task is done is asked of the event loop, so it is an argument too.
\<close>

subsection \<open>Messages and nodes\<close>

record incoming_message =
  im_text :: string
  im_chat_id :: string
  im_user_id :: string
  im_message_id :: string
  im_platform :: string
  im_reply_to_message_id :: "string option"
  im_message_thread_id :: "string option"
  im_username :: "string option"
  im_status_message_id :: "string option"
  im_timestamp :: int
  im_raw_event :: json

definition is_reply :: "incoming_message \<Rightarrow> bool" where
  "is_reply m = (im_reply_to_message_id m \<noteq> None)"

datatype message_state = PENDING | IN_PROGRESS | COMPLETED | ERROR

fun state_value :: "message_state \<Rightarrow> string" where
  "state_value PENDING = ''pending''"
| "state_value IN_PROGRESS = ''in_progress''"
| "state_value COMPLETED = ''completed''"
| "state_value ERROR = ''error''"

record message_node =
  nd_node_id :: string
  nd_incoming :: incoming_message
  nd_status_message_id :: string
  nd_state :: message_state
  nd_parent_id :: "string option"
  nd_session_id :: "string option"
  nd_children_ids :: "string list"
  nd_created_at :: int
  nd_completed_at :: "int option"
  nd_error_message :: "string option"
  nd_context :: json

definition set_context :: "json \<Rightarrow> message_node \<Rightarrow> message_node" where
  "set_context c n = n\<lparr>nd_context := c\<rparr>"

text \<open>\<open>MessageNode(...)\<close> with the keyword arguments the callers give.\<close>

definition new_node ::
  "string \<Rightarrow> incoming_message \<Rightarrow> string \<Rightarrow> string option \<Rightarrow> int \<Rightarrow> message_node" where
  "new_node nid inc status_id parent now =
     \<lparr>nd_node_id = nid, nd_incoming = inc, nd_status_message_id = status_id,
      nd_state = PENDING, nd_parent_id = parent, nd_session_id = None, nd_children_ids = [],
      nd_created_at = now, nd_completed_at = None, nd_error_message = None, nd_context = JNull\<rparr>"

subsection \<open>The tree\<close>

record message_tree =
  mt_root_id :: string
  mt_nodes :: "(string, message_node) pydict"
  mt_status_to_node :: "(string, string) pydict"
  mt_queue :: snapshot_queue
  mt_is_processing :: bool
  mt_current_node_id :: "string option"
  mt_current_task :: "nat option"

definition mt_init :: "message_node \<Rightarrow> message_tree" where
  "mt_init root =
     \<lparr>mt_root_id = nd_node_id root, mt_nodes = [(nd_node_id root, root)],
      mt_status_to_node = [(nd_status_message_id root, nd_node_id root)],
      mt_queue = sq_init, mt_is_processing = False, mt_current_node_id = None,
      mt_current_task = None\<rparr>"

definition mt_set_current_task :: "nat option \<Rightarrow> message_tree \<Rightarrow> message_tree" where
  "mt_set_current_task h t = t\<lparr>mt_current_task := h\<rparr>"

definition mt_get_node :: "string \<Rightarrow> message_tree \<Rightarrow> message_node option" where
  "mt_get_node nid t = dict_get nid (mt_nodes t)"

definition mt_set_node :: "message_node \<Rightarrow> message_tree \<Rightarrow> message_tree" where
  "mt_set_node n t = t\<lparr>mt_nodes := dict_set (nd_node_id n) n (mt_nodes t)\<rparr>"

definition mt_add_node ::
  "string \<Rightarrow> incoming_message \<Rightarrow> string \<Rightarrow> string \<Rightarrow> int \<Rightarrow> message_tree
    \<Rightarrow> (message_node \<times> message_tree) result" where
  "mt_add_node nid inc status_id parent_id now t =
     (if \<not> dict_has parent_id (mt_nodes t) then Inl ValueError
      else
        let node = new_node nid inc status_id (Some parent_id) now;
            nodes = dict_set nid node (mt_nodes t);
            status = dict_set status_id nid (mt_status_to_node t)
        in case dict_get parent_id nodes of
             None \<Rightarrow> Inl KeyError
           | Some p \<Rightarrow>
               let nodes = dict_set parent_id (p\<lparr>nd_children_ids := nd_children_ids p @ [nid]\<rparr>) nodes
               in Inr (the (dict_get nid nodes), t\<lparr>mt_nodes := nodes, mt_status_to_node := status\<rparr>))"

definition mt_get_root :: "message_tree \<Rightarrow> message_node result" where
  "mt_get_root t = (case mt_get_node (mt_root_id t) t of None \<Rightarrow> Inl KeyError | Some n \<Rightarrow> Inr n)"

definition mt_get_children :: "string \<Rightarrow> message_tree \<Rightarrow> message_node list" where
  "mt_get_children nid t =
     (case mt_get_node nid t of
        None \<Rightarrow> []
      | Some n \<Rightarrow> List.map_filter (\<lambda>c. mt_get_node c t) (nd_children_ids n))"

definition mt_get_parent :: "string \<Rightarrow> message_tree \<Rightarrow> message_node option" where
  "mt_get_parent nid t =
     (case mt_get_node nid t of
        None \<Rightarrow> None
      | Some n \<Rightarrow>
          (case nd_parent_id n of
             None \<Rightarrow> None
           | Some p \<Rightarrow> if p = [] then None else mt_get_node p t))"

definition mt_get_parent_session_id :: "string \<Rightarrow> message_tree \<Rightarrow> string option" where
  "mt_get_parent_session_id nid t =
     (case mt_get_parent nid t of None \<Rightarrow> None | Some p \<Rightarrow> nd_session_id p)"

definition mt_update_state ::
  "string \<Rightarrow> message_state \<Rightarrow> string option \<Rightarrow> string option \<Rightarrow> int \<Rightarrow> message_tree \<Rightarrow> message_tree" where
  "mt_update_state nid st session_id err now t =
     (case mt_get_node nid t of
        None \<Rightarrow> t
      | Some n \<Rightarrow>
          let n = n\<lparr>nd_state := st\<rparr>;
              n = (if truthy_str session_id then n\<lparr>nd_session_id := session_id\<rparr> else n);
              n = (if truthy_str err then n\<lparr>nd_error_message := err\<rparr> else n);
              n = (if st \<in> {COMPLETED, ERROR} then n\<lparr>nd_completed_at := Some now\<rparr> else n)
          in t\<lparr>mt_nodes := dict_set nid n (mt_nodes t)\<rparr>)"

subsection \<open>Queue and processing flags\<close>

definition mt_enqueue :: "string \<Rightarrow> message_tree \<Rightarrow> nat \<times> message_tree" where
  "mt_enqueue nid t =
     (let q = sq_put nid (mt_queue t) in (sq_qsize q, t\<lparr>mt_queue := q\<rparr>))"

definition mt_dequeue :: "message_tree \<Rightarrow> string option \<times> message_tree" where
  "mt_dequeue t =
     (case sq_get_nowait (mt_queue t) of
        Inl e \<Rightarrow> (None, t)
      | Inr (x, q) \<Rightarrow> (Some x, t\<lparr>mt_queue := q\<rparr>))"

definition mt_get_queue_snapshot :: "message_tree \<Rightarrow> string list" where
  "mt_get_queue_snapshot t = sq_get_snapshot (mt_queue t)"

definition mt_get_queue_size :: "message_tree \<Rightarrow> nat" where
  "mt_get_queue_size t = sq_qsize (mt_queue t)"

definition mt_remove_from_queue :: "string \<Rightarrow> message_tree \<Rightarrow> bool \<times> message_tree" where
  "mt_remove_from_queue nid t =
     (let (b, q) = sq_remove_if_present nid (mt_queue t) in (b, t\<lparr>mt_queue := q\<rparr>))"

definition mt_put_queue_unlocked :: "string \<Rightarrow> message_tree \<Rightarrow> message_tree" where
  "mt_put_queue_unlocked nid t = t\<lparr>mt_queue := sq_put_nowait nid (mt_queue t)\<rparr>"

definition mt_set_processing_state :: "string option \<Rightarrow> bool \<Rightarrow> message_tree \<Rightarrow> message_tree" where
  "mt_set_processing_state nid b t =
     t\<lparr>mt_is_processing := b, mt_current_node_id := (if b then nid else None)\<rparr>"

definition mt_clear_current_node :: "message_tree \<Rightarrow> message_tree" where
  "mt_clear_current_node t = t\<lparr>mt_current_node_id := None\<rparr>"

definition mt_is_current_node :: "string \<Rightarrow> message_tree \<Rightarrow> bool" where
  "mt_is_current_node nid t = (mt_current_node_id t = Some nid)"

definition mt_reset_processing_state :: "message_tree \<Rightarrow> message_tree" where
  "mt_reset_processing_state t = t\<lparr>mt_is_processing := False, mt_current_node_id := None\<rparr>"

text \<open>The task whose \<open>cancel()\<close> is called, if any; the method's result is whether there is one.\<close>

definition mt_cancel_current_task :: "(nat \<Rightarrow> bool) \<Rightarrow> message_tree \<Rightarrow> nat option" where
  "mt_cancel_current_task done t =
     (case mt_current_task t of None \<Rightarrow> None | Some h \<Rightarrow> if done h then None else Some h)"

definition node_error :: "string \<Rightarrow> int \<Rightarrow> message_node \<Rightarrow> message_node" where
  "node_error msg now n =
     n\<lparr>nd_state := ERROR, nd_error_message := Some msg, nd_completed_at := Some now\<rparr>"

definition mt_set_node_error_sync :: "message_node \<Rightarrow> string \<Rightarrow> int \<Rightarrow> message_tree \<Rightarrow> message_tree" where
  "mt_set_node_error_sync n msg now t = mt_set_node (node_error msg now n) t"

text \<open>The \<open>while True\<close> loop of \<open>drain_queue_and_mark_cancelled\<close>: it ends when the queue raises.\<close>

function (sequential) drain_loop :: "string \<Rightarrow> int \<Rightarrow> message_tree \<Rightarrow> message_node list
    \<Rightarrow> message_node list \<times> message_tree" where
  "drain_loop msg now t acc =
     (case sq_deque (mt_queue t) of
        [] \<Rightarrow> (acc, t)
      | nid # rest \<Rightarrow>
          let t = snd (mt_dequeue t) in
          case mt_get_node nid t of
            None \<Rightarrow> drain_loop msg now t acc
          | Some n \<Rightarrow> drain_loop msg now (mt_set_node_error_sync n msg now t)
                        (acc @ [node_error msg now n]))"
  by pat_completeness auto
termination
  by (relation "measure (\<lambda>(msg, now, t, acc). length (sq_deque (mt_queue t)))")
    (auto simp: mt_dequeue_def sq_get_nowait_def mt_set_node_error_sync_def mt_set_node_def)

declare drain_loop.simps [simp del]

definition mt_drain_queue_and_mark_cancelled ::
  "string \<Rightarrow> int \<Rightarrow> message_tree \<Rightarrow> message_node list \<times> message_tree" where
  "mt_drain_queue_and_mark_cancelled msg now t = drain_loop msg now t []"

subsection \<open>Lookup, traversal and removal\<close>

definition mt_all_nodes :: "message_tree \<Rightarrow> message_node list" where
  "mt_all_nodes t = dict_values (mt_nodes t)"

definition mt_has_node :: "string \<Rightarrow> message_tree \<Rightarrow> bool" where
  "mt_has_node nid t = dict_has nid (mt_nodes t)"

definition mt_find_node_by_status_message :: "string \<Rightarrow> message_tree \<Rightarrow> message_node option" where
  "mt_find_node_by_status_message sid t =
     (case dict_get sid (mt_status_to_node t) of
        None \<Rightarrow> None
      | Some nid \<Rightarrow> if nid = [] then None else mt_get_node nid t)"

definition children_of :: "message_tree \<Rightarrow> string \<Rightarrow> string list" where
  "children_of t nid = (case mt_get_node nid t of None \<Rightarrow> [] | Some n \<Rightarrow> nd_children_ids n)"

definition mt_get_descendants :: "string \<Rightarrow> message_tree \<Rightarrow> string list option" where
  "mt_get_descendants nid t =
     (if \<not> mt_has_node nid t then Some [] else worklist (children_of t) [nid] [])"

fun remove_nodes :: "string list \<Rightarrow> message_tree \<Rightarrow> message_node list
    \<Rightarrow> message_node list result \<times> message_tree" where
  "remove_nodes [] t acc = (Inr acc, t)"
| "remove_nodes (nid # rest) t acc =
     (case mt_get_node nid t of
        None \<Rightarrow> remove_nodes rest t acc
      | Some n \<Rightarrow>
          let t = t\<lparr>mt_nodes := dict_del nid (mt_nodes t)\<rparr> in
          if \<not> dict_has (nd_status_message_id n) (mt_status_to_node t) then (Inl KeyError, t)
          else remove_nodes rest
                 (t\<lparr>mt_status_to_node := dict_del (nd_status_message_id n) (mt_status_to_node t)\<rparr>)
                 (acc @ [n]))"

text \<open>\<open>remove_branch\<close>; \<open>None\<close>: the traversal does not end.\<close>

definition mt_remove_branch ::
  "string \<Rightarrow> message_tree \<Rightarrow> (message_node list result \<times> message_tree) option" where
  "mt_remove_branch bid t =
     (if \<not> mt_has_node bid t then Some (Inr [], t)
      else
        let parent = mt_get_parent bid t in
        case mt_get_descendants bid t of
          None \<Rightarrow> None
        | Some ds \<Rightarrow>
            (case remove_nodes ds t [] of
               (Inl e, t') \<Rightarrow> Some (Inl e, t')
             | (Inr removed, t') \<Rightarrow>
                 Some (Inr removed,
                   (case parent of
                      None \<Rightarrow> t'
                    | Some p \<Rightarrow>
                        if bid \<in> set (nd_children_ids p) \<and> mt_has_node (nd_node_id p) t'
                        then mt_set_node
                               (p\<lparr>nd_children_ids := filter (\<lambda>c. c \<noteq> bid) (nd_children_ids p)\<rparr>) t'
                        else t'))))"

end
