(* ===== verification/TreeInvariant.thy ===== *)
theory TreeInvariant
  imports MessageTree
begin

section \<open>The message tree is a tree\<close>

text \<open>
  The invariant of \<open>MessageTree\<close>: the node dictionary is keyed by node id, parent and child
  links agree, there is one root and no cycle, and the status index is the inverse of the
  nodes' status ids.  Every operation of the class keeps it, given that new ids are fresh.
  With it the stack loops of \<open>get_descendants\<close> and \<open>get_pending_children\<close> end and visit
  exactly the subtree, and \<open>remove_branch\<close> removes exactly the subtree.
\<close>

text \<open>The part of a node the shape of the tree depends on.\<close>

definition links :: "message_node \<Rightarrow> string \<times> string option \<times> string list \<times> string" where
  "links n = (nd_node_id n, nd_parent_id n, nd_children_ids n, nd_status_message_id n)"

definition shape :: "message_tree \<Rightarrow> string \<Rightarrow> (string \<times> string option \<times> string list \<times> string) option" where
  "shape t k = map_option links (mt_get_node k t)"

definition node_ids :: "message_tree \<Rightarrow> string list" where
  "node_ids t = dict_keys (mt_nodes t)"

text \<open>What the links \<open>(i, p, cs, s)\<close> of the node stored under \<open>k\<close> must satisfy.\<close>

definition node_wf :: "message_tree \<Rightarrow> string \<Rightarrow> string \<times> string option \<times> string list \<times> string \<Rightarrow> bool" where
  "node_wf t k l \<longleftrightarrow>
     (case l of (i, p, cs, s) \<Rightarrow>
        i = k \<and> distinct cs \<and> dict_get s (mt_status_to_node t) = Some k \<and>
        (p = None \<longrightarrow> k = mt_root_id t) \<and>
        (\<forall>q. p = Some q \<longrightarrow> k \<noteq> mt_root_id t \<and> k \<in> set (children_of t q)) \<and>
        (\<forall>c \<in> set cs. \<exists>i' cs' s'. shape t c = Some (i', Some k, cs', s')))"

definition tree_ok :: "message_tree \<Rightarrow> bool" where
  "tree_ok t \<longleftrightarrow>
     dict_ok (mt_nodes t) \<and> dict_ok (mt_status_to_node t) \<and>
     shape t [] = None \<and> shape t (mt_root_id t) \<noteq> None \<and>
     (\<forall>k l. shape t k = Some l \<longrightarrow> node_wf t k l) \<and>
     (\<forall>s k. dict_get s (mt_status_to_node t) = Some k \<longrightarrow>
        (\<exists>i p cs. shape t k = Some (i, p, cs, s))) \<and>
     (\<exists>rank :: string \<Rightarrow> nat. \<forall>k. \<forall>c \<in> set (children_of t k). rank k < rank c)"

lemma node_ids_iff: "k \<in> set (node_ids t) \<longleftrightarrow> (\<exists>n. mt_get_node k t = Some n)"
  using pd.lookup_keys [of k "mt_nodes t"] by (simp add: node_ids_def mt_get_node_def)

lemma children_of_shape:
  "children_of t k = (case shape t k of None \<Rightarrow> [] | Some (i, p, cs, s) \<Rightarrow> cs)"
  by (simp add: children_of_def shape_def links_def split: option.splits)

lemma shape_Some: "mt_get_node k t = Some n \<Longrightarrow> shape t k = Some (links n)"
  by (simp add: shape_def)

lemma shape_None_iff: "shape t k = None \<longleftrightarrow> k \<notin> set (node_ids t)"
  by (auto simp: shape_def node_ids_iff)

lemma mt_has_node_iff [simp]: "mt_has_node k t \<longleftrightarrow> k \<in> set (node_ids t)"
  by (simp add: mt_has_node_def node_ids_def)

lemma tree_ok_node:
  assumes "tree_ok t" and "mt_get_node k t = Some n"
  shows "nd_node_id n = k" "distinct (nd_children_ids n)"
    "dict_get (nd_status_message_id n) (mt_status_to_node t) = Some k"
  using assms shape_Some [OF assms(2)] by (auto simp: tree_ok_def node_wf_def links_def)

lemma tree_ok_child:
  assumes "tree_ok t" and "c \<in> set (children_of t k)"
  shows "\<exists>i' cs' s'. shape t c = Some (i', Some k, cs', s')"
proof -
  from assms(2) obtain i p cs s where "shape t k = Some (i, p, cs, s)" "c \<in> set cs"
    by (cases "shape t k") (auto simp: children_of_shape)
  then show ?thesis using assms(1) unfolding tree_ok_def node_wf_def by fastforce
qed

lemma tree_ok_cong:
  assumes "tree_ok t" and "\<And>k. shape t' k = shape t k" and "mt_root_id t' = mt_root_id t"
    and "mt_status_to_node t' = mt_status_to_node t" and "dict_ok (mt_nodes t')"
  shows "tree_ok t'"
proof -
  have ch: "children_of t' = children_of t" using assms(2) by (simp add: children_of_shape fun_eq_iff)
  then have "node_wf t' = node_wf t" using assms by (simp add: node_wf_def fun_eq_iff)
  then show ?thesis using assms ch unfolding tree_ok_def by simp
qed

interpretation mt: forest children_of node_ids tree_ok
proof
  fix t :: message_tree and x y :: string
  assume ok: "tree_ok t"
  show "y \<in> set (node_ids t)" if "y \<in> set (children_of t x)"
    using tree_ok_child [OF ok that] shape_None_iff [of t y] by auto
  show "\<exists>rank :: string \<Rightarrow> nat.
      \<forall>x \<in> set (node_ids t). \<forall>y \<in> set (children_of t x). rank x < rank y"
    using ok unfolding tree_ok_def by blast
  show "distinct (children_of t x)"
    using ok by (auto simp: tree_ok_def node_wf_def children_of_shape split: option.splits)
  show "x = x'" if "y \<in> set (children_of t x)" "y \<in> set (children_of t x')" for x'
    using tree_ok_child [OF ok that(1)] tree_ok_child [OF ok that(2)] by auto
qed

subsection \<open>Constructors and node updates\<close>

lemma shape_mt_set_node:
  "shape (mt_set_node n t) k = (if k = nd_node_id n then Some (links n) else shape t k)"
  by (simp add: shape_def mt_set_node_def mt_get_node_def)

lemma tree_ok_set_node:
  assumes "tree_ok t" and "mt_get_node (nd_node_id n) t = Some m" and "links n = links m"
  shows "tree_ok (mt_set_node n t)"
proof (rule tree_ok_cong [OF assms(1)])
  show "shape (mt_set_node n t) k = shape t k" for k
    using assms(2,3) by (simp add: shape_mt_set_node shape_Some)
  show "dict_ok (mt_nodes (mt_set_node n t))"
    using assms(1) by (auto simp: mt_set_node_def tree_ok_def)
qed (simp_all add: mt_set_node_def)

lemma links_node_error [simp]: "links (node_error msg now n) = links n"
  by (simp add: links_def node_error_def)

lemma nd_node_id_node_error [simp]: "nd_node_id (node_error msg now n) = nd_node_id n"
  by (simp add: node_error_def)

lemma tree_ok_set_node_error:
  assumes "tree_ok t" and "mt_get_node k t = Some n"
  shows "tree_ok (mt_set_node_error_sync n msg now t)"
proof -
  have "mt_get_node (nd_node_id (node_error msg now n)) t = Some n"
    using assms tree_ok_node(1) [OF assms] by simp
  then show ?thesis unfolding mt_set_node_error_sync_def
    by (rule tree_ok_set_node [OF assms(1)]) simp
qed

lemma tree_ok_update_state:
  assumes "tree_ok t"
  shows "tree_ok (mt_update_state nid st sid err now t)"
proof (cases "mt_get_node nid t")
  case None
  then show ?thesis using assms by (simp add: mt_update_state_def)
next
  case (Some n)
  define m where "m = (let n = n\<lparr>nd_state := st\<rparr>;
              n = (if truthy_str sid then n\<lparr>nd_session_id := sid\<rparr> else n);
              n = (if truthy_str err then n\<lparr>nd_error_message := err\<rparr> else n)
          in if st \<in> {COMPLETED, ERROR} then n\<lparr>nd_completed_at := Some now\<rparr> else n)"
  have lk: "links m = links n" by (simp add: m_def Let_def links_def)
  then have id: "nd_node_id m = nid" using tree_ok_node(1) [OF assms Some] by (simp add: links_def)
  have "mt_update_state nid st sid err now t = mt_set_node m t"
    using Some id by (simp add: mt_update_state_def mt_set_node_def m_def Let_def)
  then show ?thesis using tree_ok_set_node [OF assms, of m n] Some id lk by simp
qed

text \<open>Operations that touch only the queue or the processing flags.\<close>

lemma tree_ok_frame:
  assumes "tree_ok t" and "mt_nodes t' = mt_nodes t" and "mt_root_id t' = mt_root_id t"
    and "mt_status_to_node t' = mt_status_to_node t"
  shows "tree_ok t'"
  by (rule tree_ok_cong [OF assms(1)])
    (use assms in \<open>auto simp: shape_def mt_get_node_def tree_ok_def\<close>)

lemma tree_ok_queue_ops:
  assumes "tree_ok t"
  shows "tree_ok (snd (mt_enqueue nid t))" "tree_ok (snd (mt_dequeue t))"
    "tree_ok (snd (mt_remove_from_queue nid t))" "tree_ok (mt_put_queue_unlocked nid t)"
    "tree_ok (mt_set_processing_state cur b t)" "tree_ok (mt_clear_current_node t)"
    "tree_ok (mt_reset_processing_state t)" "tree_ok (mt_set_current_task h t)"
  by (rule tree_ok_frame [OF assms]; simp add: mt_enqueue_def mt_dequeue_def
      mt_remove_from_queue_def mt_put_queue_unlocked_def mt_set_processing_state_def
      mt_clear_current_node_def mt_reset_processing_state_def mt_set_current_task_def
      Let_def split: sum.splits prod.splits)+

lemma tree_ok_drain_loop: "tree_ok t \<Longrightarrow> tree_ok (snd (drain_loop msg now t acc))"
proof (induction msg now t acc rule: drain_loop.induct)
  case (1 msg now t acc)
  show ?case
  proof (cases "sq_deque (mt_queue t)")
    case Nil
    then show ?thesis using "1.prems" by (simp add: drain_loop.simps)
  next
    case (Cons nid rest)
    let ?t = "snd (mt_dequeue t)"
    have ok: "tree_ok ?t" using tree_ok_queue_ops(2) [OF "1.prems"] .
    show ?thesis
    proof (cases "mt_get_node nid ?t")
      case None
      then show ?thesis using "1.IH"(1) [OF Cons refl None ok] Cons
        by (simp add: drain_loop.simps [of msg now t acc])
    next
      case (Some n)
      then show ?thesis
        using "1.IH"(2) [OF Cons refl Some tree_ok_set_node_error [OF ok Some]] Cons
        by (simp add: drain_loop.simps [of msg now t acc])
    qed
  qed
qed

lemma tree_ok_init:
  assumes "nid \<noteq> []"
  shows "tree_ok (mt_init (new_node nid inc sid None now))"
  using assms
  by (auto simp: tree_ok_def node_wf_def mt_init_def new_node_def shape_def mt_get_node_def links_def
      dict_ok_def dict_keys_def children_of_def split: if_splits)

subsection \<open>Adding a node\<close>

lemma mt_add_node_shape:
  assumes "tree_ok t" and "mt_get_node p t = Some n" and "mt_get_node nid t = None"
  obtains node t' where "mt_add_node nid inc sid p now t = Inr (node, t')"
    and "node = new_node nid inc sid (Some p) now"
    and "mt_nodes t' = dict_set p (n\<lparr>nd_children_ids := nd_children_ids n @ [nid]\<rparr>)
           (dict_set nid node (mt_nodes t))"
    and "mt_status_to_node t' = dict_set sid nid (mt_status_to_node t)"
    and "mt_root_id t' = mt_root_id t" and "mt_queue t' = mt_queue t"
    and "mt_is_processing t' = mt_is_processing t"
    and "mt_current_node_id t' = mt_current_node_id t"
proof -
  have "p \<noteq> nid" using assms(2,3) by auto
  moreover have "p \<in> set (dict_keys (mt_nodes t))"
    using assms(2) node_ids_iff [of p t] by (simp add: node_ids_def)
  ultimately show thesis
    using assms(2) that by (simp add: mt_add_node_def mt_get_node_def Let_def)
qed

lemma tree_ok_add_node:
  assumes ok: "tree_ok t" and p: "mt_get_node p t = Some n" and fresh: "mt_get_node nid t = None"
    and fresh_s: "dict_get sid (mt_status_to_node t) = None" and ne: "nid \<noteq> []"
    and add: "mt_add_node nid inc sid p now t = Inr (node, t')"
  shows "tree_ok t'"
proof -
  from mt_add_node_shape [OF ok p fresh, of inc sid now] add
  have t': "mt_nodes t' = dict_set p (n\<lparr>nd_children_ids := nd_children_ids n @ [nid]\<rparr>)
           (dict_set nid (new_node nid inc sid (Some p) now) (mt_nodes t))"
    "mt_status_to_node t' = dict_set sid nid (mt_status_to_node t)"
    "mt_root_id t' = mt_root_id t" by auto
  have pn: "p \<noteq> nid" using p fresh by auto
  have np: "shape t p = Some (p, nd_parent_id n, nd_children_ids n, nd_status_message_id n)"
    using shape_Some [OF p] tree_ok_node(1) [OF ok p] by (simp add: links_def)
  have shape': "shape t' k =
      (if k = p then Some (p, nd_parent_id n, nd_children_ids n @ [nid], nd_status_message_id n)
       else if k = nid then Some (nid, Some p, [], sid) else shape t k)" for k
    using np pn tree_ok_node(1) [OF ok p]
    by (auto simp: shape_def t' mt_get_node_def links_def new_node_def)
  have ch': "children_of t' k =
      (if k = p then nd_children_ids n @ [nid] else if k = nid then [] else children_of t k)" for k
    by (simp add: children_of_shape shape')
  have chp: "children_of t p = nd_children_ids n" using np by (simp add: children_of_shape)
  have chn: "children_of t nid = []" using fresh by (simp add: children_of_def)
  have nc: "nid \<notin> set (children_of t k)" for k
    using tree_ok_child [OF ok, of nid k] fresh by (auto simp: shape_def)
  have nid_shape: "shape t nid = None" using fresh by (simp add: shape_def)
  then have nr: "nid \<noteq> mt_root_id t" using ok unfolding tree_ok_def by metis
  obtain rank :: "string \<Rightarrow> nat" where rank: "\<And>k c. c \<in> set (children_of t k) \<Longrightarrow> rank k < rank c"
    using ok unfolding tree_ok_def by blast
  have "\<forall>k. \<forall>c \<in> set (children_of t' k).
      (rank(nid := Suc (rank p))) k < (rank(nid := Suc (rank p))) c"
    using rank nc pn chp by (auto simp: ch')
  then have rank': "\<exists>rank :: string \<Rightarrow> nat. \<forall>k. \<forall>c \<in> set (children_of t' k). rank k < rank c"
    by blast
  have wf: "node_wf t k l" if "shape t k = Some l" for k l
    using ok that unfolding tree_ok_def by blast
  have wf': "node_wf t' k l" if "shape t' k = Some l" for k l
  proof (cases "k = nid")
    case True
    then have "l = (nid, Some p, [], sid)" using that pn by (simp add: shape')
    then show ?thesis using True nr by (simp add: node_wf_def ch' t')
  next
    case False
    then have k: "shape t k \<noteq> None" using that np by (cases l) (auto simp: shape' split: if_splits)
    then obtain i q cs s where l: "shape t k = Some (i, q, cs, s)" by auto
    have "node_wf t k (i, q, cs, s)" using wf l .
    then have w: "i = k" "distinct cs" "dict_get s (mt_status_to_node t) = Some k"
      "q = None \<Longrightarrow> k = mt_root_id t"
      "\<And>q'. q = Some q' \<Longrightarrow> k \<noteq> mt_root_id t \<and> k \<in> set (children_of t q')"
      "\<And>c. c \<in> set cs \<Longrightarrow> \<exists>i' cs' s'. shape t c = Some (i', Some k, cs', s')"
      by (auto simp: node_wf_def)
    have s: "s \<noteq> sid" using w(3) fresh_s by auto
    have c: "c \<in> set cs \<Longrightarrow> c \<noteq> nid \<and> (\<exists>i' cs' s'. shape t' c = Some (i', Some k, cs', s'))" for c
      using w(6) [of c] nid_shape np by (auto simp: shape')
    have q: "q = Some q' \<Longrightarrow> k \<in> set (children_of t' q')" for q'
      using w(5) [of q'] chp chn by (auto simp: ch')
    show ?thesis
    proof (cases "k = p")
      case True
      then have "l = (p, q, cs @ [nid], s)" "cs = nd_children_ids n"
        using that l np by (auto simp: shape')
      then show ?thesis using True w c q s pn nc [of p] chp
        by (auto simp: node_wf_def t' shape')
    next
      case False
      then have "l = (k, q, cs, s)" using that l w(1) \<open>k \<noteq> nid\<close> by (auto simp: shape')
      then show ?thesis using w c q s by (auto simp: node_wf_def t')
    qed
  qed
  have st: "\<exists>i q cs. shape t' k = Some (i, q, cs, s)"
    if "dict_get s (mt_status_to_node t') = Some k" for s k
  proof (cases "s = sid")
    case True
    then show ?thesis using that pn by (auto simp: t' shape')
  next
    case False
    then have "\<exists>i q cs. shape t k = Some (i, q, cs, s)"
      using that ok by (auto simp: t' tree_ok_def)
    then show ?thesis using np nid_shape by (auto simp: shape')
  qed
  show ?thesis
    unfolding tree_ok_def
    using ok ne wf' st rank' pn np
    by (auto simp: t' shape' tree_ok_def split: if_splits)
qed

subsection \<open>Removing a branch\<close>

text \<open>The index between nodes and status messages, which is all the deletion loop needs.\<close>

definition status_ok :: "message_tree \<Rightarrow> bool" where
  "status_ok t \<longleftrightarrow> dict_ok (mt_nodes t) \<and>
     (\<forall>k n. mt_get_node k t = Some n \<longrightarrow>
        dict_get (nd_status_message_id n) (mt_status_to_node t) = Some k)"

lemma tree_ok_status: "tree_ok t \<Longrightarrow> status_ok t"
  using tree_ok_node(3) by (auto simp: status_ok_def tree_ok_def)

lemma remove_nodes_spec:
  assumes "status_ok t" and "distinct ds" and "set ds \<subseteq> set (node_ids t)"
  shows "\<exists>t'. remove_nodes ds t acc = (Inr (acc @ map (\<lambda>k. the (mt_get_node k t)) ds), t') \<and>
    status_ok t' \<and> mt_root_id t' = mt_root_id t \<and>
    (\<forall>k. mt_get_node k t' = (if k \<in> set ds then None else mt_get_node k t)) \<and>
    (dict_ok (mt_status_to_node t) \<longrightarrow> dict_ok (mt_status_to_node t')) \<and>
    (\<forall>s. dict_get s (mt_status_to_node t') =
       (if \<exists>k \<in> set ds. \<exists>n. mt_get_node k t = Some n \<and> nd_status_message_id n = s then None
        else dict_get s (mt_status_to_node t)))"
  using assms
proof (induction ds arbitrary: t acc)
  case Nil
  then show ?case by simp
next
  case (Cons d ds)
  obtain n where n: "mt_get_node d t = Some n" using Cons.prems(3) node_ids_iff by auto
  define t1 where "t1 = t\<lparr>mt_nodes := dict_del d (mt_nodes t),
      mt_status_to_node := dict_del (nd_status_message_id n) (mt_status_to_node t)\<rparr>"
  have get1: "mt_get_node k t1 = (if k = d then None else mt_get_node k t)" for k
    by (simp add: t1_def mt_get_node_def)
  have st1: "mt_status_to_node t1 = dict_del (nd_status_message_id n) (mt_status_to_node t)"
    by (simp add: t1_def)
  have dn: "dict_get (nd_status_message_id n) (mt_status_to_node t) = Some d"
    using Cons.prems(1) n by (simp add: status_ok_def)
  have ok1: "status_ok t1"
    unfolding status_ok_def
  proof (intro conjI allI impI)
    show "dict_ok (mt_nodes t1)" using Cons.prems(1) by (auto simp: t1_def status_ok_def)
    fix k m assume m: "mt_get_node k t1 = Some m"
    then have kd: "k \<noteq> d" and "mt_get_node k t = Some m" by (simp_all add: get1 split: if_splits)
    then have km: "dict_get (nd_status_message_id m) (mt_status_to_node t) = Some k"
      using Cons.prems(1) by (simp add: status_ok_def)
    then have "nd_status_message_id m \<noteq> nd_status_message_id n" using kd dn by auto
    then show "dict_get (nd_status_message_id m) (mt_status_to_node t1) = Some k"
      using km by (simp add: t1_def)
  qed
  have ids: "set ds \<subseteq> set (node_ids t1)"
    using Cons.prems(2,3) by (auto simp: node_ids_iff get1)
  have same: "map (\<lambda>k. the (mt_get_node k t1)) ds = map (\<lambda>k. the (mt_get_node k t)) ds"
    using Cons.prems(2) by (auto simp: get1)
  have step: "remove_nodes (d # ds) t acc = remove_nodes ds t1 (acc @ [n])"
    using n dn pd.lookup_SomeD [OF dn] by (simp add: t1_def Let_def)
  from Cons.IH [OF ok1 _ ids, of "acc @ [n]"] Cons.prems(2) obtain t' where
    t': "remove_nodes ds t1 (acc @ [n]) = (Inr ((acc @ [n]) @ map (\<lambda>k. the (mt_get_node k t1)) ds), t')"
    "status_ok t'" "mt_root_id t' = mt_root_id t1"
    "\<forall>k. mt_get_node k t' = (if k \<in> set ds then None else mt_get_node k t1)"
    "dict_ok (mt_status_to_node t1) \<longrightarrow> dict_ok (mt_status_to_node t')"
    "\<forall>s. dict_get s (mt_status_to_node t') =
       (if \<exists>k \<in> set ds. \<exists>n. mt_get_node k t1 = Some n \<and> nd_status_message_id n = s then None
        else dict_get s (mt_status_to_node t1))"
    by auto
  have "dict_get s (mt_status_to_node t') =
       (if \<exists>k \<in> set (d # ds). \<exists>n. mt_get_node k t = Some n \<and> nd_status_message_id n = s then None
        else dict_get s (mt_status_to_node t))" for s
    using t'(6) n Cons.prems(2) by (auto simp: get1 st1)
  moreover have "mt_get_node k t' = (if k \<in> set (d # ds) then None else mt_get_node k t)" for k
    using t'(4) by (simp add: get1)
  moreover have "dict_ok (mt_status_to_node t) \<longrightarrow> dict_ok (mt_status_to_node t')"
    using t'(5) by (auto simp: st1)
  moreover have "mt_root_id t' = mt_root_id t" using t'(3) by (simp add: t1_def)
  ultimately show ?case using t'(1,2) step n same by auto
qed

definition subtree :: "message_tree \<Rightarrow> string \<Rightarrow> string set" where
  "subtree t k = {y. (k, y) \<in> (edges (children_of t))\<^sup>*}"

lemma subtree_self [simp]: "k \<in> subtree t k"
  by (simp add: subtree_def)

lemma subtree_child: "x \<in> subtree t k \<Longrightarrow> c \<in> set (children_of t x) \<Longrightarrow> c \<in> subtree t k"
  by (auto simp: subtree_def edges_def intro: rtrancl_into_rtrancl)

lemma subtree_parent:
  assumes "y \<in> subtree t k" "y \<noteq> k"
  shows "\<exists>x \<in> subtree t k. y \<in> set (children_of t x)"
  using assms by (auto simp: subtree_def edges_def elim: rtranclE)

lemma get_descendants_subtree:
  assumes "tree_ok t"
  shows "\<exists>ds. mt_get_descendants k t = Some ds \<and> distinct ds \<and>
           set ds = (if k \<in> set (node_ids t) then subtree t k else {})"
  using mt.worklist_reachable [OF assms, of k]
  by (auto simp: mt_get_descendants_def subtree_def)

lemma subtree_nodes:
  "tree_ok t \<Longrightarrow> k \<in> set (node_ids t) \<Longrightarrow> subtree t k \<subseteq> set (node_ids t)"
  using mt.reach_node by (auto simp: subtree_def)

lemma tree_ok_wf: "tree_ok t \<Longrightarrow> shape t k = Some l \<Longrightarrow> node_wf t k l"
  unfolding tree_ok_def by blast

lemma child_unique_parent:
  assumes "tree_ok t" "c \<in> set (children_of t x)" "c \<in> set (children_of t y)"
  shows "x = y"
  using tree_ok_child [OF assms(1,2)] tree_ok_child [OF assms(1,3)] by auto

text \<open>Which links are left once a branch \<open>S\<close> below \<open>p\<close> is cut off.\<close>

lemma tree_ok_cut:
  assumes ok: "tree_ok t" and ids: "bid \<in> set (node_ids t)" and nr: "bid \<noteq> mt_root_id t"
    and par: "bid \<in> set (children_of t p)"
    and root': "mt_root_id t' = mt_root_id t" and dk: "dict_ok (mt_nodes t')"
    and ds: "dict_ok (mt_status_to_node t')"
    and shape': "\<And>k. shape t' k = (if k \<in> subtree t bid then None else if k = p then
          map_option (\<lambda>(i, q, cs, s). (i, q, removeAll bid cs, s)) (shape t p) else shape t k)"
    and status': "\<And>s. dict_get s (mt_status_to_node t') =
          (if \<exists>k \<in> subtree t bid. \<exists>i q cs. shape t k = Some (i, q, cs, s) then None
           else dict_get s (mt_status_to_node t))"
  shows "tree_ok t'"
proof -
  let ?S = "subtree t bid"
  have root: "mt_root_id t \<notin> ?S"
  proof
    assume "mt_root_id t \<in> ?S"
    then obtain x where "mt_root_id t \<in> set (children_of t x)" using subtree_parent nr by metis
    then obtain i' cs' s' where "shape t (mt_root_id t) = Some (i', Some x, cs', s')"
      using tree_ok_child [OF ok] by blast
    from tree_ok_wf [OF ok this] show False by (simp add: node_wf_def)
  qed
  have ch': "children_of t' k = (if k \<in> ?S then [] else if k = p then removeAll bid (children_of t p)
      else children_of t k)" for k
    by (cases "shape t p") (auto simp: children_of_shape shape')
  have inS: "k \<in> ?S" if "c \<in> ?S" "c \<noteq> bid" "c \<in> set (children_of t k)" for c k
    using subtree_parent [OF that(1,2)] child_unique_parent [OF ok that(3)] by blast
  have bid_p: "k = p" if "bid \<in> set (children_of t k)" for k
    using child_unique_parent [OF ok that par] .
  have wf': "node_wf t' k l" if l': "shape t' k = Some l" for k l
  proof -
    have kS: "k \<notin> ?S" using l' by (auto simp: shape')
    with l' obtain i q cs s where l: "shape t k = Some (i, q, cs, s)"
      and leq: "l = (i, q, if k = p then removeAll bid cs else cs, s)"
      by (cases l) (auto simp: shape' split: if_splits)
    have w: "i = k" "distinct cs" "dict_get s (mt_status_to_node t) = Some k"
      "q = None \<Longrightarrow> k = mt_root_id t"
      "\<And>q'. q = Some q' \<Longrightarrow> k \<noteq> mt_root_id t \<and> k \<in> set (children_of t q')"
      "\<And>c. c \<in> set cs \<Longrightarrow> \<exists>i' cs' s'. shape t c = Some (i', Some k, cs', s')"
      using tree_ok_wf [OF ok l] by (auto simp: node_wf_def)
    have cs: "cs = children_of t k" using l by (simp add: children_of_shape)
    have s: "dict_get s (mt_status_to_node t') = Some k"
    proof -
      have False if "k' \<in> ?S" "shape t k' = Some (i', q', cs', s)" for k' i' q' cs'
        using tree_ok_wf [OF ok that(2)] w(3) that(1) kS by (auto simp: node_wf_def)
      then show ?thesis using w(3) status' [of s] by auto
    qed
    have q: "k \<noteq> mt_root_id t' \<and> k \<in> set (children_of t' q')" if "q = Some q'" for q'
      using w(5) [OF that] kS subtree_child [of q' t bid k] root' by (auto simp: ch')
    have c: "\<exists>i' cs' s'. shape t' c = Some (i', Some k, cs', s')"
      if "c \<in> set (if k = p then removeAll bid cs else cs)" for c
    proof -
      have "c \<in> set cs" "c \<noteq> bid" using that bid_p [of k] cs by (auto split: if_splits)
      then have "c \<notin> ?S" using inS [of c k] kS cs by blast
      then show ?thesis using w(6) [OF \<open>c \<in> set cs\<close>] by (auto simp: shape')
    qed
    show ?thesis using w(1,2,4) s q c root' unfolding leq node_wf_def
      by (auto simp: distinct_removeAll)
  qed
  obtain rank :: "string \<Rightarrow> nat" where "\<forall>k. \<forall>c \<in> set (children_of t k). rank k < rank c"
    using ok unfolding tree_ok_def by blast
  then have "\<forall>k. \<forall>c \<in> set (children_of t' k). rank k < rank c" by (auto simp: ch')
  moreover have "\<exists>i q cs. shape t' k = Some (i, q, cs, s)"
    if st: "dict_get s (mt_status_to_node t') = Some k" for s k
  proof -
    have "dict_get s (mt_status_to_node t) = Some k" using st by (auto simp: status' split: if_splits)
    then obtain i q cs where l: "shape t k = Some (i, q, cs, s)"
      using ok unfolding tree_ok_def by blast
    then have "k \<notin> ?S" using st by (auto simp: status' split: if_splits)
    then show ?thesis using l by (auto simp: shape')
  qed
  moreover have "shape t' [] = None" "shape t' (mt_root_id t') \<noteq> None"
    using ok root root' by (auto simp: shape' tree_ok_def)
  ultimately show ?thesis unfolding tree_ok_def using dk ds wf' by blast
qed

lemma remove_branch_spec:
  assumes ok: "tree_ok t" and ids: "bid \<in> set (node_ids t)" and nr: "bid \<noteq> mt_root_id t"
  obtains ds p n t' where
    "mt_remove_branch bid t = Some (Inr (map (\<lambda>k. the (mt_get_node k t)) ds), t')"
    "distinct ds" "set ds = subtree t bid" "tree_ok t'" "mt_root_id t' = mt_root_id t"
    "mt_get_node p t = Some n" "bid \<in> set (nd_children_ids n)" "p \<notin> subtree t bid"
    "\<And>k. mt_get_node k t' = (if k \<in> subtree t bid then None
       else if k = p then Some (n\<lparr>nd_children_ids := removeAll bid (nd_children_ids n)\<rparr>)
       else mt_get_node k t)"
proof -
  obtain ds where ds: "mt_get_descendants bid t = Some ds" "distinct ds" "set ds = subtree t bid"
    using get_descendants_subtree [OF ok, of bid] ids by auto
  obtain m where m: "mt_get_node bid t = Some m" using ids node_ids_iff by auto
  obtain p where p: "nd_parent_id m = Some p" "bid \<in> set (children_of t p)"
    using tree_ok_wf [OF ok shape_Some [OF m]] nr by (cases "nd_parent_id m") (auto simp: node_wf_def links_def)
  then obtain n where n: "mt_get_node p t = Some n" "bid \<in> set (nd_children_ids n)"
    by (cases "mt_get_node p t") (auto simp: children_of_def)
  have nid: "nd_node_id n = p" using tree_ok_node(1) [OF ok n(1)] .
  have "p \<noteq> []" using ok n(1) by (auto simp: tree_ok_def shape_def)
  then have parent: "mt_get_parent bid t = Some n" using m p n by (simp add: mt_get_parent_def)
  have pS: "p \<notin> subtree t bid"
    using mt.no_cycle [OF ok ids, of p] p(2) by (auto simp: subtree_def)
  obtain t1 where t1: "remove_nodes ds t [] = (Inr (map (\<lambda>k. the (mt_get_node k t)) ds), t1)"
    "status_ok t1" "mt_root_id t1 = mt_root_id t"
    "\<And>k. mt_get_node k t1 = (if k \<in> set ds then None else mt_get_node k t)"
    "dict_ok (mt_status_to_node t1)"
    "\<And>s. dict_get s (mt_status_to_node t1) =
       (if \<exists>k \<in> set ds. \<exists>n. mt_get_node k t = Some n \<and> nd_status_message_id n = s then None
        else dict_get s (mt_status_to_node t))"
    using remove_nodes_spec [OF tree_ok_status [OF ok] ds(2), of "[]"] subtree_nodes [OF ok ids] ds(3) ok
    by (auto simp: tree_ok_def)
  define n' where "n' = n\<lparr>nd_children_ids := removeAll bid (nd_children_ids n)\<rparr>"
  define t' where "t' = mt_set_node n' t1"
  have "nd_node_id n \<in> set (node_ids t1)" using t1(4) pS ds(3) n(1) nid by (simp add: node_ids_iff)
  then have rb: "mt_remove_branch bid t = Some (Inr (map (\<lambda>k. the (mt_get_node k t)) ds), t')"
    using ids ds(1) parent t1(1) n(2) by (simp add: mt_remove_branch_def Let_def t'_def n'_def)
  have get': "mt_get_node k t' = (if k \<in> subtree t bid then None
       else if k = p then Some n' else mt_get_node k t)" for k
    using t1(4) ds(3) nid pS by (simp add: t'_def n'_def mt_set_node_def mt_get_node_def)
  have "tree_ok t'"
  proof (rule tree_ok_cut [OF ok ids nr p(2)])
    show "mt_root_id t' = mt_root_id t" using t1(3) by (simp add: t'_def mt_set_node_def)
    show "dict_ok (mt_nodes t')" using t1(2) by (auto simp: t'_def mt_set_node_def status_ok_def)
    show "dict_ok (mt_status_to_node t')" using t1(5) by (simp add: t'_def mt_set_node_def)
    show "shape t' k = (if k \<in> subtree t bid then None else if k = p then
          map_option (\<lambda>(i, q, cs, s). (i, q, removeAll bid cs, s)) (shape t p) else shape t k)" for k
      using n(1) by (simp add: shape_def get' n'_def links_def)
    have "(\<exists>k \<in> set ds. \<exists>n. mt_get_node k t = Some n \<and> nd_status_message_id n = s) \<longleftrightarrow>
        (\<exists>k \<in> subtree t bid. \<exists>i q cs. shape t k = Some (i, q, cs, s))" for s
      using ds(3) by (auto simp: shape_def links_def)
    then show "dict_get s (mt_status_to_node t') =
          (if \<exists>k \<in> subtree t bid. \<exists>i q cs. shape t k = Some (i, q, cs, s) then None
           else dict_get s (mt_status_to_node t))" for s
      using t1(6) by (simp add: t'_def mt_set_node_def)
  qed
  then show thesis
    using that [OF rb ds(2,3) _ _ n pS] get' t1(3) by (simp add: t'_def mt_set_node_def n'_def)
qed

end
