(* ===== verification/TreeJson.thy ===== *)
theory TreeJson
  imports TreeInvariant
begin

section \<open>Saving and restoring trees (\<open>to_dict\<close> / \<open>from_dict\<close> of \<open>data.py\<close>)\<close>

text \<open>
  The serialised form is a JSON value.  \<open>datetime.isoformat\<close> and \<open>fromisoformat\<close> are the
  arguments \<open>isofmt\<close> and \<open>from_isofmt\<close>; the round trip needs that the second inverts the first
  and that an ISO string is not empty.  A value of the wrong type, which Python would store as
  it is, leaves the typed model and is the error \<open>IllTyped\<close>.
\<close>

definition opt_str :: "string option \<Rightarrow> json" where
  "opt_str s = (case s of None \<Rightarrow> JNull | Some t \<Rightarrow> JStr t)"

text \<open>\<open>d[k]\<close>, \<open>d.get(k)\<close> and their typed uses.\<close>

definition need :: "string \<Rightarrow> json \<Rightarrow> json result" where
  "need k j = (case j of JObj d \<Rightarrow> (case dict_get k d of None \<Rightarrow> Inl KeyError | Some v \<Rightarrow> Inr v)
      | _ \<Rightarrow> Inl TypeError)"

fun as_str :: "json \<Rightarrow> string result" where
  "as_str (JStr s) = Inr s"
| "as_str _ = Inl IllTyped"

fun as_opt_str :: "json option \<Rightarrow> string option result" where
  "as_opt_str None = Inr None"
| "as_opt_str (Some JNull) = Inr None"
| "as_opt_str (Some (JStr s)) = Inr (Some s)"
| "as_opt_str (Some _) = Inl IllTyped"

fun as_str_list :: "json list \<Rightarrow> string list result" where
  "as_str_list [] = Inr []"
| "as_str_list (JStr s # js) = bind_result (as_str_list js) (\<lambda>ss. Inr (s # ss))"
| "as_str_list (_ # js) = Inl IllTyped"

fun children_field :: "json option \<Rightarrow> string list result" where
  "children_field None = Inr []"
| "children_field (Some (JList js)) = as_str_list js"
| "children_field (Some _) = Inl IllTyped"

definition incoming_to_dict :: "incoming_message \<Rightarrow> json" where
  "incoming_to_dict m = JObj
     [(''text'', JStr (im_text m)), (''chat_id'', JStr (im_chat_id m)),
      (''user_id'', JStr (im_user_id m)), (''message_id'', JStr (im_message_id m)),
      (''platform'', JStr (im_platform m)),
      (''reply_to_message_id'', opt_str (im_reply_to_message_id m)),
      (''message_thread_id'', opt_str (im_message_thread_id m)),
      (''username'', opt_str (im_username m))]"

definition node_to_dict :: "(int \<Rightarrow> string) \<Rightarrow> message_node \<Rightarrow> json" where
  "node_to_dict isofmt n = JObj
     [(''node_id'', JStr (nd_node_id n)), (''incoming'', incoming_to_dict (nd_incoming n)),
      (''status_message_id'', JStr (nd_status_message_id n)),
      (''state'', JStr (state_value (nd_state n))),
      (''parent_id'', opt_str (nd_parent_id n)), (''session_id'', opt_str (nd_session_id n)),
      (''children_ids'', JList (map JStr (nd_children_ids n))),
      (''created_at'', JStr (isofmt (nd_created_at n))),
      (''completed_at'', opt_str (map_option isofmt (nd_completed_at n))),
      (''error_message'', opt_str (nd_error_message n)), (''context'', nd_context n)]"

definition incoming_from_dict :: "int \<Rightarrow> json \<Rightarrow> incoming_message result" where
  "incoming_from_dict now j =
     bind_result (bind_result (need ''text'' j) as_str) (\<lambda>text.
     bind_result (bind_result (need ''chat_id'' j) as_str) (\<lambda>chat.
     bind_result (bind_result (need ''user_id'' j) as_str) (\<lambda>user.
     bind_result (bind_result (need ''message_id'' j) as_str) (\<lambda>msg.
     bind_result (bind_result (need ''platform'' j) as_str) (\<lambda>plat.
     bind_result (as_opt_str (json_get ''reply_to_message_id'' j)) (\<lambda>reply.
     bind_result (as_opt_str (json_get ''message_thread_id'' j)) (\<lambda>thread.
     bind_result (as_opt_str (json_get ''username'' j)) (\<lambda>uname.
       Inr \<lparr>im_text = text, im_chat_id = chat, im_user_id = user, im_message_id = msg,
            im_platform = plat, im_reply_to_message_id = reply, im_message_thread_id = thread,
            im_username = uname, im_status_message_id = None, im_timestamp = now,
            im_raw_event = JNull\<rparr>))))))))"

text \<open>\<open>MessageState(data["state"])\<close>, with \<open>ERROR\<close> for a missing or unknown value.\<close>

definition state_from :: "json option \<Rightarrow> message_state" where
  "state_from j =
     (if j = Some (JStr ''pending'') then PENDING
      else if j = Some (JStr ''in_progress'') then IN_PROGRESS
      else if j = Some (JStr ''completed'') then COMPLETED
      else ERROR)"

definition time_of :: "(string \<Rightarrow> int option) \<Rightarrow> string \<Rightarrow> int result" where
  "time_of from_isofmt s = (case from_isofmt s of None \<Rightarrow> Inl ValueError | Some t \<Rightarrow> Inr t)"

definition opt_time_of :: "(string \<Rightarrow> int option) \<Rightarrow> string option \<Rightarrow> int option result" where
  "opt_time_of from_isofmt s =
     (case s of None \<Rightarrow> Inr None
      | Some t \<Rightarrow> if t = [] then Inr None else bind_result (time_of from_isofmt t) (Inr \<circ> Some))"

definition node_from_dict ::
  "(string \<Rightarrow> int option) \<Rightarrow> int \<Rightarrow> json \<Rightarrow> message_node result" where
  "node_from_dict from_isofmt now j =
     bind_result (bind_result (need ''incoming'' j) (incoming_from_dict now)) (\<lambda>inc.
     bind_result (bind_result (need ''node_id'' j) as_str) (\<lambda>nid.
     bind_result (bind_result (need ''status_message_id'' j) as_str) (\<lambda>sid.
     bind_result (as_opt_str (json_get ''parent_id'' j)) (\<lambda>parent.
     bind_result (as_opt_str (json_get ''session_id'' j)) (\<lambda>session.
     bind_result (children_field (json_get ''children_ids'' j)) (\<lambda>children.
     bind_result (bind_result (bind_result (need ''created_at'' j) as_str) (time_of from_isofmt)) (\<lambda>created.
     bind_result (bind_result (as_opt_str (json_get ''completed_at'' j)) (opt_time_of from_isofmt)) (\<lambda>completed.
     bind_result (as_opt_str (json_get ''error_message'' j)) (\<lambda>err.
       Inr \<lparr>nd_node_id = nid, nd_incoming = inc, nd_status_message_id = sid,
            nd_state = state_from (json_get ''state'' j), nd_parent_id = parent,
            nd_session_id = session, nd_children_ids = children, nd_created_at = created,
            nd_completed_at = completed, nd_error_message = err,
            nd_context = (case json_get ''context'' j of None \<Rightarrow> JNull | Some c \<Rightarrow> c)\<rparr>)))))))))"

subsection \<open>Trees\<close>

definition tree_to_dict :: "(int \<Rightarrow> string) \<Rightarrow> message_tree \<Rightarrow> json" where
  "tree_to_dict isofmt t = JObj
     [(''root_id'', JStr (mt_root_id t)),
      (''nodes'', JObj (map (\<lambda>(k, n). (k, node_to_dict isofmt n)) (mt_nodes t)))]"

definition mt_add_node_from_dict :: "message_node \<Rightarrow> message_tree \<Rightarrow> message_tree" where
  "mt_add_node_from_dict n t =
     t\<lparr>mt_nodes := dict_set (nd_node_id n) n (mt_nodes t),
       mt_status_to_node := dict_set (nd_status_message_id n) (nd_node_id n) (mt_status_to_node t)\<rparr>"

fun load_nodes :: "(string \<Rightarrow> int option) \<Rightarrow> int \<Rightarrow> string \<Rightarrow> (string \<times> json) list \<Rightarrow> message_tree
    \<Rightarrow> message_tree result" where
  "load_nodes from_isofmt now root [] t = Inr t"
| "load_nodes from_isofmt now root ((k, j) # kjs) t =
     (if k = root then load_nodes from_isofmt now root kjs t
      else bind_result (node_from_dict from_isofmt now j) (\<lambda>n.
             load_nodes from_isofmt now root kjs (mt_add_node_from_dict n t)))"

fun as_obj :: "json \<Rightarrow> (string \<times> json) list result" where
  "as_obj (JObj d) = Inr d"
| "as_obj _ = Inl TypeError"

definition tree_from_dict ::
  "(string \<Rightarrow> int option) \<Rightarrow> int \<Rightarrow> json \<Rightarrow> message_tree result" where
  "tree_from_dict from_isofmt now j =
     bind_result (bind_result (need ''root_id'' j) as_str) (\<lambda>root.
     bind_result (bind_result (need ''nodes'' j) as_obj) (\<lambda>nodes.
     bind_result (bind_result (need root (JObj nodes)) (node_from_dict from_isofmt now)) (\<lambda>rn.
       load_nodes from_isofmt now root nodes (mt_init rn))))"

subsection \<open>Round trips\<close>

text \<open>What is not saved: the message's transient fields.\<close>

definition saved_incoming :: "int \<Rightarrow> incoming_message \<Rightarrow> incoming_message" where
  "saved_incoming now m =
     m\<lparr>im_status_message_id := None, im_timestamp := now, im_raw_event := JNull\<rparr>"

definition saved_node :: "int \<Rightarrow> message_node \<Rightarrow> message_node" where
  "saved_node now n = n\<lparr>nd_incoming := saved_incoming now (nd_incoming n)\<rparr>"

lemma as_opt_str_opt_str [simp]: "as_opt_str (Some (opt_str s)) = Inr s"
  by (cases s) (simp_all add: opt_str_def)

lemma as_str_list_map [simp]: "as_str_list (map JStr ss) = Inr ss"
  by (induction ss) simp_all

lemma state_from_value [simp]: "state_from (Some (JStr (state_value s))) = s"
  by (cases s) (simp_all add: state_from_def)

lemma incoming_roundtrip: "incoming_from_dict now (incoming_to_dict m) = Inr (saved_incoming now m)"
  by (simp add: incoming_from_dict_def incoming_to_dict_def need_def saved_incoming_def)

lemma node_roundtrip:
  assumes "\<And>t. from_isofmt (isofmt t) = Some t" and "\<And>t. isofmt t \<noteq> []"
  shows "node_from_dict from_isofmt now (node_to_dict isofmt n) = Inr (saved_node now n)"
proof -
  have "opt_time_of from_isofmt (map_option isofmt (nd_completed_at n)) = Inr (nd_completed_at n)"
    using assms by (cases "nd_completed_at n") (simp_all add: opt_time_of_def time_of_def)
  then show ?thesis
    using assms by (simp add: node_from_dict_def node_to_dict_def need_def incoming_roundtrip
        time_of_def saved_node_def)
qed

lemma saved_node_ids [simp]:
  "nd_node_id (saved_node now n) = nd_node_id n"
  "nd_status_message_id (saved_node now n) = nd_status_message_id n"
  "links (saved_node now n) = links n"
  by (simp_all add: saved_node_def links_def)

text \<open>The loading loop as a fold, and the two dictionaries it builds.\<close>

definition restore_node :: "int \<Rightarrow> string \<Rightarrow> string \<times> message_node \<Rightarrow> message_tree \<Rightarrow> message_tree" where
  "restore_node now root = (\<lambda>(k, n) t.
     if k = root then t else mt_add_node_from_dict (saved_node now n) t)"

lemma load_nodes_fold:
  assumes "\<And>t. from_isofmt (isofmt t) = Some t" "\<And>t. isofmt t \<noteq> []"
  shows "load_nodes from_isofmt now root (map (\<lambda>(k, n). (k, node_to_dict isofmt n)) d) t
         = Inr (fold (restore_node now root) d t)"
  using node_roundtrip [of from_isofmt isofmt, OF assms]
  by (induction d arbitrary: t) (auto simp: restore_node_def)

lemma restore_node_step [simp]:
  "mt_root_id (restore_node now root kn t) = mt_root_id t"
  "mt_queue (restore_node now root kn t) = mt_queue t"
  "mt_is_processing (restore_node now root kn t) = mt_is_processing t"
  "mt_current_node_id (restore_node now root kn t) = mt_current_node_id t"
  by (cases kn; simp add: restore_node_def mt_add_node_from_dict_def)+

lemma restore_node_fields [simp]:
  "mt_root_id (fold (restore_node now root) d t) = mt_root_id t"
  "mt_queue (fold (restore_node now root) d t) = mt_queue t"
  "mt_is_processing (fold (restore_node now root) d t) = mt_is_processing t"
  "mt_current_node_id (fold (restore_node now root) d t) = mt_current_node_id t"
  by (induction d arbitrary: t) simp_all

lemma restore_node_ok:
  "dict_ok (mt_nodes t) \<Longrightarrow> dict_ok (mt_nodes (fold (restore_node now root) d t))"
  "dict_ok (mt_status_to_node t) \<Longrightarrow> dict_ok (mt_status_to_node (fold (restore_node now root) d t))"
  by (induction d arbitrary: t) (auto simp: restore_node_def mt_add_node_from_dict_def)

lemma restore_node_other:
  "\<forall>(j, n) \<in> set d. nd_node_id n = j \<Longrightarrow> k \<notin> fst ` set d \<or> k = root \<Longrightarrow>
     mt_get_node k (fold (restore_node now root) d t) = mt_get_node k t"
  by (induction d arbitrary: t)
    (auto simp: restore_node_def mt_add_node_from_dict_def mt_get_node_def)

lemma restore_node_get:
  assumes "\<forall>(j, n) \<in> set d. nd_node_id n = j" and "distinct (map fst d)"
    and "(k, n) \<in> set d" and "k \<noteq> root"
  shows "mt_get_node k (fold (restore_node now root) d t) = Some (saved_node now n)"
  using assms
proof (induction d rule: rev_induct)
  case Nil
  then show ?case by simp
next
  case (snoc a d)
  obtain j m where a: "a = (j, m)" by (cases a)
  have j: "nd_node_id m = j" using snoc.prems(1) a by simp
  show ?case
  proof (cases "k = j")
    case True
    then have "n = m" using snoc.prems(2,3) a by (auto simp: image_iff)
    then show ?thesis using True a j snoc.prems(4)
      by (simp add: restore_node_def mt_add_node_from_dict_def mt_get_node_def)
  next
    case False
    then have "mt_get_node k (fold (restore_node now root) d t) = Some (saved_node now n)"
      using snoc by (simp add: a)
    then show ?thesis using False a j
      by (simp add: restore_node_def mt_add_node_from_dict_def mt_get_node_def)
  qed
qed

lemma restore_status_mem:
  assumes "\<forall>(j, n) \<in> set d. nd_node_id n = j"
    and "\<forall>(j, m) \<in> set d. nd_status_message_id n = nd_status_message_id m \<longrightarrow> k = j"
    and "(k, n) \<in> set d" and "k \<noteq> root"
  shows "dict_get (nd_status_message_id n) (mt_status_to_node (fold (restore_node now root) d t)) = Some k"
  using assms
proof (induction d rule: rev_induct)
  case Nil
  then show ?case by simp
next
  case (snoc a d)
  obtain j m where a: "a = (j, m)" by (cases a)
  have j: "nd_node_id m = j" using snoc.prems(1) a by simp
  show ?case
  proof (cases "nd_status_message_id n = nd_status_message_id m")
    case True
    then have "k = j" using snoc.prems(2) a by simp
    then show ?thesis using True a j snoc.prems(4)
      by (simp add: restore_node_def mt_add_node_from_dict_def)
  next
    case False
    then have "(k, n) \<in> set d" using snoc.prems(3) a by auto
    then show ?thesis using snoc False a
      by (simp add: restore_node_def mt_add_node_from_dict_def)
  qed
qed

lemma restore_status_other:
  "\<forall>(j, n) \<in> set d. nd_node_id n = j \<Longrightarrow>
     \<forall>(j, n) \<in> set d. j \<noteq> root \<longrightarrow> nd_status_message_id n \<noteq> x \<Longrightarrow>
     dict_get x (mt_status_to_node (fold (restore_node now root) d t)) = dict_get x (mt_status_to_node t)"
  by (induction d arbitrary: t) (auto simp: restore_node_def mt_add_node_from_dict_def)

lemma restore_status_rev:
  assumes "\<forall>(j, n) \<in> set d. nd_node_id n = j"
    and "dict_get x (mt_status_to_node (fold (restore_node now root) d t)) = Some k"
  shows "dict_get x (mt_status_to_node t) = Some k \<or>
     (\<exists>n. (k, n) \<in> set d \<and> k \<noteq> root \<and> nd_status_message_id n = x)"
  using assms
proof (induction d rule: rev_induct)
  case Nil
  then show ?case by simp
next
  case (snoc a d)
  then show ?case
    by (cases a) (auto simp: restore_node_def mt_add_node_from_dict_def split: if_splits)
qed

lemma tree_ok_saved:
  assumes ok: "tree_ok t" and get: "\<And>k. mt_get_node k t' = map_option (saved_node now) (mt_get_node k t)"
    and root: "mt_root_id t' = mt_root_id t"
    and st: "\<And>s. dict_get s (mt_status_to_node t') = dict_get s (mt_status_to_node t)"
    and "dict_ok (mt_nodes t')" "dict_ok (mt_status_to_node t')"
  shows "tree_ok t'"
proof -
  have shape: "shape t' = shape t"
    by (rule ext) (simp add: shape_def get option.map_comp comp_def)
  then have ch: "children_of t' = children_of t" by (simp add: children_of_shape fun_eq_iff)
  have "node_wf t' = node_wf t" by (simp add: node_wf_def fun_eq_iff shape ch root st)
  then show ?thesis using ok assms(5,6) unfolding tree_ok_def by (simp add: shape ch root st)
qed

lemma tree_roundtrip:
  assumes isof: "\<And>t. from_isofmt (isofmt t) = Some t" "\<And>t. isofmt t \<noteq> []" and ok: "tree_ok t"
  shows "\<exists>t'. tree_from_dict from_isofmt now (tree_to_dict isofmt t) = Inr t' \<and> tree_ok t' \<and>
    (\<forall>k. mt_get_node k t' = map_option (saved_node now) (mt_get_node k t)) \<and>
    mt_root_id t' = mt_root_id t \<and> mt_get_queue_snapshot t' = [] \<and> \<not> mt_is_processing t'"
proof -
  let ?d = "mt_nodes t" and ?root = "mt_root_id t"
  have dist: "distinct (map fst ?d)" using ok by (simp add: tree_ok_def dict_ok_def dict_keys_def)
  have mem: "(k, n) \<in> set ?d \<longleftrightarrow> mt_get_node k t = Some n" for k n
    using dist by (simp add: mt_get_node_def dict_get_def)
  have ids: "\<forall>(j, n) \<in> set ?d. nd_node_id n = j"
    using mem tree_ok_node(1) [OF ok] by auto
  have "?root \<in> set (node_ids t)"
    using ok shape_None_iff [of t ?root] by (auto simp: tree_ok_def)
  then obtain rn where rn: "mt_get_node ?root t = Some rn" using node_ids_iff by auto
  have rid: "nd_node_id rn = ?root" using tree_ok_node(1) [OF ok rn] .
  define t0 where "t0 = mt_init (saved_node now rn)"
  define t' where "t' = fold (restore_node now ?root) ?d t0"
  have root0: "mt_root_id t0 = ?root" using rid by (simp add: t0_def mt_init_def)
  have gr: "dict_get ?root (map (\<lambda>(k, n). (k, node_to_dict isofmt n)) ?d)
      = Some (node_to_dict isofmt rn)"
    using rn by (simp add: mt_get_node_def dict_get_def map_of_map)
  have load: "tree_from_dict from_isofmt now (tree_to_dict isofmt t) = Inr t'"
    using gr load_nodes_fold [of from_isofmt isofmt now ?root ?d t0, OF isof]
      node_roundtrip [of from_isofmt isofmt now rn, OF isof]
    by (simp add: tree_from_dict_def tree_to_dict_def need_def t0_def t'_def)
  have get: "mt_get_node k t' = map_option (saved_node now) (mt_get_node k t)" for k
  proof (cases "k = ?root")
    case True
    then show ?thesis using restore_node_other [OF ids, of k ?root now t0] rn rid
      by (simp add: t'_def t0_def mt_init_def mt_get_node_def)
  next
    case False
    show ?thesis
    proof (cases "mt_get_node k t")
      case None
      then have "k \<notin> fst ` set ?d" using mem by auto
      then show ?thesis using restore_node_other [OF ids, of k ?root now t0] None False rid
        by (simp add: t'_def t0_def mt_init_def mt_get_node_def)
    next
      case (Some n)
      then show ?thesis using restore_node_get [OF ids dist _ False] mem by (simp add: t'_def)
    qed
  qed
  have rst: "dict_get (nd_status_message_id rn) (mt_status_to_node t) = Some ?root"
    using tree_ok_node(3) [OF ok rn] .
  have uniq: "nd_status_message_id n \<noteq> nd_status_message_id m"
    if "mt_get_node k t = Some n" "mt_get_node j t = Some m" "k \<noteq> j" for k j n m
    using tree_ok_node(3) [OF ok that(1)] tree_ok_node(3) [OF ok that(2)] that(3) by auto
  have st0: "dict_get s (mt_status_to_node t0) =
      (if s = nd_status_message_id rn then Some ?root else None)" for s
    using rid by (simp add: t0_def mt_init_def)
  have fwd: "dict_get s (mt_status_to_node t') = Some k" if s: "dict_get s (mt_status_to_node t) = Some k" for s k
  proof -
    obtain i q cs where "shape t k = Some (i, q, cs, s)"
      using s ok unfolding tree_ok_def by blast
    then obtain n where n: "mt_get_node k t = Some n" "nd_status_message_id n = s"
      by (cases "mt_get_node k t") (auto simp: shape_def links_def)
    show ?thesis
    proof (cases "k = ?root")
      case False
      have u: "\<forall>(j, m) \<in> set ?d. nd_status_message_id n = nd_status_message_id m \<longrightarrow> k = j"
        using uniq n(1) mem by blast
      have "(k, n) \<in> set ?d" using mem n(1) by simp
      from restore_status_mem [OF ids u this False, of now t0] show ?thesis
        using n(2) by (simp add: t'_def)
    next
      case True
      then have "dict_get s (mt_status_to_node t0) = Some ?root" using n rn st0 by simp
      moreover have "dict_get s (mt_status_to_node t') = dict_get s (mt_status_to_node t0)"
        unfolding t'_def using True n rn uniq mem
        by (intro restore_status_other [OF ids]) auto
      ultimately show ?thesis using True by simp
    qed
  qed
  have bwd: "dict_get s (mt_status_to_node t) = Some k" if s: "dict_get s (mt_status_to_node t') = Some k" for s k
  proof (cases "dict_get s (mt_status_to_node t0) = Some k")
    case True
    then show ?thesis using st0 [of s] rst by (simp split: if_splits)
  next
    case False
    then obtain n where "(k, n) \<in> set ?d" "nd_status_message_id n = s"
      using restore_status_rev [OF ids s [unfolded t'_def]] by blast
    then show ?thesis using tree_ok_node(3) [OF ok, of k n] mem by blast
  qed
  have st: "dict_get s (mt_status_to_node t') = dict_get s (mt_status_to_node t)" for s
    using fwd [of s] bwd [of s] by (cases "dict_get s (mt_status_to_node t)";
        cases "dict_get s (mt_status_to_node t')") auto
  have ok0: "dict_ok (mt_nodes t0)" "dict_ok (mt_status_to_node t0)"
    by (simp_all add: t0_def mt_init_def dict_ok_def)
  have "dict_ok (mt_nodes t')" "dict_ok (mt_status_to_node t')"
    unfolding t'_def using restore_node_ok(1) [OF ok0(1)] restore_node_ok(2) [OF ok0(2)] by simp_all
  then have "tree_ok t'"
    using tree_ok_saved [OF ok get _ st] root0 by (simp add: t'_def)
  then show ?thesis
    using load get root0 by (auto simp: t'_def t0_def mt_init_def mt_get_queue_snapshot_def sq_defs)
qed

end
