(* ===== verification/TreeRepository.thy ===== *)
theory TreeRepository
  imports TreeJson
begin

section \<open>The index of all trees (\<open>messaging/trees/queue_manager.py\<close>, \<open>TreeRepository\<close>)\<close>

text \<open>
  Trees by root id, and the root id of every registered message id.  Status message ids are
  registered too, though no node has them as its id.
\<close>

record tree_repository =
  tr_trees :: "(string, message_tree) pydict"
  tr_node_to_tree :: "(string, string) pydict"

definition tr_init :: tree_repository where
  "tr_init = \<lparr>tr_trees = [], tr_node_to_tree = []\<rparr>"

definition tr_get_tree :: "string \<Rightarrow> tree_repository \<Rightarrow> message_tree option" where
  "tr_get_tree root r = dict_get root (tr_trees r)"

definition tr_get_tree_for_node :: "string \<Rightarrow> tree_repository \<Rightarrow> message_tree option" where
  "tr_get_tree_for_node nid r =
     (case dict_get nid (tr_node_to_tree r) of
        None \<Rightarrow> None
      | Some root \<Rightarrow> if root = [] then None else tr_get_tree root r)"

definition tr_get_node :: "string \<Rightarrow> tree_repository \<Rightarrow> message_node option" where
  "tr_get_node nid r =
     (case tr_get_tree_for_node nid r of None \<Rightarrow> None | Some t \<Rightarrow> mt_get_node nid t)"

definition tr_put_tree :: "string \<Rightarrow> message_tree \<Rightarrow> tree_repository \<Rightarrow> tree_repository" where
  "tr_put_tree root t r = r\<lparr>tr_trees := dict_set root t (tr_trees r)\<rparr>"

definition tr_register_node :: "string \<Rightarrow> string \<Rightarrow> tree_repository \<Rightarrow> tree_repository" where
  "tr_register_node nid root r =
     r\<lparr>tr_node_to_tree := dict_set nid root (tr_node_to_tree r)\<rparr>"

definition tr_add_tree :: "string \<Rightarrow> message_tree \<Rightarrow> tree_repository \<Rightarrow> tree_repository" where
  "tr_add_tree root t r = tr_register_node root root (tr_put_tree root t r)"

definition tr_has_node :: "string \<Rightarrow> tree_repository \<Rightarrow> bool" where
  "tr_has_node nid r = dict_has nid (tr_node_to_tree r)"

definition tr_tree_count :: "tree_repository \<Rightarrow> nat" where
  "tr_tree_count r = length (tr_trees r)"

definition tr_is_tree_busy :: "string \<Rightarrow> tree_repository \<Rightarrow> bool" where
  "tr_is_tree_busy root r =
     (case tr_get_tree root r of None \<Rightarrow> False | Some t \<Rightarrow> mt_is_processing t)"

definition tr_is_node_tree_busy :: "string \<Rightarrow> tree_repository \<Rightarrow> bool" where
  "tr_is_node_tree_busy nid r =
     (case tr_get_tree_for_node nid r of None \<Rightarrow> False | Some t \<Rightarrow> mt_is_processing t)"

definition tr_get_queue_size :: "string \<Rightarrow> tree_repository \<Rightarrow> nat" where
  "tr_get_queue_size nid r =
     (case tr_get_tree_for_node nid r of None \<Rightarrow> 0 | Some t \<Rightarrow> mt_get_queue_size t)"

definition tr_resolve_parent_node_id :: "string \<Rightarrow> tree_repository \<Rightarrow> string option" where
  "tr_resolve_parent_node_id msg r =
     (case tr_get_tree_for_node msg r of
        None \<Rightarrow> None
      | Some t \<Rightarrow>
          if mt_has_node msg t then Some msg
          else (case mt_find_node_by_status_message msg t of
                  None \<Rightarrow> None | Some n \<Rightarrow> Some (nd_node_id n)))"

text \<open>The children \<open>get_pending_children\<close> follows: those that exist and are pending.\<close>

definition pending_children_of :: "message_tree \<Rightarrow> string \<Rightarrow> string list" where
  "pending_children_of t nid =
     filter (\<lambda>c. \<exists>n. mt_get_node c t = Some n \<and> nd_state n = PENDING) (children_of t nid)"

definition tr_get_pending_children :: "string \<Rightarrow> tree_repository \<Rightarrow> message_node list option" where
  "tr_get_pending_children nid r =
     (case tr_get_tree_for_node nid r of
        None \<Rightarrow> Some []
      | Some t \<Rightarrow> map_option (map (\<lambda>c. the (mt_get_node c t)))
                   (collectlist (pending_children_of t) [nid] []))"

definition tr_all_trees :: "tree_repository \<Rightarrow> message_tree list" where
  "tr_all_trees r = dict_values (tr_trees r)"

definition tr_tree_ids :: "tree_repository \<Rightarrow> string list" where
  "tr_tree_ids r = dict_keys (tr_trees r)"

definition tr_unregister_nodes :: "string list \<Rightarrow> tree_repository \<Rightarrow> tree_repository" where
  "tr_unregister_nodes nids r =
     r\<lparr>tr_node_to_tree := fold dict_del nids (tr_node_to_tree r)\<rparr>"

definition tr_remove_tree :: "string \<Rightarrow> tree_repository \<Rightarrow> message_tree option \<times> tree_repository" where
  "tr_remove_tree root r =
     (case tr_get_tree root r of
        None \<Rightarrow> (None, r)
      | Some t \<Rightarrow> (Some t, tr_unregister_nodes (map nd_node_id (mt_all_nodes t))
                              (r\<lparr>tr_trees := dict_del root (tr_trees r)\<rparr>)))"

definition node_message_ids :: "string \<Rightarrow> string \<Rightarrow> message_node \<Rightarrow> string set" where
  "node_message_ids platform chat n =
     (if im_platform (nd_incoming n) = platform \<and> im_chat_id (nd_incoming n) = chat
      then {im_message_id (nd_incoming n)} \<union>
           (if nd_status_message_id n \<noteq> [] then {nd_status_message_id n} else {})
      else {})"

definition tr_get_message_ids_for_chat :: "string \<Rightarrow> string \<Rightarrow> tree_repository \<Rightarrow> string set" where
  "tr_get_message_ids_for_chat platform chat r =
     (\<Union>t \<in> set (tr_all_trees r). \<Union>n \<in> set (mt_all_nodes t). node_message_ids platform chat n)"

definition tr_to_dict :: "(int \<Rightarrow> string) \<Rightarrow> tree_repository \<Rightarrow> json" where
  "tr_to_dict isofmt r = JObj
     [(''trees'', JObj (map (\<lambda>(k, t). (k, tree_to_dict isofmt t)) (tr_trees r))),
      (''node_to_tree'', JObj (map (\<lambda>(k, v). (k, JStr v)) (tr_node_to_tree r)))]"

fun load_trees :: "(string \<Rightarrow> int option) \<Rightarrow> int \<Rightarrow> (string \<times> json) list
    \<Rightarrow> (string, message_tree) pydict \<Rightarrow> (string, message_tree) pydict result" where
  "load_trees from_isofmt now [] acc = Inr acc"
| "load_trees from_isofmt now ((k, j) # kjs) acc =
     bind_result (tree_from_dict from_isofmt now j) (\<lambda>t.
       load_trees from_isofmt now kjs (dict_set k t acc))"

fun load_index :: "(string \<times> json) list \<Rightarrow> (string, string) pydict result" where
  "load_index [] = Inr []"
| "load_index ((k, JStr v) # kjs) = bind_result (load_index kjs) (\<lambda>d. Inr ((k, v) # d))"
| "load_index (_ # kjs) = Inl IllTyped"

fun obj_or_empty :: "json option \<Rightarrow> (string \<times> json) list result" where
  "obj_or_empty None = Inr []"
| "obj_or_empty (Some (JObj d)) = Inr d"
| "obj_or_empty (Some _) = Inl AttributeError"

definition tr_from_dict :: "(string \<Rightarrow> int option) \<Rightarrow> int \<Rightarrow> json \<Rightarrow> tree_repository result" where
  "tr_from_dict from_isofmt now j =
     bind_result (obj_or_empty (json_get ''trees'' j)) (\<lambda>ts.
     bind_result (load_trees from_isofmt now ts []) (\<lambda>trees.
     bind_result (obj_or_empty (json_get ''node_to_tree'' j)) (\<lambda>ix.
     bind_result (load_index ix) (\<lambda>n2t.
       Inr \<lparr>tr_trees = trees, tr_node_to_tree = n2t\<rparr>))))"

subsection \<open>The invariant of the index\<close>

text \<open>Every tree is a tree stored under its root id, and every node is registered to its tree.\<close>

definition repo_ok :: "tree_repository \<Rightarrow> bool" where
  "repo_ok r \<longleftrightarrow> dict_ok (tr_trees r) \<and>
     (\<forall>root t. tr_get_tree root r = Some t \<longrightarrow>
        tree_ok t \<and> mt_root_id t = root \<and>
        (\<forall>k \<in> set (node_ids t). dict_get k (tr_node_to_tree r) = Some root))"

lemma repo_ok_tree:
  assumes "repo_ok r" and "tr_get_tree root r = Some t"
  shows "tree_ok t" "mt_root_id t = root"
    "k \<in> set (node_ids t) \<Longrightarrow> dict_get k (tr_node_to_tree r) = Some root"
  using assms by (auto simp: repo_ok_def)

lemma tree_ok_root_nonempty: "tree_ok t \<Longrightarrow> mt_root_id t \<noteq> []"
  by (auto simp: tree_ok_def)

lemma tree_ok_root_node: "tree_ok t \<Longrightarrow> mt_root_id t \<in> set (node_ids t)"
  using shape_None_iff [of t "mt_root_id t"] by (auto simp: tree_ok_def)

lemma tree_for_node_SomeD:
  "tr_get_tree_for_node nid r = Some t \<Longrightarrow>
     \<exists>root. dict_get nid (tr_node_to_tree r) = Some root \<and> root \<noteq> [] \<and> tr_get_tree root r = Some t"
  by (auto simp: tr_get_tree_for_node_def split: option.splits if_splits)

lemma repo_ok_tree_for_node:
  assumes "repo_ok r" and "tr_get_tree_for_node nid r = Some t"
  shows "tree_ok t" "tr_get_tree (mt_root_id t) r = Some t"
    "dict_get nid (tr_node_to_tree r) = Some (mt_root_id t)"
  using tree_for_node_SomeD [OF assms(2)] repo_ok_tree [OF assms(1)] by auto

lemma repo_ok_node_lookup:
  assumes "repo_ok r" and "tr_get_tree root r = Some t" and "k \<in> set (node_ids t)"
  shows "tr_get_tree_for_node k r = Some t" "tr_get_node k r = mt_get_node k t"
proof -
  have "root \<noteq> []" using repo_ok_tree [OF assms(1,2)] tree_ok_root_nonempty by auto
  then show "tr_get_tree_for_node k r = Some t"
    using repo_ok_tree(3) [OF assms] assms(2) by (simp add: tr_get_tree_for_node_def)
  then show "tr_get_node k r = mt_get_node k t" by (simp add: tr_get_node_def)
qed

lemma repo_ok_put_tree:
  assumes "repo_ok r" and "tr_get_tree root r = Some t" and "tree_ok t'"
    and "mt_root_id t' = root" and "set (node_ids t') \<subseteq> set (node_ids t)"
  shows "repo_ok (tr_put_tree root t' r)"
  using assms unfolding repo_ok_def tr_put_tree_def tr_get_tree_def
  by (auto split: if_splits)

lemma repo_ok_init: "repo_ok tr_init"
  by (simp add: repo_ok_def tr_init_def tr_get_tree_def)

lemma repo_ok_register:
  assumes "repo_ok r" and "\<And>root' t. tr_get_tree root' r = Some t \<Longrightarrow> nid \<in> set (node_ids t) \<Longrightarrow> root' = root"
  shows "repo_ok (tr_register_node nid root r)"
  using assms by (auto simp: repo_ok_def tr_register_node_def tr_get_tree_def)

lemma repo_ok_add_tree:
  assumes "repo_ok r" and "tree_ok t" and "node_ids t = [mt_root_id t]"
    and "\<not> tr_has_node (mt_root_id t) r"
  shows "repo_ok (tr_add_tree (mt_root_id t) t r)"
proof -
  have "k \<noteq> mt_root_id t" if "tr_get_tree root r = Some u" "k \<in> set (node_ids u)" for k root u
    using repo_ok_tree(3) [OF assms(1) that] assms(4) pd.lookup_keys [of k "tr_node_to_tree r"]
    by (auto simp: tr_has_node_def)
  then show ?thesis
    using assms unfolding repo_ok_def tr_add_tree_def tr_register_node_def tr_put_tree_def tr_get_tree_def
    by (auto split: if_splits)
qed

lemma fold_dict_del_get:
  "dict_get k (fold dict_del ks d) = (if k \<in> set ks then None else dict_get k d)"
  by (induction ks arbitrary: d) auto

lemma repo_ok_unregister:
  assumes "repo_ok r" and "\<And>root t. tr_get_tree root r = Some t \<Longrightarrow> set ks \<inter> set (node_ids t) = {}"
  shows "repo_ok (tr_unregister_nodes ks r)"
  using assms unfolding repo_ok_def tr_unregister_nodes_def tr_get_tree_def
  by (auto simp: fold_dict_del_get)

lemma all_nodes_ids:
  assumes "tree_ok t"
  shows "map nd_node_id (mt_all_nodes t) = node_ids t"
proof -
  have "nd_node_id n = k" if "(k, n) \<in> set (mt_nodes t)" for k n
    using tree_ok_node(1) [OF assms, of k n] that assms
    by (simp add: mt_get_node_def dict_mem_get tree_ok_def)
  then show ?thesis
    by (auto simp: mt_all_nodes_def node_ids_def dict_values_def dict_keys_def)
qed

lemma all_nodes_mem:
  assumes "tree_ok t"
  shows "n \<in> set (mt_all_nodes t) \<longleftrightarrow> mt_get_node (nd_node_id n) t = Some n"
proof
  assume "n \<in> set (mt_all_nodes t)"
  then obtain k where "(k, n) \<in> set (mt_nodes t)" by (auto simp: mt_all_nodes_def dict_values_def)
  then have "mt_get_node k t = Some n"
    using assms by (simp add: mt_get_node_def dict_mem_get tree_ok_def)
  then show "mt_get_node (nd_node_id n) t = Some n" using tree_ok_node(1) [OF assms] by metis
next
  assume "mt_get_node (nd_node_id n) t = Some n"
  then show "n \<in> set (mt_all_nodes t)"
    by (force simp: mt_all_nodes_def dict_values_def mt_get_node_def dest: dict_get_mem)
qed

lemma repo_ok_remove_tree:
  assumes "repo_ok r" and "tr_remove_tree root r = (ot, r')"
  shows "repo_ok r'" "tr_get_tree root r' = None"
    "root' \<noteq> root \<Longrightarrow> tr_get_tree root' r' = tr_get_tree root' r"
    "ot = Some t \<Longrightarrow> k \<in> set (node_ids t) \<Longrightarrow> \<not> tr_has_node k r'"
proof -
  have *: "repo_ok r' \<and> tr_get_tree root r' = None \<and>
      (root' \<noteq> root \<longrightarrow> tr_get_tree root' r' = tr_get_tree root' r) \<and>
      (\<forall>t k. ot = Some t \<longrightarrow> k \<in> set (node_ids t) \<longrightarrow> \<not> tr_has_node k r')"
  proof (cases "tr_get_tree root r")
    case None
    then show ?thesis using assms by (auto simp: tr_remove_tree_def)
  next
    case (Some t)
    let ?r = "r\<lparr>tr_trees := dict_del root (tr_trees r)\<rparr>"
    have eq: "ot = Some t" "r' = tr_unregister_nodes (node_ids t) ?r"
      using assms Some all_nodes_ids [OF repo_ok_tree(1) [OF assms(1) Some]]
      by (auto simp: tr_remove_tree_def)
    have ok1: "repo_ok ?r"
      using assms(1) by (auto simp: repo_ok_def tr_get_tree_def split: if_splits)
    have "set (node_ids t) \<inter> set (node_ids u) = {}" if "tr_get_tree root'' ?r = Some u" for root'' u
    proof -
      have u: "tr_get_tree root'' r = Some u" "root'' \<noteq> root"
        using that by (auto simp: tr_get_tree_def split: if_splits)
      then show ?thesis
        using repo_ok_tree(3) [OF assms(1) u(1)] repo_ok_tree(3) [OF assms(1) Some] by fastforce
    qed
    then have "repo_ok r'" using repo_ok_unregister [OF ok1] eq(2) by blast
    moreover have "\<not> tr_has_node k r'" if "k \<in> set (node_ids t)" for k
      using that eq(2) pd.lookup_None_iff [of k "tr_node_to_tree r'"]
      by (simp add: tr_has_node_def tr_unregister_nodes_def fold_dict_del_get)
    ultimately show ?thesis using eq by (auto simp: tr_get_tree_def tr_unregister_nodes_def)
  qed
  then show "repo_ok r'" "tr_get_tree root r' = None"
    "root' \<noteq> root \<Longrightarrow> tr_get_tree root' r' = tr_get_tree root' r"
    "ot = Some t \<Longrightarrow> k \<in> set (node_ids t) \<Longrightarrow> \<not> tr_has_node k r'" by auto
qed

end
