(* ===== verification/TreeQueueManager.thy ===== *)
theory TreeQueueManager
  imports TreeRepository
begin

section \<open>The manager's operations (\<open>queue_manager.py\<close>, \<open>TreeQueueManager\<close>)\<close>

text \<open>
  Creating and growing trees, error propagation, and the cancellation family.  An operation
  takes the repository and returns it updated.  \<open>done\<close> tells which tasks have finished; a
  cancelling operation also returns the handles of the tasks whose \<open>cancel()\<close> it calls.  The
  scheduling of the tasks themselves is \<open>TreeProcessor\<close>.
\<close>

definition mgr_create_tree ::
  "string \<Rightarrow> incoming_message \<Rightarrow> string \<Rightarrow> int \<Rightarrow> tree_repository \<Rightarrow> message_tree \<times> tree_repository" where
  "mgr_create_tree nid inc sid now r =
     (let t = mt_init (new_node nid inc sid None now) in (t, tr_add_tree nid t r))"

definition mgr_add_to_tree ::
  "string \<Rightarrow> string \<Rightarrow> incoming_message \<Rightarrow> string \<Rightarrow> int \<Rightarrow> tree_repository
    \<Rightarrow> (message_tree \<times> message_node \<times> tree_repository) result" where
  "mgr_add_to_tree parent nid inc sid now r =
     (if \<not> tr_has_node parent r then Inl ValueError
      else case tr_get_tree_for_node parent r of
        None \<Rightarrow> Inl ValueError
      | Some t \<Rightarrow>
          bind_result (mt_add_node nid inc sid parent now t) (\<lambda>(node, t').
            Inr (t', node,
              tr_register_node nid (mt_root_id t') (tr_put_tree (mt_root_id t') t' r))))"

text \<open>\<open>f"Parent failed: {error_message}"\<close>\<close>

definition parent_failed :: "string \<Rightarrow> string" where
  "parent_failed msg = ''Parent failed: '' @ msg"

definition mark_children :: "string \<Rightarrow> int \<Rightarrow> message_node list \<Rightarrow> message_tree \<Rightarrow> message_tree" where
  "mark_children msg now ns t =
     fold (\<lambda>c. mt_update_state (nd_node_id c) ERROR None (Some (parent_failed msg)) now) ns t"

text \<open>The ids of the nodes marked, the node itself first; \<open>None\<close>: the traversal does not end.\<close>

definition mgr_mark_node_error ::
  "string \<Rightarrow> string \<Rightarrow> bool \<Rightarrow> int \<Rightarrow> tree_repository \<Rightarrow> (string list \<times> tree_repository) option" where
  "mgr_mark_node_error nid msg propagate now r =
     (case tr_get_tree_for_node nid r of
        None \<Rightarrow> Some ([], r)
      | Some t \<Rightarrow>
          let (affected, t1) =
                (case mt_get_node nid t of
                   None \<Rightarrow> ([], t)
                 | Some n \<Rightarrow> ([nid], mt_update_state nid ERROR None (Some msg) now t));
              r1 = tr_put_tree (mt_root_id t) t1 r
          in if propagate then
               (case tr_get_pending_children nid r1 of
                  None \<Rightarrow> None
                | Some ns \<Rightarrow>
                    Some (affected @ map nd_node_id ns,
                          tr_put_tree (mt_root_id t) (mark_children msg now ns t1) r1))
             else Some (affected, r1))"

definition terminal :: "message_state \<Rightarrow> bool" where
  "terminal s = (s \<in> {COMPLETED, ERROR})"

text \<open>The loop over all nodes that are neither finished nor in \<open>ids\<close>.\<close>

fun mark_stale :: "string \<Rightarrow> string set \<Rightarrow> int \<Rightarrow> message_node list \<Rightarrow> message_tree \<Rightarrow> nat \<times> message_tree" where
  "mark_stale msg ids now [] t = (0, t)"
| "mark_stale msg ids now (n # ns) t =
     (if nd_state n \<in> {PENDING, IN_PROGRESS} \<and> nd_node_id n \<notin> ids
      then let (c, t') = mark_stale msg ids now ns (mt_set_node_error_sync n msg now t) in (Suc c, t')
      else mark_stale msg ids now ns t)"

text \<open>The first part of \<open>cancel_tree\<close>: cancel the running task and mark its node.\<close>

definition cancel_running ::
  "(nat \<Rightarrow> bool) \<Rightarrow> int \<Rightarrow> message_tree \<Rightarrow> nat option \<times> message_node list \<times> message_tree" where
  "cancel_running done now t =
     (case mt_cancel_current_task done t of
        None \<Rightarrow> (None, [], t)
      | Some h \<Rightarrow>
          (case mt_current_node_id t of
             None \<Rightarrow> (Some h, [], t)
           | Some cur \<Rightarrow>
               if cur = [] then (Some h, [], t)
               else (case mt_get_node cur t of
                  None \<Rightarrow> (Some h, [], t)
                | Some n \<Rightarrow>
                    if terminal (nd_state n) then (Some h, [], t)
                    else (Some h, [node_error ''Cancelled by user'' now n],
                          mt_set_node_error_sync n ''Cancelled by user'' now t))))"

definition cancel_tree_body ::
  "(nat \<Rightarrow> bool) \<Rightarrow> int \<Rightarrow> message_tree \<Rightarrow> nat option \<times> message_node list \<times> message_tree" where
  "cancel_tree_body done now t =
     (let (h, cancelled, t) = cancel_running done now t;
          (queued, t) = mt_drain_queue_and_mark_cancelled ''Cancelled by user'' now t;
          cancelled = cancelled @ queued;
          (cleanup, t) = mark_stale ''Stale task cleaned up'' (set (map nd_node_id cancelled)) now
                           (mt_all_nodes t) t
      in (h, cancelled, mt_reset_processing_state t))"

definition mgr_cancel_tree ::
  "(nat \<Rightarrow> bool) \<Rightarrow> int \<Rightarrow> string \<Rightarrow> tree_repository
    \<Rightarrow> nat option \<times> message_node list \<times> tree_repository" where
  "mgr_cancel_tree done now root r =
     (case tr_get_tree root r of
        None \<Rightarrow> (None, [], r)
      | Some t \<Rightarrow> let (h, ns, t') = cancel_tree_body done now t in (h, ns, tr_put_tree root t' r))"

definition cancel_node_body ::
  "(nat \<Rightarrow> bool) \<Rightarrow> int \<Rightarrow> string \<Rightarrow> message_tree \<Rightarrow> nat option \<times> message_node list \<times> message_tree" where
  "cancel_node_body done now nid t =
     (case mt_get_node nid t of
        None \<Rightarrow> (None, [], t)
      | Some n \<Rightarrow>
          if terminal (nd_state n) then (None, [], t)
          else
            let h = (if mt_is_current_node nid t then mt_cancel_current_task done t else None);
                t = snd (mt_remove_from_queue nid t)
            in (h, [node_error ''Cancelled by user'' now n],
                mt_set_node_error_sync n ''Cancelled by user'' now t))"

definition mgr_cancel_node ::
  "(nat \<Rightarrow> bool) \<Rightarrow> int \<Rightarrow> string \<Rightarrow> tree_repository
    \<Rightarrow> nat option \<times> message_node list \<times> tree_repository" where
  "mgr_cancel_node done now nid r =
     (case tr_get_tree_for_node nid r of
        None \<Rightarrow> (None, [], r)
      | Some t \<Rightarrow> let (h, ns, t') = cancel_node_body done now nid t
                 in (h, ns, tr_put_tree (mt_root_id t) t' r))"

fun cancel_trees ::
  "(nat \<Rightarrow> bool) \<Rightarrow> int \<Rightarrow> string list \<Rightarrow> tree_repository
    \<Rightarrow> nat list \<times> message_node list \<times> tree_repository" where
  "cancel_trees done now [] r = ([], [], r)"
| "cancel_trees done now (root # roots) r =
     (let (h, ns, r) = mgr_cancel_tree done now root r;
          (hs, ms, r) = cancel_trees done now roots r
      in ((case h of None \<Rightarrow> hs | Some x \<Rightarrow> x # hs), ns @ ms, r))"

definition mgr_cancel_all ::
  "(nat \<Rightarrow> bool) \<Rightarrow> int \<Rightarrow> tree_repository \<Rightarrow> nat list \<times> message_node list \<times> tree_repository" where
  "mgr_cancel_all done now r = cancel_trees done now (tr_tree_ids r) r"

fun cleanup_trees :: "int \<Rightarrow> string list \<Rightarrow> tree_repository \<Rightarrow> nat \<times> tree_repository" where
  "cleanup_trees now [] r = (0, r)"
| "cleanup_trees now (root # roots) r =
     (case tr_get_tree root r of
        None \<Rightarrow> cleanup_trees now roots r
      | Some t \<Rightarrow>
          let (c, t') = mark_stale ''Lost during server restart'' {} now (mt_all_nodes t) t;
              (d, r') = cleanup_trees now roots (tr_put_tree root t' r)
          in (c + d, r'))"

definition mgr_cleanup_stale_nodes :: "int \<Rightarrow> tree_repository \<Rightarrow> nat \<times> tree_repository" where
  "mgr_cleanup_stale_nodes now r = cleanup_trees now (tr_tree_ids r) r"

text \<open>
  \<open>cancel_branch\<close> iterates over a Python set; \<open>ord\<close> is the order in which it happens to do so.
\<close>

fun cancel_branch_loop ::
  "(nat \<Rightarrow> bool) \<Rightarrow> int \<Rightarrow> string list \<Rightarrow> message_tree \<Rightarrow> nat list \<times> message_node list \<times> message_tree" where
  "cancel_branch_loop done now [] t = ([], [], t)"
| "cancel_branch_loop done now (nid # nids) t =
     (case mt_get_node nid t of
        None \<Rightarrow> cancel_branch_loop done now nids t
      | Some n \<Rightarrow>
          if terminal (nd_state n) then cancel_branch_loop done now nids t
          else
            let h = (if mt_is_current_node nid t then mt_cancel_current_task done t else None);
                t = (if mt_is_current_node nid t then t else snd (mt_remove_from_queue nid t));
                t = mt_set_node_error_sync n ''Cancelled by user'' now t;
                (hs, ns, t) = cancel_branch_loop done now nids t
            in ((case h of None \<Rightarrow> hs | Some x \<Rightarrow> x # hs),
                node_error ''Cancelled by user'' now n # ns, t))"

definition mgr_cancel_branch ::
  "(string list \<Rightarrow> string list) \<Rightarrow> (nat \<Rightarrow> bool) \<Rightarrow> int \<Rightarrow> string \<Rightarrow> tree_repository
    \<Rightarrow> (nat list \<times> message_node list \<times> tree_repository) option" where
  "mgr_cancel_branch ord done now bid r =
     (case tr_get_tree_for_node bid r of
        None \<Rightarrow> Some ([], [], r)
      | Some t \<Rightarrow>
          (case mt_get_descendants bid t of
             None \<Rightarrow> None
           | Some ds \<Rightarrow>
               let (hs, ns, t') = cancel_branch_loop done now (ord ds) t
               in Some (hs, ns, tr_put_tree (mt_root_id t) t' r)))"

text \<open>\<open>(removed_nodes, root_id, removed_entire_tree)\<close> and the tasks cancelled on the way.\<close>

definition mgr_remove_branch ::
  "(nat \<Rightarrow> bool) \<Rightarrow> int \<Rightarrow> string \<Rightarrow> tree_repository
    \<Rightarrow> (nat option \<times> (message_node list \<times> string \<times> bool) result \<times> tree_repository) option" where
  "mgr_remove_branch done now bid r =
     (case tr_get_tree_for_node bid r of
        None \<Rightarrow> Some (None, Inr ([], [], False), r)
      | Some t \<Rightarrow>
          let root = mt_root_id t in
          if bid = root then
            let (h, cancelled, r1) = mgr_cancel_tree done now root r;
                (ot, r2) = tr_remove_tree root r1
            in Some (h, Inr ((case ot of Some u \<Rightarrow> mt_all_nodes u | None \<Rightarrow> cancelled), root, True), r2)
          else
            (case mt_remove_branch bid t of
               None \<Rightarrow> None
             | Some (Inl e, t') \<Rightarrow> Some (None, Inl e, tr_put_tree root t' r)
             | Some (Inr removed, t') \<Rightarrow>
                 Some (None, Inr (removed, root, False),
                   tr_unregister_nodes (map nd_node_id removed) (tr_put_tree root t' r))))"

subsection \<open>Creating and growing trees keeps the index consistent\<close>

lemma node_ids_init [simp]: "node_ids (mt_init n) = [nd_node_id n]"
  by (simp add: node_ids_def mt_init_def)

lemma new_node_id [simp]: "nd_node_id (new_node nid inc sid p now) = nid"
  by (simp add: new_node_def)

lemma create_tree_ok:
  assumes "repo_ok r" and "nid \<noteq> []" and "\<not> tr_has_node nid r"
    and "mgr_create_tree nid inc sid now r = (t, r')"
  shows "repo_ok r'" "tr_get_tree_for_node nid r' = Some t" "tree_ok t" "mt_root_id t = nid"
proof -
  let ?t = "mt_init (new_node nid inc sid None now)"
  have t: "t = ?t" "r' = tr_add_tree nid ?t r" using assms(4) by (auto simp: mgr_create_tree_def Let_def)
  have root: "mt_root_id ?t = nid" by (simp add: mt_init_def)
  show "tree_ok t" using tree_ok_init [OF assms(2)] t(1) by simp
  show "mt_root_id t = nid" using t(1) root by simp
  show "repo_ok r'"
    using repo_ok_add_tree [OF assms(1) tree_ok_init [OF assms(2)]] assms(3) root t(2) by simp
  show "tr_get_tree_for_node nid r' = Some t"
    using assms(2) t by (simp add: tr_get_tree_for_node_def tr_add_tree_def tr_register_node_def
        tr_put_tree_def tr_get_tree_def)
qed

lemma add_to_tree_ok:
  assumes ok: "repo_ok r" and ne: "nid \<noteq> []" and fresh: "\<not> tr_has_node nid r"
    and t: "tr_get_tree_for_node parent r = Some t" and p: "parent \<in> set (node_ids t)"
    and sid: "dict_get sid (mt_status_to_node t) = None"
  obtains t' node r' where "mgr_add_to_tree parent nid inc sid now r = Inr (t', node, r')"
    "repo_ok r'" "tr_get_tree_for_node nid r' = Some t'" "mt_get_node nid t' = Some node"
    "nd_parent_id node = Some parent" "nid \<in> set (children_of t' parent)"
    "mt_queue t' = mt_queue t" "nd_state node = PENDING"
    "children_of t' parent = children_of t parent @ [nid]"
proof -
  have tk: "tree_ok t" and tr: "tr_get_tree (mt_root_id t) r = Some t"
    using repo_ok_tree_for_node [OF ok t] by auto
  obtain n where n: "mt_get_node parent t = Some n" using p node_ids_iff by auto
  have nfresh: "mt_get_node nid t = None"
  proof (rule ccontr)
    assume "mt_get_node nid t \<noteq> None"
    then have "nid \<in> set (node_ids t)" using node_ids_iff by auto
    then show False using repo_ok_tree(3) [OF ok tr] fresh pd.lookup_SomeD
      by (fastforce simp: tr_has_node_def)
  qed
  obtain node t' where add: "mt_add_node nid inc sid parent now t = Inr (node, t')"
    and node: "node = new_node nid inc sid (Some parent) now"
    and nodes: "mt_nodes t' = dict_set parent (n\<lparr>nd_children_ids := nd_children_ids n @ [nid]\<rparr>)
           (dict_set nid node (mt_nodes t))"
    and root: "mt_root_id t' = mt_root_id t" and q: "mt_queue t' = mt_queue t"
    using mt_add_node_shape [OF tk n nfresh] by metis
  have tk': "tree_ok t'" using tree_ok_add_node [OF tk n nfresh sid ne add] .
  have pn: "parent \<noteq> nid" using n nfresh by auto
  have ids': "set (node_ids t') = insert nid (set (node_ids t))"
    using p by (auto simp: node_ids_def nodes)
  let ?r = "tr_register_node nid (mt_root_id t) (tr_put_tree (mt_root_id t) t' r)"
  have reg: "tr_has_node parent r"
    using repo_ok_tree(3) [OF ok tr p] pd.lookup_SomeD by (fastforce simp: tr_has_node_def)
  have "mgr_add_to_tree parent nid inc sid now r = Inr (t', node, ?r)"
    using reg t add root by (simp add: mgr_add_to_tree_def)
  moreover have "repo_ok ?r"
  proof -
    have "nid \<notin> set (node_ids u)" if "tr_get_tree root' r = Some u" for root' u
      using repo_ok_tree(3) [OF ok that, of nid] fresh pd.lookup_SomeD
      by (fastforce simp: tr_has_node_def)
    then show ?thesis
      using ok tk' root ids' repo_ok_tree [OF ok tr]
      unfolding repo_ok_def tr_register_node_def tr_put_tree_def tr_get_tree_def
      by (auto split: if_splits)
  qed
  moreover have "tr_get_tree_for_node nid ?r = Some t'"
    using tree_ok_root_nonempty [OF tk]
    by (simp add: tr_get_tree_for_node_def tr_register_node_def tr_put_tree_def tr_get_tree_def)
  moreover have "mt_get_node nid t' = Some node" using nodes pn by (simp add: mt_get_node_def)
  moreover have "nd_parent_id node = Some parent" by (simp add: node new_node_def)
  moreover have ch: "children_of t' parent = children_of t parent @ [nid]"
    using nodes n by (simp add: children_of_def mt_get_node_def)
  moreover have "nid \<in> set (children_of t' parent)" using ch by simp
  moreover have "nd_state node = PENDING" by (simp add: node new_node_def)
  ultimately show thesis using that q by blast
qed

end
