(* ===== verification/TreeCancel.thy ===== *)
theory TreeCancel
  imports TreeQueueManager
begin

section \<open>What cancelling and failing do to a tree\<close>

text \<open>
  For each operation of the cancellation family: which nodes it marks and how, what it leaves
  alone, and that the tree stays a tree.
\<close>

named_theorems frame_simps \<open>which fields an operation leaves alone\<close>

lemma mt_get_set_node:
  "mt_get_node k (mt_set_node n t) = (if k = nd_node_id n then Some n else mt_get_node k t)"
  by (simp add: mt_get_node_def mt_set_node_def)

lemma mt_get_set_error:
  "mt_get_node k (mt_set_node_error_sync n msg now t) =
     (if k = nd_node_id n then Some (node_error msg now n) else mt_get_node k t)"
  by (simp add: mt_set_node_error_sync_def mt_get_set_node)

lemma set_error_frame [simp, frame_simps]:
  "mt_queue (mt_set_node_error_sync n msg now t) = mt_queue t"
  "mt_root_id (mt_set_node_error_sync n msg now t) = mt_root_id t"
  "mt_current_node_id (mt_set_node_error_sync n msg now t) = mt_current_node_id t"
  "mt_current_task (mt_set_node_error_sync n msg now t) = mt_current_task t"
  "mt_is_processing (mt_set_node_error_sync n msg now t) = mt_is_processing t"
  by (simp_all add: mt_set_node_error_sync_def mt_set_node_def)

lemma dequeue_get [simp]: "mt_get_node k (snd (mt_dequeue t)) = mt_get_node k t"
  by (simp add: mt_dequeue_def mt_get_node_def split: sum.splits prod.splits)

lemma dequeue_frame [simp, frame_simps]:
  "mt_root_id (snd (mt_dequeue t)) = mt_root_id t"
  "mt_current_node_id (snd (mt_dequeue t)) = mt_current_node_id t"
  "sq_deque (mt_queue (snd (mt_dequeue t))) = tl (sq_deque (mt_queue t))"
  by (simp_all add: mt_dequeue_def sq_get_nowait_def split: sum.splits prod.splits list.splits)

lemma remove_from_queue_get [simp]:
  "mt_get_node k (snd (mt_remove_from_queue x t)) = mt_get_node k t"
  by (simp add: mt_remove_from_queue_def mt_get_node_def split: prod.splits)

lemma remove_from_queue_frame [simp, frame_simps]:
  "mt_root_id (snd (mt_remove_from_queue x t)) = mt_root_id t"
  "mt_current_node_id (snd (mt_remove_from_queue x t)) = mt_current_node_id t"
  "mt_current_task (snd (mt_remove_from_queue x t)) = mt_current_task t"
  "mt_is_processing (snd (mt_remove_from_queue x t)) = mt_is_processing t"
  by (simp_all add: mt_remove_from_queue_def split: prod.splits)

lemma node_error_idem [simp]: "node_error msg now (node_error msg now n) = node_error msg now n"
  by (simp add: node_error_def)

lemma terminal_node_error [simp]: "terminal (nd_state (node_error msg now n))"
  by (simp add: node_error_def terminal_def)

lemma not_terminal_iff: "\<not> terminal s \<longleftrightarrow> s = PENDING \<or> s = IN_PROGRESS"
  by (cases s) (simp_all add: terminal_def)

subsection \<open>Draining the queue\<close>

lemma drain_loop_spec:
  "tree_ok t \<Longrightarrow>
     tree_ok (snd (drain_loop msg now t acc)) \<and>
     sq_deque (mt_queue (snd (drain_loop msg now t acc))) = [] \<and>
     mt_root_id (snd (drain_loop msg now t acc)) = mt_root_id t \<and>
     (\<forall>k. mt_get_node k (snd (drain_loop msg now t acc)) =
        (if k \<in> set (sq_deque (mt_queue t)) then map_option (node_error msg now) (mt_get_node k t)
         else mt_get_node k t)) \<and>
     set (map nd_node_id (fst (drain_loop msg now t acc))) =
        set (map nd_node_id acc) \<union> (set (sq_deque (mt_queue t)) \<inter> set (node_ids t))"
proof (induction msg now t acc rule: drain_loop.induct)
  case (1 msg now t acc)
  show ?case
  proof (cases "sq_deque (mt_queue t)")
    case Nil
    then show ?thesis using "1.prems" by (simp add: drain_loop.simps)
  next
    case (Cons nid rest)
    let ?t = "snd (mt_dequeue t)"
    have ok: "tree_ok ?t" using tree_ok_queue_ops(2) [OF "1.prems"] .
    have ids: "set (node_ids ?t) = set (node_ids t)"
      using node_ids_iff [of _ ?t] node_ids_iff [of _ t] by auto
    show ?thesis
    proof (cases "mt_get_node nid t")
      case None
      then have "nid \<notin> set (node_ids t)" by (simp add: node_ids_iff)
      with None show ?thesis using "1.IH"(1) [OF Cons refl _ ok] Cons ids
        by (auto simp: drain_loop.simps [of msg now t acc])
    next
      case (Some n)
      let ?t2 = "mt_set_node_error_sync n msg now ?t"
      have id: "nd_node_id n = nid" using tree_ok_node(1) [OF "1.prems" Some] .
      have ok2: "tree_ok ?t2" using tree_ok_set_node_error [OF ok] Some by simp
      have mem: "nid \<in> set (node_ids t)" using Some by (simp add: node_ids_iff)
      have ids2: "set (node_ids ?t2) = set (node_ids t)"
        using Some id by (auto simp: node_ids_iff mt_get_set_error split: if_splits)
      show ?thesis
        using "1.IH"(2) [OF Cons refl _ ok2] Cons Some id mem ids2
        by (auto simp: drain_loop.simps [of msg now t acc] mt_get_set_error option.map_comp comp_def)
    qed
  qed
qed

subsection \<open>Marking stale nodes\<close>

lemma snd_mark_stale_Cons:
  "snd (mark_stale msg ids now (n # ns) t) =
     snd (mark_stale msg ids now ns
       (if \<not> terminal (nd_state n) \<and> nd_node_id n \<notin> ids then mt_set_node_error_sync n msg now t else t))"
  by (simp add: Let_def not_terminal_iff split: prod.split)

declare mark_stale.simps(2) [simp del] snd_mark_stale_Cons [simp]

lemma mark_stale_tree_ok:
  assumes "tree_ok t" and "distinct (map nd_node_id ns)"
    and "\<forall>n \<in> set ns. mt_get_node (nd_node_id n) t = Some n"
  shows "tree_ok (snd (mark_stale msg ids now ns t))"
  using assms
proof (induction ns arbitrary: t)
  case Nil
  then show ?case by simp
next
  case (Cons n ns)
  have n: "mt_get_node (nd_node_id n) t = Some n" using Cons.prems(3) by simp
  have same: "tree_ok (snd (mark_stale msg ids now ns t))"
    by (rule Cons.IH [OF Cons.prems(1)]) (use Cons.prems(2,3) in auto)
  have "tree_ok (snd (mark_stale msg ids now ns (mt_set_node_error_sync n msg now t)))"
  proof (rule Cons.IH [OF tree_ok_set_node_error [OF Cons.prems(1) n]])
    show "\<forall>m \<in> set ns. mt_get_node (nd_node_id m) (mt_set_node_error_sync n msg now t) = Some m"
    proof
      fix m assume m: "m \<in> set ns"
      have "nd_node_id n \<notin> nd_node_id ` set ns" using Cons.prems(2) by simp
      with m have "nd_node_id m \<noteq> nd_node_id n" by (metis imageI)
      then show "mt_get_node (nd_node_id m) (mt_set_node_error_sync n msg now t) = Some m"
        using m Cons.prems(3) by (simp add: mt_get_set_error)
    qed
  qed (use Cons.prems(2) in auto)
  then show ?case using same by simp
qed

lemma mark_stale_frame [simp, frame_simps]:
  "mt_queue (snd (mark_stale msg ids now ns t)) = mt_queue t"
  "mt_root_id (snd (mark_stale msg ids now ns t)) = mt_root_id t"
  by (induction ns arbitrary: t) simp_all

lemma mark_stale_other:
  "\<forall>n \<in> set ns. nd_node_id n = k \<longrightarrow> terminal (nd_state n) \<or> k \<in> ids \<Longrightarrow>
     mt_get_node k (snd (mark_stale msg ids now ns t)) = mt_get_node k t"
  by (induction ns arbitrary: t) (auto simp: mt_get_set_error)

lemma mark_stale_marked:
  assumes "n \<in> set ns" "distinct (map nd_node_id ns)" "\<not> terminal (nd_state n)" "nd_node_id n \<notin> ids"
  shows "mt_get_node (nd_node_id n) (snd (mark_stale msg ids now ns t)) = Some (node_error msg now n)"
  using assms
proof (induction ns arbitrary: t)
  case Nil
  then show ?case by simp
next
  case (Cons m ns)
  show ?case
  proof (cases "m = n")
    case True
    then have "nd_node_id n \<notin> nd_node_id ` set ns" using Cons.prems(2) by simp
    then have "\<forall>x \<in> set ns. nd_node_id x = nd_node_id n \<longrightarrow> terminal (nd_state x) \<or> nd_node_id n \<in> ids"
      by (auto simp: image_iff)
    then show ?thesis using True Cons.prems(3,4) mark_stale_other [of ns "nd_node_id n"]
      by (simp add: mt_get_set_error)
  next
    case False
    then show ?thesis using Cons by simp
  qed
qed

text \<open>On all the nodes of a tree: every unfinished node outside \<open>ids\<close> is marked, no other changes.\<close>

lemma mark_stale_all:
  fixes msg :: string and now :: int and ids :: "string set" and k :: string
  assumes ok: "tree_ok t"
  defines "t' \<equiv> snd (mark_stale msg ids now (mt_all_nodes t) t)"
  shows "tree_ok t'"
    and "mt_get_node k t' = map_option (\<lambda>n. if terminal (nd_state n) \<or> k \<in> ids then n
           else node_error msg now n) (mt_get_node k t)"
proof -
  have dist: "distinct (map nd_node_id (mt_all_nodes t))"
    using all_nodes_ids [OF ok] ok by (simp add: node_ids_def tree_ok_def dict_ok_def)
  show "tree_ok t'" unfolding t'_def
    using mark_stale_tree_ok [OF ok dist] all_nodes_mem [OF ok] by blast
  show "mt_get_node k t' = map_option (\<lambda>n. if terminal (nd_state n) \<or> k \<in> ids then n
           else node_error msg now n) (mt_get_node k t)"
  proof (cases "\<exists>n. mt_get_node k t = Some n \<and> \<not> terminal (nd_state n) \<and> k \<notin> ids")
    case True
    then obtain n where n: "mt_get_node k t = Some n" "\<not> terminal (nd_state n)" "k \<notin> ids" by blast
    have id: "nd_node_id n = k" using tree_ok_node(1) [OF ok n(1)] .
    then have "n \<in> set (mt_all_nodes t)" using all_nodes_mem [OF ok] n(1) by blast
    from mark_stale_marked [OF this dist n(2), of ids msg now t] show ?thesis
      using n id by (simp add: t'_def)
  next
    case False
    then have "\<forall>n \<in> set (mt_all_nodes t). nd_node_id n = k \<longrightarrow> terminal (nd_state n) \<or> k \<in> ids"
      using all_nodes_mem [OF ok] by auto
    then have "mt_get_node k t' = mt_get_node k t" unfolding t'_def by (rule mark_stale_other)
    then show ?thesis using False by (cases "mt_get_node k t") auto
  qed
qed

subsection \<open>Cancelling a whole tree\<close>

text \<open>The node whose task \<open>cancel_tree\<close> cancels: the current node, while its task is not done.\<close>

definition runs_node :: "(nat \<Rightarrow> bool) \<Rightarrow> message_tree \<Rightarrow> string \<Rightarrow> bool" where
  "runs_node done t k \<longleftrightarrow>
     mt_cancel_current_task done t \<noteq> None \<and> mt_current_node_id t = Some k \<and> k \<noteq> []"

lemma cancel_running_spec:
  assumes ok: "tree_ok t" and run: "cancel_running done now t = (h, ns, t1)"
  shows "tree_ok t1" "mt_queue t1 = mt_queue t" "mt_root_id t1 = mt_root_id t"
    "mt_get_node k t1 = (if k \<in> set (map nd_node_id ns)
       then map_option (node_error ''Cancelled by user'' now) (mt_get_node k t) else mt_get_node k t)"
    "k \<in> set (map nd_node_id ns) \<longleftrightarrow>
       (\<exists>n. mt_get_node k t = Some n \<and> \<not> terminal (nd_state n) \<and> runs_node done t k)"
proof -
  consider (marked) cur n x where "mt_cancel_current_task done t = Some x" "mt_current_node_id t = Some cur"
      "cur \<noteq> []" "mt_get_node cur t = Some n" "\<not> terminal (nd_state n)"
    | (none) "\<And>k n. runs_node done t k \<Longrightarrow> mt_get_node k t = Some n \<Longrightarrow> terminal (nd_state n)"
    unfolding runs_node_def by blast
  then have *: "t1 = t \<and> ns = [] \<and> (\<forall>k n. runs_node done t k \<longrightarrow> mt_get_node k t = Some n \<longrightarrow> terminal (nd_state n)) \<or>
      (\<exists>cur n. mt_get_node cur t = Some n \<and> \<not> terminal (nd_state n) \<and> (\<forall>k. runs_node done t k \<longleftrightarrow> k = cur) \<and>
      t1 = mt_set_node_error_sync n ''Cancelled by user'' now t \<and>
      ns = [node_error ''Cancelled by user'' now n])"
  proof cases
    case (marked cur n x)
    then have "ns = [node_error ''Cancelled by user'' now n]"
      "t1 = mt_set_node_error_sync n ''Cancelled by user'' now t"
      using run by (simp_all add: cancel_running_def)
    moreover have "runs_node done t k \<longleftrightarrow> k = cur" for k using marked by (auto simp: runs_node_def)
    ultimately show ?thesis using marked(4,5) by blast
  next
    case none
    have "cancel_running done now t = (mt_cancel_current_task done t, [], t)"
    proof (cases "\<exists>k n. runs_node done t k \<and> mt_get_node k t = Some n")
      case True
      then obtain k n where k: "runs_node done t k" "mt_get_node k t = Some n" by blast
      then show ?thesis using none [OF k] by (auto simp: cancel_running_def runs_node_def)
    next
      case False
      show ?thesis
      proof (cases "\<exists>k. runs_node done t k")
        case True
        then obtain k where k: "runs_node done t k" by blast
        then have "mt_get_node k t = None" using False by (cases "mt_get_node k t") blast+
        then show ?thesis using k by (auto simp: cancel_running_def runs_node_def)
      next
        case False
        then show ?thesis
          by (cases "mt_cancel_current_task done t"; cases "mt_current_node_id t")
            (simp_all add: cancel_running_def runs_node_def)
      qed
    qed
    from trans [OF run [symmetric] this] have "t1 = t \<and> ns = []" by (simp only: prod.inject simp_thms)
    then show ?thesis using none by blast
  qed
  have weak: "t1 = t \<and> ns = [] \<or> (\<exists>cur n. mt_get_node cur t = Some n \<and>
      t1 = mt_set_node_error_sync n ''Cancelled by user'' now t \<and>
      ns = [node_error ''Cancelled by user'' now n])"
    using * by (elim disjE exE conjE) blast+
  show "tree_ok t1" using weak ok tree_ok_set_node_error [OF ok] by auto
  show "mt_queue t1 = mt_queue t" "mt_root_id t1 = mt_root_id t" using weak by auto
  show "mt_get_node k t1 = (if k \<in> set (map nd_node_id ns)
       then map_option (node_error ''Cancelled by user'' now) (mt_get_node k t) else mt_get_node k t)"
    using weak tree_ok_node(1) [OF ok] by (auto simp: mt_get_set_error)
  show "k \<in> set (map nd_node_id ns) \<longleftrightarrow>
       (\<exists>n. mt_get_node k t = Some n \<and> \<not> terminal (nd_state n) \<and> runs_node done t k)"
    using *
  proof
    assume "\<exists>cur n. mt_get_node cur t = Some n \<and> \<not> terminal (nd_state n) \<and> (\<forall>k. runs_node done t k \<longleftrightarrow> k = cur) \<and>
      t1 = mt_set_node_error_sync n ''Cancelled by user'' now t \<and> ns = [node_error ''Cancelled by user'' now n]"
    then obtain cur n where n: "mt_get_node cur t = Some n" "\<not> terminal (nd_state n)"
      "\<And>k. runs_node done t k \<longleftrightarrow> k = cur" "ns = [node_error ''Cancelled by user'' now n]" by blast
    then show ?thesis using tree_ok_node(1) [OF ok n(1)] by (auto simp: node_error_def)
  qed auto
qed

lemma cancel_tree_body_spec:
  assumes ok: "tree_ok t" and run: "cancel_tree_body done now t = (h, ns, t')"
  shows "tree_ok t'" "mt_root_id t' = mt_root_id t" "sq_deque (mt_queue t') = []"
    "\<not> mt_is_processing t'" "mt_current_node_id t' = None"
    "set (node_ids t') = set (node_ids t)"
    "mt_get_node k t' = Some n' \<Longrightarrow> terminal (nd_state n')"
    "mt_get_node k t' = map_option (\<lambda>n.
       if k \<in> set (sq_deque (mt_queue t)) \<or> \<not> terminal (nd_state n) \<and> runs_node done t k
         then node_error ''Cancelled by user'' now n
       else if terminal (nd_state n) then n
       else node_error ''Stale task cleaned up'' now n) (mt_get_node k t)"
    "k \<in> set (map nd_node_id ns) \<longleftrightarrow> (\<exists>n. mt_get_node k t = Some n \<and>
       (k \<in> set (sq_deque (mt_queue t)) \<or> \<not> terminal (nd_state n) \<and> runs_node done t k))"
proof -
  obtain c1 t1 where r1: "cancel_running done now t = (h, c1, t1)"
    using run by (auto simp: cancel_tree_body_def split: prod.splits)
  define c2 where "c2 = fst (drain_loop ''Cancelled by user'' now t1 [])"
  define t2 where "t2 = snd (drain_loop ''Cancelled by user'' now t1 [])"
  define t3 where "t3 = snd (mark_stale ''Stale task cleaned up'' (set (map nd_node_id (c1 @ c2))) now
      (mt_all_nodes t2) t2)"
  have t': "t' = mt_reset_processing_state t3" and ns: "ns = c1 @ c2"
    using run r1 by (auto simp: cancel_tree_body_def mt_drain_queue_and_mark_cancelled_def
        c2_def t2_def t3_def case_prod_beta Let_def image_Un)
  note s1 = cancel_running_spec [OF ok r1]
  note s2 = drain_loop_spec [OF s1(1), of "''Cancelled by user''" now "[]", folded t2_def c2_def]
  have ok2: "tree_ok t2" using s2 by simp
  note s3 = mark_stale_all [OF ok2, where msg = "''Stale task cleaned up''"
      and ids = "set (map nd_node_id (c1 @ c2))" and now = now, folded t3_def]
  have g': "mt_get_node k t' = mt_get_node k t3" for k
    by (simp add: t' mt_reset_processing_state_def mt_get_node_def)
  show "tree_ok t'" unfolding t' using tree_ok_queue_ops(7) [OF s3(1)] .
  show "mt_root_id t' = mt_root_id t" "sq_deque (mt_queue t') = []"
    "\<not> mt_is_processing t'" "mt_current_node_id t' = None"
    using s1(3) s2 by (simp_all add: t' mt_reset_processing_state_def t3_def)
  show "set (node_ids t') = set (node_ids t)"
    using s1(4) s2 s3(2) g' by (auto simp: node_ids_iff split: if_splits)
  have gk: "mt_get_node k t' = map_option (\<lambda>n. if terminal (nd_state n) \<or> k \<in> set (map nd_node_id (c1 @ c2))
      then n else node_error ''Stale task cleaned up'' now n) (mt_get_node k t2)" for k
    using s3(2) [of k] g' [of k] by simp
  have g2: "mt_get_node k t2 = (if k \<in> set (sq_deque (mt_queue t)) \<or> k \<in> set (map nd_node_id c1)
      then map_option (node_error ''Cancelled by user'' now) (mt_get_node k t) else mt_get_node k t)" for k
    using s1(2) s1(4) [of k] s2 by (auto simp: option.map_comp comp_def)
  have c2: "set (map nd_node_id c2) = set (sq_deque (mt_queue t)) \<inter> set (node_ids t)"
    using s2 s1(2) s1(4) by (auto simp: node_ids_iff split: if_splits)
  show mem: "k \<in> set (map nd_node_id ns) \<longleftrightarrow> (\<exists>n. mt_get_node k t = Some n \<and>
       (k \<in> set (sq_deque (mt_queue t)) \<or> \<not> terminal (nd_state n) \<and> runs_node done t k))"
    using c2 s1(5) [of k] by (auto simp: ns node_ids_iff)
  show exact: "mt_get_node k t' = map_option (\<lambda>n.
       if k \<in> set (sq_deque (mt_queue t)) \<or> \<not> terminal (nd_state n) \<and> runs_node done t k
         then node_error ''Cancelled by user'' now n
       else if terminal (nd_state n) then n
       else node_error ''Stale task cleaned up'' now n) (mt_get_node k t)"
    using gk [of k] g2 [of k] mem s1(5) [of k] by (cases "mt_get_node k t") (auto simp: ns)
  show "terminal (nd_state n')" if "mt_get_node k t' = Some n'"
    using that exact by (auto split: if_splits)
qed

subsection \<open>Cancelling a branch\<close>

lemma fst_remove_from_queue_deque:
  "sq_ok (mt_queue t) \<Longrightarrow> sq_deque (mt_queue (snd (mt_remove_from_queue x t))) = removeAll x (sq_deque (mt_queue t))"
  "sq_ok (mt_queue t) \<Longrightarrow> sq_ok (mt_queue (snd (mt_remove_from_queue x t)))"
  using sq.remove_spec [of "mt_queue t" x "fst (sq_remove_if_present x (mt_queue t))"
      "snd (sq_remove_if_present x (mt_queue t))"]
  by (simp_all add: mt_remove_from_queue_def sq_get_snapshot_def case_prod_beta)

lemma cancel_branch_loop_spec:
  assumes "tree_ok t" and "sq_ok (mt_queue t)" and "cancel_branch_loop done now ids t = (hs, ns, t')"
  shows "tree_ok t' \<and> sq_ok (mt_queue t') \<and> mt_root_id t' = mt_root_id t \<and>
    mt_is_processing t' = mt_is_processing t \<and> mt_current_node_id t' = mt_current_node_id t \<and>
    (\<forall>k. mt_get_node k t' = map_option (\<lambda>n. if k \<in> set ids \<and> \<not> terminal (nd_state n)
       then node_error ''Cancelled by user'' now n else n) (mt_get_node k t)) \<and>
    (\<forall>x. x \<in> set (sq_deque (mt_queue t')) \<longleftrightarrow> x \<in> set (sq_deque (mt_queue t)) \<and>
       \<not> (x \<in> set ids \<and> mt_current_node_id t \<noteq> Some x \<and>
         (\<exists>n. mt_get_node x t = Some n \<and> \<not> terminal (nd_state n)))) \<and>
    (\<forall>h \<in> set hs. mt_current_task t = Some h \<and> \<not> done h)"
  using assms
proof (induction ids arbitrary: t hs ns t')
  case Nil
  then show ?case by (auto simp: option.map_ident)
next
  case (Cons x ids)
  show ?case
  proof (cases "\<exists>n. mt_get_node x t = Some n \<and> \<not> terminal (nd_state n)")
    case False
    then have "cancel_branch_loop done now ids t = (hs, ns, t')"
      using Cons.prems(3) by (auto split: option.splits)
    from Cons.IH [OF Cons.prems(1,2) this] False show ?thesis
      by (auto intro!: option.map_cong)
  next
    case True
    then obtain n where n: "mt_get_node x t = Some n" "\<not> terminal (nd_state n)" by blast
    define h where "h = (if mt_is_current_node x t then mt_cancel_current_task done t else None)"
    define t0 where "t0 = (if mt_is_current_node x t then t else snd (mt_remove_from_queue x t))"
    define t1 where "t1 = mt_set_node_error_sync n ''Cancelled by user'' now t0"
    obtain hs' ns' where rec: "cancel_branch_loop done now ids t1 = (hs', ns', t')"
      "hs = (case h of None \<Rightarrow> hs' | Some y \<Rightarrow> y # hs')"
      using Cons.prems(3) n by (auto simp: h_def t0_def t1_def Let_def split: prod.splits)
    have id: "nd_node_id n = x" using tree_ok_node(1) [OF Cons.prems(1) n(1)] .
    have get0: "mt_get_node k t0 = mt_get_node k t" for k by (simp add: t0_def)
    have ok0: "tree_ok t0" using tree_ok_queue_ops(3) [OF Cons.prems(1)] Cons.prems(1) by (simp add: t0_def)
    then have ok1: "tree_ok t1" unfolding t1_def
      by (rule tree_ok_set_node_error [where k = x]) (simp add: get0 n(1))
    have q1: "sq_ok (mt_queue t1)"
      using fst_remove_from_queue_deque(2) Cons.prems(2) by (simp add: t1_def t0_def)
    have get1: "mt_get_node k t1 = (if k = x then Some (node_error ''Cancelled by user'' now n)
        else mt_get_node k t)" for k
      by (simp add: t1_def mt_get_set_error get0 id)
    have d1: "set (sq_deque (mt_queue t1)) = (if mt_current_node_id t = Some x
        then set (sq_deque (mt_queue t)) else set (sq_deque (mt_queue t)) - {x})"
      using fst_remove_from_queue_deque(1) [OF Cons.prems(2)]
      by (simp add: t1_def t0_def mt_is_current_node_def)
    have fr: "mt_root_id t1 = mt_root_id t" "mt_is_processing t1 = mt_is_processing t"
      "mt_current_node_id t1 = mt_current_node_id t" "mt_current_task t1 = mt_current_task t"
      by (simp_all add: t1_def t0_def)
    have hh: "h = Some y \<Longrightarrow> mt_current_task t = Some y \<and> \<not> done y" for y
      by (auto simp: h_def mt_cancel_current_task_def split: if_splits option.splits)
    note IH = Cons.IH [OF ok1 q1 rec(1)]
    have "mt_get_node k t' = map_option (\<lambda>n. if k \<in> set (x # ids) \<and> \<not> terminal (nd_state n)
       then node_error ''Cancelled by user'' now n else n) (mt_get_node k t)" for k
      using IH get1 [of k] n by (auto intro!: option.map_cong)
    moreover have "y \<in> set (sq_deque (mt_queue t')) \<longleftrightarrow> y \<in> set (sq_deque (mt_queue t)) \<and>
       \<not> (y \<in> set (x # ids) \<and> mt_current_node_id t \<noteq> Some y \<and>
         (\<exists>n. mt_get_node y t = Some n \<and> \<not> terminal (nd_state n)))" for y
      using IH get1 [of y] n fr(3) d1 by auto
    moreover have "\<forall>y \<in> set hs. mt_current_task t = Some y \<and> \<not> done y"
      using IH hh rec(2) fr(4) by (auto split: option.splits)
    ultimately show ?thesis using IH fr by simp
  qed
qed

subsection \<open>Failing a node and its pending descendants\<close>

lemma update_state_get:
  assumes "tree_ok t"
  shows "mt_get_node k (mt_update_state j ERROR None (Some msg) now t) =
    (if k = j then map_option (\<lambda>n. n\<lparr>nd_state := ERROR,
         nd_error_message := (if msg = [] then nd_error_message n else Some msg),
         nd_completed_at := Some now\<rparr>) (mt_get_node k t)
     else mt_get_node k t)"
  by (cases "mt_get_node j t") (auto simp: mt_update_state_def mt_get_node_def Let_def)

lemma update_state_root [simp]:
  "mt_root_id (mt_update_state j st sid err now t) = mt_root_id t"
  "mt_queue (mt_update_state j st sid err now t) = mt_queue t"
  by (cases "mt_get_node j t"; simp add: mt_update_state_def Let_def)+

text \<open>The pending children below a node form a forest of their own.\<close>

interpretation pending: forest pending_children_of node_ids tree_ok
proof
  fix t :: message_tree and x y :: string
  assume ok: "tree_ok t"
  have sub: "set (pending_children_of t x) \<subseteq> set (children_of t x)" for x
    by (auto simp: pending_children_of_def)
  show "y \<in> set (node_ids t)" if "x \<in> set (node_ids t)" "y \<in> set (pending_children_of t x)"
    using mt.child_node [OF ok that(1)] that(2) sub by blast
  show "\<exists>rank :: string \<Rightarrow> nat.
      \<forall>x \<in> set (node_ids t). \<forall>y \<in> set (pending_children_of t x). rank x < rank y"
    using mt.ranked [OF ok] sub by blast
  show "distinct (pending_children_of t x)" if "x \<in> set (node_ids t)"
    using mt.child_distinct [OF ok that] by (simp add: pending_children_of_def)
  show "x = x'" if "x \<in> set (node_ids t)" "x' \<in> set (node_ids t)"
    "y \<in> set (pending_children_of t x)" "y \<in> set (pending_children_of t x')" for x'
    using mt.parent_unique [OF ok that(1,2)] that(3,4) sub by blast
qed

text \<open>The nodes below \<open>k\<close> reached through pending nodes only.\<close>

definition pending_below :: "message_tree \<Rightarrow> string \<Rightarrow> string set" where
  "pending_below t k = {y. (k, y) \<in> (edges (pending_children_of t))\<^sup>+}"

lemma pending_below_pending:
  "y \<in> pending_below t k \<Longrightarrow> \<exists>n. mt_get_node y t = Some n \<and> nd_state n = PENDING"
  by (auto simp: pending_below_def edges_def pending_children_of_def elim: tranclE)

lemma pending_not_below_itself:
  assumes "tree_ok t" and "k \<in> set (node_ids t)"
  shows "(k, k) \<notin> (edges (pending_children_of t))\<^sup>+"
proof
  assume "(k, k) \<in> (edges (pending_children_of t))\<^sup>+"
  then obtain x where "(k, x) \<in> (edges (pending_children_of t))\<^sup>*" "k \<in> set (pending_children_of t x)"
    by (auto simp: edges_def dest: tranclD2)
  then show False using pending.no_cycle [OF assms] by blast
qed

lemma get_pending_children_spec:
  assumes ok: "tree_ok t" and k: "k \<in> set (node_ids t)" and lk: "tr_get_tree_for_node k r = Some t"
  shows "\<exists>ns. tr_get_pending_children k r = Some ns \<and> distinct (map nd_node_id ns) \<and>
    set (map nd_node_id ns) = pending_below t k \<and>
    (\<forall>n \<in> set ns. mt_get_node (nd_node_id n) t = Some n \<and> nd_state n = PENDING)"
proof -
  obtain w where w: "worklist (pending_children_of t) [k] [] = Some w" "distinct w"
    "set w = {y. (k, y) \<in> (edges (pending_children_of t))\<^sup>*}"
    using pending.worklist_reachable [OF ok k] by blast
  obtain p where p: "collectlist (pending_children_of t) [k] [] = Some p" "distinct p"
    "set p = {y. (k, y) \<in> (edges (pending_children_of t))\<^sup>*} - {k}"
    using collectlist_reachable [OF w] by auto
  note nk = pending_not_below_itself [OF ok k]
  have set: "set p = pending_below t k"
    using p(3) nk by (auto simp: pending_below_def dest: rtranclD trancl_into_rtrancl)
  define ns where "ns = map (\<lambda>c. the (mt_get_node c t)) p"
  have node: "mt_get_node c t = Some (the (mt_get_node c t)) \<and> nd_state (the (mt_get_node c t)) = PENDING
      \<and> nd_node_id (the (mt_get_node c t)) = c" if "c \<in> set p" for c
    using pending_below_pending [of c t k] that set tree_ok_node(1) [OF ok, of c] by auto
  then have "map nd_node_id ns = p" by (simp add: ns_def map_idI)
  moreover have "tr_get_pending_children k r = Some ns"
    using lk p(1) by (simp add: tr_get_pending_children_def ns_def)
  moreover have "\<forall>n \<in> set ns. mt_get_node (nd_node_id n) t = Some n \<and> nd_state n = PENDING"
    using node by (auto simp: ns_def)
  ultimately show ?thesis using p(2) set by blast
qed

lemma mark_children_spec:
  assumes "tree_ok t"
  shows "tree_ok (mark_children msg now ns t) \<and> mt_root_id (mark_children msg now ns t) = mt_root_id t \<and>
    mt_queue (mark_children msg now ns t) = mt_queue t \<and>
    (\<forall>k. mt_get_node k (mark_children msg now ns t) =
      (if k \<in> set (map nd_node_id ns) then map_option (node_error (parent_failed msg) now) (mt_get_node k t)
       else mt_get_node k t))"
  using assms
proof (induction ns arbitrary: t)
  case Nil
  then show ?case by (simp add: mark_children_def)
next
  case (Cons n ns)
  let ?t = "mt_update_state (nd_node_id n) ERROR None (Some (parent_failed msg)) now t"
  have step: "mark_children msg now (n # ns) t = mark_children msg now ns ?t"
    by (simp add: mark_children_def)
  have ne: "parent_failed msg \<noteq> []" by (simp add: parent_failed_def)
  have ok: "tree_ok ?t" using tree_ok_update_state [OF Cons.prems] .
  have get: "mt_get_node k ?t = (if k = nd_node_id n then map_option (node_error (parent_failed msg) now)
      (mt_get_node k t) else mt_get_node k t)" for k
    using ne by (auto simp: update_state_get [OF Cons.prems] node_error_def intro!: option.map_cong)
  have "(if k \<in> set (map nd_node_id ns) then map_option (node_error (parent_failed msg) now) (mt_get_node k ?t)
       else mt_get_node k ?t) =
      (if k \<in> set (map nd_node_id (n # ns)) then map_option (node_error (parent_failed msg) now) (mt_get_node k t)
       else mt_get_node k t)" for k
    by (simp add: get option.map_comp comp_def)
  then show ?case using Cons.IH [OF ok] unfolding step by simp
qed

end
