(* ===== verification/TreeProperties.thy ===== *)
theory TreeProperties
  imports TreeCancel
begin

section \<open>What the manager of message trees guarantees\<close>

text \<open>
  The properties of \<open>MessageTree\<close>, \<open>TreeRepository\<close> and \<open>TreeQueueManager\<close>, each with a
  concrete conversation on which it applies: a root \<open>r\<close> with a reply \<open>a\<close>, which has a reply \<open>b\<close>.
\<close>

subsection \<open>A sample conversation\<close>

definition sample_msg :: "string \<Rightarrow> incoming_message" where
  "sample_msg mid =
     \<lparr>im_text = ''hi'', im_chat_id = ''c'', im_user_id = ''u'', im_message_id = mid,
      im_platform = ''telegram'', im_reply_to_message_id = None, im_message_thread_id = None,
      im_username = None, im_status_message_id = None, im_timestamp = 0, im_raw_event = JNull\<rparr>"

definition sample_root :: message_tree where
  "sample_root = mt_init (new_node ''r'' (sample_msg ''r'') ''sr'' None 0)"

definition tree_of :: "(message_node \<times> message_tree) result \<Rightarrow> message_tree" where
  "tree_of x = (case x of Inl _ \<Rightarrow> sample_root | Inr (_, t) \<Rightarrow> t)"

definition sample_reply :: message_tree where
  "sample_reply = tree_of (mt_add_node ''a'' (sample_msg ''a'') ''sa'' ''r'' 1 sample_root)"

definition sample_tree :: message_tree where
  "sample_tree = tree_of (mt_add_node ''b'' (sample_msg ''b'') ''sb'' ''a'' 2 sample_reply)"

definition sample_repo :: tree_repository where
  "sample_repo = tr_register_node ''b'' ''r'' (tr_register_node ''a'' ''r''
     (tr_add_tree ''r'' sample_tree tr_init))"

lemmas sample_defs = sample_tree_def sample_reply_def sample_root_def sample_repo_def tree_of_def
  sample_msg_def

lemma sample_reply_eq:
  "sample_reply =
     \<lparr>mt_root_id = ''r'',
      mt_nodes = [(''r'', (new_node ''r'' (sample_msg ''r'') ''sr'' None 0)\<lparr>nd_children_ids := [''a'']\<rparr>),
                  (''a'', new_node ''a'' (sample_msg ''a'') ''sa'' (Some ''r'') 1)],
      mt_status_to_node = [(''sr'', ''r''), (''sa'', ''a'')],
      mt_queue = sq_init, mt_is_processing = False, mt_current_node_id = None,
      mt_current_task = None\<rparr>"
  by (simp add: sample_reply_def sample_root_def tree_of_def mt_init_def mt_add_node_def new_node_def
      Let_def dict_set_def dict_get_def dict_has_def)

lemma sample_tree_eq:
  "sample_tree =
     \<lparr>mt_root_id = ''r'',
      mt_nodes = [(''r'', (new_node ''r'' (sample_msg ''r'') ''sr'' None 0)\<lparr>nd_children_ids := [''a'']\<rparr>),
                  (''a'', (new_node ''a'' (sample_msg ''a'') ''sa'' (Some ''r'') 1)\<lparr>nd_children_ids := [''b'']\<rparr>),
                  (''b'', new_node ''b'' (sample_msg ''b'') ''sb'' (Some ''a'') 2)],
      mt_status_to_node = [(''sr'', ''r''), (''sa'', ''a''), (''sb'', ''b'')],
      mt_queue = sq_init, mt_is_processing = False, mt_current_node_id = None,
      mt_current_task = None\<rparr>"
  by (simp add: sample_tree_def sample_reply_eq tree_of_def mt_add_node_def new_node_def
      Let_def dict_set_def dict_get_def dict_has_def)

lemma sample_tree_ok: "tree_ok sample_tree"
proof -
  have r: "tree_ok sample_root" unfolding sample_root_def by (rule tree_ok_init) simp
  have "mt_add_node ''a'' (sample_msg ''a'') ''sa'' ''r'' 1 sample_root =
      Inr (new_node ''a'' (sample_msg ''a'') ''sa'' (Some ''r'') 1, sample_reply)"
    unfolding sample_reply_eq sample_root_def
    by (simp add: mt_init_def mt_add_node_def new_node_def Let_def dict_set_def dict_get_def dict_has_def)
  from tree_ok_add_node [OF r _ _ _ _ this] have a: "tree_ok sample_reply"
    by (simp add: sample_root_def mt_init_def mt_get_node_def new_node_def dict_get_def)
  have "mt_add_node ''b'' (sample_msg ''b'') ''sb'' ''a'' 2 sample_reply =
      Inr (new_node ''b'' (sample_msg ''b'') ''sb'' (Some ''a'') 2, sample_tree)"
    unfolding sample_reply_eq sample_tree_eq
    by (simp add: mt_add_node_def new_node_def Let_def dict_set_def dict_get_def dict_has_def)
  from tree_ok_add_node [OF a _ _ _ _ this] show ?thesis
    by (simp add: sample_reply_eq mt_get_node_def new_node_def dict_get_def)
qed

lemma sample_node_ids: "node_ids sample_tree = [''r'', ''a'', ''b'']"
  by (simp add: sample_tree_eq node_ids_def dict_keys_def)

lemma sample_root_id: "mt_root_id sample_tree = ''r''"
  by (simp add: sample_tree_eq)

lemma sample_get_tree: "tr_get_tree root sample_repo = (if root = ''r'' then Some sample_tree else None)"
  by (simp add: sample_repo_def tr_init_def tr_add_tree_def tr_register_node_def tr_put_tree_def tr_get_tree_def)

lemma sample_index:
  "tr_node_to_tree sample_repo = [(''r'', ''r''), (''a'', ''r''), (''b'', ''r'')]"
  by (simp add: sample_repo_def tr_init_def tr_add_tree_def tr_register_node_def tr_put_tree_def
      dict_set_def)

lemma sample_repo_ok: "repo_ok sample_repo"
proof -
  have "dict_ok (tr_trees sample_repo)"
    by (simp add: sample_repo_def tr_init_def tr_add_tree_def tr_register_node_def tr_put_tree_def
        dict_ok_def dict_keys_def dict_set_def)
  moreover have "mt_root_id sample_tree = ''r''" by (simp add: sample_tree_eq)
  moreover have "dict_get k (tr_node_to_tree sample_repo) = Some ''r''" if "k \<in> set (node_ids sample_tree)" for k
    using that by (auto simp: sample_index sample_node_ids dict_get_def)
  ultimately show ?thesis
    using sample_tree_ok unfolding repo_ok_def sample_get_tree by auto
qed

lemma sample_lookup:
  "k \<in> {''r'', ''a'', ''b''} \<Longrightarrow> tr_get_tree_for_node k sample_repo = Some sample_tree"
  using repo_ok_node_lookup(1) [OF sample_repo_ok, of "''r''" sample_tree k] sample_get_tree sample_node_ids
  by auto


subsection \<open>Growing a conversation\<close>

text \<open>\<open>add_to_tree\<close>: a reply to a registered node, with a fresh id and a fresh status id, is
  stored as the last child of its parent, is found under its id, and the index stays consistent:
  every tree is a tree, and every node of every tree is registered to the root of its own tree.\<close>

theorem add_to_tree_keeps_index:
  assumes "repo_ok r" and "nid \<noteq> []" and "\<not> tr_has_node nid r"
    and "tr_get_tree_for_node parent r = Some t" and "parent \<in> set (node_ids t)"
    and "dict_get sid (mt_status_to_node t) = None"
  shows "\<exists>t' node r'. mgr_add_to_tree parent nid inc sid now r = Inr (t', node, r') \<and> repo_ok r' \<and>
    tr_get_node nid r' = Some node \<and> nd_parent_id node = Some parent \<and> nd_state node = PENDING \<and>
    children_of t' parent = children_of t parent @ [nid] \<and> mt_queue t' = mt_queue t"
proof -
  obtain t' node r' where a: "mgr_add_to_tree parent nid inc sid now r = Inr (t', node, r')"
    "repo_ok r'" "tr_get_tree_for_node nid r' = Some t'" "mt_get_node nid t' = Some node"
    "nd_parent_id node = Some parent" "mt_queue t' = mt_queue t"
    "nd_state node = PENDING" "children_of t' parent = children_of t parent @ [nid]"
    using add_to_tree_ok [OF assms, of inc now] by metis
  then show ?thesis by (auto simp: tr_get_node_def)
qed

theorem add_to_tree_keeps_index_witness:
  "\<exists>t' node r'. mgr_add_to_tree ''a'' ''d'' (sample_msg ''d'') ''sd'' 3 sample_repo = Inr (t', node, r') \<and>
    repo_ok r' \<and> tr_get_node ''d'' r' = Some node \<and> nd_parent_id node = Some ''a'' \<and>
    nd_state node = PENDING \<and> children_of t' ''a'' = children_of sample_tree ''a'' @ [''d''] \<and>
    mt_queue t' = mt_queue sample_tree"
  by (rule add_to_tree_keeps_index [OF sample_repo_ok])
    (simp_all add: sample_lookup sample_node_ids sample_index tr_has_node_def dict_has_def,
     simp add: sample_tree_eq dict_get_def)

subsection \<open>Errors and their propagation\<close>

lemma node_ids_eqI:
  "(\<And>k. mt_get_node k t' = None \<longleftrightarrow> mt_get_node k t = None) \<Longrightarrow> set (node_ids t') = set (node_ids t)"
  by (auto simp: node_ids_iff) (metis option.exhaust)+

lemma pending_below_marked:
  assumes ok: "tree_ok t" and k: "k \<in> set (node_ids t)"
    and get: "\<And>j. mt_get_node j t' = (if j = k then map_option f (mt_get_node j t) else mt_get_node j t)"
    and f: "\<And>n. nd_state (f n) = ERROR \<and> nd_children_ids (f n) = nd_children_ids n"
  shows "pending_below t' k = pending_below t k"
proof -
  have ch: "set (pending_children_of t' x) = set (pending_children_of t x) - {k}" for x
  proof -
    have "children_of t' x = children_of t x"
      using get [of x] f by (cases "mt_get_node x t") (auto simp: children_of_def)
    then show ?thesis using get f by (auto simp: pending_children_of_def)
  qed
  have ne: "y \<noteq> k" if "(k, y) \<in> (edges (pending_children_of t))\<^sup>+" for y
    using that pending_not_below_itself [OF ok k] by auto
  have "(k, y) \<in> (edges (pending_children_of t'))\<^sup>+" if "(k, y) \<in> (edges (pending_children_of t))\<^sup>+" for y
    using that
  proof (induction rule: trancl_induct)
    case (base y)
    then show ?case using ch ne [of y] by (auto simp: edges_def)
  next
    case (step y z)
    have "(k, z) \<in> (edges (pending_children_of t))\<^sup>+" using step.hyps by (rule trancl_into_trancl)
    then have "(y, z) \<in> edges (pending_children_of t')"
      using ne step.hyps(2) ch [of y] by (auto simp: edges_def)
    with step.IH show ?case by (rule trancl_into_trancl)
  qed
  moreover have "edges (pending_children_of t') \<subseteq> edges (pending_children_of t)"
    using ch by (auto simp: edges_def)
  ultimately show ?thesis using trancl_mono by (auto simp: pending_below_def)
qed


lemma mark_node_error_effect:
  assumes "repo_ok r" and "tr_get_tree_for_node nid r = Some t" and "nid \<in> set (node_ids t)"
    and "msg \<noteq> []"
  shows "\<exists>ids r' t'. mgr_mark_node_error nid msg True now r = Some (ids, r') \<and> repo_ok r' \<and>
    tr_get_tree (mt_root_id t) r' = Some t' \<and>
    distinct ids \<and> set ids = insert nid (pending_below t nid) \<and>
    (\<forall>k. mt_get_node k t' = map_option
       (\<lambda>n. if k = nid then node_error msg now n
            else if k \<in> pending_below t nid then node_error (''Parent failed: '' @ msg) now n
            else n) (mt_get_node k t)) \<and> mt_queue t' = mt_queue t"
proof -
  note t = repo_ok_tree_for_node [OF assms(1,2)]
  obtain n where n: "mt_get_node nid t = Some n" using assms(3) node_ids_iff by auto
  define t1 where "t1 = mt_update_state nid ERROR None (Some msg) now t"
  define r1 where "r1 = tr_put_tree (mt_root_id t) t1 r"
  have ok1: "tree_ok t1" unfolding t1_def using tree_ok_update_state [OF t(1)] .
  have get1: "mt_get_node k t1 = (if k = nid then map_option (node_error msg now) (mt_get_node k t)
      else mt_get_node k t)" for k
    using assms(4) unfolding t1_def update_state_get [OF t(1)]
    by (auto simp: node_error_def intro!: option.map_cong)
  have ids1: "set (node_ids t1) = set (node_ids t)" using get1 by (auto simp: node_ids_iff split: if_splits)
  have root1: "mt_root_id t1 = mt_root_id t" by (simp add: t1_def)
  have repo1: "repo_ok r1" unfolding r1_def
    by (rule repo_ok_put_tree [OF assms(1) t(2) ok1]) (simp_all add: ids1 root1)
  have tree1: "tr_get_tree (mt_root_id t) r1 = Some t1" by (simp add: r1_def tr_get_tree_def tr_put_tree_def)
  have mem1: "nid \<in> set (node_ids t1)" using ids1 assms(3) by simp
  have pb: "pending_below t1 nid = pending_below t nid"
    using pending_below_marked [OF t(1) assms(3) get1] by (simp add: node_error_def)
  obtain ns where ns: "tr_get_pending_children nid r1 = Some ns" "distinct (map nd_node_id ns)"
    "set (map nd_node_id ns) = pending_below t nid"
    using get_pending_children_spec [OF ok1 mem1 repo_ok_node_lookup(1) [OF repo1 tree1 mem1]] pb by blast
  define t2 where "t2 = mark_children msg now ns t1"
  note s2 = mark_children_spec [OF ok1, of msg now ns, folded t2_def]
  have get2: "mt_get_node k t2 = (if k \<in> set (map nd_node_id ns)
      then map_option (node_error (parent_failed msg) now) (mt_get_node k t1) else mt_get_node k t1)" for k
    using s2 by blast
  have ids2: "set (node_ids t2) = set (node_ids t1)" by (rule node_ids_eqI) (simp add: get2)
  have nself: "nid \<notin> pending_below t nid"
    using pending_not_below_itself [OF t(1) assms(3)] by (simp add: pending_below_def)
  have "mgr_mark_node_error nid msg True now r =
      Some (nid # map nd_node_id ns, tr_put_tree (mt_root_id t) t2 r1)"
    using assms(2) n ns(1) by (simp add: mgr_mark_node_error_def Let_def t1_def r1_def t2_def)
  moreover have "repo_ok (tr_put_tree (mt_root_id t) t2 r1)"
    by (rule repo_ok_put_tree [OF repo1 tree1]) (use s2 ids2 root1 in simp_all)
  moreover have "mt_get_node k t2 = map_option
       (\<lambda>n. if k = nid then node_error msg now n
            else if k \<in> pending_below t nid then node_error (''Parent failed: '' @ msg) now n
            else n) (mt_get_node k t)" for k
    using get2 [of k] ns(3) get1 [of k] nself
    by (auto simp: parent_failed_def [abs_def] option.map_ident intro!: option.map_cong)
  moreover have "mt_queue t2 = mt_queue t" using s2 by (simp add: t1_def)
  ultimately show ?thesis using ns nself by (auto simp: tr_get_tree_def tr_put_tree_def)
qed

text \<open>\<open>mark_node_error\<close> with propagation: it ends, it marks exactly the node, with the message
  given, and the nodes reached from it through pending nodes only, with "Parent failed: ..."; it
  returns each marked id once, and every other node is unchanged.\<close>

theorem mark_node_error_exact:
  assumes "repo_ok r" and "tr_get_tree_for_node nid r = Some t" and "nid \<in> set (node_ids t)"
    and "msg \<noteq> []"
  shows "\<exists>ids r' t'. mgr_mark_node_error nid msg True now r = Some (ids, r') \<and> repo_ok r' \<and>
    tr_get_tree (mt_root_id t) r' = Some t' \<and>
    distinct ids \<and> set ids = insert nid (pending_below t nid) \<and>
    (\<forall>k. mt_get_node k t' = map_option
       (\<lambda>n. if k = nid then node_error msg now n
            else if k \<in> pending_below t nid then node_error (''Parent failed: '' @ msg) now n
            else n) (mt_get_node k t))"
  using mark_node_error_effect [OF assms, of now] by blast

theorem mark_node_error_exact_witness:
  "\<exists>ids r' t'. mgr_mark_node_error ''r'' ''boom'' True 9 sample_repo = Some (ids, r') \<and> repo_ok r' \<and>
     tr_get_tree ''r'' r' = Some t' \<and>
     map_option nd_error_message (mt_get_node ''r'' t') = Some (Some ''boom'') \<and>
     map_option nd_error_message (mt_get_node ''b'' t') = Some (Some ''Parent failed: boom'')"
proof -
  have "''a'' \<in> set (pending_children_of sample_tree ''r'')" "''b'' \<in> set (pending_children_of sample_tree ''a'')"
    by (simp_all add: sample_tree_eq pending_children_of_def children_of_def mt_get_node_def dict_get_def new_node_def)
  then have "''b'' \<in> pending_below sample_tree ''r''"
    unfolding pending_below_def edges_def
    by (auto intro: trancl_into_trancl)
  moreover have "mt_root_id sample_tree = ''r''" by (simp add: sample_tree_eq)
  moreover have "mt_get_node ''r'' sample_tree \<noteq> None" "mt_get_node ''b'' sample_tree \<noteq> None"
    by (simp_all add: sample_tree_eq mt_get_node_def dict_get_def)
  moreover note mark_node_error_exact [OF sample_repo_ok sample_lookup [of "''r''"], of "''boom''" 9]
  ultimately show ?thesis by (fastforce simp: sample_node_ids node_error_def)
qed


subsection \<open>Cancelling\<close>

text \<open>C40. \<open>cancel_tree\<close>: afterwards every node of the tree is COMPLETED or ERROR, the queue is
  empty and the tree is free. What becomes of each node is given exactly: a queued node, and an
  unfinished node whose task is running, is marked "Cancelled by user"; any other unfinished node
  is marked "Stale task cleaned up"; a finished node that is not queued stays as it is. The marks
  on queued nodes do not ask whether the node has already failed. The nodes returned are those
  marked "Cancelled by user". No node is lost, other trees are untouched, and the index stays
  consistent.\<close>

theorem cancel_tree_stops_everything:
  assumes "repo_ok r" and "tr_get_tree root r = Some t" and "mgr_cancel_tree done now root r = (h, ns, r')"
  shows "repo_ok r' \<and> (\<exists>t'. tr_get_tree root r' = Some t' \<and> sq_deque (mt_queue t') = [] \<and>
      \<not> mt_is_processing t' \<and> set (node_ids t') = set (node_ids t) \<and>
      (\<forall>k n. mt_get_node k t' = Some n \<longrightarrow> terminal (nd_state n)) \<and>
      (\<forall>k. mt_get_node k t' = map_option (\<lambda>n.
         if k \<in> set (sq_deque (mt_queue t)) \<or> \<not> terminal (nd_state n) \<and> runs_node done t k
           then node_error ''Cancelled by user'' now n
         else if terminal (nd_state n) then n
         else node_error ''Stale task cleaned up'' now n) (mt_get_node k t))) \<and>
    (\<forall>k. k \<in> set (map nd_node_id ns) \<longleftrightarrow> (\<exists>n. mt_get_node k t = Some n \<and>
       (k \<in> set (sq_deque (mt_queue t)) \<or> \<not> terminal (nd_state n) \<and> runs_node done t k))) \<and>
    (\<forall>root'. root' \<noteq> root \<longrightarrow> tr_get_tree root' r' = tr_get_tree root' r)"
proof -
  obtain t' where c: "cancel_tree_body done now t = (h, ns, t')" and r': "r' = tr_put_tree root t' r"
    using assms(2,3) by (auto simp: mgr_cancel_tree_def split: prod.splits)
  note t = repo_ok_tree [OF assms(1,2)] and s = cancel_tree_body_spec [OF t(1) c]
  have "\<forall>k. mt_get_node k t' = map_option (\<lambda>n.
       if k \<in> set (sq_deque (mt_queue t)) \<or> \<not> terminal (nd_state n) \<and> runs_node done t k
         then node_error ''Cancelled by user'' now n
       else if terminal (nd_state n) then n
       else node_error ''Stale task cleaned up'' now n) (mt_get_node k t)"
    by (rule allI, rule s(8))
  moreover have "tr_get_tree root r' = Some t'" by (simp add: r' tr_get_tree_def tr_put_tree_def)
  moreover have "\<forall>k n. mt_get_node k t' = Some n \<longrightarrow> terminal (nd_state n)" using s(7) by blast
  moreover note s(3,4,6)
  ultimately have tree: "\<exists>t'. tr_get_tree root r' = Some t' \<and> sq_deque (mt_queue t') = [] \<and>
      \<not> mt_is_processing t' \<and> set (node_ids t') = set (node_ids t) \<and>
      (\<forall>k n. mt_get_node k t' = Some n \<longrightarrow> terminal (nd_state n)) \<and>
      (\<forall>k. mt_get_node k t' = map_option (\<lambda>n.
         if k \<in> set (sq_deque (mt_queue t)) \<or> \<not> terminal (nd_state n) \<and> runs_node done t k
           then node_error ''Cancelled by user'' now n
         else if terminal (nd_state n) then n
         else node_error ''Stale task cleaned up'' now n) (mt_get_node k t))"
    by (intro exI [of _ t'] conjI)
  have "repo_ok r'" unfolding r'
    by (rule repo_ok_put_tree [OF assms(1,2) s(1)]) (use s(2,6) t in auto)
  moreover have "\<forall>root'. root' \<noteq> root \<longrightarrow> tr_get_tree root' r' = tr_get_tree root' r"
    by (simp add: r' tr_get_tree_def tr_put_tree_def)
  moreover have "\<forall>k. k \<in> set (map nd_node_id ns) \<longleftrightarrow> (\<exists>n. mt_get_node k t = Some n \<and>
       (k \<in> set (sq_deque (mt_queue t)) \<or> \<not> terminal (nd_state n) \<and> runs_node done t k))"
    by (rule allI, rule s(9))
  ultimately show ?thesis using tree by (intro conjI)
qed

text \<open>The sample tree with its last node waiting in the queue, and failed there by
  \<open>mark_node_error\<close> on its parent, which leaves the queue as it is.\<close>

definition failed_in_queue :: tree_repository where
  "failed_in_queue = (let r = tr_put_tree ''r'' (mt_put_queue_unlocked ''b'' sample_tree) sample_repo
     in case mgr_mark_node_error ''a'' ''upstream down'' True 6 r of Some (_, r') \<Rightarrow> r' | None \<Rightarrow> r)"

theorem cancel_tree_stops_everything_witness:
  "let (h, ns, r') = mgr_cancel_tree (\<lambda>_. True) 7 ''r'' failed_in_queue in
     repo_ok r' \<and> map_option nd_error_message (tr_get_node ''b'' failed_in_queue) =
       Some (Some ''Parent failed: upstream down'') \<and>
     map_option nd_error_message (tr_get_node ''b'' r') = Some (Some ''Cancelled by user'') \<and>
     map_option nd_error_message (tr_get_node ''a'' r') = Some (Some ''upstream down'') \<and>
     map_option nd_error_message (tr_get_node ''r'' r') = Some (Some ''Stale task cleaned up'')"
proof -
  define t where "t = mt_put_queue_unlocked ''b'' sample_tree"
  define r0 where "r0 = tr_put_tree ''r'' t sample_repo"
  have ids: "set (node_ids t) = {''r'', ''a'', ''b''}"
    using sample_node_ids by (simp add: t_def mt_put_queue_unlocked_def node_ids_def)
  have root: "mt_root_id t = ''r''" by (simp add: t_def mt_put_queue_unlocked_def sample_root_id)
  have "tree_ok t" unfolding t_def by (rule tree_ok_queue_ops(4) [OF sample_tree_ok])
  from repo_ok_put_tree [OF sample_repo_ok _ this root] have ok: "repo_ok r0"
    unfolding r0_def by (simp add: sample_get_tree sample_node_ids ids)
  have lk: "tr_get_tree ''r'' r0 = Some t" by (simp add: r0_def tr_get_tree_def tr_put_tree_def)
  have lka: "tr_get_tree_for_node ''a'' r0 = Some t"
    using repo_ok_node_lookup(1) [OF ok lk, of "''a''"] ids by simp
  obtain xs r1 t1 where m: "mgr_mark_node_error ''a'' ''upstream down'' True 6 r0 = Some (xs, r1)"
    "repo_ok r1" "tr_get_tree ''r'' r1 = Some t1"
    "\<And>k. mt_get_node k t1 = map_option (\<lambda>n. if k = ''a'' then node_error ''upstream down'' 6 n
            else if k \<in> pending_below t ''a'' then node_error (''Parent failed: '' @ ''upstream down'') 6 n
            else n) (mt_get_node k t)" "mt_queue t1 = mt_queue t"
    using mark_node_error_effect [OF ok lka, of "''upstream down''" 6] ids root by auto
  have f: "failed_in_queue = r1"
    using m(1) by (simp add: failed_in_queue_def r0_def t_def)
  have ids1: "set (node_ids t1) = {''r'', ''a'', ''b''}"
    using ids m(4) by (auto simp: node_ids_iff set_eq_iff)
  have gets: "mt_get_node k t = mt_get_node k sample_tree" for k
    by (simp add: t_def mt_put_queue_unlocked_def mt_get_node_def)
  have "''b'' \<in> set (pending_children_of t ''a'')"
    by (simp add: pending_children_of_def children_of_def gets)
      (simp add: sample_tree_eq mt_get_node_def dict_get_def new_node_def)
  then have b: "''b'' \<in> pending_below t ''a''" by (auto simp: pending_below_def edges_def)
  have "''r'' \<notin> set (children_of t x)" for x
    unfolding children_of_def gets by (simp add: sample_tree_eq mt_get_node_def dict_get_def new_node_def)
  then have r: "''r'' \<notin> pending_below t ''a''"
    by (auto simp: pending_below_def edges_def pending_children_of_def elim: tranclE)
  obtain h ns r' where c: "mgr_cancel_tree (\<lambda>_. True) 7 ''r'' r1 = (h, ns, r')"
    by (cases "mgr_cancel_tree (\<lambda>_. True) 7 ''r'' r1")
  from cancel_tree_stops_everything [OF m(2,3) c] obtain t' where t': "repo_ok r'"
    "tr_get_tree ''r'' r' = Some t'" "set (node_ids t') = set (node_ids t1)"
    "\<And>k. mt_get_node k t' = map_option (\<lambda>n.
         if k \<in> set (sq_deque (mt_queue t1)) \<or> \<not> terminal (nd_state n) \<and> runs_node (\<lambda>_. True) t1 k
           then node_error ''Cancelled by user'' 7 n
         else if terminal (nd_state n) then n
         else node_error ''Stale task cleaned up'' 7 n) (mt_get_node k t1)"
    by (elim conjE exE) (rule that, assumption+, erule spec)
  have look: "tr_get_node k r' = mt_get_node k t'" "tr_get_node k r1 = mt_get_node k t1"
    if "k \<in> {''r'', ''a'', ''b''}" for k
    using repo_ok_node_lookup(2) [OF t'(1,2), of k] repo_ok_node_lookup(2) [OF m(2,3), of k] that ids1 t'(3)
    by auto
  have q: "sq_deque (mt_queue t1) = [''b'']"
    by (simp add: m(5) t_def mt_put_queue_unlocked_def sq_put_nowait_def sample_tree_eq sq_init_def)
  have nr: "\<not> runs_node (\<lambda>_. True) t1 k" for k
    by (simp add: runs_node_def mt_cancel_current_task_def split: option.split)
  obtain x where x: "mt_get_node ''r'' sample_tree = Some x" "nd_state x = PENDING"
    by (simp add: sample_tree_eq mt_get_node_def dict_get_def new_node_def)
  obtain y where y: "mt_get_node ''a'' sample_tree = Some y"
    by (simp add: sample_tree_eq mt_get_node_def dict_get_def)
  obtain z where z: "mt_get_node ''b'' sample_tree = Some z"
    by (simp add: sample_tree_eq mt_get_node_def dict_get_def)
  have "mt_get_node ''r'' t1 = Some x" "mt_get_node ''a'' t1 = Some (node_error ''upstream down'' 6 y)"
    "mt_get_node ''b'' t1 = Some (node_error (''Parent failed: '' @ ''upstream down'') 6 z)"
    using b r by (simp_all add: m(4) gets x(1) y z)
  then show ?thesis unfolding f c using t'(1) x(2)
    by (simp add: look t'(4) nr q) (simp add: node_error_def terminal_def)
qed


text \<open>\<open>cancel_branch\<close>, whatever order Python's set iteration takes (\<open>ord\<close>): the traversal ends,
  exactly the unfinished nodes of the subtree are marked "Cancelled by user", a subtree node that
  is queued and not running leaves the queue, every other queued id stays, and the tree's
  running state is left to the running task.\<close>

theorem cancel_branch_exact:
  assumes "repo_ok r" and "tr_get_tree_for_node bid r = Some t" and "bid \<in> set (node_ids t)"
    and "sq_ok (mt_queue t)" and "\<And>xs. set (ord xs) = set xs"
  shows "\<exists>hs ns r' t'. mgr_cancel_branch ord done now bid r = Some (hs, ns, r') \<and> repo_ok r' \<and>
    tr_get_tree (mt_root_id t) r' = Some t' \<and>
    (\<forall>k. mt_get_node k t' = map_option (\<lambda>n. if k \<in> subtree t bid \<and> \<not> terminal (nd_state n)
       then node_error ''Cancelled by user'' now n else n) (mt_get_node k t)) \<and>
    (\<forall>x. x \<in> set (sq_deque (mt_queue t')) \<longleftrightarrow> x \<in> set (sq_deque (mt_queue t)) \<and>
       \<not> (x \<in> subtree t bid \<and> mt_current_node_id t \<noteq> Some x \<and>
         (\<exists>n. mt_get_node x t = Some n \<and> \<not> terminal (nd_state n)))) \<and>
    mt_is_processing t' = mt_is_processing t \<and> mt_current_node_id t' = mt_current_node_id t"
proof -
  note t = repo_ok_tree_for_node [OF assms(1,2)]
  obtain ds where ds: "mt_get_descendants bid t = Some ds" "set ds = subtree t bid"
    using get_descendants_subtree [OF t(1), of bid] assms(3) by auto
  obtain hs ns t' where c: "cancel_branch_loop done now (ord ds) t = (hs, ns, t')"
    by (cases "cancel_branch_loop done now (ord ds) t")
  note s = cancel_branch_loop_spec [OF t(1) assms(4) c]
  have ids: "set (node_ids t') = set (node_ids t)" using s by (auto simp: node_ids_iff)
  have "repo_ok (tr_put_tree (mt_root_id t) t' r)"
    by (rule repo_ok_put_tree [OF assms(1) t(2)]) (use s ids in auto)
  moreover have "mgr_cancel_branch ord done now bid r = Some (hs, ns, tr_put_tree (mt_root_id t) t' r)"
    using assms(2) ds(1) c by (simp add: mgr_cancel_branch_def)
  moreover have "tr_get_tree (mt_root_id t) (tr_put_tree (mt_root_id t) t' r) = Some t'"
    by (simp add: tr_get_tree_def tr_put_tree_def)
  ultimately show ?thesis using s ds(2) assms(5) by auto
qed

theorem cancel_branch_exact_witness:
  "\<exists>hs ns r'. mgr_cancel_branch rev (\<lambda>_. False) 7 ''a'' sample_repo = Some (hs, ns, r') \<and> repo_ok r'"
proof -
  have "sq_ok (mt_queue sample_tree)" by (simp add: sample_tree_eq sq_ok_def sq_init_def)
  then show ?thesis
    using cancel_branch_exact [OF sample_repo_ok sample_lookup [of "''a''"], of rev "\<lambda>_. False" 7]
    by (auto simp: sample_node_ids)
qed

subsection \<open>Removing\<close>

text \<open>\<open>remove_branch\<close> below the root: it ends without an error, it returns exactly the nodes
  of the subtree as they were, each once; they are gone from the tree, from its parent's children
  and from the index; every other node is unchanged and the index stays consistent.\<close>

theorem remove_branch_exact:
  assumes "repo_ok r" and "tr_get_tree_for_node bid r = Some t" and "bid \<in> set (node_ids t)"
    and "bid \<noteq> mt_root_id t"
  shows "\<exists>removed r' t'. mgr_remove_branch done now bid r =
      Some (None, Inr (removed, mt_root_id t, False), r') \<and> repo_ok r' \<and>
    distinct (map nd_node_id removed) \<and> set (map nd_node_id removed) = subtree t bid \<and>
    (\<forall>n \<in> set removed. mt_get_node (nd_node_id n) t = Some n) \<and>
    (\<forall>k \<in> subtree t bid. \<not> tr_has_node k r') \<and>
    tr_get_tree (mt_root_id t) r' = Some t' \<and>
    (\<forall>k. mt_get_node k t' = (if k \<in> subtree t bid then None
       else map_option (\<lambda>n. n\<lparr>nd_children_ids := removeAll bid (nd_children_ids n)\<rparr>) (mt_get_node k t)))"
proof -
  note t = repo_ok_tree_for_node [OF assms(1,2)]
  obtain ds p n t' where
    rb: "mt_remove_branch bid t = Some (Inr (map (\<lambda>k. the (mt_get_node k t)) ds), t')"
    and ds: "distinct ds" "set ds = subtree t bid" and ok': "tree_ok t'" "mt_root_id t' = mt_root_id t"
    and p: "mt_get_node p t = Some n" "bid \<in> set (nd_children_ids n)" "p \<notin> subtree t bid"
    and get': "\<And>k. mt_get_node k t' = (if k \<in> subtree t bid then None
       else if k = p then Some (n\<lparr>nd_children_ids := removeAll bid (nd_children_ids n)\<rparr>)
       else mt_get_node k t)"
    by (rule remove_branch_spec [OF t(1) assms(3,4)]) (rule that)
  define removed where "removed = map (\<lambda>k. the (mt_get_node k t)) ds"
  have sub: "set ds \<subseteq> set (node_ids t)" using ds(2) subtree_nodes [OF t(1) assms(3)] by simp
  have nodes: "\<exists>m. mt_get_node k t = Some m \<and> nd_node_id m = k" if "k \<in> set ds" for k
    using sub that tree_ok_node(1) [OF t(1), of k] by (fastforce simp: node_ids_iff)
  have "nd_node_id (the (mt_get_node k t)) = k" if "k \<in> set ds" for k using nodes [OF that] by auto
  then have ids: "map nd_node_id removed = ds" by (simp add: removed_def map_idI)
  have other: "m\<lparr>nd_children_ids := removeAll bid (nd_children_ids m)\<rparr> = m"
    if "mt_get_node k t = Some m" "k \<noteq> p" for k m
  proof -
    have "bid \<notin> set (nd_children_ids m)"
      using child_unique_parent [OF t(1), of bid p k] that p by (auto simp: children_of_def)
    then show ?thesis by simp
  qed
  let ?r1 = "tr_put_tree (mt_root_id t) t' r"
  have ids': "set (node_ids t') = set (node_ids t) - subtree t bid"
    using get' p by (auto simp: node_ids_iff split: if_splits)
  have ok1: "repo_ok ?r1" by (rule repo_ok_put_tree [OF assms(1) t(2) ok']) (simp add: ids')
  have "set ds \<inter> set (node_ids u) = {}" if u: "tr_get_tree root ?r1 = Some u" for root u
  proof (cases "root = mt_root_id t")
    case True
    then show ?thesis using u ids' ds(2) by (auto simp: tr_get_tree_def tr_put_tree_def)
  next
    case False
    then have u': "tr_get_tree root r = Some u" using u by (simp add: tr_get_tree_def tr_put_tree_def)
    then show ?thesis using repo_ok_tree(3) [OF assms(1) u'] repo_ok_tree(3) [OF assms(1) t(2)] sub False
      by fastforce
  qed
  then have "repo_ok (tr_unregister_nodes ds ?r1)" by (rule repo_ok_unregister [OF ok1])
  moreover have "mgr_remove_branch done now bid r =
      Some (None, Inr (removed, mt_root_id t, False), tr_unregister_nodes ds ?r1)"
    using assms(2,4) rb ids by (simp add: mgr_remove_branch_def removed_def Let_def)
  moreover have "\<not> tr_has_node k (tr_unregister_nodes ds ?r1)" if "k \<in> subtree t bid" for k
    using that ds(2) pd.lookup_None_iff [of k "fold dict_del ds (tr_node_to_tree ?r1)"]
    by (simp add: tr_has_node_def tr_unregister_nodes_def fold_dict_del_get)
  moreover have "tr_get_tree (mt_root_id t) (tr_unregister_nodes ds ?r1) = Some t'"
    by (simp add: tr_get_tree_def tr_put_tree_def tr_unregister_nodes_def)
  moreover have "mt_get_node k t' = (if k \<in> subtree t bid then None
       else map_option (\<lambda>n. n\<lparr>nd_children_ids := removeAll bid (nd_children_ids n)\<rparr>) (mt_get_node k t))" for k
    using get' [of k] p other [of k] by (cases "mt_get_node k t") auto
  moreover have "\<forall>n \<in> set removed. mt_get_node (nd_node_id n) t = Some n"
    using nodes by (fastforce simp: removed_def)
  ultimately show ?thesis using ds ids by blast
qed

theorem remove_branch_exact_witness:
  "\<exists>removed r'. mgr_remove_branch (\<lambda>_. False) 5 ''a'' sample_repo = Some (None, Inr (removed, ''r'', False), r')
     \<and> repo_ok r' \<and> \<not> tr_has_node ''b'' r'"
proof -
  have "''b'' \<in> set (children_of sample_tree ''a'')"
    by (simp add: sample_tree_eq children_of_def mt_get_node_def dict_get_def)
  then have "''b'' \<in> subtree sample_tree ''a''" by (rule subtree_child [OF subtree_self])
  then show ?thesis
    using remove_branch_exact [OF sample_repo_ok sample_lookup [of "''a''"], of "\<lambda>_. False" 5]
    by (auto simp: sample_node_ids sample_root_id)
qed


subsection \<open>Looking up, traversing, saving\<close>

text \<open>\<open>resolve_parent_node_id\<close>: a node's own id resolves to itself, a status message id
  registered for the tree resolves to the node whose status message it is, and whatever is
  returned is the id of an existing node of the tree the message is registered to.\<close>

theorem resolve_parent_correct:
  assumes "repo_ok r" and "tr_get_tree_for_node m r = Some t"
  shows "(m \<in> set (node_ids t) \<longrightarrow> tr_resolve_parent_node_id m r = Some m) \<and>
    (\<forall>k n. m \<notin> set (node_ids t) \<and> mt_get_node k t = Some n \<and> nd_status_message_id n = m \<longrightarrow>
       tr_resolve_parent_node_id m r = Some k) \<and>
    (\<forall>k. tr_resolve_parent_node_id m r = Some k \<longrightarrow> k \<in> set (node_ids t))"
proof -
  note t = repo_ok_tree_for_node [OF assms]
  have find: "mt_find_node_by_status_message m t = Some n \<longleftrightarrow>
      (\<exists>k. mt_get_node k t = Some n \<and> nd_status_message_id n = m)" for n
  proof
    assume "mt_find_node_by_status_message m t = Some n"
    then obtain k where k: "dict_get m (mt_status_to_node t) = Some k" "mt_get_node k t = Some n"
      by (auto simp: mt_find_node_by_status_message_def split: option.splits if_splits)
    then obtain i q cs where "shape t k = Some (i, q, cs, m)" using t(1) unfolding tree_ok_def by blast
    then show "\<exists>k. mt_get_node k t = Some n \<and> nd_status_message_id n = m"
      using k(2) by (auto simp: shape_def links_def)
  next
    assume "\<exists>k. mt_get_node k t = Some n \<and> nd_status_message_id n = m"
    then obtain k where k: "mt_get_node k t = Some n" "nd_status_message_id n = m" by blast
    have "k \<noteq> []" using k(1) t(1) by (auto simp: tree_ok_def shape_def)
    then show "mt_find_node_by_status_message m t = Some n"
      using tree_ok_node(3) [OF t(1) k(1)] k by (simp add: mt_find_node_by_status_message_def)
  qed
  have "tr_resolve_parent_node_id m r = Some k"
    if "m \<notin> set (node_ids t)" "mt_get_node k t = Some n" "nd_status_message_id n = m" for k n
  proof -
    have "mt_find_node_by_status_message m t = Some n" using find that by blast
    then show ?thesis using assms(2) that tree_ok_node(1) [OF t(1) that(2)]
      by (simp add: tr_resolve_parent_node_id_def)
  qed
  moreover have "k \<in> set (node_ids t)" if res: "tr_resolve_parent_node_id m r = Some k" for k
  proof (cases "m \<in> set (node_ids t)")
    case True
    then show ?thesis using res assms(2) by (simp add: tr_resolve_parent_node_id_def)
  next
    case False
    then obtain n where n: "mt_find_node_by_status_message m t = Some n" "nd_node_id n = k"
      using res assms(2) by (cases "mt_find_node_by_status_message m t") (simp_all add: tr_resolve_parent_node_id_def)
    then obtain j where "mt_get_node j t = Some n" using find by blast
    then show ?thesis using tree_ok_node(1) [OF t(1)] n(2) node_ids_iff by blast
  qed
  moreover have "m \<in> set (node_ids t) \<Longrightarrow> tr_resolve_parent_node_id m r = Some m"
    using assms(2) by (simp add: tr_resolve_parent_node_id_def)
  ultimately show ?thesis by blast
qed

theorem resolve_parent_correct_witness:
  "tr_resolve_parent_node_id ''b'' sample_repo = Some ''b'' \<and>
   tr_resolve_parent_node_id ''sb'' (tr_register_node ''sb'' ''r'' sample_repo) = Some ''b''"
proof -
  let ?r = "tr_register_node ''sb'' ''r'' sample_repo"
  have ok: "repo_ok ?r"
    by (rule repo_ok_register [OF sample_repo_ok]) (simp add: sample_get_tree split: if_splits)
  have lk: "tr_get_tree_for_node ''sb'' ?r = Some sample_tree"
    using sample_get_tree [of "''r''"]
    by (simp add: tr_get_tree_for_node_def tr_register_node_def tr_get_tree_def)
  have "\<exists>n. mt_get_node ''b'' sample_tree = Some n \<and> nd_status_message_id n = ''sb''"
    by (simp add: sample_tree_eq mt_get_node_def dict_get_def new_node_def)
  then have "tr_resolve_parent_node_id ''sb'' ?r = Some ''b''"
    using resolve_parent_correct [OF ok lk] sample_node_ids by auto
  then show ?thesis
    using resolve_parent_correct [OF sample_repo_ok sample_lookup [of "''b''"]] sample_node_ids by simp
qed

text \<open>\<open>get_descendants\<close> ends on every tree, visits no node twice, and returns exactly the
  node and everything below it.\<close>

theorem descendants_complete:
  assumes "tree_ok t" and "k \<in> set (node_ids t)"
  shows "\<exists>ds. mt_get_descendants k t = Some ds \<and> distinct ds \<and> set ds = subtree t k"
  using get_descendants_subtree [OF assms(1), of k] assms(2) by simp

theorem descendants_complete_witness:
  "\<exists>ds. mt_get_descendants ''a'' sample_tree = Some ds \<and> set ds = subtree sample_tree ''a''"
  using descendants_complete [OF sample_tree_ok, of "''a''"] sample_node_ids by auto

text \<open>C34. Saving a tree with \<open>to_dict\<close> and loading it with \<open>from_dict\<close> gives back a tree with the
  same nodes (less the message fields that are not saved), the same root, an empty queue and no
  node running, provided the date format can be read back.\<close>

theorem tree_save_load:
  assumes "\<And>x. from_isofmt (isofmt x) = Some x" and "\<And>x. isofmt x \<noteq> []" and "tree_ok t"
  shows "\<exists>t'. tree_from_dict from_isofmt now (tree_to_dict isofmt t) = Inr t' \<and> tree_ok t' \<and>
    (\<forall>k. mt_get_node k t' = map_option (saved_node now) (mt_get_node k t)) \<and>
    mt_root_id t' = mt_root_id t \<and> mt_get_queue_snapshot t' = [] \<and> \<not> mt_is_processing t'"
  by (rule tree_roundtrip [OF assms])

text \<open>A concrete date format: the sign and the unary digits of the microseconds.\<close>

definition unary_date :: "int \<Rightarrow> string" where
  "unary_date x = (if x < 0 then CHR ''-'' else CHR ''+'') # replicate (nat \<bar>x\<bar>) CHR ''1''"

definition read_unary_date :: "string \<Rightarrow> int option" where
  "read_unary_date s =
     (case s of [] \<Rightarrow> None
      | c # cs \<Rightarrow> Some (if c = CHR ''-'' then - int (length cs) else int (length cs)))"

theorem tree_save_load_witness:
  "\<exists>t'. tree_from_dict read_unary_date 9 (tree_to_dict unary_date sample_tree) = Inr t' \<and> tree_ok t' \<and>
     mt_root_id t' = ''r''"
proof -
  have "read_unary_date (unary_date x) = Some x" "unary_date x \<noteq> []" for x
    by (simp_all add: read_unary_date_def unary_date_def)
  from tree_save_load [OF this sample_tree_ok, of 9] show ?thesis by (auto simp: sample_root_id)
qed

end
