(* ===== verification/TreeProcessor.thy ===== *)
theory TreeProcessor
  imports TreeProperties
begin

section \<open>The per-tree task scheduler (\<open>queue_manager.py\<close>, \<open>TreeQueueProcessor\<close>)\<close>

text \<open>
  One tree with the asyncio tasks created for it.  A task runs \<open>process_node\<close>; its phases are
  the stretches between suspension points: not yet started, inside the caller's \<open>processor\<close>,
  inside the notification callbacks at the end of \<open>_process_next\<close>, and done.  No critical
  section of the tree lock suspends, so the lock is never contended and what happens between
  two suspension points is one step.  A cancel request is a flag on the task; a task cancelled
  before its first step never runs its body, which is what \<open>asyncio\<close> does.

  Steps are a relation labelled with events; \<open>Edit\<close> stands for the updates of nodes that the
  processor and the manager make while the task runs (new nodes, new states), which leave queue,
  flags and current task alone.  Nodes are not removed here.
\<close>

datatype phase = Ready | Active | Notifying | Finished

record task =
  tk_node :: string
  tk_phase :: phase
  tk_cancel :: bool

record proc_state =
  ps_tree :: message_tree
  ps_tasks :: "task list"

definition proc_init :: "message_tree \<Rightarrow> proc_state" where
  "proc_init t = \<lparr>ps_tree = t, ps_tasks = []\<rparr>"

text \<open>\<open>tree.set_current_task(asyncio.create_task(self.process_node(...)))\<close>, if the node exists.\<close>

definition proc_create_task :: "string \<Rightarrow> proc_state \<Rightarrow> proc_state" where
  "proc_create_task nid s =
     (case mt_get_node nid (ps_tree s) of
        None \<Rightarrow> s
      | Some n \<Rightarrow>
          s\<lparr>ps_tree := mt_set_current_task (Some (length (ps_tasks s))) (ps_tree s),
            ps_tasks := ps_tasks s @ [\<lparr>tk_node = nid, tk_phase = Ready, tk_cancel = False\<rparr>]\<rparr>)"

text \<open>\<open>_process_next\<close> up to its notifications; whether there is anything to notify.\<close>

definition proc_process_next :: "proc_state \<Rightarrow> bool \<times> proc_state" where
  "proc_process_next s =
     (let (next, t) = mt_dequeue (ps_tree s) in
      case next of
        None \<Rightarrow> (False, s\<lparr>ps_tree := mt_set_processing_state None False t\<rparr>)
      | Some nid \<Rightarrow>
          if nid = [] then (False, s\<lparr>ps_tree := mt_set_processing_state None False t\<rparr>)
          else (True, proc_create_task nid (s\<lparr>ps_tree := mt_set_processing_state (Some nid) True t\<rparr>)))"

definition proc_enqueue_and_start :: "string \<Rightarrow> proc_state \<Rightarrow> bool \<times> proc_state" where
  "proc_enqueue_and_start nid s =
     (if mt_is_processing (ps_tree s)
      then (True, s\<lparr>ps_tree := mt_put_queue_unlocked nid (ps_tree s)\<rparr>)
      else (False, proc_create_task nid
                     (s\<lparr>ps_tree := mt_set_processing_state (Some nid) True (ps_tree s)\<rparr>)))"

definition set_phase :: "nat \<Rightarrow> phase \<Rightarrow> proc_state \<Rightarrow> proc_state" where
  "set_phase h p s = s\<lparr>ps_tasks := (ps_tasks s)[h := (ps_tasks s ! h)\<lparr>tk_phase := p\<rparr>]\<rparr>"

text \<open>\<open>_process_next\<close> as the last thing task \<open>h\<close> does.\<close>

definition proc_leave :: "nat \<Rightarrow> proc_state \<Rightarrow> proc_state" where
  "proc_leave h s =
     (let (notify, s') = proc_process_next s in set_phase h (if notify then Notifying else Finished) s')"

text \<open>\<open>process_node\<close>: before and after the call of the processor.\<close>

definition process_node_begin :: "nat \<Rightarrow> proc_state \<Rightarrow> proc_state" where
  "process_node_begin h s =
     (if (\<exists>n. mt_get_node (tk_node (ps_tasks s ! h)) (ps_tree s) = Some n \<and> nd_state n = ERROR)
      then proc_leave h s else set_phase h Active s)"

definition process_node_end :: "nat \<Rightarrow> string option \<Rightarrow> int \<Rightarrow> proc_state \<Rightarrow> proc_state" where
  "process_node_end h err now s =
     (let t = (case err of
                 None \<Rightarrow> ps_tree s
               | Some msg \<Rightarrow> mt_update_state (tk_node (ps_tasks s ! h)) ERROR None (Some msg) now (ps_tree s))
      in proc_leave h (s\<lparr>ps_tree := mt_clear_current_node t\<rparr>))"

definition is_done :: "proc_state \<Rightarrow> nat \<Rightarrow> bool" where
  "is_done s h = (tk_phase (ps_tasks s ! h) = Finished)"

definition request_cancel :: "nat list \<Rightarrow> proc_state \<Rightarrow> proc_state" where
  "request_cancel hs s =
     s\<lparr>ps_tasks := fold (\<lambda>h ts. ts[h := (ts ! h)\<lparr>tk_cancel := True\<rparr>]) hs (ps_tasks s)\<rparr>"

datatype event =
    Enqueue string
  | Begin nat
  | NeverRun nat
  | Return nat "string option" int
  | Cancelled nat
  | Notified nat
  | Edit message_tree
  | CancelNode string int
  | CancelBranch "string list" int
  | CancelTree int

text \<open>What an edit by others leaves alone.\<close>

definition same_control :: "message_tree \<Rightarrow> message_tree \<Rightarrow> bool" where
  "same_control t t' \<longleftrightarrow> mt_queue t' = mt_queue t \<and> mt_is_processing t' = mt_is_processing t \<and>
     mt_current_node_id t' = mt_current_node_id t \<and> mt_current_task t' = mt_current_task t \<and>
     set (node_ids t) \<subseteq> set (node_ids t')"

inductive proc_step :: "proc_state \<Rightarrow> event \<Rightarrow> proc_state \<Rightarrow> bool" where
  enqueue: "proc_step s (Enqueue nid) (snd (proc_enqueue_and_start nid s))"
| begin_node: "h < length (ps_tasks s) \<Longrightarrow> tk_phase (ps_tasks s ! h) = Ready \<Longrightarrow>
    \<not> tk_cancel (ps_tasks s ! h) \<Longrightarrow> proc_step s (Begin h) (process_node_begin h s)"
| never_run: "h < length (ps_tasks s) \<Longrightarrow> tk_phase (ps_tasks s ! h) = Ready \<Longrightarrow>
    tk_cancel (ps_tasks s ! h) \<Longrightarrow> proc_step s (NeverRun h) (set_phase h Finished s)"
| return: "h < length (ps_tasks s) \<Longrightarrow> tk_phase (ps_tasks s ! h) = Active \<Longrightarrow>
    proc_step s (Return h err now) (process_node_end h err now s)"
| cancelled: "h < length (ps_tasks s) \<Longrightarrow> tk_phase (ps_tasks s ! h) = Active \<Longrightarrow>
    tk_cancel (ps_tasks s ! h) \<Longrightarrow> proc_step s (Cancelled h) (process_node_end h None 0 s)"
| notified: "h < length (ps_tasks s) \<Longrightarrow> tk_phase (ps_tasks s ! h) = Notifying \<Longrightarrow>
    proc_step s (Notified h) (set_phase h Finished s)"
| edit: "same_control (ps_tree s) t \<Longrightarrow> proc_step s (Edit t) (s\<lparr>ps_tree := t\<rparr>)"
| cancel_node: "cancel_node_body (is_done s) now nid (ps_tree s) = (h, ns, t) \<Longrightarrow>
    proc_step s (CancelNode nid now) (request_cancel (case h of None \<Rightarrow> [] | Some x \<Rightarrow> [x]) (s\<lparr>ps_tree := t\<rparr>))"
| cancel_branch: "cancel_branch_loop (is_done s) now ids (ps_tree s) = (hs, ns, t) \<Longrightarrow>
    proc_step s (CancelBranch ids now) (request_cancel hs (s\<lparr>ps_tree := t\<rparr>))"
| cancel_tree: "cancel_tree_body (is_done s) now (ps_tree s) = (h, ns, t) \<Longrightarrow>
    proc_step s (CancelTree now) (request_cancel (case h of None \<Rightarrow> [] | Some x \<Rightarrow> [x]) (s\<lparr>ps_tree := t\<rparr>))"

inductive proc_run :: "proc_state \<Rightarrow> event list \<Rightarrow> proc_state \<Rightarrow> bool" where
  run_nil: "proc_run s [] s"
| run_snoc: "proc_run s es s1 \<Longrightarrow> proc_step s1 e s2 \<Longrightarrow> proc_run s (es @ [e]) s2"

text \<open>A task is live while its node is being, or about to be, processed.\<close>

definition live :: "proc_state \<Rightarrow> nat \<Rightarrow> bool" where
  "live s h \<longleftrightarrow> h < length (ps_tasks s) \<and> tk_phase (ps_tasks s ! h) \<in> {Ready, Active}"


subsection \<open>Orderly runs: no cancellation\<close>

text \<open>The ids handed to \<open>enqueue_and_start\<close>, in order.\<close>

fun enqueued :: "event list \<Rightarrow> string list" where
  "enqueued [] = []"
| "enqueued (Enqueue nid # es) = nid # enqueued es"
| "enqueued (_ # es) = enqueued es"

definition waiting :: "proc_state \<Rightarrow> string list" where
  "waiting s = sq_deque (mt_queue (ps_tree s))"

text \<open>
  No cancellation is requested, and only nodes of the tree are enqueued (the handler enqueues
  the node it has just added).
\<close>

definition orderly :: "proc_state \<Rightarrow> event \<Rightarrow> bool" where
  "orderly s e =
     (case e of
        Enqueue nid \<Rightarrow> nid \<noteq> [] \<and> nid \<in> set (node_ids (ps_tree s))
      | CancelNode _ _ \<Rightarrow> False | CancelBranch _ _ \<Rightarrow> False | CancelTree _ \<Rightarrow> False
      | _ \<Rightarrow> True)"

inductive orderly_run :: "proc_state \<Rightarrow> event list \<Rightarrow> proc_state \<Rightarrow> bool" where
  orderly_nil: "orderly_run s [] s"
| orderly_snoc: "orderly_run s es s1 \<Longrightarrow> proc_step s1 e s2 \<Longrightarrow> orderly s1 e \<Longrightarrow> orderly_run s (es @ [e]) s2"

text \<open>
  What holds throughout: the tree is marked busy exactly while its newest task is live, that
  task is the current one, all older tasks are past their processor, an idle tree has nothing
  waiting, and every node got its task in the order of the requests.
\<close>

definition past :: "task \<Rightarrow> bool" where
  "past k \<longleftrightarrow> tk_phase k \<in> {Notifying, Finished}"

definition proc_inv :: "string list \<Rightarrow> proc_state \<Rightarrow> bool" where
  "proc_inv reqs s \<longleftrightarrow>
     map tk_node (ps_tasks s) @ waiting s = reqs \<and>
     set reqs \<subseteq> set (node_ids (ps_tree s)) - {[]} \<and>
     (\<forall>k \<in> set (ps_tasks s). \<not> tk_cancel k) \<and>
     (if mt_is_processing (ps_tree s)
      then ps_tasks s \<noteq> [] \<and> (\<forall>k \<in> set (butlast (ps_tasks s)). past k) \<and> \<not> past (last (ps_tasks s)) \<and>
           mt_current_node_id (ps_tree s) = Some (tk_node (last (ps_tasks s))) \<and>
           mt_current_task (ps_tree s) = Some (length (ps_tasks s) - 1)
      else (\<forall>k \<in> set (ps_tasks s). past k) \<and> waiting s = [])"

lemma enqueued_append [simp]: "enqueued (es @ es') = enqueued es @ enqueued es'"
  by (induction es rule: enqueued.induct) simp_all

lemma not_past_iff: "\<not> past k \<longleftrightarrow> tk_phase k = Ready \<or> tk_phase k = Active"
  by (cases "tk_phase k") (simp_all add: past_def)

lemma node_ids_frame [simp]:
  "node_ids (mt_set_current_task h t) = node_ids t" "node_ids (mt_set_processing_state c b t) = node_ids t"
  "node_ids (mt_put_queue_unlocked x t) = node_ids t" "node_ids (mt_clear_current_node t) = node_ids t"
  "node_ids (t\<lparr>mt_queue := q\<rparr>) = node_ids t"
  by (simp_all add: node_ids_def mt_set_current_task_def mt_set_processing_state_def
      mt_put_queue_unlocked_def mt_clear_current_node_def)

lemma node_ids_update_state [simp]: "set (node_ids (mt_update_state k st sid err now t)) = set (node_ids t)"
  by (cases "mt_get_node k t")
    (auto simp: mt_update_state_def mt_get_node_def node_ids_def Let_def dest!: pd.lookup_SomeD)

text \<open>The task list after starting the next node, or none.\<close>

lemma create_task_eq:
  assumes "nid \<in> set (node_ids (ps_tree s))"
  shows "proc_create_task nid s = s\<lparr>ps_tree := mt_set_current_task (Some (length (ps_tasks s))) (ps_tree s),
            ps_tasks := ps_tasks s @ [\<lparr>tk_node = nid, tk_phase = Ready, tk_cancel = False\<rparr>]\<rparr>"
  using assms by (auto simp: proc_create_task_def node_ids_iff)

lemma process_next_Nil:
  "waiting s = [] \<Longrightarrow>
     proc_process_next s = (False, s\<lparr>ps_tree := mt_set_processing_state None False (ps_tree s)\<rparr>)"
  by (simp add: proc_process_next_def waiting_def mt_dequeue_def sq_get_nowait_def)

lemma process_next_Cons:
  assumes "waiting s = nid # rest" and "nid \<noteq> []" and "nid \<in> set (node_ids (ps_tree s))"
  shows "\<exists>t. proc_process_next s = (True, s\<lparr>ps_tree := t,
            ps_tasks := ps_tasks s @ [\<lparr>tk_node = nid, tk_phase = Ready, tk_cancel = False\<rparr>]\<rparr>) \<and>
     sq_deque (mt_queue t) = rest \<and> mt_is_processing t \<and> mt_current_node_id t = Some nid \<and>
     mt_current_task t = Some (length (ps_tasks s)) \<and> node_ids t = node_ids (ps_tree s)"
  using assms
  by (simp add: proc_process_next_def waiting_def mt_dequeue_def sq_get_nowait_def create_task_eq)
    (intro exI conjI, rule refl,
     simp_all add: mt_set_current_task_def mt_set_processing_state_def node_ids_def)

text \<open>The newest task, being the only live one, leaves: the invariant holds again.\<close>

lemma proc_inv_leave:
  assumes inv: "map tk_node (ps_tasks s) @ waiting s = reqs" "set reqs \<subseteq> set (node_ids (ps_tree s)) - {[]}"
    "\<forall>k \<in> set (ps_tasks s). \<not> tk_cancel k" "\<forall>k \<in> set (butlast (ps_tasks s)). past k"
    and h: "Suc h = length (ps_tasks s)"
  shows "proc_inv reqs (proc_leave h s)"
proof -
  obtain ks k where ks: "ps_tasks s = ks @ [k]" using h by (cases "ps_tasks s" rule: rev_cases) auto
  then have hl: "h = length ks" using h by simp
  show ?thesis
  proof (cases "waiting s")
    case Nil
    then have "proc_leave h s = s\<lparr>ps_tree := mt_set_processing_state None False (ps_tree s),
        ps_tasks := ks @ [k\<lparr>tk_phase := Finished\<rparr>]\<rparr>"
      by (simp add: proc_leave_def process_next_Nil set_phase_def ks hl)
    then show ?thesis using inv Nil ks
      by (simp add: proc_inv_def waiting_def past_def mt_set_processing_state_def node_ids_def)
  next
    case (Cons nid rest)
    have "nid \<noteq> []" "nid \<in> set (node_ids (ps_tree s))" using inv(1,2) Cons by auto
    from process_next_Cons [OF Cons this] obtain t where t:
      "proc_process_next s = (True, s\<lparr>ps_tree := t,
            ps_tasks := ps_tasks s @ [\<lparr>tk_node = nid, tk_phase = Ready, tk_cancel = False\<rparr>]\<rparr>)"
      "sq_deque (mt_queue t) = rest" "mt_is_processing t" "mt_current_node_id t = Some nid"
      "mt_current_task t = Some (length (ps_tasks s))" "node_ids t = node_ids (ps_tree s)" by blast
    have "proc_leave h s = s\<lparr>ps_tree := t, ps_tasks := ks @ [k\<lparr>tk_phase := Notifying\<rparr>] @
        [\<lparr>tk_node = nid, tk_phase = Ready, tk_cancel = False\<rparr>]\<rparr>"
      by (simp add: proc_leave_def t(1) set_phase_def ks hl nth_append list_update_append)
    then show ?thesis using inv Cons ks t
      by (simp add: proc_inv_def waiting_def past_def butlast_append)
  qed
qed

text \<open>A live task is the newest one, and then the tree is busy.\<close>

lemma proc_inv_live:
  assumes "proc_inv reqs s" and "live s h"
  shows "Suc h = length (ps_tasks s)" "mt_is_processing (ps_tree s)"
proof -
  have np: "\<not> past (ps_tasks s ! h)" and hl: "h < length (ps_tasks s)"
    using assms(2) by (auto simp: live_def past_def)
  then have "ps_tasks s ! h \<in> set (ps_tasks s)" by simp
  then show busy: "mt_is_processing (ps_tree s)"
    using assms(1) np by (auto simp: proc_inv_def split: if_splits)
  show "Suc h = length (ps_tasks s)"
  proof (rule ccontr)
    assume "Suc h \<noteq> length (ps_tasks s)"
    then have "h < length (butlast (ps_tasks s))" using hl by simp
    then have "ps_tasks s ! h \<in> set (butlast (ps_tasks s))"
      using nth_mem [of h "butlast (ps_tasks s)"] by (simp add: nth_butlast)
    then show False using assms(1) np busy by (auto simp: proc_inv_def)
  qed
qed


lemma proc_inv_parts:
  assumes "proc_inv reqs s" and "live s h"
  shows "map tk_node (ps_tasks s) @ waiting s = reqs" "set reqs \<subseteq> set (node_ids (ps_tree s)) - {[]}"
    "\<forall>k \<in> set (ps_tasks s). \<not> tk_cancel k" "\<forall>k \<in> set (butlast (ps_tasks s)). past k"
    "Suc h = length (ps_tasks s)"
  using assms(1) proc_inv_live [OF assms] by (auto simp: proc_inv_def)

lemma proc_inv_enqueue:
  assumes "proc_inv reqs s" and "nid \<noteq> []" and "nid \<in> set (node_ids (ps_tree s))"
  shows "proc_inv (reqs @ [nid]) (snd (proc_enqueue_and_start nid s))"
proof (cases "mt_is_processing (ps_tree s)")
  case True
  then show ?thesis using assms
    by (auto simp: proc_enqueue_and_start_def proc_inv_def waiting_def mt_put_queue_unlocked_def
        sq_put_nowait_def node_ids_def)
next
  case False
  then have "proc_enqueue_and_start nid s = (False, proc_create_task nid
      (s\<lparr>ps_tree := mt_set_processing_state (Some nid) True (ps_tree s)\<rparr>))"
    by (simp add: proc_enqueue_and_start_def)
  then show ?thesis using assms False
    by (auto simp: create_task_eq proc_inv_def waiting_def mt_set_processing_state_def
        mt_set_current_task_def past_def node_ids_def)
qed

lemma proc_inv_begin:
  assumes "proc_inv reqs s" and "h < length (ps_tasks s)" and "tk_phase (ps_tasks s ! h) = Ready"
  shows "proc_inv reqs (process_node_begin h s)"
proof -
  have lv: "live s h" using assms by (simp add: live_def)
  note parts = proc_inv_parts [OF assms(1) lv]
  have busy: "mt_is_processing (ps_tree s)" using proc_inv_live [OF assms(1) lv] by simp
  obtain ks k where ks: "ps_tasks s = ks @ [k]" using parts(5) by (cases "ps_tasks s" rule: rev_cases) auto
  then have hl: "h = length ks" using parts(5) by simp
  have "proc_inv reqs (set_phase h Active s)"
    using assms(1) busy by (simp add: set_phase_def ks hl proc_inv_def past_def waiting_def)
  then show ?thesis using proc_inv_leave [OF parts] by (simp add: process_node_begin_def)
qed

lemma proc_inv_end:
  assumes "proc_inv reqs s" and "h < length (ps_tasks s)" and "tk_phase (ps_tasks s ! h) = Active"
  shows "proc_inv reqs (process_node_end h err now s)"
proof -
  have lv: "live s h" using assms by (simp add: live_def)
  note parts = proc_inv_parts [OF assms(1) lv]
  let ?t = "mt_clear_current_node (case err of None \<Rightarrow> ps_tree s
      | Some msg \<Rightarrow> mt_update_state (tk_node (ps_tasks s ! h)) ERROR None (Some msg) now (ps_tree s))"
  have "mt_queue ?t = mt_queue (ps_tree s)" "set (node_ids ?t) = set (node_ids (ps_tree s))"
    by (cases err; simp add: mt_clear_current_node_def; simp flip: mt_clear_current_node_def)+
  then have "proc_inv reqs (proc_leave h (s\<lparr>ps_tree := ?t\<rparr>))"
    using parts by (intro proc_inv_leave) (simp_all add: waiting_def)
  then show ?thesis by (simp add: process_node_end_def)
qed

lemma proc_inv_notified:
  assumes "proc_inv reqs s" and "h < length (ps_tasks s)" and "tk_phase (ps_tasks s ! h) = Notifying"
  shows "proc_inv reqs (set_phase h Finished s)"
proof -
  let ?k = "(ps_tasks s ! h)\<lparr>tk_phase := Finished\<rparr>"
  have pk: "past (ps_tasks s ! h)" "past ?k" using assms(3) by (simp_all add: past_def)
  have nodes: "map tk_node ((ps_tasks s)[h := ?k]) = map tk_node (ps_tasks s)"
    using assms(2) by (simp add: map_update list_update_same_conv [THEN iffD2])
  have mem: "\<forall>k \<in> set ((ps_tasks s)[h := ?k]). \<not> tk_cancel k"
    using assms(1,2) set_update_subset_insert [of "ps_tasks s" h ?k] nth_mem [OF assms(2)]
    by (auto simp: proc_inv_def)
  show ?thesis
  proof (cases "mt_is_processing (ps_tree s)")
    case True
    have "h \<noteq> length (ps_tasks s) - 1"
      using assms(1,2) True pk(1) by (auto simp: proc_inv_def last_conv_nth)
    then have last: "last ((ps_tasks s)[h := ?k]) = last (ps_tasks s)"
      "butlast ((ps_tasks s)[h := ?k]) = (butlast (ps_tasks s))[h := ?k]"
      using assms(2) by (cases "ps_tasks s = []"; simp add: last_list_update butlast_list_update)+
    have "\<forall>k \<in> set ((butlast (ps_tasks s))[h := ?k]). past k"
      using assms(1) True pk(2) set_update_subset_insert [of "butlast (ps_tasks s)" h ?k]
      by (auto simp: proc_inv_def)
    then show ?thesis using assms(1) True nodes mem last
      by (simp add: proc_inv_def set_phase_def waiting_def)
  next
    case False
    then have "\<forall>k \<in> set ((ps_tasks s)[h := ?k]). past k"
      using assms(1) pk(2) set_update_subset_insert [of "ps_tasks s" h ?k] by (auto simp: proc_inv_def)
    then show ?thesis using assms(1) False nodes mem by (auto simp: proc_inv_def set_phase_def waiting_def)
  qed
qed

lemma proc_inv_step:
  assumes "proc_step s e s'" and "orderly s e" and "proc_inv reqs s"
  shows "proc_inv (reqs @ enqueued [e]) s'"
  using assms
proof (cases rule: proc_step.cases)
  case (never_run h)
  then show ?thesis using assms(3) nth_mem [of h "ps_tasks s"] by (auto simp: proc_inv_def)
next
  case (edit t)
  then show ?thesis using assms(3) by (auto simp: proc_inv_def same_control_def waiting_def split: if_splits)
qed (use assms proc_inv_enqueue proc_inv_begin proc_inv_end proc_inv_notified in
      \<open>auto simp: orderly_def\<close>)

lemma orderly_run_inv:
  assumes "orderly_run s es s'" and "proc_inv reqs s"
  shows "proc_inv (reqs @ enqueued es) s'"
  using assms
proof (induction rule: orderly_run.induct)
  case (orderly_snoc s es s1 e s2)
  then have "proc_inv (reqs @ enqueued es) s1" by simp
  from proc_inv_step [OF orderly_snoc.hyps(2,3) this] show ?case by simp
qed simp

lemma proc_inv_init: "\<not> mt_is_processing t \<Longrightarrow> mt_queue t = sq_init \<Longrightarrow> proc_inv [] (proc_init t)"
  by (simp add: proc_inv_def proc_init_def waiting_def sq_init_def)


subsection \<open>Properties\<close>

text \<open>C1. Without cancellation the scheduler runs one node of a tree at a time, in the order of the
  requests, and loses none: the nodes that got a task, oldest first, followed by the waiting ids
  are the requested ids; only the newest task can be live; the tree is marked busy exactly while
  one is; and an idle tree has nothing waiting.\<close>

theorem scheduler_fifo_exclusive:
  assumes "\<not> mt_is_processing t" and "mt_queue t = sq_init" and "orderly_run (proc_init t) es s"
  shows "map tk_node (ps_tasks s) @ waiting s = enqueued es \<and>
    (\<forall>h. live s h \<longrightarrow> Suc h = length (ps_tasks s)) \<and>
    (mt_is_processing (ps_tree s) \<longleftrightarrow> (\<exists>h. live s h)) \<and>
    (\<not> mt_is_processing (ps_tree s) \<longrightarrow> waiting s = [])"
proof -
  have inv: "proc_inv (enqueued es) s"
    using orderly_run_inv [OF assms(3) proc_inv_init [OF assms(1,2)]] by simp
  moreover have "live s (length (ps_tasks s) - 1)" if "mt_is_processing (ps_tree s)"
    using inv that by (auto simp: proc_inv_def live_def not_past_iff last_conv_nth)
  ultimately show ?thesis using proc_inv_live [OF inv] by (auto simp: proc_inv_def)
qed

text \<open>The steps the event loop makes by itself.\<close>

definition internal :: "event \<Rightarrow> bool" where
  "internal e = (case e of Begin _ \<Rightarrow> True | NeverRun _ \<Rightarrow> True | Return _ _ _ \<Rightarrow> True
     | Cancelled _ \<Rightarrow> True | Notified _ \<Rightarrow> True | _ \<Rightarrow> False)"

fun weight :: "phase \<Rightarrow> nat" where
  "weight Ready = 3" | "weight Active = 2" | "weight Notifying = 1" | "weight Finished = 0"

text \<open>How many steps are left to make at most.\<close>

definition work :: "proc_state \<Rightarrow> nat" where
  "work s = 3 * length (waiting s) + sum_list (map (\<lambda>k. weight (tk_phase k)) (ps_tasks s))"

lemma work_set_phase:
  assumes "h < length (ps_tasks s)"
  shows "work (set_phase h p s) + weight (tk_phase (ps_tasks s ! h)) = work s + weight p"
proof -
  obtain xs ys where xs: "ps_tasks s = xs @ ps_tasks s ! h # ys" "length xs = h"
    using id_take_nth_drop [OF assms] assms by (metis length_take min.absorb4)
  obtain k where k: "ps_tasks s ! h = k" by simp
  have "ps_tasks s = xs @ k # ys" using xs(1) k by simp
  then show ?thesis using xs(2) by (auto simp: work_def set_phase_def waiting_def)
qed

lemma work_process_next:
  "work (snd (proc_process_next s)) \<le> work s \<and>
   length (ps_tasks s) \<le> length (ps_tasks (snd (proc_process_next s))) \<and>
   (\<forall>h < length (ps_tasks s). ps_tasks (snd (proc_process_next s)) ! h = ps_tasks s ! h)"
proof (cases "waiting s")
  case Nil
  then show ?thesis by (simp add: process_next_Nil work_def waiting_def mt_set_processing_state_def)
next
  case (Cons nid rest)
  then show ?thesis
    by (auto simp: proc_process_next_def waiting_def mt_dequeue_def sq_get_nowait_def proc_create_task_def
        mt_set_processing_state_def mt_set_current_task_def work_def nth_append split: option.splits)
qed

lemma work_leave:
  assumes "h < length (ps_tasks s)" and "tk_phase (ps_tasks s ! h) \<in> {Ready, Active}"
  shows "work (proc_leave h s) < work s"
proof -
  obtain b s' where s': "proc_process_next s = (b, s')" by (cases "proc_process_next s")
  note w = work_process_next [of s, unfolded s' snd_conv]
  have h': "h < length (ps_tasks s')" and "ps_tasks s' ! h = ps_tasks s ! h" using w assms(1) by auto
  then have "work (proc_leave h s) + weight (tk_phase (ps_tasks s ! h)) \<le> work s' + 1"
    using work_set_phase [OF h', of Notifying] work_set_phase [OF h', of Finished]
    by (simp add: proc_leave_def s')
  then show ?thesis using assms(2) w by auto
qed

lemma internal_step_work:
  assumes "proc_step s e s'" and "internal e"
  shows "work s' < work s"
proof -
  have fin: "work (set_phase h Finished s) < work s"
    if "h < length (ps_tasks s)" "tk_phase (ps_tasks s ! h) \<noteq> Finished" for h
    using work_set_phase [OF that(1), of Finished] that(2) by (cases "tk_phase (ps_tasks s ! h)") simp_all
  have act: "work (set_phase h Active s) < work s"
    if "h < length (ps_tasks s)" "tk_phase (ps_tasks s ! h) = Ready" for h
    using work_set_phase [OF that(1), of Active] that(2) by simp
  have en: "work (process_node_end h err now s) < work s"
    if "h < length (ps_tasks s)" "tk_phase (ps_tasks s ! h) = Active" for h err now
  proof -
    have "work (s\<lparr>ps_tree := mt_clear_current_node (case err of None \<Rightarrow> ps_tree s
      | Some msg \<Rightarrow> mt_update_state (tk_node (ps_tasks s ! h)) ERROR None (Some msg) now (ps_tree s))\<rparr>) = work s"
      by (cases err) (simp_all add: work_def waiting_def mt_clear_current_node_def)
    then show ?thesis
      using work_leave [of h "s\<lparr>ps_tree := mt_clear_current_node (case err of None \<Rightarrow> ps_tree s
      | Some msg \<Rightarrow> mt_update_state (tk_node (ps_tasks s ! h)) ERROR None (Some msg) now (ps_tree s))\<rparr>"] that
      by (simp add: process_node_end_def Let_def)
  qed
  show ?thesis using assms
    by (cases rule: proc_step.cases) (auto simp: internal_def process_node_begin_def intro: fin act en work_leave)
qed

inductive internal_run :: "proc_state \<Rightarrow> event list \<Rightarrow> proc_state \<Rightarrow> bool" where
  internal_nil: "internal_run s [] s"
| internal_cons: "proc_step s e s1 \<Longrightarrow> internal e \<Longrightarrow> internal_run s1 es s2 \<Longrightarrow> internal_run s (e # es) s2"


lemma internal_run_work: "internal_run s es s' \<Longrightarrow> length es + work s' \<le> work s"
proof (induction rule: internal_run.induct)
  case (internal_cons s e s1 es s2)
  then show ?case using internal_step_work [OF internal_cons.hyps(1,2)] by simp
qed simp

lemma live_step:
  assumes "live s h"
  shows "\<exists>e s'. proc_step s e s' \<and> internal e"
proof -
  have h: "h < length (ps_tasks s)" "tk_phase (ps_tasks s ! h) = Ready \<or> tk_phase (ps_tasks s ! h) = Active"
    using assms by (auto simp: live_def)
  then consider "tk_phase (ps_tasks s ! h) = Ready" "tk_cancel (ps_tasks s ! h)"
    | "tk_phase (ps_tasks s ! h) = Ready" "\<not> tk_cancel (ps_tasks s ! h)"
    | "tk_phase (ps_tasks s ! h) = Active" by blast
  then show ?thesis
  proof cases
    case 1
    then show ?thesis using proc_step.never_run [OF h(1)] by (fastforce simp: internal_def)
  next
    case 2
    then show ?thesis using proc_step.begin_node [OF h(1)] by (fastforce simp: internal_def)
  next
    case 3
    then show ?thesis using proc_step.return [OF h(1), of None 0] by (fastforce simp: internal_def)
  qed
qed

text \<open>C3. Every requested message is eventually handled: after any orderly run, if the processors
  return, at most \<open>3 * waiting + 3 * tasks\<close> further steps of the event loop are possible, and
  once no more is, every requested node has had its task, all tasks are past their processor,
  nothing waits and the tree is free.\<close>

theorem scheduler_drains:
  assumes "\<not> mt_is_processing t" and "mt_queue t = sq_init" and "orderly_run (proc_init t) es s"
    and "internal_run s es' s'"
  shows "length es' \<le> 3 * length (waiting s) + 3 * length (ps_tasks s) \<and>
    ((\<nexists>e s''. proc_step s' e s'' \<and> internal e) \<longrightarrow>
       map tk_node (ps_tasks s') = enqueued es \<and> waiting s' = [] \<and> \<not> mt_is_processing (ps_tree s') \<and>
       (\<forall>h. \<not> live s' h))"
proof -
  have inv: "proc_inv (enqueued es) s"
    using orderly_run_inv [OF assms(3) proc_inv_init [OF assms(1,2)]] by simp
  have "sum_list (map (\<lambda>k. weight (tk_phase k)) ks) \<le> 3 * length ks" for ks :: "task list"
  proof (induction ks)
    case (Cons k ks)
    then show ?case by (cases "tk_phase k") simp_all
  qed simp
  then have "work s \<le> 3 * length (waiting s) + 3 * length (ps_tasks s)" by (simp add: work_def)
  then have bound: "length es' \<le> 3 * length (waiting s) + 3 * length (ps_tasks s)"
    using internal_run_work [OF assms(4)] by simp
  have inv': "proc_inv (enqueued es) s'" using assms(4) inv
  proof (induction rule: internal_run.induct)
    case (internal_cons s e s1 es' s2)
    have e: "orderly s e" "enqueued [e] = []" using internal_cons.hyps(2)
      by (auto simp: internal_def orderly_def split: event.splits)
    show ?case
      by (rule internal_cons.IH) (use proc_inv_step [OF internal_cons.hyps(1) e(1) internal_cons.prems] e(2) in simp)
  qed simp
  have idle: "\<not> mt_is_processing (ps_tree s') \<and> (\<forall>h. \<not> live s' h)"
    if "\<nexists>e s''. proc_step s' e s'' \<and> internal e"
  proof -
    have nl: "\<not> live s' h" for h using live_step that by blast
    moreover have "live s' (length (ps_tasks s') - 1)" if "mt_is_processing (ps_tree s')"
      using inv' that by (auto simp: proc_inv_def live_def not_past_iff last_conv_nth)
    ultimately show ?thesis by blast
  qed
  then show ?thesis using bound inv' by (auto simp: proc_inv_def)
qed

lemma snoc_run1: "proc_step s e s' \<Longrightarrow> orderly s e \<Longrightarrow> orderly_run s [e] s'"
  using orderly_run.orderly_snoc [OF orderly_run.orderly_nil] by fastforce

text \<open>The sample conversation: \<open>r\<close> is enqueued and starts, \<open>a\<close> waits.\<close>

definition sample_started :: proc_state where
  "sample_started = snd (proc_enqueue_and_start ''r'' (proc_init sample_tree))"

definition sample_waiting :: proc_state where
  "sample_waiting = snd (proc_enqueue_and_start ''a'' sample_started)"

lemma sample_run: "orderly_run (proc_init sample_tree) [Enqueue ''r'', Enqueue ''a''] sample_waiting"
proof -
  have "orderly_run (proc_init sample_tree) [Enqueue ''r''] sample_started"
    unfolding sample_started_def
    by (rule snoc_run1 [OF proc_step.enqueue]) (simp add: orderly_def proc_init_def sample_node_ids)
  moreover have "set (node_ids (ps_tree sample_started)) = set (node_ids sample_tree)"
    by (simp add: sample_started_def proc_enqueue_and_start_def proc_init_def sample_tree_eq
        proc_create_task_def mt_set_processing_state_def mt_get_node_def dict_get_def
        mt_set_current_task_def node_ids_def)
  moreover have "proc_step sample_started (Enqueue ''a'') sample_waiting"
    unfolding sample_waiting_def by (rule proc_step.enqueue)
  ultimately show ?thesis
    using orderly_run.orderly_snoc [of "proc_init sample_tree" "[Enqueue ''r'']" sample_started "Enqueue ''a''"]
    by (simp add: orderly_def sample_node_ids)
qed

lemma sample_idle: "\<not> mt_is_processing sample_tree" "mt_queue sample_tree = sq_init"
  by (simp_all add: sample_tree_eq)

theorem scheduler_fifo_exclusive_witness:
  "map tk_node (ps_tasks sample_waiting) @ waiting sample_waiting = [''r'', ''a'']"
  using scheduler_fifo_exclusive [OF sample_idle sample_run] by simp

lemmas proc_defs = proc_enqueue_and_start_def proc_create_task_def proc_init_def
  proc_process_next_def proc_leave_def process_node_begin_def process_node_end_def set_phase_def
  mt_set_processing_state_def mt_get_node_def mt_set_current_task_def mt_put_queue_unlocked_def
  mt_clear_current_node_def mt_dequeue_def sq_defs

lemma sample_waiting_eq:
  "sample_waiting = \<lparr>ps_tree = sample_tree\<lparr>mt_queue := \<lparr>sq_deque = [''a''], sq_set = {''a''}\<rparr>,
       mt_is_processing := True, mt_current_node_id := Some ''r'', mt_current_task := Some 0\<rparr>,
     ps_tasks = [\<lparr>tk_node = ''r'', tk_phase = Ready, tk_cancel = False\<rparr>]\<rparr>"
  by (simp add: sample_waiting_def sample_started_def sample_tree_eq proc_defs dict_get_def)

lemma sample_drained:
  "\<exists>s'. internal_run sample_waiting [Begin 0, Return 0 None 0, Notified 0, Begin 1, Return 1 None 0] s' \<and>
     (\<forall>k \<in> set (ps_tasks s'). tk_phase k = Finished)"
proof -
  define s1 where "s1 = process_node_begin 0 sample_waiting"
  define s2 where "s2 = process_node_end 0 None 0 s1"
  define s3 where "s3 = set_phase 0 Finished s2"
  define s4 where "s4 = process_node_begin 1 s3"
  define s5 where "s5 = process_node_end 1 None 0 s4"
  note eqs = sample_waiting_eq sample_tree_eq new_node_def proc_defs dict_get_def
  have p1: "ps_tasks s1 = [\<lparr>tk_node = ''r'', tk_phase = Active, tk_cancel = False\<rparr>]"
    by (simp add: s1_def eqs)
  have p2: "ps_tasks s2 = [\<lparr>tk_node = ''r'', tk_phase = Notifying, tk_cancel = False\<rparr>,
      \<lparr>tk_node = ''a'', tk_phase = Ready, tk_cancel = False\<rparr>]"
    by (simp add: s2_def s1_def eqs)
  have p4: "ps_tasks s4 = [\<lparr>tk_node = ''r'', tk_phase = Finished, tk_cancel = False\<rparr>,
      \<lparr>tk_node = ''a'', tk_phase = Active, tk_cancel = False\<rparr>]"
    by (simp add: s4_def s3_def s2_def s1_def eqs)
  have p5: "ps_tasks s5 = [\<lparr>tk_node = ''r'', tk_phase = Finished, tk_cancel = False\<rparr>,
      \<lparr>tk_node = ''a'', tk_phase = Finished, tk_cancel = False\<rparr>]"
    by (simp add: s5_def s4_def s3_def s2_def s1_def eqs)
  have p3: "ps_tasks s3 = [\<lparr>tk_node = ''r'', tk_phase = Finished, tk_cancel = False\<rparr>,
      \<lparr>tk_node = ''a'', tk_phase = Ready, tk_cancel = False\<rparr>]"
    by (simp add: s3_def set_phase_def p2)
  have "proc_step sample_waiting (Begin 0) s1" unfolding s1_def
    by (rule proc_step.begin_node) (simp_all add: sample_waiting_eq)
  moreover have "proc_step s1 (Return 0 None 0) s2" unfolding s2_def
    by (rule proc_step.return) (simp_all add: p1)
  moreover have "proc_step s2 (Notified 0) s3" unfolding s3_def
    by (rule proc_step.notified) (simp_all add: p2)
  moreover have "proc_step s3 (Begin 1) s4" unfolding s4_def
    by (rule proc_step.begin_node) (simp_all add: p3)
  moreover have "proc_step s4 (Return 1 None 0) s5" unfolding s5_def
    by (rule proc_step.return) (simp_all add: p4)
  ultimately have "internal_run sample_waiting [Begin 0, Return 0 None 0, Notified 0, Begin 1, Return 1 None 0] s5"
    by (auto intro!: internal_run.intros simp: internal_def)
  then show ?thesis by (rule exI [where x = s5, OF conjI]) (simp add: p5)
qed

inductive_cases proc_step_cases: "proc_step s e s'"

lemma finished_no_step: "\<forall>k \<in> set (ps_tasks s). tk_phase k = Finished \<Longrightarrow> \<not> (proc_step s e s' \<and> internal e)"
  by (auto simp: internal_def elim!: proc_step_cases)

theorem scheduler_drains_witness:
  "\<exists>es' s'. internal_run sample_waiting es' s' \<and> map tk_node (ps_tasks s') = [''r'', ''a''] \<and>
     \<not> mt_is_processing (ps_tree s')"
proof -
  obtain es' s' where r: "internal_run sample_waiting es' s'"
    and fin: "\<forall>k \<in> set (ps_tasks s'). tk_phase k = Finished" using sample_drained by blast
  have "map tk_node (ps_tasks s') = [''r'', ''a''] \<and> \<not> mt_is_processing (ps_tree s')"
    using scheduler_drains [OF sample_idle sample_run r] finished_no_step [OF fin] by auto
  with r show ?thesis by (intro exI [of _ es'] exI [of _ s']) simp
qed


subsection \<open>What cancellation breaks\<close>

text \<open>
  A tree is wedged when it is marked busy but no task is live: whoever would mark it free, or
  start the next node, is gone.
\<close>

definition wedged :: "proc_state \<Rightarrow> bool" where
  "wedged s \<longleftrightarrow> mt_is_processing (ps_tree s) \<and> (\<forall>h. \<not> live s h)"

lemma live_phases: "(\<forall>h. \<not> live s h) \<longleftrightarrow> (\<forall>k \<in> set (ps_tasks s). past k)"
proof -
  have "live s h \<longleftrightarrow> h < length (ps_tasks s) \<and> \<not> past (ps_tasks s ! h)" for h
    by (simp add: live_def not_past_iff)
  then show ?thesis by (metis in_set_conv_nth)
qed

lemma request_cancel_map:
  assumes "\<And>k. f (k\<lparr>tk_cancel := True\<rparr>) = f k"
  shows "map f (ps_tasks (request_cancel hs s)) = map f (ps_tasks s)"
proof -
  have one: "map f (ts[h := (ts ! h)\<lparr>tk_cancel := True\<rparr>]) = map f ts" for ts h
    using assms by (cases "h < length ts") (simp_all add: map_update list_update_same_conv list_update_beyond)
  have "map f (fold (\<lambda>h ts. ts[h := (ts ! h)\<lparr>tk_cancel := True\<rparr>]) hs ts) = map f ts" for ts
    by (induction hs arbitrary: ts) (simp_all add: one)
  then show ?thesis by (simp add: request_cancel_def)
qed

lemmas request_cancel_phases = request_cancel_map [where f = tk_phase, simplified]
lemmas request_cancel_nodes = request_cancel_map [where f = tk_node, simplified]

lemma past_all_phases: "(\<forall>k \<in> set ks. past k) \<longleftrightarrow> set (map tk_phase ks) \<subseteq> {Notifying, Finished}"
  by (auto simp: past_def)

lemma cancel_node_busy:
  assumes "cancel_node_body done now nid t = (h, ns, t')"
  shows "mt_is_processing t' = mt_is_processing t"
  using assms by (auto simp: cancel_node_body_def Let_def split: option.splits if_splits)

lemma cancel_branch_busy:
  "cancel_branch_loop done now ids t = (hs, ns, t') \<Longrightarrow> mt_is_processing t' = mt_is_processing t"
proof (induction ids arbitrary: t hs ns t')
  case (Cons x ids)
  then show ?case by (auto simp: Let_def split: option.splits if_splits prod.splits)
qed simp

text \<open>C30. A wedged tree stays wedged whatever happens next, short of cancelling the whole tree: a
  message sent to it is queued and never processed.\<close>

theorem wedged_forever:
  assumes "wedged s" and "proc_step s e s'" and "\<forall>now. e \<noteq> CancelTree now"
  shows "wedged s' \<and> map tk_node (ps_tasks s') = map tk_node (ps_tasks s) \<and>
    (\<forall>nid. e = Enqueue nid \<longrightarrow> waiting s' = waiting s @ [nid])"
proof -
  have busy: "mt_is_processing (ps_tree s)" and past: "\<forall>k \<in> set (ps_tasks s). past k"
    using assms(1) live_phases by (auto simp: wedged_def)
  have idle: False if "h < length (ps_tasks s)" "tk_phase (ps_tasks s ! h) \<in> {Ready, Active}" for h
    using past nth_mem [OF that(1)] that(2) by (auto simp: past_def)
  have cancel: "wedged (request_cancel hs (s\<lparr>ps_tree := t\<rparr>)) \<and>
      map tk_node (ps_tasks (request_cancel hs (s\<lparr>ps_tree := t\<rparr>))) = map tk_node (ps_tasks s)"
    if "mt_is_processing t" for hs t
    using that past request_cancel_phases [of hs "s\<lparr>ps_tree := t\<rparr>"] request_cancel_nodes [of hs "s\<lparr>ps_tree := t\<rparr>"]
    unfolding wedged_def live_phases past_all_phases by (simp add: request_cancel_def)
  show ?thesis using assms(2)
  proof (cases rule: proc_step.cases)
    case (enqueue nid)
    then show ?thesis using assms(1) busy
      by (simp add: wedged_def live_phases proc_enqueue_and_start_def waiting_def
          mt_put_queue_unlocked_def sq_put_nowait_def)
  next
    case (notified h)
    then have "\<forall>k \<in> set (ps_tasks s'). past k"
      using past set_update_subset_insert [of "ps_tasks s" h "(ps_tasks s ! h)\<lparr>tk_phase := Finished\<rparr>"]
      by (auto simp: set_phase_def past_def)
    moreover have "map tk_node (ps_tasks s') = map tk_node (ps_tasks s)"
      using notified by (simp add: set_phase_def map_update list_update_same_conv [THEN iffD2])
    ultimately show ?thesis using notified busy by (simp add: wedged_def live_phases set_phase_def)
  next
    case (edit t)
    then show ?thesis using assms(1) by (simp add: wedged_def live_def same_control_def)
  next
    case (cancel_node now nid h ns t)
    then show ?thesis using cancel cancel_node_busy busy by auto
  next
    case (cancel_branch now ids hs ns t)
    then show ?thesis using cancel cancel_branch_busy busy by auto
  qed (use idle assms(3) in auto)
qed


lemmas cancel_defs = cancel_node_body_def cancel_tree_body_def cancel_running_def
  mt_drain_queue_and_mark_cancelled_def mt_is_current_node_def mt_cancel_current_task_def
  mt_remove_from_queue_def mt_set_node_error_sync_def mt_set_node_def mt_reset_processing_state_def
  node_error_def terminal_def request_cancel_def is_done_def mt_all_nodes_def dict_values_def

lemma run_step: "proc_run s es s1 \<Longrightarrow> proc_step s1 e s2 \<Longrightarrow> proc_run s (es @ [e]) s2"
  by (rule proc_run.run_snoc)

text \<open>The state in which \<open>r\<close> was cancelled before its task ran, and never ran.\<close>

lemma sample_wedge:
  "\<exists>s. proc_run (proc_init sample_tree) [Enqueue ''r'', CancelNode ''r'' 5, NeverRun 0] s \<and> wedged s"
proof -
  let ?s1 = "sample_started"
  obtain h ns t where c: "cancel_node_body (is_done ?s1) 5 ''r'' (ps_tree ?s1) = (h, ns, t)"
    by (cases "cancel_node_body (is_done ?s1) 5 ''r'' (ps_tree ?s1)")
  define s2 where "s2 = request_cancel (case h of None \<Rightarrow> [] | Some x \<Rightarrow> [x]) (?s1\<lparr>ps_tree := t\<rparr>)"
  define s3 where "s3 = set_phase 0 Finished s2"
  note eqs = sample_started_def sample_tree_eq new_node_def proc_defs dict_get_def cancel_defs
  have h: "h = Some 0" "mt_is_processing t" using c by (auto simp: eqs)
  have tasks2: "ps_tasks s2 = [\<lparr>tk_node = ''r'', tk_phase = Ready, tk_cancel = True\<rparr>]"
    unfolding s2_def by (simp add: h request_cancel_def) (simp add: eqs)
  have st1: "proc_step (proc_init sample_tree) (Enqueue ''r'') ?s1"
    unfolding sample_started_def by (rule proc_step.enqueue)
  have st2: "proc_step ?s1 (CancelNode ''r'' 5) s2"
    unfolding s2_def by (rule proc_step.cancel_node [OF c])
  have st3: "proc_step s2 (NeverRun 0) s3"
    unfolding s3_def by (rule proc_step.never_run) (simp_all add: tasks2)
  have "proc_run (proc_init sample_tree) [Enqueue ''r'', CancelNode ''r'' 5, NeverRun 0] s3"
    using run_step [OF run_step [OF run_step [OF proc_run.run_nil st1] st2] st3] by simp
  moreover have "ps_tasks s3 = [\<lparr>tk_node = ''r'', tk_phase = Finished, tk_cancel = True\<rparr>]"
    by (simp add: s3_def set_phase_def tasks2)
  moreover have "ps_tree s3 = t" by (simp add: s3_def set_phase_def s2_def request_cancel_def)
  ultimately have "proc_run (proc_init sample_tree) [Enqueue ''r'', CancelNode ''r'' 5, NeverRun 0] s3 \<and> wedged s3"
    using h(2) by (simp add: wedged_def live_phases past_def)
  then show ?thesis by blast
qed

theorem wedged_forever_witness:
  "\<exists>s s'. proc_run (proc_init sample_tree) [Enqueue ''r'', CancelNode ''r'' 5, NeverRun 0] s \<and>
     proc_step s (Enqueue ''a'') s' \<and> wedged s' \<and> waiting s' = waiting s @ [''a'']"
proof -
  obtain s where s: "proc_run (proc_init sample_tree) [Enqueue ''r'', CancelNode ''r'' 5, NeverRun 0] s"
    "wedged s" using sample_wedge by blast
  have st: "proc_step s (Enqueue ''a'') (snd (proc_enqueue_and_start ''a'' s))" by (rule proc_step.enqueue)
  show ?thesis using wedged_forever [OF s(2) st] s(1) st by blast
qed


text \<open>A root is running, is stopped, and the user replies twice before its task has unwound.\<close>

definition add_reply :: "string \<Rightarrow> string \<Rightarrow> message_tree \<Rightarrow> message_tree" where
  "add_reply nid sid t =
     (case mt_add_node nid (sample_msg nid) sid ''r'' 8 t of Inl _ \<Rightarrow> t | Inr (_, t') \<Rightarrow> t')"

definition stop_0 :: proc_state where "stop_0 = snd (proc_enqueue_and_start ''r'' (proc_init sample_root))"
definition stop_1 :: proc_state where "stop_1 = process_node_begin 0 stop_0"
definition stop_2 :: proc_state where
  "stop_2 = request_cancel [0] (stop_1\<lparr>ps_tree := snd (snd (cancel_tree_body (is_done stop_1) 7 (ps_tree stop_1)))\<rparr>)"
definition stop_3 :: proc_state where
  "stop_3 = stop_2\<lparr>ps_tree := add_reply ''e'' ''se'' (add_reply ''d'' ''sd'' (ps_tree stop_2))\<rparr>"
definition stop_4 :: proc_state where "stop_4 = snd (proc_enqueue_and_start ''d'' stop_3)"
definition stop_5 :: proc_state where "stop_5 = snd (proc_enqueue_and_start ''e'' stop_4)"
definition stop_6 :: proc_state where "stop_6 = process_node_begin 1 stop_5"
definition stop_7 :: proc_state where "stop_7 = process_node_end 0 None 0 stop_6"
definition stop_8 :: proc_state where "stop_8 = process_node_begin 2 stop_7"

lemmas stop_eqs = sample_root_def mt_init_def new_node_def proc_defs dict_get_def dict_set_def cancel_defs
  mark_stale.simps drain_loop.simps add_reply_def mt_add_node_def dict_has_def dict_keys_def Let_def

lemma stop_1_eq:
  "stop_1 = \<lparr>ps_tree = sample_root\<lparr>mt_is_processing := True, mt_current_node_id := Some ''r'',
       mt_current_task := Some 0\<rparr>, ps_tasks = [\<lparr>tk_node = ''r'', tk_phase = Active, tk_cancel = False\<rparr>]\<rparr>"
  by (simp add: stop_1_def stop_0_def stop_eqs)

lemma stop_cancel_handle: "fst (cancel_tree_body (is_done stop_1) 7 (ps_tree stop_1)) = Some 0"
  by (simp add: stop_1_eq stop_eqs)

definition stop_root :: message_node where
  "stop_root = node_error ''Cancelled by user'' 7 (new_node ''r'' (sample_msg ''r'') ''sr'' None 0)"

lemma stop_2_eq:
  "stop_2 = \<lparr>ps_tree = sample_root\<lparr>mt_nodes := [(''r'', stop_root)], mt_current_task := Some 0\<rparr>,
     ps_tasks = [\<lparr>tk_node = ''r'', tk_phase = Active, tk_cancel = True\<rparr>]\<rparr>"
  by (simp add: stop_2_def stop_1_eq stop_eqs stop_root_def)


definition reply_node :: "string \<Rightarrow> string \<Rightarrow> message_node" where
  "reply_node nid sid = new_node nid (sample_msg nid) sid (Some ''r'') 8"

lemma stop_3_eq:
  "stop_3 = stop_2\<lparr>ps_tree := sample_root\<lparr>mt_nodes :=
       [(''r'', stop_root\<lparr>nd_children_ids := [''d'', ''e'']\<rparr>), (''d'', reply_node ''d'' ''sd''),
        (''e'', reply_node ''e'' ''se'')],
       mt_status_to_node := [(''sr'', ''r''), (''sd'', ''d''), (''se'', ''e'')], mt_current_task := Some 0\<rparr>\<rparr>"
  by (simp add: stop_3_def stop_2_eq stop_eqs stop_root_def reply_node_def)

lemma stop_5_eq:
  "stop_5 = \<lparr>ps_tree = (ps_tree stop_3)\<lparr>mt_queue := \<lparr>sq_deque = [''e''], sq_set = {''e''}\<rparr>,
       mt_is_processing := True, mt_current_node_id := Some ''d'', mt_current_task := Some 1\<rparr>,
     ps_tasks = [\<lparr>tk_node = ''r'', tk_phase = Active, tk_cancel = True\<rparr>,
       \<lparr>tk_node = ''d'', tk_phase = Ready, tk_cancel = False\<rparr>]\<rparr>"
  by (simp add: stop_5_def stop_4_def stop_3_eq stop_2_eq stop_eqs)

lemma stop_6_eq:
  "stop_6 = stop_5\<lparr>ps_tasks := [\<lparr>tk_node = ''r'', tk_phase = Active, tk_cancel = True\<rparr>,
       \<lparr>tk_node = ''d'', tk_phase = Active, tk_cancel = False\<rparr>]\<rparr>"
  by (simp add: stop_6_def stop_5_eq stop_3_eq stop_eqs reply_node_def)

lemma stop_7_tasks:
  "ps_tasks stop_7 = [\<lparr>tk_node = ''r'', tk_phase = Notifying, tk_cancel = True\<rparr>,
     \<lparr>tk_node = ''d'', tk_phase = Active, tk_cancel = False\<rparr>,
     \<lparr>tk_node = ''e'', tk_phase = Ready, tk_cancel = False\<rparr>]"
  "mt_get_node ''e'' (ps_tree stop_7) = Some (reply_node ''e'' ''se'')"
  by (simp_all add: stop_7_def stop_6_eq stop_5_eq stop_3_eq stop_eqs)

lemma stop_8_tasks:
  "ps_tasks stop_8 = [\<lparr>tk_node = ''r'', tk_phase = Notifying, tk_cancel = True\<rparr>,
     \<lparr>tk_node = ''d'', tk_phase = Active, tk_cancel = False\<rparr>,
     \<lparr>tk_node = ''e'', tk_phase = Active, tk_cancel = False\<rparr>]"
  by (simp add: stop_8_def process_node_begin_def stop_7_tasks set_phase_def reply_node_def new_node_def)

text \<open>C28. Stopping a tree breaks the one-node-at-a-time rule. The root's task runs; \<open>cancel_tree\<close>
  marks the root "Cancelled by user", empties the queue and declares the tree free, and asks the task
  to cancel. Two replies come in before that task has unwound: the first starts a task, the
  second waits. The old task's \<open>finally\<close> then takes the second from the queue and starts it.
  Both replies, sent after the stop, are now being processed by two tasks that nobody has asked to
  cancel.\<close>

theorem two_tasks_after_stop:
  "\<exists>stopped s.
     proc_run (proc_init sample_root) [Enqueue ''r'', Begin 0, CancelTree 7] stopped \<and>
     \<not> mt_is_processing (ps_tree stopped) \<and> sq_deque (mt_queue (ps_tree stopped)) = [] \<and>
     ps_tasks stopped = [\<lparr>tk_node = ''r'', tk_phase = Active, tk_cancel = True\<rparr>] \<and>
     proc_run stopped
       [Edit (add_reply ''e'' ''se'' (add_reply ''d'' ''sd'' (ps_tree stopped))),
        Enqueue ''d'', Enqueue ''e'', Begin 1, Cancelled 0, Begin 2] s \<and>
     ps_tasks s = [\<lparr>tk_node = ''r'', tk_phase = Notifying, tk_cancel = True\<rparr>,
       \<lparr>tk_node = ''d'', tk_phase = Active, tk_cancel = False\<rparr>,
       \<lparr>tk_node = ''e'', tk_phase = Active, tk_cancel = False\<rparr>]"
proof -
  obtain ns t where c: "cancel_tree_body (is_done stop_1) 7 (ps_tree stop_1) = (Some 0, ns, t)"
    using stop_cancel_handle by (cases "cancel_tree_body (is_done stop_1) 7 (ps_tree stop_1)") auto
  have "proc_step (proc_init sample_root) (Enqueue ''r'') stop_0"
    unfolding stop_0_def by (rule proc_step.enqueue)
  moreover have "proc_step stop_0 (Begin 0) stop_1" unfolding stop_1_def
    by (rule proc_step.begin_node) (simp_all add: stop_0_def stop_eqs)
  moreover have "proc_step stop_1 (CancelTree 7) stop_2"
    using proc_step.cancel_tree [OF c] c by (simp add: stop_2_def)
  ultimately have stop: "proc_run (proc_init sample_root) [Enqueue ''r'', Begin 0, CancelTree 7] stop_2"
    using run_step [OF run_step [OF run_step [OF proc_run.run_nil]]] by simp
  have "proc_step stop_2 (Edit (ps_tree stop_3)) stop_3"
    using proc_step.edit [of stop_2 "ps_tree stop_3"]
    by (simp add: stop_3_eq stop_2_eq same_control_def node_ids_def dict_keys_def sample_root_def mt_init_def)
  moreover have "ps_tree stop_3 = add_reply ''e'' ''se'' (add_reply ''d'' ''sd'' (ps_tree stop_2))"
    by (simp add: stop_3_def)
  ultimately have "proc_step stop_2 (Edit (add_reply ''e'' ''se'' (add_reply ''d'' ''sd'' (ps_tree stop_2)))) stop_3"
    by metis
  moreover have "proc_step stop_3 (Enqueue ''d'') stop_4" unfolding stop_4_def by (rule proc_step.enqueue)
  moreover have "proc_step stop_4 (Enqueue ''e'') stop_5" unfolding stop_5_def by (rule proc_step.enqueue)
  moreover have "proc_step stop_5 (Begin 1) stop_6" unfolding stop_6_def
    by (rule proc_step.begin_node) (simp_all add: stop_5_eq)
  moreover have "proc_step stop_6 (Cancelled 0) stop_7" unfolding stop_7_def
    by (rule proc_step.cancelled) (simp_all add: stop_6_eq)
  moreover have "proc_step stop_7 (Begin 2) stop_8" unfolding stop_8_def
    by (rule proc_step.begin_node) (simp_all add: stop_7_tasks)
  ultimately have "proc_run stop_2
       [Edit (add_reply ''e'' ''se'' (add_reply ''d'' ''sd'' (ps_tree stop_2))),
        Enqueue ''d'', Enqueue ''e'', Begin 1, Cancelled 0, Begin 2] stop_8"
    using run_step [OF run_step [OF run_step [OF run_step [OF run_step [OF run_step [OF proc_run.run_nil]]]]]]
    by simp
  moreover have "\<not> mt_is_processing (ps_tree stop_2)" "sq_deque (mt_queue (ps_tree stop_2)) = []"
    "ps_tasks stop_2 = [\<lparr>tk_node = ''r'', tk_phase = Active, tk_cancel = True\<rparr>]"
    by (simp_all add: stop_2_eq sample_root_def mt_init_def sq_init_def)
  ultimately show ?thesis using stop stop_8_tasks by blast
qed

end
