(* ===== verification/Sse.thy ===== *)
theory Sse
  imports Prelude
begin

section \<open>The builder of Anthropic stream events (\<open>core/anthropic/sse.py\<close>)\<close>

text \<open>
  An event is its name and its JSON payload; the text of a frame is \<open>SseWire\<close>.  A method of
  \<open>SSEBuilder\<close> that yields events returns them with the updated builder.  \<open>json.loads\<close> and
  \<open>json.dumps\<close> are the arguments \<open>loads\<close> and \<open>dumps\<close>, the tokenizer is an argument too.
\<close>

record sse_event =
  ev_event :: string
  ev_data :: json

abbreviation sse_ev :: "string \<Rightarrow> (string \<times> json) list \<Rightarrow> sse_event" where
  "sse_ev name ps \<equiv> \<lparr>ev_event = name, ev_data = JObj ps\<rparr>"

definition STOP_REASON_MAP :: "(string, string) pydict" where
  "STOP_REASON_MAP = [(''stop'', ''end_turn''), (''length'', ''max_tokens''),
     (''tool_calls'', ''tool_use''), (''content_filter'', ''end_turn'')]"

definition map_stop_reason :: "string option \<Rightarrow> string" where
  "map_stop_reason r =
     (case r of
        None \<Rightarrow> ''end_turn''
      | Some s \<Rightarrow> if s = [] then ''end_turn''
                else (case dict_get s STOP_REASON_MAP of None \<Rightarrow> ''end_turn'' | Some t \<Rightarrow> t))"

text \<open>A value that is not an integer counts as 0; a \<open>bool\<close> is an integer to Python.\<close>

fun safe_usage_int :: "json \<Rightarrow> json" where
  "safe_usage_int (JInt i) = JInt i"
| "safe_usage_int (JBool b) = JBool b"
| "safe_usage_int _ = JInt 0"

subsection \<open>Content blocks\<close>

record tool_call_state =
  tc_block_index :: int
  tc_tool_id :: string
  tc_name :: string
  tc_contents :: "string list"
  tc_started :: bool
  tc_task_arg_buffer :: string
  tc_task_args_emitted :: bool
  tc_pre_start_args :: string

definition new_tool_state :: "int \<Rightarrow> string \<Rightarrow> string \<Rightarrow> bool \<Rightarrow> tool_call_state" where
  "new_tool_state idx tid name started =
     \<lparr>tc_block_index = idx, tc_tool_id = tid, tc_name = name, tc_contents = [], tc_started = started,
      tc_task_arg_buffer = [], tc_task_args_emitted = False, tc_pre_start_args = []\<rparr>"

record content_block_manager =
  cb_next_index :: int
  cb_thinking_index :: int
  cb_text_index :: int
  cb_thinking_started :: bool
  cb_text_started :: bool
  cb_tool_states :: "(int, tool_call_state) pydict"

definition cb_init :: content_block_manager where
  "cb_init = \<lparr>cb_next_index = 0, cb_thinking_index = -1, cb_text_index = -1,
     cb_thinking_started = False, cb_text_started = False, cb_tool_states = []\<rparr>"

definition cb_allocate_index :: "content_block_manager \<Rightarrow> int \<times> content_block_manager" where
  "cb_allocate_index b = (cb_next_index b, b\<lparr>cb_next_index := cb_next_index b + 1\<rparr>)"

definition cb_tool :: "int \<Rightarrow> content_block_manager \<Rightarrow> tool_call_state option" where
  "cb_tool i b = dict_get i (cb_tool_states b)"

definition cb_set_tool :: "int \<Rightarrow> tool_call_state \<Rightarrow> content_block_manager \<Rightarrow> content_block_manager" where
  "cb_set_tool i s b = b\<lparr>cb_tool_states := dict_set i s (cb_tool_states b)\<rparr>"

definition cb_ensure_tool_state :: "int \<Rightarrow> content_block_manager \<Rightarrow> tool_call_state \<times> content_block_manager" where
  "cb_ensure_tool_state i b =
     (case cb_tool i b of
        Some s \<Rightarrow> (s, b)
      | None \<Rightarrow> (let s = new_tool_state (-1) [] [] False in (s, cb_set_tool i s b)))"

definition cb_set_stream_tool_id :: "int \<Rightarrow> string \<Rightarrow> content_block_manager \<Rightarrow> content_block_manager" where
  "cb_set_stream_tool_id i tid b =
     (if tid = [] then b
      else let (s, b) = cb_ensure_tool_state i b in cb_set_tool i (s\<lparr>tc_tool_id := tid\<rparr>) b)"

definition cb_register_tool_name :: "int \<Rightarrow> string \<Rightarrow> content_block_manager \<Rightarrow> content_block_manager" where
  "cb_register_tool_name i name b =
     (case cb_tool i b of
        None \<Rightarrow> cb_set_tool i (new_tool_state (-1) [] name False) b
      | Some s \<Rightarrow>
          let prev = tc_name s in
          if prev = [] \<or> prefix prev name then cb_set_tool i (s\<lparr>tc_name := name\<rparr>) b
          else if \<not> prefix name prev then cb_set_tool i (s\<lparr>tc_name := prev @ name\<rparr>) b
          else b)"

text \<open>\<open>_normalize_task_run_in_background\<close>: a value without \<open>.get\<close> raises.\<close>

fun normalize_task :: "json \<Rightarrow> json result" where
  "normalize_task (JObj d) =
     Inr (JObj (if dict_get ''run_in_background'' d \<noteq> Some (JBool False)
                then dict_set ''run_in_background'' (JBool False) d else d))"
| "normalize_task _ = Inl AttributeError"

definition cb_buffer_task_args ::
  "(string \<Rightarrow> json option) \<Rightarrow> int \<Rightarrow> string \<Rightarrow> content_block_manager
    \<Rightarrow> json option result \<times> content_block_manager" where
  "cb_buffer_task_args loads i args b =
     (case cb_tool i b of
        None \<Rightarrow> (Inr None, b)
      | Some s \<Rightarrow>
          if tc_task_args_emitted s then (Inr None, b)
          else let s = s\<lparr>tc_task_arg_buffer := tc_task_arg_buffer s @ args\<rparr>; b = cb_set_tool i s b in
            (case loads (tc_task_arg_buffer s) of
               None \<Rightarrow> (Inr None, b)
             | Some j \<Rightarrow>
                 (case normalize_task j of
                    Inl e \<Rightarrow> (Inl e, b)
                  | Inr j' \<Rightarrow> (Inr (Some j'),
                      cb_set_tool i (s\<lparr>tc_task_args_emitted := True, tc_task_arg_buffer := []\<rparr>) b))))"

definition cb_has_emitted_tool_block :: "content_block_manager \<Rightarrow> bool" where
  "cb_has_emitted_tool_block b = (\<exists>s \<in> set (dict_values (cb_tool_states b)). tc_started s)"

text \<open>\<open>flush_task_arg_buffers\<close>, over the tool states in order; invalid JSON is sent as \<open>{}\<close>.\<close>

fun flush_task_states ::
  "(string \<Rightarrow> json option) \<Rightarrow> (json \<Rightarrow> string) \<Rightarrow> (int \<times> tool_call_state) list
    \<Rightarrow> ((int \<times> string) list \<times> (int \<times> tool_call_state) list) result" where
  "flush_task_states loads dumps [] = Inr ([], [])"
| "flush_task_states loads dumps ((i, s) # ss) =
     (if tc_task_arg_buffer s = [] \<or> tc_task_args_emitted s
      then bind_result (flush_task_states loads dumps ss) (\<lambda>(rs, ss'). Inr (rs, (i, s) # ss'))
      else
        bind_result
          (case loads (tc_task_arg_buffer s) of
             None \<Rightarrow> Inr ''{}''
           | Some j \<Rightarrow> bind_result (normalize_task j) (\<lambda>j'. Inr (dumps j'))) (\<lambda>out.
        bind_result (flush_task_states loads dumps ss) (\<lambda>(rs, ss').
          Inr ((i, out) # rs, (i, s\<lparr>tc_task_args_emitted := True, tc_task_arg_buffer := []\<rparr>) # ss'))))"

definition cb_flush_task_arg_buffers ::
  "(string \<Rightarrow> json option) \<Rightarrow> (json \<Rightarrow> string) \<Rightarrow> content_block_manager
    \<Rightarrow> ((int \<times> string) list \<times> content_block_manager) result" where
  "cb_flush_task_arg_buffers loads dumps b =
     bind_result (flush_task_states loads dumps (cb_tool_states b)) (\<lambda>(rs, ss).
       Inr (rs, b\<lparr>cb_tool_states := ss\<rparr>))"

subsection \<open>The builder\<close>

record sse_builder =
  sb_message_id :: string
  sb_model :: string
  sb_input_tokens :: json
  sb_blocks :: content_block_manager
  sb_text_parts :: "string list"
  sb_reasoning_parts :: "string list"

definition sse_init :: "string \<Rightarrow> string \<Rightarrow> json \<Rightarrow> sse_builder" where
  "sse_init mid model tokens =
     \<lparr>sb_message_id = mid, sb_model = model, sb_input_tokens = tokens, sb_blocks = cb_init,
      sb_text_parts = [], sb_reasoning_parts = []\<rparr>"

definition message_start :: "sse_builder \<Rightarrow> sse_event" where
  "message_start s = sse_ev ''message_start''
     [(''type'', JStr ''message_start''),
      (''message'', JObj
         [(''id'', JStr (sb_message_id s)), (''type'', JStr ''message''), (''role'', JStr ''assistant''),
          (''content'', JList []), (''model'', JStr (sb_model s)), (''stop_reason'', JNull),
          (''stop_sequence'', JNull),
          (''usage'', JObj [(''input_tokens'', safe_usage_int (sb_input_tokens s)),
             (''output_tokens'', JInt 1)])])]"

definition message_delta :: "string \<Rightarrow> json \<Rightarrow> sse_builder \<Rightarrow> sse_event" where
  "message_delta stop_reason output_tokens s = sse_ev ''message_delta''
     [(''type'', JStr ''message_delta''),
      (''delta'', JObj [(''stop_reason'', JStr stop_reason), (''stop_sequence'', JNull)]),
      (''usage'', JObj [(''input_tokens'', safe_usage_int (sb_input_tokens s)),
         (''output_tokens'', safe_usage_int output_tokens)])]"

definition message_stop :: sse_event where
  "message_stop = sse_ev ''message_stop'' [(''type'', JStr ''message_stop'')]"

text \<open>\<open>kwargs.get(k, default)\<close>\<close>

definition kwarg :: "string \<Rightarrow> json \<Rightarrow> (string, json) pydict \<Rightarrow> json" where
  "kwarg k dflt kws = (case dict_get k kws of None \<Rightarrow> dflt | Some v \<Rightarrow> v)"

definition content_block_start :: "int \<Rightarrow> string \<Rightarrow> (string, json) pydict \<Rightarrow> sse_event" where
  "content_block_start idx ty kws = sse_ev ''content_block_start''
     [(''type'', JStr ''content_block_start''), (''index'', JInt idx),
      (''content_block'', JObj ((''type'', JStr ty) #
         (if ty = ''thinking'' then [(''thinking'', kwarg ''thinking'' (JStr []) kws)]
          else if ty = ''text'' then [(''text'', kwarg ''text'' (JStr []) kws)]
          else if ty = ''tool_use'' then
            [(''id'', kwarg ''id'' (JStr []) kws), (''name'', kwarg ''name'' (JStr []) kws),
             (''input'', kwarg ''input'' (JObj []) kws)]
          else [])))]"

definition content_block_delta :: "int \<Rightarrow> string \<Rightarrow> string \<Rightarrow> sse_event" where
  "content_block_delta idx ty content = sse_ev ''content_block_delta''
     [(''type'', JStr ''content_block_delta''), (''index'', JInt idx),
      (''delta'', JObj ((''type'', JStr ty) #
         (if ty = ''thinking_delta'' then [(''thinking'', JStr content)]
          else if ty = ''text_delta'' then [(''text'', JStr content)]
          else if ty = ''input_json_delta'' then [(''partial_json'', JStr content)]
          else [])))]"

definition content_block_stop :: "int \<Rightarrow> sse_event" where
  "content_block_stop idx = sse_ev ''content_block_stop''
     [(''type'', JStr ''content_block_stop''), (''index'', JInt idx)]"


subsection \<open>Blocks of the builder\<close>

text \<open>\<open>upd_blocks\<close>: an assignment to \<open>self.blocks\<close>.\<close>

definition upd_blocks :: "(content_block_manager \<Rightarrow> content_block_manager) \<Rightarrow> sse_builder \<Rightarrow> sse_builder" where
  "upd_blocks f s = s\<lparr>sb_blocks := f (sb_blocks s)\<rparr>"

definition start_thinking_block :: "sse_builder \<Rightarrow> sse_event \<times> sse_builder" where
  "start_thinking_block s =
     (let (i, b) = cb_allocate_index (sb_blocks s)
      in (content_block_start i ''thinking'' [],
          s\<lparr>sb_blocks := b\<lparr>cb_thinking_index := i, cb_thinking_started := True\<rparr>\<rparr>))"

definition emit_thinking_delta :: "string \<Rightarrow> sse_builder \<Rightarrow> sse_event \<times> sse_builder" where
  "emit_thinking_delta c s =
     (content_block_delta (cb_thinking_index (sb_blocks s)) ''thinking_delta'' c,
      s\<lparr>sb_reasoning_parts := sb_reasoning_parts s @ [c]\<rparr>)"

definition stop_thinking_block :: "sse_builder \<Rightarrow> sse_event \<times> sse_builder" where
  "stop_thinking_block s =
     (content_block_stop (cb_thinking_index (sb_blocks s)),
      upd_blocks (\<lambda>b. b\<lparr>cb_thinking_started := False\<rparr>) s)"

definition start_text_block :: "sse_builder \<Rightarrow> sse_event \<times> sse_builder" where
  "start_text_block s =
     (let (i, b) = cb_allocate_index (sb_blocks s)
      in (content_block_start i ''text'' [],
          s\<lparr>sb_blocks := b\<lparr>cb_text_index := i, cb_text_started := True\<rparr>\<rparr>))"

definition emit_text_delta :: "string \<Rightarrow> sse_builder \<Rightarrow> sse_event \<times> sse_builder" where
  "emit_text_delta c s =
     (content_block_delta (cb_text_index (sb_blocks s)) ''text_delta'' c,
      s\<lparr>sb_text_parts := sb_text_parts s @ [c]\<rparr>)"

definition stop_text_block :: "sse_builder \<Rightarrow> sse_event \<times> sse_builder" where
  "stop_text_block s =
     (content_block_stop (cb_text_index (sb_blocks s)),
      upd_blocks (\<lambda>b. b\<lparr>cb_text_started := False\<rparr>) s)"

definition start_tool_block :: "int \<Rightarrow> string \<Rightarrow> string \<Rightarrow> sse_builder \<Rightarrow> sse_event \<times> sse_builder" where
  "start_tool_block i tid name s =
     (let (idx, b) = cb_allocate_index (sb_blocks s);
          st = (case cb_tool i b of
                  Some st \<Rightarrow> st\<lparr>tc_block_index := idx, tc_tool_id := tid, tc_started := True\<rparr>
                | None \<Rightarrow> new_tool_state idx tid name True)
      in (content_block_start idx ''tool_use'' [(''id'', JStr tid), (''name'', JStr name)],
          s\<lparr>sb_blocks := cb_set_tool i st b\<rparr>))"

definition emit_tool_delta :: "int \<Rightarrow> string \<Rightarrow> sse_builder \<Rightarrow> (sse_event \<times> sse_builder) result" where
  "emit_tool_delta i partial s =
     (case cb_tool i (sb_blocks s) of
        None \<Rightarrow> Inl KeyError
      | Some st \<Rightarrow> Inr (content_block_delta (tc_block_index st) ''input_json_delta'' partial,
          upd_blocks (cb_set_tool i (st\<lparr>tc_contents := tc_contents st @ [partial]\<rparr>)) s))"

definition stop_tool_block :: "int \<Rightarrow> sse_builder \<Rightarrow> sse_event result" where
  "stop_tool_block i s =
     (case cb_tool i (sb_blocks s) of
        None \<Rightarrow> Inl KeyError
      | Some st \<Rightarrow> Inr (content_block_stop (tc_block_index st)))"

text \<open>\<open>if cond: yield self.f()\<close>\<close>

definition yield_if ::
  "bool \<Rightarrow> (sse_builder \<Rightarrow> sse_event \<times> sse_builder) \<Rightarrow> sse_builder \<Rightarrow> sse_event list \<times> sse_builder" where
  "yield_if c f s = (if c then (let (e, s') = f s in ([e], s')) else ([], s))"

definition ensure_thinking_block :: "sse_builder \<Rightarrow> sse_event list \<times> sse_builder" where
  "ensure_thinking_block s =
     (let (es, s) = yield_if (cb_text_started (sb_blocks s)) stop_text_block s;
          (es', s) = yield_if (\<not> cb_thinking_started (sb_blocks s)) start_thinking_block s
      in (es @ es', s))"

definition ensure_text_block :: "sse_builder \<Rightarrow> sse_event list \<times> sse_builder" where
  "ensure_text_block s =
     (let (es, s) = yield_if (cb_thinking_started (sb_blocks s)) stop_thinking_block s;
          (es', s) = yield_if (\<not> cb_text_started (sb_blocks s)) start_text_block s
      in (es @ es', s))"

definition close_content_blocks :: "sse_builder \<Rightarrow> sse_event list \<times> sse_builder" where
  "close_content_blocks s =
     (let (es, s) = yield_if (cb_thinking_started (sb_blocks s)) stop_thinking_block s;
          (es', s) = yield_if (cb_text_started (sb_blocks s)) stop_text_block s
      in (es @ es', s))"

definition close_all_blocks :: "sse_builder \<Rightarrow> sse_event list \<times> sse_builder" where
  "close_all_blocks s =
     (let (es, s) = close_content_blocks s
      in (es @ map (\<lambda>(i, st). content_block_stop (tc_block_index st))
                 (filter (\<lambda>(i, st). tc_started st) (cb_tool_states (sb_blocks s))), s))"

definition emit_error :: "string \<Rightarrow> sse_builder \<Rightarrow> sse_event list \<times> sse_builder" where
  "emit_error msg s =
     (let (i, b) = cb_allocate_index (sb_blocks s)
      in ([content_block_start i ''text'' [], content_block_delta i ''text_delta'' msg, content_block_stop i],
          s\<lparr>sb_blocks := b\<rparr>))"

definition emit_top_level_error :: "string \<Rightarrow> sse_event" where
  "emit_top_level_error msg = sse_ev ''error''
     [(''type'', JStr ''error''),
      (''error'', JObj [(''type'', JStr ''api_error''), (''message'', JStr msg)])]"

definition accumulated_text :: "sse_builder \<Rightarrow> string" where
  "accumulated_text s = concat (sb_text_parts s)"

definition accumulated_reasoning :: "sse_builder \<Rightarrow> string" where
  "accumulated_reasoning s = concat (sb_reasoning_parts s)"

text \<open>
  \<open>estimate_output_tokens\<close>.  The encoder, if one is loaded, gives the number of tokens of a text, or
  \<open>None\<close> where \<open>encode\<close> raises \<open>ValueError\<close>: with its default arguments it refuses a text that contains
  one of its special tokens.  The texts it is given are those of \<open>counted_texts\<close>.
\<close>

definition counted_texts :: "sse_builder \<Rightarrow> string list" where
  "counted_texts s =
     accumulated_text s # accumulated_reasoning s #
     concat (map (\<lambda>st. [tc_name st, concat (tc_contents st)]) (dict_values (cb_tool_states (sb_blocks s))))"

definition estimate_output_tokens :: "(string \<Rightarrow> nat option) option \<Rightarrow> sse_builder \<Rightarrow> nat result" where
  "estimate_output_tokens enc s =
     (let states = dict_values (cb_tool_states (sb_blocks s));
          started = length (filter tc_started states);
          text = accumulated_text s; reasoning = accumulated_reasoning s
      in case enc of
        Some count \<Rightarrow>
          (case those (map count (counted_texts s)) of
             None \<Rightarrow> Inl ValueError
           | Some ns \<Rightarrow>
               Inr (sum_list ns + 15 * length states +
                    ((if reasoning \<noteq> [] then 1 else 0) + (if text \<noteq> [] then 1 else 0) + started) * 4))
      | None \<Rightarrow> Inr (length text div 4 + length reasoning div 4 + started * 50))"

end
