(* ===== verification/StreamContract.thy ===== *)
theory StreamContract
  imports Sse
begin

section \<open>The stream contract (\<open>core/anthropic/stream_contracts.py\<close>)\<close>

text \<open>
  The checker that every transport's stream has to pass, as an executable function: the open
  blocks and the indices seen so far are threaded through the events, and a failed assertion is
  \<open>Inl AssertionError\<close>.  \<open>str(v)\<close> of a value that is not a string is the argument \<open>repr\<close>.
\<close>

definition py_str :: "(json \<Rightarrow> string) \<Rightarrow> json \<Rightarrow> string" where
  "py_str repr j = (case j of JStr s \<Rightarrow> s | _ \<Rightarrow> repr j)"

text \<open>\<open>d.get(k, default)\<close> on a payload.\<close>

definition json_get_or :: "string \<Rightarrow> json \<Rightarrow> json \<Rightarrow> json" where
  "json_get_or k dflt j = (case json_get k j of None \<Rightarrow> dflt | Some v \<Rightarrow> v)"

definition NO_DELTA_BLOCK_KINDS :: "string set" where
  "NO_DELTA_BLOCK_KINDS = {''server_tool_use'', ''web_search_tool_result'', ''web_fetch_tool_result'',
     ''text_eager'', ''redacted_thinking''}"

definition ALLOWED_BLOCK_START_TYPES :: "string set" where
  "ALLOWED_BLOCK_START_TYPES = {''text'', ''thinking'', ''tool_use'', ''redacted_thinking'',
     ''server_tool_use'', ''web_search_tool_result'', ''web_fetch_tool_result''}"

definition event_index :: "sse_event \<Rightarrow> int result" where
  "event_index e =
     (case json_get ''index'' (ev_data e) of
        None \<Rightarrow> Inl AssertionError
      | Some v \<Rightarrow> (case json_int v of None \<Rightarrow> Inl AssertionError | Some i \<Rightarrow> Inr i))"

record contract_state =
  cs_open :: "(int, string) pydict"
  cs_seen :: "int set"

definition contract_init :: contract_state where
  "contract_init = \<lparr>cs_open = [], cs_seen = {}\<rparr>"

definition contract_start :: "(json \<Rightarrow> string) \<Rightarrow> sse_event \<Rightarrow> contract_state \<Rightarrow> contract_state result" where
  "contract_start repr e c =
     bind_result (event_index e) (\<lambda>i.
       let block = json_get_or ''content_block'' (JObj []) (ev_data e) in
       if \<not> is_obj block then Inl AssertionError
       else
         let ty = py_str repr (json_get_or ''type'' (JStr []) block) in
         if ty \<notin> ALLOWED_BLOCK_START_TYPES \<or> i \<in> set (dict_keys (cs_open c)) \<or> i \<in> cs_seen c
         then Inl AssertionError
         else
           let storage = (if ty = ''text'' \<and> py_strip (py_str repr (json_get_or ''text'' (JStr []) block)) \<noteq> []
                          then ''text_eager'' else ty)
           in Inr \<lparr>cs_open = dict_set i storage (cs_open c), cs_seen = insert i (cs_seen c)\<rparr>)"

definition contract_delta :: "(json \<Rightarrow> string) \<Rightarrow> sse_event \<Rightarrow> contract_state \<Rightarrow> contract_state result" where
  "contract_delta repr e c =
     bind_result (event_index e) (\<lambda>i.
       case dict_get i (cs_open c) of
         None \<Rightarrow> Inl AssertionError
       | Some kind \<Rightarrow>
           if kind \<in> NO_DELTA_BLOCK_KINDS then Inl AssertionError
           else
             let delta = json_get_or ''delta'' (JObj []) (ev_data e) in
             if \<not> is_obj delta then Inl AssertionError
             else
               let ty = py_str repr (json_get_or ''type'' (JStr []) delta) in
               if kind = ''thinking''
               then (if ty \<in> {''thinking_delta'', ''signature_delta''} then Inr c else Inl AssertionError)
               else if kind = ''text'' then (if ty = ''text_delta'' then Inr c else Inl AssertionError)
               else if kind = ''tool_use'' then (if ty = ''input_json_delta'' then Inr c else Inl AssertionError)
               else Inl KeyError)"

definition contract_stop :: "sse_event \<Rightarrow> contract_state \<Rightarrow> contract_state result" where
  "contract_stop e c =
     bind_result (event_index e) (\<lambda>i.
       if i \<notin> set (dict_keys (cs_open c)) then Inl AssertionError
       else Inr (c\<lparr>cs_open := dict_del i (cs_open c)\<rparr>))"

definition contract_event :: "(json \<Rightarrow> string) \<Rightarrow> bool \<Rightarrow> sse_event \<Rightarrow> contract_state \<Rightarrow> contract_state result" where
  "contract_event repr allow_error e c =
     (if ev_event e = ''error'' \<and> \<not> allow_error then Inl AssertionError
      else if ev_event e = ''content_block_start'' then contract_start repr e c
      else if ev_event e = ''content_block_delta'' then contract_delta repr e c
      else if ev_event e = ''content_block_stop'' then contract_stop e c
      else Inr c)"

fun contract_events ::
  "(json \<Rightarrow> string) \<Rightarrow> bool \<Rightarrow> sse_event list \<Rightarrow> contract_state \<Rightarrow> contract_state result" where
  "contract_events repr allow_error [] c = Inr c"
| "contract_events repr allow_error (e # es) c =
     bind_result (contract_event repr allow_error e c) (contract_events repr allow_error es)"

definition assert_anthropic_stream_contract ::
  "(json \<Rightarrow> string) \<Rightarrow> bool \<Rightarrow> sse_event list \<Rightarrow> unit result" where
  "assert_anthropic_stream_contract repr allow_error es =
     (if es = [] then Inl AssertionError
      else if ''message_start'' \<notin> set (map ev_event es) then Inl AssertionError
      else if last (map ev_event es) \<noteq> ''message_stop'' then Inl AssertionError
      else bind_result (contract_events repr allow_error es contract_init) (\<lambda>c.
        if cs_open c \<noteq> [] \<or> cs_seen c = {} then Inl AssertionError else Inr ()))"

subsection \<open>What a stream says\<close>

definition event_names :: "sse_event list \<Rightarrow> string list" where
  "event_names es = map ev_event es"

definition text_parts :: "(json \<Rightarrow> string) \<Rightarrow> sse_event \<Rightarrow> string" where
  "text_parts repr e =
     (let block = json_get_or ''content_block'' (JObj []) (ev_data e);
          delta = json_get_or ''delta'' (JObj []) (ev_data e)
      in (if ev_event e = ''content_block_start'' \<and> is_obj block \<and> json_get ''type'' block = Some (JStr ''text'')
          then py_str repr (json_get_or ''text'' (JStr []) block) else []) @
         (if is_obj delta \<and> json_get ''type'' delta = Some (JStr ''text_delta'')
          then py_str repr (json_get_or ''text'' (JStr []) delta) else []))"

definition text_content :: "(json \<Rightarrow> string) \<Rightarrow> sse_event list \<Rightarrow> string" where
  "text_content repr es = concat (map (text_parts repr) es)"

definition thinking_part :: "(json \<Rightarrow> string) \<Rightarrow> sse_event \<Rightarrow> string" where
  "thinking_part repr e =
     (let delta = json_get_or ''delta'' (JObj []) (ev_data e) in
      if is_obj delta \<and> json_get ''type'' delta = Some (JStr ''thinking_delta'')
      then py_str repr (json_get_or ''thinking'' (JStr []) delta) else [])"

definition thinking_content :: "(json \<Rightarrow> string) \<Rightarrow> sse_event list \<Rightarrow> string" where
  "thinking_content repr es = concat (map (thinking_part repr) es)"

definition has_tool_use :: "sse_event list \<Rightarrow> bool" where
  "has_tool_use es = (\<exists>e \<in> set es. let block = json_get_or ''content_block'' (JObj []) (ev_data e)
     in is_obj block \<and> json_get ''type'' block = Some (JStr ''tool_use''))"

subsection \<open>The checker on the builder's events\<close>

lemma contract_events_append:
  "contract_events repr a (es @ fs) c = bind_result (contract_events repr a es c) (contract_events repr a fs)"
proof (induction es arbitrary: c)
  case (Cons e es)
  then show ?case by (cases "contract_event repr a e c") simp_all
qed simp

lemma contract_events_snoc:
  "contract_events repr a es c = Inr c' \<Longrightarrow>
     contract_events repr a (es @ [e]) c = contract_event repr a e c'"
  by (cases "contract_event repr a e c'") (simp_all add: contract_events_append)

lemma json_get_or_Cons [simp]:
  "json_get_or k dflt (JObj ((k', v) # d)) = (if k = k' then v else json_get_or k dflt (JObj d))"
  "json_get_or k dflt (JObj []) = dflt"
  by (simp_all add: json_get_or_def)

lemma py_str_JStr [simp]: "py_str repr (JStr s) = s"
  by (simp add: py_str_def)

lemma py_strip_Nil [simp]: "py_strip [] = []"
  by (simp add: py_strip_def py_lstrip_def py_rstrip_def)

text \<open>The kinds a block of the builder is stored under.\<close>

lemma contract_start_event:
  assumes "i \<notin> set (dict_keys (cs_open c))" and "i \<notin> cs_seen c"
    and "ty \<in> {''text'', ''thinking'', ''tool_use''}" and "dict_get ''text'' kws = None"
  shows "contract_event repr a (content_block_start i ty kws) c =
    Inr \<lparr>cs_open = dict_set i ty (cs_open c), cs_seen = insert i (cs_seen c)\<rparr>"
  using assms by (auto simp: contract_event_def contract_start_def content_block_start_def event_index_def
      ALLOWED_BLOCK_START_TYPES_def Let_def kwarg_def)

definition delta_of :: "string \<Rightarrow> string" where
  "delta_of kind = (if kind = ''thinking'' then ''thinking_delta''
     else if kind = ''text'' then ''text_delta'' else ''input_json_delta'')"

lemma contract_delta_event:
  assumes "dict_get i (cs_open c) = Some kind" and "kind \<in> {''text'', ''thinking'', ''tool_use''}"
  shows "contract_event repr a (content_block_delta i (delta_of kind) s) c = Inr c"
  using assms by (auto simp: contract_event_def contract_delta_def content_block_delta_def event_index_def
      NO_DELTA_BLOCK_KINDS_def delta_of_def Let_def)

lemma contract_stop_event:
  assumes "i \<in> set (dict_keys (cs_open c))"
  shows "contract_event repr a (content_block_stop i) c = Inr (c\<lparr>cs_open := dict_del i (cs_open c)\<rparr>)"
  using assms by (simp add: contract_event_def contract_stop_def content_block_stop_def event_index_def)

lemma contract_other_event:
  "ev_event e \<notin> {''content_block_start'', ''content_block_delta'', ''content_block_stop'', ''error''} \<Longrightarrow>
     contract_event repr a e c = Inr c"
  by (simp add: contract_event_def)

end
