(* ===== verification/SseSound.thy ===== *)
theory SseSound
  imports StreamContract
begin

section \<open>The builder keeps the contract\<close>

text \<open>
  What relates a builder to the checker that has read its events: the open blocks are those the
  builder considers started, every index used so far is below the next one, and no two started
  blocks share an index.  Every method keeps this relation; the lemmas state it for each.
\<close>

named_theorems sound_intros \<open>the builder's methods keep the contract\<close>

text \<open>Tool \<open>k\<close> has a started block at index \<open>i\<close>.\<close>

definition started_at :: "content_block_manager \<Rightarrow> int \<Rightarrow> int \<Rightarrow> bool" where
  "started_at b k i \<longleftrightarrow> (\<exists>st. cb_tool k b = Some st \<and> tc_started st \<and> tc_block_index st = i)"

definition block_open :: "content_block_manager \<Rightarrow> int \<Rightarrow> string \<Rightarrow> bool" where
  "block_open b i kind \<longleftrightarrow>
     kind = ''thinking'' \<and> cb_thinking_started b \<and> i = cb_thinking_index b \<or>
     kind = ''text'' \<and> cb_text_started b \<and> i = cb_text_index b \<or>
     kind = ''tool_use'' \<and> (\<exists>k. started_at b k i)"

definition tools_inj :: "content_block_manager \<Rightarrow> bool" where
  "tools_inj b \<longleftrightarrow> (\<forall>k k' i. started_at b k i \<and> started_at b k' i \<longrightarrow> k = k')"

definition buffers_started :: "content_block_manager \<Rightarrow> bool" where
  "buffers_started b \<longleftrightarrow> (\<forall>k st. cb_tool k b = Some st \<and> tc_task_arg_buffer st \<noteq> [] \<longrightarrow> tc_started st)"

definition blocks_ok :: "content_block_manager \<Rightarrow> contract_state \<Rightarrow> bool" where
  "blocks_ok b c \<longleftrightarrow>
     (\<forall>i kind. dict_get i (cs_open c) = Some kind \<longleftrightarrow> block_open b i kind) \<and>
     set (dict_keys (cs_open c)) \<subseteq> cs_seen c \<and> (\<forall>i \<in> cs_seen c. i < cb_next_index b) \<and>
     tools_inj b \<and> buffers_started b \<and>
     (cb_text_index b \<noteq> -1 \<or> cb_thinking_index b \<noteq> -1 \<longrightarrow> cs_seen c \<noteq> {}) \<and>
     dict_ok (cs_open c) \<and> dict_ok (cb_tool_states b)"

definition sound :: "(json \<Rightarrow> string) \<Rightarrow> bool \<Rightarrow> sse_builder \<Rightarrow> sse_event list \<times> sse_builder \<Rightarrow> bool" where
  "sound repr a s r \<longleftrightarrow> (\<forall>c. blocks_ok (sb_blocks s) c \<longrightarrow>
     (\<exists>c'. contract_events repr a (fst r) c = Inr c' \<and> blocks_ok (sb_blocks (snd r)) c' \<and>
        cs_seen c \<subseteq> cs_seen c'))"

lemma sound_nil [sound_intros]: "sb_blocks s' = sb_blocks s \<Longrightarrow> sound repr a s ([], s')"
  by (auto simp: sound_def)

lemma sound_append:
  assumes "sound repr a s (es, s1)" and "sound repr a s1 (es', s2)"
  shows "sound repr a s (es @ es', s2)"
  unfolding sound_def
proof (intro allI impI)
  fix c assume "blocks_ok (sb_blocks s) c"
  then obtain c1 where c1: "contract_events repr a es c = Inr c1" "blocks_ok (sb_blocks s1) c1"
    "cs_seen c \<subseteq> cs_seen c1" using assms(1) by (auto simp: sound_def)
  then obtain c2 where "contract_events repr a es' c1 = Inr c2" "blocks_ok (sb_blocks s2) c2"
    "cs_seen c1 \<subseteq> cs_seen c2" using assms(2) by (auto simp: sound_def)
  then show "\<exists>c'. contract_events repr a (fst (es @ es', s2)) c = Inr c' \<and>
      blocks_ok (sb_blocks (snd (es @ es', s2))) c' \<and> cs_seen c \<subseteq> cs_seen c'"
    using c1 by (auto simp: contract_events_append)
qed

text \<open>One event whose effect on the checker is known.\<close>

lemma sound_one:
  assumes "\<And>c. blocks_ok (sb_blocks s) c \<Longrightarrow> \<exists>c'. contract_event repr a e c = Inr c' \<and>
      blocks_ok (sb_blocks s') c' \<and> cs_seen c \<subseteq> cs_seen c'"
  shows "sound repr a s ([e], s')"
  using assms by (auto simp: sound_def)

lemma cb_tool_set [simp]:
  "cb_tool k (cb_set_tool i st b) = (if k = i then Some st else cb_tool k b)"
  by (simp add: cb_tool_def cb_set_tool_def)

lemma cb_tool_frame [simp]:
  "cb_tool k (b\<lparr>cb_next_index := n\<rparr>) = cb_tool k b"
  "cb_tool k (b\<lparr>cb_thinking_index := n\<rparr>) = cb_tool k b"
  "cb_tool k (b\<lparr>cb_text_index := n\<rparr>) = cb_tool k b"
  "cb_tool k (b\<lparr>cb_thinking_started := f\<rparr>) = cb_tool k b"
  "cb_tool k (b\<lparr>cb_text_started := f\<rparr>) = cb_tool k b"
  by (simp_all add: cb_tool_def)

lemma cb_set_tool_frame [simp]:
  "cb_next_index (cb_set_tool i st b) = cb_next_index b"
  "cb_thinking_index (cb_set_tool i st b) = cb_thinking_index b"
  "cb_text_index (cb_set_tool i st b) = cb_text_index b"
  "cb_thinking_started (cb_set_tool i st b) = cb_thinking_started b"
  "cb_text_started (cb_set_tool i st b) = cb_text_started b"
  by (simp_all add: cb_set_tool_def)

lemma started_at_set_tool [simp]:
  "started_at (cb_set_tool k st b) j i \<longleftrightarrow>
     (if j = k then tc_started st \<and> tc_block_index st = i else started_at b j i)"
  by (simp add: started_at_def)

lemma started_at_cong: "cb_tool_states b' = cb_tool_states b \<Longrightarrow> started_at b' = started_at b"
  by (simp add: started_at_def cb_tool_def fun_eq_iff)

lemma tools_cong:
  assumes "cb_tool_states b' = cb_tool_states b"
  shows "tools_inj b' = tools_inj b" "buffers_started b' = buffers_started b"
  using started_at_cong [OF assms] assms by (simp_all add: tools_inj_def buffers_started_def cb_tool_def)

lemma tools_frame [simp]:
  "started_at (b\<lparr>cb_next_index := n\<rparr>) = started_at b" "tools_inj (b\<lparr>cb_next_index := n\<rparr>) = tools_inj b"
  "buffers_started (b\<lparr>cb_next_index := n\<rparr>) = buffers_started b"
  "started_at (b\<lparr>cb_thinking_index := n\<rparr>) = started_at b" "tools_inj (b\<lparr>cb_thinking_index := n\<rparr>) = tools_inj b"
  "buffers_started (b\<lparr>cb_thinking_index := n\<rparr>) = buffers_started b"
  "started_at (b\<lparr>cb_text_index := n\<rparr>) = started_at b" "tools_inj (b\<lparr>cb_text_index := n\<rparr>) = tools_inj b"
  "buffers_started (b\<lparr>cb_text_index := n\<rparr>) = buffers_started b"
  "started_at (b\<lparr>cb_thinking_started := f\<rparr>) = started_at b" "tools_inj (b\<lparr>cb_thinking_started := f\<rparr>) = tools_inj b"
  "buffers_started (b\<lparr>cb_thinking_started := f\<rparr>) = buffers_started b"
  "started_at (b\<lparr>cb_text_started := f\<rparr>) = started_at b" "tools_inj (b\<lparr>cb_text_started := f\<rparr>) = tools_inj b"
  "buffers_started (b\<lparr>cb_text_started := f\<rparr>) = buffers_started b"
  by (rule started_at_cong tools_cong; simp)+

lemma blocks_ok_fresh:
  assumes "blocks_ok b c"
  shows "cb_next_index b \<notin> cs_seen c" "cb_next_index b \<notin> set (dict_keys (cs_open c))"
    "block_open b i kind \<Longrightarrow> i < cb_next_index b"
proof -
  show "cb_next_index b \<notin> cs_seen c" "cb_next_index b \<notin> set (dict_keys (cs_open c))"
    using assms by (auto simp: blocks_ok_def)
  assume "block_open b i kind"
  then have "dict_get i (cs_open c) = Some kind" using assms by (simp add: blocks_ok_def)
  then have "i \<in> set (dict_keys (cs_open c))" by (rule pd.lookup_SomeD)
  then show "i < cb_next_index b" using assms by (auto simp: blocks_ok_def)
qed

lemma blocks_ok_get:
  "blocks_ok b c \<Longrightarrow> dict_get i (cs_open c) = Some kind \<longleftrightarrow> block_open b i kind"
  by (simp add: blocks_ok_def)

lemma blocks_ok_open:
  assumes ok: "blocks_ok b c"
    and op: "\<And>j kind. block_open b' j kind \<longleftrightarrow>
      (if j = cb_next_index b then kind = ty else block_open b j kind)"
    and b': "cb_next_index b' = cb_next_index b + 1" "tools_inj b'" "buffers_started b'"
      "dict_ok (cb_tool_states b')"
  shows "blocks_ok b' \<lparr>cs_open = dict_set (cb_next_index b) ty (cs_open c),
    cs_seen = insert (cb_next_index b) (cs_seen c)\<rparr>"
proof -
  have "dict_get j (dict_set (cb_next_index b) ty (cs_open c)) = Some kind \<longleftrightarrow> block_open b' j kind" for j kind
    using blocks_ok_get [OF ok, of j kind] op [of j kind] by auto
  moreover have "i < cb_next_index b + 1" if "i \<in> insert (cb_next_index b) (cs_seen c)" for i
    using ok that by (fastforce simp: blocks_ok_def)
  moreover have "set (dict_keys (cs_open c)) \<subseteq> cs_seen c" "dict_ok (cs_open c)" using ok by (simp_all add: blocks_ok_def)
  ultimately show ?thesis using b' unfolding blocks_ok_def by auto
qed

lemma sound_start_thinking [sound_intros]:
  assumes "\<not> cb_thinking_started (sb_blocks s)"
  shows "sound repr a s ([fst (start_thinking_block s)], snd (start_thinking_block s))"
proof (rule sound_one)
  fix c assume ok: "blocks_ok (sb_blocks s) c"
  let ?i = "cb_next_index (sb_blocks s)"
  let ?c = "\<lparr>cs_open = dict_set ?i ''thinking'' (cs_open c), cs_seen = insert ?i (cs_seen c)\<rparr>"
  have "contract_event repr a (fst (start_thinking_block s)) c = Inr ?c"
    using contract_start_event [of ?i c "''thinking''" "[]"] blocks_ok_fresh [OF ok]
    by (simp add: start_thinking_block_def cb_allocate_index_def)
  moreover have "blocks_ok (sb_blocks (snd (start_thinking_block s))) ?c"
  proof -
    have b': "sb_blocks (snd (start_thinking_block s)) =
        sb_blocks s\<lparr>cb_next_index := ?i + 1, cb_thinking_index := ?i, cb_thinking_started := True\<rparr>"
      by (simp add: start_thinking_block_def cb_allocate_index_def)
    have "block_open (sb_blocks (snd (start_thinking_block s))) j kind \<longleftrightarrow>
        (if j = ?i then kind = ''thinking'' else block_open (sb_blocks s) j kind)" for j kind
      using blocks_ok_fresh(3) [OF ok, of j kind] assms by (auto simp: block_open_def b')
    then show ?thesis using ok by (intro blocks_ok_open [OF ok]) (simp_all add: b' blocks_ok_def)
  qed
  ultimately show "\<exists>c'. contract_event repr a (fst (start_thinking_block s)) c = Inr c' \<and>
      blocks_ok (sb_blocks (snd (start_thinking_block s))) c' \<and> cs_seen c \<subseteq> cs_seen c'" by auto
qed


lemma sound_start_text [sound_intros]:
  assumes "\<not> cb_text_started (sb_blocks s)"
  shows "sound repr a s ([fst (start_text_block s)], snd (start_text_block s))"
proof (rule sound_one)
  fix c assume ok: "blocks_ok (sb_blocks s) c"
  let ?i = "cb_next_index (sb_blocks s)"
  let ?c = "\<lparr>cs_open = dict_set ?i ''text'' (cs_open c), cs_seen = insert ?i (cs_seen c)\<rparr>"
  have "contract_event repr a (fst (start_text_block s)) c = Inr ?c"
    using contract_start_event [of ?i c "''text''" "[]"] blocks_ok_fresh [OF ok]
    by (simp add: start_text_block_def cb_allocate_index_def)
  moreover have "blocks_ok (sb_blocks (snd (start_text_block s))) ?c"
  proof -
    have b': "sb_blocks (snd (start_text_block s)) =
        sb_blocks s\<lparr>cb_next_index := ?i + 1, cb_text_index := ?i, cb_text_started := True\<rparr>"
      by (simp add: start_text_block_def cb_allocate_index_def)
    have "block_open (sb_blocks (snd (start_text_block s))) j kind \<longleftrightarrow>
        (if j = ?i then kind = ''text'' else block_open (sb_blocks s) j kind)" for j kind
      using blocks_ok_fresh(3) [OF ok, of j kind] assms by (auto simp: block_open_def b')
    then show ?thesis using ok by (intro blocks_ok_open [OF ok]) (simp_all add: b' blocks_ok_def)
  qed
  ultimately show "\<exists>c'. contract_event repr a (fst (start_text_block s)) c = Inr c' \<and>
      blocks_ok (sb_blocks (snd (start_text_block s))) c' \<and> cs_seen c \<subseteq> cs_seen c'" by auto
qed

text \<open>Closing a block of kind \<open>kind\<close> at \<open>i\<close>: the checker forgets it.\<close>

lemma sound_stop:
  assumes "block_open (sb_blocks s) i kind"
    and "\<And>c. blocks_ok (sb_blocks s) c \<Longrightarrow> blocks_ok (sb_blocks s') (c\<lparr>cs_open := dict_del i (cs_open c)\<rparr>)"
  shows "sound repr a s ([content_block_stop i], s')"
proof (rule sound_one)
  fix c assume ok: "blocks_ok (sb_blocks s) c"
  then have "i \<in> set (dict_keys (cs_open c))" using assms(1) blocks_ok_get [OF ok] pd.lookup_SomeD by fastforce
  then show "\<exists>c'. contract_event repr a (content_block_stop i) c = Inr c' \<and>
      blocks_ok (sb_blocks s') c' \<and> cs_seen c \<subseteq> cs_seen c'"
    using contract_stop_event assms(2) [OF ok] by fastforce
qed

lemma blocks_ok_disjoint:
  assumes "blocks_ok b c"
  shows "block_open b i kind \<Longrightarrow> block_open b i kind' \<Longrightarrow> kind = kind'"
  using blocks_ok_get [OF assms, of i kind] blocks_ok_get [OF assms, of i kind'] by simp

lemma blocks_ok_del:
  assumes "blocks_ok b c" and "\<And>k. block_open b' k = (\<lambda>kind. block_open b k kind \<and> k \<noteq> i)"
    and "cb_tool_states b' = cb_tool_states b" and "cb_next_index b' = cb_next_index b"
    and "cb_text_index b' = cb_text_index b" and "cb_thinking_index b' = cb_thinking_index b"
  shows "blocks_ok b' (c\<lparr>cs_open := dict_del i (cs_open c)\<rparr>)"
  using assms tools_cong [OF assms(3)] unfolding blocks_ok_def by auto

lemma block_open_thinking:
  "block_open b i kind \<and> i \<noteq> cb_thinking_index b \<Longrightarrow> kind \<noteq> ''thinking''"
  by (auto simp: block_open_def)

lemma sound_stop_thinking [sound_intros]:
  assumes "cb_thinking_started (sb_blocks s)"
  shows "sound repr a s ([fst (stop_thinking_block s)], snd (stop_thinking_block s))"
  unfolding stop_thinking_block_def fst_conv snd_conv
proof (rule sound_stop [where kind = "''thinking''"])
  show op: "block_open (sb_blocks s) (cb_thinking_index (sb_blocks s)) ''thinking''"
    using assms by (simp add: block_open_def)
  fix c assume ok: "blocks_ok (sb_blocks s) c"
  have "block_open (sb_blocks s\<lparr>cb_thinking_started := False\<rparr>) k kind \<longleftrightarrow>
      block_open (sb_blocks s) k kind \<and> k \<noteq> cb_thinking_index (sb_blocks s)" for k kind
  proof -
    have "k = cb_thinking_index (sb_blocks s) \<Longrightarrow> \<not> block_open (sb_blocks s\<lparr>cb_thinking_started := False\<rparr>) k kind"
      using blocks_ok_disjoint [OF ok op, of kind] by (auto simp: block_open_def)
    then show ?thesis by (auto simp: block_open_def)
  qed
  then show "blocks_ok (sb_blocks (upd_blocks (\<lambda>b. b\<lparr>cb_thinking_started := False\<rparr>) s))
      (c\<lparr>cs_open := dict_del (cb_thinking_index (sb_blocks s)) (cs_open c)\<rparr>)"
    by (intro blocks_ok_del [OF ok]) (simp_all add: upd_blocks_def fun_eq_iff)
qed

lemma sound_stop_text [sound_intros]:
  assumes "cb_text_started (sb_blocks s)"
  shows "sound repr a s ([fst (stop_text_block s)], snd (stop_text_block s))"
  unfolding stop_text_block_def fst_conv snd_conv
proof (rule sound_stop [where kind = "''text''"])
  show op: "block_open (sb_blocks s) (cb_text_index (sb_blocks s)) ''text''"
    using assms by (simp add: block_open_def)
  fix c assume ok: "blocks_ok (sb_blocks s) c"
  have "block_open (sb_blocks s\<lparr>cb_text_started := False\<rparr>) k kind \<longleftrightarrow>
      block_open (sb_blocks s) k kind \<and> k \<noteq> cb_text_index (sb_blocks s)" for k kind
  proof -
    have "k = cb_text_index (sb_blocks s) \<Longrightarrow> \<not> block_open (sb_blocks s\<lparr>cb_text_started := False\<rparr>) k kind"
      using blocks_ok_disjoint [OF ok op, of kind] by (auto simp: block_open_def)
    then show ?thesis by (auto simp: block_open_def)
  qed
  then show "blocks_ok (sb_blocks (upd_blocks (\<lambda>b. b\<lparr>cb_text_started := False\<rparr>) s))
      (c\<lparr>cs_open := dict_del (cb_text_index (sb_blocks s)) (cs_open c)\<rparr>)"
    by (intro blocks_ok_del [OF ok]) (simp_all add: upd_blocks_def fun_eq_iff)
qed

text \<open>A delta for an open block changes nothing.\<close>

lemma sound_delta:
  assumes "block_open (sb_blocks s) i kind" and "kind \<in> {''text'', ''thinking'', ''tool_use''}"
    and "\<And>c. blocks_ok (sb_blocks s) c \<Longrightarrow> blocks_ok (sb_blocks s') c" and "ty = delta_of kind"
  shows "sound repr a s ([content_block_delta i ty txt], s')"
proof (rule sound_one)
  fix c assume ok: "blocks_ok (sb_blocks s) c"
  then have "dict_get i (cs_open c) = Some kind" using assms(1) by (simp add: blocks_ok_get)
  from contract_delta_event [OF this assms(2)] show "\<exists>c'. contract_event repr a (content_block_delta i ty txt) c = Inr c' \<and>
      blocks_ok (sb_blocks s') c' \<and> cs_seen c \<subseteq> cs_seen c'" using assms(3,4) ok by auto
qed

lemma sound_text_delta [sound_intros]:
  assumes "cb_text_started (sb_blocks s)"
  shows "sound repr a s ([fst (emit_text_delta txt s)], snd (emit_text_delta txt s))"
  unfolding emit_text_delta_def fst_conv snd_conv
  by (rule sound_delta [where kind = "''text''"]) (use assms in \<open>simp_all add: block_open_def delta_of_def\<close>)

lemma sound_thinking_delta [sound_intros]:
  assumes "cb_thinking_started (sb_blocks s)"
  shows "sound repr a s ([fst (emit_thinking_delta txt s)], snd (emit_thinking_delta txt s))"
  unfolding emit_thinking_delta_def fst_conv snd_conv
  by (rule sound_delta [where kind = "''thinking''"]) (use assms in \<open>simp_all add: block_open_def delta_of_def\<close>)

text \<open>A change of a tool's state that keeps what matters of it.\<close>

lemma dict_ok_cb_set_tool: "dict_ok (cb_tool_states b) \<Longrightarrow> dict_ok (cb_tool_states (cb_set_tool k st b))"
  by (simp add: cb_set_tool_def)

lemma blocks_ok_tools:
  assumes "blocks_ok b c" and "started_at (cb_set_tool k st b) = started_at b"
    and "tc_task_arg_buffer st \<noteq> [] \<longrightarrow> tc_started st"
  shows "blocks_ok (cb_set_tool k st b) c"
proof -
  have "block_open (cb_set_tool k st b) = block_open b" by (simp add: block_open_def fun_eq_iff assms(2))
  moreover have "tools_inj (cb_set_tool k st b) = tools_inj b" by (simp add: tools_inj_def assms(2))
  moreover have "buffers_started b \<Longrightarrow> buffers_started (cb_set_tool k st b)"
    using assms(3) by (auto simp: buffers_started_def)
  ultimately show ?thesis using assms(1) dict_ok_cb_set_tool by (simp add: blocks_ok_def)
qed

lemma blocks_ok_set_tool:
  assumes "blocks_ok b c" and "cb_tool k b = Some st0" and "tc_started st = tc_started st0"
    and "tc_block_index st = tc_block_index st0" and "tc_task_arg_buffer st \<noteq> [] \<longrightarrow> tc_started st"
  shows "blocks_ok (cb_set_tool k st b) c"
  by (rule blocks_ok_tools [OF assms(1) _ assms(5)]) (use assms(2-4) in \<open>auto simp: fun_eq_iff started_at_def\<close>)

lemma blocks_ok_new_tool:
  assumes "blocks_ok b c" and "cb_tool k b = None" and "\<not> tc_started st" and "tc_task_arg_buffer st = []"
  shows "blocks_ok (cb_set_tool k st b) c"
  by (rule blocks_ok_tools [OF assms(1)]) (use assms(2-4) in \<open>auto simp: fun_eq_iff started_at_def\<close>)

lemma sound_emit_tool_delta:
  assumes "emit_tool_delta k txt s = Inr (e, s')" and "cb_tool k (sb_blocks s) = Some st" and "tc_started st"
  shows "sound repr a s ([e], s')"
proof -
  have e: "e = content_block_delta (tc_block_index st) ''input_json_delta'' txt"
    "s' = upd_blocks (cb_set_tool k (st\<lparr>tc_contents := tc_contents st @ [txt]\<rparr>)) s"
    using assms(1,2) by (auto simp: emit_tool_delta_def)
  show ?thesis unfolding e
    by (rule sound_delta [where kind = "''tool_use''"])
      (use assms in \<open>auto simp: block_open_def delta_of_def upd_blocks_def started_at_def
         buffers_started_def intro!: blocks_ok_set_tool exI [of _ k]\<close>)
qed

lemma sound_start_tool:
  assumes "\<forall>i. \<not> started_at (sb_blocks s) k i"
  shows "sound repr a s ([fst (start_tool_block k tid name s)], snd (start_tool_block k tid name s))"
proof (rule sound_one)
  fix c assume ok: "blocks_ok (sb_blocks s) c"
  let ?b = "sb_blocks s" and ?i = "cb_next_index (sb_blocks s)" and ?b' = "sb_blocks (snd (start_tool_block k tid name s))"
  let ?c = "\<lparr>cs_open = dict_set ?i ''tool_use'' (cs_open c), cs_seen = insert ?i (cs_seen c)\<rparr>"
  have "contract_event repr a (fst (start_tool_block k tid name s)) c = Inr ?c"
    using contract_start_event [of ?i c "''tool_use''" "[(''id'', JStr tid), (''name'', JStr name)]"] blocks_ok_fresh [OF ok]
    by (simp add: start_tool_block_def cb_allocate_index_def)
  moreover have "blocks_ok ?b' ?c"
  proof -
    obtain st where b': "?b' = cb_set_tool k st (?b\<lparr>cb_next_index := ?i + 1\<rparr>)"
      and st: "tc_started st" "tc_block_index st = ?i"
      by (cases "cb_tool k ?b") (simp_all add: start_tool_block_def cb_allocate_index_def new_tool_state_def Let_def)
    have at: "started_at ?b' j i \<longleftrightarrow> (if j = k then i = ?i else started_at ?b j i)" for j i
      using st by (auto simp: b')
    have lt: "started_at ?b j i \<Longrightarrow> i < ?i" for j i
      using blocks_ok_fresh(3) [OF ok, of i "''tool_use''"] by (auto simp: block_open_def)
    have op: "block_open ?b' j kind \<longleftrightarrow> (if j = ?i then kind = ''tool_use'' else block_open ?b j kind)" for j kind
    proof -
      have "(\<exists>k'. started_at ?b' k' j) \<longleftrightarrow> j = ?i \<or> (\<exists>k'. started_at ?b k' j)"
        using assms unfolding at by auto
      moreover have "\<not> block_open ?b ?i kind" using blocks_ok_fresh(3) [OF ok, of ?i kind] by auto
      moreover have "cb_thinking_started ?b' = cb_thinking_started ?b" "cb_thinking_index ?b' = cb_thinking_index ?b"
        "cb_text_started ?b' = cb_text_started ?b" "cb_text_index ?b' = cb_text_index ?b" by (simp_all add: b')
      ultimately show ?thesis unfolding block_open_def by auto
    qed
    have inj: "tools_inj ?b'" using ok lt unfolding tools_inj_def blocks_ok_def at
      by (metis less_irrefl)
    have buf: "buffers_started ?b'" using ok st by (auto simp: buffers_started_def blocks_ok_def b')
    have "dict_ok (cb_tool_states ?b')" using ok by (auto simp: b' blocks_ok_def cb_set_tool_def)
    then show ?thesis by (intro blocks_ok_open [OF ok op _ inj buf]) (simp add: b')
  qed
  ultimately show "\<exists>c'. contract_event repr a (fst (start_tool_block k tid name s)) c = Inr c' \<and>
      blocks_ok ?b' c' \<and> cs_seen c \<subseteq> cs_seen c'" by auto
qed


subsection \<open>The composed methods\<close>

lemma sound_yield_if:
  assumes "c \<Longrightarrow> sound repr a s ([fst (f s)], snd (f s))"
  shows "sound repr a s (yield_if c f s)"
  using assms sound_nil [of s s] by (simp add: yield_if_def case_prod_beta)

lemma sound_bind:
  assumes "sound repr a s (f s)" and "sound repr a (snd (f s)) (g (snd (f s)))"
  shows "sound repr a s (let (es, s') = f s; (es', s'') = g s' in (es @ es', s''))"
  using sound_append [of repr a s "fst (f s)" "snd (f s)" "fst (g (snd (f s)))" "snd (g (snd (f s)))"] assms
  by (simp add: case_prod_beta)

lemma sound_ensure_thinking: "sound repr a s (ensure_thinking_block s)"
  unfolding ensure_thinking_block_def
  by (rule sound_bind [where f = "\<lambda>s. yield_if (cb_text_started (sb_blocks s)) stop_text_block s"
        and g = "\<lambda>s. yield_if (\<not> cb_thinking_started (sb_blocks s)) start_thinking_block s"])
    (rule sound_yield_if, erule sound_intros)+

lemma sound_ensure_text: "sound repr a s (ensure_text_block s)"
  unfolding ensure_text_block_def
  by (rule sound_bind [where f = "\<lambda>s. yield_if (cb_thinking_started (sb_blocks s)) stop_thinking_block s"
        and g = "\<lambda>s. yield_if (\<not> cb_text_started (sb_blocks s)) start_text_block s"])
    (rule sound_yield_if, erule sound_intros)+

lemma sound_close_content: "sound repr a s (close_content_blocks s)"
  unfolding close_content_blocks_def
  by (rule sound_bind [where f = "\<lambda>s. yield_if (cb_thinking_started (sb_blocks s)) stop_thinking_block s"
        and g = "\<lambda>s. yield_if (cb_text_started (sb_blocks s)) stop_text_block s"])
    (rule sound_yield_if, erule sound_intros)+

lemma block_method_flags [simp]:
  "cb_text_started (sb_blocks (snd (stop_text_block s))) = False"
  "cb_thinking_started (sb_blocks (snd (stop_text_block s))) = cb_thinking_started (sb_blocks s)"
  "cb_thinking_started (sb_blocks (snd (stop_thinking_block s))) = False"
  "cb_text_started (sb_blocks (snd (stop_thinking_block s))) = cb_text_started (sb_blocks s)"
  "cb_text_started (sb_blocks (snd (start_text_block s))) = True"
  "cb_thinking_started (sb_blocks (snd (start_text_block s))) = cb_thinking_started (sb_blocks s)"
  "cb_thinking_started (sb_blocks (snd (start_thinking_block s))) = True"
  "cb_text_started (sb_blocks (snd (start_thinking_block s))) = cb_text_started (sb_blocks s)"
  by (simp_all add: stop_text_block_def stop_thinking_block_def start_text_block_def
      start_thinking_block_def upd_blocks_def cb_allocate_index_def)

lemma yield_if_snd: "snd (yield_if c f s) = (if c then snd (f s) else s)"
  by (simp add: yield_if_def case_prod_beta)

lemma ensure_flags [simp]:
  "cb_thinking_started (sb_blocks (snd (ensure_thinking_block s)))"
  "cb_text_started (sb_blocks (snd (ensure_text_block s)))"
  "\<not> cb_thinking_started (sb_blocks (snd (close_content_blocks s)))"
  "\<not> cb_text_started (sb_blocks (snd (close_content_blocks s)))"
  by (simp_all add: ensure_thinking_block_def ensure_text_block_def close_content_blocks_def
      case_prod_beta yield_if_snd)

text \<open>What the block methods leave alone: the tool states.\<close>

lemma block_method_tools [simp]:
  "cb_tool_states (sb_blocks (snd (stop_text_block s))) = cb_tool_states (sb_blocks s)"
  "cb_tool_states (sb_blocks (snd (stop_thinking_block s))) = cb_tool_states (sb_blocks s)"
  "cb_tool_states (sb_blocks (snd (start_text_block s))) = cb_tool_states (sb_blocks s)"
  "cb_tool_states (sb_blocks (snd (start_thinking_block s))) = cb_tool_states (sb_blocks s)"
  "cb_tool_states (sb_blocks (snd (emit_text_delta t s))) = cb_tool_states (sb_blocks s)"
  "cb_tool_states (sb_blocks (snd (emit_thinking_delta t s))) = cb_tool_states (sb_blocks s)"
  by (simp_all add: stop_text_block_def stop_thinking_block_def start_text_block_def
      start_thinking_block_def upd_blocks_def cb_allocate_index_def emit_text_delta_def emit_thinking_delta_def)

lemma ensure_tools [simp]:
  "cb_tool_states (sb_blocks (snd (ensure_thinking_block s))) = cb_tool_states (sb_blocks s)"
  "cb_tool_states (sb_blocks (snd (ensure_text_block s))) = cb_tool_states (sb_blocks s)"
  "cb_tool_states (sb_blocks (snd (close_content_blocks s))) = cb_tool_states (sb_blocks s)"
  by (simp_all add: ensure_thinking_block_def ensure_text_block_def close_content_blocks_def
      case_prod_beta yield_if_snd)

text \<open>Closing everything leaves the checker without an open block.\<close>

lemma contract_stops:
  assumes "distinct is" and "set is \<subseteq> set (dict_keys (cs_open c))"
  shows "contract_events repr a (map content_block_stop is) c =
    Inr (c\<lparr>cs_open := fold dict_del is (cs_open c)\<rparr>)"
  using assms
proof (induction "is" arbitrary: c)
  case (Cons i "is")
  have "contract_event repr a (content_block_stop i) c = Inr (c\<lparr>cs_open := dict_del i (cs_open c)\<rparr>)"
    by (rule contract_stop_event) (use Cons.prems in simp)
  moreover have "contract_events repr a (map content_block_stop is) (c\<lparr>cs_open := dict_del i (cs_open c)\<rparr>) =
      Inr (c\<lparr>cs_open := fold dict_del is (dict_del i (cs_open c))\<rparr>)"
    using Cons.IH [of "c\<lparr>cs_open := dict_del i (cs_open c)\<rparr>"] Cons.prems by auto
  ultimately show ?case by simp
qed simp

lemma dict_keys_fold_del: "set (dict_keys (fold dict_del ks d)) = set (dict_keys d) - set ks"
  by (induction ks arbitrary: d) auto

lemma dict_keys_empty_iff: "set (dict_keys d) = {} \<longleftrightarrow> d = []"
  by (simp add: dict_keys_def)

definition started_indices :: "content_block_manager \<Rightarrow> int list" where
  "started_indices b = map (\<lambda>(i, st). tc_block_index st) (filter (\<lambda>(i, st). tc_started st) (cb_tool_states b))"

lemma started_indices_props:
  assumes "blocks_ok b c" and "\<not> cb_thinking_started b" and "\<not> cb_text_started b"
  shows "distinct (started_indices b)" "set (started_indices b) = set (dict_keys (cs_open c))"
proof -
  have dk: "dict_ok (cb_tool_states b)" using assms(1) by (simp add: blocks_ok_def)
  have mem: "(k, st) \<in> set (cb_tool_states b) \<longleftrightarrow> cb_tool k b = Some st" for k st
    using dict_mem_get [OF dk] dict_get_mem by (fastforce simp: cb_tool_def)
  have inj: "inj_on (\<lambda>(i, st). tc_block_index st) (set (filter (\<lambda>(i, st). tc_started st) (cb_tool_states b)))"
  proof (rule inj_onI, clarify)
    fix k st k' st'
    assume a: "(k, st) \<in> set (filter (\<lambda>(i, st). tc_started st) (cb_tool_states b))"
      "(k', st') \<in> set (filter (\<lambda>(i, st). tc_started st) (cb_tool_states b))"
      "tc_block_index st = tc_block_index st'"
    then have "started_at b k (tc_block_index st)" "started_at b k' (tc_block_index st)"
      using mem by (auto simp: started_at_def)
    then have "k = k'" using assms(1) unfolding blocks_ok_def tools_inj_def by blast
    then show "k = k' \<and> st = st'" using a mem by simp
  qed
  have "distinct (cb_tool_states b)" using dk by (simp add: dict_ok_def dict_keys_def distinct_map)
  then show "distinct (started_indices b)"
    unfolding started_indices_def distinct_map using inj by simp
  have "i \<in> set (started_indices b) \<longleftrightarrow> (\<exists>k. started_at b k i)" for i
    using mem by (force simp: started_indices_def started_at_def)
  moreover have "i \<in> set (dict_keys (cs_open c)) \<longleftrightarrow> (\<exists>kind. block_open b i kind)" for i
    using blocks_ok_get [OF assms(1), of i] pd.lookup_keys [of i "cs_open c"] by auto
  ultimately show "set (started_indices b) = set (dict_keys (cs_open c))"
    using assms(2,3) by (auto simp: block_open_def)
qed

lemma close_all_contract:
  assumes "blocks_ok (sb_blocks s) c"
  shows "\<exists>c'. contract_events repr a (fst (close_all_blocks s)) c = Inr c' \<and> cs_open c' = [] \<and>
    cs_seen c \<subseteq> cs_seen c' \<and> (\<forall>i \<in> cs_seen c'. i < cb_next_index (sb_blocks (snd (close_all_blocks s))))"
proof -
  let ?s = "snd (close_content_blocks s)"
  obtain c1 where c1: "contract_events repr a (fst (close_content_blocks s)) c = Inr c1"
    "blocks_ok (sb_blocks ?s) c1" "cs_seen c \<subseteq> cs_seen c1"
    using sound_close_content [of repr a s] assms by (auto simp: sound_def)
  note ids = started_indices_props [OF c1(2)]
  let ?c = "c1\<lparr>cs_open := fold dict_del (started_indices (sb_blocks ?s)) (cs_open c1)\<rparr>"
  have "contract_events repr a (map content_block_stop (started_indices (sb_blocks ?s))) c1 = Inr ?c"
    using contract_stops ids by simp
  moreover have "fst (close_all_blocks s) = fst (close_content_blocks s) @
      map content_block_stop (started_indices (sb_blocks ?s))"
    by (simp add: close_all_blocks_def case_prod_beta started_indices_def comp_def)
  moreover have "cs_open ?c = []"
    using ids(2) dict_keys_fold_del [of "started_indices (sb_blocks ?s)" "cs_open c1"]
      dict_keys_empty_iff [of "cs_open ?c"] by simp
  moreover have "snd (close_all_blocks s) = ?s" by (simp add: close_all_blocks_def case_prod_beta)
  ultimately show ?thesis using c1 by (auto simp: contract_events_append blocks_ok_def)
qed

end
