(* ===== verification/ThinkTag.thy ===== *)
theory ThinkTag
  imports Prelude
begin

section \<open>The streaming parser for think tags (\<open>core/anthropic/thinking.py\<close>)\<close>

text \<open>
  A provider's text arrives in pieces; \<open><think>...</think>\<close> spans, whose tags may be cut anywhere,
  are reported as thinking and the rest as text.  \<open>feed\<close> is a generator in Python; its callers
  consume it to the end, so here it returns the list of chunks.

  The property is that the pieces do not matter: whatever the chunking, the labelled characters
  are those of the one-pass lexer \<open>think_lex\<close> on the whole text.
\<close>

datatype content_type = TEXT | THINKING

datatype content_chunk = ContentChunk content_type string

record think_parser =
  tp_buffer :: string
  tp_in_think :: bool

definition OPEN_TAG :: string where "OPEN_TAG = ''<think>''"
definition CLOSE_TAG :: string where "CLOSE_TAG = ''</think>''"

definition tp_init :: think_parser where
  "tp_init = \<lparr>tp_buffer = [], tp_in_think = False\<rparr>"

text \<open>\<open>ContentChunk(ty, s) if s else None\<close>\<close>

definition some_chunk :: "content_type \<Rightarrow> string \<Rightarrow> content_chunk option" where
  "some_chunk ty s = (if s = [] then None else Some (ContentChunk ty s))"

definition parse_outside_think :: "think_parser \<Rightarrow> content_chunk option \<times> think_parser" where
  "parse_outside_think p =
     (let b = tp_buffer p; think_start = py_find OPEN_TAG b; orphan_close = py_find CLOSE_TAG b in
      case (orphan_close, think_start) of
        (Some oc, Some t) \<Rightarrow>
          if oc < t then (some_chunk TEXT (take oc b), p\<lparr>tp_buffer := drop (oc + length CLOSE_TAG) b\<rparr>)
          else (some_chunk TEXT (take t b), p\<lparr>tp_buffer := drop (t + length OPEN_TAG) b, tp_in_think := True\<rparr>)
      | (Some oc, None) \<Rightarrow> (some_chunk TEXT (take oc b), p\<lparr>tp_buffer := drop (oc + length CLOSE_TAG) b\<rparr>)
      | (None, Some t) \<Rightarrow>
          (some_chunk TEXT (take t b), p\<lparr>tp_buffer := drop (t + length OPEN_TAG) b, tp_in_think := True\<rparr>)
      | (None, None) \<Rightarrow>
          (case py_rfind CHR ''<'' b of
             Some l \<Rightarrow>
               let potential_tag = drop l b in
               if length potential_tag < length OPEN_TAG \<and> prefix potential_tag OPEN_TAG \<or>
                  length potential_tag < length CLOSE_TAG \<and> prefix potential_tag CLOSE_TAG
               then (some_chunk TEXT (take l b), p\<lparr>tp_buffer := drop l b\<rparr>)
               else (some_chunk TEXT b, p\<lparr>tp_buffer := []\<rparr>)
           | None \<Rightarrow> (some_chunk TEXT b, p\<lparr>tp_buffer := []\<rparr>)))"

definition parse_inside_think :: "think_parser \<Rightarrow> content_chunk option \<times> think_parser" where
  "parse_inside_think p =
     (let b = tp_buffer p in
      case py_find CLOSE_TAG b of
        None \<Rightarrow>
          (case py_rfind CHR ''<'' b of
             Some l \<Rightarrow>
               if length b - l < length CLOSE_TAG \<and> prefix (drop l b) CLOSE_TAG
               then (some_chunk THINKING (take l b), p\<lparr>tp_buffer := drop l b\<rparr>)
               else (some_chunk THINKING b, p\<lparr>tp_buffer := []\<rparr>)
           | None \<Rightarrow> (some_chunk THINKING b, p\<lparr>tp_buffer := []\<rparr>))
      | Some e \<Rightarrow>
          (some_chunk THINKING (take e b),
           p\<lparr>tp_buffer := drop (e + length CLOSE_TAG) b, tp_in_think := False\<rparr>))"

definition parse_step :: "think_parser \<Rightarrow> content_chunk option \<times> think_parser" where
  "parse_step p = (if \<not> tp_in_think p then parse_outside_think p else parse_inside_think p)"

lemma parse_step_length:
  "length (tp_buffer (snd (parse_step p))) \<le> length (tp_buffer p)"
  "fst (parse_step p) \<noteq> None \<Longrightarrow> length (tp_buffer (snd (parse_step p))) < length (tp_buffer p)"
  by (auto simp: parse_step_def parse_outside_think_def parse_inside_think_def some_chunk_def Let_def
      OPEN_TAG_def CLOSE_TAG_def split: option.splits if_splits dest: py_find_Some_split py_rfind_Some)

text \<open>The loop of \<open>feed\<close>.\<close>

function (sequential) think_loop :: "think_parser \<Rightarrow> content_chunk list \<times> think_parser" where
  "think_loop p =
     (if tp_buffer p = [] then ([], p)
      else case fst (parse_step p) of
        Some c \<Rightarrow> (let (cs, p') = think_loop (snd (parse_step p)) in (c # cs, p'))
      | None \<Rightarrow>
          if length (tp_buffer (snd (parse_step p))) = length (tp_buffer p) then ([], snd (parse_step p))
          else think_loop (snd (parse_step p)))"
  by pat_completeness auto
termination
proof (relation "measure (\<lambda>p. length (tp_buffer p))")
  fix p :: think_parser
  show "(snd (parse_step p), p) \<in> measure (\<lambda>p. length (tp_buffer p))"
    if "fst (parse_step p) = Some c" for c
    using parse_step_length(2) [of p] that by simp
  show "(snd (parse_step p), p) \<in> measure (\<lambda>p. length (tp_buffer p))"
    if "length (tp_buffer (snd (parse_step p))) \<noteq> length (tp_buffer p)"
    using parse_step_length(1) [of p] that by simp
qed simp

declare think_loop.simps [simp del]

definition think_feed :: "string \<Rightarrow> think_parser \<Rightarrow> content_chunk list \<times> think_parser" where
  "think_feed content p = think_loop (p\<lparr>tp_buffer := tp_buffer p @ content\<rparr>)"

definition think_flush :: "think_parser \<Rightarrow> content_chunk option \<times> think_parser" where
  "think_flush p =
     (if tp_buffer p \<noteq> []
      then (Some (ContentChunk (if tp_in_think p then THINKING else TEXT) (tp_buffer p)), p\<lparr>tp_buffer := []\<rparr>)
      else (None, p))"

text \<open>A whole stream: the pieces fed one after the other, then the flush.\<close>

fun think_stream :: "string list \<Rightarrow> think_parser \<Rightarrow> content_chunk list" where
  "think_stream [] p = (case fst (think_flush p) of None \<Rightarrow> [] | Some c \<Rightarrow> [c])"
| "think_stream (s # ss) p = (let (cs, p') = think_feed s p in cs @ think_stream ss p')"

subsection \<open>The reference lexer\<close>

fun think_lex :: "bool \<Rightarrow> string \<Rightarrow> (content_type \<times> char) list" where
  "think_lex m [] = []"
| "think_lex m (c # s) =
     (if prefix CLOSE_TAG (c # s) then think_lex False (drop 7 s)
      else if \<not> m \<and> prefix OPEN_TAG (c # s) then think_lex True (drop 6 s)
      else ((if m then THINKING else TEXT), c) # think_lex m s)"


definition tags :: "bool \<Rightarrow> string set" where
  "tags m = (if m then {CLOSE_TAG} else {OPEN_TAG, CLOSE_TAG})"

text \<open>No tag of the mode starts before position \<open>k\<close>, whatever text follows.\<close>

definition clean :: "bool \<Rightarrow> string \<Rightarrow> nat \<Rightarrow> bool" where
  "clean m b k \<longleftrightarrow> k \<le> length b \<and> (\<forall>r. \<forall>j < k. \<forall>t \<in> tags m. \<not> prefix t (drop j b @ r))"

lemma think_lex_skip:
  assumes "k \<le> length s" and "\<forall>j < k. \<forall>t \<in> tags m. \<not> prefix t (drop j s)"
  shows "think_lex m s = map (Pair (if m then THINKING else TEXT)) (take k s) @ think_lex m (drop k s)"
  using assms
proof (induction k arbitrary: s)
  case (Suc k)
  then obtain c s' where s: "s = c # s'" by (cases s) auto
  have "\<forall>t \<in> tags m. \<not> prefix t s" using Suc.prems(2) by force
  moreover have "\<forall>j < k. \<forall>t \<in> tags m. \<not> prefix t (drop j s')" using Suc.prems(2) s by force
  ultimately show ?case using Suc.IH [of s'] Suc.prems(1) by (auto simp: s tags_def)
qed simp

lemma think_lex_clean:
  "clean m b k \<Longrightarrow> think_lex m (b @ r) =
     map (Pair (if m then THINKING else TEXT)) (take k b) @ think_lex m (drop k b @ r)"
  using think_lex_skip [of k "b @ r" m] by (auto simp: clean_def)

lemma think_lex_close: "think_lex m (CLOSE_TAG @ r) = think_lex False r"
  by (simp add: CLOSE_TAG_def)

lemma think_lex_open: "think_lex False (OPEN_TAG @ r) = think_lex True r"
  by (simp add: OPEN_TAG_def CLOSE_TAG_def)

text \<open>A tag has its only angle bracket in front.\<close>

definition tag_like :: "string \<Rightarrow> bool" where
  "tag_like t \<longleftrightarrow> (\<exists>u. t = CHR ''<'' # u \<and> CHR ''<'' \<notin> set u)"

lemma tags_tag_like: "t \<in> tags m \<Longrightarrow> tag_like t"
  by (auto simp: tags_def OPEN_TAG_def CLOSE_TAG_def tag_like_def split: if_splits)

lemma prefix_nth: "prefix t s \<longleftrightarrow> length t \<le> length s \<and> (\<forall>i < length t. s ! i = t ! i)"
proof
  assume "length t \<le> length s \<and> (\<forall>i < length t. s ! i = t ! i)"
  then have "take (length t) s = t" by (intro nth_equalityI) simp_all
  then show "prefix t s" by (metis take_is_prefix)
qed (auto simp: prefix_def nth_append)

text \<open>Two tags do not overlap: before the bracket at \<open>l\<close> a tag must end by \<open>l\<close>.\<close>

lemma tag_ends_before:
  assumes "tag_like t" and "prefix t (drop j s)" and "j < l" and "l < length s" and "s ! l = CHR ''<''"
  shows "j + length t \<le> l"
proof (rule ccontr)
  obtain u where u: "t = CHR ''<'' # u" "CHR ''<'' \<notin> set u" using assms(1) by (auto simp: tag_like_def)
  assume "\<not> j + length t \<le> l"
  then have i: "l - j < length t" "0 < l - j" using assms(3) by simp_all
  then have "t ! (l - j) \<in> set u" by (cases "l - j") (simp_all add: u(1))
  moreover have "drop j s ! (l - j) = t ! (l - j)" using assms(2) i(1) by (simp add: prefix_nth)
  then have "t ! (l - j) = CHR ''<''" using assms(3,4,5) by simp
  ultimately show False using u(2) by simp
qed

lemma prefix_within: "prefix t (b @ r) \<Longrightarrow> length t \<le> length b \<Longrightarrow> prefix t b"
  by (auto simp: prefix_nth nth_append)

lemma find_None: "py_find t b = None \<Longrightarrow> t \<noteq> [] \<Longrightarrow> \<not> prefix t (drop j b)"
  by (induction b arbitrary: j) (auto simp: drop_Cons split: if_splits nat.splits)

lemma find_Some:
  "py_find t b = Some i \<Longrightarrow> t \<noteq> [] \<Longrightarrow> prefix t (drop i b) \<and> (\<forall>j < i. \<not> prefix t (drop j b))"
proof (induction b arbitrary: i)
  case (Cons x b)
  show ?case
  proof (cases "prefix t (x # b)")
    case True
    then show ?thesis using Cons.prems by auto
  next
    case False
    then obtain i' where i': "py_find t b = Some i'" "i = Suc i'" using Cons.prems by auto
    have "\<not> prefix t (drop j (x # b))" if "j < i" for j
      using that False Cons.IH [OF i'(1) Cons.prems(2)] i'(2) by (cases j) auto
    then show ?thesis using Cons.IH [OF i'(1) Cons.prems(2)] i'(2) by simp
  qed
qed auto

text \<open>Where a search in the buffer finds nothing, what follows cannot make a tag before a bracket
  of the buffer; and the tag found first is the first one.\<close>

lemma clean_before_bracket:
  assumes "\<And>t j. t \<in> tags m \<Longrightarrow> j < l \<Longrightarrow> \<not> prefix t (drop j b)" and "l < length b" and "b ! l = CHR ''<''"
  shows "clean m b l"
  unfolding clean_def
proof (intro conjI allI impI ballI notI)
  show "l \<le> length b" using assms(2) by simp
  fix r j t assume j: "j < l" and t: "t \<in> tags m" and p: "prefix t (drop j b @ r)"
  have "drop j b @ r = drop j (b @ r)" using j assms(2) by simp
  then have "j + length t \<le> l"
    using tag_ends_before [OF tags_tag_like [OF t], of j "b @ r" l] p j assms(2,3) by (simp add: nth_append)
  then have "prefix t (drop j b)" using prefix_within [OF p] assms(2) by simp
  then show False using assms(1) [OF t j] by simp
qed

lemma clean_after_last:
  assumes none: "\<And>t j. t \<in> tags m \<Longrightarrow> \<not> prefix t (drop j b)"
    and last: "py_rfind CHR ''<'' b = Some l"
    and notag: "\<And>t. t \<in> tags m \<Longrightarrow> length (drop l b) < length t \<Longrightarrow> \<not> prefix (drop l b) t"
  shows "clean m b (length b)"
  unfolding clean_def
proof (intro conjI allI impI ballI notI)
  fix r j t assume j: "j < length b" and t: "t \<in> tags m" and p: "prefix t (drop j b @ r)"
  note l = py_rfind_Some [OF last]
  obtain u where u: "t = CHR ''<'' # u" using tags_tag_like [OF t] by (auto simp: tag_like_def)
  consider "j < l" | "j = l" | "l < j" by linarith
  then show False
  proof cases
    case 1
    have "clean m b l" by (rule clean_before_bracket) (use none l in auto)
    then show False using 1 t p by (auto simp: clean_def)
  next
    case 2
    show False
    proof (cases "length t \<le> length (drop j b)")
      case True
      then show False using prefix_within [OF p] none [OF t] by blast
    next
      case False
      moreover have "prefix (drop l b) (drop l b @ r)" by simp
      then have "prefix t (drop l b) \<or> prefix (drop l b) t" using prefix_same_cases p 2 by blast
      ultimately have "prefix (drop l b) t" using prefix_length_le [of t "drop l b"] 2 by auto
      then show False using notag [OF t] False 2 by simp
    qed
  next
    case 3
    have "b ! j = CHR ''<''" using p j u by (cases "drop j b") (auto simp: nth_via_drop)
    moreover have "b ! j \<in> set (drop (Suc l) b)" using 3 j by (auto simp: in_set_conv_nth intro!: exI [of _ "j - Suc l"])
    ultimately show False using l by simp
  qed
qed simp

lemma clean_no_bracket:
  assumes "py_rfind CHR ''<'' b = None"
  shows "clean m b (length b)"
  unfolding clean_def
proof (intro conjI allI impI ballI notI)
  fix r j t assume j: "j < length b" and t: "t \<in> tags m" and p: "prefix t (drop j b @ r)"
  have "b ! j = CHR ''<''" using p j tags_tag_like [OF t]
    by (cases "drop j b") (auto simp: tag_like_def nth_via_drop)
  then show False using assms j by (metis nth_mem py_rfind_None)
qed simp


subsection \<open>One step of the parser\<close>

text \<open>A buffer that may still become a tag: nothing in it can be decided yet.\<close>

definition undecided :: "bool \<Rightarrow> string \<Rightarrow> bool" where
  "undecided m b \<longleftrightarrow> (\<exists>t \<in> tags m. length b < length t \<and> prefix b t)"

text \<open>
  A step emits a clean part of the buffer.  What is left is the rest after a tag, or nothing, or
  an undecided piece.
\<close>

definition step_ok :: "think_parser \<Rightarrow> content_chunk option \<times> think_parser \<Rightarrow> bool" where
  "step_ok p cp \<longleftrightarrow> (\<exists>k. let m = tp_in_think p; b = tp_buffer p; p' = snd cp in
     clean m b k \<and> fst cp = some_chunk (if m then THINKING else TEXT) (take k b) \<and>
     ((\<exists>r. drop k b = CLOSE_TAG @ r \<and> p' = \<lparr>tp_buffer = r, tp_in_think = False\<rparr>) \<or>
      (\<exists>r. \<not> m \<and> drop k b = OPEN_TAG @ r \<and> p' = \<lparr>tp_buffer = r, tp_in_think = True\<rparr>) \<or>
      p' = p\<lparr>tp_buffer := drop k b\<rparr> \<and> (k = length b \<or> undecided m (drop k b))))"

lemma step_ok_tail:
  assumes none: "\<And>t. t \<in> tags m \<Longrightarrow> py_find t b = None" and m: "m = tp_in_think p" and b: "b = tp_buffer p"
    and res: "cp = (case py_rfind CHR ''<'' b of
       Some l \<Rightarrow> if \<exists>t \<in> tags m. length (drop l b) < length t \<and> prefix (drop l b) t
         then (some_chunk (if m then THINKING else TEXT) (take l b), p\<lparr>tp_buffer := drop l b\<rparr>)
         else (some_chunk (if m then THINKING else TEXT) b, p\<lparr>tp_buffer := []\<rparr>)
     | None \<Rightarrow> (some_chunk (if m then THINKING else TEXT) b, p\<lparr>tp_buffer := []\<rparr>))"
  shows "step_ok p cp"
proof -
  have no: "\<not> prefix t (drop j b)" if "t \<in> tags m" for t j
    using find_None [OF none [OF that]] tags_tag_like [OF that] by (auto simp: tag_like_def)
  have all: "step_ok p cp" if "clean m b (length b)"
    "cp = (some_chunk (if m then THINKING else TEXT) b, p\<lparr>tp_buffer := []\<rparr>)"
    using that unfolding step_ok_def Let_def by (intro exI [of _ "length b"]) (simp add: m b)
  show ?thesis
  proof (cases "py_rfind CHR ''<'' b")
    case None
    then show ?thesis using all clean_no_bracket res by simp
  next
    case (Some l)
    note l = py_rfind_Some [OF Some]
    show ?thesis
    proof (cases "\<exists>t \<in> tags m. length (drop l b) < length t \<and> prefix (drop l b) t")
      case True
      moreover have "clean m b l" by (rule clean_before_bracket) (use no l in auto)
      ultimately show ?thesis using res Some unfolding step_ok_def Let_def undecided_def
        by (intro exI [of _ l]) (simp add: m b)
    next
      case False
      have "clean m b (length b)" by (rule clean_after_last [OF no Some]) (use False in \<open>auto simp: not_less\<close>)
      moreover have "cp = (some_chunk (if m then THINKING else TEXT) b, p\<lparr>tp_buffer := []\<rparr>)"
        unfolding res using Some False by (simp only: option.case if_False)
      ultimately show ?thesis by (rule all)
    qed
  qed
qed

lemma step_ok_tag:
  assumes t: "t \<in> tags m" and i: "py_find t b = Some i" and first: "\<And>u j. u \<in> tags m \<Longrightarrow> j < i \<Longrightarrow> \<not> prefix u (drop j b)"
    and m: "m = tp_in_think p" and b: "b = tp_buffer p"
    and res: "cp = (some_chunk (if m then THINKING else TEXT) (take i b),
      p\<lparr>tp_buffer := drop (i + length t) b, tp_in_think := (t = OPEN_TAG)\<rparr>)"
  shows "step_ok p cp"
proof -
  have pre: "prefix t (drop i b)" using find_Some [OF i] tags_tag_like [OF t] by (auto simp: tag_like_def)
  then obtain r where r: "drop i b = t @ r" by (auto simp: prefix_def)
  have r': "drop (i + length t) b = r" using r by (metis add.commute append_eq_conv_conj drop_drop)
  obtain u where u: "t = CHR ''<'' # u" using tags_tag_like [OF t] by (auto simp: tag_like_def)
  have ib: "i < length b" using r u by (cases "i < length b") simp_all
  moreover have "b ! i = CHR ''<''" using r u nth_via_drop by fastforce
  ultimately have "clean m b i" by (intro clean_before_bracket first) auto
  moreover have "t = CLOSE_TAG \<or> \<not> m \<and> t = OPEN_TAG" using t by (auto simp: tags_def split: if_splits)
  ultimately show ?thesis unfolding step_ok_def Let_def
    using res r r' by (intro exI [of _ i], cases p) (auto simp: m b OPEN_TAG_def CLOSE_TAG_def)
qed


lemma parse_step_ok:
  assumes "tp_buffer p \<noteq> []"
  shows "step_ok p (parse_step p)"
proof (cases "tp_in_think p")
  case True
  have tags: "tags True = {CLOSE_TAG}" by (simp add: tags_def)
  show ?thesis
  proof (cases "py_find CLOSE_TAG (tp_buffer p)")
    case None
    then show ?thesis using True
      by (intro step_ok_tail [OF _ refl refl])
        (auto simp: tags parse_step_def parse_inside_think_def Let_def split: option.splits)
  next
    case (Some i)
    then show ?thesis
      using True find_Some [OF Some]
      by (intro step_ok_tag [OF _ Some _ refl refl])
        (auto simp: tags parse_step_def parse_inside_think_def Let_def OPEN_TAG_def CLOSE_TAG_def)
  qed
next
  case False
  have tags: "tags False = {OPEN_TAG, CLOSE_TAG}" by (simp add: tags_def)
  have ne: "OPEN_TAG \<noteq> []" "CLOSE_TAG \<noteq> []" "OPEN_TAG \<noteq> CLOSE_TAG" by (simp_all add: OPEN_TAG_def CLOSE_TAG_def)
  let ?o = "py_find OPEN_TAG (tp_buffer p)" and ?c = "py_find CLOSE_TAG (tp_buffer p)"
  consider "?o = None" "?c = None" | i where "?c = Some i" "\<forall>j. ?o = Some j \<longrightarrow> i < j"
    | i where "?o = Some i" "\<forall>j. ?c = Some j \<longrightarrow> i \<le> j" by (cases ?o; cases ?c; force)
  then show ?thesis
  proof cases
    case 1
    then show ?thesis using False
      by (intro step_ok_tail [OF _ refl refl])
        (auto simp: tags parse_step_def parse_outside_think_def Let_def split: option.splits)
  next
    case 2
    have "\<not> prefix OPEN_TAG (drop j (tp_buffer p))" if "j < i" for j
      using find_None [of OPEN_TAG "tp_buffer p" j] find_Some [of OPEN_TAG "tp_buffer p"] ne 2(2) that
      by (cases ?o) auto
    then show ?thesis
      using False 2 find_Some [OF 2(1) ne(2)] ne
      by (intro step_ok_tag [OF _ 2(1) _ refl refl])
        (auto simp: tags parse_step_def parse_outside_think_def Let_def split: option.splits)
  next
    case 3
    have "\<not> prefix CLOSE_TAG (drop j (tp_buffer p))" if "j < i" for j
      using find_None [of CLOSE_TAG "tp_buffer p" j] find_Some [of CLOSE_TAG "tp_buffer p"] ne 3(2) that
      by (cases ?c) auto
    then show ?thesis
      using False 3 find_Some [OF 3(1) ne(1)] ne
      by (intro step_ok_tag [OF _ 3(1) _ refl refl])
        (auto simp: tags parse_step_def parse_outside_think_def Let_def split: option.splits)
  qed
qed

subsection \<open>The whole stream\<close>

fun chunk_chars :: "content_chunk \<Rightarrow> (content_type \<times> char) list" where
  "chunk_chars (ContentChunk ty s) = map (Pair ty) s"

definition chars :: "content_chunk list \<Rightarrow> (content_type \<times> char) list" where
  "chars cs = concat (map chunk_chars cs)"

lemma chars_simps [simp]:
  "chars [] = []" "chars (c # cs) = chunk_chars c @ chars cs" "chars (cs @ ds) = chars cs @ chars ds"
  by (simp_all add: chars_def)

definition opt_chars :: "content_chunk option \<Rightarrow> (content_type \<times> char) list" where
  "opt_chars c = (case c of None \<Rightarrow> [] | Some x \<Rightarrow> chunk_chars x)"

lemma opt_chars_some_chunk [simp]: "opt_chars (some_chunk ty s) = map (Pair ty) s"
  by (simp add: opt_chars_def some_chunk_def)

text \<open>A step says what the lexer says of the part it consumes, whatever follows.\<close>

lemma step_lex:
  assumes "step_ok p cp"
  shows "think_lex (tp_in_think p) (tp_buffer p @ r) =
    opt_chars (fst cp) @ think_lex (tp_in_think (snd cp)) (tp_buffer (snd cp) @ r)"
  using assms think_lex_clean [of "tp_in_think p" "tp_buffer p" _ r]
  unfolding step_ok_def Let_def by (auto simp: think_lex_close think_lex_open)

lemma step_stuck:
  assumes "step_ok p cp" and "fst cp = None" and "length (tp_buffer (snd cp)) = length (tp_buffer p)"
    and "tp_buffer p \<noteq> []"
  shows "undecided (tp_in_think (snd cp)) (tp_buffer (snd cp))"
proof -
  obtain k where k: "clean (tp_in_think p) (tp_buffer p) k" "take k (tp_buffer p) = []"
    "(\<exists>r. drop k (tp_buffer p) = CLOSE_TAG @ r \<and> snd cp = \<lparr>tp_buffer = r, tp_in_think = False\<rparr>) \<or>
      (\<exists>r. drop k (tp_buffer p) = OPEN_TAG @ r \<and> snd cp = \<lparr>tp_buffer = r, tp_in_think = True\<rparr>) \<or>
      snd cp = p\<lparr>tp_buffer := drop k (tp_buffer p)\<rparr> \<and>
        (k = length (tp_buffer p) \<or> undecided (tp_in_think p) (drop k (tp_buffer p)))"
    using assms(1,2) unfolding step_ok_def Let_def by (auto simp: some_chunk_def split: if_splits)
  then have k0: "k = 0" using assms(4) by simp
  then show ?thesis using k(3) assms(3,4) by (auto simp: OPEN_TAG_def CLOSE_TAG_def)
qed


lemma undecided_lex:
  assumes "undecided m b"
  shows "think_lex m b = map (Pair (if m then THINKING else TEXT)) b"
proof -
  have "b = [] \<or> think_lex m b = map (Pair (if m then THINKING else TEXT)) b"
    if "length b < length OPEN_TAG" "prefix b OPEN_TAG"
    using that by (auto simp: OPEN_TAG_def CLOSE_TAG_def prefix_Cons)
  moreover have "b = [] \<or> think_lex m b = map (Pair (if m then THINKING else TEXT)) b"
    if "length b < length CLOSE_TAG" "prefix b CLOSE_TAG"
    using that by (auto simp: OPEN_TAG_def CLOSE_TAG_def prefix_Cons)
  ultimately show ?thesis using assms by (auto simp: undecided_def tags_def split: if_splits)
qed

lemma think_loop_lex:
  "(\<forall>r. think_lex (tp_in_think p) (tp_buffer p @ r) = chars (fst (think_loop p)) @
      think_lex (tp_in_think (snd (think_loop p))) (tp_buffer (snd (think_loop p)) @ r)) \<and>
   (tp_buffer (snd (think_loop p)) = [] \<or>
    undecided (tp_in_think (snd (think_loop p))) (tp_buffer (snd (think_loop p))))"
proof (induction p rule: think_loop.induct)
  case (1 p)
  show ?case
  proof (cases "tp_buffer p = []")
    case True
    then show ?thesis by (simp add: think_loop.simps)
  next
    case ne: False
    note ok = parse_step_ok [OF ne]
    show ?thesis
    proof (cases "fst (parse_step p)")
      case None
      show ?thesis
      proof (cases "length (tp_buffer (snd (parse_step p))) = length (tp_buffer p)")
        case True
        then show ?thesis using step_lex [OF ok] step_stuck [OF ok None True ne] None ne
          by (simp add: think_loop.simps [of p] opt_chars_def)
      next
        case False
        then show ?thesis using "1.IH"(1) [OF ne None False] step_lex [OF ok] None ne
          by (simp add: think_loop.simps [of p] opt_chars_def)
      qed
    next
      case (Some c)
      then show ?thesis using "1.IH"(2) [OF ne Some] step_lex [OF ok] ne
        by (simp add: think_loop.simps [of p] opt_chars_def case_prod_beta)
    qed
  qed
qed

lemma think_feed_lex:
  assumes "think_feed s p = (cs, p')"
  shows "think_lex (tp_in_think p) (tp_buffer p @ s @ r) = chars cs @ think_lex (tp_in_think p') (tp_buffer p' @ r)"
    and "tp_buffer p' = [] \<or> undecided (tp_in_think p') (tp_buffer p')"
  using think_loop_lex [of "p\<lparr>tp_buffer := tp_buffer p @ s\<rparr>"] assms by (auto simp: think_feed_def)

lemma think_stream_lex:
  "tp_buffer p = [] \<or> undecided (tp_in_think p) (tp_buffer p) \<Longrightarrow>
     chars (think_stream ss p) = think_lex (tp_in_think p) (tp_buffer p @ concat ss)"
proof (induction ss arbitrary: p)
  case Nil
  then show ?case using undecided_lex [of "tp_in_think p" "tp_buffer p"]
    by (auto simp: think_flush_def)
next
  case (Cons s ss)
  obtain cs p' where f: "think_feed s p = (cs, p')" by (cases "think_feed s p")
  show ?case using think_feed_lex(1) [OF f, of "concat ss"] Cons.IH [OF think_feed_lex(2) [OF f]] f by simp
qed

text \<open>C5. The chunks reported for a stream do not depend on how it is cut into pieces: the labelled
  characters, over all pieces and the final flush, are those of the one-pass lexer on the whole
  text, which strips the tags, labels what is between them as thinking, and drops a stray
  closing tag.\<close>

theorem think_stream_chunking:
  "chars (think_stream ss tp_init) = think_lex False (concat ss)"
  using think_stream_lex [of tp_init ss] by (simp add: tp_init_def)

text \<open>A feed withholds at most seven characters, and only while they may still become a tag:
  what it leaves in the buffer is empty or a proper prefix of a tag.\<close>

theorem think_feed_latency:
  "length (tp_buffer (snd (think_feed s p))) < length CLOSE_TAG \<and>
   (prefix (tp_buffer (snd (think_feed s p))) OPEN_TAG \<or> prefix (tp_buffer (snd (think_feed s p))) CLOSE_TAG)"
  using think_feed_lex(2) [of s p "fst (think_feed s p)" "snd (think_feed s p)"]
  by (auto simp: undecided_def tags_def OPEN_TAG_def CLOSE_TAG_def split: if_splits)

end
