(* ===== verification/OpenAiStream.thy ===== *)
theory OpenAiStream
  imports SseSound ThinkTag
begin

section \<open>The OpenAI-compatible stream (\<open>providers/openai_compat.py\<close>)\<close>

text \<open>
  \<open>_stream_response_impl\<close>: from the upstream's chat-completion chunks to the Anthropic events of
  the answer.  A generator's result is the list of events it yields, the exception it ends with,
  if any, and the new state.

  What is not the transport's own is in the environment: the heuristic tool parser (a state with
  \<open>feed\<close> and \<open>flush\<close>), \<open>json.loads\<close> and \<open>json.dumps\<close>, \<open>uuid4\<close>, the tokenizer, the provider's
  argument aliases, and the user-visible message of an exception.  The provider hook
  \<open>_handle_extra_reasoning\<close> is the base class's, which yields nothing.  The upstream is a list of
  chunks and the exception it ends with, if any; a client that disconnects (\<open>CancelledError\<close>,
  \<open>GeneratorExit\<close>) is not modelled.
\<close>

record tool_delta =
  td_index :: int
  td_id :: "string option"
  td_function :: "(string option \<times> string option) option"  \<comment> \<open>name and arguments\<close>

record chunk_delta =
  dl_reasoning :: "string option"
  dl_content :: "string option"
  dl_tool_calls :: "tool_delta list"

record chunk =
  ck_usage :: "json option"  \<comment> \<open>\<open>usage.completion_tokens\<close>\<close>
  ck_choice :: "(string option \<times> chunk_delta option) option"

record tool_use =
  tu_id :: string
  tu_name :: string
  tu_input :: json

datatype stream_error = Upstream string | Internal py_error

record 'h stream_env =
  se_thinking_enabled :: bool
  se_aliases :: "(string, (string, string) pydict) pydict"
  se_loads :: "string \<Rightarrow> json option"
  se_dumps :: "json \<Rightarrow> string"
  se_fresh :: "int \<Rightarrow> string"
  se_feed :: "string \<Rightarrow> 'h \<Rightarrow> (string \<times> tool_use list) \<times> 'h"
  se_flush :: "'h \<Rightarrow> tool_use list"
  se_encoder :: "(string \<Rightarrow> nat option) option"
  se_message :: "stream_error \<Rightarrow> string"

record 'h stream_state =
  ss_sse :: sse_builder
  ss_think :: think_parser
  ss_heur :: 'h
  ss_finish :: "string option"
  ss_usage :: "json option"
  ss_alias_buffers :: "(int, string) pydict"

type_synonym 'h emission = "sse_event list \<times> py_error option \<times> 'h stream_state"

text \<open>Running on, unless an exception is under way.\<close>

definition and_then :: "'h emission \<Rightarrow> ('h stream_state \<Rightarrow> 'h emission) \<Rightarrow> 'h emission" where
  "and_then r f =
     (case r of
        (es, Some e, s) \<Rightarrow> (es, Some e, s)
      | (es, None, s) \<Rightarrow> (case f s of (es', err, s') \<Rightarrow> (es @ es', err, s')))"

text \<open>A method of the builder, on the stream's state.\<close>

definition yields :: "(sse_builder \<Rightarrow> sse_event list \<times> sse_builder) \<Rightarrow> 'h stream_state \<Rightarrow> 'h emission" where
  "yields f s = (let (es, b) = f (ss_sse s) in (es, None, s\<lparr>ss_sse := b\<rparr>))"

definition yield1 :: "(sse_builder \<Rightarrow> sse_event \<times> sse_builder) \<Rightarrow> 'h stream_state \<Rightarrow> 'h emission" where
  "yield1 f s = (let (e, b) = f (ss_sse s) in ([e], None, s\<lparr>ss_sse := b\<rparr>))"

definition set_blocks :: "(content_block_manager \<Rightarrow> content_block_manager) \<Rightarrow> 'h stream_state \<Rightarrow> 'h stream_state" where
  "set_blocks f s = s\<lparr>ss_sse := upd_blocks f (ss_sse s)\<rparr>"

definition tool_of :: "int \<Rightarrow> 'h stream_state \<Rightarrow> tool_call_state option" where
  "tool_of i s = cb_tool i (sb_blocks (ss_sse s))"

text \<open>\<open>for x in xs: body(x)\<close>\<close>

fun for_each :: "('a \<Rightarrow> 'h stream_state \<Rightarrow> 'h emission) \<Rightarrow> 'a list \<Rightarrow> 'h stream_state \<Rightarrow> 'h emission" where
  "for_each body [] s = ([], None, s)"
| "for_each body (x # xs) s = and_then (body x s) (for_each body xs)"

subsection \<open>Heuristic tool calls\<close>

text \<open>The input as sent: a Task subagent is forced to the foreground.\<close>

definition task_foreground :: "tool_use \<Rightarrow> json" where
  "task_foreground u =
     (if tu_name u = ''Task'' then
        (case normalize_task (tu_input u) of Inl _ \<Rightarrow> tu_input u | Inr j \<Rightarrow> j)
      else tu_input u)"

definition heuristic_block :: "'h stream_env \<Rightarrow> tool_use \<Rightarrow> sse_builder \<Rightarrow> sse_event list \<times> sse_builder" where
  "heuristic_block env u b =
     (let (i, m) = cb_allocate_index (sb_blocks b)
      in ([content_block_start i ''tool_use'' [(''id'', JStr (tu_id u)), (''name'', JStr (tu_name u))],
           content_block_delta i ''input_json_delta'' (se_dumps env (task_foreground u)),
           content_block_stop i],
          b\<lparr>sb_blocks := m\<rparr>))"

definition iter_heuristic_tool_use_sse :: "'h stream_env \<Rightarrow> tool_use \<Rightarrow> 'h stream_state \<Rightarrow> 'h emission" where
  "iter_heuristic_tool_use_sse env u s =
     and_then (yields close_content_blocks s) (yields (heuristic_block env u))"

subsection \<open>Arguments of native tool calls\<close>

text \<open>A dict comprehension: the last value of a repeated key, at its first place.\<close>

definition dict_of :: "('k \<times> 'v) list \<Rightarrow> ('k, 'v) pydict" where
  "dict_of kvs = fold (\<lambda>(k, v). dict_set k v) kvs []"

definition alias_key :: "(string, string) pydict \<Rightarrow> string \<Rightarrow> string" where
  "alias_key al k = (case dict_get k al of None \<Rightarrow> k | Some k' \<Rightarrow> k')"

fun restore_value :: "(string, string) pydict \<Rightarrow> json \<Rightarrow> json" where
  "restore_value al (JObj d) = JObj (dict_of (map (\<lambda>(k, v). (alias_key al k, restore_value al v)) d))"
| "restore_value al (JList vs) = JList (map (restore_value al) vs)"
| "restore_value al v = v"

definition restore_aliased :: "'h stream_env \<Rightarrow> string \<Rightarrow> (string, string) pydict \<Rightarrow> string option" where
  "restore_aliased env args al =
     (case se_loads env args of
        None \<Rightarrow> None
      | Some (JObj d) \<Rightarrow> Some (se_dumps env (restore_value al (JObj d)))
      | Some _ \<Rightarrow> Some args)"

definition tool_delta_out :: "int \<Rightarrow> string \<Rightarrow> 'h stream_state \<Rightarrow> 'h emission" where
  "tool_delta_out i txt s =
     (case emit_tool_delta i txt (ss_sse s) of
        Inl e \<Rightarrow> ([], Some e, s)
      | Inr (ev, b) \<Rightarrow> ([ev], None, s\<lparr>ss_sse := b\<rparr>))"

definition aliases_of :: "'h stream_env \<Rightarrow> string \<Rightarrow> (string, string) pydict" where
  "aliases_of env name = (case dict_get name (se_aliases env) of None \<Rightarrow> [] | Some al \<Rightarrow> al)"

definition emit_tool_arg_delta :: "'h stream_env \<Rightarrow> int \<Rightarrow> string \<Rightarrow> 'h stream_state \<Rightarrow> 'h emission" where
  "emit_tool_arg_delta env i args s =
     (if args = [] then ([], None, s)
      else case tool_of i s of
        None \<Rightarrow> ([], None, s)
      | Some st \<Rightarrow>
          if tc_name st = ''Task'' then
            (case cb_buffer_task_args (se_loads env) i args (sb_blocks (ss_sse s)) of
               (Inl e, b) \<Rightarrow> ([], Some e, set_blocks (\<lambda>_. b) s)
             | (Inr None, b) \<Rightarrow> ([], None, set_blocks (\<lambda>_. b) s)
             | (Inr (Some j), b) \<Rightarrow> tool_delta_out i (se_dumps env j) (set_blocks (\<lambda>_. b) s))
          else
            let al = aliases_of env (tc_name st) in
            if al \<noteq> [] then
              (let buffered = (case dict_get i (ss_alias_buffers s) of None \<Rightarrow> [] | Some x \<Rightarrow> x) @ args in
               case restore_aliased env buffered al of
                 None \<Rightarrow> ([], None, s\<lparr>ss_alias_buffers := dict_set i buffered (ss_alias_buffers s)\<rparr>)
               | Some restored \<Rightarrow>
                   tool_delta_out i restored (s\<lparr>ss_alias_buffers := dict_del i (ss_alias_buffers s)\<rparr>))
            else tool_delta_out i args s)"


definition blank :: "string \<Rightarrow> bool" where
  "blank name = (py_strip name = [])"

text \<open>\<open>_process_tool_call\<close>, in its three stretches: record id and name, start the block, send or
  keep the arguments.\<close>

definition record_tool :: "int \<Rightarrow> tool_delta \<Rightarrow> string option \<Rightarrow> 'h stream_state \<Rightarrow> 'h stream_state" where
  "record_tool i tc name s =
     (let s = (case td_id tc of None \<Rightarrow> s | Some t \<Rightarrow> set_blocks (cb_set_stream_tool_id i t) s)
      in case name of None \<Rightarrow> s | Some n \<Rightarrow> set_blocks (cb_register_tool_name i n) s)"

definition start_tool :: "'h stream_env \<Rightarrow> int \<Rightarrow> string option \<Rightarrow> string \<Rightarrow> 'h stream_state \<Rightarrow> 'h emission" where
  "start_tool env i resolved_id name s =
     and_then
       (yield1 (start_tool_block i (if truthy_str resolved_id then the resolved_id
                                    else ''tool_'' @ se_fresh env (cb_next_index (sb_blocks (ss_sse s))))
                  (if blank name then ''tool_call'' else py_strip name)) s)
       (\<lambda>s. case tool_of i s of
          None \<Rightarrow> ([], Some KeyError, s)
        | Some st \<Rightarrow>
            if tc_pre_start_args st \<noteq> []
            then emit_tool_arg_delta env i (tc_pre_start_args st)
                   (set_blocks (cb_set_tool i (st\<lparr>tc_pre_start_args := []\<rparr>)) s)
            else ([], None, s))"

definition send_args :: "'h stream_env \<Rightarrow> int \<Rightarrow> string \<Rightarrow> string \<Rightarrow> 'h stream_state \<Rightarrow> 'h emission" where
  "send_args env i name args s =
     (if args = [] then ([], None, s)
      else
        let started = (case tool_of i s of None \<Rightarrow> False | Some st \<Rightarrow> tc_started st) in
        if \<not> started \<and> blank name then
          (let (st, b) = cb_ensure_tool_state i (sb_blocks (ss_sse s))
           in ([], None, set_blocks (\<lambda>_. cb_set_tool i
                 (st\<lparr>tc_pre_start_args := tc_pre_start_args st @ args\<rparr>) b) s))
        else emit_tool_arg_delta env i args
               (if started then s else set_blocks (\<lambda>b. snd (cb_ensure_tool_state i b)) s))"

definition process_tool_call :: "'h stream_env \<Rightarrow> tool_delta \<Rightarrow> 'h stream_state \<Rightarrow> 'h emission" where
  "process_tool_call env tc s =
     (case td_function tc of
        None \<Rightarrow> ([], Some AttributeError, s)
      | Some (name, arguments) \<Rightarrow>
          let i = (if td_index tc < 0 then int (length (cb_tool_states (sb_blocks (ss_sse s)))) else td_index tc);
              args = (case arguments of None \<Rightarrow> [] | Some a \<Rightarrow> a);
              s = record_tool i tc name s;
              st = tool_of i s;
              resolved_id = (case st of Some x \<Rightarrow> if tc_tool_id x \<noteq> [] then Some (tc_tool_id x) else td_id tc
                                      | None \<Rightarrow> td_id tc);
              resolved_name = (case st of None \<Rightarrow> [] | Some x \<Rightarrow> tc_name x);
              started = (case st of None \<Rightarrow> False | Some x \<Rightarrow> tc_started x)
          in and_then
               (if \<not> started \<and> \<not> blank resolved_name then start_tool env i resolved_id resolved_name s
                else ([], None, s))
               (send_args env i resolved_name args))"

subsection \<open>Chunks\<close>

definition emit_text :: "string \<Rightarrow> 'h stream_state \<Rightarrow> 'h emission" where
  "emit_text txt s = and_then (yields ensure_text_block s) (yield1 (emit_text_delta txt))"

definition emit_thinking :: "string \<Rightarrow> 'h stream_state \<Rightarrow> 'h emission" where
  "emit_thinking txt s = and_then (yields ensure_thinking_block s) (yield1 (emit_thinking_delta txt))"

definition handle_part :: "'h stream_env \<Rightarrow> content_chunk \<Rightarrow> 'h stream_state \<Rightarrow> 'h emission" where
  "handle_part env p s =
     (case p of
        ContentChunk THINKING txt \<Rightarrow> if se_thinking_enabled env then emit_thinking txt s else ([], None, s)
      | ContentChunk TEXT txt \<Rightarrow>
          (let ((filtered, tools), h) = se_feed env txt (ss_heur s); s = s\<lparr>ss_heur := h\<rparr>
           in and_then (if filtered \<noteq> [] then emit_text filtered s else ([], None, s))
                (for_each (iter_heuristic_tool_use_sse env) tools)))"

definition handle_content :: "'h stream_env \<Rightarrow> string option \<Rightarrow> 'h stream_state \<Rightarrow> 'h emission" where
  "handle_content env content s =
     (if truthy_str content
      then let (parts, tp) = think_feed (the content) (ss_think s)
           in for_each (handle_part env) parts (s\<lparr>ss_think := tp\<rparr>)
      else ([], None, s))"

definition handle_tool_calls :: "'h stream_env \<Rightarrow> tool_delta list \<Rightarrow> 'h stream_state \<Rightarrow> 'h emission" where
  "handle_tool_calls env tcs s =
     (if tcs = [] then ([], None, s)
      else and_then (yields close_content_blocks s) (for_each (process_tool_call env) tcs))"

definition handle_chunk :: "'h stream_env \<Rightarrow> chunk \<Rightarrow> 'h stream_state \<Rightarrow> 'h emission" where
  "handle_chunk env ck s =
     (let s = (case ck_usage ck of None \<Rightarrow> s | Some u \<Rightarrow> s\<lparr>ss_usage := Some u\<rparr>) in
      case ck_choice ck of
        None \<Rightarrow> ([], None, s)
      | Some (_, None) \<Rightarrow> ([], None, s)
      | Some (finish, Some d) \<Rightarrow>
          let s = (if truthy_str finish then s\<lparr>ss_finish := finish\<rparr> else s) in
          and_then
            (if se_thinking_enabled env \<and> truthy_str (dl_reasoning d)
             then emit_thinking (the (dl_reasoning d)) s else ([], None, s)) (\<lambda>s.
          and_then (handle_content env (dl_content d) s)
            (handle_tool_calls env (dl_tool_calls d))))"

subsection \<open>The end of a stream\<close>

definition stream_failed :: "'h stream_env \<Rightarrow> stream_error \<Rightarrow> 'h stream_state \<Rightarrow> sse_event list" where
  "stream_failed env err s =
     (let (es, b) = close_all_blocks (ss_sse s);
          (es', b) = (if cb_has_emitted_tool_block (sb_blocks b)
                      then ([emit_top_level_error (se_message env err)], b)
                      else emit_error (se_message env err) b)
      in es @ es' @ [message_delta ''end_turn'' (JInt 1) b, message_stop])"

definition flush_think :: "'h stream_env \<Rightarrow> 'h stream_state \<Rightarrow> 'h emission" where
  "flush_think env s =
     (let (remaining, tp) = think_flush (ss_think s); s = s\<lparr>ss_think := tp\<rparr> in
      case remaining of
        None \<Rightarrow> ([], None, s)
      | Some (ContentChunk THINKING txt) \<Rightarrow> if se_thinking_enabled env then emit_thinking txt s else ([], None, s)
      | Some (ContentChunk TEXT txt) \<Rightarrow> emit_text txt s)"

definition has_started_tool :: "sse_builder \<Rightarrow> bool" where
  "has_started_tool b = (\<exists>st \<in> set (dict_values (cb_tool_states (sb_blocks b))). tc_started st)"

text \<open>A stream without any content, or with reasoning only, gets a blank text.\<close>

definition ensure_content :: "'h stream_state \<Rightarrow> 'h emission" where
  "ensure_content s =
     (let b = ss_sse s; m = sb_blocks b in
      if \<not> (cb_text_index m \<noteq> -1 \<or> cb_thinking_index m \<noteq> -1 \<or> has_started_tool b) then emit_text '' '' s
      else if \<not> has_started_tool b \<and> py_strip (accumulated_text b) = [] \<and> py_strip (accumulated_reasoning b) \<noteq> []
      then emit_text '' '' s
      else ([], None, s))"

definition flush_alias_buffer :: "'h stream_env \<Rightarrow> int \<times> string \<Rightarrow> 'h stream_state \<Rightarrow> 'h emission" where
  "flush_alias_buffer env = (\<lambda>(i, buffered) s.
     if buffered = [] then ([], None, s\<lparr>ss_alias_buffers := dict_del i (ss_alias_buffers s)\<rparr>)
     else case tool_of i s of
       None \<Rightarrow> ([], None, s)
     | Some st \<Rightarrow>
         if tc_name st = ''Task'' \<or> aliases_of env (tc_name st) = [] then ([], None, s)
         else and_then
           (tool_delta_out i (case restore_aliased env buffered (aliases_of env (tc_name st)) of
                                None \<Rightarrow> buffered | Some r \<Rightarrow> r) s)
           (\<lambda>s. ([], None, s\<lparr>ss_alias_buffers := dict_del i (ss_alias_buffers s)\<rparr>)))"

definition flush_task_args :: "'h stream_env \<Rightarrow> 'h stream_state \<Rightarrow> 'h emission" where
  "flush_task_args env s =
     (case cb_flush_task_arg_buffers (se_loads env) (se_dumps env) (sb_blocks (ss_sse s)) of
        Inl e \<Rightarrow> ([], Some e, s)
      | Inr (outs, b) \<Rightarrow> for_each (\<lambda>(i, out). tool_delta_out i out) outs (set_blocks (\<lambda>_. b) s))"

text \<open>The number of output tokens: the upstream's, or the estimate, which may raise.\<close>

definition output_tokens :: "'h stream_env \<Rightarrow> json option \<Rightarrow> sse_builder \<Rightarrow> json result" where
  "output_tokens env usage b =
     (case usage of
        Some (JInt n) \<Rightarrow> Inr (JInt n)
      | Some (JBool f) \<Rightarrow> Inr (JBool f)
      | _ \<Rightarrow> bind_result (estimate_output_tokens (se_encoder env) b) (\<lambda>n. Inr (JInt (int n))))"

definition stream_tail :: "'h stream_env \<Rightarrow> 'h stream_state \<Rightarrow> 'h emission" where
  "stream_tail env s =
     (let (es, b) = close_all_blocks (ss_sse s) in
      case output_tokens env (ss_usage s) b of
        Inl e \<Rightarrow> (es, Some e, s\<lparr>ss_sse := b\<rparr>)
      | Inr tokens \<Rightarrow> (es @ [message_delta (map_stop_reason (ss_finish s)) tokens b, message_stop], None, s\<lparr>ss_sse := b\<rparr>))"

definition stream_finished :: "'h stream_env \<Rightarrow> 'h stream_state \<Rightarrow> 'h emission" where
  "stream_finished env s =
     and_then (flush_think env s) (\<lambda>s.
     and_then (for_each (iter_heuristic_tool_use_sse env) (se_flush env (ss_heur s)) s) (\<lambda>s.
     and_then (ensure_content s) (\<lambda>s.
     and_then (for_each (flush_alias_buffer env) (ss_alias_buffers s) s) (\<lambda>s.
     and_then (flush_task_args env s) (stream_tail env)))))"

definition stream_init :: "string \<Rightarrow> string \<Rightarrow> json \<Rightarrow> 'h \<Rightarrow> 'h stream_state" where
  "stream_init mid model tokens h =
     \<lparr>ss_sse = sse_init mid model tokens, ss_think = tp_init, ss_heur = h, ss_finish = None,
      ss_usage = None, ss_alias_buffers = []\<rparr>"

text \<open>
  The whole response: the events, and the exception that escapes the generator, if any.  An
  exception of the upstream or of the handling of a chunk is turned into an error tail; one of the
  end of the stream, outside the \<open>try\<close>, escapes.
\<close>

definition stream_response ::
  "'h stream_env \<Rightarrow> chunk list \<Rightarrow> string option \<Rightarrow> 'h stream_state \<Rightarrow> sse_event list \<times> py_error option" where
  "stream_response env cks failure s0 =
     (let (es, err, s) = for_each (handle_chunk env) cks s0;
          start = message_start (ss_sse s0)
      in case err of
        Some e \<Rightarrow> (start # es @ stream_failed env (Internal e) s, None)
      | None \<Rightarrow>
          (case failure of
             Some m \<Rightarrow> (start # es @ stream_failed env (Upstream m) s, None)
           | None \<Rightarrow> (let (es', err', s') = stream_finished env s in (start # es @ es', err'))))"

end
