(* ===== verification/StreamSound.thy ===== *)
theory StreamSound
  imports OpenAiStream
begin

section \<open>Every answer keeps the stream contract\<close>

text \<open>
  The invariant of the transport between two events: builder and checker agree, a Task's
  buffered arguments are not yet a JSON value, and argument fragments held back for aliasing
  belong to started blocks.
\<close>

definition unparsed :: "'h stream_env \<Rightarrow> content_block_manager \<Rightarrow> bool" where
  "unparsed env b \<longleftrightarrow> (\<forall>k st. cb_tool k b = Some st \<and> tc_task_arg_buffer st \<noteq> [] \<and> \<not> tc_task_args_emitted st
     \<longrightarrow> se_loads env (tc_task_arg_buffer st) = None)"

definition is_started :: "'h stream_state \<Rightarrow> int \<Rightarrow> bool" where
  "is_started s k \<longleftrightarrow> (\<exists>st. tool_of k s = Some st \<and> tc_started st)"

definition stream_inv :: "'h stream_env \<Rightarrow> 'h stream_state \<Rightarrow> contract_state \<Rightarrow> bool" where
  "stream_inv env s c \<longleftrightarrow> blocks_ok (sb_blocks (ss_sse s)) c \<and> unparsed env (sb_blocks (ss_sse s)) \<and>
     (\<forall>k \<in> set (dict_keys (ss_alias_buffers s)). is_started s k)"

text \<open>
  An emission is fine: whatever checker state agrees with the builder before, the events pass
  and the invariant holds after; no started block is forgotten; and no exception is raised
  unless \<open>e\<close> allows it.
\<close>

definition fine :: "(json \<Rightarrow> string) \<Rightarrow> bool \<Rightarrow> bool \<Rightarrow> 'h stream_env \<Rightarrow> 'h stream_state \<Rightarrow> 'h emission \<Rightarrow> bool" where
  "fine repr a e env s r \<longleftrightarrow> (case r of (es, err, s') \<Rightarrow>
     (err = None \<longrightarrow> (\<forall>k. is_started s k \<longrightarrow> is_started s' k)) \<and>
     (\<forall>c. stream_inv env s c \<longrightarrow>
       (\<exists>c'. contract_events repr a es c = Inr c' \<and> blocks_ok (sb_blocks (ss_sse s')) c' \<and>
          (err = None \<longrightarrow> stream_inv env s' c') \<and> cs_seen c \<subseteq> cs_seen c') \<and>
       (\<not> e \<longrightarrow> err = None)))"

lemma fine_nil:
  assumes "sb_blocks (ss_sse s') = sb_blocks (ss_sse s)" and "ss_alias_buffers s' = ss_alias_buffers s"
  shows "fine repr a e env s ([], None, s')"
  using assms by (auto simp: fine_def stream_inv_def is_started_def tool_of_def)

lemma fine_started: "fine repr a e env s (es, None, s') \<Longrightarrow> is_started s k \<Longrightarrow> is_started s' k"
  by (simp add: fine_def)

lemma fine_then:
  assumes r: "fine repr a e env s r"
    and f: "\<And>es s'. r = (es, None, s') \<Longrightarrow> fine repr a e env s' (f s')"
  shows "fine repr a e env s (and_then r f)"
proof (cases r)
  case (fields es err s')
  show ?thesis
  proof (cases err)
    case (Some x)
    then show ?thesis using r fields by (simp add: and_then_def)
  next
    case None
    obtain es' err' s'' where fs: "f s' = (es', err', s'')" by (cases "f s'")
    have f': "fine repr a e env s' (es', err', s'')" using f [of es s'] fields None fs by simp
    have "(\<exists>c'. contract_events repr a (es @ es') c = Inr c' \<and> blocks_ok (sb_blocks (ss_sse s'')) c' \<and>
            (err' = None \<longrightarrow> stream_inv env s'' c') \<and> cs_seen c \<subseteq> cs_seen c') \<and> (\<not> e \<longrightarrow> err' = None)"
      if inv: "stream_inv env s c" for c
    proof -
      obtain c1 where c1: "contract_events repr a es c = Inr c1" "stream_inv env s' c1" "cs_seen c \<subseteq> cs_seen c1"
        using r fields None inv by (simp add: fine_def) blast
      obtain c2 where c2: "contract_events repr a es' c1 = Inr c2" "blocks_ok (sb_blocks (ss_sse s'')) c2"
        "err' = None \<longrightarrow> stream_inv env s'' c2" "cs_seen c1 \<subseteq> cs_seen c2" "\<not> e \<longrightarrow> err' = None"
        using f' c1(2) by (simp add: fine_def) blast
      have "contract_events repr a (es @ es') c = Inr c2" using c1(1) c2(1) by (simp add: contract_events_append)
      then show ?thesis using c1 c2 by blast
    qed
    moreover have "err' = None \<Longrightarrow> is_started s k \<Longrightarrow> is_started s'' k" for k
      using r f' fields None by (auto simp: fine_def)
    ultimately show ?thesis unfolding fine_def fields and_then_def None using fs by simp
  qed
qed

lemma fine_each:
  assumes "\<And>x s. x \<in> set xs \<Longrightarrow> P s \<Longrightarrow> fine repr a e env s (body x s)"
    and "\<And>x s es s'. x \<in> set xs \<Longrightarrow> P s \<Longrightarrow> body x s = (es, None, s') \<Longrightarrow> P s'" and "P s"
  shows "fine repr a e env s (for_each body xs s)"
  using assms
proof (induction xs arbitrary: s)
  case Nil
  then show ?case by (simp add: fine_nil)
next
  case (Cons x xs)
  have "fine repr a e env s (body x s)" by (rule Cons.prems(1)) (use Cons.prems(3) in simp_all)
  moreover have "fine repr a e env s' (for_each body xs s')" if b: "body x s = (es, None, s')" for es s'
  proof (rule Cons.IH)
    show "fine repr a e env t (body y t)" if "y \<in> set xs" "P t" for y t
      by (rule Cons.prems(1)) (use that in simp_all)
    show "P t'" if "y \<in> set xs" "P t" "body y t = (es', None, t')" for y t es' t'
      by (rule Cons.prems(2) [of y t es']) (use that in simp_all)
    show "P s'" by (rule Cons.prems(2) [OF _ Cons.prems(3) b]) simp
  qed
  ultimately show ?case by (simp add: fine_then)
qed

lemma fine_each':
  "(\<And>x s. x \<in> set xs \<Longrightarrow> fine repr a e env s (body x s)) \<Longrightarrow> fine repr a e env s (for_each body xs s)"
  by (rule fine_each [where P = "\<lambda>_. True"]) simp_all

text \<open>A method of the builder that leaves the tools alone.\<close>

lemma fine_builder:
  assumes "sound repr a (ss_sse s) (es, b)"
    and "cb_tool_states (sb_blocks b) = cb_tool_states (sb_blocks (ss_sse s))"
  shows "fine repr a e env s (es, None, s\<lparr>ss_sse := b\<rparr>)"
  using assms by (auto simp: fine_def stream_inv_def sound_def unparsed_def is_started_def tool_of_def cb_tool_def)

lemma fine_yields:
  assumes "sound repr a (ss_sse s) (f (ss_sse s))"
    and "cb_tool_states (sb_blocks (snd (f (ss_sse s)))) = cb_tool_states (sb_blocks (ss_sse s))"
  shows "fine repr a e env s (yields f s)"
  using fine_builder [of repr a s "fst (f (ss_sse s))" "snd (f (ss_sse s))"] assms
  by (simp add: yields_def case_prod_beta)

lemma fine_yield1:
  assumes "sound repr a (ss_sse s) ([fst (f (ss_sse s))], snd (f (ss_sse s)))"
    and "cb_tool_states (sb_blocks (snd (f (ss_sse s)))) = cb_tool_states (sb_blocks (ss_sse s))"
  shows "fine repr a e env s (yield1 f s)"
  using fine_builder [OF assms] by (simp add: yield1_def case_prod_beta)

lemma yields_result: "yields f s = (es, err, s') \<Longrightarrow> err = None \<and> ss_sse s' = snd (f (ss_sse s))"
  by (auto simp: yields_def case_prod_beta)

lemma fine_emit_text: "fine repr a e env s (emit_text txt s)"
  unfolding emit_text_def
proof (rule fine_then)
  show "fine repr a e env s (yields ensure_text_block s)" by (intro fine_yields sound_ensure_text) simp
  fix es s' assume "yields ensure_text_block s = (es, None, s')"
  then have "ss_sse s' = snd (ensure_text_block (ss_sse s))" using yields_result by blast
  then show "fine repr a e env s' (yield1 (emit_text_delta txt) s')"
    by (intro fine_yield1 sound_text_delta) simp_all
qed

lemma fine_emit_thinking: "fine repr a e env s (emit_thinking txt s)"
  unfolding emit_thinking_def
proof (rule fine_then)
  show "fine repr a e env s (yields ensure_thinking_block s)" by (intro fine_yields sound_ensure_thinking) simp
  fix es s' assume "yields ensure_thinking_block s = (es, None, s')"
  then have "ss_sse s' = snd (ensure_thinking_block (ss_sse s))" using yields_result by blast
  then show "fine repr a e env s' (yield1 (emit_thinking_delta txt) s')"
    by (intro fine_yield1 sound_thinking_delta) simp_all
qed

text \<open>A complete block at a fresh index.\<close>

lemma contract_whole_block:
  assumes "blocks_ok b c" and "kind \<in> {''text'', ''thinking'', ''tool_use''}" and "dict_get ''text'' kws = None"
    and "ty = delta_of kind"
  shows "contract_events repr a [content_block_start (cb_next_index b) kind kws,
      content_block_delta (cb_next_index b) ty txt, content_block_stop (cb_next_index b)] c =
    Inr \<lparr>cs_open = dict_del (cb_next_index b) (dict_set (cb_next_index b) kind (cs_open c)),
      cs_seen = insert (cb_next_index b) (cs_seen c)\<rparr>"
proof -
  let ?i = "cb_next_index b"
  let ?c = "\<lparr>cs_open = dict_set ?i kind (cs_open c), cs_seen = insert ?i (cs_seen c)\<rparr>"
  have "contract_event repr a (content_block_start ?i kind kws) c = Inr ?c"
    using contract_start_event [of ?i c kind kws] blocks_ok_fresh [OF assms(1)] assms(2,3) by simp
  moreover have "contract_event repr a (content_block_delta ?i ty txt) ?c = Inr ?c"
    using contract_delta_event [of ?i ?c kind] assms(2,4) by simp
  moreover have "contract_event repr a (content_block_stop ?i) ?c = Inr (?c\<lparr>cs_open := dict_del ?i (cs_open ?c)\<rparr>)"
    by (rule contract_stop_event) simp
  ultimately show ?thesis by simp
qed

lemma blocks_ok_whole_block:
  assumes ok: "blocks_ok b c"
  shows "blocks_ok (b\<lparr>cb_next_index := cb_next_index b + 1\<rparr>)
    \<lparr>cs_open = dict_del (cb_next_index b) (dict_set (cb_next_index b) kind (cs_open c)),
     cs_seen = insert (cb_next_index b) (cs_seen c)\<rparr>"
proof -
  have bo: "block_open (b\<lparr>cb_next_index := n\<rparr>) = block_open b" for n by (simp add: block_open_def fun_eq_iff)
  have "i \<noteq> cb_next_index b" if "block_open b i k" for i k using blocks_ok_fresh(3) [OF ok that] by simp
  then have "dict_get i (dict_del (cb_next_index b) (dict_set (cb_next_index b) kind (cs_open c))) = Some k
      \<longleftrightarrow> block_open b i k" for i k
    using blocks_ok_get [OF ok, of i k] by auto
  moreover have "i < cb_next_index b + 1" if "i \<in> insert (cb_next_index b) (cs_seen c)" for i
    using ok that by (fastforce simp: blocks_ok_def)
  ultimately show ?thesis using ok unfolding blocks_ok_def bo by auto
qed

lemma sound_heuristic_block: "sound repr a b (heuristic_block env u b)"
proof -
  have "contract_events repr a (fst (heuristic_block env u b)) c =
      Inr \<lparr>cs_open = dict_del (cb_next_index (sb_blocks b)) (dict_set (cb_next_index (sb_blocks b)) ''tool_use'' (cs_open c)),
        cs_seen = insert (cb_next_index (sb_blocks b)) (cs_seen c)\<rparr>" if "blocks_ok (sb_blocks b) c" for c
    using contract_whole_block [OF that, of "''tool_use''" _ "''input_json_delta''"]
    by (simp add: heuristic_block_def cb_allocate_index_def delta_of_def)
  moreover have "sb_blocks (snd (heuristic_block env u b)) = (sb_blocks b)\<lparr>cb_next_index := cb_next_index (sb_blocks b) + 1\<rparr>"
    by (simp add: heuristic_block_def cb_allocate_index_def)
  ultimately show ?thesis using blocks_ok_whole_block unfolding sound_def by auto
qed

lemma fine_heuristic: "fine repr a e env s (iter_heuristic_tool_use_sse env u s)"
  unfolding iter_heuristic_tool_use_sse_def
  by (intro fine_then fine_yields sound_close_content sound_heuristic_block)
    (simp_all add: heuristic_block_def cb_allocate_index_def)


subsection \<open>Native tool calls\<close>

text \<open>Changes of one tool's state that matter to nobody else.\<close>

lemma fine_set_tool:
  assumes inv: "\<And>c. stream_inv env s c \<Longrightarrow> blocks_ok (cb_set_tool k st (sb_blocks (ss_sse s))) c"
    and un: "tc_task_arg_buffer st \<noteq> [] \<and> \<not> tc_task_args_emitted st \<longrightarrow> se_loads env (tc_task_arg_buffer st) = None"
    and st: "is_started s k \<longrightarrow> tc_started st"
  shows "fine repr a e env s ([], None, set_blocks (cb_set_tool k st) s)"
proof -
  let ?s = "set_blocks (cb_set_tool k st) s"
  have s': "sb_blocks (ss_sse ?s) = cb_set_tool k st (sb_blocks (ss_sse s))" "ss_alias_buffers ?s = ss_alias_buffers s"
    by (simp_all add: set_blocks_def upd_blocks_def)
  have started: "is_started s j \<Longrightarrow> is_started ?s j" for j
    using st by (auto simp: is_started_def tool_of_def s'(1) split: if_splits)
  have "stream_inv env ?s c" if i: "stream_inv env s c" for c
  proof -
    have "unparsed env (cb_set_tool k st (sb_blocks (ss_sse s)))"
      using i un unfolding stream_inv_def unparsed_def by auto
    then show ?thesis using inv [OF i] started i s' by (simp add: stream_inv_def)
  qed
  then show ?thesis using started by (auto simp: fine_def stream_inv_def)
qed

lemma tool_of_set_blocks [simp]:
  "tool_of j (set_blocks (cb_set_tool k st) s) = (if j = k then Some st else tool_of j s)"
  by (simp add: tool_of_def set_blocks_def upd_blocks_def)

lemma inv_tool:
  assumes "stream_inv env s c" and "tool_of k s = Some st"
  shows "blocks_ok (sb_blocks (ss_sse s)) c"
    and "tc_task_arg_buffer st \<noteq> [] \<and> \<not> tc_task_args_emitted st \<longrightarrow> se_loads env (tc_task_arg_buffer st) = None"
    and "tc_task_arg_buffer st \<noteq> [] \<longrightarrow> tc_started st"
  using assms unfolding stream_inv_def unparsed_def blocks_ok_def buffers_started_def tool_of_def by auto

text \<open>
  A state update that keeps a tool's flags, index and buffer, or makes a new idle tool: what
  recording ids, names and early arguments does.
\<close>

definition light :: "'h stream_state \<Rightarrow> 'h stream_state \<Rightarrow> bool" where
  "light s s' \<longleftrightarrow> s' = s \<or> (\<exists>k st. s' = set_blocks (cb_set_tool k st) s \<and>
     (case tool_of k s of
        None \<Rightarrow> \<not> tc_started st \<and> tc_task_arg_buffer st = []
      | Some st0 \<Rightarrow> tc_started st = tc_started st0 \<and> tc_block_index st = tc_block_index st0 \<and>
          tc_task_arg_buffer st = tc_task_arg_buffer st0 \<and> tc_task_args_emitted st = tc_task_args_emitted st0))"

lemma fine_light:
  assumes "light s s'"
  shows "fine repr a e env s ([], None, s')"
proof (cases "s' = s")
  case True
  then show ?thesis by (simp add: fine_nil)
next
  case False
  then obtain k st where s': "s' = set_blocks (cb_set_tool k st) s"
    and st: "case tool_of k s of
        None \<Rightarrow> \<not> tc_started st \<and> tc_task_arg_buffer st = []
      | Some st0 \<Rightarrow> tc_started st = tc_started st0 \<and> tc_block_index st = tc_block_index st0 \<and>
          tc_task_arg_buffer st = tc_task_arg_buffer st0 \<and> tc_task_args_emitted st = tc_task_args_emitted st0"
    using assms by (auto simp: light_def)
  have mono: "is_started s j \<Longrightarrow> is_started s' j" for j
    using st by (cases "tool_of k s") (auto simp: s' is_started_def)
  have "\<exists>c'. contract_events repr a [] c = Inr c' \<and> blocks_ok (sb_blocks (ss_sse s')) c' \<and>
          stream_inv env s' c' \<and> cs_seen c \<subseteq> cs_seen c'" if i: "stream_inv env s c" for c
  proof -
    have "fine repr a e env s ([], None, set_blocks (cb_set_tool k st) s)"
    proof (cases "tool_of k s")
      case None
      then show ?thesis using st
        by (intro fine_set_tool) (auto simp: stream_inv_def tool_of_def is_started_def intro: blocks_ok_new_tool)
    next
      case (Some st0)
      note t = inv_tool [OF i Some]
      show ?thesis using st Some t(2,3)
        by (intro fine_set_tool) (auto simp: stream_inv_def tool_of_def is_started_def intro: blocks_ok_set_tool)
    qed
    then show ?thesis using i unfolding fine_def s' by auto
  qed
  then show ?thesis using mono by (auto simp: fine_def)
qed

lemma light_refl [simp]: "light s s"
  by (simp add: light_def)

lemma light_set:
  assumes "s' = set_blocks (cb_set_tool k st) s"
    and "tool_of k s = None \<Longrightarrow> \<not> tc_started st \<and> tc_task_arg_buffer st = []"
    and "\<And>st0. tool_of k s = Some st0 \<Longrightarrow> tc_started st = tc_started st0 \<and> tc_block_index st = tc_block_index st0 \<and>
      tc_task_arg_buffer st = tc_task_arg_buffer st0 \<and> tc_task_args_emitted st = tc_task_args_emitted st0"
  shows "light s s'"
proof -
  have "case tool_of k s of
        None \<Rightarrow> \<not> tc_started st \<and> tc_task_arg_buffer st = []
      | Some st0 \<Rightarrow> tc_started st = tc_started st0 \<and> tc_block_index st = tc_block_index st0 \<and>
          tc_task_arg_buffer st = tc_task_arg_buffer st0 \<and> tc_task_args_emitted st = tc_task_args_emitted st0"
    using assms(2,3) by (cases "tool_of k s") auto
  then show ?thesis unfolding light_def assms(1) by blast
qed

lemma cb_set_tool_twice [simp]: "cb_set_tool k st (cb_set_tool k st' b) = cb_set_tool k st b"
  by (simp add: cb_set_tool_def dict_set_def AList.update_last)

lemma light_set_id: "light s (set_blocks (cb_set_stream_tool_id i t) s)"
proof (cases "t = []")
  case True
  then show ?thesis by (simp add: light_def cb_set_stream_tool_id_def set_blocks_def upd_blocks_def)
next
  case False
  then have "set_blocks (cb_set_stream_tool_id i t) s = set_blocks (cb_set_tool i
      ((case tool_of i s of None \<Rightarrow> new_tool_state (-1) [] [] False | Some st \<Rightarrow> st)\<lparr>tc_tool_id := t\<rparr>)) s"
    by (simp add: set_blocks_def upd_blocks_def cb_set_stream_tool_id_def cb_ensure_tool_state_def
        tool_of_def Let_def split: option.splits)
  then show ?thesis by (rule light_set) (auto simp: new_tool_state_def)
qed

lemma light_register: "light s (set_blocks (cb_register_tool_name i n) s)"
proof (cases "tool_of i s")
  case None
  then have "set_blocks (cb_register_tool_name i n) s = set_blocks (cb_set_tool i (new_tool_state (-1) [] n False)) s"
    by (simp add: set_blocks_def upd_blocks_def cb_register_tool_name_def tool_of_def)
  then show ?thesis by (rule light_set) (auto simp: new_tool_state_def None)
next
  case (Some st)
  then have "set_blocks (cb_register_tool_name i n) s = s \<or>
      (\<exists>nm. set_blocks (cb_register_tool_name i n) s = set_blocks (cb_set_tool i (st\<lparr>tc_name := nm\<rparr>)) s)"
    by (auto simp: set_blocks_def upd_blocks_def cb_register_tool_name_def tool_of_def Let_def)
  then show ?thesis
  proof
    assume "\<exists>nm. set_blocks (cb_register_tool_name i n) s = set_blocks (cb_set_tool i (st\<lparr>tc_name := nm\<rparr>)) s"
    then obtain nm where "set_blocks (cb_register_tool_name i n) s = set_blocks (cb_set_tool i (st\<lparr>tc_name := nm\<rparr>)) s"
      by blast
    then show ?thesis by (rule light_set) (simp_all add: Some)
  qed simp
qed

lemma fine_record_tool: "fine repr a e env s ([], None, record_tool i tc name s)"
proof -
  define s1 where "s1 = (case td_id tc of None \<Rightarrow> s | Some t \<Rightarrow> set_blocks (cb_set_stream_tool_id i t) s)"
  define s2 where "s2 = (case name of None \<Rightarrow> s1 | Some n \<Rightarrow> set_blocks (cb_register_tool_name i n) s1)"
  have "light s s1" unfolding s1_def by (cases "td_id tc") (simp_all add: light_set_id)
  moreover have "light s1 s2" unfolding s2_def by (cases name) (simp_all add: light_register)
  ultimately have "fine repr a e env s (and_then ([], None, s1) (\<lambda>_. ([], None, s2)))"
    by (intro fine_then fine_light) auto
  moreover have "record_tool i tc name s = s2" unfolding record_tool_def s2_def s1_def Let_def by (rule refl)
  ultimately show ?thesis by (simp add: and_then_def)
qed

lemma fine_tool_delta:
  assumes "is_started s i"
  shows "fine repr a e env s (tool_delta_out i txt s)"
proof -
  obtain st where st: "cb_tool i (sb_blocks (ss_sse s)) = Some st" "tc_started st"
    using assms by (auto simp: is_started_def tool_of_def)
  let ?st = "st\<lparr>tc_contents := tc_contents st @ [txt]\<rparr>"
  obtain ev b where ev: "emit_tool_delta i txt (ss_sse s) = Inr (ev, b)"
    and b: "sb_blocks b = cb_set_tool i ?st (sb_blocks (ss_sse s))"
    using st by (simp add: emit_tool_delta_def upd_blocks_def)
  have snd: "sound repr a (ss_sse s) ([ev], b)" by (rule sound_emit_tool_delta [OF ev st])
  have "unparsed env (sb_blocks b)" if "unparsed env (sb_blocks (ss_sse s))"
    using that st unfolding unparsed_def b by auto
  moreover have "is_started s k \<Longrightarrow> is_started (s\<lparr>ss_sse := b\<rparr>) k" for k
    using st by (auto simp: is_started_def tool_of_def b)
  ultimately have "fine repr a e env s ([ev], None, s\<lparr>ss_sse := b\<rparr>)"
    using snd by (auto simp: fine_def sound_def stream_inv_def)
  then show ?thesis by (simp add: tool_delta_out_def ev)
qed

lemma tool_delta_state:
  assumes "tool_delta_out i txt s = (es, err, s')"
  shows "ss_alias_buffers s' = ss_alias_buffers s" and "is_started s k \<Longrightarrow> is_started s' k"
    and "map_option tc_name (tool_of k s') = map_option tc_name (tool_of k s)"
  using assms unfolding tool_delta_out_def emit_tool_delta_def
  by (auto simp: is_started_def tool_of_def upd_blocks_def split: option.splits sum.splits)

text \<open>Buffering a Task's arguments: either the buffer is still no JSON value, or it is emptied.\<close>


lemma is_startedE:
  assumes "is_started s i"
  obtains st where "tool_of i s = Some st" "tc_started st"
  using assms by (auto simp: is_started_def)

lemma is_started_set_blocks:
  "is_started (set_blocks (cb_set_tool k st) s) j \<longleftrightarrow> (if j = k then tc_started st else is_started s j)"
  by (simp add: is_started_def)

lemma set_blocks_const:
  "set_blocks (\<lambda>_. cb_set_tool k st (sb_blocks (ss_sse s))) s = set_blocks (cb_set_tool k st) s"
  by (simp add: set_blocks_def upd_blocks_def)

text \<open>The Task branch: the buffer grows, is not JSON yet, or is sent and emptied.\<close>

lemma fine_task_args:
  assumes st: "tool_of i s = Some st" "tc_started st"
  shows "fine repr a True env s
    (case cb_buffer_task_args (se_loads env) i args (sb_blocks (ss_sse s)) of
       (Inl x, b) \<Rightarrow> ([], Some x, set_blocks (\<lambda>_. b) s)
     | (Inr None, b) \<Rightarrow> ([], None, set_blocks (\<lambda>_. b) s)
     | (Inr (Some j), b) \<Rightarrow> tool_delta_out i (se_dumps env j) (set_blocks (\<lambda>_. b) s))"
proof (cases "tc_task_args_emitted st")
  case True
  then have "cb_buffer_task_args (se_loads env) i args (sb_blocks (ss_sse s)) = (Inr None, sb_blocks (ss_sse s))"
    using st(1) by (simp add: cb_buffer_task_args_def tool_of_def)
  then show ?thesis by (simp add: fine_nil set_blocks_def upd_blocks_def)
next
  case False
  let ?st1 = "st\<lparr>tc_task_arg_buffer := tc_task_arg_buffer st @ args\<rparr>"
  let ?st2 = "?st1\<lparr>tc_task_args_emitted := True, tc_task_arg_buffer := []\<rparr>"
  have ok: "blocks_ok (cb_set_tool i st' (sb_blocks (ss_sse s))) c"
    if "stream_inv env s c" "tc_started st'" "tc_block_index st' = tc_block_index st" for st' c
    using that st by (intro blocks_ok_set_tool [where ?st0.0 = st]) (simp_all add: stream_inv_def tool_of_def)
  consider "se_loads env (tc_task_arg_buffer ?st1) = None"
    | j x where "se_loads env (tc_task_arg_buffer ?st1) = Some j" "normalize_task j = Inl x"
    | j j' where "se_loads env (tc_task_arg_buffer ?st1) = Some j" "normalize_task j = Inr j'"
    by (cases "se_loads env (tc_task_arg_buffer ?st1)") (auto, metis sum.exhaust)
  then show ?thesis
  proof cases
    case 1
    then have "cb_buffer_task_args (se_loads env) i args (sb_blocks (ss_sse s)) =
        (Inr None, cb_set_tool i ?st1 (sb_blocks (ss_sse s)))"
      using st(1) False by (simp add: cb_buffer_task_args_def tool_of_def Let_def)
    moreover have "fine repr a True env s ([], None, set_blocks (cb_set_tool i ?st1) s)"
      by (rule fine_set_tool) (use st 1 ok in simp_all)
    ultimately show ?thesis by (simp add: set_blocks_const)
  next
    case 2
    then have "cb_buffer_task_args (se_loads env) i args (sb_blocks (ss_sse s)) =
        (Inl x, cb_set_tool i ?st1 (sb_blocks (ss_sse s)))"
      using st(1) False by (simp add: cb_buffer_task_args_def tool_of_def Let_def)
    moreover have "fine repr a True env s ([], Some x, set_blocks (cb_set_tool i ?st1) s)"
      using ok [of _ ?st1] st(2) by (auto simp: fine_def set_blocks_def upd_blocks_def)
    ultimately show ?thesis by (simp add: set_blocks_const)
  next
    case 3
    then have eq: "cb_buffer_task_args (se_loads env) i args (sb_blocks (ss_sse s)) =
        (Inr (Some j'), cb_set_tool i ?st2 (sb_blocks (ss_sse s)))"
      using st(1) False by (simp add: cb_buffer_task_args_def tool_of_def Let_def)
    let ?s2 = "set_blocks (cb_set_tool i ?st2) s"
    have "fine repr a True env s ([], None, ?s2)" by (rule fine_set_tool) (use st ok in simp_all)
    then have "fine repr a True env s (and_then ([], None, ?s2) (tool_delta_out i (se_dumps env j')))"
      by (rule fine_then) (use st in \<open>auto intro!: fine_tool_delta simp: is_started_set_blocks\<close>)
    then show ?thesis by (simp add: eq set_blocks_const and_then_def split: prod.splits)
  qed
qed

text \<open>Changes of the alias buffers of a started tool.\<close>

lemma fine_alias_set:
  "is_started s i \<Longrightarrow> fine repr a e env s ([], None, s\<lparr>ss_alias_buffers := dict_set i v (ss_alias_buffers s)\<rparr>)"
  by (auto simp: fine_def stream_inv_def is_started_def tool_of_def)

lemma fine_alias_del:
  "fine repr a e env s ([], None, s\<lparr>ss_alias_buffers := dict_del i (ss_alias_buffers s)\<rparr>)"
  by (auto simp: fine_def stream_inv_def is_started_def tool_of_def)

lemma is_started_alias [simp]: "is_started (s\<lparr>ss_alias_buffers := d\<rparr>) k = is_started s k"
  by (simp add: is_started_def tool_of_def)

lemma and_then_pass [simp]: "and_then ([], None, s) f = f s"
  by (simp add: and_then_def split: prod.splits)

lemma fine_emit_args:
  assumes "is_started s i"
  shows "fine repr a True env s (emit_tool_arg_delta env i args s)"
proof -
  obtain st where st: "tool_of i s = Some st" "tc_started st" using assms by (rule is_startedE)
  consider "args = []" | "args \<noteq> []" "tc_name st = ''Task''"
    | "args \<noteq> []" "tc_name st \<noteq> ''Task''" "aliases_of env (tc_name st) = []"
    | "args \<noteq> []" "tc_name st \<noteq> ''Task''" "aliases_of env (tc_name st) \<noteq> []" by blast
  then show ?thesis
  proof cases
    case 1
    then show ?thesis by (simp add: emit_tool_arg_delta_def fine_nil)
  next
    case 2
    then show ?thesis using fine_task_args [OF st] st(1) by (simp add: emit_tool_arg_delta_def)
  next
    case 3
    then show ?thesis using fine_tool_delta [OF assms] st(1) by (simp add: emit_tool_arg_delta_def)
  next
    case 4
    let ?buf = "(case dict_get i (ss_alias_buffers s) of None \<Rightarrow> [] | Some x \<Rightarrow> x) @ args"
    show ?thesis
    proof (cases "restore_aliased env ?buf (aliases_of env (tc_name st))")
      case None
      then show ?thesis using 4 st(1) fine_alias_set [OF assms] by (simp add: emit_tool_arg_delta_def)
    next
      case (Some r)
      have "fine repr a True env s (and_then ([], None, s\<lparr>ss_alias_buffers := dict_del i (ss_alias_buffers s)\<rparr>)
          (tool_delta_out i r))"
        by (rule fine_then [OF fine_alias_del]) (auto intro!: fine_tool_delta simp: assms)
      then show ?thesis using 4 st(1) Some by (simp add: emit_tool_arg_delta_def)
    qed
  qed
qed


subsection \<open>A tool call delta\<close>

lemma not_is_started_iff:
  "\<not> (case tool_of i s of None \<Rightarrow> False | Some st \<Rightarrow> tc_started st) \<longleftrightarrow> \<not> is_started s i"
  by (auto simp: is_started_def split: option.splits)

lemma started_at_iff: "(\<exists>i. started_at (sb_blocks (ss_sse s)) k i) \<longleftrightarrow> is_started s k"
  by (auto simp: started_at_def is_started_def tool_of_def)

text \<open>The state of the tool after its block has started.\<close>

lemma start_tool_block_state:
  fixes s :: "'h stream_state" and tid name :: string and i :: int
  defines "s' \<equiv> s\<lparr>ss_sse := snd (start_tool_block i tid name (ss_sse s))\<rparr>"
  shows "\<exists>st. tool_of i s' = Some st \<and> tc_started st \<and>
     (tc_task_arg_buffer st \<noteq> [] \<longrightarrow> (\<exists>st0. tool_of i s = Some st0 \<and> tc_task_arg_buffer st = tc_task_arg_buffer st0 \<and>
        tc_task_args_emitted st = tc_task_args_emitted st0))"
    and "k \<noteq> i \<Longrightarrow> tool_of k s' = tool_of k s"
  unfolding s'_def tool_of_def start_tool_block_def cb_allocate_index_def Let_def
  by (cases "cb_tool i (sb_blocks (ss_sse s))"; auto simp: new_tool_state_def)+

lemma fine_start_block:
  assumes "\<not> is_started s i"
  shows "fine repr a e env s (yield1 (start_tool_block i tid name) s)"
proof -
  let ?s = "s\<lparr>ss_sse := snd (start_tool_block i tid name (ss_sse s))\<rparr>"
  note st = start_tool_block_state [where s = s and i = i and tid = tid and name = name]
  have snd: "sound repr a (ss_sse s) ([fst (start_tool_block i tid name (ss_sse s))], ss_sse ?s)"
  proof -
    have "\<forall>j. \<not> started_at (sb_blocks (ss_sse s)) i j" using assms started_at_iff [of s i] by blast
    from sound_start_tool [OF this] show ?thesis by simp
  qed
  have started: "is_started s k \<Longrightarrow> is_started ?s k" for k
    using st(1) st(2) [of k] by (cases "k = i") (auto simp: is_started_def)
  have "unparsed env (sb_blocks (ss_sse ?s))" if "unparsed env (sb_blocks (ss_sse s))"
  proof -
    have "se_loads env (tc_task_arg_buffer x) = None"
      if x: "tool_of k ?s = Some x" "tc_task_arg_buffer x \<noteq> []" "\<not> tc_task_args_emitted x" for k x
    proof (cases "k = i")
      case True
      then obtain st0 where "tool_of i s = Some st0" "tc_task_arg_buffer x = tc_task_arg_buffer st0"
        "tc_task_args_emitted x = tc_task_args_emitted st0" using st(1) x by auto
      then show ?thesis using \<open>unparsed env (sb_blocks (ss_sse s))\<close> x
        by (auto simp: unparsed_def tool_of_def)
    next
      case False
      then show ?thesis using \<open>unparsed env (sb_blocks (ss_sse s))\<close> x st(2) [OF False]
        by (auto simp: unparsed_def tool_of_def)
    qed
    then show ?thesis by (auto simp: unparsed_def tool_of_def)
  qed
  then have "fine repr a e env s ([fst (start_tool_block i tid name (ss_sse s))], None, ?s)"
    using snd started unfolding fine_def sound_def stream_inv_def by fastforce
  then show ?thesis by (simp add: yield1_def case_prod_beta)
qed

text \<open>The rest of \<open>start_tool\<close>: the arguments that came before the block.\<close>

definition early_args :: "'h stream_env \<Rightarrow> int \<Rightarrow> 'h stream_state \<Rightarrow> 'h emission" where
  "early_args env i s =
     (case tool_of i s of
        None \<Rightarrow> ([], Some KeyError, s)
      | Some st \<Rightarrow>
          if tc_pre_start_args st \<noteq> []
          then emit_tool_arg_delta env i (tc_pre_start_args st)
                 (set_blocks (cb_set_tool i (st\<lparr>tc_pre_start_args := []\<rparr>)) s)
          else ([], None, s))"

lemma fine_early_args:
  assumes "is_started s i"
  shows "fine repr a True env s (early_args env i s)"
proof -
  obtain st where st: "tool_of i s = Some st" "tc_started st" using assms by (rule is_startedE)
  let ?s2 = "set_blocks (cb_set_tool i (st\<lparr>tc_pre_start_args := []\<rparr>)) s"
  have "light s ?s2" by (rule light_set) (auto simp: st)
  then have "fine repr a True env s (and_then ([], None, ?s2) (emit_tool_arg_delta env i (tc_pre_start_args st)))"
    by (rule fine_then [OF fine_light]) (auto intro!: fine_emit_args simp: is_started_set_blocks st)
  then show ?thesis using st by (simp add: early_args_def fine_nil)
qed

lemma yield1_start_started:
  assumes "yield1 (start_tool_block i tid name) s = (es, err, s')"
  shows "is_started s' i"
proof -
  have "s' = s\<lparr>ss_sse := snd (start_tool_block i tid name (ss_sse s))\<rparr>"
    using assms by (auto simp: yield1_def case_prod_beta)
  then show ?thesis using start_tool_block_state(1) [where s = s and i = i and tid = tid and name = name]
    by (auto simp: is_started_def)
qed

lemma start_tool_eq:
  "\<exists>tid nm. start_tool env i rid name s = and_then (yield1 (start_tool_block i tid nm) s) (early_args env i)"
  unfolding start_tool_def early_args_def by blast

lemma fine_start_tool:
  assumes "\<not> is_started s i"
  shows "fine repr a True env s (start_tool env i rid name s)"
proof -
  obtain tid nm where eq: "start_tool env i rid name s = and_then (yield1 (start_tool_block i tid nm) s) (early_args env i)"
    using start_tool_eq by blast
  show ?thesis unfolding eq
    by (rule fine_then [OF fine_start_block [OF assms]]) (auto intro!: fine_early_args yield1_start_started)
qed

lemma start_tool_started:
  assumes "start_tool env i rid name s = (es, None, s2)"
  shows "is_started s2 i"
proof -
  obtain tid nm where eq: "start_tool env i rid name s = and_then (yield1 (start_tool_block i tid nm) s) (early_args env i)"
    using start_tool_eq by blast
  obtain es1 s1 where s1: "yield1 (start_tool_block i tid nm) s = (es1, None, s1)"
    by (auto simp: yield1_def case_prod_beta)
  then have st1: "is_started s1 i" by (rule yield1_start_started)
  obtain es2 where "early_args env i s1 = (es2, None, s2)"
    using assms unfolding eq s1 by (auto simp: and_then_def split: prod.splits)
  then have "fine (\<lambda>_. []) True True env s1 (es2, None, s2)"
    using fine_early_args [OF st1, of "\<lambda>_. []" True env] by simp
  then show ?thesis using st1 by (rule fine_started)
qed

lemma fine_send_args:
  assumes "is_started s i \<or> blank name"
  shows "fine repr a True env s (send_args env i name args s)"
proof (cases "is_started s i")
  case True
  then obtain st where "tool_of i s = Some st" "tc_started st" by (rule is_startedE)
  then show ?thesis using fine_emit_args [OF True] by (simp add: send_args_def fine_nil)
next
  case False
  then have "blank name" using assms by simp
  have nst: "\<not> (case tool_of i s of None \<Rightarrow> False | Some st \<Rightarrow> tc_started st)"
    using False by (simp only: not_is_started_iff not_False_eq_True)
  let ?st = "(case tool_of i s of None \<Rightarrow> new_tool_state (-1) [] [] False | Some x \<Rightarrow> x)"
  let ?st' = "?st\<lparr>tc_pre_start_args := tc_pre_start_args ?st @ args\<rparr>"
  have "light s (set_blocks (cb_set_tool i ?st') s)"
    by (rule light_set) (auto simp: new_tool_state_def)
  moreover have "send_args env i name args s =
      (if args = [] then ([], None, s) else ([], None, set_blocks (cb_set_tool i ?st') s))"
    using nst \<open>blank name\<close>
    by (cases "tool_of i s") (simp_all add: send_args_def cb_ensure_tool_state_def tool_of_def Let_def
        set_blocks_def upd_blocks_def)
  ultimately show ?thesis by (simp add: fine_nil fine_light)
qed


lemma fine_process_tool: "fine repr a True env s (process_tool_call env tc s)"
proof (cases "td_function tc")
  case None
  then show ?thesis by (auto simp: process_tool_call_def fine_def stream_inv_def)
next
  case (Some f)
  obtain name arguments where f: "f = (name, arguments)" by (cases f)
  define i where "i = (if td_index tc < 0 then int (length (cb_tool_states (sb_blocks (ss_sse s)))) else td_index tc)"
  define s1 where "s1 = record_tool i tc name s"
  define args where "args = (case arguments of None \<Rightarrow> [] | Some a \<Rightarrow> a)"
  define rid where "rid = (case tool_of i s1 of Some x \<Rightarrow> if tc_tool_id x \<noteq> [] then Some (tc_tool_id x) else td_id tc
                                      | None \<Rightarrow> td_id tc)"
  define nm where "nm = (case tool_of i s1 of None \<Rightarrow> [] | Some x \<Rightarrow> tc_name x)"
  have eq: "process_tool_call env tc s = and_then
       (if \<not> is_started s1 i \<and> \<not> blank nm then start_tool env i rid nm s1 else ([], None, s1))
       (send_args env i nm args)"
    unfolding process_tool_call_def Some f option.case prod.case Let_def
      i_def [symmetric] s1_def [symmetric] args_def [symmetric] rid_def [symmetric] nm_def [symmetric]
    using not_is_started_iff [of i s1] by simp
  have "fine repr a True env s1 (process_tool_call env tc s)"
    unfolding eq
  proof (rule fine_then)
    show "fine repr a True env s1 (if \<not> is_started s1 i \<and> \<not> blank nm then start_tool env i rid nm s1 else ([], None, s1))"
      by (simp add: fine_nil fine_start_tool)
    fix es s2 assume "(if \<not> is_started s1 i \<and> \<not> blank nm then start_tool env i rid nm s1 else ([], None, s1)) = (es, None, s2)"
    then have "is_started s2 i \<or> blank nm"
      by (cases "\<not> is_started s1 i \<and> \<not> blank nm") (auto dest: start_tool_started)
    then show "fine repr a True env s2 (send_args env i nm args s2)" by (rule fine_send_args)
  qed
  then have "fine repr a True env s (and_then ([], None, s1) (\<lambda>_. process_tool_call env tc s))"
    by (intro fine_then) (auto simp: s1_def fine_record_tool)
  then show ?thesis by simp
qed


subsection \<open>Chunks\<close>

lemma fine_from:
  assumes "sb_blocks (ss_sse s') = sb_blocks (ss_sse s)" and "ss_alias_buffers s' = ss_alias_buffers s"
    and "fine repr a e env s' r"
  shows "fine repr a e env s r"
proof -
  have "stream_inv env s = stream_inv env s'" "is_started s = is_started s'"
    using assms(1,2) by (auto simp: stream_inv_def is_started_def tool_of_def fun_eq_iff)
  then show ?thesis using assms(3) by (simp add: fine_def)
qed

lemma fine_weaken: "fine repr a False env s r \<Longrightarrow> fine repr a e env s r"
  by (auto simp: fine_def split: prod.splits)

lemma fine_handle_part: "fine repr a e env s (handle_part env p s)"
proof (cases p)
  case (ContentChunk ty u)
  show ?thesis
  proof (cases ty)
    case THINKING
    then show ?thesis by (simp add: handle_part_def ContentChunk fine_emit_thinking fine_nil)
  next
    case TEXT
    obtain filtered tools h where f: "se_feed env u (ss_heur s) = ((filtered, tools), h)"
      by (metis prod.exhaust)
    let ?s = "s\<lparr>ss_heur := h\<rparr>"
    have "fine repr a e env ?s (and_then (if filtered \<noteq> [] then emit_text filtered ?s else ([], None, ?s))
        (for_each (iter_heuristic_tool_use_sse env) tools))"
      by (intro fine_then) (auto intro: fine_emit_text fine_nil fine_each' fine_heuristic)
    from fine_from [OF _ _ this, of s]
    show ?thesis using TEXT by (simp add: handle_part_def ContentChunk f Let_def)
  qed
qed

lemma fine_handle_content: "fine repr a e env s (handle_content env content s)"
proof (cases "truthy_str content")
  case True
  obtain parts tp where f: "think_feed (the content) (ss_think s) = (parts, tp)" by (metis prod.exhaust)
  have "fine repr a e env (s\<lparr>ss_think := tp\<rparr>) (for_each (handle_part env) parts (s\<lparr>ss_think := tp\<rparr>))"
    by (intro fine_each' fine_handle_part)
  from fine_from [OF _ _ this, of s]
  show ?thesis using True by (simp add: handle_content_def f)
qed (simp add: handle_content_def fine_nil)

lemma fine_handle_tool_calls: "fine repr a True env s (handle_tool_calls env tcs s)"
  unfolding handle_tool_calls_def
  by (auto intro!: fine_nil fine_then fine_yields sound_close_content fine_each' fine_process_tool)

lemma fine_handle_chunk: "fine repr a True env s (handle_chunk env ck s)"
proof -
  define s1 where "s1 = (case ck_usage ck of None \<Rightarrow> s | Some u \<Rightarrow> s\<lparr>ss_usage := Some u\<rparr>)"
  have s1: "sb_blocks (ss_sse s1) = sb_blocks (ss_sse s)" "ss_alias_buffers s1 = ss_alias_buffers s"
    by (cases "ck_usage ck"; simp add: s1_def)+
  show ?thesis
  proof (cases "\<exists>finish d. ck_choice ck = Some (finish, Some d)")
    case True
    then obtain finish d where fd: "ck_choice ck = Some (finish, Some d)" by blast
    let ?s2 = "if truthy_str finish then s1\<lparr>ss_finish := finish\<rparr> else s1"
    let ?body = "\<lambda>t. and_then (if se_thinking_enabled env \<and> truthy_str (dl_reasoning d)
             then emit_thinking (the (dl_reasoning d)) t else ([], None, t))
          (\<lambda>t. and_then (handle_content env (dl_content d) t) (handle_tool_calls env (dl_tool_calls d)))"
    have "fine repr a True env ?s2 (?body ?s2)"
      by (rule fine_then) (simp add: fine_emit_thinking fine_nil,
          rule fine_then [OF fine_handle_content fine_handle_tool_calls])
    from fine_from [OF _ _ this, of s] have "fine repr a True env s (?body ?s2)" using s1 by simp
    then show ?thesis unfolding handle_chunk_def Let_def s1_def [symmetric] fd by simp
  next
    case False
    then have "handle_chunk env ck s = ([], None, s1)"
      unfolding handle_chunk_def Let_def s1_def [symmetric]
      by (auto split: option.splits prod.splits)
    then show ?thesis using s1 by (simp add: fine_nil)
  qed
qed

subsection \<open>The end of the stream\<close>

lemma fine_flush_think: "fine repr a e env s (flush_think env s)"
proof -
  obtain rem tp where f: "think_flush (ss_think s) = (rem, tp)" by (metis prod.exhaust)
  let ?s = "s\<lparr>ss_think := tp\<rparr>"
  have nil: "fine repr a e env s ([], None, ?s)" by (simp add: fine_nil)
  have tex: "fine repr a e env s (emit_text t ?s)" for t
    using fine_from [OF _ _ fine_emit_text, of ?s s] by simp
  have thk: "fine repr a e env s (emit_thinking t ?s)" for t
    using fine_from [OF _ _ fine_emit_thinking, of ?s s] by simp
  show ?thesis
  proof (cases rem)
    case None
    then show ?thesis using nil by (simp add: flush_think_def f Let_def)
  next
    case (Some c)
    obtain ty t where "c = ContentChunk ty t" by (cases c)
    then show ?thesis using nil tex thk Some by (cases ty) (simp_all add: flush_think_def f Let_def)
  qed
qed

lemma fine_ensure_content: "fine repr a e env s (ensure_content s)"
  by (auto simp: ensure_content_def Let_def intro: fine_emit_text fine_nil)

lemma fine_flush_alias:
  assumes "is_started s i"
  shows "fine repr a e env s (flush_alias_buffer env (i, buf) s)"
proof -
  obtain st where st: "tool_of i s = Some st" using assms by (auto simp: is_started_def)
  show ?thesis unfolding flush_alias_buffer_def
    using st by (auto intro!: fine_nil fine_alias_del fine_then fine_tool_delta assms)
qed

lemma flush_alias_started:
  assumes "flush_alias_buffer env (i, buf) s = (es, None, s')" and "is_started s k"
  shows "is_started s' k"
  using assms tool_delta_state(2) unfolding flush_alias_buffer_def
  by (fastforce simp: and_then_def split: if_splits option.splits prod.splits)

lemma fine_flush_aliases:
  fixes s :: "'h stream_state"
  assumes "\<forall>k \<in> set (dict_keys (ss_alias_buffers s)). is_started s k"
  shows "fine repr a e env s (for_each (flush_alias_buffer env) (ss_alias_buffers s) s)"
proof -
  let ?P = "\<lambda>t :: 'h stream_state. \<forall>k \<in> set (dict_keys (ss_alias_buffers s)). is_started t k"
  have "fine repr a e env t (flush_alias_buffer env x t)" if "x \<in> set (ss_alias_buffers s)" "?P t"
    for x and t :: "'h stream_state"
  proof -
    obtain i buf where "x = (i, buf)" by (cases x)
    moreover from this have "is_started t i" using that by (force simp: dict_keys_def)
    ultimately show ?thesis using fine_flush_alias by simp
  qed
  moreover have "?P t'" if "?P t" "flush_alias_buffer env x t = (es, None, t')" for x es and t t' :: "'h stream_state"
    using that flush_alias_started by (cases x) blast
  ultimately show ?thesis using assms by (intro fine_each [where P = ?P]) auto
qed

text \<open>Flushing the Task buffers: they hold no JSON, so \<open>{}\<close> is sent and nothing is raised.\<close>

definition clear_task :: "tool_call_state \<Rightarrow> tool_call_state" where
  "clear_task st = (if tc_task_arg_buffer st = [] \<or> tc_task_args_emitted st then st
     else st\<lparr>tc_task_args_emitted := True, tc_task_arg_buffer := []\<rparr>)"

lemma flush_task_states_unparsed:
  assumes "\<forall>(i, st) \<in> set ss. tc_task_arg_buffer st \<noteq> [] \<and> \<not> tc_task_args_emitted st
     \<longrightarrow> loads (tc_task_arg_buffer st) = None"
  shows "\<exists>rs. flush_task_states loads dumps ss = Inr (rs, map (\<lambda>(i, st). (i, clear_task st)) ss) \<and>
     (\<forall>(i, out) \<in> set rs. \<exists>st. (i, st) \<in> set ss \<and> tc_task_arg_buffer st \<noteq> [])"
  using assms
proof (induction ss)
  case (Cons x ss)
  obtain i st where x: "x = (i, st)" by (cases x)
  obtain rs where rs: "flush_task_states loads dumps ss = Inr (rs, map (\<lambda>(i, st). (i, clear_task st)) ss)"
    "\<forall>(i, out) \<in> set rs. \<exists>st. (i, st) \<in> set ss \<and> tc_task_arg_buffer st \<noteq> []"
    using Cons.IH Cons.prems by auto
  show ?case
  proof (cases "tc_task_arg_buffer st = [] \<or> tc_task_args_emitted st")
    case True
    then show ?thesis using rs by (auto simp: x clear_task_def)
  next
    case False
    then have "loads (tc_task_arg_buffer st) = None" using Cons.prems by (auto simp: x)
    then show ?thesis using rs False by (auto simp: x clear_task_def)
  qed
qed simp


definition clear_tasks :: "content_block_manager \<Rightarrow> content_block_manager" where
  "clear_tasks b = b\<lparr>cb_tool_states := map (\<lambda>(i, st). (i, clear_task st)) (cb_tool_states b)\<rparr>"

lemma cb_tool_clear_tasks: "cb_tool k (clear_tasks b) = map_option clear_task (cb_tool k b)"
proof -
  have "map_of (map (\<lambda>(i, st). (i, clear_task st)) xs) k = map_option clear_task (map_of xs k)" for xs
    by (induction xs) auto
  then show ?thesis by (simp add: cb_tool_def clear_tasks_def dict_get_def)
qed

lemma clear_task_fields [simp]:
  "tc_started (clear_task st) = tc_started st" "tc_block_index (clear_task st) = tc_block_index st"
  "tc_task_arg_buffer (clear_task st) \<noteq> [] \<Longrightarrow> tc_task_args_emitted (clear_task st) \<and> tc_task_arg_buffer st \<noteq> []"
  by (auto simp: clear_task_def split: if_splits)

lemma blocks_ok_clear_tasks:
  assumes "blocks_ok b c"
  shows "blocks_ok (clear_tasks b) c"
proof -
  have at: "started_at (clear_tasks b) = started_at b"
    by (auto simp: started_at_def cb_tool_clear_tasks fun_eq_iff)
  have f: "cb_next_index (clear_tasks b) = cb_next_index b" "cb_text_index (clear_tasks b) = cb_text_index b"
    "cb_thinking_index (clear_tasks b) = cb_thinking_index b" "cb_text_started (clear_tasks b) = cb_text_started b"
    "cb_thinking_started (clear_tasks b) = cb_thinking_started b" by (simp_all add: clear_tasks_def)
  have "block_open (clear_tasks b) = block_open b" by (simp add: block_open_def fun_eq_iff at f)
  moreover have "tools_inj (clear_tasks b) = tools_inj b" by (simp add: tools_inj_def at)
  moreover have "buffers_started (clear_tasks b)"
    using assms clear_task_fields(3) unfolding blocks_ok_def buffers_started_def by (fastforce simp: cb_tool_clear_tasks)
  moreover have "dict_ok (cb_tool_states (clear_tasks b))"
    using assms by (simp add: blocks_ok_def clear_tasks_def dict_ok_def dict_keys_def comp_def case_prod_beta)
  ultimately show ?thesis using assms f by (simp add: blocks_ok_def)
qed

lemma fine_flush_task_args:
  fixes s :: "'h stream_state"
  assumes c: "stream_inv env s c"
  shows "fine repr a False env s (flush_task_args env s)"
proof -
  let ?b = "sb_blocks (ss_sse s)"
  have dk: "dict_ok (cb_tool_states ?b)" using c by (simp add: stream_inv_def blocks_ok_def)
  have mem: "(k, st) \<in> set (cb_tool_states ?b) \<longleftrightarrow> tool_of k s = Some st" for k st
    using dict_mem_get [OF dk] dict_get_mem by (fastforce simp: tool_of_def cb_tool_def)
  have "\<forall>(i, st) \<in> set (cb_tool_states ?b). tc_task_arg_buffer st \<noteq> [] \<and> \<not> tc_task_args_emitted st
     \<longrightarrow> se_loads env (tc_task_arg_buffer st) = None"
    using c mem by (auto simp: stream_inv_def unparsed_def tool_of_def)
  from flush_task_states_unparsed [OF this, of "se_dumps env"] obtain rs where
    rs: "flush_task_states (se_loads env) (se_dumps env) (cb_tool_states ?b) =
      Inr (rs, map (\<lambda>(i, st). (i, clear_task st)) (cb_tool_states ?b))"
    "\<forall>(i, out) \<in> set rs. \<exists>st. (i, st) \<in> set (cb_tool_states ?b) \<and> tc_task_arg_buffer st \<noteq> []" by blast
  let ?s = "set_blocks (\<lambda>_. clear_tasks ?b) s"
  have eq: "flush_task_args env s = for_each (\<lambda>(i, out). tool_delta_out i out) rs ?s"
    using rs(1) by (simp add: flush_task_args_def cb_flush_task_arg_buffers_def clear_tasks_def)
  have started: "is_started s i" if "(i, out) \<in> set rs" for i out
    using rs(2) that c mem by (fastforce simp: stream_inv_def blocks_ok_def buffers_started_def is_started_def tool_of_def)
  have same: "is_started ?s k = is_started s k" for k
    by (auto simp: is_started_def tool_of_def set_blocks_def upd_blocks_def cb_tool_clear_tasks)
  have "fine repr a False env s ([], None, ?s)"
    using same blocks_ok_clear_tasks cb_tool_clear_tasks clear_task_fields(3)
    by (fastforce simp: fine_def stream_inv_def set_blocks_def upd_blocks_def unparsed_def)
  moreover have "fine repr a False env ?s (for_each (\<lambda>(i, out). tool_delta_out i out) rs ?s)"
  proof (rule fine_each [where P = "\<lambda>t. \<forall>(i, out) \<in> set rs. is_started t i"])
    show "fine repr a False env t ((\<lambda>(i, out). tool_delta_out i out) x t)"
      if "x \<in> set rs" "\<forall>(i, out) \<in> set rs. is_started t i" for x and t :: "'h stream_state"
      using that by (auto intro: fine_tool_delta)
    show "\<forall>(i, out) \<in> set rs. is_started t' i"
      if "\<forall>(i, out) \<in> set rs. is_started t i" "(\<lambda>(i, out). tool_delta_out i out) x t = (es, None, t')"
      for x es and t t' :: "'h stream_state"
      using that tool_delta_state(2) by (cases x) fastforce
    show "\<forall>(i, out) \<in> set rs. is_started ?s i" using started same by auto
  qed
  ultimately have "fine repr a False env s (and_then ([], None, ?s) (for_each (\<lambda>(i, out). tool_delta_out i out) rs))"
    by (intro fine_then) auto
  then show ?thesis by (simp add: eq)
qed


text \<open>Sequencing when the invariant is known to hold for some state of the checker.\<close>

lemma fine_then_inv:
  assumes r: "fine repr a e env s r" and inv: "stream_inv env s c"
    and f: "\<And>es s' c'. r = (es, None, s') \<Longrightarrow> stream_inv env s' c' \<Longrightarrow> fine repr a e env s' (f s')"
  shows "fine repr a e env s (and_then r f)"
proof (rule fine_then [OF r])
  fix es s' assume eq: "r = (es, None, s')"
  then obtain c' where "stream_inv env s' c'" using r inv by (auto simp: fine_def)
  then show "fine repr a e env s' (f s')" using f eq by blast
qed

definition before_tail :: "'h stream_env \<Rightarrow> 'h stream_state \<Rightarrow> 'h emission" where
  "before_tail env s =
     and_then (flush_think env s) (\<lambda>s.
     and_then (for_each (iter_heuristic_tool_use_sse env) (se_flush env (ss_heur s)) s) (\<lambda>s.
     and_then (ensure_content s) (\<lambda>s.
     and_then (for_each (flush_alias_buffer env) (ss_alias_buffers s) s) (flush_task_args env))))"

lemma and_then_assoc: "and_then (and_then r f) g = and_then r (\<lambda>s. and_then (f s) g)"
  by (auto simp: and_then_def split: prod.splits option.splits)

lemma stream_finished_eq:
  "stream_finished env s = and_then (before_tail env s) (stream_tail env)"
  by (simp add: stream_finished_def before_tail_def and_then_assoc)

lemma fine_before_tail:
  assumes "stream_inv env s c"
  shows "fine repr a False env s (before_tail env s)"
  unfolding before_tail_def
proof (rule fine_then_inv [OF fine_flush_think assms])
  fix es s1 c1 assume "stream_inv env s1 c1"
  then show "fine repr a False env s1 (and_then (for_each (iter_heuristic_tool_use_sse env) (se_flush env (ss_heur s1)) s1) (\<lambda>s.
     and_then (ensure_content s) (\<lambda>s.
     and_then (for_each (flush_alias_buffer env) (ss_alias_buffers s) s) (flush_task_args env))))"
  proof (rule fine_then_inv [rotated])
    fix es s2 c2 assume "stream_inv env s2 c2"
    then show "fine repr a False env s2 (and_then (ensure_content s2) (\<lambda>s.
     and_then (for_each (flush_alias_buffer env) (ss_alias_buffers s) s) (flush_task_args env)))"
    proof (rule fine_then_inv [rotated])
      fix es s3 c3 assume i: "stream_inv env s3 c3"
      then have "\<forall>k \<in> set (dict_keys (ss_alias_buffers s3)). is_started s3 k" by (simp add: stream_inv_def)
      from fine_flush_aliases [OF this] show "fine repr a False env s3
          (and_then (for_each (flush_alias_buffer env) (ss_alias_buffers s3) s3) (flush_task_args env))"
        by (rule fine_then_inv [OF _ i]) (rule fine_flush_task_args)
    qed (rule fine_ensure_content)
  qed (intro fine_each' fine_heuristic)
qed

text \<open>After \<open>ensure_content\<close> some block has been started.\<close>

definition has_block :: "sse_builder \<Rightarrow> bool" where
  "has_block b \<longleftrightarrow> cb_text_index (sb_blocks b) \<noteq> -1 \<or> cb_thinking_index (sb_blocks b) \<noteq> -1 \<or> has_started_tool b"

lemma has_block_seen:
  assumes "blocks_ok (sb_blocks b) c" and "has_block b"
  shows "cs_seen c \<noteq> {}"
proof (cases "has_started_tool b")
  case True
  then obtain k st where "(k, st) \<in> set (cb_tool_states (sb_blocks b))" "tc_started st"
    by (auto simp: has_started_tool_def dict_values_def)
  moreover from this have "cb_tool k (sb_blocks b) = Some st"
    using dict_mem_get assms(1) by (fastforce simp: blocks_ok_def cb_tool_def)
  ultimately have "block_open (sb_blocks b) (tc_block_index st) ''tool_use''"
    by (auto simp: block_open_def started_at_def)
  then have "dict_get (tc_block_index st) (cs_open c) = Some ''tool_use''" using assms(1) by (simp add: blocks_ok_def)
  then show ?thesis using assms(1) pd.lookup_SomeD by (fastforce simp: blocks_ok_def)
next
  case False
  then show ?thesis using assms by (auto simp: blocks_ok_def has_block_def)
qed


lemma text_started_seen:
  assumes "blocks_ok b c" and "cb_text_started b"
  shows "cs_seen c \<noteq> {}"
proof -
  have "dict_get (cb_text_index b) (cs_open c) = Some ''text''"
    using assms by (simp add: blocks_ok_def block_open_def)
  then show ?thesis using assms(1) pd.lookup_SomeD by (fastforce simp: blocks_ok_def)
qed

lemma emit_text_started: "emit_text t s = (es, err, s') \<Longrightarrow> cb_text_started (sb_blocks (ss_sse s'))"
  by (auto simp: emit_text_def and_then_def yields_def yield1_def case_prod_beta emit_text_delta_def)

lemma ensure_content_seen:
  assumes "ensure_content s = (es, err, s')" and "blocks_ok (sb_blocks (ss_sse s')) c"
  shows "cs_seen c \<noteq> {}"
proof (cases "s' = s \<and> has_block (ss_sse s)")
  case True
  then show ?thesis using has_block_seen assms(2) by blast
next
  case False
  then have "emit_text '' '' s = (es, err, s')"
    using assms(1) by (auto simp: ensure_content_def Let_def has_block_def split: if_splits)
  then show ?thesis using text_started_seen [OF assms(2)] emit_text_started by blast
qed

definition flush_content :: "'h stream_env \<Rightarrow> 'h stream_state \<Rightarrow> 'h emission" where
  "flush_content env s =
     and_then (flush_think env s) (\<lambda>s.
       for_each (iter_heuristic_tool_use_sse env) (se_flush env (ss_heur s)) s)"

lemma before_tail_eq:
  "before_tail env s = and_then (and_then (flush_content env s) ensure_content) (\<lambda>s.
     and_then (for_each (flush_alias_buffer env) (ss_alias_buffers s) s) (flush_task_args env))"
  by (simp add: before_tail_def flush_content_def and_then_assoc)

lemma before_tail_ok:
  assumes inv: "stream_inv env s c"
  shows "\<exists>es s' c'. before_tail env s = (es, None, s') \<and> contract_events repr a es c = Inr c' \<and>
    blocks_ok (sb_blocks (ss_sse s')) c' \<and> cs_seen c' \<noteq> {}"
proof -
  have f1: "fine repr a False env s (and_then (flush_content env s) ensure_content)"
    unfolding flush_content_def by (intro fine_then fine_flush_think fine_each' fine_heuristic fine_ensure_content)
  obtain es1 err1 s1 where r1: "and_then (flush_content env s) ensure_content = (es1, err1, s1)"
    by (metis prod.exhaust)
  obtain c1 where c1: "contract_events repr a es1 c = Inr c1" "stream_inv env s1 c1" "err1 = None"
    using f1 inv by (auto simp: r1 fine_def)
  obtain es0 s0 es01 where e01: "ensure_content s0 = (es01, None, s1)"
    using r1 c1(3) by (auto simp: and_then_def split: prod.splits option.splits)
  have "blocks_ok (sb_blocks (ss_sse s1)) c1" using c1(2) by (simp add: stream_inv_def)
  from ensure_content_seen [OF e01 this] have seen: "cs_seen c1 \<noteq> {}" .
  let ?r = "and_then (for_each (flush_alias_buffer env) (ss_alias_buffers s1) s1) (flush_task_args env)"
  have "\<forall>k \<in> set (dict_keys (ss_alias_buffers s1)). is_started s1 k" using c1(2) by (simp add: stream_inv_def)
  from fine_flush_aliases [OF this] have f2: "fine repr a False env s1 ?r"
    by (rule fine_then_inv [OF _ c1(2)]) (rule fine_flush_task_args)
  obtain es2 err2 s2 where r2: "?r = (es2, err2, s2)" by (metis prod.exhaust)
  obtain c2 where c2: "contract_events repr a es2 c1 = Inr c2" "stream_inv env s2 c2" "err2 = None"
    "cs_seen c1 \<subseteq> cs_seen c2"
    using f2 c1(2) by (auto simp: r2 fine_def)
  have "before_tail env s = (es1 @ es2, None, s2)"
    unfolding before_tail_eq and_then_def [of "and_then _ _"] r1 c1(3) using r2 c2(3)
    by (simp add: and_then_def [of "(es1, None, s1)"])
  moreover have "contract_events repr a (es1 @ es2) c = Inr c2" using c1(1) c2(1) by (simp add: contract_events_append)
  ultimately show ?thesis using c2 seen by (auto simp: stream_inv_def)
qed

subsection \<open>The contract of a whole answer\<close>

lemma contract_tail_events:
  "contract_events repr a [message_delta r t b, message_stop] c = Inr c"
  by (simp add: contract_other_event message_delta_def message_stop_def)

text \<open>What the end of the stream sends: the blocks' ends, and what follows them unless the tokens cannot be
  counted.\<close>

lemma those_eq_None: "those xs = None \<Longrightarrow> None \<in> set xs"
  by (induction xs) (auto split: option.splits)

lemma stream_tail_cases:
  obtains (counted) r t b where "stream_tail env s = (fst (close_all_blocks (ss_sse s)) @ [message_delta r t b, message_stop], None, s\<lparr>ss_sse := b\<rparr>)"
    "b = snd (close_all_blocks (ss_sse s))"
  | (refused) enc t where "stream_tail env s = (fst (close_all_blocks (ss_sse s)), Some ValueError, s\<lparr>ss_sse := snd (close_all_blocks (ss_sse s))\<rparr>)"
    "se_encoder env = Some enc" "enc t = None" "t \<in> set (counted_texts (snd (close_all_blocks (ss_sse s))))"
proof -
  let ?b = "snd (close_all_blocks (ss_sse s))"
  show thesis
  proof (cases "output_tokens env (ss_usage s) ?b")
    case (Inr t)
    then show thesis by (intro counted [of "map_stop_reason (ss_finish s)" t ?b]) (simp_all add: stream_tail_def case_prod_beta)
  next
    case (Inl e)
    then obtain x where x: "estimate_output_tokens (se_encoder env) ?b = Inl x" "e = x"
      by (auto simp: output_tokens_def bind_result_Inl split: option.splits json.splits)
    then obtain enc where enc: "se_encoder env = Some enc" "those (map enc (counted_texts ?b)) = None" "x = ValueError"
      by (auto simp: estimate_output_tokens_def Let_def split: option.splits)
    from those_eq_None [OF enc(2)] obtain t where "t \<in> set (counted_texts ?b)" "enc t = None" by auto
    then show thesis using Inl x enc by (intro refused [of enc t]) (simp_all add: stream_tail_def case_prod_beta)
  qed
qed

lemma stream_tail_contract:
  assumes "blocks_ok (sb_blocks (ss_sse s)) c"
  shows "\<exists>c'. contract_events repr a (fst (stream_tail env s)) c = Inr c' \<and> cs_open c' = [] \<and> cs_seen c \<subseteq> cs_seen c'"
proof -
  obtain c' where c': "contract_events repr a (fst (close_all_blocks (ss_sse s))) c = Inr c'" "cs_open c' = []"
    "cs_seen c \<subseteq> cs_seen c'" using close_all_contract [OF assms] by blast
  have "contract_events repr a (fst (stream_tail env s)) c = Inr c'"
    by (cases rule: stream_tail_cases [of env s])
      (simp_all only: fst_conv contract_events_append c'(1) bind_result.simps contract_tail_events)
  then show ?thesis using c'(2,3) by blast
qed

lemma contract_error_block:
  assumes "cs_open c = []" and "\<forall>i \<in> cs_seen c. i < cb_next_index (sb_blocks b)"
  shows "\<exists>c'. contract_events repr a (fst (emit_error msg b)) c = Inr c' \<and> cs_open c' = [] \<and> cs_seen c' \<noteq> {}"
proof -
  let ?i = "cb_next_index (sb_blocks b)"
  let ?c = "\<lparr>cs_open = dict_set ?i ''text'' [], cs_seen = insert ?i (cs_seen c)\<rparr>"
  have "contract_event repr a (content_block_start ?i ''text'' []) c = Inr ?c"
    using contract_start_event [of ?i c "''text''" "[]"] assms by auto
  moreover have "contract_event repr a (content_block_delta ?i ''text_delta'' msg) ?c = Inr ?c"
    using contract_delta_event [of ?i ?c "''text''"] by (simp add: delta_of_def)
  moreover have "contract_event repr a (content_block_stop ?i) ?c = Inr (?c\<lparr>cs_open := dict_del ?i (cs_open ?c)\<rparr>)"
    by (rule contract_stop_event) simp
  moreover have "dict_del ?i (dict_set ?i ''text'' []) = []" by (simp add: dict_set_def dict_del_def)
  ultimately show ?thesis by (simp add: emit_error_def cb_allocate_index_def)
qed

lemma stream_failed_contract:
  assumes "blocks_ok (sb_blocks (ss_sse s)) c"
  shows "\<exists>c'. contract_events repr True (stream_failed env err s) c = Inr c' \<and> cs_open c' = [] \<and> cs_seen c' \<noteq> {}"
proof -
  let ?b = "snd (close_all_blocks (ss_sse s))"
  obtain c1 where c1: "contract_events repr True (fst (close_all_blocks (ss_sse s))) c = Inr c1" "cs_open c1 = []"
    "cs_seen c \<subseteq> cs_seen c1" "\<forall>i \<in> cs_seen c1. i < cb_next_index (sb_blocks ?b)"
    using close_all_contract [OF assms] by blast
  have tools: "cb_tool_states (sb_blocks ?b) = cb_tool_states (sb_blocks (ss_sse s))"
    by (simp add: close_all_blocks_def case_prod_beta)
  define mid where "mid = (if cb_has_emitted_tool_block (sb_blocks ?b)
      then ([emit_top_level_error (se_message env err)], ?b) else emit_error (se_message env err) ?b)"
  have eq: "stream_failed env err s = fst (close_all_blocks (ss_sse s)) @ fst mid @
      [message_delta ''end_turn'' (JInt 1) (snd mid), message_stop]"
    by (simp add: stream_failed_def case_prod_beta Let_def mid_def)
  have "\<exists>c'. contract_events repr True (fst mid) c1 = Inr c' \<and> cs_open c' = [] \<and> cs_seen c' \<noteq> {}"
  proof (cases "cb_has_emitted_tool_block (sb_blocks ?b)")
    case True
    then have "has_block (ss_sse s)"
      by (simp add: has_block_def has_started_tool_def cb_has_emitted_tool_block_def tools)
    then have "cs_seen c1 \<noteq> {}" using has_block_seen [OF assms] c1(3) by auto
    then show ?thesis using True c1(2) by (simp add: mid_def emit_top_level_error_def contract_event_def)
  next
    case False
    then show ?thesis using contract_error_block [OF c1(2,4)] by (simp add: mid_def)
  qed
  then obtain c2 where c2: "contract_events repr True (fst mid) c1 = Inr c2" "cs_open c2 = []" "cs_seen c2 \<noteq> {}"
    by blast
  have "contract_events repr True (stream_failed env err s) c = Inr c2"
    unfolding eq by (simp only: contract_events_append bind_result.simps c1(1) c2(1) contract_tail_events)
  then show ?thesis using c2(2,3) by blast
qed

text \<open>The chunks, from the fresh state.\<close>

lemma stream_init_inv: "stream_inv env (stream_init mid model tokens h) contract_init"
  by (auto simp: stream_inv_def stream_init_def sse_init_def blocks_ok_def contract_init_def started_at_def block_open_def
      tools_inj_def buffers_started_def unparsed_def cb_init_def
      cb_tool_def dict_keys_def)

lemma chunks_ok:
  assumes "for_each (handle_chunk env) cks (stream_init mid model tokens h) = (es, err, s)"
  shows "\<exists>c. contract_events repr a es contract_init = Inr c \<and> blocks_ok (sb_blocks (ss_sse s)) c \<and>
    (err = None \<longrightarrow> stream_inv env s c)"
proof -
  have "fine repr a True env (stream_init mid model tokens h)
      (for_each (handle_chunk env) cks (stream_init mid model tokens h))"
    by (intro fine_each' fine_handle_chunk)
  then show ?thesis using stream_init_inv [of env mid model tokens h] unfolding assms by (auto simp: fine_def)
qed

text \<open>An answer that starts with \<open>message_start\<close>, ends with \<open>message_stop\<close>, and whose middle leaves
  no block open, is accepted.\<close>

lemma answer_accepted:
  assumes "contract_events repr a es contract_init = Inr c" and "cs_open c = []" and "cs_seen c \<noteq> {}"
    and "last es = message_stop" and "es \<noteq> []"
  shows "assert_anthropic_stream_contract repr a (message_start b # es) = Inr ()"
proof -
  have "contract_event repr a (message_start b) contract_init = Inr contract_init"
    by (simp add: contract_other_event message_start_def)
  then show ?thesis using assms
    by (simp add: assert_anthropic_stream_contract_def last_map message_start_def message_stop_def)
qed

lemma accepted_events:
  "assert_anthropic_stream_contract repr a es = Inr () \<Longrightarrow>
     \<exists>c. contract_events repr a es contract_init = Inr c \<and> cs_open c = [] \<and> cs_seen c \<noteq> {}"
  by (auto simp: assert_anthropic_stream_contract_def split: if_splits)

lemma failed_accepted:
  assumes "for_each (handle_chunk env) cks (stream_init mid model tokens h) = (es, err, s)"
  shows "assert_anthropic_stream_contract repr True (message_start b # es @ stream_failed env x s) = Inr ()"
proof -
  obtain c where c: "contract_events repr True es contract_init = Inr c" "blocks_ok (sb_blocks (ss_sse s)) c"
    using chunks_ok [OF assms, of repr True] by blast
  obtain c' where c': "contract_events repr True (stream_failed env x s) c = Inr c'" "cs_open c' = []" "cs_seen c' \<noteq> {}"
    using stream_failed_contract [OF c(2)] by blast
  have "contract_events repr True (es @ stream_failed env x s) contract_init = Inr c'"
    by (simp only: contract_events_append c(1) c'(1) bind_result.simps)
  moreover have "last (es @ stream_failed env x s) = message_stop"
    by (simp add: stream_failed_def case_prod_beta Let_def)
  moreover have "es @ stream_failed env x s \<noteq> []"
    by (simp add: stream_failed_def case_prod_beta Let_def)
  ultimately show ?thesis using c'(2,3) by (intro answer_accepted)
qed

lemma finished_cases:
  assumes r: "for_each (handle_chunk env) cks (stream_init mid model tokens h) = (es, None, s)"
  shows "case stream_finished env s of (es', err, s') \<Rightarrow>
    (\<exists>c. contract_events repr a (message_start b # es @ es') contract_init = Inr c \<and> cs_open c = [] \<and> cs_seen c \<noteq> {}) \<and>
    (case err of
       None \<Rightarrow> assert_anthropic_stream_contract repr a (message_start b # es @ es') = Inr ()
     | Some e \<Rightarrow> e = ValueError \<and> (\<exists>enc t. se_encoder env = Some enc \<and> enc t = None \<and> t \<in> set (counted_texts (ss_sse s'))))"
proof -
  obtain c where c: "contract_events repr a es contract_init = Inr c" "stream_inv env s c"
    using chunks_ok [OF r, of repr a] by blast
  obtain es1 s1 c1 where bt: "before_tail env s = (es1, None, s1)" and c1: "contract_events repr a es1 c = Inr c1"
      "blocks_ok (sb_blocks (ss_sse s1)) c1" "cs_seen c1 \<noteq> {}"
    using before_tail_ok [OF c(2)] by blast
  obtain es2 err s2 where t: "stream_tail env s1 = (es2, err, s2)" by (metis prod.exhaust)
  obtain c2 where c2: "contract_events repr a es2 c1 = Inr c2" "cs_open c2 = []" "cs_seen c1 \<subseteq> cs_seen c2"
    using stream_tail_contract [OF c1(2), of repr a env] by (auto simp: t)
  have fin: "stream_finished env s = (es1 @ es2, err, s2)" by (simp add: stream_finished_eq bt and_then_def t)
  have "contract_events repr a (es @ es1 @ es2) contract_init = Inr c2"
    by (simp only: contract_events_append c(1) c1(1) c2(1) bind_result.simps)
  moreover from this have "contract_events repr a (message_start b # es @ es1 @ es2) contract_init = Inr c2"
    by (simp add: contract_other_event message_start_def)
  moreover have seen: "cs_seen c2 \<noteq> {}" using c2(3) c1(3) by auto
  moreover have "case err of None \<Rightarrow> last (es @ es1 @ es2) = message_stop \<and> es @ es1 @ es2 \<noteq> []
     | Some e \<Rightarrow> e = ValueError \<and> (\<exists>enc t. se_encoder env = Some enc \<and> enc t = None \<and> t \<in> set (counted_texts (ss_sse s2)))"
    by (cases rule: stream_tail_cases [of env s1]) (use t in auto)
  ultimately show ?thesis
    using c2(2) answer_accepted [of repr a "es @ es1 @ es2" c2 b] by (auto simp: fin split: option.splits)
qed

text \<open>C7. Whatever the upstream sends (any chunks, ended normally or by an exception), and whatever the
  heuristic parser, the JSON library and the tokenizer answer, the blocks of the answer are well-formed
  and all closed in the end, and there is at least one.  If the generator ends without an exception of its own, its
  events satisfy the whole Anthropic stream contract: one \<open>message_start\<close>, every block started once, fed
  only deltas of its own kind and stopped, and \<open>message_stop\<close> at the end.  The one exception that can
  escape it is the tokenizer's \<open>ValueError\<close>, after an answer that the upstream ended normally.\<close>

theorem stream_response_contract:
  "case stream_response env cks failure (stream_init mid model tokens h) of (es, err) \<Rightarrow>
     (\<exists>c. contract_events repr True es contract_init = Inr c \<and> cs_open c = [] \<and> cs_seen c \<noteq> {}) \<and>
     (case err of
        None \<Rightarrow> assert_anthropic_stream_contract repr True es = Inr ()
      | Some e \<Rightarrow> e = ValueError \<and> failure = None \<and> (\<exists>enc t. se_encoder env = Some enc \<and> enc t = None))"
proof -
  obtain es err s where r: "for_each (handle_chunk env) cks (stream_init mid model tokens h) = (es, err, s)"
    by (metis prod.exhaust)
  show ?thesis
  proof (cases "err = None \<and> failure = None")
    case True
    obtain es' err' s' where f: "stream_finished env s = (es', err', s')" by (metis prod.exhaust)
    show ?thesis
      using finished_cases [of env cks mid model tokens h es s repr True "ss_sse (stream_init mid model tokens h)"] r True
      by (auto simp: stream_response_def f split: option.splits)
  next
    case False
    then obtain x where x: "stream_response env cks failure (stream_init mid model tokens h) =
        (message_start (ss_sse (stream_init mid model tokens h)) # es @ stream_failed env x s, None)"
      by (cases err; cases failure) (auto simp: stream_response_def r)
    have "assert_anthropic_stream_contract repr True
        (message_start (ss_sse (stream_init mid model tokens h)) # es @ stream_failed env x s) = Inr ()"
      by (rule failed_accepted [OF r])
    with accepted_events [OF this] show ?thesis unfolding x by simp
  qed
qed

text \<open>Only the tokenizer: without one the generator never raises.\<close>

lemma no_encoder_no_exception: "se_encoder env = None \<Longrightarrow> snd (stream_response env cks failure (stream_init mid model tokens h)) = None"
proof -
  assume n: "se_encoder env = None"
  obtain es err s where r: "for_each (handle_chunk env) cks (stream_init mid model tokens h) = (es, err, s)"
    by (metis prod.exhaust)
  obtain es' err' s' where f: "stream_finished env s = (es', err', s')" by (metis prod.exhaust)
  show ?thesis
    using finished_cases [of env cks mid model tokens h es s "\<lambda>_. []" True "ss_sse (stream_init mid model tokens h)"] r n
    by (cases err; cases failure) (auto simp: stream_response_def f split: option.splits)
qed

text \<open>An answer with neither an upstream failure nor an exception while its chunks are handled
  satisfies the strict contract, the one that allows no \<open>error\<close> event.\<close>

theorem stream_response_strict_contract:
  assumes "for_each (handle_chunk env) cks (stream_init mid model tokens h) = (es, None, s)"
    and "snd (stream_response env cks None (stream_init mid model tokens h)) = None"
  shows "assert_anthropic_stream_contract repr False
    (fst (stream_response env cks None (stream_init mid model tokens h))) = Inr ()"
  using finished_cases [OF assms(1), of repr False "ss_sse (stream_init mid model tokens h)"] assms(2)
  by (auto simp: stream_response_def assms(1) split: prod.splits)

definition plain_env :: "unit stream_env" where
  "plain_env =
     \<lparr>se_thinking_enabled = True, se_aliases = [], se_loads = (\<lambda>_. None), se_dumps = (\<lambda>_. ''{}''),
      se_fresh = (\<lambda>_. ''0''), se_feed = (\<lambda>t h. ((t, []), h)), se_flush = (\<lambda>_. []), se_encoder = None,
      se_message = (\<lambda>_. ''failed'')\<rparr>"

definition plain_chunk :: chunk where
  "plain_chunk = \<lparr>ck_usage = None, ck_choice = Some (Some ''stop'', Some
     \<lparr>dl_reasoning = Some ''why'', dl_content = Some ''hi'', dl_tool_calls = []\<rparr>)\<rparr>"

theorem stream_response_strict_contract_witness:
  "assert_anthropic_stream_contract (\<lambda>_. []) False
    (fst (stream_response plain_env [plain_chunk] None (stream_init ''m'' ''x'' (JInt 3) ()))) = Inr ()"
proof (rule stream_response_strict_contract)
  show "snd (stream_response plain_env [plain_chunk] None (stream_init ''m'' ''x'' (JInt 3) ())) = None"
    by (rule no_encoder_no_exception) (simp add: plain_env_def)
  show "for_each (handle_chunk plain_env) [plain_chunk] (stream_init ''m'' ''x'' (JInt 3) ()) =
    (fst (for_each (handle_chunk plain_env) [plain_chunk] (stream_init ''m'' ''x'' (JInt 3) ())), None,
     snd (snd (for_each (handle_chunk plain_env) [plain_chunk] (stream_init ''m'' ''x'' (JInt 3) ()))))"
    by code_simp
qed

subsection \<open>A text that the tokenizer refuses\<close>

text \<open>An encoder with the special token of the encoding that the program loads.\<close>

definition guarded_env :: "unit stream_env" where
  "guarded_env = plain_env\<lparr>se_encoder := Some (\<lambda>t. if py_find ''<|endoftext|>'' t \<noteq> None then None else Some (length t))\<rparr>"

definition special_chunk :: chunk where
  "special_chunk = \<lparr>ck_usage = None, ck_choice = Some (Some ''stop'', Some
     \<lparr>dl_reasoning = Some ''the token <|endoftext|>'', dl_content = Some ''hi'', dl_tool_calls = []\<rparr>)\<rparr>"

text \<open>An answer whose reasoning names a special token of the tokenizer, from an upstream that reports no usage, ends in
  \<open>ValueError\<close>: the client has all the blocks but neither \<open>message_delta\<close> nor \<open>message_stop\<close>.\<close>

theorem special_token_cuts_answer:
  "case stream_response guarded_env [special_chunk] None (stream_init ''m'' ''x'' (JInt 3) ()) of (es, err) \<Rightarrow>
     err = Some ValueError \<and> text_content (\<lambda>_. []) es = ''hi'' \<and>
     ''message_delta'' \<notin> set (event_names es) \<and> ''message_stop'' \<notin> set (event_names es)"
  by code_simp

end
