(* ===== verification/StreamText.thy ===== *)
theory StreamText
  imports StreamSound
begin

section \<open>What a streamed answer says\<close>

text \<open>
  The text and the thinking that a client reads out of the events are the text and the thinking
  of the upstream's content, as the one-pass lexer of \<open>ThinkTag\<close> labels it, after the text has gone
  through the heuristic parser: between the tag parser, the builder and the tail of the stream nothing is lost,
  duplicated or reordered.  What the heuristic parser itself takes out is in \<open>HeuristicSound\<close>.
\<close>

named_theorems says_intros \<open>what the stages of a stream say\<close>

subsection \<open>Reading events\<close>

lemma content_append [simp]:
  "text_content repr (es @ fs) = text_content repr es @ text_content repr fs"
  "thinking_content repr (es @ fs) = thinking_content repr es @ thinking_content repr fs"
  by (simp_all add: text_content_def thinking_content_def)

lemma content_Nil [simp]: "text_content repr [] = []" "thinking_content repr [] = []"
  by (simp_all add: text_content_def thinking_content_def)

lemma content_Cons:
  "text_content repr (e # es) = text_parts repr e @ text_content repr es"
  "thinking_content repr (e # es) = thinking_part repr e @ thinking_content repr es"
  by (simp_all add: text_content_def thinking_content_def)

lemma parts_builder [simp]:
  "text_parts repr (content_block_start i ty []) = []"
  "text_parts repr (content_block_start i ''tool_use'' kws) = []"
  "text_parts repr (content_block_stop i) = []"
  "text_parts repr (content_block_delta i ''text_delta'' t) = t"
  "text_parts repr (content_block_delta i ''thinking_delta'' t) = []"
  "text_parts repr (content_block_delta i ''input_json_delta'' t) = []"
  "text_parts repr message_stop = []"
  "text_parts repr (message_start b) = []"
  "text_parts repr (message_delta r n b) = []"
  by (simp_all add: text_parts_def content_block_start_def content_block_stop_def content_block_delta_def
      message_stop_def message_start_def message_delta_def kwarg_def json_get_or_def)

lemma thinking_builder [simp]:
  "thinking_part repr (content_block_start i ty kws) = []"
  "thinking_part repr (content_block_stop i) = []"
  "thinking_part repr (content_block_delta i ''text_delta'' t) = []"
  "thinking_part repr (content_block_delta i ''thinking_delta'' t) = t"
  "thinking_part repr (content_block_delta i ''input_json_delta'' t) = []"
  "thinking_part repr message_stop = []"
  "thinking_part repr (message_start b) = []"
  "thinking_part repr (message_delta r n b) = []"
  by (simp_all add: thinking_part_def content_block_start_def content_block_stop_def content_block_delta_def
      message_stop_def message_start_def message_delta_def json_get_or_def)

subsection \<open>What an emission says\<close>

text \<open>Recorded text has a text block.\<close>

definition texted :: "'h stream_state \<Rightarrow> bool" where
  "texted s \<longleftrightarrow> 0 \<le> cb_next_index (sb_blocks (ss_sse s)) \<and>
     (cb_text_started (sb_blocks (ss_sse s)) \<longrightarrow> cb_text_index (sb_blocks (ss_sse s)) \<noteq> -1) \<and>
     (cb_text_index (sb_blocks (ss_sse s)) = -1 \<longrightarrow> accumulated_text (ss_sse s) = [])"

lemma texted_set_blocks [simp]:
  "cb_next_index (f (sb_blocks (ss_sse s))) = cb_next_index (sb_blocks (ss_sse s)) \<Longrightarrow>
   cb_text_index (f (sb_blocks (ss_sse s))) = cb_text_index (sb_blocks (ss_sse s)) \<Longrightarrow>
   cb_text_started (f (sb_blocks (ss_sse s))) = cb_text_started (sb_blocks (ss_sse s)) \<Longrightarrow>
   texted (set_blocks f s) = texted s"
  by (simp add: texted_def set_blocks_def upd_blocks_def accumulated_text_def)

lemma texted_other [simp]:
  "texted (s\<lparr>ss_think := p\<rparr>) = texted s" "texted (s\<lparr>ss_heur := h\<rparr>) = texted s"
  "texted (s\<lparr>ss_alias_buffers := d\<rparr>) = texted s" "texted (s\<lparr>ss_usage := u\<rparr>) = texted s"
  "texted (s\<lparr>ss_finish := f\<rparr>) = texted s"
  by (simp_all add: texted_def)

lemma counters [simp]:
  "cb_next_index (cb_set_tool i st b) = cb_next_index b" "cb_text_index (cb_set_tool i st b) = cb_text_index b"
  "cb_next_index (snd (cb_ensure_tool_state i b)) = cb_next_index b"
  "cb_text_index (snd (cb_ensure_tool_state i b)) = cb_text_index b"
  "cb_next_index (cb_set_stream_tool_id i t b) = cb_next_index b"
  "cb_text_index (cb_set_stream_tool_id i t b) = cb_text_index b"
  "cb_next_index (cb_register_tool_name i t b) = cb_next_index b"
  "cb_text_index (cb_register_tool_name i t b) = cb_text_index b"
  "cb_text_started (cb_set_tool i st b) = cb_text_started b"
  "cb_text_started (snd (cb_ensure_tool_state i b)) = cb_text_started b"
  "cb_text_started (cb_set_stream_tool_id i t b) = cb_text_started b"
  "cb_text_started (cb_register_tool_name i t b) = cb_text_started b"
  by (auto simp: cb_set_tool_def cb_ensure_tool_state_def cb_set_stream_tool_id_def cb_register_tool_name_def
      Let_def case_prod_beta split: option.split)

lemma buffer_counters:
  "cb_buffer_task_args loads i t b = (r, b') \<Longrightarrow> cb_next_index b' = cb_next_index b \<and> cb_text_index b' = cb_text_index b \<and>
     cb_text_started b' = cb_text_started b"
  by (auto simp: cb_buffer_task_args_def Let_def split: option.splits sum.splits if_splits)

text \<open>
  Unless an exception is raised, the events of \<open>r\<close> carry the text \<open>t\<close> and the thinking \<open>k\<close>, the
  builder has recorded the same text, and the parsers are left alone.
\<close>

definition says :: "(json \<Rightarrow> string) \<Rightarrow> 'h stream_state \<Rightarrow> 'h emission \<Rightarrow> string \<Rightarrow> string \<Rightarrow> bool" where
  "says repr s r t k \<longleftrightarrow> (case r of (es, err, s') \<Rightarrow> err = None \<longrightarrow>
     text_content repr es = t \<and> thinking_content repr es = k \<and>
     accumulated_text (ss_sse s') = accumulated_text (ss_sse s) @ t \<and>
     ss_think s' = ss_think s \<and> ss_heur s' = ss_heur s \<and> (texted s \<longrightarrow> texted s'))"

lemma says_nil [says_intros]:
  "accumulated_text (ss_sse s') = accumulated_text (ss_sse s) \<Longrightarrow> ss_think s' = ss_think s \<Longrightarrow> ss_heur s' = ss_heur s \<Longrightarrow>
     (texted s \<Longrightarrow> texted s') \<Longrightarrow> says repr s ([], None, s') [] []"
  by (simp add: says_def)

lemma says_raise [says_intros]: "says repr s ([], Some e, s') t k"
  by (simp add: says_def)

lemma says_and_then:
  assumes "says repr s r t k" and "\<And>es s'. r = (es, None, s') \<Longrightarrow> says repr s' (f s') t' k'"
  shows "says repr s (and_then r f) (t @ t') (k @ k')"
proof (cases r)
  case (fields es err s')
  obtain es' err' s'' where "f s' = (es', err', s'')" by (metis prod.exhaust)
  then show ?thesis using assms by (cases err) (auto simp: fields says_def and_then_def)
qed

lemma says_then: "says repr s r [] [] \<Longrightarrow> (\<And>es s'. r = (es, None, s') \<Longrightarrow> says repr s' (f s') t k) \<Longrightarrow>
    says repr s (and_then r f) t k"
  using says_and_then [of repr s r "[]" "[]" f t k] by simp

lemma says_each:
  assumes "\<And>x s. x \<in> set xs \<Longrightarrow> says repr s (body x s) (t x) (k x)"
  shows "says repr s (for_each body xs s) (concat (map t xs)) (concat (map k xs))"
  using assms
proof (induction xs arbitrary: s)
  case Nil
  then show ?case by (simp add: says_def)
next
  case (Cons x xs)
  then show ?case by (auto intro!: says_and_then)
qed

lemma says_each_silent:
  assumes "\<And>x s. x \<in> set xs \<Longrightarrow> says repr s (body x s) [] []"
  shows "says repr s (for_each body xs s) [] []"
proof -
  have e: "concat (map (\<lambda>_. []) xs) = ([] :: string)" by (induction xs) auto
  show ?thesis using says_each [of xs repr body "\<lambda>_. []" "\<lambda>_. []" s] assms unfolding e by blast
qed

text \<open>Methods of the builder.\<close>

lemma acc_upd_blocks [simp]: "accumulated_text (upd_blocks f b) = accumulated_text b"
  "accumulated_text (b\<lparr>sb_blocks := m\<rparr>) = accumulated_text b"
  by (simp_all add: accumulated_text_def upd_blocks_def)

lemma says_ensure [says_intros]:
  "says repr s (yields ensure_text_block s) [] []"
  "says repr s (yields ensure_thinking_block s) [] []"
  "says repr s (yields close_content_blocks s) [] []"
  by (auto simp: says_def yields_def ensure_text_block_def ensure_thinking_block_def close_content_blocks_def
      yield_if_def start_text_block_def start_thinking_block_def stop_text_block_def stop_thinking_block_def
      content_Cons Let_def case_prod_beta texted_def upd_blocks_def cb_allocate_index_def accumulated_text_def)

lemma ensure_text_started:
  "yields ensure_text_block s = (es, err, s') \<Longrightarrow> cb_text_started (sb_blocks (ss_sse s'))"
  by (auto simp: yields_def ensure_text_block_def yield_if_def start_text_block_def stop_thinking_block_def
      Let_def case_prod_beta upd_blocks_def)

lemma says_emit_text [says_intros]: "says repr s (emit_text t s) t []"
  unfolding emit_text_def
  by (rule says_then [OF says_ensure(1)])
    (auto simp: says_def yield1_def emit_text_delta_def content_Cons accumulated_text_def texted_def
      dest: ensure_text_started)

lemma says_emit_thinking [says_intros]: "says repr s (emit_thinking t s) [] t"
  unfolding emit_thinking_def
  by (rule says_then [OF says_ensure(2)])
    (simp add: says_def yield1_def emit_thinking_delta_def content_Cons accumulated_text_def texted_def)

lemma says_heuristic [says_intros]: "says repr s (iter_heuristic_tool_use_sse env u s) [] []"
  unfolding iter_heuristic_tool_use_sse_def
  by (rule says_then [OF says_ensure(3)])
    (simp add: says_def yields_def heuristic_block_def content_Cons case_prod_beta texted_def
      cb_allocate_index_def)

subsection \<open>Tool calls say nothing\<close>

lemma set_blocks_acc [simp]:
  "accumulated_text (ss_sse (set_blocks f s)) = accumulated_text (ss_sse s)"
  "ss_think (set_blocks f s) = ss_think s"
  "ss_heur (set_blocks f s) = ss_heur s"
  by (simp_all add: set_blocks_def)

lemma says_from:
  "says repr s' r t k \<Longrightarrow> accumulated_text (ss_sse s') = accumulated_text (ss_sse s) \<Longrightarrow>
     ss_think s' = ss_think s \<Longrightarrow> ss_heur s' = ss_heur s \<Longrightarrow> (texted s \<Longrightarrow> texted s') \<Longrightarrow> says repr s r t k"
  by (cases r) (simp add: says_def)

lemma says_tool_delta [says_intros]: "says repr s (tool_delta_out i t s) [] []"
  by (auto simp: says_def tool_delta_out_def emit_tool_delta_def content_Cons texted_def upd_blocks_def
      accumulated_text_def split: option.splits)

lemma says_emit_args [says_intros]: "says repr s (emit_tool_arg_delta env i args s) [] []"
proof -
  have out: "says repr s (tool_delta_out i t s') [] []"
    if "accumulated_text (ss_sse s') = accumulated_text (ss_sse s)" "ss_think s' = ss_think s"
      "ss_heur s' = ss_heur s" "texted s \<Longrightarrow> texted s'" for t s'
    by (rule says_from [OF says_tool_delta that])
  show ?thesis unfolding emit_tool_arg_delta_def
    by (auto simp: Let_def split: option.splits prod.splits sum.splits intro!: says_intros out
        dest: buffer_counters)
qed

lemma says_process_tool [says_intros]: "says repr s (process_tool_call env tc s) [] []"
proof -
  have start: "says repr s (start_tool env i rid name s) [] []" for i rid name and s :: "'a stream_state"
    unfolding start_tool_def
  proof (rule says_then)
    show "says repr s (yield1 (start_tool_block i j n) s) [] []" for j n
      by (simp add: says_def yield1_def start_tool_block_def content_Cons case_prod_beta texted_def
          cb_allocate_index_def)
    show "says repr s' (case tool_of i s' of None \<Rightarrow> ([], Some KeyError, s')
        | Some st \<Rightarrow> if tc_pre_start_args st \<noteq> []
            then emit_tool_arg_delta env i (tc_pre_start_args st)
                   (set_blocks (cb_set_tool i (st\<lparr>tc_pre_start_args := []\<rparr>)) s')
            else ([], None, s')) [] []" for s'
      by (auto split: option.splits intro!: says_intros intro: says_from [OF says_emit_args])
  qed
  have send: "says repr s (send_args env i name args s) [] []" for i name args and s :: "'a stream_state"
    unfolding send_args_def
    by (auto simp: Let_def case_prod_beta intro!: says_intros intro: says_from [OF says_emit_args])
  have rest: "says repr s (and_then (if c then start_tool env i rid name s' else ([], None, s'))
      (send_args env i name args)) [] []"
    if "accumulated_text (ss_sse s') = accumulated_text (ss_sse s)" "ss_think s' = ss_think s"
      "ss_heur s' = ss_heur s" "texted s' = texted s" for c i rid name args s'
    by (rule says_from [OF _ that(1,2,3)], rule says_then) (auto intro!: start send says_intros simp: that(4))
  have rec: "accumulated_text (ss_sse (record_tool i tc name s)) = accumulated_text (ss_sse s)"
    "ss_think (record_tool i tc name s) = ss_think s" "ss_heur (record_tool i tc name s) = ss_heur s"
    "texted (record_tool i tc name s) = texted s" for i name
    by (auto simp: record_tool_def Let_def split: option.splits)
  show ?thesis
  proof (cases "td_function tc")
    case None
    then show ?thesis by (simp add: process_tool_call_def says_raise)
  next
    case (Some na)
    then show ?thesis unfolding process_tool_call_def Let_def
      by (cases na) (simp only: option.case prod.case rest [OF rec])
  qed
qed

subsection \<open>Content through the tag parser\<close>

text \<open>The characters of one label.\<close>

definition typed :: "content_type \<Rightarrow> (content_type \<times> char) list \<Rightarrow> string" where
  "typed ty cs = map snd (filter (\<lambda>c. fst c = ty) cs)"

lemma typed_simps [simp]:
  "typed ty [] = []" "typed ty (cs @ ds) = typed ty cs @ typed ty ds"
  "typed ty (map (Pair ty') t) = (if ty = ty' then t else [])"
  by (auto simp: typed_def comp_def)

text \<open>The heuristic parser, fed with the pieces of a text one after the other: what it shows, and its state.\<close>

fun feed_all :: "'h stream_env \<Rightarrow> string list \<Rightarrow> 'h \<Rightarrow> string \<times> 'h" where
  "feed_all env [] h = ([], h)"
| "feed_all env (t # ts) h =
     (case se_feed env t h of
        ((out, tools), h) \<Rightarrow> (case feed_all env ts h of (outs, h) \<Rightarrow> (out @ outs, h)))"

lemma feed_all_append:
  "feed_all env (ts @ us) h =
     (fst (feed_all env ts h) @ fst (feed_all env us (snd (feed_all env ts h))), snd (feed_all env us (snd (feed_all env ts h))))"
  by (induction ts arbitrary: h) (auto split: prod.splits)

text \<open>The pieces that the tag parser reports as text.\<close>

fun texts_of :: "content_chunk list \<Rightarrow> string list" where
  "texts_of [] = []"
| "texts_of (ContentChunk TEXT t # ps) = t # texts_of ps"
| "texts_of (ContentChunk THINKING t # ps) = texts_of ps"

definition shown :: "'h stream_env \<Rightarrow> string \<Rightarrow> string" where
  "shown env t = (if se_thinking_enabled env then t else [])"

lemma shown_simps [simp]: "shown env [] = []" "shown env (s @ t) = shown env s @ shown env t"
  by (simp_all add: shown_def)

lemma for_each_Nil: "for_each body [] = (\<lambda>s. ([], None, s))"
  by (rule ext) simp

lemma concat_texts: "concat (texts_of ps) = typed TEXT (chars ps)"
  by (induction ps rule: texts_of.induct) auto

text \<open>The parts of a piece of content: the text that the heuristic parser makes of them, and the thinking.\<close>

definition tells :: "(json \<Rightarrow> string) \<Rightarrow> 'h stream_env \<Rightarrow> content_chunk list \<Rightarrow> 'h stream_state \<Rightarrow> 'h emission \<Rightarrow> bool" where
  "tells repr env ps s r \<longleftrightarrow> (case r of (es, err, s') \<Rightarrow> err = None \<longrightarrow>
     (let (out, h) = feed_all env (texts_of ps) (ss_heur s) in
      text_content repr es = out \<and> thinking_content repr es = shown env (typed THINKING (chars ps)) \<and>
      accumulated_text (ss_sse s') = accumulated_text (ss_sse s) @ out \<and>
      ss_think s' = ss_think s \<and> ss_heur s' = h \<and> (texted s \<longrightarrow> texted s')))"

lemma tells_part: "tells repr env [p] s (handle_part env p s)"
proof (cases p)
  case (ContentChunk ty t)
  show ?thesis
  proof (cases ty)
    case TEXT
    obtain out tools h where h: "se_feed env t (ss_heur s) = ((out, tools), h)" by (metis prod.exhaust)
    let ?s = "s\<lparr>ss_heur := h\<rparr>"
    have "says repr ?s (and_then (if out \<noteq> [] then emit_text out ?s else ([], None, ?s))
        (for_each (iter_heuristic_tool_use_sse env) tools)) (out @ []) ([] @ [])"
      by (rule says_and_then) (auto intro: says_emit_text says_nil says_each_silent says_heuristic)
    then show ?thesis by (auto simp: handle_part_def ContentChunk TEXT h Let_def says_def tells_def)
  next
    case THINKING
    have "says repr s (handle_part env p s) [] (shown env t)"
      by (auto simp: handle_part_def ContentChunk THINKING shown_def intro: says_intros)
    then show ?thesis by (auto simp: ContentChunk THINKING says_def tells_def)
  qed
qed

lemma tells_parts: "tells repr env ps s (for_each (handle_part env) ps s)"
proof (induction ps arbitrary: s)
  case Nil
  then show ?case by (simp add: tells_def)
next
  case (Cons p ps)
  obtain es err s1 where r: "handle_part env p s = (es, err, s1)" by (metis prod.exhaust)
  show ?case
  proof (cases err)
    case None
    obtain es2 err2 s2 where r2: "for_each (handle_part env) ps s1 = (es2, err2, s2)" by (metis prod.exhaust)
    have e: "texts_of (p # ps) = texts_of [p] @ texts_of ps" "chars (p # ps) = chars [p] @ chars ps"
      by (cases p, rename_tac ty t, case_tac ty) simp_all
    have all: "for_each (handle_part env) (p # ps) s = (es @ es2, err2, s2)" by (simp add: r r2 None and_then_def)
    obtain o1 h1 where f1: "feed_all env (texts_of [p]) (ss_heur s) = (o1, h1)" by (metis prod.exhaust)
    obtain o2 h2 where f2: "feed_all env (texts_of ps) h1 = (o2, h2)" by (metis prod.exhaust)
    have f: "feed_all env (texts_of (p # ps)) (ss_heur s) = (o1 @ o2, h2)"
      unfolding e(1) feed_all_append by (simp add: f1 f2)
    have t1: "text_content repr es = o1" "thinking_content repr es = shown env (typed THINKING (chars [p]))"
      "accumulated_text (ss_sse s1) = accumulated_text (ss_sse s) @ o1" "ss_think s1 = ss_think s" "ss_heur s1 = h1"
      "texted s \<longrightarrow> texted s1"
      using tells_part [of repr env p s] unfolding tells_def r None f1 by simp_all
    have "tells repr env ps s1 (es2, err2, s2)" using Cons.IH [of s1] unfolding r2 .
    then have "err2 = None \<longrightarrow> text_content repr es2 = o2 \<and> thinking_content repr es2 = shown env (typed THINKING (chars ps)) \<and>
      accumulated_text (ss_sse s2) = accumulated_text (ss_sse s1) @ o2 \<and> ss_think s2 = ss_think s1 \<and> ss_heur s2 = h2 \<and>
      (texted s1 \<longrightarrow> texted s2)"
      unfolding tells_def t1(5) f2 by simp
    then show ?thesis unfolding tells_def all f e(2) using t1 by simp
  qed (simp add: r tells_def and_then_def)
qed

text \<open>Content: what the parser reports of it, labelled, and what it keeps.\<close>

definition content_str :: "string option \<Rightarrow> string" where
  "content_str c = (case c of None \<Rightarrow> [] | Some t \<Rightarrow> t)"

definition settled :: "think_parser \<Rightarrow> bool" where
  "settled p \<longleftrightarrow> tp_buffer p = [] \<or> undecided (tp_in_think p) (tp_buffer p)"

definition reads :: "think_parser \<Rightarrow> string \<Rightarrow> (content_type \<times> char) list \<Rightarrow> think_parser \<Rightarrow> bool" where
  "reads p t cs p' \<longleftrightarrow> settled p' \<and> (\<forall>r. think_lex (tp_in_think p) (tp_buffer p @ t @ r) =
     cs @ think_lex (tp_in_think p') (tp_buffer p' @ r))"

lemma reads_none: "settled p \<Longrightarrow> reads p [] [] p"
  by (simp add: reads_def)

lemma reads_feed: "think_feed t p = (cs, p') \<Longrightarrow> reads p t (chars cs) p'"
  using think_feed_lex by (simp add: reads_def settled_def)

lemma reads_trans: "reads p t cs p' \<Longrightarrow> reads p' t' cs' p'' \<Longrightarrow> reads p (t @ t') (cs @ cs') p''"
  by (simp add: reads_def)

text \<open>The parser after a piece of content.\<close>

definition think_after :: "string option \<Rightarrow> think_parser \<Rightarrow> think_parser" where
  "think_after c p = (if truthy_str c then snd (think_feed (the c) p) else p)"

text \<open>
  An emission hears \<open>t\<close>: the tag parser labels it, the heuristic parser is fed with the pieces \<open>ts\<close> of what is text, and
  the client reads what that shows.  Its thinking is the tag parser's too, where the upstream sends no
  reasoning of its own (\<open>plain\<close>).
\<close>

definition heard :: "(json \<Rightarrow> string) \<Rightarrow> 'h stream_env \<Rightarrow> bool \<Rightarrow> string \<Rightarrow> 'h stream_state \<Rightarrow> sse_event list \<Rightarrow> 'h stream_state
    \<Rightarrow> (content_type \<times> char) list \<Rightarrow> string list \<Rightarrow> bool" where
  "heard repr env plain t s es s' cs ts \<longleftrightarrow>
     reads (ss_think s) t cs (ss_think s') \<and> concat ts = typed TEXT cs \<and>
     text_content repr es = fst (feed_all env ts (ss_heur s)) \<and> ss_heur s' = snd (feed_all env ts (ss_heur s)) \<and>
     accumulated_text (ss_sse s') = accumulated_text (ss_sse s) @ text_content repr es \<and> (texted s \<longrightarrow> texted s') \<and>
     (plain \<longrightarrow> thinking_content repr es = shown env (typed THINKING cs))"

definition hears :: "(json \<Rightarrow> string) \<Rightarrow> 'h stream_env \<Rightarrow> bool \<Rightarrow> string \<Rightarrow> 'h stream_state \<Rightarrow> 'h emission \<Rightarrow> bool" where
  "hears repr env plain t s r \<longleftrightarrow> (case r of (es, err, s') \<Rightarrow> settled (ss_think s) \<longrightarrow> err = None \<longrightarrow>
     (\<exists>cs ts. heard repr env plain t s es s' cs ts))"

lemma hears_silent:
  assumes "says repr s r [] k" and "plain \<longrightarrow> k = []"
  shows "hears repr env plain [] s r"
  using assms by (cases r) (auto simp: hears_def heard_def says_def intro!: exI [of _ "[]"] reads_none)

lemma hears_nil:
  "ss_sse s' = ss_sse s \<Longrightarrow> ss_think s' = ss_think s \<Longrightarrow> ss_heur s' = ss_heur s \<Longrightarrow> hears repr env plain [] s ([], None, s')"
  by (rule hears_silent [OF says_nil]) (simp_all add: texted_def)

lemma heard_trans:
  assumes "heard repr env plain t s es s' cs ts" and "heard repr env plain t' s' es' s'' cs' ts'"
  shows "heard repr env plain (t @ t') s (es @ es') s'' (cs @ cs') (ts @ ts')"
  using assms reads_trans [of "ss_think s" t cs "ss_think s'" t' cs' "ss_think s''"]
  by (auto simp: heard_def feed_all_append)

lemma hears_then:
  assumes "hears repr env plain t s r" and "\<And>es s'. r = (es, None, s') \<Longrightarrow> hears repr env plain t' s' (f s')"
  shows "hears repr env plain (t @ t') s (and_then r f)"
proof (cases r)
  case (fields es err s')
  obtain es' err' s'' where f: "f s' = (es', err', s'')" by (metis prod.exhaust)
  show ?thesis
  proof (cases err)
    case None
    have h1: "hears repr env plain t s (es, None, s')" using assms(1) fields None by simp
    have h2: "hears repr env plain t' s' (es', err', s'')" using assms(2) fields None f by simp
    have "\<exists>cs ts. heard repr env plain (t @ t') s (es @ es') s'' cs ts" if a: "settled (ss_think s)" "err' = None"
    proof -
      obtain cs ts where h: "heard repr env plain t s es s' cs ts" using h1 a(1) by (auto simp: hears_def)
      then have "settled (ss_think s')" by (simp add: heard_def reads_def)
      then obtain cs' ts' where "heard repr env plain t' s' es' s'' cs' ts'" using h2 a(2) by (auto simp: hears_def)
      from heard_trans [OF h this] show ?thesis by blast
    qed
    then show ?thesis by (simp add: fields None and_then_def f hears_def)
  qed (simp add: fields hears_def and_then_def)
qed

lemma hears_content: "hears repr env plain (content_str c) s (handle_content env c s)"
proof (cases "truthy_str c")
  case True
  then obtain t where t: "c = Some t" by (cases c) auto
  obtain ps p where f: "think_feed t (ss_think s) = (ps, p)" by (metis prod.exhaust)
  obtain es err s' where r: "for_each (handle_part env) ps (s\<lparr>ss_think := p\<rparr>) = (es, err, s')" by (metis prod.exhaust)
  have "tells repr env ps (s\<lparr>ss_think := p\<rparr>) (es, err, s')" using tells_parts [of repr env ps "s\<lparr>ss_think := p\<rparr>"] r by simp
  then have "err = None \<Longrightarrow> heard repr env plain t s es s' (chars ps) (texts_of ps)"
    using reads_feed [OF f] by (auto simp: tells_def heard_def concat_texts Let_def case_prod_beta)
  then show ?thesis using True by (auto simp: t f content_str_def handle_content_def hears_def r)
next
  case False
  then have "content_str c = []" by (cases c) (auto simp: content_str_def)
  then show ?thesis using False by (simp add: handle_content_def hears_nil)
qed

definition chunk_content :: "chunk \<Rightarrow> string" where
  "chunk_content ck = (case ck_choice ck of Some (_, Some d) \<Rightarrow> content_str (dl_content d) | _ \<Rightarrow> [])"

definition chunk_reasons :: "chunk \<Rightarrow> bool" where
  "chunk_reasons ck = (case ck_choice ck of Some (_, Some d) \<Rightarrow> truthy_str (dl_reasoning d) | _ \<Rightarrow> False)"

lemma hears_from:
  "hears repr env plain t s' r \<Longrightarrow> ss_sse s' = ss_sse s \<Longrightarrow> ss_think s' = ss_think s \<Longrightarrow> ss_heur s' = ss_heur s \<Longrightarrow>
     hears repr env plain t s r"
  by (cases r) (simp add: hears_def heard_def texted_def)

lemma hears_body:
  assumes "plain \<longrightarrow> \<not> truthy_str (dl_reasoning d)"
  shows "hears repr env plain (content_str (dl_content d)) s
    (and_then
      (if se_thinking_enabled env \<and> truthy_str (dl_reasoning d)
       then emit_thinking (the (dl_reasoning d)) s else ([], None, s)) (\<lambda>s.
    and_then (handle_content env (dl_content d) s) (handle_tool_calls env (dl_tool_calls d))))"
proof -
  let ?r = "if se_thinking_enabled env \<and> truthy_str (dl_reasoning d)
    then emit_thinking (the (dl_reasoning d)) s else ([], None, s)"
  have r: "hears repr env plain [] s ?r"
    using assms by (auto intro: hears_silent [OF says_emit_thinking] hears_nil)
  have tools: "hears repr env plain [] s' (handle_tool_calls env tcs s')" for tcs s'
    unfolding handle_tool_calls_def
    by (rule hears_silent) (auto intro!: says_nil says_then says_ensure(3) says_each_silent says_process_tool)
  have "hears repr env plain (content_str (dl_content d) @ []) s'
      (and_then (handle_content env (dl_content d) s') (handle_tool_calls env (dl_tool_calls d)))" for s'
    by (rule hears_then [OF hears_content tools])
  from hears_then [OF r this] show ?thesis by simp
qed

lemma hears_chunk:
  assumes "plain \<longrightarrow> \<not> chunk_reasons ck"
  shows "hears repr env plain (chunk_content ck) s (handle_chunk env ck s)"
proof -
  show ?thesis
  proof (cases "\<exists>fin d. ck_choice ck = Some (fin, Some d)")
    case True
    then obtain fin d where ck: "ck_choice ck = Some (fin, Some d)" by blast
    define s1 where "s1 = (case ck_usage ck of None \<Rightarrow> s | Some u \<Rightarrow> s\<lparr>ss_usage := Some u\<rparr>)"
    define s2 where "s2 = (if truthy_str fin then s1\<lparr>ss_finish := fin\<rparr> else s1)"
    have "ss_sse s2 = ss_sse s" "ss_think s2 = ss_think s" "ss_heur s2 = ss_heur s"
      by (auto simp: s1_def s2_def split: option.split)
    moreover have "plain \<longrightarrow> \<not> truthy_str (dl_reasoning d)" using assms ck by (simp add: chunk_reasons_def)
    ultimately have "hears repr env plain (content_str (dl_content d)) s
      (and_then
        (if se_thinking_enabled env \<and> truthy_str (dl_reasoning d)
         then emit_thinking (the (dl_reasoning d)) s2 else ([], None, s2)) (\<lambda>s.
      and_then (handle_content env (dl_content d) s) (handle_tool_calls env (dl_tool_calls d))))"
      by (intro hears_from [OF hears_body])
    then show ?thesis
      unfolding handle_chunk_def Let_def s1_def [symmetric] ck option.case prod.case s2_def [symmetric]
      by (simp add: chunk_content_def ck)
  next
    case False
    then have "handle_chunk env ck s = ([], None, case ck_usage ck of None \<Rightarrow> s | Some u \<Rightarrow> s\<lparr>ss_usage := Some u\<rparr>)"
        "chunk_content ck = []"
      by (auto simp: handle_chunk_def Let_def chunk_content_def split: option.split)
    then show ?thesis by (auto intro!: hears_nil split: option.split)
  qed
qed

lemma hears_chunks:
  assumes "plain \<longrightarrow> (\<forall>ck \<in> set cks. \<not> chunk_reasons ck)"
  shows "hears repr env plain (concat (map chunk_content cks)) s (for_each (handle_chunk env) cks s)"
  using assms
proof (induction cks arbitrary: s)
  case Nil
  then show ?case by (simp add: hears_nil)
next
  case (Cons ck cks)
  then show ?case by (auto intro!: hears_then hears_chunk)
qed

subsection \<open>The tail of a stream\<close>

lemma reads_flush:
  assumes "settled (ss_think s)"
  shows "\<exists>cs. think_lex (tp_in_think (ss_think s)) (tp_buffer (ss_think s)) = cs \<and>
    says repr (s\<lparr>ss_think := snd (think_flush (ss_think s))\<rparr>) (flush_think env s)
      (typed TEXT cs) (shown env (typed THINKING cs))"
proof -
  let ?p = "ss_think s" and ?s = "s\<lparr>ss_think := snd (think_flush (ss_think s))\<rparr>"
  let ?ty = "if tp_in_think ?p then THINKING else TEXT"
  have lex: "think_lex (tp_in_think ?p) (tp_buffer ?p) = map (Pair ?ty) (tp_buffer ?p)"
    using assms undecided_lex by (auto simp: settled_def)
  have "says repr ?s (flush_think env s) (typed TEXT (map (Pair ?ty) (tp_buffer ?p)))
      (shown env (typed THINKING (map (Pair ?ty) (tp_buffer ?p))))"
    by (auto simp: flush_think_def think_flush_def Let_def shown_def intro: says_intros)
  then show ?thesis using lex by simp
qed

definition padding :: "'h stream_state \<Rightarrow> string \<Rightarrow> bool" where
  "padding s pad \<longleftrightarrow> pad = [] \<or> pad = '' '' \<and> py_strip (accumulated_text (ss_sse s)) = []"

lemma says_ensure_content:
  assumes "texted s"
  shows "\<exists>pad. padding s pad \<and> says repr s (ensure_content s) pad []"
proof (cases "ensure_content s = ([], None, s)")
  case True
  then show ?thesis using says_nil [of s s repr] by (auto simp: padding_def)
next
  case False
  then have e: "ensure_content s = emit_text '' '' s"
    by (simp add: ensure_content_def Let_def split: if_splits)
  have "py_strip (accumulated_text (ss_sse s)) = []"
    using False assms by (auto simp: ensure_content_def Let_def texted_def split: if_splits)
  then show ?thesis using says_emit_text [of repr s "'' ''"] by (auto simp: e padding_def)
qed

lemma says_flushes:
  "says repr s (and_then (for_each (flush_alias_buffer env) bufs s) (flush_task_args env)) [] []"
proof (rule says_then)
  have "says repr s (flush_alias_buffer env x s) [] []" for x and s :: "'a stream_state"
    unfolding flush_alias_buffer_def
    by (auto split: option.splits prod.splits intro!: says_intros says_then)
  then show "says repr s (for_each (flush_alias_buffer env) bufs s) [] []" by (rule says_each_silent)
  show "says repr s' (flush_task_args env s') [] []" for s' :: "'a stream_state"
  proof (cases "cb_flush_task_arg_buffers (se_loads env) (se_dumps env) (sb_blocks (ss_sse s'))")
    case (Inr r)
    obtain outs b where r: "r = (outs, b)" by (cases r)
    have b: "cb_next_index b = cb_next_index (sb_blocks (ss_sse s'))" "cb_text_index b = cb_text_index (sb_blocks (ss_sse s'))"
      "cb_text_started b = cb_text_started (sb_blocks (ss_sse s'))"
      using Inr by (auto simp: cb_flush_task_arg_buffers_def r)
    have "says repr s' (for_each (\<lambda>(i, out). tool_delta_out i out) outs (set_blocks (\<lambda>_. b) s')) [] []"
      by (rule says_from [OF says_each_silent]) (auto intro: says_tool_delta simp: b)
    then show ?thesis by (simp add: flush_task_args_def Inr r)
  qed (simp add: flush_task_args_def says_raise)
qed

lemma stream_tail_silent:
  "text_content repr (fst (stream_tail env s)) = []" "thinking_content repr (fst (stream_tail env s)) = []"
proof -
  have "text_content repr (map (\<lambda>(i, st). content_block_stop (tc_block_index st)) sts) = []"
    "thinking_content repr (map (\<lambda>(i, st). content_block_stop (tc_block_index st)) sts) = []" for sts :: "(int \<times> tool_call_state) list"
    by (induction sts) (auto simp: content_Cons)
  moreover have "text_content repr (fst (close_content_blocks b)) = []" "thinking_content repr (fst (close_content_blocks b)) = []" for b
    by (auto simp: close_content_blocks_def yield_if_def stop_text_block_def stop_thinking_block_def content_Cons
        Let_def case_prod_beta)
  ultimately show "text_content repr (fst (stream_tail env s)) = []" "thinking_content repr (fst (stream_tail env s)) = []"
    by (cases rule: stream_tail_cases [of env s]; simp add: close_all_blocks_def Let_def case_prod_beta content_Cons)+
qed

lemma says_before_tail:
  assumes "settled (ss_think s)" and "texted s" and r: "before_tail env s = (es, None, s')"
  defines "cs \<equiv> think_lex (tp_in_think (ss_think s)) (tp_buffer (ss_think s))"
  shows "\<exists>pad. text_content repr es = typed TEXT cs @ pad \<and> thinking_content repr es = shown env (typed THINKING cs) \<and>
    (pad = [] \<or> pad = '' '' \<and> py_strip (accumulated_text (ss_sse s) @ typed TEXT cs) = [])"
proof -
  let ?s = "s\<lparr>ss_think := snd (think_flush (ss_think s))\<rparr>"
  have fl: "says repr ?s (flush_think env s) (typed TEXT cs) (shown env (typed THINKING cs))"
    using reads_flush [OF assms(1), of repr env] by (simp add: cs_def)
  let ?tools = "\<lambda>s. for_each (iter_heuristic_tool_use_sse env) (se_flush env (ss_heur s)) s"
  obtain es1 s1 where f1: "flush_think env s = (es1, None, s1)"
    using r by (auto simp: before_tail_def and_then_def split: prod.splits option.splits)
  obtain es2 s2 where f2: "?tools s1 = (es2, None, s2)"
    using r by (auto simp: before_tail_def f1 and_then_def split: prod.splits option.splits)
  have st: "says repr s1 (es2, None, s2) [] []"
    using says_each_silent [of "se_flush env (ss_heur s1)" repr "iter_heuristic_tool_use_sse env" s1] says_heuristic f2 by metis
  have t1: "texted s2" "accumulated_text (ss_sse s2) = accumulated_text (ss_sse s) @ typed TEXT cs"
    using fl st assms(2) by (auto simp: says_def f1)
  obtain pad where pad: "padding s2 pad" "says repr s2 (ensure_content s2) pad []"
    using says_ensure_content [OF t1(1)] by blast
  let ?f = "\<lambda>s. and_then (for_each (flush_alias_buffer env) (ss_alias_buffers s) s) (flush_task_args env)"
  have "says repr s2 (and_then (ensure_content s2) ?f) (pad @ []) ([] @ [])"
    by (rule says_and_then [OF pad(2)]) (rule says_flushes)
  moreover obtain es3 where e: "and_then (ensure_content s2) ?f = (es3, None, s')" "es = es1 @ es2 @ es3"
    using r by (auto simp: before_tail_def f1 f2 and_then_def [of "(es1, _)"] and_then_def [of "(es2, _)"] split: prod.splits)
  ultimately have "text_content repr es = typed TEXT cs @ pad" "thinking_content repr es = shown env (typed THINKING cs)"
    using fl st by (auto simp: says_def f1)
  then show ?thesis using pad(1) t1(2) by (auto simp: padding_def)
qed

subsection \<open>The whole answer\<close>

definition upstream_text :: "chunk list \<Rightarrow> string" where
  "upstream_text cks = concat (map chunk_content cks)"

text \<open>
  An answer without failure, whatever the heuristic parser is: the upstream's text outside \<open><think>\<close> spans goes through that
  parser piece by piece, but for its end, held back by the tag parser, which is sent as it is.
\<close>

lemma stream_response_heard:
  assumes ok: "for_each (handle_chunk env) cks (stream_init mid model tokens h) = (es0, None, s)"
  defines "es \<equiv> fst (stream_response env cks None (stream_init mid model tokens h))"
    and "labelled \<equiv> think_lex False (upstream_text cks)"
  shows "\<exists>ts rest pad. typed TEXT labelled = concat ts @ rest \<and>
      text_content repr es = fst (feed_all env ts h) @ rest @ pad \<and>
      (pad = [] \<or> pad = '' '' \<and> py_strip (fst (feed_all env ts h) @ rest) = []) \<and>
      ((\<forall>ck \<in> set cks. \<not> chunk_reasons ck) \<longrightarrow> thinking_content repr es = shown env (typed THINKING labelled))"
proof -
  let ?s0 = "stream_init mid model tokens h" and ?plain = "\<forall>ck \<in> set cks. \<not> chunk_reasons ck"
  have init: "ss_think ?s0 = tp_init" "ss_heur ?s0 = h" "accumulated_text (ss_sse ?s0) = []" "texted ?s0" "settled (ss_think ?s0)"
    by (simp_all add: stream_init_def sse_init_def accumulated_text_def texted_def cb_init_def settled_def tp_init_def)
  have "hears repr env ?plain (upstream_text cks) ?s0 (es0, None, s)"
    using hears_chunks [of ?plain cks repr env ?s0] by (simp add: ok upstream_text_def)
  then obtain cs ts where "heard repr env ?plain (upstream_text cks) ?s0 es0 s cs ts" using init by (auto simp: hears_def)
  then have cs: "reads tp_init (upstream_text cks) cs (ss_think s)" "concat ts = typed TEXT cs"
      "text_content repr es0 = fst (feed_all env ts h)" "accumulated_text (ss_sse s) = fst (feed_all env ts h)" "texted s"
      "?plain \<longrightarrow> thinking_content repr es0 = shown env (typed THINKING cs)"
    using init by (auto simp: heard_def)
  have set: "settled (ss_think s)" using cs(1) by (simp add: reads_def)
  define ds where "ds = think_lex (tp_in_think (ss_think s)) (tp_buffer (ss_think s))"
  have lex: "labelled = cs @ ds"
    using cs(1) by (simp add: labelled_def reads_def tp_init_def ds_def) (metis append_Nil2)
  obtain c where "stream_inv env s c" using chunks_ok [OF ok, of repr True] by blast
  from before_tail_ok [OF this, of repr True] obtain es1 s1 where bt: "before_tail env s = (es1, None, s1)" by blast
  obtain pad where pad: "text_content repr es1 = typed TEXT ds @ pad" "thinking_content repr es1 = shown env (typed THINKING ds)"
      "pad = [] \<or> pad = '' '' \<and> py_strip (accumulated_text (ss_sse s) @ typed TEXT ds) = []"
    using says_before_tail [OF set cs(5) bt, of repr] by (auto simp: ds_def)
  have "es = message_start (ss_sse ?s0) # es0 @ es1 @ fst (stream_tail env s1)"
    by (simp add: es_def stream_response_def ok stream_finished_eq bt and_then_def case_prod_beta)
  then show ?thesis using cs(2,3,4,6) pad
    by (intro exI [of _ ts] exI [of _ "typed TEXT ds"] exI [of _ pad]) (simp add: content_Cons stream_tail_silent lex)
qed

end
