(* ===== verification/PyText.thy ===== *)
theory PyText
  imports Prelude
begin

section \<open>The string methods the routing and the request handlers use\<close>

text \<open>
  \<open>str.lower\<close>, \<open>in\<close>, \<open>startswith\<close>, \<open>partition\<close>, \<open>split\<close> and \<open>join\<close> on strings of characters below 256.
\<close>

text \<open>\<open>lower\<close>: ASCII and Latin-1 capitals.\<close>

definition char_lower :: "char \<Rightarrow> char" where
  "char_lower c =
     (let n = of_char c :: nat in
      if 65 \<le> n \<and> n \<le> 90 \<or> 192 \<le> n \<and> n \<le> 222 \<and> n \<noteq> 215 then char_of (n + 32) else c)"

definition py_lower :: "string \<Rightarrow> string" where
  "py_lower s = map char_lower s"

text \<open>\<open>p in s\<close>\<close>

definition py_in :: "string \<Rightarrow> string \<Rightarrow> bool" where
  "py_in p s = (py_find p s \<noteq> None)"

definition py_startswith :: "string \<Rightarrow> string \<Rightarrow> bool" where
  "py_startswith p s = prefix p s"

text \<open>\<open>s.partition(c)\<close>: what comes before the first \<open>c\<close>, whether there is one, what comes after.\<close>

definition py_partition :: "char \<Rightarrow> string \<Rightarrow> string \<times> bool \<times> string" where
  "py_partition c s =
     (let after = dropWhile (\<lambda>x. x \<noteq> c) s in
      (takeWhile (\<lambda>x. x \<noteq> c) s, after \<noteq> [], tl after))"

text \<open>\<open>s.split(c)\<close> and \<open>sep.join(parts)\<close>\<close>

fun py_split :: "char \<Rightarrow> string \<Rightarrow> string list" where
  "py_split c [] = [[]]"
| "py_split c (x # xs) =
     (if x = c then [] # py_split c xs
      else case py_split c xs of p # ps \<Rightarrow> (x # p) # ps | [] \<Rightarrow> [[x]])"

fun py_join :: "string \<Rightarrow> string list \<Rightarrow> string" where
  "py_join sep [] = []"
| "py_join sep [s] = s"
| "py_join sep (s # ss) = s @ sep @ py_join sep ss"

text \<open>\<open>repr\<close> of a string of plain characters\<close>

definition quoted :: "string \<Rightarrow> string" where
  "quoted s = [CHR 0x27] @ s @ [CHR 0x27]"

subsection \<open>Facts\<close>

lemma py_partition_at:
  assumes "c \<notin> set a"
  shows "py_partition c (a @ c # b) = (a, True, b)"
proof -
  have "takeWhile (\<lambda>x. x \<noteq> c) (a @ c # b) = a" "dropWhile (\<lambda>x. x \<noteq> c) (a @ c # b) = c # b"
    using assms by (induction a) auto
  then show ?thesis by (simp add: py_partition_def)
qed

lemma py_partition_none: "c \<notin> set s \<Longrightarrow> py_partition c s = (s, False, [])"
  by (induction s) (auto simp: py_partition_def)

lemma py_partition_cases:
  obtains "c \<notin> set s" "py_partition c s = (s, False, [])"
  | a b where "s = a @ c # b" "c \<notin> set a" "py_partition c s = (a, True, b)"
proof (cases "c \<in> set s")
  case True
  then obtain a b where "s = a @ c # b" "c \<notin> set a" by (metis split_list_first)
  then show thesis using that(2) py_partition_at by metis
next
  case False
  then show thesis using that(1) py_partition_none by metis
qed

lemma py_split_not_Nil [simp]: "py_split c s \<noteq> []"
  by (cases s) (auto split: list.split)

lemma py_split_parts: "p \<in> set (py_split c s) \<Longrightarrow> c \<notin> set p"
  by (induction s arbitrary: p) (auto split: if_splits list.splits)

lemma py_split_no_sep: "c \<notin> set s \<Longrightarrow> py_split c s = [s]"
  by (induction s) auto

lemma py_split_append: "c \<notin> set p \<Longrightarrow> py_split c (p @ c # s) = p # py_split c s"
  by (induction p) auto

lemma py_split_join:
  assumes "ps \<noteq> []" and "\<And>p. p \<in> set ps \<Longrightarrow> c \<notin> set p"
  shows "py_split c (py_join [c] ps) = ps"
  using assms by (induction "[c]" ps rule: py_join.induct) (auto simp: py_split_no_sep py_split_append)

lemma py_in_infix: "py_in p s \<longleftrightarrow> sublist p s"
proof
  assume "py_in p s"
  then obtain i where "py_find p s = Some i" by (auto simp: py_in_def)
  then have "s = take i s @ p @ drop (i + length p) s" using py_find_Some_split by blast
  then show "sublist p s" by (metis sublist_appendI)
next
  have "py_find p s \<noteq> None" if "sublist p s"
    using that by (induction s) (auto simp: sublist_Cons_right)
  then show "sublist p s \<Longrightarrow> py_in p s" by (simp add: py_in_def)
qed

lemma py_strip_no_sep: "c \<notin> set s \<Longrightarrow> c \<notin> set (py_strip s)"
  by (auto simp: py_strip_def py_rstrip_def py_lstrip_def dest!: set_dropWhileD)

end
