(* ===== verification/SseWire.thy ===== *)
theory SseWire
  imports StreamContract PyText
begin

section \<open>Events as text (\<open>sse.py\<close> and \<open>stream_contracts.py\<close>)\<close>

text \<open>
  \<open>format_sse_event\<close> writes an event as an SSE frame and \<open>parse_sse_text\<close> reads frames back.
  \<open>json.dumps\<close> and \<open>json.loads\<close> are the arguments \<open>dumps\<close> and \<open>loads\<close> (\<open>None\<close> is
  \<open>JSONDecodeError\<close>).  A parsed frame is an event with its raw text.
\<close>

record sse_frame = sse_event +
  ev_raw :: string

abbreviation LF :: char where "LF \<equiv> CHR 0x0A"
abbreviation CR :: char where "CR \<equiv> CHR 0x0D"

definition format_sse_event :: "(json \<Rightarrow> string) \<Rightarrow> sse_event \<Rightarrow> string" where
  "format_sse_event dumps e = ''event: '' @ ev_event e @ [LF] @ ''data: '' @ dumps (ev_data e) @ [LF, LF]"

text \<open>\<open>s.splitlines()\<close>: the line boundaries among the characters of a HOL string.\<close>

definition py_break :: "char \<Rightarrow> bool" where
  "py_break c = (of_char c \<in> ({10, 11, 12, 13, 28, 29, 30, 133} :: nat set))"

function py_splitlines :: "string \<Rightarrow> string list" where
  "py_splitlines s =
     (if s = [] then []
      else let l = takeWhile (\<lambda>c. \<not> py_break c) s; r = dropWhile (\<lambda>c. \<not> py_break c) s in
        case r of
          [] \<Rightarrow> [l]
        | c # r' \<Rightarrow> l # py_splitlines (if c = CR \<and> prefix [LF] r' then tl r' else r'))"
  by pat_completeness auto

termination
proof (relation "measure length")
  fix s :: string and l r c r'
  assume "s \<noteq> []" "r = dropWhile (\<lambda>c. \<not> py_break c) s" "r = c # r'"
  then have "length (c # r') \<le> length s" using length_dropWhile_le [of "\<lambda>c. \<not> py_break c" s] by simp
  then show "(if c = CR \<and> prefix [LF] r' then tl r' else r', s) \<in> measure length" by auto
qed simp

declare py_splitlines.simps [simp del]

text \<open>\<open>line.rstrip("\r\n")\<close>\<close>

definition strip_eol :: "string \<Rightarrow> string" where
  "strip_eol s = rev (dropWhile (\<lambda>c. c = CR \<or> c = LF) (rev s))"

text \<open>\<open>s.split(":", 1)[1].strip()\<close>, for a string that has a colon.\<close>

definition after_colon :: "string \<Rightarrow> string" where
  "after_colon s = py_strip (tl (dropWhile (\<lambda>c. c \<noteq> CHR '':'') s))"

definition append_event ::
  "(string \<Rightarrow> json option) \<Rightarrow> string \<Rightarrow> string list \<Rightarrow> string list \<Rightarrow> sse_frame list" where
  "append_event loads current data raw =
     (if current = [] \<and> data = [] then []
      else let t = py_join [LF] data;
               d = (if t = [] then JObj []
                    else case loads t of
                      None \<Rightarrow> JObj [(''raw'', JStr t)]
                    | Some (JObj kvs) \<Rightarrow> JObj kvs
                    | Some v \<Rightarrow> JObj [(''value'', v)])
           in [\<lparr>ev_event = current, ev_data = d, ev_raw = py_join [LF] raw\<rparr>])"

fun parse_lines ::
  "(string \<Rightarrow> json option) \<Rightarrow> string \<Rightarrow> string list \<Rightarrow> string list \<Rightarrow> string list \<Rightarrow> sse_frame list" where
  "parse_lines loads current data raw [] = append_event loads current data raw"
| "parse_lines loads current data raw (line # lines) =
     (let s = strip_eol line in
      if s = [] then append_event loads current data raw @ parse_lines loads [] [] [] lines
      else if prefix ''event:'' s then parse_lines loads (after_colon s) data (raw @ [s]) lines
      else if prefix ''data:'' s then parse_lines loads current (data @ [after_colon s]) (raw @ [s]) lines
      else parse_lines loads current data (raw @ [s]) lines)"

definition parse_sse_lines :: "(string \<Rightarrow> json option) \<Rightarrow> string list \<Rightarrow> sse_frame list" where
  "parse_sse_lines loads lines = parse_lines loads [] [] [] lines"

definition parse_sse_text :: "(string \<Rightarrow> json option) \<Rightarrow> string \<Rightarrow> sse_frame list" where
  "parse_sse_text loads t = parse_sse_lines loads (py_splitlines t)"

subsection \<open>Lines\<close>

definition one_line :: "string \<Rightarrow> bool" where
  "one_line s \<longleftrightarrow> (\<forall>c \<in> set s. \<not> py_break c)"

lemma LF_break [simp]: "py_break LF" "py_break CR"
  by (simp_all add: py_break_def)

lemma splitlines_line:
  "one_line s \<Longrightarrow> py_splitlines (s @ LF # t) = s # py_splitlines t"
  by (subst py_splitlines.simps) (simp add: one_line_def takeWhile_append2 dropWhile_append2 Let_def)

lemma splitlines_Nil [simp]: "py_splitlines [] = []"
  by (simp add: py_splitlines.simps)

lemma splitlines_empty_line: "py_splitlines (LF # t) = [] # py_splitlines t"
  using splitlines_line [of "[]" t] by (simp add: one_line_def)

lemma splitlines_last: "one_line s \<Longrightarrow> s \<noteq> [] \<Longrightarrow> py_splitlines s = [s]"
  by (subst py_splitlines.simps) (simp add: one_line_def takeWhile_eq_all_conv [THEN iffD2] dropWhile_eq_Nil_conv [THEN iffD2])

lemma strip_eol_one_line: "one_line s \<Longrightarrow> strip_eol s = s"
proof (cases s rule: rev_cases)
  case (snoc ys y)
  assume "one_line s"
  then have "\<not> py_break y" by (simp add: snoc one_line_def)
  then have "y \<noteq> CR \<and> y \<noteq> LF" by auto
  then show ?thesis by (simp add: strip_eol_def snoc)
qed (simp add: strip_eol_def)

text \<open>Text that survives \<open>strip\<close>.\<close>

definition stripped :: "string \<Rightarrow> bool" where
  "stripped s \<longleftrightarrow> s \<noteq> [] \<and> \<not> py_space (hd s) \<and> \<not> py_space (last s)"

lemma strip_stripped: "stripped s \<Longrightarrow> py_strip s = s"
proof -
  assume s: "stripped s"
  then have "dropWhile py_space s = s" by (cases s) (auto simp: stripped_def)
  moreover have "dropWhile py_space (rev s) = rev s"
    using s by (cases s rule: rev_cases) (auto simp: stripped_def)
  ultimately show ?thesis by (simp add: py_strip_def py_lstrip_def py_rstrip_def)
qed

lemma strip_lead: "py_strip (CHR '' '' # s) = py_strip s"
  by (simp add: py_strip_def py_lstrip_def py_space_def)

lemma after_colon_event: "stripped s \<Longrightarrow> after_colon (''event: '' @ s) = s"
  by (simp add: after_colon_def strip_lead strip_stripped)

lemma after_colon_data: "stripped s \<Longrightarrow> after_colon (''data: '' @ s) = s"
  by (simp add: after_colon_def strip_lead strip_stripped)

subsection \<open>Round trip\<close>

text \<open>
  What the writer relies on: the name is a word, the payload an object whose JSON text is one
  line without outer spaces, and the reader of JSON inverts the writer of JSON on it.
\<close>

definition wire_ok :: "(json \<Rightarrow> string) \<Rightarrow> (string \<Rightarrow> json option) \<Rightarrow> sse_event \<Rightarrow> bool" where
  "wire_ok dumps loads e \<longleftrightarrow> one_line (ev_event e) \<and> stripped (ev_event e) \<and> is_obj (ev_data e) \<and>
     one_line (dumps (ev_data e)) \<and> stripped (dumps (ev_data e)) \<and> loads (dumps (ev_data e)) = Some (ev_data e)"

definition frame_of :: "(json \<Rightarrow> string) \<Rightarrow> sse_event \<Rightarrow> sse_frame" where
  "frame_of dumps e = sse_event.extend e
     (sse_frame.fields (''event: '' @ ev_event e @ [LF] @ ''data: '' @ dumps (ev_data e)))"

lemma truncate_frame_of [simp]: "sse_event.truncate (frame_of dumps e) = e"
  by (simp add: frame_of_def sse_event.defs sse_frame.defs)

lemma format_lines:
  assumes "wire_ok dumps loads e"
  shows "py_splitlines (format_sse_event dumps e @ t) =
    [''event: '' @ ev_event e, ''data: '' @ dumps (ev_data e), []] @ py_splitlines t"
proof -
  have ev: "one_line (''event: '' @ ev_event e)" and da: "one_line (''data: '' @ dumps (ev_data e))"
    using assms by (auto simp: wire_ok_def one_line_def py_break_def)
  have "format_sse_event dumps e @ t =
      (''event: '' @ ev_event e) @ LF # ((''data: '' @ dumps (ev_data e)) @ LF # (LF # t))"
    by (simp add: format_sse_event_def)
  then show ?thesis by (simp only: splitlines_line [OF ev] splitlines_line [OF da] splitlines_empty_line) simp
qed

lemma parse_two_lines:
  assumes "wire_ok dumps loads e"
  shows "parse_lines loads [] [] [] ((''event: '' @ ev_event e) # (''data: '' @ dumps (ev_data e)) # rest) =
    parse_lines loads (ev_event e) [dumps (ev_data e)] [''event: '' @ ev_event e, ''data: '' @ dumps (ev_data e)] rest"
proof -
  have "strip_eol (''event: '' @ ev_event e) = ''event: '' @ ev_event e"
    "strip_eol (''data: '' @ dumps (ev_data e)) = ''data: '' @ dumps (ev_data e)"
    using assms by (auto intro!: strip_eol_one_line simp: wire_ok_def one_line_def py_break_def)
  moreover have "after_colon (''event: '' @ ev_event e) = ev_event e" "after_colon (''data: '' @ dumps (ev_data e)) = dumps (ev_data e)"
    using assms by (auto intro!: after_colon_event after_colon_data simp: wire_ok_def simp del: append_Cons)
  ultimately show ?thesis by (simp add: Let_def)
qed

lemma append_event_wire:
  assumes "wire_ok dumps loads e"
  shows "append_event loads (ev_event e) [dumps (ev_data e)] [''event: '' @ ev_event e, ''data: '' @ dumps (ev_data e)] =
    [frame_of dumps e]"
proof -
  obtain kvs where "ev_data e = JObj kvs" using assms by (cases "ev_data e") (auto simp: wire_ok_def)
  moreover from this have "loads (dumps (JObj kvs)) = Some (JObj kvs)" "dumps (JObj kvs) \<noteq> []"
    using assms by (auto simp: wire_ok_def stripped_def)
  ultimately show ?thesis
    by (simp add: append_event_def frame_of_def sse_event.defs sse_frame.defs Let_def)
qed

lemma parse_frame:
  assumes "wire_ok dumps loads e"
  shows "parse_lines loads [] [] [] ([''event: '' @ ev_event e, ''data: '' @ dumps (ev_data e), []] @ rest) =
    frame_of dumps e # parse_lines loads [] [] [] rest"
  using parse_two_lines [OF assms, of "[] # rest"] append_event_wire [OF assms] by (simp add: strip_eol_def)

lemma parse_formatted:
  assumes "\<forall>e \<in> set es. wire_ok dumps loads e"
  shows "parse_sse_lines loads (py_splitlines (concat (map (format_sse_event dumps) es))) = map (frame_of dumps) es"
  using assms unfolding parse_sse_lines_def
proof (induction es)
  case Nil
  then show ?case by (simp add: append_event_def)
next
  case (Cons e es)
  then have e: "wire_ok dumps loads e" by simp
  show ?case using Cons format_lines [OF e] parse_frame [OF e] by simp
qed

text \<open>What is written is read back: parsing the text of any sequence of events gives the same
  events, in order, each with its own raw text.\<close>

theorem sse_text_roundtrip:
  assumes "\<forall>e \<in> set es. wire_ok dumps loads e"
  shows "map sse_event.truncate (parse_sse_text loads (concat (map (format_sse_event dumps) es))) = es"
  using parse_formatted [OF assms] by (simp add: parse_sse_text_def comp_def)

definition stop_dumps :: "json \<Rightarrow> string" where
  "stop_dumps j = (if j = ev_data message_stop then ''{\"type\": \"message_stop\"}'' else ''{}'')"

definition stop_loads :: "string \<Rightarrow> json option" where
  "stop_loads s = (if s = ''{\"type\": \"message_stop\"}'' then Some (ev_data message_stop)
     else if s = ''{}'' then Some (JObj []) else None)"

theorem sse_text_roundtrip_witness:
  "map sse_event.truncate (parse_sse_text stop_loads
     (concat (map (format_sse_event stop_dumps) [\<lparr>ev_event = ''ping'', ev_data = JObj []\<rparr>, message_stop]))) =
   [\<lparr>ev_event = ''ping'', ev_data = JObj []\<rparr>, message_stop]"
  by (rule sse_text_roundtrip)
    (simp add: wire_ok_def one_line_def stripped_def py_break_def py_space_def stop_dumps_def stop_loads_def message_stop_def)

end
