(* ===== verification/NativePolicy.thy ===== *)
theory NativePolicy
  imports SseWire
begin

section \<open>The block policy of native streams (\<open>core/anthropic/native_sse_block_policy.py\<close>)\<close>

text \<open>
  \<open>transform_native_sse_block_event\<close> renumbers the content blocks of an Anthropic-compatible
  upstream, drops thinking where it is disabled, closes a block when another one starts, and
  reopens it under a new index when its deltas go on.  A frame is passed on unchanged, dropped, or
  replaced by frames; \<open>json.loads\<close> and \<open>json.dumps\<close> are arguments.
\<close>

record upstream_block =
  ub_type :: string
  ub_down :: int
  ub_open :: bool
  ub_start :: "json option"

record policy_state =
  np_next :: int
  np_by :: "(int, upstream_block) pydict"
  np_dropped :: "int set"
  np_pending :: "int set"
  np_stopped :: bool

definition policy_init :: policy_state where
  "policy_init = \<lparr>np_next = 0, np_by = [], np_dropped = {}, np_pending = {}, np_stopped = False\<rparr>"

datatype outcome = Unchanged | Dropped | Frames "sse_event list"

subsection \<open>Frames as text\<close>

definition format_native_sse_event :: "string option \<Rightarrow> string \<Rightarrow> string" where
  "format_native_sse_event name data =
     py_join [LF] ((if truthy_str name then [''event: '' @ the name] else []) @
                   map (\<lambda>l. ''data: '' @ l) (py_splitlines data)) @ [LF, LF]"

fun parse_native_lines :: "string list \<Rightarrow> string option \<times> string list \<Rightarrow> string option \<times> string list" where
  "parse_native_lines [] r = r"
| "parse_native_lines (l # ls) (name, data) =
     parse_native_lines ls
       (if prefix ''event:'' l then (Some (py_strip (drop 6 l)), data)
        else if prefix ''data:'' l then (name, data @ [py_lstrip (drop 5 l)])
        else (name, data))"

definition parse_native_sse_event :: "string \<Rightarrow> string option \<times> string" where
  "parse_native_sse_event event =
     (let (name, data) = parse_native_lines (py_splitlines (py_strip event)) (None, [])
      in (name, py_join [LF] data))"

definition upper_char :: "char \<Rightarrow> char" where
  "upper_char c = (let n = of_char c :: nat in if 97 \<le> n \<and> n \<le> 122 then char_of (n - 32) else c)"

definition is_terminal_openrouter_done_event :: "string option \<Rightarrow> string \<Rightarrow> bool" where
  "is_terminal_openrouter_done_event name data \<longleftrightarrow>
     (case name of None \<Rightarrow> True | Some n \<Rightarrow> n \<in> {''data'', ''done''}) \<and>
     map upper_char (py_strip data) = ''[DONE]''"

subsection \<open>Blocks\<close>

definition delta_type_to_block_kind :: "json option \<Rightarrow> string option" where
  "delta_type_to_block_kind ty =
     (case ty of
        Some (JStr t) \<Rightarrow>
          if t \<in> {''thinking_delta'', ''signature_delta''} then Some ''thinking''
          else if t = ''text_delta'' then Some ''text''
          else if t = ''input_json_delta'' then Some ''tool_use''
          else None
      | _ \<Rightarrow> None)"

definition str_or :: "string \<Rightarrow> json option \<Rightarrow> string" where
  "str_or dflt v = (case v of Some (JStr s) \<Rightarrow> s | _ \<Rightarrow> dflt)"

definition synthetic_start_content_block :: "string \<Rightarrow> int \<Rightarrow> json option \<Rightarrow> json" where
  "synthetic_start_content_block kind u stored =
     (if kind = ''tool_use'' then
        (case stored of
           Some (JObj d) \<Rightarrow>
             if dict_get ''type'' d = Some (JStr ''tool_use'') then
               JObj [(''type'', JStr ''tool_use''),
                 (''id'', JStr (let t = str_or [] (dict_get ''id'' d) in
                                if t = [] then ''toolu_or_'' @ show_int u else t)),
                 (''name'', JStr (str_or [] (dict_get ''name'' d))),
                 (''input'', case dict_get ''input'' d of Some (JObj i) \<Rightarrow> JObj i | _ \<Rightarrow> JObj [])]
             else JObj [(''type'', JStr ''tool_use''), (''id'', JStr (''toolu_or_'' @ show_int u)),
                    (''name'', JStr []), (''input'', JObj [])]
         | _ \<Rightarrow> JObj [(''type'', JStr ''tool_use''), (''id'', JStr (''toolu_or_'' @ show_int u)),
                    (''name'', JStr []), (''input'', JObj [])])
      else if kind = ''thinking'' then JObj [(''type'', JStr ''thinking''), (''thinking'', JStr [])]
      else JObj [(''type'', JStr ''text''), (''text'', JStr [])])"

definition should_drop_block_type :: "json option \<Rightarrow> bool \<Rightarrow> bool" where
  "should_drop_block_type ty thinking =
     (case ty of
        Some (JStr t) \<Rightarrow>
          if prefix ''redacted_thinking'' t then \<not> thinking
          else \<not> thinking \<and> py_find ''thinking'' t \<noteq> None
      | _ \<Rightarrow> False)"

definition close_segment :: "upstream_block \<Rightarrow> upstream_block" where
  "close_segment b = b\<lparr>ub_open := False\<rparr>"

text \<open>\<open>_synthetic_close_other_open_blocks\<close>: over the blocks in the order of their first start.\<close>

definition other_open :: "int \<Rightarrow> policy_state \<Rightarrow> (int \<times> upstream_block) list" where
  "other_open u s = filter (\<lambda>(v, b). v \<noteq> u \<and> ub_open b) (np_by s)"

definition synthetic_close_other_open_blocks :: "int \<Rightarrow> policy_state \<Rightarrow> sse_event list \<times> policy_state" where
  "synthetic_close_other_open_blocks u s =
     (map (\<lambda>(v, b). content_block_stop (ub_down b)) (other_open u s),
      s\<lparr>np_by := map (\<lambda>(v, b). (v, if v \<noteq> u \<and> ub_open b then close_segment b else b)) (np_by s),
        np_pending := np_pending s \<union> fst ` set (other_open u s)\<rparr>)"

definition allocate_new_segment ::
  "int \<Rightarrow> string \<Rightarrow> json option \<Rightarrow> policy_state \<Rightarrow> int \<times> policy_state" where
  "allocate_new_segment u ty start s =
     (np_next s,
      s\<lparr>np_next := np_next s + 1,
        np_by := dict_set u \<lparr>ub_type = ty, ub_down = np_next s, ub_open = True, ub_start = start\<rparr> (np_by s)\<rparr>)"

subsection \<open>One event\<close>

text \<open>\<open>payload["index"] = i\<close>\<close>

definition with_index :: "int \<Rightarrow> string \<Rightarrow> (string, json) pydict \<Rightarrow> sse_event" where
  "with_index i name d = \<lparr>ev_event = name, ev_data = JObj (dict_set ''index'' (JInt i) d)\<rparr>"

definition start_frame :: "int \<Rightarrow> json \<Rightarrow> sse_event" where
  "start_frame i block = sse_ev ''content_block_start''
     [(''type'', JStr ''content_block_start''), (''index'', JInt i), (''content_block'', block)]"

definition dict_int :: "string \<Rightarrow> (string, json) pydict \<Rightarrow> int option" where
  "dict_int k d = (case dict_get k d of None \<Rightarrow> None | Some v \<Rightarrow> json_int v)"

definition on_block_start :: "bool \<Rightarrow> (string, json) pydict \<Rightarrow> policy_state \<Rightarrow> outcome \<times> policy_state" where
  "on_block_start thinking d s =
     (case dict_get ''content_block'' d of
        Some (JObj block) \<Rightarrow>
          (case dict_int ''index'' d of
             None \<Rightarrow> (Unchanged, s)
           | Some u \<Rightarrow>
               if should_drop_block_type (dict_get ''type'' block) thinking
               then (Dropped, s\<lparr>np_dropped := insert u (np_dropped s)\<rparr>)
               else (case dict_get ''type'' block of
                       Some (JStr ty) \<Rightarrow>
                         let (es, s) = synthetic_close_other_open_blocks u s;
                             (i, s) = allocate_new_segment u ty (Some (JObj block)) s
                         in (Frames (es @ [with_index i ''content_block_start'' d]), s)
                     | _ \<Rightarrow> (Unchanged, s)))
      | _ \<Rightarrow> (Unchanged, s))"

definition on_block_delta :: "bool \<Rightarrow> (string, json) pydict \<Rightarrow> policy_state \<Rightarrow> outcome \<times> policy_state" where
  "on_block_delta thinking d s =
     (case dict_get ''delta'' d of
        Some (JObj delta) \<Rightarrow>
          (case dict_int ''index'' d of
             None \<Rightarrow> (Unchanged, s)
           | Some u \<Rightarrow>
               if u \<in> np_dropped s then (Dropped, s)
               else if should_drop_block_type (dict_get ''type'' delta) thinking then (Dropped, s)
               else (case delta_type_to_block_kind (dict_get ''type'' delta) of
                   None \<Rightarrow> (Unchanged, s)
                 | Some kind \<Rightarrow>
                   (case dict_get u (np_by s) of
                      Some seg \<Rightarrow>
                        if ub_open seg
                        then (Frames [with_index (ub_down seg) ''content_block_delta'' d], s)
                        else
                          let s = s\<lparr>np_pending := np_pending s - {u}\<rparr>;
                              (i, s) = allocate_new_segment u kind (ub_start seg) s
                          in (Frames [start_frame i (synthetic_start_content_block kind u (ub_start seg)),
                                      with_index i ''content_block_delta'' d], s)
                    | None \<Rightarrow>
                        if kind \<in> {''text'', ''tool_use''}
                        then
                          let block = synthetic_start_content_block kind u None;
                              (i, s) = allocate_new_segment u kind (Some block) s
                          in (Frames [start_frame i block, with_index i ''content_block_delta'' d], s)
                        else (Unchanged, s))))
      | _ \<Rightarrow> (Unchanged, s))"

definition on_block_stop :: "bool \<Rightarrow> (string, json) pydict \<Rightarrow> policy_state \<Rightarrow> outcome \<times> policy_state" where
  "on_block_stop thinking d s =
     (case dict_int ''index'' d of
        None \<Rightarrow> (Unchanged, s)
      | Some u \<Rightarrow>
          if u \<in> np_dropped s then (Dropped, s)
          else if u \<in> np_pending s then (Dropped, s\<lparr>np_pending := np_pending s - {u}\<rparr>)
          else (case dict_get u (np_by s) of
                  Some seg \<Rightarrow>
                    if ub_open seg
                    then (Frames [with_index (ub_down seg) ''content_block_stop'' d],
                          s\<lparr>np_by := dict_set u (close_segment seg) (np_by s)\<rparr>)
                    else (Dropped, s)
                | None \<Rightarrow> if thinking then (Unchanged, s) else (Dropped, s)))"

text \<open>The transformation of a named event with a parsed payload; \<open>.get\<close> on a payload that is
  not an object raises.\<close>

definition transform_payload :: "bool \<Rightarrow> sse_event \<Rightarrow> policy_state \<Rightarrow> outcome result \<times> policy_state" where
  "transform_payload thinking e s =
     (let handle = (\<lambda>h. case ev_data e of
                          JObj d \<Rightarrow> (let (r, s') = h thinking d s in (Inr r, s'))
                        | _ \<Rightarrow> (Inl AttributeError, s)) in
      if ev_event e = ''content_block_start'' then handle on_block_start
      else if ev_event e = ''content_block_delta'' then handle on_block_delta
      else if ev_event e = ''content_block_stop'' then handle on_block_stop
      else (Inr Unchanged, s))"

definition transform_native_sse_block_event ::
  "(json \<Rightarrow> string) \<Rightarrow> (string \<Rightarrow> json option) \<Rightarrow> bool \<Rightarrow> string \<Rightarrow> policy_state
    \<Rightarrow> string option result \<times> policy_state" where
  "transform_native_sse_block_event dumps loads thinking event s =
     (let (name, data) = parse_native_sse_event event in
      if \<not> truthy_str name \<or> data = [] then (Inr (Some event), s)
      else case loads data of
        None \<Rightarrow> (Inr (Some event), s)
      | Some payload \<Rightarrow>
          (case transform_payload thinking \<lparr>ev_event = the name, ev_data = payload\<rparr> s of
             (Inl x, s) \<Rightarrow> (Inl x, s)
           | (Inr Unchanged, s) \<Rightarrow> (Inr (Some event), s)
           | (Inr Dropped, s) \<Rightarrow> (Inr None, s)
           | (Inr (Frames es), s) \<Rightarrow>
               (Inr (Some (concat (map (\<lambda>e. format_native_sse_event (Some (ev_event e)) (dumps (ev_data e))) es))), s)))"

end
