(* ===== verification/EmittedTracker.thy ===== *)
theory EmittedTracker
  imports SseWire StreamSound
begin

section \<open>The tracker of emitted events (\<open>core/anthropic/emitted_sse_tracker.py\<close>)\<close>

text \<open>
  \<open>EmittedNativeSseTracker\<close> reads the SSE text that a native transport passes to its client, in
  the chunks it is sent in, so that a failure in the middle can be turned into a well-formed end
  of the message.  An operation that may raise returns the exception, if any, and the state.
\<close>

record tracker =
  et_buf :: string
  et_open :: "int list"  \<comment> \<open>the stack, its top last\<close>
  et_max :: int
  et_message_id :: "string option"
  et_model :: string

definition et_init :: tracker where
  "et_init = \<lparr>et_buf = [], et_open = [], et_max = -1, et_message_id = None, et_model = []\<rparr>"

text \<open>\<open>isinstance(v, str) and v\<close>\<close>

definition nonempty_str :: "json option \<Rightarrow> string option" where
  "nonempty_str v = (case v of Some (JStr s) \<Rightarrow> if s = [] then None else Some s | _ \<Rightarrow> None)"

text \<open>The branch of \<open>_observe\<close> for \<open>message_start\<close>.\<close>

definition et_message :: "sse_event \<Rightarrow> tracker \<Rightarrow> tracker" where
  "et_message e t =
     (case json_get ''message'' (ev_data e) of
        Some (JObj d) \<Rightarrow>
          let t = (case nonempty_str (dict_get ''id'' d) of None \<Rightarrow> t | Some m \<Rightarrow> t\<lparr>et_message_id := Some m\<rparr>)
          in (case nonempty_str (dict_get ''model'' d) of None \<Rightarrow> t | Some m \<Rightarrow> t\<lparr>et_model := m\<rparr>)
      | _ \<Rightarrow> t)"

lemma et_message_same [simp]:
  "et_buf (et_message e t) = et_buf t" "et_open (et_message e t) = et_open t" "et_max (et_message e t) = et_max t"
  by (simp_all add: et_message_def Let_def split: option.split json.split)

lemma et_message_upd: "et_message e (t\<lparr>et_buf := b\<rparr>) = et_message e t\<lparr>et_buf := b\<rparr>"
  by (simp add: et_message_def Let_def split: option.split json.split)

definition et_observe :: "sse_event \<Rightarrow> tracker \<Rightarrow> py_error option \<times> tracker" where
  "et_observe e t =
     (if ev_event e = ''message_start'' then (None, et_message e t)
      else if ev_event e = ''content_block_start'' then
        (case event_index e of
           Inl x \<Rightarrow> (Some x, t)
         | Inr i \<Rightarrow> (None, t\<lparr>et_max := max (et_max t) i, et_open := et_open t @ [i]\<rparr>))
      else if ev_event e = ''content_block_stop'' then
        (case event_index e of
           Inl x \<Rightarrow> (Some x, t)
         | Inr i \<Rightarrow>
             (None, t\<lparr>et_open := (if et_open t \<noteq> [] \<and> last (et_open t) = i then butlast (et_open t)
                                else remove1 i (et_open t))\<rparr>))
      else (None, t))"

fun et_observe_all :: "sse_event list \<Rightarrow> tracker \<Rightarrow> py_error option \<times> tracker" where
  "et_observe_all [] t = (None, t)"
| "et_observe_all (e # es) t =
     (case et_observe e t of
        (Some x, t) \<Rightarrow> (Some x, t)
      | (None, t) \<Rightarrow> et_observe_all es t)"

lemma et_observe_buf [simp]: "et_buf (snd (et_observe e t)) = et_buf t"
  by (simp add: et_observe_def split: sum.split)

lemma et_observe_all_buf [simp]: "et_buf (snd (et_observe_all es t)) = et_buf t"
proof (induction es arbitrary: t)
  case (Cons e es)
  then show ?case using et_observe_buf [of e t] by (cases "et_observe e t") (auto split: option.splits)
qed simp

text \<open>One turn of the loop of \<open>feed\<close>, on a complete frame.\<close>

definition et_frame :: "(string \<Rightarrow> json option) \<Rightarrow> string \<Rightarrow> tracker \<Rightarrow> py_error option \<times> tracker" where
  "et_frame loads frame t =
     (if py_strip frame = [] then (None, t)
      else et_observe_all (map sse_event.truncate (parse_sse_lines loads (py_splitlines frame))) t)"

lemma et_frame_buf [simp]: "et_buf (snd (et_frame loads f t)) = et_buf t"
  by (simp add: et_frame_def)

function et_loop :: "(string \<Rightarrow> json option) \<Rightarrow> tracker \<Rightarrow> py_error option \<times> tracker" where
  "et_loop loads t =
     (case py_find [LF, LF] (et_buf t) of
        None \<Rightarrow> (None, t)
      | Some sep \<Rightarrow>
          let r = et_frame loads (take sep (et_buf t)) (t\<lparr>et_buf := drop (sep + 2) (et_buf t)\<rparr>) in
          (case fst r of
             Some x \<Rightarrow> (Some x, snd r)
           | None \<Rightarrow> et_loop loads (snd r)))"
  by pat_completeness auto

termination
proof (relation "measure (\<lambda>(_, t). length (et_buf t))")
  fix loads t sep r
  assume "py_find [LF, LF] (et_buf t) = Some sep"
    and r: "r = et_frame loads (take sep (et_buf t)) (t\<lparr>et_buf := drop (sep + 2) (et_buf t)\<rparr>)"
  then have "sep + 2 \<le> length (et_buf t)" using py_find_Some_split by fastforce
  moreover have "et_buf (snd r) = drop (sep + 2) (et_buf t)" by (simp add: r)
  ultimately show "((loads, snd r), (loads, t)) \<in> measure (\<lambda>(_, t). length (et_buf t))" by simp
qed simp

declare et_loop.simps [simp del]

definition et_feed :: "(string \<Rightarrow> json option) \<Rightarrow> string \<Rightarrow> tracker \<Rightarrow> py_error option \<times> tracker" where
  "et_feed loads chunk t = et_loop loads (t\<lparr>et_buf := et_buf t @ chunk\<rparr>)"

definition et_next_content_index :: "tracker \<Rightarrow> int" where
  "et_next_content_index t = et_max t + 1"

text \<open>\<open>iter_close_unclosed_blocks\<close>: the top of the stack first.\<close>

definition et_close_unclosed :: "tracker \<Rightarrow> sse_event list \<times> tracker" where
  "et_close_unclosed t = (map content_block_stop (rev (et_open t)), t\<lparr>et_open := []\<rparr>)"

text \<open>\<open>iter_midstream_error_tail\<close>, with a fresh id and the request's model as fallbacks.\<close>

definition et_error_tail ::
  "string \<Rightarrow> string \<Rightarrow> string \<Rightarrow> json \<Rightarrow> tracker \<Rightarrow> sse_event list" where
  "et_error_tail fresh req_model msg tokens t =
     (let mid = (case et_message_id t of Some m \<Rightarrow> if m = [] then fresh else m | None \<Rightarrow> fresh);
          model = (if et_model t = [] then req_model else et_model t);
          b = upd_blocks (\<lambda>m. m\<lparr>cb_next_index := et_next_content_index t\<rparr>) (sse_init mid model tokens);
          (es, b) = emit_error msg b
      in es @ [message_delta ''end_turn'' (JInt 1) b, message_stop])"

subsection \<open>Chunks do not matter\<close>

text \<open>The chunks of a stream, until one raises.\<close>

fun et_feed_all :: "(string \<Rightarrow> json option) \<Rightarrow> string list \<Rightarrow> tracker \<Rightarrow> py_error option \<times> tracker" where
  "et_feed_all loads [] t = (None, t)"
| "et_feed_all loads (c # cs) t =
     (case et_feed loads c t of
        (Some x, t) \<Rightarrow> (Some x, t)
      | (None, t) \<Rightarrow> et_feed_all loads cs t)"

lemma py_find_append: "py_find p b = Some i \<Longrightarrow> py_find p (b @ c) = Some i"
proof (induction b arbitrary: i)
  case Nil
  then show ?case by (cases c) (auto split: if_splits)
next
  case (Cons x b)
  show ?case
  proof (cases "prefix p (x # b)")
    case True
    then have "prefix p (x # b @ c)" using prefix_prefix [of p "x # b" c] by simp
    then show ?thesis using True Cons.prems by simp
  next
    case False
    then obtain j where j: "py_find p b = Some j" "i = Suc j" using Cons.prems by auto
    have "length p \<le> length (x # b)" using py_find_Some_split [OF j(1)] by simp
    then have "\<not> prefix p (x # b @ c)"
      using False prefix_length_prefix [of p "x # b @ c" "x # b"] by auto
    then show ?thesis using Cons.IH [OF j(1)] j(2) by simp
  qed
qed

lemma et_buf_update: "et_buf t = b \<Longrightarrow> t\<lparr>et_buf := b\<rparr> = t"
  by (cases t) simp

lemma et_observe_upd: "et_observe e (t\<lparr>et_buf := b\<rparr>) = (fst (et_observe e t), snd (et_observe e t)\<lparr>et_buf := b\<rparr>)"
  by (simp add: et_observe_def et_message_upd split: sum.split)

lemma et_observe_all_upd:
  "et_observe_all es (t\<lparr>et_buf := b\<rparr>) = (fst (et_observe_all es t), snd (et_observe_all es t)\<lparr>et_buf := b\<rparr>)"
proof (induction es arbitrary: t)
  case (Cons e es)
  obtain x t' where "et_observe e t = (x, t')" by (metis prod.exhaust)
  then show ?case using Cons.IH [of t'] by (cases x) (simp_all add: et_observe_upd)
qed simp

lemma et_frame_upd:
  "et_frame loads f (t\<lparr>et_buf := b\<rparr>) = (fst (et_frame loads f t), snd (et_frame loads f t)\<lparr>et_buf := b\<rparr>)"
  by (simp add: et_frame_def et_observe_all_upd)

text \<open>What comes later in the buffer does not change what is done with the frames already there.\<close>

lemma et_loop_append:
  "et_loop loads (t\<lparr>et_buf := et_buf t @ c\<rparr>) =
     (case et_loop loads t of
        (Some x, t') \<Rightarrow> (Some x, t'\<lparr>et_buf := et_buf t' @ c\<rparr>)
      | (None, t') \<Rightarrow> et_loop loads (t'\<lparr>et_buf := et_buf t' @ c\<rparr>))"
proof (induction loads t rule: et_loop.induct)
  case (1 loads t)
  show ?case
  proof (cases "py_find [LF, LF] (et_buf t)")
    case None
    then show ?thesis by (simp add: et_loop.simps [of loads t])
  next
    case (Some sep)
    let ?r = "et_frame loads (take sep (et_buf t)) (t\<lparr>et_buf := drop (sep + 2) (et_buf t)\<rparr>)"
    have len: "sep + 2 \<le> length (et_buf t)" using py_find_Some_split [OF Some] by simp
    have f: "et_frame loads (take sep (et_buf t)) (t\<lparr>et_buf := drop (sep + 2) (et_buf t) @ c\<rparr>) =
        (fst ?r, snd ?r\<lparr>et_buf := et_buf (snd ?r) @ c\<rparr>)"
      using et_frame_upd [where b = "drop (sep + 2) (et_buf t) @ c" and f = "take sep (et_buf t)"
          and t = "t\<lparr>et_buf := drop (sep + 2) (et_buf t)\<rparr>" and loads = loads]
      by simp
    have l: "et_loop loads t = (case fst ?r of Some x \<Rightarrow> (Some x, snd ?r) | None \<Rightarrow> et_loop loads (snd ?r))"
      by (subst et_loop.simps) (simp only: Some Let_def option.case)
    have r: "et_loop loads (t\<lparr>et_buf := et_buf t @ c\<rparr>) = (case fst ?r of
        Some x \<Rightarrow> (Some x, snd ?r\<lparr>et_buf := et_buf (snd ?r) @ c\<rparr>)
      | None \<Rightarrow> et_loop loads (snd ?r\<lparr>et_buf := et_buf (snd ?r) @ c\<rparr>))"
      using len f by (subst et_loop.simps) (simp add: py_find_append [OF Some] Let_def del: add_2_eq_Suc' split: option.split)
    show ?thesis
    proof (cases "fst ?r")
      case None
      then show ?thesis using 1 [OF Some refl None] by (simp add: l r)
    qed (simp add: l r)
  qed
qed

lemma et_loop_settled: "et_loop loads t = (None, t') \<Longrightarrow> py_find [LF, LF] (et_buf t') = None"
proof (induction loads t rule: et_loop.induct)
  case (1 loads t)
  then show ?case by (subst (asm) (2) et_loop.simps) (auto simp: Let_def split: option.splits)
qed

lemma et_feed_all_concat:
  assumes "py_find [LF, LF] (et_buf t) = None"
  shows "case et_feed loads (concat chunks) t of
     (None, t') \<Rightarrow> et_feed_all loads chunks t = (None, t')
   | (Some x, _) \<Rightarrow> fst (et_feed_all loads chunks t) = Some x"
  using assms
proof (induction chunks arbitrary: t)
  case Nil
  then show ?case by (simp add: et_feed_def et_loop.simps)
next
  case (Cons c cs)
  obtain x t' where r: "et_feed loads c t = (x, t')" by (metis prod.exhaust)
  have all: "et_feed loads (concat (c # cs)) t = (case (x, t') of
        (Some x, t') \<Rightarrow> (Some x, t'\<lparr>et_buf := et_buf t' @ concat cs\<rparr>)
      | (None, t') \<Rightarrow> et_feed loads (concat cs) t')"
    using et_loop_append [of loads "t\<lparr>et_buf := et_buf t @ c\<rparr>" "concat cs"] r
    by (cases x) (simp_all add: et_feed_def)
  show ?case
  proof (cases x)
    case None
    have "py_find [LF, LF] (et_buf t') = None"
      using et_loop_settled [of loads "t\<lparr>et_buf := et_buf t @ c\<rparr>" t'] r None by (simp add: et_feed_def)
    moreover have "et_feed_all loads (c # cs) t = et_feed_all loads cs t'" by (simp add: r None)
    moreover have "et_feed loads (concat (c # cs)) t = et_feed loads (concat cs) t'" using all None by simp
    ultimately show ?thesis using Cons.IH [of t'] by (simp only:)
  next
    case (Some y)
    then show ?thesis unfolding all by (simp add: r)
  qed
qed

text \<open>The tracker does not depend on how the emitted text is cut into chunks: fed piece by piece it
  raises exactly when it raises on the whole text, and otherwise ends in the same state.\<close>

theorem tracker_chunking:
  "case et_feed loads (concat chunks) et_init of
     (None, t) \<Rightarrow> et_feed_all loads chunks et_init = (None, t)
   | (Some x, _) \<Rightarrow> fst (et_feed_all loads chunks et_init) = Some x"
  by (rule et_feed_all_concat) (simp add: et_init_def)

subsection \<open>Frames in the buffer\<close>

lemma find_blank_line:
  "LF \<notin> set a \<Longrightarrow> py_find [LF, LF] (a @ LF # x # r) =
     (if x = LF then Some (length a) else map_option (\<lambda>i. i + length a + 1) (py_find [LF, LF] (x # r)))"
proof (induction a)
  case Nil
  then show ?case by (cases r) auto
next
  case (Cons y a)
  then show ?case by (cases a) (auto simp: option.map_comp comp_def)
qed

lemma find_frame:
  assumes "wire_ok dumps loads e"
  shows "py_find [LF, LF] (format_sse_event dumps e @ r) =
    Some (length (format_sse_event dumps e) - 2)"
proof -
  let ?a = "''event: '' @ ev_event e" and ?b = "''data: '' @ dumps (ev_data e)"
  have "LF \<notin> set ?a" "LF \<notin> set (tl ?b)"
    using assms by (auto simp: wire_ok_def one_line_def)
  then have "py_find [LF, LF] (?a @ LF # ?b @ LF # LF # r) = Some (length ?a + 1 + length ?b)"
    using find_blank_line [of ?a "hd ?b" "tl ?b @ LF # LF # r"] find_blank_line [of ?b LF r] by simp
  then show ?thesis by (simp add: format_sse_event_def)
qed

lemma strip_visible: "\<not> py_space c \<Longrightarrow> py_strip (c # s) \<noteq> []"
  by (auto simp: py_strip_def py_lstrip_def py_rstrip_def dropWhile_eq_Nil_conv)

lemma take_drop_last2: "take (length (x @ [a, b]) - 2) (x @ [a, b]) = x"
  by simp

lemma frame_event:
  assumes "wire_ok dumps loads e"
  shows "et_frame loads (take (length (format_sse_event dumps e) - 2) (format_sse_event dumps e)) t = et_observe_all [e] t"
proof -
  let ?a = "''event: '' @ ev_event e" and ?b = "''data: '' @ dumps (ev_data e)"
  have "format_sse_event dumps e = (?a @ LF # ?b) @ [LF, LF]" by (simp add: format_sse_event_def)
  then have f: "take (length (format_sse_event dumps e) - 2) (format_sse_event dumps e) = ?a @ LF # ?b"
    by (simp only: take_drop_last2)
  have "one_line ?a" "one_line ?b" using assms by (auto simp: wire_ok_def one_line_def py_break_def)
  then have "py_splitlines (?a @ LF # ?b) = [?a, ?b]"
    using splitlines_line [of ?a ?b] splitlines_last [of ?b] by simp
  then have "map sse_event.truncate (parse_sse_lines loads (py_splitlines (?a @ LF # ?b))) = [e]"
    using parse_two_lines [OF assms, of "[]"] append_event_wire [OF assms] by (simp add: parse_sse_lines_def)
  moreover have "py_strip (?a @ LF # ?b) \<noteq> []" using strip_visible by (simp add: py_space_def)
  ultimately show ?thesis unfolding f et_frame_def by simp
qed

text \<open>An event together with the JSON text its payload has on the wire.  The events of an upstream carry
  its own JSON texts, whatever writer produced them.\<close>

type_synonym written = "sse_event \<times> string"

definition written_text :: "written \<Rightarrow> string" where
  "written_text w = format_sse_event (\<lambda>_. snd w) (fst w)"

definition written_ok :: "(string \<Rightarrow> json option) \<Rightarrow> written \<Rightarrow> bool" where
  "written_ok loads w \<longleftrightarrow> wire_ok (\<lambda>_. snd w) loads (fst w)"

definition dumped :: "(json \<Rightarrow> string) \<Rightarrow> sse_event \<Rightarrow> written" where
  "dumped dumps e = (e, dumps (ev_data e))"

lemma dumped_simps [simp]:
  "fst (dumped dumps e) = e" "written_text (dumped dumps e) = format_sse_event dumps e"
  "written_ok loads (dumped dumps e) = wire_ok dumps loads e"
  by (simp_all add: dumped_def written_text_def written_ok_def wire_ok_def format_sse_event_def)

lemma et_loop_written:
  assumes "\<forall>w \<in> set ws. written_ok loads w" and "et_buf t = concat (map written_text ws)"
    and "et_observe_all (map fst ws) t = (None, t')"
  shows "et_loop loads t = (None, t'\<lparr>et_buf := []\<rparr>)"
  using assms
proof (induction ws arbitrary: t t')
  case Nil
  then show ?case by (subst et_loop.simps) (auto simp: et_buf_update)
next
  case (Cons w ws)
  let ?f = "written_text w" and ?r = "concat (map written_text ws)"
  have w: "wire_ok (\<lambda>_. snd w) loads (fst w)" using Cons.prems(1) by (simp add: written_ok_def)
  have len: "2 \<le> length ?f" by (simp add: written_text_def format_sse_event_def)
  have frame: "et_frame loads (take (length ?f - 2) ?f) u = et_observe_all [fst w] u" for u
    using frame_event [OF w] by (simp add: written_text_def)
  obtain t1 where t1: "et_observe (fst w) t = (None, t1)" and rest: "et_observe_all (map fst ws) t1 = (None, t')"
    using Cons.prems(3) by (auto split: prod.splits option.splits)
  have "et_frame loads (take (length ?f - 2) (et_buf t)) (t\<lparr>et_buf := drop (length ?f) (et_buf t)\<rparr>) =
      (None, t1\<lparr>et_buf := ?r\<rparr>)"
    using frame [of "t\<lparr>et_buf := ?r\<rparr>"] len by (simp add: Cons.prems(2) et_observe_upd t1)
  moreover have "et_loop loads (t1\<lparr>et_buf := ?r\<rparr>) = (None, (t'\<lparr>et_buf := ?r\<rparr>)\<lparr>et_buf := []\<rparr>)"
    using Cons.prems(1) rest et_observe_all_upd [where es = "map fst ws" and t = t1 and b = ?r]
    by (intro Cons.IH) simp_all
  moreover have "py_find [LF, LF] (et_buf t) = Some (length ?f - 2)" "length ?f - 2 + 2 = length ?f"
    using find_frame [OF w] len by (simp_all add: Cons.prems(2) written_text_def)
  ultimately show ?case by (subst et_loop.simps) (simp add: Let_def)
qed

text \<open>On the text of events that a transport emits, in whatever chunks, the tracker observes
  exactly those events.\<close>

lemma tracker_reads_written:
  assumes "\<forall>w \<in> set ws. written_ok loads w" and "concat chunks = concat (map written_text ws)"
    and "et_observe_all (map fst ws) et_init = (None, t)"
  shows "et_feed_all loads chunks et_init = (None, t)"
proof -
  have "et_buf (snd (et_observe_all (map fst ws) et_init)) = et_buf et_init" by (rule et_observe_all_buf)
  then have "et_buf t = []" unfolding assms(3) by (simp add: et_init_def)
  then have t: "t\<lparr>et_buf := []\<rparr> = t" by (simp add: et_buf_update)
  let ?t = "et_init\<lparr>et_buf := concat chunks\<rparr>"
  have "et_observe_all (map fst ws) ?t = (None, t\<lparr>et_buf := concat chunks\<rparr>)"
    by (simp add: et_observe_all_upd assms(3))
  then have "et_loop loads ?t = (None, t\<lparr>et_buf := concat chunks\<rparr>\<lparr>et_buf := []\<rparr>)"
    by (intro et_loop_written [OF assms(1)]) (simp_all add: assms(2))
  then have "et_feed loads (concat chunks) et_init = (None, t)"
    by (simp add: et_feed_def et_init_def t)
  then show ?thesis using et_feed_all_concat [of et_init loads chunks] by (simp add: et_init_def)
qed

theorem tracker_reads_emitted:
  assumes "\<forall>e \<in> set es. wire_ok dumps loads e" and "concat chunks = concat (map (format_sse_event dumps) es)"
    and "et_observe_all es et_init = (None, t)"
  shows "et_feed_all loads chunks et_init = (None, t)"
  using assms by (intro tracker_reads_written [where ws = "map (dumped dumps) es"]) (simp_all add: comp_def)

subsection \<open>The end of a broken message\<close>

text \<open>The tracker knows what the checker knows.\<close>

definition tracks :: "tracker \<Rightarrow> contract_state \<Rightarrow> bool" where
  "tracks t c \<longleftrightarrow> distinct (et_open t) \<and> set (et_open t) = set (dict_keys (cs_open c)) \<and>
     (\<forall>i \<in> cs_seen c. i \<le> et_max t) \<and> set (dict_keys (cs_open c)) \<subseteq> cs_seen c"

lemma set_pop:
  "distinct xs \<Longrightarrow> set (if xs \<noteq> [] \<and> last xs = i then butlast xs else remove1 i xs) = set xs - {i} \<and>
     distinct (if xs \<noteq> [] \<and> last xs = i then butlast xs else remove1 i xs)"
  by (cases xs rule: rev_cases) auto

lemma observe_other:
  assumes "ev_event e \<noteq> ''content_block_start''" and "ev_event e \<noteq> ''content_block_stop''"
  shows "fst (et_observe e t) = None \<and> et_open (snd (et_observe e t)) = et_open t \<and> et_max (snd (et_observe e t)) = et_max t"
  using assms by (simp add: et_observe_def)

text \<open>A step of the checker that at most fails.\<close>

definition only_checks :: "contract_state \<Rightarrow> contract_state result \<Rightarrow> bool" where
  "only_checks c r \<longleftrightarrow> (\<forall>c'. r = Inr c' \<longrightarrow> c' = c)"

lemma only_checks_intros:
  "only_checks c (Inl x)" "only_checks c (Inr c)"
  "only_checks c r \<Longrightarrow> only_checks c r' \<Longrightarrow> only_checks c (if b then r else r')"
  "(\<And>x. only_checks c (f x)) \<Longrightarrow> only_checks c (bind_result q f)"
  "only_checks c r \<Longrightarrow> (\<And>x. only_checks c (f x)) \<Longrightarrow> only_checks c (case v of None \<Rightarrow> r | Some x \<Rightarrow> f x)"
  by (auto simp: only_checks_def split: option.split)

lemma contract_delta_same: "contract_delta repr e c = Inr c' \<Longrightarrow> c' = c"
proof -
  have "only_checks c (contract_delta repr e c)"
    unfolding contract_delta_def Let_def by (intro only_checks_intros)
  then show "contract_delta repr e c = Inr c' \<Longrightarrow> c' = c" by (simp add: only_checks_def)
qed

lemma contract_other:
  assumes "contract_event repr a e c = Inr c'"
    and "ev_event e \<noteq> ''content_block_start''" and "ev_event e \<noteq> ''content_block_stop''"
  shows "c' = c"
  using assms contract_delta_same [of repr e c c'] unfolding contract_event_def
  by (auto simp only: sum.inject sum.distinct split: if_split_asm)

lemma observe_tracks:
  assumes "contract_event repr a e c = Inr c'" and "tracks t c"
  shows "\<exists>t'. et_observe e t = (None, t') \<and> tracks t' c'"
proof -
  consider "ev_event e = ''content_block_start''" | "ev_event e = ''content_block_stop''"
    | "ev_event e \<noteq> ''content_block_start''" "ev_event e \<noteq> ''content_block_stop''" by blast
  then show ?thesis
  proof cases
    case 1
    then have "contract_start repr e c = Inr c'" using assms(1) by (simp add: contract_event_def split: if_splits)
    then show ?thesis using 1 assms(2)
      by (auto simp: contract_start_def et_observe_def tracks_def Let_def le_max_iff_disj split: if_splits)
  next
    case 2
    then have "contract_stop e c = Inr c'" using assms(1) by (simp add: contract_event_def split: if_splits)
    then obtain i where i: "event_index e = Inr i" "c' = c\<lparr>cs_open := dict_del i (cs_open c)\<rparr>"
      by (auto simp: contract_stop_def split: if_splits)
    then show ?thesis using 2 assms(2) set_pop [of "et_open t" i]
      by (auto simp: et_observe_def tracks_def)
  next
    case 3
    then have "tracks (snd (et_observe e t)) c'" using assms(2) observe_other [OF 3] contract_other [OF assms(1) 3]
      by (simp add: tracks_def)
    then show ?thesis using observe_other [OF 3] by (metis prod.collapse)
  qed
qed

lemma observe_all_tracks:
  "contract_events repr a es c = Inr c' \<Longrightarrow> tracks t c \<Longrightarrow> \<exists>t'. et_observe_all es t = (None, t') \<and> tracks t' c'"
proof (induction es arbitrary: c t)
  case (Cons e es)
  then obtain c1 where c1: "contract_event repr a e c = Inr c1" "contract_events repr a es c1 = Inr c'" by auto
  obtain t1 where "et_observe e t = (None, t1)" "tracks t1 c1" using observe_tracks [OF c1(1) Cons.prems(2)] by blast
  then show ?case using Cons.IH [OF c1(2)] by auto
qed simp

lemma stops_contract:
  "distinct xs \<Longrightarrow> set xs \<subseteq> set (dict_keys (cs_open c)) \<Longrightarrow>
     \<exists>c'. contract_events repr a (map content_block_stop xs) c = Inr c' \<and>
       set (dict_keys (cs_open c')) = set (dict_keys (cs_open c)) - set xs \<and> cs_seen c' = cs_seen c"
proof (induction xs arbitrary: c)
  case (Cons x xs)
  let ?c = "c\<lparr>cs_open := dict_del x (cs_open c)\<rparr>"
  have "contract_event repr a (content_block_stop x) c = Inr ?c"
    using Cons.prems by (intro contract_stop_event) simp
  moreover have "\<exists>c'. contract_events repr a (map content_block_stop xs) ?c = Inr c' \<and>
      set (dict_keys (cs_open c')) = set (dict_keys (cs_open ?c)) - set xs \<and> cs_seen c' = cs_seen ?c"
    using Cons.prems by (intro Cons.IH) auto
  ultimately show ?case by auto
qed simp

definition broken_end :: "string \<Rightarrow> string \<Rightarrow> string \<Rightarrow> json \<Rightarrow> tracker \<Rightarrow> sse_event list" where
  "broken_end fresh req_model msg tokens t =
     (let (es, t) = et_close_unclosed t in es @ et_error_tail fresh req_model msg tokens t)"

text \<open>A native stream that breaks off after a prefix which has violated no rule so far is ended
  properly: whatever chunks the prefix was sent in, the tracker has followed it, and the stops of
  the dangling blocks, the error text at a fresh index and the message's tail make the whole
  emission satisfy the stream contract.\<close>

lemma written_error_completes:
  assumes wire: "\<forall>w \<in> set ws. written_ok loads w"
    and chunks: "concat chunks = concat (map written_text ws)"
    and start: "''message_start'' \<in> set (event_names (map fst ws))"
    and prefix: "contract_events repr a (map fst ws) contract_init = Inr c"
  shows "\<exists>t. et_feed_all loads chunks et_init = (None, t) \<and>
    assert_anthropic_stream_contract repr a (map fst ws @ broken_end fresh req_model msg tokens t) = Inr ()"
proof -
  have "tracks et_init contract_init" by (simp add: tracks_def et_init_def contract_init_def)
  from observe_all_tracks [OF prefix this] obtain t where t: "et_observe_all (map fst ws) et_init = (None, t)" "tracks t c" by blast
  obtain c1 where c1: "contract_events repr a (map content_block_stop (rev (et_open t))) c = Inr c1"
      "set (dict_keys (cs_open c1)) = {}" "cs_seen c1 = cs_seen c"
    using stops_contract [of "rev (et_open t)" c repr a] t(2) by (auto simp: tracks_def)
  have open1: "cs_open c1 = []" using c1(2) by (simp add: dict_keys_def)
  define b where "b = upd_blocks (\<lambda>m. m\<lparr>cb_next_index := et_max t + 1\<rparr>)
    (sse_init (case et_message_id t of Some m \<Rightarrow> if m = [] then fresh else m | None \<Rightarrow> fresh)
      (if et_model t = [] then req_model else et_model t) tokens)"
  have "\<forall>i \<in> cs_seen c1. i < cb_next_index (sb_blocks b)"
    using t(2) by (auto simp: c1(3) tracks_def b_def upd_blocks_def)
  from contract_error_block [OF open1 this] obtain c2 where
    c2: "contract_events repr a (fst (emit_error msg b)) c1 = Inr c2" "cs_open c2 = []" "cs_seen c2 \<noteq> {}" by blast
  have tail: "broken_end fresh req_model msg tokens t = map content_block_stop (rev (et_open t)) @
      fst (emit_error msg b) @ [message_delta ''end_turn'' (JInt 1) (snd (emit_error msg b)), message_stop]"
    by (simp add: broken_end_def et_close_unclosed_def et_error_tail_def et_next_content_index_def b_def
        Let_def case_prod_beta)
  have "contract_events repr a (map fst ws @ broken_end fresh req_model msg tokens t) contract_init = Inr c2"
    unfolding tail by (simp only: contract_events_append prefix c1(1) c2(1) contract_tail_events bind_result.simps)
  moreover have "last (map ev_event (map fst ws @ broken_end fresh req_model msg tokens t)) = ''message_stop''"
    by (simp add: tail message_stop_def)
  ultimately have "assert_anthropic_stream_contract repr a (map fst ws @ broken_end fresh req_model msg tokens t) = Inr ()"
    using start c2(2,3) by (auto simp: assert_anthropic_stream_contract_def event_names_def tail)
  then show ?thesis using tracker_reads_written [OF wire chunks t(1)] by blast
qed

theorem midstream_error_completes:
  assumes wire: "\<forall>e \<in> set es. wire_ok dumps loads e"
    and chunks: "concat chunks = concat (map (format_sse_event dumps) es)"
    and start: "''message_start'' \<in> set (event_names es)"
    and prefix: "contract_events repr a es contract_init = Inr c"
  shows "\<exists>t. et_feed_all loads chunks et_init = (None, t) \<and>
    assert_anthropic_stream_contract repr a (es @ broken_end fresh req_model msg tokens t) = Inr ()"
  using assms written_error_completes [of "map (dumped dumps) es" loads chunks repr a c fresh req_model msg tokens]
  by (simp add: comp_def)

text \<open>A stream that breaks off inside its first block, sent in two chunks.\<close>

definition broken_stream :: "sse_event list" where
  "broken_stream = [\<lparr>ev_event = ''message_start'', ev_data = JObj [(''type'', JStr ''message_start'')]\<rparr>,
     content_block_start 0 ''text'' []]"

definition demo_dumps :: "json \<Rightarrow> string" where
  "demo_dumps j =
     (if j = JObj [(''type'', JStr ''message_start'')] then ''{\"type\": \"message_start\"}''
      else ''{\"type\": \"content_block_start\", \"index\": 0, \"content_block\": {\"type\": \"text\", \"text\": \"\"}}'')"

definition demo_loads :: "string \<Rightarrow> json option" where
  "demo_loads s =
     (if s = ''{\"type\": \"message_start\"}'' then Some (JObj [(''type'', JStr ''message_start'')])
      else Some (ev_data (content_block_start 0 ''text'' [])))"

definition demo_chunks :: "string list" where
  "demo_chunks = (let t = concat (map (format_sse_event demo_dumps) broken_stream) in [take 20 t, drop 20 t])"

lemma demo_wire: "\<forall>e \<in> set broken_stream. wire_ok demo_dumps demo_loads e"
  by code_simp

lemma demo_concat: "concat demo_chunks = concat (map (format_sse_event demo_dumps) broken_stream)"
  by (simp add: demo_chunks_def Let_def)

theorem tracker_reads_emitted_witness:
  "et_feed_all demo_loads demo_chunks et_init = (None, et_init\<lparr>et_open := [0], et_max := 0\<rparr>)"
  by (rule tracker_reads_emitted [OF demo_wire demo_concat]) code_simp

theorem midstream_error_completes_witness:
  "\<exists>t. et_feed_all demo_loads demo_chunks et_init = (None, t) \<and>
     assert_anthropic_stream_contract (\<lambda>_. []) False
       (broken_stream @ broken_end ''msg_0'' ''model'' ''failed'' (JInt 3) t) = Inr ()"
proof (rule midstream_error_completes [OF demo_wire demo_concat])
  show "''message_start'' \<in> set (event_names broken_stream)" by code_simp
  show "contract_events (\<lambda>_. []) False broken_stream contract_init = Inr \<lparr>cs_open = [(0, ''text'')], cs_seen = {0}\<rparr>"
    by code_simp
qed

end
