(* ===== verification/NativeSound.thy ===== *)
theory NativeSound
  imports NativePolicy EmittedTracker
begin

section \<open>The block policy keeps the stream contract\<close>

text \<open>
  The policy reads an upstream whose blocks may overlap and writes a stream with its own indices.
  The invariant relates the two states of the contract checker, on the upstream's events and on
  the events sent on, through the policy's table.
\<close>

subsection \<open>Reading one upstream event\<close>

text \<open>\<open>str(v)\<close> of a JSON value that is not a string is never the name of a block or delta type.\<close>

definition repr_ok :: "(json \<Rightarrow> string) \<Rightarrow> bool" where
  "repr_ok repr \<longleftrightarrow> (\<forall>j. (\<forall>t. j \<noteq> JStr t) \<longrightarrow> repr j \<notin> ALLOWED_BLOCK_START_TYPES \<union>
     {''thinking_delta'', ''signature_delta'', ''text_delta'', ''input_json_delta''})"

lemma py_str_known:
  assumes "repr_ok repr" and "py_str repr j \<in> ALLOWED_BLOCK_START_TYPES \<union>
     {''thinking_delta'', ''signature_delta'', ''text_delta'', ''input_json_delta''}"
  shows "j = JStr (py_str repr j)"
  using assms unfolding repr_ok_def by (cases j) (simp_all only: py_str_def json.case json.distinct not_False_eq_True simp_thms)

lemma is_obj_iff: "is_obj j \<longleftrightarrow> (\<exists>d. j = JObj d)"
  by (cases j) auto

lemma event_index_obj: "event_index \<lparr>ev_event = n, ev_data = JObj d\<rparr> = Inr u \<longleftrightarrow> dict_int ''index'' d = Some u"
  by (simp add: event_index_def dict_int_def split: option.split)

lemma event_index_data: "event_index e = Inr u \<Longrightarrow> \<exists>d. ev_data e = JObj d"
  by (cases "ev_data e") (auto simp: event_index_def)

lemma event_index_with [simp]: "event_index (with_index i n d) = Inr i"
  by (simp add: event_index_def with_index_def)

lemma with_index_get [simp]:
  "k \<noteq> ''index'' \<Longrightarrow> json_get_or k dflt (ev_data (with_index i n d)) = json_get_or k dflt (JObj d)"
  "ev_event (with_index i n d) = n"
  by (simp_all add: with_index_def json_get_or_def)

text \<open>What the checker stores for a block.\<close>

definition storage_of :: "(json \<Rightarrow> string) \<Rightarrow> json \<Rightarrow> string" where
  "storage_of repr block =
     (let ty = py_str repr (json_get_or ''type'' (JStr []) block) in
      if ty = ''text'' \<and> py_strip (py_str repr (json_get_or ''text'' (JStr []) block)) \<noteq> []
      then ''text_eager'' else ty)"

lemma two_checks:
  "(if \<not> P then Inl x else if Q then Inl y else Inr z) = Inr c \<longleftrightarrow> P \<and> \<not> Q \<and> c = z"
  by auto

lemma contract_start_iff:
  "contract_start repr e c = Inr c' \<longleftrightarrow> (\<exists>i block. event_index e = Inr i \<and>
     json_get_or ''content_block'' (JObj []) (ev_data e) = JObj block \<and>
     py_str repr (json_get_or ''type'' (JStr []) (JObj block)) \<in> ALLOWED_BLOCK_START_TYPES \<and>
     i \<notin> set (dict_keys (cs_open c)) \<and> i \<notin> cs_seen c \<and>
     c' = \<lparr>cs_open = dict_set i (storage_of repr (JObj block)) (cs_open c), cs_seen = insert i (cs_seen c)\<rparr>)"
proof (cases "json_get_or ''content_block'' (JObj []) (ev_data e)")
  case (JObj block)
  show ?thesis unfolding contract_start_def Let_def bind_result_Inr_iff two_checks storage_of_def JObj is_obj.simps
    by blast
qed (simp_all only: contract_start_def Let_def bind_result_Inr_iff is_obj.simps json.distinct simp_thms if_True sum.distinct)

definition kind_of_delta :: "string \<Rightarrow> string" where
  "kind_of_delta ty = (if ty = ''text_delta'' then ''text'' else if ty = ''input_json_delta'' then ''tool_use'' else ''thinking'')"

definition DELTA_TYPES :: "string set" where
  "DELTA_TYPES = {''thinking_delta'', ''signature_delta'', ''text_delta'', ''input_json_delta''}"

lemma delta_table:
  "kind \<notin> NO_DELTA_BLOCK_KINDS \<and>
     (if kind = ''thinking'' then ty \<in> {''thinking_delta'', ''signature_delta''}
      else if kind = ''text'' then ty = ''text_delta''
      else kind = ''tool_use'' \<and> ty = ''input_json_delta'') \<longleftrightarrow>
   ty \<in> DELTA_TYPES \<and> kind = kind_of_delta ty"
proof -
  consider "ty = ''thinking_delta''" | "ty = ''signature_delta''" | "ty = ''text_delta''" | "ty = ''input_json_delta''"
    | "ty \<notin> DELTA_TYPES" unfolding DELTA_TYPES_def by blast
  then show ?thesis
  proof cases
    case 4
    then show ?thesis
      by (cases "kind = ''tool_use''") (simp_all add: DELTA_TYPES_def kind_of_delta_def NO_DELTA_BLOCK_KINDS_def)
  next
    case 5
    then show ?thesis unfolding DELTA_TYPES_def by auto
  qed (simp_all add: DELTA_TYPES_def kind_of_delta_def NO_DELTA_BLOCK_KINDS_def cong: conj_cong, (rule iffI; clarify; simp split: if_splits)?)
qed

lemma delta_checks:
  "(if N then Inl x else if \<not> P then Inl y else
      if A then (if a then Inr c else Inl y) else if B then (if b then Inr c else Inl y)
      else if C then (if d then Inr c else Inl y) else Inl z) = Inr c' \<longleftrightarrow>
   P \<and> (\<not> N \<and> (if A then a else if B then b else C \<and> d)) \<and> c' = c"
  by auto

lemma contract_delta_iff:
  "contract_delta repr e c = Inr c' \<longleftrightarrow> (\<exists>i delta. event_index e = Inr i \<and>
     json_get_or ''delta'' (JObj []) (ev_data e) = JObj delta \<and>
     py_str repr (json_get_or ''type'' (JStr []) (JObj delta)) \<in> DELTA_TYPES \<and>
     dict_get i (cs_open c) = Some (kind_of_delta (py_str repr (json_get_or ''type'' (JStr []) (JObj delta)))) \<and>
     c' = c)"
proof (cases "json_get_or ''delta'' (JObj []) (ev_data e)")
  case (JObj delta)
  let ?ty = "py_str repr (json_get_or ''type'' (JStr []) (JObj delta))"
  have "(case dict_get i (cs_open c) of None \<Rightarrow> Inl AssertionError
      | Some kind \<Rightarrow>
          if kind \<in> NO_DELTA_BLOCK_KINDS then Inl AssertionError
          else if \<not> is_obj (JObj delta) then Inl AssertionError
          else if kind = ''thinking''
            then (if ?ty \<in> {''thinking_delta'', ''signature_delta''} then Inr c else Inl AssertionError)
          else if kind = ''text'' then (if ?ty = ''text_delta'' then Inr c else Inl AssertionError)
          else if kind = ''tool_use'' then (if ?ty = ''input_json_delta'' then Inr c else Inl AssertionError)
          else Inl KeyError) = Inr c' \<longleftrightarrow>
      ?ty \<in> DELTA_TYPES \<and> dict_get i (cs_open c) = Some (kind_of_delta ?ty) \<and> c' = c" for i
  proof (cases "dict_get i (cs_open c)")
    case (Some kind)
    show ?thesis unfolding Some option.case delta_checks delta_table is_obj.simps option.inject by blast
  qed (simp only: option.case sum.distinct option.distinct simp_thms)
  then show ?thesis unfolding contract_delta_def Let_def bind_result_Inr_iff JObj by blast
next
qed (simp_all only: contract_delta_def Let_def bind_result_Inr_iff is_obj.simps json.distinct simp_thms
  split: option.split if_split, blast+)

lemma contract_event_cases:
  "ev_event e = ''content_block_start'' \<Longrightarrow> contract_event repr a e c = contract_start repr e c"
  "ev_event e = ''content_block_delta'' \<Longrightarrow> contract_event repr a e c = contract_delta repr e c"
  "ev_event e = ''content_block_stop'' \<Longrightarrow> contract_event repr a e c = contract_stop e c"
  by (simp_all add: contract_event_def)

subsection \<open>The invariant\<close>

definition seg :: "policy_state \<Rightarrow> int \<Rightarrow> upstream_block option" where
  "seg s u = dict_get u (np_by s)"

definition policy_inv :: "bool \<Rightarrow> policy_state \<Rightarrow> contract_state \<Rightarrow> contract_state \<Rightarrow> bool" where
  "policy_inv thinking s cu co \<longleftrightarrow>
     dict_ok (np_by s) \<and>
     (\<forall>i \<in> cs_seen co. i < np_next s) \<and>
     (\<forall>u g. seg s u = Some g \<longrightarrow> ub_down g < np_next s \<and> u \<in> cs_seen cu \<and> u \<notin> np_dropped s) \<and>
     (\<forall>i k. dict_get i (cs_open co) = Some k \<longleftrightarrow>
        (\<exists>u g. seg s u = Some g \<and> ub_open g \<and> ub_down g = i \<and> dict_get u (cs_open cu) = Some k)) \<and>
     (\<forall>u g. seg s u = Some g \<and> ub_open g \<longrightarrow> u \<in> set (dict_keys (cs_open cu)) \<and> u \<notin> np_pending s) \<and>
     (\<forall>u v g h. seg s u = Some g \<and> seg s v = Some h \<and> ub_open g \<and> ub_open h \<and> ub_down g = ub_down h \<longrightarrow> u = v) \<and>
     (\<forall>u \<in> set (dict_keys (cs_open cu)). u \<in> cs_seen cu \<and>
        (u \<in> np_dropped s \<or> (\<exists>g. seg s u = Some g \<and> (ub_open g \<or> u \<in> np_pending s)))) \<and>
     np_dropped s \<subseteq> cs_seen cu \<and> np_pending s \<subseteq> cs_seen cu \<and>
     (\<not> thinking \<longrightarrow> (\<forall>u. dict_get u (cs_open cu) = Some ''thinking'' \<longrightarrow> u \<in> np_dropped s))"

lemma policy_invD:
  assumes "policy_inv thinking s cu co"
  shows "dict_ok (np_by s)"
    and "i \<in> cs_seen co \<Longrightarrow> i < np_next s"
    and "seg s u = Some g \<Longrightarrow> ub_down g < np_next s \<and> u \<in> cs_seen cu \<and> u \<notin> np_dropped s"
    and "dict_get i (cs_open co) = Some k \<longleftrightarrow>
        (\<exists>u g. seg s u = Some g \<and> ub_open g \<and> ub_down g = i \<and> dict_get u (cs_open cu) = Some k)"
    and "seg s u = Some g \<Longrightarrow> ub_open g \<Longrightarrow> u \<in> set (dict_keys (cs_open cu)) \<and> u \<notin> np_pending s"
    and "seg s u = Some g \<Longrightarrow> seg s v = Some h \<Longrightarrow> ub_open g \<Longrightarrow> ub_open h \<Longrightarrow> ub_down g = ub_down h \<Longrightarrow> u = v"
    and "u \<in> set (dict_keys (cs_open cu)) \<Longrightarrow> u \<in> cs_seen cu \<and>
        (u \<in> np_dropped s \<or> (\<exists>g. seg s u = Some g \<and> (ub_open g \<or> u \<in> np_pending s)))"
    and "np_dropped s \<subseteq> cs_seen cu" "np_pending s \<subseteq> cs_seen cu"
    and "\<not> thinking \<Longrightarrow> dict_get u (cs_open cu) = Some ''thinking'' \<Longrightarrow> u \<in> np_dropped s"
  using assms unfolding policy_inv_def by metis+

lemma policy_inv_init: "policy_inv thinking policy_init contract_init contract_init"
  by (simp add: policy_inv_def policy_init_def contract_init_def seg_def)

text \<open>The open blocks sent on.\<close>

lemma open_keys:
  assumes "policy_inv thinking s cu co"
  shows "i \<in> set (dict_keys (cs_open co)) \<longleftrightarrow> (\<exists>u g. seg s u = Some g \<and> ub_open g \<and> ub_down g = i)"
proof
  assume "i \<in> set (dict_keys (cs_open co))"
  then obtain k where "dict_get i (cs_open co) = Some k" using pd.lookup_keys [of i "cs_open co"] by blast
  then show "\<exists>u g. seg s u = Some g \<and> ub_open g \<and> ub_down g = i" using policy_invD(4) [OF assms] by blast
next
  assume "\<exists>u g. seg s u = Some g \<and> ub_open g \<and> ub_down g = i"
  then obtain u g where g: "seg s u = Some g" "ub_open g" "ub_down g = i" by blast
  then have "u \<in> set (dict_keys (cs_open cu))" using policy_invD(5) [OF assms] by blast
  then obtain k where "dict_get u (cs_open cu) = Some k" using pd.lookup_keys [of u "cs_open cu"] by blast
  then have "dict_get i (cs_open co) = Some k" using g policy_invD(4) [OF assms] by blast
  then show "i \<in> set (dict_keys (cs_open co))" by (rule pd.lookup_SomeD)
qed

lemma next_fresh:
  assumes "policy_inv thinking s cu co"
  shows "np_next s \<notin> set (dict_keys (cs_open co))" "np_next s \<notin> cs_seen co"
proof -
  show "np_next s \<notin> cs_seen co" using policy_invD(2) [OF assms, of "np_next s"] by auto
  show "np_next s \<notin> set (dict_keys (cs_open co))"
  proof
    assume "np_next s \<in> set (dict_keys (cs_open co))"
    then obtain u g where g: "seg s u = Some g" "ub_down g = np_next s" using open_keys [OF assms] by blast
    then show False using policy_invD(3) [OF assms g(1)] by simp
  qed
qed

subsection \<open>Closing the other blocks\<close>

lemma dict_get_map: "dict_get u (map (\<lambda>(v, b). (v, f v b)) d) = map_option (f u) (dict_get u d)"
  by (induction d) auto

lemma dict_keys_map: "dict_keys (map (\<lambda>(v, b). (v, f v b)) d) = dict_keys d"
  by (induction d) auto

lemma dict_ok_map: "dict_ok (map (\<lambda>(v, b). (v, f v b)) d) = dict_ok d"
  by (simp add: dict_ok_def dict_keys_map)

lemma other_open_mem:
  "dict_ok (np_by s) \<Longrightarrow> (v, b) \<in> set (other_open u s) \<longleftrightarrow> seg s v = Some b \<and> v \<noteq> u \<and> ub_open b"
  using dict_mem_get [of "np_by s" v b] dict_get_mem [of v "np_by s" b] by (auto simp: other_open_def seg_def)

lemma closed_others:
  assumes inv: "policy_inv thinking s cu co" and new: "u \<notin> cs_seen cu"
  shows "\<exists>c1. contract_events repr a (fst (synthetic_close_other_open_blocks u s)) co = Inr c1 \<and>
    cs_open c1 = [] \<and> cs_seen c1 = cs_seen co"
proof -
  let ?xs = "map (\<lambda>(v, b). ub_down b) (other_open u s)"
  have ok: "dict_ok (np_by s)" using policy_invD(1) [OF inv] .
  have none: "seg s u = None" using policy_invD(3) [OF inv, of u] new by (cases "seg s u") auto
  have "distinct (map fst (other_open u s))"
    using ok unfolding other_open_def dict_ok_def dict_keys_def by (rule distinct_map_filter)
  then have "distinct (other_open u s)" by (simp add: distinct_map)
  moreover have "inj_on (\<lambda>(v, b). ub_down b) (set (other_open u s))"
    using policy_invD(6) [OF inv] by (auto simp: inj_on_def other_open_mem [OF ok]) (metis option.inject)+
  ultimately have dist: "distinct ?xs" by (simp add: distinct_map)
  have keys: "set (dict_keys (cs_open co)) = set ?xs"
    using none by (force simp: open_keys [OF inv] other_open_mem [OF ok] set_eq_iff)
  obtain c1 where c1: "contract_events repr a (map content_block_stop ?xs) co = Inr c1"
      "set (dict_keys (cs_open c1)) = set (dict_keys (cs_open co)) - set ?xs" "cs_seen c1 = cs_seen co"
    using stops_contract [OF dist] keys by blast
  have "map content_block_stop ?xs = fst (synthetic_close_other_open_blocks u s)"
    by (simp add: synthetic_close_other_open_blocks_def case_prod_beta)
  moreover have "cs_open c1 = []" using c1(2) keys by (simp add: dict_keys_def)
  ultimately show ?thesis using c1(1,3) by metis
qed

subsection \<open>A block starts\<close>

definition frames :: "sse_event \<Rightarrow> outcome \<Rightarrow> sse_event list" where
  "frames e r = (case r of Unchanged \<Rightarrow> [e] | Dropped \<Rightarrow> [] | Frames es \<Rightarrow> es)"

lemma frames_simps [simp]: "frames e Unchanged = [e]" "frames e Dropped = []" "frames e (Frames es) = es"
  by (simp_all add: frames_def)

text \<open>The table after a start.\<close>

definition after_start :: "int \<Rightarrow> string \<Rightarrow> json \<Rightarrow> policy_state \<Rightarrow> policy_state" where
  "after_start u ty block s = snd (allocate_new_segment u ty (Some block) (snd (synthetic_close_other_open_blocks u s)))"

lemma after_start_seg:
  "seg (after_start u ty block s) v =
     (if v = u then Some \<lparr>ub_type = ty, ub_down = np_next s, ub_open = True, ub_start = Some block\<rparr>
      else map_option (\<lambda>b. if ub_open b then close_segment b else b) (seg s v))"
  by (auto simp: after_start_def allocate_new_segment_def synthetic_close_other_open_blocks_def seg_def
      dict_get_map intro!: map_option_cong)

lemma after_start_fields [simp]:
  "np_next (after_start u ty block s) = np_next s + 1" "np_dropped (after_start u ty block s) = np_dropped s"
  "np_pending (after_start u ty block s) = np_pending s \<union> fst ` set (other_open u s)"
  by (simp_all add: after_start_def allocate_new_segment_def synthetic_close_other_open_blocks_def)

lemma close_segment_simps [simp]: "ub_open (close_segment b) = False" "ub_down (close_segment b) = ub_down b"
  by (simp_all add: close_segment_def)

lemma after_start_ok: "dict_ok (np_by s) \<Longrightarrow> dict_ok (np_by (after_start u ty block s))"
  by (simp add: after_start_def allocate_new_segment_def synthetic_close_other_open_blocks_def dict_ok_map)

lemma inv_start:
  assumes inv: "policy_inv thinking s cu co" and new: "u \<notin> cs_seen cu"
    and kept: "\<not> thinking \<Longrightarrow> k \<noteq> ''thinking''"
  shows "policy_inv thinking (after_start u ty block s)
    \<lparr>cs_open = dict_set u k (cs_open cu), cs_seen = insert u (cs_seen cu)\<rparr>
    \<lparr>cs_open = dict_set (np_next s) k [], cs_seen = insert (np_next s) (cs_seen co)\<rparr>"
    (is "policy_inv thinking ?s ?cu ?co")
proof -
  note D = policy_invD [OF inv]
  have sg: "seg ?s v = Some g \<Longrightarrow> v \<noteq> u \<Longrightarrow> \<not> ub_open g \<and> (\<exists>b. seg s v = Some b \<and> ub_down g = ub_down b)" for v g
    by (auto simp: after_start_seg split: if_splits) (metis close_segment_simps(1))
  have su: "seg ?s u = Some \<lparr>ub_type = ty, ub_down = np_next s, ub_open = True, ub_start = Some block\<rparr>"
    by (simp add: after_start_seg)
  have down: "seg ?s u = Some g \<Longrightarrow> ub_down g = np_next s" for g using su by force
  have undropped: "u \<notin> np_dropped s" "u \<notin> np_pending s" "u \<notin> set (dict_keys (cs_open cu))"
    using D(7,8,9) new by blast+
  show ?thesis
    unfolding policy_inv_def
  proof (intro conjI)
    show "dict_ok (np_by ?s)" using after_start_ok [OF D(1)] .
    show "\<forall>i \<in> cs_seen ?co. i < np_next ?s" using D(2) by fastforce
    show "\<forall>v g. seg ?s v = Some g \<longrightarrow> ub_down g < np_next ?s \<and> v \<in> cs_seen ?cu \<and> v \<notin> np_dropped ?s"
    proof (intro allI impI)
      fix v g assume g: "seg ?s v = Some g"
      show "ub_down g < np_next ?s \<and> v \<in> cs_seen ?cu \<and> v \<notin> np_dropped ?s"
      proof (cases "v = u")
        case True
        then have "ub_down g = np_next s" using g down by blast
        then show ?thesis using True undropped(1) by simp
      next
        case False
        then obtain b where "seg s v = Some b" "ub_down g = ub_down b" using sg [OF g] by blast
        then show ?thesis using D(3) by fastforce
      qed
    qed
    show "\<forall>i k'. dict_get i (cs_open ?co) = Some k' \<longleftrightarrow>
        (\<exists>v g. seg ?s v = Some g \<and> ub_open g \<and> ub_down g = i \<and> dict_get v (cs_open ?cu) = Some k')"
    proof (intro allI iffI)
      fix i k' assume "dict_get i (cs_open ?co) = Some k'"
      then have "i = np_next s" "k' = k" by (simp_all split: if_splits)
      then show "\<exists>v g. seg ?s v = Some g \<and> ub_open g \<and> ub_down g = i \<and> dict_get v (cs_open ?cu) = Some k'"
        using su by auto
    next
      fix i k' assume "\<exists>v g. seg ?s v = Some g \<and> ub_open g \<and> ub_down g = i \<and> dict_get v (cs_open ?cu) = Some k'"
      then obtain v g where g: "seg ?s v = Some g" "ub_open g" "ub_down g = i" "dict_get v (cs_open ?cu) = Some k'" by blast
      then have v: "v = u" using sg by blast
      then have "i = np_next s" using g down by blast
      then show "dict_get i (cs_open ?co) = Some k'" using g(4) v by simp
    qed
    show "\<forall>v g. seg ?s v = Some g \<and> ub_open g \<longrightarrow> v \<in> set (dict_keys (cs_open ?cu)) \<and> v \<notin> np_pending ?s"
      using sg undropped(2) other_open_mem [OF D(1)] by (auto simp: other_open_def)
    show "\<forall>v w g h. seg ?s v = Some g \<and> seg ?s w = Some h \<and> ub_open g \<and> ub_open h \<and> ub_down g = ub_down h \<longrightarrow> v = w"
      using sg by blast
    show "\<forall>v \<in> set (dict_keys (cs_open ?cu)). v \<in> cs_seen ?cu \<and>
        (v \<in> np_dropped ?s \<or> (\<exists>g. seg ?s v = Some g \<and> (ub_open g \<or> v \<in> np_pending ?s)))"
    proof
      fix v assume v: "v \<in> set (dict_keys (cs_open ?cu))"
      show "v \<in> cs_seen ?cu \<and> (v \<in> np_dropped ?s \<or> (\<exists>g. seg ?s v = Some g \<and> (ub_open g \<or> v \<in> np_pending ?s)))"
      proof (cases "v = u")
        case True
        then show ?thesis using su by simp
      next
        case False
        then have v': "v \<in> cs_seen cu" "v \<in> np_dropped s \<or> (\<exists>g. seg s v = Some g \<and> (ub_open g \<or> v \<in> np_pending s))"
          using v D(7) by auto
        have pend: "v \<in> np_pending ?s" if "seg s v = Some g" "ub_open g" for g
        proof -
          have "(v, g) \<in> set (other_open u s)" using other_open_mem [OF D(1)] that False by blast
          then show ?thesis by force
        qed
        have "\<exists>g'. seg ?s v = Some g' \<and> v \<in> np_pending ?s" if g: "seg s v = Some g" "ub_open g \<or> v \<in> np_pending s" for g
        proof -
          have "seg ?s v \<noteq> None" using g(1) False by (simp add: after_start_seg)
          moreover have "v \<in> np_pending ?s" using g pend by auto
          ultimately show ?thesis by blast
        qed
        then show ?thesis using v' by fastforce
      qed
    qed
    show "np_dropped ?s \<subseteq> cs_seen ?cu" using D(8) by auto
    show "np_pending ?s \<subseteq> cs_seen ?cu"
      using D(9) D(3) other_open_mem [OF D(1)] by fastforce
    show "\<not> thinking \<longrightarrow> (\<forall>v. dict_get v (cs_open ?cu) = Some ''thinking'' \<longrightarrow> v \<in> np_dropped ?s)"
    proof (intro impI allI)
      fix v assume t: "\<not> thinking" "dict_get v (cs_open ?cu) = Some ''thinking''"
      then have "v \<noteq> u" using kept by (auto simp del: list.inject split: if_split_asm)
      then show "v \<in> np_dropped ?s" using t D(10) by simp
    qed
  qed
qed

text \<open>A dropped start.\<close>

lemma inv_drop:
  assumes inv: "policy_inv thinking s cu co" and new: "u \<notin> cs_seen cu"
  shows "policy_inv thinking (s\<lparr>np_dropped := insert u (np_dropped s)\<rparr>)
    \<lparr>cs_open = dict_set u k (cs_open cu), cs_seen = insert u (cs_seen cu)\<rparr> co"
proof -
  note D = policy_invD [OF inv]
  have none: "seg s u = None" using D(3) [of u] new by (cases "seg s u") auto
  have sg: "seg (s\<lparr>np_dropped := insert u (np_dropped s)\<rparr>) v = seg s v" for v by (simp add: seg_def)
  have P4: "dict_get i (cs_open co) = Some k' \<longleftrightarrow> (\<exists>v g. seg s v = Some g \<and> ub_open g \<and> ub_down g = i \<and>
      dict_get v (dict_set u k (cs_open cu)) = Some k')" for i k'
    using D(4) [of i k'] none by (metis option.distinct(1) pd.lookup_store)
  show ?thesis
    unfolding policy_inv_def sg
  proof (intro conjI)
    show "\<forall>v g. seg s v = Some g \<longrightarrow> ub_down g < np_next (s\<lparr>np_dropped := insert u (np_dropped s)\<rparr>) \<and>
        v \<in> cs_seen \<lparr>cs_open = dict_set u k (cs_open cu), cs_seen = insert u (cs_seen cu)\<rparr> \<and>
        v \<notin> np_dropped (s\<lparr>np_dropped := insert u (np_dropped s)\<rparr>)"
      using D(3) none by auto
  qed (use D P4 in \<open>auto\<close>)
qed

subsection \<open>A block goes on, or ends\<close>

text \<open>A closed block reopened under the next index.\<close>

definition reopened :: "int \<Rightarrow> string \<Rightarrow> json option \<Rightarrow> policy_state \<Rightarrow> policy_state" where
  "reopened u ty start s = snd (allocate_new_segment u ty start (s\<lparr>np_pending := np_pending s - {u}\<rparr>))"

lemma reopened_simps [simp]:
  "np_next (reopened u ty start s) = np_next s + 1" "np_dropped (reopened u ty start s) = np_dropped s"
  "np_pending (reopened u ty start s) = np_pending s - {u}"
  "seg (reopened u ty start s) v =
     (if v = u then Some \<lparr>ub_type = ty, ub_down = np_next s, ub_open = True, ub_start = start\<rparr> else seg s v)"
  "dict_ok (np_by s) \<Longrightarrow> dict_ok (np_by (reopened u ty start s))"
  by (auto simp: reopened_def allocate_new_segment_def seg_def)

lemma inv_reopen:
  assumes inv: "policy_inv thinking s cu co" and k: "dict_get u (cs_open cu) = Some k"
    and g: "seg s u = Some g" "\<not> ub_open g"
  shows "policy_inv thinking (reopened u ty start s) cu
    \<lparr>cs_open = dict_set (np_next s) k (cs_open co), cs_seen = insert (np_next s) (cs_seen co)\<rparr>"
    (is "policy_inv thinking ?s cu ?co")
proof -
  note D = policy_invD [OF inv]
  have less: "seg s v = Some h \<Longrightarrow> ub_down h \<noteq> np_next s" for v h using D(3) by fastforce
  have su: "seg ?s v = Some h \<Longrightarrow> ub_open h \<Longrightarrow> v = u \<and> ub_down h = np_next s \<or> v \<noteq> u \<and> seg s v = Some h" for v h
    by (auto split: if_splits)
  have P4: "dict_get i (cs_open ?co) = Some k' \<longleftrightarrow>
      (\<exists>v h. seg ?s v = Some h \<and> ub_open h \<and> ub_down h = i \<and> dict_get v (cs_open cu) = Some k')" for i k'
  proof (cases "i = np_next s")
    case True
    then have "(\<exists>v h. seg ?s v = Some h \<and> ub_open h \<and> ub_down h = i \<and> dict_get v (cs_open cu) = Some k') \<longleftrightarrow> k' = k"
      using su less k by auto
    then show ?thesis using True by auto
  next
    case False
    have "(\<exists>v h. seg ?s v = Some h \<and> ub_open h \<and> ub_down h = i \<and> dict_get v (cs_open cu) = Some k') \<longleftrightarrow>
        (\<exists>v h. seg s v = Some h \<and> ub_open h \<and> ub_down h = i \<and> dict_get v (cs_open cu) = Some k')"
      using su False g by (metis option.inject reopened_simps(4))
    then show ?thesis using False D(4) [of i k'] by simp
  qed
  have P6: "\<forall>v w h h'. seg ?s v = Some h \<and> seg ?s w = Some h' \<and> ub_open h \<and> ub_open h' \<and> ub_down h = ub_down h' \<longrightarrow> v = w"
    using su less D(6) by metis
  show ?thesis
    unfolding policy_inv_def
  proof (intro conjI allI impI)
    fix v h assume h: "seg ?s v = Some h"
    show "ub_down h < np_next ?s" using h D(3) [of v h] by (auto split: if_splits)
    show "v \<in> cs_seen cu" using h D(3) [of v h] D(3) [OF g(1)] by (auto split: if_splits)
    show "v \<notin> np_dropped ?s" using h D(3) [of v h] D(3) [OF g(1)] by (auto split: if_splits)
  next
    fix i k' show "dict_get i (cs_open ?co) = Some k' \<longleftrightarrow>
      (\<exists>v h. seg ?s v = Some h \<and> ub_open h \<and> ub_down h = i \<and> dict_get v (cs_open cu) = Some k')" by (rule P4)
  next
    fix v h assume h: "seg ?s v = Some h \<and> ub_open h"
    show "v \<in> set (dict_keys (cs_open cu))" "v \<notin> np_pending ?s"
      using h su [of v h] D(5) [of v h] pd.lookup_SomeD [OF k] by auto
  next
    fix v w h h' assume "seg ?s v = Some h \<and> seg ?s w = Some h' \<and> ub_open h \<and> ub_open h' \<and> ub_down h = ub_down h'"
    then show "v = w" using P6 by blast
  next
    show "\<forall>v \<in> set (dict_keys (cs_open cu)). v \<in> cs_seen cu \<and>
        (v \<in> np_dropped ?s \<or> (\<exists>h. seg ?s v = Some h \<and> (ub_open h \<or> v \<in> np_pending ?s)))"
      using D(7) by auto
  qed (use D(1,2,8,9,10) in \<open>auto intro: order.strict_implies_order\<close>, fastforce?)
qed

lemma inv_stop:
  assumes inv: "policy_inv thinking s cu co" and g: "seg s u = Some g" "ub_open g"
  shows "policy_inv thinking (s\<lparr>np_by := dict_set u (close_segment g) (np_by s)\<rparr>)
    (cu\<lparr>cs_open := dict_del u (cs_open cu)\<rparr>) (co\<lparr>cs_open := dict_del (ub_down g) (cs_open co)\<rparr>)"
    (is "policy_inv thinking ?s ?cu ?co")
proof -
  note D = policy_invD [OF inv]
  have sg: "seg ?s v = (if v = u then Some (close_segment g) else seg s v)" for v by (simp add: seg_def)
  have su: "seg ?s v = Some h \<Longrightarrow> ub_open h \<Longrightarrow> v \<noteq> u \<and> seg s v = Some h" for v h
    by (auto simp: sg split: if_splits)
  have P4: "dict_get i (cs_open ?co) = Some k' \<longleftrightarrow>
      (\<exists>v h. seg ?s v = Some h \<and> ub_open h \<and> ub_down h = i \<and> dict_get v (cs_open ?cu) = Some k')" for i k'
  proof (cases "i = ub_down g")
    case True
    have "\<not> (seg ?s v = Some h \<and> ub_open h \<and> ub_down h = i)" for v h
      using su [of v h] D(6) [OF _ g(1) _ g(2)] True by blast
    then show ?thesis using True by auto
  next
    case False
    have "(\<exists>v h. seg ?s v = Some h \<and> ub_open h \<and> ub_down h = i \<and> dict_get v (cs_open ?cu) = Some k') \<longleftrightarrow>
        (\<exists>v h. seg s v = Some h \<and> ub_open h \<and> ub_down h = i \<and> dict_get v (cs_open cu) = Some k')"
    proof (intro iffI; elim exE conjE)
      fix v h assume "seg ?s v = Some h" "ub_open h" "ub_down h = i" "dict_get v (cs_open ?cu) = Some k'"
      then show "\<exists>v h. seg s v = Some h \<and> ub_open h \<and> ub_down h = i \<and> dict_get v (cs_open cu) = Some k'"
        using su [of v h] by auto
    next
      fix v h assume h: "seg s v = Some h" "ub_open h" "ub_down h = i" "dict_get v (cs_open cu) = Some k'"
      then have "v \<noteq> u" using False g by auto
      then show "\<exists>v h. seg ?s v = Some h \<and> ub_open h \<and> ub_down h = i \<and> dict_get v (cs_open ?cu) = Some k'"
        using h by (intro exI [of _ v] exI [of _ h]) (simp add: sg)
    qed
    then show ?thesis using False D(4) [of i k'] by simp
  qed
  show ?thesis
    unfolding policy_inv_def
  proof (intro conjI allI impI)
    fix v h assume h: "seg ?s v = Some h"
    have "ub_down h < np_next s \<and> v \<in> cs_seen cu \<and> v \<notin> np_dropped s"
      using h D(3) [of v h] D(3) [OF g(1)] by (auto simp: sg split: if_splits)
    then show "ub_down h < np_next ?s" "v \<in> cs_seen ?cu" "v \<notin> np_dropped ?s" by auto
  next
    fix i k' show "dict_get i (cs_open ?co) = Some k' \<longleftrightarrow>
      (\<exists>v h. seg ?s v = Some h \<and> ub_open h \<and> ub_down h = i \<and> dict_get v (cs_open ?cu) = Some k')" by (rule P4)
  next
    fix v h assume h: "seg ?s v = Some h \<and> ub_open h"
    then show "v \<in> set (dict_keys (cs_open ?cu))" "v \<notin> np_pending ?s"
      using su [of v h] D(5) [of v h] by auto
  next
    fix v w h h' assume "seg ?s v = Some h \<and> seg ?s w = Some h' \<and> ub_open h \<and> ub_open h' \<and> ub_down h = ub_down h'"
    then show "v = w" using su D(6) by blast
  next
    show "\<forall>v \<in> set (dict_keys (cs_open ?cu)). v \<in> cs_seen ?cu \<and>
        (v \<in> np_dropped ?s \<or> (\<exists>h. seg ?s v = Some h \<and> (ub_open h \<or> v \<in> np_pending ?s)))"
      using D(7) by (auto simp: sg)
  next
    fix v assume "\<not> thinking" "dict_get v (cs_open ?cu) = Some ''thinking''"
    then show "v \<in> np_dropped ?s" using D(10) by (auto simp del: list.inject split: if_split_asm)
  qed (use D(1,2,8,9) in auto)
qed

text \<open>A stop that is not sent on: the block was dropped, or has been closed already.\<close>

lemma inv_silent_stop:
  assumes inv: "policy_inv thinking s cu co" and closed: "\<And>g. seg s u = Some g \<Longrightarrow> \<not> ub_open g"
    and P: "np_pending s - {u} \<subseteq> P" "P \<subseteq> np_pending s"
  shows "policy_inv thinking (s\<lparr>np_pending := P\<rparr>) (cu\<lparr>cs_open := dict_del u (cs_open cu)\<rparr>) co"
proof -
  note D = policy_invD [OF inv]
  let ?s = "s\<lparr>np_pending := P\<rparr>" and ?cu = "cu\<lparr>cs_open := dict_del u (cs_open cu)\<rparr>"
  have sg: "seg ?s v = seg s v" for v by (simp add: seg_def)
  have P4: "dict_get i (cs_open co) = Some k' \<longleftrightarrow>
      (\<exists>v h. seg s v = Some h \<and> ub_open h \<and> ub_down h = i \<and> dict_get v (cs_open ?cu) = Some k')" for i k'
  proof -
    have "seg s v = Some h \<and> ub_open h \<and> dict_get v (cs_open ?cu) = Some k' \<longleftrightarrow>
        seg s v = Some h \<and> ub_open h \<and> dict_get v (cs_open cu) = Some k'" for v h
      using closed [of h] by (cases "v = u") auto
    then show ?thesis using D(4) [of i k'] by blast
  qed
  show "policy_inv thinking ?s ?cu co"
    unfolding policy_inv_def sg
  proof (intro conjI allI impI)
    fix i k' show "dict_get i (cs_open co) = Some k' \<longleftrightarrow>
      (\<exists>v h. seg s v = Some h \<and> ub_open h \<and> ub_down h = i \<and> dict_get v (cs_open ?cu) = Some k')" by (rule P4)
  next
    fix v h assume "seg s v = Some h \<and> ub_open h"
    then show "v \<in> set (dict_keys (cs_open ?cu))" "v \<notin> np_pending ?s" using D(5) [of v h] closed P by auto
  next
    fix v assume "\<not> thinking" "dict_get v (cs_open ?cu) = Some ''thinking''"
    then show "v \<in> np_dropped ?s" using D(10) by (auto simp del: list.inject split: if_split_asm)
  next
    show "\<forall>v \<in> set (dict_keys (cs_open ?cu)). v \<in> cs_seen ?cu \<and>
        (v \<in> np_dropped ?s \<or> (\<exists>h. seg s v = Some h \<and> (ub_open h \<or> v \<in> np_pending ?s)))"
      using D(7) P by fastforce
  next
    fix v w h h' assume "seg s v = Some h \<and> seg s w = Some h' \<and> ub_open h \<and> ub_open h' \<and> ub_down h = ub_down h'"
    then show "v = w" using D(6) by blast
  qed (use D(1,2,3,8,9) P in auto)
qed

subsection \<open>One event\<close>

text \<open>A start of a block that the policy should have dropped.\<close>

definition starts_dropped_type :: "bool \<Rightarrow> sse_event \<Rightarrow> bool" where
  "starts_dropped_type thinking e \<longleftrightarrow> ev_event e = ''content_block_start'' \<and>
     (\<exists>block. json_get ''content_block'' (ev_data e) = Some (JObj block) \<and>
        should_drop_block_type (dict_get ''type'' block) thinking)"

lemma not_a_start: "ev_event e \<noteq> ''content_block_start'' \<Longrightarrow> \<not> starts_dropped_type th e"
  by (simp add: starts_dropped_type_def)

lemma closes_no_start:
  "e \<in> set (fst (synthetic_close_other_open_blocks u s)) \<Longrightarrow> \<not> starts_dropped_type th e"
  by (rule not_a_start) (auto simp: synthetic_close_other_open_blocks_def content_block_stop_def)

lemma indexed_start:
  "dict_get ''content_block'' d = Some (JObj block) \<Longrightarrow> \<not> should_drop_block_type (dict_get ''type'' block) th \<Longrightarrow>
     \<not> starts_dropped_type th (with_index i ''content_block_start'' d)"
  by (simp add: starts_dropped_type_def with_index_def)

lemma step_result:
  "h = (out, s') \<Longrightarrow> contract_events repr a (frames e out) co = Inr co' \<Longrightarrow> policy_inv thinking s' cu' co' \<Longrightarrow>
     \<forall>x \<in> set (frames e out). \<not> starts_dropped_type thinking x \<Longrightarrow>
     \<exists>out s' co'. h = (out, s') \<and> contract_events repr a (frames e out) co = Inr co' \<and> policy_inv thinking s' cu' co' \<and>
       (\<forall>x \<in> set (frames e out). \<not> starts_dropped_type thinking x)"
  by blast

lemma json_get_or_JObj: "json_get_or k dflt (JObj d) = (case dict_get k d of None \<Rightarrow> dflt | Some v \<Rightarrow> v)"
  by (simp add: json_get_or_def)

lemma typed_entry:
  assumes "repr_ok repr" and "py_str repr (json_get_or ''type'' (JStr []) (JObj d)) \<in> ALLOWED_BLOCK_START_TYPES \<union> DELTA_TYPES"
  shows "dict_get ''type'' d = Some (JStr (py_str repr (json_get_or ''type'' (JStr []) (JObj d))))"
proof -
  let ?v = "json_get_or ''type'' (JStr []) (JObj d)"
  have v: "?v = JStr (py_str repr ?v)" using py_str_known [OF assms(1)] assms(2) unfolding DELTA_TYPES_def by blast
  have "py_str repr ?v \<noteq> []" using assms(2) by (auto simp: ALLOWED_BLOCK_START_TYPES_def DELTA_TYPES_def)
  then show ?thesis using v by (cases "dict_get ''type'' d") (auto simp: json_get_or_JObj)
qed

lemma drops_thinking: "should_drop_block_type (Some (JStr ''thinking'')) False"
  by (simp add: should_drop_block_type_def)

lemma storage_thinking:
  "storage_of repr (JObj block) = ''thinking'' \<Longrightarrow> py_str repr (json_get_or ''type'' (JStr []) (JObj block)) = ''thinking''"
  unfolding storage_of_def Let_def by (simp split: if_split_asm)

lemma after_start_pair:
  "(case synthetic_close_other_open_blocks u s of (es, s) \<Rightarrow>
      case allocate_new_segment u ty (Some b) s of (i, s) \<Rightarrow> (Frames (es @ [with_index i n d]), s)) =
   (Frames (fst (synthetic_close_other_open_blocks u s) @ [with_index (np_next s) n d]), after_start u ty b s)"
  by (simp add: after_start_def allocate_new_segment_def case_prod_beta synthetic_close_other_open_blocks_def)

lemma step_start:
  assumes r: "repr_ok repr" and inv: "policy_inv thinking s cu co"
    and e: "e = \<lparr>ev_event = ''content_block_start'', ev_data = JObj d\<rparr>" and c: "contract_start repr e cu = Inr cu'"
  shows "\<exists>out s' co'. on_block_start thinking d s = (out, s') \<and> contract_events repr a (frames e out) co = Inr co' \<and>
    policy_inv thinking s' cu' co' \<and> (\<forall>x \<in> set (frames e out). \<not> starts_dropped_type thinking x)"
proof -
  obtain u block where u: "dict_int ''index'' d = Some u" "u \<notin> cs_seen cu"
      and b: "json_get_or ''content_block'' (JObj []) (JObj d) = JObj block"
      and t: "py_str repr (json_get_or ''type'' (JStr []) (JObj block)) \<in> ALLOWED_BLOCK_START_TYPES"
      and cu': "cu' = \<lparr>cs_open = dict_set u (storage_of repr (JObj block)) (cs_open cu), cs_seen = insert u (cs_seen cu)\<rparr>"
    using c unfolding contract_start_iff e sse_event.simps event_index_obj by blast
  let ?ty = "py_str repr (json_get_or ''type'' (JStr []) (JObj block))"
  have ty: "dict_get ''type'' block = Some (JStr ?ty)" using typed_entry [OF r] t by blast
  then have bl: "dict_get ''content_block'' d = Some (JObj block)"
    using b by (cases "dict_get ''content_block'' d") (auto simp: json_get_or_JObj)
  show ?thesis
  proof (cases "should_drop_block_type (Some (JStr ?ty)) thinking")
    case True
    then have "on_block_start thinking d s = (Dropped, s\<lparr>np_dropped := insert u (np_dropped s)\<rparr>)"
      unfolding on_block_start_def bl u(1) option.case json.case ty by (simp only: if_True)
    moreover have "policy_inv thinking (s\<lparr>np_dropped := insert u (np_dropped s)\<rparr>) cu' co"
      unfolding cu' by (rule inv_drop [OF inv u(2)])
    ultimately show ?thesis by (intro step_result [of _ Dropped _ repr a e co co]) simp_all
  next
    case False
    let ?k = "storage_of repr (JObj block)" and ?w = "with_index (np_next s) ''content_block_start'' d"
    have o: "on_block_start thinking d s =
        (Frames (fst (synthetic_close_other_open_blocks u s) @ [?w]), after_start u ?ty (JObj block) s)"
      using False unfolding on_block_start_def bl u(1) option.case json.case ty
      by (simp only: if_False Let_def after_start_pair)
    obtain c1 where c1: "contract_events repr a (fst (synthetic_close_other_open_blocks u s)) co = Inr c1"
        "cs_open c1 = []" "cs_seen c1 = cs_seen co"
      using closed_others [OF inv u(2)] by blast
    have "contract_event repr a ?w c1 = contract_start repr ?w c1"
      by (rule contract_event_cases) simp
    also have "\<dots> = Inr \<lparr>cs_open = dict_set (np_next s) ?k [], cs_seen = insert (np_next s) (cs_seen co)\<rparr>"
      unfolding contract_start_iff using next_fresh [OF inv] b t c1(2,3)
      by (intro exI [of _ "np_next s"] exI [of _ block]) simp
    finally have "contract_events repr a (fst (synthetic_close_other_open_blocks u s) @ [?w]) co =
        Inr \<lparr>cs_open = dict_set (np_next s) ?k [], cs_seen = insert (np_next s) (cs_seen co)\<rparr>"
      by (simp add: contract_events_append c1(1))
    moreover have "?k \<noteq> ''thinking''" if "\<not> thinking"
      using False that drops_thinking storage_thinking [of repr block] by auto
    then have "policy_inv thinking (after_start u ?ty (JObj block) s) cu'
        \<lparr>cs_open = dict_set (np_next s) ?k [], cs_seen = insert (np_next s) (cs_seen co)\<rparr>"
      unfolding cu' by (rule inv_start [OF inv u(2)])
    moreover have "\<not> starts_dropped_type thinking ?w" using indexed_start [OF bl] False ty by simp
    ultimately show ?thesis using step_result [OF o, of repr a e co _ thinking cu'] closes_no_start by simp
  qed
qed

lemma synthetic_type:
  assumes "k \<in> {''thinking'', ''text'', ''tool_use''}"
  shows "\<exists>d. synthetic_start_content_block k u stored = JObj d \<and> dict_get ''type'' d = Some (JStr k) \<and>
    (k = ''text'' \<longrightarrow> dict_get ''text'' d = Some (JStr []))"
  using assms by (auto simp: synthetic_start_content_block_def split: option.split json.split)

lemma drop_kind:
  "k \<in> {''thinking'', ''text'', ''tool_use''} \<Longrightarrow> should_drop_block_type (Some (JStr k)) th \<Longrightarrow> \<not> th \<and> k = ''thinking''"
  by (auto simp: should_drop_block_type_def split: if_splits)

lemma synthetic_kept:
  assumes "k \<in> {''thinking'', ''text'', ''tool_use''}" and "k = ''thinking'' \<Longrightarrow> th"
  shows "\<not> starts_dropped_type th (start_frame i (synthetic_start_content_block k u stored))"
  using synthetic_type [OF assms(1), of u stored] drop_kind [OF assms(1), of th] assms(2)
  by (auto simp: starts_dropped_type_def start_frame_def)

lemma contract_synthetic:
  assumes "k \<in> {''thinking'', ''text'', ''tool_use''}" and "i \<notin> set (dict_keys (cs_open c))" and "i \<notin> cs_seen c"
  shows "contract_event repr a (start_frame i (synthetic_start_content_block k u stored)) c =
    Inr \<lparr>cs_open = dict_set i k (cs_open c), cs_seen = insert i (cs_seen c)\<rparr>"
proof -
  obtain d where d: "synthetic_start_content_block k u stored = JObj d" "dict_get ''type'' d = Some (JStr k)"
      "k = ''text'' \<longrightarrow> dict_get ''text'' d = Some (JStr [])"
    using synthetic_type [OF assms(1)] by blast
  have "storage_of repr (JObj d) = k" using d(2,3) by (simp add: storage_of_def json_get_or_JObj)
  moreover have "k \<in> ALLOWED_BLOCK_START_TYPES" using assms(1) by (auto simp: ALLOWED_BLOCK_START_TYPES_def)
  moreover have "event_index (start_frame i (JObj d)) = Inr i"
      "json_get_or ''content_block'' (JObj []) (ev_data (start_frame i (JObj d))) = JObj d"
    by (simp_all add: event_index_def start_frame_def)
  moreover have "contract_event repr a (start_frame i (JObj d)) c = contract_start repr (start_frame i (JObj d)) c"
    by (rule contract_event_cases) (simp add: start_frame_def)
  ultimately show ?thesis using assms(2,3) d(2) unfolding d(1)
    by (simp add: contract_start_iff json_get_or_JObj)
qed

lemma delta_kind:
  assumes "ty \<in> DELTA_TYPES"
  shows "delta_type_to_block_kind (Some (JStr ty)) = Some (kind_of_delta ty)"
    and "kind_of_delta ty \<in> {''thinking'', ''text'', ''tool_use''}"
  using assms by (auto simp: DELTA_TYPES_def delta_type_to_block_kind_def kind_of_delta_def)

lemma contract_with_delta:
  assumes "json_get_or ''delta'' (JObj []) (JObj d) = JObj delta"
    and "py_str repr (json_get_or ''type'' (JStr []) (JObj delta)) \<in> DELTA_TYPES"
    and "dict_get i (cs_open c) = Some (kind_of_delta (py_str repr (json_get_or ''type'' (JStr []) (JObj delta))))"
  shows "contract_event repr a (with_index i ''content_block_delta'' d) c = Inr c"
proof -
  have "contract_event repr a (with_index i ''content_block_delta'' d) c =
      contract_delta repr (with_index i ''content_block_delta'' d) c"
    by (rule contract_event_cases) simp
  also have "\<dots> = Inr c" unfolding contract_delta_iff
    using assms by (intro exI [of _ i] exI [of _ delta]) simp
  finally show ?thesis .
qed

lemma step_delta:
  assumes r: "repr_ok repr" and inv: "policy_inv thinking s cu co"
    and e: "e = \<lparr>ev_event = ''content_block_delta'', ev_data = JObj d\<rparr>" and c: "contract_delta repr e cu = Inr cu'"
  shows "\<exists>out s' co'. on_block_delta thinking d s = (out, s') \<and> contract_events repr a (frames e out) co = Inr co' \<and>
    policy_inv thinking s' cu' co' \<and> (\<forall>x \<in> set (frames e out). \<not> starts_dropped_type thinking x)"
proof -
  note D = policy_invD [OF inv]
  obtain u delta where u: "dict_int ''index'' d = Some u"
      and b: "json_get_or ''delta'' (JObj []) (JObj d) = JObj delta"
      and t: "py_str repr (json_get_or ''type'' (JStr []) (JObj delta)) \<in> DELTA_TYPES"
      and o: "dict_get u (cs_open cu) = Some (kind_of_delta (py_str repr (json_get_or ''type'' (JStr []) (JObj delta))))"
      and cu': "cu' = cu"
    using c unfolding contract_delta_iff e sse_event.simps event_index_obj by blast
  let ?ty = "py_str repr (json_get_or ''type'' (JStr []) (JObj delta))"
  let ?k = "kind_of_delta ?ty"
  have ty: "dict_get ''type'' delta = Some (JStr ?ty)" using typed_entry [OF r] t by blast
  then have de: "dict_get ''delta'' d = Some (JObj delta)"
    using b by (cases "dict_get ''delta'' d") (auto simp: json_get_or_JObj)
  have silent: ?thesis if "on_block_delta thinking d s = (Dropped, s)"
    using that inv unfolding cu' by (intro step_result [of _ Dropped _ repr a e co co]) simp_all
  show ?thesis
  proof (cases "u \<in> np_dropped s \<or> should_drop_block_type (Some (JStr ?ty)) thinking")
    case True
    then show ?thesis
      by (intro silent) (auto simp only: on_block_delta_def de u option.case json.case ty if_True if_False split: if_split)
  next
    case False
    obtain g where g: "seg s u = Some g" "ub_open g \<or> u \<in> np_pending s"
      using D(7) [OF pd.lookup_SomeD [OF o]] False by blast
    have handle: "on_block_delta thinking d s =
        (if ub_open g then (Frames [with_index (ub_down g) ''content_block_delta'' d], s)
         else (Frames [start_frame (np_next s) (synthetic_start_content_block ?k u (ub_start g)),
                       with_index (np_next s) ''content_block_delta'' d], reopened u ?k (ub_start g) s))"
      using False g(1) unfolding on_block_delta_def de u option.case json.case ty delta_kind(1) [OF t] seg_def
      by (simp add: Let_def allocate_new_segment_def reopened_def)
    show ?thesis
    proof (cases "ub_open g")
      case True
      then have "dict_get (ub_down g) (cs_open co) = Some ?k" using D(4) g(1) o by blast
      then have "contract_events repr a [with_index (ub_down g) ''content_block_delta'' d] co = Inr co"
        using contract_with_delta [OF b t] by simp
      then show ?thesis using inv True unfolding cu' handle
        using step_result [OF refl, of repr a e "Frames [with_index (ub_down g) ''content_block_delta'' d]" co co thinking s cu]
        by (simp add: not_a_start)
    next
      case closed: False
      let ?co = "\<lparr>cs_open = dict_set (np_next s) ?k (cs_open co), cs_seen = insert (np_next s) (cs_seen co)\<rparr>"
      have st: "contract_event repr a (start_frame (np_next s) (synthetic_start_content_block ?k u (ub_start g))) co = Inr ?co"
        by (rule contract_synthetic [OF delta_kind(2) [OF t] next_fresh [OF inv]])
      have de: "contract_event repr a (with_index (np_next s) ''content_block_delta'' d) ?co = Inr ?co"
        by (rule contract_with_delta [OF b t]) simp
      have "contract_events repr a [start_frame (np_next s) (synthetic_start_content_block ?k u (ub_start g)),
          with_index (np_next s) ''content_block_delta'' d] co = Inr ?co"
        by (simp only: contract_events.simps bind_result.simps st de)
      moreover have "policy_inv thinking (reopened u ?k (ub_start g) s) cu ?co"
        by (rule inv_reopen [OF inv o g(1) closed])
      moreover have "\<not> starts_dropped_type thinking (start_frame (np_next s) (synthetic_start_content_block ?k u (ub_start g)))"
      proof (rule synthetic_kept)
        show "?k \<in> {''thinking'', ''text'', ''tool_use''}" by (rule delta_kind(2) [OF t])
        show "thinking" if "?k = ''thinking''" using D(10) [of u] o that False by metis
      qed
      ultimately show ?thesis using closed unfolding cu' handle
        by (intro step_result [where out = "Frames [start_frame (np_next s) (synthetic_start_content_block ?k u (ub_start g)),
            with_index (np_next s) ''content_block_delta'' d]"]) (simp_all only: if_False frames_simps, simp_all add: not_a_start)
    qed
  qed
qed

lemma step_stop:
  assumes inv: "policy_inv thinking s cu co"
    and e: "e = \<lparr>ev_event = ''content_block_stop'', ev_data = JObj d\<rparr>" and c: "contract_stop e cu = Inr cu'"
  shows "\<exists>out s' co'. on_block_stop thinking d s = (out, s') \<and> contract_events repr a (frames e out) co = Inr co' \<and>
    policy_inv thinking s' cu' co' \<and> (\<forall>x \<in> set (frames e out). \<not> starts_dropped_type thinking x)"
proof -
  note D = policy_invD [OF inv]
  obtain u where u: "dict_int ''index'' d = Some u" "u \<in> set (dict_keys (cs_open cu))"
      and cu': "cu' = cu\<lparr>cs_open := dict_del u (cs_open cu)\<rparr>"
    using c unfolding contract_stop_def bind_result_Inr_iff e event_index_obj by (auto split: if_splits)
  have h: "on_block_stop thinking d s =
      (if u \<in> np_dropped s then (Dropped, s)
       else if u \<in> np_pending s then (Dropped, s\<lparr>np_pending := np_pending s - {u}\<rparr>)
       else (case seg s u of
               Some g \<Rightarrow> if ub_open g
                 then (Frames [with_index (ub_down g) ''content_block_stop'' d],
                       s\<lparr>np_by := dict_set u (close_segment g) (np_by s)\<rparr>)
                 else (Dropped, s)
             | None \<Rightarrow> if thinking then (Unchanged, s) else (Dropped, s)))"
    by (simp add: on_block_stop_def u(1) seg_def cong: if_cong)
  consider "u \<in> np_dropped s" | "u \<notin> np_dropped s" "u \<in> np_pending s"
    | g where "u \<notin> np_dropped s" "u \<notin> np_pending s" "seg s u = Some g" "ub_open g"
    using D(7) [OF u(2)] by blast
  then show ?thesis
  proof cases
    case 1
    then have none: "\<And>g. seg s u = Some g \<Longrightarrow> \<not> ub_open g" using D(3) by blast
    have "policy_inv thinking s cu' co"
      using inv_silent_stop [OF inv none, where P = "np_pending s"] by (simp add: cu')
    then show ?thesis using 1 unfolding h by (intro step_result [of _ Dropped]) simp_all
  next
    case 2
    then have none: "\<And>g. seg s u = Some g \<Longrightarrow> \<not> ub_open g" using D(5) by blast
    have "policy_inv thinking (s\<lparr>np_pending := np_pending s - {u}\<rparr>) cu' co"
      unfolding cu' by (rule inv_silent_stop [OF inv none]) auto
    then show ?thesis using 2 unfolding h by (intro step_result [of _ Dropped]) simp_all
  next
    case 3
    have key: "ub_down g \<in> set (dict_keys (cs_open co))" using open_keys [OF inv] 3 by blast
    have "contract_event repr a (with_index (ub_down g) ''content_block_stop'' d) co =
        contract_stop (with_index (ub_down g) ''content_block_stop'' d) co"
      by (rule contract_event_cases) simp
    also have "\<dots> = Inr (co\<lparr>cs_open := dict_del (ub_down g) (cs_open co)\<rparr>)"
      using key by (simp add: contract_stop_def)
    finally have ev: "contract_events repr a (frames e (Frames [with_index (ub_down g) ''content_block_stop'' d])) co =
        Inr (co\<lparr>cs_open := dict_del (ub_down g) (cs_open co)\<rparr>)" by simp
    have "on_block_stop thinking d s = (Frames [with_index (ub_down g) ''content_block_stop'' d],
        s\<lparr>np_by := dict_set u (close_segment g) (np_by s)\<rparr>)"
      unfolding h by (simp only: 3 if_False if_True option.case)
    then show ?thesis by (rule step_result [OF _ ev]) (simp_all add: cu' inv_stop [OF inv 3(3,4)] not_a_start)
  qed
qed

text \<open>Every event: the policy raises nothing, and what it sends on is as good as what it got.\<close>

lemma policy_step:
  assumes r: "repr_ok repr" and inv: "policy_inv thinking s cu co" and c: "contract_event repr a e cu = Inr cu'"
  shows "\<exists>out s' co'. transform_payload thinking e s = (Inr out, s') \<and>
    contract_events repr a (frames e out) co = Inr co' \<and> policy_inv thinking s' cu' co' \<and>
    (\<forall>x \<in> set (frames e out). \<not> starts_dropped_type thinking x)"
proof -
  consider "ev_event e = ''content_block_start''" | "ev_event e = ''content_block_delta''" | "ev_event e = ''content_block_stop''"
    | "ev_event e \<noteq> ''content_block_start''" "ev_event e \<noteq> ''content_block_delta''" "ev_event e \<noteq> ''content_block_stop''" by blast
  then show ?thesis
  proof cases
    case 1
    then have c': "contract_start repr e cu = Inr cu'" using c contract_event_cases(1) by metis
    then obtain d where "ev_data e = JObj d" using event_index_data unfolding contract_start_iff by blast
    then have e: "e = \<lparr>ev_event = ''content_block_start'', ev_data = JObj d\<rparr>" using 1 by (cases e) simp
    obtain out s' co' where "on_block_start thinking d s = (out, s')" "contract_events repr a (frames e out) co = Inr co'"
        "policy_inv thinking s' cu' co'" "\<forall>x \<in> set (frames e out). \<not> starts_dropped_type thinking x" using step_start [OF r inv e c', where a = a] by blast
    moreover from this have "transform_payload thinking e s = (Inr out, s')" by (simp add: transform_payload_def e)
    ultimately show ?thesis by blast
  next
    case 2
    then have c': "contract_delta repr e cu = Inr cu'" using c contract_event_cases(2) by metis
    then obtain d where "ev_data e = JObj d" using event_index_data unfolding contract_delta_iff by blast
    then have e: "e = \<lparr>ev_event = ''content_block_delta'', ev_data = JObj d\<rparr>" using 2 by (cases e) simp
    obtain out s' co' where "on_block_delta thinking d s = (out, s')" "contract_events repr a (frames e out) co = Inr co'"
        "policy_inv thinking s' cu' co'" "\<forall>x \<in> set (frames e out). \<not> starts_dropped_type thinking x" using step_delta [OF r inv e c', where a = a] by blast
    moreover from this have "transform_payload thinking e s = (Inr out, s')" by (simp add: transform_payload_def e)
    ultimately show ?thesis by blast
  next
    case 3
    then have c': "contract_stop e cu = Inr cu'" using c contract_event_cases(3) by metis
    then obtain d where "ev_data e = JObj d"
      using event_index_data unfolding contract_stop_def bind_result_Inr_iff by blast
    then have e: "e = \<lparr>ev_event = ''content_block_stop'', ev_data = JObj d\<rparr>" using 3 by (cases e) simp
    obtain out s' co' where "on_block_stop thinking d s = (out, s')" "contract_events repr a (frames e out) co = Inr co'"
        "policy_inv thinking s' cu' co'" "\<forall>x \<in> set (frames e out). \<not> starts_dropped_type thinking x" using step_stop [OF inv e c', where a = a] by blast
    moreover from this have "transform_payload thinking e s = (Inr out, s')" by (simp add: transform_payload_def e)
    ultimately show ?thesis by blast
  next
    case 4
    then have "transform_payload thinking e s = (Inr Unchanged, s)" by (simp only: transform_payload_def Let_def if_False)
    moreover have "cu' = cu \<and> contract_event repr a e co = Inr co"
      using c 4 unfolding contract_event_def by (simp only: if_False split: if_split_asm) simp_all
    ultimately have "transform_payload thinking e s = (Inr Unchanged, s) \<and>
        contract_events repr a (frames e Unchanged) co = Inr co \<and> policy_inv thinking s cu' co \<and>
        (\<forall>x \<in> set (frames e Unchanged). \<not> starts_dropped_type thinking x)" using inv not_a_start [OF 4(1)] by simp
    then show ?thesis by blast
  qed
qed

subsection \<open>A whole stream\<close>

fun transform_stream :: "bool \<Rightarrow> sse_event list \<Rightarrow> policy_state \<Rightarrow> sse_event list result \<times> policy_state" where
  "transform_stream thinking [] s = (Inr [], s)"
| "transform_stream thinking (e # es) s =
     (case transform_payload thinking e s of
        (Inl x, s) \<Rightarrow> (Inl x, s)
      | (Inr out, s) \<Rightarrow>
          (case transform_stream thinking es s of
             (Inl x, s) \<Rightarrow> (Inl x, s)
           | (Inr rest, s) \<Rightarrow> (Inr (frames e out @ rest), s)))"

lemma transform_stream_inv:
  assumes "repr_ok repr" and "policy_inv thinking s cu co" and "contract_events repr a es cu = Inr cu'"
  shows "\<exists>out s' co'. transform_stream thinking es s = (Inr out, s') \<and>
    contract_events repr a out co = Inr co' \<and> policy_inv thinking s' cu' co' \<and>
    (\<forall>x \<in> set out. \<not> starts_dropped_type thinking x)"
  using assms(2,3)
proof (induction es arbitrary: s cu co)
  case (Cons e es)
  then obtain c1 where c1: "contract_event repr a e cu = Inr c1" "contract_events repr a es c1 = Inr cu'" by auto
  obtain out s1 co1 where o: "transform_payload thinking e s = (Inr out, s1)"
      "contract_events repr a (frames e out) co = Inr co1" "policy_inv thinking s1 c1 co1"
      "\<forall>x \<in> set (frames e out). \<not> starts_dropped_type thinking x"
    using policy_step [OF assms(1) Cons.prems(1) c1(1)] by blast
  obtain rest s2 co2 where t: "transform_stream thinking es s1 = (Inr rest, s2)"
      "contract_events repr a rest co1 = Inr co2" "policy_inv thinking s2 cu' co2"
      "\<forall>x \<in> set rest. \<not> starts_dropped_type thinking x"
    using Cons.IH [OF o(3) c1(2)] by blast
  have "contract_events repr a (frames e out @ rest) co = Inr co2"
    by (simp only: contract_events_append o(2) t(2) bind_result.simps)
  moreover have "transform_stream thinking (e # es) s = (Inr (frames e out @ rest), s2)" by (simp add: o(1) t(1))
  moreover have "\<forall>x \<in> set (frames e out @ rest). \<not> starts_dropped_type thinking x" using o(4) t(4) by auto
  ultimately show ?case using t(3) by blast
qed simp

text \<open>C18. Whatever an upstream sends that keeps the block contract, its blocks overlapping or not, the
  policy raises nothing and sends on a stream that keeps the contract too, under its own indices
  and with thinking dropped where it is disabled; when the upstream has closed its blocks, every
  block sent on is closed, the synthetic ones included.\<close>

theorem native_stream_repaired:
  assumes "repr_ok repr" and "contract_events repr a es contract_init = Inr c"
  shows "\<exists>out s c'. transform_stream thinking es policy_init = (Inr out, s) \<and>
    contract_events repr a out contract_init = Inr c' \<and> (cs_open c = [] \<longrightarrow> cs_open c' = []) \<and>
    (\<forall>x \<in> set out. \<not> starts_dropped_type thinking x)"
proof -
  obtain out s c' where o: "transform_stream thinking es policy_init = (Inr out, s)"
      "contract_events repr a out contract_init = Inr c'" "policy_inv thinking s c c'"
      "\<forall>x \<in> set out. \<not> starts_dropped_type thinking x"
    using transform_stream_inv [OF assms(1) policy_inv_init assms(2)] by blast
  have "set (dict_keys (cs_open c')) = {}" if "cs_open c = []"
    using open_keys [OF o(3)] policy_invD(5) [OF o(3)] that by (auto simp: set_eq_iff)
  then have "cs_open c = [] \<longrightarrow> cs_open c' = []" by (simp add: dict_keys_def)
  then show ?thesis using o by blast
qed

subsection \<open>On the text of events\<close>

lemma format_native_line:
  "n \<noteq> [] \<Longrightarrow> one_line t \<Longrightarrow> t \<noteq> [] \<Longrightarrow>
     format_native_sse_event (Some n) t = ''event: '' @ n @ [LF] @ ''data: '' @ t @ [LF, LF]"
  by (simp add: format_native_sse_event_def splitlines_last)

lemma strip_trailing: "py_strip (s @ [LF]) = py_strip s"
proof -
  have "py_rstrip (x @ [LF]) = py_rstrip x" for x by (simp add: py_rstrip_def py_space_def)
  moreover have "py_lstrip (s @ [LF]) = (if py_lstrip s = [] then [] else py_lstrip s @ [LF])"
  proof (induction s)
    case (Cons c s)
    then show ?case by (auto simp: py_lstrip_def)
  qed (simp add: py_lstrip_def py_space_def)
  ultimately show ?thesis by (simp add: py_strip_def py_rstrip_def)
qed

lemma parse_native_formatted:
  assumes "wire_ok dumps loads e"
  shows "parse_native_sse_event (format_sse_event dumps e) = (Some (ev_event e), dumps (ev_data e))"
proof -
  let ?a = "''event: '' @ ev_event e" and ?b = "''data: '' @ dumps (ev_data e)"
  have w: "stripped (ev_event e)" "stripped (dumps (ev_data e))" using assms by (simp_all add: wire_ok_def)
  have one: "one_line ?a" "one_line ?b" using assms by (auto simp: wire_ok_def one_line_def py_break_def)
  have "stripped (?a @ LF # ?b)" using w by (auto simp: stripped_def py_space_def)
  then have "py_strip (?a @ LF # ?b) = ?a @ LF # ?b" by (rule strip_stripped)
  moreover have "format_sse_event dumps e = ((?a @ LF # ?b) @ [LF]) @ [LF]" by (simp add: format_sse_event_def)
  ultimately have "py_strip (format_sse_event dumps e) = ?a @ LF # ?b" by (simp only: strip_trailing)
  moreover have "py_splitlines (?a @ LF # ?b) = [?a, ?b]"
    using splitlines_line [OF one(1), of ?b] splitlines_last [OF one(2)] by simp
  moreover have "py_strip (CHR '' '' # ev_event e) = ev_event e" using strip_lead strip_stripped [OF w(1)] by simp
  moreover have "py_lstrip (CHR '' '' # dumps (ev_data e)) = dumps (ev_data e)"
    using w(2) by (cases "dumps (ev_data e)") (auto simp: py_lstrip_def stripped_def py_space_def)
  ultimately show ?thesis by (simp add: parse_native_sse_event_def)
qed

text \<open>The frames as written: an unchanged event keeps its JSON text, frames made by the policy get the
  program's.\<close>

definition written_frames :: "(json \<Rightarrow> string) \<Rightarrow> written \<Rightarrow> outcome \<Rightarrow> written list" where
  "written_frames dumps w r =
     (case r of Unchanged \<Rightarrow> [w] | Dropped \<Rightarrow> [] | Frames es \<Rightarrow> map (dumped dumps) es)"

lemma written_frames_events [simp]: "map fst (written_frames dumps w r) = frames (fst w) r"
  by (simp add: written_frames_def frames_def comp_def split: outcome.split)

lemma written_frames_ok:
  "written_ok loads w \<Longrightarrow> \<forall>x \<in> set (frames (fst w) r). wire_ok dumps loads x \<Longrightarrow>
     \<forall>x \<in> set (written_frames dumps w r). written_ok loads x"
  by (cases r) (auto simp: written_frames_def)

lemma written_frames_dumped [simp]:
  "concat (map written_text (written_frames dumps (dumped dumps e) r)) = concat (map (format_sse_event dumps) (frames e r))"
  by (cases r) (simp_all add: written_frames_def comp_def)

text \<open>The transformation of the text of an event is the text of the transformed event: an event of
  the upstream, written in one frame, is passed on as it is, dropped, or replaced by the frames
  of the payload-level policy.\<close>

lemma native_text_written:
  assumes "written_ok loads w"
    and "transform_payload thinking (fst w) s = (Inr out, s')"
    and "\<forall>x \<in> set (frames (fst w) out). ev_event x \<noteq> [] \<and> one_line (dumps (ev_data x)) \<and> dumps (ev_data x) \<noteq> []"
  shows "transform_native_sse_block_event dumps loads thinking (written_text w) s =
    (Inr (if out = Dropped then None else Some (concat (map written_text (written_frames dumps w out)))), s')"
proof -
  have w: "wire_ok (\<lambda>_. snd w) loads (fst w)" using assms(1) by (simp add: written_ok_def)
  then have "ev_event (fst w) \<noteq> []" "snd w \<noteq> []" "loads (snd w) = Some (ev_data (fst w))"
    by (auto simp: wire_ok_def stripped_def)
  moreover have "concat (map (\<lambda>x. format_native_sse_event (Some (ev_event x)) (dumps (ev_data x))) es) = concat (map (format_sse_event dumps) es)"
    if "\<forall>x \<in> set es. ev_event x \<noteq> [] \<and> one_line (dumps (ev_data x)) \<and> dumps (ev_data x) \<noteq> []" for es
    by (rule arg_cong [where f = concat], rule map_cong) (use that in \<open>auto simp: format_native_line format_sse_event_def\<close>)
  moreover obtain n d where "fst w = \<lparr>ev_event = n, ev_data = d\<rparr>" by (cases "fst w")
  moreover have "parse_native_sse_event (written_text w) = (Some (ev_event (fst w)), snd w)"
    using parse_native_formatted [OF w] by (simp add: written_text_def)
  ultimately show ?thesis using assms(2,3)
    by (cases out) (simp_all add: transform_native_sse_block_event_def written_frames_def comp_def)
qed

theorem native_text_refines:
  assumes "wire_ok dumps loads e"
    and "transform_payload thinking e s = (Inr out, s')"
    and "\<forall>x \<in> set (frames e out). ev_event x \<noteq> [] \<and> one_line (dumps (ev_data x)) \<and> dumps (ev_data x) \<noteq> []"
  shows "transform_native_sse_block_event dumps loads thinking (format_sse_event dumps e) s =
    (Inr (if out = Dropped then None else Some (concat (map (format_sse_event dumps) (frames e out)))), s')"
  using native_text_written [of loads "dumped dumps e" thinking s out s' dumps] assms by simp

subsection \<open>Examples\<close>

definition text_delta_ev :: "int \<Rightarrow> string \<Rightarrow> sse_event" where
  "text_delta_ev i t = content_block_delta i ''text_delta'' t"

text \<open>Two blocks of the upstream that overlap; the first goes on after the second has started.\<close>

definition overlapping :: "sse_event list" where
  "overlapping = [content_block_start 0 ''text'' [], text_delta_ev 0 ''a'', content_block_start 1 ''text'' [],
     text_delta_ev 0 ''b'', text_delta_ev 1 ''c'']"

definition str_repr :: "json \<Rightarrow> string" where
  "str_repr j = ''<value>''"

lemma str_repr_ok: "repr_ok str_repr"
  by (simp add: repr_ok_def str_repr_def ALLOWED_BLOCK_START_TYPES_def)

theorem native_stream_repaired_witness:
  "\<exists>out s c'. transform_stream False (overlapping @ [content_block_stop 1, content_block_stop 0]) policy_init = (Inr out, s) \<and>
     contract_events str_repr False out contract_init = Inr c' \<and> cs_open c' = [] \<and>
     (\<forall>x \<in> set out. \<not> starts_dropped_type False x)"
proof -
  have "contract_events str_repr False (overlapping @ [content_block_stop 1, content_block_stop 0]) contract_init =
      Inr \<lparr>cs_open = [], cs_seen = {0, 1}\<rparr>"
    by code_simp
  from native_stream_repaired [OF str_repr_ok this, of False] show ?thesis by auto
qed

theorem native_text_refines_witness:
  "transform_native_sse_block_event stop_dumps stop_loads True (format_sse_event stop_dumps message_stop) policy_init =
     (Inr (Some (format_sse_event stop_dumps message_stop)), policy_init)"
proof -
  have "wire_ok stop_dumps stop_loads message_stop" by code_simp
  moreover have "transform_payload True message_stop policy_init = (Inr Unchanged, policy_init)" by code_simp
  moreover have "\<forall>x \<in> set (frames message_stop Unchanged). ev_event x \<noteq> [] \<and> one_line (stop_dumps (ev_data x)) \<and>
      stop_dumps (ev_data x) \<noteq> []" by code_simp
  ultimately show ?thesis using native_text_refines by fastforce
qed

text \<open>The repair is not complete: a block whose deltas go on after another block has started is
  reopened under a new index without closing the other one, so that the stream sent on has two
  blocks open at once.\<close>

theorem native_reopen_overlaps:
  "\<exists>out s c. transform_stream True overlapping policy_init = (Inr out, s) \<and>
     contract_events str_repr False out contract_init = Inr c \<and> length (cs_open c) = 2"
proof -
  have "case transform_stream True overlapping policy_init of
      (Inl x, s) \<Rightarrow> False
    | (Inr out, s) \<Rightarrow> (case contract_events str_repr False out contract_init of
        Inl x \<Rightarrow> False | Inr c \<Rightarrow> length (cs_open c) = 2)"
    by code_simp
  then show ?thesis by (auto split: prod.splits sum.splits)
qed

text \<open>A delta type the policy does not know keeps the upstream's index: with the thinking block before
  it dropped, a citation of the text block 1 is sent on for index 1, which was never started.\<close>

definition citation :: sse_event where
  "citation = \<lparr>ev_event = ''content_block_delta'', ev_data = JObj [(''type'', JStr ''content_block_delta''),
     (''index'', JInt 1), (''delta'', JObj [(''type'', JStr ''citations_delta'')])]\<rparr>"

lemma native_unknown_delta_keeps_index:
  "case transform_stream False [content_block_start 0 ''thinking'' [], content_block_start 1 ''text'' [], citation] policy_init of
     (Inl x, s) \<Rightarrow> False
   | (Inr out, s) \<Rightarrow> out = [content_block_start 0 ''text'' [], citation]"
  by code_simp

end
