(* ===== verification/RateWindow.thy ===== *)
theory RateWindow
  imports Prelude Complex_Main
begin

section \<open>The sliding window (\<open>core/rate_limit.py\<close>)\<close>

text \<open>
  \<open>StrictSlidingWindowLimiter\<close>.  Clock readings are rationals (no float rounding).  The part of
  \<open>acquire\<close> under the lock is one atomic attempt at the time it reads the clock; tasks interleave
  between attempts in any way, at nondecreasing times.
\<close>

record window =
  wl_limit :: int
  wl_window :: rat
  wl_times :: "rat list"

definition window_new :: "int \<Rightarrow> rat \<Rightarrow> window result" where
  "window_new limit w =
     (if limit \<le> 0 then Inl ValueError else if w \<le> 0 then Inl ValueError
      else Inr \<lparr>wl_limit = limit, wl_window = w, wl_times = []\<rparr>)"

text \<open>One turn of the loop of \<open>acquire\<close>: \<open>None\<close> is the return, otherwise the time to sleep.\<close>

definition expire :: "rat \<Rightarrow> window \<Rightarrow> window" where
  "expire now l = l\<lparr>wl_times := dropWhile (\<lambda>t. t \<le> now - wl_window l) (wl_times l)\<rparr>"

definition attempt :: "rat \<Rightarrow> window \<Rightarrow> rat option \<times> window" where
  "attempt now l =
     (let l = expire now l in
      if int (length (wl_times l)) < wl_limit l then (None, l\<lparr>wl_times := wl_times l @ [now]\<rparr>)
      else (Some (max 0 (hd (wl_times l) + wl_window l - now)), l))"

text \<open>The attempts of all tasks, in order: the times of those that succeed.\<close>

fun attempts :: "rat list \<Rightarrow> window \<Rightarrow> rat list \<times> window" where
  "attempts [] l = ([], l)"
| "attempts (t # ts) l =
     (case attempt t l of
        (None, l) \<Rightarrow> (case attempts ts l of (gs, l) \<Rightarrow> (t # gs, l))
      | (Some _, l) \<Rightarrow> attempts ts l)"

text \<open>
  One task alone: \<open>acquire\<close> with sleeps that last exactly as long as asked for.  The loop has no
  bound, so a fuel bounds the attempts; the result is the time of the return.
\<close>

fun acquire :: "nat \<Rightarrow> rat \<Rightarrow> window \<Rightarrow> (rat \<times> window) option" where
  "acquire 0 now l = None"
| "acquire (Suc n) now l =
     (case attempt now l of
        (None, l) \<Rightarrow> Some (now, l)
      | (Some wait, l) \<Rightarrow> acquire n (now + wait) l)"

subsection \<open>The limit\<close>

text \<open>
  The history \<open>gs\<close> of grants, oldest first, and the time \<open>now\<close> of the last attempt: what the
  limiter keeps are the grants later than some cutoff not above \<open>now - window\<close>.
\<close>

definition keeps :: "rat list \<Rightarrow> rat \<Rightarrow> window \<Rightarrow> bool" where
  "keeps gs now l \<longleftrightarrow> sorted gs \<and> (\<forall>g \<in> set gs. g \<le> now) \<and> 0 < wl_limit l \<and> 0 < wl_window l \<and>
     (\<exists>cut. cut \<le> now - wl_window l \<and> wl_times l = filter (\<lambda>g. cut < g) gs) \<and>
     int (length (wl_times l)) \<le> wl_limit l"

definition window_count :: "rat \<Rightarrow> rat \<Rightarrow> rat list \<Rightarrow> nat" where
  "window_count t w gs = length (filter (\<lambda>g. t \<le> g \<and> g < t + w) gs)"

lemma keepsI:
  assumes "sorted gs" and "\<And>g. g \<in> set gs \<Longrightarrow> g \<le> now" and "0 < wl_limit l" and "0 < wl_window l"
    and "wl_times l = filter (\<lambda>g. now - wl_window l < g) gs" and "int (length (wl_times l)) \<le> wl_limit l"
  shows "keeps gs now l"
  unfolding keeps_def using assms by blast

lemma keepsD:
  assumes "keeps gs now l"
  shows "sorted gs" and "g \<in> set gs \<Longrightarrow> g \<le> now" and "0 < wl_limit l" and "0 < wl_window l"
  using assms by (auto simp: keeps_def)

lemma dropWhile_sorted:
  "sorted (xs :: rat list) \<Longrightarrow> dropWhile (\<lambda>t. t \<le> c) xs = filter (\<lambda>t. c < t) xs"
proof (induction xs)
  case (Cons x xs)
  then show ?case
  proof (cases "x \<le> c")
    case False
    then have "\<forall>y \<in> set (x # xs). c < y" using Cons.prems by fastforce
    then have "filter (\<lambda>t. c < t) (x # xs) = x # xs" by (simp only: filter_True)
    then show ?thesis using False by simp
  qed simp
qed simp

lemma expire_keeps:
  assumes "keeps gs now l" and "now \<le> now'"
  shows "wl_times (expire now' l) = filter (\<lambda>g. now' - wl_window l < g) gs"
    and "wl_limit (expire now' l) = wl_limit l" and "wl_window (expire now' l) = wl_window l"
proof -
  obtain cut where cut: "cut \<le> now - wl_window l" "wl_times l = filter (\<lambda>g. cut < g) gs"
    using assms(1) by (auto simp: keeps_def)
  have "sorted (wl_times l)" using assms(1) cut(2) by (simp add: keeps_def sorted_filter [of id, simplified])
  then have "wl_times (expire now' l) = filter (\<lambda>g. now' - wl_window l < g) (filter (\<lambda>g. cut < g) gs)"
    by (simp add: expire_def dropWhile_sorted cut(2))
  also have "\<dots> = filter (\<lambda>g. now' - wl_window l < g) gs"
    using cut(1) assms(2) by (auto intro!: filter_cong)
  finally show "wl_times (expire now' l) = filter (\<lambda>g. now' - wl_window l < g) gs" .
qed (simp_all add: expire_def)

text \<open>An attempt succeeds exactly when fewer than \<open>limit\<close> grants lie in the window that ends now.\<close>

lemma attempt_exact:
  assumes "keeps gs now l" and "now \<le> now'"
  shows "fst (attempt now' l) = None \<longleftrightarrow> int (length (filter (\<lambda>g. now' - wl_window l < g) gs)) < wl_limit l"
  by (simp add: attempt_def Let_def expire_keeps [OF assms])

lemma attempt_granted:
  assumes k: "keeps gs now l" and "now \<le> now'" and "attempt now' l = (None, l')"
  shows "keeps (gs @ [now']) now' l'"
proof -
  have l': "l' = (expire now' l)\<lparr>wl_times := wl_times (expire now' l) @ [now']\<rparr>"
    "int (length (wl_times (expire now' l))) < wl_limit l"
    using assms(3) expire_keeps [OF assms(1,2)] by (auto simp: attempt_def Let_def split: if_splits)
  have "wl_times l' = filter (\<lambda>g. now' - wl_window l < g) (gs @ [now'])"
    using k by (simp add: l' expire_keeps [OF assms(1,2)] keeps_def)
  moreover have "wl_limit l' = wl_limit l" "wl_window l' = wl_window l"
    by (simp_all add: l'(1) expire_keeps [OF assms(1,2)])
  moreover have "int (length (wl_times l')) \<le> wl_limit l" using l' by simp
  moreover have "g \<le> now'" if "g \<in> set (gs @ [now'])" for g
    using that keepsD(2) [OF k, of g] assms(2) by auto
  moreover have "sorted (gs @ [now'])"
    using keepsD(1,2) [OF k] assms(2) by (auto simp: sorted_append intro: order_trans)
  ultimately show ?thesis using keepsD(3,4) [OF k] by (intro keepsI) simp_all
qed

lemma attempt_denied:
  assumes k: "keeps gs now l" and "now \<le> now'" and "attempt now' l = (Some w, l')"
  shows "keeps gs now' l'" and "l' = expire now' l" and "0 \<le> w"
    and "w = max 0 (hd (wl_times l') + wl_window l' - now')" and "wl_times l' \<noteq> []"
proof -
  have l': "l' = expire now' l" "w = max 0 (hd (wl_times l') + wl_window l' - now')"
    "\<not> int (length (wl_times (expire now' l))) < wl_limit l"
    using assms(3) expire_keeps [OF assms(1,2)] by (auto simp: attempt_def Let_def split: if_splits)
  then show "l' = expire now' l" "w = max 0 (hd (wl_times l') + wl_window l' - now')" "0 \<le> w" by simp_all
  show "wl_times l' \<noteq> []" using l'(1,3) k by (auto simp: keeps_def)
  have "length (filter (\<lambda>g. now' - wl_window l < g) gs) \<le> length (wl_times l)"
  proof -
    obtain cut where cut: "cut \<le> now - wl_window l" "wl_times l = filter (\<lambda>g. cut < g) gs"
      using k by (auto simp: keeps_def)
    then have "filter (\<lambda>g. now' - wl_window l < g) gs = filter (\<lambda>g. now' - wl_window l < g) (wl_times l)"
      using assms(2) by (auto intro!: filter_cong)
    then show ?thesis by simp
  qed
  moreover have "g \<le> now'" if "g \<in> set gs" for g using keepsD(2) [OF k that] assms(2) by simp
  moreover have "int (length (wl_times l)) \<le> wl_limit l" using k by (simp add: keeps_def)
  ultimately show "keeps gs now' l'" using keepsD(1,3,4) [OF k]
    by (intro keepsI) (simp_all add: l'(1) expire_keeps [OF assms(1,2)])
qed

text \<open>The whole history.\<close>

lemma attempts_keep:
  assumes "keeps gs now l" and "sorted (now # ts)" and "attempts ts l = (gs', l')"
  shows "keeps (gs @ gs') (last (now # ts)) l'"
  using assms
proof (induction ts arbitrary: gs now l gs')
  case (Cons t ts)
  obtain r l1 where a: "attempt t l = (r, l1)" by (metis prod.exhaust)
  show ?case
  proof (cases r)
    case None
    then obtain hs where hs: "attempts ts l1 = (hs, l')" "gs' = t # hs"
      using Cons.prems(3) a by (auto split: prod.splits)
    have "keeps (gs @ [t]) t l1" using attempt_granted [of gs now l t l1] Cons.prems a None by simp
    from Cons.IH [OF this _ hs(1)] Cons.prems(2) show ?thesis by (simp add: hs(2))
  next
    case (Some w)
    have "keeps gs t l1" using attempt_denied(1) [of gs now l t w l1] Cons.prems a Some by simp
    from Cons.IH [OF this] Cons.prems a Some show ?thesis by simp
  qed
qed simp

lemma window_new_keeps: "window_new limit w = Inr l \<Longrightarrow> keeps [] now l \<and> wl_limit l = limit \<and> wl_window l = w"
  by (auto simp: window_new_def intro!: keepsI split: if_splits)

lemma length_filter_mono:
  "(\<And>x. x \<in> set xs \<Longrightarrow> P x \<Longrightarrow> Q x) \<Longrightarrow> length (filter P xs) \<le> length (filter Q xs)"
  by (induction xs) (auto simp: le_SucI)

lemma window_count_snoc:
  "window_count t w (gs @ [g]) = window_count t w gs + (if t \<le> g \<and> g < t + w then 1 else 0)"
  by (simp add: window_count_def)

lemma attempts_bounded:
  assumes "keeps gs now l" and "sorted (now # ts)" and "attempts ts l = (gs', l')"
    and "\<And>t. int (window_count t (wl_window l) gs) \<le> wl_limit l"
  shows "int (window_count t (wl_window l) (gs @ gs')) \<le> wl_limit l"
  using assms
proof (induction ts arbitrary: gs now l gs' t)
  case (Cons u ts)
  obtain r l1 where a: "attempt u l = (r, l1)" by (metis prod.exhaust)
  have now: "now \<le> u" "sorted (u # ts)" using Cons.prems(2) by simp_all
  have same: "wl_window l1 = wl_window l" "wl_limit l1 = wl_limit l"
    using a expire_keeps [OF Cons.prems(1) now(1)] by (auto simp: attempt_def Let_def split: if_splits)
  show ?case
  proof (cases r)
    case None
    then obtain hs where hs: "attempts ts l1 = (hs, l')" "gs' = u # hs"
      using Cons.prems(3) a by (auto split: prod.splits)
    have k: "keeps (gs @ [u]) u l1" using attempt_granted [OF Cons.prems(1) now(1)] a None by simp
    have "int (window_count t (wl_window l) (gs @ [u])) \<le> wl_limit l" for t
    proof (cases "t \<le> u \<and> u < t + wl_window l")
      case True
      have "window_count t (wl_window l) gs \<le> length (filter (\<lambda>g. u - wl_window l < g) gs)"
        using True by (auto simp: window_count_def intro!: length_filter_mono)
      then show ?thesis using True attempt_exact [OF Cons.prems(1) now(1)] a None by (simp add: window_count_snoc)
    qed (use Cons.prems(4) in \<open>auto simp: window_count_snoc\<close>)
    then show ?thesis using Cons.IH [OF k now(2) hs(1)] by (simp add: same hs(2))
  next
    case (Some w)
    have "keeps gs u l1" using attempt_denied(1) [OF Cons.prems(1) now(1)] a Some by simp
    from Cons.IH [OF this now(2)] Cons.prems(3,4) a Some show ?thesis by (simp add: same)
  qed
qed simp

subsection \<open>Gates\<close>

text \<open>
  What the clients rely on: a gate that lets at most \<open>quota\<close> entries through in any half-open
  interval of length \<open>span\<close>, whatever the times at which entry is tried.
\<close>

locale rate_gate =
  fixes run :: "rat list \<Rightarrow> 'g \<Rightarrow> rat list \<times> 'g"
    and fresh :: "'g \<Rightarrow> bool"
    and quota :: "'g \<Rightarrow> nat"
    and span :: "'g \<Rightarrow> rat"
  assumes span_pos: "fresh g \<Longrightarrow> 0 < span g"
    and run_bounded: "fresh g \<Longrightarrow> sorted ts \<Longrightarrow> window_count t (span g) (fst (run ts g)) \<le> quota g"
begin

lemma run_bounded_many:
  assumes "fresh g" and "sorted ts"
  shows "window_count t (of_nat k * span g) (fst (run ts g)) \<le> k * quota g"
proof (induction k arbitrary: t)
  case 0
  have "filter (\<lambda>x. t \<le> x \<and> x < t) (fst (run ts g)) = []" by (auto simp: filter_empty_conv)
  then show ?case by (simp add: window_count_def)
next
  case (Suc k)
  let ?gs = "fst (run ts g)" and ?w = "span g"
  have pos: "0 < ?w" by (rule span_pos [OF assms(1)])
  have "filter (\<lambda>x. t \<le> x \<and> x < t + of_nat (Suc k) * ?w) ?gs =
      filter (\<lambda>x. (t \<le> x \<and> x < t + ?w) \<or> (t + ?w \<le> x \<and> x < (t + ?w) + of_nat k * ?w)) ?gs"
    using pos by (intro filter_cong) (auto simp: algebra_simps intro: less_le_trans)
  moreover have "length (filter (\<lambda>x. P x \<or> Q x) xs) \<le> length (filter P xs) + length (filter Q xs)" for P Q and xs :: "rat list"
    by (induction xs) auto
  ultimately have "window_count t (of_nat (Suc k) * ?w) ?gs \<le>
      window_count t ?w ?gs + window_count (t + ?w) (of_nat k * ?w) ?gs"
    by (simp add: window_count_def)
  then show ?case using run_bounded [OF assms, of t] Suc.IH [of "t + ?w"] by simp
qed

end

definition fresh_window :: "window \<Rightarrow> bool" where
  "fresh_window l \<longleftrightarrow> 0 < wl_limit l \<and> 0 < wl_window l \<and> wl_times l = []"

lemma fresh_keeps: "fresh_window l \<Longrightarrow> keeps [] now l"
  by (auto simp: fresh_window_def intro!: keepsI)

lemma window_new_fresh: "window_new limit w = Inr l \<Longrightarrow> fresh_window l"
  by (auto simp: window_new_def fresh_window_def split: if_splits)

interpretation wg: rate_gate attempts fresh_window "\<lambda>l. nat (wl_limit l)" wl_window
proof
  fix l :: window and ts :: "rat list" and t :: rat
  assume f: "fresh_window l"
  show "0 < wl_window l" using f by (simp add: fresh_window_def)
  assume ts: "sorted ts"
  obtain gs l' where a: "attempts ts l = (gs, l')" by (metis prod.exhaust)
  have "\<exists>now. sorted (now # ts)" using ts by (cases ts) auto
  then obtain now where "sorted (now # ts)" by blast
  then have "int (window_count t (wl_window l) ([] @ gs)) \<le> wl_limit l"
    using f by (intro attempts_bounded [OF fresh_keeps [OF f] _ a]) (auto simp: window_count_def fresh_window_def)
  then show "window_count t (wl_window l) (fst (attempts ts l)) \<le> nat (wl_limit l)" using a by simp
qed

subsection \<open>Properties\<close>

text \<open>C26. Whatever the times at which tasks try, at most \<open>rate_limit\<close> acquisitions lie in any half-open
  interval of the length of the window, and at most \<open>k\<close> times as many in one of \<open>k\<close> windows.\<close>

theorem window_never_exceeded:
  assumes "window_new limit w = Inr l" and "sorted ts"
  shows "window_count t (of_nat k * w) (fst (attempts ts l)) \<le> k * nat limit"
proof -
  have "wl_limit l = limit" "wl_window l = w" using window_new_keeps [OF assms(1)] by simp_all
  then show ?thesis using wg.run_bounded_many [OF window_new_fresh [OF assms(1)] assms(2), of t k] by simp
qed

theorem window_never_exceeded_witness:
  "window_count 0 (of_nat 2 * 10) (fst (attempts [0, 1, 2, 11, 12] \<lparr>wl_limit = 2, wl_window = 10, wl_times = []\<rparr>)) \<le> 2 * nat 2"
  by (rule window_never_exceeded) (simp_all add: window_new_def)

text \<open>The reference: an attempt is granted when fewer than \<open>limit\<close> grants lie in the window ending now.\<close>

fun window_spec :: "int \<Rightarrow> rat \<Rightarrow> rat list \<Rightarrow> rat list \<Rightarrow> rat list" where
  "window_spec limit w gs [] = gs"
| "window_spec limit w gs (t # ts) =
     window_spec limit w
       (if int (length (filter (\<lambda>g. t - w < g) gs)) < limit then gs @ [t] else gs) ts"

lemma attempts_spec:
  assumes "keeps gs now l" and "sorted (now # ts)"
  shows "gs @ fst (attempts ts l) = window_spec (wl_limit l) (wl_window l) gs ts"
  using assms
proof (induction ts arbitrary: gs now l)
  case (Cons u ts)
  obtain r l1 where a: "attempt u l = (r, l1)" by (metis prod.exhaust)
  have now: "now \<le> u" "sorted (u # ts)" using Cons.prems(2) by simp_all
  have same: "wl_window l1 = wl_window l" "wl_limit l1 = wl_limit l"
    using a expire_keeps [OF Cons.prems(1) now(1)] by (auto simp: attempt_def Let_def split: if_splits)
  show ?case
  proof (cases r)
    case None
    have "keeps (gs @ [u]) u l1" using attempt_granted [OF Cons.prems(1) now(1)] a None by simp
    from Cons.IH [OF this now(2)] show ?thesis
      using attempt_exact [OF Cons.prems(1) now(1)] a None by (auto simp: same split: prod.splits)
  next
    case (Some w)
    have "keeps gs u l1" using attempt_denied(1) [OF Cons.prems(1) now(1)] a Some by simp
    from Cons.IH [OF this now(2)] show ?thesis
      using attempt_exact [OF Cons.prems(1) now(1)] a Some by (simp add: same)
  qed
qed simp

text \<open>The deque that forgets old entries decides exactly like the limiter that remembers every grant:
  it never denies an attempt that the limit would allow.\<close>

theorem window_refines_history:
  assumes "window_new limit w = Inr l" and "sorted ts"
  shows "fst (attempts ts l) = window_spec limit w [] ts"
proof -
  have f: "keeps [] now l" "wl_limit l = limit" "wl_window l = w" for now using window_new_keeps [OF assms(1)] by simp_all
  have "\<exists>now. sorted (now # ts)" using assms(2) by (cases ts) auto
  then obtain now where "sorted (now # ts)" by blast
  from attempts_spec [OF f(1) this] show ?thesis by (simp add: f)
qed

theorem window_refines_history_witness:
  "fst (attempts [0, 1, 2, 11, 12] \<lparr>wl_limit = 2, wl_window = 10, wl_times = []\<rparr>) = window_spec 2 10 [] [0, 1, 2, 11, 12]"
  by (rule window_refines_history) (simp_all add: window_new_def)

lemma acquire_returns:
  assumes "keeps gs t0 l" and "t0 \<le> now"
  shows "\<exists>t l'. acquire 2 now l = Some (t, l') \<and> keeps (gs @ [t]) t l' \<and> now \<le> t \<and> t \<le> now + wl_window l \<and>
    (\<forall>u. now \<le> u \<and> u < t \<longrightarrow> fst (attempt u l) \<noteq> None)"
proof -
  obtain r l1 where a: "attempt now l = (r, l1)" by (metis prod.exhaust)
  show ?thesis
  proof (cases r)
    case None
    have "keeps (gs @ [now]) now l1" using attempt_granted [OF assms] a None by simp
    then show ?thesis using a None keepsD(4) [OF assms(1)]
      by (intro exI [of _ now] exI [of _ l1]) (auto simp: numeral_2_eq_2)
  next
    case (Some w)
    note d = attempt_denied [OF assms a [unfolded Some]]
    let ?old = "hd (wl_times l1)" and ?W = "wl_window l" and ?t = "now + w"
    have W: "wl_window l1 = ?W" "wl_limit l1 = wl_limit l" using expire_keeps [OF assms] by (simp_all add: d(2))
    have times: "wl_times l1 = filter (\<lambda>g. now - ?W < g) gs" using expire_keeps [OF assms] by (simp add: d(2))
    then have old: "?old \<in> set (filter (\<lambda>g. now - ?W < g) gs)" using d(5) hd_in_set by metis
    then have lo: "now < ?old + ?W" "?old \<le> now" using keepsD(2) [OF assms(1), of ?old] assms(2) by (auto simp: algebra_simps)
    have w: "w = ?old + ?W - now" using d(4) lo(1) by (simp add: W)
    have denied: "wl_limit l \<le> int (length (wl_times l1))"
      using attempt_exact [OF assms] a Some by (simp add: times)
    have "int (length (filter (\<lambda>g. ?t - ?W < g) gs)) < wl_limit l"
    proof -
      have "filter (\<lambda>g. ?t - ?W < g) gs = filter (\<lambda>g. ?old < g) (wl_times l1)"
        using lo by (auto simp: times w intro!: filter_cong)
      also have "\<dots> = filter (\<lambda>g. ?old < g) (tl (wl_times l1))"
        using d(5) by (cases "wl_times l1") auto
      finally have "length (filter (\<lambda>g. ?t - ?W < g) gs) \<le> length (tl (wl_times l1))" by (simp only: length_filter_le)
      moreover have "int (length (wl_times l1)) \<le> wl_limit l" using d(1) by (simp add: keeps_def W)
      moreover have "length (wl_times l1) = Suc (length (tl (wl_times l1)))" using d(5) by (cases "wl_times l1") auto
      ultimately show ?thesis by linarith
    qed
    then have now_t: "now \<le> ?t" "fst (attempt ?t l1) = None"
      using attempt_exact [OF d(1), of ?t] d(3) by (simp_all add: W)
    obtain l2 where l2: "attempt ?t l1 = (None, l2)" using now_t(2) by (metis prod.collapse)
    have "keeps (gs @ [?t]) ?t l2" by (rule attempt_granted [OF d(1) now_t(1) l2])
    moreover have "fst (attempt u l) \<noteq> None" if "now \<le> u" "u < ?t" for u
    proof -
      have "filter (\<lambda>g. now - ?W < g) gs = filter (\<lambda>g. u - ?W < g) gs"
      proof (intro filter_cong refl)
        fix g assume g: "g \<in> set gs"
        have "?old \<le> g" if "now - ?W < g"
        proof -
          have "g \<in> set (wl_times l1)" using g that by (simp add: times)
          moreover have "sorted (wl_times l1)" using keepsD(1) [OF assms(1)] by (simp add: times sorted_filter [of id, simplified])
          ultimately show ?thesis by (cases "wl_times l1") auto
        qed
        then show "(now - ?W < g) = (u - ?W < g)" using that w by auto
      qed
      then show ?thesis using attempt_exact [OF assms(1), of u] assms(2) that denied by (simp add: times)
    qed
    moreover have "?t \<le> now + ?W" using lo(2) w by simp
    ultimately show ?thesis using a Some l2 now_t(1) by (auto simp: numeral_2_eq_2)
  qed
qed

text \<open>A task that is alone and sleeps as long as it is told to gets its slot at the second attempt
  at the latest, and not before the oldest of the last \<open>limit\<close> grants has left the window.\<close>

theorem acquire_alone_returns:
  assumes "keeps gs t0 l" and "t0 \<le> now"
  shows "\<exists>t l'. acquire 2 now l = Some (t, l') \<and> keeps (gs @ [t]) t l' \<and> now \<le> t \<and> t \<le> now + wl_window l \<and>
    (\<forall>u. now \<le> u \<and> u < t \<longrightarrow> fst (attempt u l) \<noteq> None)"
  by (rule acquire_returns [OF assms])

theorem acquire_alone_returns_witness:
  "\<exists>t l'. acquire 2 3 \<lparr>wl_limit = 1, wl_window = 10, wl_times = [0]\<rparr> = Some (t, l') \<and> 3 \<le> t \<and> t \<le> 13"
proof -
  have "keeps [0] 0 \<lparr>wl_limit = 1, wl_window = 10, wl_times = [0]\<rparr>"
    by (rule keepsI) simp_all
  from acquire_alone_returns [OF this, of 3] show ?thesis by auto
qed

text \<open>The bound is for half-open intervals: a closed interval of the length of the window can hold one
  acquisition more than the limit.\<close>

theorem window_closed_interval:
  "\<exists>l gs. window_new 1 10 = Inr l \<and> fst (attempts [0, 10] l) = gs \<and> length (filter (\<lambda>g. 0 \<le> g \<and> g \<le> 0 + wl_window l) gs) = 2"
  by (simp add: window_new_def attempt_def expire_def)

end
