(* ===== verification/ProviderErrors.thy ===== *)
theory ProviderErrors
  imports PyText
begin

section \<open>Provider exceptions and their messages (\<open>providers/exceptions.py\<close>, \<open>core/anthropic/errors.py\<close>)\<close>

text \<open>
  An exception is its class, as far as the code asks for it with \<open>isinstance\<close>, the name of its
  type, \<open>str(e)\<close>, and the attributes the code reads.  \<open>http_class\<close> lists the classes of httpx and
  openai and the builtin ones; the provider hierarchy is the one of the repository.
\<close>

datatype exc_class =
    HttpxReadTimeout | HttpxConnectTimeout | HttpxOtherTimeout | HttpxConnectError | HttpxStatusError
  | PyTimeoutError | PyConnectionError
  | OpenaiRateLimitError | OpenaiAuthenticationError | OpenaiBadRequestError | OpenaiInternalServerError | OpenaiAPIError
  | ProviderErrorC | AuthenticationErrorC | InvalidRequestErrorC | RateLimitErrorC | OverloadedErrorC | APIErrorC
  | UnknownProviderTypeErrorC | ServiceUnavailableErrorC | ModelListResponseErrorC
  | HTTPExceptionC | CancelledErrorC | OtherError

record exc =
  ex_class :: exc_class
  ex_name :: string                  \<comment> \<open>\<open>type(e).__name__\<close>\<close>
  ex_str :: string                   \<comment> \<open>\<open>str(e)\<close>, the \<open>message\<close> of a provider error\<close>
  ex_status :: "int option"          \<comment> \<open>\<open>status_code\<close>, of the response for an \<open>HTTPStatusError\<close>\<close>
  ex_error_type :: string
  ex_raw_error :: "string option"

definition is_openai_api_error :: "exc_class \<Rightarrow> bool" where
  "is_openai_api_error c \<longleftrightarrow>
     c \<in> {OpenaiRateLimitError, OpenaiAuthenticationError, OpenaiBadRequestError, OpenaiInternalServerError, OpenaiAPIError}"

definition is_timeout_exception :: "exc_class \<Rightarrow> bool" where
  "is_timeout_exception c \<longleftrightarrow> c \<in> {HttpxReadTimeout, HttpxConnectTimeout, HttpxOtherTimeout}"

definition is_service_unavailable :: "exc_class \<Rightarrow> bool" where
  "is_service_unavailable c \<longleftrightarrow> c \<in> {ServiceUnavailableErrorC, ModelListResponseErrorC}"

definition is_provider_error :: "exc_class \<Rightarrow> bool" where
  "is_provider_error c \<longleftrightarrow>
     c \<in> {ProviderErrorC, AuthenticationErrorC, InvalidRequestErrorC, RateLimitErrorC, OverloadedErrorC, APIErrorC,
          UnknownProviderTypeErrorC, ServiceUnavailableErrorC, ModelListResponseErrorC}"

subsection \<open>The constructors\<close>

definition provider_error :: "exc_class \<Rightarrow> string \<Rightarrow> string \<Rightarrow> int \<Rightarrow> string \<Rightarrow> string option \<Rightarrow> exc" where
  "provider_error c name message status error_type raw =
     \<lparr>ex_class = c, ex_name = name, ex_str = message, ex_status = Some status, ex_error_type = error_type, ex_raw_error = raw\<rparr>"

definition authentication_error :: "string \<Rightarrow> string option \<Rightarrow> exc" where
  "authentication_error message = provider_error AuthenticationErrorC ''AuthenticationError'' message 401 ''authentication_error''"

definition invalid_request_error :: "string \<Rightarrow> string option \<Rightarrow> exc" where
  "invalid_request_error message = provider_error InvalidRequestErrorC ''InvalidRequestError'' message 400 ''invalid_request_error''"

definition rate_limit_error :: "string \<Rightarrow> string option \<Rightarrow> exc" where
  "rate_limit_error message = provider_error RateLimitErrorC ''RateLimitError'' message 429 ''rate_limit_error''"

definition overloaded_error :: "string \<Rightarrow> string option \<Rightarrow> exc" where
  "overloaded_error message = provider_error OverloadedErrorC ''OverloadedError'' message 529 ''overloaded_error''"

definition api_error :: "string \<Rightarrow> int \<Rightarrow> string option \<Rightarrow> exc" where
  "api_error message status = provider_error APIErrorC ''APIError'' message status ''api_error''"

definition unknown_provider_type_error :: "string \<Rightarrow> exc" where
  "unknown_provider_type_error message =
     provider_error UnknownProviderTypeErrorC ''UnknownProviderTypeError'' message 400 ''invalid_request_error'' None"

definition service_unavailable_error :: "string \<Rightarrow> string option \<Rightarrow> exc" where
  "service_unavailable_error message = provider_error ServiceUnavailableErrorC ''ServiceUnavailableError'' message 503 ''api_error''"

definition model_list_response_error :: "string \<Rightarrow> exc" where
  "model_list_response_error message =
     provider_error ModelListResponseErrorC ''ModelListResponseError'' message 503 ''api_error'' None"

text \<open>Exceptions of the other libraries the code sees, and the ones the services raise.\<close>

definition plain_error :: "exc_class \<Rightarrow> string \<Rightarrow> string \<Rightarrow> int option \<Rightarrow> exc" where
  "plain_error c name message status =
     \<lparr>ex_class = c, ex_name = name, ex_str = message, ex_status = status, ex_error_type = [], ex_raw_error = None\<rparr>"

definition to_anthropic_format :: "exc \<Rightarrow> json" where
  "to_anthropic_format e =
     JObj [(''type'', JStr ''error''),
           (''error'', JObj [(''type'', JStr (ex_error_type e)), (''message'', JStr (ex_str e))])]"

lemmas constructor_defs = provider_error_def authentication_error_def invalid_request_error_def rate_limit_error_def
  overloaded_error_def api_error_def unknown_provider_type_error_def service_unavailable_error_def
  model_list_response_error_def

lemmas class_defs = is_openai_api_error_def is_timeout_exception_def is_service_unavailable_def is_provider_error_def

text \<open>\<open>getattr(e, "status_code", None)\<close>: an \<open>HTTPStatusError\<close> has it on its response only.\<close>

definition status_code_attr :: "exc \<Rightarrow> int option" where
  "status_code_attr e = (if ex_class e = HttpxStatusError then None else ex_status e)"

subsection \<open>Messages for users\<close>

text \<open>\<open>timeout\<close> is \<open>f"{read_timeout_s:g}"\<close>, where a read timeout is given.\<close>

definition timed_out :: "string option \<Rightarrow> string \<Rightarrow> string" where
  "timed_out timeout otherwise =
     (case timeout of
        Some t \<Rightarrow> ''Provider request timed out after '' @ t @ ''s.''
      | None \<Rightarrow> otherwise)"

definition message_by_name :: "string \<Rightarrow> int option \<Rightarrow> string option" where
  "message_by_name name status =
     (if name = ''RateLimitError'' then Some ''Provider rate limit reached. Please retry shortly.''
      else if name = ''AuthenticationError'' then Some ''Provider authentication failed. Check API key.''
      else if name = ''InvalidRequestError'' then Some ''Invalid request sent to provider.''
      else if name = ''OverloadedError'' then Some ''Provider is currently overloaded. Please retry.''
      else if name = ''APIError'' then
        (if status \<in> {Some 502, Some 503, Some 504} then Some ''Provider is temporarily unavailable. Please retry.''
         else Some ''Provider API request failed.'')
      else if suffix ''ProviderError'' name \<or> name = ''ProviderError'' then Some ''Provider request failed.''
      else None)"

definition get_user_facing_error_message :: "string option \<Rightarrow> exc \<Rightarrow> string" where
  "get_user_facing_error_message timeout e =
     (if ex_class e = HttpxReadTimeout then timed_out timeout ''Provider request timed out.''
      else if ex_class e = HttpxConnectTimeout then ''Could not connect to provider.''
      else if ex_class e = PyTimeoutError then timed_out timeout ''Request timed out.''
      else if ex_class e = OpenaiRateLimitError then ''Provider rate limit reached. Please retry shortly.''
      else if ex_class e = OpenaiAuthenticationError then ''Provider authentication failed. Check API key.''
      else if ex_class e = OpenaiBadRequestError then ''Invalid request sent to provider.''
      else case message_by_name (ex_name e) (status_code_attr e) of
             Some m \<Rightarrow> m
           | None \<Rightarrow>
               let message = py_strip (ex_str e) in
               if message \<noteq> [] then message else ''Provider request failed unexpectedly.'')"

definition format_user_error_preview :: "nat \<Rightarrow> exc \<Rightarrow> string" where
  "format_user_error_preview max_len e = take max_len (get_user_facing_error_message None e)"

definition append_request_id :: "string \<Rightarrow> string option \<Rightarrow> string" where
  "append_request_id message request_id =
     (let base = (if py_strip message \<noteq> [] then py_strip message else ''Provider request failed unexpectedly.'') in
      if truthy_str request_id then base @ '' (request_id='' @ the request_id @ '')'' else base)"

definition user_visible_message_for_mapped_provider_error :: "string \<Rightarrow> string option \<Rightarrow> exc \<Rightarrow> string" where
  "user_visible_message_for_mapped_provider_error provider_name timeout e =
     (if status_code_attr e = Some 405
      then ''Upstream provider '' @ provider_name @ '' rejected the request method or endpoint (HTTP 405).''
      else get_user_facing_error_message timeout e)"

lemma user_message_nonempty [simp]:
  "get_user_facing_error_message timeout e \<noteq> []" "append_request_id m rid \<noteq> []"
  "user_visible_message_for_mapped_provider_error p timeout e \<noteq> []"
proof -
  have "message_by_name n st \<noteq> Some []" for n st by (simp add: message_by_name_def)
  then show m: "get_user_facing_error_message timeout e \<noteq> []"
    by (auto simp: get_user_facing_error_message_def timed_out_def Let_def split: option.split)
  show "append_request_id m rid \<noteq> []" by (simp add: append_request_id_def Let_def)
  show "user_visible_message_for_mapped_provider_error p timeout e \<noteq> []"
    using m by (simp add: user_visible_message_for_mapped_provider_error_def)
qed

end
