(* ===== verification/ProviderRetry.thy ===== *)
theory ProviderRetry
  imports RateWindow ProviderErrors
begin

section \<open>Provider rate limits and retries (\<open>providers/rate_limit.py\<close>)\<close>

text \<open>
  \<open>GlobalRateLimiter\<close>: the reactive block after a 429 or 5xx, the sliding window, the concurrency
  slots, the scoped instances, and \<open>execute_with_retry\<close>.  Operations that read the clock get the
  reading; a task that sleeps wakes exactly when it asked to.
\<close>

definition upstream_http_retryable :: "int \<Rightarrow> bool" where
  "upstream_http_retryable code \<longleftrightarrow> code = 429 \<or> 500 \<le> code \<and> code \<le> 599"

definition retryable_upstream_status :: "exc \<Rightarrow> int option" where
  "retryable_upstream_status e =
     (if ex_class e = OpenaiRateLimitError then Some 429
      else if ex_class e = HttpxStatusError then
        (case ex_status e of
           Some st \<Rightarrow> if upstream_http_retryable st then Some st else None
         | None \<Rightarrow> None)
      else if is_openai_api_error (ex_class e) then
        (case ex_status e of
           Some st \<Rightarrow> if 500 \<le> st \<and> st \<le> 599 then Some st else None
         | None \<Rightarrow> None)
      else None)"

record rate_limiter =
  gl_rate_limit :: int
  gl_rate_window :: rat
  gl_max_concurrency :: int
  gl_proactive :: window
  gl_blocked_until :: rat
  gl_free_slots :: int

definition limiter_new :: "int \<Rightarrow> rat \<Rightarrow> int \<Rightarrow> rate_limiter result" where
  "limiter_new limit w conc =
     (if limit \<le> 0 then Inl ValueError
      else if w \<le> 0 then Inl ValueError
      else if conc \<le> 0 then Inl ValueError
      else bind_result (window_new limit w) (\<lambda>l.
        Inr \<lparr>gl_rate_limit = limit, gl_rate_window = w, gl_max_concurrency = conc, gl_proactive = l,
             gl_blocked_until = 0, gl_free_slots = conc\<rparr>))"

definition matches_config :: "int \<Rightarrow> rat \<Rightarrow> int \<Rightarrow> rate_limiter \<Rightarrow> bool" where
  "matches_config limit w conc g \<longleftrightarrow>
     gl_rate_limit g = limit \<and> gl_rate_window g = w \<and> gl_max_concurrency g = conc"

text \<open>\<open>x or default\<close>\<close>

definition int_or :: "int \<Rightarrow> int option \<Rightarrow> int" where
  "int_or d x = (case x of None \<Rightarrow> d | Some i \<Rightarrow> if i = 0 then d else i)"

definition rat_or :: "rat \<Rightarrow> rat option \<Rightarrow> rat" where
  "rat_or d x = (case x of None \<Rightarrow> d | Some i \<Rightarrow> if i = 0 then d else i)"

type_synonym scoped = "(string, rate_limiter) pydict"

definition get_scoped_instance ::
  "string \<Rightarrow> int option \<Rightarrow> rat option \<Rightarrow> int \<Rightarrow> scoped \<Rightarrow> rate_limiter result \<times> scoped" where
  "get_scoped_instance scope limit w conc d =
     (if scope = [] then (Inl ValueError, d)
      else
        let dl = int_or 40 limit; dw = rat_or 60 w;
            build = (case limiter_new dl dw conc of
                       Inl e \<Rightarrow> (Inl e, d)
                     | Inr g \<Rightarrow> (Inr g, dict_set scope g d))
        in case dict_get scope d of
             Some g \<Rightarrow> if matches_config dl dw conc g then (Inr g, d) else build
           | None \<Rightarrow> build)"

definition get_instance ::
  "int option \<Rightarrow> rat option \<Rightarrow> int \<Rightarrow> rate_limiter option \<Rightarrow> rate_limiter result \<times> rate_limiter option" where
  "get_instance limit w conc inst =
     (case inst of
        Some g \<Rightarrow> (Inr g, inst)
      | None \<Rightarrow>
          (case limiter_new (int_or 40 limit) (rat_or 60 w) conc of
             Inl e \<Rightarrow> (Inl e, None)
           | Inr g \<Rightarrow> (Inr g, Some g)))"

definition set_blocked :: "rat \<Rightarrow> rat \<Rightarrow> rate_limiter \<Rightarrow> rate_limiter" where
  "set_blocked now seconds g = g\<lparr>gl_blocked_until := now + seconds\<rparr>"

definition is_blocked :: "rat \<Rightarrow> rate_limiter \<Rightarrow> bool" where
  "is_blocked now g \<longleftrightarrow> now < gl_blocked_until g"

definition remaining_wait :: "rat \<Rightarrow> rate_limiter \<Rightarrow> rat" where
  "remaining_wait now g = max 0 (gl_blocked_until g - now)"

text \<open>\<open>wait_if_blocked\<close>, with the fuel of \<open>acquire\<close>: whether it waited for the block, the time of
  the return, the limiter.\<close>

definition wait_if_blocked :: "nat \<Rightarrow> rat \<Rightarrow> rate_limiter \<Rightarrow> (bool \<times> rat \<times> rate_limiter) option" where
  "wait_if_blocked fuel now g =
     (let waited = is_blocked now g; t = (if waited then gl_blocked_until g else now) in
      case acquire fuel t (gl_proactive g) of
        None \<Rightarrow> None
      | Some (t, l) \<Rightarrow> Some (waited, t, g\<lparr>gl_proactive := l\<rparr>))"

text \<open>The concurrency slot: \<open>None\<close> where the semaphore would wait.\<close>

definition slot_acquire :: "rate_limiter \<Rightarrow> rate_limiter option" where
  "slot_acquire g = (if 0 < gl_free_slots g then Some (g\<lparr>gl_free_slots := gl_free_slots g - 1\<rparr>) else None)"

definition slot_release :: "rate_limiter \<Rightarrow> rate_limiter" where
  "slot_release g = g\<lparr>gl_free_slots := gl_free_slots g + 1\<rparr>"

subsection \<open>Retries\<close>

text \<open>
  \<open>execute_with_retry\<close>: \<open>fn i\<close> is the outcome of call \<open>i\<close>, \<open>dur i\<close> how long it takes, \<open>jit i\<close> the
  random jitter after it.  The result is the outcome, the times at which \<open>fn\<close> is called, and the
  time and limiter at the end.
\<close>

record retry_config =
  rc_max_retries :: int
  rc_base_delay :: rat
  rc_max_delay :: rat

definition backoff_delay :: "retry_config \<Rightarrow> nat \<Rightarrow> rat" where
  "backoff_delay rc i = min (rc_base_delay rc * 2 ^ i) (rc_max_delay rc)"

datatype 'a outcome2 = Returned 'a | Raised exc | NoAttempt

type_synonym 'a retried = "('a outcome2 \<times> rat list \<times> rat \<times> rate_limiter) option"

fun retry_loop ::
  "retry_config \<Rightarrow> (nat \<Rightarrow> exc + 'a) \<Rightarrow> (nat \<Rightarrow> rat) \<Rightarrow> (nat \<Rightarrow> rat) \<Rightarrow> nat \<Rightarrow> nat \<Rightarrow> rat
    \<Rightarrow> rate_limiter \<Rightarrow> 'a retried" where
  "retry_loop rc fn dur jit 0 i now g = Some (NoAttempt, [], now, g)"
| "retry_loop rc fn dur jit (Suc n) i now g =
     (case wait_if_blocked 2 now g of
        None \<Rightarrow> None
      | Some (_, t, g) \<Rightarrow>
          let fin = t + dur i in
          (case fn i of
             Inr v \<Rightarrow> Some (Returned v, [t], fin, g)
           | Inl e \<Rightarrow>
               (case retryable_upstream_status e of
                  None \<Rightarrow> Some (Raised e, [t], fin, g)
                | Some _ \<Rightarrow>
                    if rc_max_retries rc \<le> int i then Some (Raised e, [t], fin, g)
                    else
                      let delay = backoff_delay rc i + jit i in
                      (case retry_loop rc fn dur jit n (Suc i) (fin + delay) (set_blocked fin delay g) of
                         None \<Rightarrow> None
                       | Some (r, ts, rest) \<Rightarrow> Some (r, t # ts, rest)))))"

definition execute_with_retry ::
  "retry_config \<Rightarrow> (nat \<Rightarrow> exc + 'a) \<Rightarrow> (nat \<Rightarrow> rat) \<Rightarrow> (nat \<Rightarrow> rat) \<Rightarrow> rat \<Rightarrow> rate_limiter \<Rightarrow> 'a retried" where
  "execute_with_retry rc fn dur jit now g =
     retry_loop rc fn dur jit (nat (1 + rc_max_retries rc)) 0 now g"

subsection \<open>Retries end, in time and in number\<close>

text \<open>The calls so far and the limiter agree, and the window has never been exceeded.\<close>

definition limiter_ok :: "rat list \<Rightarrow> rat \<Rightarrow> rate_limiter \<Rightarrow> bool" where
  "limiter_ok gs now g \<longleftrightarrow> keeps gs now (gl_proactive g) \<and>
     (\<forall>t. int (window_count t (wl_window (gl_proactive g)) gs) \<le> wl_limit (gl_proactive g))"

lemma limiter_ok_block [simp]: "limiter_ok gs now (set_blocked u d g) = limiter_ok gs now g"
  by (simp add: limiter_ok_def set_blocked_def)

lemma limiter_new_ok: "limiter_new limit w conc = Inr g \<Longrightarrow> limiter_ok [] now g"
  by (auto simp: limiter_new_def limiter_ok_def window_count_def dest: window_new_keeps
      intro: fresh_keeps window_new_fresh keepsD(3) split: if_splits)

lemma bounded_snoc:
  assumes "keeps (gs @ [u]) u l" and "\<And>t. int (window_count t (wl_window l) gs) \<le> wl_limit l"
  shows "int (window_count t (wl_window l) (gs @ [u])) \<le> wl_limit l"
proof (cases "t \<le> u \<and> u < t + wl_window l")
  case True
  obtain cut where cut: "cut \<le> u - wl_window l" "wl_times l = filter (\<lambda>g. cut < g) (gs @ [u])"
      "int (length (wl_times l)) \<le> wl_limit l"
    using assms(1) by (auto simp: keeps_def)
  have "window_count t (wl_window l) (gs @ [u]) \<le> length (filter (\<lambda>g. cut < g) (gs @ [u]))"
    unfolding window_count_def using True cut(1) by (intro length_filter_mono) auto
  then show ?thesis using cut(2,3) by simp
qed (use assms(2) in \<open>auto simp: window_count_snoc\<close>)

lemma acquire_config: "acquire n now l = Some (t, l') \<Longrightarrow> wl_limit l' = wl_limit l \<and> wl_window l' = wl_window l"
proof (induction n arbitrary: now l)
  case (Suc n)
  have "wl_limit (snd (attempt now l)) = wl_limit l \<and> wl_window (snd (attempt now l)) = wl_window l"
    by (simp add: attempt_def expire_def Let_def)
  then show ?case using Suc by (cases "attempt now l") (auto split: option.splits)
qed simp

lemma wait_returns:
  assumes "limiter_ok gs t0 g" and "t0 \<le> now"
  shows "\<exists>t g'. wait_if_blocked 2 now g = Some (is_blocked now g, t, g') \<and> limiter_ok (gs @ [t]) t g' \<and>
    now \<le> t \<and> gl_blocked_until g \<le> max now t \<and> (\<not> is_blocked now g \<or> gl_blocked_until g \<le> t) \<and>
    gl_blocked_until g' = gl_blocked_until g"
proof -
  let ?u = "if is_blocked now g then gl_blocked_until g else now"
  have u: "now \<le> ?u" by (simp add: is_blocked_def)
  have "keeps gs t0 (gl_proactive g)" using assms(1) by (simp add: limiter_ok_def)
  from acquire_returns [OF this, of ?u] obtain t l' where
    t: "acquire 2 ?u (gl_proactive g) = Some (t, l')" "keeps (gs @ [t]) t l'" "?u \<le> t"
    using u assms(2) by (meson order_trans)
  have cfg: "wl_limit l' = wl_limit (gl_proactive g)" "wl_window l' = wl_window (gl_proactive g)"
    using acquire_config [OF t(1)] by simp_all
  have "limiter_ok (gs @ [t]) t (g\<lparr>gl_proactive := l'\<rparr>)"
    using bounded_snoc [OF t(2)] assms(1) t(2) by (simp add: limiter_ok_def cfg)
  then show ?thesis using t u by (auto simp: wait_if_blocked_def Let_def is_blocked_def max_def split: if_splits)
qed

text \<open>The calls made: \<open>ts\<close>, from call number \<open>i\<close> on, none before \<open>now\<close>, spaced by the backoff.\<close>

definition spaced :: "retry_config \<Rightarrow> nat \<Rightarrow> rat \<Rightarrow> rat list \<Rightarrow> bool" where
  "spaced rc i now ts \<longleftrightarrow> (\<forall>t \<in> set ts. now \<le> t) \<and>
     (\<forall>j. Suc j < length ts \<longrightarrow> ts ! j + backoff_delay rc (i + j) \<le> ts ! Suc j)"

definition retryable :: "exc + 'a \<Rightarrow> bool" where
  "retryable r \<longleftrightarrow> (\<exists>e. r = Inl e \<and> retryable_upstream_status e \<noteq> None)"

definition outcome_of :: "exc + 'a \<Rightarrow> 'a outcome2" where
  "outcome_of r = (case r of Inl e \<Rightarrow> Raised e | Inr v \<Rightarrow> Returned v)"

lemma spaced_Cons:
  assumes "spaced rc (Suc i) u ts" and "now \<le> t" and "t + backoff_delay rc i \<le> u" and "0 \<le> backoff_delay rc i"
  shows "spaced rc i now (t # ts)"
  unfolding spaced_def
proof (intro conjI allI impI ballI)
  fix x assume "x \<in> set (t # ts)"
  then show "now \<le> x" using assms by (fastforce simp: spaced_def)
next
  fix j assume j: "Suc j < length (t # ts)"
  show "(t # ts) ! j + backoff_delay rc (i + j) \<le> (t # ts) ! Suc j"
  proof (cases j)
    case 0
    then have "u \<le> ts ! 0" using assms(1) j by (simp add: spaced_def)
    then show ?thesis using 0 assms(3) by simp
  next
    case (Suc k)
    then show ?thesis using assms(1) j by (simp add: spaced_def)
  qed
qed

lemma retry_loop_ok:
  assumes "\<forall>i. 0 \<le> dur i" and "\<forall>i. 0 \<le> jit i" and "\<forall>i. 0 \<le> backoff_delay rc i"
    and "limiter_ok gs t0 g" and "t0 \<le> now" and "rc_max_retries rc < int (i + n)" and "0 < n"
  shows "\<exists>k ts t' g'. retry_loop rc fn dur jit n i now g = Some (outcome_of (fn (i + k)), ts, t', g') \<and>
    length ts = Suc k \<and> k < n \<and> (\<forall>j < k. retryable (fn (i + j))) \<and>
    (\<not> retryable (fn (i + k)) \<or> rc_max_retries rc \<le> int (i + k)) \<and>
    spaced rc i now ts \<and> (\<exists>u \<le> t'. limiter_ok (gs @ ts) u g') \<and> now \<le> t'"
  using assms(4-7)
proof (induction n arbitrary: i now g gs t0)
  case (Suc n)
  obtain t g1 where w: "wait_if_blocked 2 now g = Some (is_blocked now g, t, g1)" "limiter_ok (gs @ [t]) t g1" "now \<le> t"
    using wait_returns [OF Suc.prems(1,2)] by blast
  let ?fin = "t + dur i" and ?delay = "backoff_delay rc i + jit i"
  have pos: "0 \<le> dur i" "0 \<le> ?delay" "0 \<le> backoff_delay rc i" "0 \<le> jit i"
    using assms(1-3) by simp_all
  show ?case
  proof (cases "retryable (fn i) \<and> \<not> rc_max_retries rc \<le> int i")
    case False
    then have "retry_loop rc fn dur jit (Suc n) i now g = Some (outcome_of (fn i), [t], ?fin, g1)"
      by (auto simp: w(1) retryable_def outcome_of_def Let_def split: sum.splits option.splits)
    moreover have "spaced rc i now [t]" using w(3) by (simp add: spaced_def)
    moreover have "t \<le> ?fin" "now \<le> ?fin" using pos w(3) by simp_all
    moreover have "\<exists>u \<le> ?fin. limiter_ok (gs @ [t]) u g1" using w(2) pos by (intro exI [of _ t]) simp
    moreover have "\<not> retryable (fn (i + 0)) \<or> rc_max_retries rc \<le> int (i + 0)" using False by simp
    moreover have "length [t] = Suc 0" "0 < Suc n" "\<forall>j < (0 :: nat). retryable (fn (i + j))" by simp_all
    ultimately show ?thesis by (metis add_0_right)
  next
    case True
    then obtain e where e: "fn i = Inl e" "retryable_upstream_status e \<noteq> None" "\<not> rc_max_retries rc \<le> int i"
      by (auto simp: retryable_def)
    let ?g = "set_blocked ?fin ?delay g1" and ?now = "?fin + ?delay"
    have n: "0 < n" using Suc.prems(3) e(3) by simp
    have "limiter_ok (gs @ [t]) t ?g" using w(2) by simp
    moreover have "t \<le> ?now" using pos by simp
    moreover have "rc_max_retries rc < int (Suc i + n)" using Suc.prems(3) by simp
    ultimately obtain k ts t' g' where r: "retry_loop rc fn dur jit n (Suc i) ?now ?g = Some (outcome_of (fn (Suc i + k)), ts, t', g')"
        "length ts = Suc k" "k < n" "\<forall>j < k. retryable (fn (Suc i + j))"
        "\<not> retryable (fn (Suc i + k)) \<or> rc_max_retries rc \<le> int (Suc i + k)" "spaced rc (Suc i) ?now ts"
        "\<exists>u \<le> t'. limiter_ok ((gs @ [t]) @ ts) u g'" "?now \<le> t'"
      using Suc.IH [of "gs @ [t]" t ?g ?now "Suc i"] n by blast
    have "retry_loop rc fn dur jit (Suc n) i now g = Some (outcome_of (fn (i + Suc k)), t # ts, t', g')"
      using e r(1) by (auto simp: w(1) Let_def)
    moreover have "\<forall>j < Suc k. retryable (fn (i + j))"
      using r(4) True by (auto simp: less_Suc_eq_0_disj)
    moreover have "spaced rc i now (t # ts)"
      by (rule spaced_Cons [OF r(6) w(3)]) (use pos in simp_all)
    moreover have "now \<le> t'" using r(8) w(3) pos by simp
    ultimately show ?thesis using r(2,3,5,7)
      by (intro exI [of _ "Suc k"] exI [of _ "t # ts"] exI [of _ t'] exI [of _ g']) auto
  qed
qed simp

text \<open>C38. \<open>execute_with_retry\<close> returns: it calls the function until it succeeds, fails for good or has
  been retried \<open>max_retries\<close> times, and ends with exactly what the last call returned or raised;
  the calls are separated by the exponential backoff and, with all calls before, never exceed
  the rate limit in any window.\<close>

theorem retry_complete:
  assumes "limiter_ok gs t0 g" and "t0 \<le> now" and "0 \<le> rc_max_retries rc"
    and "0 \<le> rc_base_delay rc" and "0 \<le> rc_max_delay rc" and "\<forall>i. 0 \<le> dur i" and "\<forall>i. 0 \<le> jit i"
  shows "\<exists>k ts t' g'. execute_with_retry rc fn dur jit now g = Some (outcome_of (fn k), ts, t', g') \<and>
    length ts = Suc k \<and> int k \<le> rc_max_retries rc \<and> (\<forall>j < k. retryable (fn j)) \<and>
    (\<not> retryable (fn k) \<or> int k = rc_max_retries rc) \<and> spaced rc 0 now ts \<and>
    (\<forall>t. int (window_count t (wl_window (gl_proactive g')) (gs @ ts)) \<le> wl_limit (gl_proactive g'))"
proof -
  have b: "\<forall>i. 0 \<le> backoff_delay rc i" using assms(4,5) by (simp add: backoff_delay_def)
  have "rc_max_retries rc < int (0 + nat (1 + rc_max_retries rc))" "0 < nat (1 + rc_max_retries rc)" using assms(3) by simp_all
  from retry_loop_ok [OF assms(6,7) b assms(1,2) this, of fn] obtain k ts t' g' u where
    r: "retry_loop rc fn dur jit (nat (1 + rc_max_retries rc)) 0 now g = Some (outcome_of (fn (0 + k)), ts, t', g')"
      "length ts = Suc k" "k < nat (1 + rc_max_retries rc)" "\<forall>j < k. retryable (fn (0 + j))"
      "\<not> retryable (fn (0 + k)) \<or> rc_max_retries rc \<le> int (0 + k)" "spaced rc 0 now ts" "limiter_ok (gs @ ts) u g'"
    by blast
  have "int k \<le> rc_max_retries rc" using r(3) by simp
  then show ?thesis using r by (intro exI [of _ k] exI [of _ ts] exI [of _ t'] exI [of _ g'])
    (auto simp: execute_with_retry_def limiter_ok_def)
qed

definition too_many_requests :: exc where
  "too_many_requests = plain_error OpenaiRateLimitError ''RateLimitError'' ''slow down'' (Some 429)"

definition demo_limiter :: rate_limiter where
  "demo_limiter = \<lparr>gl_rate_limit = 2, gl_rate_window = 60, gl_max_concurrency = 1,
     gl_proactive = \<lparr>wl_limit = 2, wl_window = 60, wl_times = []\<rparr>, gl_blocked_until = 0, gl_free_slots = 1\<rparr>"

theorem retry_complete_witness:
  "\<exists>k ts t' g'. execute_with_retry \<lparr>rc_max_retries = 3, rc_base_delay = 2, rc_max_delay = 60\<rparr>
       (\<lambda>i. if i < 2 then Inl too_many_requests else Inr ''ok'') (\<lambda>_. 1) (\<lambda>_. 0) 5 demo_limiter =
     Some (outcome_of (if k < 2 then Inl too_many_requests else Inr ''ok''), ts, t', g') \<and> length ts = Suc k"
proof -
  have "limiter_ok [] 0 demo_limiter"
    by (simp add: limiter_ok_def demo_limiter_def window_count_def fresh_keeps fresh_window_def)
  from retry_complete [OF this, of 5 "\<lparr>rc_max_retries = 3, rc_base_delay = 2, rc_max_delay = 60\<rparr>" "\<lambda>_. 1" "\<lambda>_. 0"
      "\<lambda>i. if i < 2 then Inl too_many_requests else Inr ''ok''"]
  show ?thesis by auto
qed

subsection \<open>Scoped instances\<close>

text \<open>A scope's limiter has the configuration that was asked for; asking again with the same
  configuration gives the same limiter with its state, and no other scope is touched.  An empty
  scope or an invalid configuration raises and changes nothing.\<close>

theorem scoped_instance_correct:
  "case get_scoped_instance scope limit w conc d of
     (Inr g, d') \<Rightarrow> matches_config (int_or 40 limit) (rat_or 60 w) conc g \<and>
       (\<forall>s. dict_get s d' = (if s = scope then Some g else dict_get s d)) \<and>
       get_scoped_instance scope limit w conc d' = (Inr g, d')
   | (Inl e, d') \<Rightarrow> d' = d \<and> e = ValueError \<and>
       (scope = [] \<or> int_or 40 limit \<le> 0 \<or> rat_or 60 w \<le> 0 \<or> conc \<le> 0)"
proof -
  let ?l = "int_or 40 limit" and ?w = "rat_or 60 w"
  have new: "matches_config ?l ?w conc g" if "limiter_new ?l ?w conc = Inr g" for g
    using that by (auto simp: limiter_new_def matches_config_def split: if_splits)
  have err: "e = ValueError \<and> (?l \<le> 0 \<or> ?w \<le> 0 \<or> conc \<le> 0)" if "limiter_new ?l ?w conc = Inl e" for e
    using that by (auto simp: limiter_new_def window_new_def split: if_splits)
  show ?thesis
  proof (cases "scope = []")
    case False
    show ?thesis
    proof (cases "\<exists>g. dict_get scope d = Some g \<and> matches_config ?l ?w conc g")
      case True
      then show ?thesis using False by (auto simp: get_scoped_instance_def Let_def)
    next
      case other: False
      have "get_scoped_instance scope limit w conc d = (case limiter_new ?l ?w conc of
          Inl e \<Rightarrow> (Inl e, d) | Inr g \<Rightarrow> (Inr g, dict_set scope g d))"
        using False other by (auto simp: get_scoped_instance_def Let_def split: option.split)
      then show ?thesis using False new err
        by (cases "limiter_new ?l ?w conc") (auto simp: get_scoped_instance_def Let_def)
    qed
  qed (simp add: get_scoped_instance_def)
qed

text \<open>A later block replaces an earlier one, also when it ends earlier.\<close>

lemma set_blocked_can_shorten:
  "is_blocked 30 (set_blocked 0 60 demo_limiter) \<and> \<not> is_blocked 30 (set_blocked 1 2 (set_blocked 0 60 demo_limiter))"
  by (simp add: set_blocked_def is_blocked_def demo_limiter_def)

end
