(* ===== verification/ErrorMapping.thy ===== *)
theory ErrorMapping
  imports ProviderRetry
begin

section \<open>Mapping upstream errors (\<open>providers/error_mapping.py\<close>)\<close>

text \<open>\<open>map_error\<close> at time \<open>now\<close>: the exception to raise, and the limiter, which a 429 blocks.\<close>

definition server_error :: "exc \<Rightarrow> string \<Rightarrow> exc" where
  "server_error e message =
     (let raw = py_lower (ex_str e) in
      if py_in ''overloaded'' raw \<or> py_in ''capacity'' raw then overloaded_error message (Some (ex_str e))
      else
        case ex_status e of
          Some st \<Rightarrow>
            if 500 \<le> st \<and> st \<le> 599
            then api_error (get_user_facing_error_message None (api_error ''_'' st None)) st (Some (ex_str e))
            else api_error message 500 (Some (ex_str e))
        | None \<Rightarrow> api_error message 500 (Some (ex_str e)))"

definition http_error :: "exc \<Rightarrow> string \<Rightarrow> int \<Rightarrow> exc" where
  "http_error e message st =
     (if st = 401 \<or> st = 403 then authentication_error message (Some (ex_str e))
      else if st = 429 then rate_limit_error message (Some (ex_str e))
      else if st = 400 then invalid_request_error message (Some (ex_str e))
      else if st = 502 \<or> st = 503 \<or> st = 504 then overloaded_error message (Some (ex_str e))
      else api_error message st (Some (ex_str e)))"

definition map_error :: "rat \<Rightarrow> exc \<Rightarrow> rate_limiter \<Rightarrow> exc \<times> rate_limiter" where
  "map_error now e g =
     (let message = get_user_facing_error_message None e in
      case ex_class e of
        OpenaiAuthenticationError \<Rightarrow> (authentication_error message (Some (ex_str e)), g)
      | OpenaiRateLimitError \<Rightarrow> (rate_limit_error message (Some (ex_str e)), set_blocked now 60 g)
      | OpenaiBadRequestError \<Rightarrow> (invalid_request_error message (Some (ex_str e)), g)
      | OpenaiInternalServerError \<Rightarrow> (server_error e message, g)
      | OpenaiAPIError \<Rightarrow>
          (api_error message (case ex_status e of Some st \<Rightarrow> st | None \<Rightarrow> 500) (Some (ex_str e)), g)
      | HttpxStatusError \<Rightarrow>
          (case ex_status e of
             Some st \<Rightarrow> (http_error e message st, if st = 429 then set_blocked now 60 g else g)
           | None \<Rightarrow> (e, g))
      | _ \<Rightarrow> (e, g))"

subsection \<open>What the caller gets\<close>

definition upstream_api_exc :: "exc \<Rightarrow> bool" where
  "upstream_api_exc e \<longleftrightarrow> is_openai_api_error (ex_class e) \<or> ex_class e = HttpxStatusError \<and> ex_status e \<noteq> None"

text \<open>The status the client is sent for each upstream status.\<close>

definition client_status :: "int \<Rightarrow> int" where
  "client_status st = (if st = 403 then 401 else if st = 502 \<or> st = 503 \<or> st = 504 then 529 else st)"

text \<open>\<open>map_error\<close> turns every error of the upstream API, and nothing else, into a provider error that has a
  status, a message for the user that is not empty, and the original text; an HTTP error keeps
  its status up to 403 and the gateway errors; the limiter is blocked for a minute exactly by a rate limit.\<close>

theorem map_error_correct:
  "case map_error now e g of (e', g') \<Rightarrow>
     g' = (if ex_class e = OpenaiRateLimitError \<or> ex_class e = HttpxStatusError \<and> ex_status e = Some 429
           then set_blocked now 60 g else g) \<and>
     (if upstream_api_exc e
      then is_provider_error (ex_class e') \<and> ex_raw_error e' = Some (ex_str e) \<and> ex_str e' \<noteq> [] \<and> ex_status e' \<noteq> None \<and>
        (if ex_class e = HttpxStatusError then ex_status e' = map_option client_status (ex_status e) else True)
      else e' = e)"
proof (cases "ex_class e = HttpxStatusError")
  case True
  then show ?thesis
    by (cases "ex_status e") (auto simp: map_error_def Let_def upstream_api_exc_def http_error_def constructor_defs
        class_defs client_status_def)
next
  case False
  then show ?thesis
    by (cases "ex_class e")
      (auto simp: map_error_def Let_def upstream_api_exc_def server_error_def constructor_defs class_defs split: option.split)
qed

end
