(* ===== verification/ApiRequests.thy ===== *)
theory ApiRequests
  imports PyText StreamContract
begin

section \<open>Requests (\<open>api/models/anthropic.py\<close>, \<open>core/anthropic/content.py\<close>)\<close>

text \<open>
  The validated request, with the fields that reach a provider, and the normalisation of raw
  bodies, which moves messages of the role \<open>system\<close> into the top-level prompt.  Content is a
  JSON value: the attributes of a pydantic block are the fields of its object.
\<close>

record message =
  msg_role :: string
  msg_content :: json
  msg_reasoning_content :: "string option"

record tool_def =
  td_name :: string
  td_type :: "string option"
  td_description :: "string option"
  td_input_schema :: "(string, json) pydict option"

text \<open>\<open>ThinkingConfig\<close>, and how its fields are read from a body: \<open>enabled\<close> defaults to true.  A value of
  another type, which pydantic coerces or refuses, gives \<open>None\<close>.\<close>

record thinking_config =
  tc_enabled :: "bool option"
  tc_type :: "string option"
  tc_budget_tokens :: "int option"

definition thinking_config_of :: "(string, json) pydict \<Rightarrow> thinking_config option" where
  "thinking_config_of raw =
     (case (case dict_get ''enabled'' raw of None \<Rightarrow> Some (Some True) | Some JNull \<Rightarrow> Some None | Some (JBool b) \<Rightarrow> Some (Some b) | _ \<Rightarrow> None,
            case dict_get ''type'' raw of None \<Rightarrow> Some None | Some JNull \<Rightarrow> Some None | Some (JStr s) \<Rightarrow> Some (Some s) | _ \<Rightarrow> None,
            case dict_get ''budget_tokens'' raw of None \<Rightarrow> Some None | Some JNull \<Rightarrow> Some None | Some (JInt i) \<Rightarrow> Some (Some i) | _ \<Rightarrow> None) of
        (Some e, Some t, Some b) \<Rightarrow> Some \<lparr>tc_enabled = e, tc_type = t, tc_budget_tokens = b\<rparr>
      | _ \<Rightarrow> None)"

text \<open>\<open>rq_extra\<close> holds the unknown keys of the body (\<open>__pydantic_extra__\<close>).\<close>

record messages_request =
  rq_model :: string
  rq_max_tokens :: "int option"
  rq_messages :: "message list"
  rq_system :: "json option"
  rq_stop_sequences :: "string list option"
  rq_stream :: "bool option"
  rq_temperature :: "json option"
  rq_top_p :: "json option"
  rq_top_k :: "int option"
  rq_metadata :: "json option"
  rq_tools :: "tool_def list option"
  rq_tool_choice :: "json option"
  rq_thinking :: "thinking_config option"
  rq_context_management :: "json option"
  rq_output_config :: "json option"
  rq_mcp_servers :: "json option"
  rq_extra_body :: "(string, json) pydict option"
  rq_extra :: "(string, json) pydict"

definition get_block_attr :: "json \<Rightarrow> string \<Rightarrow> json option" where
  "get_block_attr block attr = json_get attr block"

definition text_of_block :: "json \<Rightarrow> string" where
  "text_of_block block = (case get_block_attr block ''text'' of Some (JStr t) \<Rightarrow> t | _ \<Rightarrow> [])"

definition extract_text_from_content :: "json \<Rightarrow> string" where
  "extract_text_from_content content =
     (case content of
        JStr s \<Rightarrow> s
      | JList blocks \<Rightarrow> concat (map text_of_block blocks)
      | _ \<Rightarrow> [])"

subsection \<open>System-role messages\<close>

definition LFLF :: string where
  "LFLF = [CHR 0x0A, CHR 0x0A]"

text \<open>\<open>str(content)\<close> of a value that is no string is the argument \<open>repr\<close>.\<close>

definition extract_system_message_text :: "(json \<Rightarrow> string) \<Rightarrow> json option \<Rightarrow> string" where
  "extract_system_message_text repr content =
     (case content of
        None \<Rightarrow> []
      | Some JNull \<Rightarrow> []
      | Some (JStr s) \<Rightarrow> s
      | Some (JList blocks) \<Rightarrow>
          py_join LFLF (filter (\<lambda>t. t \<noteq> [])
            (map text_of_block (filter (\<lambda>b. get_block_attr b ''type'' = Some (JStr ''text'')) blocks)))
      | Some (JObj d) \<Rightarrow>
          if dict_get ''type'' d \<noteq> Some (JStr ''text'') then []
          else (case dict_get ''text'' d of Some (JStr t) \<Rightarrow> t | _ \<Rightarrow> repr (JObj d))
      | Some v \<Rightarrow> repr v)"

definition text_part :: "string \<Rightarrow> json" where
  "text_part t = JObj [(''type'', JStr ''text''), (''text'', JStr t)]"

definition append_system_text :: "json option \<Rightarrow> string list \<Rightarrow> json option" where
  "append_system_text system texts =
     (let parts = filter (\<lambda>t. t \<noteq> []) texts; appended = py_join LFLF parts in
      if parts = [] then system
      else
        case system of
          Some (JList xs) \<Rightarrow> Some (JList (xs @ map text_part parts))
        | Some (JStr s) \<Rightarrow> Some (JStr (if s \<noteq> [] then s @ LFLF @ appended else appended))
        | _ \<Rightarrow> Some (JStr appended))"

definition is_system_message :: "json \<Rightarrow> bool" where
  "is_system_message m \<longleftrightarrow> json_get ''role'' m = Some (JStr ''system'')"

text \<open>\<open>normalized.get("system")\<close>, with a missing key and \<open>null\<close> both \<open>None\<close>; the key is set in either case.\<close>

definition normalize_system_role_messages :: "(json \<Rightarrow> string) \<Rightarrow> json \<Rightarrow> json" where
  "normalize_system_role_messages repr data =
     (case data of
        JObj d \<Rightarrow>
          (case dict_get ''messages'' d of
             Some (JList messages) \<Rightarrow>
               let system_messages = filter is_system_message messages;
                   texts = map (\<lambda>m. extract_system_message_text repr (json_get ''content'' m)) system_messages
               in if texts = [] then data
                  else
                    let system = (case dict_get ''system'' d of Some v \<Rightarrow> v | None \<Rightarrow> JNull);
                        d = dict_set ''messages'' (JList (filter (\<lambda>m. \<not> is_system_message m) messages)) d
                    in JObj (dict_set ''system'' (case append_system_text (Some system) texts of Some v \<Rightarrow> v | None \<Rightarrow> JNull) d)
           | _ \<Rightarrow> data)
      | _ \<Rightarrow> data)"

subsection \<open>No text is lost\<close>

text \<open>The texts of a system prompt, in order.\<close>

definition system_texts :: "json option \<Rightarrow> string" where
  "system_texts system = (case system of Some v \<Rightarrow> extract_text_from_content v | None \<Rightarrow> [])"

definition without_breaks :: "string \<Rightarrow> string" where
  "without_breaks s = filter (\<lambda>c. c \<noteq> CHR 0x0A) s"

lemma without_breaks_append [simp]: "without_breaks (a @ b) = without_breaks a @ without_breaks b"
  by (simp add: without_breaks_def)

lemma without_breaks_LFLF [simp]: "without_breaks LFLF = []" "without_breaks [] = []"
  by (simp_all add: without_breaks_def LFLF_def)

lemma without_breaks_join: "without_breaks (py_join LFLF ts) = concat (map without_breaks ts)"
  by (induction LFLF ts rule: py_join.induct) simp_all

lemma without_breaks_concat: "without_breaks (concat ts) = concat (map without_breaks ts)"
  by (induction ts) simp_all

lemma concat_nonempty: "concat (map f (filter (\<lambda>t. t \<noteq> []) ts)) = concat (map f ts)" if "f [] = []"
  using that by (induction ts) auto

lemma text_of_text_part [simp]: "text_of_block (text_part t) = t"
  by (simp add: text_of_block_def text_part_def get_block_attr_def)

lemma append_system_text_texts:
  assumes "system \<in> {None, Some JNull} \<or> (\<exists>s. system = Some (JStr s)) \<or> (\<exists>xs. system = Some (JList xs))"
  shows "without_breaks (system_texts (append_system_text system texts)) =
    without_breaks (system_texts system) @ concat (map without_breaks texts)"
proof -
  let ?parts = "filter (\<lambda>t. t \<noteq> []) texts"
  have parts: "concat (map without_breaks ?parts) = concat (map without_breaks texts)" by (rule concat_nonempty) simp
  show ?thesis
  proof (cases "?parts = []")
    case True
    then have "append_system_text system texts = system" by (simp add: append_system_text_def Let_def del: filter_neq_removeAll)
    moreover have "concat (map without_breaks texts) = []" using parts True by (simp del: filter_neq_removeAll)
    ultimately show ?thesis by simp
  next
    case False
    then have n: "append_system_text system texts = (case system of
          Some (JList xs) \<Rightarrow> Some (JList (xs @ map text_part ?parts))
        | Some (JStr s) \<Rightarrow> Some (JStr (if s \<noteq> [] then s @ LFLF @ py_join LFLF ?parts else py_join LFLF ?parts))
        | _ \<Rightarrow> Some (JStr (py_join LFLF ?parts)))"
      by (simp only: append_system_text_def Let_def if_False)
    have c: "map text_of_block (map text_part ?parts) = ?parts" by (simp add: map_idI comp_def)
    show ?thesis unfolding n using assms parts
      by (auto simp: system_texts_def extract_text_from_content_def without_breaks_join without_breaks_concat c
          simp del: filter_neq_removeAll map_map)
  qed
qed

text \<open>Normalisation moves every system-role message out of the conversation and keeps the rest in
  order; the system prompt then has the text it had, followed by the text of these messages, in
  order, up to line breaks.  No other key changes, and normalising again changes nothing.\<close>

theorem system_messages_moved:
  assumes "dict_get ''messages'' d = Some (JList ms)"
    and "dict_get ''system'' d \<in> {None, Some JNull} \<or> (\<exists>s. dict_get ''system'' d = Some (JStr s)) \<or> (\<exists>xs. dict_get ''system'' d = Some (JList xs))"
  shows "\<exists>d'. normalize_system_role_messages repr (JObj d) = JObj d' \<and>
    dict_get ''messages'' d' = Some (JList (filter (\<lambda>m. \<not> is_system_message m) ms)) \<and>
    without_breaks (system_texts (dict_get ''system'' d')) = without_breaks (system_texts (dict_get ''system'' d)) @
      concat (map (\<lambda>m. without_breaks (extract_system_message_text repr (json_get ''content'' m))) (filter is_system_message ms)) \<and>
    (\<forall>k. k \<in> {''messages'', ''system''} \<or> dict_get k d' = dict_get k d) \<and>
    normalize_system_role_messages repr (JObj d') = JObj d'"
proof (cases "filter is_system_message ms = []")
  case True
  then have none: "filter (\<lambda>m. \<not> is_system_message m) ms = ms" by (simp add: filter_empty_conv)
  have n: "normalize_system_role_messages repr (JObj d) = JObj d"
    using assms(1) True by (simp add: normalize_system_role_messages_def Let_def)
  show ?thesis by (rule exI [of _ d]) (simp add: n none True assms(1))
next
  case False
  let ?sys = "case dict_get ''system'' d of Some v \<Rightarrow> v | None \<Rightarrow> JNull"
  let ?texts = "map (\<lambda>m. extract_system_message_text repr (json_get ''content'' m)) (filter is_system_message ms)"
  let ?new = "case append_system_text (Some ?sys) ?texts of Some v \<Rightarrow> v | None \<Rightarrow> JNull"
  let ?rest = "filter (\<lambda>m. \<not> is_system_message m) ms"
  let ?d = "dict_set ''system'' ?new (dict_set ''messages'' (JList ?rest) d)"
  have n: "normalize_system_role_messages repr (JObj d) = JObj ?d"
    using assms(1) False by (simp add: normalize_system_role_messages_def Let_def)
  have "append_system_text (Some ?sys) ?texts \<noteq> None" by (simp add: append_system_text_def Let_def split: json.split)
  then have new: "Some ?new = append_system_text (Some ?sys) ?texts" by (auto split: option.split)
  have sys: "Some ?sys \<in> {None, Some JNull} \<or> (\<exists>s. Some ?sys = Some (JStr s)) \<or> (\<exists>xs. Some ?sys = Some (JList xs))"
    using assms(2) by auto
  have old: "system_texts (Some ?sys) = system_texts (dict_get ''system'' d)"
    by (cases "dict_get ''system'' d") (simp_all add: system_texts_def extract_text_from_content_def)
  have texts: "without_breaks (system_texts (dict_get ''system'' ?d)) = without_breaks (system_texts (dict_get ''system'' d)) @
      concat (map (\<lambda>m. without_breaks (extract_system_message_text repr (json_get ''content'' m))) (filter is_system_message ms))"
  proof -
    have "dict_get ''system'' ?d = append_system_text (Some ?sys) ?texts" using new by simp
    then show ?thesis using append_system_text_texts [OF sys, of ?texts] by (simp only: old map_map comp_def)
  qed
  have msgs: "dict_get ''messages'' ?d = Some (JList ?rest)" by simp
  have again: "normalize_system_role_messages repr (JObj ?d) = JObj ?d"
    unfolding normalize_system_role_messages_def json.case msgs option.case by (simp add: filter_empty_conv)
  have "\<forall>k. k \<in> {''messages'', ''system''} \<or> dict_get k ?d = dict_get k d" by simp
  then show ?thesis using n texts msgs again by blast
qed

theorem system_messages_moved_witness:
  "\<exists>d'. normalize_system_role_messages (\<lambda>_. []) (JObj [(''messages'', JList [JObj [(''role'', JStr ''system''), (''content'', JStr ''be kind'')],
      JObj [(''role'', JStr ''user''), (''content'', JStr ''hi'')]]), (''system'', JStr ''you are'')]) = JObj d' \<and>
     without_breaks (system_texts (dict_get ''system'' d')) = ''you arebe kind''"
proof -
  let ?ms = "[JObj [(''role'', JStr ''system''), (''content'', JStr ''be kind'')], JObj [(''role'', JStr ''user''), (''content'', JStr ''hi'')]]"
  let ?d = "[(''messages'', JList ?ms), (''system'', JStr ''you are'')]"
  have 1: "dict_get ''messages'' ?d = Some (JList ?ms)" by simp
  have 2: "dict_get ''system'' ?d \<in> {None, Some JNull} \<or> (\<exists>s. dict_get ''system'' ?d = Some (JStr s)) \<or> (\<exists>xs. dict_get ''system'' ?d = Some (JList xs))"
    by simp
  have "without_breaks (system_texts (dict_get ''system'' ?d)) @ concat (map (\<lambda>m. without_breaks (extract_system_message_text (\<lambda>_. [])
      (json_get ''content'' m))) (filter is_system_message ?ms)) = ''you arebe kind''"
    by (simp add: system_texts_def extract_text_from_content_def is_system_message_def extract_system_message_text_def without_breaks_def)
  then show ?thesis using system_messages_moved [OF 1 2, of "\<lambda>_. []"] by metis
qed

end
