(* ===== verification/OpenAiConvert.thy ===== *)
theory OpenAiConvert
  imports ApiRequests
begin

section \<open>From Anthropic to OpenAI chat messages (\<open>core/anthropic/conversion.py\<close>)\<close>

text \<open>
  The conversion of a conversation and of the rest of a request to the body of a chat completion.
  A message of the result is the dictionary the code builds.  An assistant text that follows a
  tool call cannot stand in the same chat message; it is kept back as a pending state until the
  results of the calls have been replayed.  \<open>json.dumps\<close> (with and without escaping) and \<open>str\<close> of
  values that are no strings are the environment; a \<open>join\<close> over a value that is no string is the
  \<open>TypeError\<close> it is in Python.
\<close>

type_synonym jdict = "(string, json) pydict"

record text_env =
  te_dumps :: "json \<Rightarrow> string"
  te_dumps_raw :: "json \<Rightarrow> string"  \<comment> \<open>\<open>ensure_ascii=False\<close>\<close>
  te_repr :: "json \<Rightarrow> string"

datatype replay_mode = DISABLED | THINK_TAGS | REASONING_CONTENT

definition get_block_type :: "json \<Rightarrow> json option" where
  "get_block_type block = get_block_attr block ''type''"

definition block_type_is :: "string \<Rightarrow> json \<Rightarrow> bool" where
  "block_type_is ty block \<longleftrightarrow> get_block_type block = Some (JStr ty)"

definition block_attr_or :: "json \<Rightarrow> string \<Rightarrow> json \<Rightarrow> json" where
  "block_attr_or block attr dflt = (case get_block_attr block attr of None \<Rightarrow> dflt | Some v \<Rightarrow> v)"

text \<open>Truth of a JSON value; a float is its literal, which is zero without a non-zero digit.\<close>

definition json_truthy :: "json \<Rightarrow> bool" where
  "json_truthy v =
     (case v of
        JNull \<Rightarrow> False
      | JBool b \<Rightarrow> b
      | JInt i \<Rightarrow> i \<noteq> 0
      | JFloat s \<Rightarrow> list_ex (\<lambda>c. c \<in> set ''123456789NI'') (takeWhile (\<lambda>c. c \<notin> {CHR ''e'', CHR ''E''}) s)
      | JStr s \<Rightarrow> s \<noteq> []
      | JList xs \<Rightarrow> xs \<noteq> []
      | JObj d \<Rightarrow> d \<noteq> [])"

text \<open>\<open>sep.join(parts)\<close>\<close>

fun all_strings :: "json list \<Rightarrow> string list option" where
  "all_strings [] = Some []"
| "all_strings (JStr s # xs) = map_option (Cons s) (all_strings xs)"
| "all_strings (_ # xs) = None"

definition join_values :: "string \<Rightarrow> json list \<Rightarrow> string result" where
  "join_values sep xs = (case all_strings xs of None \<Rightarrow> Inl TypeError | Some ss \<Rightarrow> Inr (py_join sep ss))"

definition LFs :: string where
  "LFs = [CHR 0x0A]"

subsection \<open>Blocks\<close>

definition serialize_tool_result_item :: "text_env \<Rightarrow> json \<Rightarrow> string" where
  "serialize_tool_result_item env item =
     (case item of
        JObj d \<Rightarrow>
          if dict_get ''type'' d = Some (JStr ''text'')
          then py_str (te_repr env) (json_get_or ''text'' (JStr []) item)
          else te_dumps_raw env item
      | _ \<Rightarrow> py_str (te_repr env) item)"

definition serialize_tool_result_content :: "text_env \<Rightarrow> json \<Rightarrow> string" where
  "serialize_tool_result_content env content =
     (case content of
        JNull \<Rightarrow> []
      | JStr s \<Rightarrow> s
      | JObj d \<Rightarrow> te_dumps_raw env content
      | JList items \<Rightarrow> py_join LFs (map (serialize_tool_result_item env) items)
      | _ \<Rightarrow> te_repr env content)"

definition clean_reasoning_content :: "string option \<Rightarrow> string option" where
  "clean_reasoning_content v = (case v of None \<Rightarrow> None | Some s \<Rightarrow> if s \<noteq> [] then Some s else None)"

definition think_tag_content :: "string \<Rightarrow> string" where
  "think_tag_content reasoning = ''<think>'' @ LFs @ reasoning @ LFs @ ''</think>''"

record pending_after_tools =
  pa_remaining_tool_ids :: "string set"
  pa_deferred_blocks :: "json list"
  pa_top_level_reasoning :: "string option"
  pa_reasoning_replay :: replay_mode
  pa_deferred_emitted :: bool

definition needs_deferred :: "pending_after_tools \<Rightarrow> bool" where
  "needs_deferred p \<longleftrightarrow> pa_deferred_blocks p \<noteq> [] \<and> \<not> pa_deferred_emitted p"

fun index_first_tool_use :: "json list \<Rightarrow> nat option" where
  "index_first_tool_use [] = None"
| "index_first_tool_use (b # bs) =
     (if block_type_is ''tool_use'' b then Some 0 else map_option Suc (index_first_tool_use bs))"

definition tool_call :: "text_env \<Rightarrow> json \<Rightarrow> json" where
  "tool_call env block =
     (let tool_input = block_attr_or block ''input'' (JObj []) in
      JObj [(''id'', block_attr_or block ''id'' JNull), (''type'', JStr ''function''),
        (''function'', JObj
          [(''name'', block_attr_or block ''name'' JNull),
           (''arguments'', JStr (if is_obj tool_input then te_dumps env tool_input
                                 else py_str (te_repr env) tool_input))])])"

definition iter_tool_uses_in_order :: "text_env \<Rightarrow> json list \<Rightarrow> json list" where
  "iter_tool_uses_in_order env blocks = map (tool_call env) (filter (block_type_is ''tool_use'') blocks)"

definition deferred_post_tool_blocks :: "json list \<Rightarrow> nat \<Rightarrow> json list" where
  "deferred_post_tool_blocks content first_i =
     filter (\<lambda>b. \<not> block_type_is ''tool_use'' b) (drop (Suc first_i) content)"

definition assert_no_forbidden_assistant_block :: "json \<Rightarrow> unit result" where
  "assert_no_forbidden_assistant_block block =
     (if block_type_is ''image'' block then Inl ConversionError
      else if block_type_is ''server_tool_use'' block \<or> block_type_is ''web_search_tool_result'' block
           \<or> block_type_is ''web_fetch_tool_result'' block then Inl ConversionError
      else Inr ())"

fun assert_none_forbidden :: "json list \<Rightarrow> unit result" where
  "assert_none_forbidden [] = Inr ()"
| "assert_none_forbidden (b # bs) =
     bind_result (assert_no_forbidden_assistant_block b) (\<lambda>_. assert_none_forbidden bs)"

subsection \<open>An assistant message\<close>

text \<open>One turn of the loop of \<open>_convert_assistant_message\<close>: what a block adds to the content
  parts, the thinking parts and the tool calls.\<close>

type_synonym parts = "json list \<times> json list \<times> json list"

definition assistant_block :: "text_env \<Rightarrow> string option \<Rightarrow> replay_mode \<Rightarrow> json \<Rightarrow> parts result" where
  "assistant_block env reasoning replay block =
     (if block_type_is ''text'' block then Inr ([block_attr_or block ''text'' (JStr [])], [], [])
      else if block_type_is ''thinking'' block then
        (let thinking = block_attr_or block ''thinking'' (JStr []) in
         case replay of
           DISABLED \<Rightarrow> Inr ([], [], [])
         | THINK_TAGS \<Rightarrow> Inr ([JStr (think_tag_content (py_str (te_repr env) thinking))], [], [])
         | REASONING_CONTENT \<Rightarrow> Inr ([], if reasoning = None then [thinking] else [], []))
      else if block_type_is ''redacted_thinking'' block then Inr ([], [], [])
      else if block_type_is ''tool_use'' block then Inr ([], [], [tool_call env block])
      else bind_result (assert_no_forbidden_assistant_block block) (\<lambda>_. Inr ([], [], [])))"

fun assistant_blocks :: "text_env \<Rightarrow> string option \<Rightarrow> replay_mode \<Rightarrow> json list \<Rightarrow> parts result" where
  "assistant_blocks env reasoning replay [] = Inr ([], [], [])"
| "assistant_blocks env reasoning replay (b # bs) =
     bind_result (assistant_block env reasoning replay b) (\<lambda>(c, t, u).
       bind_result (assistant_blocks env reasoning replay bs) (\<lambda>(c', t', u').
         Inr (c @ c', t @ t', u @ u')))"

definition convert_assistant_message ::
  "text_env \<Rightarrow> json list \<Rightarrow> string option \<Rightarrow> replay_mode \<Rightarrow> jdict list result" where
  "convert_assistant_message env content reasoning replay =
     bind_result (assistant_blocks env reasoning replay content) (\<lambda>(content_parts, thinking_parts, tool_calls).
       bind_result (join_values LFLF content_parts) (\<lambda>joined.
         let content_str = (if joined = [] \<and> tool_calls = [] then '' '' else joined);
             msg = [(''role'', JStr ''assistant''), (''content'', JStr content_str)];
             msg = (if tool_calls \<noteq> [] then dict_set ''tool_calls'' (JList tool_calls) msg else msg)
         in if replay = REASONING_CONTENT
            then bind_result (case reasoning of
                                Some r \<Rightarrow> if r \<noteq> [] then Inr r else join_values LFs thinking_parts
                              | None \<Rightarrow> join_values LFs thinking_parts) (\<lambda>r.
                   Inr [if r \<noteq> [] then dict_set ''reasoning_content'' (JStr r) msg else msg])
            else Inr [msg]))"

definition deferred_post_tool_to_messages :: "text_env \<Rightarrow> pending_after_tools \<Rightarrow> jdict list result" where
  "deferred_post_tool_to_messages env p =
     (if pa_deferred_blocks p = [] then Inr []
      else convert_assistant_message env (pa_deferred_blocks p) (pa_top_level_reasoning p) (pa_reasoning_replay p))"

text \<open>The ids of the calls whose results are awaited: those that are no blank strings.\<close>

definition awaited_ids :: "text_env \<Rightarrow> json list \<Rightarrow> string set" where
  "awaited_ids env tool_calls =
     set (filter (\<lambda>tid. py_strip tid \<noteq> [])
       (map (py_str (te_repr env)) (filter (\<lambda>v. v \<noteq> JNull) (map (json_get_or ''id'' JNull) tool_calls))))"

definition convert_assistant_message_with_split ::
  "text_env \<Rightarrow> json list \<Rightarrow> nat \<Rightarrow> string option \<Rightarrow> replay_mode
    \<Rightarrow> (jdict list \<times> pending_after_tools option) result" where
  "convert_assistant_message_with_split env content first_i reasoning replay =
     (let pre = take first_i content; tool_calls = iter_tool_uses_in_order env content in
      if tool_calls = []
      then bind_result (convert_assistant_message env content reasoning replay) (\<lambda>out. Inr (out, None))
      else
        let deferred = deferred_post_tool_blocks content first_i in
        bind_result
          (if pre = []
           then (let pre_msg = [(''role'', JStr ''assistant''), (''content'', JStr [])] in
                 Inr (if replay = REASONING_CONTENT \<and> truthy_str reasoning
                      then dict_set ''reasoning_content'' (JStr (the reasoning)) pre_msg else pre_msg))
           else bind_result (convert_assistant_message env pre reasoning replay) (\<lambda>out. Inr (hd out)))
          (\<lambda>pre_msg.
             let pre_msg = dict_set ''tool_calls'' (JList tool_calls) pre_msg;
                 pre_msg = (if dict_get ''content'' pre_msg = Some (JStr '' '')
                            then dict_set ''content'' (JStr []) pre_msg else pre_msg)
             in Inr ([pre_msg],
                  if deferred = [] then None
                  else Some \<lparr>pa_remaining_tool_ids = awaited_ids env tool_calls, pa_deferred_blocks = deferred,
                             pa_top_level_reasoning = reasoning, pa_reasoning_replay = replay,
                             pa_deferred_emitted = False\<rparr>)))"

subsection \<open>A user message\<close>

definition flush_text :: "json list \<Rightarrow> jdict list result" where
  "flush_text txts =
     (if txts = [] then Inr []
      else bind_result (join_values LFs txts) (\<lambda>t.
        Inr [[(''role'', JStr ''user''), (''content'', JStr t)]]))"

definition tool_message :: "text_env \<Rightarrow> json \<Rightarrow> jdict" where
  "tool_message env block =
     [(''role'', JStr ''tool''), (''tool_call_id'', block_attr_or block ''tool_use_id'' JNull),
      (''content'', JStr (serialize_tool_result_content env (block_attr_or block ''content'' (JStr []))))]"

text \<open>The loop of \<open>_convert_user_message\<close> with the text parts collected so far.\<close>

fun user_blocks :: "text_env \<Rightarrow> json list \<Rightarrow> json list \<Rightarrow> jdict list result" where
  "user_blocks env [] ts = flush_text ts"
| "user_blocks env (b # bs) ts =
     (if block_type_is ''text'' b then user_blocks env bs (ts @ [block_attr_or b ''text'' (JStr [])])
      else if block_type_is ''image'' b then Inl ConversionError
      else if block_type_is ''tool_result'' b then
        bind_result (flush_text ts) (\<lambda>flushed.
          bind_result (user_blocks env bs []) (\<lambda>rest. Inr (flushed @ [tool_message env b] @ rest)))
      else user_blocks env bs ts)"

definition convert_user_message :: "text_env \<Rightarrow> json list \<Rightarrow> jdict list result" where
  "convert_user_message env content = user_blocks env content []"

text \<open>\<open>_convert_user_message_with_injection\<close>: the text parts, the pending state and the flag
  \<open>cleared\<close> go through the loop.\<close>

definition result_id :: "text_env \<Rightarrow> json \<Rightarrow> string" where
  "result_id env block =
     (case block_attr_or block ''tool_use_id'' JNull of JNull \<Rightarrow> [] | v \<Rightarrow> py_str (te_repr env) v)"

fun inject_blocks ::
  "text_env \<Rightarrow> json list \<Rightarrow> json list \<Rightarrow> pending_after_tools \<Rightarrow> bool
    \<Rightarrow> (jdict list \<times> pending_after_tools \<times> bool) result" where
  "inject_blocks env [] ts p cleared = bind_result (flush_text ts) (\<lambda>flushed. Inr (flushed, p, cleared))"
| "inject_blocks env (b # bs) ts p cleared =
     (if block_type_is ''text'' b
      then inject_blocks env bs (ts @ [block_attr_or b ''text'' (JStr [])]) p cleared
      else if block_type_is ''image'' b then Inl ConversionError
      else if block_type_is ''tool_result'' b then
        bind_result (flush_text ts) (\<lambda>flushed.
          let p = p\<lparr>pa_remaining_tool_ids := pa_remaining_tool_ids p - {result_id env b}\<rparr> in
          if pa_remaining_tool_ids p = {} then
            bind_result (deferred_post_tool_to_messages env p) (\<lambda>deferred.
              bind_result (inject_blocks env bs [] (p\<lparr>pa_deferred_emitted := True\<rparr>) True) (\<lambda>(rest, p, cleared).
                Inr (flushed @ [tool_message env b] @ deferred @ rest, p, cleared)))
          else
            bind_result (inject_blocks env bs [] p cleared) (\<lambda>(rest, p, cleared).
              Inr (flushed @ [tool_message env b] @ rest, p, cleared)))
      else inject_blocks env bs ts p cleared)"

definition convert_user_message_with_injection ::
  "text_env \<Rightarrow> json list \<Rightarrow> pending_after_tools \<Rightarrow> (jdict list \<times> pending_after_tools \<times> bool) result" where
  "convert_user_message_with_injection env content p =
     (if \<not> needs_deferred p \<or> pa_remaining_tool_ids p = {}
      then bind_result (convert_user_message env content) (\<lambda>out. Inr (out, p, False))
      else inject_blocks env content [] p False)"

subsection \<open>The conversation\<close>

definition waits :: "pending_after_tools option \<Rightarrow> bool" where
  "waits pending = (case pending of None \<Rightarrow> False | Some p \<Rightarrow> needs_deferred p)"

text \<open>The blocks kept back are replayed and the pending state is dropped, where there are any.\<close>

definition replay_deferred ::
  "text_env \<Rightarrow> pending_after_tools option \<Rightarrow> (jdict list \<times> pending_after_tools option) result" where
  "replay_deferred env pending =
     (if waits pending
      then bind_result (deferred_post_tool_to_messages env (the pending)) (\<lambda>out. Inr (out, None))
      else Inr ([], pending))"

definition convert_assistant_list ::
  "text_env \<Rightarrow> replay_mode \<Rightarrow> json list \<Rightarrow> string option \<Rightarrow> pending_after_tools option
    \<Rightarrow> (jdict list \<times> pending_after_tools option) result" where
  "convert_assistant_list env replay content reasoning pending =
     (case index_first_tool_use content of
        Some first_i \<Rightarrow>
          bind_result (assert_none_forbidden (filter (\<lambda>b. \<not> block_type_is ''tool_use'' b) content)) (\<lambda>_.
            bind_result (convert_assistant_message_with_split env content first_i reasoning replay) (\<lambda>(out, fresh).
              Inr (out, case fresh of None \<Rightarrow> pending | Some p \<Rightarrow> Some p)))
      | None \<Rightarrow>
          bind_result (assert_none_forbidden content) (\<lambda>_.
            bind_result (convert_assistant_message env content reasoning replay) (\<lambda>out. Inr (out, pending))))"

definition convert_text_message :: "replay_mode \<Rightarrow> string \<Rightarrow> string \<Rightarrow> string option \<Rightarrow> jdict" where
  "convert_text_message replay role content reasoning =
     (let converted = [(''role'', JStr role), (''content'', JStr content)] in
      if role = ''assistant'' \<and> truthy_str reasoning then
        (case replay of
           REASONING_CONTENT \<Rightarrow> dict_set ''reasoning_content'' (JStr (the reasoning)) converted
         | THINK_TAGS \<Rightarrow>
             dict_set ''content'' (JStr (py_join LFLF
               (think_tag_content (the reasoning) # (if content \<noteq> [] then [content] else [])))) converted
         | DISABLED \<Rightarrow> converted)
      else converted)"

definition convert_user_list ::
  "text_env \<Rightarrow> json list \<Rightarrow> pending_after_tools option \<Rightarrow> (jdict list \<times> pending_after_tools option) result" where
  "convert_user_list env content pending =
     (if waits pending then
        (if pa_remaining_tool_ids (the pending) = {} then
           bind_result (replay_deferred env pending) (\<lambda>(out, pending).
             bind_result (convert_user_message env content) (\<lambda>rest. Inr (out @ rest, pending)))
         else
           bind_result (convert_user_message_with_injection env content (the pending)) (\<lambda>(out, p, cleared).
             Inr (out, if cleared then None else Some p)))
      else bind_result (convert_user_message env content) (\<lambda>out. Inr (out, pending)))"

definition convert_step ::
  "text_env \<Rightarrow> replay_mode \<Rightarrow> message \<Rightarrow> pending_after_tools option
    \<Rightarrow> (jdict list \<times> pending_after_tools option) result" where
  "convert_step env replay m pending =
     (let role = msg_role m; reasoning = clean_reasoning_content (msg_reasoning_content m) in
      case msg_content m of
        JList content \<Rightarrow>
          if role = ''assistant'' then
            bind_result (replay_deferred env pending) (\<lambda>(out, pending).
              bind_result (convert_assistant_list env replay content reasoning pending) (\<lambda>(more, pending).
                Inr (out @ more, pending)))
          else if role = ''user'' then convert_user_list env content pending
          else Inr ([], pending)
      | JStr content \<Rightarrow>
          bind_result (if role = ''user'' then replay_deferred env pending else Inr ([], pending)) (\<lambda>(out, pending).
            Inr (out @ [convert_text_message replay role content reasoning], pending))
      | v \<Rightarrow>
          bind_result (if role = ''user'' then replay_deferred env pending else Inr ([], pending)) (\<lambda>(out, pending).
            Inr (out @ [[(''role'', JStr role), (''content'', JStr (te_repr env v))]], pending)))"

fun convert_loop ::
  "text_env \<Rightarrow> replay_mode \<Rightarrow> message list \<Rightarrow> pending_after_tools option \<Rightarrow> jdict list result" where
  "convert_loop env replay [] pending = bind_result (replay_deferred env pending) (\<lambda>(out, _). Inr out)"
| "convert_loop env replay (m # ms) pending =
     bind_result (convert_step env replay m pending) (\<lambda>(out, pending).
       bind_result (convert_loop env replay ms pending) (\<lambda>rest. Inr (out @ rest)))"

definition convert_messages :: "text_env \<Rightarrow> replay_mode \<Rightarrow> message list \<Rightarrow> jdict list result" where
  "convert_messages env replay messages = convert_loop env replay messages None"

subsection \<open>Tools, tool choice, system prompt and body\<close>

definition tool_input_schema :: "tool_def \<Rightarrow> json" where
  "tool_input_schema t =
     (case td_input_schema t of
        Some d \<Rightarrow> JObj d
      | None \<Rightarrow> JObj [(''type'', JStr ''object''), (''properties'', JObj [])])"

definition convert_tool :: "tool_def \<Rightarrow> json" where
  "convert_tool t =
     JObj [(''type'', JStr ''function''),
       (''function'', JObj
         [(''name'', JStr (td_name t)),
          (''description'', JStr (case td_description t of None \<Rightarrow> [] | Some s \<Rightarrow> s)),
          (''parameters'', tool_input_schema t)])]"

definition convert_tools :: "tool_def list \<Rightarrow> json list" where
  "convert_tools tools = map convert_tool tools"

definition convert_tool_choice :: "json \<Rightarrow> json" where
  "convert_tool_choice choice =
     (case choice of
        JObj d \<Rightarrow>
          let ty = dict_get ''type'' d; name = (case dict_get ''name'' d of None \<Rightarrow> JNull | Some v \<Rightarrow> v) in
          if ty = Some (JStr ''tool'') \<and> json_truthy name
          then JObj [(''type'', JStr ''function''), (''function'', JObj [(''name'', name)])]
          else if ty = Some (JStr ''any'') then JStr ''required''
          else if ty \<in> {Some (JStr ''auto''), Some (JStr ''none''), Some (JStr ''required'')} then the ty
          else choice
      | _ \<Rightarrow> choice)"

definition convert_system_prompt :: "json \<Rightarrow> jdict option result" where
  "convert_system_prompt system =
     (case system of
        JStr s \<Rightarrow> Inr (Some [(''role'', JStr ''system''), (''content'', JStr s)])
      | JList blocks \<Rightarrow>
          let txts = map (\<lambda>b. block_attr_or b ''text'' (JStr [])) (filter (block_type_is ''text'') blocks) in
          if txts = [] then Inr None
          else bind_result (join_values LFLF txts) (\<lambda>t.
                 Inr (Some [(''role'', JStr ''system''), (''content'', JStr (py_strip t))]))
      | _ \<Rightarrow> Inr None)"

definition set_if_not_none :: "string \<Rightarrow> json option \<Rightarrow> jdict \<Rightarrow> jdict" where
  "set_if_not_none key v body =
     (case v of None \<Rightarrow> body | Some JNull \<Rightarrow> body | Some v \<Rightarrow> dict_set key v body)"

text \<open>\<open>max_tokens or default_max_tokens\<close>\<close>

definition int_or_default :: "int option \<Rightarrow> int option \<Rightarrow> int option" where
  "int_or_default v dflt = (case v of Some i \<Rightarrow> if i \<noteq> 0 then Some i else dflt | None \<Rightarrow> dflt)"

definition build_base_request_body ::
  "text_env \<Rightarrow> messages_request \<Rightarrow> int option \<Rightarrow> replay_mode \<Rightarrow> jdict result" where
  "build_base_request_body env rq default_max_tokens replay =
     (if rq_extra rq \<noteq> [] then Inl ConversionError
      else bind_result (convert_messages env replay (rq_messages rq)) (\<lambda>messages.
        bind_result (case rq_system rq of
                       Some system \<Rightarrow> if json_truthy system then convert_system_prompt system else Inr None
                     | None \<Rightarrow> Inr None) (\<lambda>system_msg.
          let messages = (case system_msg of Some m \<Rightarrow> m # messages | None \<Rightarrow> messages);
              body = [(''model'', JStr (rq_model rq)), (''messages'', JList (map JObj messages))];
              body = set_if_not_none ''max_tokens'' (map_option JInt (int_or_default (rq_max_tokens rq) default_max_tokens)) body;
              body = set_if_not_none ''temperature'' (rq_temperature rq) body;
              body = set_if_not_none ''top_p'' (rq_top_p rq) body;
              body = (case rq_stop_sequences rq of
                        Some ss \<Rightarrow> if ss \<noteq> [] then dict_set ''stop'' (JList (map JStr ss)) body else body
                      | None \<Rightarrow> body);
              body = (case rq_tools rq of
                        Some ts \<Rightarrow> if ts \<noteq> [] then dict_set ''tools'' (JList (convert_tools ts)) body else body
                      | None \<Rightarrow> body);
              body = (case rq_tool_choice rq of
                        Some c \<Rightarrow> if json_truthy c then dict_set ''tool_choice'' (convert_tool_choice c) body else body
                      | None \<Rightarrow> body)
          in Inr body)))"

end
