(* ===== verification/NativeRequest.thy ===== *)
theory NativeRequest
  imports OpenAiConvert ProviderErrors
begin

section \<open>Native request bodies (\<open>core/anthropic/native_messages_request.py\<close>)\<close>

text \<open>
  The dump of a validated request to a JSON body, the policy for thinking in the history, and the
  builders of the providers that speak the Messages API: the generic one, OpenRouter, Fireworks,
  Kimi, Z.ai and Wafer.  A dumped block holds its fields that are not \<open>None\<close>.  The
  exceptions are those of \<open>providers/exceptions.py\<close>; their texts are left out.
\<close>

subsection \<open>The dump\<close>

definition dump_message :: "message \<Rightarrow> json" where
  "dump_message m =
     JObj ([(''role'', JStr (msg_role m)), (''content'', msg_content m)] @
       (case msg_reasoning_content m of None \<Rightarrow> [] | Some r \<Rightarrow> [(''reasoning_content'', JStr r)]))"

definition dump_tool :: "tool_def \<Rightarrow> json" where
  "dump_tool t =
     JObj ([(''name'', JStr (td_name t))] @
       (case td_type t of None \<Rightarrow> [] | Some s \<Rightarrow> [(''type'', JStr s)]) @
       (case td_description t of None \<Rightarrow> [] | Some s \<Rightarrow> [(''description'', JStr s)]) @
       (case td_input_schema t of None \<Rightarrow> [] | Some d \<Rightarrow> [(''input_schema'', JObj d)]))"

definition dump_thinking :: "thinking_config \<Rightarrow> json" where
  "dump_thinking c =
     JObj ((case tc_enabled c of None \<Rightarrow> [] | Some b \<Rightarrow> [(''enabled'', JBool b)]) @
       (case tc_type c of None \<Rightarrow> [] | Some t \<Rightarrow> [(''type'', JStr t)]) @
       (case tc_budget_tokens c of None \<Rightarrow> [] | Some i \<Rightarrow> [(''budget_tokens'', JInt i)]))"

text \<open>\<open>_REQUEST_FIELDS\<close>, each with the value of the request, if there is one.\<close>

definition request_fields :: "messages_request \<Rightarrow> (string \<times> json option) list" where
  "request_fields rq =
    [(''model'', Some (JStr (rq_model rq))),
     (''messages'', Some (JList (map dump_message (rq_messages rq)))),
     (''system'', rq_system rq),
     (''max_tokens'', map_option JInt (rq_max_tokens rq)),
     (''stop_sequences'', map_option (\<lambda>ss. JList (map JStr ss)) (rq_stop_sequences rq)),
     (''stream'', map_option JBool (rq_stream rq)),
     (''temperature'', rq_temperature rq),
     (''top_p'', rq_top_p rq),
     (''top_k'', map_option JInt (rq_top_k rq)),
     (''metadata'', rq_metadata rq),
     (''tools'', map_option (\<lambda>ts. JList (map dump_tool ts)) (rq_tools rq)),
     (''tool_choice'', rq_tool_choice rq),
     (''thinking'', map_option dump_thinking (rq_thinking rq)),
     (''context_management'', rq_context_management rq),
     (''output_config'', rq_output_config rq),
     (''mcp_servers'', rq_mcp_servers rq),
     (''extra_body'', map_option JObj (rq_extra_body rq))]"

fun present_fields :: "(string \<times> json option) list \<Rightarrow> jdict" where
  "present_fields [] = []"
| "present_fields ((k, v) # fs) =
     (case v of None \<Rightarrow> present_fields fs | Some JNull \<Rightarrow> present_fields fs | Some v \<Rightarrow> (k, v) # present_fields fs)"

definition dump_request_fields :: "messages_request \<Rightarrow> jdict" where
  "dump_request_fields rq = present_fields (request_fields rq)"

subsection \<open>Thinking in the history\<close>

definition json_type_in :: "string set \<Rightarrow> json \<Rightarrow> bool" where
  "json_type_in tys block = (case json_get ''type'' block of Some (JStr t) \<Rightarrow> t \<in> tys | _ \<Rightarrow> False)"

definition signed :: "json \<Rightarrow> bool" where
  "signed block = (case json_get ''signature'' block of Some (JStr _) \<Rightarrow> True | _ \<Rightarrow> False)"

text \<open>The blocks the policy removes.\<close>

definition policy_removes :: "bool \<Rightarrow> json \<Rightarrow> bool" where
  "policy_removes thinking_enabled block =
     (if \<not> thinking_enabled then json_type_in {''thinking'', ''redacted_thinking''} block
      else json_type_in {''thinking''} block \<and> \<not> signed block)"

text \<open>\<open>content or ""\<close> of a list.\<close>

definition list_or_empty :: "json list \<Rightarrow> json" where
  "list_or_empty xs = (if xs = [] then JStr [] else JList xs)"

definition sanitize_message :: "(json \<Rightarrow> bool) \<Rightarrow> json \<Rightarrow> json" where
  "sanitize_message removes message =
     (case message of
        JObj d \<Rightarrow>
          if dict_get ''role'' d \<noteq> Some (JStr ''assistant'') then message
          else (case dict_get ''content'' d of
                  Some (JList content) \<Rightarrow>
                    JObj (dict_set ''content'' (list_or_empty (filter (\<lambda>b. \<not> removes b) content)) d)
                | _ \<Rightarrow> message)
      | _ \<Rightarrow> message)"

definition map_messages :: "(json \<Rightarrow> json) \<Rightarrow> json \<Rightarrow> json" where
  "map_messages f messages = (case messages of JList ms \<Rightarrow> JList (map f ms) | _ \<Rightarrow> messages)"

definition sanitize_native_messages_thinking_policy :: "json \<Rightarrow> bool \<Rightarrow> json" where
  "sanitize_native_messages_thinking_policy messages thinking_enabled =
     map_messages (sanitize_message (policy_removes thinking_enabled)) messages"

subsection \<open>The generic body\<close>

text \<open>The payload an enabled \<open>thinking\<close> field becomes.\<close>

definition thinking_payload :: "jdict \<Rightarrow> json" where
  "thinking_payload cfg =
     (let payload = [(''type'', JStr ''enabled'')] in
      JObj (case dict_get ''budget_tokens'' cfg of
              Some v \<Rightarrow> if json_int v \<noteq> None then dict_set ''budget_tokens'' v payload else payload
            | None \<Rightarrow> payload))"

definition apply_thinking :: "bool \<Rightarrow> jdict \<Rightarrow> jdict" where
  "apply_thinking thinking_enabled body =
     (case dict_get ''thinking'' body of
        None \<Rightarrow> body
      | Some cfg \<Rightarrow>
          let body = dict_del ''thinking'' body in
          (case cfg of
             JObj d \<Rightarrow> if thinking_enabled then dict_set ''thinking'' (thinking_payload d) body else body
           | _ \<Rightarrow> body))"

definition build_base_native_anthropic_request_body :: "messages_request \<Rightarrow> int \<Rightarrow> bool \<Rightarrow> jdict" where
  "build_base_native_anthropic_request_body rq default_max_tokens thinking_enabled =
     (let body = dict_del ''extra_body'' (dump_request_fields rq);
          body = apply_thinking thinking_enabled body;
          body = (if dict_has ''max_tokens'' body then body else dict_set ''max_tokens'' (JInt default_max_tokens) body)
      in case dict_get ''messages'' body of
           Some ms \<Rightarrow> dict_set ''messages'' (sanitize_native_messages_thinking_policy ms thinking_enabled) body
         | None \<Rightarrow> body)"

subsection \<open>OpenRouter\<close>

text \<open>In alphabetical order, in which the message lists them.\<close>

definition OPENROUTER_EXTRA_BODY_FORBIDDEN_KEYS :: "string list" where
  "OPENROUTER_EXTRA_BODY_FORBIDDEN_KEYS =
    [''context_management'', ''max_tokens'', ''mcp_servers'', ''messages'', ''metadata'', ''model'', ''output_config'',
     ''stop_sequences'', ''stream'', ''system'', ''temperature'', ''tool_choice'', ''tools'', ''top_k'', ''top_p'']"

text \<open>\<open>Inl\<close> is the message of the error.\<close>

definition validate_openrouter_extra_body :: "jdict \<Rightarrow> string + unit" where
  "validate_openrouter_extra_body extra =
     (let bad = filter (\<lambda>k. dict_has k extra) OPENROUTER_EXTRA_BODY_FORBIDDEN_KEYS in
      if bad = [] then Inr ()
      else Inl (''extra_body must not override canonical request fields: ['' @ py_join '', '' (map quoted bad) @ '']''))"

text \<open>\<open>body.update(extra)\<close>, \<open>d.setdefault(k, v)\<close> and \<open>d.get(k)\<close> with \<open>None\<close> as the default.\<close>

definition dict_update :: "jdict \<Rightarrow> jdict \<Rightarrow> jdict" where
  "dict_update body extra = foldl (\<lambda>d (k, v). dict_set k v d) body extra"

definition set_default :: "string \<Rightarrow> json \<Rightarrow> jdict \<Rightarrow> jdict" where
  "set_default k v d = (if dict_has k d then d else dict_set k v d)"

definition get_null :: "string \<Rightarrow> jdict \<Rightarrow> json" where
  "get_null k d = (case dict_get k d of None \<Rightarrow> JNull | Some v \<Rightarrow> v)"

definition has_text :: "json \<Rightarrow> bool" where
  "has_text b \<longleftrightarrow> json_get ''type'' b = Some (JStr ''text'') \<and> (case json_get ''text'' b of Some (JStr _) \<Rightarrow> True | _ \<Rightarrow> False)"

definition normalize_system_prompt_for_openrouter :: "json \<Rightarrow> json" where
  "normalize_system_prompt_for_openrouter system =
     (case system of
        JList blocks \<Rightarrow>
          let txts = map text_of_block (filter has_text blocks)
          in if txts \<noteq> [] then JStr (py_strip (py_join LFLF txts)) else system
      | _ \<Rightarrow> system)"

definition apply_openrouter_reasoning_policy :: "json \<Rightarrow> jdict \<Rightarrow> jdict" where
  "apply_openrouter_reasoning_policy thinking_cfg body =
     (let body = set_default ''reasoning'' (JObj [(''enabled'', JBool True)]) body in
      case dict_get ''reasoning'' body of
        Some (JObj reasoning) \<Rightarrow>
          let reasoning = set_default ''enabled'' (JBool True) reasoning;
              reasoning = (case thinking_cfg of
                             JObj cfg \<Rightarrow>
                               if json_int (get_null ''budget_tokens'' cfg) \<noteq> None
                               then set_default ''max_tokens'' (get_null ''budget_tokens'' cfg) reasoning else reasoning
                           | _ \<Rightarrow> reasoning)
          in dict_set ''reasoning'' (JObj reasoning) body
      | _ \<Rightarrow> body)"

text \<open>What follows the merge of \<open>extra_body\<close>.\<close>

definition openrouter_finish :: "bool \<Rightarrow> json \<Rightarrow> int \<Rightarrow> jdict \<Rightarrow> jdict" where
  "openrouter_finish thinking_enabled thinking_cfg default_max_tokens body =
     (let body = dict_set ''messages''
                   (sanitize_native_messages_thinking_policy (get_null ''messages'' body) thinking_enabled) body;
          body = (case dict_get ''system'' body of
                    Some system \<Rightarrow> dict_set ''system'' (normalize_system_prompt_for_openrouter system) body
                  | None \<Rightarrow> body);
          body = dict_set ''stream'' (JBool True) body;
          body = (if get_null ''max_tokens'' body = JNull then dict_set ''max_tokens'' (JInt default_max_tokens) body else body)
      in if thinking_enabled then apply_openrouter_reasoning_policy thinking_cfg body else body)"

definition build_openrouter_native_request_body :: "messages_request \<Rightarrow> bool \<Rightarrow> int \<Rightarrow> string + jdict" where
  "build_openrouter_native_request_body rq thinking_enabled default_max_tokens =
     (let dumped = dump_request_fields rq;
          extra = get_null ''extra_body'' dumped;
          dumped = dict_del ''extra_body'' dumped;
          thinking_cfg = get_null ''thinking'' dumped;
          body = dict_del ''thinking'' dumped
      in case extra of
           JObj e \<Rightarrow>
             (case (if e = [] then Inr () else validate_openrouter_extra_body e) of
                Inl msg \<Rightarrow> Inl msg
              | Inr _ \<Rightarrow> Inr (openrouter_finish thinking_enabled thinking_cfg default_max_tokens (dict_update body e)))
         | _ \<Rightarrow> Inr (openrouter_finish thinking_enabled thinking_cfg default_max_tokens body))"

subsection \<open>The builders of the providers\<close>

definition ANTHROPIC_DEFAULT_MAX_OUTPUT_TOKENS :: int where
  "ANTHROPIC_DEFAULT_MAX_OUTPUT_TOKENS = 81920"

text \<open>\<open>_is_thinking_enabled\<close> of the base provider, with its configured default.\<close>

definition is_thinking_enabled :: "bool \<Rightarrow> messages_request \<Rightarrow> bool option \<Rightarrow> bool" where
  "is_thinking_enabled config_default rq override =
     (let config_enabled = (case override of None \<Rightarrow> config_default | Some b \<Rightarrow> b);
          request_enabled =
            (case rq_thinking rq of
               None \<Rightarrow> True
             | Some thinking \<Rightarrow>
                 (case tc_enabled thinking of
                    None \<Rightarrow> tc_type thinking \<noteq> Some ''disabled''
                  | Some enabled \<Rightarrow> enabled))
      in config_enabled \<and> request_enabled)"

definition openrouter_build_request_body :: "messages_request \<Rightarrow> bool \<Rightarrow> exc + jdict" where
  "openrouter_build_request_body rq thinking_enabled =
     (case build_openrouter_native_request_body rq thinking_enabled ANTHROPIC_DEFAULT_MAX_OUTPUT_TOKENS of
        Inl msg \<Rightarrow> Inl (invalid_request_error msg None)
      | Inr body \<Rightarrow> Inr body)"

definition fireworks_build_request_body :: "messages_request \<Rightarrow> bool \<Rightarrow> exc + jdict" where
  "fireworks_build_request_body rq thinking_enabled =
     (let body = build_base_native_anthropic_request_body rq ANTHROPIC_DEFAULT_MAX_OUTPUT_TOKENS thinking_enabled in
      case rq_extra_body rq of
        None \<Rightarrow> Inr (dict_set ''stream'' (JBool True) body)
      | Some [] \<Rightarrow> Inr (dict_set ''stream'' (JBool True) body)
      | Some extra \<Rightarrow>
          (case validate_openrouter_extra_body extra of
             Inl msg \<Rightarrow> Inl (invalid_request_error msg None)
           | Inr _ \<Rightarrow> Inr (dict_set ''stream'' (JBool True) (dict_update body extra))))"

definition build_without_extra_body :: "string \<Rightarrow> messages_request \<Rightarrow> bool \<Rightarrow> exc + jdict" where
  "build_without_extra_body msg rq thinking_enabled =
     (let body = build_base_native_anthropic_request_body rq ANTHROPIC_DEFAULT_MAX_OUTPUT_TOKENS thinking_enabled in
      case rq_extra_body rq of
        Some (e # es) \<Rightarrow> Inl (invalid_request_error msg None)
      | _ \<Rightarrow> Inr (dict_set ''stream'' (JBool True) body))"

definition kimi_build_request_body :: "messages_request \<Rightarrow> bool \<Rightarrow> exc + jdict" where
  "kimi_build_request_body =
     build_without_extra_body ''Kimi native Messages API does not support extra_body on requests.''"

definition zai_build_request_body :: "messages_request \<Rightarrow> bool \<Rightarrow> exc + jdict" where
  "zai_build_request_body =
     build_without_extra_body ''Z.ai native Messages API does not support extra_body on requests.''"

definition wafer_build_request_body :: "messages_request \<Rightarrow> bool \<Rightarrow> jdict" where
  "wafer_build_request_body rq thinking_enabled =
     (let body = build_base_native_anthropic_request_body rq ANTHROPIC_DEFAULT_MAX_OUTPUT_TOKENS thinking_enabled in
      if dict_has ''thinking'' body then body
      else dict_set ''thinking'' (JObj [(''type'', JStr ''enabled'')]) body)"

subsection \<open>Lookups in the dump\<close>

definition given :: "json option \<Rightarrow> json option" where
  "given v = (if v = Some JNull then None else v)"

lemma present_fields_keys: "set (dict_keys (present_fields fs)) \<subseteq> set (map fst fs)"
  by (induction fs rule: present_fields.induct) (auto split: option.splits json.splits)

lemma present_fields_get:
  "distinct (map fst fs) \<Longrightarrow> dict_get k (present_fields fs) = (case map_of fs k of None \<Rightarrow> None | Some v \<Rightarrow> given v)"
proof (induction fs rule: present_fields.induct)
  case (2 j v fs)
  have n: "map_of fs j = None" using "2.prems" by (simp add: map_of_eq_None_iff)
  then show ?case using 2 by (cases v) (auto simp: given_def split: json.splits)
qed simp

lemma request_fields_distinct: "distinct (map fst (request_fields rq))"
  by (simp add: request_fields_def)

lemma dump_get: "dict_get k (dump_request_fields rq) = (case map_of (request_fields rq) k of None \<Rightarrow> None | Some v \<Rightarrow> given v)"
  unfolding dump_request_fields_def by (rule present_fields_get [OF request_fields_distinct])

lemma dump_gets:
  "dict_get ''messages'' (dump_request_fields rq) = Some (JList (map dump_message (rq_messages rq)))"
  "dict_get ''model'' (dump_request_fields rq) = Some (JStr (rq_model rq))"
  "dict_get ''thinking'' (dump_request_fields rq) = map_option dump_thinking (rq_thinking rq)"
  "dict_get ''extra_body'' (dump_request_fields rq) = map_option JObj (rq_extra_body rq)"
  "dict_get ''max_tokens'' (dump_request_fields rq) = map_option JInt (rq_max_tokens rq)"
  by (simp_all add: dump_get) (simp_all add: request_fields_def given_def dump_thinking_def option.case_eq_if split: option.split)

subsection \<open>The generic body\<close>

lemma apply_thinking_get: "k \<noteq> ''thinking'' \<Longrightarrow> dict_get k (apply_thinking b d) = dict_get k d"
  by (simp add: apply_thinking_def Let_def split: option.split json.split)

text \<open>What a body holds under each key.\<close>

definition body_thinking :: "messages_request \<Rightarrow> bool \<Rightarrow> json option" where
  "body_thinking rq thinking_enabled =
     (case rq_thinking rq of
        Some c \<Rightarrow>
          if thinking_enabled
          then Some (JObj ((''type'', JStr ''enabled'') #
                 (case tc_budget_tokens c of Some i \<Rightarrow> [(''budget_tokens'', JInt i)] | None \<Rightarrow> [])))
          else None
      | None \<Rightarrow> None)"

lemma thinking_payload_dump: "thinking_payload [] = JObj [(''type'', JStr ''enabled'')]"
  "dump_thinking c = JObj d \<Longrightarrow> thinking_payload d = JObj ((''type'', JStr ''enabled'') #
                 (case tc_budget_tokens c of Some i \<Rightarrow> [(''budget_tokens'', JInt i)] | None \<Rightarrow> []))"
  by (simp add: thinking_payload_def)
    (cases "tc_enabled c"; cases "tc_type c"; cases "tc_budget_tokens c";
      auto simp: dump_thinking_def thinking_payload_def dict_set_def)

lemma apply_thinking_thinking:
  assumes "dict_get ''thinking'' d = map_option dump_thinking (rq_thinking rq)"
  shows "dict_get ''thinking'' (apply_thinking b d) = body_thinking rq b"
proof (cases "rq_thinking rq")
  case None
  then show ?thesis using assms by (simp add: apply_thinking_def body_thinking_def)
next
  case (Some c)
  obtain cfg where cfg: "dump_thinking c = JObj cfg" by (simp add: dump_thinking_def)
  then show ?thesis using assms Some thinking_payload_dump(2) [OF cfg]
    by (simp add: apply_thinking_def body_thinking_def Let_def)
qed

lemma base_body_get:
  "dict_get k (build_base_native_anthropic_request_body rq dm b) =
     (if k = ''messages'' then Some (sanitize_native_messages_thinking_policy (JList (map dump_message (rq_messages rq))) b)
      else if k = ''thinking'' then body_thinking rq b
      else if k = ''extra_body'' then None
      else if k = ''max_tokens'' then Some (JInt (case rq_max_tokens rq of Some i \<Rightarrow> i | None \<Rightarrow> dm))
      else dict_get k (dump_request_fields rq))"
proof -
  let ?d = "apply_thinking b (dict_del ''extra_body'' (dump_request_fields rq))"
  let ?e = "if dict_has ''max_tokens'' ?d then ?d else dict_set ''max_tokens'' (JInt dm) ?d"
  have m: "dict_get ''messages'' ?e = Some (JList (map dump_message (rq_messages rq)))"
    by (simp add: apply_thinking_get dump_gets del: dict_has_iff)
  have t: "dict_get ''thinking'' ?d = body_thinking rq b"
    by (rule apply_thinking_thinking) (simp add: dump_gets)
  have x: "dict_get ''max_tokens'' ?d = map_option JInt (rq_max_tokens rq)"
    by (simp add: apply_thinking_get dump_gets)
  then have h: "dict_has ''max_tokens'' ?d \<longleftrightarrow> rq_max_tokens rq \<noteq> None"
    by (simp add: dict_has_def del: dict_has_iff)
  have "build_base_native_anthropic_request_body rq dm b =
      dict_set ''messages'' (sanitize_native_messages_thinking_policy (JList (map dump_message (rq_messages rq))) b) ?e"
    using m by (simp add: build_base_native_anthropic_request_body_def Let_def)
  then show ?thesis using t x h
    by (cases "rq_max_tokens rq") (simp_all add: apply_thinking_get)
qed

end
