(* ===== verification/NativeTransport.thy ===== *)
theory NativeTransport
  imports NativeSound ErrorMapping NativeRequest
begin

section \<open>The native Messages transport (\<open>providers/anthropic_messages.py\<close>)\<close>

text \<open>
  \<open>AnthropicMessagesTransport.stream_response\<close>: the request is sent with retries, the lines of the
  answer are grouped into events, the events go through the block policy, the tracker follows what
  is sent on, and an exception ends the message with an error text.  A response is what httpx
  documents of it: its status, the lines it delivers and the exception it ends with, if any.
  The client's \<open>send\<close>, the texts of httpx's own exceptions, \<open>json.loads\<close>, \<open>json.dumps\<close>, \<open>uuid4\<close> and the
  body builder (one per provider, in \<open>NativeRequest\<close>, \<open>DeepSeekRequest\<close>) are in the environment; the wait for
  a concurrency slot comes before everything below.
\<close>

datatype native_kind = SharedTransport | OpenRouterTransport

datatype chunk_mode = LineMode | EventMode

record http_response =
  hr_status :: int
  hr_lines :: "string list"
  hr_failure :: "exc option"
  hr_closed :: bool

record native_env =
  ne_kind :: native_kind
  ne_name :: string
  ne_timeout :: string
  ne_enable_thinking :: bool
  ne_build :: "messages_request \<Rightarrow> bool option \<Rightarrow> exc + jdict"
  ne_send :: "jdict \<Rightarrow> nat \<Rightarrow> exc + http_response"
  ne_status_error :: "http_response \<Rightarrow> exc"
  ne_closed_error :: exc
  ne_internal :: "py_error \<Rightarrow> exc"
  ne_dumps :: "json \<Rightarrow> string"
  ne_loads :: "string \<Rightarrow> json option"
  ne_fresh :: string

subsection \<open>Sending\<close>

text \<open>\<open>_validated_stream_send\<close>, call \<open>i\<close>: \<open>raise_for_status\<close> raises unless the status is 2xx, and a response
  other than 200 is closed in either case.\<close>

definition raise_for_status :: "native_env \<Rightarrow> http_response \<Rightarrow> exc option" where
  "raise_for_status env r =
     (if 200 \<le> hr_status r \<and> hr_status r \<le> 299 then None else Some (ne_status_error env r))"

definition validated_stream_send :: "native_env \<Rightarrow> jdict \<Rightarrow> nat \<Rightarrow> exc + http_response" where
  "validated_stream_send env body i =
     (case ne_send env body i of
        Inl e \<Rightarrow> Inl e
      | Inr r \<Rightarrow>
          if hr_status r \<noteq> 200 then
            (case raise_for_status env r of
               Some e \<Rightarrow> Inl e
             | None \<Rightarrow> Inr (r\<lparr>hr_closed := True\<rparr>))
          else Inr r)"

text \<open>\<open>_read_error_body_preview\<close>: the parts kept of the body's chunks, and whether something was cut.\<close>

fun preview_loop :: "int \<Rightarrow> int \<Rightarrow> string list \<Rightarrow> string list \<Rightarrow> string list \<times> bool" where
  "preview_loop max_bytes received parts [] = (parts, False)"
| "preview_loop max_bytes received parts (chunk # chunks) =
     (if max_bytes \<le> received then (parts, True)
      else
        let remaining = max_bytes - received;
            part = (if int (length chunk) \<le> remaining then chunk else List.take (nat remaining) chunk);
            parts = (if part \<noteq> [] then parts @ [part] else parts);
            received = received + int (length part)
        in if length part < length chunk then (parts, True)
           else if max_bytes \<le> received then (parts, False)
           else preview_loop max_bytes received parts chunks)"

definition read_error_body_preview :: "int \<Rightarrow> string list \<Rightarrow> string \<times> bool" where
  "read_error_body_preview max_bytes chunks =
     (if max_bytes \<le> 0 then ([], False)
      else let (parts, truncated) = preview_loop max_bytes 0 [] chunks in (concat parts, truncated))"

subsection \<open>Lines and events\<close>

text \<open>What \<open>aiter_lines\<close> delivers, and the exception it ends with; a closed response raises at once.\<close>

definition response_lines :: "native_env \<Rightarrow> http_response \<Rightarrow> string list \<times> exc option" where
  "response_lines env r = (if hr_closed r then ([], Some (ne_closed_error env)) else (hr_lines r, hr_failure r))"

definition iter_sse_lines :: "string list \<Rightarrow> string list" where
  "iter_sse_lines lines = map (\<lambda>line. if line \<noteq> [] then line @ [LF] else [LF]) lines"

text \<open>The loop of \<open>_iter_sse_events\<close>: the events, and the lines of the one that is not finished.\<close>

fun group_lines :: "string list \<Rightarrow> string list \<Rightarrow> string list \<times> string list" where
  "group_lines event_lines [] = ([], event_lines)"
| "group_lines event_lines (line # lines) =
     (if line \<noteq> [] then group_lines (event_lines @ [line]) lines
      else if event_lines \<noteq> [] then
        (let (events, rest) = group_lines [] lines in ((py_join [LF] event_lines @ [LF, LF]) # events, rest))
      else group_lines event_lines lines)"

definition iter_sse_events :: "string list \<Rightarrow> exc option \<Rightarrow> string list" where
  "iter_sse_events lines failure =
     (let (events, rest) = group_lines [] lines in
      if failure = None \<and> rest \<noteq> [] then events @ [py_join [LF] rest @ [LF, LF]] else events)"

text \<open>\<open>s.splitlines(keepends=True)\<close>\<close>

function py_splitlines_keep :: "string \<Rightarrow> string list" where
  "py_splitlines_keep s =
     (if s = [] then []
      else let l = takeWhile (\<lambda>c. \<not> py_break c) s; r = dropWhile (\<lambda>c. \<not> py_break c) s in
        case r of
          [] \<Rightarrow> [l]
        | c # r' \<Rightarrow>
            if c = CR \<and> prefix [LF] r' then (l @ [CR, LF]) # py_splitlines_keep (tl r')
            else (l @ [c]) # py_splitlines_keep r')"
  by pat_completeness auto

termination
proof (relation "measure length")
  fix s :: string and l r c r'
  assume "s \<noteq> []" "r = dropWhile (\<lambda>c. \<not> py_break c) s" "r = c # r'"
  then have "length (c # r') \<le> length s" using length_dropWhile_le [of "\<lambda>c. \<not> py_break c" s] by simp
  then show "(r', s) \<in> measure length" "(tl r', s) \<in> measure length" by auto
qed simp

declare py_splitlines_keep.simps [simp del]

subsection \<open>The provider's hooks\<close>

definition stream_chunk_mode :: "native_kind \<Rightarrow> chunk_mode" where
  "stream_chunk_mode k = (case k of SharedTransport \<Rightarrow> LineMode | OpenRouterTransport \<Rightarrow> EventMode)"

definition new_stream_state :: "native_kind \<Rightarrow> policy_state option" where
  "new_stream_state k =
     (case k of
        SharedTransport \<Rightarrow> if stream_chunk_mode k = LineMode then Some policy_init else None
      | OpenRouterTransport \<Rightarrow> Some policy_init)"

text \<open>\<open>_transform_stream_event\<close> of the shared transport and OpenRouter's override.\<close>

definition shared_transform ::
  "native_env \<Rightarrow> bool \<Rightarrow> string \<Rightarrow> policy_state option \<Rightarrow> string option result \<times> policy_state option" where
  "shared_transform env thinking event state =
     (case state of
        Some s \<Rightarrow> (let (r, s) = transform_native_sse_block_event (ne_dumps env) (ne_loads env) thinking event s in (r, Some s))
      | None \<Rightarrow> (Inr (Some event), None))"

definition openrouter_transform ::
  "native_env \<Rightarrow> bool \<Rightarrow> string \<Rightarrow> policy_state option \<Rightarrow> string option result \<times> policy_state option" where
  "openrouter_transform env thinking event state =
     (case state of
        None \<Rightarrow> (Inr (Some event), None)
      | Some s \<Rightarrow>
          let (name, data) = parse_native_sse_event event in
          if np_stopped s \<or> is_terminal_openrouter_done_event name data then (Inr None, Some s)
          else
            let s = (if name = Some ''message_stop'' then s\<lparr>np_stopped := True\<rparr> else s);
                (r, s) = transform_native_sse_block_event (ne_dumps env) (ne_loads env) thinking event s
            in (r, Some s))"

definition transform_stream_event ::
  "native_env \<Rightarrow> bool \<Rightarrow> string \<Rightarrow> policy_state option \<Rightarrow> string option result \<times> policy_state option" where
  "transform_stream_event env =
     (case ne_kind env of SharedTransport \<Rightarrow> shared_transform env | OpenRouterTransport \<Rightarrow> openrouter_transform env)"

definition format_error_message :: "native_kind \<Rightarrow> string \<Rightarrow> string option \<Rightarrow> string" where
  "format_error_message k base request_id =
     (case k of
        SharedTransport \<Rightarrow>
          if truthy_str request_id then base @ [LF] @ ''Request ID: '' @ the request_id else base
      | OpenRouterTransport \<Rightarrow> append_request_id base request_id)"

text \<open>\<open>_get_error_message\<close> at time \<open>now\<close>: the message, and the limiter, which a rate limit blocks.\<close>

definition get_error_message ::
  "native_env \<Rightarrow> rat \<Rightarrow> exc \<Rightarrow> string option \<Rightarrow> rate_limiter \<Rightarrow> string \<times> rate_limiter" where
  "get_error_message env now e request_id g =
     (let (mapped, g) = map_error now e g
      in (format_error_message (ne_kind env)
            (user_visible_message_for_mapped_provider_error (ne_name env) (Some (ne_timeout env)) mapped) request_id, g))"

subsection \<open>Chunks\<close>

text \<open>The transformed events, until one raises.\<close>

fun transform_events ::
  "(string \<Rightarrow> 's \<Rightarrow> string option result \<times> 's) \<Rightarrow> string list \<Rightarrow> 's \<Rightarrow> string list \<times> py_error option" where
  "transform_events f [] s = ([], None)"
| "transform_events f (e # es) s =
     (case f e s of
        (Inl x, s) \<Rightarrow> ([], Some x)
      | (Inr None, s) \<Rightarrow> transform_events f es s
      | (Inr (Some out), s) \<Rightarrow> (let (outs, x) = transform_events f es s in (out # outs, x)))"

text \<open>\<open>_iter_stream_chunks\<close>: the chunks and the exception that ends them.\<close>

definition iter_stream_chunks ::
  "native_env \<Rightarrow> http_response \<Rightarrow> policy_state option \<Rightarrow> bool \<Rightarrow> string list \<times> exc option" where
  "iter_stream_chunks env r state thinking =
     (let (lines, failure) = response_lines env r;
          (outs, x) = transform_events (transform_stream_event env thinking) (iter_sse_events lines failure) state;
          ended = (case x of Some x \<Rightarrow> Some (ne_internal env x) | None \<Rightarrow> failure)
      in if stream_chunk_mode (ne_kind env) = LineMode \<and> state \<noteq> None
         then (concat (map py_splitlines_keep outs), ended)
         else if stream_chunk_mode (ne_kind env) = LineMode then (iter_sse_lines lines, failure)
         else (outs, ended))"

text \<open>The loop that sends the chunks on: a chunk the tracker fails on is not sent.\<close>

fun send_chunks ::
  "(string \<Rightarrow> json option) \<Rightarrow> string list \<Rightarrow> tracker \<Rightarrow> string list \<times> py_error option \<times> tracker" where
  "send_chunks loads [] t = ([], None, t)"
| "send_chunks loads (c # cs) t =
     (case et_feed loads c t of
        (Some x, t) \<Rightarrow> ([], Some x, t)
      | (None, t) \<Rightarrow> (let (sent, x, t) = send_chunks loads cs t in (c # sent, x, t)))"

text \<open>\<open>iter_provider_stream_error_sse_events\<close>\<close>

definition provider_stream_error_events ::
  "string \<Rightarrow> string \<Rightarrow> json \<Rightarrow> string \<Rightarrow> bool \<Rightarrow> sse_event list" where
  "provider_stream_error_events mid model tokens msg sent_any =
     (let b = sse_init mid model tokens; (es, b') = emit_error msg b
      in (if sent_any then [] else [message_start b]) @ es @ [message_delta ''end_turn'' (JInt 1) b', message_stop])"

text \<open>The \<open>except\<close> branch.\<close>

definition native_failed ::
  "native_env \<Rightarrow> messages_request \<Rightarrow> json \<Rightarrow> string option \<Rightarrow> rat \<Rightarrow> exc \<Rightarrow> bool \<Rightarrow> tracker \<Rightarrow> rate_limiter
    \<Rightarrow> sse_event list \<times> rate_limiter" where
  "native_failed env rq tokens rid now e sent_any t g =
     (let (msg, g) = get_error_message env now e rid g
      in (if sent_any then broken_end (ne_fresh env) (rq_model rq) msg tokens t
          else provider_stream_error_events (ne_fresh env) (rq_model rq) tokens msg False, g))"

text \<open>The stream from the result of \<open>execute_with_retry\<close> on: the chunks sent on, the events of the error
  tail, the limiter.\<close>

definition native_answer ::
  "native_env \<Rightarrow> messages_request \<Rightarrow> json \<Rightarrow> string option \<Rightarrow> bool \<Rightarrow> http_response outcome2 \<Rightarrow> rat \<Rightarrow> rate_limiter
    \<Rightarrow> string list \<times> sse_event list \<times> rate_limiter" where
  "native_answer env rq tokens rid thinking outcome now g =
     (case outcome of
        Raised e \<Rightarrow> (let (tail, g) = native_failed env rq tokens rid now e False et_init g in ([], tail, g))
      | NoAttempt \<Rightarrow>
          (let (tail, g) = native_failed env rq tokens rid now (ne_internal env AssertionError) False et_init g
           in ([], tail, g))
      | Returned r \<Rightarrow>
          (let (chunks, failure) = iter_stream_chunks env r (new_stream_state (ne_kind env)) thinking;
               (sent, x, t) = send_chunks (ne_loads env) chunks et_init
           in case (case x of Some x \<Rightarrow> Some (ne_internal env x) | None \<Rightarrow> failure) of
                None \<Rightarrow> (sent, [], g)
              | Some e \<Rightarrow>
                  (let (tail, g) = native_failed env rq tokens rid now e (chunks \<noteq> []) t g in (sent, tail, g))))"

text \<open>\<open>stream_response\<close>: the texts it yields and the exception it raises; \<open>took\<close> is the time from the
  response to its end.\<close>

definition NATIVE_RETRIES :: retry_config where
  "NATIVE_RETRIES = \<lparr>rc_max_retries = 3, rc_base_delay = 2, rc_max_delay = 60\<rparr>"

definition native_stream ::
  "native_env \<Rightarrow> messages_request \<Rightarrow> json \<Rightarrow> string option \<Rightarrow> bool option \<Rightarrow> (nat \<Rightarrow> rat) \<Rightarrow> (nat \<Rightarrow> rat) \<Rightarrow> rat \<Rightarrow> rat
    \<Rightarrow> rate_limiter \<Rightarrow> (string list \<times> exc option \<times> rate_limiter) option" where
  "native_stream env rq tokens rid override dur jit took now g =
     (case ne_build env rq override of
        Inl e \<Rightarrow> Some ([], Some e, g)
      | Inr body \<Rightarrow>
          (case execute_with_retry NATIVE_RETRIES (validated_stream_send env body) dur jit now g of
             None \<Rightarrow> None
           | Some (outcome, _, t, g) \<Rightarrow>
               let thinking = is_thinking_enabled (ne_enable_thinking env) rq override;
                   (sent, tail, g) = native_answer env rq tokens rid thinking outcome (t + took) g
               in Some (sent @ map (format_sse_event (ne_dumps env)) tail, None, g)))"

end
