(* ===== verification/NativeTransportSound.thy ===== *)
theory NativeTransportSound
  imports NativeTransport
begin

section \<open>What a native transport sends its client\<close>

text \<open>
  The chunks carry exactly the events that the block policy makes of the upstream's, however lines
  are cut, and a failure ends in an accepted message: before the first chunk with the error's own
  message, after it with the tail of the tracker.  Two runs show where this fails: a comment line
  before the failure, and a failure after the message's end.
\<close>

subsection \<open>Lines\<close>

definition event_lines :: "written \<Rightarrow> string list" where
  "event_lines w = [''event: '' @ ev_event (fst w), ''data: '' @ snd w, []]"

lemma group_lines_event:
  "group_lines [] (event_lines w @ lines) =
     (let (es, rest) = group_lines [] lines in (written_text w # es, rest))"
  by (simp add: event_lines_def written_text_def format_sse_event_def split: prod.split)

lemma group_lines_partial: "[] \<notin> set partial \<Longrightarrow> group_lines pend partial = ([], pend @ partial)"
  by (induction partial arbitrary: pend) auto

lemma group_lines_events:
  "[] \<notin> set partial \<Longrightarrow> group_lines [] (concat (map event_lines ws) @ partial) = (map written_text ws, partial)"
  by (induction ws) (simp_all add: group_lines_partial group_lines_event del: group_lines.simps)

lemma iter_events_broken:
  "[] \<notin> set partial \<Longrightarrow> iter_sse_events (concat (map event_lines ws) @ partial) (Some e) = map written_text ws"
  by (simp add: iter_sse_events_def group_lines_events)

lemma iter_events_whole:
  "iter_sse_events (concat (map event_lines ws)) failure = map written_text ws"
  using group_lines_events [of "[]" ws] by (simp add: iter_sse_events_def)

lemma keep_concat: "concat (py_splitlines_keep s) = s"
proof (induction s rule: py_splitlines_keep.induct)
  case (1 s)
  let ?l = "takeWhile (\<lambda>c. \<not> py_break c) s" and ?r = "dropWhile (\<lambda>c. \<not> py_break c) s"
  have s: "?l @ ?r = s" by simp
  show ?case
  proof (cases ?r)
    case Nil
    then have "?l = s" using s by simp
    then show ?thesis
      by (subst py_splitlines_keep.simps) (simp add: Let_def Nil del: dropWhile_eq_Nil_conv takeWhile_eq_all_conv)
  next
    case (Cons c r')
    then have ne: "s \<noteq> []" by auto
    show ?thesis
    proof (cases "c = CR \<and> prefix [LF] r'")
      case True
      then have "concat (py_splitlines_keep (tl r')) = tl r'" using 1 ne Cons by simp
      moreover have "r' = LF # tl r'" using True by (cases r') auto
      moreover have "?l @ CR # r' = s" using s Cons True by simp
      ultimately have "(?l @ [CR, LF]) @ concat (py_splitlines_keep (tl r')) = s" by (metis append_Cons append_assoc append_Nil)
      then show ?thesis using ne Cons True by (subst py_splitlines_keep.simps) (simp add: Let_def)
    next
      case False
      then have "concat (py_splitlines_keep r') = r'" using 1 ne Cons by simp
      moreover have "?l @ c # r' = s" using s Cons by simp
      ultimately show ?thesis using ne Cons False by (subst py_splitlines_keep.simps) auto
    qed
  qed
qed

lemma keep_concats: "concat (concat (map py_splitlines_keep outs)) = concat outs"
  by (induction outs) (simp_all add: keep_concat)

subsection \<open>Events\<close>

lemma transform_stream_Cons:
  "transform_stream thinking (e # es) s = (Inr out, s') \<Longrightarrow>
     \<exists>o1 s1 rest. transform_payload thinking e s = (Inr o1, s1) \<and> transform_stream thinking es s1 = (Inr rest, s') \<and>
       out = frames e o1 @ rest"
  by (auto split: prod.splits sum.splits)

text \<open>OpenRouter's hook drops what follows the message's end, and an event named \<open>data\<close> or \<open>done\<close>
  that says \<open>[DONE]\<close>; up to there it does what the shared one does.\<close>

definition not_ended :: "native_kind \<Rightarrow> string list \<Rightarrow> bool" where
  "not_ended k names \<longleftrightarrow> k = OpenRouterTransport \<longrightarrow> set names \<inter> {''message_stop'', ''data'', ''done''} = {}"

lemma allocate_stopped [simp]: "np_stopped (snd (allocate_new_segment u ty st s)) = np_stopped s"
  by (simp add: allocate_new_segment_def)

lemma on_block_start_stopped [simp]: "np_stopped (snd (on_block_start thinking d s)) = np_stopped s"
  by (simp add: on_block_start_def synthetic_close_other_open_blocks_def Let_def case_prod_beta
      split: json.split option.split)

lemma on_block_delta_stopped [simp]: "np_stopped (snd (on_block_delta thinking d s)) = np_stopped s"
proof (cases "\<exists>delta u. dict_get ''delta'' d = Some (JObj delta) \<and> dict_int ''index'' d = Some u")
  case True
  then obtain delta u where du: "dict_get ''delta'' d = Some (JObj delta)" "dict_int ''index'' d = Some u" by blast
  show ?thesis
    by (cases "delta_type_to_block_kind (dict_get ''type'' delta)"; cases "dict_get u (np_by s)")
      (simp_all add: on_block_delta_def du Let_def case_prod_beta)
next
  case False
  have "on_block_delta thinking d s = (Unchanged, s)"
  proof (cases "dict_get ''delta'' d")
    case (Some j)
    then show ?thesis using False by (cases j; cases "dict_int ''index'' d") (simp_all add: on_block_delta_def)
  qed (simp add: on_block_delta_def)
  then show ?thesis by simp
qed

lemma on_block_stop_stopped [simp]: "np_stopped (snd (on_block_stop thinking d s)) = np_stopped s"
  by (simp add: on_block_stop_def split: option.split)

lemma transform_payload_stopped:
  "np_stopped (snd (transform_payload thinking e s)) = np_stopped s"
  by (simp add: transform_payload_def Let_def case_prod_beta split: json.split)

lemma transform_event_written:
  assumes "written_ok (ne_loads env) w" and "transform_payload thinking (fst w) s = (Inr out, s')"
    and "\<forall>x \<in> set (frames (fst w) out). wire_ok (ne_dumps env) (ne_loads env) x"
    and "not_ended (ne_kind env) [ev_event (fst w)]" and "\<not> np_stopped s"
  shows "transform_stream_event env thinking (written_text w) (Some s) =
    (Inr (if out = Dropped then None else Some (concat (map written_text (written_frames (ne_dumps env) w out)))), Some s')"
proof -
  have "\<forall>x \<in> set (frames (fst w) out). ev_event x \<noteq> [] \<and> one_line (ne_dumps env (ev_data x)) \<and> ne_dumps env (ev_data x) \<noteq> []"
    using assms(3) by (auto simp: wire_ok_def stripped_def)
  note t = native_text_written [OF assms(1,2) this]
  have p: "parse_native_sse_event (written_text w) = (Some (ev_event (fst w)), snd w)"
    using assms(1) parse_native_formatted [of "\<lambda>_. snd w"] by (simp add: written_ok_def written_text_def)
  show ?thesis using assms(4,5)
    by (cases "ne_kind env") (auto simp: transform_stream_event_def shared_transform_def openrouter_transform_def t p
      not_ended_def is_terminal_openrouter_done_event_def)
qed

text \<open>What the policy makes of the upstream's events, as written.\<close>

fun written_stream :: "(json \<Rightarrow> string) \<Rightarrow> bool \<Rightarrow> written list \<Rightarrow> policy_state \<Rightarrow> written list" where
  "written_stream dumps thinking [] s = []"
| "written_stream dumps thinking (w # ws) s =
     (case transform_payload thinking (fst w) s of
        (Inr r, s) \<Rightarrow> written_frames dumps w r @ written_stream dumps thinking ws s
      | (Inl x, s) \<Rightarrow> [])"

lemma written_stream_ok:
  assumes "\<forall>w \<in> set ws. written_ok loads w" and "transform_stream thinking (map fst ws) s = (Inr out, s')"
    and "\<forall>x \<in> set out. wire_ok dumps loads x"
  shows "map fst (written_stream dumps thinking ws s) = out \<and> (\<forall>w \<in> set (written_stream dumps thinking ws s). written_ok loads w)"
  using assms
proof (induction ws arbitrary: s out)
  case (Cons w ws)
  obtain o1 s1 rest where o: "transform_payload thinking (fst w) s = (Inr o1, s1)"
      "transform_stream thinking (map fst ws) s1 = (Inr rest, s')" "out = frames (fst w) o1 @ rest"
    using transform_stream_Cons [of thinking "fst w" "map fst ws" s out s'] Cons.prems(2) by auto
  have "\<forall>x \<in> set (written_frames dumps w o1). written_ok loads x"
    using Cons.prems(1,3) o(3) by (intro written_frames_ok) auto
  then show ?case using Cons.IH [OF _ o(2)] Cons.prems(1,3) o by auto
qed simp

lemma written_stream_dumped:
  "transform_stream thinking es s = (Inr out, s') \<Longrightarrow>
     map written_text (written_stream dumps thinking (map (dumped dumps) es) s) = map (format_sse_event dumps) out"
proof (induction es arbitrary: s out)
  case (Cons e es)
  obtain o1 s1 rest where o: "transform_payload thinking e s = (Inr o1, s1)"
      "transform_stream thinking es s1 = (Inr rest, s')" "out = frames e o1 @ rest"
    using transform_stream_Cons [OF Cons.prems] by blast
  have "map written_text (written_frames dumps (dumped dumps e) o1) = map (format_sse_event dumps) (frames e o1)"
    by (cases o1) (simp_all add: written_frames_def comp_def)
  then show ?case using Cons.IH [OF o(2)] o by simp
qed simp

lemma transform_events_written:
  assumes "\<forall>w \<in> set ws. written_ok (ne_loads env) w" and "transform_stream thinking (map fst ws) s = (Inr out, s')"
    and "\<forall>x \<in> set out. wire_ok (ne_dumps env) (ne_loads env) x"
    and "not_ended (ne_kind env) (event_names (map fst ws))" and "\<not> np_stopped s"
  shows "\<exists>texts. transform_events (transform_stream_event env thinking) (map written_text ws) (Some s) = (texts, None) \<and>
    concat texts = concat (map written_text (written_stream (ne_dumps env) thinking ws s))"
  using assms
proof (induction ws arbitrary: s out)
  case (Cons w ws)
  obtain o1 s1 rest where o: "transform_payload thinking (fst w) s = (Inr o1, s1)"
      "transform_stream thinking (map fst ws) s1 = (Inr rest, s')" "out = frames (fst w) o1 @ rest"
    using transform_stream_Cons [of thinking "fst w" "map fst ws" s out s'] Cons.prems(2) by auto
  have "\<not> np_stopped s1" using transform_payload_stopped [of thinking "fst w" s] o(1) Cons.prems(5) by simp
  moreover have ne: "not_ended (ne_kind env) (event_names (map fst ws))" "not_ended (ne_kind env) [ev_event (fst w)]"
    using Cons.prems(4) by (auto simp: not_ended_def event_names_def)
  ultimately obtain texts where t: "transform_events (transform_stream_event env thinking) (map written_text ws) (Some s1) = (texts, None)"
      "concat texts = concat (map written_text (written_stream (ne_dumps env) thinking ws s1))"
    using Cons.IH [OF _ o(2)] Cons.prems(1,3) o(3) by auto
  have e: "transform_stream_event env thinking (written_text w) (Some s) =
      (Inr (if o1 = Dropped then None else Some (concat (map written_text (written_frames (ne_dumps env) w o1)))), Some s1)"
    using Cons.prems(1,3,5) o(3) ne(2) by (intro transform_event_written [OF _ o(1)]) auto
  show ?case using t e o(1) by (cases "o1 = Dropped") (auto simp: written_frames_def)
qed simp

lemma policy_keeps_contract:
  assumes "repr_ok repr" and "contract_events repr a es contract_init = Inr c"
    and "transform_stream thinking es policy_init = (Inr out, s)"
  shows "\<exists>c'. contract_events repr a out contract_init = Inr c'"
  using transform_stream_inv [OF assms(1) policy_inv_init assms(2), of thinking] assms(3) by auto

lemma plain_is_kept:
  assumes n: "n \<notin> {''content_block_start'', ''content_block_delta'', ''content_block_stop''}"
  shows "transform_stream thinking es s = (Inr out, s') \<Longrightarrow> n \<in> set (event_names es) \<Longrightarrow> n \<in> set (event_names out)"
proof (induction es arbitrary: s out)
  case (Cons e es)
  obtain o1 s1 rest where o: "transform_payload thinking e s = (Inr o1, s1)" "transform_stream thinking es s1 = (Inr rest, s')"
      "out = frames e o1 @ rest"
    using transform_stream_Cons [OF Cons.prems(1)] by blast
  show ?case
  proof (cases "ev_event e = n")
    case True
    then have "frames e o1 = [e]" using o(1) n by (auto simp: transform_payload_def Let_def)
    then show ?thesis using True by (simp add: o(3) event_names_def)
  next
    case False
    then show ?thesis using Cons.IH [OF o(2)] Cons.prems(2) by (auto simp: o(3) event_names_def)
  qed
qed (simp add: event_names_def)

lemmas start_is_kept = plain_is_kept [of "''message_start''", simplified]
lemmas stop_is_kept = plain_is_kept [of "''message_stop''", simplified]

lemma send_chunks_all:
  "et_feed_all loads chunks t = (None, t') \<Longrightarrow> send_chunks loads chunks t = (chunks, None, t')"
  by (induction chunks arbitrary: t) (auto split: prod.splits option.splits)

lemma written_chunks:
  assumes ws: "\<forall>w \<in> set ws. written_ok (ne_loads env) w" "not_ended (ne_kind env) (event_names (map fst ws))"
    and out: "transform_stream thinking (map fst ws) policy_init = (Inr out, s')" "\<forall>x \<in> set out. wire_ok (ne_dumps env) (ne_loads env) x"
    and events: "iter_sse_events lines failure = map written_text ws"
  shows "\<exists>chunks. iter_stream_chunks env \<lparr>hr_status = st, hr_lines = lines, hr_failure = failure, hr_closed = False\<rparr>
      (new_stream_state (ne_kind env)) thinking = (chunks, failure) \<and>
    concat chunks = concat (map written_text (written_stream (ne_dumps env) thinking ws policy_init))"
proof -
  have "\<not> np_stopped policy_init" by (simp add: policy_init_def)
  from transform_events_written [OF ws(1) out ws(2) this] obtain texts where
    t: "transform_events (transform_stream_event env thinking) (map written_text ws) (Some policy_init) = (texts, None)"
      "concat texts = concat (map written_text (written_stream (ne_dumps env) thinking ws policy_init))"
    by blast
  moreover have "new_stream_state (ne_kind env) = Some policy_init"
    by (cases "ne_kind env") (simp_all add: new_stream_state_def stream_chunk_mode_def)
  ultimately show ?thesis
    by (cases "ne_kind env")
      (simp_all add: iter_stream_chunks_def response_lines_def events stream_chunk_mode_def keep_concats)
qed

subsection \<open>Failures\<close>

definition failure_message :: "native_env \<Rightarrow> exc \<Rightarrow> string option \<Rightarrow> string" where
  "failure_message env e rid =
     format_error_message (ne_kind env) (user_visible_message_for_mapped_provider_error (ne_name env) (Some (ne_timeout env))
       (fst (map_error 0 e demo_limiter))) rid"

lemma map_error_exc: "fst (map_error now e g) = fst (map_error now' e g')"
  by (simp add: map_error_def Let_def split: exc_class.split option.split)

lemma error_message: "fst (get_error_message env now e rid g) = failure_message env e rid"
  using map_error_exc [of now e g 0 demo_limiter]
  by (simp add: get_error_message_def failure_message_def case_prod_beta)

lemma error_message_nonempty: "fst (get_error_message env now e rid g) \<noteq> []"
  by (simp add: error_message failure_message_def format_error_message_def split: native_kind.split)


lemma error_events_contract:
  "assert_anthropic_stream_contract repr a (provider_stream_error_events mid model tokens msg False) = Inr ()"
  "content_block_delta 0 ''text_delta'' msg \<in> set (provider_stream_error_events mid model tokens msg False)"
proof -
  define b where "b = sse_init mid model tokens"
  have "\<forall>i \<in> cs_seen contract_init. i < cb_next_index (sb_blocks b)" by (simp add: contract_init_def)
  moreover have "cs_open contract_init = []" by (simp add: contract_init_def)
  ultimately obtain c where
    c: "contract_events repr a (fst (emit_error msg b)) contract_init = Inr c" "cs_open c = []" "cs_seen c \<noteq> {}"
    using contract_error_block by blast
  have es: "provider_stream_error_events mid model tokens msg False =
      [message_start b] @ fst (emit_error msg b) @ [message_delta ''end_turn'' (JInt 1) (snd (emit_error msg b)), message_stop]"
    by (simp add: provider_stream_error_events_def b_def case_prod_beta Let_def)
  have start: "contract_events repr a [message_start b] contract_init = Inr contract_init"
    by (simp add: message_start_def contract_event_def)
  have "contract_events repr a (provider_stream_error_events mid model tokens msg False) contract_init = Inr c"
    unfolding es by (simp only: contract_events_append start c(1) contract_tail_events bind_result.simps)
  moreover have "provider_stream_error_events mid model tokens msg False \<noteq> []"
    "''message_start'' \<in> set (map ev_event (provider_stream_error_events mid model tokens msg False))"
    "last (map ev_event (provider_stream_error_events mid model tokens msg False)) = ''message_stop''"
    by (simp_all add: es message_start_def message_stop_def)
  ultimately show "assert_anthropic_stream_contract repr a (provider_stream_error_events mid model tokens msg False) = Inr ()"
    using c(2,3) by (simp add: assert_anthropic_stream_contract_def)
  show "content_block_delta 0 ''text_delta'' msg \<in> set (provider_stream_error_events mid model tokens msg False)"
    by (simp add: es emit_error_def b_def sse_init_def cb_init_def cb_allocate_index_def)
qed


lemma answer_raised:
  "\<exists>tail g'. native_answer env rq tokens rid thinking (Raised e) now g = ([], tail, g') \<and>
     assert_anthropic_stream_contract repr a tail = Inr () \<and>
     content_block_delta 0 ''text_delta'' (failure_message env e rid) \<in> set tail"
proof -
  obtain m g' where m: "get_error_message env now e rid g = (m, g')" by (metis prod.exhaust)
  then have "m = failure_message env e rid" using error_message [of env now e rid g] by simp
  then show ?thesis using m by (simp add: native_answer_def native_failed_def error_events_contract)
qed

text \<open>The text and the tail of an answer that breaks off.\<close>

lemma answer_breaks:
  assumes "iter_stream_chunks env r (new_stream_state (ne_kind env)) thinking = (chunks, Some e)"
    and "et_feed_all (ne_loads env) chunks et_init = (None, t)" and "chunks \<noteq> []"
  shows "\<exists>g'. native_answer env rq tokens rid thinking (Returned r) now g =
    (chunks, broken_end (ne_fresh env) (rq_model rq) (failure_message env e rid) tokens t, g')"
proof -
  obtain m g' where m: "get_error_message env now e rid g = (m, g')" by (metis prod.exhaust)
  then have "m = failure_message env e rid" using error_message [of env now e rid g] by simp
  then show ?thesis using m assms by (simp add: native_answer_def native_failed_def send_chunks_all)
qed

lemma answer_ends:
  assumes "iter_stream_chunks env r (new_stream_state (ne_kind env)) thinking = (chunks, None)"
    and "et_feed_all (ne_loads env) chunks et_init = (None, t)"
  shows "native_answer env rq tokens rid thinking (Returned r) now g = (chunks, [], g)"
  using assms by (simp add: native_answer_def send_chunks_all)

lemma tail_shows: "content_block_delta (et_max t + 1) ''text_delta'' msg \<in> set (broken_end fresh model msg tokens t)"
  by (simp add: broken_end_def et_close_unclosed_def et_error_tail_def emit_error_def cb_allocate_index_def upd_blocks_def
      et_next_content_index_def Let_def case_prod_beta)

lemma tail_stops: "''message_stop'' \<in> set (event_names (broken_end fresh model msg tokens t))"
  by (simp add: broken_end_def et_close_unclosed_def et_error_tail_def Let_def case_prod_beta event_names_def message_stop_def)

subsection \<open>Whole answers\<close>

lemma native_answer_breaks:
  assumes repr: "repr_ok repr"
    and ws: "\<forall>w \<in> set ws. written_ok (ne_loads env) w" "not_ended (ne_kind env) (event_names (map fst ws))"
    and prefix: "contract_events repr a (map fst ws) contract_init = Inr c"
    and start: "''message_start'' \<in> set (event_names (map fst ws))"
    and out: "transform_stream thinking (map fst ws) policy_init = (Inr out, s)" "\<forall>x \<in> set out. wire_ok (ne_dumps env) (ne_loads env) x"
    and partial: "[] \<notin> set partial"
  shows "\<exists>sent t g'. native_answer env rq tokens rid thinking
      (Returned \<lparr>hr_status = 200, hr_lines = concat (map event_lines ws) @ partial,
                 hr_failure = Some e, hr_closed = False\<rparr>) now g =
      (sent, broken_end (ne_fresh env) (rq_model rq) (failure_message env e rid) tokens t, g') \<and>
    concat sent = concat (map written_text (written_stream (ne_dumps env) thinking ws policy_init)) \<and>
    assert_anthropic_stream_contract repr a
      (out @ broken_end (ne_fresh env) (rq_model rq) (failure_message env e rid) tokens t) = Inr ()"
proof -
  let ?outs = "written_stream (ne_dumps env) thinking ws policy_init"
  have outs: "map fst ?outs = out" "\<forall>w \<in> set ?outs. written_ok (ne_loads env) w"
    using written_stream_ok [OF ws(1) out] by simp_all
  obtain chunks where ch: "iter_stream_chunks env \<lparr>hr_status = 200,
        hr_lines = concat (map event_lines ws) @ partial, hr_failure = Some e, hr_closed = False\<rparr>
        (new_stream_state (ne_kind env)) thinking = (chunks, Some e)"
      "concat chunks = concat (map written_text ?outs)"
    using written_chunks [OF ws out iter_events_broken [OF partial, of ws e]] by blast
  obtain c' where c': "contract_events repr a out contract_init = Inr c'"
    using policy_keeps_contract [OF repr prefix out(1)] by blast
  have kept: "''message_start'' \<in> set (event_names out)" by (rule start_is_kept [OF out(1) start])
  obtain t where t: "et_feed_all (ne_loads env) chunks et_init = (None, t)"
      "assert_anthropic_stream_contract repr a
         (out @ broken_end (ne_fresh env) (rq_model rq) (failure_message env e rid) tokens t) = Inr ()"
    using written_error_completes [OF outs(2) ch(2), unfolded outs(1), OF kept c'] by blast
  have "?outs \<noteq> []" using kept outs(1) by (auto simp: event_names_def)
  then have "concat chunks \<noteq> []" unfolding ch(2) by (cases ?outs) (simp_all add: written_text_def format_sse_event_def)
  then have "chunks \<noteq> []" by auto
  then show ?thesis using answer_breaks [OF ch(1) t(1)] ch(2) t(2) by blast
qed

text \<open>C2. A native provider's answer that breaks off is completed.  The upstream has sent whole events, each
  in one frame with a name line and a line of its own JSON text, that have broken no rule of the contract so far and
  contain the message's start; then the connection fails, perhaps in the middle of an event.  From
  OpenRouter, whose hook drops what follows the end, the events sent so far have not ended the
  message.  The client is sent the text of exactly the events that the block policy makes of the whole events
  (what it leaves alone in the upstream's own JSON text, what it rewrites in the program's, which
  is assumed to be readable), then the stops of the dangling blocks, the error's
  message for the user and the message's end, and all of it together satisfies the stream contract.\<close>

theorem native_failure_completes:
  assumes repr: "repr_ok repr"
    and ws: "\<forall>w \<in> set ws. written_ok (ne_loads env) w" "not_ended (ne_kind env) (event_names (map fst ws))"
    and prefix: "contract_events repr a (map fst ws) contract_init = Inr c"
    and start: "''message_start'' \<in> set (event_names (map fst ws))"
    and out: "transform_stream thinking (map fst ws) policy_init = (Inr out, s)" "\<forall>x \<in> set out. wire_ok (ne_dumps env) (ne_loads env) x"
    and partial: "[] \<notin> set partial"
  shows "\<exists>sent tail g' i. native_answer env rq tokens rid thinking
      (Returned \<lparr>hr_status = 200, hr_lines = concat (map event_lines ws) @ partial,
                 hr_failure = Some e, hr_closed = False\<rparr>) now g = (sent, tail, g') \<and>
    concat sent = concat (map written_text (written_stream (ne_dumps env) thinking ws policy_init)) \<and>
    map fst (written_stream (ne_dumps env) thinking ws policy_init) = out \<and>
    assert_anthropic_stream_contract repr a (out @ tail) = Inr () \<and>
    content_block_delta i ''text_delta'' (failure_message env e rid) \<in> set tail"
  using native_answer_breaks [OF assms, of rq tokens rid e now g] written_stream_ok [OF ws(1) out] tail_shows by blast

text \<open>An answer that ends is sent as the block policy makes it, and nothing is added.\<close>

theorem native_answer_exact:
  assumes repr: "repr_ok repr"
    and ws: "\<forall>w \<in> set ws. written_ok (ne_loads env) w" "not_ended (ne_kind env) (event_names (map fst ws))"
    and prefix: "contract_events repr a (map fst ws) contract_init = Inr c"
    and out: "transform_stream thinking (map fst ws) policy_init = (Inr out, s)" "\<forall>x \<in> set out. wire_ok (ne_dumps env) (ne_loads env) x"
  shows "\<exists>sent. native_answer env rq tokens rid thinking
      (Returned \<lparr>hr_status = 200, hr_lines = concat (map event_lines ws),
                 hr_failure = None, hr_closed = False\<rparr>) now g = (sent, [], g) \<and>
    concat sent = concat (map written_text (written_stream (ne_dumps env) thinking ws policy_init))"
proof -
  let ?outs = "written_stream (ne_dumps env) thinking ws policy_init"
  have outs: "map fst ?outs = out" "\<forall>w \<in> set ?outs. written_ok (ne_loads env) w"
    using written_stream_ok [OF ws(1) out] by simp_all
  obtain chunks where ch: "iter_stream_chunks env \<lparr>hr_status = 200,
        hr_lines = concat (map event_lines ws), hr_failure = None, hr_closed = False\<rparr>
        (new_stream_state (ne_kind env)) thinking = (chunks, None)"
      "concat chunks = concat (map written_text ?outs)"
    using written_chunks [OF ws out iter_events_whole] by blast
  obtain c' where c': "contract_events repr a out contract_init = Inr c'"
    using policy_keeps_contract [OF repr prefix out(1)] by blast
  have "tracks et_init contract_init" by (simp add: tracks_def et_init_def contract_init_def)
  then obtain t where "et_observe_all out et_init = (None, t)" using observe_all_tracks [OF c'] by blast
  then have "et_feed_all (ne_loads env) chunks et_init = (None, t)"
    by (intro tracker_reads_written [OF outs(2) ch(2)]) (simp add: outs(1))
  then show ?thesis using answer_ends [OF ch(1)] ch(2) by blast
qed

text \<open>C4. A native stream always settles.  A request that cannot be built raises before anything is sent;
  otherwise at most four requests are sent, each but the last after a failure that may be tried
  again, and the client gets an accepted message in every case in which no response comes: its text is the message for
  the user of the last failure.\<close>

theorem native_stream_settles:
  assumes "limiter_ok gs t0 g" and "t0 \<le> now" and "\<forall>i. 0 \<le> dur i" and "\<forall>i. 0 \<le> jit i"
  shows "case ne_build env rq override of
     Inl e \<Rightarrow> native_stream env rq tokens rid override dur jit took now g = Some ([], Some e, g)
   | Inr body \<Rightarrow> \<exists>k g1 t g2. k \<le> 3 \<and> (\<forall>j < k. retryable (validated_stream_send env body j)) \<and>
       (retryable (validated_stream_send env body k) \<longrightarrow> k = 3) \<and>
       (case validated_stream_send env body k of
          Inl e \<Rightarrow> \<exists>tail. native_stream env rq tokens rid override dur jit took now g =
              Some (map (format_sse_event (ne_dumps env)) tail, None, g2) \<and>
            assert_anthropic_stream_contract repr a tail = Inr () \<and>
            content_block_delta 0 ''text_delta'' (failure_message env e rid) \<in> set tail
        | Inr r \<Rightarrow> \<exists>sent tail. native_stream env rq tokens rid override dur jit took now g =
              Some (sent @ map (format_sse_event (ne_dumps env)) tail, None, g2) \<and>
            native_answer env rq tokens rid (is_thinking_enabled (ne_enable_thinking env) rq override)
              (Returned r) t g1 = (sent, tail, g2))"
proof (cases "ne_build env rq override")
  case (Inr body)
  let ?send = "validated_stream_send env body"
  have b: "\<forall>i. 0 \<le> backoff_delay NATIVE_RETRIES i" by (simp add: backoff_delay_def NATIVE_RETRIES_def)
  have n: "rc_max_retries NATIVE_RETRIES < int (0 + 4)" "(0::nat) < 4" by (simp_all add: NATIVE_RETRIES_def)
  obtain k ts t g1 where r: "retry_loop NATIVE_RETRIES ?send dur jit 4 0 now g = Some (outcome_of (?send k), ts, t, g1)"
      "k < 4" "\<forall>j < k. retryable (?send j)" "\<not> retryable (?send k) \<or> rc_max_retries NATIVE_RETRIES \<le> int k"
    using retry_loop_ok [OF assms(3,4) b assms(1,2) n, of ?send] by auto
  obtain sent tail g2 where
    n: "native_answer env rq tokens rid (is_thinking_enabled (ne_enable_thinking env) rq override) (outcome_of (?send k)) (t + took) g1
      = (sent, tail, g2)"
    by (metis prod.exhaust)
  have "nat (1 + rc_max_retries NATIVE_RETRIES) = 4" by (simp add: NATIVE_RETRIES_def)
  then have "native_stream env rq tokens rid override dur jit took now g =
      Some (sent @ map (format_sse_event (ne_dumps env)) tail, None, g2)"
    by (simp add: native_stream_def execute_with_retry_def Inr r(1) n)
  moreover have "retryable (?send k) \<longrightarrow> k = 3" using r(2,4) by (auto simp: NATIVE_RETRIES_def)
  moreover have "sent = [] \<and> assert_anthropic_stream_contract repr a tail = Inr () \<and>
      content_block_delta 0 ''text_delta'' (failure_message env e rid) \<in> set tail" if "?send k = Inl e" for e
    using answer_raised [of env rq tokens rid _ e "t + took" g1 repr a] n that by (simp add: outcome_of_def) (metis prod.inject)
  ultimately have "case ?send k of
      Inl e \<Rightarrow> \<exists>tail. native_stream env rq tokens rid override dur jit took now g =
          Some (map (format_sse_event (ne_dumps env)) tail, None, g2) \<and>
        assert_anthropic_stream_contract repr a tail = Inr () \<and>
        content_block_delta 0 ''text_delta'' (failure_message env e rid) \<in> set tail
    | Inr r \<Rightarrow> \<exists>sent tail. native_stream env rq tokens rid override dur jit took now g =
          Some (sent @ map (format_sse_event (ne_dumps env)) tail, None, g2) \<and>
        native_answer env rq tokens rid (is_thinking_enabled (ne_enable_thinking env) rq override)
          (Returned r) (t + took) g1 = (sent, tail, g2)" and "retryable (?send k) \<longrightarrow> k = 3"
    using n by (auto simp: outcome_of_def split: sum.split)
  moreover have "k \<le> 3" using r(2) by simp
  ultimately show ?thesis using r(3) unfolding Inr sum.case
    by (intro exI [of _ k] exI [of _ g1] exI [of _ "t + took"] exI [of _ g2] conjI)
qed (simp add: native_stream_def)

subsection \<open>Where the repair fails\<close>

definition KEEPALIVE :: string where
  "KEEPALIVE = '': OPENROUTER PROCESSING''"

lemma keepalive_chunks:
  "iter_stream_chunks env \<lparr>hr_status = 200, hr_lines = [KEEPALIVE, []], hr_failure = Some e, hr_closed = False\<rparr>
     (new_stream_state (ne_kind env)) thinking =
   (if ne_kind env = SharedTransport then [KEEPALIVE @ [LF], [LF]] else [KEEPALIVE @ [LF, LF]], Some e)"
proof -
  have p: "parse_native_sse_event (KEEPALIVE @ [LF, LF]) = (None, [])" by code_simp
  have k: "py_splitlines_keep (KEEPALIVE @ [LF, LF]) = [KEEPALIVE @ [LF], [LF]]" by code_simp
  have i: "iter_sse_events [KEEPALIVE, []] (Some e) = [KEEPALIVE @ [LF, LF]]" by (simp add: iter_sse_events_def KEEPALIVE_def)
  have d: "\<not> is_terminal_openrouter_done_event None []" by code_simp
  show ?thesis
    by (cases "ne_kind env") (simp_all add: iter_stream_chunks_def response_lines_def i transform_stream_event_def
      shared_transform_def openrouter_transform_def transform_native_sse_block_event_def p k d new_stream_state_def
      stream_chunk_mode_def policy_init_def)
qed

lemma keepalive_tracked:
  "et_feed_all loads (if shared then [KEEPALIVE @ [LF], [LF]] else [KEEPALIVE @ [LF, LF]]) et_init = (None, et_init)"
  by (cases shared) (simp_all only: if_True if_False, code_simp+)

text \<open>C15. A comment line that the upstream sends to keep the connection open counts as an event sent: when the
  upstream fails after it and before the message starts, the client gets the tail of a message
  that was never started, which violates the stream contract.\<close>

theorem comment_then_failure:
  "\<exists>sent tail g'. native_answer env rq tokens rid thinking
      (Returned \<lparr>hr_status = 200, hr_lines = [KEEPALIVE, []], hr_failure = Some e, hr_closed = False\<rparr>) now g = (sent, tail, g') \<and>
    concat sent = KEEPALIVE @ [LF, LF] \<and> ''message_start'' \<notin> set (event_names tail) \<and>
    assert_anthropic_stream_contract repr a tail = Inl AssertionError"
proof -
  have ne: "(if ne_kind env = SharedTransport then [KEEPALIVE @ [LF], [LF]] else [KEEPALIVE @ [LF, LF]]) \<noteq> []" by simp
  let ?tail = "broken_end (ne_fresh env) (rq_model rq) (failure_message env e rid) tokens et_init"
  have "''message_start'' \<notin> set (event_names ?tail)"
    by (simp add: broken_end_def et_close_unclosed_def et_error_tail_def Let_def case_prod_beta event_names_def
        message_stop_def message_delta_def emit_error_def cb_allocate_index_def content_block_start_def
        content_block_delta_def content_block_stop_def et_init_def)
  then have "assert_anthropic_stream_contract repr a ?tail = Inl AssertionError"
    by (simp add: assert_anthropic_stream_contract_def event_names_def)
  moreover obtain g' where "native_answer env rq tokens rid thinking (Returned \<lparr>hr_status = 200, hr_lines = [KEEPALIVE, []],
      hr_failure = Some e, hr_closed = False\<rparr>) now g =
      (if ne_kind env = SharedTransport then [KEEPALIVE @ [LF], [LF]] else [KEEPALIVE @ [LF, LF]], ?tail, g')"
    using answer_breaks [OF keepalive_chunks keepalive_tracked ne] by blast
  moreover have "concat (if ne_kind env = SharedTransport then [KEEPALIVE @ [LF], [LF]] else [KEEPALIVE @ [LF, LF]]) = KEEPALIVE @ [LF, LF]"
    by simp
  ultimately show ?thesis using \<open>''message_start'' \<notin> set (event_names ?tail)\<close> by blast
qed

text \<open>A failure after the end of the message is reported all the same: the client is sent a second text
  block and a second end of a message that has already stopped.\<close>

theorem late_failure_ends_twice:
  assumes env: "ne_kind env = SharedTransport" and repr: "repr_ok repr"
    and ws: "\<forall>w \<in> set ws. written_ok (ne_loads env) w"
    and valid: "assert_anthropic_stream_contract repr a (map fst ws) = Inr ()"
    and out: "transform_stream thinking (map fst ws) policy_init = (Inr out, s)" "\<forall>x \<in> set out. wire_ok (ne_dumps env) (ne_loads env) x"
  shows "\<exists>sent tail g'. native_answer env rq tokens rid thinking
      (Returned \<lparr>hr_status = 200, hr_lines = concat (map event_lines ws),
                 hr_failure = Some e, hr_closed = False\<rparr>) now g = (sent, tail, g') \<and>
    concat sent = concat (map written_text (written_stream (ne_dumps env) thinking ws policy_init)) \<and>
    count_list (event_names (out @ tail)) ''message_stop'' \<ge> 2"
proof -
  have start: "''message_start'' \<in> set (event_names (map fst ws))" and stop: "''message_stop'' \<in> set (event_names (map fst ws))"
    and ne: "ws \<noteq> []"
    using valid last_in_set [of "map ev_event (map fst ws)"]
    by (auto simp: assert_anthropic_stream_contract_def event_names_def split: if_splits)
  obtain c where prefix: "contract_events repr a (map fst ws) contract_init = Inr c"
    using valid by (auto simp: assert_anthropic_stream_contract_def split: if_splits)
  have "\<exists>sent t g'. native_answer env rq tokens rid thinking
      (Returned \<lparr>hr_status = 200, hr_lines = concat (map event_lines ws),
                 hr_failure = Some e, hr_closed = False\<rparr>) now g =
      (sent, broken_end (ne_fresh env) (rq_model rq) (failure_message env e rid) tokens t, g') \<and>
    concat sent = concat (map written_text (written_stream (ne_dumps env) thinking ws policy_init))"
    using native_answer_breaks [OF repr ws _ prefix start out, where partial = "[]" and rq = rq and tokens = tokens and rid = rid and e = e and now = now and g = g]
    by (auto simp: not_ended_def env)
  moreover have "count_list (event_names (out @ broken_end fresh model msg tokens t)) ''message_stop'' \<ge> 2" for fresh model msg t
    using stop_is_kept [OF out(1) stop] tail_stops [of fresh model msg tokens t]
      count_list_0_iff [of "event_names out" "''message_stop''"]
      count_list_0_iff [of "event_names (broken_end fresh model msg tokens t)" "''message_stop''"]
    by (simp add: event_names_def)
  ultimately show ?thesis by blast
qed

subsection \<open>The preview of an error body\<close>

lemma preview_loop_exact:
  assumes "received = int (length (concat parts))" and "received < max_bytes"
  shows "concat (fst (preview_loop max_bytes received parts chunks)) = take (nat max_bytes) (concat parts @ concat chunks) \<and>
    (snd (preview_loop max_bytes received parts chunks) \<longrightarrow> max_bytes < int (length (concat parts @ concat chunks)))"
  using assms
proof (induction chunks arbitrary: received parts)
  case (Cons chunk chunks)
  let ?part = "if int (length chunk) \<le> max_bytes - received then chunk else take (nat (max_bytes - received)) chunk"
  let ?parts = "if ?part \<noteq> [] then parts @ [?part] else parts"
  have c: "concat ?parts = concat parts @ ?part" by simp
  have len: "received + int (length ?part) = int (length (concat ?parts))" using Cons.prems(1) by (simp add: c)
  show ?case
  proof (cases "int (length chunk) \<le> max_bytes - received")
    case True
    then have p: "?part = chunk" by simp
    show ?thesis
    proof (cases "max_bytes \<le> received + int (length chunk)")
      case full: True
      then have "nat max_bytes = length (concat parts @ chunk)" using True Cons.prems by simp
      then show ?thesis using True full Cons.prems(2) by (auto simp: Let_def)
    next
      case False
      then show ?thesis using Cons.IH [of "received + int (length chunk)" ?parts] True Cons.prems
        by (auto simp: Let_def)
    qed
  next
    case False
    then have "nat max_bytes = length (concat parts) + nat (max_bytes - received)" "nat (max_bytes - received) < length chunk"
      using Cons.prems by simp_all
    then show ?thesis using False Cons.prems by (auto simp: Let_def)
  qed
qed simp

text \<open>The preview of an error body is its first bytes, never more than asked for, and it is marked as cut
  only when it is.\<close>

theorem error_preview_exact:
  "case read_error_body_preview max_bytes chunks of (preview, truncated) \<Rightarrow>
     preview = take (nat max_bytes) (concat chunks) \<and> (if truncated then max_bytes < int (length (concat chunks)) else True)"
  using preview_loop_exact [of 0 "[]" max_bytes chunks]
  by (auto simp: read_error_body_preview_def split: prod.split)

subsection \<open>Examples\<close>

text \<open>A whole message and its JSON texts.\<close>

definition short_message :: "(sse_event \<times> string) list" where
  "short_message =
     [(\<lparr>ev_event = ''message_start'', ev_data = JObj [(''type'', JStr ''message_start'')]\<rparr>, ''{\"type\": \"message_start\"}''),
      (content_block_start 0 ''text'' [],
       ''{\"type\": \"content_block_start\", \"index\": 0, \"content_block\": {\"type\": \"text\", \"text\": \"\"}}''),
      (content_block_stop 0, ''{\"type\": \"content_block_stop\", \"index\": 0}''),
      (message_stop, ''{\"type\": \"message_stop\"}'')]"

definition short_dumps :: "json \<Rightarrow> string" where
  "short_dumps j = (case map_of (map (\<lambda>(e, t). (ev_data e, t)) short_message) j of Some t \<Rightarrow> t | None \<Rightarrow> ''{}'')"

definition short_loads :: "string \<Rightarrow> json option" where
  "short_loads s = map_of (map (\<lambda>(e, t). (t, ev_data e)) short_message) s"

definition demo_native_env :: "native_env" where
  "demo_native_env = \<lparr>ne_kind = SharedTransport, ne_name = ''KIMI'', ne_timeout = ''300'', ne_enable_thinking = True,
     ne_build = (\<lambda>_ _. Inr []), ne_send = (\<lambda>_ _. Inl too_many_requests), ne_status_error = (\<lambda>_. too_many_requests),
     ne_closed_error = plain_error OtherError ''StreamClosed'' ''closed'' None,
     ne_internal = (\<lambda>_. plain_error OtherError ''Exception'' ''internal'' None),
     ne_dumps = short_dumps, ne_loads = short_loads, ne_fresh = ''msg_0''\<rparr>"

definition demo_call :: messages_request where
  "demo_call = \<lparr>rq_model = ''kimi-k2'', rq_max_tokens = Some 64, rq_messages = [], rq_system = None, rq_stop_sequences = None,
     rq_stream = Some True, rq_temperature = None, rq_top_p = None, rq_top_k = None, rq_metadata = None, rq_tools = None,
     rq_tool_choice = None, rq_thinking = None, rq_context_management = None, rq_output_config = None, rq_mcp_servers = None,
     rq_extra_body = None, rq_extra = []\<rparr>"

lemma short_wire: "\<forall>w \<in> set short_message. written_ok short_loads w"
  by code_simp

lemma short_dumped: "\<forall>e \<in> set (map fst short_message). wire_ok short_dumps short_loads e"
  by code_simp

lemma short_transformed: "fst (transform_stream True (map fst short_message) policy_init) = Inr (map fst short_message)"
  by code_simp

lemma short_prefix_transformed:
  "fst (transform_stream True (map fst (take 2 short_message)) policy_init) = Inr (map fst (take 2 short_message))"
  by code_simp

lemma short_prefix_written: "written_stream short_dumps True (take 2 short_message) policy_init = take 2 short_message"
  by code_simp

text \<open>OpenRouter's stream breaks off inside its third event.\<close>

theorem native_failure_completes_witness:
  "let env = demo_native_env\<lparr>ne_kind := OpenRouterTransport\<rparr> in
   \<exists>sent tail g' i. native_answer env demo_call (JInt 3) None True
      (Returned \<lparr>hr_status = 200, hr_lines = concat (map event_lines (take 2 short_message)) @ [''event: con''],
                 hr_failure = Some too_many_requests, hr_closed = False\<rparr>) 0 demo_limiter = (sent, tail, g') \<and>
    concat sent = concat (map written_text (take 2 short_message)) \<and>
    assert_anthropic_stream_contract str_repr False (map fst (take 2 short_message) @ tail) = Inr () \<and>
    content_block_delta i ''text_delta'' (failure_message env too_many_requests None) \<in> set tail"
proof -
  let ?ws = "take 2 short_message" and ?env = "demo_native_env\<lparr>ne_kind := OpenRouterTransport\<rparr>"
  obtain s where t: "transform_stream True (map fst ?ws) policy_init = (Inr (map fst ?ws), s)"
    using short_prefix_transformed by (metis prod.collapse)
  have e: "ne_dumps ?env = short_dumps" "ne_loads ?env = short_loads" by (simp_all add: demo_native_env_def)
  have w: "\<forall>w \<in> set ?ws. written_ok (ne_loads ?env) w"
    using short_wire set_take_subset [of 2 short_message] unfolding e(2) by blast
  have d: "\<forall>x \<in> set (map fst ?ws). wire_ok (ne_dumps ?env) (ne_loads ?env) x"
    using short_dumped set_take_subset [of 2 short_message] unfolding e by auto
  have o: "not_ended (ne_kind ?env) (event_names (map fst ?ws))" by (simp add: not_ended_def) code_simp
  have c: "contract_events str_repr False (map fst ?ws) contract_init = Inr \<lparr>cs_open = [(0, ''text'')], cs_seen = {0}\<rparr>" by code_simp
  have st: "''message_start'' \<in> set (event_names (map fst ?ws))" by code_simp
  have p: "[] \<notin> set [''event: con'']" by simp
  from native_failure_completes [OF str_repr_ok w o c st t d p] show ?thesis
    unfolding e short_prefix_written Let_def by blast
qed

theorem late_failure_ends_twice_witness:
  "\<exists>sent tail g'. native_answer demo_native_env demo_call (JInt 3) None True
      (Returned \<lparr>hr_status = 200, hr_lines = concat (map event_lines short_message),
                 hr_failure = Some too_many_requests, hr_closed = False\<rparr>) 0 demo_limiter = (sent, tail, g') \<and>
    count_list (event_names (map fst short_message @ tail)) ''message_stop'' \<ge> 2"
proof -
  obtain s where t: "transform_stream True (map fst short_message) policy_init = (Inr (map fst short_message), s)"
    using short_transformed by (metis prod.collapse)
  have e: "ne_kind demo_native_env = SharedTransport" "ne_dumps demo_native_env = short_dumps" "ne_loads demo_native_env = short_loads"
    by (simp_all add: demo_native_env_def)
  have w: "\<forall>w \<in> set short_message. written_ok (ne_loads demo_native_env) w" using short_wire unfolding e(3) .
  have d: "\<forall>x \<in> set (map fst short_message). wire_ok (ne_dumps demo_native_env) (ne_loads demo_native_env) x"
    using short_dumped unfolding e(2,3) .
  have v: "assert_anthropic_stream_contract str_repr False (map fst short_message) = Inr ()" by code_simp
  from late_failure_ends_twice [OF e(1) str_repr_ok w v t d] show ?thesis by blast
qed

theorem native_stream_settles_witness:
  "\<exists>tail g'. native_stream demo_native_env demo_call (JInt 3) None None (\<lambda>_. 1) (\<lambda>_. 0) 1 5 demo_limiter =
     Some (map (format_sse_event short_dumps) tail, None, g') \<and> assert_anthropic_stream_contract str_repr False tail = Inr ()"
proof -
  have "limiter_ok [] 0 demo_limiter"
    by (simp add: limiter_ok_def demo_limiter_def window_count_def fresh_keeps fresh_window_def)
  from native_stream_settles [OF this, where now = 5 and dur = "\<lambda>_. 1" and jit = "\<lambda>_. 0" and env = demo_native_env
      and rq = demo_call and override = None and tokens = "JInt 3" and rid = None and took = 1 and repr = str_repr and a = False]
  show ?thesis by (auto simp: demo_native_env_def validated_stream_send_def)
qed

end
