(* ===== verification/NativeRequestSound.thy ===== *)
theory NativeRequestSound
  imports NativeRequest
begin

section \<open>Properties of the native request bodies\<close>

text \<open>
  Thinking in the history and in the request follows the switch and nothing else is touched;
  \<open>extra_body\<close> cannot override a routed field; and the switch itself: a request that asks for
  \<open>{"type": "disabled"}\<close> does not turn thinking off.
\<close>

subsection \<open>The history\<close>

definition message_blocks :: "json \<Rightarrow> json list" where
  "message_blocks m =
     (if json_get ''role'' m = Some (JStr ''assistant'')
      then (case json_get ''content'' m of Some (JList bs) \<Rightarrow> bs | _ \<Rightarrow> [])
      else [])"

definition body_messages :: "jdict \<Rightarrow> json list" where
  "body_messages body = (case dict_get ''messages'' body of Some (JList ms) \<Rightarrow> ms | _ \<Rightarrow> [])"

abbreviation is_thinking :: "json \<Rightarrow> bool" where
  "is_thinking \<equiv> json_type_in {''thinking'', ''redacted_thinking''}"

text \<open>A message without its assistant thinking blocks; the empty list is the empty string.\<close>

definition without_thinking :: "json \<Rightarrow> json" where
  "without_thinking m = sanitize_message is_thinking m"

lemma json_type_sub: "json_type_in a b \<Longrightarrow> a \<subseteq> c \<Longrightarrow> json_type_in c b"
  by (auto simp: json_type_in_def split: option.splits json.splits)

lemma policy_removes_thinking: "policy_removes b blk \<Longrightarrow> is_thinking blk"
  by (auto simp: policy_removes_def split: if_split_asm elim: json_type_sub)

lemma blocks_sanitized: "message_blocks (sanitize_message P m) = filter (\<lambda>b. \<not> P b) (message_blocks m)"
proof (cases m)
  case (JObj d)
  show ?thesis
  proof (cases "dict_get ''role'' d = Some (JStr ''assistant'')")
    case True
    show ?thesis
    proof (cases "\<exists>bs. dict_get ''content'' d = Some (JList bs)")
      case c: True
      then obtain bs where "dict_get ''content'' d = Some (JList bs)" by blast
      then show ?thesis using JObj True by (simp add: message_blocks_def sanitize_message_def list_or_empty_def)
    next
      case False
      then have "sanitize_message P m = m"
        using JObj True by (cases "dict_get ''content'' d") (simp_all add: sanitize_message_def split: json.split)
      moreover have "message_blocks m = []"
        using JObj False by (cases "dict_get ''content'' d") (simp_all add: message_blocks_def split: json.split)
      ultimately show ?thesis by simp
    qed
  qed (use JObj in \<open>simp add: message_blocks_def sanitize_message_def\<close>)
qed (simp_all add: message_blocks_def sanitize_message_def)

lemma list_or_empty_simps: "list_or_empty [] = JStr []" "list_or_empty (x # xs) = JList (x # xs)"
  by (simp_all add: list_or_empty_def)

text \<open>Removing some of the thinking does not change the message without its thinking, up to the
  form of an empty content.\<close>

definition same_but_thinking :: "json \<Rightarrow> json \<Rightarrow> bool" where
  "same_but_thinking m m' \<longleftrightarrow>
     (\<forall>k. k \<noteq> ''content'' \<longrightarrow> json_get k m' = json_get k m) \<and>
     (message_blocks m = [] \<longrightarrow> m' = m \<or> json_get ''content'' m = Some (JList [])) \<and>
     filter (\<lambda>b. \<not> is_thinking b) (message_blocks m') = filter (\<lambda>b. \<not> is_thinking b) (message_blocks m)"

lemma sanitize_same:
  assumes "\<And>b. P b \<Longrightarrow> is_thinking b"
  shows "same_but_thinking m (sanitize_message P m)"
proof -
  have "filter (\<lambda>b. \<not> is_thinking b) (filter (\<lambda>b. \<not> P b) bs) = filter (\<lambda>b. \<not> is_thinking b) bs" for bs
    using assms by (induction bs) auto
  moreover have "\<forall>k. k \<noteq> ''content'' \<longrightarrow> json_get k (sanitize_message P m) = json_get k m"
    by (cases m) (simp_all add: sanitize_message_def split: option.split json.split)
  moreover have "sanitize_message P m = m \<or> json_get ''content'' m = Some (JList [])" if "message_blocks m = []"
    using that by (cases m) (auto simp: sanitize_message_def message_blocks_def split: option.splits json.splits)
  ultimately show ?thesis by (simp add: same_but_thinking_def blocks_sanitized)
qed

lemma base_body_messages:
  "body_messages (build_base_native_anthropic_request_body rq dm b) =
     map (\<lambda>m. sanitize_message (policy_removes b) (dump_message m)) (rq_messages rq)"
  by (simp add: body_messages_def base_body_get sanitize_native_messages_thinking_policy_def map_messages_def)

lemma kept_blocks: "blk \<in> set (message_blocks (sanitize_message (policy_removes b) m)) \<Longrightarrow> \<not> policy_removes b blk"
  by (simp add: blocks_sanitized)

text \<open>The native body follows the thinking switch: switched off, it has no \<open>thinking\<close> field and no
  thinking block in its history; switched on, it has the field exactly if the request has it and every
  plain thinking block of the history is signed.  Otherwise each message is the one of the request.\<close>

theorem native_body_thinking:
  assumes "body = build_base_native_anthropic_request_body rq dm thinking_enabled"
  shows "list_all2 same_but_thinking (map dump_message (rq_messages rq)) (body_messages body) \<and>
    (if thinking_enabled
     then (dict_get ''thinking'' body \<noteq> None \<longleftrightarrow> rq_thinking rq \<noteq> None) \<and>
       (\<forall>m \<in> set (body_messages body). \<forall>b \<in> set (message_blocks m). json_type_in {''thinking''} b \<longrightarrow> signed b)
     else dict_get ''thinking'' body = None \<and>
       (\<forall>m \<in> set (body_messages body). \<forall>b \<in> set (message_blocks m). \<not> is_thinking b))"
proof -
  have "list_all2 same_but_thinking (map dump_message (rq_messages rq)) (body_messages body)"
    unfolding assms base_body_messages list_all2_conv_all_nth
    by (simp add: sanitize_same policy_removes_thinking)
  moreover have "\<forall>m \<in> set (body_messages body). \<forall>b \<in> set (message_blocks m). \<not> policy_removes thinking_enabled b"
    unfolding assms base_body_messages using kept_blocks by auto
  moreover have "dict_get ''thinking'' body = body_thinking rq thinking_enabled"
    by (simp add: assms base_body_get)
  ultimately show ?thesis by (cases thinking_enabled; cases "rq_thinking rq") (auto simp: policy_removes_def body_thinking_def)
qed

subsection \<open>The switch\<close>

text \<open>C17. The switch does not see \<open>{"type": "disabled"}\<close>: validation fills in \<open>enabled = True\<close>, and the switch
  lets \<open>enabled\<close> override the type.  Whatever type a body gives, without an \<open>enabled\<close> key of its own the
  request leaves thinking as the router or the configuration set it.\<close>

theorem disabled_type_ignored:
  assumes "thinking_config_of raw = Some cfg" and "''enabled'' \<notin> set (dict_keys raw)" and "rq_thinking rq = Some cfg"
  shows "is_thinking_enabled config_default rq override = (case override of None \<Rightarrow> config_default | Some b \<Rightarrow> b)"
proof -
  have "dict_get ''enabled'' raw = None" using assms(2) pd.lookup_None_iff [of "''enabled''" raw] by simp
  then have "tc_enabled cfg = Some True"
    using assms(1) by (auto simp: thinking_config_of_def split: option.splits json.splits)
  then show ?thesis using assms(3) by (simp add: is_thinking_enabled_def)
qed

subsection \<open>Extra fields\<close>

lemma dict_update_other: "k \<notin> set (dict_keys e) \<Longrightarrow> dict_get k (dict_update d e) = dict_get k d"
  unfolding dict_update_def by (induction e arbitrary: d) auto

lemma validated_extra:
  "validate_openrouter_extra_body e = Inr u \<longleftrightarrow> (\<forall>k \<in> set OPENROUTER_EXTRA_BODY_FORBIDDEN_KEYS. k \<notin> set (dict_keys e))"
  by (auto simp: validate_openrouter_extra_body_def Let_def filter_empty_conv)

definition agree :: "jdict \<Rightarrow> jdict \<Rightarrow> bool" where
  "agree d d' \<longleftrightarrow> (\<forall>k \<in> set OPENROUTER_EXTRA_BODY_FORBIDDEN_KEYS. dict_get k d = dict_get k d')"

lemma agree_refl: "agree d d"
  by (simp add: agree_def)

lemma agree_update: "validate_openrouter_extra_body e = Inr u \<Longrightarrow> agree (dict_update d e) d"
  by (simp add: agree_def validated_extra dict_update_other)

lemma agree_set: "agree d d' \<Longrightarrow> agree (dict_set k v d) (dict_set k v d')"
  by (simp add: agree_def)

lemma agree_get: "agree d d' \<Longrightarrow> k \<in> set OPENROUTER_EXTRA_BODY_FORBIDDEN_KEYS \<Longrightarrow> dict_get k d = dict_get k d' \<and> get_null k d = get_null k d'"
  by (simp add: agree_def get_null_def)

lemma reasoning_agree: "agree (apply_openrouter_reasoning_policy cfg d) d"
  by (auto simp: agree_def apply_openrouter_reasoning_policy_def Let_def set_default_def OPENROUTER_EXTRA_BODY_FORBIDDEN_KEYS_def
      split: option.split json.split)

lemma agree_sym: "agree d d' \<Longrightarrow> agree d' d"
  by (simp add: agree_def)

lemma agree_trans: "agree a b \<Longrightarrow> agree b c \<Longrightarrow> agree a c"
  by (simp add: agree_def)

lemma finish_agree:
  assumes "agree d d'"
  shows "agree (openrouter_finish th cfg dm d) (openrouter_finish th cfg dm d')"
proof -
  let ?m = "\<lambda>d. dict_set ''messages'' (sanitize_native_messages_thinking_policy (get_null ''messages'' d) th) d"
  let ?s = "\<lambda>d. case dict_get ''system'' d of
      Some system \<Rightarrow> dict_set ''system'' (normalize_system_prompt_for_openrouter system) d | None \<Rightarrow> d"
  let ?t = "\<lambda>d. dict_set ''stream'' (JBool True) d"
  let ?x = "\<lambda>d. if get_null ''max_tokens'' d = JNull then dict_set ''max_tokens'' (JInt dm) d else d"
  have "''messages'' \<in> set OPENROUTER_EXTRA_BODY_FORBIDDEN_KEYS" "''system'' \<in> set OPENROUTER_EXTRA_BODY_FORBIDDEN_KEYS"
    "''max_tokens'' \<in> set OPENROUTER_EXTRA_BODY_FORBIDDEN_KEYS"
    by (simp_all add: OPENROUTER_EXTRA_BODY_FORBIDDEN_KEYS_def)
  note mem = this
  have "agree (?m d) (?m d')" using agree_get [OF assms mem(1)] agree_set [OF assms] by simp
  then have "agree (?s (?m d)) (?s (?m d'))"
    using agree_get [OF \<open>agree (?m d) (?m d')\<close> mem(2)] agree_set [OF \<open>agree (?m d) (?m d')\<close>]
    by (simp del: pd.lookup_store split: option.split)
  then have "agree (?t (?s (?m d))) (?t (?s (?m d')))" by (rule agree_set)
  then have x: "agree (?x (?t (?s (?m d)))) (?x (?t (?s (?m d'))))"
    using agree_get [OF \<open>agree (?t (?s (?m d))) (?t (?s (?m d')))\<close> mem(3)] agree_set [OF \<open>agree (?t (?s (?m d))) (?t (?s (?m d')))\<close>]
    by (simp del: pd.lookup_store)
  have e: "openrouter_finish th cfg dm d =
      (if th then apply_openrouter_reasoning_policy cfg (?x (?t (?s (?m d)))) else ?x (?t (?s (?m d))))" for d
    by (simp add: openrouter_finish_def Let_def)
  show ?thesis
    unfolding e using x agree_trans [OF agree_trans [OF reasoning_agree x] agree_sym [OF reasoning_agree]] by simp
qed

lemma dump_without_extra:
  "k \<noteq> ''extra_body'' \<Longrightarrow> dict_get k (dump_request_fields (rq\<lparr>rq_extra_body := x\<rparr>)) = dict_get k (dump_request_fields rq)"
  unfolding dump_get by (simp add: request_fields_def)

text \<open>The body with and without the extra fields, and when the extra fields are refused.\<close>

lemma openrouter_extra:
  fixes rq th dm
  defines "bare \<equiv> dict_del ''thinking'' (dict_del ''extra_body'' (dump_request_fields rq))"
    and "cfg \<equiv> get_null ''thinking'' (dict_del ''extra_body'' (dump_request_fields rq))"
  shows "build_openrouter_native_request_body rq th dm =
     (case rq_extra_body rq of
        None \<Rightarrow> Inr (openrouter_finish th cfg dm bare)
      | Some e \<Rightarrow>
          (case validate_openrouter_extra_body e of
             Inl msg \<Rightarrow> Inl msg
           | Inr _ \<Rightarrow> Inr (openrouter_finish th cfg dm (dict_update bare e))))"
proof (cases "rq_extra_body rq")
  case None
  then have "get_null ''extra_body'' (dump_request_fields rq) = JNull" by (simp add: get_null_def dump_gets)
  then show ?thesis using None by (simp add: build_openrouter_native_request_body_def Let_def bare_def cfg_def)
next
  case (Some e)
  then have x: "get_null ''extra_body'' (dump_request_fields rq) = JObj e" by (simp add: get_null_def dump_gets)
  have "validate_openrouter_extra_body [] = Inr ()" by (simp add: validated_extra)
  then have "(if e = [] then Inr () else validate_openrouter_extra_body e) = validate_openrouter_extra_body e" by simp
  then show ?thesis using Some x unfolding bare_def cfg_def
    by (simp add: build_openrouter_native_request_body_def Let_def)
qed

text \<open>The fields of a request that the proxy routes, and the extra fields of a request as one dict.\<close>

definition ROUTED_FIELDS :: "string list" where
  "ROUTED_FIELDS =
    [''model'', ''messages'', ''system'', ''tools'', ''tool_choice'', ''stream'', ''max_tokens'', ''temperature'', ''top_p'',
     ''top_k'', ''metadata'', ''stop_sequences'', ''context_management'', ''output_config'', ''mcp_servers'']"

lemma routed_forbidden: "set OPENROUTER_EXTRA_BODY_FORBIDDEN_KEYS = set ROUTED_FIELDS"
  by (auto simp: OPENROUTER_EXTRA_BODY_FORBIDDEN_KEYS_def ROUTED_FIELDS_def)

definition extra_fields :: "messages_request \<Rightarrow> jdict" where
  "extra_fields rq = (case rq_extra_body rq of None \<Rightarrow> [] | Some extra \<Rightarrow> dict_update [] extra)"

definition takes_routed_field :: "messages_request \<Rightarrow> bool" where
  "takes_routed_field rq \<longleftrightarrow> list_ex (\<lambda>k. dict_has k (extra_fields rq)) ROUTED_FIELDS"

lemma dict_update_get:
  "dict_get k (dict_update d e) = (case dict_get k (dict_update [] e) of Some v \<Rightarrow> Some v | None \<Rightarrow> dict_get k d)"
  unfolding dict_update_def by (induction e rule: rev_induct) (auto simp: case_prod_beta split: option.split)

lemma dict_update_none: "dict_get k (dict_update [] e) = None \<longleftrightarrow> k \<notin> set (dict_keys e)"
proof -
  have "dict_get k (dict_update d e) = None \<longleftrightarrow> k \<notin> set (dict_keys e) \<and> dict_get k d = None" for d
  proof (induction e arbitrary: d)
    case (Cons kv e)
    have "dict_update d (kv # e) = dict_update (dict_set (fst kv) (snd kv) d) e" by (simp add: dict_update_def case_prod_beta)
    then show ?case using Cons.IH [of "dict_set (fst kv) (snd kv) d"] by (cases kv) auto
  qed (simp add: dict_update_def)
  then show ?thesis by simp
qed

lemma validated_takes:
  "rq_extra_body rq = Some e \<Longrightarrow> takes_routed_field rq \<longleftrightarrow> (\<exists>msg. validate_openrouter_extra_body e = Inl msg)"
proof -
  assume e: "rq_extra_body rq = Some e"
  have "takes_routed_field rq \<longleftrightarrow> (\<exists>k \<in> set ROUTED_FIELDS. k \<in> set (dict_keys e))"
    using dict_update_none [of _ e] pd.lookup_None_iff [of _ "dict_update [] e"]
    by (auto simp: takes_routed_field_def extra_fields_def e list_ex_iff)
  also have "\<dots> \<longleftrightarrow> (\<exists>msg. validate_openrouter_extra_body e = Inl msg)"
    using validated_extra [of e] by (cases "validate_openrouter_extra_body e") (auto simp: routed_forbidden)
  finally show ?thesis .
qed

lemma finish_other:
  "k \<notin> set ROUTED_FIELDS \<Longrightarrow> k \<noteq> ''reasoning'' \<Longrightarrow> dict_get k (openrouter_finish th cfg dm d) = dict_get k d"
  by (auto simp: ROUTED_FIELDS_def openrouter_finish_def apply_openrouter_reasoning_policy_def set_default_def Let_def
      split: option.split json.split)

text \<open>C31. \<open>extra_body\<close> of a request for OpenRouter cannot override a routed field: the request is refused as
  invalid exactly if its extra fields hold a routed one; otherwise every routed field of the body is that
  of the body built without any extra fields, and every other field but \<open>reasoning\<close>, which the policy
  completes, is the extra one where there is one.\<close>

theorem openrouter_extra_cannot_override:
  "case openrouter_build_request_body rq thinking_enabled of
     Inl e \<Rightarrow> ex_class e = InvalidRequestErrorC \<and> takes_routed_field rq
   | Inr body \<Rightarrow> \<not> takes_routed_field rq \<and>
       (\<exists>plain. openrouter_build_request_body (rq\<lparr>rq_extra_body := None\<rparr>) thinking_enabled = Inr plain \<and>
         (\<forall>k. dict_get k body =
            (if k \<in> set ROUTED_FIELDS then dict_get k plain
             else if k = ''reasoning'' then dict_get k body
             else case dict_get k (extra_fields rq) of Some v \<Rightarrow> Some v | None \<Rightarrow> dict_get k plain)))"
proof -
  let ?dm = ANTHROPIC_DEFAULT_MAX_OUTPUT_TOKENS
  let ?bare = "\<lambda>rq. dict_del ''thinking'' (dict_del ''extra_body'' (dump_request_fields rq))"
  let ?cfg = "\<lambda>rq. get_null ''thinking'' (dict_del ''extra_body'' (dump_request_fields rq))"
  let ?r = "rq\<lparr>rq_extra_body := None\<rparr>"
  let ?fin = "openrouter_finish thinking_enabled (?cfg rq) ?dm"
  have cfg: "?cfg ?r = ?cfg rq" by (simp add: get_null_def dump_without_extra)
  have same: "dict_get k (?bare rq) = dict_get k (?bare ?r)" for k by (auto simp: dump_without_extra)
  then have bare: "agree (?bare rq) (?bare ?r)" unfolding agree_def by blast
  have plain: "openrouter_build_request_body ?r thinking_enabled = Inr (?fin (?bare ?r))"
    using cfg by (simp add: openrouter_build_request_body_def openrouter_extra)
  have other: "dict_get k (?fin d) = dict_get k d" if "k \<notin> set ROUTED_FIELDS" "k \<noteq> ''reasoning''" for k d
    using finish_other [OF that] .
  have routed: "dict_get k (?fin d) = dict_get k (?fin (?bare ?r))" if "agree d (?bare ?r)" "k \<in> set ROUTED_FIELDS" for k d
    using agree_get [OF finish_agree [OF that(1)]] that(2) by (simp add: routed_forbidden)
  show ?thesis
  proof (cases "rq_extra_body rq")
    case None
    then have "openrouter_build_request_body rq thinking_enabled = Inr (?fin (?bare rq))"
      by (simp add: openrouter_build_request_body_def openrouter_extra)
    then show ?thesis using plain routed [OF bare] other same None
      by (simp add: takes_routed_field_def extra_fields_def list_ex_iff dict_has_def del: pd.lookup_remove)
  next
    case (Some e)
    show ?thesis
    proof (cases "validate_openrouter_extra_body e")
      case (Inl msg)
      then show ?thesis using Some validated_takes [OF Some]
        by (simp add: openrouter_build_request_body_def openrouter_extra invalid_request_error_def provider_error_def)
    next
      case (Inr u)
      have a: "agree (dict_update (?bare rq) e) (?bare ?r)" by (rule agree_trans [OF agree_update [OF Inr] bare])
      have b: "openrouter_build_request_body rq thinking_enabled = Inr (?fin (dict_update (?bare rq) e))"
        using Some Inr by (simp add: openrouter_build_request_body_def openrouter_extra)
      let ?d = "dict_update (?bare rq) e"
      have x: "dict_get k ?d = (case dict_get k (extra_fields rq) of Some v \<Rightarrow> Some v | None \<Rightarrow> dict_get k (?bare ?r))" for k
        unfolding dict_update_get [of k "?bare rq" e] same extra_fields_def Some by simp
      have "dict_get k (?fin ?d) =
          (if k \<in> set ROUTED_FIELDS then dict_get k (?fin (?bare ?r))
           else if k = ''reasoning'' then dict_get k (?fin ?d)
           else case dict_get k (extra_fields rq) of Some v \<Rightarrow> Some v | None \<Rightarrow> dict_get k (?fin (?bare ?r)))" for k
      proof (cases "k \<in> set ROUTED_FIELDS \<or> k = ''reasoning''")
        case True
        then show ?thesis using routed [OF a, of k] by (simp only: if_True if_False split: if_split) blast
      next
        case False
        then have k: "k \<notin> set ROUTED_FIELDS" "k \<noteq> ''reasoning''" by blast+
        show ?thesis unfolding other [OF k] x if_not_P [OF k(1)] if_not_P [OF k(2)] by (rule refl)
      qed
      moreover have "\<not> takes_routed_field rq" using validated_takes [OF Some] Inr by simp
      ultimately show ?thesis unfolding b plain sum.case by blast
    qed
  qed
qed

text \<open>Fireworks merges after the policy, and \<open>thinking\<close> is no reserved key: the extra field wins over the switch.\<close>

lemma fireworks_extra_overrides_switch:
  "rq_extra_body rq = Some [(''thinking'', v)] \<Longrightarrow>
     \<exists>body. fireworks_build_request_body rq False = Inr body \<and> dict_get ''thinking'' body = Some v"
  by (simp add: fireworks_build_request_body_def Let_def validate_openrouter_extra_body_def OPENROUTER_EXTRA_BODY_FORBIDDEN_KEYS_def
      dict_update_def)

subsection \<open>Witnesses\<close>

definition demo_disabled :: thinking_config where
  "demo_disabled = \<lparr>tc_enabled = Some True, tc_type = Some ''disabled'', tc_budget_tokens = None\<rparr>"

definition demo_native :: messages_request where
  "demo_native = \<lparr>rq_model = ''m'', rq_max_tokens = None,
     rq_messages = [\<lparr>msg_role = ''assistant'',
       msg_content = JList [JObj [(''type'', JStr ''thinking''), (''thinking'', JStr ''x'')], JObj [(''type'', JStr ''text''), (''text'', JStr ''y'')]],
       msg_reasoning_content = None\<rparr>],
     rq_system = None, rq_stop_sequences = None, rq_stream = None, rq_temperature = None, rq_top_p = None, rq_top_k = None,
     rq_metadata = None, rq_tools = None, rq_tool_choice = None, rq_thinking = Some demo_disabled, rq_context_management = None,
     rq_output_config = None, rq_mcp_servers = None, rq_extra_body = None, rq_extra = []\<rparr>"

theorem disabled_type_ignored_witness: "is_thinking_enabled True demo_native None"
  using disabled_type_ignored [of "[(''type'', JStr ''disabled'')]" demo_disabled demo_native True None]
  by (simp add: thinking_config_of_def demo_disabled_def demo_native_def)

theorem native_body_thinking_witness:
  "map message_blocks (body_messages (build_base_native_anthropic_request_body demo_native 1 True)) =
     [[JObj [(''type'', JStr ''text''), (''text'', JStr ''y'')]]] \<and>
   dict_get ''thinking'' (build_base_native_anthropic_request_body demo_native 1 True) \<noteq> None"
proof -
  let ?b = "build_base_native_anthropic_request_body demo_native 1 True"
  have t: "dict_get ''thinking'' ?b \<noteq> None"
    using native_body_thinking [OF refl, of demo_native 1 True] by (simp add: demo_native_def)
  have r: "policy_removes True (JObj [(''type'', JStr ''thinking''), (''thinking'', JStr ''x'')])"
    "\<not> policy_removes True (JObj [(''type'', JStr ''text''), (''text'', JStr ''y'')])"
    by (simp_all add: policy_removes_def json_type_in_def signed_def)
  have "map message_blocks (body_messages ?b) =
      map (\<lambda>m. filter (\<lambda>b. \<not> policy_removes True b) (message_blocks (dump_message m))) (rq_messages demo_native)"
    by (simp add: base_body_messages blocks_sanitized)
  also have "\<dots> = [[JObj [(''type'', JStr ''text''), (''text'', JStr ''y'')]]]"
  proof -
    have 1: "message_blocks (dump_message (hd (rq_messages demo_native))) =
        [JObj [(''type'', JStr ''thinking''), (''thinking'', JStr ''x'')], JObj [(''type'', JStr ''text''), (''text'', JStr ''y'')]]"
      unfolding demo_native_def dump_message_def message_blocks_def by simp
    have 2: "rq_messages demo_native = [hd (rq_messages demo_native)]" unfolding demo_native_def by simp
    show ?thesis by (subst 2) (simp only: list.map 1 filter.simps r if_True if_False not_True_eq_False not_False_eq_True)
  qed
  finally show ?thesis using t by simp
qed

end
