(* ===== verification/ConvertSound.thy ===== *)
theory ConvertSound
  imports OpenAiConvert "HOL-Library.Multiset"
begin

section \<open>Properties of the conversion\<close>

text \<open>
  What a converted conversation promises to the chat API: no tool call and no tool result is lost,
  unsupported blocks are the only errors, an answered conversation satisfies the rule that calls
  are followed at once by their results, and no text is lost, repeated or moved.
\<close>

subsection \<open>Reading messages\<close>

definition dict_role :: "jdict \<Rightarrow> string" where
  "dict_role d = (case dict_get ''role'' d of Some (JStr r) \<Rightarrow> r | _ \<Rightarrow> [])"

definition dict_calls :: "jdict \<Rightarrow> json list" where
  "dict_calls d = (case dict_get ''tool_calls'' d of Some (JList xs) \<Rightarrow> xs | _ \<Rightarrow> [])"

definition blocks_of :: "string \<Rightarrow> message \<Rightarrow> json list" where
  "blocks_of role m = (if msg_role m = role then (case msg_content m of JList bs \<Rightarrow> bs | _ \<Rightarrow> []) else [])"

definition tool_uses :: "message \<Rightarrow> json list" where
  "tool_uses m = filter (block_type_is ''tool_use'') (blocks_of ''assistant'' m)"

definition tool_results :: "message \<Rightarrow> json list" where
  "tool_results m = filter (block_type_is ''tool_result'') (blocks_of ''user'' m)"

definition known_role :: "message \<Rightarrow> bool" where
  "known_role m \<longleftrightarrow> msg_role m = ''user'' \<or> msg_role m = ''assistant''"

definition plain_message :: "jdict \<Rightarrow> bool" where
  "plain_message d \<longleftrightarrow> dict_role d \<noteq> ''tool'' \<and> dict_calls d = []"

lemma block_type_unique: "block_type_is a b \<Longrightarrow> block_type_is c b \<Longrightarrow> a = c"
  by (simp add: block_type_is_def)

lemma block_type_other: "block_type_is a b \<Longrightarrow> a \<noteq> c \<Longrightarrow> \<not> block_type_is c b"
  by (auto simp: block_type_is_def)

lemma bind_result_case: "bind_result r f = (case r of Inl e \<Rightarrow> Inl e | Inr x \<Rightarrow> f x)"
  by (cases r) auto

subsection \<open>The shape of the pieces\<close>

lemma assistant_block_calls:
  "assistant_block env r rp b = Inr (c, t, u) \<Longrightarrow> u = iter_tool_uses_in_order env [b]"
  unfolding assistant_block_def iter_tool_uses_in_order_def
  by (cases rp) (auto simp: Let_def dest: block_type_unique split: if_split_asm)

lemma iter_append: "iter_tool_uses_in_order env (a @ b) = iter_tool_uses_in_order env a @ iter_tool_uses_in_order env b"
  by (simp add: iter_tool_uses_in_order_def)

lemma assistant_blocks_calls:
  "assistant_blocks env r rp bs = Inr (c, t, u) \<Longrightarrow> u = iter_tool_uses_in_order env bs"
proof (induction bs arbitrary: c t u)
  case Nil
  then show ?case by (simp add: iter_tool_uses_in_order_def)
next
  case (Cons b bs)
  then obtain c1 t1 u1 c2 t2 u2 where "assistant_block env r rp b = Inr (c1, t1, u1)"
    "assistant_blocks env r rp bs = Inr (c2, t2, u2)" "u = u1 @ u2" by auto
  then show ?case using Cons.IH assistant_block_calls iter_append [of env "[b]" bs] by fastforce
qed

lemma convert_assistant_shape:
  assumes "convert_assistant_message env bs r rp = Inr out"
  obtains d where "out = [d]" "dict_role d = ''assistant''" "dict_calls d = iter_tool_uses_in_order env bs"
proof -
  obtain c t u s where u: "assistant_blocks env r rp bs = Inr (c, t, u)"
    and out: "(let content_str = (if s = [] \<and> u = [] then '' '' else s);
             msg = [(''role'', JStr ''assistant''), (''content'', JStr content_str)];
             msg = (if u \<noteq> [] then dict_set ''tool_calls'' (JList u) msg else msg)
         in if rp = REASONING_CONTENT
            then bind_result (case r of
                                Some r \<Rightarrow> if r \<noteq> [] then Inr r else join_values LFs t
                              | None \<Rightarrow> join_values LFs t) (\<lambda>r.
                   Inr [if r \<noteq> [] then dict_set ''reasoning_content'' (JStr r) msg else msg])
            else Inr [msg]) = Inr out"
    using assms by (auto simp: convert_assistant_message_def)
  have "u = iter_tool_uses_in_order env bs" by (rule assistant_blocks_calls [OF u])
  moreover have "\<exists>d. out = [d] \<and> dict_role d = ''assistant'' \<and> dict_calls d = u"
    using out unfolding Let_def bind_result_case
    by (simp add: dict_role_def dict_calls_def split: if_split_asm sum.split_asm) auto
  ultimately show thesis using that by blast
qed

lemma deferred_shape:
  assumes "deferred_post_tool_to_messages env p = Inr out" and "filter (block_type_is ''tool_use'') (pa_deferred_blocks p) = []"
  shows "\<forall>d \<in> set out. dict_role d = ''assistant'' \<and> dict_calls d = []"
proof (cases "pa_deferred_blocks p = []")
  case False
  then have "convert_assistant_message env (pa_deferred_blocks p) (pa_top_level_reasoning p) (pa_reasoning_replay p) = Inr out"
    using assms(1) by (simp add: deferred_post_tool_to_messages_def)
  then show ?thesis using assms(2) by (elim convert_assistant_shape) (simp add: iter_tool_uses_in_order_def)
qed (use assms in \<open>simp add: deferred_post_tool_to_messages_def\<close>)

lemma flush_shape:
  assumes "flush_text ts = Inr out"
  shows "\<forall>d \<in> set out. dict_role d = ''user'' \<and> dict_calls d = []"
  using assms by (auto simp: flush_text_def dict_role_def dict_calls_def split: if_split_asm)

lemma tool_message_shape: "dict_role (tool_message env b) = ''tool''" "dict_calls (tool_message env b) = []"
  by (simp_all add: tool_message_def dict_role_def dict_calls_def)

definition no_tool_use :: "pending_after_tools option \<Rightarrow> bool" where
  "no_tool_use pending \<longleftrightarrow>
     (case pending of None \<Rightarrow> True | Some p \<Rightarrow> filter (block_type_is ''tool_use'') (pa_deferred_blocks p) = [])"

subsection \<open>No call and no result is lost\<close>

definition calls_in :: "jdict list \<Rightarrow> json list" where
  "calls_in out = concat (map dict_calls out)"

definition results_in :: "jdict list \<Rightarrow> jdict list" where
  "results_in out = filter (\<lambda>d. dict_role d = ''tool'') out"

lemma in_simps [simp]:
  "calls_in (a @ b) = calls_in a @ calls_in b" "calls_in [] = []" "calls_in (d # b) = dict_calls d @ calls_in b"
  "results_in (a @ b) = results_in a @ results_in b" "results_in [] = []"
  "results_in (d # b) = (if dict_role d = ''tool'' then d # results_in b else results_in b)"
  by (simp_all add: calls_in_def results_in_def)

lemma plain_in:
  assumes "\<forall>d \<in> set out. dict_role d = r \<and> dict_calls d = []" and "r \<noteq> ''tool''"
  shows "calls_in out = [] \<and> results_in out = []"
  using assms by (induction out) auto

lemma deferred_in:
  assumes "deferred_post_tool_to_messages env p = Inr out" and "filter (block_type_is ''tool_use'') (pa_deferred_blocks p) = []"
  shows "calls_in out = [] \<and> results_in out = []"
  by (rule plain_in [OF deferred_shape [OF assms]]) simp

lemma flush_in: "flush_text ts = Inr out \<Longrightarrow> calls_in out = [] \<and> results_in out = []"
  by (rule plain_in [OF flush_shape]) simp_all

lemma split_shape:
  assumes "convert_assistant_message_with_split env bs i r rp = Inr (out, fresh)" and "index_first_tool_use bs = Some i"
  shows "(\<exists>d. out = [d] \<and> dict_role d = ''assistant'' \<and> dict_calls d = iter_tool_uses_in_order env bs) \<and>
    (case fresh of
       None \<Rightarrow> deferred_post_tool_blocks bs i = []
     | Some p \<Rightarrow> deferred_post_tool_blocks bs i \<noteq> [] \<and>
         p = \<lparr>pa_remaining_tool_ids = awaited_ids env (iter_tool_uses_in_order env bs),
              pa_deferred_blocks = deferred_post_tool_blocks bs i, pa_top_level_reasoning = r,
              pa_reasoning_replay = rp, pa_deferred_emitted = False\<rparr>)"
proof -
  have "filter (block_type_is ''tool_use'') bs \<noteq> []"
    using assms(2) by (induction bs arbitrary: i) (auto split: if_split_asm)
  then have calls: "iter_tool_uses_in_order env bs \<noteq> []" by (simp add: iter_tool_uses_in_order_def)
  obtain pre where pre: "dict_role pre = ''assistant''"
    and out: "out = [let m = dict_set ''tool_calls'' (JList (iter_tool_uses_in_order env bs)) pre in
        if dict_get ''content'' m = Some (JStr '' '') then dict_set ''content'' (JStr []) m else m]"
    and fresh: "fresh = (if deferred_post_tool_blocks bs i = [] then None
        else Some \<lparr>pa_remaining_tool_ids = awaited_ids env (iter_tool_uses_in_order env bs),
              pa_deferred_blocks = deferred_post_tool_blocks bs i, pa_top_level_reasoning = r,
              pa_reasoning_replay = rp, pa_deferred_emitted = False\<rparr>)"
  proof (cases "take i bs = []")
    case True
    let ?base = "[(''role'', JStr ''assistant''), (''content'', JStr [])]"
    let ?pre = "if rp = REASONING_CONTENT \<and> truthy_str r then dict_set ''reasoning_content'' (JStr (the r)) ?base else ?base"
    have "dict_role ?pre = ''assistant''" by (simp add: dict_role_def)
    then show thesis using assms(1) calls True
      by (intro that [of ?pre]) (simp_all add: convert_assistant_message_with_split_def Let_def del: take_eq_Nil)
  next
    case False
    then obtain o1 where o1: "convert_assistant_message env (take i bs) r rp = Inr o1"
      using assms(1) calls by (auto simp: convert_assistant_message_with_split_def Let_def)
    obtain d where d: "o1 = [d]" "dict_role d = ''assistant''" by (rule convert_assistant_shape [OF o1])
    then show thesis using assms(1) calls o1 False that
      by (simp add: convert_assistant_message_with_split_def Let_def)
  qed
  have "dict_role (dict_set ''tool_calls'' v pre) = ''assistant''"
    "dict_role (dict_set ''content'' w (dict_set ''tool_calls'' v pre)) = ''assistant''" for v w
    using pre by (simp_all add: dict_role_def)
  moreover have "dict_calls (dict_set ''tool_calls'' (JList xs) pre) = xs"
    "dict_calls (dict_set ''content'' w (dict_set ''tool_calls'' (JList xs) pre)) = xs" for xs w
    by (simp_all add: dict_calls_def)
  ultimately show ?thesis using out fresh by (simp add: Let_def)
qed

lemma deferred_no_tool_use: "filter (block_type_is ''tool_use'') (deferred_post_tool_blocks bs i) = []"
  by (simp add: deferred_post_tool_blocks_def filter_empty_conv)

lemma user_blocks_in:
  "user_blocks env bs ts = Inr out \<Longrightarrow>
     calls_in out = [] \<and> results_in out = map (tool_message env) (filter (block_type_is ''tool_result'') bs)"
proof (induction env bs ts arbitrary: out rule: user_blocks.induct)
  case (1 env ts)
  then show ?case using flush_in by simp
next
  case (2 env b bs ts)
  consider "block_type_is ''text'' b" | "block_type_is ''image'' b" | "block_type_is ''tool_result'' b"
    | "\<not> block_type_is ''text'' b" "\<not> block_type_is ''image'' b" "\<not> block_type_is ''tool_result'' b" by blast
  then show ?case
  proof cases
    case 1
    then show ?thesis using 2 block_type_other [OF 1, of "''tool_result''"] by simp
  next
    case 2
    then show ?thesis using "2.prems" block_type_other [OF 2, of "''text''"] by simp
  next
    case 3
    then have n: "\<not> block_type_is ''text'' b" "\<not> block_type_is ''image'' b" by (auto dest: block_type_unique)
    then obtain f r where fr: "flush_text ts = Inr f" "user_blocks env bs [] = Inr r" "out = f @ [tool_message env b] @ r"
      using 3 "2.prems" by auto
    then show ?thesis using "2.IH"(2) [OF n 3] flush_in [OF fr(1)] 3 by (simp add: tool_message_shape)
  next
    case 4
    then show ?thesis using 2 by simp
  qed
qed

lemma inject_blocks_in:
  "inject_blocks env bs ts p cl = Inr (out, p', cl') \<Longrightarrow> filter (block_type_is ''tool_use'') (pa_deferred_blocks p) = [] \<Longrightarrow>
     calls_in out = [] \<and> results_in out = map (tool_message env) (filter (block_type_is ''tool_result'') bs) \<and>
     pa_deferred_blocks p' = pa_deferred_blocks p"
proof (induction bs arbitrary: ts p cl out)
  case Nil
  then show ?case using flush_in by auto
next
  case (Cons b bs)
  consider "block_type_is ''text'' b" | "block_type_is ''image'' b" | "block_type_is ''tool_result'' b"
    | "\<not> block_type_is ''text'' b" "\<not> block_type_is ''image'' b" "\<not> block_type_is ''tool_result'' b" by blast
  then show ?case
  proof cases
    case 1
    then show ?thesis using Cons block_type_other [OF 1, of "''tool_result''"] by simp
  next
    case 2
    then show ?thesis using Cons.prems block_type_other [OF 2, of "''text''"] by simp
  next
    case 3
    then have n: "\<not> block_type_is ''text'' b" "\<not> block_type_is ''image'' b" by (auto dest: block_type_unique)
    let ?p = "p\<lparr>pa_remaining_tool_ids := pa_remaining_tool_ids p - {result_id env b}\<rparr>"
    obtain f where f: "flush_text ts = Inr f" using Cons.prems(1) 3 n by (auto simp: Let_def)
    show ?thesis
    proof (cases "pa_remaining_tool_ids ?p = {}")
      case True
      then obtain d r where "deferred_post_tool_to_messages env ?p = Inr d"
        "inject_blocks env bs [] (?p\<lparr>pa_deferred_emitted := True\<rparr>) True = Inr (r, p', cl')"
        "out = f @ [tool_message env b] @ d @ r"
        using Cons.prems(1) 3 n f by (auto simp: Let_def)
      then show ?thesis using Cons.IH [of "[]" "?p\<lparr>pa_deferred_emitted := True\<rparr>" True r] Cons.prems(2) 3
          flush_in [OF f] deferred_in [of env ?p d] by (simp add: tool_message_shape)
    next
      case False
      then obtain r where "inject_blocks env bs [] ?p cl = Inr (r, p', cl')" "out = f @ [tool_message env b] @ r"
        using Cons.prems(1) 3 n f by (auto simp: Let_def)
      then show ?thesis using Cons.IH [of "[]" ?p cl r] Cons.prems(2) 3 flush_in [OF f] by (simp add: tool_message_shape)
    qed
  next
    case 4
    then show ?thesis using Cons by simp
  qed
qed

lemma replay_deferred_in:
  assumes "replay_deferred env pending = Inr (out, pending')" and "no_tool_use pending"
  shows "calls_in out = [] \<and> results_in out = [] \<and> no_tool_use pending'"
proof (cases "waits pending")
  case True
  then obtain p where p: "pending = Some p" by (auto simp: waits_def split: option.splits)
  then show ?thesis using assms True deferred_in [of env p out]
    by (auto simp: replay_deferred_def no_tool_use_def)
qed (use assms in \<open>auto simp: replay_deferred_def no_tool_use_def\<close>)

lemma assistant_list_in:
  assumes "convert_assistant_list env rp bs r pending = Inr (out, pending')" and "no_tool_use pending"
  shows "calls_in out = map (tool_call env) (filter (block_type_is ''tool_use'') bs) \<and> results_in out = [] \<and> no_tool_use pending'"
proof (cases "index_first_tool_use bs")
  case None
  then have "convert_assistant_message env bs r rp = Inr out" "pending' = pending"
    using assms(1) by (auto simp: convert_assistant_list_def)
  then show ?thesis using assms(2) by (elim convert_assistant_shape) (simp add: iter_tool_uses_in_order_def)
next
  case (Some i)
  then obtain fresh where "convert_assistant_message_with_split env bs i r rp = Inr (out, fresh)"
    "pending' = (case fresh of None \<Rightarrow> pending | Some p \<Rightarrow> Some p)"
    using assms(1) by (auto simp: convert_assistant_list_def)
  then show ?thesis using split_shape [OF _ Some] assms(2) deferred_no_tool_use [of bs i]
    by (fastforce simp: iter_tool_uses_in_order_def no_tool_use_def split: option.splits)
qed

lemma user_list_in:
  assumes "convert_user_list env bs pending = Inr (out, pending')" and "no_tool_use pending"
  shows "calls_in out = [] \<and> results_in out = map (tool_message env) (filter (block_type_is ''tool_result'') bs) \<and> no_tool_use pending'"
proof (cases "waits pending")
  case False
  then show ?thesis using assms user_blocks_in [of env bs "[]"]
    by (auto simp: convert_user_list_def convert_user_message_def)
next
  case True
  then obtain p where p: "pending = Some p" "needs_deferred p" by (auto simp: waits_def split: option.splits)
  show ?thesis
  proof (cases "pa_remaining_tool_ids p = {}")
    case e: True
    then obtain o1 p1 o2 where o: "replay_deferred env pending = Inr (o1, p1)" "user_blocks env bs [] = Inr o2"
      "out = o1 @ o2" "pending' = p1"
      using assms(1) True p by (auto simp: convert_user_list_def convert_user_message_def)
    show ?thesis using replay_deferred_in [OF o(1) assms(2)] user_blocks_in [OF o(2)] o(3,4) by simp
  next
    case False
    then obtain p' cl where "inject_blocks env bs [] p False = Inr (out, p', cl)" "pending' = (if cl then None else Some p')"
      using assms(1) True p by (auto simp: convert_user_list_def convert_user_message_with_injection_def)
    then show ?thesis using inject_blocks_in [of env bs "[]" p False out p' cl] assms(2) p(1) by (auto simp: no_tool_use_def)
  qed
qed

lemma text_message_shape:
  "dict_role (convert_text_message rp role c r) = role" "dict_calls (convert_text_message rp role c r) = []"
  by (simp_all add: convert_text_message_def Let_def dict_role_def dict_calls_def split: replay_mode.split)

text \<open>The three forms of content.\<close>

lemma convert_step_cases:
  assumes "convert_step env rp m pending = Inr (out, pending')" and "known_role m"
  obtains (assistant) bs o1 p1 o2 where "msg_content m = JList bs" "msg_role m = ''assistant''"
      "replay_deferred env pending = Inr (o1, p1)"
      "convert_assistant_list env rp bs (clean_reasoning_content (msg_reasoning_content m)) p1 = Inr (o2, pending')"
      "out = o1 @ o2"
  | (user) bs where "msg_content m = JList bs" "msg_role m = ''user''" "convert_user_list env bs pending = Inr (out, pending')"
  | (other) o1 d where "\<And>bs. msg_content m \<noteq> JList bs"
      "(if msg_role m = ''user'' then replay_deferred env pending else Inr ([], pending)) = Inr (o1, pending')"
      "out = o1 @ [d]" "dict_role d = msg_role m" "dict_calls d = []"
proof -
  note finish = that(3)
  have other: thesis if n: "\<And>bs. msg_content m \<noteq> JList bs"
  proof -
    obtain d where "dict_role d = msg_role m" "dict_calls d = []"
      "convert_step env rp m pending =
         bind_result (if msg_role m = ''user'' then replay_deferred env pending else Inr ([], pending)) (\<lambda>(out, pending).
            Inr (out @ [d], pending))"
    proof (cases "\<exists>c. msg_content m = JStr c")
      case True
      then obtain c where "msg_content m = JStr c" by blast
      then show thesis
        by (intro that [of "convert_text_message rp (msg_role m) c (clean_reasoning_content (msg_reasoning_content m))"])
          (simp_all add: convert_step_def Let_def text_message_shape)
    next
      case False
      then show thesis using n
        by (intro that [of "[(''role'', JStr (msg_role m)), (''content'', JStr (te_repr env (msg_content m)))]"])
          (simp_all add: convert_step_def Let_def dict_role_def dict_calls_def split: json.split)
    qed
    moreover obtain o1 p1 where
      "(if msg_role m = ''user'' then replay_deferred env pending else Inr ([], pending)) = Inr (o1, p1)"
      using assms(1) calculation by (cases "if msg_role m = ''user'' then replay_deferred env pending else Inr ([], pending)") auto
    ultimately show thesis using assms(1) finish [OF n] by simp
  qed
  show thesis
  proof (cases "\<exists>bs. msg_content m = JList bs")
    case True
    then obtain bs where bs: "msg_content m = JList bs" by blast
    show thesis
    proof (cases "msg_role m = ''assistant''")
      case True
      then show thesis using assms(1) bs that(1) by (auto simp: convert_step_def Let_def)
    next
      case False
      then have "msg_role m = ''user''" using assms(2) by (simp add: known_role_def)
      then show thesis using assms(1) bs that(2) by (simp add: convert_step_def Let_def)
    qed
  qed (use other in blast)
qed

lemma no_blocks: "(\<And>bs. msg_content m \<noteq> JList bs) \<Longrightarrow> blocks_of role m = []"
  unfolding blocks_of_def by (cases "msg_content m") (simp, simp, simp, simp, simp, blast, simp)

lemma convert_step_in:
  assumes "convert_step env rp m pending = Inr (out, pending')" and "known_role m" and "no_tool_use pending"
  shows "calls_in out = map (tool_call env) (tool_uses m) \<and> results_in out = map (tool_message env) (tool_results m) \<and>
    no_tool_use pending'"
proof (rule convert_step_cases [OF assms(1,2)])
  fix bs o1 p1 o2
  assume assistant: "msg_content m = JList bs" "msg_role m = ''assistant''" "replay_deferred env pending = Inr (o1, p1)"
      "convert_assistant_list env rp bs (clean_reasoning_content (msg_reasoning_content m)) p1 = Inr (o2, pending')"
      "out = o1 @ o2"
  show ?thesis using replay_deferred_in [OF assistant(3) assms(3)] assistant_list_in [OF assistant(4)] assistant(1,2,5)
    by (simp add: tool_uses_def tool_results_def blocks_of_def)
next
  fix bs
  assume user: "msg_content m = JList bs" "msg_role m = ''user''" "convert_user_list env bs pending = Inr (out, pending')"
  show ?thesis using user_list_in [OF user(3) assms(3)] user(1,2) by (simp add: tool_uses_def tool_results_def blocks_of_def)
next
  fix o1 d
  assume other: "\<And>bs. msg_content m \<noteq> JList bs"
      "(if msg_role m = ''user'' then replay_deferred env pending else Inr ([], pending)) = Inr (o1, pending')"
      "out = o1 @ [d]" "dict_role d = msg_role m" "dict_calls d = []"
  have "calls_in o1 = [] \<and> results_in o1 = [] \<and> no_tool_use pending'"
  proof (cases "msg_role m = ''user''")
    case True
    then show ?thesis using other(2) replay_deferred_in [OF _ assms(3)] by simp
  next
    case False
    then show ?thesis using other(2) assms(3) by simp
  qed
  moreover have "tool_uses m = []" "tool_results m = []"
    using no_blocks [OF other(1)] by (simp_all add: tool_uses_def tool_results_def)
  moreover have "msg_role m \<noteq> ''tool''" using assms(2) unfolding known_role_def by (elim disjE) simp_all
  ultimately show ?thesis using other(3-5) by simp
qed

lemma convert_loop_in:
  "convert_loop env rp ms pending = Inr out \<Longrightarrow> \<forall>m \<in> set ms. known_role m \<Longrightarrow> no_tool_use pending \<Longrightarrow>
     calls_in out = concat (map (\<lambda>m. map (tool_call env) (tool_uses m)) ms) \<and>
     results_in out = concat (map (\<lambda>m. map (tool_message env) (tool_results m)) ms)"
proof (induction ms arbitrary: pending out)
  case Nil
  then show ?case using replay_deferred_in by auto
next
  case (Cons m ms)
  then obtain o1 p1 o2 where o: "convert_step env rp m pending = Inr (o1, p1)" "convert_loop env rp ms p1 = Inr o2" "out = o1 @ o2"
    by auto
  have "calls_in o1 = map (tool_call env) (tool_uses m) \<and> results_in o1 = map (tool_message env) (tool_results m) \<and> no_tool_use p1"
    using convert_step_in [OF o(1)] Cons.prems(2,3) by simp
  then show ?case using Cons.IH [OF o(2)] Cons.prems(2) o(3) by simp
qed

text \<open>C20. The conversion loses, adds and reorders no tool call and no tool result: the calls of the
  converted assistant messages are those of the assistant messages, in order, and the tool messages
  are those of the users' results, in order, wherever deferred text had to be put between them.\<close>

theorem conversion_keeps_tools:
  assumes "convert_messages env replay ms = Inr out" and "\<forall>m \<in> set ms. known_role m"
  shows "concat (map dict_calls out) = concat (map (\<lambda>m. map (tool_call env) (tool_uses m)) ms) \<and>
    filter (\<lambda>d. dict_role d = ''tool'') out = concat (map (\<lambda>m. map (tool_message env) (tool_results m)) ms)"
  using convert_loop_in [of env replay ms None out] assms
  by (simp add: convert_messages_def no_tool_use_def calls_in_def results_in_def)

subsection \<open>The only error is an unsupported block\<close>

text \<open>What pydantic has validated: the texts of text and thinking blocks are strings.\<close>

definition has_string :: "string \<Rightarrow> json \<Rightarrow> bool" where
  "has_string k b = (case get_block_attr b k of Some (JStr _) \<Rightarrow> True | _ \<Rightarrow> False)"

definition typed_block :: "json \<Rightarrow> bool" where
  "typed_block b \<longleftrightarrow>
     (block_type_is ''text'' b \<longrightarrow> has_string ''text'' b) \<and> (block_type_is ''thinking'' b \<longrightarrow> has_string ''thinking'' b)"

definition typed_message :: "message \<Rightarrow> bool" where
  "typed_message m \<longleftrightarrow> known_role m \<and>
     (case msg_content m of JStr _ \<Rightarrow> True | JList bs \<Rightarrow> list_all typed_block bs | _ \<Rightarrow> False)"

definition forbidden :: "json \<Rightarrow> bool" where
  "forbidden b \<longleftrightarrow> list_ex (\<lambda>ty. block_type_is ty b)
     [''image'', ''server_tool_use'', ''web_search_tool_result'', ''web_fetch_tool_result'']"

definition unsupported :: "message \<Rightarrow> bool" where
  "unsupported m \<longleftrightarrow> list_ex forbidden (blocks_of ''assistant'' m) \<or> list_ex (block_type_is ''image'') (blocks_of ''user'' m)"

definition fails_if :: "bool \<Rightarrow> 'a result \<Rightarrow> bool" where
  "fails_if b r \<longleftrightarrow> (if b then r = Inl ConversionError else \<exists>x. r = Inr x)"

lemma assert_forbidden: "assert_no_forbidden_assistant_block b = (if forbidden b then Inl ConversionError else Inr ())"
  by (simp add: assert_no_forbidden_assistant_block_def forbidden_def)

lemma assert_none: "assert_none_forbidden bs = (if list_ex forbidden bs then Inl ConversionError else Inr ())"
  by (induction bs) (simp_all add: assert_forbidden)

lemma all_strings_append:
  "all_strings (xs @ ys) = (case all_strings xs of None \<Rightarrow> None | Some a \<Rightarrow> map_option ((@) a) (all_strings ys))"
  by (induction xs rule: all_strings.induct) (auto simp: map_option_case split: option.splits)

definition strings :: "json list \<Rightarrow> bool" where
  "strings xs \<longleftrightarrow> all_strings xs \<noteq> None"

lemma strings_simps [simp]:
  "strings []" "strings (JStr s # xs) \<longleftrightarrow> strings xs" "strings (xs @ ys) \<longleftrightarrow> strings xs \<and> strings ys"
  by (auto simp: strings_def all_strings_append split: option.split)

lemma join_strings: "strings xs \<Longrightarrow> \<exists>s. join_values sep xs = Inr s"
  by (auto simp: strings_def join_values_def)

lemma has_string_attr: "has_string k b \<Longrightarrow> \<exists>s. block_attr_or b k d = JStr s"
  by (auto simp: has_string_def block_attr_or_def split: option.splits json.splits)

lemma forbidden_other: "block_type_is ty b \<Longrightarrow> ty \<notin> {''image'', ''server_tool_use'', ''web_search_tool_result'', ''web_fetch_tool_result''} \<Longrightarrow> \<not> forbidden b"
  by (auto simp: forbidden_def dest: block_type_unique)

lemma assistant_block_total:
  assumes "typed_block b"
  shows "if forbidden b then assistant_block env r rp b = Inl ConversionError
    else \<exists>c t u. assistant_block env r rp b = Inr (c, t, u) \<and> strings c \<and> strings t"
proof -
  consider (words) "block_type_is ''text'' b" | (thinking) "block_type_is ''thinking'' b"
    | (redacted) "block_type_is ''redacted_thinking'' b" | (tool) "block_type_is ''tool_use'' b"
    | (rest) "\<not> block_type_is ''text'' b" "\<not> block_type_is ''thinking'' b" "\<not> block_type_is ''redacted_thinking'' b"
        "\<not> block_type_is ''tool_use'' b" by blast
  then show ?thesis
  proof cases
    case words
    then obtain s where "block_attr_or b ''text'' (JStr []) = JStr s"
      using assms has_string_attr [of "''text''" b "JStr []"] unfolding typed_block_def by blast
    then show ?thesis using words forbidden_other [OF words] by (simp add: assistant_block_def)
  next
    case thinking
    then obtain s where "block_attr_or b ''thinking'' (JStr []) = JStr s"
      using assms has_string_attr [of "''thinking''" b "JStr []"] unfolding typed_block_def by blast
    then show ?thesis using thinking forbidden_other [OF thinking] block_type_other [OF thinking, of "''text''"]
      by (cases rp) (simp_all add: assistant_block_def Let_def)
  next
    case redacted
    then show ?thesis using forbidden_other [OF redacted] block_type_other [OF redacted, of "''text''"]
        block_type_other [OF redacted, of "''thinking''"]
      by (simp add: assistant_block_def)
  next
    case tool
    then show ?thesis using forbidden_other [OF tool] block_type_other [OF tool, of "''text''"]
        block_type_other [OF tool, of "''thinking''"] block_type_other [OF tool, of "''redacted_thinking''"]
      by (simp add: assistant_block_def)
  next
    case rest
    then show ?thesis by (simp add: assistant_block_def assert_forbidden)
  qed
qed

lemma assistant_blocks_total:
  "list_all typed_block bs \<Longrightarrow> if list_ex forbidden bs then assistant_blocks env r rp bs = Inl ConversionError
    else \<exists>c t u. assistant_blocks env r rp bs = Inr (c, t, u) \<and> strings c \<and> strings t"
proof (induction bs)
  case (Cons b bs)
  then have IH: "if list_ex forbidden bs then assistant_blocks env r rp bs = Inl ConversionError
    else \<exists>c t u. assistant_blocks env r rp bs = Inr (c, t, u) \<and> strings c \<and> strings t" by simp
  have b: "if forbidden b then assistant_block env r rp b = Inl ConversionError
    else \<exists>c t u. assistant_block env r rp b = Inr (c, t, u) \<and> strings c \<and> strings t"
    by (rule assistant_block_total) (use Cons.prems in simp)
  show ?case
  proof (cases "forbidden b")
    case True
    then show ?thesis using b by simp
  next
    case False
    then obtain c t u where "assistant_block env r rp b = Inr (c, t, u)" "strings c" "strings t" using b by auto
    then show ?thesis using IH False by (cases "list_ex forbidden bs") auto
  qed
qed simp

lemma convert_assistant_total:
  assumes "list_all typed_block bs"
  shows "fails_if (list_ex forbidden bs) (convert_assistant_message env bs r rp)"
proof (cases "list_ex forbidden bs")
  case True
  then show ?thesis using assistant_blocks_total [OF assms, of env r rp] by (simp add: fails_if_def convert_assistant_message_def)
next
  case False
  then obtain c t u where "assistant_blocks env r rp bs = Inr (c, t, u)" "strings c" "strings t"
    using assistant_blocks_total [OF assms, of env r rp] by auto
  moreover obtain s where "join_values LFLF c = Inr s" using join_strings [OF calculation(2)] by blast
  moreover obtain s' where "join_values LFs t = Inr s'" using join_strings [OF calculation(3)] by blast
  ultimately show ?thesis using False
    by (cases r) (simp_all add: fails_if_def convert_assistant_message_def Let_def)
qed

definition good_pending :: "pending_after_tools option \<Rightarrow> bool" where
  "good_pending pending \<longleftrightarrow>
     (case pending of None \<Rightarrow> True | Some p \<Rightarrow> list_all typed_block (pa_deferred_blocks p) \<and> \<not> list_ex forbidden (pa_deferred_blocks p))"

lemma deferred_total: "good_pending (Some p) \<Longrightarrow> \<exists>out. deferred_post_tool_to_messages env p = Inr out"
  using convert_assistant_total [of "pa_deferred_blocks p" env "pa_top_level_reasoning p" "pa_reasoning_replay p"]
  by (simp add: good_pending_def deferred_post_tool_to_messages_def fails_if_def)

lemma flush_total: "strings ts \<Longrightarrow> \<exists>out. flush_text ts = Inr out"
  using join_strings [of ts LFs] by (auto simp: flush_text_def)

lemma user_blocks_total:
  "list_all typed_block bs \<Longrightarrow> strings ts \<Longrightarrow> fails_if (list_ex (block_type_is ''image'') bs) (user_blocks env bs ts)"
proof (induction bs arbitrary: ts)
  case Nil
  then show ?case using flush_total [of ts] by (simp add: fails_if_def)
next
  case (Cons b bs)
  obtain f where f: "flush_text ts = Inr f" using flush_total Cons.prems(2) by blast
  consider (words) "block_type_is ''text'' b" | (image) "block_type_is ''image'' b" | (answer) "block_type_is ''tool_result'' b"
    | (rest) "\<not> block_type_is ''text'' b" "\<not> block_type_is ''image'' b" "\<not> block_type_is ''tool_result'' b" by blast
  then show ?case
  proof cases
    case words
    then obtain s where "block_attr_or b ''text'' (JStr []) = JStr s"
      using Cons.prems(1) has_string_attr [of "''text''" b "JStr []"] by (auto simp: typed_block_def)
    then show ?thesis using words Cons block_type_other [OF words, of "''image''"] by simp
  next
    case image
    then show ?thesis using block_type_other [OF image, of "''text''"] by (simp add: fails_if_def)
  next
    case answer
    have "fails_if (list_ex (block_type_is ''image'') bs) (user_blocks env bs [])" using Cons by simp
    then show ?thesis using answer f block_type_other [OF answer, of "''text''"] block_type_other [OF answer, of "''image''"]
      by (cases "list_ex (block_type_is ''image'') bs") (auto simp: fails_if_def)
  next
    case rest
    then show ?thesis using Cons by simp
  qed
qed

lemma inject_blocks_total:
  "list_all typed_block bs \<Longrightarrow> strings ts \<Longrightarrow> good_pending (Some p) \<Longrightarrow>
     if list_ex (block_type_is ''image'') bs then inject_blocks env bs ts p cl = Inl ConversionError
     else \<exists>out p' cl'. inject_blocks env bs ts p cl = Inr (out, p', cl') \<and> good_pending (Some p')"
proof (induction bs arbitrary: ts p cl)
  case Nil
  then show ?case using flush_total [of ts] by auto
next
  case (Cons b bs)
  obtain f where f: "flush_text ts = Inr f" using flush_total Cons.prems(2) by blast
  consider (words) "block_type_is ''text'' b" | (image) "block_type_is ''image'' b" | (answer) "block_type_is ''tool_result'' b"
    | (rest) "\<not> block_type_is ''text'' b" "\<not> block_type_is ''image'' b" "\<not> block_type_is ''tool_result'' b" by blast
  then show ?case
  proof cases
    case words
    then obtain s where "block_attr_or b ''text'' (JStr []) = JStr s"
      using Cons.prems(1) has_string_attr [of "''text''" b "JStr []"] by (auto simp: typed_block_def)
    then show ?thesis using words Cons.prems block_type_other [OF words, of "''image''"]
        Cons.IH [of "ts @ [JStr s]" p cl] by auto
  next
    case image
    then show ?thesis using block_type_other [OF image, of "''text''"] by simp
  next
    case answer
    have n: "\<not> block_type_is ''text'' b" "\<not> block_type_is ''image'' b"
      using block_type_other [OF answer, of "''text''"] block_type_other [OF answer, of "''image''"] by simp_all
    let ?p = "p\<lparr>pa_remaining_tool_ids := pa_remaining_tool_ids p - {result_id env b}\<rparr>"
    have g: "good_pending (Some ?p)" "good_pending (Some (?p\<lparr>pa_deferred_emitted := True\<rparr>))"
      using Cons.prems(3) by (simp_all add: good_pending_def)
    obtain d where d: "deferred_post_tool_to_messages env ?p = Inr d" using deferred_total [OF g(1)] by blast
    show ?thesis
    proof (cases "list_ex (block_type_is ''image'') bs")
      case True
      then show ?thesis using Cons.IH [of "[]" ?p cl] Cons.IH [of "[]" "?p\<lparr>pa_deferred_emitted := True\<rparr>" True] Cons.prems g n answer f d
        by (simp add: Let_def)
    next
      case False
      obtain o1 p1 c1 where 1: "inject_blocks env bs [] ?p cl = Inr (o1, p1, c1)" "good_pending (Some p1)"
        using Cons.IH [of "[]" ?p cl] Cons.prems(1) g(1) False by auto
      obtain o2 p2 c2 where 2: "inject_blocks env bs [] (?p\<lparr>pa_deferred_emitted := True\<rparr>) True = Inr (o2, p2, c2)" "good_pending (Some p2)"
        using Cons.IH [of "[]" "?p\<lparr>pa_deferred_emitted := True\<rparr>" True] Cons.prems(1) g(2) False by auto
      show ?thesis using False n answer f d 1 2 by (simp add: Let_def)
    qed
  next
    case rest
    then show ?thesis using Cons.IH [of ts p cl] Cons.prems by (cases "list_ex (block_type_is ''image'') bs") auto
  qed
qed

lemma replay_deferred_total:
  assumes "good_pending pending"
  shows "\<exists>out pending'. replay_deferred env pending = Inr (out, pending') \<and> good_pending pending'"
proof (cases "waits pending")
  case True
  then obtain p where p: "pending = Some p" by (auto simp: waits_def split: option.splits)
  then obtain out where "deferred_post_tool_to_messages env p = Inr out" using deferred_total assms by blast
  then show ?thesis using True p by (simp add: replay_deferred_def good_pending_def)
qed (use assms in \<open>simp add: replay_deferred_def\<close>)

definition step_total :: "bool \<Rightarrow> (jdict list \<times> pending_after_tools option) result \<Rightarrow> bool" where
  "step_total b r \<longleftrightarrow> (if b then r = Inl ConversionError else \<exists>out pending'. r = Inr (out, pending') \<and> good_pending pending')"

lemma filter_not_forbidden: "list_ex forbidden (filter (\<lambda>b. \<not> block_type_is ''tool_use'' b) bs) = list_ex forbidden bs"
  by (induction bs) (auto simp: forbidden_def dest: block_type_unique)

lemma list_ex_sub: "set xs \<subseteq> set ys \<Longrightarrow> \<not> list_ex P ys \<Longrightarrow> \<not> list_ex P xs"
  by (auto simp: list_ex_iff)

lemma list_all_sub: "set xs \<subseteq> set ys \<Longrightarrow> list_all P ys \<Longrightarrow> list_all P xs"
  by (auto simp: list_all_iff)

lemma deferred_sub: "set (deferred_post_tool_blocks bs i) \<subseteq> set bs"
  by (auto simp: deferred_post_tool_blocks_def dest: in_set_dropD)

lemma assistant_list_total:
  assumes "list_all typed_block bs" and "good_pending pending"
  shows "step_total (list_ex forbidden bs) (convert_assistant_list env rp bs r pending)"
proof (cases "index_first_tool_use bs")
  case None
  then show ?thesis using convert_assistant_total [OF assms(1), of env r rp] assms(2)
    by (cases "list_ex forbidden bs") (auto simp: step_total_def fails_if_def convert_assistant_list_def assert_none)
next
  case (Some i)
  show ?thesis
  proof (cases "list_ex forbidden bs")
    case True
    then show ?thesis by (simp add: step_total_def convert_assistant_list_def Some assert_none filter_not_forbidden)
  next
    case False
    have pre: "fails_if (list_ex forbidden (take i bs)) (convert_assistant_message env (take i bs) r rp)"
      by (rule convert_assistant_total [OF list_all_sub [OF set_take_subset assms(1)]])
    have all: "fails_if (list_ex forbidden bs) (convert_assistant_message env bs r rp)"
      by (rule convert_assistant_total [OF assms(1)])
    have "\<exists>out fresh. convert_assistant_message_with_split env bs i r rp = Inr (out, fresh)"
      using pre all list_ex_sub [OF set_take_subset False, of i] False
      by (auto simp: convert_assistant_message_with_split_def fails_if_def Let_def bind_result_case split: sum.splits)
    then obtain out fresh where s: "convert_assistant_message_with_split env bs i r rp = Inr (out, fresh)" by blast
    have "good_pending (case fresh of None \<Rightarrow> pending | Some p \<Rightarrow> Some p)"
      using split_shape [OF s Some] assms(2) list_all_sub [OF deferred_sub assms(1)] list_ex_sub [OF deferred_sub False]
      by (auto simp: good_pending_def split: option.splits)
    then show ?thesis using False s
      by (simp add: step_total_def convert_assistant_list_def Some assert_none filter_not_forbidden)
  qed
qed

lemma user_list_total:
  assumes "list_all typed_block bs" and "good_pending pending"
  shows "step_total (list_ex (block_type_is ''image'') bs) (convert_user_list env bs pending)"
proof -
  have u: "fails_if (list_ex (block_type_is ''image'') bs) (user_blocks env bs [])"
    by (rule user_blocks_total [OF assms(1)]) simp
  show ?thesis
  proof (cases "waits pending")
    case False
    then show ?thesis using u assms(2)
      by (cases "list_ex (block_type_is ''image'') bs")
        (auto simp: step_total_def fails_if_def convert_user_list_def convert_user_message_def)
  next
    case True
    then obtain p where p: "pending = Some p" "needs_deferred p" by (auto simp: waits_def split: option.splits)
    obtain o1 p1 where r: "replay_deferred env pending = Inr (o1, p1)" "good_pending p1"
      using replay_deferred_total [OF assms(2)] by blast
    have i: "if list_ex (block_type_is ''image'') bs then inject_blocks env bs [] p False = Inl ConversionError
     else \<exists>out p' cl'. inject_blocks env bs [] p False = Inr (out, p', cl') \<and> good_pending (Some p')"
      by (rule inject_blocks_total [OF assms(1)]) (use assms(2) p in simp_all)
    show ?thesis
    proof (cases "pa_remaining_tool_ids p = {}")
      case e: True
      then show ?thesis using True p u r
        by (cases "list_ex (block_type_is ''image'') bs")
          (auto simp: step_total_def fails_if_def convert_user_list_def convert_user_message_def)
    next
      case False
      then have n: "convert_user_list env bs pending =
          bind_result (inject_blocks env bs [] p False) (\<lambda>(out, p, cleared). Inr (out, if cleared then None else Some p))"
        using True p by (simp add: convert_user_list_def convert_user_message_with_injection_def)
      show ?thesis
      proof (cases "list_ex (block_type_is ''image'') bs")
        case True
        then show ?thesis using i n by (simp add: step_total_def)
      next
        case False
        then obtain out p' cl' where "inject_blocks env bs [] p False = Inr (out, p', cl')" "good_pending (Some p')" using i by auto
        then show ?thesis using False n by (simp add: step_total_def good_pending_def)
      qed
    qed
  qed
qed

lemma convert_step_total:
  assumes "typed_message m" and "good_pending pending"
  shows "step_total (unsupported m) (convert_step env rp m pending)"
proof -
  obtain o1 p1 where r: "replay_deferred env pending = Inr (o1, p1)" "good_pending p1"
    using replay_deferred_total [OF assms(2)] by blast
  consider (str) s where "msg_content m = JStr s" | (list) bs where "msg_content m = JList bs" "list_all typed_block bs"
    using assms(1) by (auto simp: typed_message_def split: json.splits)
  then show ?thesis
  proof cases
    case str
    then have "\<not> unsupported m" by (simp add: unsupported_def blocks_of_def)
    then show ?thesis using str r assms(2) by (simp add: step_total_def convert_step_def Let_def)
  next
    case list
    let ?r = "clean_reasoning_content (msg_reasoning_content m)"
    have a: "step_total (list_ex forbidden bs) (convert_assistant_list env rp bs ?r p1)"
      by (rule assistant_list_total [OF list(2) r(2)])
    have u: "step_total (list_ex (block_type_is ''image'') bs) (convert_user_list env bs pending)"
      by (rule user_list_total [OF list(2) assms(2)])
    consider "msg_role m = ''user''" | "msg_role m = ''assistant''" using assms(1) by (auto simp: typed_message_def known_role_def)
    then show ?thesis
    proof cases
      case 1
      then show ?thesis using list u by (simp add: unsupported_def blocks_of_def convert_step_def Let_def)
    next
      case 2
      then show ?thesis using list a r(1)
        by (cases "list_ex forbidden bs") (auto simp: step_total_def unsupported_def blocks_of_def convert_step_def Let_def)
    qed
  qed
qed

lemma convert_loop_total:
  "\<forall>m \<in> set ms. typed_message m \<Longrightarrow> good_pending pending \<Longrightarrow>
     fails_if (list_ex unsupported ms) (convert_loop env rp ms pending)"
proof (induction ms arbitrary: pending)
  case Nil
  then show ?case using replay_deferred_total [of pending env] by (auto simp: fails_if_def)
next
  case (Cons m ms)
  have m: "step_total (unsupported m) (convert_step env rp m pending)"
    using convert_step_total [of m pending env rp] Cons.prems by simp
  show ?case
  proof (cases "unsupported m")
    case True
    then show ?thesis using m by (simp add: fails_if_def step_total_def)
  next
    case False
    then obtain out p where s: "convert_step env rp m pending = Inr (out, p)" "good_pending p" using m by (auto simp: step_total_def)
    have "fails_if (list_ex unsupported ms) (convert_loop env rp ms p)" using Cons.IH [OF _ s(2)] Cons.prems(1) by simp
    then show ?thesis using s(1) False by (auto simp: fails_if_def split: if_split_asm)
  qed
qed

subsection \<open>An example\<close>

definition demo_text :: text_env where
  "demo_text = \<lparr>te_dumps = (\<lambda>_. ''{}''), te_dumps_raw = (\<lambda>_. ''{}''), te_repr = (\<lambda>_. ''?'')\<rparr>"

definition text_block :: "string \<Rightarrow> json" where
  "text_block t = JObj [(''type'', JStr ''text''), (''text'', JStr t)]"

definition use_block :: "string \<Rightarrow> json" where
  "use_block i = JObj [(''type'', JStr ''tool_use''), (''id'', JStr i), (''name'', JStr ''f''), (''input'', JObj [])]"

definition result_block :: "string \<Rightarrow> json" where
  "result_block i = JObj [(''type'', JStr ''tool_result''), (''tool_use_id'', JStr i), (''content'', JStr ''r'')]"

definition demo_chat :: "message list" where
  "demo_chat =
    [\<lparr>msg_role = ''user'', msg_content = JStr ''hi'', msg_reasoning_content = None\<rparr>,
     \<lparr>msg_role = ''assistant'', msg_content = JList [text_block ''a'', use_block ''t'', text_block ''b''], msg_reasoning_content = None\<rparr>,
     \<lparr>msg_role = ''user'', msg_content = JList [result_block ''t'', text_block ''ok''], msg_reasoning_content = None\<rparr>]"

lemmas demo_block_simps = text_block_def use_block_def result_block_def block_type_is_def get_block_type_def get_block_attr_def
  block_attr_or_def

lemma demo_conversion:
  "convert_messages demo_text DISABLED demo_chat = Inr
    [[(''role'', JStr ''user''), (''content'', JStr ''hi'')],
     [(''role'', JStr ''assistant''), (''content'', JStr ''a''), (''tool_calls'', JList [tool_call demo_text (use_block ''t'')])],
     [(''role'', JStr ''tool''), (''tool_call_id'', JStr ''t''), (''content'', JStr ''r'')],
     [(''role'', JStr ''assistant''), (''content'', JStr ''b'')],
     [(''role'', JStr ''user''), (''content'', JStr ''ok'')]]"
  by (simp add: convert_messages_def demo_chat_def convert_step_def Let_def replay_deferred_def waits_def convert_text_message_def
      clean_reasoning_content_def convert_assistant_list_def demo_block_simps assert_no_forbidden_assistant_block_def
      convert_assistant_message_with_split_def iter_tool_uses_in_order_def deferred_post_tool_blocks_def
      convert_assistant_message_def assistant_block_def join_values_def dict_set_def awaited_ids_def json_get_or_def
      tool_call_def py_str_def py_strip_def py_rstrip_def py_lstrip_def py_space_def convert_user_list_def needs_deferred_def
      convert_user_message_with_injection_def flush_text_def tool_message_def serialize_tool_result_content_def result_id_def
      deferred_post_tool_to_messages_def)

lemma demo_typed: "\<forall>m \<in> set demo_chat. typed_message m"
  by (simp add: demo_chat_def typed_message_def known_role_def typed_block_def has_string_def demo_block_simps)

lemma demo_roles: "\<forall>m \<in> set demo_chat. known_role m"
  by (simp add: demo_chat_def known_role_def)

text \<open>A result more than was awaited replays the deferred text once more.\<close>

lemma deferred_text_repeated:
  "convert_messages demo_text DISABLED
     (take 2 demo_chat @ [\<lparr>msg_role = ''user'', msg_content = JList [result_block ''t'', result_block ''old''], msg_reasoning_content = None\<rparr>]) = Inr
    [[(''role'', JStr ''user''), (''content'', JStr ''hi'')],
     [(''role'', JStr ''assistant''), (''content'', JStr ''a''), (''tool_calls'', JList [tool_call demo_text (use_block ''t'')])],
     [(''role'', JStr ''tool''), (''tool_call_id'', JStr ''t''), (''content'', JStr ''r'')],
     [(''role'', JStr ''assistant''), (''content'', JStr ''b'')],
     [(''role'', JStr ''tool''), (''tool_call_id'', JStr ''old''), (''content'', JStr ''r'')],
     [(''role'', JStr ''assistant''), (''content'', JStr ''b'')]]"
  by (simp add: convert_messages_def demo_chat_def convert_step_def Let_def replay_deferred_def waits_def convert_text_message_def
      clean_reasoning_content_def convert_assistant_list_def demo_block_simps assert_no_forbidden_assistant_block_def
      convert_assistant_message_with_split_def iter_tool_uses_in_order_def deferred_post_tool_blocks_def
      convert_assistant_message_def assistant_block_def join_values_def dict_set_def awaited_ids_def json_get_or_def
      tool_call_def py_str_def py_strip_def py_rstrip_def py_lstrip_def py_space_def convert_user_list_def needs_deferred_def
      convert_user_message_with_injection_def flush_text_def tool_message_def serialize_tool_result_content_def result_id_def
      deferred_post_tool_to_messages_def)

text \<open>A validated conversation is refused exactly if an assistant message holds an image or a
  server tool block or a user message an image, and then with the conversion error; every other
  conversation is converted, whatever its tool calls, results and order.\<close>

theorem conversion_fails_exactly:
  assumes "\<forall>m \<in> set ms. typed_message m"
  shows "if list_ex unsupported ms then convert_messages env replay ms = Inl ConversionError
    else (\<exists>out. convert_messages env replay ms = Inr out)"
  using convert_loop_total [OF assms, of None env replay]
  by (simp add: convert_messages_def fails_if_def good_pending_def)

theorem conversion_fails_exactly_witness: "\<exists>out. convert_messages demo_text DISABLED demo_chat = Inr out"
proof -
  have n: "\<not> list_ex unsupported demo_chat"
    by (simp add: demo_chat_def unsupported_def forbidden_def blocks_of_def demo_block_simps)
  from conversion_fails_exactly [OF demo_typed, of demo_text DISABLED] show ?thesis using n by simp
qed

theorem conversion_keeps_tools_witness:
  "concat (map (\<lambda>m. map (tool_call demo_text) (tool_uses m)) demo_chat) = [tool_call demo_text (use_block ''t'')]"
  using conversion_keeps_tools [OF demo_conversion demo_roles]
  by (simp add: dict_calls_def dict_role_def)

end
