(* ===== verification/DeepSeekRequest.thy ===== *)
theory DeepSeekRequest
  imports NativeRequestSound ConvertSound
begin

section \<open>DeepSeek's native body (\<open>providers/deepseek/request.py\<close>)\<close>

text \<open>
  DeepSeek speaks a part of the Messages API: attachments are stripped, other unsupported blocks and
  tools are refused, tool results become strings, and thinking is switched off for a tool follow-up
  without replayable thinking.  The texts of the refusals and the log lines are left out.
\<close>

subsection \<open>Attachments\<close>

abbreviation strippable :: "json \<Rightarrow> bool" where
  "strippable \<equiv> json_type_in {''image'', ''document''}"

definition unsupported_block :: "json \<Rightarrow> bool" where
  "unsupported_block = json_type_in
     {''image'', ''document'', ''server_tool_use'', ''web_search_tool_result'', ''web_fetch_tool_result''}"

definition OMITTED_ATTACHMENT_BLOCK :: json where
  "OMITTED_ATTACHMENT_BLOCK = JObj [(''type'', JStr ''text''),
     (''text'', JStr ''[attachment omitted: DeepSeek does not support image or document inputs]'')]"

text \<open>\<open>[_OMITTED_ATTACHMENT_BLOCK]\<close> for a list that stripping has emptied.\<close>

definition or_omitted :: "bool \<Rightarrow> json list \<Rightarrow> json list" where
  "or_omitted b xs = (if xs = [] \<and> b then [OMITTED_ATTACHMENT_BLOCK] else xs)"

definition strip_tool_result :: "json \<Rightarrow> json" where
  "strip_tool_result block =
     (case block of
        JObj d \<Rightarrow>
          if dict_get ''type'' d \<noteq> Some (JStr ''tool_result'') then block
          else (case dict_get ''content'' d of
                  Some (JList inner) \<Rightarrow>
                    JObj (dict_set ''content'' (JList (or_omitted True (filter (\<lambda>b. \<not> strippable b) inner))) d)
                | _ \<Rightarrow> block)
      | _ \<Rightarrow> block)"

text \<open>A function of the content list of a message that has one.\<close>

definition on_content :: "(json list \<Rightarrow> json) \<Rightarrow> json \<Rightarrow> json" where
  "on_content f message =
     (case message of
        JObj d \<Rightarrow>
          (case dict_get ''content'' d of Some (JList content) \<Rightarrow> JObj (dict_set ''content'' (f content) d) | _ \<Rightarrow> message)
      | _ \<Rightarrow> message)"

definition strip_message :: "json \<Rightarrow> json" where
  "strip_message =
     on_content (\<lambda>content.
       JList (or_omitted (list_ex strippable content) (map strip_tool_result (filter (\<lambda>b. \<not> strippable b) content))))"

definition strip_unsupported_attachment_blocks :: "json \<Rightarrow> json" where
  "strip_unsupported_attachment_blocks messages = map_messages strip_message messages"

subsection \<open>Refusals\<close>

text \<open>\<open>(tool.get("name") or "").strip()\<close>; a name that is no string has no \<open>strip\<close>.\<close>

definition is_server_listed_tool :: "jdict \<Rightarrow> bool result" where
  "is_server_listed_tool tool =
     (let name = get_null ''name'' tool in
      bind_result (if \<not> json_truthy name then Inr [] else (case name of JStr s \<Rightarrow> Inr (py_strip s) | _ \<Rightarrow> Inl AttributeError))
        (\<lambda>name.
           if name = ''web_search'' \<or> name = ''web_fetch'' then Inr True
           else (case get_null ''type'' tool of
                   JStr typ \<Rightarrow> Inr (py_startswith ''web_search'' typ \<or> py_startswith ''web_fetch'' typ)
                 | _ \<Rightarrow> Inr False)))"

text \<open>\<open>_walk_block_list_for_unsupported\<close>: true if it raises.\<close>

function walk_unsupported :: "json \<Rightarrow> bool" where
  "walk_unsupported blocks =
     (case blocks of
        JList bs \<Rightarrow>
          list_ex (\<lambda>b. case b of
             JObj d \<Rightarrow> unsupported_block b \<or>
               (dict_get ''type'' d = Some (JStr ''tool_result'') \<and>
                (case dict_get ''content'' d of Some c \<Rightarrow> walk_unsupported c | None \<Rightarrow> False))
           | _ \<Rightarrow> False) bs
      | _ \<Rightarrow> False)"
  by auto

termination walk_unsupported
proof (relation "measure size")
  fix blocks bs b d c
  assume a: "blocks = JList bs" "b \<in> set bs" "b = JObj d" "dict_get ''content'' d = Some c"
  have "size c < size b" using dict_get_size [OF a(4)] a(3) by simp
  also have "size b \<le> size_list size bs" using a(2) by (induction bs) auto
  finally show "(c, blocks) \<in> measure size" using a(1) by simp
qed simp

declare walk_unsupported.simps [simp del]

fun or_items :: "json \<Rightarrow> json list" where
  "or_items (JList xs) = xs"
| "or_items _ = []"

fun any_listed :: "json list \<Rightarrow> bool result" where
  "any_listed [] = Inr False"
| "any_listed (JObj t # ts) = bind_result (is_server_listed_tool t) (\<lambda>b. if b then Inr True else any_listed ts)"
| "any_listed (_ # ts) = any_listed ts"

definition walk_message :: "json \<Rightarrow> bool" where
  "walk_message message = (case json_get ''content'' message of Some (JList c) \<Rightarrow> walk_unsupported (JList c) | _ \<Rightarrow> False)"

definition refusal :: "exc" where
  "refusal = invalid_request_error ''DeepSeek native does not support this request.'' None"

definition validate_deepseek_native_request_dict :: "jdict \<Rightarrow> (py_error + exc) + unit" where
  "validate_deepseek_native_request_dict data =
     (if json_truthy (get_null ''mcp_servers'' data) then Inl (Inr refusal)
      else (case any_listed (or_items (get_null ''tools'' data)) of
              Inl e \<Rightarrow> Inl (Inl e)
            | Inr True \<Rightarrow> Inl (Inr refusal)
            | Inr False \<Rightarrow>
                if list_ex walk_message (or_items (get_null ''messages'' data)) then Inl (Inr refusal)
                else if walk_unsupported (get_null ''system'' data) then Inl (Inr refusal)
                else Inr ()))"

subsection \<open>Thinking and tools\<close>

definition has_tool_history_blocks :: "json \<Rightarrow> bool" where
  "has_tool_history_blocks message =
     (case json_get ''content'' message of
        Some (JList content) \<Rightarrow>
          (json_get ''role'' message = Some (JStr ''assistant'') \<and> list_ex (json_type_in {''tool_use''}) content) \<or>
          (json_get ''role'' message = Some (JStr ''user'') \<and> list_ex (json_type_in {''tool_result''}) content)
      | _ \<Rightarrow> False)"

text \<open>The loop over the blocks, with its flag \<open>has_thinking\<close>.\<close>

fun replayable_scan :: "bool \<Rightarrow> json list \<Rightarrow> bool" where
  "replayable_scan has_thinking [] = False"
| "replayable_scan has_thinking (b # bs) =
     (case (json_type_in {''thinking''} b, json_get ''thinking'' b) of
        (True, Some (JStr t)) \<Rightarrow> replayable_scan (t \<noteq> []) bs
      | _ \<Rightarrow> if json_type_in {''tool_use''} b then has_thinking else replayable_scan has_thinking bs)"

definition has_replayable_thinking_before_tool_use :: "json \<Rightarrow> bool" where
  "has_replayable_thinking_before_tool_use message =
     (json_get ''role'' message = Some (JStr ''assistant'') \<and>
      (case json_get ''content'' message of Some (JList content) \<Rightarrow> replayable_scan False content | _ \<Rightarrow> False))"

definition has_tool_history :: "jdict \<Rightarrow> bool" where
  "has_tool_history data = list_ex has_tool_history_blocks (or_items (get_null ''messages'' data))"

definition has_replayable_tool_thinking :: "jdict \<Rightarrow> bool" where
  "has_replayable_tool_thinking data =
     list_ex has_replayable_thinking_before_tool_use (or_items (get_null ''messages'' data))"

definition remove_effort :: "jdict \<Rightarrow> jdict" where
  "remove_effort data =
     (case dict_get ''output_config'' data of
        Some (JObj config) \<Rightarrow>
          if dict_has ''effort'' config
          then (let cleaned = dict_del ''effort'' config in
                if cleaned \<noteq> [] then dict_set ''output_config'' (JObj cleaned) data else dict_del ''output_config'' data)
          else data
      | _ \<Rightarrow> data)"

definition clears_thinking :: "json \<Rightarrow> bool" where
  "clears_thinking edit =
     (case json_get ''type'' edit of Some (JStr t) \<Rightarrow> py_startswith ''clear_thinking_'' t | _ \<Rightarrow> False)"

definition remove_deepseek_thinking_hints :: "jdict \<Rightarrow> jdict" where
  "remove_deepseek_thinking_hints data =
     (let data = remove_effort data in
      case dict_get ''context_management'' data of
        Some (JObj cm) \<Rightarrow>
          (case dict_get ''edits'' cm of
             Some (JList edits) \<Rightarrow>
               let filtered = filter (\<lambda>e. \<not> clears_thinking e) edits in
               if length filtered = length edits then data
               else if filtered \<noteq> []
               then dict_set ''context_management'' (JObj (dict_set ''edits'' (JList filtered) cm)) data
               else (let cleaned = dict_del ''edits'' cm in
                     if cleaned \<noteq> [] then dict_set ''context_management'' (JObj cleaned) data
                     else dict_del ''context_management'' data)
           | _ \<Rightarrow> data)
      | _ \<Rightarrow> data)"

subsection \<open>Messages\<close>

definition ds_removes :: "bool \<Rightarrow> json \<Rightarrow> bool" where
  "ds_removes thinking_enabled block =
     json_type_in (if \<not> thinking_enabled then {''thinking'', ''redacted_thinking''} else {''redacted_thinking''}) block"

definition sanitize_deepseek_messages_for_native :: "json \<Rightarrow> bool \<Rightarrow> json" where
  "sanitize_deepseek_messages_for_native messages thinking_enabled =
     map_messages (sanitize_message (ds_removes thinking_enabled)) messages"

text \<open>\<open>_serialize_tool_result_content\<close> is a copy of the function of the same name in the conversion.\<close>

definition ds_serialize_tool_result_content :: "text_env \<Rightarrow> json \<Rightarrow> string" where
  "ds_serialize_tool_result_content env content = serialize_tool_result_content env content"

definition normalize_block :: "text_env \<Rightarrow> json \<Rightarrow> json" where
  "normalize_block env block =
     (case block of
        JObj d \<Rightarrow>
          if dict_get ''type'' d = Some (JStr ''tool_result'')
          then JObj (dict_set ''content'' (JStr (ds_serialize_tool_result_content env (get_null ''content'' d))) d)
          else block
      | _ \<Rightarrow> block)"

definition normalize_tool_result_content :: "text_env \<Rightarrow> json \<Rightarrow> json" where
  "normalize_tool_result_content env messages =
     map_messages (on_content (\<lambda>content. JList (map (normalize_block env) content))) messages"

definition without_reasoning :: "json \<Rightarrow> json" where
  "without_reasoning m = (case m of JObj d \<Rightarrow> JObj (dict_del ''reasoning_content'' d) | _ \<Rightarrow> m)"

definition strip_reasoning_content_when_native :: "json \<Rightarrow> json" where
  "strip_reasoning_content_when_native messages = map_messages without_reasoning messages"

subsection \<open>The body\<close>

definition ds_messages :: "text_env \<Rightarrow> bool \<Rightarrow> json \<Rightarrow> json" where
  "ds_messages env effective messages =
     strip_reasoning_content_when_native (normalize_tool_result_content env
       (sanitize_deepseek_messages_for_native messages effective))"

definition effective_thinking :: "bool \<Rightarrow> jdict \<Rightarrow> bool" where
  "effective_thinking thinking_enabled data \<longleftrightarrow>
     thinking_enabled \<and> \<not> (has_tool_history data \<and> \<not> has_replayable_tool_thinking data)"

definition deepseek_build_request_body :: "text_env \<Rightarrow> messages_request \<Rightarrow> bool \<Rightarrow> (py_error + exc) + jdict" where
  "deepseek_build_request_body env rq thinking_enabled =
     (let data = dump_request_fields rq;
          data = (case dict_get ''messages'' data of
                    Some ms \<Rightarrow> dict_set ''messages'' (strip_unsupported_attachment_blocks ms) data
                  | None \<Rightarrow> data)
      in case validate_deepseek_native_request_dict data of
           Inl e \<Rightarrow> Inl e
         | Inr _ \<Rightarrow>
             let data = dict_del ''extra_body'' data;
                 effective = effective_thinking thinking_enabled data;
                 data = (if thinking_enabled \<and> \<not> effective then remove_deepseek_thinking_hints data else data);
                 data = apply_thinking effective data;
                 data = (case dict_get ''messages'' data of
                           Some ms \<Rightarrow> dict_set ''messages'' (ds_messages env effective ms) data
                         | None \<Rightarrow> data);
                 data = (if get_null ''max_tokens'' data = JNull
                         then dict_set ''max_tokens'' (JInt ANTHROPIC_DEFAULT_MAX_OUTPUT_TOKENS) data else data)
             in Inr (dict_set ''stream'' (JBool True) data))"

subsection \<open>What reaches DeepSeek\<close>

definition message_content :: "json \<Rightarrow> json list" where
  "message_content m = (case json_get ''content'' m of Some (JList bs) \<Rightarrow> bs | _ \<Rightarrow> [])"

definition is_assistant :: "json \<Rightarrow> bool" where
  "is_assistant m \<longleftrightarrow> json_get ''role'' m = Some (JStr ''assistant'')"

definition string_result :: "json \<Rightarrow> bool" where
  "string_result b \<longleftrightarrow> json_type_in {''tool_result''} b \<longrightarrow> (\<exists>s. json_get ''content'' b = Some (JStr s))"

lemma content_cases:
  obtains (list) d bs where "m = JObj d" "dict_get ''content'' d = Some (JList bs)"
  | (other) "\<And>d bs. m = JObj d \<Longrightarrow> dict_get ''content'' d \<noteq> Some (JList bs)" "message_content m = []"
    "\<And>f. on_content f m = m" "\<And>P. sanitize_message P m = m"
proof (cases "\<exists>d bs. m = JObj d \<and> dict_get ''content'' d = Some (JList bs)")
  case False
  then have n: "\<And>d bs. m = JObj d \<Longrightarrow> dict_get ''content'' d \<noteq> Some (JList bs)" by blast
  have c: "json_get ''content'' m \<noteq> Some (JList bs)" for bs using n by (cases m) simp_all
  have "message_content m = []" using c by (cases "json_get ''content'' m") (simp_all add: message_content_def split: json.split)
  moreover have "on_content f m = m" for f
    using c by (cases m) (simp_all add: on_content_def split: option.split json.split)
  moreover have "sanitize_message P m = m" for P
    using c by (cases m) (simp_all add: sanitize_message_def split: option.split json.split)
  ultimately show thesis using other n by blast
qed (use list in blast)

lemma content_simps:
  "message_content (sanitize_message P m) = (if is_assistant m then filter (\<lambda>b. \<not> P b) (message_content m) else message_content m)"
  "message_content (on_content (\<lambda>bs. JList (map f bs)) m) = map f (message_content m)"
  "message_content (without_reasoning m) = message_content m"
  "is_assistant (sanitize_message P m) = is_assistant m" "is_assistant (on_content g m) = is_assistant m"
  "is_assistant (without_reasoning m) = is_assistant m"
  by (cases m rule: content_cases;
      auto simp: message_content_def is_assistant_def sanitize_message_def on_content_def without_reasoning_def list_or_empty_def
        split: json.split)+

lemma role_simps:
  "json_get ''role'' (sanitize_message P m) = json_get ''role'' m" "json_get ''role'' (on_content g m) = json_get ''role'' m"
  "json_get ''role'' (without_reasoning m) = json_get ''role'' m"
  by (cases m rule: content_cases; auto simp: sanitize_message_def on_content_def without_reasoning_def split: json.split)+

lemma no_reasoning: "json_get ''reasoning_content'' (without_reasoning m) = None"
  by (cases m) (simp_all add: without_reasoning_def)

lemma normalize_get: "k \<noteq> ''content'' \<Longrightarrow> json_get k (normalize_block env b) = json_get k b"
  by (cases b) (simp_all add: normalize_block_def)

lemma normalize_type: "json_type_in T (normalize_block env b) = json_type_in T b"
  by (simp add: json_type_in_def normalize_get)

lemma normalize_string: "string_result (normalize_block env b)"
proof (cases "json_type_in {''tool_result''} b")
  case True
  then obtain d where "b = JObj d" "dict_get ''type'' d = Some (JStr ''tool_result'')"
    by (cases b) (auto simp: json_type_in_def split: option.splits json.splits)
  then show ?thesis by (simp add: string_result_def normalize_block_def)
qed (simp add: string_result_def normalize_type)

text \<open>One message of the body from the stripped message of the request.\<close>

definition final_message :: "text_env \<Rightarrow> bool \<Rightarrow> json \<Rightarrow> json" where
  "final_message env eff m =
     without_reasoning (on_content (\<lambda>content. JList (map (normalize_block env) content)) (sanitize_message (ds_removes eff) m))"

lemma final_content:
  "message_content (final_message env eff m) =
     map (normalize_block env) (if is_assistant m then filter (\<lambda>b. \<not> ds_removes eff b) (message_content m) else message_content m)"
  by (simp add: final_message_def content_simps)

lemma final_role: "json_get ''role'' (final_message env eff m) = json_get ''role'' m" "is_assistant (final_message env eff m) = is_assistant m"
  by (simp_all add: final_message_def role_simps content_simps)

lemma ds_messages_final: "ds_messages env eff (JList ms) = JList (map (final_message env eff) ms)"
  by (simp add: ds_messages_def strip_reasoning_content_when_native_def normalize_tool_result_content_def
      sanitize_deepseek_messages_for_native_def map_messages_def final_message_def)

lemma hints_get:
  "k \<noteq> ''output_config'' \<Longrightarrow> k \<noteq> ''context_management'' \<Longrightarrow> dict_get k (remove_deepseek_thinking_hints d) = dict_get k d"
  by (simp add: remove_deepseek_thinking_hints_def remove_effort_def Let_def split: option.split json.split)

text \<open>The data after stripping, and the body made of it.\<close>

definition stripped_data :: "messages_request \<Rightarrow> jdict" where
  "stripped_data rq = dict_set ''messages'' (JList (map strip_message (map dump_message (rq_messages rq)))) (dump_request_fields rq)"

lemma deepseek_body:
  assumes "deepseek_build_request_body env rq th = Inr body"
  defines "eff \<equiv> effective_thinking th (dict_del ''extra_body'' (stripped_data rq))"
  shows "validate_deepseek_native_request_dict (stripped_data rq) = Inr () \<and>
    dict_get ''messages'' body = Some (JList (map (final_message env eff) (map strip_message (map dump_message (rq_messages rq))))) \<and>
    dict_get ''thinking'' body = body_thinking rq eff \<and>
    dict_get ''stream'' body = Some (JBool True) \<and> get_null ''max_tokens'' body \<noteq> JNull \<and>
    dict_get ''extra_body'' body = None"
proof -
  let ?d = "dict_del ''extra_body'' (stripped_data rq)"
  let ?h = "if th \<and> \<not> eff then remove_deepseek_thinking_hints ?d else ?d"
  let ?a = "apply_thinking eff ?h"
  let ?m = "dict_set ''messages'' (JList (map (final_message env eff) (map strip_message (map dump_message (rq_messages rq))))) ?a"
  let ?x = "if get_null ''max_tokens'' ?m = JNull then dict_set ''max_tokens'' (JInt ANTHROPIC_DEFAULT_MAX_OUTPUT_TOKENS) ?m else ?m"
  have v: "validate_deepseek_native_request_dict (stripped_data rq) = Inr ()"
    and b: "body = dict_set ''stream'' (JBool True) ?x"
  proof -
    have s: "(case dict_get ''messages'' (dump_request_fields rq) of
        Some ms \<Rightarrow> dict_set ''messages'' (strip_unsupported_attachment_blocks ms) (dump_request_fields rq)
      | None \<Rightarrow> dump_request_fields rq) = stripped_data rq"
      by (simp add: dump_gets strip_unsupported_attachment_blocks_def map_messages_def stripped_data_def)
    have g: "dict_get ''messages'' ?a = Some (JList (map strip_message (map dump_message (rq_messages rq))))"
      by (simp add: apply_thinking_get hints_get stripped_data_def)
    show "validate_deepseek_native_request_dict (stripped_data rq) = Inr ()"
      using assms(1) unfolding deepseek_build_request_body_def Let_def s by (cases "validate_deepseek_native_request_dict (stripped_data rq)") simp_all
    then show "body = dict_set ''stream'' (JBool True) ?x"
      using assms(1) unfolding deepseek_build_request_body_def Let_def s eff_def [symmetric] g option.case ds_messages_final
      by simp
  qed
  have t: "dict_get ''thinking'' ?a = body_thinking rq eff"
    by (rule apply_thinking_thinking) (simp add: hints_get stripped_data_def dump_gets)
  have e: "dict_get ''extra_body'' ?a = None" by (simp add: apply_thinking_get hints_get)
  show ?thesis using v t e by (simp add: b get_null_def)
qed

subsection \<open>The property\<close>

lemma walk_list: "walk_unsupported (JList bs) \<longleftrightarrow> list_ex (\<lambda>b. case b of
    JObj d \<Rightarrow> unsupported_block b \<or>
      (dict_get ''type'' d = Some (JStr ''tool_result'') \<and>
       (case dict_get ''content'' d of Some c \<Rightarrow> walk_unsupported c | None \<Rightarrow> False))
  | _ \<Rightarrow> False) bs"
  by (subst walk_unsupported.simps) simp

lemma type_obj: "json_type_in T b \<Longrightarrow> \<exists>d. b = JObj d"
  by (cases b) (simp_all add: json_type_in_def)

lemma content_mem: "b \<in> set (message_content m) \<Longrightarrow> \<exists>bs. json_get ''content'' m = Some (JList bs) \<and> b \<in> set bs"
proof (cases "json_get ''content'' m")
  case (Some v)
  then show "b \<in> set (message_content m) \<Longrightarrow> ?thesis" by (cases v) (simp_all add: message_content_def)
qed (simp add: message_content_def)

lemma walk_message_supported: "\<not> walk_message m \<Longrightarrow> b \<in> set (message_content m) \<Longrightarrow> \<not> unsupported_block b"
proof
  assume a: "\<not> walk_message m" "b \<in> set (message_content m)" "unsupported_block b"
  obtain d where d: "b = JObj d" using type_obj a(3) by (auto simp: unsupported_block_def)
  obtain bs where bs: "json_get ''content'' m = Some (JList bs)" "b \<in> set bs"
    using content_mem [OF a(2)] by blast
  then have "walk_message m" using d a(3) by (auto simp: walk_message_def walk_list list_ex_iff intro!: bexI [of _ b])
  then show False using a(1) by simp
qed

lemma validated_messages:
  assumes "validate_deepseek_native_request_dict data = Inr ()" and "m \<in> set (or_items (get_null ''messages'' data))"
  shows "\<not> walk_message m"
proof -
  have "\<not> list_ex walk_message (or_items (get_null ''messages'' data))"
    using assms(1) by (auto simp: validate_deepseek_native_request_dict_def split: if_split_asm sum.splits bool.splits)
  then show ?thesis using assms(2) by (auto simp: list_ex_iff)
qed

lemma history_blocks: "has_tool_history_blocks m \<longleftrightarrow>
    (is_assistant m \<and> list_ex (json_type_in {''tool_use''}) (message_content m)) \<or>
    (json_get ''role'' m = Some (JStr ''user'') \<and> list_ex (json_type_in {''tool_result''}) (message_content m))"
  by (auto simp: has_tool_history_blocks_def message_content_def is_assistant_def split: option.split json.split)

lemma replayable_eq: "has_replayable_thinking_before_tool_use m \<longleftrightarrow> is_assistant m \<and> replayable_scan False (message_content m)"
  by (auto simp: has_replayable_thinking_before_tool_use_def message_content_def is_assistant_def split: option.split json.split)

lemma type_disjoint: "json_type_in S b \<Longrightarrow> S \<inter> T = {} \<Longrightarrow> \<not> json_type_in T b"
  by (auto simp: json_type_in_def split: option.splits json.splits)

lemma scan_filter: "replayable_scan h (filter (\<lambda>b. \<not> json_type_in {''redacted_thinking''} b) bs) = replayable_scan h bs"
proof (induction bs arbitrary: h)
  case (Cons b bs)
  show ?case
  proof (cases "json_type_in {''redacted_thinking''} b")
    case True
    then have "\<not> json_type_in {''thinking''} b" "\<not> json_type_in {''tool_use''} b"
      using type_disjoint [OF True, of "{''thinking''}"] type_disjoint [OF True, of "{''tool_use''}"] by simp_all
    then show ?thesis using Cons True by (simp add: case_prod_beta)
  qed (use Cons in \<open>simp split: bool.split option.split json.split\<close>)
qed simp

lemma scan_normalize: "replayable_scan h (map (normalize_block env) bs) = replayable_scan h bs"
  by (induction bs arbitrary: h) (simp_all add: normalize_type normalize_get split: bool.split option.split json.split)

lemma list_ex_normalize: "list_ex (json_type_in T) (map (normalize_block env) bs) = list_ex (json_type_in T) bs"
  by (induction bs) (simp_all add: normalize_type)

lemma list_ex_filter: "list_ex P (filter Q bs) \<Longrightarrow> list_ex P bs"
  by (auto simp: list_ex_iff)

lemma final_history: "has_tool_history_blocks (final_message env eff m) \<Longrightarrow> has_tool_history_blocks m"
  using list_ex_filter [of "json_type_in {''tool_use''}" "\<lambda>b. \<not> ds_removes eff b" "message_content m"]
    list_ex_filter [of "json_type_in {''tool_result''}" "\<lambda>b. \<not> ds_removes eff b" "message_content m"]
  by (auto simp: history_blocks final_content final_role list_ex_normalize split: if_split_asm)

lemma final_replayable: "has_replayable_thinking_before_tool_use m \<Longrightarrow> has_replayable_thinking_before_tool_use (final_message env True m)"
  by (simp add: replayable_eq final_content final_role scan_normalize ds_removes_def scan_filter)

definition ds_message_ok :: "json \<Rightarrow> bool" where
  "ds_message_ok m \<longleftrightarrow> json_get ''reasoning_content'' m = None \<and>
     list_all (\<lambda>b. \<not> unsupported_block b \<and> string_result b) (message_content m) \<and>
     (is_assistant m \<longrightarrow> list_all (\<lambda>b. \<not> json_type_in {''redacted_thinking''} b) (message_content m))"

lemma final_ok:
  assumes "\<not> walk_message m"
  shows "ds_message_ok (final_message env eff m)"
proof -
  have s: "\<not> unsupported_block (normalize_block env b)" if "b \<in> set (message_content m)" for b
    using walk_message_supported [OF assms that] by (simp add: unsupported_block_def normalize_type)
  have r: "\<not> json_type_in {''redacted_thinking''} b" if "\<not> ds_removes eff b" for b
    using that json_type_sub [of "{''redacted_thinking''}" b "{''thinking'', ''redacted_thinking''}"]
    by (auto simp: ds_removes_def split: if_split_asm)
  show ?thesis
    using s r by (auto simp: ds_message_ok_def final_content final_role list_all_iff normalize_string normalize_type)
      (simp add: final_message_def no_reasoning)
qed

text \<open>Whatever is sent to DeepSeek is what its partial API accepts: no message holds an attachment or a
  server tool block, every tool result is a string, no hidden thinking or helper field is left, the
  body streams and has a token limit; and thinking is asked for only if the history has no tool use or
  some assistant message thinks before its tool use, in the very messages that are sent.\<close>

theorem deepseek_body_accepted:
  assumes "deepseek_build_request_body env rq thinking_enabled = Inr body"
  shows "list_all ds_message_ok (body_messages body) \<and>
    dict_get ''stream'' body = Some (JBool True) \<and> get_null ''max_tokens'' body \<noteq> JNull \<and> dict_get ''extra_body'' body = None \<and>
    (dict_get ''thinking'' body = None \<or> \<not> list_ex has_tool_history_blocks (body_messages body) \<or>
     list_ex has_replayable_thinking_before_tool_use (body_messages body))"
proof -
  let ?ms = "map strip_message (map dump_message (rq_messages rq))"
  let ?d = "dict_del ''extra_body'' (stripped_data rq)"
  let ?eff = "effective_thinking thinking_enabled ?d"
  note b = deepseek_body [OF assms]
  have items: "or_items (get_null ''messages'' (stripped_data rq)) = ?ms" "or_items (get_null ''messages'' ?d) = ?ms"
    by (simp_all add: get_null_def stripped_data_def)
  have bm: "body_messages body = map (final_message env ?eff) ?ms"
    using b by (simp add: body_messages_def)
  have "\<forall>m \<in> set ?ms. ds_message_ok (final_message env ?eff m)"
    using validated_messages [of "stripped_data rq"] b items(1) final_ok by auto
  then have ok: "list_all ds_message_ok (body_messages body)" unfolding bm by (auto simp: list_all_iff)
  have think: "\<not> list_ex has_tool_history_blocks (body_messages body) \<or>
      list_ex has_replayable_thinking_before_tool_use (body_messages body)" if t: "dict_get ''thinking'' body \<noteq> None"
  proof -
    have e: "?eff" using t b by (auto simp: body_thinking_def split: option.splits if_splits)
    then have "\<not> list_ex has_tool_history_blocks ?ms \<or> list_ex has_replayable_thinking_before_tool_use ?ms"
      by (simp add: effective_thinking_def has_tool_history_def has_replayable_tool_thinking_def items)
    moreover have "list_ex has_tool_history_blocks (map (final_message env True) ms) \<Longrightarrow> list_ex has_tool_history_blocks ms" for ms
      using final_history by (induction ms) auto
    moreover have "list_ex has_replayable_thinking_before_tool_use ms \<Longrightarrow>
        list_ex has_replayable_thinking_before_tool_use (map (final_message env True) ms)" for ms
      using final_replayable by (induction ms) auto
    ultimately show ?thesis unfolding bm using e by metis
  qed
  show ?thesis using ok think b by blast
qed

lemma demo_validated: "validate_deepseek_native_request_dict (stripped_data demo_native) = Inr ()"
proof -
  have m: "get_null ''mcp_servers'' (stripped_data demo_native) = JNull" "get_null ''tools'' (stripped_data demo_native) = JNull"
    "get_null ''system'' (stripped_data demo_native) = JNull"
    by (simp_all add: get_null_def stripped_data_def dump_get) (simp_all add: request_fields_def demo_native_def given_def)
  have items: "or_items (get_null ''messages'' (stripped_data demo_native)) = map strip_message (map dump_message (rq_messages demo_native))"
    by (simp add: get_null_def stripped_data_def)
  have "\<not> walk_message (strip_message (dump_message (hd (rq_messages demo_native))))"
    by (simp add: demo_native_def dump_message_def strip_message_def on_content_def walk_message_def walk_list unsupported_block_def
        json_type_in_def strip_tool_result_def or_omitted_def)
  then have "\<not> list_ex walk_message (map strip_message (map dump_message [hd (rq_messages demo_native)]))" by simp
  moreover have "[hd (rq_messages demo_native)] = rq_messages demo_native" unfolding demo_native_def by simp
  ultimately have "\<not> list_ex walk_message (map strip_message (map dump_message (rq_messages demo_native)))" by (simp only: not_False_eq_True)
  then show ?thesis
    by (simp add: validate_deepseek_native_request_dict_def m items json_truthy_def walk_unsupported.simps del: map_map)
qed

theorem deepseek_body_accepted_witness:
  "\<exists>body. deepseek_build_request_body demo_text demo_native True = Inr body \<and> list_all ds_message_ok (body_messages body)"
proof -
  have s: "(case dict_get ''messages'' (dump_request_fields demo_native) of
        Some ms \<Rightarrow> dict_set ''messages'' (strip_unsupported_attachment_blocks ms) (dump_request_fields demo_native)
      | None \<Rightarrow> dump_request_fields demo_native) = stripped_data demo_native"
    by (simp add: dump_gets strip_unsupported_attachment_blocks_def map_messages_def stripped_data_def)
  obtain body where "deepseek_build_request_body demo_text demo_native True = Inr body"
    unfolding deepseek_build_request_body_def Let_def s demo_validated by simp
  with deepseek_body_accepted [OF this] show ?thesis by blast
qed

end
