(* ===== verification/ProviderCatalog.thy ===== *)
theory ProviderCatalog
  imports PyText
begin

section \<open>The provider catalog (\<open>config/provider_catalog.py\<close>)\<close>

text \<open>The descriptors in the order of the dictionary, which is the order of \<open>SUPPORTED_PROVIDER_IDS\<close>.\<close>

datatype transport_type = OpenaiChat | AnthropicMessages

record descriptor =
  pd_provider_id :: string
  pd_transport_type :: transport_type
  pd_capabilities :: "string list"
  pd_credential_env :: "string option"
  pd_credential_url :: "string option"
  pd_credential_attr :: "string option"
  pd_static_credential :: "string option"
  pd_default_base_url :: "string option"
  pd_base_url_attr :: "string option"
  pd_proxy_attr :: "string option"

definition NVIDIA_NIM_DEFAULT_BASE :: string where
  "NVIDIA_NIM_DEFAULT_BASE = ''https://integrate.api.nvidia.com/v1''"

definition KIMI_DEFAULT_BASE :: string where
  "KIMI_DEFAULT_BASE = ''https://api.moonshot.ai/anthropic/v1''"

definition WAFER_DEFAULT_BASE :: string where
  "WAFER_DEFAULT_BASE = ''https://pass.wafer.ai/v1''"

definition DEEPSEEK_ANTHROPIC_DEFAULT_BASE :: string where
  "DEEPSEEK_ANTHROPIC_DEFAULT_BASE = ''https://api.deepseek.com/anthropic''"

definition DEEPSEEK_DEFAULT_BASE :: string where
  "DEEPSEEK_DEFAULT_BASE = ''https://api.deepseek.com/anthropic''"

definition FIREWORKS_DEFAULT_BASE :: string where
  "FIREWORKS_DEFAULT_BASE = ''https://api.fireworks.ai/inference/v1''"

definition OPENROUTER_DEFAULT_BASE :: string where
  "OPENROUTER_DEFAULT_BASE = ''https://openrouter.ai/api/v1''"

definition MISTRAL_DEFAULT_BASE :: string where
  "MISTRAL_DEFAULT_BASE = ''https://api.mistral.ai/v1''"

definition CODESTRAL_DEFAULT_BASE :: string where
  "CODESTRAL_DEFAULT_BASE = ''https://codestral.mistral.ai/v1''"

definition LMSTUDIO_DEFAULT_BASE :: string where
  "LMSTUDIO_DEFAULT_BASE = ''http://localhost:1234/v1''"

definition LLAMACPP_DEFAULT_BASE :: string where
  "LLAMACPP_DEFAULT_BASE = ''http://localhost:8080/v1''"

definition OLLAMA_DEFAULT_BASE :: string where
  "OLLAMA_DEFAULT_BASE = ''http://localhost:11434''"

definition OPENCODE_DEFAULT_BASE :: string where
  "OPENCODE_DEFAULT_BASE = ''https://opencode.ai/zen/v1''"

definition OPENCODE_GO_DEFAULT_BASE :: string where
  "OPENCODE_GO_DEFAULT_BASE = ''https://opencode.ai/zen/go/v1''"

definition ZAI_DEFAULT_BASE :: string where
  "ZAI_DEFAULT_BASE = ''https://api.z.ai/api/anthropic/v1''"

definition GEMINI_DEFAULT_BASE :: string where
  "GEMINI_DEFAULT_BASE = ''https://generativelanguage.googleapis.com/v1beta/openai/''"

definition GROQ_DEFAULT_BASE :: string where
  "GROQ_DEFAULT_BASE = ''https://api.groq.com/openai/v1''"

definition CEREBRAS_DEFAULT_BASE :: string where
  "CEREBRAS_DEFAULT_BASE = ''https://api.cerebras.ai/v1''"

text \<open>The catalog, in three parts.\<close>

definition catalog_first :: "(string, descriptor) pydict" where
  "catalog_first = [
    (''nvidia_nim'', \<lparr>pd_provider_id = ''nvidia_nim'', pd_transport_type = OpenaiChat,
      pd_capabilities = [''chat'', ''streaming'', ''tools'', ''thinking'', ''rate_limit''],
      pd_credential_env = Some ''NVIDIA_NIM_API_KEY'',
      pd_credential_url = Some ''https://build.nvidia.com/settings/api-keys'',
      pd_credential_attr = Some ''nvidia_nim_api_key'', pd_static_credential = None,
      pd_default_base_url = Some NVIDIA_NIM_DEFAULT_BASE, pd_base_url_attr = None,
      pd_proxy_attr = Some ''nvidia_nim_proxy''\<rparr>),
    (''open_router'', \<lparr>pd_provider_id = ''open_router'',
      pd_transport_type = AnthropicMessages,
      pd_capabilities = [''chat'', ''streaming'', ''tools'', ''thinking'', ''native_anthropic''],
      pd_credential_env = Some ''OPENROUTER_API_KEY'',
      pd_credential_url = Some ''https://openrouter.ai/keys'',
      pd_credential_attr = Some ''open_router_api_key'', pd_static_credential = None,
      pd_default_base_url = Some OPENROUTER_DEFAULT_BASE, pd_base_url_attr = None,
      pd_proxy_attr = Some ''open_router_proxy''\<rparr>),
    (''gemini'', \<lparr>pd_provider_id = ''gemini'', pd_transport_type = OpenaiChat,
      pd_capabilities = [''chat'', ''streaming'', ''tools'', ''thinking'', ''rate_limit''],
      pd_credential_env = Some ''GEMINI_API_KEY'',
      pd_credential_url = Some ''https://aistudio.google.com/apikey'',
      pd_credential_attr = Some ''gemini_api_key'', pd_static_credential = None,
      pd_default_base_url = Some GEMINI_DEFAULT_BASE, pd_base_url_attr = None,
      pd_proxy_attr = Some ''gemini_proxy''\<rparr>),
    (''deepseek'', \<lparr>pd_provider_id = ''deepseek'',
      pd_transport_type = AnthropicMessages,
      pd_capabilities = [''chat'', ''streaming'', ''tools'', ''thinking'', ''native_anthropic''],
      pd_credential_env = Some ''DEEPSEEK_API_KEY'',
      pd_credential_url = Some ''https://platform.deepseek.com/api_keys'',
      pd_credential_attr = Some ''deepseek_api_key'', pd_static_credential = None,
      pd_default_base_url = Some DEEPSEEK_ANTHROPIC_DEFAULT_BASE, pd_base_url_attr = None,
      pd_proxy_attr = Some ''deepseek_proxy''\<rparr>),
    (''mistral'', \<lparr>pd_provider_id = ''mistral'', pd_transport_type = OpenaiChat,
      pd_capabilities = [''chat'', ''streaming'', ''tools'', ''thinking'', ''rate_limit''],
      pd_credential_env = Some ''MISTRAL_API_KEY'',
      pd_credential_url = Some ''https://console.mistral.ai/'',
      pd_credential_attr = Some ''mistral_api_key'', pd_static_credential = None,
      pd_default_base_url = Some MISTRAL_DEFAULT_BASE, pd_base_url_attr = None,
      pd_proxy_attr = Some ''mistral_proxy''\<rparr>),
    (''mistral_codestral'', \<lparr>pd_provider_id = ''mistral_codestral'',
      pd_transport_type = OpenaiChat,
      pd_capabilities = [''chat'', ''streaming'', ''tools'', ''thinking'', ''rate_limit''],
      pd_credential_env = Some ''CODESTRAL_API_KEY'',
      pd_credential_url = Some ''https://console.mistral.ai/'',
      pd_credential_attr = Some ''codestral_api_key'', pd_static_credential = None,
      pd_default_base_url = Some CODESTRAL_DEFAULT_BASE, pd_base_url_attr = None,
      pd_proxy_attr = Some ''codestral_proxy''\<rparr>),
    (''opencode'', \<lparr>pd_provider_id = ''opencode'', pd_transport_type = OpenaiChat,
      pd_capabilities = [''chat'', ''streaming'', ''tools'', ''thinking'', ''rate_limit''],
      pd_credential_env = Some ''OPENCODE_API_KEY'',
      pd_credential_url = Some ''https://opencode.ai/auth'',
      pd_credential_attr = Some ''opencode_api_key'', pd_static_credential = None,
      pd_default_base_url = Some OPENCODE_DEFAULT_BASE, pd_base_url_attr = None,
      pd_proxy_attr = Some ''opencode_proxy''\<rparr>)]"

definition catalog_second :: "(string, descriptor) pydict" where
  "catalog_second = [
    (''opencode_go'', \<lparr>pd_provider_id = ''opencode_go'', pd_transport_type = OpenaiChat,
      pd_capabilities = [''chat'', ''streaming'', ''tools'', ''thinking'', ''rate_limit''],
      pd_credential_env = Some ''OPENCODE_API_KEY'',
      pd_credential_url = Some ''https://opencode.ai/auth'',
      pd_credential_attr = Some ''opencode_api_key'', pd_static_credential = None,
      pd_default_base_url = Some OPENCODE_GO_DEFAULT_BASE, pd_base_url_attr = None,
      pd_proxy_attr = Some ''opencode_go_proxy''\<rparr>),
    (''wafer'', \<lparr>pd_provider_id = ''wafer'', pd_transport_type = AnthropicMessages,
      pd_capabilities = [''chat'', ''streaming'', ''tools'', ''thinking'', ''native_anthropic''],
      pd_credential_env = Some ''WAFER_API_KEY'',
      pd_credential_url = Some ''https://www.wafer.ai/pass'',
      pd_credential_attr = Some ''wafer_api_key'', pd_static_credential = None,
      pd_default_base_url = Some WAFER_DEFAULT_BASE, pd_base_url_attr = None,
      pd_proxy_attr = Some ''wafer_proxy''\<rparr>),
    (''kimi'', \<lparr>pd_provider_id = ''kimi'', pd_transport_type = AnthropicMessages,
      pd_capabilities = [''chat'', ''streaming'', ''tools'', ''thinking'', ''native_anthropic''],
      pd_credential_env = Some ''KIMI_API_KEY'',
      pd_credential_url = Some ''https://platform.moonshot.cn/console/api-keys'',
      pd_credential_attr = Some ''kimi_api_key'', pd_static_credential = None,
      pd_default_base_url = Some KIMI_DEFAULT_BASE, pd_base_url_attr = None,
      pd_proxy_attr = Some ''kimi_proxy''\<rparr>),
    (''cerebras'', \<lparr>pd_provider_id = ''cerebras'', pd_transport_type = OpenaiChat,
      pd_capabilities = [''chat'', ''streaming'', ''tools'', ''thinking'', ''rate_limit''],
      pd_credential_env = Some ''CEREBRAS_API_KEY'',
      pd_credential_url = Some ''https://cloud.cerebras.ai'',
      pd_credential_attr = Some ''cerebras_api_key'', pd_static_credential = None,
      pd_default_base_url = Some CEREBRAS_DEFAULT_BASE, pd_base_url_attr = None,
      pd_proxy_attr = Some ''cerebras_proxy''\<rparr>),
    (''groq'', \<lparr>pd_provider_id = ''groq'', pd_transport_type = OpenaiChat,
      pd_capabilities = [''chat'', ''streaming'', ''tools'', ''thinking'', ''rate_limit''],
      pd_credential_env = Some ''GROQ_API_KEY'',
      pd_credential_url = Some ''https://console.groq.com/keys'',
      pd_credential_attr = Some ''groq_api_key'', pd_static_credential = None,
      pd_default_base_url = Some GROQ_DEFAULT_BASE, pd_base_url_attr = None,
      pd_proxy_attr = Some ''groq_proxy''\<rparr>),
    (''fireworks'', \<lparr>pd_provider_id = ''fireworks'',
      pd_transport_type = AnthropicMessages,
      pd_capabilities = [''chat'', ''streaming'', ''tools'', ''thinking'', ''native_anthropic'', ''rate_limit''],
      pd_credential_env = Some ''FIREWORKS_API_KEY'',
      pd_credential_url = Some ''https://fireworks.ai/account/api-keys'',
      pd_credential_attr = Some ''fireworks_api_key'', pd_static_credential = None,
      pd_default_base_url = Some FIREWORKS_DEFAULT_BASE, pd_base_url_attr = None,
      pd_proxy_attr = Some ''fireworks_proxy''\<rparr>),
    (''zai'', \<lparr>pd_provider_id = ''zai'', pd_transport_type = AnthropicMessages,
      pd_capabilities = [''chat'', ''streaming'', ''tools'', ''thinking'', ''native_anthropic'', ''rate_limit''],
      pd_credential_env = Some ''ZAI_API_KEY'', pd_credential_url = None,
      pd_credential_attr = Some ''zai_api_key'', pd_static_credential = None,
      pd_default_base_url = Some ZAI_DEFAULT_BASE, pd_base_url_attr = None,
      pd_proxy_attr = Some ''zai_proxy''\<rparr>)]"

definition catalog_local :: "(string, descriptor) pydict" where
  "catalog_local = [
    (''lmstudio'', \<lparr>pd_provider_id = ''lmstudio'',
      pd_transport_type = AnthropicMessages,
      pd_capabilities = [''chat'', ''streaming'', ''tools'', ''native_anthropic'', ''local''],
      pd_credential_env = None, pd_credential_url = None, pd_credential_attr = None,
      pd_static_credential = Some ''lm-studio'',
      pd_default_base_url = Some LMSTUDIO_DEFAULT_BASE,
      pd_base_url_attr = Some ''lm_studio_base_url'',
      pd_proxy_attr = Some ''lmstudio_proxy''\<rparr>),
    (''llamacpp'', \<lparr>pd_provider_id = ''llamacpp'',
      pd_transport_type = AnthropicMessages,
      pd_capabilities = [''chat'', ''streaming'', ''tools'', ''native_anthropic'', ''local''],
      pd_credential_env = None, pd_credential_url = None, pd_credential_attr = None,
      pd_static_credential = Some ''llamacpp'',
      pd_default_base_url = Some LLAMACPP_DEFAULT_BASE,
      pd_base_url_attr = Some ''llamacpp_base_url'',
      pd_proxy_attr = Some ''llamacpp_proxy''\<rparr>),
    (''ollama'', \<lparr>pd_provider_id = ''ollama'', pd_transport_type = AnthropicMessages,
      pd_capabilities = [''chat'', ''streaming'', ''tools'', ''thinking'', ''native_anthropic'', ''local''],
      pd_credential_env = None, pd_credential_url = None, pd_credential_attr = None,
      pd_static_credential = Some ''ollama'',
      pd_default_base_url = Some OLLAMA_DEFAULT_BASE,
      pd_base_url_attr = Some ''ollama_base_url'', pd_proxy_attr = None\<rparr>)]"

definition PROVIDER_CATALOG :: "(string, descriptor) pydict" where
  "PROVIDER_CATALOG = catalog_first @ catalog_second @ catalog_local"

definition SUPPORTED_PROVIDER_IDS :: "string list" where
  "SUPPORTED_PROVIDER_IDS = dict_keys PROVIDER_CATALOG"

definition catalog_ids :: "string list" where
  "catalog_ids = [''nvidia_nim'', ''open_router'', ''gemini'', ''deepseek'', ''mistral'', ''mistral_codestral'', ''opencode'', ''opencode_go'', ''wafer'', ''kimi'', ''cerebras'', ''groq'', ''fireworks'', ''zai'', ''lmstudio'', ''llamacpp'', ''ollama'']"

lemma supported_ids: "SUPPORTED_PROVIDER_IDS = catalog_ids"
  by (simp add: SUPPORTED_PROVIDER_IDS_def PROVIDER_CATALOG_def catalog_first_def catalog_second_def
      catalog_local_def catalog_ids_def dict_keys_def)

lemma supported_distinct: "distinct SUPPORTED_PROVIDER_IDS"
  by (simp add: supported_ids catalog_ids_def)

lemma supported_no_slash: "pid \<in> set SUPPORTED_PROVIDER_IDS \<Longrightarrow> CHR ''/'' \<notin> set pid \<and> pid \<noteq> []"
  by (auto simp: supported_ids catalog_ids_def)

lemma supported_not_gateway: "''anthropic'' \<notin> set SUPPORTED_PROVIDER_IDS"
  "''claude-3-freecc-no-thinking'' \<notin> set SUPPORTED_PROVIDER_IDS"
  by (simp_all add: supported_ids catalog_ids_def)

end
