(* ===== verification/ModelListing.thy ===== *)
theory ModelListing
  imports ProviderErrors
begin

section \<open>Model lists of the providers (\<open>providers/model_listing.py\<close>)\<close>

text \<open>
  Payloads are JSON values; \<open>_field\<close> of anything but a dictionary is \<open>None\<close>.  A \<open>frozenset\<close> is a set.
\<close>

record model_info =
  mi_model_id :: string
  mi_supports_thinking :: "bool option"

definition model_infos_from_ids :: "bool option \<Rightarrow> string list \<Rightarrow> model_info set" where
  "model_infos_from_ids thinking ids =
     set (map (\<lambda>i. \<lparr>mi_model_id = i, mi_supports_thinking = thinking\<rparr>) (filter (\<lambda>i. py_strip i \<noteq> []) ids))"

definition malformed :: "string \<Rightarrow> string \<Rightarrow> exc" where
  "malformed provider reason = model_list_response_error (provider @ '' model-list response is malformed: '' @ reason)"

definition field :: "json \<Rightarrow> string \<Rightarrow> json option" where
  "field item name = (case json_get name item of Some JNull \<Rightarrow> None | v \<Rightarrow> v)"

text \<open>The value as a sequence, where it is one.\<close>

definition as_sequence :: "json option \<Rightarrow> json list option" where
  "as_sequence v = (case v of Some (JList xs) \<Rightarrow> Some xs | _ \<Rightarrow> None)"

text \<open>A string that is not blank.\<close>

definition as_id :: "json option \<Rightarrow> string option" where
  "as_id v = (case v of Some (JStr s) \<Rightarrow> if py_strip s \<noteq> [] then Some s else None | _ \<Rightarrow> None)"

fun collect_ids :: "string \<Rightarrow> json list \<Rightarrow> exc + string set" where
  "collect_ids provider [] = Inr {}"
| "collect_ids provider (item # items) =
     (case as_id (field item ''id'') of
        None \<Rightarrow> Inl (malformed provider ''expected every data item to include id'')
      | Some i \<Rightarrow>
          (case collect_ids provider items of
             Inl e \<Rightarrow> Inl e
           | Inr ids \<Rightarrow> Inr (insert i ids)))"

definition extract_openai_model_ids :: "string \<Rightarrow> json \<Rightarrow> exc + string set" where
  "extract_openai_model_ids provider payload =
     (case as_sequence (field payload ''data'') of
        None \<Rightarrow> Inl (malformed provider ''expected top-level data array'')
      | Some items \<Rightarrow>
          (case collect_ids provider items of
             Inl e \<Rightarrow> Inl e
           | Inr ids \<Rightarrow>
               if ids = {} then Inl (malformed provider ''response did not include any model ids'') else Inr ids))"

definition string_items :: "json list \<Rightarrow> string list" where
  "string_items xs = concat (map (\<lambda>x. case x of JStr s \<Rightarrow> [s] | _ \<Rightarrow> []) xs)"

fun collect_tool_infos :: "string \<Rightarrow> json list \<Rightarrow> exc + model_info set" where
  "collect_tool_infos provider [] = Inr {}"
| "collect_tool_infos provider (item # items) =
     (case as_id (field item ''id'') of
        None \<Rightarrow> Inl (malformed provider ''expected every data item to include id'')
      | Some i \<Rightarrow>
          (case collect_tool_infos provider items of
             Inl e \<Rightarrow> Inl e
           | Inr infos \<Rightarrow>
               (case as_sequence (field item ''supported_parameters'') of
                  None \<Rightarrow> Inr infos
                | Some ps \<Rightarrow>
                    let names = string_items ps in
                    if ''tools'' \<notin> set names \<and> ''tool_choice'' \<notin> set names then Inr infos
                    else Inr (insert \<lparr>mi_model_id = i, mi_supports_thinking = Some (''reasoning'' \<in> set names)\<rparr> infos))))"

definition extract_openrouter_tool_model_infos :: "string \<Rightarrow> json \<Rightarrow> exc + model_info set" where
  "extract_openrouter_tool_model_infos provider payload =
     (case as_sequence (field payload ''data'') of
        None \<Rightarrow> Inl (malformed provider ''expected top-level data array'')
      | Some items \<Rightarrow> collect_tool_infos provider items)"

definition extract_openrouter_tool_model_ids :: "string \<Rightarrow> json \<Rightarrow> exc + string set" where
  "extract_openrouter_tool_model_ids provider payload =
     (case extract_openrouter_tool_model_infos provider payload of
        Inl e \<Rightarrow> Inl e
      | Inr infos \<Rightarrow> Inr (mi_model_id ` infos))"

fun collect_ollama_ids :: "string \<Rightarrow> json list \<Rightarrow> exc + string set" where
  "collect_ollama_ids provider [] = Inr {}"
| "collect_ollama_ids provider (item # items) =
     (let ids = List.map_filter (\<lambda>k. as_id (field item k)) [''model'', ''name''] in
      if ids = [] then Inl (malformed provider ''expected every models item to include model or name'')
      else case collect_ollama_ids provider items of
             Inl e \<Rightarrow> Inl e
           | Inr rest \<Rightarrow> Inr (set ids \<union> rest))"

definition extract_ollama_model_ids :: "string \<Rightarrow> json \<Rightarrow> exc + string set" where
  "extract_ollama_model_ids provider payload =
     (case as_sequence (field payload ''models'') of
        None \<Rightarrow> Inl (malformed provider ''expected top-level models array'')
      | Some items \<Rightarrow>
          (case collect_ollama_ids provider items of
             Inl e \<Rightarrow> Inl e
           | Inr ids \<Rightarrow>
               if ids = {} then Inl (malformed provider ''response did not include any model ids'') else Inr ids))"

subsection \<open>What a list contains\<close>

lemma as_id_Some: "as_id v = Some s \<longleftrightarrow> v = Some (JStr s) \<and> py_strip s \<noteq> []"
  by (auto simp: as_id_def split: option.splits json.splits)

lemma collect_ids_eq:
  "collect_ids provider items =
     (if \<forall>x \<in> set items. as_id (field x ''id'') \<noteq> None
      then Inr {i. \<exists>x \<in> set items. as_id (field x ''id'') = Some i}
      else Inl (malformed provider ''expected every data item to include id''))"
proof (induction items)
  case (Cons x xs)
  have "insert i {i. \<exists>x \<in> set xs. as_id (field x ''id'') = Some i} = {j. \<exists>y \<in> set (x # xs). as_id (field y ''id'') = Some j}"
    if "as_id (field x ''id'') = Some i" for i using that by auto
  then show ?case using Cons.IH by (cases "as_id (field x ''id'')") simp_all
qed simp

lemma extract_openai_iff:
  "extract_openai_model_ids provider payload = Inr ids \<longleftrightarrow>
     (\<exists>items. as_sequence (field payload ''data'') = Some items \<and> items \<noteq> [] \<and>
        (\<forall>x \<in> set items. as_id (field x ''id'') \<noteq> None) \<and> ids = {i. \<exists>x \<in> set items. as_id (field x ''id'') = Some i})"
proof (cases "as_sequence (field payload ''data'')")
  case (Some items)
  let ?ids = "{i. \<exists>x \<in> set items. as_id (field x ''id'') = Some i}"
  show ?thesis
  proof (cases "\<forall>x \<in> set items. as_id (field x ''id'') \<noteq> None")
    case True
    then have "?ids = {} \<longleftrightarrow> items = []" by (cases items) auto
    then show ?thesis using Some True by (auto simp: extract_openai_model_ids_def collect_ids_eq simp del: ex_simps)
  next
    case False
    then show ?thesis using Some by (auto simp: extract_openai_model_ids_def collect_ids_eq)
  qed
qed (simp add: extract_openai_model_ids_def)

lemma extracted_ids_not_blank:
  assumes "extract_openai_model_ids provider payload = Inr ids"
  shows "ids \<noteq> {}" and "i \<in> ids \<Longrightarrow> py_strip i \<noteq> []"
proof -
  obtain items where items: "items \<noteq> []" "\<forall>x \<in> set items. as_id (field x ''id'') \<noteq> None"
      "ids = {i. \<exists>x \<in> set items. as_id (field x ''id'') = Some i}"
    using assms extract_openai_iff by blast
  then show "ids \<noteq> {}" by (cases items) auto
  show "i \<in> ids \<Longrightarrow> py_strip i \<noteq> []" using items(3) by (auto simp: as_id_Some)
qed

lemma tool_infos_iff:
  "collect_tool_infos provider items = Inr infos \<Longrightarrow>
     infos = {\<lparr>mi_model_id = i, mi_supports_thinking = Some (''reasoning'' \<in> set (string_items ps))\<rparr> | x i ps.
       x \<in> set items \<and> as_id (field x ''id'') = Some i \<and> as_sequence (field x ''supported_parameters'') = Some ps \<and>
       (''tools'' \<in> set (string_items ps) \<or> ''tool_choice'' \<in> set (string_items ps))}"
  by (induction items arbitrary: infos) (auto simp: Let_def split: option.splits sum.splits if_splits)

end
