(* ===== verification/NativeClients.thy ===== *)
theory NativeClients
  imports NativeTransportSound NativeRequestSound DeepSeekRequest ProviderCatalog ModelListing
begin

section \<open>The native providers (\<open>providers/*/client.py\<close>)\<close>

text \<open>
  The nine providers on the native transport: what each overrides of the name, the base URL, the
  body, the headers, the paths and the reading of its model list.  A model-list response is its
  status and its body (\<open>None\<close> where it is no JSON); \<open>httpx.URL.copy_with(path="/models")\<close> is an argument.
\<close>

datatype native_provider =
  OpenRouterProvider | WaferProvider | KimiProvider | DeepSeekProvider | ZaiProvider | FireworksProvider
  | OllamaProvider | LMStudioProvider | LlamaCppProvider

definition native_provider_name :: "native_provider \<Rightarrow> string" where
  "native_provider_name p =
     (case p of
        OpenRouterProvider \<Rightarrow> ''OPENROUTER'' | WaferProvider \<Rightarrow> ''WAFER'' | KimiProvider \<Rightarrow> ''KIMI''
      | DeepSeekProvider \<Rightarrow> ''DEEPSEEK'' | ZaiProvider \<Rightarrow> ''ZAI'' | FireworksProvider \<Rightarrow> ''FIREWORKS''
      | OllamaProvider \<Rightarrow> ''OLLAMA'' | LMStudioProvider \<Rightarrow> ''LMSTUDIO'' | LlamaCppProvider \<Rightarrow> ''LLAMACPP'')"

definition FIREWORKS_BASE_URL :: string where
  "FIREWORKS_BASE_URL = ''https://api.fireworks.ai/inference/v1''"

definition native_default_base_url :: "native_provider \<Rightarrow> string" where
  "native_default_base_url p =
     (case p of
        OpenRouterProvider \<Rightarrow> OPENROUTER_DEFAULT_BASE | WaferProvider \<Rightarrow> WAFER_DEFAULT_BASE
      | KimiProvider \<Rightarrow> KIMI_DEFAULT_BASE | DeepSeekProvider \<Rightarrow> DEEPSEEK_ANTHROPIC_DEFAULT_BASE
      | ZaiProvider \<Rightarrow> ZAI_DEFAULT_BASE | FireworksProvider \<Rightarrow> FIREWORKS_BASE_URL
      | OllamaProvider \<Rightarrow> OLLAMA_DEFAULT_BASE | LMStudioProvider \<Rightarrow> LMSTUDIO_DEFAULT_BASE
      | LlamaCppProvider \<Rightarrow> LLAMACPP_DEFAULT_BASE)"

text \<open>\<open>(config.base_url or default_base_url).rstrip("/")\<close>\<close>

definition native_base_url :: "native_provider \<Rightarrow> string option \<Rightarrow> string" where
  "native_base_url p configured =
     rev (dropWhile (\<lambda>c. c = CHR ''/'')
       (rev (if truthy_str configured then the configured else native_default_base_url p)))"

definition native_kind_of :: "native_provider \<Rightarrow> native_kind" where
  "native_kind_of p = (if p = OpenRouterProvider then OpenRouterTransport else SharedTransport)"

definition messages_path :: "native_provider \<Rightarrow> string" where
  "messages_path p = (if p = OllamaProvider then ''/v1/messages'' else ''/messages'')"

subsection \<open>Headers\<close>

definition ANTHROPIC_VERSION :: string where
  "ANTHROPIC_VERSION = ''2023-06-01''"

definition bearer_headers :: "string \<Rightarrow> (string, string) pydict" where
  "bearer_headers api_key =
     [(''Accept'', ''text/event-stream''), (''Authorization'', ''Bearer '' @ api_key),
      (''Content-Type'', ''application/json''), (''anthropic-version'', ANTHROPIC_VERSION)]"

definition deepseek_headers :: "string \<Rightarrow> (string, string) pydict" where
  "deepseek_headers api_key =
     [(''Accept'', ''text/event-stream''), (''Content-Type'', ''application/json''), (''x-api-key'', api_key)]"

definition zai_headers :: "string \<Rightarrow> (string, string) pydict" where
  "zai_headers api_key =
     [(''Accept'', ''text/event-stream''), (''Content-Type'', ''application/json''), (''x-api-key'', api_key),
      (''anthropic-version'', ANTHROPIC_VERSION)]"

definition request_headers :: "native_provider \<Rightarrow> string \<Rightarrow> (string, string) pydict" where
  "request_headers p api_key =
     (if p \<in> {OpenRouterProvider, WaferProvider, KimiProvider, FireworksProvider} then bearer_headers api_key
      else if p = DeepSeekProvider then deepseek_headers api_key
      else if p = ZaiProvider then zai_headers api_key
      else [(''Content-Type'', ''application/json'')])"

definition zai_model_list_headers :: "string \<Rightarrow> (string, string) pydict" where
  "zai_model_list_headers api_key = [(''x-api-key'', api_key), (''anthropic-version'', ANTHROPIC_VERSION)]"

definition model_list_headers :: "native_provider \<Rightarrow> string \<Rightarrow> (string, string) pydict" where
  "model_list_headers p api_key =
     (if p = ZaiProvider then zai_model_list_headers api_key
      else if p \<in> {OllamaProvider, LMStudioProvider, LlamaCppProvider} then []
      else [(''Authorization'', ''Bearer '' @ api_key)])"

subsection \<open>Bodies\<close>

text \<open>\<open>_build_request_body\<close>; \<open>internal\<close> is the exception object of a Python error.\<close>

definition native_build_request_body ::
  "text_env \<Rightarrow> (py_error \<Rightarrow> exc) \<Rightarrow> native_provider \<Rightarrow> bool \<Rightarrow> messages_request \<Rightarrow> bool option \<Rightarrow> exc + jdict" where
  "native_build_request_body tenv internal p enable_thinking rq thinking_enabled =
     (let switch = is_thinking_enabled enable_thinking rq thinking_enabled in
      case p of
        OpenRouterProvider \<Rightarrow> openrouter_build_request_body rq switch
      | KimiProvider \<Rightarrow> kimi_build_request_body rq switch
      | ZaiProvider \<Rightarrow> zai_build_request_body rq switch
      | DeepSeekProvider \<Rightarrow>
          (case deepseek_build_request_body tenv rq switch of
             Inl (Inl x) \<Rightarrow> Inl (internal x)
           | Inl (Inr e) \<Rightarrow> Inl e
           | Inr body \<Rightarrow> Inr body)
      | FireworksProvider \<Rightarrow>
          fireworks_build_request_body rq
            (case thinking_enabled of None \<Rightarrow> is_thinking_enabled enable_thinking rq None | Some b \<Rightarrow> b)
      | WaferProvider \<Rightarrow> Inr (wafer_build_request_body rq switch)
      | _ \<Rightarrow> Inr (build_base_native_anthropic_request_body rq ANTHROPIC_DEFAULT_MAX_OUTPUT_TOKENS switch))"

subsection \<open>Model lists\<close>

definition model_list_url :: "(string \<Rightarrow> string) \<Rightarrow> native_provider \<Rightarrow> string \<Rightarrow> string" where
  "model_list_url models_root p base =
     (case p of
        KimiProvider \<Rightarrow> ''https://api.moonshot.ai/v1/models''
      | DeepSeekProvider \<Rightarrow> models_root base
      | OllamaProvider \<Rightarrow> base @ ''/api/tags''
      | _ \<Rightarrow> base @ ''/models'')"

definition model_list_json :: "(http_response \<Rightarrow> exc) \<Rightarrow> string \<Rightarrow> http_response \<Rightarrow> json option \<Rightarrow> exc + json" where
  "model_list_json status_error name r payload =
     (if 200 \<le> hr_status r \<and> hr_status r \<le> 299
      then (case payload of
              None \<Rightarrow> Inl (malformed name ''invalid JSON'')
            | Some j \<Rightarrow> Inr j)
      else Inl (status_error r))"

definition extract_model_ids :: "native_provider \<Rightarrow> json \<Rightarrow> exc + string set" where
  "extract_model_ids p payload =
     (case p of
        OpenRouterProvider \<Rightarrow> extract_openrouter_tool_model_ids (native_provider_name p) payload
      | OllamaProvider \<Rightarrow> extract_ollama_model_ids (native_provider_name p) payload
      | _ \<Rightarrow> extract_openai_model_ids (native_provider_name p) payload)"

text \<open>The order of a \<open>frozenset\<close> is left open: its members as a set.\<close>

definition extract_model_infos :: "native_provider \<Rightarrow> json \<Rightarrow> exc + model_info set" where
  "extract_model_infos p payload =
     (if p = OpenRouterProvider then extract_openrouter_tool_model_infos (native_provider_name p) payload
      else case extract_model_ids p payload of
             Inl e \<Rightarrow> Inl e
           | Inr ids \<Rightarrow> Inr ((\<lambda>i. \<lparr>mi_model_id = i, mi_supports_thinking = None\<rparr>) ` {i \<in> ids. py_strip i \<noteq> []}))"

definition list_model_infos ::
  "(http_response \<Rightarrow> exc) \<Rightarrow> native_provider \<Rightarrow> http_response \<Rightarrow> json option \<Rightarrow> exc + model_info set" where
  "list_model_infos status_error p r payload =
     (case model_list_json status_error (native_provider_name p) r payload of
        Inl e \<Rightarrow> Inl e
      | Inr j \<Rightarrow> extract_model_infos p j)"

definition list_model_ids ::
  "(http_response \<Rightarrow> exc) \<Rightarrow> native_provider \<Rightarrow> http_response \<Rightarrow> json option \<Rightarrow> exc + string set" where
  "list_model_ids status_error p r payload =
     (case list_model_infos status_error p r payload of
        Inl e \<Rightarrow> Inl e
      | Inr infos \<Rightarrow> Inr (mi_model_id ` infos))"

subsection \<open>What is asked of the upstream\<close>

lemma dump_stream: "dict_get ''stream'' (dump_request_fields rq) = map_option JBool (rq_stream rq)"
  by (simp add: dump_get) (simp add: request_fields_def given_def option.case_eq_if split: option.split)

lemma finish_stream: "dict_get ''stream'' (openrouter_finish b cfg dm body) = Some (JBool True)"
proof -
  have s: "''stream'' \<in> set OPENROUTER_EXTRA_BODY_FORBIDDEN_KEYS" by (simp add: OPENROUTER_EXTRA_BODY_FORBIDDEN_KEYS_def)
  have "dict_get ''stream'' (apply_openrouter_reasoning_policy cfg d) = dict_get ''stream'' d" for d
    using agree_get [OF reasoning_agree s] by blast
  then show ?thesis by (simp add: openrouter_finish_def Let_def)
qed

lemma base_stream:
  "dict_get ''stream'' (build_base_native_anthropic_request_body rq dm b) = map_option JBool (rq_stream rq)"
  by (simp add: base_body_get dump_stream)

text \<open>C25. Every answer of the proxy is a stream, but four providers pass the request's own stream flag on: a
  request with \<open>"stream": false\<close> asks Wafer, Ollama, LM Studio and llama.cpp for one JSON document,
  whose lines are then read as events.  The other five always ask for a stream.\<close>

theorem stream_flag_exact:
  assumes "native_build_request_body tenv internal p enable_thinking rq override = Inr body"
  shows "dict_get ''stream'' body =
    (if p \<in> {WaferProvider, OllamaProvider, LMStudioProvider, LlamaCppProvider} then map_option JBool (rq_stream rq)
     else Some (JBool True))"
proof (cases p)
  case OpenRouterProvider
  then show ?thesis using assms
    by (auto simp: native_build_request_body_def openrouter_build_request_body_def build_openrouter_native_request_body_def
        Let_def finish_stream split: sum.splits json.splits if_splits)
next
  case DeepSeekProvider
  then obtain switch where "deepseek_build_request_body tenv rq switch = Inr body"
    using assms by (auto simp: native_build_request_body_def Let_def split: sum.splits)
  then show ?thesis unfolding deepseek_build_request_body_def Let_def by (auto simp: DeepSeekProvider split: sum.splits)
next
  case FireworksProvider
  then show ?thesis using assms
    by (auto simp: native_build_request_body_def fireworks_build_request_body_def Let_def split: option.splits list.splits sum.splits)
qed (use assms in \<open>auto simp: native_build_request_body_def kimi_build_request_body_def zai_build_request_body_def
       build_without_extra_body_def wafer_build_request_body_def base_stream Let_def split: option.splits list.splits if_splits\<close>)


text \<open>C29. A request that switches thinking off itself is still sent to Fireworks with thinking on, because
  the switch of the route replaces the request's own there; Kimi, with the same body otherwise,
  is sent no thinking.  The answer's thinking is then dropped on the way back.\<close>

theorem fireworks_ignores_request_switch:
  assumes "rq_thinking rq = Some c" and "tc_enabled c = Some False" and "rq_extra_body rq = None"
  shows "is_thinking_enabled enable_thinking rq (Some True) = False \<and>
    (\<exists>body. native_build_request_body tenv internal FireworksProvider enable_thinking rq (Some True) = Inr body \<and>
       (\<exists>cfg. dict_get ''thinking'' body = Some (JObj ((''type'', JStr ''enabled'') # cfg)))) \<and>
    (\<exists>body. native_build_request_body tenv internal KimiProvider enable_thinking rq (Some True) = Inr body \<and>
       dict_get ''thinking'' body = None)"
  using assms
  by (simp add: native_build_request_body_def is_thinking_enabled_def fireworks_build_request_body_def
      kimi_build_request_body_def build_without_extra_body_def base_body_get body_thinking_def Let_def)

text \<open>The key of a provider that has one is in exactly one header, and the local providers are sent none.\<close>

lemma api_key_headers:
  "filter (\<lambda>(k, v). v \<in> {key, ''Bearer '' @ key}) (request_headers p key) =
     (if p \<in> {OllamaProvider, LMStudioProvider, LlamaCppProvider} then []
      else if p \<in> {DeepSeekProvider, ZaiProvider} then [(''x-api-key'', key)]
      else [(''Authorization'', ''Bearer '' @ key)])"
  if "key \<notin> {''text/event-stream'', ''application/json'', ANTHROPIC_VERSION}"
  using that by (cases p) (auto simp: request_headers_def bearer_headers_def deepseek_headers_def zai_headers_def ANTHROPIC_VERSION_def)

text \<open>A model list is taken from a good response only, and what is listed are the ids it gives, the blank ones left out.\<close>

lemma list_model_ids_sound:
  "list_model_ids status_error p r payload = Inr ids \<Longrightarrow>
     200 \<le> hr_status r \<and> hr_status r \<le> 299 \<and>
     (\<exists>j. payload = Some j \<and> (p \<noteq> OpenRouterProvider \<longrightarrow> (\<exists>all. extract_model_ids p j = Inr all \<and> ids = {i \<in> all. py_strip i \<noteq> []})))"
  by (auto simp: list_model_ids_def list_model_infos_def model_list_json_def extract_model_infos_def image_image
      split: sum.splits option.splits if_splits)

text \<open>The environment of a provider's stream.\<close>

definition native_env_of ::
  "text_env \<Rightarrow> (py_error \<Rightarrow> exc) \<Rightarrow> native_provider \<Rightarrow> native_env \<Rightarrow> native_env" where
  "native_env_of tenv internal p env =
     env\<lparr>ne_kind := native_kind_of p, ne_name := native_provider_name p, ne_internal := internal,
         ne_build := native_build_request_body tenv internal p (ne_enable_thinking env)\<rparr>"

theorem stream_flag_exact_witness:
  "\<exists>body. native_build_request_body demo_text (ne_internal demo_native_env) LMStudioProvider True (demo_native\<lparr>rq_stream := Some False\<rparr>) None = Inr body \<and>
     dict_get ''stream'' body = Some (JBool False)"
proof -
  obtain body where b: "native_build_request_body demo_text (ne_internal demo_native_env) LMStudioProvider True (demo_native\<lparr>rq_stream := Some False\<rparr>) None = Inr body"
    by (simp add: native_build_request_body_def)
  then show ?thesis using stream_flag_exact [OF b] by simp
qed

theorem fireworks_ignores_request_switch_witness:
  "\<exists>body. native_build_request_body demo_text (ne_internal demo_native_env) FireworksProvider True
      (demo_native\<lparr>rq_thinking := Some (demo_disabled\<lparr>tc_enabled := Some False\<rparr>)\<rparr>) (Some True) = Inr body \<and>
    dict_get ''thinking'' body \<noteq> None"
  using fireworks_ignores_request_switch [of "demo_native\<lparr>rq_thinking := Some (demo_disabled\<lparr>tc_enabled := Some False\<rparr>)\<rparr>"
      "demo_disabled\<lparr>tc_enabled := Some False\<rparr>" True demo_text "ne_internal demo_native_env"]
  by (auto simp: demo_native_def demo_disabled_def)

end
