(* ===== verification/HeuristicTools.thy ===== *)
theory HeuristicTools
  imports StreamText PyText
begin

section \<open>Tool calls emitted as text (\<open>core/anthropic/tools.py\<close>)\<close>

text \<open>
  \<open>HeuristicToolParser\<close> turns \<open>\<bullet> <function=...>\<close> calls and web tool calls in JSON form, which some models
  write into their text, into \<open>tool_use\<close> blocks.  A HOL character is one of Latin-1, so the bullet
  stands in its Windows-1252 place 0x95, which is no letter and no space, as the bullet is none.
  \<open>json.loads\<close> and the fresh ids (\<open>uuid4\<close>) are arguments; the regular expressions are written out as
  scanners.  \<open>None\<close> of the current call, before the first one, is an empty string.
\<close>

abbreviation BULLET :: char where "BULLET \<equiv> CHR 0x95"

datatype parser_state = PsText | PsMatchingFunction | PsParsingParameters

record heuristic_parser =
  hp_state :: parser_state
  hp_buffer :: string
  hp_tool_id :: string
  hp_function :: string
  hp_parameters :: "(string, string) pydict"
  hp_ids :: nat  \<comment> \<open>the number of ids drawn so far\<close>

definition hp_init :: heuristic_parser where
  "hp_init = \<lparr>hp_state = PsText, hp_buffer = [], hp_tool_id = [], hp_function = [], hp_parameters = [], hp_ids = 0\<rparr>"

record heuristic_env =
  he_loads :: "string \<Rightarrow> json option"
  he_fresh :: "nat \<Rightarrow> string"

definition heuristic_id :: "heuristic_env \<Rightarrow> nat \<Rightarrow> string" where
  "heuristic_id env n = ''toolu_heuristic_'' @ he_fresh env n"

subsection \<open>Control tokens\<close>

text \<open>The length of a match of \<open><\|[^|>]{1,80}\|>\<close> at the beginning.\<close>

definition control_token :: "string \<Rightarrow> nat option" where
  "control_token s =
     (let n = length (takeWhile (\<lambda>c. c \<noteq> CHR ''|'' \<and> c \<noteq> CHR ''>'') (drop 2 s)) in
      if prefix ''<|'' s \<and> 1 \<le> n \<and> n \<le> 80 \<and> prefix ''|>'' (drop (2 + n) s) then Some (n + 4) else None)"

function strip_control_tokens :: "string \<Rightarrow> string" where
  "strip_control_tokens s =
     (case s of
        [] \<Rightarrow> []
      | c # cs \<Rightarrow>
          (case control_token s of
             Some n \<Rightarrow> strip_control_tokens (drop n s)
           | None \<Rightarrow> c # strip_control_tokens cs))"
  by pat_completeness auto

termination
  by (relation "measure length") (auto simp: control_token_def Let_def split: if_splits)

declare strip_control_tokens.simps [simp del]

text \<open>The last place of a string.\<close>

fun py_rfind_str :: "string \<Rightarrow> string \<Rightarrow> nat option" where
  "py_rfind_str p [] = (if p = [] then Some 0 else None)"
| "py_rfind_str p (c # s) =
     (case py_rfind_str p s of
        Some i \<Rightarrow> Some (Suc i)
      | None \<Rightarrow> if prefix p (c # s) then Some 0 else None)"

text \<open>\<open>_split_incomplete_control_token_tail\<close>: the prefix and the buffer.\<close>

definition split_incomplete_control_token_tail :: "string \<Rightarrow> string \<times> string" where
  "split_incomplete_control_token_tail buffer =
     (case py_rfind_str ''<|'' buffer of
        None \<Rightarrow> ([], buffer)
      | Some start \<Rightarrow>
          if py_find ''|>'' (drop start buffer) \<noteq> None then ([], buffer)
          else (take start buffer, drop start buffer))"

subsection \<open>Web tools in JSON form\<close>

text \<open>\<open>\w\<close> among the characters of Latin-1, and \<open>\b\<close> between two places.\<close>

definition word_char :: "char \<Rightarrow> bool" where
  "word_char c =
     (let n = of_char c :: nat in
      48 \<le> n \<and> n \<le> 57 \<or> 65 \<le> n \<and> n \<le> 90 \<or> n = 95 \<or> 97 \<le> n \<and> n \<le> 122 \<or>
      n \<in> {170, 178, 179, 181, 185, 186, 188, 189, 190} \<or> 192 \<le> n \<and> n \<noteq> 215 \<and> n \<noteq> 247)"

definition starts_with_word :: "string \<Rightarrow> bool" where
  "starts_with_word s = (case s of [] \<Rightarrow> False | c # _ \<Rightarrow> word_char c)"

definition ends_with_word :: "char option \<Rightarrow> bool" where
  "ends_with_word prev = (case prev of None \<Rightarrow> False | Some c \<Rightarrow> word_char c)"

text \<open>A prefix in either case: the letters of the pattern in both.\<close>

fun prefix_ignoring_case :: "(char \<times> char) list \<Rightarrow> string \<Rightarrow> bool" where
  "prefix_ignoring_case [] s = True"
| "prefix_ignoring_case (p # ps) [] = False"
| "prefix_ignoring_case ((l, u) # ps) (c # s) = (if c = l \<or> c = u then prefix_ignoring_case ps s else False)"

text \<open>The length of the tool's name where one begins, given the character before.\<close>

definition web_tool_at :: "char option \<Rightarrow> string \<Rightarrow> nat option" where
  "web_tool_at prev s =
     (if prefix_ignoring_case (zip ''webfetch'' ''WEBFETCH'') s then
        (if ends_with_word prev \<or> starts_with_word (drop 8 s) then None else Some 8)
      else if prefix_ignoring_case (zip ''websearch'' ''WEBSEARCH'') s then
        (if ends_with_word prev \<or> starts_with_word (drop 9 s) then None else Some 9)
      else None)"

text \<open>\<open>.*?(?P<json>\{.*?\})\<close>: from the first brace to the first closing one, and the rest.\<close>

definition json_group :: "string \<Rightarrow> (string \<times> string) option" where
  "json_group s =
     (let t = dropWhile (\<lambda>c. c \<noteq> CHR ''{'') s; body = takeWhile (\<lambda>c. c \<noteq> CHR ''}'') t; rest = dropWhile (\<lambda>c. c \<noteq> CHR ''}'') t
      in case rest of
           [] \<Rightarrow> None
         | c # rest \<Rightarrow> Some (body @ [c], rest))"

lemma json_group_length: "json_group s = Some (j, r) \<Longrightarrow> length r < length s"
proof -
  let ?t = "dropWhile (\<lambda>c. c \<noteq> CHR ''{'') s"
  assume "json_group s = Some (j, r)"
  then obtain c where "dropWhile (\<lambda>c. c \<noteq> CHR ''}'') ?t = c # r"
    by (auto simp: json_group_def Let_def split: list.splits)
  then have "length (c # r) \<le> length ?t" by (metis length_dropWhile_le)
  then show ?thesis using length_dropWhile_le [of "\<lambda>c. c \<noteq> CHR ''{''" s] by simp
qed

text \<open>\<open>finditer\<close>: the name and the JSON text of every match.  The optional \<open>use\<close> before the name changes
  neither of them.\<close>

function web_matches :: "char option \<Rightarrow> string \<Rightarrow> (string \<times> string) list" where
  "web_matches prev s =
     (case s of
        [] \<Rightarrow> []
      | c # cs \<Rightarrow>
          (case web_tool_at prev s of
             None \<Rightarrow> web_matches (Some c) cs
           | Some n \<Rightarrow>
               (case json_group (drop n s) of
                  None \<Rightarrow> web_matches (Some c) cs
                | Some (j, rest) \<Rightarrow> (take n s, j) # web_matches (Some CHR ''}'') rest)))"
  by pat_completeness auto

termination
proof (relation "measure (length \<circ> snd)")
  fix prev and s :: string and c cs n p j rest
  assume "s = c # cs" and "web_tool_at prev s = Some n" and "json_group (drop n s) = Some p" and "(j, rest) = p"
  then show "((Some CHR ''}'', rest), prev, s) \<in> measure (length \<circ> snd)"
    using json_group_length [of "drop n s" j rest] by auto
qed auto

declare web_matches.simps [simp del]

definition web_input :: "heuristic_env \<Rightarrow> string \<times> string \<Rightarrow> (string \<times> (string, json) pydict) option" where
  "web_input env m =
     (case he_loads env (snd m) of
        Some (JObj d) \<Rightarrow>
          if fst m = ''WebFetch'' \<and> \<not> dict_has ''url'' d then None
          else if fst m = ''WebSearch'' \<and> \<not> dict_has ''query'' d then None
          else Some (fst m, d)
      | _ \<Rightarrow> None)"

text \<open>\<open>_extract_web_tool_json_calls\<close>: the buffer, the tools, the number of ids.\<close>

definition extract_web_tool_json_calls :: "heuristic_env \<Rightarrow> string \<Rightarrow> nat \<Rightarrow> string \<times> tool_use list \<times> nat" where
  "extract_web_tool_json_calls env buffer ids =
     (let inputs = List.map_filter (web_input env) (web_matches None buffer);
          tools = map (\<lambda>(i, name, d). \<lparr>tu_id = heuristic_id env (ids + i), tu_name = name, tu_input = JObj d\<rparr>)
                    (enumerate 0 inputs)
      in (if tools = [] then buffer else [], tools, ids + length tools))"

subsection \<open>Function calls\<close>

text \<open>\<open>[^>]+>\<close>: the name and what follows.\<close>

definition tag_name :: "string \<Rightarrow> (string \<times> string) option" where
  "tag_name s =
     (case dropWhile (\<lambda>c. c \<noteq> CHR ''>'') s of
        [] \<Rightarrow> None
      | _ # rest \<Rightarrow>
          let name = takeWhile (\<lambda>c. c \<noteq> CHR ''>'') s in if name = [] then None else Some (name, rest))"

lemma tag_name_length: "tag_name s = Some (n, r) \<Longrightarrow> length r < length s"
  using length_dropWhile_le [of "\<lambda>c. c \<noteq> CHR ''>''" s] by (auto simp: tag_name_def Let_def split: list.splits if_splits)

text \<open>\<open>\<bullet>\s*<function=([^>]+)>\<close> at the beginning, and its first match.\<close>

definition function_here :: "string \<Rightarrow> (string \<times> string) option" where
  "function_here s =
     (case s of
        [] \<Rightarrow> None
      | c # cs \<Rightarrow>
          let t = dropWhile py_space cs in
          if c = BULLET \<and> prefix ''<function='' t then tag_name (drop 10 t) else None)"

fun function_search :: "string \<Rightarrow> (string \<times> string) option" where
  "function_search [] = None"
| "function_search (c # s) =
     (case function_here (c # s) of
        Some m \<Rightarrow> Some m
      | None \<Rightarrow> function_search s)"

text \<open>\<open><parameter=([^>]+)>\<close> at its first place: what comes before, the name, what follows.\<close>

fun parameter_search :: "string \<Rightarrow> (string \<times> string \<times> string) option" where
  "parameter_search [] = None"
| "parameter_search (c # s) =
     (case (if prefix ''<parameter='' (c # s) then tag_name (drop 11 (c # s)) else None) of
        Some (name, rest) \<Rightarrow> Some ([], name, rest)
      | None \<Rightarrow>
          (case parameter_search s of
             None \<Rightarrow> None
           | Some (pre, name, rest) \<Rightarrow> Some (c # pre, name, rest)))"

text \<open>A parameter with its closing tag: the text before, key, value, the text after.  Without a closing
  tag the pattern matches up to the end (\<open>$\<close>: before a final newline), which the code takes as not complete, unless
  the name itself ends in \<open></parameter\<close>, which puts the closing tag into the match.\<close>

definition complete_parameter :: "string \<Rightarrow> (string \<times> string \<times> string \<times> string) option" where
  "complete_parameter s =
     (case parameter_search s of
        None \<Rightarrow> None
      | Some (pre, name, rest) \<Rightarrow>
          (case py_find ''</parameter>'' rest of
             Some i \<Rightarrow> Some (pre, py_strip name, py_strip (take i rest), drop (i + 12) rest)
           | None \<Rightarrow>
               if suffix ''</parameter'' name then
                 let n = (if suffix [CHR 0x0A] rest then length rest - 1 else length rest)
                 in Some (pre, py_strip name, py_strip (take n rest), drop n rest)
               else None))"

lemma function_here_length: "function_here s = Some (n, r) \<Longrightarrow> length r < length s"
proof -
  assume a: "function_here s = Some (n, r)"
  then obtain c cs where s: "s = c # cs" by (cases s) (auto simp: function_here_def)
  then have "tag_name (drop 10 (dropWhile py_space cs)) = Some (n, r)" using a by (auto simp: function_here_def Let_def split: if_splits)
  then show ?thesis using tag_name_length length_dropWhile_le [of py_space cs] s by fastforce
qed

lemma function_search_length: "function_search s = Some (n, r) \<Longrightarrow> length r < length s"
proof (induction s)
  case (Cons c s)
  then show ?case using function_here_length [of "c # s"] by (cases "function_here (c # s)") auto
qed simp

lemma parameter_search_length: "parameter_search s = Some (pre, n, r) \<Longrightarrow> length pre + length r < length s"
proof (induction s arbitrary: pre)
  case (Cons c s)
  then show ?case using tag_name_length [of "drop 11 (c # s)"]
    by (fastforce split: if_splits option.splits)
qed simp

lemma complete_parameter_length: "complete_parameter s = Some (pre, k, v, r) \<Longrightarrow> length r < length s"
  using parameter_search_length by (fastforce simp: complete_parameter_def Let_def split: option.splits if_splits)


subsection \<open>The parser\<close>

text \<open>A stage of the loop: the parts of the filtered output, the tools, the parser, and whether the loop goes on.\<close>

type_synonym stage = "string list \<times> tool_use list \<times> heuristic_parser \<times> bool"

definition and_stage :: "stage \<Rightarrow> (heuristic_parser \<Rightarrow> stage) \<Rightarrow> stage" where
  "and_stage r f =
     (case r of
        (outs, tools, p, go) \<Rightarrow>
          if go then (case f p of (outs', tools', p', go) \<Rightarrow> (outs @ outs', tools @ tools', p', go))
          else (outs, tools, p, False))"

definition current_tool :: "heuristic_parser \<Rightarrow> tool_use" where
  "current_tool p =
     \<lparr>tu_id = hp_tool_id p, tu_name = hp_function p, tu_input = JObj (map (\<lambda>(k, v). (k, JStr v)) (hp_parameters p))\<rparr>"

definition text_stage :: "heuristic_parser \<Rightarrow> stage" where
  "text_stage p =
     (if hp_state p \<noteq> PsText then ([], [], p, True)
      else if BULLET \<in> set (hp_buffer p) then
        ([takeWhile (\<lambda>c. c \<noteq> BULLET) (hp_buffer p)], [],
         p\<lparr>hp_buffer := dropWhile (\<lambda>c. c \<noteq> BULLET) (hp_buffer p), hp_state := PsMatchingFunction\<rparr>, True)
      else
        let (safe_prefix, buffer) = split_incomplete_control_token_tail (hp_buffer p) in
        if safe_prefix \<noteq> [] then ([safe_prefix], [], p\<lparr>hp_buffer := buffer\<rparr>, False)
        else ([buffer], [], p\<lparr>hp_buffer := []\<rparr>, False))"

definition match_stage :: "heuristic_env \<Rightarrow> heuristic_parser \<Rightarrow> stage" where
  "match_stage env p =
     (if hp_state p \<noteq> PsMatchingFunction then ([], [], p, True)
      else case function_search (hp_buffer p) of
        Some (name, rest) \<Rightarrow>
          ([], [], p\<lparr>hp_function := py_strip name, hp_tool_id := heuristic_id env (hp_ids p), hp_ids := hp_ids p + 1,
                     hp_parameters := [], hp_buffer := rest, hp_state := PsParsingParameters\<rparr>, True)
      | None \<Rightarrow>
          if 100 < length (hp_buffer p) then
            ([take 1 (hp_buffer p)], [], p\<lparr>hp_buffer := drop 1 (hp_buffer p), hp_state := PsText\<rparr>, True)
          else ([], [], p, False))"

text \<open>The inner loop: complete parameters, with the text before each.\<close>

function parameter_loop :: "string \<Rightarrow> (string, string) pydict \<Rightarrow> string list \<times> (string, string) pydict \<times> string" where
  "parameter_loop buffer ps =
     (case complete_parameter buffer of
        None \<Rightarrow> ([], ps, buffer)
      | Some (pre, k, v, rest) \<Rightarrow>
          (case parameter_loop rest (dict_set k v ps) of
             (outs, ps', buffer') \<Rightarrow> ((if pre \<noteq> [] then [pre] else []) @ outs, ps', buffer')))"
  by pat_completeness auto

termination
  by (relation "measure (length \<circ> fst)") (auto dest: complete_parameter_length)

declare parameter_loop.simps [simp del]

text \<open>What ends the call: text before the next bullet, or text that is no tag.\<close>

definition call_end :: "string \<Rightarrow> (string list \<times> string) option" where
  "call_end buffer =
     (if BULLET \<in> set buffer then
        (let before = takeWhile (\<lambda>c. c \<noteq> BULLET) buffer
         in Some (if before \<noteq> [] then [before] else [], dropWhile (\<lambda>c. c \<noteq> BULLET) buffer))
      else if buffer \<noteq> [] \<and> \<not> prefix ''<'' (py_strip buffer) \<and> \<not> py_in ''<parameter='' buffer then Some ([buffer], [])
      else None)"

definition param_stage :: "heuristic_parser \<Rightarrow> stage" where
  "param_stage p =
     (if hp_state p \<noteq> PsParsingParameters then ([], [], p, True)
      else
        let (outs, ps, buffer) = parameter_loop (hp_buffer p) (hp_parameters p);
            p = p\<lparr>hp_parameters := ps, hp_buffer := buffer\<rparr>
        in case call_end buffer of
             None \<Rightarrow> (outs, [], p, False)
           | Some (outs', buffer) \<Rightarrow> (outs @ outs', [current_tool p], p\<lparr>hp_buffer := buffer, hp_state := PsText\<rparr>, True))"

definition feed_round :: "heuristic_env \<Rightarrow> heuristic_parser \<Rightarrow> stage" where
  "feed_round env p = and_stage (and_stage (text_stage p) (match_stage env)) param_stage"

lemma parameter_loop_length: "length (snd (snd (parameter_loop buffer ps))) \<le> length buffer"
proof (induction buffer ps rule: parameter_loop.induct)
  case (1 buffer ps)
  then show ?case using complete_parameter_length [of buffer]
    by (subst parameter_loop.simps) (fastforce split: option.split prod.split)
qed

lemma call_end_length: "call_end buffer = Some (outs, rest) \<Longrightarrow> length rest \<le> length buffer"
  using length_dropWhile_le [of "\<lambda>c. c \<noteq> BULLET" buffer] by (auto simp: call_end_def Let_def split: if_splits)

text \<open>A round that goes on has used up text or ended a call.\<close>

definition parser_work :: "heuristic_parser \<Rightarrow> nat" where
  "parser_work p = 2 * length (hp_buffer p) + (if hp_state p = PsParsingParameters then 1 else 0)"

lemma param_stage_work:
  "param_stage p = (outs, tools, p', True) \<Longrightarrow> hp_state p = PsParsingParameters \<Longrightarrow>
     parser_work p' < parser_work p \<and> hp_state p' = PsText \<and> length (hp_buffer p') \<le> length (hp_buffer p)"
  using parameter_loop_length [of "hp_buffer p" "hp_parameters p"] call_end_length
  by (fastforce simp: param_stage_def parser_work_def Let_def split: prod.splits option.splits)

lemma match_stage_work:
  "match_stage env p = (outs, tools, p', go) \<Longrightarrow> hp_state p = PsMatchingFunction \<Longrightarrow> go \<Longrightarrow>
     length (hp_buffer p') < length (hp_buffer p) \<and> hp_state p' \<noteq> PsMatchingFunction"
  using function_search_length by (fastforce simp: match_stage_def split: option.splits if_splits)

lemma text_stage_work:
  "text_stage p = (outs, tools, p', True) \<Longrightarrow> hp_state p = PsText \<Longrightarrow>
     length (hp_buffer p') \<le> length (hp_buffer p) \<and> hp_state p' = PsMatchingFunction"
  using length_dropWhile_le [of "\<lambda>c. c \<noteq> BULLET" "hp_buffer p"]
  by (auto simp: text_stage_def Let_def split: prod.splits if_splits)

lemma and_stage_go:
  "and_stage r f = (outs, tools, p', True) \<Longrightarrow>
     \<exists>o1 t1 p1 o2 t2. r = (o1, t1, p1, True) \<and> f p1 = (o2, t2, p', True) \<and> outs = o1 @ o2 \<and> tools = t1 @ t2"
  by (cases r) (auto simp: and_stage_def split: prod.splits if_splits)

lemma feed_round_work:
  assumes "feed_round env p = (outs, tools, p', True)"
  shows "parser_work p' < parser_work p"
proof -
  obtain o1 t1 p1 o2 t2 where 1: "and_stage (text_stage p) (match_stage env) = (o1, t1, p1, True)" "param_stage p1 = (o2, t2, p', True)"
    using and_stage_go [OF assms [unfolded feed_round_def]] by blast
  obtain o3 t3 p0 o4 t4 where 2: "text_stage p = (o3, t3, p0, True)" "match_stage env p0 = (o4, t4, p1, True)"
    using and_stage_go [OF 1(1)] by blast
  have same: "p' = p1" if "hp_state p1 \<noteq> PsParsingParameters" using 1(2) that by (simp add: param_stage_def)
  have last: "parser_work p' < parser_work p1" if "hp_state p1 = PsParsingParameters"
    using param_stage_work [OF 1(2) that] by blast
  show ?thesis
  proof (cases "hp_state p = PsParsingParameters")
    case True
    then have "p0 = p" "p1 = p0" using 2 by (simp_all add: text_stage_def match_stage_def)
    then show ?thesis using last True by simp
  next
    case False
    then have m: "hp_state p0 = PsMatchingFunction" "length (hp_buffer p0) \<le> length (hp_buffer p)"
      using text_stage_work [OF 2(1)] 2(1) by (cases "hp_state p"; simp add: text_stage_def)+
    have l: "length (hp_buffer p1) < length (hp_buffer p0)" using match_stage_work [OF 2(2) m(1)] by simp
    show ?thesis
    proof (cases "hp_state p1 = PsParsingParameters")
      case True
      then show ?thesis using param_stage_work [OF 1(2) True] l m(2) by (simp add: parser_work_def)
    next
      case False
      then show ?thesis using same l m(2) by (simp add: parser_work_def)
    qed
  qed
qed

function feed_loop :: "heuristic_env \<Rightarrow> heuristic_parser \<Rightarrow> string list \<times> tool_use list \<times> heuristic_parser" where
  "feed_loop env p =
     (case feed_round env p of
        (outs, tools, p', go) \<Rightarrow>
          if go then (case feed_loop env p' of (outs', tools', p'') \<Rightarrow> (outs @ outs', tools @ tools', p''))
          else (outs, tools, p'))"
  by pat_completeness auto

termination
  by (relation "measure (parser_work \<circ> snd)") (auto dest!: feed_round_work [OF sym])

declare feed_loop.simps [simp del]

definition hp_feed :: "heuristic_env \<Rightarrow> string \<Rightarrow> heuristic_parser \<Rightarrow> (string \<times> tool_use list) \<times> heuristic_parser" where
  "hp_feed env txt p =
     (let (buffer, web, ids) = extract_web_tool_json_calls env (strip_control_tokens (hp_buffer p @ txt)) (hp_ids p);
          (outs, tools, p) = feed_loop env (p\<lparr>hp_buffer := buffer, hp_ids := ids\<rparr>)
      in ((concat outs, web @ tools), p))"

definition hp_flush :: "heuristic_parser \<Rightarrow> tool_use list \<times> heuristic_parser" where
  "hp_flush p =
     (let p = p\<lparr>hp_buffer := strip_control_tokens (hp_buffer p)\<rparr> in
      if hp_state p = PsParsingParameters then
        let p = (case parameter_search (hp_buffer p) of
                   None \<Rightarrow> p
                 | Some (_, name, rest) \<Rightarrow>
                     p\<lparr>hp_parameters := dict_set (py_strip name) (py_strip rest) (hp_parameters p)\<rparr>)
        in ([current_tool p], p\<lparr>hp_state := PsText, hp_buffer := []\<rparr>)
      else ([], p))"

end
