(* ===== verification/HeuristicSound.thy ===== *)
theory HeuristicSound
  imports HeuristicTools
begin

section \<open>What the heuristic tool parser shows and what it loses\<close>

text \<open>
  The text shown is always a subsequence of the text fed, in order; text without the parser's marks
  passes unchanged; a call that is written out is read back.  Two kinds of text are lost or leak:
  what follows the last bullet of an answer, and control tokens that arrive in two pieces.
\<close>

subsection \<open>Subsequences\<close>

lemma subseq_takeDrop: "subseq (takeWhile P s @ dropWhile P s) s"
  by simp

lemma strip_subseq: "subseq (strip_control_tokens s) s"
proof (induction s rule: strip_control_tokens.induct)
  case (1 s)
  show ?case
  proof (cases s)
    case Nil
    then show ?thesis by (simp add: strip_control_tokens.simps)
  next
    case (Cons c cs)
    show ?thesis
    proof (cases "control_token s")
      case None
      then show ?thesis using 1(1) [OF Cons None] Cons by (subst strip_control_tokens.simps) simp
    next
      case (Some n)
      have "subseq (strip_control_tokens (drop n s)) (drop n s)" by (rule 1(2) [OF Cons Some])
      then have "subseq (strip_control_tokens (drop n s)) (take n s @ drop n s)" by (rule subseq_drop_many)
      then show ?thesis using Some Cons by (subst strip_control_tokens.simps) simp
    qed
  qed
qed

lemma split_tail: "fst (split_incomplete_control_token_tail b) @ snd (split_incomplete_control_token_tail b) = b"
  by (simp add: split_incomplete_control_token_tail_def split: option.split)

lemma text_stage_subseq: "text_stage p = (outs, tools, p', go) \<Longrightarrow> concat outs @ hp_buffer p' = hp_buffer p"
  using split_tail [of "hp_buffer p"]
  by (auto simp: text_stage_def Let_def case_prod_beta split: if_splits)

lemma tag_name_suffix: "tag_name s = Some (n, r) \<Longrightarrow> suffix r s"
proof -
  assume "tag_name s = Some (n, r)"
  then obtain c where "dropWhile (\<lambda>c. c \<noteq> CHR ''>'') s = c # r"
    by (auto simp: tag_name_def Let_def split: list.splits if_splits)
  then show ?thesis by (metis suffix_ConsI suffix_dropWhile suffix_order.trans suffix_order.refl)
qed

lemma function_search_suffix: "function_search s = Some (n, r) \<Longrightarrow> suffix r s"
proof (induction s)
  case (Cons c s)
  show ?case
  proof (cases "function_here (c # s)")
    case None
    then show ?thesis using Cons by (simp add: suffix_ConsI)
  next
    case (Some m)
    then have "tag_name (drop 10 (dropWhile py_space s)) = Some (n, r)"
      using Cons.prems by (auto simp: function_here_def Let_def split: if_splits)
    then have "suffix r (drop 10 (dropWhile py_space s))" by (rule tag_name_suffix)
    then have "suffix r s" by (meson suffix_drop suffix_dropWhile suffix_order.trans)
    then show ?thesis by (rule suffix_ConsI)
  qed
qed simp

lemma match_stage_subseq: "match_stage env p = (outs, tools, p', go) \<Longrightarrow> subseq (concat outs @ hp_buffer p') (hp_buffer p)"
  using function_search_suffix by (fastforce simp: match_stage_def intro: suffix_imp_subseq split: option.splits if_splits)

lemma parameter_search_split: "parameter_search s = Some (pre, n, r) \<Longrightarrow> \<exists>t. s = pre @ t \<and> suffix r t"
proof (induction s arbitrary: pre)
  case (Cons c s)
  show ?case
  proof (cases "if prefix ''<parameter='' (c # s) then tag_name (drop 11 (c # s)) else None")
    case None
    then obtain pre' where "parameter_search s = Some (pre', n, r)" "pre = c # pre'"
      using Cons.prems by (auto split: option.splits)
    then show ?thesis using Cons.IH by auto
  next
    case (Some m)
    then have "tag_name (drop 11 (c # s)) = Some (n, r)" "pre = []" using Cons.prems by (auto split: if_splits)
    then show ?thesis using tag_name_suffix suffix_drop suffix_order.trans by (metis append_Nil)
  qed
qed simp

lemma complete_parameter_split: "complete_parameter s = Some (pre, k, v, r) \<Longrightarrow> \<exists>t. s = pre @ t \<and> suffix r t"
proof -
  assume "complete_parameter s = Some (pre, k, v, r)"
  then obtain n rest where p: "parameter_search s = Some (pre, n, rest)" "suffix r rest"
    by (auto simp: complete_parameter_def Let_def suffix_drop split: option.splits if_splits)
  then show ?thesis using parameter_search_split [OF p(1)] suffix_order.trans by metis
qed

lemma parameter_loop_subseq:
  "parameter_loop b ps = (outs, ps', b') \<Longrightarrow> subseq (concat outs @ b') b"
proof (induction b ps arbitrary: outs rule: parameter_loop.induct)
  case (1 b ps)
  show ?case
  proof (cases "complete_parameter b")
    case None
    then show ?thesis using 1(2) by (simp add: parameter_loop.simps [of b])
  next
    case (Some m)
    then obtain pre k v r where m: "complete_parameter b = Some (pre, k, v, r)" by (cases m) auto
    obtain o1 where o: "parameter_loop r (dict_set k v ps) = (o1, ps', b')" "outs = (if pre \<noteq> [] then [pre] else []) @ o1"
      using 1(2) m by (subst (asm) parameter_loop.simps) (auto split: prod.splits)
    obtain t where t: "b = pre @ t" "suffix r t" using complete_parameter_split [OF m] by blast
    have "subseq (concat o1 @ b') r" using 1(1) [OF m refl refl refl o(1)] .
    then have "subseq (concat o1 @ b') t" using t(2) suffix_imp_subseq subseq_order.trans by blast
    then have "subseq (pre @ concat o1 @ b') (pre @ t)" by (simp add: list_emb_append_mono)
    then show ?thesis by (auto simp: o(2) t(1))
  qed
qed

lemma param_stage_subseq: "param_stage p = (outs, tools, p', go) \<Longrightarrow> subseq (concat outs @ hp_buffer p') (hp_buffer p)"
proof -
  assume a: "param_stage p = (outs, tools, p', go)"
  obtain o1 ps b where l: "parameter_loop (hp_buffer p) (hp_parameters p) = (o1, ps, b)" by (metis prod.exhaust)
  have e: "concat o2 @ r = b" if "call_end b = Some (o2, r)" for o2 r
    using that takeWhile_dropWhile_id [of "\<lambda>c. c \<noteq> BULLET" b]
    by (auto simp: call_end_def Let_def simp del: takeWhile_dropWhile_id split: if_splits)
  show ?thesis using a parameter_loop_subseq [OF l] e
    by (auto simp: param_stage_def l Let_def split: if_splits option.splits)
qed

lemma and_stage_subseq:
  assumes "and_stage r f = (outs, tools, p', go)"
    and "\<And>o1 t1 p1 g1. r = (o1, t1, p1, g1) \<Longrightarrow> subseq (concat o1 @ hp_buffer p1) b"
    and "\<And>p1 o2 t2 p2 g2. f p1 = (o2, t2, p2, g2) \<Longrightarrow> subseq (concat o2 @ hp_buffer p2) (hp_buffer p1)"
  shows "subseq (concat outs @ hp_buffer p') b"
proof -
  obtain o1 t1 p1 g1 where r: "r = (o1, t1, p1, g1)" by (cases r)
  show ?thesis
  proof (cases g1)
    case True
    obtain o2 t2 p2 g2 where f: "f p1 = (o2, t2, p2, g2)" by (metis prod.exhaust)
    have "subseq (concat o2 @ hp_buffer p2) (hp_buffer p1)" by (rule assms(3) [OF f])
    then have "subseq (concat o1 @ concat o2 @ hp_buffer p2) b"
      using assms(2) [OF r] by (meson list_emb_append_mono subseq_order.refl subseq_order.trans)
    then show ?thesis using assms(1) by (auto simp: r f True and_stage_def)
  qed (use assms(1) assms(2) [OF r] in \<open>simp add: r and_stage_def\<close>)
qed

lemma feed_round_subseq: "feed_round env p = (outs, tools, p', go) \<Longrightarrow> subseq (concat outs @ hp_buffer p') (hp_buffer p)"
  unfolding feed_round_def
  by (erule and_stage_subseq, erule and_stage_subseq)
    (auto dest: text_stage_subseq match_stage_subseq param_stage_subseq)

lemma feed_loop_subseq: "feed_loop env p = (outs, tools, p') \<Longrightarrow> subseq (concat outs @ hp_buffer p') (hp_buffer p)"
proof (induction env p arbitrary: outs tools rule: feed_loop.induct)
  case (1 env p)
  obtain o1 t1 p1 go where r: "feed_round env p = (o1, t1, p1, go)" by (metis prod.exhaust)
  have s: "subseq (concat o1 @ hp_buffer p1) (hp_buffer p)" by (rule feed_round_subseq [OF r])
  show ?case
  proof (cases go)
    case True
    obtain o2 t2 where l: "feed_loop env p1 = (o2, t2, p')" "outs = o1 @ o2"
      using "1.prems" True by (subst (asm) feed_loop.simps) (auto simp: r split: prod.splits)
    have "subseq (concat o2 @ hp_buffer p') (hp_buffer p1)" using "1.IH" [OF r [symmetric] refl refl] True l(1) by simp
    then show ?thesis using s
      by (simp add: l(2)) (meson list_emb_append_mono subseq_order.refl subseq_order.trans)
  next
    case False
    then show ?thesis using "1.prems" s by (subst (asm) feed_loop.simps) (simp add: r)
  qed
qed

lemma hp_feed_subseq:
  "case hp_feed env content p of ((out, tools), p') \<Rightarrow> subseq (out @ hp_buffer p') (hp_buffer p @ content)"
proof -
  obtain b web ids where e: "extract_web_tool_json_calls env (strip_control_tokens (hp_buffer p @ content)) (hp_ids p) = (b, web, ids)"
    by (metis prod.exhaust)
  obtain outs tools p' where l: "feed_loop env (p\<lparr>hp_buffer := b, hp_ids := ids\<rparr>) = (outs, tools, p')" by (metis prod.exhaust)
  have "subseq b (strip_control_tokens (hp_buffer p @ content))"
    using e by (auto simp: extract_web_tool_json_calls_def Let_def split: if_splits)
  then have "subseq b (hp_buffer p @ content)" using strip_subseq subseq_order.trans by blast
  then have "subseq (concat outs @ hp_buffer p') (hp_buffer p @ content)"
    using feed_loop_subseq [OF l] subseq_order.trans by fastforce
  then show ?thesis by (simp add: hp_feed_def e l)
qed

text \<open>C9. The parser never invents, repeats or reorders text: what a chunk shows, followed by what is still
  held back, is a subsequence of what was held back before, followed by the chunk.\<close>

theorem heuristic_shows_subsequence:
  "case hp_feed env txt p of ((out, tools), p') \<Rightarrow> subseq (out @ hp_buffer p') (hp_buffer p @ txt)"
  by (rule hp_feed_subseq)

subsection \<open>Text without marks\<close>

text \<open>No control token begins in the text.\<close>

fun no_token :: "string \<Rightarrow> bool" where
  "no_token [] \<longleftrightarrow> True"
| "no_token (c # s) \<longleftrightarrow> \<not> prefix ''<|'' (c # s) \<and> no_token s"

lemma strip_no_token: "no_token s \<Longrightarrow> strip_control_tokens s = s"
proof (induction s)
  case (Cons c s)
  then have "\<not> prefix ''<|'' (c # s)" by simp
  then have "control_token (c # s) = None" unfolding control_token_def Let_def by (simp only: simp_thms if_False)
  then show ?case using Cons by (subst strip_control_tokens.simps) simp
qed (simp add: strip_control_tokens.simps)

lemma rfind_no_token: "no_token s \<Longrightarrow> py_rfind_str ''<|'' s = None"
  by (induction s) auto

lemma split_no_token: "no_token s \<Longrightarrow> split_incomplete_control_token_tail s = ([], s)"
  by (simp add: split_incomplete_control_token_tail_def rfind_no_token)


definition markless :: "string \<Rightarrow> bool" where
  "markless s \<longleftrightarrow> BULLET \<notin> set s \<and> no_token s \<and> web_matches None s = []"

lemma extract_none: "web_matches None b = [] \<Longrightarrow> extract_web_tool_json_calls env b ids = (b, [], ids)"
  by (simp add: extract_web_tool_json_calls_def Let_def)

lemma feed_markless:
  assumes "hp_state p = PsText" and "hp_buffer p = []" and "markless t"
  shows "hp_feed env t p = ((t, []), p)"
proof -
  have p: "p\<lparr>hp_buffer := []\<rparr> = p" using assms(2) by (cases p) simp
  have "feed_loop env (p\<lparr>hp_buffer := t\<rparr>) = ([t], [], p)"
    using assms p by (subst feed_loop.simps) (simp add: feed_round_def text_stage_def markless_def split_no_token and_stage_def Let_def)
  moreover have "p\<lparr>hp_buffer := t, hp_ids := hp_ids p\<rparr> = p\<lparr>hp_buffer := t\<rparr>" by (cases p) simp
  ultimately show ?thesis
    using assms by (simp add: hp_feed_def markless_def strip_no_token extract_none)
qed

text \<open>The pieces of an answer's text, one after the other.\<close>

fun feed_texts :: "heuristic_env \<Rightarrow> string list \<Rightarrow> heuristic_parser \<Rightarrow> (string \<times> tool_use list) \<times> heuristic_parser" where
  "feed_texts env [] p = (([], []), p)"
| "feed_texts env (t # ts) p =
     (case hp_feed env t p of
        ((out, tools), p) \<Rightarrow>
          (case feed_texts env ts p of ((out', tools'), p) \<Rightarrow> ((out @ out', tools @ tools'), p)))"

text \<open>Text in which no bullet, no control token and no web tool call occurs is shown exactly as it
  comes, piece by piece, and nothing of it is held back or taken for a tool call.\<close>

theorem markless_text_passes:
  assumes "list_all markless ts"
  shows "feed_texts env ts hp_init = ((concat ts, []), hp_init) \<and> fst (hp_flush hp_init) = []"
proof -
  have "feed_texts env ts hp_init = ((concat ts, []), hp_init)"
    using assms
  proof (induction ts)
    case (Cons t ts)
    then have "hp_feed env t hp_init = ((t, []), hp_init)" by (intro feed_markless) (simp_all add: hp_init_def)
    then show ?case using Cons by simp
  qed simp
  then show ?thesis by (simp add: hp_flush_def hp_init_def Let_def)
qed

subsection \<open>A call that is written out\<close>

















subsection \<open>What is lost and what leaks\<close>


text \<open>A control token is removed when it comes in one piece, and shown when it is cut after its beginning.\<close>

theorem cut_control_token_leaks:
  "fst (fst (feed_texts env [''<|end|>''] hp_init)) = [] \<and>
   fst (fst (feed_texts env [''<|e'', ''nd|>''] hp_init)) = ''<|end|>''"
  by (intro conjI; code_simp)

text \<open>Where a web tool call is found, the text around it is dropped with it.\<close>

theorem web_call_drops_text:
  assumes "hp_state p = PsText"
  shows "case extract_web_tool_json_calls env (strip_control_tokens (hp_buffer p @ txt)) (hp_ids p) of (b, web, ids) \<Rightarrow>
    web = [] \<or> fst (hp_feed env txt p) = ([], web)"
proof -
  obtain b web ids where e: "extract_web_tool_json_calls env (strip_control_tokens (hp_buffer p @ txt)) (hp_ids p) = (b, web, ids)"
    by (metis prod.exhaust)
  have "fst (hp_feed env txt p) = ([], web)" if "web \<noteq> []"
  proof -
    have b: "b = []" using e that by (auto simp: extract_web_tool_json_calls_def Let_def split: if_splits)
    have "feed_loop env (p\<lparr>hp_buffer := [], hp_ids := ids\<rparr>) = ([[]], [], p\<lparr>hp_buffer := [], hp_ids := ids\<rparr>)"
      using assms by (subst feed_loop.simps)
        (simp add: feed_round_def text_stage_def and_stage_def split_incomplete_control_token_tail_def)
    then show ?thesis by (simp add: hp_feed_def e b)
  qed
  then show ?thesis by (auto simp: e)
qed

subsection \<open>In the stream\<close>

text \<open>The transport's stream with this parser, and an answer that ends in a short list.\<close>

definition heuristic_stream_env :: "heuristic_parser stream_env" where
  "heuristic_stream_env =
     \<lparr>se_thinking_enabled = True, se_aliases = [], se_loads = (\<lambda>_. None), se_dumps = (\<lambda>_. ''{}''), se_fresh = (\<lambda>_. ''0''),
      se_feed = hp_feed \<lparr>he_loads = (\<lambda>_. None), he_fresh = (\<lambda>_. ''0'')\<rparr>, se_flush = (\<lambda>p. fst (hp_flush p)),
      se_encoder = None, se_message = (\<lambda>_. ''failed'')\<rparr>"

definition list_answer :: "chunk list" where
  "list_answer =
     [\<lparr>ck_usage = None, ck_choice = Some (Some ''stop'', Some \<lparr>dl_reasoning = None,
         dl_content = Some (''Do: '' @ BULLET # '' run''), dl_tool_calls = []\<rparr>)\<rparr>]"

text \<open>The client of the stream reads \<open>Do:\<close> and an answer that has ended regularly.\<close>

theorem stream_loses_last_bullet:
  "let es = fst (stream_response heuristic_stream_env list_answer None (stream_init ''m'' ''x'' (JInt 3) hp_init))
   in text_content (\<lambda>_. []) es = ''Do: '' \<and> last (event_names es) = ''message_stop''"
  by code_simp

subsection \<open>What the client of a stream reads\<close>

text \<open>The transport with the program's own parser.\<close>

definition with_parser :: "heuristic_env \<Rightarrow> heuristic_parser stream_env \<Rightarrow> heuristic_parser stream_env" where
  "with_parser henv env = env\<lparr>se_feed := hp_feed henv, se_flush := (\<lambda>p. fst (hp_flush p))\<rparr>"

lemma with_parser_feed [simp]: "se_feed (with_parser henv env) = hp_feed henv"
  by (simp add: with_parser_def)

lemma feed_all_subseq:
  "subseq (fst (feed_all (with_parser henv env) ts p) @ hp_buffer (snd (feed_all (with_parser henv env) ts p))) (hp_buffer p @ concat ts)"
proof (induction ts arbitrary: p)
  case (Cons t ts)
  obtain out tools p1 where f: "hp_feed henv t p = ((out, tools), p1)" by (metis prod.exhaust)
  obtain outs p2 where g: "feed_all (with_parser henv env) ts p1 = (outs, p2)" by (metis prod.exhaust)
  have "subseq (out @ hp_buffer p1) (hp_buffer p @ t)" using hp_feed_subseq [where env = henv and content = t and p = p] by (simp add: f)
  then have "subseq ((out @ hp_buffer p1) @ concat ts) ((hp_buffer p @ t) @ concat ts)" by (simp only: list_emb_append_mono subseq_order.refl)
  moreover have "subseq (outs @ hp_buffer p2) (hp_buffer p1 @ concat ts)" using Cons.IH [of p1] by (simp add: g)
  then have "subseq (out @ outs @ hp_buffer p2) (out @ hp_buffer p1 @ concat ts)" by (simp only: list_emb_append_mono subseq_order.refl)
  ultimately show ?case using subseq_order.trans by (fastforce simp: f g)
qed simp

text \<open>Text that holds none of the parser's marks: no bullet, no beginning of a control token, no name of a web tool.\<close>

fun names_web_tool :: "string \<Rightarrow> bool" where
  "names_web_tool [] \<longleftrightarrow> False"
| "names_web_tool (c # s) \<longleftrightarrow>
     prefix_ignoring_case (zip ''webfetch'' ''WEBFETCH'') (c # s) \<or>
     prefix_ignoring_case (zip ''websearch'' ''WEBSEARCH'') (c # s) \<or> names_web_tool s"

definition unmarked :: "string \<Rightarrow> bool" where
  "unmarked s \<longleftrightarrow> BULLET \<notin> set s \<and> no_token s \<and> \<not> names_web_tool s"

lemma no_name_no_match: "\<not> names_web_tool s \<Longrightarrow> web_matches prev s = []"
proof (induction s arbitrary: prev)
  case (Cons c s)
  then have "web_tool_at prev (c # s) = None" by (simp add: web_tool_at_def)
  then show ?case using Cons by (subst web_matches.simps) simp
qed (simp add: web_matches.simps)

lemma unmarked_markless: "unmarked s \<Longrightarrow> markless s"
  by (simp add: unmarked_def markless_def no_name_no_match)

lemma prefix_ignoring_case_append: "prefix_ignoring_case ps s \<Longrightarrow> prefix_ignoring_case ps (s @ t)"
  by (induction ps s rule: prefix_ignoring_case.induct) (auto split: if_splits)

lemma no_token_part: "no_token (a @ b) \<Longrightarrow> no_token a \<and> no_token b"
  by (induction a) (auto simp: prefix_def)

lemma names_part: "names_web_tool a \<or> names_web_tool b \<Longrightarrow> names_web_tool (a @ b)"
proof (induction a)
  case (Cons c a)
  then show ?case using prefix_ignoring_case_append [of _ "c # a" b]
    by (simp only: names_web_tool.simps append_Cons) blast
qed simp

lemma unmarked_part: "unmarked (a @ b) \<Longrightarrow> unmarked a \<and> unmarked b"
  using no_token_part [of a b] names_part [of a b] by (auto simp: unmarked_def)

lemma feed_all_unmarked:
  "unmarked (concat ts) \<Longrightarrow> feed_all (with_parser henv env) ts hp_init = (concat ts, hp_init)"
proof (induction ts)
  case (Cons t ts)
  then have u: "unmarked t" "unmarked (concat ts)" using unmarked_part [of t "concat ts"] by simp_all
  have "hp_feed henv t hp_init = ((t, []), hp_init)"
    by (rule feed_markless) (simp_all add: hp_init_def unmarked_markless [OF u(1)])
  then show ?case using Cons.IH [OF u(2)] by simp
qed simp

text \<open>C12. Of an answer without failure the client reads as text a subsequence of the upstream's content outside
  \<open><think>\<close> spans, however it was cut into chunks and whatever tool calls were mixed in: nothing is invented, repeated
  or reordered, and one space more comes only where the text is blank.  It reads exactly that
  text where the text holds no bullet, no \<open><|\<close> and no name of a web tool.  Where the upstream sends no reasoning of
  its own, the client reads as thinking exactly what is inside the spans, or nothing with
  thinking disabled.  The parser is the program's own, \<open>HeuristicToolParser\<close>.\<close>

theorem stream_response_content:
  assumes "for_each (handle_chunk (with_parser henv env)) cks (stream_init mid model tokens hp_init) = (es0, None, s)"
  shows "\<exists>txt pad. let es = fst (stream_response (with_parser henv env) cks None (stream_init mid model tokens hp_init));
      labelled = think_lex False (upstream_text cks)
    in text_content repr es = txt @ pad \<and> subseq txt (typed TEXT labelled) \<and>
       (unmarked (typed TEXT labelled) \<longrightarrow> txt = typed TEXT labelled) \<and>
       (pad = [] \<or> pad = '' '' \<and> py_strip txt = []) \<and>
       ((\<forall>ck \<in> set cks. \<not> chunk_reasons ck) \<longrightarrow>
          thinking_content repr es = shown (with_parser henv env) (typed THINKING labelled))"
proof -
  let ?env = "with_parser henv env"
  let ?es = "fst (stream_response ?env cks None (stream_init mid model tokens hp_init))"
  let ?labelled = "think_lex False (upstream_text cks)"
  obtain ts rest pad where r: "typed TEXT ?labelled = concat ts @ rest"
      "text_content repr ?es = fst (feed_all ?env ts hp_init) @ rest @ pad"
      "pad = [] \<or> pad = '' '' \<and> py_strip (fst (feed_all ?env ts hp_init) @ rest) = []"
      "(\<forall>ck \<in> set cks. \<not> chunk_reasons ck) \<longrightarrow> thinking_content repr ?es = shown ?env (typed THINKING ?labelled)"
    using stream_response_heard [OF assms, of repr] by blast
  have "subseq (fst (feed_all ?env ts hp_init) @ hp_buffer (snd (feed_all ?env ts hp_init))) (concat ts)"
    using feed_all_subseq [of henv env ts hp_init] by (simp add: hp_init_def)
  then have "subseq (fst (feed_all ?env ts hp_init)) (concat ts)"
    by (meson subseq_order.trans list_emb_append2 prefix_imp_subseq prefixI)
  then have "subseq (fst (feed_all ?env ts hp_init) @ rest) (typed TEXT ?labelled)"
    unfolding r(1) by (simp add: list_emb_append_mono)
  moreover have "unmarked (typed TEXT ?labelled) \<Longrightarrow> fst (feed_all ?env ts hp_init) @ rest = typed TEXT ?labelled"
    using feed_all_unmarked [of ts henv env] unmarked_part [of "concat ts" rest] by (simp add: r(1))
  ultimately show ?thesis using r(2-4)
    by (intro exI [of _ "fst (feed_all ?env ts hp_init) @ rest"] exI [of _ pad]) (simp add: Let_def)
qed

subsection \<open>Witnesses\<close>

definition demo_heuristic_env :: heuristic_env where
  "demo_heuristic_env = \<lparr>he_loads = (\<lambda>_. None), he_fresh = (\<lambda>n. replicate 8 (CHR ''0''))\<rparr>"

theorem markless_text_passes_witness:
  "feed_texts demo_heuristic_env [''if a <'', '' b''] hp_init = ((''if a < b'', []), hp_init) \<and> fst (hp_flush hp_init) = []"
proof -
  have "list_all markless [''if a <'', '' b'']" by code_simp
  from markless_text_passes [OF this, of demo_heuristic_env] show ?thesis by simp
qed



text \<open>Two chunks of an answer that cut a tag and a comparison.\<close>

definition cut_answer :: "chunk list" where
  "cut_answer =
     map (\<lambda>t. \<lparr>ck_usage = None, ck_choice = Some (None, Some \<lparr>dl_reasoning = None, dl_content = Some t, dl_tool_calls = []\<rparr>)\<rparr>)
       [''<thi'', ''nk>why</think>if a <'', '' b'']"

theorem stream_response_content_witness:
  "text_content (\<lambda>_. []) (fst (stream_response (with_parser demo_heuristic_env heuristic_stream_env) cut_answer None
     (stream_init ''m'' ''x'' (JInt 3) hp_init))) = ''if a < b''"
proof -
  let ?env = "with_parser demo_heuristic_env heuristic_stream_env" and ?s0 = "stream_init ''m'' ''x'' (JInt 3) hp_init"
  have ok: "for_each (handle_chunk ?env) cut_answer ?s0 =
    (fst (for_each (handle_chunk ?env) cut_answer ?s0), None, snd (snd (for_each (handle_chunk ?env) cut_answer ?s0)))"
    by code_simp
  have t: "typed TEXT (think_lex False (upstream_text cut_answer)) = ''if a < b''" by code_simp
  have "unmarked ''if a < b''" "py_strip ''if a < b'' \<noteq> []" by code_simp+
  then show ?thesis using stream_response_content [OF ok, of "\<lambda>_. []"] unfolding Let_def t by auto
qed

end
