(* ===== verification/ProviderHealth.thy ===== *)
theory ProviderHealth
  imports ProviderErrors Complex_Main
begin

section \<open>The circuit breaker (\<open>providers/health.py\<close>, health operations of \<open>providers/registry.py\<close>)\<close>

text \<open>The health of a provider; operations that read the clock get the reading.\<close>

record health =
  hl_provider_id :: string
  hl_status :: string
  hl_consecutive_failures :: int
  hl_last_success_at :: "rat option"
  hl_last_failure_at :: "rat option"
  hl_last_error_type :: string
  hl_circuit_open_until :: "rat option"

definition PROVIDER_CIRCUIT_FAILURE_THRESHOLD :: int where
  "PROVIDER_CIRCUIT_FAILURE_THRESHOLD = 2"

definition PROVIDER_CIRCUIT_COOLDOWN_SECONDS :: rat where
  "PROVIDER_CIRCUIT_COOLDOWN_SECONDS = 60"

definition health_new :: "string \<Rightarrow> health" where
  "health_new pid = \<lparr>hl_provider_id = pid, hl_status = ''unknown'', hl_consecutive_failures = 0, hl_last_success_at = None,
     hl_last_failure_at = None, hl_last_error_type = [], hl_circuit_open_until = None\<rparr>"

definition is_available :: "rat \<Rightarrow> health \<Rightarrow> bool \<times> health" where
  "is_available now h =
     (case hl_circuit_open_until h of
        None \<Rightarrow> (True, h)
      | Some until \<Rightarrow>
          if until \<le> now then (True, h\<lparr>hl_circuit_open_until := None, hl_status := ''unknown''\<rparr>)
          else (False, h))"

text \<open>\<open>snapshot\<close>: the dictionary, and the health that \<open>is_available\<close> may have reset.\<close>

record health_view =
  hv_provider_id :: string
  hv_status :: string
  hv_available :: bool
  hv_consecutive_failures :: int
  hv_last_success_at :: "rat option"
  hv_last_failure_at :: "rat option"
  hv_last_error_type :: string
  hv_circuit_open_until :: "rat option"

definition snapshot :: "rat \<Rightarrow> health \<Rightarrow> health_view \<times> health" where
  "snapshot now h =
     (case is_available now h of (available, h) \<Rightarrow>
        let status = (case hl_circuit_open_until h of
                        Some until \<Rightarrow> if now < until then ''circuit_open'' else hl_status h
                      | None \<Rightarrow> hl_status h)
        in (\<lparr>hv_provider_id = hl_provider_id h, hv_status = status, hv_available = available,
             hv_consecutive_failures = hl_consecutive_failures h, hv_last_success_at = hl_last_success_at h,
             hv_last_failure_at = hl_last_failure_at h, hv_last_error_type = hl_last_error_type h,
             hv_circuit_open_until = hl_circuit_open_until h\<rparr>, h))"

definition health_success :: "rat \<Rightarrow> health \<Rightarrow> health" where
  "health_success now h =
     h\<lparr>hl_status := ''healthy'', hl_consecutive_failures := 0, hl_last_success_at := Some now,
       hl_last_error_type := [], hl_circuit_open_until := None\<rparr>"

definition health_failure :: "rat \<Rightarrow> exc \<Rightarrow> health \<Rightarrow> health" where
  "health_failure now e h =
     (let h = h\<lparr>hl_status := ''unhealthy'', hl_consecutive_failures := hl_consecutive_failures h + 1,
                hl_last_failure_at := Some now, hl_last_error_type := ex_name e\<rparr> in
      if PROVIDER_CIRCUIT_FAILURE_THRESHOLD \<le> hl_consecutive_failures h
      then h\<lparr>hl_status := ''circuit_open'', hl_circuit_open_until := Some (now + PROVIDER_CIRCUIT_COOLDOWN_SECONDS)\<rparr>
      else h)"

subsection \<open>The registry's health table\<close>

type_synonym health_table = "(string, health) pydict"

text \<open>\<open>_health\<close>: the entry, made when it is missing.\<close>

definition health_of :: "string \<Rightarrow> health_table \<Rightarrow> health \<times> health_table" where
  "health_of pid d =
     (case dict_get pid d of
        Some h \<Rightarrow> (h, d)
      | None \<Rightarrow> (health_new pid, dict_set pid (health_new pid) d))"

definition provider_available :: "rat \<Rightarrow> string \<Rightarrow> health_table \<Rightarrow> bool \<times> health_table" where
  "provider_available now pid d =
     (case health_of pid d of (h, d) \<Rightarrow>
      case is_available now h of (b, h) \<Rightarrow> (b, dict_set pid h d))"

definition record_provider_success :: "rat \<Rightarrow> string \<Rightarrow> health_table \<Rightarrow> health_table" where
  "record_provider_success now pid d = (case health_of pid d of (h, d) \<Rightarrow> dict_set pid (health_success now h) d)"

definition record_provider_failure :: "rat \<Rightarrow> string \<Rightarrow> exc \<Rightarrow> health_table \<Rightarrow> health_table" where
  "record_provider_failure now pid e d = (case health_of pid d of (h, d) \<Rightarrow> dict_set pid (health_failure now e h) d)"

fun snapshots :: "rat \<Rightarrow> string list \<Rightarrow> health_table \<Rightarrow> health_view list \<times> health_table" where
  "snapshots now [] d = ([], d)"
| "snapshots now (pid # pids) d =
     (case health_of pid d of (h, d) \<Rightarrow>
      case snapshot now h of (v, h) \<Rightarrow>
      case snapshots now pids (dict_set pid h d) of (vs, d) \<Rightarrow> (v # vs, d))"

subsection \<open>What the circuit promises\<close>

text \<open>The events of a run, with the times at which they happen.\<close>

datatype health_event =
    Succeeded rat string
  | Failed rat string exc
  | Asked rat string
  | Viewed rat "string list"

fun event_time :: "health_event \<Rightarrow> rat" where
  "event_time (Succeeded t _) = t"
| "event_time (Failed t _ _) = t"
| "event_time (Asked t _) = t"
| "event_time (Viewed t _) = t"

fun health_step :: "health_event \<Rightarrow> health_table \<Rightarrow> health_table" where
  "health_step (Succeeded t pid) d = record_provider_success t pid d"
| "health_step (Failed t pid e) d = record_provider_failure t pid e d"
| "health_step (Asked t pid) d = snd (provider_available t pid d)"
| "health_step (Viewed t pids) d = snd (snapshots t pids d)"

text \<open>
  The specification looks only at the outcomes of the provider: the failures since its last success.
\<close>

fun failures_since :: "string \<Rightarrow> health_event list \<Rightarrow> rat list \<Rightarrow> rat list" where
  "failures_since pid [] fs = fs"
| "failures_since pid (Succeeded t p # es) fs = failures_since pid es (if p = pid then [] else fs)"
| "failures_since pid (Failed t p e # es) fs = failures_since pid es (if p = pid then t # fs else fs)"
| "failures_since pid (_ # es) fs = failures_since pid es fs"

definition circuit_closed :: "string \<Rightarrow> health_event list \<Rightarrow> rat \<Rightarrow> bool" where
  "circuit_closed pid es now =
     (case failures_since pid es [] of
        t # _ # _ \<Rightarrow> t + PROVIDER_CIRCUIT_COOLDOWN_SECONDS \<le> now
      | _ \<Rightarrow> True)"

text \<open>The health agrees with the failures \<open>fs\<close>, latest first, at every time from \<open>now\<close> on.\<close>

definition tracks_failures :: "rat list \<Rightarrow> rat \<Rightarrow> health \<Rightarrow> bool" where
  "tracks_failures fs now h \<longleftrightarrow>
     hl_consecutive_failures h = int (length fs) \<and>
     (case hl_circuit_open_until h of
        Some until \<Rightarrow> (\<exists>t. fs \<noteq> [] \<and> tl fs \<noteq> [] \<and> t = hd fs \<and> until = t + PROVIDER_CIRCUIT_COOLDOWN_SECONDS)
      | None \<Rightarrow> tl fs \<noteq> [] \<longrightarrow> hd fs + PROVIDER_CIRCUIT_COOLDOWN_SECONDS \<le> now)"

definition open_failures :: "rat list \<Rightarrow> rat \<Rightarrow> bool" where
  "open_failures fs now \<longleftrightarrow> tl fs \<noteq> [] \<and> now < hd fs + PROVIDER_CIRCUIT_COOLDOWN_SECONDS"

lemma tracks_new [simp]: "tracks_failures [] now (health_new pid)"
  by (simp add: tracks_failures_def health_new_def)

lemma tracks_later: "tracks_failures fs now h \<Longrightarrow> now \<le> t \<Longrightarrow> tracks_failures fs t h"
  by (auto simp: tracks_failures_def split: option.splits)

lemma is_available_tracks:
  assumes "tracks_failures fs now h"
  shows "tracks_failures fs now (snd (is_available now h))" and "fst (is_available now h) = (\<not> open_failures fs now)"
  using assms by (auto simp: is_available_def tracks_failures_def open_failures_def split: option.splits)

lemma snd_snapshot [simp]: "snd (snapshot now h) = snd (is_available now h)"
  by (simp add: snapshot_def Let_def split: prod.split)

lemma success_tracks [simp]: "tracks_failures [] now (health_success t h)"
  by (simp add: tracks_failures_def health_success_def)

lemma failure_tracks:
  assumes "tracks_failures fs now h"
  shows "tracks_failures (now # fs) now (health_failure now e h)"
proof (cases fs)
  case Nil
  then show ?thesis using assms
    by (auto simp: tracks_failures_def health_failure_def Let_def PROVIDER_CIRCUIT_FAILURE_THRESHOLD_def split: option.splits)
next
  case (Cons t ts)
  then show ?thesis using assms
    by (auto simp: tracks_failures_def health_failure_def Let_def PROVIDER_CIRCUIT_FAILURE_THRESHOLD_def)
qed

definition table_tracks :: "(string \<Rightarrow> rat list) \<Rightarrow> rat \<Rightarrow> health_table \<Rightarrow> bool" where
  "table_tracks fs now d \<longleftrightarrow> (\<forall>pid h. dict_get pid d = Some h \<longrightarrow> tracks_failures (fs pid) now h) \<and>
     (\<forall>pid. dict_get pid d = None \<longrightarrow> fs pid = [])"

lemma table_tracks_health:
  assumes "table_tracks fs now d"
  shows "tracks_failures (fs pid) now (fst (health_of pid d))" and "table_tracks fs now (snd (health_of pid d))"
proof -
  have d: "dict_get p d = Some h \<Longrightarrow> tracks_failures (fs p) now h" "dict_get p d = None \<Longrightarrow> fs p = []" for p h
    using assms by (simp_all add: table_tracks_def)
  show "tracks_failures (fs pid) now (fst (health_of pid d))"
    using d [of pid] by (cases "dict_get pid d") (simp_all add: health_of_def)
  show "table_tracks fs now (snd (health_of pid d))"
    using d by (cases "dict_get pid d") (auto simp: table_tracks_def health_of_def)
qed

lemma table_tracks_set:
  "table_tracks fs now d \<Longrightarrow> tracks_failures gs now h \<Longrightarrow> table_tracks (fs(pid := gs)) now (dict_set pid h d)"
  by (auto simp: table_tracks_def split: option.splits)

lemma table_tracks_same:
  "table_tracks fs now d \<Longrightarrow> tracks_failures (fs pid) now h \<Longrightarrow> table_tracks fs now (dict_set pid h d)"
  using table_tracks_set [of fs now d "fs pid" h pid] by simp

lemma table_tracks_later: "table_tracks fs now d \<Longrightarrow> now \<le> t \<Longrightarrow> table_tracks fs t d"
  by (auto simp: table_tracks_def intro: tracks_later split: option.splits)

lemma snapshots_tracks: "table_tracks fs now d \<Longrightarrow> table_tracks fs now (snd (snapshots now pids d))"
proof (induction pids arbitrary: d)
  case (Cons pid pids)
  obtain h d1 where 1: "health_of pid d = (h, d1)" by force
  obtain v h2 where 2: "snapshot now h = (v, h2)" by force
  have "tracks_failures (fs pid) now h2"
    using is_available_tracks(1) table_tracks_health(1) [OF Cons.prems, of pid] 1 2 snd_snapshot [of now h] by auto
  then have "table_tracks fs now (dict_set pid h2 d1)"
    using table_tracks_health(2) [OF Cons.prems, of pid] 1 by (simp add: table_tracks_same)
  from Cons.IH [OF this] show ?case by (auto simp: 1 2 split: prod.split)
qed simp

lemma health_step_tracks:
  assumes "table_tracks fs now d" and "now \<le> event_time e"
  shows "table_tracks (\<lambda>pid. failures_since pid [e] (fs pid)) (event_time e) (health_step e d)"
proof -
  note t = table_tracks_later [OF assms]
  note h = table_tracks_health [OF t]
  show ?thesis
  proof (cases e)
    case (Succeeded u pid)
    have "(\<lambda>p. failures_since p [e] (fs p)) = fs(pid := [])" by (auto simp: Succeeded)
    then show ?thesis using h(2) [of pid]
      by (auto simp: Succeeded record_provider_success_def split: prod.split intro: table_tracks_set)
  next
    case (Failed u pid ex)
    have "(\<lambda>p. failures_since p [e] (fs p)) = fs(pid := u # fs pid)" by (auto simp: Failed)
    then show ?thesis using h [of pid] failure_tracks
      by (auto simp: Failed record_provider_failure_def split: prod.split intro!: table_tracks_set)
  next
    case (Asked u pid)
    have "(\<lambda>p. failures_since p [e] (fs p)) = fs" by (simp add: Asked)
    then show ?thesis using h [of pid] is_available_tracks(1)
      by (fastforce simp: Asked provider_available_def split: prod.split intro!: table_tracks_same)
  next
    case (Viewed u pids)
    have "(\<lambda>p. failures_since p [e] (fs p)) = fs" by (simp add: Viewed)
    then show ?thesis using t snapshots_tracks by (simp add: Viewed)
  qed
qed

lemma failures_since_Cons: "failures_since pid (e # es) fs = failures_since pid es (failures_since pid [e] fs)"
  by (cases e) auto

lemma health_run_tracks:
  assumes "table_tracks fs t0 d" and "sorted (t0 # map event_time es)"
  shows "table_tracks (\<lambda>pid. failures_since pid es (fs pid)) (last (t0 # map event_time es)) (fold health_step es d)"
  using assms
proof (induction es arbitrary: fs t0 d)
  case (Cons e es)
  have "table_tracks (\<lambda>pid. failures_since pid [e] (fs pid)) (event_time e) (health_step e d)"
    using health_step_tracks [OF Cons.prems(1), of e] Cons.prems(2) by simp
  from Cons.IH [OF this] Cons.prems(2) show ?case by (simp add: failures_since_Cons [of _ e es])
qed simp

text \<open>C27. After any run of outcomes and queries of several providers at nondecreasing times, a provider is
  available exactly if fewer than two failures followed its last success, or the last of them is
  at least a minute ago; queries and views never change the answer.\<close>

theorem circuit_refines_history:
  assumes "sorted (map event_time es @ [now])"
  shows "fst (provider_available now pid (fold health_step es [])) = circuit_closed pid es now"
proof -
  have "\<exists>t0. sorted (t0 # map event_time es)" using assms by (cases es) (auto simp: sorted_append)
  then obtain t0 where t0: "sorted (t0 # map event_time es)" "es = [] \<longrightarrow> t0 \<le> now"
    using assms by (cases es) (auto simp: sorted_append)
  have "table_tracks (\<lambda>_. []) t0 []" by (simp add: table_tracks_def)
  from health_run_tracks [OF this t0(1)]
  have t: "table_tracks (\<lambda>pid. failures_since pid es []) (last (t0 # map event_time es)) (fold health_step es [])" .
  have "last (t0 # map event_time es) \<le> now" using assms t0(2)
    by (cases es rule: rev_cases) (auto simp: sorted_append)
  from table_tracks_health(1) [OF table_tracks_later [OF t this], of pid]
  have "fst (is_available now (fst (health_of pid (fold health_step es [])))) = (\<not> open_failures (failures_since pid es []) now)"
    by (rule is_available_tracks(2))
  then show ?thesis
    by (auto simp: provider_available_def circuit_closed_def open_failures_def split: prod.split list.split)
qed

theorem circuit_refines_history_witness:
  "fst (provider_available 50 ''groq'' (fold health_step [Failed 0 ''groq'' (plain_error PyTimeoutError ''TimeoutError'' [] None),
     Asked 1 ''groq'', Failed 2 ''groq'' (plain_error PyTimeoutError ''TimeoutError'' [] None)] [])) = False"
  by (subst circuit_refines_history) (simp_all add: circuit_closed_def PROVIDER_CIRCUIT_COOLDOWN_SECONDS_def)

end
