(* ===== verification/Recovery.thy ===== *)
theory Recovery
  imports ProviderHealth ErrorMapping
begin

section \<open>Recovery of provider operations (\<open>providers/recovery.py\<close>)\<close>

text \<open>
  \<open>ProviderRecovery.try_call\<close> over a caller state \<open>'s\<close> that the callbacks change.  \<open>op i\<close> is the
  outcome of att \<open>i\<close> and \<open>rnd i\<close> the value of \<open>random.random()\<close> after it.
\<close>

datatype error_class = TRANSIENT | CIRCUIT | FATAL

datatype recovery_action = RETRY | SKIP | ESCALATE

definition retryable_http :: "int list" where
  "retryable_http = [429, 500, 502, 503, 504]"

definition classify_error :: "exc \<Rightarrow> error_class" where
  "classify_error e =
     (if ex_class e = RateLimitErrorC then TRANSIENT
      else if is_service_unavailable (ex_class e) then CIRCUIT
      else if ex_class e = HttpxStatusError then
        (case ex_status e of
           Some st \<Rightarrow>
             if st = 429 then TRANSIENT
             else if st \<in> set retryable_http then CIRCUIT
             else FATAL
         | None \<Rightarrow> FATAL)
      else if ex_class e = HttpxConnectError \<or> is_timeout_exception (ex_class e) \<or> ex_class e = PyConnectionError then CIRCUIT
      else FATAL)"

definition is_recoverable :: "exc \<Rightarrow> bool" where
  "is_recoverable e \<longleftrightarrow> classify_error e \<noteq> FATAL"

definition backoff :: "rat \<Rightarrow> nat \<Rightarrow> rat" where
  "backoff rnd att = min ((1 / 2) * 2 ^ (att - 1)) 30 * (1 / 2 + rnd * (1 / 2))"

record decision =
  rd_error_type :: string
  rd_error_class :: error_class
  rd_action :: recovery_action
  rd_attempt :: nat
  rd_backoff :: rat

record 'v recovery_result =
  rr_success :: bool
  rr_value :: "'v option"
  rr_error :: "exc option"
  rr_error_class :: error_class
  rr_action :: recovery_action
  rr_attempts :: nat
  rr_detail :: string

text \<open>\<open>try_call\<close> returns a result or lets an exception out.\<close>

type_synonym ('v, 's) recovered = "(exc + 'v recovery_result) \<times> rat list \<times> 's"

definition success_result :: "'v \<Rightarrow> nat \<Rightarrow> 'v recovery_result" where
  "success_result v att =
     \<lparr>rr_success = True, rr_value = Some v, rr_error = None, rr_error_class = FATAL, rr_action = ESCALATE,
      rr_attempts = att, rr_detail = []\<rparr>"

definition failure_result :: "exc \<Rightarrow> recovery_action \<Rightarrow> nat \<Rightarrow> 'v recovery_result" where
  "failure_result e act att =
     \<lparr>rr_success = False, rr_value = None, rr_error = Some e, rr_error_class = classify_error e, rr_action = act,
      rr_attempts = att, rr_detail = take 300 (ex_str e)\<rparr>"

definition no_attempt_result :: "'v recovery_result" where
  "no_attempt_result =
     \<lparr>rr_success = False, rr_value = None, rr_error = None, rr_error_class = FATAL, rr_action = ESCALATE,
      rr_attempts = 1, rr_detail = ''unknown''\<rparr>"

text \<open>What follows a failed attempt.\<close>

definition decide :: "nat \<Rightarrow> nat \<Rightarrow> (nat \<Rightarrow> rat) \<Rightarrow> exc \<Rightarrow> decision" where
  "decide max_retries att rnd e =
     (let c = classify_error e in
      if max_retries < att \<or> c = FATAL
      then \<lparr>rd_error_type = ex_name e, rd_error_class = c, rd_action = (if c = FATAL then ESCALATE else SKIP),
            rd_attempt = att, rd_backoff = 0\<rparr>
      else \<lparr>rd_error_type = ex_name e, rd_error_class = c, rd_action = RETRY, rd_attempt = att,
            rd_backoff = backoff (rnd att) att\<rparr>)"

text \<open>The outcome of an attempt: an exception of \<open>on_success\<close> counts as a failure of the att.\<close>

definition attempt_call :: "(exc + 'v) \<Rightarrow> ('s \<Rightarrow> exc option \<times> 's) option \<Rightarrow> 's \<Rightarrow> (exc + 'v) \<times> 's" where
  "attempt_call r on_success s =
     (case r of
        Inl e \<Rightarrow> (Inl e, s)
      | Inr v \<Rightarrow>
          (case on_success of
             None \<Rightarrow> (Inr v, s)
           | Some f \<Rightarrow> (case f s of (None, s) \<Rightarrow> (Inr v, s) | (Some e, s) \<Rightarrow> (Inl e, s))))"

definition notify_failure :: "(exc \<Rightarrow> 's \<Rightarrow> exc option \<times> 's) option \<Rightarrow> exc \<Rightarrow> 's \<Rightarrow> exc option \<times> 's" where
  "notify_failure on_failure e s = (case on_failure of None \<Rightarrow> (None, s) | Some f \<Rightarrow> f e s)"

text \<open>The loop, with \<open>n\<close> attempts left.  \<open>last\<close> is the prev error with its decision.\<close>

fun try_loop ::
  "nat \<Rightarrow> (nat \<Rightarrow> exc + 'v) \<Rightarrow> ('s \<Rightarrow> exc option \<times> 's) option \<Rightarrow> (exc \<Rightarrow> 's \<Rightarrow> exc option \<times> 's) option
    \<Rightarrow> (nat \<Rightarrow> rat) \<Rightarrow> nat \<Rightarrow> nat \<Rightarrow> (exc \<times> decision) option \<Rightarrow> 's \<Rightarrow> ('v, 's) recovered" where
  "try_loop mx op on_success on_failure rnd 0 att prev s =
     (Inr (case prev of
             None \<Rightarrow> no_attempt_result
           | Some (e, d) \<Rightarrow> failure_result e (rd_action d) (att - 1)), [], s)"
| "try_loop mx op on_success on_failure rnd (Suc n) att prev s =
     (case attempt_call (op att) on_success s of
        (Inr v, s) \<Rightarrow> (Inr (success_result v att), [], s)
      | (Inl e, s) \<Rightarrow>
          if ex_class e = CancelledErrorC then (Inl e, [], s)
          else
            (case notify_failure on_failure e s of
               (Some e', s) \<Rightarrow> (Inl e', [], s)
             | (None, s) \<Rightarrow>
                 let d = decide mx att rnd e in
                 if rd_action d = ESCALATE then (Inr (failure_result e ESCALATE att), [], s)
                 else
                   case try_loop mx op on_success on_failure rnd n (Suc att) (Some (e, d)) s of
                     (r, waits, s) \<Rightarrow>
                       (r, (if rd_action d = RETRY \<and> att \<le> mx then [rd_backoff d] else []) @ waits, s)))"

definition try_call ::
  "int \<Rightarrow> (nat \<Rightarrow> exc + 'v) \<Rightarrow> ('s \<Rightarrow> exc option \<times> 's) option \<Rightarrow> (exc \<Rightarrow> 's \<Rightarrow> exc option \<times> 's) option
    \<Rightarrow> (nat \<Rightarrow> rat) \<Rightarrow> 's \<Rightarrow> ('v, 's) recovered" where
  "try_call max_retries op on_success on_failure rnd s =
     try_loop (nat max_retries) op on_success on_failure rnd (nat (max_retries + 1)) 1 None s"

subsection \<open>The contract of a recovered call\<close>

text \<open>Callbacks that do not raise.\<close>

definition quiet :: "('s \<Rightarrow> 's) \<Rightarrow> 's \<Rightarrow> exc option \<times> 's" where
  "quiet f s = (None, f s)"

definition quiet1 :: "(exc \<Rightarrow> 's \<Rightarrow> 's) \<Rightarrow> exc \<Rightarrow> 's \<Rightarrow> exc option \<times> 's" where
  "quiet1 f e s = (None, f e s)"

definition fails_softly :: "exc + 'v \<Rightarrow> bool" where
  "fails_softly r \<longleftrightarrow> (case r of Inl e \<Rightarrow> is_recoverable e | Inr _ \<Rightarrow> False)"

definition the_error :: "exc + 'v \<Rightarrow> exc" where
  "the_error r = (case r of Inl e \<Rightarrow> e | Inr _ \<Rightarrow> undefined)"

text \<open>How the call ends, given that attempt \<open>k\<close> is the prev one and what its outcome is.\<close>

definition final_result :: "(exc + 'v) \<Rightarrow> nat \<Rightarrow> (exc + 'v recovery_result)" where
  "final_result r k =
     (case r of
        Inr v \<Rightarrow> Inr (success_result v k)
      | Inl e \<Rightarrow>
          if ex_class e = CancelledErrorC then Inl e
          else Inr (failure_result e (if is_recoverable e then SKIP else ESCALATE) k))"

definition final_state :: "('s \<Rightarrow> 's) \<Rightarrow> (exc \<Rightarrow> 's \<Rightarrow> 's) \<Rightarrow> (exc + 'v) \<Rightarrow> 's \<Rightarrow> 's" where
  "final_state ok fail r s =
     (case r of Inr v \<Rightarrow> ok s | Inl e \<Rightarrow> if ex_class e = CancelledErrorC then s else fail e s)"

lemma soft_not_cancelled: "is_recoverable e \<Longrightarrow> ex_class e \<noteq> CancelledErrorC"
  by (auto simp: is_recoverable_def classify_error_def class_defs)

lemma decide_action:
  "rd_action (decide mx att rnd e) =
     (if \<not> is_recoverable e then ESCALATE else if mx < att then SKIP else RETRY)"
  by (auto simp: decide_def is_recoverable_def Let_def)

lemma try_loop_done:
  assumes "\<not> fails_softly (op att)"
  shows "try_loop mx op (Some (quiet ok)) (Some (quiet1 fail)) rnd (Suc n) att prev s =
    (final_result (op att) att, [], final_state ok fail (op att) s)"
  using assms
  by (cases "op att") (auto simp: attempt_call_def notify_failure_def quiet_def quiet1_def final_result_def
      final_state_def fails_softly_def decide_action Let_def)

lemma try_loop_soft:
  assumes "fails_softly (op att)"
  shows "try_loop mx op (Some (quiet ok)) (Some (quiet1 fail)) rnd (Suc n) att prev s =
    (case try_loop mx op (Some (quiet ok)) (Some (quiet1 fail)) rnd n (Suc att)
       (Some (the_error (op att), decide mx att rnd (the_error (op att)))) (fail (the_error (op att)) s) of
       (r, waits, s) \<Rightarrow> (r, (if att \<le> mx then [backoff (rnd att) att] else []) @ waits, s))"
proof -
  obtain e where e: "op att = Inl e" "is_recoverable e"
    using assms by (cases "op att") (auto simp: fails_softly_def)
  have "rd_backoff (decide mx att rnd e) = (if att \<le> mx then backoff (rnd att) att else 0)"
    using e(2) by (simp add: decide_def is_recoverable_def Let_def)
  then show ?thesis using e soft_not_cancelled [OF e(2)]
    by (simp add: attempt_call_def notify_failure_def quiet1_def the_error_def decide_action Let_def)
qed

lemma try_loop_contract:
  assumes "att + n = Suc mx" and "1 \<le> att"
  shows "\<exists>k. att \<le> k \<and> k \<le> Suc mx \<and> (\<forall>j. att \<le> j \<and> j < k \<longrightarrow> fails_softly (op j)) \<and>
    (fails_softly (op k) \<longrightarrow> k = Suc mx) \<and>
    try_loop mx op (Some (quiet ok)) (Some (quiet1 fail)) rnd (Suc n) att prev s =
      (final_result (op k) k, map (\<lambda>j. backoff (rnd j) j) [att..<k],
       final_state ok fail (op k) (fold (\<lambda>j. fail (the_error (op j))) [att..<k] s))"
  using assms
proof (induction n arbitrary: att prev s)
  case 0
  show ?case
  proof (cases "fails_softly (op att)")
    case True
    then obtain e where e: "op att = Inl e" "is_recoverable e"
      by (cases "op att") (auto simp: fails_softly_def)
    have att: "att = Suc mx" using 0 by simp
    have "try_loop mx op (Some (quiet ok)) (Some (quiet1 fail)) rnd (Suc 0) att prev s =
        (final_result (op att) att, [], final_state ok fail (op att) s)"
      unfolding try_loop_soft [where op = op, OF True] using e soft_not_cancelled [OF e(2)] att
      by (simp add: final_result_def final_state_def the_error_def decide_action)
    then show ?thesis using att by (intro exI [of _ att]) auto
  next
    case False
    then show ?thesis using 0 try_loop_done [where op = op, OF False, of mx ok fail rnd 0 prev s]
      by (intro exI [of _ att]) auto
  qed
next
  case (Suc n)
  show ?case
  proof (cases "fails_softly (op att)")
    case False
    then show ?thesis using Suc.prems try_loop_done [where op = op, OF False, of mx ok fail rnd "Suc n" prev s]
      by (intro exI [of _ att]) auto
  next
    case True
    let ?e = "the_error (op att)"
    have "Suc att + n = Suc mx" "1 \<le> Suc att" using Suc.prems by simp_all
    from Suc.IH [OF this, of "Some (?e, decide mx att rnd ?e)" "fail ?e s"]
    obtain k where k: "Suc att \<le> k" "k \<le> Suc mx" "\<forall>j. Suc att \<le> j \<and> j < k \<longrightarrow> fails_softly (op j)"
      "fails_softly (op k) \<longrightarrow> k = Suc mx"
      "try_loop mx op (Some (quiet ok)) (Some (quiet1 fail)) rnd (Suc n) (Suc att) (Some (?e, decide mx att rnd ?e)) (fail ?e s) =
        (final_result (op k) k, map (\<lambda>j. backoff (rnd j) j) [Suc att..<k],
         final_state ok fail (op k) (fold (\<lambda>j. fail (the_error (op j))) [Suc att..<k] (fail ?e s)))" by blast
    have upt: "[att..<k] = att # [Suc att..<k]" using k(1) by (simp add: upt_conv_Cons)
    have "\<forall>j. att \<le> j \<and> j < k \<longrightarrow> fails_softly (op j)" using k(3) True by (metis Suc_leI le_neq_implies_less)
    moreover have "try_loop mx op (Some (quiet ok)) (Some (quiet1 fail)) rnd (Suc (Suc n)) att prev s =
        (final_result (op k) k, map (\<lambda>j. backoff (rnd j) j) [att..<k],
         final_state ok fail (op k) (fold (\<lambda>j. fail (the_error (op j))) [att..<k] s))"
      using Suc.prems by (simp add: try_loop_soft [where op = op, OF True] k(5) upt del: try_loop.simps upt_Suc)
    moreover have "att \<le> k" using k(1) by simp
    ultimately show ?thesis using k(2,4) by blast
  qed
qed

text \<open>\<open>try_call\<close> attempts until the first outcome that is not a recoverable error, at most
  \<open>max_retries + 1\<close> times.  It reports that outcome (cancellation is let through), has told every failure
  to \<open>on_failure\<close>, in order, and a success to \<open>on_success\<close>, and has slept the backoff between attempts.\<close>

theorem try_call_contract:
  assumes "0 \<le> max_retries"
  shows "\<exists>k. 1 \<le> k \<and> int k \<le> max_retries + 1 \<and> (\<forall>j \<in> {1..<k}. fails_softly (op j)) \<and>
    (fails_softly (op k) \<longrightarrow> int k = max_retries + 1) \<and>
    try_call max_retries op (Some (quiet ok)) (Some (quiet1 fail)) rnd s =
      (final_result (op k) k, map (\<lambda>j. backoff (rnd j) j) [1..<k],
       final_state ok fail (op k) (fold (\<lambda>j. fail (the_error (op j))) [1..<k] s))"
proof -
  let ?m = "nat max_retries"
  have m: "nat (max_retries + 1) = Suc ?m" using assms by simp
  obtain k where k: "1 \<le> k" "k \<le> Suc ?m" "\<forall>j. 1 \<le> j \<and> j < k \<longrightarrow> fails_softly (op j)"
      "fails_softly (op k) \<longrightarrow> k = Suc ?m"
      "try_loop ?m op (Some (quiet ok)) (Some (quiet1 fail)) rnd (Suc ?m) 1 None s =
        (final_result (op k) k, map (\<lambda>j. backoff (rnd j) j) [1..<k],
         final_state ok fail (op k) (fold (\<lambda>j. fail (the_error (op j))) [1..<k] s))"
    using try_loop_contract [of 1 ?m ?m op ok fail rnd None s] by auto
  have "int k \<le> max_retries + 1" "fails_softly (op k) \<longrightarrow> int k = max_retries + 1" "\<forall>j \<in> {1..<k}. fails_softly (op j)"
    using assms k(2,3,4) by auto
  then show ?thesis using k(1) k(5) unfolding try_call_def m by blast
qed

text \<open>With the registry's circuit as callbacks.\<close>

theorem try_call_contract_witness:
  "\<exists>k. 1 \<le> k \<and> int k \<le> 3 \<and>
     fst (snd (try_call 2 (\<lambda>i. if i < 3 then Inl (service_unavailable_error ''down'' None) else Inr i)
       (Some (quiet (record_provider_success 0 ''groq''))) (Some (quiet1 (record_provider_failure 0 ''groq''))) (\<lambda>_. 0) [])) =
     map (\<lambda>j. backoff 0 j) [1..<k]"
proof -
  let ?op = "\<lambda>i. if i < 3 then Inl (service_unavailable_error ''down'' None) else Inr i"
  have "(0 :: int) \<le> 2" by simp
  from try_call_contract [OF this, of ?op "record_provider_success 0 ''groq''" "record_provider_failure 0 ''groq''" "\<lambda>_. 0" "[]"]
  obtain k where "1 \<le> k" "int k \<le> 2 + 1"
    "try_call 2 ?op (Some (quiet (record_provider_success 0 ''groq''))) (Some (quiet1 (record_provider_failure 0 ''groq''))) (\<lambda>_. 0) [] =
      (final_result (?op k) k, map (\<lambda>j. backoff 0 j) [1..<k], final_state (record_provider_success 0 ''groq'')
        (record_provider_failure 0 ''groq'') (?op k) (fold (\<lambda>j. record_provider_failure 0 ''groq'' (the_error (?op j))) [1..<k] []))"
    by blast
  then show ?thesis by (intro exI [of _ k]) simp
qed

text \<open>A gateway error is recoverable as long as it is raw; after \<open>map_error\<close> it is fatal.\<close>

lemma mapped_gateway_error_fatal:
  assumes "ex_class e = HttpxStatusError" and "ex_status e = Some st" and "st = 502 \<or> st = 503 \<or> st = 504"
  shows "classify_error e = CIRCUIT" and "classify_error (fst (map_error now e g)) = FATAL"
  using assms by (auto simp: classify_error_def retryable_http_def map_error_def http_error_def Let_def constructor_defs class_defs)

end
