(* ===== verification/ModelRouting.thy ===== *)
theory ModelRouting
  imports ProviderCatalog
begin

section \<open>Model routing (\<open>config/settings.py\<close>, \<open>api/gateway_model_ids.py\<close>, \<open>api/model_router.py\<close>)\<close>

text \<open>
  The model fields of the settings with their validators, the ids the gateway advertises, and the
  router that turns the model name of a request into a provider, a model and a thinking policy.
\<close>

subsection \<open>Settings\<close>

record model_settings =
  st_model :: string
  st_model_fallbacks :: string
  st_model_opus :: "string option"
  st_model_sonnet :: "string option"
  st_model_haiku :: "string option"
  st_enable_model_thinking :: bool
  st_enable_opus_thinking :: "bool option"
  st_enable_sonnet_thinking :: "bool option"
  st_enable_haiku_thinking :: "bool option"

definition parse_optional_str :: "string option \<Rightarrow> string option" where
  "parse_optional_str v = (if v = Some [] then None else v)"

definition parse_provider_type :: "string \<Rightarrow> string" where
  "parse_provider_type s = takeWhile (\<lambda>c. c \<noteq> CHR ''/'') s"

definition parse_model_name :: "string \<Rightarrow> string result" where
  "parse_model_name s =
     (if CHR ''/'' \<in> set s then Inr (tl (dropWhile (\<lambda>c. c \<noteq> CHR ''/'') s)) else Inl IndexError)"

definition validate_model_format :: "string option \<Rightarrow> string option result" where
  "validate_model_format v =
     (case v of
        None \<Rightarrow> Inr None
      | Some s \<Rightarrow>
          if CHR ''/'' \<notin> set s then Inl ValueError
          else if parse_provider_type s \<notin> set SUPPORTED_PROVIDER_IDS then Inl ValueError
          else Inr (Some s))"

fun validate_all :: "string list \<Rightarrow> unit result" where
  "validate_all [] = Inr ()"
| "validate_all (r # rs) = bind_result (validate_model_format (Some r)) (\<lambda>_. validate_all rs)"

definition stripped_parts :: "string \<Rightarrow> string list" where
  "stripped_parts v = filter (\<lambda>p. p \<noteq> []) (map py_strip (py_split (CHR '','') v))"

definition validate_model_fallbacks :: "string \<Rightarrow> string result" where
  "validate_model_fallbacks v =
     (let refs = stripped_parts v in
      bind_result (validate_all refs) (\<lambda>_. Inr (py_join '','' refs)))"

text \<open>The settings after the validators, or the \<open>ValidationError\<close>.\<close>

definition load_settings :: "model_settings \<Rightarrow> model_settings result" where
  "load_settings raw =
     bind_result (validate_model_format (Some (st_model raw))) (\<lambda>_.
     bind_result (validate_model_fallbacks (st_model_fallbacks raw)) (\<lambda>fallbacks.
     bind_result (validate_model_format (parse_optional_str (st_model_opus raw))) (\<lambda>opus.
     bind_result (validate_model_format (parse_optional_str (st_model_sonnet raw))) (\<lambda>sonnet.
     bind_result (validate_model_format (parse_optional_str (st_model_haiku raw))) (\<lambda>haiku.
       Inr (raw\<lparr>st_model_fallbacks := fallbacks, st_model_opus := opus,
              st_model_sonnet := sonnet, st_model_haiku := haiku\<rparr>))))))"

definition resolve_model :: "model_settings \<Rightarrow> string \<Rightarrow> string" where
  "resolve_model st name =
     (let n = py_lower name in
      case (if py_in ''opus'' n then st_model_opus st else None) of Some m \<Rightarrow> m | None \<Rightarrow>
      case (if py_in ''haiku'' n then st_model_haiku st else None) of Some m \<Rightarrow> m | None \<Rightarrow>
      case (if py_in ''sonnet'' n then st_model_sonnet st else None) of Some m \<Rightarrow> m | None \<Rightarrow>
      st_model st)"

definition resolve_thinking :: "model_settings \<Rightarrow> string \<Rightarrow> bool" where
  "resolve_thinking st name =
     (let n = py_lower name in
      case (if py_in ''opus'' n then st_enable_opus_thinking st else None) of Some b \<Rightarrow> b | None \<Rightarrow>
      case (if py_in ''haiku'' n then st_enable_haiku_thinking st else None) of Some b \<Rightarrow> b | None \<Rightarrow>
      case (if py_in ''sonnet'' n then st_enable_sonnet_thinking st else None) of Some b \<Rightarrow> b | None \<Rightarrow>
      st_enable_model_thinking st)"

definition fallback_model_refs :: "model_settings \<Rightarrow> string list" where
  "fallback_model_refs st = filter (\<lambda>p. p \<noteq> []) (py_split (CHR '','') (st_model_fallbacks st))"

record configured_ref =
  cr_model_ref :: string
  cr_provider_id :: string
  cr_model_id :: string
  cr_sources :: "string list"

definition candidates :: "model_settings \<Rightarrow> (string \<times> string) list" where
  "candidates st =
     (''MODEL'', st_model st) #
     map (Pair ''MODEL_FALLBACKS'') (fallback_model_refs st) @
     (case st_model_opus st of None \<Rightarrow> [] | Some r \<Rightarrow> [(''MODEL_OPUS'', r)]) @
     (case st_model_sonnet st of None \<Rightarrow> [] | Some r \<Rightarrow> [(''MODEL_SONNET'', r)]) @
     (case st_model_haiku st of None \<Rightarrow> [] | Some r \<Rightarrow> [(''MODEL_HAIKU'', r)])"

definition add_source :: "string \<times> string \<Rightarrow> (string, string list) pydict \<Rightarrow> (string, string list) pydict" where
  "add_source c d =
     (case c of (source, ref) \<Rightarrow>
        dict_set ref (case dict_get ref d of None \<Rightarrow> [source] | Some ss \<Rightarrow> ss @ [source]) d)"

fun map_result :: "('a \<Rightarrow> 'b result) \<Rightarrow> 'a list \<Rightarrow> 'b list result" where
  "map_result f [] = Inr []"
| "map_result f (x # xs) = bind_result (f x) (\<lambda>y. bind_result (map_result f xs) (\<lambda>ys. Inr (y # ys)))"

definition configured_chat_model_refs :: "model_settings \<Rightarrow> configured_ref list result" where
  "configured_chat_model_refs st =
     map_result (\<lambda>(ref, sources).
         bind_result (parse_model_name ref) (\<lambda>model.
           Inr \<lparr>cr_model_ref = ref, cr_provider_id = parse_provider_type ref, cr_model_id = model, cr_sources = sources\<rparr>))
       (fold add_source (candidates st) [])"

subsection \<open>The ids the gateway advertises\<close>

definition gateway_model_id :: "string \<Rightarrow> string" where
  "gateway_model_id ref = ''anthropic/'' @ ref"

definition no_thinking_gateway_model_id :: "string \<Rightarrow> string" where
  "no_thinking_gateway_model_id ref = ''claude-3-freecc-no-thinking/'' @ ref"

text \<open>The provider, the model and \<open>force_thinking_enabled\<close>.\<close>

type_synonym direct = "string \<times> string \<times> bool option"

definition decode_gateway_model_id :: "string \<Rightarrow> direct option" where
  "decode_gateway_model_id name =
     (let (pre, found, remainder) = py_partition (CHR ''/'') name in
      if \<not> found then None
      else if pre \<noteq> ''anthropic'' \<and> pre \<noteq> ''claude-3-freecc-no-thinking'' then None
      else
        let force = (if pre = ''anthropic'' then None else Some False);
            (pid, found, model) = py_partition (CHR ''/'') remainder
        in if \<not> found \<or> model = [] then None else Some (pid, model, force))"

subsection \<open>The router\<close>

record resolved_model =
  rm_original_model :: string
  rm_provider_id :: string
  rm_provider_model :: string
  rm_provider_model_ref :: string
  rm_thinking_enabled :: bool

definition direct_provider_model :: "string \<Rightarrow> direct option" where
  "direct_provider_model name =
     (case decode_gateway_model_id name of
        Some (pid, model, force) \<Rightarrow>
          if pid \<in> set SUPPORTED_PROVIDER_IDS then Some (pid, model, force) else None
      | None \<Rightarrow>
          let (pid, found, model) = py_partition (CHR ''/'') name in
          if \<not> found then None
          else if pid \<notin> set SUPPORTED_PROVIDER_IDS then None
          else if model = [] then None
          else Some (pid, model, None))"

fun class_of_refs :: "string \<Rightarrow> configured_ref list \<Rightarrow> string option" where
  "class_of_refs ref [] = None"
| "class_of_refs ref (c # cs) =
     (if cr_model_ref c \<noteq> ref then class_of_refs ref cs
      else if ''MODEL_OPUS'' \<in> set (cr_sources c) then Some ''claude-opus''
      else if ''MODEL_SONNET'' \<in> set (cr_sources c) then Some ''claude-sonnet''
      else if ''MODEL_HAIKU'' \<in> set (cr_sources c) then Some ''claude-haiku''
      else class_of_refs ref cs)"

definition direct_model_thinking_name :: "model_settings \<Rightarrow> string \<Rightarrow> string \<Rightarrow> string \<Rightarrow> string result" where
  "direct_model_thinking_name st name pid model =
     bind_result (configured_chat_model_refs st) (\<lambda>refs.
       Inr (case class_of_refs (pid @ ''/'' @ model) refs of
              Some n \<Rightarrow> n
            | None \<Rightarrow> if py_startswith ''claude-'' name then name else model))"

definition resolve :: "model_settings \<Rightarrow> string \<Rightarrow> resolved_model result" where
  "resolve st name =
     (case direct_provider_model name of
        Some (pid, model, force) \<Rightarrow>
          bind_result
            (case force of
               Some b \<Rightarrow> Inr b
             | None \<Rightarrow> bind_result (direct_model_thinking_name st name pid model) (\<lambda>n. Inr (resolve_thinking st n)))
            (\<lambda>thinking.
               Inr \<lparr>rm_original_model = name, rm_provider_id = pid, rm_provider_model = model,
                    rm_provider_model_ref = name, rm_thinking_enabled = thinking\<rparr>)
      | None \<Rightarrow>
          let ref = resolve_model st name in
          bind_result (parse_model_name ref) (\<lambda>model.
            Inr \<lparr>rm_original_model = name, rm_provider_id = parse_provider_type ref, rm_provider_model = model,
                 rm_provider_model_ref = ref, rm_thinking_enabled = resolve_thinking st name\<rparr>))"

subsection \<open>Validated references\<close>

definition valid_ref :: "string \<Rightarrow> bool" where
  "valid_ref s \<longleftrightarrow> CHR ''/'' \<in> set s \<and> parse_provider_type s \<in> set SUPPORTED_PROVIDER_IDS"

lemma valid_refE:
  assumes "valid_ref s"
  obtains p m where "s = p @ ''/'' @ m" "p \<in> set SUPPORTED_PROVIDER_IDS" "parse_provider_type s = p"
    "parse_model_name s = Inr m"
proof -
  have "CHR ''/'' \<in> set s" using assms by (simp add: valid_ref_def)
  then obtain p m where s: "s = p @ CHR ''/'' # m" "CHR ''/'' \<notin> set p" by (metis split_list_first)
  have "takeWhile (\<lambda>c. c \<noteq> CHR ''/'') s = p" "dropWhile (\<lambda>c. c \<noteq> CHR ''/'') s = CHR ''/'' # m"
    using s(2) unfolding s(1) by (induction p) auto
  then show thesis using that [of p m] s assms
    by (simp add: parse_provider_type_def parse_model_name_def valid_ref_def)
qed

lemma validate_model_format_iff [simp]:
  "validate_model_format (Some s) = Inr v \<longleftrightarrow> valid_ref s \<and> v = Some s"
  "validate_model_format None = Inr v \<longleftrightarrow> v = None"
  by (auto simp: validate_model_format_def valid_ref_def)

lemma validate_all_iff [simp]: "validate_all rs = Inr u \<longleftrightarrow> (\<forall>r \<in> set rs. valid_ref r)"
  by (induction rs) auto

lemma stripped_no_comma: "p \<in> set (stripped_parts v) \<Longrightarrow> CHR '','' \<notin> set p \<and> p \<noteq> []"
  using py_split_parts [of _ "CHR '',''" v] py_strip_no_sep [of "CHR '',''"] by (auto simp: stripped_parts_def)

definition settings_ok :: "model_settings \<Rightarrow> bool" where
  "settings_ok st \<longleftrightarrow> valid_ref (st_model st) \<and> (\<forall>r \<in> set (fallback_model_refs st). valid_ref r) \<and>
     (\<forall>r \<in> set_option (st_model_opus st). valid_ref r) \<and>
     (\<forall>r \<in> set_option (st_model_sonnet st). valid_ref r) \<and>
     (\<forall>r \<in> set_option (st_model_haiku st). valid_ref r)"

lemma fallbacks_joined:
  "validate_model_fallbacks v = Inr w \<Longrightarrow> st_model_fallbacks st = w \<Longrightarrow>
     fallback_model_refs st = stripped_parts v \<and> (\<forall>r \<in> set (stripped_parts v). valid_ref r)"
proof -
  assume w: "validate_model_fallbacks v = Inr w" "st_model_fallbacks st = w"
  let ?ps = "stripped_parts v"
  have v: "\<forall>r \<in> set ?ps. valid_ref r" "w = py_join '','' ?ps"
    using w(1) by (auto simp: validate_model_fallbacks_def Let_def)
  have "filter (\<lambda>p. p \<noteq> []) (py_split (CHR '','') w) = ?ps"
  proof (cases "?ps = []")
    case False
    then have "py_split (CHR '','') w = ?ps" using v(2) py_split_join stripped_no_comma by metis
    moreover have "filter (\<lambda>p. p \<noteq> []) ?ps = ?ps" using stripped_no_comma by (intro filter_True) blast
    ultimately show ?thesis by simp
  qed (simp add: v(2))
  then show ?thesis using v(1) w(2) by (simp add: fallback_model_refs_def del: filter_neq_removeAll)
qed

lemma validated: "validate_model_format v = Inr w \<Longrightarrow> \<forall>r \<in> set_option w. valid_ref r"
  by (cases v) auto

lemma load_settings_ok:
  assumes "load_settings raw = Inr st"
  shows "settings_ok st" and "fallback_model_refs st = stripped_parts (st_model_fallbacks raw)"
    and "st_model st = st_model raw"
proof -
  obtain fb opus sonnet haiku where l: "validate_model_format (Some (st_model raw)) = Inr (Some (st_model raw))"
      "validate_model_fallbacks (st_model_fallbacks raw) = Inr fb"
      "validate_model_format (parse_optional_str (st_model_opus raw)) = Inr opus"
      "validate_model_format (parse_optional_str (st_model_sonnet raw)) = Inr sonnet"
      "validate_model_format (parse_optional_str (st_model_haiku raw)) = Inr haiku"
      "st = raw\<lparr>st_model_fallbacks := fb, st_model_opus := opus, st_model_sonnet := sonnet, st_model_haiku := haiku\<rparr>"
    using assms by (auto simp: load_settings_def)
  have f: "fallback_model_refs st = stripped_parts (st_model_fallbacks raw)"
    "\<forall>r \<in> set (fallback_model_refs st). valid_ref r"
    using fallbacks_joined [OF l(2), of st] by (simp_all add: l(6))
  then show "settings_ok st" using l(1) validated [OF l(3)] validated [OF l(4)] validated [OF l(5)]
    by (auto simp: settings_ok_def l(6))
  show "fallback_model_refs st = stripped_parts (st_model_fallbacks raw)" by (rule f(1))
  show "st_model st = st_model raw" by (simp add: l(6))
qed

lemma settings_ok_candidates: "settings_ok st \<Longrightarrow> (source, r) \<in> set (candidates st) \<Longrightarrow> valid_ref r"
  by (auto simp: settings_ok_def candidates_def split: option.splits)

lemma settings_ok_resolve: "settings_ok st \<Longrightarrow> valid_ref (resolve_model st name)"
  by (auto simp: settings_ok_def resolve_model_def Let_def split: option.splits)

subsection \<open>The configured references\<close>

lemma map_result_Inr:
  "(\<And>x. x \<in> set xs \<Longrightarrow> f x = Inr (g x)) \<Longrightarrow> map_result f xs = Inr (map g xs)"
  by (induction xs) auto

lemma add_source_get:
  "dict_get r (fold add_source cs d) =
     (if r \<in> snd ` set cs \<or> dict_get r d \<noteq> None
      then Some ((case dict_get r d of None \<Rightarrow> [] | Some ss \<Rightarrow> ss) @ map fst (filter (\<lambda>c. snd c = r) cs)) else None)"
  by (induction cs arbitrary: d) (auto simp: add_source_def split: option.splits)

lemma add_source_keys:
  "dict_keys (fold add_source cs d) = dict_keys d @ filter (\<lambda>r. r \<notin> set (dict_keys d)) (rev (remdups (rev (map snd cs))))"
proof (induction cs rule: rev_induct)
  case (snoc c cs)
  obtain source ref where c: "c = (source, ref)" by force
  show ?case using snoc by (auto simp: c add_source_def pd.keys_store)
qed simp

lemma add_source_ok: "dict_ok d \<Longrightarrow> dict_ok (fold add_source cs d)"
  by (induction cs arbitrary: d) (auto simp: add_source_def split: prod.splits)

lemma configured_refs_eq:
  assumes "settings_ok st"
  shows "configured_chat_model_refs st =
    Inr (map (\<lambda>(ref, sources). \<lparr>cr_model_ref = ref, cr_provider_id = parse_provider_type ref,
      cr_model_id = (case parse_model_name ref of Inr m \<Rightarrow> m | Inl _ \<Rightarrow> []), cr_sources = sources\<rparr>) (fold add_source (candidates st) []))"
  unfolding configured_chat_model_refs_def
proof (rule map_result_Inr)
  fix x assume x: "x \<in> set (fold add_source (candidates st) [])"
  obtain ref sources where [simp]: "x = (ref, sources)" by force
  have "ref \<in> set (dict_keys (fold add_source (candidates st) []))" using x by (force simp: dict_keys_def)
  then have "ref \<in> snd ` set (candidates st)" by (simp add: add_source_keys)
  then have "valid_ref ref" using settings_ok_candidates [OF assms] by force
  then obtain m where "parse_model_name ref = Inr m" by (metis valid_refE)
  then show "(case x of (ref, sources) \<Rightarrow> bind_result (parse_model_name ref) (\<lambda>model. Inr \<lparr>cr_model_ref = ref,
      cr_provider_id = parse_provider_type ref, cr_model_id = model, cr_sources = sources\<rparr>)) =
    Inr (case x of (ref, sources) \<Rightarrow> \<lparr>cr_model_ref = ref, cr_provider_id = parse_provider_type ref,
      cr_model_id = (case parse_model_name ref of Inr m \<Rightarrow> m | Inl _ \<Rightarrow> []), cr_sources = sources\<rparr>)" by simp
qed

text \<open>What one entry of the list must be, given the candidates in order.\<close>

definition ref_entry :: "(string \<times> string) list \<Rightarrow> configured_ref \<Rightarrow> bool" where
  "ref_entry cs c \<longleftrightarrow>
     cr_model_ref c = cr_provider_id c @ ''/'' @ cr_model_id c \<and> cr_provider_id c \<in> set SUPPORTED_PROVIDER_IDS \<and>
     cr_sources c = map fst (filter (\<lambda>x. snd x = cr_model_ref c) cs)"

text \<open>Validated settings give one entry for every reference of the model fields, in the order of its
  first use, split into a supported provider and a model, with every field that names it.\<close>

theorem configured_refs_exact:
  assumes "load_settings raw = Inr st"
  shows "\<exists>refs. configured_chat_model_refs st = Inr refs \<and>
    map cr_model_ref refs = rev (remdups (rev (map snd (candidates st)))) \<and>
    list_all (ref_entry (candidates st)) refs"
proof -
  note ok = load_settings_ok(1) [OF assms]
  let ?d = "fold add_source (candidates st) []"
  define mk where "mk = (\<lambda>(ref, sources). \<lparr>cr_model_ref = ref, cr_provider_id = parse_provider_type ref,
      cr_model_id = (case parse_model_name ref of Inr m \<Rightarrow> m | Inl _ \<Rightarrow> []), cr_sources = sources\<rparr>)"
  have refs: "configured_chat_model_refs st = Inr (map mk ?d)"
    unfolding mk_def by (rule configured_refs_eq [OF ok])
  have "map cr_model_ref (map mk ?d) = dict_keys ?d" by (auto simp: mk_def dict_keys_def split: prod.splits)
  then have keys: "map cr_model_ref (map mk ?d) = rev (remdups (rev (map snd (candidates st))))"
    by (simp add: add_source_keys)
  have "ref_entry (candidates st) (mk (ref, sources))" if m: "(ref, sources) \<in> set ?d" for ref sources
  proof -
    have get: "dict_get ref ?d = Some sources" using m by (simp add: dict_mem_get add_source_ok)
    then have "ref \<in> snd ` set (candidates st)" and s: "sources = map fst (filter (\<lambda>x. snd x = ref) (candidates st))"
      by (auto simp: add_source_get split: if_splits)
    then have "valid_ref ref" using settings_ok_candidates [OF ok] by force
    then show ?thesis by (elim valid_refE) (simp add: ref_entry_def mk_def s)
  qed
  then show ?thesis using refs keys by (auto simp: list_all_iff)
qed

definition demo_raw :: model_settings where
  "demo_raw = \<lparr>st_model = ''deepseek/v4'', st_model_fallbacks = ''groq/x , ,deepseek/v4'', st_model_opus = Some ''groq/x'',
     st_model_sonnet = Some [], st_model_haiku = None, st_enable_model_thinking = True,
     st_enable_opus_thinking = Some False, st_enable_sonnet_thinking = None, st_enable_haiku_thinking = None\<rparr>"

definition demo_settings :: model_settings where
  "demo_settings = demo_raw\<lparr>st_model_fallbacks := ''groq/x,deepseek/v4'', st_model_sonnet := None\<rparr>"

lemma demo_load: "load_settings demo_raw = Inr demo_settings"
  by (simp add: load_settings_def demo_raw_def demo_settings_def validate_model_format_def validate_model_fallbacks_def
      stripped_parts_def parse_optional_str_def parse_provider_type_def supported_ids catalog_ids_def
      py_strip_def py_rstrip_def py_lstrip_def py_space_def)

theorem configured_refs_exact_witness:
  "\<exists>refs. configured_chat_model_refs demo_settings = Inr refs \<and> map cr_model_ref refs = [''deepseek/v4'', ''groq/x'']"
proof -
  have "rev (remdups (rev (map snd (candidates demo_settings)))) = [''deepseek/v4'', ''groq/x'']"
    by (simp add: candidates_def demo_settings_def demo_raw_def fallback_model_refs_def)
  then show ?thesis using configured_refs_exact [OF demo_load] by auto
qed

subsection \<open>Every request is routed\<close>

text \<open>The names that ask for a model of a provider directly.\<close>

definition names_directly :: "string \<Rightarrow> string \<Rightarrow> string \<Rightarrow> bool" where
  "names_directly name pid model \<longleftrightarrow>
     (let ref = pid @ ''/'' @ model in
      name = ref \<or> name = gateway_model_id ref \<or> name = no_thinking_gateway_model_id ref)"

lemma decode_gateway:
  assumes "CHR ''/'' \<notin> set pid" and "model \<noteq> []"
  shows "decode_gateway_model_id (gateway_model_id (pid @ ''/'' @ model)) = Some (pid, model, None)"
    and "decode_gateway_model_id (no_thinking_gateway_model_id (pid @ ''/'' @ model)) = Some (pid, model, Some False)"
proof -
  have p: "py_partition (CHR ''/'') (a @ CHR ''/'' # b) = (a, True, b)" if "CHR ''/'' \<notin> set a" for a b
    using that by (rule py_partition_at)
  show "decode_gateway_model_id (gateway_model_id (pid @ ''/'' @ model)) = Some (pid, model, None)"
    using p [of "''anthropic''" "pid @ ''/'' @ model"] p [OF assms(1)] assms(2)
    by (simp add: decode_gateway_model_id_def gateway_model_id_def)
  show "decode_gateway_model_id (no_thinking_gateway_model_id (pid @ ''/'' @ model)) = Some (pid, model, Some False)"
    using p [of "''claude-3-freecc-no-thinking''" "pid @ ''/'' @ model"] p [OF assms(1)] assms(2)
    by (simp add: decode_gateway_model_id_def no_thinking_gateway_model_id_def)
qed

lemma decode_gateway_Some:
  assumes "decode_gateway_model_id name = Some (pid, model, force)"
  shows "model \<noteq> [] \<and> (name = gateway_model_id (pid @ ''/'' @ model) \<and> force = None \<or>
    name = no_thinking_gateway_model_id (pid @ ''/'' @ model) \<and> force = Some False)"
proof (cases rule: py_partition_cases [of "CHR ''/''" name])
  case (2 a b)
  show ?thesis
    by (cases rule: py_partition_cases [of "CHR ''/''" b])
      (use assms 2 in \<open>auto simp: decode_gateway_model_id_def Let_def gateway_model_id_def
        no_thinking_gateway_model_id_def split: if_splits\<close>)
qed (use assms in \<open>simp add: decode_gateway_model_id_def\<close>)

lemma decode_plain:
  assumes "pid \<in> set SUPPORTED_PROVIDER_IDS"
  shows "decode_gateway_model_id (pid @ ''/'' @ model) = None"
proof -
  have "CHR ''/'' \<notin> set pid" using supported_no_slash [OF assms] by simp
  then have "py_partition (CHR ''/'') (pid @ ''/'' @ model) = (pid, True, model)" by (simp add: py_partition_at)
  moreover have "pid \<noteq> ''anthropic''" "pid \<noteq> ''claude-3-freecc-no-thinking''"
    using assms supported_not_gateway by blast+
  ultimately show ?thesis by (simp add: decode_gateway_model_id_def)
qed

lemma direct_spec:
  assumes "pid \<in> set SUPPORTED_PROVIDER_IDS" and "model \<noteq> []"
  shows "direct_provider_model (pid @ ''/'' @ model) = Some (pid, model, None)"
    and "direct_provider_model (gateway_model_id (pid @ ''/'' @ model)) = Some (pid, model, None)"
    and "direct_provider_model (no_thinking_gateway_model_id (pid @ ''/'' @ model)) = Some (pid, model, Some False)"
proof -
  have pid: "CHR ''/'' \<notin> set pid" using supported_no_slash [OF assms(1)] by simp
  then have "py_partition (CHR ''/'') (pid @ ''/'' @ model) = (pid, True, model)" by (simp add: py_partition_at)
  then show "direct_provider_model (pid @ ''/'' @ model) = Some (pid, model, None)"
    using assms by (simp add: direct_provider_model_def decode_plain [simplified])
  show "direct_provider_model (gateway_model_id (pid @ ''/'' @ model)) = Some (pid, model, None)"
    "direct_provider_model (no_thinking_gateway_model_id (pid @ ''/'' @ model)) = Some (pid, model, Some False)"
    using assms by (simp_all add: direct_provider_model_def decode_gateway [OF pid, simplified])
qed

lemma direct_Some:
  assumes "direct_provider_model name = Some (pid, model, force)"
  shows "pid \<in> set SUPPORTED_PROVIDER_IDS \<and> model \<noteq> [] \<and> names_directly name pid model"
proof (cases "decode_gateway_model_id name")
  case None
  show ?thesis
    by (cases rule: py_partition_cases [of "CHR ''/''" name])
      (use assms None in \<open>auto simp: direct_provider_model_def names_directly_def split: if_splits\<close>)
next
  case (Some d)
  then have "d = (pid, model, force)" "pid \<in> set SUPPORTED_PROVIDER_IDS"
    using assms by (auto simp: direct_provider_model_def split: if_splits prod.splits)
  then show ?thesis using decode_gateway_Some Some by (auto simp: names_directly_def Let_def)
qed

lemma direct_iff:
  "direct_provider_model name \<noteq> None \<longleftrightarrow>
     (\<exists>pid model. pid \<in> set SUPPORTED_PROVIDER_IDS \<and> model \<noteq> [] \<and> names_directly name pid model)"
proof
  assume "direct_provider_model name \<noteq> None"
  then obtain pid model force where "direct_provider_model name = Some (pid, model, force)" by auto
  then show "\<exists>pid model. pid \<in> set SUPPORTED_PROVIDER_IDS \<and> model \<noteq> [] \<and> names_directly name pid model"
    using direct_Some by blast
next
  assume "\<exists>pid model. pid \<in> set SUPPORTED_PROVIDER_IDS \<and> model \<noteq> [] \<and> names_directly name pid model"
  then show "direct_provider_model name \<noteq> None" by (auto simp: names_directly_def Let_def direct_spec [simplified])
qed

lemma thinking_name_returns:
  assumes "settings_ok st"
  shows "\<exists>n. direct_model_thinking_name st name pid model = Inr n"
  by (auto simp: direct_model_thinking_name_def configured_refs_eq [OF assms])

lemma resolve_direct:
  assumes "settings_ok st" and "direct_provider_model name = Some (pid, model, force)"
  shows "\<exists>thinking. resolve st name = Inr \<lparr>rm_original_model = name, rm_provider_id = pid, rm_provider_model = model,
    rm_provider_model_ref = name, rm_thinking_enabled = thinking\<rparr> \<and> (\<forall>b \<in> set_option force. thinking = b)"
proof -
  obtain n where "direct_model_thinking_name st name pid model = Inr n" using thinking_name_returns [OF assms(1)] by blast
  then show ?thesis by (cases force) (simp_all add: resolve_def assms(2))
qed

text \<open>C21. With validated settings every model name is routed, to a supported provider: a name that asks
  for a model of a provider goes there, any other one to the reference configured for its class.\<close>

theorem resolve_total:
  assumes "load_settings raw = Inr st"
  shows "\<exists>r. resolve st name = Inr r \<and> rm_original_model r = name \<and> rm_provider_id r \<in> set SUPPORTED_PROVIDER_IDS \<and>
    (if \<exists>pid model. pid \<in> set SUPPORTED_PROVIDER_IDS \<and> model \<noteq> [] \<and> names_directly name pid model
     then rm_provider_model r \<noteq> [] \<and> names_directly name (rm_provider_id r) (rm_provider_model r)
     else rm_provider_model_ref r = resolve_model st name \<and>
       rm_provider_model_ref r = rm_provider_id r @ ''/'' @ rm_provider_model r)"
proof -
  note ok = load_settings_ok(1) [OF assms]
  show ?thesis
  proof (cases "direct_provider_model name")
    case None
    obtain p m where r: "resolve_model st name = p @ ''/'' @ m" "p \<in> set SUPPORTED_PROVIDER_IDS"
        "parse_provider_type (resolve_model st name) = p" "parse_model_name (resolve_model st name) = Inr m"
      using settings_ok_resolve [OF ok] by (rule valid_refE)
    have "resolve st name = Inr \<lparr>rm_original_model = name, rm_provider_id = p, rm_provider_model = m,
        rm_provider_model_ref = resolve_model st name, rm_thinking_enabled = resolve_thinking st name\<rparr>"
      using r(3,4) None by (simp add: resolve_def)
    then show ?thesis using None r(1,2) direct_iff [of name] by auto
  next
    case (Some d)
    obtain pid model force where d: "d = (pid, model, force)" by (cases d)
    show ?thesis using resolve_direct [OF ok Some [unfolded d]] direct_Some [OF Some [unfolded d]] direct_iff [of name] Some
      by fastforce
  qed
qed

theorem resolve_total_witness:
  "\<exists>r. resolve demo_settings ''claude-opus-4'' = Inr r \<and> rm_provider_id r \<in> set SUPPORTED_PROVIDER_IDS"
  using resolve_total [OF demo_load, of "''claude-opus-4''"] by blast

end
