(* ===== verification/ProviderRegistry.thy ===== *)
theory ProviderRegistry
  imports ModelRouting ProviderHealth ModelListing "HOL-Library.Multiset"
begin

section \<open>The provider registry (\<open>providers/registry.py\<close>)\<close>

text \<open>
  Providers of an abstract type \<open>'p\<close>, made by the factories, with the model lists and the health
  the registry keeps of them.  The coroutines that wait for model lists are two steps, before
  and after the wait; the outcomes of the listings are arguments of the second one.
\<close>

subsection \<open>Building a provider\<close>

record app_settings =
  as_models :: model_settings
  as_attrs :: "(string, json) pydict"      \<comment> \<open>what \<open>getattr\<close> finds\<close>
  as_system_proxy :: string                \<comment> \<open>\<open>detected_system_proxy()\<close>\<close>
  as_rate_limit :: int
  as_rate_window :: int
  as_max_concurrency :: int
  as_http_read_timeout :: rat
  as_http_write_timeout :: rat
  as_http_connect_timeout :: rat
  as_log_raw_sse_events :: bool
  as_log_api_error_tracebacks :: bool

record provider_config =
  pc_api_key :: string
  pc_base_url :: "string option"
  pc_rate_limit :: int
  pc_rate_window :: int
  pc_max_concurrency :: int
  pc_http_read_timeout :: rat
  pc_http_write_timeout :: rat
  pc_http_connect_timeout :: rat
  pc_enable_thinking :: bool
  pc_proxy :: string
  pc_log_raw_sse_events :: bool
  pc_log_api_error_tracebacks :: bool

definition string_attr :: "app_settings \<Rightarrow> string option \<Rightarrow> string \<Rightarrow> string" where
  "string_attr st attr dflt =
     (case attr of
        None \<Rightarrow> dflt
      | Some a \<Rightarrow> (case dict_get a (as_attrs st) of Some (JStr s) \<Rightarrow> s | _ \<Rightarrow> dflt))"

definition credential_for :: "descriptor \<Rightarrow> app_settings \<Rightarrow> string" where
  "credential_for d st =
     (case pd_static_credential d of
        Some c \<Rightarrow> c
      | None \<Rightarrow> if truthy_str (pd_credential_attr d) then string_attr st (pd_credential_attr d) [] else [])"

definition require_credential :: "descriptor \<Rightarrow> string \<Rightarrow> exc option" where
  "require_credential d credential =
     (case pd_credential_env d of
        None \<Rightarrow> None
      | Some env \<Rightarrow>
          if credential \<noteq> [] \<and> py_strip credential \<noteq> [] then None
          else
            let message = env @ '' is not set. Add it to your .env file.'' in
            Some (authentication_error
              (if truthy_str (pd_credential_url d) then message @ '' Get a key at '' @ the (pd_credential_url d) else message)
              None))"

definition or_str :: "string \<Rightarrow> string option \<Rightarrow> string option" where
  "or_str s dflt = (if s \<noteq> [] then Some s else dflt)"

definition build_provider_config :: "descriptor \<Rightarrow> app_settings \<Rightarrow> exc + provider_config" where
  "build_provider_config d st =
     (let credential = credential_for d st in
      case require_credential d credential of
        Some e \<Rightarrow> Inl e
      | None \<Rightarrow>
          let base_url = string_attr st (pd_base_url_attr d) (case pd_default_base_url d of Some u \<Rightarrow> u | None \<Rightarrow> []);
              proxy = string_attr st (pd_proxy_attr d) [];
              proxy = (if proxy = [] \<and> pd_credential_env d \<noteq> None then as_system_proxy st else proxy)
          in Inr \<lparr>pc_api_key = credential, pc_base_url = or_str base_url (pd_default_base_url d),
                  pc_rate_limit = as_rate_limit st, pc_rate_window = as_rate_window st,
                  pc_max_concurrency = as_max_concurrency st, pc_http_read_timeout = as_http_read_timeout st,
                  pc_http_write_timeout = as_http_write_timeout st, pc_http_connect_timeout = as_http_connect_timeout st,
                  pc_enable_thinking = st_enable_model_thinking (as_models st), pc_proxy = proxy,
                  pc_log_raw_sse_events = as_log_raw_sse_events st,
                  pc_log_api_error_tracebacks = as_log_api_error_tracebacks st\<rparr>)"

type_synonym 'p factories = "(string, provider_config \<Rightarrow> exc + 'p) pydict"

definition create_provider :: "'p factories \<Rightarrow> string \<Rightarrow> app_settings \<Rightarrow> exc + 'p" where
  "create_provider factories pid st =
     (case dict_get pid PROVIDER_CATALOG of
        None \<Rightarrow> Inl (unknown_provider_type_error
          (''Unknown provider_type: '' @ quoted pid @ ''. Supported: '' @
             quoted (py_join [CHR 0x27, CHR '','', CHR '' '', CHR 0x27] SUPPORTED_PROVIDER_IDS)))
      | Some d \<Rightarrow>
          (case build_provider_config d st of
             Inl e \<Rightarrow> Inl e
           | Inr config \<Rightarrow>
               (case dict_get pid factories of
                  None \<Rightarrow> Inl (plain_error OtherError ''AssertionError'' (''Unhandled provider descriptor: '' @ pid) None)
                | Some factory \<Rightarrow> factory config)))"

subsection \<open>State and operations\<close>

record 'p registry =
  rg_providers :: "(string, 'p) pydict"
  rg_model_ids :: "(string, string set) pydict"
  rg_model_infos :: "(string, (string, model_info) pydict) pydict"
  rg_health :: health_table
  rg_refresh_running :: bool

definition registry_new :: "'p registry" where
  "registry_new = \<lparr>rg_providers = [], rg_model_ids = [], rg_model_infos = [], rg_health = [], rg_refresh_running = False\<rparr>"

definition is_cached :: "string \<Rightarrow> 'p registry \<Rightarrow> bool" where
  "is_cached pid r = dict_has pid (rg_providers r)"

definition registry_get :: "'p factories \<Rightarrow> string \<Rightarrow> app_settings \<Rightarrow> 'p registry \<Rightarrow> (exc + 'p) \<times> 'p registry" where
  "registry_get factories pid st r =
     (case dict_get pid (rg_providers r) of
        Some p \<Rightarrow> (Inr p, r)
      | None \<Rightarrow>
          (case create_provider factories pid st of
             Inl e \<Rightarrow> (Inl e, r)
           | Inr p \<Rightarrow> (Inr p, r\<lparr>rg_providers := dict_set pid p (rg_providers r)\<rparr>)))"

definition clean_infos :: "model_info list \<Rightarrow> (string, model_info) pydict" where
  "clean_infos infos =
     fold (\<lambda>i. dict_set (mi_model_id i) i) (filter (\<lambda>i. py_strip (mi_model_id i) \<noteq> []) infos) []"

text \<open>The infos come in the order in which the iterable yields them.\<close>

definition cache_model_infos :: "string \<Rightarrow> model_info list \<Rightarrow> 'p registry \<Rightarrow> 'p registry" where
  "cache_model_infos pid infos r =
     (let clean = clean_infos infos in
      r\<lparr>rg_model_infos := dict_set pid clean (rg_model_infos r),
        rg_model_ids := dict_set pid (set (dict_keys clean)) (rg_model_ids r)\<rparr>)"

definition cached_model_ids :: "'p registry \<Rightarrow> (string, string set) pydict" where
  "cached_model_ids r = rg_model_ids r"

definition cached_model_supports_thinking :: "string \<Rightarrow> string \<Rightarrow> 'p registry \<Rightarrow> bool option" where
  "cached_model_supports_thinking pid model r =
     (case dict_get pid (rg_model_infos r) of
        None \<Rightarrow> None
      | Some infos \<Rightarrow> (case dict_get model infos of None \<Rightarrow> None | Some i \<Rightarrow> mi_supports_thinking i))"

text \<open>\<open>sorted(..., key=...)\<close> is stable; strings are compared by code points.\<close>

fun str_le :: "string \<Rightarrow> string \<Rightarrow> bool" where
  "str_le [] _ = True"
| "str_le (_ # _) [] = False"
| "str_le (a # as) (b # bs) =
     (if (of_char a :: nat) < of_char b then True else if (of_char b :: nat) < of_char a then False else str_le as bs)"

fun insert_info :: "model_info \<Rightarrow> model_info list \<Rightarrow> model_info list" where
  "insert_info i [] = [i]"
| "insert_info i (j # js) =
     (if str_le (mi_model_id j) (mi_model_id i) then j # insert_info i js else i # j # js)"

definition sort_infos :: "model_info list \<Rightarrow> model_info list" where
  "sort_infos infos = fold insert_info infos []"

definition cached_prefixed_model_infos :: "'p registry \<Rightarrow> model_info list" where
  "cached_prefixed_model_infos r =
     concat (map (\<lambda>pid.
         map (\<lambda>i. \<lparr>mi_model_id = pid @ ''/'' @ mi_model_id i, mi_supports_thinking = mi_supports_thinking i\<rparr>)
           (sort_infos (case dict_get pid (rg_model_infos r) of None \<Rightarrow> [] | Some infos \<Rightarrow> dict_values infos)))
       SUPPORTED_PROVIDER_IDS)"

definition cached_prefixed_model_refs :: "'p registry \<Rightarrow> string list" where
  "cached_prefixed_model_refs r = map mi_model_id (cached_prefixed_model_infos r)"

definition health_op :: "(health_table \<Rightarrow> health_table) \<Rightarrow> 'p registry \<Rightarrow> 'p registry" where
  "health_op f r = r\<lparr>rg_health := f (rg_health r)\<rparr>"

definition record_failure :: "rat \<Rightarrow> string \<Rightarrow> exc \<Rightarrow> 'p registry \<Rightarrow> 'p registry" where
  "record_failure now pid e = health_op (record_provider_failure now pid e)"

definition record_success :: "rat \<Rightarrow> string \<Rightarrow> 'p registry \<Rightarrow> 'p registry" where
  "record_success now pid = health_op (record_provider_success now pid)"

subsection \<open>Refreshing the model lists\<close>

definition model_list_provider_ids :: "app_settings \<Rightarrow> string list result" where
  "model_list_provider_ids st =
     bind_result (configured_chat_model_refs (as_models st)) (\<lambda>refs.
       Inr (dict_keys (filter (\<lambda>(pid, d).
              if pd_static_credential d \<noteq> None then pid \<in> cr_provider_id ` set refs
              else pd_credential_env d \<noteq> None \<and> py_strip (credential_for d st) \<noteq> []) PROVIDER_CATALOG)))"

definition missing_ids :: "string list \<Rightarrow> 'p registry \<Rightarrow> string list" where
  "missing_ids pids r = filter (\<lambda>pid. \<not> dict_has pid (rg_model_ids r)) pids"

text \<open>Before the wait: the providers whose lists are asked for.\<close>

fun refresh_begin :: "'p factories \<Rightarrow> app_settings \<Rightarrow> rat \<Rightarrow> string list \<Rightarrow> 'p registry \<Rightarrow> string list \<times> 'p registry" where
  "refresh_begin factories st now [] r = ([], r)"
| "refresh_begin factories st now (pid # pids) r =
     (case registry_get factories pid st r of
        (Inl e, r) \<Rightarrow> refresh_begin factories st now pids (record_failure now pid e r)
      | (Inr _, r) \<Rightarrow> (case refresh_begin factories st now pids r of (asked, r) \<Rightarrow> (pid # asked, r)))"

text \<open>After the wait; a cancelled listing is raised.\<close>

fun refresh_end :: "rat \<Rightarrow> (string \<times> (exc + model_info list)) list \<Rightarrow> 'p registry \<Rightarrow> exc option \<times> 'p registry" where
  "refresh_end now [] r = (None, r)"
| "refresh_end now ((pid, Inl e) # rs) r =
     (if ex_class e = CancelledErrorC then (Some e, r)
      else refresh_end now rs (record_failure now pid e r))"
| "refresh_end now ((pid, Inr infos) # rs) r =
     refresh_end now rs (record_success now pid (cache_model_infos pid infos r))"

definition start_model_list_refresh :: "app_settings \<Rightarrow> 'p registry \<Rightarrow> string list option result \<times> 'p registry" where
  "start_model_list_refresh st r =
     (if rg_refresh_running r then (Inr None, r)
      else
        case model_list_provider_ids st of
          Inl e \<Rightarrow> (Inl e, r)
        | Inr pids \<Rightarrow>
            let pids = missing_ids pids r in
            if pids = [] then (Inr None, r) else (Inr (Some pids), r\<lparr>rg_refresh_running := True\<rparr>))"

text \<open>\<open>_run_model_list_refresh\<close> lets only a cancellation out.\<close>

definition refresh_task_end :: "rat \<Rightarrow> (string \<times> (exc + model_info list)) list \<Rightarrow> 'p registry \<Rightarrow> exc option \<times> 'p registry" where
  "refresh_task_end now rs r = (case refresh_end now rs r of (e, r) \<Rightarrow> (e, r\<lparr>rg_refresh_running := False\<rparr>))"

subsection \<open>Cleanup\<close>

text \<open>\<open>outcome pid\<close> is what the provider's \<open>cleanup\<close> raises.\<close>

fun cleanup_errors :: "(string \<Rightarrow> exc option) \<Rightarrow> string list \<Rightarrow> exc + exc list" where
  "cleanup_errors outcome [] = Inr []"
| "cleanup_errors outcome (pid # pids) =
     (case outcome pid of
        None \<Rightarrow> cleanup_errors outcome pids
      | Some e \<Rightarrow>
          if ex_class e = CancelledErrorC then Inl e
          else (case cleanup_errors outcome pids of Inl c \<Rightarrow> Inl c | Inr es \<Rightarrow> Inr (e # es)))"

definition cleanup :: "(string \<Rightarrow> exc option) \<Rightarrow> 'p registry \<Rightarrow> exc option \<times> 'p registry" where
  "cleanup outcome r =
     ((case cleanup_errors outcome (dict_keys (rg_providers r)) of
         Inl e \<Rightarrow> Some e
       | Inr [] \<Rightarrow> None
       | Inr [e] \<Rightarrow> Some e
       | Inr es \<Rightarrow> Some (plain_error OtherError ''ExceptionGroup'' ''One or more provider cleanups failed'' None)),
      registry_new)"

end
