(* ===== verification/ModelValidation.thy ===== *)
theory ModelValidation
  imports ProviderRegistry
begin

section \<open>Validating the configured models (\<open>providers/registry.py\<close>)\<close>

text \<open>
  \<open>validate_configured_models\<close>: the references are grouped by provider, the providers' lists are
  asked for, and every reference that is not served becomes a line of the error.
\<close>

definition format_model_validation_failure :: "configured_ref \<Rightarrow> string \<Rightarrow> string" where
  "format_model_validation_failure ref problem =
     ''sources='' @ py_join '','' (cr_sources ref) @ '' provider='' @ cr_provider_id ref @
     '' model='' @ cr_model_id ref @ '' problem='' @ problem"

definition provider_query_failure_reason :: "exc \<Rightarrow> app_settings \<Rightarrow> string" where
  "provider_query_failure_reason e st =
     (if ex_class e = ModelListResponseErrorC then ''malformed model-list response: '' @ ex_str e
      else if ex_class e = HttpxStatusError then
        ''query failure: HTTP '' @ (case ex_status e of Some s \<Rightarrow> show_int s | None \<Rightarrow> [])
      else if ex_class e = AuthenticationErrorC then ''query failure: '' @ ex_str e
      else if is_provider_error (ex_class e) \<and> as_log_api_error_tracebacks st then ''query failure: '' @ ex_str e
      else ''query failure: '' @ ex_name e)"

definition format_provider_query_failures :: "configured_ref list \<Rightarrow> exc \<Rightarrow> app_settings \<Rightarrow> string list" where
  "format_provider_query_failures refs e st =
     map (\<lambda>ref. format_model_validation_failure ref (provider_query_failure_reason e st)) refs"

definition format_missing_model_failure :: "configured_ref \<Rightarrow> string" where
  "format_missing_model_failure ref = format_model_validation_failure ref ''missing model''"

type_synonym groups = "(string, configured_ref list) pydict"

definition group_ref :: "configured_ref \<Rightarrow> groups \<Rightarrow> groups" where
  "group_ref ref d =
     dict_set (cr_provider_id ref) ((case dict_get (cr_provider_id ref) d of None \<Rightarrow> [] | Some rs \<Rightarrow> rs) @ [ref]) d"

definition refs_by_provider :: "configured_ref list \<Rightarrow> groups" where
  "refs_by_provider refs = fold group_ref refs []"

fun validate_begin ::
  "'p factories \<Rightarrow> app_settings \<Rightarrow> rat \<Rightarrow> groups \<Rightarrow> 'p registry \<Rightarrow> string list \<times> groups \<times> 'p registry" where
  "validate_begin factories st now [] r = ([], [], r)"
| "validate_begin factories st now ((pid, refs) # gs) r =
     (case registry_get factories pid st r of
        (Inl e, r) \<Rightarrow>
          (case validate_begin factories st now gs (record_failure now pid e r) of
             (failures, asked, r) \<Rightarrow> (format_provider_query_failures refs e st @ failures, asked, r))
      | (Inr _, r) \<Rightarrow>
          (case validate_begin factories st now gs r of
             (failures, asked, r) \<Rightarrow> (failures, (pid, refs) # asked, r)))"

fun validate_end ::
  "app_settings \<Rightarrow> rat \<Rightarrow> (string \<Rightarrow> exc + model_info list) \<Rightarrow> groups \<Rightarrow> 'p registry \<Rightarrow> (exc + string list) \<times> 'p registry" where
  "validate_end st now listing [] r = (Inr [], r)"
| "validate_end st now listing ((pid, refs) # gs) r =
     (case listing pid of
        Inl e \<Rightarrow>
          if ex_class e = CancelledErrorC then (Inl e, r)
          else
            (case validate_end st now listing gs (record_failure now pid e r) of
               (Inl c, r) \<Rightarrow> (Inl c, r)
             | (Inr failures, r) \<Rightarrow> (Inr (format_provider_query_failures refs e st @ failures), r))
      | Inr infos \<Rightarrow>
          let r = record_success now pid (cache_model_infos pid infos r);
              ids = (case dict_get pid (rg_model_ids r) of Some ids \<Rightarrow> ids | None \<Rightarrow> {});
              missing = map format_missing_model_failure (filter (\<lambda>ref. cr_model_id ref \<notin> ids) refs)
          in
            (case validate_end st now listing gs r of
               (Inl c, r) \<Rightarrow> (Inl c, r)
             | (Inr failures, r) \<Rightarrow> (Inr (missing @ failures), r)))"

definition validation_error :: "string list \<Rightarrow> exc" where
  "validation_error failures =
     service_unavailable_error
       (''Configured model validation failed:'' @ [CHR 0x0A] @ py_join [CHR 0x0A] (map (\<lambda>f. ''- '' @ f) failures)) None"

text \<open>What the coroutine raises, and the registry; nothing else runs during the wait.\<close>

definition validate_configured_models ::
  "'p factories \<Rightarrow> app_settings \<Rightarrow> rat \<Rightarrow> (string \<Rightarrow> exc + model_info list) \<Rightarrow> 'p registry \<Rightarrow> exc option \<times> 'p registry" where
  "validate_configured_models factories st now listing r =
     (case configured_chat_model_refs (as_models st) of
        Inl _ \<Rightarrow> (Some (plain_error OtherError ''IndexError'' ''list index out of range'' None), r)
      | Inr refs \<Rightarrow>
          (case validate_begin factories st now (refs_by_provider refs) r of (failures1, asked, r) \<Rightarrow>
           (case validate_end st now listing asked r of
              (Inl c, r) \<Rightarrow> (Some c, r)
            | (Inr failures2, r) \<Rightarrow>
                (if failures1 @ failures2 \<noteq> [] then Some (validation_error (failures1 @ failures2)) else None, r))))"

subsection \<open>One line for every reference that is not served\<close>

text \<open>The problem with a reference, if there is one.\<close>

definition problem_of ::
  "'p factories \<Rightarrow> app_settings \<Rightarrow> (string \<Rightarrow> exc + model_info list) \<Rightarrow> 'p registry \<Rightarrow> configured_ref \<Rightarrow> string option" where
  "problem_of factories st listing r ref =
     (case fst (registry_get factories (cr_provider_id ref) st r) of
        Inl e \<Rightarrow> Some (provider_query_failure_reason e st)
      | Inr _ \<Rightarrow>
          (case listing (cr_provider_id ref) of
             Inl e \<Rightarrow> Some (provider_query_failure_reason e st)
           | Inr infos \<Rightarrow> if cr_model_id ref \<in> set (dict_keys (clean_infos infos)) then None else Some ''missing model''))"

definition complaints ::
  "'p factories \<Rightarrow> app_settings \<Rightarrow> (string \<Rightarrow> exc + model_info list) \<Rightarrow> 'p registry \<Rightarrow> configured_ref list \<Rightarrow> string list" where
  "complaints factories st listing r refs =
     List.map_filter (\<lambda>ref. map_option (format_model_validation_failure ref) (problem_of factories st listing r ref)) refs"

lemma registry_get_fst:
  "dict_get pid (rg_providers r') = dict_get pid (rg_providers r) \<Longrightarrow>
     fst (registry_get factories pid st r') = fst (registry_get factories pid st r)"
  by (auto simp: registry_get_def split: option.split sum.split)

lemma registry_get_other:
  "p \<noteq> pid \<Longrightarrow> dict_get p (rg_providers (snd (registry_get factories pid st r))) = dict_get p (rg_providers r)"
  by (auto simp: registry_get_def split: option.split sum.split)

lemma record_providers [simp]:
  "rg_providers (record_failure now pid e r) = rg_providers r" "rg_providers (record_success now pid r) = rg_providers r"
  "rg_providers (cache_model_infos pid infos r) = rg_providers r" "rg_model_ids (record_success now pid r) = rg_model_ids r"
  by (simp_all add: record_failure_def record_success_def health_op_def cache_model_infos_def Let_def)

lemma concat_dict_append:
  "mset (concat (map snd (dict_set k ((case dict_get k d of None \<Rightarrow> [] | Some rs \<Rightarrow> rs) @ xs) d))) =
     mset (concat (map snd d)) + mset xs"
  by (induction d) (auto simp: dict_set_def dict_get_def)

lemma dict_set_mem: "(j, w) \<in> set (dict_set k v d) \<Longrightarrow> (j, w) = (k, v) \<or> (j, w) \<in> set d"
  by (induction d) (auto simp: dict_set_def split: if_splits)

definition grouped :: "groups \<Rightarrow> bool" where
  "grouped d \<longleftrightarrow> dict_ok d \<and> (\<forall>pid rs ref. (pid, rs) \<in> set d \<longrightarrow> ref \<in> set rs \<longrightarrow> cr_provider_id ref = pid)"

lemma group_ref_grouped: "grouped d \<Longrightarrow> grouped (group_ref ref d)"
  by (cases "dict_get (cr_provider_id ref) d")
    (auto simp: grouped_def group_ref_def dest!: dict_set_mem dict_get_mem)

lemma refs_by_provider_spec:
  "mset (concat (map snd (refs_by_provider refs))) = mset refs \<and> grouped (refs_by_provider refs)"
proof -
  have "mset (concat (map snd (fold group_ref refs d))) = mset (concat (map snd d)) + mset refs" for d
    by (induction refs arbitrary: d) (simp_all add: group_ref_def concat_dict_append)
  moreover have "grouped d \<Longrightarrow> grouped (fold group_ref refs d)" for d
    by (induction refs arbitrary: d) (simp_all add: group_ref_grouped)
  moreover have "grouped []" by (simp add: grouped_def)
  ultimately show ?thesis by (simp add: refs_by_provider_def)
qed

text \<open>The failures before and after the wait, group by group.\<close>

definition early :: "'p factories \<Rightarrow> app_settings \<Rightarrow> 'p registry \<Rightarrow> string \<times> configured_ref list \<Rightarrow> string list" where
  "early factories st r g =
     (case fst (registry_get factories (fst g) st r) of
        Inl e \<Rightarrow> format_provider_query_failures (snd g) e st | Inr _ \<Rightarrow> [])"

definition late :: "app_settings \<Rightarrow> (string \<Rightarrow> exc + model_info list) \<Rightarrow> string \<times> configured_ref list \<Rightarrow> string list" where
  "late st listing g =
     (case listing (fst g) of
        Inl e \<Rightarrow> format_provider_query_failures (snd g) e st
      | Inr infos \<Rightarrow> map format_missing_model_failure
          (filter (\<lambda>ref. cr_model_id ref \<notin> set (dict_keys (clean_infos infos))) (snd g)))"

definition obtained :: "'p factories \<Rightarrow> app_settings \<Rightarrow> 'p registry \<Rightarrow> string \<times> configured_ref list \<Rightarrow> bool" where
  "obtained factories st r g \<longleftrightarrow> (\<exists>p. fst (registry_get factories (fst g) st r) = Inr p)"

lemma validate_begin_spec:
  assumes "dict_ok gs"
  shows "\<exists>r'. validate_begin factories st now gs r =
    (concat (map (early factories st r) gs), filter (obtained factories st r) gs, r')"
  using assms
proof (induction gs arbitrary: r)
  case (Cons g gs)
  obtain pid refs where g: "g = (pid, refs)" by force
  obtain o1 r1 where o: "registry_get factories pid st r = (o1, r1)" by force
  let ?r1 = "case o1 of Inl e \<Rightarrow> record_failure now pid e r1 | Inr _ \<Rightarrow> r1"
  have other: "fst (registry_get factories p st ?r1) = fst (registry_get factories p st r)" if "p \<noteq> pid" for p
    using registry_get_other [OF that, of factories st r] o by (intro registry_get_fst) (auto split: sum.split)
  have "pid \<notin> fst ` set gs" and ok: "dict_ok gs" using Cons.prems g by (auto simp: dict_ok_def dict_keys_def)
  then have "map (early factories st ?r1) gs = map (early factories st r) gs"
      "filter (obtained factories st ?r1) gs = filter (obtained factories st r) gs"
    by (auto simp: early_def obtained_def other image_iff intro!: filter_cong)
  moreover obtain r' where "validate_begin factories st now gs ?r1 =
      (concat (map (early factories st ?r1) gs), filter (obtained factories st ?r1) gs, r')" using Cons.IH [OF ok] by blast
  ultimately have ih: "validate_begin factories st now gs ?r1 =
      (concat (map (early factories st r) gs), filter (obtained factories st r) gs, r')" by (simp only:)
  have "early factories st r (pid, refs) = (case o1 of Inl e \<Rightarrow> format_provider_query_failures refs e st | Inr _ \<Rightarrow> [])"
    "obtained factories st r (pid, refs) = (\<exists>p. o1 = Inr p)" by (simp_all add: early_def obtained_def o split: sum.split)
  then show ?case using ih by (cases o1) (simp_all add: g o)
qed simp

lemma validate_end_spec:
  assumes "\<forall>g \<in> set gs. \<forall>e. listing (fst g) = Inl e \<longrightarrow> ex_class e \<noteq> CancelledErrorC"
  shows "\<exists>r'. validate_end st now listing gs r = (Inr (concat (map (late st listing) gs)), r')"
  using assms
proof (induction gs arbitrary: r)
  case (Cons g gs)
  obtain pid refs where g: "g = (pid, refs)" by force
  show ?case
  proof (cases "listing pid")
    case (Inl e)
    obtain r' where "validate_end st now listing gs (record_failure now pid e r) = (Inr (concat (map (late st listing) gs)), r')"
      using Cons by fastforce
    moreover have "late st listing (pid, refs) = format_provider_query_failures refs e st" by (simp add: late_def Inl)
    ultimately show ?thesis using Cons.prems Inl by (simp add: g)
  next
    case (Inr infos)
    let ?r = "record_success now pid (cache_model_infos pid infos r)"
    have ids: "dict_get pid (rg_model_ids ?r) = Some (set (dict_keys (clean_infos infos)))"
      by (simp add: cache_model_infos_def Let_def)
    obtain r' where "validate_end st now listing gs ?r = (Inr (concat (map (late st listing) gs)), r')"
      using Cons by fastforce
    moreover have "late st listing (pid, refs) =
        map format_missing_model_failure (filter (\<lambda>ref. cr_model_id ref \<notin> set (dict_keys (clean_infos infos))) refs)"
      by (simp add: late_def Inr)
    ultimately show ?thesis by (simp add: g Inr ids Let_def del: record_providers)
  qed
qed simp

lemma complaints_append: "complaints f st l r (xs @ ys) = complaints f st l r xs @ complaints f st l r ys"
  by (simp add: complaints_def map_filter_def)

lemma complaints_uniform:
  "(\<And>ref. ref \<in> set refs \<Longrightarrow> problem_of f st l r ref = (if P ref then None else Some c)) \<Longrightarrow>
     complaints f st l r refs = map (\<lambda>ref. format_model_validation_failure ref c) (filter (\<lambda>ref. \<not> P ref) refs)"
  by (induction refs) (auto simp: complaints_def map_filter_def)

lemma group_complaints:
  assumes "\<And>ref. ref \<in> set refs \<Longrightarrow> cr_provider_id ref = pid"
  shows "early f st r (pid, refs) @ (if obtained f st r (pid, refs) then late st l (pid, refs) else []) = complaints f st l r refs"
proof (cases "fst (registry_get f pid st r)")
  case (Inl e)
  have "complaints f st l r refs = map (\<lambda>ref. format_model_validation_failure ref (provider_query_failure_reason e st)) (filter (\<lambda>_. \<not> False) refs)"
    by (rule complaints_uniform) (simp add: problem_of_def assms Inl)
  then show ?thesis by (simp add: early_def obtained_def Inl format_provider_query_failures_def)
next
  case (Inr p)
  have e: "early f st r (pid, refs) = []" "obtained f st r (pid, refs)" by (simp_all add: early_def obtained_def Inr)
  show ?thesis
  proof (cases "l pid")
    case (Inl e)
    have "complaints f st l r refs = map (\<lambda>ref. format_model_validation_failure ref (provider_query_failure_reason e st)) (filter (\<lambda>_. \<not> False) refs)"
      by (rule complaints_uniform) (simp add: problem_of_def assms Inl Inr)
    then show ?thesis by (simp add: e late_def Inl format_provider_query_failures_def)
  next
    case (Inr infos)
    have "complaints f st l r refs = map (\<lambda>ref. format_model_validation_failure ref ''missing model'')
        (filter (\<lambda>ref. \<not> cr_model_id ref \<in> set (dict_keys (clean_infos infos))) refs)"
      by (rule complaints_uniform) (simp add: problem_of_def assms Inr \<open>fst (registry_get f pid st r) = Inr p\<close>)
    then show ?thesis by (simp add: e late_def Inr format_missing_model_failure_def)
  qed
qed

lemma mset_complaints: "mset xs = mset ys \<Longrightarrow> mset (complaints f st l r xs) = mset (complaints f st l r ys)"
  by (simp add: complaints_def map_filter_def)

lemma concat_complaints:
  assumes "\<And>pid rs ref. (pid, rs) \<in> set gs \<Longrightarrow> ref \<in> set rs \<Longrightarrow> cr_provider_id ref = pid"
  shows "mset (concat (map (early f st r) gs)) + mset (concat (map (late st l) (filter (obtained f st r) gs))) =
    mset (complaints f st l r (concat (map snd gs)))"
  using assms
proof (induction gs)
  case (Cons g gs)
  obtain pid refs where g: "g = (pid, refs)" by force
  have "early f st r g @ (if obtained f st r g then late st l g else []) = complaints f st l r refs"
    unfolding g by (rule group_complaints) (use Cons.prems g in auto)
  then have "mset (early f st r g) + mset (if obtained f st r g then late st l g else []) = mset (complaints f st l r refs)"
    by (metis mset_append)
  moreover have "mset (concat (map (early f st r) gs)) + mset (concat (map (late st l) (filter (obtained f st r) gs))) =
      mset (complaints f st l r (concat (map snd gs)))" using Cons by (meson list.set_intros(2))
  moreover have "mset (concat (map (early f st r) (g # gs))) + mset (concat (map (late st l) (filter (obtained f st r) (g # gs)))) =
      (mset (early f st r g) + mset (if obtained f st r g then late st l g else [])) +
      (mset (concat (map (early f st r) gs)) + mset (concat (map (late st l) (filter (obtained f st r) gs))))"
    by (simp add: ac_simps)
  ultimately have "mset (concat (map (early f st r) (g # gs))) + mset (concat (map (late st l) (filter (obtained f st r) (g # gs)))) =
      mset (complaints f st l r refs) + mset (complaints f st l r (concat (map snd gs)))" by (simp only:)
  then show ?case by (simp add: g complaints_append)
qed (simp add: complaints_def map_filter_def)

text \<open>Validation raises nothing exactly if every configured reference has a provider that can be made and
  that lists its model; otherwise the error has one line for each reference that has not, with the
  reason, and no other line.\<close>

theorem validate_configured_exact:
  assumes "load_settings raw = Inr (as_models st)"
    and "\<forall>pid e. listing pid = Inl e \<longrightarrow> ex_class e \<noteq> CancelledErrorC"
  shows "\<exists>refs failures. configured_chat_model_refs (as_models st) = Inr refs \<and>
    mset failures = mset (complaints factories st listing r refs) \<and>
    fst (validate_configured_models factories st now listing r) =
      (if failures = [] then None else Some (validation_error failures))"
proof -
  obtain refs where refs: "configured_chat_model_refs (as_models st) = Inr refs"
    using configured_refs_eq [OF load_settings_ok(1) [OF assms(1)]] by blast
  let ?gs = "refs_by_provider refs"
  have gs: "mset (concat (map snd ?gs)) = mset refs" "dict_ok ?gs"
      "\<And>pid rs ref. (pid, rs) \<in> set ?gs \<Longrightarrow> ref \<in> set rs \<Longrightarrow> cr_provider_id ref = pid"
    using refs_by_provider_spec [of refs] by (auto simp: grouped_def)
  obtain r1 where b: "validate_begin factories st now ?gs r =
      (concat (map (early factories st r) ?gs), filter (obtained factories st r) ?gs, r1)"
    using validate_begin_spec [OF gs(2)] by blast
  obtain r2 where e: "validate_end st now listing (filter (obtained factories st r) ?gs) r1 =
      (Inr (concat (map (late st listing) (filter (obtained factories st r) ?gs))), r2)"
    using validate_end_spec [of "filter (obtained factories st r) ?gs" listing st now r1] assms(2) by auto
  define failures where "failures = concat (map (early factories st r) ?gs) @
    concat (map (late st listing) (filter (obtained factories st r) ?gs))"
  have "mset failures = mset (complaints factories st listing r (concat (map snd ?gs)))"
    unfolding failures_def mset_append by (rule concat_complaints [OF gs(3)])
  also have "\<dots> = mset (complaints factories st listing r refs)" by (rule mset_complaints [OF gs(1)])
  finally have "mset failures = mset (complaints factories st listing r refs)" .
  moreover have "fst (validate_configured_models factories st now listing r) =
      (if failures = [] then None else Some (validation_error failures))"
    unfolding validate_configured_models_def refs sum.case b prod.case e failures_def [symmetric] by simp
  ultimately show ?thesis using refs by blast
qed

definition demo_app :: app_settings where
  "demo_app = \<lparr>as_models = demo_settings, as_attrs = [(''deepseek_api_key'', JStr ''sk'')], as_system_proxy = [],
     as_rate_limit = 40, as_rate_window = 60, as_max_concurrency = 5, as_http_read_timeout = 300, as_http_write_timeout = 60,
     as_http_connect_timeout = 10, as_log_raw_sse_events = False, as_log_api_error_tracebacks = False\<rparr>"

theorem validate_configured_exact_witness:
  "\<exists>refs failures. configured_chat_model_refs (as_models demo_app) = Inr refs \<and>
    mset failures = mset (complaints [(''deepseek'', Inr)] demo_app (\<lambda>_. Inr [\<lparr>mi_model_id = ''v4'', mi_supports_thinking = None\<rparr>]) registry_new refs) \<and>
    fst (validate_configured_models [(''deepseek'', Inr)] demo_app 0 (\<lambda>_. Inr [\<lparr>mi_model_id = ''v4'', mi_supports_thinking = None\<rparr>]) registry_new) =
      (if failures = [] then None else Some (validation_error failures))"
proof -
  have "load_settings demo_raw = Inr (as_models demo_app)" by (simp add: demo_app_def demo_load)
  then show ?thesis by (rule validate_configured_exact) simp
qed

subsection \<open>The registry stays consistent\<close>

text \<open>One operation of the registry, in any environment of settings, factories and outcomes.\<close>

inductive registry_step :: "'p registry \<Rightarrow> 'p registry \<Rightarrow> bool" where
  get: "registry_step r (snd (registry_get factories pid st r))"
| cache: "registry_step r (cache_model_infos pid infos r)"
| succeeded: "registry_step r (record_success now pid r)"
| failed: "registry_step r (record_failure now pid e r)"
| asked: "registry_step r (health_op (\<lambda>d. snd (provider_available now pid d)) r)"
| viewed: "registry_step r (health_op (\<lambda>d. snd (snapshots now pids d)) r)"
| refresh_begin: "registry_step r (snd (refresh_begin factories st now pids r))"
| refresh_end: "registry_step r (snd (refresh_task_end now results r))"
| start: "registry_step r (snd (start_model_list_refresh st r))"
| validate: "registry_step r (snd (validate_configured_models factories st now listing r))"
| cleanup: "registry_step r (snd (cleanup outcome r))"

definition infos_ok :: "(string, model_info) pydict \<Rightarrow> bool" where
  "infos_ok d \<longleftrightarrow> dict_ok d \<and> (\<forall>(k, i) \<in> set d. mi_model_id i = k \<and> py_strip k \<noteq> [])"

definition registry_ok :: "'p registry \<Rightarrow> bool" where
  "registry_ok r \<longleftrightarrow>
     dict_keys (rg_model_ids r) = dict_keys (rg_model_infos r) \<and> dict_ok (rg_model_infos r) \<and>
     (\<forall>pid d. dict_get pid (rg_model_infos r) = Some d \<longrightarrow>
        infos_ok d \<and> dict_get pid (rg_model_ids r) = Some (set (dict_keys d))) \<and>
     (\<forall>pid h. dict_get pid (rg_health r) = Some h \<longrightarrow> hl_provider_id h = pid) \<and>
     set (dict_keys (rg_providers r)) \<subseteq> set SUPPORTED_PROVIDER_IDS"

lemma infos_ok_Nil [simp]: "infos_ok []"
  by (simp add: infos_ok_def)

lemma infos_ok_fold:
  "infos_ok d \<Longrightarrow> \<forall>i \<in> set js. py_strip (mi_model_id i) \<noteq> [] \<Longrightarrow> infos_ok (fold (\<lambda>i. dict_set (mi_model_id i) i) js d)"
proof (induction js arbitrary: d)
  case (Cons i js)
  have "infos_ok (dict_set (mi_model_id i) i d)" using Cons.prems by (auto simp: infos_ok_def dest!: dict_set_mem)
  then show ?case using Cons by simp
qed simp

lemma clean_infos_ok: "infos_ok (clean_infos infos)"
  unfolding clean_infos_def by (rule infos_ok_fold) simp_all

lemma create_provider_supported: "create_provider factories pid st = Inr p \<Longrightarrow> pid \<in> set SUPPORTED_PROVIDER_IDS"
  using pd.lookup_SomeD [of pid PROVIDER_CATALOG]
  by (auto simp: create_provider_def SUPPORTED_PROVIDER_IDS_def split: option.splits)

lemma registry_okD:
  assumes "registry_ok r" and "dict_get pid (rg_model_infos r) = Some d"
  shows "infos_ok d" and "dict_get pid (rg_model_ids r) = Some (set (dict_keys d))"
  using assms by (simp_all add: registry_ok_def)

lemma registry_ok_get: "registry_ok r \<Longrightarrow> registry_ok (snd (registry_get factories pid st r))"
  by (auto simp: registry_get_def registry_ok_def create_provider_supported split: option.split sum.split)

lemma registry_ok_cache: "registry_ok r \<Longrightarrow> registry_ok (cache_model_infos pid infos r)"
  by (auto simp: registry_ok_def cache_model_infos_def Let_def clean_infos_ok pd.keys_store)

lemma registry_ok_new [simp]: "registry_ok registry_new"
  by (simp add: registry_ok_def registry_new_def)

text \<open>Health operations keep each entry under its own id.\<close>

definition keeps_ids :: "(health_table \<Rightarrow> health_table) \<Rightarrow> bool" where
  "keeps_ids f \<longleftrightarrow> (\<forall>d. (\<forall>pid h. dict_get pid d = Some h \<longrightarrow> hl_provider_id h = pid) \<longrightarrow>
     (\<forall>pid h. dict_get pid (f d) = Some h \<longrightarrow> hl_provider_id h = pid))"

lemma keeps_idsD: "keeps_ids f \<Longrightarrow> \<forall>pid h. dict_get pid d = Some h \<longrightarrow> hl_provider_id h = pid \<Longrightarrow>
    \<forall>pid h. dict_get pid (f d) = Some h \<longrightarrow> hl_provider_id h = pid"
  unfolding keeps_ids_def by blast

lemma keeps_ids_set:
  assumes "\<And>h. hl_provider_id (g h) = hl_provider_id h"
  shows "keeps_ids (\<lambda>d. case health_of pid d of (h, d) \<Rightarrow> dict_set pid (g h) d)"
  by (auto simp: keeps_ids_def health_of_def health_new_def assms split: option.splits)

lemma health_ids [simp]:
  "hl_provider_id (health_success now h) = hl_provider_id h" "hl_provider_id (health_failure now e h) = hl_provider_id h"
  "hl_provider_id (snd (is_available now h)) = hl_provider_id h"
  by (simp_all add: health_success_def health_failure_def is_available_def Let_def split: option.split)

lemma keeps_ids_record [simp]:
  "keeps_ids (record_provider_success now pid)" "keeps_ids (record_provider_failure now pid e)"
proof -
  have "record_provider_success now pid = (\<lambda>d. case health_of pid d of (h, d) \<Rightarrow> dict_set pid (health_success now h) d)"
    "record_provider_failure now pid e = (\<lambda>d. case health_of pid d of (h, d) \<Rightarrow> dict_set pid (health_failure now e h) d)"
    by (rule ext, simp only: record_provider_success_def record_provider_failure_def)+
  then show "keeps_ids (record_provider_success now pid)" "keeps_ids (record_provider_failure now pid e)"
    using keeps_ids_set [of "health_success now" pid] keeps_ids_set [of "health_failure now e" pid] by simp_all
qed

lemma keeps_ids_available [simp]: "keeps_ids (\<lambda>d. snd (provider_available now pid d))"
proof -
  have "(\<lambda>d. snd (provider_available now pid d)) = (\<lambda>d. case health_of pid d of (h, d) \<Rightarrow> dict_set pid (snd (is_available now h)) d)"
    by (rule ext) (simp add: provider_available_def case_prod_beta)
  then show ?thesis using keeps_ids_set [of "\<lambda>h. snd (is_available now h)" pid] by simp
qed

lemma keeps_ids_comp: "keeps_ids f \<Longrightarrow> keeps_ids g \<Longrightarrow> keeps_ids (\<lambda>d. f (g d))"
  unfolding keeps_ids_def by blast

lemma keeps_ids_snapshots [simp]: "keeps_ids (\<lambda>d. snd (snapshots now pids d))"
proof (induction pids)
  case (Cons pid pids)
  let ?g = "\<lambda>d. case health_of pid d of (h, d) \<Rightarrow> dict_set pid (snd (is_available now h)) d"
  have "(\<lambda>d. snd (snapshots now (pid # pids) d)) = (\<lambda>d. snd (snapshots now pids (?g d)))"
    by (rule ext) (simp add: case_prod_beta)
  moreover have "keeps_ids ?g" by (rule keeps_ids_set) simp
  ultimately show ?case using keeps_ids_comp [where f = "\<lambda>d. snd (snapshots now pids d)" and g = ?g] Cons by (simp only:)
qed (simp add: keeps_ids_def)

lemma registry_ok_health: "registry_ok r \<Longrightarrow> keeps_ids f \<Longrightarrow> registry_ok (health_op f r)"
proof -
  assume r: "registry_ok r" and f: "keeps_ids f"
  have "\<forall>pid h. dict_get pid (rg_health r) = Some h \<longrightarrow> hl_provider_id h = pid" using r unfolding registry_ok_def by blast
  then have "\<forall>pid h. dict_get pid (f (rg_health r)) = Some h \<longrightarrow> hl_provider_id h = pid" by (rule keeps_idsD [OF f])
  then show ?thesis using r by (simp add: registry_ok_def health_op_def)
qed

lemma registry_ok_record: "registry_ok r \<Longrightarrow> registry_ok (record_success now pid r)"
    "registry_ok r \<Longrightarrow> registry_ok (record_failure now pid e r)"
  by (simp_all add: record_success_def record_failure_def registry_ok_health)

lemmas registry_ok_ops = registry_ok_get registry_ok_cache registry_ok_health registry_ok_record

lemma registry_ok_running: "registry_ok r \<Longrightarrow> registry_ok (r\<lparr>rg_refresh_running := b\<rparr>)"
  by (simp add: registry_ok_def)

lemma registry_ok_refresh_begin: "registry_ok r \<Longrightarrow> registry_ok (snd (refresh_begin factories st now pids r))"
proof (induction pids arbitrary: r)
  case (Cons pid pids)
  obtain o1 r1 where o: "registry_get factories pid st r = (o1, r1)" by force
  have "registry_ok r1" using registry_ok_get [OF Cons.prems, of factories pid st] by (simp add: o)
  then show ?case using Cons.IH by (cases o1) (simp_all add: o registry_ok_ops case_prod_beta)
qed simp

lemma registry_ok_refresh_end: "registry_ok r \<Longrightarrow> registry_ok (snd (refresh_end now results r))"
  by (induction now results r rule: refresh_end.induct) (simp_all add: registry_ok_ops)

lemma registry_ok_validate_begin: "registry_ok r \<Longrightarrow> registry_ok (snd (snd (validate_begin factories st now gs r)))"
proof (induction gs arbitrary: r)
  case (Cons g gs)
  obtain pid refs where g: "g = (pid, refs)" by force
  obtain o1 r1 where o: "registry_get factories pid st r = (o1, r1)" by force
  have "registry_ok r1" using registry_ok_get [OF Cons.prems, of factories pid st] by (simp add: o)
  then have "registry_ok (snd (snd (validate_begin factories st now gs r1)))"
      "registry_ok (snd (snd (validate_begin factories st now gs (record_failure now pid e r1))))" for e
    using Cons.IH registry_ok_record(2) by blast+
  then show ?case by (cases o1) (simp_all add: g o case_prod_beta)
qed simp

lemma registry_ok_validate_end: "registry_ok r \<Longrightarrow> registry_ok (snd (validate_end st now listing gs r))"
proof (induction gs arbitrary: r)
  case (Cons g gs)
  obtain pid refs where g: "g = (pid, refs)" by force
  show ?case
  proof (cases "listing pid")
    case (Inl e)
    have "registry_ok (snd (validate_end st now listing gs (record_failure now pid e r)))"
      using Cons registry_ok_record(2) by blast
    then show ?thesis using Cons.prems by (auto simp: g Inl split: prod.split sum.split)
  next
    case (Inr infos)
    have "registry_ok (snd (validate_end st now listing gs (record_success now pid (cache_model_infos pid infos r))))"
      using Cons registry_ok_record(1) registry_ok_cache by blast
    then show ?thesis by (auto simp: g Inr Let_def split: prod.split sum.split)
  qed
qed simp

lemma registry_ok_validate: "registry_ok r \<Longrightarrow> registry_ok (snd (validate_configured_models factories st now listing r))"
proof (cases "configured_chat_model_refs (as_models st)")
  case (Inr refs)
  assume "registry_ok r"
  obtain fs asked r1 where b: "validate_begin factories st now (refs_by_provider refs) r = (fs, asked, r1)" by (metis prod_cases3)
  have "registry_ok (snd (validate_end st now listing asked r1))"
    using registry_ok_validate_begin [OF \<open>registry_ok r\<close>, of factories st now "refs_by_provider refs"] b
    by (simp add: registry_ok_validate_end)
  then show ?thesis by (auto simp: validate_configured_models_def Inr b split: prod.split sum.split)
qed (simp add: validate_configured_models_def)

lemma registry_step_ok: "registry_step r r' \<Longrightarrow> registry_ok r \<Longrightarrow> registry_ok r'"
  by (induction rule: registry_step.induct)
    (simp_all add: registry_ok_ops registry_ok_refresh_begin registry_ok_refresh_end registry_ok_validate registry_ok_running
      cleanup_def refresh_task_end_def start_model_list_refresh_def Let_def case_prod_beta split: sum.split)

text \<open>Whatever operations the registry sees, in whatever order and with whatever outcomes, the cached id
  sets are exactly the ids of the cached infos, no id is blank, every info is under its own id, every
  health entry under its own provider, and only providers of the catalog are ever made.\<close>

theorem registry_consistent:
  assumes "registry_step\<^sup>*\<^sup>* registry_new r"
  shows "registry_ok r"
  using assms by (induction rule: rtranclp_induct) (simp_all add: registry_step_ok)

theorem registry_consistent_witness:
  "registry_ok (record_failure 1 ''groq'' (model_list_response_error ''bad'')
     (cache_model_infos ''groq'' [\<lparr>mi_model_id = ''a'', mi_supports_thinking = None\<rparr>] registry_new))"
proof -
  let ?r = "cache_model_infos ''groq'' [\<lparr>mi_model_id = ''a'', mi_supports_thinking = None\<rparr>] registry_new"
  have "registry_step registry_new ?r" by (rule registry_step.cache)
  moreover have "registry_step ?r (record_failure 1 ''groq'' (model_list_response_error ''bad'') ?r)"
    by (rule registry_step.failed)
  ultimately have "registry_step\<^sup>*\<^sup>* registry_new (record_failure 1 ''groq'' (model_list_response_error ''bad'') ?r)"
    by (meson r_into_rtranclp rtranclp.rtrancl_into_rtrancl)
  then show ?thesis by (rule registry_consistent)
qed

end
