(* ===== verification/ModelsList.thy ===== *)
theory ModelsList
  imports ModelValidation
begin

section \<open>The list of models (\<open>api/routes.py\<close>)\<close>

text \<open>\<open>_build_models_list_response\<close>: what the proxy advertises, from the settings and the registry.\<close>

record model_response =
  mr_id :: string
  mr_display_name :: string
  mr_created_at :: string

record models_list_response =
  ml_data :: "model_response list"
  ml_first_id :: "string option"
  ml_has_more :: bool
  ml_last_id :: "string option"

definition claude_model :: "string \<Rightarrow> string \<Rightarrow> string \<Rightarrow> model_response" where
  "claude_model i name created = \<lparr>mr_id = i, mr_display_name = name, mr_created_at = created\<rparr>"

definition SUPPORTED_CLAUDE_MODELS :: "model_response list" where
  "SUPPORTED_CLAUDE_MODELS =
     [claude_model ''claude-opus-4-20250514'' ''Claude Opus 4'' ''2025-05-14T00:00:00Z'',
      claude_model ''claude-sonnet-4-20250514'' ''Claude Sonnet 4'' ''2025-05-14T00:00:00Z'',
      claude_model ''claude-haiku-4-20250514'' ''Claude Haiku 4'' ''2025-05-14T00:00:00Z'',
      claude_model ''claude-3-opus-20240229'' ''Claude 3 Opus'' ''2024-02-29T00:00:00Z'',
      claude_model ''claude-3-5-sonnet-20241022'' ''Claude 3.5 Sonnet'' ''2024-10-22T00:00:00Z'',
      claude_model ''claude-3-haiku-20240307'' ''Claude 3 Haiku'' ''2024-03-07T00:00:00Z'',
      claude_model ''claude-3-5-haiku-20241022'' ''Claude 3.5 Haiku'' ''2024-10-22T00:00:00Z'']"

definition discovered_model_response :: "string \<Rightarrow> string \<Rightarrow> model_response" where
  "discovered_model_response i name =
     \<lparr>mr_id = i, mr_display_name = name, mr_created_at = ''1970-01-01T00:00:00Z''\<rparr>"

text \<open>The list and the set of ids seen.\<close>

type_synonym building = "model_response list \<times> string set"

definition append_unique_model :: "model_response \<Rightarrow> building \<Rightarrow> building" where
  "append_unique_model m b =
     (case b of (models, seen) \<Rightarrow>
        if mr_id m \<in> seen then (models, seen) else (models @ [m], insert (mr_id m) seen))"

definition append_provider_model_variants :: "string \<Rightarrow> bool option \<Rightarrow> building \<Rightarrow> building" where
  "append_provider_model_variants ref thinking b =
     (let b = (if thinking \<noteq> Some False
               then append_unique_model (discovered_model_response (gateway_model_id ref) ref) b else b)
      in append_unique_model
           (discovered_model_response (no_thinking_gateway_model_id ref) (ref @ '' (no thinking)'')) b)"

definition build_models_list_response :: "model_settings \<Rightarrow> 'p registry option \<Rightarrow> models_list_response result" where
  "build_models_list_response st reg =
     bind_result (configured_chat_model_refs st) (\<lambda>refs.
       let b = fold (\<lambda>ref. append_provider_model_variants (cr_model_ref ref)
                  (case reg of None \<Rightarrow> None
                   | Some r \<Rightarrow> cached_model_supports_thinking (cr_provider_id ref) (cr_model_id ref) r)) refs ([], {});
           b = (case reg of
                  None \<Rightarrow> b
                | Some r \<Rightarrow> fold (\<lambda>i. append_provider_model_variants (mi_model_id i) (mi_supports_thinking i))
                              (cached_prefixed_model_infos r) b);
           models = fst (fold append_unique_model SUPPORTED_CLAUDE_MODELS b)
       in Inr \<lparr>ml_data = models, ml_first_id = (if models = [] then None else Some (mr_id (hd models))),
               ml_has_more = False, ml_last_id = (if models = [] then None else Some (mr_id (last models)))\<rparr>)"

subsection \<open>Every advertised id is routed to its model\<close>

definition routes_back :: "model_settings \<Rightarrow> model_response \<Rightarrow> bool" where
  "routes_back st m \<longleftrightarrow>
     (\<exists>r. resolve st (mr_id m) = Inr r \<and> rm_provider_id r \<in> set SUPPORTED_PROVIDER_IDS \<and>
        (let ref = rm_provider_id r @ ''/'' @ rm_provider_model r in
         mr_id m = gateway_model_id ref \<and> mr_display_name m = ref \<or>
         mr_id m = no_thinking_gateway_model_id ref \<and> mr_display_name m = ref @ '' (no thinking)'' \<and>
           \<not> rm_thinking_enabled r))"

definition built :: "(model_response \<Rightarrow> bool) \<Rightarrow> building \<Rightarrow> bool" where
  "built P b \<longleftrightarrow> distinct (map mr_id (fst b)) \<and> snd b = mr_id ` set (fst b) \<and> (\<forall>m \<in> set (fst b). P m)"

lemma built_append: "built P b \<Longrightarrow> P m \<Longrightarrow> built P (append_unique_model m b)"
  by (auto simp: built_def append_unique_model_def split: prod.splits)

lemma variants_route:
  assumes "settings_ok st" and "pid \<in> set SUPPORTED_PROVIDER_IDS" and "model \<noteq> []"
  shows "routes_back st (discovered_model_response (gateway_model_id (pid @ ''/'' @ model)) (pid @ ''/'' @ model))"
    and "routes_back st (discovered_model_response (no_thinking_gateway_model_id (pid @ ''/'' @ model)) ((pid @ ''/'' @ model) @ '' (no thinking)''))"
proof -
  note d = direct_spec [OF assms(2,3)]
  obtain t where t: "resolve st (gateway_model_id (pid @ ''/'' @ model)) = Inr \<lparr>rm_original_model = gateway_model_id (pid @ ''/'' @ model),
      rm_provider_id = pid, rm_provider_model = model, rm_provider_model_ref = gateway_model_id (pid @ ''/'' @ model), rm_thinking_enabled = t\<rparr>"
    using resolve_direct [OF assms(1) d(2)] by blast
  then show "routes_back st (discovered_model_response (gateway_model_id (pid @ ''/'' @ model)) (pid @ ''/'' @ model))"
    unfolding routes_back_def discovered_model_response_def model_response.simps t using assms(2) by (auto simp: Let_def)
  have n: "resolve st (no_thinking_gateway_model_id (pid @ ''/'' @ model)) = Inr \<lparr>rm_original_model = no_thinking_gateway_model_id (pid @ ''/'' @ model),
      rm_provider_id = pid, rm_provider_model = model, rm_provider_model_ref = no_thinking_gateway_model_id (pid @ ''/'' @ model), rm_thinking_enabled = False\<rparr>"
    using resolve_direct [OF assms(1) d(3)] by auto
  show "routes_back st (discovered_model_response (no_thinking_gateway_model_id (pid @ ''/'' @ model)) ((pid @ ''/'' @ model) @ '' (no thinking)''))"
    unfolding routes_back_def discovered_model_response_def model_response.simps n using assms(2) by (auto simp: Let_def)
qed

lemma built_variants:
  assumes "settings_ok st" and "pid \<in> set SUPPORTED_PROVIDER_IDS" and "model \<noteq> []" and "built (routes_back st) b"
  shows "built (routes_back st) (append_provider_model_variants (pid @ ''/'' @ model) thinking b)"
  using variants_route [OF assms(1-3)] assms(4)
  unfolding append_provider_model_variants_def Let_def by (simp add: built_append)

lemma built_fold:
  "(\<And>x b. x \<in> set xs \<Longrightarrow> built P b \<Longrightarrow> built P (f x b)) \<Longrightarrow> built P b \<Longrightarrow> built P (fold f xs b)"
  by (induction xs arbitrary: b) simp_all

lemma set_insert_info [simp]: "set (insert_info i js) = insert i (set js)"
  by (induction js) auto

lemma set_sort_infos [simp]: "set (sort_infos infos) = set infos"
proof -
  have "set (fold insert_info infos js) = set infos \<union> set js" for js by (induction infos arbitrary: js) auto
  then show ?thesis by (simp add: sort_infos_def)
qed

lemma prefixed_info:
  assumes "registry_ok r" and "i \<in> set (cached_prefixed_model_infos r)"
  shows "\<exists>pid model. mi_model_id i = pid @ ''/'' @ model \<and> pid \<in> set SUPPORTED_PROVIDER_IDS \<and> model \<noteq> []"
proof -
  obtain pid j where j: "pid \<in> set SUPPORTED_PROVIDER_IDS" "mi_model_id i = pid @ ''/'' @ mi_model_id j"
      "j \<in> set (case dict_get pid (rg_model_infos r) of None \<Rightarrow> [] | Some infos \<Rightarrow> dict_values infos)"
    using assms(2) unfolding cached_prefixed_model_infos_def by force
  then obtain infos k where "dict_get pid (rg_model_infos r) = Some infos" "(k, j) \<in> set infos"
    by (cases "dict_get pid (rg_model_infos r)") (auto simp: dict_values_def)
  then have "py_strip (mi_model_id j) \<noteq> []"
    using registry_okD(1) [OF assms(1)] by (fastforce simp: infos_ok_def)
  then have "mi_model_id j \<noteq> []" by (auto simp: py_strip_def py_lstrip_def py_rstrip_def)
  then show ?thesis using j by blast
qed

text \<open>The advertised ids are distinct, and each of them but the fixed Claude names is routed to exactly
  the provider and model its display name shows, with thinking off for the variants that say so.\<close>

theorem advertised_models_route:
  assumes "load_settings raw = Inr st" and "\<forall>r \<in> set_option reg. registry_ok r"
    and "\<forall>(source, ref) \<in> set (candidates st). parse_model_name ref \<noteq> Inr []"
  shows "\<exists>l. build_models_list_response st reg = Inr l \<and> distinct (map mr_id (ml_data l)) \<and>
    (\<forall>m \<in> set (ml_data l). routes_back st m \<or> m \<in> set SUPPORTED_CLAUDE_MODELS)"
proof -
  note ok = load_settings_ok(1) [OF assms(1)]
  let ?P = "\<lambda>m. routes_back st m \<or> m \<in> set SUPPORTED_CLAUDE_MODELS"
  define think where "think = (\<lambda>c :: configured_ref. case reg of None \<Rightarrow> None
      | Some r \<Rightarrow> cached_model_supports_thinking (cr_provider_id c) (cr_model_id c) r)"
  obtain refs where refs: "configured_chat_model_refs st = Inr refs" using configured_refs_eq [OF ok] by blast
  have split: "\<exists>pid model. cr_model_ref c = pid @ ''/'' @ model \<and> pid \<in> set SUPPORTED_PROVIDER_IDS \<and> model \<noteq> []"
    if "c \<in> set refs" for c
  proof -
    have "cr_model_ref c \<in> set (dict_keys (fold add_source (candidates st) []))"
      using that refs configured_refs_eq [OF ok] by (force simp: dict_keys_def)
    then obtain s where s: "(s, cr_model_ref c) \<in> set (candidates st)" by (force simp: add_source_keys)
    then obtain p m where "cr_model_ref c = p @ ''/'' @ m" "p \<in> set SUPPORTED_PROVIDER_IDS" "parse_model_name (cr_model_ref c) = Inr m"
      using settings_ok_candidates [OF ok] by (metis valid_refE)
    moreover have "parse_model_name (cr_model_ref c) \<noteq> Inr []" using s assms(3) by blast
    ultimately show ?thesis by auto
  qed
  define b1 where "b1 = fold (\<lambda>c. append_provider_model_variants (cr_model_ref c) (think c)) refs ([], {})"
  have b1: "built (routes_back st) b1" unfolding b1_def
  proof (rule built_fold)
    fix c b assume c: "c \<in> set refs" and b: "built (routes_back st) b"
    obtain pid model where "cr_model_ref c = pid @ ''/'' @ model" "pid \<in> set SUPPORTED_PROVIDER_IDS" "model \<noteq> []"
      using split [OF c] by blast
    then show "built (routes_back st) (append_provider_model_variants (cr_model_ref c) (think c) b)"
      using built_variants [OF ok _ _ b] by metis
  qed (simp add: built_def)
  define b2 where "b2 = (case reg of None \<Rightarrow> b1 | Some r \<Rightarrow>
      fold (\<lambda>i. append_provider_model_variants (mi_model_id i) (mi_supports_thinking i)) (cached_prefixed_model_infos r) b1)"
  have b2: "built (routes_back st) b2"
  proof (cases reg)
    case (Some r)
    have "registry_ok r" using assms(2) Some by simp
    have "built (routes_back st) (fold (\<lambda>i. append_provider_model_variants (mi_model_id i) (mi_supports_thinking i)) (cached_prefixed_model_infos r) b1)"
    proof (rule built_fold [OF _ b1])
      fix i b assume i: "i \<in> set (cached_prefixed_model_infos r)" and b: "built (routes_back st) b"
      then show "built (routes_back st) (append_provider_model_variants (mi_model_id i) (mi_supports_thinking i) b)"
        using prefixed_info [OF \<open>registry_ok r\<close> i] built_variants [OF ok _ _ b] by metis
    qed
    then show ?thesis by (simp add: b2_def Some)
  qed (simp add: b2_def b1)
  then have "built ?P b2" by (auto simp: built_def)
  then have b3: "built ?P (fold append_unique_model SUPPORTED_CLAUDE_MODELS b2)"
    by (intro built_fold) (auto intro: built_append)
  let ?models = "fst (fold append_unique_model SUPPORTED_CLAUDE_MODELS b2)"
  have "build_models_list_response st reg = Inr \<lparr>ml_data = ?models, ml_first_id = (if ?models = [] then None else Some (mr_id (hd ?models))),
      ml_has_more = False, ml_last_id = (if ?models = [] then None else Some (mr_id (last ?models)))\<rparr>"
    by (simp only: build_models_list_response_def refs bind_result.simps Let_def b2_def b1_def think_def)
  then show ?thesis using b3 by (simp add: built_def)
qed

theorem advertised_models_route_witness:
  "\<exists>l. build_models_list_response demo_settings (Some (cache_model_infos ''groq'' [\<lparr>mi_model_id = ''a/b'', mi_supports_thinking = Some False\<rparr>] registry_new)) = Inr l \<and>
     distinct (map mr_id (ml_data l))"
proof -
  let ?r = "cache_model_infos ''groq'' [\<lparr>mi_model_id = ''a/b'', mi_supports_thinking = Some False\<rparr>] registry_new"
  have "registry_ok ?r" by (simp add: registry_ok_cache)
  moreover have "\<forall>(source, ref) \<in> set (candidates demo_settings). parse_model_name ref \<noteq> Inr []"
    by (simp add: candidates_def demo_settings_def demo_raw_def fallback_model_refs_def parse_model_name_def)
  ultimately show ?thesis using advertised_models_route [OF demo_load, of "Some ?r"] by auto
qed

text \<open>A reference without a model passes the validators but is not routed back.\<close>

lemma empty_model_passes: "validate_model_format (Some ''groq/'') = Inr (Some ''groq/'')" "decode_gateway_model_id (gateway_model_id ''groq/'') = None"
  by (simp_all add: validate_model_format_def parse_provider_type_def supported_ids catalog_ids_def decode_gateway_model_id_def
      gateway_model_id_def py_partition_def)

end
