(* ===== verification/RequestShortcuts.thy ===== *)
theory RequestShortcuts
  imports ApiRequests
begin

section \<open>Requests answered locally (\<open>api/detection.py\<close>, \<open>api/command_utils.py\<close>, \<open>api/optimization_handlers.py\<close>)\<close>

text \<open>
  The probes of Claude Code that the proxy answers itself, and the checks for forced web tools of
  \<open>api/web_tools/request.py\<close>.
\<close>

subsection \<open>Detection\<close>

definition is_quota_check_request :: "messages_request \<Rightarrow> bool" where
  "is_quota_check_request rq \<longleftrightarrow>
     rq_max_tokens rq = Some 1 \<and>
     (case rq_messages rq of
        [m] \<Rightarrow> msg_role m = ''user'' \<and> py_in ''quota'' (py_lower (extract_text_from_content (msg_content m)))
      | _ \<Rightarrow> False)"

text \<open>\<open>not request_data.system\<close> and \<open>request_data.tools\<close>\<close>

definition system_empty :: "json option \<Rightarrow> bool" where
  "system_empty s \<longleftrightarrow> s = None \<or> s = Some (JStr []) \<or> s = Some (JList []) \<or> s = Some JNull"

definition has_tools :: "messages_request \<Rightarrow> bool" where
  "has_tools rq \<longleftrightarrow> (case rq_tools rq of Some (_ # _) \<Rightarrow> True | _ \<Rightarrow> False)"

definition is_title_generation_request :: "messages_request \<Rightarrow> bool" where
  "is_title_generation_request rq \<longleftrightarrow>
     (if system_empty (rq_system rq) \<or> has_tools rq then False
      else
        let t = py_lower (system_texts (rq_system rq)) in
        if \<not> py_in ''title'' t then False
        else py_in ''sentence-case title'' t \<or>
          py_in ''return json'' t \<and> py_in ''field'' t \<and> (py_in ''coding session'' t \<or> py_in ''this session'' t))"

text \<open>\<open>s.rfind(p)\<close>, \<open>None\<close> for \<open>-1\<close>\<close>

fun str_rfind :: "string \<Rightarrow> string \<Rightarrow> nat option" where
  "str_rfind p [] = (if p = [] then Some 0 else None)"
| "str_rfind p (x # xs) =
     (case str_rfind p xs of
        Some i \<Rightarrow> Some (Suc i)
      | None \<Rightarrow> if prefix p (x # xs) then Some 0 else None)"

definition is_prefix_detection_request :: "messages_request \<Rightarrow> string option" where
  "is_prefix_detection_request rq =
     (case rq_messages rq of
        [m] \<Rightarrow>
          if msg_role m \<noteq> ''user'' then None
          else
            let content = extract_text_from_content (msg_content m) in
            if py_in ''<policy_spec>'' content \<and> py_in ''Command:'' content
            then (case str_rfind ''Command:'' content of
                    Some i \<Rightarrow> Some (py_strip (drop (i + 8) content))
                  | None \<Rightarrow> None)
            else None
      | _ \<Rightarrow> None)"

definition is_suggestion_mode_request :: "messages_request \<Rightarrow> bool" where
  "is_suggestion_mode_request rq \<longleftrightarrow>
     (\<exists>m \<in> set (rq_messages rq). msg_role m = ''user'' \<and> py_in ''[SUGGESTION MODE:'' (extract_text_from_content (msg_content m)))"

text \<open>\<open>if marker in output: output = output.split(marker)[0].strip()\<close>\<close>

definition cut_at :: "string \<Rightarrow> string \<Rightarrow> string" where
  "cut_at marker output = (case py_find marker output of Some i \<Rightarrow> py_strip (take i output) | None \<Rightarrow> output)"

definition is_filepath_extraction_request :: "messages_request \<Rightarrow> (string \<times> string) option" where
  "is_filepath_extraction_request rq =
     (case rq_messages rq of
        [m] \<Rightarrow>
          if msg_role m \<noteq> ''user'' \<or> has_tools rq then None
          else
            let content = extract_text_from_content (msg_content m) in
            if \<not> py_in ''Command:'' content \<or> \<not> py_in ''Output:'' content then None
            else
              let low = py_lower content;
                  user_has_filepaths = py_in ''filepaths'' low \<or> py_in ''<filepaths>'' low;
                  system_text = (if system_empty (rq_system rq) then [] else system_texts (rq_system rq));
                  system_has_extract = py_in ''extract any file paths'' (py_lower system_text) \<or>
                    py_in ''file paths that this command'' (py_lower system_text)
              in
                if \<not> user_has_filepaths \<and> \<not> system_has_extract then None
                else
                  (case py_find ''Command:'' content of
                     None \<Rightarrow> None
                   | Some i \<Rightarrow>
                       let rest = drop (i + 8) content in
                       (case py_find ''Output:'' rest of
                          None \<Rightarrow> None
                        | Some j \<Rightarrow>
                            let command = py_strip (take j rest);
                                output = py_strip (drop (j + 7) rest)
                            in Some (command, cut_at LFLF (cut_at ''<'' output))))
      | _ \<Rightarrow> None)"

subsection \<open>Shell words\<close>

text \<open>\<open>shlex.split(s, posix=False)\<close>: \<open>None\<close> is the \<open>ValueError\<close> of an unclosed quote.\<close>

definition shlex_space :: "char \<Rightarrow> bool" where
  "shlex_space c \<longleftrightarrow> c \<in> {CHR '' '', CHR 0x09, CHR 0x0D, CHR 0x0A}"

definition shlex_quote :: "char \<Rightarrow> bool" where
  "shlex_quote c \<longleftrightarrow> c \<in> {CHR 0x27, CHR 0x22}"

datatype shlex_state = Between | Quoted char | Word

text \<open>The token so far is \<open>tok\<close>.\<close>

fun shlex_loop :: "shlex_state \<Rightarrow> string \<Rightarrow> string \<Rightarrow> string list option" where
  "shlex_loop Between tok [] = Some []"
| "shlex_loop (Quoted q) tok [] = None"
| "shlex_loop Word tok [] = Some [tok]"
| "shlex_loop Between tok (c # cs) =
     (if shlex_space c then shlex_loop Between [] cs
      else if shlex_quote c then shlex_loop (Quoted c) [c] cs
      else shlex_loop Word [c] cs)"
| "shlex_loop (Quoted q) tok (c # cs) =
     (if c = q then map_option (Cons (tok @ [c])) (shlex_loop Between [] cs)
      else shlex_loop (Quoted q) (tok @ [c]) cs)"
| "shlex_loop Word tok (c # cs) =
     (if shlex_space c then map_option (Cons tok) (shlex_loop Between [] cs)
      else shlex_loop Word (tok @ [c]) cs)"

definition shlex_split :: "string \<Rightarrow> string list option" where
  "shlex_split s = shlex_loop Between [] s"

text \<open>\<open>s.split()\<close>\<close>

fun split_space :: "string \<Rightarrow> string \<Rightarrow> string list" where
  "split_space tok [] = (if tok = [] then [] else [tok])"
| "split_space tok (c # cs) =
     (if py_space c then (if tok = [] then [] else [tok]) @ split_space [] cs
      else split_space (tok @ [c]) cs)"

definition name_start :: "char \<Rightarrow> bool" where
  "name_start c \<longleftrightarrow> (let n = of_char c :: nat in 65 \<le> n \<and> n \<le> 90 \<or> 97 \<le> n \<and> n \<le> 122 \<or> n = 95)"

definition name_char :: "char \<Rightarrow> bool" where
  "name_char c \<longleftrightarrow> name_start c \<or> (let n = of_char c :: nat in 48 \<le> n \<and> n \<le> 57)"

text \<open>\<open>^[A-Za-z_][A-Za-z0-9_]*=.*$\<close>: a newline may only be the last character.\<close>

definition is_env_assignment :: "string \<Rightarrow> bool" where
  "is_env_assignment part \<longleftrightarrow>
     (case part of
        [] \<Rightarrow> False
      | c # cs \<Rightarrow> name_start c \<and>
          (case dropWhile name_char cs of
             e # rest \<Rightarrow> e = CHR ''='' \<and> CHR 0x0A \<notin> set (butlast rest)
           | [] \<Rightarrow> False))"

definition strip_env_assignments :: "string list \<Rightarrow> string list" where
  "strip_env_assignments parts = dropWhile is_env_assignment parts"

definition two_word_commands :: "string list" where
  "two_word_commands = [''git'', ''npm'', ''docker'', ''kubectl'', ''cargo'', ''go'', ''pip'', ''yarn'']"

definition prefix_of_words :: "string list \<Rightarrow> string" where
  "prefix_of_words parts =
     (let env = takeWhile is_env_assignment parts in
      case strip_env_assignments parts of
        [] \<Rightarrow> ''none''
      | first # rest \<Rightarrow>
          if first \<in> set two_word_commands \<and> rest \<noteq> [] then
            (if \<not> py_startswith ''-'' (hd rest) then first @ '' '' @ hd rest else first)
          else if env = [] then first else py_join '' '' env @ '' '' @ first)"

definition extract_command_prefix :: "string \<Rightarrow> string" where
  "extract_command_prefix command =
     (if py_in ''`'' command \<or> py_in ''$('' command then ''command_injection_detected''
      else
        case shlex_split command of
          Some parts \<Rightarrow> prefix_of_words parts
        | None \<Rightarrow>
            (case strip_env_assignments (split_space [] command) of
               [] \<Rightarrow> ''none''
             | first # _ \<Rightarrow> first))"

definition listing_commands :: "string list" where
  "listing_commands = [''ls'', ''dir'', ''find'', ''tree'', ''pwd'', ''cd'', ''mkdir'', ''rmdir'', ''rm'']"

definition reading_commands :: "string list" where
  "reading_commands = [''cat'', ''head'', ''tail'', ''less'', ''more'', ''bat'', ''type'']"

definition LF1 :: string where
  "LF1 = [CHR 0x0A]"

definition filepaths_block :: "string list \<Rightarrow> string" where
  "filepaths_block paths =
     (if paths = [] then ''<filepaths>'' @ LF1 @ ''</filepaths>''
      else ''<filepaths>'' @ LF1 @ py_join LF1 paths @ LF1 @ ''</filepaths>'')"

text \<open>The arguments of \<open>grep\<close>: whether a flag gives the pattern, and the positional ones.\<close>

fun grep_args :: "bool \<Rightarrow> string list \<Rightarrow> bool \<times> string list" where
  "grep_args skip [] = (False, [])"
| "grep_args skip (p # ps) =
     (if skip then grep_args False ps
      else if py_startswith ''-'' p then
        (case grep_args (p \<in> {''-e'', ''-f'', ''-m'', ''-A'', ''-B'', ''-C''}) ps of
           (given, pos) \<Rightarrow> (given \<or> p \<in> {''-e'', ''-f''}, pos))
      else (case grep_args False ps of (given, pos) \<Rightarrow> (given, p # pos)))"

definition base_command :: "string \<Rightarrow> string" where
  "base_command w = py_lower (last (py_split (CHR 0x5C) (last (py_split (CHR ''/'') w))))"

definition paths_of_words :: "string list \<Rightarrow> string list" where
  "paths_of_words parts =
     (case strip_env_assignments parts of
        [] \<Rightarrow> []
      | first # args \<Rightarrow>
          let base = base_command first in
          if base \<in> set listing_commands then []
          else if base \<in> set reading_commands then filter (\<lambda>p. \<not> py_startswith ''-'' p) args
          else if base = ''grep'' then
            (case grep_args False args of (given, pos) \<Rightarrow> if given then pos else tl pos)
          else [])"

definition extract_filepaths_from_command :: "string \<Rightarrow> string \<Rightarrow> string" where
  "extract_filepaths_from_command command output =
     (case shlex_split command of
        Some parts \<Rightarrow> filepaths_block (paths_of_words parts)
      | None \<Rightarrow> filepaths_block [])"

subsection \<open>The handlers\<close>

record shortcut_settings =
  ss_fast_prefix_detection :: bool
  ss_enable_network_probe_mock :: bool
  ss_enable_title_generation_skip :: bool
  ss_enable_suggestion_mode_skip :: bool
  ss_enable_filepath_extraction_mock :: bool

record messages_response =
  mp_model :: string
  mp_text :: string
  mp_stop_reason :: string
  mp_input_tokens :: int
  mp_output_tokens :: int

definition text_response :: "messages_request \<Rightarrow> string \<Rightarrow> int \<Rightarrow> int \<Rightarrow> messages_response" where
  "text_response rq text i out =
     \<lparr>mp_model = rq_model rq, mp_text = text, mp_stop_reason = ''end_turn'', mp_input_tokens = i, mp_output_tokens = out\<rparr>"

definition try_prefix_detection :: "messages_request \<Rightarrow> shortcut_settings \<Rightarrow> messages_response option" where
  "try_prefix_detection rq st =
     (if \<not> ss_fast_prefix_detection st then None
      else
        case is_prefix_detection_request rq of
          None \<Rightarrow> None
        | Some command \<Rightarrow> Some (text_response rq (extract_command_prefix command) 100 5))"

definition try_quota_mock :: "messages_request \<Rightarrow> shortcut_settings \<Rightarrow> messages_response option" where
  "try_quota_mock rq st =
     (if \<not> ss_enable_network_probe_mock st then None
      else if \<not> is_quota_check_request rq then None
      else Some (text_response rq ''Quota check passed.'' 10 5))"

definition try_title_skip :: "messages_request \<Rightarrow> shortcut_settings \<Rightarrow> messages_response option" where
  "try_title_skip rq st =
     (if \<not> ss_enable_title_generation_skip st then None
      else if \<not> is_title_generation_request rq then None
      else Some (text_response rq ''Conversation'' 100 5))"

definition try_suggestion_skip :: "messages_request \<Rightarrow> shortcut_settings \<Rightarrow> messages_response option" where
  "try_suggestion_skip rq st =
     (if \<not> ss_enable_suggestion_mode_skip st then None
      else if \<not> is_suggestion_mode_request rq then None
      else Some (text_response rq [] 100 1))"

definition try_filepath_mock :: "messages_request \<Rightarrow> shortcut_settings \<Rightarrow> messages_response option" where
  "try_filepath_mock rq st =
     (if \<not> ss_enable_filepath_extraction_mock st then None
      else
        case is_filepath_extraction_request rq of
          None \<Rightarrow> None
        | Some (command, output) \<Rightarrow> Some (text_response rq (extract_filepaths_from_command command output) 100 10))"

fun first_match :: "(messages_request \<Rightarrow> shortcut_settings \<Rightarrow> messages_response option) list \<Rightarrow> messages_request
    \<Rightarrow> shortcut_settings \<Rightarrow> messages_response option" where
  "first_match [] rq st = None"
| "first_match (h # hs) rq st = (case h rq st of Some r \<Rightarrow> Some r | None \<Rightarrow> first_match hs rq st)"

definition try_optimizations :: "messages_request \<Rightarrow> shortcut_settings \<Rightarrow> messages_response option" where
  "try_optimizations rq st =
     first_match [try_quota_mock, try_prefix_detection, try_title_skip, try_suggestion_skip, try_filepath_mock] rq st"

subsection \<open>Forced web tools\<close>

definition forced_server_tool_name :: "messages_request \<Rightarrow> string option" where
  "forced_server_tool_name rq =
     (case rq_tool_choice rq of
        Some (JObj d) \<Rightarrow>
          if dict_get ''type'' d \<noteq> Some (JStr ''tool'') then None
          else (case dict_get ''name'' d of
                  Some (JStr n) \<Rightarrow> if n \<in> {''web_search'', ''web_fetch''} then Some n else None
                | _ \<Rightarrow> None)
      | _ \<Rightarrow> None)"

definition tools_of :: "messages_request \<Rightarrow> tool_def list" where
  "tools_of rq = (case rq_tools rq of Some ts \<Rightarrow> ts | None \<Rightarrow> [])"

definition has_tool_named :: "messages_request \<Rightarrow> string \<Rightarrow> bool" where
  "has_tool_named rq name \<longleftrightarrow> name \<in> td_name ` set (tools_of rq)"

definition is_web_server_tool_request :: "messages_request \<Rightarrow> bool" where
  "is_web_server_tool_request rq \<longleftrightarrow>
     (case forced_server_tool_name rq of None \<Rightarrow> False | Some n \<Rightarrow> has_tool_named rq n)"

definition is_anthropic_server_tool_definition :: "tool_def \<Rightarrow> bool" where
  "is_anthropic_server_tool_definition t \<longleftrightarrow>
     (if py_strip (td_name t) \<in> {''web_search'', ''web_fetch''} then True
      else case td_type t of
             Some ty \<Rightarrow> py_startswith ''web_search'' ty \<or> py_startswith ''web_fetch'' ty
           | None \<Rightarrow> False)"

definition has_listed_anthropic_server_tools :: "messages_request \<Rightarrow> bool" where
  "has_listed_anthropic_server_tools rq \<longleftrightarrow> (\<exists>t \<in> set (tools_of rq). is_anthropic_server_tool_definition t)"

definition openai_chat_upstream_server_tool_error :: "messages_request \<Rightarrow> bool \<Rightarrow> string option" where
  "openai_chat_upstream_server_tool_error rq web_tools_enabled =
     (case forced_server_tool_name rq of
        Some n \<Rightarrow>
          if \<not> web_tools_enabled then
            Some (''tool_choice forces Anthropic server tool '' @ quoted n @
              '', but local web server tools are disabled (ENABLE_WEB_SERVER_TOOLS=false). Enable them or use a native Anthropic Messages transport (e.g. open_router, ollama, lmstudio).'')
          else None
      | None \<Rightarrow>
          if has_listed_anthropic_server_tools rq then
            Some ''OpenAI Chat upstreams cannot use listed Anthropic server tools (web_search / web_fetch) without the local web server tool handler. Use a native Anthropic transport, set ENABLE_WEB_SERVER_TOOLS=true and force the tool with tool_choice, or remove these tools from the request.''
          else None)"

subsection \<open>Commands of plain words\<close>

text \<open>A word that the splitter leaves alone.\<close>

definition plain_word :: "string \<Rightarrow> bool" where
  "plain_word w \<longleftrightarrow> w \<noteq> [] \<and> \<not> shlex_quote (hd w) \<and> (\<forall>c \<in> set w. \<not> shlex_space c)"

lemma shlex_rest_of_word:
  "\<forall>c \<in> set w. \<not> shlex_space c \<Longrightarrow> shlex_loop Word tok (w @ rest) = shlex_loop Word (tok @ w) rest"
  by (induction w arbitrary: tok) auto

lemma shlex_word:
  assumes "plain_word w"
  shows "shlex_loop Between [] (w @ rest) = shlex_loop Word w rest"
proof -
  obtain c cs where w: "w = c # cs" using assms by (cases w) (auto simp: plain_word_def)
  then show ?thesis using assms shlex_rest_of_word [of cs "[c]" rest] by (simp add: plain_word_def)
qed

lemma shlex_words: "\<forall>w \<in> set ws. plain_word w \<Longrightarrow> shlex_split (py_join '' '' ws) = Some ws"
  unfolding shlex_split_def
proof (induction "'' ''" ws rule: py_join.induct)
  case (2 w)
  then show ?case using shlex_word [of w "[]"] by simp
next
  case (3 w v ws)
  have "shlex_loop Word w ('' '' @ py_join '' '' (v # ws)) = map_option (Cons w) (shlex_loop Between [] (py_join '' '' (v # ws)))"
    by (simp add: shlex_space_def)
  then show ?case using 3 shlex_word [of w] by simp
qed simp

lemma strip_env: "\<forall>e \<in> set env. is_env_assignment e \<Longrightarrow> \<not> is_env_assignment w \<Longrightarrow>
    strip_env_assignments (env @ w # args) = w # args \<and> takeWhile is_env_assignment (env @ w # args) = env"
  by (induction env) (simp_all add: strip_env_assignments_def)

lemma command_shortcuts:
  assumes "\<forall>x \<in> set (env @ w # args). plain_word x" and "\<forall>e \<in> set env. is_env_assignment e" and "\<not> is_env_assignment w"
  shows "extract_command_prefix (py_join '' '' (env @ w # args)) =
      (if py_in ''`'' (py_join '' '' (env @ w # args)) \<or> py_in ''$('' (py_join '' '' (env @ w # args))
       then ''command_injection_detected''
       else if w \<in> set two_word_commands \<and> args \<noteq> [] then (if prefix ''-'' (hd args) then w else w @ '' '' @ hd args)
       else py_join '' '' (env @ [w]))"
    and "base_command w \<in> set reading_commands \<Longrightarrow>
      extract_filepaths_from_command (py_join '' '' (env @ w # args)) out = filepaths_block (filter (\<lambda>a. \<not> prefix ''-'' a) args)"
    and "base_command w \<in> set listing_commands \<Longrightarrow>
      extract_filepaths_from_command (py_join '' '' (env @ w # args)) out = filepaths_block []"
proof -
  note words = shlex_words [OF assms(1)]
  note env = strip_env [OF assms(2,3), of args]
  have join: "py_join '' '' (env @ [w]) = (if env = [] then w else py_join '' '' env @ '' '' @ w)"
    by (induction "'' ''" env rule: py_join.induct) simp_all
  show "extract_command_prefix (py_join '' '' (env @ w # args)) =
      (if py_in ''`'' (py_join '' '' (env @ w # args)) \<or> py_in ''$('' (py_join '' '' (env @ w # args))
       then ''command_injection_detected''
       else if w \<in> set two_word_commands \<and> args \<noteq> [] then (if prefix ''-'' (hd args) then w else w @ '' '' @ hd args)
       else py_join '' '' (env @ [w]))"
    unfolding extract_command_prefix_def words join prefix_of_words_def option.case Let_def
    using env assms(3) by (simp add: py_startswith_def)
  have disjoint: "b \<in> set reading_commands \<Longrightarrow> b \<notin> set listing_commands" for b
    by (auto simp: reading_commands_def listing_commands_def)
  show "extract_filepaths_from_command (py_join '' '' (env @ w # args)) out = filepaths_block (filter (\<lambda>a. \<not> prefix ''-'' a) args)"
    if "base_command w \<in> set reading_commands"
    unfolding extract_filepaths_from_command_def words paths_of_words_def option.case Let_def
    using env that disjoint by (simp add: py_startswith_def)
  show "extract_filepaths_from_command (py_join '' '' (env @ w # args)) out = filepaths_block []"
    if "base_command w \<in> set listing_commands"
    unfolding extract_filepaths_from_command_def words paths_of_words_def option.case Let_def
    using env that by simp
qed

text \<open>For a command line of plain words that starts with assignments \<open>env\<close>: unless it holds a command
  substitution, the prefix is the command, with its subcommand for the two-word tools and with the
  assignments otherwise; and the paths reported for a command that reads files are its arguments
  that are not flags, for one that lists them none.\<close>

theorem command_shortcuts_exact:
  assumes "\<forall>x \<in> set (env @ w # args). plain_word x" and "\<forall>e \<in> set env. is_env_assignment e" and "\<not> is_env_assignment w"
  shows "extract_command_prefix (py_join '' '' (env @ w # args)) =
      (if py_in ''`'' (py_join '' '' (env @ w # args)) \<or> py_in ''$('' (py_join '' '' (env @ w # args))
       then ''command_injection_detected''
       else if w \<in> set two_word_commands \<and> args \<noteq> [] then (if prefix ''-'' (hd args) then w else w @ '' '' @ hd args)
       else py_join '' '' (env @ [w])) \<and>
    (base_command w \<in> set reading_commands \<longrightarrow>
      extract_filepaths_from_command (py_join '' '' (env @ w # args)) out = filepaths_block (filter (\<lambda>a. \<not> prefix ''-'' a) args)) \<and>
    (base_command w \<in> set listing_commands \<longrightarrow>
      extract_filepaths_from_command (py_join '' '' (env @ w # args)) out = filepaths_block [])"
  using command_shortcuts [OF assms] by blast

theorem command_shortcuts_exact_witness:
  "extract_command_prefix ''A=1 cat -n x'' = ''A=1 cat'' \<and>
     extract_filepaths_from_command ''A=1 cat -n x'' [] = filepaths_block [''x'']"
proof -
  have 1: "\<forall>x \<in> set ([''A=1''] @ ''cat'' # [''-n'', ''x'']). plain_word x"
    by (simp add: plain_word_def shlex_quote_def shlex_space_def)
  have 2: "\<forall>e \<in> set [''A=1'']. is_env_assignment e"
    by (simp add: is_env_assignment_def name_start_def name_char_def)
  have 3: "\<not> is_env_assignment ''cat''"
    by (simp add: is_env_assignment_def name_start_def name_char_def)
  have 4: "base_command ''cat'' \<in> set reading_commands"
    by (simp add: base_command_def py_lower_def char_lower_def reading_commands_def)
  show ?thesis using command_shortcuts_exact [OF 1 2 3, of "[]"] 4
    by (simp add: py_in_def two_word_commands_def)
qed

end
