(* ===== verification/ProxyService.thy ===== *)
theory ProxyService
  imports ModelsList RequestShortcuts ErrorMapping
begin

section \<open>The proxy service (\<open>api/services.py\<close>, \<open>api/dependencies.py\<close>)\<close>

text \<open>
  \<open>ClaudeProxyService.create_message\<close> with the registry's health as \<open>provider_available\<close> and
  \<open>report_provider_health\<close> and \<open>resolve_provider\<close> as \<open>provider_getter\<close>, as \<open>get_proxy_service\<close> wires
  them.  A reply that streams is the provider with the routed request; how its stream ends is
  reported by \<open>stream_with_provider_health\<close>.
\<close>

subsection \<open>The API key\<close>

definition truthy_header :: "string \<Rightarrow> (string, string) pydict \<Rightarrow> string option" where
  "truthy_header name headers = (case dict_get name headers of Some v \<Rightarrow> if v \<noteq> [] then Some v else None | None \<Rightarrow> None)"

definition presented_header :: "(string, string) pydict \<Rightarrow> string option" where
  "presented_header headers =
     (case truthy_header ''x-api-key'' headers of
        Some v \<Rightarrow> Some v
      | None \<Rightarrow>
          (case truthy_header ''authorization'' headers of
             Some v \<Rightarrow> Some v
           | None \<Rightarrow> truthy_header ''anthropic-auth-token'' headers))"

definition token_of_header :: "string \<Rightarrow> string" where
  "token_of_header header =
     (let token = (if py_startswith ''bearer '' (py_lower header) then tl (dropWhile (\<lambda>c. c \<noteq> CHR '' '') header) else header) in
      if CHR '':'' \<in> set token then takeWhile (\<lambda>c. c \<noteq> CHR '':'') token else token)"

text \<open>\<open>None\<close> lets the request in, otherwise status and detail of the \<open>HTTPException\<close>.\<close>

definition require_api_key :: "string \<Rightarrow> (string, string) pydict \<Rightarrow> (int \<times> string) option" where
  "require_api_key auth_token headers =
     (if auth_token = [] then None
      else
        case presented_header headers of
          None \<Rightarrow> Some (401, ''Missing API key'')
        | Some header \<Rightarrow> if token_of_header header = auth_token then None else Some (401, ''Invalid API key''))"

subsection \<open>Providers\<close>

definition http_exception :: "int \<Rightarrow> string \<Rightarrow> exc" where
  "http_exception status detail =
     plain_error HTTPExceptionC ''HTTPException'' (show_int status @ '': '' @ detail) (Some status)"

definition resolve_with_registry :: "'p factories \<Rightarrow> string \<Rightarrow> app_settings \<Rightarrow> 'p registry \<Rightarrow> (exc + 'p) \<times> 'p registry" where
  "resolve_with_registry factories pid st r =
     (case registry_get factories pid st r of
        (Inr p, r) \<Rightarrow> (Inr p, r)
      | (Inl e, r) \<Rightarrow>
          if ex_class e = AuthenticationErrorC then
            (Inl (http_exception 503
               (if py_strip (ex_str e) \<noteq> [] then py_strip (ex_str e) else get_user_facing_error_message None e)), r)
          else (Inl e, r))"

text \<open>\<open>resolve_provider\<close> for an application, whose registry may be missing.\<close>

definition resolve_provider :: "'p factories \<Rightarrow> string \<Rightarrow> app_settings \<Rightarrow> 'p registry option \<Rightarrow> (exc + 'p) \<times> 'p registry option" where
  "resolve_provider factories pid st reg =
     (case reg of
        None \<Rightarrow> (Inl (service_unavailable_error
          ''Provider registry is not configured. Ensure AppRuntime startup ran or assign app.state.provider_registry for test apps.'' None), None)
      | Some r \<Rightarrow> (case resolve_with_registry factories pid st r of (p, r) \<Rightarrow> (p, Some r)))"

subsection \<open>Routing\<close>

record routed_request =
  rr_request :: messages_request
  rr_resolved :: resolved_model

definition resolve_messages_request :: "model_settings \<Rightarrow> messages_request \<Rightarrow> routed_request result" where
  "resolve_messages_request st rq =
     bind_result (resolve st (rq_model rq)) (\<lambda>m.
       Inr \<lparr>rr_request = rq\<lparr>rq_model := rm_provider_model m\<rparr>, rr_resolved = m\<rparr>)"

definition openai_chat_upstream_ids :: "string list" where
  "openai_chat_upstream_ids = dict_keys (filter (\<lambda>(pid, d). pd_transport_type d = OpenaiChat) PROVIDER_CATALOG)"

definition fallback_candidate :: "routed_request \<Rightarrow> string \<Rightarrow> routed_request result" where
  "fallback_candidate routed ref =
     bind_result (parse_model_name ref) (\<lambda>model.
       Inr \<lparr>rr_request = (rr_request routed)\<lparr>rq_model := model\<rparr>,
            rr_resolved = \<lparr>rm_original_model = rm_original_model (rr_resolved routed), rm_provider_id = parse_provider_type ref,
              rm_provider_model = model, rm_provider_model_ref = ref,
              rm_thinking_enabled = rm_thinking_enabled (rr_resolved routed)\<rparr>\<rparr>)"

fun fallback_candidates :: "routed_request \<Rightarrow> string set \<Rightarrow> string list \<Rightarrow> routed_request result list" where
  "fallback_candidates routed seen [] = []"
| "fallback_candidates routed seen (ref # refs) =
     (if ref \<in> seen then fallback_candidates routed seen refs
      else fallback_candidate routed ref # fallback_candidates routed (insert ref seen) refs)"

text \<open>What the generator yields, in order; an element may be the exception it raises.\<close>

definition message_route_candidates :: "model_settings \<Rightarrow> routed_request \<Rightarrow> routed_request result list" where
  "message_route_candidates st routed =
     Inr routed # fallback_candidates routed {rm_provider_model_ref (rr_resolved routed)} (fallback_model_refs st)"

definition index_error :: exc where
  "index_error = plain_error OtherError ''IndexError'' ''list index out of range'' None"

fun select_route ::
  "rat \<Rightarrow> routed_request result list \<Rightarrow> string list \<Rightarrow> 'p registry \<Rightarrow> (exc + routed_request) \<times> 'p registry" where
  "select_route now [] unavailable r =
     (Inl (http_exception 503
        (''No configured provider route is currently available. Unavailable providers: '' @ py_join '', '' unavailable)), r)"
| "select_route now (Inl e # cs) unavailable r = (Inl index_error, r)"
| "select_route now (Inr c # cs) unavailable r =
     (let pid = rm_provider_id (rr_resolved c) in
      case provider_available now pid (rg_health r) of (available, d) \<Rightarrow>
        let r = r\<lparr>rg_health := d\<rparr> in
        if available then (Inr c, r) else select_route now cs (unavailable @ [pid]) r)"

subsection \<open>Creating a message\<close>

record 'p proxy =
  px_settings :: app_settings
  px_factories :: "'p factories"
  px_shortcuts :: shortcut_settings
  px_enable_web_server_tools :: bool
  px_preflight :: "'p \<Rightarrow> routed_request \<Rightarrow> exc option"   \<comment> \<open>what \<open>preflight_stream\<close> raises\<close>

datatype 'p answer =
    WebToolStream messages_request
  | Shortcut messages_response
  | ProviderStream 'p routed_request

text \<open>The body of the \<open>try\<close>.\<close>

definition create_message_body :: "'p proxy \<Rightarrow> rat \<Rightarrow> messages_request \<Rightarrow> 'p registry \<Rightarrow> (exc + 'p answer) \<times> 'p registry" where
  "create_message_body px now rq r =
     (let st = as_models (px_settings px) in
      if rq_messages rq = [] then (Inl (invalid_request_error ''messages cannot be empty'' None), r)
      else
        case resolve_messages_request st rq of
          Inl _ \<Rightarrow> (Inl index_error, r)
        | Inr routed \<Rightarrow>
            (case (if rm_provider_id (rr_resolved routed) \<in> set openai_chat_upstream_ids
                   then openai_chat_upstream_server_tool_error (rr_request routed) (px_enable_web_server_tools px) else None) of
               Some err \<Rightarrow> (Inl (invalid_request_error err None), r)
             | None \<Rightarrow>
                 if px_enable_web_server_tools px \<and> is_web_server_tool_request (rr_request routed)
                 then (Inr (WebToolStream (rr_request routed)), r)
                 else
                   (case try_optimizations (rr_request routed) (px_shortcuts px) of
                      Some resp \<Rightarrow> (Inr (Shortcut resp), r)
                    | None \<Rightarrow>
                        (case select_route now (message_route_candidates st routed) [] r of
                           (Inl e, r) \<Rightarrow> (Inl e, r)
                         | (Inr c, r) \<Rightarrow>
                             (case resolve_with_registry (px_factories px) (rm_provider_id (rr_resolved c)) (px_settings px) r of
                                (Inl e, r) \<Rightarrow> (Inl e, r)
                              | (Inr p, r) \<Rightarrow>
                                  (case px_preflight px p c of
                                     Some e \<Rightarrow> (Inl e, record_failure now (rm_provider_id (rr_resolved c)) e r)
                                   | None \<Rightarrow> (Inr (ProviderStream p c), r)))))))"

text \<open>The \<open>except\<close> clauses: a provider error goes through, any other exception becomes a 500.\<close>

definition service_exception :: "exc \<Rightarrow> exc" where
  "service_exception e =
     (if is_provider_error (ex_class e) then e else http_exception 500 (get_user_facing_error_message None e))"

definition create_message :: "'p proxy \<Rightarrow> rat \<Rightarrow> messages_request \<Rightarrow> 'p registry \<Rightarrow> (exc + 'p answer) \<times> 'p registry" where
  "create_message px now rq r =
     (case create_message_body px now rq r of
        (Inl e, r) \<Rightarrow> (Inl (service_exception e), r)
      | (Inr a, r) \<Rightarrow> (Inr a, r))"

subsection \<open>The health of a stream\<close>

definition chunk_has_provider_error :: "string \<Rightarrow> bool" where
  "chunk_has_provider_error chunk \<longleftrightarrow>
     py_in ''event: error'' chunk \<or> py_in (CHR 0x22 # ''type'' @ [CHR 0x22, CHR '':'', CHR 0x22] @ ''error'' @ [CHR 0x22]) chunk \<or>
     py_in (CHR 0x22 # ''type'' @ [CHR 0x22, CHR '':'', CHR '' '', CHR 0x22] @ ''error'' @ [CHR 0x22]) chunk"

text \<open>How the consumption of a stream ends; a consumer that goes away is not an \<open>Exception\<close>.\<close>

datatype stream_end = Exhausted | StreamRaised exc | ConsumerGone

definition stream_with_provider_health :: "rat \<Rightarrow> string \<Rightarrow> string list \<Rightarrow> stream_end \<Rightarrow> 'p registry \<Rightarrow> 'p registry" where
  "stream_with_provider_health now pid chunks fin r =
     (case fin of
        StreamRaised e \<Rightarrow> record_failure now pid e r
      | ConsumerGone \<Rightarrow> r
      | Exhausted \<Rightarrow>
          if \<exists>c \<in> set chunks. chunk_has_provider_error c
          then record_failure now pid (plain_error OtherError ''RuntimeError'' ''provider_error_sse'' None) r
          else record_success now pid r)"

subsection \<open>Requests go to providers whose circuit is closed\<close>

lemma available_iff:
  assumes "table_tracks fs now d" and "provider_available now pid d = (b, d')"
  shows "b = (\<not> open_failures (fs pid) now)" and "table_tracks fs now d'"
proof -
  obtain h d1 where h: "health_of pid d = (h, d1)" by force
  note t = table_tracks_health [OF assms(1), of pid, unfolded h, simplified]
  show "b = (\<not> open_failures (fs pid) now)" "table_tracks fs now d'"
    using assms(2) is_available_tracks [OF t(1)] t(2)
    by (auto simp: provider_available_def h table_tracks_same split: prod.splits)
qed

lemma circuit_open_iff: "circuit_closed pid es now = (\<not> open_failures (failures_since pid es []) now)"
  by (auto simp: circuit_closed_def open_failures_def split: list.split)

lemma select_route_Inr:
  assumes "table_tracks fs now (rg_health r)" and "select_route now cs un r = (Inr c, r')"
  shows "\<exists>pre post. cs = pre @ Inr c # post \<and> \<not> open_failures (fs (rm_provider_id (rr_resolved c))) now \<and>
    (\<forall>x \<in> set pre. \<exists>c'. x = Inr c' \<and> open_failures (fs (rm_provider_id (rr_resolved c'))) now)"
  using assms
proof (induction now cs un r rule: select_route.induct)
  case (3 now a cs un r)
  let ?pid = "rm_provider_id (rr_resolved a)"
  obtain b d where b: "provider_available now ?pid (rg_health r) = (b, d)" by force
  note av = available_iff [OF 3(2) b]
  show ?case
  proof (cases b)
    case True
    then have "c = a" using 3(3) b by (simp add: Let_def)
    then show ?thesis using av(1) True by (intro exI [of _ "[]"] exI [of _ cs]) auto
  next
    case False
    have "select_route now cs (un @ [?pid]) (r\<lparr>rg_health := d\<rparr>) = (Inr c, r')"
      using 3(3) b False by (simp add: Let_def)
    then obtain pre post where p: "cs = pre @ Inr c # post" "\<not> open_failures (fs (rm_provider_id (rr_resolved c))) now"
        "\<forall>x \<in> set pre. \<exists>c'. x = Inr c' \<and> open_failures (fs (rm_provider_id (rr_resolved c'))) now"
      using 3(1) [OF refl b [symmetric] refl False] av(2) by (auto simp: Let_def)
    then show ?thesis using av(1) False by (intro exI [of _ "Inr a # pre"] exI [of _ post]) auto
  qed
qed auto

lemma select_route_none:
  assumes "table_tracks fs now (rg_health r)"
    and "\<forall>x \<in> set cs. \<exists>c. x = Inr c \<and> open_failures (fs (rm_provider_id (rr_resolved c))) now"
  shows "\<exists>detail r'. select_route now cs un r = (Inl (http_exception 503 detail), r')"
  using assms
proof (induction now cs un r rule: select_route.induct)
  case (3 now a cs un r)
  let ?pid = "rm_provider_id (rr_resolved a)"
  obtain b d where b: "provider_available now ?pid (rg_health r) = (b, d)" by force
  note av = available_iff [OF 3(2) b]
  have "\<not> b" using av(1) 3(3) by simp
  then show ?case using 3(1) [OF refl b [symmetric] refl] av(2) 3(3) b by (auto simp: Let_def)
qed auto

text \<open>The request is not answered before routing.\<close>

definition reaches_routing :: "'p proxy \<Rightarrow> messages_request \<Rightarrow> routed_request \<Rightarrow> bool" where
  "reaches_routing px rq routed \<longleftrightarrow>
     rq_messages rq \<noteq> [] \<and> resolve_messages_request (as_models (px_settings px)) rq = Inr routed \<and>
     (rm_provider_id (rr_resolved routed) \<in> set openai_chat_upstream_ids \<longrightarrow>
        openai_chat_upstream_server_tool_error (rr_request routed) (px_enable_web_server_tools px) = None) \<and>
     \<not> (px_enable_web_server_tools px \<and> is_web_server_tool_request (rr_request routed)) \<and>
     try_optimizations (rr_request routed) (px_shortcuts px) = None"

lemma create_message_body_routing:
  assumes "reaches_routing px rq routed"
  shows "create_message_body px now rq r =
    (case select_route now (message_route_candidates (as_models (px_settings px)) routed) [] r of
       (Inl e, r) \<Rightarrow> (Inl e, r)
     | (Inr c, r) \<Rightarrow>
         (case resolve_with_registry (px_factories px) (rm_provider_id (rr_resolved c)) (px_settings px) r of
            (Inl e, r) \<Rightarrow> (Inl e, r)
          | (Inr p, r) \<Rightarrow>
              (case px_preflight px p c of
                 Some e \<Rightarrow> (Inl e, record_failure now (rm_provider_id (rr_resolved c)) e r)
               | None \<Rightarrow> (Inr (ProviderStream p c), r))))"
  using assms unfolding create_message_body_def reaches_routing_def Let_def by auto

lemma body_streams_routing:
  assumes "create_message_body px now rq r = (Inr (ProviderStream p c), r')"
  shows "\<exists>routed. reaches_routing px rq routed"
proof -
  have ne: "rq_messages rq \<noteq> []" using assms by (auto simp: create_message_body_def Let_def)
  show ?thesis
  proof (cases "resolve_messages_request (as_models (px_settings px)) rq")
    case (Inr routed)
    let ?err = "if rm_provider_id (rr_resolved routed) \<in> set openai_chat_upstream_ids
      then openai_chat_upstream_server_tool_error (rr_request routed) (px_enable_web_server_tools px) else None"
    have "?err = None" using assms ne Inr by (cases ?err) (simp_all add: create_message_body_def Let_def)
    moreover have "\<not> (px_enable_web_server_tools px \<and> is_web_server_tool_request (rr_request routed))"
      using assms ne Inr \<open>?err = None\<close> by (auto simp: create_message_body_def Let_def)
    moreover have "try_optimizations (rr_request routed) (px_shortcuts px) = None"
      using assms ne Inr calculation by (cases "try_optimizations (rr_request routed) (px_shortcuts px)")
        (auto simp: create_message_body_def Let_def)
    ultimately have "reaches_routing px rq routed"
      using ne Inr by (auto simp: reaches_routing_def split: if_splits)
    then show ?thesis by blast
  qed (use assms ne in \<open>simp add: create_message_body_def Let_def\<close>)
qed

lemma history_tracks:
  assumes "sorted (map event_time es @ [now])"
  shows "table_tracks (\<lambda>pid. failures_since pid es []) now (fold health_step es [])"
proof -
  have "\<exists>t0. sorted (t0 # map event_time es) \<and> (es = [] \<longrightarrow> t0 \<le> now)" using assms by (cases es) (auto simp: sorted_append)
  then obtain t0 where t0: "sorted (t0 # map event_time es)" "es = [] \<longrightarrow> t0 \<le> now" by blast
  have "table_tracks (\<lambda>_. []) t0 []" by (simp add: table_tracks_def)
  from health_run_tracks [OF this t0(1)] have "table_tracks (\<lambda>pid. failures_since pid es []) (last (t0 # map event_time es)) (fold health_step es [])" .
  moreover have "last (t0 # map event_time es) \<le> now" using assms t0(2)
    by (cases es rule: rev_cases) (auto simp: sorted_append)
  ultimately show ?thesis by (rule table_tracks_later)
qed

text \<open>C14. A request that is streamed goes to the first of its candidates, the configured route and then the
  fallbacks, whose provider's circuit is closed after the whole history of outcomes; all candidates
  before it have an open circuit.\<close>

theorem streams_to_first_available:
  assumes "rg_health r = fold health_step es []" and "sorted (map event_time es @ [now])"
    and "create_message px now rq r = (Inr (ProviderStream p c), r')"
  shows "\<exists>routed pre post. resolve_messages_request (as_models (px_settings px)) rq = Inr routed \<and>
    message_route_candidates (as_models (px_settings px)) routed = pre @ Inr c # post \<and>
    circuit_closed (rm_provider_id (rr_resolved c)) es now \<and>
    (\<forall>x \<in> set pre. \<exists>c'. x = Inr c' \<and> \<not> circuit_closed (rm_provider_id (rr_resolved c')) es now)"
proof -
  have body: "create_message_body px now rq r = (Inr (ProviderStream p c), r')"
    using assms(3) by (auto simp: create_message_def split: prod.splits sum.splits)
  obtain routed where routed: "reaches_routing px rq routed" using body_streams_routing [OF body] by blast
  let ?cs = "message_route_candidates (as_models (px_settings px)) routed"
  have "\<exists>r1. select_route now ?cs [] r = (Inr c, r1)"
    using body unfolding create_message_body_routing [OF routed] by (auto split: prod.splits sum.splits option.splits)
  then obtain r1 where sel: "select_route now ?cs [] r = (Inr c, r1)" by blast
  have "table_tracks (\<lambda>pid. failures_since pid es []) now (rg_health r)" using history_tracks [OF assms(2)] assms(1) by simp
  from select_route_Inr [OF this sel] show ?thesis
    using routed by (auto simp: circuit_open_iff reaches_routing_def)
qed

text \<open>When every candidate's circuit is open the service means to answer 503, but its own \<open>except\<close> clause
  turns that into a 500.\<close>

theorem no_route_answers_500:
  assumes "rg_health r = fold health_step es []" and "sorted (map event_time es @ [now])" and "reaches_routing px rq routed"
    and "\<forall>x \<in> set (message_route_candidates (as_models (px_settings px)) routed).
      \<exists>c. x = Inr c \<and> \<not> circuit_closed (rm_provider_id (rr_resolved c)) es now"
  shows "\<exists>detail shown r'. select_route now (message_route_candidates (as_models (px_settings px)) routed) [] r = (Inl (http_exception 503 detail), r') \<and>
    create_message px now rq r = (Inl (http_exception 500 shown), r')"
proof -
  have "table_tracks (\<lambda>pid. failures_since pid es []) now (rg_health r)" using history_tracks [OF assms(2)] assms(1) by simp
  from select_route_none [OF this] assms(4) obtain detail r' where
    sel: "select_route now (message_route_candidates (as_models (px_settings px)) routed) [] r = (Inl (http_exception 503 detail), r')"
    by (fastforce simp: circuit_open_iff)
  have "create_message_body px now rq r = (Inl (http_exception 503 detail), r')"
    unfolding create_message_body_routing [OF assms(3)] sel by simp
  then have "create_message px now rq r = (Inl (http_exception 500 (get_user_facing_error_message None (http_exception 503 detail))), r')"
    by (simp add: create_message_def service_exception_def http_exception_def plain_error_def is_provider_error_def)
  then show ?thesis using sel by blast
qed

definition demo_px :: "provider_config proxy" where
  "demo_px = \<lparr>px_settings = demo_app, px_factories = [(''deepseek'', Inr)],
     px_shortcuts = \<lparr>ss_fast_prefix_detection = False, ss_enable_network_probe_mock = False, ss_enable_title_generation_skip = False,
       ss_enable_suggestion_mode_skip = False, ss_enable_filepath_extraction_mock = False\<rparr>,
     px_enable_web_server_tools = False, px_preflight = (\<lambda>_ _. None)\<rparr>"

definition demo_rq :: messages_request where
  "demo_rq = \<lparr>rq_model = ''claude-x'', rq_max_tokens = None, rq_messages = [\<lparr>msg_role = ''user'', msg_content = JStr ''hi'', msg_reasoning_content = None\<rparr>],
     rq_system = None, rq_stop_sequences = None, rq_stream = None, rq_temperature = None, rq_top_p = None, rq_top_k = None,
     rq_metadata = None, rq_tools = None, rq_tool_choice = None, rq_thinking = None, rq_context_management = None,
     rq_output_config = None, rq_mcp_servers = None, rq_extra_body = None, rq_extra = []\<rparr>"

definition demo_routed :: routed_request where
  "demo_routed = \<lparr>rr_request = demo_rq\<lparr>rq_model := ''v4''\<rparr>, rr_resolved = \<lparr>rm_original_model = ''claude-x'', rm_provider_id = ''deepseek'',
     rm_provider_model = ''v4'', rm_provider_model_ref = ''deepseek/v4'', rm_thinking_enabled = True\<rparr>\<rparr>"

definition demo_fallback :: routed_request where
  "demo_fallback = \<lparr>rr_request = demo_rq\<lparr>rq_model := ''x''\<rparr>, rr_resolved = \<lparr>rm_original_model = ''claude-x'', rm_provider_id = ''groq'',
     rm_provider_model = ''x'', rm_provider_model_ref = ''groq/x'', rm_thinking_enabled = True\<rparr>\<rparr>"

lemma demo_resolves: "resolve_messages_request (as_models (px_settings demo_px)) demo_rq = Inr demo_routed"
  by (simp add: resolve_messages_request_def resolve_def demo_px_def demo_app_def demo_settings_def demo_raw_def demo_rq_def
      demo_routed_def direct_provider_model_def decode_gateway_model_id_def py_partition_def resolve_model_def resolve_thinking_def
      py_lower_def char_lower_def py_in_def parse_model_name_def parse_provider_type_def)

lemma demo_reaches: "reaches_routing demo_px demo_rq demo_routed"
  using demo_resolves
  by (simp add: reaches_routing_def demo_routed_def)
    (simp add: demo_rq_def demo_px_def try_optimizations_def try_quota_mock_def try_prefix_detection_def try_title_skip_def
      try_suggestion_skip_def try_filepath_mock_def openai_chat_upstream_ids_def PROVIDER_CATALOG_def catalog_first_def
      catalog_second_def catalog_local_def dict_keys_def)

lemma demo_candidates:
  "message_route_candidates (as_models (px_settings demo_px)) demo_routed = [Inr demo_routed, Inr demo_fallback]"
  by (simp add: message_route_candidates_def demo_px_def demo_app_def demo_settings_def demo_raw_def fallback_model_refs_def
      demo_routed_def demo_fallback_def fallback_candidate_def parse_model_name_def parse_provider_type_def demo_rq_def)

definition down :: exc where
  "down = plain_error HttpxConnectError ''ConnectError'' ''refused'' None"

theorem no_route_answers_500_witness:
  "\<exists>shown r'. create_message demo_px 10 demo_rq (registry_new\<lparr>rg_health := fold health_step
      [Failed 0 ''deepseek'' down, Failed 1 ''groq'' down, Failed 2 ''deepseek'' down, Failed 3 ''groq'' down] []\<rparr>) =
     (Inl (http_exception 500 shown), r')"
proof -
  let ?es = "[Failed 0 ''deepseek'' down, Failed 1 ''groq'' down, Failed 2 ''deepseek'' down, Failed 3 ''groq'' down]"
  have 1: "rg_health (registry_new\<lparr>rg_health := fold health_step ?es []\<rparr>) = fold health_step ?es []" by simp
  have 2: "sorted (map event_time ?es @ [10])" by simp
  have 3: "\<forall>x \<in> set (message_route_candidates (as_models (px_settings demo_px)) demo_routed).
      \<exists>c. x = Inr c \<and> \<not> circuit_closed (rm_provider_id (rr_resolved c)) ?es 10"
    unfolding demo_candidates by (simp add: demo_routed_def demo_fallback_def circuit_closed_def PROVIDER_CIRCUIT_COOLDOWN_SECONDS_def)
  from no_route_answers_500 [OF 1 2 demo_reaches 3] show ?thesis by blast
qed

text \<open>With the first provider down the fallback streams, when it has a factory and a key.\<close>

definition demo_px2 :: "provider_config proxy" where
  "demo_px2 = demo_px\<lparr>px_settings := demo_app\<lparr>as_attrs := [(''deepseek_api_key'', JStr ''sk''), (''groq_api_key'', JStr ''gsk'')]\<rparr>,
     px_factories := [(''deepseek'', Inr), (''groq'', Inr)]\<rparr>"

definition demo_groq_config :: provider_config where
  "demo_groq_config = \<lparr>pc_api_key = ''gsk'', pc_base_url = Some GROQ_DEFAULT_BASE, pc_rate_limit = 40, pc_rate_window = 60,
     pc_max_concurrency = 5, pc_http_read_timeout = 300, pc_http_write_timeout = 60, pc_http_connect_timeout = 10,
     pc_enable_thinking = True, pc_proxy = [], pc_log_raw_sse_events = False, pc_log_api_error_tracebacks = False\<rparr>"

lemma demo_groq: "\<exists>r'. resolve_with_registry (px_factories demo_px2) ''groq'' (px_settings demo_px2) (registry_new\<lparr>rg_health := d\<rparr>) = (Inr demo_groq_config, r')"
  by (simp add: resolve_with_registry_def registry_get_def registry_new_def create_provider_def demo_px2_def demo_px_def demo_app_def
      PROVIDER_CATALOG_def catalog_first_def catalog_second_def catalog_local_def build_provider_config_def credential_for_def
      require_credential_def string_attr_def or_str_def demo_groq_config_def demo_settings_def demo_raw_def GROQ_DEFAULT_BASE_def
      py_strip_def py_lstrip_def py_rstrip_def py_space_def Let_def)

lemma demo_same: "as_models (px_settings demo_px2) = as_models (px_settings demo_px)" "px_shortcuts demo_px2 = px_shortcuts demo_px"
  "px_enable_web_server_tools demo_px2 = px_enable_web_server_tools demo_px" "px_preflight demo_px2 = (\<lambda>_ _. None)"
  by (simp_all add: demo_px2_def demo_px_def demo_app_def)

lemma demo_reaches2: "reaches_routing demo_px2 demo_rq demo_routed"
  using demo_reaches unfolding reaches_routing_def demo_same .

lemma demo_select:
  "\<exists>d. select_route 10 [Inr demo_routed, Inr demo_fallback] []
     (registry_new\<lparr>rg_health := fold health_step [Failed 0 ''deepseek'' down, Failed 1 ''deepseek'' down] []\<rparr>) =
   (Inr demo_fallback, registry_new\<lparr>rg_health := d\<rparr>)"
  by (simp add: demo_routed_def demo_fallback_def provider_available_def record_provider_failure_def health_of_def health_new_def
      health_failure_def is_available_def dict_set_def registry_new_def PROVIDER_CIRCUIT_FAILURE_THRESHOLD_def
      PROVIDER_CIRCUIT_COOLDOWN_SECONDS_def Let_def)

theorem streams_to_first_available_witness:
  "\<exists>r'. create_message demo_px2 10 demo_rq
      (registry_new\<lparr>rg_health := fold health_step [Failed 0 ''deepseek'' down, Failed 1 ''deepseek'' down] []\<rparr>) =
     (Inr (ProviderStream demo_groq_config demo_fallback), r') \<and>
   circuit_closed ''groq'' [Failed 0 ''deepseek'' down, Failed 1 ''deepseek'' down] 10"
proof -
  let ?es = "[Failed 0 ''deepseek'' down, Failed 1 ''deepseek'' down]"
  let ?r = "registry_new\<lparr>rg_health := fold health_step ?es []\<rparr> :: provider_config registry"
  obtain d where d: "select_route 10 [Inr demo_routed, Inr demo_fallback] [] ?r = (Inr demo_fallback, registry_new\<lparr>rg_health := d\<rparr>)"
    using demo_select by blast
  obtain r' where r': "resolve_with_registry (px_factories demo_px2) ''groq'' (px_settings demo_px2) (registry_new\<lparr>rg_health := d\<rparr>) = (Inr demo_groq_config, r')"
    using demo_groq by blast
  have g: "rm_provider_id (rr_resolved demo_fallback) = ''groq''" by (simp add: demo_fallback_def)
  have "create_message_body demo_px2 10 demo_rq ?r = (Inr (ProviderStream demo_groq_config demo_fallback), r')"
    unfolding create_message_body_routing [OF demo_reaches2] demo_same demo_candidates d prod.case sum.case g r' by simp
  then have c: "create_message demo_px2 10 demo_rq ?r = (Inr (ProviderStream demo_groq_config demo_fallback), r')"
    by (simp add: create_message_def)
  have 1: "rg_health ?r = fold health_step ?es []" by simp
  have 2: "sorted (map event_time ?es @ [10])" by simp
  show ?thesis using streams_to_first_available [OF 1 2 c] c g by (metis (no_types, lifting))
qed

subsection \<open>The API key is the whole key\<close>

lemma prefix_before: "c \<notin> set p \<Longrightarrow> prefix p (a @ c # b) \<Longrightarrow> prefix p a"
  by (auto simp: prefix_append prefix_Cons)

lemma py_lower_append: "py_lower (a @ b) = py_lower a @ py_lower b"
  by (simp add: py_lower_def)

lemma bearer: "py_lower ''Bearer '' = ''bearer ''"
  by code_simp

lemma api_key_cases:
  "require_api_key [] headers = None"
  "tok \<noteq> [] \<Longrightarrow> require_api_key tok headers = None \<longleftrightarrow> map_option token_of_header (presented_header headers) = Some tok"
  "CHR '':'' \<notin> set tok \<Longrightarrow> \<not> py_startswith ''bearer '' (py_lower tok) \<Longrightarrow>
     token_of_header tok = tok \<and> token_of_header (tok @ '':'' @ m) = tok \<and> token_of_header (''Bearer '' @ tok) = tok"
  "CHR '':'' \<in> set tok \<Longrightarrow> require_api_key tok headers \<noteq> None"
proof -
  show "require_api_key [] headers = None" by (simp add: require_api_key_def)
  show "require_api_key tok headers = None \<longleftrightarrow> map_option token_of_header (presented_header headers) = Some tok" if "tok \<noteq> []"
    using that by (auto simp: require_api_key_def split: option.split)
  show "token_of_header tok = tok \<and> token_of_header (tok @ '':'' @ m) = tok \<and> token_of_header (''Bearer '' @ tok) = tok"
    if tok: "CHR '':'' \<notin> set tok" "\<not> py_startswith ''bearer '' (py_lower tok)"
  proof -
    have "char_lower (CHR '':'') = CHR '':''" by code_simp
    then have "\<not> py_startswith ''bearer '' (py_lower (tok @ '':'' @ m))"
      using tok(2) prefix_before [where c = "CHR '':''" and p = "''bearer ''" and a = "py_lower tok" and b = "py_lower m"]
      by (auto simp: py_startswith_def py_lower_def)
    moreover have "takeWhile (\<lambda>c. c \<noteq> CHR '':'') (tok @ CHR '':'' # m) = tok" using tok(1) by (induction tok) auto
    moreover have "py_startswith ''bearer '' (py_lower (''Bearer '' @ tok))"
      by (simp only: bearer py_startswith_def py_lower_append) simp
    moreover have "tl (dropWhile (\<lambda>c. c \<noteq> CHR '' '') (''Bearer '' @ tok)) = tok" by simp
    ultimately show ?thesis using tok by (simp add: token_of_header_def)
  qed
  show "require_api_key tok headers \<noteq> None" if "CHR '':'' \<in> set tok"
  proof -
    have "CHR '':'' \<notin> set (token_of_header h)" for h
      by (auto simp: token_of_header_def Let_def dest: set_takeWhileD)
    then have "token_of_header h \<noteq> tok" for h using that by metis
    moreover have "tok \<noteq> []" using that by auto
    ultimately show ?thesis by (auto simp: require_api_key_def split: option.split)
  qed
qed

text \<open>Without a configured token every request is let in; with one exactly those whose first non-empty
  header presents it.  A token can be presented plain, as a bearer token or with a model name after a
  colon, but one that itself holds a colon is never accepted.\<close>

theorem api_key_exact:
  "(tok = [] \<longrightarrow> require_api_key tok headers = None) \<and>
   (tok \<noteq> [] \<longrightarrow> (require_api_key tok headers = None) = (map_option token_of_header (presented_header headers) = Some tok)) \<and>
   (CHR '':'' \<notin> set tok \<and> \<not> py_startswith ''bearer '' (py_lower tok) \<longrightarrow>
      token_of_header tok = tok \<and> token_of_header (tok @ '':'' @ m) = tok \<and> token_of_header (''Bearer '' @ tok) = tok) \<and>
   (CHR '':'' \<in> set tok \<longrightarrow> require_api_key tok headers \<noteq> None)"
  apply (intro conjI)
     apply (rule impI, simp only: api_key_cases(1))
    apply (rule impI, erule api_key_cases(2))
   apply (rule impI, elim conjE, rule api_key_cases(3), assumption+)
  apply (rule impI, erule api_key_cases(4))
  done

theorem api_key_exact_witness:
  "token_of_header (''Bearer '' @ ''k'') = ''k'' \<and> require_api_key ''a:b'' [(''x-api-key'', ''a:b'')] \<noteq> None"
proof -
  have 1: "CHR '':'' \<notin> set ''k'' \<and> \<not> py_startswith ''bearer '' (py_lower ''k'')" by (simp add: py_startswith_def py_lower_def)
  have 2: "CHR '':'' \<in> set ''a:b''" by simp
  note k = api_key_exact [of "''k''" "[]" "[]", THEN conjunct2, THEN conjunct2, THEN conjunct1, THEN mp, OF 1]
  note ab = api_key_exact [of "''a:b''" "[(''x-api-key'', ''a:b'')]" "[]", THEN conjunct2, THEN conjunct2, THEN conjunct2, THEN mp, OF 2]
  show ?thesis by (rule conjI [OF k [THEN conjunct2, THEN conjunct2] ab])
qed

end
