(* ===== verification/ConvertTurns.thy ===== *)
theory ConvertTurns
  imports ConvertSound
begin

section \<open>Answered conversations: the tool-call protocol and the text\<close>

text \<open>
  A conversation is answered when each assistant message with tool calls is followed by the user
  message with their results.  The converted conversation then satisfies the rule of the chat API,
  checked by \<open>chat_run\<close>: after a message with calls come the tool messages for exactly these calls,
  before anything else; and for each role its text is what was said, in order, up to blanks and
  line breaks, which the joins insert.
\<close>

subsection \<open>The rule and the conversations\<close>

definition call_ids :: "jdict \<Rightarrow> json list" where
  "call_ids d = map (json_get_or ''id'' JNull) (dict_calls d)"

definition answered_id :: "jdict \<Rightarrow> json" where
  "answered_id d = (case dict_get ''tool_call_id'' d of None \<Rightarrow> JNull | Some v \<Rightarrow> v)"

text \<open>The ids still to be answered go through the messages.\<close>

fun chat_run :: "json list \<Rightarrow> jdict list \<Rightarrow> bool" where
  "chat_run awaited [] \<longleftrightarrow> awaited = []"
| "chat_run awaited (d # ds) \<longleftrightarrow>
     (if dict_role d = ''tool''
      then answered_id d \<in> set awaited \<and> chat_run (remove1 (answered_id d) awaited) ds
      else awaited = [] \<and> chat_run (call_ids d) ds)"

definition use_ids :: "message \<Rightarrow> json list" where
  "use_ids m = map (\<lambda>b. block_attr_or b ''id'' JNull) (tool_uses m)"

definition answer_ids :: "message \<Rightarrow> json list" where
  "answer_ids m = map (\<lambda>b. block_attr_or b ''tool_use_id'' JNull) (tool_results m)"

definition proper_id :: "json \<Rightarrow> bool" where
  "proper_id v = (case v of JStr s \<Rightarrow> py_strip s \<noteq> [] | _ \<Rightarrow> False)"

text \<open>The results come first, one for each call, and the calls have distinct ids that are not blank.\<close>

definition answers :: "message \<Rightarrow> message \<Rightarrow> bool" where
  "answers m u \<longleftrightarrow> msg_role u = ''user'' \<and>
     takeWhile (block_type_is ''tool_result'') (blocks_of ''user'' u) = tool_results u \<and>
     distinct (use_ids m) \<and> list_all proper_id (use_ids m) \<and>
     distinct (answer_ids u) \<and> set (answer_ids u) = set (use_ids m)"

fun answered :: "message list \<Rightarrow> bool" where
  "answered [] \<longleftrightarrow> True"
| "answered (m # ms) \<longleftrightarrow>
     (if tool_uses m = [] then tool_results m = [] \<and> answered ms
      else (case ms of [] \<Rightarrow> False | u # rest \<Rightarrow> answers m u \<and> answered rest))"

subsection \<open>One exchange\<close>

lemma inject_no_results:
  "filter (block_type_is ''tool_result'') bs = [] \<Longrightarrow>
     inject_blocks env bs ts p cl = bind_result (user_blocks env bs ts) (\<lambda>out. Inr (out, p, cl))"
  by (induction bs arbitrary: ts) (auto split: if_split_asm)

lemma user_blocks_results:
  "list_all (block_type_is ''tool_result'') rs \<Longrightarrow>
     user_blocks env (rs @ bs) [] = bind_result (user_blocks env bs []) (\<lambda>out. Inr (map (tool_message env) rs @ out))"
proof (induction rs)
  case Nil
  then show ?case by (cases "user_blocks env bs []") simp_all
next
  case (Cons r rs)
  then have "block_type_is ''tool_result'' r" by simp
  then have "\<not> block_type_is ''text'' r" "\<not> block_type_is ''image'' r" by (auto dest: block_type_unique)
  then show ?case using Cons by (cases "user_blocks env bs []") (simp_all add: flush_text_def)
qed

lemma inject_results:
  assumes "list_all (block_type_is ''tool_result'') rs" and "rs \<noteq> []" and "distinct (map (result_id env) rs)"
    and "set (map (result_id env) rs) = pa_remaining_tool_ids p" and "filter (block_type_is ''tool_result'') bs = []"
    and "inject_blocks env (rs @ bs) [] p cl = Inr (out, p', cl')"
  shows "cl' \<and> (\<exists>d t. deferred_post_tool_to_messages env p = Inr d \<and> user_blocks env bs [] = Inr t \<and>
    out = map (tool_message env) rs @ d @ t)"
  using assms
proof (induction rs arbitrary: p cl out)
  case (Cons r rs)
  then have r: "block_type_is ''tool_result'' r" by simp
  then have n: "\<not> block_type_is ''text'' r" "\<not> block_type_is ''image'' r" by (auto dest: block_type_unique)
  let ?p = "p\<lparr>pa_remaining_tool_ids := pa_remaining_tool_ids p - {result_id env r}\<rparr>"
  have rem: "pa_remaining_tool_ids ?p = set (map (result_id env) rs)"
  proof -
    have "result_id env r \<notin> set (map (result_id env) rs)" using Cons.prems(3) by simp
    moreover have "pa_remaining_tool_ids p = insert (result_id env r) (set (map (result_id env) rs))"
      using Cons.prems(4) by simp
    ultimately show ?thesis by (simp only: pending_after_tools.simps Diff_insert_absorb) simp
  qed
  have same: "deferred_post_tool_to_messages env ?p = deferred_post_tool_to_messages env p"
    by (simp add: deferred_post_tool_to_messages_def)
  show ?case
  proof (cases "rs = []")
    case True
    then show ?thesis using Cons.prems(5,6) r n rem same
      by (auto simp: Let_def flush_text_def inject_no_results)
  next
    case False
    then have "pa_remaining_tool_ids ?p \<noteq> {}" using rem by simp
    then obtain o1 where o1: "inject_blocks env (rs @ bs) [] ?p cl = Inr (o1, p', cl')" "out = tool_message env r # o1"
      using Cons.prems(6) r n by (auto simp: Let_def flush_text_def)
    have "cl' \<and> (\<exists>d t. deferred_post_tool_to_messages env ?p = Inr d \<and> user_blocks env bs [] = Inr t \<and>
      o1 = map (tool_message env) rs @ d @ t)"
      using Cons.IH [OF _ False _ _ Cons.prems(5) o1(1)] Cons.prems(1,3) rem by simp
    then show ?thesis using o1(2) same by auto
  qed
qed simp

text \<open>A user's results split off the front.\<close>

lemma answers_split:
  assumes "answers m u"
  obtains bs where "blocks_of ''user'' u = tool_results u @ bs" and "filter (block_type_is ''tool_result'') bs = []"
    and "list_all (block_type_is ''tool_result'') (tool_results u)"
proof -
  let ?us = "blocks_of ''user'' u" and ?P = "block_type_is ''tool_result''"
  have t: "takeWhile ?P ?us = filter ?P ?us" using assms by (simp add: answers_def tool_results_def)
  have "filter ?P ?us = filter ?P (takeWhile ?P ?us) @ filter ?P (dropWhile ?P ?us)"
    by (metis filter_append takeWhile_dropWhile_id)
  moreover have "filter ?P (takeWhile ?P ?us) = takeWhile ?P ?us" by (auto simp: filter_id_conv dest: set_takeWhileD)
  ultimately have "filter ?P (dropWhile ?P ?us) = []" using t by simp
  moreover have "?us = tool_results u @ dropWhile ?P ?us" using t by (simp add: tool_results_def) (metis takeWhile_dropWhile_id)
  ultimately show thesis using that by (simp add: tool_results_def list_all_iff)
qed

subsection \<open>What one message and one exchange become\<close>

text \<open>The blocks kept back in a pending state that replays nothing yet.\<close>

lemma index_first_Some: "tool_uses m \<noteq> [] \<Longrightarrow> \<exists>i. index_first_tool_use (blocks_of ''assistant'' m) = Some i"
proof -
  have "filter (block_type_is ''tool_use'') bs \<noteq> [] \<Longrightarrow> \<exists>i. index_first_tool_use bs = Some i" for bs
    by (induction bs) (auto split: if_split_asm)
  then show "tool_uses m \<noteq> [] \<Longrightarrow> ?thesis" by (simp add: tool_uses_def)
qed

lemma replay_None: "replay_deferred env None = Inr ([], None)"
  by (simp add: replay_deferred_def waits_def)

text \<open>Without a pending state and without tool calls nothing becomes pending.\<close>

lemma convert_step_plain:
  assumes "convert_step env rp m None = Inr (out, pending')" and "known_role m" and "tool_uses m = []"
  shows "pending' = None"
proof (rule convert_step_cases [OF assms(1,2)])
  fix bs o1 p1 o2
  assume a: "msg_content m = JList bs" "msg_role m = ''assistant''" "replay_deferred env None = Inr (o1, p1)"
    "convert_assistant_list env rp bs (clean_reasoning_content (msg_reasoning_content m)) p1 = Inr (o2, pending')"
  have n: "p1 = None" using a(3) by (simp add: replay_None)
  have f: "filter (block_type_is ''tool_use'') bs = []" using assms(3) a(1,2) by (simp add: tool_uses_def blocks_of_def)
  have "index_first_tool_use bs = None" using f by (induction bs) (simp_all split: if_split_asm)
  then show ?thesis using a(4) n by (auto simp: convert_assistant_list_def)
next
  fix bs
  assume "convert_user_list env bs None = Inr (out, pending')"
  then show ?thesis by (auto simp: convert_user_list_def waits_def)
next
  fix o1 d
  assume "(if msg_role m = ''user'' then replay_deferred env None else Inr ([], None)) = Inr (o1, pending')"
  then show ?thesis by (simp add: replay_None split: if_split_asm)
qed

lemma tool_uses_assistant: "tool_uses m \<noteq> [] \<Longrightarrow> msg_role m = ''assistant'' \<and> msg_content m = JList (blocks_of ''assistant'' m)"
  by (cases "msg_role m = ''assistant''"; cases "msg_content m"; simp add: tool_uses_def blocks_of_def)

lemma convert_step_calls:
  assumes "convert_step env rp m None = Inr (out, pending)" and "tool_uses m \<noteq> []"
  obtains i d fresh where "index_first_tool_use (blocks_of ''assistant'' m) = Some i"
    and "convert_assistant_message_with_split env (blocks_of ''assistant'' m) i
           (clean_reasoning_content (msg_reasoning_content m)) rp = Inr ([d], fresh)"
    and "out = [d]" and "pending = fresh"
proof -
  obtain i where i: "index_first_tool_use (blocks_of ''assistant'' m) = Some i" using index_first_Some [OF assms(2)] by blast
  obtain fresh where s: "convert_assistant_message_with_split env (blocks_of ''assistant'' m) i
      (clean_reasoning_content (msg_reasoning_content m)) rp = Inr (out, fresh)"
    "pending = (case fresh of None \<Rightarrow> None | Some p \<Rightarrow> Some p)"
    using assms(1) tool_uses_assistant [OF assms(2)] i
    by (auto simp: convert_step_def Let_def replay_None convert_assistant_list_def)
  obtain d where "out = [d]" using split_shape [OF s(1) i] by blast
  then show thesis using that [OF i] s by (cases fresh) simp_all
qed

lemma py_str_proper_ids: "list_all proper_id vs \<Longrightarrow> set (filter (\<lambda>t. py_strip t \<noteq> []) (map (py_str repr) (filter (\<lambda>v. v \<noteq> JNull) vs))) = py_str repr ` set vs"
  by (induction vs) (auto simp: proper_id_def py_str_def split: json.splits)

lemma awaited_use_ids:
  assumes "list_all proper_id (use_ids m)"
  shows "awaited_ids env (iter_tool_uses_in_order env (blocks_of ''assistant'' m)) = py_str (te_repr env) ` set (use_ids m)"
proof -
  have "map (json_get_or ''id'' JNull) (iter_tool_uses_in_order env (blocks_of ''assistant'' m)) = use_ids m"
    by (simp add: iter_tool_uses_in_order_def use_ids_def tool_uses_def tool_call_def json_get_or_def Let_def)
  then show ?thesis using py_str_proper_ids [OF assms, of "te_repr env"] by (simp only: awaited_ids_def)
qed

lemma proper_inj: "proper_id v \<Longrightarrow> proper_id w \<Longrightarrow> py_str repr v = py_str repr w \<Longrightarrow> v = w"
  by (auto simp: proper_id_def py_str_def split: json.splits)

lemma result_id_answer: "proper_id (block_attr_or b ''tool_use_id'' JNull) \<Longrightarrow>
    result_id env b = py_str (te_repr env) (block_attr_or b ''tool_use_id'' JNull)"
  by (cases "block_attr_or b ''tool_use_id'' JNull") (simp_all add: result_id_def proper_id_def)

lemma answers_ids:
  assumes "answers m u"
  shows "distinct (map (result_id env) (tool_results u))"
    and "set (map (result_id env) (tool_results u)) = py_str (te_repr env) ` set (use_ids m)"
proof -
  have p: "list_all proper_id (answer_ids u)" using assms by (simp add: answers_def list_all_iff)
  have m: "map (result_id env) (tool_results u) = map (py_str (te_repr env)) (answer_ids u)"
    using p by (simp add: answer_ids_def result_id_answer list_all_iff)
  have "inj_on (py_str (te_repr env)) (set (answer_ids u))"
    using p proper_inj by (intro inj_onI) (auto simp: list_all_iff)
  then show "distinct (map (result_id env) (tool_results u))" using assms m by (simp add: answers_def distinct_map)
  show "set (map (result_id env) (tool_results u)) = py_str (te_repr env) ` set (use_ids m)"
    using assms m by (simp add: answers_def)
qed

lemma convert_step_user:
  assumes "answers m u" and "tool_uses m \<noteq> []"
  shows "convert_step env rp u pending = convert_user_list env (blocks_of ''user'' u) pending"
proof -
  have "set (answer_ids u) \<noteq> {}" using assms by (simp add: answers_def use_ids_def)
  then have "blocks_of ''user'' u \<noteq> []" by (auto simp: answer_ids_def tool_results_def)
  moreover have "msg_role u = ''user''" using assms(1) by (simp add: answers_def)
  ultimately have "msg_content u = JList (blocks_of ''user'' u)"
    by (cases "msg_content u") (simp_all add: blocks_of_def)
  then show ?thesis using \<open>msg_role u = ''user''\<close> by (simp add: convert_step_def Let_def)
qed

lemma exchange:
  assumes m: "convert_step env rp m None = Inr (o1, p1)" and u: "convert_step env rp u p1 = Inr (o2, p2)"
    and uses: "tool_uses m \<noteq> []" and ans: "answers m u"
  obtains d q t bs where "o1 = [d]" and "dict_role d = ''assistant''" and "dict_calls d = map (tool_call env) (tool_uses m)"
    and "o2 = map (tool_message env) (tool_results u) @ q @ t" and "p2 = None"
    and "case p1 of None \<Rightarrow> q = [] | Some p \<Rightarrow> deferred_post_tool_to_messages env p = Inr q"
    and "blocks_of ''user'' u = tool_results u @ bs" and "filter (block_type_is ''tool_result'') bs = []"
    and "user_blocks env bs [] = Inr t"
proof -
  obtain i d where i: "index_first_tool_use (blocks_of ''assistant'' m) = Some i"
    and s: "convert_assistant_message_with_split env (blocks_of ''assistant'' m) i
           (clean_reasoning_content (msg_reasoning_content m)) rp = Inr ([d], p1)" and o1: "o1 = [d]"
    using convert_step_calls [OF m uses] by metis
  have d: "dict_role d = ''assistant''" "dict_calls d = map (tool_call env) (tool_uses m)"
    using split_shape [OF s i] by (simp_all add: iter_tool_uses_in_order_def tool_uses_def)
  obtain bs where bs: "blocks_of ''user'' u = tool_results u @ bs" "filter (block_type_is ''tool_result'') bs = []"
    "list_all (block_type_is ''tool_result'') (tool_results u)" by (rule answers_split [OF ans])
  have step: "convert_user_list env (tool_results u @ bs) p1 = Inr (o2, p2)"
    using u convert_step_user [OF ans uses, of env rp p1] bs(1) by simp
  have ids: "use_ids m \<noteq> []" using uses by (simp add: use_ids_def)
  show thesis
  proof (cases p1)
    case None
    then obtain t where "user_blocks env bs [] = Inr t" "o2 = map (tool_message env) (tool_results u) @ [] @ t" "p2 = None"
      using step user_blocks_results [OF bs(3), of env bs] by (auto simp: convert_user_list_def waits_def convert_user_message_def)
    then show thesis using that [OF o1 d _ _ _ bs(1,2)] None by simp
  next
    case (Some p)
    have p: "p = \<lparr>pa_remaining_tool_ids = awaited_ids env (iter_tool_uses_in_order env (blocks_of ''assistant'' m)),
        pa_deferred_blocks = deferred_post_tool_blocks (blocks_of ''assistant'' m) i,
        pa_top_level_reasoning = clean_reasoning_content (msg_reasoning_content m), pa_reasoning_replay = rp,
        pa_deferred_emitted = False\<rparr>" "deferred_post_tool_blocks (blocks_of ''assistant'' m) i \<noteq> []"
      using split_shape [OF s i] Some by simp_all
    have rem: "pa_remaining_tool_ids p = py_str (te_repr env) ` set (use_ids m)"
      using awaited_use_ids [of m env] ans p(1) by (simp add: answers_def)
    have ne: "pa_remaining_tool_ids p \<noteq> {}" using rem ids by simp
    have w: "waits p1" "needs_deferred p" using Some p by (simp_all add: waits_def needs_deferred_def)
    obtain p' cl where inj: "inject_blocks env (tool_results u @ bs) [] p False = Inr (o2, p', cl)" "p2 = (if cl then None else Some p')"
      using step w ne Some by (auto simp: convert_user_list_def convert_user_message_with_injection_def)
    have rs: "tool_results u \<noteq> []" using answers_ids(2) [OF ans, of env] ids by force
    have "cl \<and> (\<exists>d t. deferred_post_tool_to_messages env p = Inr d \<and> user_blocks env bs [] = Inr t \<and>
        o2 = map (tool_message env) (tool_results u) @ d @ t)"
      by (rule inject_results [OF bs(3) rs answers_ids(1) [OF ans] _ bs(2) inj(1)])
        (simp only: answers_ids(2) [OF ans] rem)
    then obtain q t where "deferred_post_tool_to_messages env p = Inr q" "user_blocks env bs [] = Inr t"
      "o2 = map (tool_message env) (tool_results u) @ q @ t" "cl" by blast
    then show thesis using that [OF o1 d _ _ _ bs(1,2)] Some inj(2) by simp
  qed
qed

subsection \<open>The protocol\<close>

lemma chat_run_plain:
  "\<forall>d \<in> set a. plain_message d \<Longrightarrow> chat_run [] (a @ b) = chat_run [] b"
  by (induction a) (auto simp: plain_message_def call_ids_def)

lemma chat_run_results:
  "distinct (map answered_id a) \<Longrightarrow> \<forall>d \<in> set a. dict_role d = ''tool'' \<Longrightarrow>
     distinct awaited \<Longrightarrow> set awaited = set (map answered_id a) \<Longrightarrow> chat_run awaited (a @ b) = chat_run [] b"
proof (induction a arbitrary: awaited)
  case (Cons d a)
  have n: "answered_id d \<notin> set (map answered_id a)" using Cons.prems(1) by simp
  have "set (remove1 (answered_id d) awaited) = set (map answered_id a)"
    using Cons.prems(3,4) n by (simp only: set_remove1_eq list.set list.map Diff_insert_absorb not_False_eq_True)
  then have "chat_run (remove1 (answered_id d) awaited) (a @ b) = chat_run [] b"
    using Cons by simp
  then show ?case using Cons.prems(2,4) by simp
qed simp

lemma plain_from_in:
  assumes "calls_in out = []" and "results_in out = []"
  shows "\<forall>d \<in> set out. plain_message d"
  using assms by (induction out) (auto simp: plain_message_def split: if_split_asm)

lemma tool_message_id: "answered_id (tool_message env b) = block_attr_or b ''tool_use_id'' JNull"
  by (simp add: answered_id_def tool_message_def)

lemma tool_call_id: "json_get_or ''id'' JNull (tool_call env b) = block_attr_or b ''id'' JNull"
  by (simp add: json_get_or_def tool_call_def Let_def)

lemma exchange_protocol:
  assumes "convert_step env rp m None = Inr (o1, p1)" and "convert_step env rp u p1 = Inr (o2, p2)"
    and "tool_uses m \<noteq> []" and "answers m u"
  shows "p2 = None \<and> chat_run [] (o1 @ o2 @ rest) = chat_run [] rest"
proof (rule exchange [OF assms])
  fix d q t bs
  assume a: "o1 = [d]" "dict_role d = ''assistant''" "dict_calls d = map (tool_call env) (tool_uses m)"
    "o2 = map (tool_message env) (tool_results u) @ q @ t" "p2 = None"
    "case p1 of None \<Rightarrow> q = [] | Some p \<Rightarrow> deferred_post_tool_to_messages env p = Inr q"
    "filter (block_type_is ''tool_result'') bs = []" "user_blocks env bs [] = Inr t"
  have "no_tool_use p1"
  proof (rule convert_step_calls [OF assms(1,3)])
    fix i d' fresh
    assume b: "index_first_tool_use (blocks_of ''assistant'' m) = Some i"
      "convert_assistant_message_with_split env (blocks_of ''assistant'' m) i
           (clean_reasoning_content (msg_reasoning_content m)) rp = Inr ([d'], fresh)" "p1 = fresh"
    show ?thesis using split_shape [OF b(2,1)] b(3) deferred_no_tool_use by (auto simp: no_tool_use_def split: option.splits)
  qed
  then have "calls_in q = [] \<and> results_in q = []"
    using a(6) deferred_in [of env _ q] by (auto simp: no_tool_use_def split: option.splits)
  moreover have "calls_in t = [] \<and> results_in t = []" using user_blocks_in [OF a(8)] a(7) by simp
  ultimately have plain: "\<forall>d \<in> set (q @ t). plain_message d" by (intro plain_from_in) simp_all
  have ids: "call_ids d = use_ids m" by (simp add: call_ids_def a(3) use_ids_def tool_call_id)
  have ans: "map answered_id (map (tool_message env) (tool_results u)) = answer_ids u"
    by (simp add: answer_ids_def tool_message_id)
  have "chat_run (use_ids m) (map (tool_message env) (tool_results u) @ (q @ t @ rest)) = chat_run [] (q @ t @ rest)"
    by (rule chat_run_results) (use assms(4) ans in \<open>simp_all add: answers_def tool_message_shape del: map_map\<close>)
  then show ?thesis using a(1,2,4,5) ids chat_run_plain [OF plain, of rest] by simp
qed

lemma convert_loop_protocol:
  "convert_loop env rp ms None = Inr out \<Longrightarrow> \<forall>m \<in> set ms. known_role m \<Longrightarrow> answered ms \<Longrightarrow> chat_run [] out"
proof (induction ms arbitrary: out rule: answered.induct)
  case 1
  then show ?case by (simp add: replay_None)
next
  case (2 m ms)
  obtain o1 p1 o2 where o: "convert_step env rp m None = Inr (o1, p1)" "convert_loop env rp ms p1 = Inr o2" "out = o1 @ o2"
    using "2.prems"(1) by auto
  show ?case
  proof (cases "tool_uses m = []")
    case True
    then have r: "tool_results m = []" "answered ms" using "2.prems"(3) by simp_all
    have p: "p1 = None" using convert_step_plain [OF o(1)] "2.prems"(2) True by simp
    have "calls_in o1 = [] \<and> results_in o1 = []"
      using convert_step_in [OF o(1)] "2.prems"(2) True r(1) by (simp add: no_tool_use_def)
    then have "chat_run [] out = chat_run [] o2" using o(3) chat_run_plain plain_from_in by blast
    then show ?thesis using "2.IH"(1) [OF True] o(2) p "2.prems"(2) r(2) by simp
  next
    case False
    then obtain u rest where ms: "ms = u # rest" "answers m u" "answered rest" using "2.prems"(3) by (auto split: list.splits)
    obtain o3 p3 o4 where u: "convert_step env rp u p1 = Inr (o3, p3)" "convert_loop env rp rest p3 = Inr o4" "o2 = o3 @ o4"
      using o(2) ms(1) by auto
    have "p3 = None \<and> chat_run [] (o1 @ o3 @ o4) = chat_run [] o4"
      by (rule exchange_protocol [OF o(1) u(1) False ms(2)])
    then show ?thesis using "2.IH"(2) [OF False ms(1)] u o(3) "2.prems"(2) ms by simp
  qed
qed

text \<open>C6. In the conversion of an answered conversation every message with tool calls is followed at
  once by one tool message for each of its calls, and there are no other tool messages: the rule the
  chat API enforces.  Text that followed a call in the Anthropic message is moved behind the results.\<close>

theorem conversion_follows_protocol:
  assumes "convert_messages env replay ms = Inr out" and "\<forall>m \<in> set ms. known_role m" and "answered ms"
  shows "chat_run [] out"
  using convert_loop_protocol [of env replay ms out] assms by (simp add: convert_messages_def)

subsection \<open>The text\<close>

definition squash :: "string \<Rightarrow> string" where
  "squash s = filter (\<lambda>c. c \<noteq> CHR 0x0A \<and> c \<noteq> CHR '' '') s"

definition content_of :: "jdict \<Rightarrow> string" where
  "content_of d = (case dict_get ''content'' d of Some (JStr s) \<Rightarrow> s | _ \<Rightarrow> [])"

definition said :: "string \<Rightarrow> jdict list \<Rightarrow> string" where
  "said role out = concat (map (\<lambda>d. if dict_role d = role then squash (content_of d) else []) out)"

definition thinking_of_block :: "json \<Rightarrow> string" where
  "thinking_of_block b = (case get_block_attr b ''thinking'' of Some (JStr t) \<Rightarrow> t | _ \<Rightarrow> [])"

text \<open>What a block says: its text, and an assistant's thinking where it is replayed in tags.\<close>

definition block_words :: "replay_mode \<Rightarrow> json \<Rightarrow> string" where
  "block_words rp b =
     (if block_type_is ''text'' b then text_of_block b
      else if block_type_is ''thinking'' b \<and> rp = THINK_TAGS then think_tag_content (thinking_of_block b)
      else [])"

definition words :: "string \<Rightarrow> replay_mode \<Rightarrow> message \<Rightarrow> string" where
  "words role rp m =
     (if msg_role m \<noteq> role then []
      else case msg_content m of
        JStr s \<Rightarrow>
          (if role = ''assistant'' \<and> rp = THINK_TAGS \<and> truthy_str (msg_reasoning_content m)
           then think_tag_content (the (msg_reasoning_content m)) else []) @ s
      | JList bs \<Rightarrow> concat (map (block_words (if role = ''assistant'' then rp else DISABLED)) bs)
      | _ \<Rightarrow> [])"

lemma squash_simps [simp]: "squash [] = []" "squash (a @ b) = squash a @ squash b" "squash '' '' = []" "squash LFLF = []" "squash LFs = []"
  by (simp_all add: squash_def LFLF_def LFs_def)

lemma squash_join: "squash sep = [] \<Longrightarrow> squash (py_join sep ss) = squash (concat ss)"
  by (induction sep ss rule: py_join.induct) simp_all

lemma said_simps [simp]: "said r [] = []" "said r (a @ b) = said r a @ said r b"
  "said r (d # b) = (if dict_role d = r then squash (content_of d) else []) @ said r b"
  by (simp_all add: said_def)

lemma join_values_words: "join_values sep c = Inr t \<Longrightarrow> squash sep = [] \<Longrightarrow>
    \<exists>ss. all_strings c = Some ss \<and> squash t = squash (concat ss)"
  by (auto simp: join_values_def squash_join split: option.splits)

lemma text_attr: "block_attr_or b ''text'' (JStr []) = JStr s \<Longrightarrow> text_of_block b = s"
  by (auto simp: block_attr_or_def text_of_block_def split: option.splits)

lemma thinking_attr: "block_attr_or b ''thinking'' (JStr []) = JStr s \<Longrightarrow> thinking_of_block b = s"
  by (auto simp: block_attr_or_def thinking_of_block_def split: option.splits)

lemma assistant_block_words:
  assumes "assistant_block env r rp b = Inr (c, t, u)" and "typed_block b"
  shows "all_strings c = Some (if block_words rp b = [] \<and> c = [] then [] else [block_words rp b])"
proof -
  consider (words) "block_type_is ''text'' b" | (thinking) "block_type_is ''thinking'' b"
    | (rest) "\<not> block_type_is ''text'' b" "\<not> block_type_is ''thinking'' b" by blast
  then show ?thesis
  proof cases
    case words
    then obtain s where "block_attr_or b ''text'' (JStr []) = JStr s"
      using assms(2) has_string_attr [of "''text''" b "JStr []"] by (auto simp: typed_block_def)
    then show ?thesis using words assms(1) text_attr by (auto simp: assistant_block_def block_words_def)
  next
    case thinking
    then obtain s where "block_attr_or b ''thinking'' (JStr []) = JStr s"
      using assms(2) has_string_attr [of "''thinking''" b "JStr []"] by (auto simp: typed_block_def)
    then show ?thesis using thinking assms(1) thinking_attr block_type_other [OF thinking, of "''text''"]
      by (cases rp) (auto simp: assistant_block_def block_words_def Let_def py_str_def)
  next
    case rest
    then show ?thesis using assms(1)
      by (auto simp: assistant_block_def block_words_def split: if_split_asm)
  qed
qed

lemma assistant_blocks_words:
  "assistant_blocks env r rp bs = Inr (c, t, u) \<Longrightarrow> list_all typed_block bs \<Longrightarrow>
     \<exists>ss. all_strings c = Some ss \<and> concat ss = concat (map (block_words rp) bs)"
proof (induction bs arbitrary: c t u)
  case (Cons b bs)
  then obtain c1 t1 u1 c2 t2 u2 where b: "assistant_block env r rp b = Inr (c1, t1, u1)"
    "assistant_blocks env r rp bs = Inr (c2, t2, u2)" "c = c1 @ c2" by auto
  obtain ss where "all_strings c2 = Some ss" "concat ss = concat (map (block_words rp) bs)"
    using Cons.IH [OF b(2)] Cons.prems(2) by auto
  then show ?case using assistant_block_words [OF b(1)] Cons.prems(2) b(3) by (simp add: all_strings_append)
qed simp

lemma convert_assistant_words:
  assumes "convert_assistant_message env bs r rp = Inr out" and "list_all typed_block bs"
  shows "said ''assistant'' out = squash (concat (map (block_words rp) bs)) \<and> said ''user'' out = []"
proof -
  obtain c t u s where u: "assistant_blocks env r rp bs = Inr (c, t, u)" and j: "join_values LFLF c = Inr s"
    and out: "(let content_str = (if s = [] \<and> u = [] then '' '' else s);
             msg = [(''role'', JStr ''assistant''), (''content'', JStr content_str)];
             msg = (if u \<noteq> [] then dict_set ''tool_calls'' (JList u) msg else msg)
         in if rp = REASONING_CONTENT
            then bind_result (case r of
                                Some r \<Rightarrow> if r \<noteq> [] then Inr r else join_values LFs t
                              | None \<Rightarrow> join_values LFs t) (\<lambda>r.
                   Inr [if r \<noteq> [] then dict_set ''reasoning_content'' (JStr r) msg else msg])
            else Inr [msg]) = Inr out"
    using assms(1) by (auto simp: convert_assistant_message_def)
  have s: "squash s = squash (concat (map (block_words rp) bs))"
    using join_values_words [OF j] assistant_blocks_words [OF u assms(2)] by auto
  have "\<exists>d. out = [d] \<and> content_of d = (if s = [] \<and> u = [] then '' '' else s)"
    using out unfolding Let_def bind_result_case
    by (simp add: content_of_def split: if_split_asm sum.split_asm) auto
  then obtain d where d: "out = [d]" "content_of d = (if s = [] \<and> u = [] then '' '' else s)" by blast
  moreover have "dict_role d = ''assistant''" using convert_assistant_shape [OF assms(1)] d(1) by auto
  ultimately show ?thesis using s by auto
qed

lemma content_of_set [simp]:
  "content_of (dict_set ''tool_calls'' v d) = content_of d"
  "content_of (dict_set ''content'' (JStr s) d) = s"
  by (simp_all add: content_of_def)

lemma first_tool_use_split:
  "index_first_tool_use bs = Some i \<Longrightarrow> \<exists>b. bs = take i bs @ b # drop (Suc i) bs \<and> block_type_is ''tool_use'' b"
  by (induction bs arbitrary: i) (auto split: if_split_asm)

lemma words_deferred:
  "concat (map (block_words rp) (filter (\<lambda>b. \<not> block_type_is ''tool_use'' b) bs)) = concat (map (block_words rp) bs)"
  by (induction bs) (auto simp: block_words_def dest: block_type_unique)

lemma split_words:
  assumes "convert_assistant_message_with_split env bs i r rp = Inr ([d], fresh)" and i: "index_first_tool_use bs = Some i"
    and "list_all typed_block bs" and "case fresh of None \<Rightarrow> q = [] | Some p \<Rightarrow> deferred_post_tool_to_messages env p = Inr q"
  shows "squash (content_of d) @ said ''assistant'' q = squash (concat (map (block_words rp) bs)) \<and> said ''user'' q = []"
proof -
  obtain b where b: "bs = take i bs @ b # drop (Suc i) bs" "block_type_is ''tool_use'' b" using first_tool_use_split [OF i] by blast
  have "block_words rp b = []" using b(2) by (auto simp: block_words_def dest: block_type_unique)
  then have all: "concat (map (block_words rp) bs) =
      concat (map (block_words rp) (take i bs)) @ concat (map (block_words rp) (deferred_post_tool_blocks bs i))"
    using words_deferred [of rp "drop (Suc i) bs"]
    by (subst b(1)) (simp add: deferred_post_tool_blocks_def)
  have ne: "iter_tool_uses_in_order env bs \<noteq> []"
  proof -
    have "b \<in> set bs" by (subst b(1)) simp
    then show ?thesis using b(2) by (auto simp: iter_tool_uses_in_order_def filter_empty_conv)
  qed
  have pre: "squash (content_of d) = squash (concat (map (block_words rp) (take i bs)))"
  proof (cases "take i bs = []")
    case True
    then show ?thesis using assms(1) ne
      by (auto simp: convert_assistant_message_with_split_def Let_def content_of_def split: if_split_asm)
  next
    case False
    then obtain o1 where o1: "convert_assistant_message env (take i bs) r rp = Inr o1"
      using assms(1) ne by (auto simp: convert_assistant_message_with_split_def Let_def)
    obtain e where e: "o1 = [e]" "dict_role e = ''assistant''" by (rule convert_assistant_shape [OF o1])
    have w: "squash (content_of e) = squash (concat (map (block_words rp) (take i bs)))"
      using convert_assistant_words [OF o1 list_all_sub [OF set_take_subset assms(3)]] e by simp
    have "d = (let m = dict_set ''tool_calls'' (JList (iter_tool_uses_in_order env bs)) e in
        if dict_get ''content'' m = Some (JStr '' '') then dict_set ''content'' (JStr []) m else m)"
      using assms(1) ne o1 e(1) False by (simp add: convert_assistant_message_with_split_def Let_def split: if_split_asm)
    moreover have "squash (content_of e) = []" if "dict_get ''content'' e = Some (JStr '' '')"
      using that by (simp add: content_of_def)
    ultimately show ?thesis using w by (auto simp: Let_def)
  qed
  show ?thesis
  proof (cases fresh)
    case None
    then have "deferred_post_tool_blocks bs i = []" using split_shape [OF assms(1) i] by simp
    then show ?thesis using pre all assms(4) None by simp
  next
    case (Some p)
    have p: "deferred_post_tool_blocks bs i \<noteq> []"
        "p = \<lparr>pa_remaining_tool_ids = awaited_ids env (iter_tool_uses_in_order env bs),
              pa_deferred_blocks = deferred_post_tool_blocks bs i, pa_top_level_reasoning = r,
              pa_reasoning_replay = rp, pa_deferred_emitted = False\<rparr>"
      using split_shape [OF assms(1) i] Some by simp_all
    then have "convert_assistant_message env (deferred_post_tool_blocks bs i) r rp = Inr q"
      using assms(4) Some by (simp add: deferred_post_tool_to_messages_def)
    then have "said ''assistant'' q = squash (concat (map (block_words rp) (deferred_post_tool_blocks bs i))) \<and> said ''user'' q = []"
      by (rule convert_assistant_words) (rule list_all_sub [OF deferred_sub assms(3)])
    then show ?thesis using pre all by simp
  qed
qed

lemma flush_words: "flush_text ts = Inr out \<Longrightarrow>
    \<exists>ss. all_strings ts = Some ss \<and> said ''user'' out = squash (concat ss) \<and> said ''assistant'' out = []"
  by (auto simp: flush_text_def content_of_def dict_role_def split: if_split_asm dest!: join_values_words)

lemma tool_message_said: "r \<noteq> ''tool'' \<Longrightarrow> said r (map (tool_message env) bs) = []"
  by (induction bs) (simp_all add: tool_message_shape)

lemma user_blocks_words:
  "user_blocks env bs ts = Inr out \<Longrightarrow> list_all typed_block bs \<Longrightarrow> strings ts \<Longrightarrow>
     said ''user'' out = squash (concat (the (all_strings ts))) @ squash (concat (map (block_words DISABLED) bs)) \<and>
     said ''assistant'' out = []"
proof (induction env bs ts arbitrary: out rule: user_blocks.induct)
  case (1 env ts)
  then show ?case using flush_words by fastforce
next
  case (2 env b bs ts)
  consider (words) "block_type_is ''text'' b" | (image) "block_type_is ''image'' b" | (answer) "block_type_is ''tool_result'' b"
    | (rest) "\<not> block_type_is ''text'' b" "\<not> block_type_is ''image'' b" "\<not> block_type_is ''tool_result'' b" by blast
  then show ?case
  proof cases
    case words
    then obtain s where s: "block_attr_or b ''text'' (JStr []) = JStr s"
      using "2.prems"(2) has_string_attr [of "''text''" b "JStr []"] by (auto simp: typed_block_def)
    obtain ss where ss: "all_strings ts = Some ss" using "2.prems"(3) by (auto simp: strings_def)
    have "user_blocks env bs (ts @ [JStr s]) = Inr out" using "2.prems"(1) words s by simp
    moreover have "block_words DISABLED b = s" using words text_attr [OF s] by (simp add: block_words_def)
    ultimately show ?thesis using "2.IH"(1) [OF words, of out] s "2.prems" ss by (simp add: all_strings_append)
  next
    case image
    then show ?thesis using "2.prems"(1) block_type_other [OF image, of "''text''"] by simp
  next
    case answer
    then have n: "\<not> block_type_is ''text'' b" "\<not> block_type_is ''image'' b" by (auto dest: block_type_unique)
    then obtain f r where fr: "flush_text ts = Inr f" "user_blocks env bs [] = Inr r" "out = f @ [tool_message env b] @ r"
      using answer "2.prems"(1) by auto
    have "block_words DISABLED b = []" using n by (simp add: block_words_def)
    then show ?thesis using "2.IH"(2) [OF n answer fr(2)] flush_words [OF fr(1)] fr(3) "2.prems"(2)
      by (auto simp: tool_message_shape)
  next
    case rest
    then have "block_words DISABLED b = []" by (simp add: block_words_def)
    then show ?thesis using "2.IH"(3) [OF rest, of out] "2.prems" rest by simp
  qed
qed

definition speaks :: "string \<Rightarrow> bool" where
  "speaks r \<longleftrightarrow> r = ''user'' \<or> r = ''assistant''"

lemma convert_text_words:
  assumes "msg_content m = JStr s" and "speaks r"
  shows "said r [convert_text_message rp (msg_role m) s (clean_reasoning_content (msg_reasoning_content m))] = squash (words r rp m)"
  using assms
  by (cases rp; cases "msg_reasoning_content m")
    (auto simp: convert_text_message_def Let_def words_def clean_reasoning_content_def dict_role_def content_of_def squash_join
      truthy_str_def)

lemma plain_step_words:
  assumes "convert_step env rp m None = Inr (out, pending')" and "typed_message m" and "tool_uses m = []" and "speaks r"
  shows "said r out = squash (words r rp m)"
proof (cases "msg_content m")
  case (JStr s)
  then have "out = [convert_text_message rp (msg_role m) s (clean_reasoning_content (msg_reasoning_content m))]"
    using assms(1) by (auto simp: convert_step_def Let_def replay_None split: if_split_asm)
  then show ?thesis using convert_text_words [OF JStr assms(4)] by simp
next
  case (JList bs)
  have t: "list_all typed_block bs" using assms(2) JList by (simp add: typed_message_def)
  consider (a) "msg_role m = ''assistant''" | (u) "msg_role m = ''user''"
    using assms(2) by (auto simp: typed_message_def known_role_def)
  then show ?thesis
  proof cases
    case a
    then have "filter (block_type_is ''tool_use'') bs = []" using assms(3) JList by (simp add: tool_uses_def blocks_of_def)
    then have "index_first_tool_use bs = None" by (induction bs) (simp_all split: if_split_asm)
    then have "convert_assistant_message env bs (clean_reasoning_content (msg_reasoning_content m)) rp = Inr out"
      using assms(1) JList a by (auto simp: convert_step_def Let_def replay_None convert_assistant_list_def)
    from convert_assistant_words [OF this t] show ?thesis using assms(4) a JList by (auto simp: words_def speaks_def)
  next
    case u
    then have "user_blocks env bs [] = Inr out"
      using assms(1) JList by (auto simp: convert_step_def Let_def convert_user_list_def waits_def convert_user_message_def)
    from user_blocks_words [OF this t] show ?thesis using assms(4) u JList by (auto simp: words_def speaks_def)
  qed
qed (use assms(2) in \<open>simp_all add: typed_message_def\<close>)

lemma result_no_words: "block_type_is ''tool_result'' b \<Longrightarrow> block_words rp b = []"
  using block_type_other [of "''tool_result''" b "''text''"] block_type_other [of "''tool_result''" b "''thinking''"]
  by (simp add: block_words_def)

lemma results_no_words: "list_all (block_type_is ''tool_result'') rs \<Longrightarrow> concat (map (block_words rp) rs) = []"
  by (induction rs) (simp_all add: result_no_words)

lemma typed_list: "typed_message m \<Longrightarrow> msg_content m = JList bs \<Longrightarrow> list_all typed_block bs"
  by (simp add: typed_message_def)

lemma exchange_words:
  assumes "convert_step env rp m None = Inr (o1, p1)" and "convert_step env rp u p1 = Inr (o2, p2)"
    and "tool_uses m \<noteq> []" and "answers m u" and "typed_message m" and "typed_message u" and "speaks r"
  shows "p2 = None \<and> said r (o1 @ o2) = squash (words r rp m) @ squash (words r rp u)"
proof (rule exchange [OF assms(1-4)])
  fix d q t bs
  assume a: "o1 = [d]" "dict_role d = ''assistant''"
    "o2 = map (tool_message env) (tool_results u) @ q @ t" "p2 = None"
    "case p1 of None \<Rightarrow> q = [] | Some p \<Rightarrow> deferred_post_tool_to_messages env p = Inr q"
    "blocks_of ''user'' u = tool_results u @ bs" "user_blocks env bs [] = Inr t"
  have m: "msg_role m = ''assistant''" "msg_content m = JList (blocks_of ''assistant'' m)"
    using tool_uses_assistant [OF assms(3)] by simp_all
  have tm: "list_all typed_block (blocks_of ''assistant'' m)" by (rule typed_list [OF assms(5) m(2)])
  have ru: "msg_role u = ''user''" using assms(4) by (simp add: answers_def)
  have ne: "set (answer_ids u) \<noteq> {}" using assms(3,4) by (simp add: answers_def use_ids_def)
  then have "blocks_of ''user'' u \<noteq> []" by (auto simp: answer_ids_def tool_results_def)
  then have u: "msg_content u = JList (blocks_of ''user'' u)" using ru by (cases "msg_content u") (simp_all add: blocks_of_def)
  have tb: "list_all typed_block bs" using typed_list [OF assms(6) u] a(6) by simp
  have rs: "list_all (block_type_is ''tool_result'') (tool_results u)" by (simp add: tool_results_def list_all_iff)
  have aw: "squash (content_of d) @ said ''assistant'' q = squash (concat (map (block_words rp) (blocks_of ''assistant'' m))) \<and>
      said ''user'' q = []"
  proof (rule convert_step_calls [OF assms(1,3)])
    fix i d' fresh
    assume b: "index_first_tool_use (blocks_of ''assistant'' m) = Some i"
      "convert_assistant_message_with_split env (blocks_of ''assistant'' m) i
           (clean_reasoning_content (msg_reasoning_content m)) rp = Inr ([d'], fresh)" "o1 = [d']" "p1 = fresh"
    show ?thesis by (rule split_words) (use b a(1,5) tm in simp_all)
  qed
  have uw: "said ''user'' t = squash (concat (map (block_words DISABLED) bs)) \<and> said ''assistant'' t = []"
    using user_blocks_words [OF a(7) tb] by simp
  have "words ''user'' rp u = concat (map (block_words DISABLED) bs)"
    using ru u a(6) results_no_words [OF rs, of DISABLED] by (simp add: words_def)
  moreover have "words ''assistant'' rp m = concat (map (block_words rp) (blocks_of ''assistant'' m))"
    using m by (simp add: words_def)
  moreover have "words ''user'' rp m = []" "words ''assistant'' rp u = []" using m(1) ru by (simp_all add: words_def)
  moreover have "said r (map (tool_message env) (tool_results u)) = []" using assms(7) by (intro tool_message_said) (auto simp: speaks_def)
  ultimately show ?thesis using assms(7) a(1-4) aw uw by (auto simp: speaks_def)
qed

lemma convert_loop_words:
  "convert_loop env rp ms None = Inr out \<Longrightarrow> \<forall>m \<in> set ms. typed_message m \<Longrightarrow> answered ms \<Longrightarrow> speaks r \<Longrightarrow>
     said r out = concat (map (\<lambda>m. squash (words r rp m)) ms)"
proof (induction ms arbitrary: out rule: answered.induct)
  case 1
  then show ?case by (simp add: replay_None)
next
  case (2 m ms)
  obtain o1 p1 o2 where o: "convert_step env rp m None = Inr (o1, p1)" "convert_loop env rp ms p1 = Inr o2" "out = o1 @ o2"
    using "2.prems"(1) by auto
  have tm: "typed_message m" using "2.prems"(2) by simp
  show ?case
  proof (cases "tool_uses m = []")
    case True
    have "known_role m" using tm by (simp add: typed_message_def)
    then have p: "p1 = None" using convert_step_plain [OF o(1)] True by simp
    show ?thesis using plain_step_words [OF o(1) tm True "2.prems"(4)] "2.IH"(1) [OF True, of o2] o(2,3) p "2.prems" True by simp
  next
    case False
    then obtain u rest where ms: "ms = u # rest" "answers m u" "answered rest" using "2.prems"(3) by (auto split: list.splits)
    obtain o3 p3 o4 where u: "convert_step env rp u p1 = Inr (o3, p3)" "convert_loop env rp rest p3 = Inr o4" "o2 = o3 @ o4"
      using o(2) ms(1) by auto
    have "p3 = None \<and> said r (o1 @ o3) = squash (words r rp m) @ squash (words r rp u)"
      by (rule exchange_words [OF o(1) u(1) False ms(2) tm _ "2.prems"(4)]) (use "2.prems"(2) ms(1) in simp)
    then show ?thesis using "2.IH"(2) [OF False ms(1), of o4] u o(3) "2.prems"(2,4) ms by simp
  qed
qed

text \<open>The conversion of an answered conversation loses, repeats and reorders no text: up to blanks
  and line breaks, what the converted messages of the user and of the assistant say is what the
  texts of their messages said, in order, with an assistant's thinking in tags exactly where the
  replay mode asks for it.\<close>

theorem conversion_keeps_text:
  assumes "convert_messages env replay ms = Inr out" and "\<forall>m \<in> set ms. typed_message m" and "answered ms"
    and "r = ''user'' \<or> r = ''assistant''"
  shows "said r out = concat (map (\<lambda>m. squash (words r replay m)) ms)"
  using convert_loop_words [of env replay ms out r] assms by (simp add: convert_messages_def speaks_def)

lemma demo_answered: "answered demo_chat"
  by (simp add: demo_chat_def tool_uses_def tool_results_def blocks_of_def demo_block_simps answers_def use_ids_def answer_ids_def
      proper_id_def py_strip_def py_rstrip_def py_lstrip_def py_space_def)

theorem conversion_follows_protocol_witness: "chat_run [] (case convert_messages demo_text DISABLED demo_chat of Inr out \<Rightarrow> out | _ \<Rightarrow> [])"
  using conversion_follows_protocol [OF demo_conversion demo_roles demo_answered] by (simp only: demo_conversion sum.case)

theorem conversion_keeps_text_witness:
  "concat (map (\<lambda>m. squash (words ''assistant'' DISABLED m)) demo_chat) = ''ab''"
  using conversion_keeps_text [OF demo_conversion demo_typed demo_answered, of "''assistant''"]
  by (simp add: said_def dict_role_def content_of_def squash_def)

end
