(* ===== verification/NimSchema.thy ===== *)
theory NimSchema
  imports OpenAiConvert OpenAiStream
begin

section \<open>Tool schemas for NVIDIA NIM (\<open>providers/nvidia_nim/request.py\<close>)\<close>

text \<open>
  NIM rejects boolean subschemas and a parameter called \<open>type\<close>.  The schema of each tool is
  rewritten: boolean subschemas go, unsafe property names become aliases, and the aliases are kept
  to rename the arguments of the model's calls back.
\<close>

subsection \<open>Boolean subschemas\<close>

definition SCHEMA_VALUE_KEYS :: "string set" where
  "SCHEMA_VALUE_KEYS = {''additionalProperties'', ''additionalItems'', ''unevaluatedProperties'', ''unevaluatedItems'',
     ''items'', ''contains'', ''propertyNames'', ''if'', ''then'', ''else'', ''not''}"

definition SCHEMA_LIST_KEYS :: "string set" where
  "SCHEMA_LIST_KEYS = {''allOf'', ''anyOf'', ''oneOf'', ''prefixItems''}"

definition SCHEMA_MAP_KEYS :: "string set" where
  "SCHEMA_MAP_KEYS = {''properties'', ''patternProperties'', ''$defs'', ''definitions'', ''dependentSchemas''}"

text \<open>\<open>None\<close> is the flag that the node, or the entry of an object, is not kept.  The three sets of keys are disjoint.\<close>

fun sanitize_node :: "json \<Rightarrow> json option"
  and sanitize_items :: "json list \<Rightarrow> json list"
  and sanitize_entry :: "string \<Rightarrow> json \<Rightarrow> json option"
  and sanitize_fields :: "jdict \<Rightarrow> jdict"
  and sanitize_map :: "jdict \<Rightarrow> jdict" where
  "sanitize_node (JBool b) = None"
| "sanitize_node (JObj d) = Some (JObj (sanitize_fields d))"
| "sanitize_node (JList xs) = Some (JList (sanitize_items xs))"
| "sanitize_node JNull = Some JNull"
| "sanitize_node (JInt i) = Some (JInt i)"
| "sanitize_node (JFloat f) = Some (JFloat f)"
| "sanitize_node (JStr s) = Some (JStr s)"
| "sanitize_items [] = []"
| "sanitize_items (x # xs) = (case sanitize_node x of None \<Rightarrow> sanitize_items xs | Some y \<Rightarrow> y # sanitize_items xs)"
| "sanitize_entry k v =
     (if k \<in> SCHEMA_VALUE_KEYS then sanitize_node v
      else if k \<in> SCHEMA_LIST_KEYS then
        (case v of
           JList xs \<Rightarrow> if sanitize_items xs = [] then None else Some (JList (sanitize_items xs))
         | _ \<Rightarrow> Some v)
      else if k \<in> SCHEMA_MAP_KEYS then (case v of JObj m \<Rightarrow> Some (JObj (sanitize_map m)) | _ \<Rightarrow> Some v)
      else Some v)"
| "sanitize_fields [] = []"
| "sanitize_fields ((k, v) # d) =
     (case sanitize_entry k v of None \<Rightarrow> sanitize_fields d | Some y \<Rightarrow> (k, y) # sanitize_fields d)"
| "sanitize_map [] = []"
| "sanitize_map ((k, v) # d) =
     (case sanitize_node v of None \<Rightarrow> sanitize_map d | Some y \<Rightarrow> (k, y) # sanitize_map d)"

subsection \<open>Aliases\<close>

definition ALIAS_PREFIX :: string where
  "ALIAS_PREFIX = ''_fcc_arg_''"

definition needs_alias :: "string \<Rightarrow> bool" where
  "needs_alias name \<longleftrightarrow> name \<in> {''type''}"

definition is_alnum :: "char \<Rightarrow> bool" where
  "is_alnum c \<longleftrightarrow>
     (let n = of_char c :: nat in
      48 \<le> n \<and> n \<le> 57 \<or> 65 \<le> n \<and> n \<le> 90 \<or> 97 \<le> n \<and> n \<le> 122 \<or>
      n \<in> {170, 178, 179, 181, 185, 186, 188, 189, 190} \<or> 192 \<le> n \<and> n \<noteq> 215 \<and> n \<noteq> 247)"

definition safe_tail :: "string \<Rightarrow> string" where
  "safe_tail name =
     (let t = map (\<lambda>c. if is_alnum c \<or> c = CHR ''_'' then c else CHR ''_'') name;
          t = rev (dropWhile (\<lambda>c. c = CHR ''_'') (rev (dropWhile (\<lambda>c. c = CHR ''_'') t)))
      in if t = [] then ''arg'' else t)"

text \<open>The record of the three mutable arguments: the reserved names as the list of a set.\<close>

record alias_state =
  as_reserved :: "string list"
  as_to_original :: "(string, string) pydict"
  as_to_alias :: "(string, string) pydict"

text \<open>The loop over the suffixes; it ends because the numbered names are distinct and finitely many
  names are reserved.\<close>

definition numbered :: "string \<Rightarrow> nat \<Rightarrow> string" where
  "numbered candidate n = candidate @ ''_'' @ show_nat n"

lemma numbered_finite: "finite {k. n \<le> k \<and> numbered candidate k \<in> set reserved}"
proof (rule finite_subset)
  show "{k. n \<le> k \<and> numbered candidate k \<in> set reserved} \<subseteq> numbered candidate -` set reserved" by auto
  have "inj (numbered candidate)" by (auto simp: inj_def numbered_def show_nat_inj)
  then show "finite (numbered candidate -` set reserved)" by (intro finite_vimageI) simp_all
qed

function next_alias :: "string \<Rightarrow> string list \<Rightarrow> nat \<Rightarrow> string" where
  "next_alias candidate reserved n =
     (if numbered candidate n \<in> set reserved then next_alias candidate reserved (Suc n) else numbered candidate n)"
  by auto

termination
proof (relation "measure (\<lambda>(c, r, n). card {k. n \<le> k \<and> numbered c k \<in> set r})")
  fix c r n
  assume "numbered c n \<in> set r"
  then have "{k. Suc n \<le> k \<and> numbered c k \<in> set r} \<subset> {k. n \<le> k \<and> numbered c k \<in> set r}"
  proof (intro psubsetI notI)
    assume eq: "{k. Suc n \<le> k \<and> numbered c k \<in> set r} = {k. n \<le> k \<and> numbered c k \<in> set r}"
    have "n \<in> {k. n \<le> k \<and> numbered c k \<in> set r}" using \<open>numbered c n \<in> set r\<close> by simp
    then have "n \<in> {k. Suc n \<le> k \<and> numbered c k \<in> set r}" by (simp only: eq)
    then show False by simp
  qed auto
  then show "((c, r, Suc n), c, r, n) \<in> measure (\<lambda>(c, r, n). card {k. n \<le> k \<and> numbered c k \<in> set r})"
    using numbered_finite by (simp add: psubset_card_mono)
qed simp

declare next_alias.simps [simp del]

definition make_alias :: "string \<Rightarrow> alias_state \<Rightarrow> string \<times> alias_state" where
  "make_alias name s =
     (let candidate = ALIAS_PREFIX @ safe_tail name;
          alias = (if candidate \<in> set (as_reserved s) then next_alias candidate (as_reserved s) 2 else candidate)
      in (alias, s\<lparr>as_reserved := alias # as_reserved s\<rparr>))"

text \<open>The alias of an unsafe name: the one it has, or a new one that is entered in both directions.\<close>

definition alias_for :: "string \<Rightarrow> alias_state \<Rightarrow> string \<times> alias_state" where
  "alias_for name s =
     (case dict_get name (as_to_alias s) of
        Some alias \<Rightarrow> (alias, s)
      | None \<Rightarrow>
          (case make_alias name s of (alias, s) \<Rightarrow>
             (alias, s\<lparr>as_to_original := dict_set alias name (as_to_original s),
                       as_to_alias := dict_set name alias (as_to_alias s)\<rparr>)))"

definition required_item :: "(string, string) pydict \<Rightarrow> json \<Rightarrow> json" where
  "required_item local_aliases item = (case item of JStr s \<Rightarrow> JStr (alias_key local_aliases s) | _ \<Rightarrow> item)"

text \<open>\<open>_collect_nim_tool_property_names\<close>: the names as a list.\<close>

function (sequential) collect_names :: "json \<Rightarrow> string list"
  and collect_props :: "jdict \<Rightarrow> string list"
  and collect_items :: "json list \<Rightarrow> string list"
  and collect_fields :: "jdict \<Rightarrow> string list" where
  "collect_names (JObj d) =
     (case dict_get ''properties'' d of Some (JObj ps) \<Rightarrow> collect_props ps | _ \<Rightarrow> []) @ collect_fields d"
| "collect_names (JList xs) = collect_items xs"
| "collect_names v = []"
| "collect_props [] = []"
| "collect_props ((n, v) # ps) = n # collect_names v @ collect_props ps"
| "collect_items [] = []"
| "collect_items (x # xs) = collect_names x @ collect_items xs"
| "collect_fields [] = []"
| "collect_fields ((k, v) # d) = (if k \<noteq> ''properties'' then collect_names v else []) @ collect_fields d"
  by pat_completeness auto

termination
proof (relation "measure (\<lambda>x. case x of
    Inl (Inl v) \<Rightarrow> size v
  | Inl (Inr ps) \<Rightarrow> size_list (size_prod (\<lambda>_. 0) size) ps
  | Inr (Inl xs) \<Rightarrow> size_list size xs
  | Inr (Inr d) \<Rightarrow> size_list (size_prod (\<lambda>_. 0) size) d)", goal_cases)
  case 1
  then show ?case by simp
qed (auto dest: dict_get_size)

text \<open>
  \<open>_alias_nim_schema_property_names\<close>.  The properties of a node come first: each schema is
  rewritten, then its name, and the renamed properties and the node's own aliases are collected;
  \<open>required\<close> is renamed with the node's own aliases only.
\<close>

function (sequential) alias_node :: "json \<Rightarrow> alias_state \<Rightarrow> json \<times> alias_state"
  and alias_items :: "json list \<Rightarrow> alias_state \<Rightarrow> json list \<times> alias_state"
  and alias_props :: "jdict \<Rightarrow> jdict \<Rightarrow> (string, string) pydict \<Rightarrow> alias_state
    \<Rightarrow> jdict \<times> (string, string) pydict \<times> alias_state"
  and alias_entry :: "(string, string) pydict \<Rightarrow> string \<Rightarrow> json \<Rightarrow> alias_state \<Rightarrow> json \<times> alias_state"
  and alias_fields :: "(string, string) pydict \<Rightarrow> jdict \<Rightarrow> alias_state \<Rightarrow> jdict \<times> alias_state" where
  "alias_node (JObj d) s =
     (case dict_get ''properties'' d of
        Some (JObj ps) \<Rightarrow>
          (case alias_props ps [] [] s of (props, local_aliases, s) \<Rightarrow>
             case alias_fields local_aliases d s of (flds, s) \<Rightarrow> (JObj ((''properties'', JObj props) # flds), s))
      | _ \<Rightarrow> (case alias_fields [] d s of (flds, s) \<Rightarrow> (JObj flds, s)))"
| "alias_node (JList xs) s = (case alias_items xs s of (ys, s) \<Rightarrow> (JList ys, s))"
| "alias_node v s = (v, s)"
| "alias_items [] s = ([], s)"
| "alias_items (x # xs) s =
     (case alias_node x s of (y, s) \<Rightarrow> case alias_items xs s of (ys, s) \<Rightarrow> (y # ys, s))"
| "alias_props [] acc local_aliases s = (acc, local_aliases, s)"
| "alias_props ((n, v) # ps) acc local_aliases s =
     (case alias_node v s of (v, s) \<Rightarrow>
        if needs_alias n
        then (case alias_for n s of (alias, s) \<Rightarrow>
                alias_props ps (dict_set alias v acc) (dict_set n alias local_aliases) s)
        else alias_props ps (dict_set n v acc) local_aliases s)"
| "alias_entry local_aliases k v s =
     (if k = ''required'' then
        (case v of JList items \<Rightarrow> (JList (map (required_item local_aliases) items), s) | _ \<Rightarrow> alias_node v s)
      else alias_node v s)"
| "alias_fields local_aliases [] s = ([], s)"
| "alias_fields local_aliases ((k, v) # d) s =
     (if k = ''properties'' then alias_fields local_aliases d s
      else
        case alias_entry local_aliases k v s of (v, s) \<Rightarrow>
          case alias_fields local_aliases d s of (flds, s) \<Rightarrow> ((k, v) # flds, s))"
  by pat_completeness auto

termination
proof (relation "measure (\<lambda>x. case x of
    Inl (Inl (v, s)) \<Rightarrow> 2 * size v
  | Inl (Inr (xs, s)) \<Rightarrow> 2 * size_list size xs
  | Inr (Inl (ps, acc, l, s)) \<Rightarrow> 2 * size_list (size_prod (\<lambda>_. 0) size) ps
  | Inr (Inr (Inl (l, k, v, s))) \<Rightarrow> 2 * size v + 1
  | Inr (Inr (Inr (l, d, s))) \<Rightarrow> 2 * size_list (size_prod (\<lambda>_. 0) size) d)", goal_cases)
  case 1
  then show ?case by simp
qed (auto dest: dict_get_size)

subsection \<open>The tools of a body\<close>

definition alias_nim_tool_parameters :: "json \<Rightarrow> json \<times> (string, string) pydict" where
  "alias_nim_tool_parameters parameters =
     (case alias_node parameters \<lparr>as_reserved = collect_names parameters, as_to_original = [], as_to_alias = []\<rparr> of
        (aliased, s) \<Rightarrow> if as_to_original s = [] then (parameters, []) else (aliased, as_to_original s))"

definition NIM_TOOL_ARGUMENT_ALIASES_KEY :: string where
  "NIM_TOOL_ARGUMENT_ALIASES_KEY = ''_fcc_nim_tool_argument_aliases''"

type_synonym tool_aliases = "(string, (string, string) pydict) pydict"

text \<open>One turn of the loop of \<open>_sanitize_nim_tool_schemas\<close>, with the aliases collected so far.\<close>

definition sanitize_tool :: "json \<Rightarrow> tool_aliases \<Rightarrow> json \<times> tool_aliases" where
  "sanitize_tool tool aliases =
     (case tool of
        JObj t \<Rightarrow>
          (case dict_get ''function'' t of
             Some (JObj f) \<Rightarrow>
               (case dict_get ''parameters'' f of
                  Some (JObj ps) \<Rightarrow>
                    (case alias_nim_tool_parameters (JObj (sanitize_fields ps)) of
                       (parameters, argument_aliases) \<Rightarrow>
                         (JObj (dict_set ''function'' (JObj (dict_set ''parameters'' parameters f)) t),
                          case dict_get ''name'' f of
                            Some (JStr name) \<Rightarrow>
                              if argument_aliases \<noteq> [] \<and> name \<noteq> [] then dict_set name argument_aliases aliases else aliases
                          | _ \<Rightarrow> aliases))
                | _ \<Rightarrow> (tool, aliases))
           | _ \<Rightarrow> (tool, aliases))
      | _ \<Rightarrow> (tool, aliases))"

fun sanitize_tools :: "json list \<Rightarrow> tool_aliases \<Rightarrow> json list \<times> tool_aliases" where
  "sanitize_tools [] aliases = ([], aliases)"
| "sanitize_tools (t # ts) aliases =
     (case sanitize_tool t aliases of (t, aliases) \<Rightarrow>
        case sanitize_tools ts aliases of (ts, aliases) \<Rightarrow> (t # ts, aliases))"

definition aliases_json :: "tool_aliases \<Rightarrow> json" where
  "aliases_json aliases = JObj (map (\<lambda>(name, al). (name, JObj (map (\<lambda>(a, n). (a, JStr n)) al))) aliases)"

definition sanitize_nim_tool_schemas :: "jdict \<Rightarrow> jdict" where
  "sanitize_nim_tool_schemas body =
     (case dict_get ''tools'' body of
        Some (JList tools) \<Rightarrow>
          (case sanitize_tools tools [] of (tools, aliases) \<Rightarrow>
             let body = dict_set ''tools'' (JList tools) body in
             if aliases \<noteq> [] then dict_set NIM_TOOL_ARGUMENT_ALIASES_KEY (aliases_json aliases) body
             else dict_del NIM_TOOL_ARGUMENT_ALIASES_KEY body)
      | _ \<Rightarrow> body)"

text \<open>Reading the aliases back, and the body that is sent.\<close>

fun string_entries :: "jdict \<Rightarrow> (string, string) pydict" where
  "string_entries [] = []"
| "string_entries ((a, JStr n) # d) = (a, n) # string_entries d"
| "string_entries (_ # d) = string_entries d"

fun read_aliases :: "jdict \<Rightarrow> tool_aliases" where
  "read_aliases [] = []"
| "read_aliases ((name, JObj al) # d) =
     (if string_entries al \<noteq> [] then (name, string_entries al) # read_aliases d else read_aliases d)"
| "read_aliases (_ # d) = read_aliases d"

definition nim_tool_argument_aliases_from_body :: "jdict \<Rightarrow> tool_aliases" where
  "nim_tool_argument_aliases_from_body body =
     (case dict_get NIM_TOOL_ARGUMENT_ALIASES_KEY body of Some (JObj d) \<Rightarrow> read_aliases d | _ \<Rightarrow> [])"

definition body_without_nim_tool_argument_aliases :: "jdict \<Rightarrow> jdict" where
  "body_without_nim_tool_argument_aliases body = dict_del NIM_TOOL_ARGUMENT_ALIASES_KEY body"

subsection \<open>No boolean subschema is left\<close>

text \<open>
  The keywords of JSON Schema whose value is a schema, a list of schemas, or an object of schemas by name.  Of
  those of the standard only \<open>dependencies\<close> and \<open>contentSchema\<close> are not here.  A schema is clean if no boolean stands
  for a schema at any of these places, at any depth, and no list of schemas is empty.
\<close>

definition ONE_SCHEMA_KEYWORDS :: "string list" where
  "ONE_SCHEMA_KEYWORDS =
     [''items'', ''contains'', ''additionalItems'', ''unevaluatedItems'', ''additionalProperties'', ''unevaluatedProperties'',
      ''propertyNames'', ''not'', ''if'', ''then'', ''else'']"

definition SCHEMA_ARRAY_KEYWORDS :: "string list" where
  "SCHEMA_ARRAY_KEYWORDS = [''prefixItems'', ''allOf'', ''anyOf'', ''oneOf'']"

definition NAMED_SCHEMAS_KEYWORDS :: "string list" where
  "NAMED_SCHEMAS_KEYWORDS = [''properties'', ''patternProperties'', ''dependentSchemas'', ''definitions'', ''$defs'']"

lemma sanitizer_keywords:
  "SCHEMA_VALUE_KEYS = set ONE_SCHEMA_KEYWORDS" "SCHEMA_LIST_KEYS = set SCHEMA_ARRAY_KEYWORDS"
  "SCHEMA_MAP_KEYS = set NAMED_SCHEMAS_KEYWORDS"
  by (auto simp: SCHEMA_VALUE_KEYS_def SCHEMA_LIST_KEYS_def SCHEMA_MAP_KEYS_def ONE_SCHEMA_KEYWORDS_def
      SCHEMA_ARRAY_KEYWORDS_def NAMED_SCHEMAS_KEYWORDS_def)

fun clean_node :: "json \<Rightarrow> bool"
  and clean_items :: "json list \<Rightarrow> bool"
  and clean_entry :: "string \<Rightarrow> json \<Rightarrow> bool"
  and clean_fields :: "jdict \<Rightarrow> bool"
  and clean_map :: "jdict \<Rightarrow> bool" where
  "clean_node (JBool b) \<longleftrightarrow> False"
| "clean_node (JObj d) \<longleftrightarrow> clean_fields d"
| "clean_node (JList xs) \<longleftrightarrow> clean_items xs"
| "clean_node JNull \<longleftrightarrow> True"
| "clean_node (JInt i) \<longleftrightarrow> True"
| "clean_node (JFloat f) \<longleftrightarrow> True"
| "clean_node (JStr s) \<longleftrightarrow> True"
| "clean_items [] \<longleftrightarrow> True"
| "clean_items (x # xs) \<longleftrightarrow> clean_node x \<and> clean_items xs"
| "clean_entry k v \<longleftrightarrow>
     (if k \<in> set ONE_SCHEMA_KEYWORDS then clean_node v
      else if k \<in> set SCHEMA_ARRAY_KEYWORDS then (case v of JList xs \<Rightarrow> xs \<noteq> [] \<and> clean_items xs | _ \<Rightarrow> True)
      else if k \<in> set NAMED_SCHEMAS_KEYWORDS then (case v of JObj m \<Rightarrow> clean_map m | _ \<Rightarrow> True) else True)"
| "clean_fields [] \<longleftrightarrow> True"
| "clean_fields ((k, v) # d) \<longleftrightarrow> clean_entry k v \<and> clean_fields d"
| "clean_map [] \<longleftrightarrow> True"
| "clean_map ((k, v) # d) \<longleftrightarrow> clean_node v \<and> clean_map d"

lemma sanitize_clean:
  "\<forall>w. sanitize_node v = Some w \<longrightarrow> clean_node w"
  "clean_items (sanitize_items xs)"
  "\<forall>w. sanitize_entry k e = Some w \<longrightarrow> clean_entry k w"
  "clean_fields (sanitize_fields d)"
  "clean_map (sanitize_map m)"
proof (induction v and xs and k e and d and m rule: sanitize_node_sanitize_items_sanitize_entry_sanitize_fields_sanitize_map.induct)
  case (10 k v)
  then show ?case by (cases v) (auto simp: sanitizer_keywords)
next
  case (12 k v d)
  then show ?case by (auto simp del: sanitize_entry.simps clean_entry.simps split: option.split)
qed (auto split: option.split)

lemma clean_sanitize:
  "clean_node v \<Longrightarrow> sanitize_node v = Some v"
  "clean_items xs \<Longrightarrow> sanitize_items xs = xs"
  "clean_entry k e \<Longrightarrow> sanitize_entry k e = Some e"
  "clean_fields d \<Longrightarrow> sanitize_fields d = d"
  "clean_map m \<Longrightarrow> sanitize_map m = m"
proof (induction v and xs and k e and d and m rule: sanitize_node_sanitize_items_sanitize_entry_sanitize_fields_sanitize_map.induct)
  case (10 k v)
  then show ?case by (cases v) (auto simp: sanitizer_keywords split: if_splits)
next
  case (12 k v d)
  then show ?case by (simp del: sanitize_entry.simps clean_entry.simps)
qed auto

end
