(* ===== verification/NimSound.thy ===== *)
theory NimSound
  imports NimSchema
begin

section \<open>What the rewriting of tool schemas keeps\<close>

text \<open>
  The schema that is sent has no boolean subschema and no property with an unsafe name, and the
  aliases that go with it are one to one and new, so that the arguments of a call can be restored.
\<close>

subsection \<open>The state of the aliases\<close>

text \<open>What every step of the renaming keeps, it keeps as a whole.\<close>

lemma alias_state_induct:
  assumes step: "\<And>n s. needs_alias n \<Longrightarrow> P s \<Longrightarrow> P (snd (alias_for n s))"
  shows "P s \<Longrightarrow> P (snd (alias_node v s))"
    and "P s \<Longrightarrow> P (snd (alias_items xs s))"
    and "P s \<Longrightarrow> P (snd (snd (alias_props ps acc l s)))"
    and "P s \<Longrightarrow> P (snd (alias_entry l k v s))"
    and "P s \<Longrightarrow> P (snd (alias_fields l d s))"
proof (induction v s and xs s and ps acc l s and l k v s and l d s
    rule: alias_node_alias_items_alias_props_alias_entry_alias_fields.induct)
  case (1 d s)
  then show ?case by (auto split: option.splits json.splits prod.splits) (metis snd_conv)
next
  case (7 n v ps acc l s)
  then show ?case using step by (fastforce split: prod.splits)
next
  case (8 l k v s)
  then show ?case by (cases v) auto
next
  case (10 l k v d s)
  then show ?case by (fastforce simp del: alias_entry.simps split: prod.splits)
qed (fastforce split: prod.splits)+

text \<open>
  The two dictionaries are inverse to each other, and an alias is a reserved name that starts with
  the prefix and was not among the names \<open>N\<close> of the schema.
\<close>

definition aliases_ok :: "string set \<Rightarrow> alias_state \<Rightarrow> bool" where
  "aliases_ok N s \<longleftrightarrow>
     N \<subseteq> set (as_reserved s) \<and> dict_ok (as_to_original s) \<and> dict_ok (as_to_alias s) \<and>
     (\<forall>a n. dict_get a (as_to_original s) = Some n \<longleftrightarrow> dict_get n (as_to_alias s) = Some a) \<and>
     (\<forall>a n. dict_get a (as_to_original s) = Some n \<longrightarrow>
        a \<in> set (as_reserved s) \<and> a \<notin> N \<and> prefix ALIAS_PREFIX a \<and> needs_alias n)"

lemma next_alias_fresh: "next_alias c r n \<notin> set r \<and> prefix c (next_alias c r n)"
  by (induction c r n rule: next_alias.induct) (subst (1 2) next_alias.simps, simp add: numbered_def)

lemma make_alias_new:
  assumes "make_alias n s = (a, s')"
  shows "a \<notin> set (as_reserved s)" and "prefix ALIAS_PREFIX a" and "s' = s\<lparr>as_reserved := a # as_reserved s\<rparr>"
  using assms next_alias_fresh [of "ALIAS_PREFIX @ safe_tail n" "as_reserved s" 2]
  by (auto simp: make_alias_def Let_def prefix_def split: if_splits)

lemma alias_for_ok:
  assumes "needs_alias n" "aliases_ok N s"
  shows "aliases_ok N (snd (alias_for n s))"
proof (cases "dict_get n (as_to_alias s)")
  case (Some a)
  with assms show ?thesis by (simp add: alias_for_def)
next
  case None
  obtain a s' where m: "make_alias n s = (a, s')" by fastforce
  note new = make_alias_new [OF m]
  have un: "dict_get a (as_to_original s) = None"
    using assms new(1) by (cases "dict_get a (as_to_original s)") (auto simp: aliases_ok_def)
  with None m new assms show ?thesis
    unfolding aliases_ok_def alias_for_def by auto
qed

text \<open>No alias is ever changed.\<close>

definition keeps_aliases :: "alias_state \<Rightarrow> alias_state \<Rightarrow> bool" where
  "keeps_aliases s s' \<longleftrightarrow> (\<forall>n a. dict_get n (as_to_alias s) = Some a \<longrightarrow> dict_get n (as_to_alias s') = Some a)"

lemma keeps_aliases_refl: "keeps_aliases s s"
  by (simp add: keeps_aliases_def)

lemma alias_for_keeps:
  assumes "needs_alias n" "keeps_aliases s0 s"
  shows "keeps_aliases s0 (snd (alias_for n s))"
  using assms make_alias_new(3) [of n s]
  by (auto simp: keeps_aliases_def alias_for_def split: option.splits prod.splits)

lemma keeps:
  "alias_node v s = (w, s') \<Longrightarrow> keeps_aliases s s'"
  "alias_items xs s = (ys, s') \<Longrightarrow> keeps_aliases s s'"
  "alias_props ps acc l s = (qs, l', s') \<Longrightarrow> keeps_aliases s s'"
  "alias_entry l k v s = (w, s') \<Longrightarrow> keeps_aliases s s'"
  "alias_fields l d s = (d', s') \<Longrightarrow> keeps_aliases s s'"
  using alias_state_induct [where P = "keeps_aliases s", OF _ keeps_aliases_refl] alias_for_keeps
  by (metis snd_conv)+

subsection \<open>Every unsafe name gets an alias\<close>

text \<open>The property names of a schema; what stands in a list under \<open>required\<close> is not looked at.\<close>

function (sequential) schema_names :: "json \<Rightarrow> string list"
  and props_names :: "jdict \<Rightarrow> string list"
  and items_names :: "json list \<Rightarrow> string list"
  and entry_names :: "string \<Rightarrow> json \<Rightarrow> string list"
  and fields_names :: "jdict \<Rightarrow> string list" where
  "schema_names (JObj d) =
     (case dict_get ''properties'' d of Some (JObj ps) \<Rightarrow> props_names ps | _ \<Rightarrow> []) @ fields_names d"
| "schema_names (JList xs) = items_names xs"
| "schema_names v = []"
| "props_names [] = []"
| "props_names ((n, v) # ps) = n # schema_names v @ props_names ps"
| "items_names [] = []"
| "items_names (x # xs) = schema_names x @ items_names xs"
| "entry_names k v =
     (if k = ''required'' then (case v of JList items \<Rightarrow> [] | _ \<Rightarrow> schema_names v) else schema_names v)"
| "fields_names [] = []"
| "fields_names ((k, v) # d) = (if k \<noteq> ''properties'' then entry_names k v else []) @ fields_names d"
  by pat_completeness auto

termination
proof (relation "measure (\<lambda>x. case x of
    Inl (Inl v) \<Rightarrow> 2 * size v
  | Inl (Inr ps) \<Rightarrow> 2 * size_list (size_prod (\<lambda>_. 0) size) ps
  | Inr (Inl xs) \<Rightarrow> 2 * size_list size xs
  | Inr (Inr (Inl (k, v))) \<Rightarrow> 2 * size v + 1
  | Inr (Inr (Inr d)) \<Rightarrow> 2 * size_list (size_prod (\<lambda>_. 0) size) d)", goal_cases)
  case 1
  then show ?case by simp
qed (auto dest: dict_get_size)

definition has_alias :: "alias_state \<Rightarrow> string \<Rightarrow> bool" where
  "has_alias s n \<longleftrightarrow> dict_get n (as_to_alias s) \<noteq> None"

definition covered :: "string list \<Rightarrow> alias_state \<Rightarrow> bool" where
  "covered names s \<longleftrightarrow> (\<forall>n\<in>set names. needs_alias n \<longrightarrow> has_alias s n)"

lemma covered_simps [simp]:
  "covered [] s" "covered (xs @ ys) s \<longleftrightarrow> covered xs s \<and> covered ys s"
  "covered (n # xs) s \<longleftrightarrow> (needs_alias n \<longrightarrow> has_alias s n) \<and> covered xs s"
  by (auto simp: covered_def)

lemma covered_keeps: "covered names s \<Longrightarrow> keeps_aliases s s' \<Longrightarrow> covered names s'"
  by (fastforce simp: covered_def has_alias_def keeps_aliases_def)

lemma has_alias_keeps: "has_alias s n \<Longrightarrow> keeps_aliases s s' \<Longrightarrow> has_alias s' n"
  by (auto simp: has_alias_def keeps_aliases_def)

lemma alias_for_has: "alias_for n s = (a, s') \<Longrightarrow> has_alias s' n"
  by (auto simp: has_alias_def alias_for_def split: option.splits prod.splits)

lemma alias_for_keeps_one: "needs_alias n \<Longrightarrow> alias_for n s = (a, s') \<Longrightarrow> keeps_aliases s s'"
  using alias_for_keeps [OF _ keeps_aliases_refl, of n s] by simp

lemma alias_covers:
  "covered (schema_names v) (snd (alias_node v s))"
  "covered (items_names xs) (snd (alias_items xs s))"
  "covered (props_names ps) (snd (snd (alias_props ps acc l s)))"
  "covered (entry_names k v) (snd (alias_entry l k v s))"
  "covered (fields_names d) (snd (alias_fields l d s))"
proof (induction v s and xs s and ps acc l s and l k v s and l d s
    rule: alias_node_alias_items_alias_props_alias_entry_alias_fields.induct)
  case (1 d s)
  show ?case
  proof (cases "\<exists>ps. dict_get ''properties'' d = Some (JObj ps)")
    case True
    then obtain ps where ps: "dict_get ''properties'' d = Some (JObj ps)" by blast
    obtain props l s1 where a: "alias_props ps [] [] s = (props, l, s1)" by (cases "alias_props ps [] [] s") auto
    obtain flds s2 where b: "alias_fields l d s1 = (flds, s2)" by fastforce
    have "covered (props_names ps) s1" using 1(8) [OF ps refl] a by simp
    moreover have "covered (fields_names d) s2" using 1(9) [OF ps refl] a b by simp
    ultimately show ?thesis using ps a b covered_keeps [OF _ keeps(5) [OF b]] by simp
  next
    case False
    then show ?thesis using 1(1-7) by (auto split: option.splits json.splits prod.splits)
  qed
next
  case (5 x xs s)
  then show ?case by (fastforce split: prod.splits dest: keeps(2) intro: covered_keeps)
next
  case (7 n v ps acc l s)
  obtain w s1 where a: "alias_node v s = (w, s1)" by fastforce
  have c: "covered (schema_names v) s1" using 7(1) a by simp
  show ?case
  proof (cases "needs_alias n")
    case True
    obtain al s2 where b: "alias_for n s1 = (al, s2)" by fastforce
    obtain qs l' s3 where d: "alias_props ps (dict_set al w acc) (dict_set n al l) s2 = (qs, l', s3)"
      by (cases "alias_props ps (dict_set al w acc) (dict_set n al l) s2")
    have "covered (props_names ps) s3" using 7(2) [OF a [symmetric] True b [symmetric]] d by simp
    then show ?thesis
      using True a b d covered_keeps [OF c alias_for_keeps_one [OF True b]] has_alias_keeps [OF alias_for_has [OF b]] keeps(3) [OF d]
      by (simp add: covered_keeps)
  next
    case False
    obtain qs l' s3 where d: "alias_props ps (dict_set n w acc) l s1 = (qs, l', s3)"
      by (cases "alias_props ps (dict_set n w acc) l s1")
    have "covered (props_names ps) s3" using 7(3) [OF a [symmetric] False] d by simp
    then show ?thesis using False a d covered_keeps [OF c keeps(3) [OF d]] by simp
  qed
next
  case (8 l k v s)
  then show ?case by (cases v) auto
next
  case (10 l k v d s)
  then show ?case
    by (fastforce simp del: alias_entry.simps entry_names.simps split: prod.splits dest: keeps(5) intro: covered_keeps)
qed (auto split: prod.splits)

subsection \<open>No unsafe name is left\<close>

definition all_safe :: "string list \<Rightarrow> bool" where
  "all_safe names \<longleftrightarrow> list_all (\<lambda>n. \<not> needs_alias n) names"

lemma all_safe_simps [simp]:
  "all_safe []" "all_safe (n # ns) \<longleftrightarrow> \<not> needs_alias n \<and> all_safe ns"
  "all_safe (ns @ ms) \<longleftrightarrow> all_safe ns \<and> all_safe ms"
  by (simp_all add: all_safe_def)

definition safe_aliases :: "alias_state \<Rightarrow> bool" where
  "safe_aliases s \<longleftrightarrow> (\<forall>n a. dict_get n (as_to_alias s) = Some a \<longrightarrow> prefix ALIAS_PREFIX a)"

lemma prefixed_safe: "prefix ALIAS_PREFIX a \<Longrightarrow> \<not> needs_alias a"
  by (auto simp: prefix_def ALIAS_PREFIX_def needs_alias_def)

lemma alias_for_safe:
  assumes "safe_aliases s" "alias_for n s = (a, s')"
  shows "safe_aliases s'" "\<not> needs_alias a" "prefix ALIAS_PREFIX a"
  using assms make_alias_new [of n s] prefixed_safe
  by (auto simp: safe_aliases_def alias_for_def split: option.splits prod.splits if_splits)

lemma safe_aliases_step:
  "safe_aliases s \<Longrightarrow> alias_node v s = (w, s') \<Longrightarrow> safe_aliases s'"
  "safe_aliases s \<Longrightarrow> alias_items xs s = (ys, s') \<Longrightarrow> safe_aliases s'"
  "safe_aliases s \<Longrightarrow> alias_props ps acc l s = (qs, l', s') \<Longrightarrow> safe_aliases s'"
  "safe_aliases s \<Longrightarrow> alias_entry l k v s = (w, s') \<Longrightarrow> safe_aliases s'"
  "safe_aliases s \<Longrightarrow> alias_fields l d s = (d', s') \<Longrightarrow> safe_aliases s'"
  using alias_state_induct [where P = safe_aliases] alias_for_safe(1)
  by (metis prod.collapse snd_conv)+

lemma props_names_set: "all_safe (props_names acc) \<Longrightarrow> \<not> needs_alias k \<Longrightarrow> all_safe (schema_names v)
    \<Longrightarrow> all_safe (props_names (dict_set k v acc))"
  unfolding dict_set_def by (induction acc) (auto simp: all_safe_def)

lemma entry_names_safe: "all_safe (schema_names w) \<Longrightarrow> all_safe (entry_names k w)"
  by (cases w) auto

lemma no_properties_left: "dict_get ''properties'' (fst (alias_fields l d s)) = None"
proof (induction d arbitrary: s)
  case Nil
  then show ?case by simp
next
  case (Cons kv d)
  obtain k v where kv: "kv = (k, v)" by fastforce
  obtain w s1 where a: "alias_entry l k v s = (w, s1)" by fastforce
  obtain d' s2 where b: "alias_fields l d s1 = (d', s2)" by fastforce
  from Cons.IH [of s] Cons.IH [of s1] show ?case using a b by (simp add: kv del: alias_entry.simps)
qed

lemma alias_safe_names:
  "safe_aliases s \<Longrightarrow> all_safe (schema_names (fst (alias_node v s)))"
  "safe_aliases s \<Longrightarrow> all_safe (items_names (fst (alias_items xs s)))"
  "safe_aliases s \<Longrightarrow> all_safe (props_names acc) \<Longrightarrow> all_safe (props_names (fst (alias_props ps acc l s)))"
  "safe_aliases s \<Longrightarrow> all_safe (entry_names k (fst (alias_entry l k v s)))"
  "safe_aliases s \<Longrightarrow> all_safe (fields_names (fst (alias_fields l d s)))"
proof (induction v s and xs s and ps acc l s and l k v s and l d s
    rule: alias_node_alias_items_alias_props_alias_entry_alias_fields.induct)
  case (1 d s)
  show ?case
  proof (cases "\<exists>ps. dict_get ''properties'' d = Some (JObj ps)")
    case True
    then obtain ps where ps: "dict_get ''properties'' d = Some (JObj ps)" by blast
    obtain props l s1 where a: "alias_props ps [] [] s = (props, l, s1)" by (cases "alias_props ps [] [] s") auto
    obtain flds s2 where b: "alias_fields l d s1 = (flds, s2)" by fastforce
    have "all_safe (props_names props)" using 1(8) [OF ps refl 1(10)] a by simp
    moreover have "all_safe (fields_names flds)" using 1(9) [OF ps refl _ _ safe_aliases_step(3) [OF 1(10) a]] a b by simp
    ultimately show ?thesis using ps a b by simp
  next
    case False
    obtain flds s2 where b: "alias_fields [] d s = (flds, s2)" by fastforce
    then have "all_safe (fields_names flds)"
      using 1(1-7,10) False by (cases "dict_get ''properties'' d"; cases "the (dict_get ''properties'' d)") auto
    then show ?thesis using b no_properties_left [of "[]" d s] False by (auto split: option.splits json.splits)
  qed
next
  case (5 x xs s)
  obtain w s1 where a: "alias_node x s = (w, s1)" by fastforce
  show ?case using 5(1) 5(2) [OF a [symmetric] safe_aliases_step(1) [OF 5(3) a]] 5(3) a by (auto split: prod.split)
next
  case (7 n v ps acc l s)
  obtain w s1 where a: "alias_node v s = (w, s1)" by fastforce
  have w: "all_safe (schema_names w)" using 7(1) 7(4) a by simp
  have s1: "safe_aliases s1" by (rule safe_aliases_step(1) [OF 7(4) a])
  show ?case
  proof (cases "needs_alias n")
    case True
    obtain al s2 where b: "alias_for n s1 = (al, s2)" by fastforce
    show ?thesis
      using 7(2) [OF a [symmetric] True b [symmetric] alias_for_safe(1) [OF s1 b]] True a b w alias_for_safe(2) [OF s1 b] 7(5)
      by (simp add: props_names_set)
  next
    case False
    then show ?thesis using 7(3) [OF a [symmetric] False s1] a w 7(5) by (simp add: props_names_set)
  qed
next
  case (8 l k v s)
  show ?case
  proof (cases "k = ''required'' \<and> (\<exists>items. v = JList items)")
    case True
    then show ?thesis by auto
  next
    case False
    then have e: "alias_entry l k v s = alias_node v s" by (auto split: json.split)
    have "all_safe (schema_names (fst (alias_node v s)))" using False 8 by (cases "k = ''required''"; cases v) blast+
    then show ?thesis unfolding e by (rule entry_names_safe)
  qed
next
  case (10 l k v d s)
  obtain w s1 where a: "alias_entry l k v s = (w, s1)" by fastforce
  show ?case
  proof (cases "k = ''properties''")
    case True
    with 10 show ?thesis by simp
  next
    case False
    with 10(2,4) a 10(3) [OF False a [symmetric] safe_aliases_step(4) [OF 10(4) a]] show ?thesis
      by (auto simp del: alias_entry.simps entry_names.simps split: prod.split)
  qed
qed (simp_all add: split_def)

subsection \<open>Renaming brings no boolean subschema back\<close>

definition keeps_clean :: "json \<Rightarrow> json \<Rightarrow> bool" where
  "keeps_clean v w \<longleftrightarrow>
     (clean_node v \<longrightarrow> clean_node w) \<and>
     (case v of
        JObj m \<Rightarrow> (case w of JObj m' \<Rightarrow> clean_map m \<longrightarrow> clean_map m' | _ \<Rightarrow> False)
      | JList xs \<Rightarrow> (case w of JList ys \<Rightarrow> (clean_items xs \<longrightarrow> clean_items ys) \<and> (ys = [] \<longleftrightarrow> xs = []) | _ \<Rightarrow> False)
      | _ \<Rightarrow> w = v)"

lemma keeps_clean_node: "keeps_clean v w \<Longrightarrow> clean_node v \<Longrightarrow> clean_node w"
  by (simp add: keeps_clean_def)

lemma keeps_clean_entry: "keeps_clean v w \<Longrightarrow> clean_entry k v \<Longrightarrow> clean_entry k w"
  by (cases v; cases w) (auto simp: keeps_clean_def split: if_splits)

lemma keeps_clean_refl: "keeps_clean v v"
  by (simp add: keeps_clean_def split: json.split)

lemma prefixed_key: "prefix ALIAS_PREFIX n \<Longrightarrow> n \<notin> SCHEMA_VALUE_KEYS \<and> n \<notin> SCHEMA_LIST_KEYS \<and> n \<notin> SCHEMA_MAP_KEYS"
  by (auto simp: ALIAS_PREFIX_def SCHEMA_VALUE_KEYS_def SCHEMA_LIST_KEYS_def SCHEMA_MAP_KEYS_def)

lemma prefixed_entry: "prefix ALIAS_PREFIX n \<Longrightarrow> clean_entry n v"
  using prefixed_key [of n] by (simp add: sanitizer_keywords)

lemma clean_map_set: "clean_map acc \<Longrightarrow> clean_node v \<Longrightarrow> clean_map (dict_set k v acc)"
  unfolding dict_set_def by (induction acc) auto

lemma clean_fields_set: "clean_fields acc \<Longrightarrow> clean_entry k v \<Longrightarrow> clean_fields (dict_set k v acc)"
  unfolding dict_set_def by (induction acc) (auto simp del: clean_entry.simps)

lemma clean_get:
  "clean_map d \<Longrightarrow> dict_get k d = Some v \<Longrightarrow> clean_node v"
  "clean_fields d \<Longrightarrow> dict_get k d = Some v \<Longrightarrow> clean_entry k v"
  by (induction d) (auto simp del: clean_entry.simps split: if_splits)

lemma clean_required: "clean_items xs \<Longrightarrow> clean_items (map (required_item l) xs)"
proof (induction xs)
  case (Cons x xs)
  then show ?case by (cases x) (simp_all add: required_item_def)
qed simp

lemma alias_keeps_clean:
  "safe_aliases s \<Longrightarrow> keeps_clean v (fst (alias_node v s))"
  "safe_aliases s \<Longrightarrow> (clean_items xs \<longrightarrow> clean_items (fst (alias_items xs s))) \<and> (fst (alias_items xs s) = [] \<longleftrightarrow> xs = [])"
  "safe_aliases s \<Longrightarrow> (clean_map ps \<longrightarrow> clean_map acc \<longrightarrow> clean_map (fst (alias_props ps acc l s))) \<and>
     (clean_fields ps \<longrightarrow> clean_fields acc \<longrightarrow> clean_fields (fst (alias_props ps acc l s)))"
  "safe_aliases s \<Longrightarrow> keeps_clean v (fst (alias_entry l k v s))"
  "safe_aliases s \<Longrightarrow> (clean_map d \<longrightarrow> clean_map (fst (alias_fields l d s))) \<and> (clean_fields d \<longrightarrow> clean_fields (fst (alias_fields l d s)))"
proof (induction v s and xs s and ps acc l s and l k v s and l d s
    rule: alias_node_alias_items_alias_props_alias_entry_alias_fields.induct)
  case (1 d s)
  show ?case
  proof (cases "\<exists>ps. dict_get ''properties'' d = Some (JObj ps)")
    case True
    then obtain ps where ps: "dict_get ''properties'' d = Some (JObj ps)" by blast
    obtain props l s1 where a: "alias_props ps [] [] s = (props, l, s1)" by (cases "alias_props ps [] [] s") auto
    obtain flds s2 where b: "alias_fields l d s1 = (flds, s2)" by fastforce
    have p: "clean_map ps \<longrightarrow> clean_map props" "clean_fields ps \<longrightarrow> clean_fields props"
      using 1(8) [OF ps refl 1(10)] a by simp_all
    have f: "clean_map d \<longrightarrow> clean_map flds" "clean_fields d \<longrightarrow> clean_fields flds"
      using 1(9) [OF ps refl a [symmetric] refl safe_aliases_step(3) [OF 1(10) a]] b by simp_all
    have m: "clean_entry ''properties'' (JObj qs) \<longleftrightarrow> clean_map qs" for qs
      by (simp add: ONE_SCHEMA_KEYWORDS_def SCHEMA_ARRAY_KEYWORDS_def NAMED_SCHEMAS_KEYWORDS_def)
    have "alias_node (JObj d) s = (JObj ((''properties'', JObj props) # flds), s2)" using ps a b by simp
    then show ?thesis
      using p f m [of props] m [of ps] clean_get [of d "''properties''" "JObj ps"] ps
      by (simp add: keeps_clean_def del: clean_entry.simps alias_node.simps)
  next
    case False
    obtain flds s2 where b: "alias_fields [] d s = (flds, s2)" by fastforce
    then have "(clean_map d \<longrightarrow> clean_map flds) \<and> (clean_fields d \<longrightarrow> clean_fields flds)"
      using 1(1-7,10) False by (cases "dict_get ''properties'' d"; cases "the (dict_get ''properties'' d)") auto
    moreover have "alias_node (JObj d) s = (JObj flds, s2)" using b False by (auto split: option.split json.split)
    ultimately show ?thesis by (simp add: keeps_clean_def del: alias_node.simps)
  qed
next
  case (2 xs s)
  then show ?case by (simp add: keeps_clean_def split_def)
next
  case (5 x xs s)
  obtain w s1 where a: "alias_node x s = (w, s1)" by fastforce
  show ?case using 5(1) 5(2) [OF a [symmetric] safe_aliases_step(1) [OF 5(3) a]] 5(3) a by (auto simp: keeps_clean_node split_def)
next
  case (7 n v ps acc l s)
  obtain w s1 where a: "alias_node v s = (w, s1)" by fastforce
  have w: "keeps_clean v w" using 7(1) 7(4) a by simp
  have s1: "safe_aliases s1" by (rule safe_aliases_step(1) [OF 7(4) a])
  show ?case
  proof (cases "needs_alias n")
    case True
    obtain al s2 where b: "alias_for n s1 = (al, s2)" by fastforce
    note new = alias_for_safe [OF s1 b]
    show ?thesis
      using 7(2) [OF a [symmetric] True b [symmetric] new(1)] True a b w keeps_clean_node [OF w] prefixed_entry [OF new(3), of w]
      by (simp add: clean_map_set clean_fields_set del: clean_entry.simps)
  next
    case False
    then show ?thesis using 7(3) [OF a [symmetric] False s1] a keeps_clean_node [OF w] keeps_clean_entry [OF w, of n]
      by (simp add: clean_map_set clean_fields_set del: clean_entry.simps)
  qed
next
  case (8 l k v s)
  show ?case
  proof (cases "k = ''required'' \<and> (\<exists>items. v = JList items)")
    case True
    then show ?thesis by (auto simp: keeps_clean_def clean_required)
  next
    case False
    then have e: "alias_entry l k v s = alias_node v s" by (auto split: json.split)
    show ?thesis unfolding e using False 8 by (cases "k = ''required''"; cases v) blast+
  qed
next
  case (10 l k v d s)
  obtain w s1 where a: "alias_entry l k v s = (w, s1)" by fastforce
  show ?case
  proof (cases "k = ''properties''")
    case True
    with 10 show ?thesis by simp
  next
    case False
    have w: "keeps_clean v w" using 10(2) [OF False 10(4)] a by simp
    with False a 10(3) [OF False a [symmetric] safe_aliases_step(4) [OF 10(4) a]] show ?thesis
      by (auto simp: keeps_clean_node keeps_clean_entry split_def simp del: alias_entry.simps clean_entry.simps)
  qed
qed (simp_all add: keeps_clean_refl)

text \<open>A schema without unsafe names needs no alias.\<close>

lemma alias_none:
  "all_safe (schema_names v) \<Longrightarrow> snd (alias_node v s) = s"
  "all_safe (items_names xs) \<Longrightarrow> snd (alias_items xs s) = s"
  "all_safe (props_names ps) \<Longrightarrow> snd (snd (alias_props ps acc l s)) = s"
  "all_safe (entry_names k v) \<Longrightarrow> snd (alias_entry l k v s) = s"
  "all_safe (fields_names d) \<Longrightarrow> snd (alias_fields l d s) = s"
proof (induction v s and xs s and ps acc l s and l k v s and l d s
    rule: alias_node_alias_items_alias_props_alias_entry_alias_fields.induct)
  case (1 d s)
  show ?case
  proof (cases "\<exists>ps. dict_get ''properties'' d = Some (JObj ps)")
    case True
    then obtain ps where ps: "dict_get ''properties'' d = Some (JObj ps)" by blast
    obtain props l s1 where a: "alias_props ps [] [] s = (props, l, s1)" by (cases "alias_props ps [] [] s") auto
    obtain flds s2 where b: "alias_fields l d s1 = (flds, s2)" by fastforce
    have "s1 = s" using 1(8) [OF ps refl] 1(10) a ps by simp
    moreover have "s2 = s1" using 1(9) [OF ps refl a [symmetric] refl] 1(10) b ps by simp
    ultimately show ?thesis using ps a b by simp
  next
    case False
    then show ?thesis using 1(1-7,10) by (auto split: option.splits json.splits prod.splits)
  qed
next
  case (7 n v ps acc l s)
  obtain w s1 where a: "alias_node v s = (w, s1)" by fastforce
  have "s1 = s" using 7(1,4) a by simp
  then show ?case using 7(3) [OF a [symmetric]] 7(4) a by simp
next
  case (8 l k v s)
  then show ?case by (cases v) (auto simp del: alias_node.simps schema_names.simps split: if_splits)
next
  case (10 l k v d s)
  then show ?case
    by (fastforce simp del: alias_entry.simps entry_names.simps split: prod.splits if_splits)
qed (auto split: prod.splits)

end
