(* ===== verification/NimTools.thy ===== *)
theory NimTools
  imports NimSound
begin

section \<open>The tools of a NIM request, from the schema to the arguments of a call\<close>

text \<open>
  The results on \<open>_sanitize_nim_tool_schemas\<close>: what is left in the schemas that are sent, how the
  aliases travel with the body, and that renaming the arguments of a call back gives the arguments
  the caller's schema asked for.
\<close>

subsection \<open>The schemas that are sent\<close>

definition tool_parameters :: "json \<Rightarrow> jdict option" where
  "tool_parameters tool =
     (case json_get ''function'' tool of
        Some f \<Rightarrow> (case json_get ''parameters'' f of Some (JObj ps) \<Rightarrow> Some ps | _ \<Rightarrow> None)
      | None \<Rightarrow> None)"





definition body_tools :: "jdict \<Rightarrow> json list" where
  "body_tools body = (case dict_get ''tools'' body of Some (JList tools) \<Rightarrow> tools | _ \<Rightarrow> [])"

definition fresh_aliases :: "json \<Rightarrow> alias_state" where
  "fresh_aliases v = \<lparr>as_reserved = collect_names v, as_to_original = [], as_to_alias = []\<rparr>"

lemma fresh_aliases_ok: "aliases_ok (set (collect_names v)) (fresh_aliases v)" "safe_aliases (fresh_aliases v)"
  by (simp_all add: aliases_ok_def safe_aliases_def fresh_aliases_def)

lemma alias_node_ok:
  assumes "alias_node v (fresh_aliases v) = (w, s)"
  shows "aliases_ok (set (collect_names v)) s"
  using alias_state_induct(1) [where P = "aliases_ok (set (collect_names v))", OF _ fresh_aliases_ok(1), where v = v]
    alias_for_ok assms by simp







text \<open>The two keywords that are left: a boolean there is sent.\<close>

lemma boolean_dependency_sent:
  "sanitize_fields [(''dependencies'', JObj [(''a'', JBool False)]), (''contentSchema'', JBool True)] =
     [(''dependencies'', JObj [(''a'', JBool False)]), (''contentSchema'', JBool True)]"
  by code_simp

subsection \<open>The arguments of a call\<close>

text \<open>
  What a caller's arguments look like under the schema that is sent: every renamed property has its
  alias.  The first alias of a name, which is the only one.
\<close>

definition sent_key :: "(string, string) pydict \<Rightarrow> string \<Rightarrow> string" where
  "sent_key al k = (case find (\<lambda>(a, n). n = k) al of None \<Rightarrow> k | Some (a, n) \<Rightarrow> a)"

fun sent_value :: "(string, string) pydict \<Rightarrow> json \<Rightarrow> json" where
  "sent_value al (JObj d) = JObj (map (\<lambda>(k, v). (sent_key al k, sent_value al v)) d)"
| "sent_value al (JList vs) = JList (map (sent_value al) vs)"
| "sent_value al v = v"

text \<open>No key is repeated, and none is an alias.\<close>

fun plain_value :: "(string, string) pydict \<Rightarrow> json \<Rightarrow> bool" where
  "plain_value al (JObj d) \<longleftrightarrow> dict_ok d \<and> list_all (\<lambda>(k, v). dict_get k al = None \<and> plain_value al v) d"
| "plain_value al (JList vs) \<longleftrightarrow> list_all (plain_value al) vs"
| "plain_value al v \<longleftrightarrow> True"

lemma alias_sent_key:
  assumes "dict_ok al" "dict_get k al = None"
  shows "alias_key al (sent_key al k) = k"
proof (cases "find (\<lambda>(a, n). n = k) al")
  case None
  with assms show ?thesis by (simp add: sent_key_def alias_key_def)
next
  case (Some an)
  obtain a n where an: "an = (a, n)" by fastforce
  with Some have "(a, n) \<in> set al" "n = k" by (auto simp: find_Some_iff set_conv_nth)
  then have "dict_get a al = Some k" using dict_mem_get [OF assms(1)] by simp
  with Some an show ?thesis by (simp add: sent_key_def alias_key_def)
qed

lemma dict_of_distinct:
  assumes "distinct (map fst kvs)"
  shows "dict_of kvs = kvs"
proof -
  have "fold (\<lambda>(k, v). dict_set k v) kvs acc = acc @ kvs"
    if "distinct (map fst kvs)" "set (map fst kvs) \<inter> set (dict_keys acc) = {}" for acc
    using that
  proof (induction kvs arbitrary: acc)
    case (Cons kv kvs)
    obtain k v where kv: "kv = (k, v)" by fastforce
    have "AList.update k v acc = acc @ [(k, v)]"
      using Cons.prems kv by (induction acc) (auto simp: dict_keys_def)
    then show ?case using Cons kv by (auto simp: dict_set_def dict_keys_def)
  qed simp
  then show ?thesis using assms by (simp add: dict_of_def)
qed

lemma restore_sent:
  "dict_ok al \<Longrightarrow> plain_value al v \<Longrightarrow> restore_value al (sent_value al v) = v"
proof (induction al v rule: plain_value.induct)
  case (1 al d)
  have "map ((\<lambda>(k, v). (alias_key al k, restore_value al v)) \<circ> (\<lambda>(k, v). (sent_key al k, sent_value al v))) d = d"
    using 1 by (intro map_idI) (auto simp: list_all_iff alias_sent_key)
  moreover have "dict_of d = d" using 1(3) by (intro dict_of_distinct) (simp add: dict_ok_def dict_keys_def)
  ultimately show ?case by simp
qed (simp_all add: list_all_iff map_idI)

text \<open>The aliases of one schema.\<close>

definition parameter_aliases :: "jdict \<Rightarrow> (string, string) pydict" where
  "parameter_aliases ps = snd (alias_nim_tool_parameters (JObj (sanitize_fields ps)))"

lemma alias_nim_tool_parameters_aliases:
  assumes "alias_nim_tool_parameters v = (w, al)"
  shows "dict_ok al" "dict_get a al = Some n \<Longrightarrow> prefix ALIAS_PREFIX a \<and> a \<notin> set (collect_names v) \<and> needs_alias n"
    "dict_get a al = Some n \<Longrightarrow> dict_get b al = Some n \<Longrightarrow> a = b"
    "n \<in> set (schema_names v) \<Longrightarrow> needs_alias n \<Longrightarrow> \<exists>a. dict_get a al = Some n"
proof -
  obtain u s where a: "alias_node v (fresh_aliases v) = (u, s)" by fastforce
  note ok = alias_node_ok [OF a]
  have al: "al = as_to_original s"
    using assms a by (auto simp: alias_nim_tool_parameters_def fresh_aliases_def split: if_splits)
  show "dict_ok al" using ok al by (simp add: aliases_ok_def)
  show "dict_get a al = Some n \<Longrightarrow> prefix ALIAS_PREFIX a \<and> a \<notin> set (collect_names v) \<and> needs_alias n"
    using ok al by (auto simp: aliases_ok_def)
  have "(dict_get x al = Some y) = (dict_get y (as_to_alias s) = Some x)" for x y
    using ok al by (simp add: aliases_ok_def)
  then show "dict_get a al = Some n \<Longrightarrow> dict_get b al = Some n \<Longrightarrow> a = b" by simp
  show "\<exists>a. dict_get a al = Some n" if "n \<in> set (schema_names v)" "needs_alias n"
    using alias_covers(1) [of v "fresh_aliases v"] that a ok al
    by (auto simp: covered_def has_alias_def aliases_ok_def)
qed

text \<open>
  C0. Restoring the arguments of a call is the inverse of the renaming of the schema: a value in
  which every property has its alias is turned into the value with the caller's names, at every
  depth, when no key of the value is itself one of the aliases and none is repeated.
\<close>

theorem nim_arguments_restored:
  "plain_value (parameter_aliases ps) v \<Longrightarrow>
     restore_value (parameter_aliases ps) (sent_value (parameter_aliases ps) v) = v"
  by (rule restore_sent)
    (auto simp: parameter_aliases_def intro: alias_nim_tool_parameters_aliases(1) [OF prod.collapse [symmetric]])

text \<open>
  C0. The aliases of a schema are one to one, belong to unsafe names only, start with the prefix
  and are no property name of the schema; every unsafe property name has one.
\<close>

theorem nim_aliases_fresh:
  assumes "al = parameter_aliases ps" "v = JObj (sanitize_fields ps)"
  shows "(\<forall>a n. dict_get a al = Some n \<longrightarrow> needs_alias n \<and> prefix ALIAS_PREFIX a \<and> a \<notin> set (collect_names v)) \<and>
     (\<forall>a b n. dict_get a al = Some n \<longrightarrow> dict_get b al = Some n \<longrightarrow> a = b) \<and>
     (\<forall>n. n \<in> set (schema_names v) \<longrightarrow> needs_alias n \<longrightarrow> (\<exists>a. dict_get a al = Some n))"
proof -
  have w: "alias_nim_tool_parameters v = (fst (alias_nim_tool_parameters v), al)"
    using assms by (simp add: parameter_aliases_def)
  note facts = alias_nim_tool_parameters_aliases [OF w]
  show ?thesis using facts(2-4) by blast
qed

subsection \<open>The aliases travel with the body\<close>

definition tool_name :: "json \<Rightarrow> string option" where
  "tool_name tool =
     (case json_get ''function'' tool of
        Some f \<Rightarrow> (case json_get ''name'' f of Some (JStr n) \<Rightarrow> Some n | _ \<Rightarrow> None)
      | None \<Rightarrow> None)"

definition aliases_of_tool :: "json \<Rightarrow> (string, string) pydict" where
  "aliases_of_tool tool = (case tool_parameters tool of None \<Rightarrow> [] | Some ps \<Rightarrow> parameter_aliases ps)"

definition no_empty_aliases :: "tool_aliases \<Rightarrow> bool" where
  "no_empty_aliases als \<longleftrightarrow> (\<forall>(name, al)\<in>set als. al \<noteq> [])"

lemma sanitize_tool_aliases:
  assumes "sanitize_tool tool als = (tool', als')"
  shows "als' = (case tool_name tool of
     Some name \<Rightarrow> if aliases_of_tool tool \<noteq> [] \<and> name \<noteq> [] then dict_set name (aliases_of_tool tool) als else als
   | None \<Rightarrow> als)"
proof (cases "tool_parameters tool")
  case None
  then have "als' = als" "aliases_of_tool tool = []"
    using assms by (auto simp: sanitize_tool_def tool_parameters_def aliases_of_tool_def split: json.splits option.splits)
  then show ?thesis by (simp split: option.split)
next
  case (Some ps)
  then obtain t f where t: "tool = JObj t" "dict_get ''function'' t = Some (JObj f)" "dict_get ''parameters'' f = Some (JObj ps)"
    by (cases tool) (auto simp: tool_parameters_def split: option.splits json.splits elim: json_get.elims)
  obtain w al where w: "alias_nim_tool_parameters (JObj (sanitize_fields ps)) = (w, al)" by fastforce
  then have al: "aliases_of_tool tool = al" using Some by (simp add: aliases_of_tool_def parameter_aliases_def)
  have n: "tool_name tool = (case dict_get ''name'' f of Some (JStr n) \<Rightarrow> Some n | _ \<Rightarrow> None)"
    using t by (simp add: tool_name_def)
  have "als' = (case dict_get ''name'' f of
      Some (JStr name) \<Rightarrow> if al \<noteq> [] \<and> name \<noteq> [] then dict_set name al als else als | _ \<Rightarrow> als)"
    using assms t w by (simp add: sanitize_tool_def)
  then show ?thesis unfolding al n by (auto split: option.split json.split)
qed

lemma no_empty_aliases_set: "no_empty_aliases als \<Longrightarrow> al \<noteq> [] \<Longrightarrow> no_empty_aliases (dict_set name al als)"
  unfolding dict_set_def by (induction als) (auto simp: no_empty_aliases_def)

lemma sanitize_tools_aliases:
  "sanitize_tools tools als = (tools', als') \<Longrightarrow>
     (no_empty_aliases als \<longrightarrow> no_empty_aliases als') \<and>
     ((\<forall>u\<in>set tools. tool_name u \<noteq> Some name) \<longrightarrow> dict_get name als' = dict_get name als)"
proof (induction tools arbitrary: als tools')
  case (Cons t ts)
  obtain t' als1 where t: "sanitize_tool t als = (t', als1)" by fastforce
  note als1 = sanitize_tool_aliases [OF t]
  obtain ts' where ts: "sanitize_tools ts als1 = (ts', als')" using Cons.prems t by (auto split: prod.splits)
  have "no_empty_aliases als \<longrightarrow> no_empty_aliases als1" using als1 by (simp add: no_empty_aliases_set split: option.splits)
  moreover have "tool_name t \<noteq> Some name \<longrightarrow> dict_get name als1 = dict_get name als"
    using als1 by (auto split: option.splits if_splits)
  ultimately show ?case using Cons.IH [OF ts] by simp
qed simp

lemma sanitize_tools_append:
  "sanitize_tools (xs @ ys) als =
     (case sanitize_tools xs als of (xs, als) \<Rightarrow> case sanitize_tools ys als of (ys, als) \<Rightarrow> (xs @ ys, als))"
  by (induction xs arbitrary: als) (auto split: prod.split)

lemma string_entries_map: "string_entries (map (\<lambda>(a, n). (a, JStr n)) al) = al"
  by (induction al) auto

lemma read_aliases_json:
  "no_empty_aliases als \<Longrightarrow> read_aliases (map (\<lambda>(name, al). (name, JObj (map (\<lambda>(a, n). (a, JStr n)) al))) als) = als"
  by (induction als) (auto simp: string_entries_map no_empty_aliases_def)

text \<open>
  C0. What the stream uses to restore the arguments of a tool is what was renamed in its schema:
  the aliases read back from the body under the tool's name are those of its parameters, none when
  nothing was renamed, and the body that is sent does not carry them.
\<close>

theorem nim_aliases_travel:
  assumes "dict_get ''tools'' body = Some (JList (ts @ tool # us))" "tool_name tool = Some name" "name \<noteq> []"
    and "\<forall>u\<in>set (ts @ us). tool_name u \<noteq> Some name"
  shows "(case dict_get name (nim_tool_argument_aliases_from_body (sanitize_nim_tool_schemas body)) of
            None \<Rightarrow> [] | Some al \<Rightarrow> al) = aliases_of_tool tool \<and>
     dict_get NIM_TOOL_ARGUMENT_ALIASES_KEY (body_without_nim_tool_argument_aliases (sanitize_nim_tool_schemas body)) = None"
proof -
  obtain ts' als1 where a: "sanitize_tools ts [] = (ts', als1)" by fastforce
  obtain tool' als2 where b: "sanitize_tool tool als1 = (tool', als2)" by fastforce
  obtain us' als where c: "sanitize_tools us als2 = (us', als)" by fastforce
  have s: "sanitize_tools (ts @ tool # us) [] = (ts' @ tool' # us', als)"
    using a b c by (simp add: sanitize_tools_append)
  have ne: "no_empty_aliases als"
    using sanitize_tools_aliases [OF s] by (simp add: no_empty_aliases_def)
  have "dict_get name als1 = None" using sanitize_tools_aliases [OF a, of name] assms(4) by simp
  moreover have "dict_get name als = dict_get name als2" using sanitize_tools_aliases [OF c, of name] assms(4) by simp
  ultimately have got: "(case dict_get name als of None \<Rightarrow> [] | Some al \<Rightarrow> al) = aliases_of_tool tool"
    using sanitize_tool_aliases [OF b] assms(2,3) by auto
  have "nim_tool_argument_aliases_from_body (sanitize_nim_tool_schemas body) = als"
    using assms(1) s read_aliases_json [OF ne]
    by (simp add: sanitize_nim_tool_schemas_def nim_tool_argument_aliases_from_body_def Let_def aliases_json_def)
  then show ?thesis using got by (simp add: body_without_nim_tool_argument_aliases_def)
qed

subsection \<open>A tool with an unsafe parameter\<close>

definition demo_parameters :: jdict where
  "demo_parameters =
     [(''type'', JStr ''object''),
      (''properties'', JObj [(''type'', JObj [(''type'', JStr ''string'')]), (''extra'', JBool True)]),
      (''required'', JList [JStr ''type'']), (''additionalProperties'', JBool False)]"

definition demo_nim_body :: jdict where
  "demo_nim_body =
     [(''tools'', JList [JObj [(''type'', JStr ''function''),
        (''function'', JObj [(''name'', JStr ''search''), (''parameters'', JObj demo_parameters)])]])]"

lemma demo_parameter_aliases: "parameter_aliases demo_parameters = [(''_fcc_arg_type'', ''type'')]"
  by code_simp

lemma demo_nim_tools:
  "body_tools (sanitize_nim_tool_schemas demo_nim_body) =
     [JObj [(''type'', JStr ''function''),
        (''function'', JObj [(''name'', JStr ''search''),
           (''parameters'', JObj
              [(''properties'', JObj [(''_fcc_arg_type'', JObj [(''type'', JStr ''string'')])]),
               (''type'', JStr ''object''), (''required'', JList [JStr ''_fcc_arg_type''])])])]]"
  by code_simp

lemma nim_arguments_restored_witness:
  "restore_value (parameter_aliases demo_parameters)
     (sent_value (parameter_aliases demo_parameters) (JObj [(''type'', JStr ''book''), (''page'', JInt 2)])) =
   JObj [(''type'', JStr ''book''), (''page'', JInt 2)]"
  by (rule nim_arguments_restored) (unfold demo_parameter_aliases, simp add: dict_ok_def)

lemma demo_sent_value:
  "sent_value (parameter_aliases demo_parameters) (JObj [(''type'', JStr ''book''), (''page'', JInt 2)]) =
   JObj [(''_fcc_arg_type'', JStr ''book''), (''page'', JInt 2)]"
  unfolding demo_parameter_aliases by (simp add: sent_key_def)

lemma nim_aliases_fresh_witness:
  "needs_alias ''type'' \<and> prefix ALIAS_PREFIX ''_fcc_arg_type'' \<and>
   ''_fcc_arg_type'' \<notin> set (collect_names (JObj (sanitize_fields demo_parameters)))"
proof -
  have got: "dict_get ''_fcc_arg_type'' (parameter_aliases demo_parameters) = Some ''type''"
    by (simp add: demo_parameter_aliases)
  show ?thesis
    using nim_aliases_fresh [OF refl refl, of demo_parameters] got by blast
qed

lemma nim_aliases_travel_witness:
  "(case dict_get ''search'' (nim_tool_argument_aliases_from_body (sanitize_nim_tool_schemas demo_nim_body)) of
      None \<Rightarrow> [] | Some al \<Rightarrow> al) = [(''_fcc_arg_type'', ''type'')] \<and>
   dict_get NIM_TOOL_ARGUMENT_ALIASES_KEY
     (body_without_nim_tool_argument_aliases (sanitize_nim_tool_schemas demo_nim_body)) = None"
proof -
  have "aliases_of_tool (JObj [(''type'', JStr ''function''),
      (''function'', JObj [(''name'', JStr ''search''), (''parameters'', JObj demo_parameters)])]) = [(''_fcc_arg_type'', ''type'')]"
    by (simp add: aliases_of_tool_def tool_parameters_def demo_parameter_aliases)
  then show ?thesis
    using nim_aliases_travel [of demo_nim_body "[]" "JObj [(''type'', JStr ''function''),
      (''function'', JObj [(''name'', JStr ''search''), (''parameters'', JObj demo_parameters)])]" "[]" "''search''"]
    by (simp add: demo_nim_body_def tool_name_def)
qed

text \<open>
  The names under \<open>required\<close> are renamed with the aliases of the same object only: an alternative
  that requires the renamed property still asks for the old name, which the schema no longer has.
\<close>

definition any_of_parameters :: jdict where
  "any_of_parameters =
     [(''type'', JStr ''object''), (''properties'', JObj [(''type'', JObj [(''type'', JStr ''string'')])]),
      (''anyOf'', JList [JObj [(''required'', JList [JStr ''type''])]])]"

lemma nested_required_not_renamed:
  "fst (alias_nim_tool_parameters (JObj (sanitize_fields any_of_parameters))) =
     JObj [(''properties'', JObj [(''_fcc_arg_type'', JObj [(''type'', JStr ''string'')])]),
       (''type'', JStr ''object''), (''anyOf'', JList [JObj [(''required'', JList [JStr ''type''])]])]"
  by code_simp

end
