(* ===== verification/OpenAiRequests.thy ===== *)
theory OpenAiRequests
  imports ConvertSound NativeRequest
begin

section \<open>Bodies for the OpenAI-compatible providers\<close>

text \<open>
  The builders of Groq, Cerebras, Gemini, Mistral, Codestral and OpenCode: the common conversion, a
  refusal when it fails, and what each provider changes.  The text of a conversion error is an
  argument; the errors of the conversion that are no conversion errors are passed on.
\<close>

datatype build_error = Raised py_error | Refused exc

type_synonym built_body = "build_error + jdict"

definition replay_of :: "bool \<Rightarrow> replay_mode" where
  "replay_of thinking_enabled = (if thinking_enabled then REASONING_CONTENT else DISABLED)"

definition openai_base_body :: "text_env \<Rightarrow> string \<Rightarrow> messages_request \<Rightarrow> bool \<Rightarrow> built_body" where
  "openai_base_body env msg rq thinking_enabled =
     (case build_base_request_body env rq None (replay_of thinking_enabled) of
        Inl ConversionError \<Rightarrow> Inl (Refused (invalid_request_error msg None))
      | Inl e \<Rightarrow> Inl (Raised e)
      | Inr body \<Rightarrow> Inr body)"

fun bind_built :: "built_body \<Rightarrow> (jdict \<Rightarrow> jdict) \<Rightarrow> built_body" where
  "bind_built (Inl e) f = Inl e"
| "bind_built (Inr body) f = Inr (f body)"

subsection \<open>Mistral, Codestral and OpenCode\<close>

definition mistral_build_request_body :: "text_env \<Rightarrow> string \<Rightarrow> messages_request \<Rightarrow> bool \<Rightarrow> built_body" where
  "mistral_build_request_body = openai_base_body"

definition opencode_build_request_body :: "text_env \<Rightarrow> string \<Rightarrow> messages_request \<Rightarrow> bool \<Rightarrow> built_body" where
  "opencode_build_request_body = openai_base_body"

subsection \<open>Groq and Cerebras\<close>

definition GROQ_UNSUPPORTED_TOP_KEYS :: "string list" where
  "GROQ_UNSUPPORTED_TOP_KEYS = [''logprobs'', ''logit_bias'', ''top_logprobs'']"

definition strip_message_names :: "jdict \<Rightarrow> jdict" where
  "strip_message_names body =
     (case dict_get ''messages'' body of
        Some (JList msgs) \<Rightarrow>
          dict_set ''messages'' (JList (map (\<lambda>m. case m of JObj d \<Rightarrow> JObj (dict_del ''name'' d) | _ \<Rightarrow> m) msgs)) body
      | _ \<Rightarrow> body)"

definition strip_unsupported_body_keys :: "jdict \<Rightarrow> jdict" where
  "strip_unsupported_body_keys body = fold dict_del GROQ_UNSUPPORTED_TOP_KEYS body"

definition normalize_max_completion_tokens :: "jdict \<Rightarrow> jdict" where
  "normalize_max_completion_tokens body =
     (if dict_has ''max_completion_tokens'' body then dict_del ''max_tokens'' body
      else case dict_get ''max_tokens'' body of
        None \<Rightarrow> body
      | Some JNull \<Rightarrow> body
      | Some v \<Rightarrow> dict_set ''max_completion_tokens'' v (dict_del ''max_tokens'' body))"

definition normalize_n_candidates :: "jdict \<Rightarrow> jdict" where
  "normalize_n_candidates body = (if get_null ''n'' body = JNull then body else dict_set ''n'' (JInt 1) body)"

definition add_extra_body :: "messages_request \<Rightarrow> jdict \<Rightarrow> jdict" where
  "add_extra_body rq body =
     (case rq_extra_body rq of
        None \<Rightarrow> body
      | Some extra \<Rightarrow> if extra \<noteq> [] then dict_set ''extra_body'' (JObj extra) body else body)"

definition groq_build_request_body :: "text_env \<Rightarrow> string \<Rightarrow> messages_request \<Rightarrow> bool \<Rightarrow> built_body" where
  "groq_build_request_body env msg rq thinking_enabled =
     bind_built (openai_base_body env msg rq thinking_enabled) (\<lambda>body.
       normalize_n_candidates (normalize_max_completion_tokens
         (strip_unsupported_body_keys (strip_message_names (add_extra_body rq body)))))"

definition cerebras_build_request_body :: "text_env \<Rightarrow> string \<Rightarrow> messages_request \<Rightarrow> bool \<Rightarrow> built_body" where
  "cerebras_build_request_body env msg rq thinking_enabled =
     bind_built (openai_base_body env msg rq thinking_enabled) (\<lambda>body.
       normalize_max_completion_tokens (add_extra_body rq body))"

subsection \<open>Gemini\<close>

text \<open>The thinking section of \<open>extra_body\<close>: each level is entered only where it is an object.\<close>

definition google_thinking :: "jdict \<Rightarrow> jdict" where
  "google_thinking extra =
     (let extra = set_default ''google'' (JObj []) extra in
      case dict_get ''google'' extra of
        Some (JObj google) \<Rightarrow>
          (let google = set_default ''thinking_config'' (JObj []) google in
           case dict_get ''thinking_config'' google of
             Some (JObj cfg) \<Rightarrow>
               dict_set ''google'' (JObj (dict_set ''thinking_config''
                 (JObj (set_default ''include_thoughts'' (JBool True) cfg)) google)) extra
           | _ \<Rightarrow> dict_set ''google'' (JObj google) extra)
      | _ \<Rightarrow> extra)"

definition gemini_build_request_body :: "text_env \<Rightarrow> string \<Rightarrow> messages_request \<Rightarrow> bool \<Rightarrow> built_body" where
  "gemini_build_request_body env msg rq thinking_enabled =
     bind_built (openai_base_body env msg rq thinking_enabled) (\<lambda>body.
       let extra = (case rq_extra_body rq of None \<Rightarrow> [] | Some e \<Rightarrow> e);
           body = dict_set ''reasoning_effort'' (JStr (if thinking_enabled then ''high'' else ''none'')) body;
           extra = (if thinking_enabled then google_thinking extra else extra)
       in if extra \<noteq> [] then dict_set ''extra_body'' (JObj extra) body else body)"

subsection \<open>The keys of a converted conversation\<close>

definition CHAT_KEYS :: "string set" where
  "CHAT_KEYS = {''role'', ''content'', ''tool_calls'', ''reasoning_content'', ''tool_call_id''}"

definition chat_keys :: "jdict \<Rightarrow> bool" where
  "chat_keys d \<longleftrightarrow> set (dict_keys d) \<subseteq> CHAT_KEYS"

lemma chat_keys_simps [simp]:
  "chat_keys []" "chat_keys ((k, v) # d) \<longleftrightarrow> k \<in> CHAT_KEYS \<and> chat_keys d"
  "chat_keys (dict_set k v d) \<longleftrightarrow> k \<in> CHAT_KEYS \<and> chat_keys d"
  by (auto simp: chat_keys_def)

lemma chat_key_simps [simp]:
  "''role'' \<in> CHAT_KEYS" "''content'' \<in> CHAT_KEYS" "''tool_calls'' \<in> CHAT_KEYS"
  "''reasoning_content'' \<in> CHAT_KEYS" "''tool_call_id'' \<in> CHAT_KEYS"
  by (simp_all add: CHAT_KEYS_def)

lemma assistant_keys: "convert_assistant_message env bs r rp = Inr out \<Longrightarrow> list_all chat_keys out"
  unfolding convert_assistant_message_def bind_result_case Let_def
  by (auto split: sum.split_asm prod.split_asm if_split_asm)

lemma deferred_keys: "deferred_post_tool_to_messages env p = Inr out \<Longrightarrow> list_all chat_keys out"
  by (auto simp: deferred_post_tool_to_messages_def assistant_keys split: if_split_asm)

lemma flush_keys: "flush_text ts = Inr out \<Longrightarrow> list_all chat_keys out"
  by (auto simp: flush_text_def split: if_split_asm)

lemma tool_message_keys [simp]: "chat_keys (tool_message env b)"
  by (simp add: tool_message_def)

lemma user_blocks_keys: "user_blocks env bs ts = Inr out \<Longrightarrow> list_all chat_keys out"
  by (induction env bs ts arbitrary: out rule: user_blocks.induct) (auto simp: flush_keys split: if_split_asm)

lemma inject_keys: "inject_blocks env bs ts p cl = Inr (out, p', cl') \<Longrightarrow> list_all chat_keys out"
proof (induction bs arbitrary: ts p cl out p' cl')
  case Nil
  then show ?case by (auto simp: flush_keys)
next
  case (Cons b bs)
  then show ?case
    by (auto simp: flush_keys deferred_keys Let_def split: if_split_asm)
qed

lemma replay_keys: "replay_deferred env pending = Inr (out, pending') \<Longrightarrow> list_all chat_keys out"
  by (auto simp: replay_deferred_def deferred_keys split: if_split_asm)

lemma split_keys:
  assumes "convert_assistant_message_with_split env bs i r rp = Inr (out, fresh)"
  shows "list_all chat_keys out"
proof (cases "iter_tool_uses_in_order env bs = []")
  case True
  then show ?thesis using assms by (auto simp: convert_assistant_message_with_split_def Let_def assistant_keys)
next
  case False
  have hd: "chat_keys (hd o1)" if "convert_assistant_message env b r rp = Inr o1" for b o1
    using that by (elim convert_assistant_shape) (use assistant_keys [OF that] in auto)
  show ?thesis using assms False
    unfolding convert_assistant_message_with_split_def Let_def
    by (auto simp: hd split: if_split_asm)
qed

lemma assistant_list_keys: "convert_assistant_list env rp bs r pending = Inr (out, pending') \<Longrightarrow> list_all chat_keys out"
  by (auto simp: convert_assistant_list_def assistant_keys split_keys split: option.split_asm)

lemma user_list_keys: "convert_user_list env bs pending = Inr (out, pending') \<Longrightarrow> list_all chat_keys out"
  unfolding convert_user_list_def convert_user_message_def convert_user_message_with_injection_def
  by (auto simp: user_blocks_keys replay_keys split: if_split_asm dest: inject_keys)

lemma text_message_keys [simp]: "chat_keys (convert_text_message rp role c r)"
  by (simp add: convert_text_message_def Let_def split: replay_mode.split)

lemma step_keys:
  assumes "convert_step env rp m pending = Inr (out, pending')"
  shows "list_all chat_keys out"
proof (cases "msg_content m")
  case (JList bs)
  then show ?thesis using assms
    by (auto simp: convert_step_def Let_def replay_keys assistant_list_keys user_list_keys split: if_split_asm)
qed (use assms in \<open>auto simp: convert_step_def Let_def replay_keys split: if_split_asm\<close>)

lemma conversion_keys: "convert_loop env rp ms pending = Inr out \<Longrightarrow> list_all chat_keys out"
  by (induction ms arbitrary: pending out) (auto simp: replay_keys step_keys)

definition BODY_KEYS :: "string set" where
  "BODY_KEYS = {''model'', ''messages'', ''max_tokens'', ''temperature'', ''top_p'', ''stop'', ''tools'', ''tool_choice''}"

definition keys_within :: "string set \<Rightarrow> jdict \<Rightarrow> bool" where
  "keys_within K d \<longleftrightarrow> set (dict_keys d) \<subseteq> K"

lemma keys_within_simps [simp]:
  "keys_within K []" "keys_within K ((k, v) # d) \<longleftrightarrow> k \<in> K \<and> keys_within K d"
  "keys_within K (dict_set k v d) \<longleftrightarrow> k \<in> K \<and> keys_within K d"
  by (auto simp: keys_within_def)

lemma keys_within_set_if_not_none: "k \<in> K \<Longrightarrow> keys_within K d \<Longrightarrow> keys_within K (set_if_not_none k v d)"
  by (auto simp: set_if_not_none_def split: option.split json.split)

lemma get_set_if_not_none: "j \<noteq> k \<Longrightarrow> dict_get j (set_if_not_none k v d) = dict_get j d"
  by (auto simp: set_if_not_none_def split: option.split json.split)

lemma system_keys: "convert_system_prompt v = Inr (Some m) \<Longrightarrow> chat_keys m"
  by (auto simp: convert_system_prompt_def Let_def split: json.split_asm if_split_asm)

lemma base_body_shape:
  assumes "openai_base_body env msg rq thinking_enabled = Inr body"
  shows "keys_within BODY_KEYS body \<and>
     (\<exists>out. dict_get ''messages'' body = Some (JList (map JObj out)) \<and> list_all chat_keys out)"
proof -
  have b: "build_base_request_body env rq None (replay_of thinking_enabled) = Inr body"
    using assms by (auto simp: openai_base_body_def split: sum.splits py_error.splits)
  obtain out sys where o: "convert_messages env (replay_of thinking_enabled) (rq_messages rq) = Inr out"
    and sys: "(case rq_system rq of Some system \<Rightarrow> if json_truthy system then convert_system_prompt system else Inr None
                | None \<Rightarrow> Inr None) = Inr sys"
    and body: "body = (let messages = (case sys of Some m \<Rightarrow> m # out | None \<Rightarrow> out);
              body = [(''model'', JStr (rq_model rq)), (''messages'', JList (map JObj messages))];
              body = set_if_not_none ''max_tokens'' (map_option JInt (int_or_default (rq_max_tokens rq) None)) body;
              body = set_if_not_none ''temperature'' (rq_temperature rq) body;
              body = set_if_not_none ''top_p'' (rq_top_p rq) body;
              body = (case rq_stop_sequences rq of
                        Some ss \<Rightarrow> if ss \<noteq> [] then dict_set ''stop'' (JList (map JStr ss)) body else body
                      | None \<Rightarrow> body);
              body = (case rq_tools rq of
                        Some ts \<Rightarrow> if ts \<noteq> [] then dict_set ''tools'' (JList (convert_tools ts)) body else body
                      | None \<Rightarrow> body)
          in (case rq_tool_choice rq of
                        Some c \<Rightarrow> if json_truthy c then dict_set ''tool_choice'' (convert_tool_choice c) body else body
                      | None \<Rightarrow> body))"
    using b by (auto simp: build_base_request_body_def Let_def split: if_split_asm)
  let ?out = "case sys of Some m \<Rightarrow> m # out | None \<Rightarrow> out"
  have out: "list_all chat_keys ?out"
    using conversion_keys o sys system_keys
    by (auto simp: convert_messages_def split: option.splits if_split_asm)
  have "keys_within BODY_KEYS body \<and> dict_get ''messages'' body = Some (JList (map JObj ?out))"
    unfolding body Let_def
    by (auto simp: BODY_KEYS_def keys_within_set_if_not_none get_set_if_not_none split: option.split)
  with out show ?thesis by blast
qed

lemma dict_del_absent: "k \<notin> set (dict_keys d) \<Longrightarrow> dict_del k d = d"
  unfolding dict_del_def dict_keys_def by (induction d) auto

text \<open>
  C0. Groq's own clean-up changes nothing: whatever the request, the body for Groq is the body for
  Cerebras.  A converted body never has the keys that are removed, and \<open>extra_body\<close>, which
  can have them, is not looked into.
\<close>

theorem groq_body_is_cerebras_body:
  "groq_build_request_body env msg rq thinking_enabled = cerebras_build_request_body env msg rq thinking_enabled"
proof (cases "openai_base_body env msg rq thinking_enabled")
  case (Inl e)
  then show ?thesis by (simp add: groq_build_request_body_def cerebras_build_request_body_def)
next
  case (Inr body)
  obtain out where keys: "keys_within BODY_KEYS body"
    and msgs: "dict_get ''messages'' body = Some (JList (map JObj out))" "list_all chat_keys out"
    using base_body_shape [OF Inr] by blast
  let ?b = "add_extra_body rq body"
  have k: "keys_within (insert ''extra_body'' BODY_KEYS) ?b"
    using keys by (auto simp: add_extra_body_def keys_within_def split: option.split)
  have "dict_get ''messages'' ?b = Some (JList (map JObj out))"
    using msgs by (simp add: add_extra_body_def split: option.split)
  moreover have "dict_del ''name'' d = d" if "d \<in> set out" for d
    using msgs(2) that by (intro dict_del_absent) (auto simp: list_all_iff chat_keys_def CHAT_KEYS_def)
  ultimately have "strip_message_names ?b = ?b"
    by (simp add: strip_message_names_def dict_set_get_same cong: map_cong)
  moreover have "strip_unsupported_body_keys ?b = ?b"
  proof -
    have "dict_del k ?b = ?b" if "k \<in> {''logprobs'', ''logit_bias'', ''top_logprobs''}" for k
      using k that by (intro dict_del_absent) (auto simp: keys_within_def BODY_KEYS_def)
    then show ?thesis by (simp add: strip_unsupported_body_keys_def GROQ_UNSUPPORTED_TOP_KEYS_def)
  qed
  moreover have "normalize_n_candidates (normalize_max_completion_tokens ?b) = normalize_max_completion_tokens ?b"
  proof -
    have "dict_get ''n'' ?b = None" using k by (auto simp: keys_within_def BODY_KEYS_def pd.lookup_None_iff)
    then have "dict_get ''n'' (normalize_max_completion_tokens ?b) = None"
      by (auto simp: normalize_max_completion_tokens_def split: option.split json.split)
    then show ?thesis by (simp add: normalize_n_candidates_def get_null_def)
  qed
  ultimately show ?thesis using Inr by (simp add: groq_build_request_body_def cerebras_build_request_body_def)
qed

end
