(* ===== verification/NimRequest.thy ===== *)
theory NimRequest
  imports NimTools OpenAiRequests
begin

section \<open>Bodies for NVIDIA NIM (\<open>providers/nvidia_nim/request.py\<close>, \<open>client.py\<close>, \<open>config/nim.py\<close>)\<close>

text \<open>
  The body built from a request and the fixed settings, and the bodies without a rejected field
  that are tried after a 400.  A float is its \<open>repr\<close>; the settings are those the
  validators let through.
\<close>

subsection \<open>Settings\<close>

record nim_settings =
  nim_temperature :: string
  nim_top_p :: string
  nim_top_k :: int
  nim_max_tokens :: int
  nim_presence_penalty :: string
  nim_frequency_penalty :: string
  nim_min_p :: string
  nim_repetition_penalty :: string
  nim_seed :: "int option"
  nim_stop :: "string option"
  nim_parallel_tool_calls :: bool
  nim_ignore_eos :: bool
  nim_min_tokens :: int
  nim_chat_template :: "string option"
  nim_request_id :: "string option"

definition default_nim_settings :: nim_settings where
  "default_nim_settings =
     \<lparr>nim_temperature = ''1.0'', nim_top_p = ''1.0'', nim_top_k = -1,
      nim_max_tokens = ANTHROPIC_DEFAULT_MAX_OUTPUT_TOKENS,
      nim_presence_penalty = ''0.0'', nim_frequency_penalty = ''0.0'', nim_min_p = ''0.0'',
      nim_repetition_penalty = ''1.0'', nim_seed = None, nim_stop = None, nim_parallel_tool_calls = True,
      nim_ignore_eos = False, nim_min_tokens = 0, nim_chat_template = None, nim_request_id = None\<rparr>"

text \<open>Equality with a float literal: the two zeros are equal.\<close>

definition float_eq :: "string \<Rightarrow> string \<Rightarrow> bool" where
  "float_eq a b \<longleftrightarrow> a = b \<or> a \<in> {''0.0'', ''-0.0''} \<and> b \<in> {''0.0'', ''-0.0''}"

fun ignored :: "json \<Rightarrow> json option \<Rightarrow> bool" where
  "ignored v None = False"
| "ignored (JFloat a) (Some (JFloat b)) = float_eq a b"
| "ignored v (Some w) = (v = w)"

subsection \<open>The body\<close>

definition set_extra :: "string \<Rightarrow> json option \<Rightarrow> json option \<Rightarrow> jdict \<Rightarrow> jdict" where
  "set_extra key v ignore extra =
     (if dict_has key extra then extra
      else case v of None \<Rightarrow> extra | Some v \<Rightarrow> if ignored v ignore then extra else dict_set key v extra)"

definition nim_token_limit :: "messages_request \<Rightarrow> nim_settings \<Rightarrow> jdict \<Rightarrow> int" where
  "nim_token_limit rq nim body =
     (let max_tokens = (case dict_get ''max_tokens'' body of
                          Some (JInt i) \<Rightarrow> if i \<noteq> 0 then Some i else rq_max_tokens rq
                        | _ \<Rightarrow> rq_max_tokens rq)
      in case max_tokens of
           None \<Rightarrow> nim_max_tokens nim
         | Some m \<Rightarrow> if nim_max_tokens nim \<noteq> 0 then min m (nim_max_tokens nim) else m)"

definition nim_sampling :: "nim_settings \<Rightarrow> jdict \<Rightarrow> jdict" where
  "nim_sampling nim body =
     (let body = (if get_null ''temperature'' body = JNull then dict_set ''temperature'' (JFloat (nim_temperature nim)) body else body);
          body = (if get_null ''top_p'' body = JNull then dict_set ''top_p'' (JFloat (nim_top_p nim)) body else body);
          body = (if \<not> dict_has ''stop'' body \<and> truthy_str (nim_stop nim)
                  then dict_set ''stop'' (JStr (the (nim_stop nim))) body else body);
          body = (if \<not> float_eq (nim_presence_penalty nim) ''0.0''
                  then dict_set ''presence_penalty'' (JFloat (nim_presence_penalty nim)) body else body);
          body = (if \<not> float_eq (nim_frequency_penalty nim) ''0.0''
                  then dict_set ''frequency_penalty'' (JFloat (nim_frequency_penalty nim)) body else body);
          body = (case nim_seed nim of Some i \<Rightarrow> dict_set ''seed'' (JInt i) body | None \<Rightarrow> body)
      in dict_set ''parallel_tool_calls'' (JBool (nim_parallel_tool_calls nim)) body)"

definition nim_thinking :: "int \<Rightarrow> jdict \<Rightarrow> jdict" where
  "nim_thinking max_tokens extra =
     (let extra = set_default ''chat_template_kwargs''
            (JObj [(''thinking'', JBool True), (''enable_thinking'', JBool True)]) extra
      in case dict_get ''chat_template_kwargs'' extra of
           Some (JObj kwargs) \<Rightarrow>
             dict_set ''chat_template_kwargs'' (JObj (set_default ''reasoning_budget'' (JInt max_tokens) kwargs)) extra
         | _ \<Rightarrow> extra)"

definition nim_extra :: "messages_request \<Rightarrow> nim_settings \<Rightarrow> bool \<Rightarrow> int \<Rightarrow> jdict" where
  "nim_extra rq nim thinking_enabled max_tokens =
     (let extra = (case rq_extra_body rq of None \<Rightarrow> [] | Some e \<Rightarrow> e);
          extra = (if thinking_enabled then nim_thinking max_tokens extra else extra);
          top_k = (case rq_top_k rq of Some k \<Rightarrow> k | None \<Rightarrow> nim_top_k nim);
          extra = set_extra ''top_k'' (Some (JInt top_k)) (Some (JInt (-1))) extra;
          extra = set_extra ''min_p'' (Some (JFloat (nim_min_p nim))) (Some (JFloat ''0.0'')) extra;
          extra = set_extra ''repetition_penalty'' (Some (JFloat (nim_repetition_penalty nim))) (Some (JFloat ''1.0'')) extra;
          extra = set_extra ''min_tokens'' (Some (JInt (nim_min_tokens nim))) (Some (JInt 0)) extra;
          extra = set_extra ''chat_template'' (map_option JStr (nim_chat_template nim)) None extra;
          extra = set_extra ''request_id'' (map_option JStr (nim_request_id nim)) None extra
      in set_extra ''ignore_eos'' (Some (JBool (nim_ignore_eos nim))) None extra)"

definition nim_build_request_body ::
  "text_env \<Rightarrow> string \<Rightarrow> messages_request \<Rightarrow> nim_settings \<Rightarrow> bool \<Rightarrow> built_body" where
  "nim_build_request_body env msg rq nim thinking_enabled =
     bind_built (openai_base_body env msg rq thinking_enabled) (\<lambda>body.
       let body = sanitize_nim_tool_schemas body;
           max_tokens = nim_token_limit rq nim body;
           body = nim_sampling nim (dict_set ''max_tokens'' (JInt max_tokens) body);
           extra = nim_extra rq nim thinking_enabled max_tokens
       in if extra \<noteq> [] then dict_set ''extra_body'' (JObj extra) body else body)"

subsection \<open>Bodies without a rejected field\<close>

text \<open>A stripper gives the stripped object and whether it removed something.\<close>

definition popped :: "string \<Rightarrow> jdict \<Rightarrow> bool" where
  "popped k d \<longleftrightarrow> get_null k d \<noteq> JNull"

definition strip_reasoning_budget_fields :: "jdict \<Rightarrow> jdict \<times> bool" where
  "strip_reasoning_budget_fields extra =
     (let removed = popped ''reasoning_budget'' extra; extra = dict_del ''reasoning_budget'' extra in
      case dict_get ''chat_template_kwargs'' extra of
        Some (JObj kwargs) \<Rightarrow>
          (dict_set ''chat_template_kwargs'' (JObj (dict_del ''reasoning_budget'' kwargs)) extra,
           removed \<or> popped ''reasoning_budget'' kwargs)
      | _ \<Rightarrow> (extra, removed))"

definition strip_chat_template_field :: "jdict \<Rightarrow> jdict \<times> bool" where
  "strip_chat_template_field extra = (dict_del ''chat_template'' extra, popped ''chat_template'' extra)"

definition clone_strip_extra_body :: "jdict \<Rightarrow> (jdict \<Rightarrow> jdict \<times> bool) \<Rightarrow> jdict option" where
  "clone_strip_extra_body body strip =
     (case dict_get ''extra_body'' body of
        Some (JObj extra) \<Rightarrow>
          (case strip extra of (extra, removed) \<Rightarrow>
             if \<not> removed then None
             else Some (if extra = [] then dict_del ''extra_body'' body else dict_set ''extra_body'' (JObj extra) body))
      | _ \<Rightarrow> None)"

definition strip_reasoning_of :: "json \<Rightarrow> json" where
  "strip_reasoning_of m = (case m of JObj d \<Rightarrow> JObj (dict_del ''reasoning_content'' d) | _ \<Rightarrow> m)"

definition has_reasoning :: "json \<Rightarrow> bool" where
  "has_reasoning m = (case m of JObj d \<Rightarrow> popped ''reasoning_content'' d | _ \<Rightarrow> False)"

definition clone_body_without_reasoning_budget :: "jdict \<Rightarrow> jdict option" where
  "clone_body_without_reasoning_budget body = clone_strip_extra_body body strip_reasoning_budget_fields"

definition clone_body_without_chat_template :: "jdict \<Rightarrow> jdict option" where
  "clone_body_without_chat_template body = clone_strip_extra_body body strip_chat_template_field"

definition clone_body_without_reasoning_content :: "jdict \<Rightarrow> jdict option" where
  "clone_body_without_reasoning_content body =
     (case dict_get ''messages'' body of
        Some (JList msgs) \<Rightarrow>
          if list_ex has_reasoning msgs
          then Some (dict_set ''messages'' (JList (map strip_reasoning_of msgs)) body) else None
      | _ \<Rightarrow> None)"

text \<open>What the client looks at in an error: its class, its status, its text and its dumped body.\<close>

record upstream_error =
  ue_bad_request :: bool
  ue_status_code :: "int option"
  ue_text :: string
  ue_body :: "string option"

definition ue_lower_text :: "upstream_error \<Rightarrow> string" where
  "ue_lower_text e =
     py_lower (case ue_body e of None \<Rightarrow> ue_text e | Some b \<Rightarrow> ue_text e @ '' '' @ b)"

definition nim_get_retry_request_body :: "upstream_error \<Rightarrow> jdict \<Rightarrow> jdict option" where
  "nim_get_retry_request_body e body =
     (if \<not> ue_bad_request e \<and> ue_status_code e \<noteq> Some 400 then None
      else if py_in ''reasoning_budget'' (ue_lower_text e) then clone_body_without_reasoning_budget body
      else if py_in ''chat_template'' (ue_lower_text e) then clone_body_without_chat_template body
      else if py_in ''reasoning_content'' (ue_lower_text e) then clone_body_without_reasoning_content body
      else None)"

subsection \<open>The token limit and the caller's fields\<close>

lemma get_set_extra: "dict_get j (set_extra k v ig extra) = (if j = k \<and> \<not> dict_has k extra then
    (case v of None \<Rightarrow> None | Some v \<Rightarrow> if ignored v ig then None else Some v) else dict_get j extra)"
  by (auto simp: set_extra_def pd.lookup_None_iff split: option.split)

lemma set_extra_keeps: "dict_get j extra = Some x \<Longrightarrow> dict_get j (set_extra k v ig extra) = Some x"
  by (auto simp: set_extra_def pd.lookup_SomeD split: option.split)

lemma set_extra_present: "\<not> ignored x ig \<Longrightarrow> dict_get k (set_extra k (Some x) ig extra) \<noteq> None"
  by (auto simp: set_extra_def pd.lookup_None_iff)

lemma set_extra_other: "j \<noteq> k \<Longrightarrow> dict_get j (set_extra k v ig extra) = dict_get j extra"
  by (simp add: get_set_extra)

lemma nim_thinking_other: "j \<noteq> ''chat_template_kwargs'' \<Longrightarrow> dict_get j (nim_thinking m extra) = dict_get j extra"
  by (auto simp: nim_thinking_def set_default_def Let_def split: option.split json.split)

lemma nim_extra_keeps:
  assumes "rq_extra_body rq = Some extra" "dict_get j extra = Some x" "j \<noteq> ''chat_template_kwargs''"
  shows "dict_get j (nim_extra rq nim th m) = Some x"
  using assms unfolding nim_extra_def Let_def by (auto intro!: set_extra_keeps simp: nim_thinking_other)

definition given_kwargs :: "messages_request \<Rightarrow> json option" where
  "given_kwargs rq = (case rq_extra_body rq of None \<Rightarrow> None | Some e \<Rightarrow> dict_get ''chat_template_kwargs'' e)"

lemma nim_extra_budget:
  assumes "given_kwargs rq = None"
  shows "dict_get ''chat_template_kwargs'' (nim_extra rq nim True m) =
    Some (JObj [(''thinking'', JBool True), (''enable_thinking'', JBool True), (''reasoning_budget'', JInt m)])"
proof -
  have "dict_get ''chat_template_kwargs'' (case rq_extra_body rq of None \<Rightarrow> [] | Some e \<Rightarrow> e) = None"
    using assms by (simp add: given_kwargs_def split: option.splits)
  moreover have "set_default ''reasoning_budget'' (JInt m) [(''thinking'', JBool True), (''enable_thinking'', JBool True)] =
      [(''thinking'', JBool True), (''enable_thinking'', JBool True), (''reasoning_budget'', JInt m)]"
    by (simp add: set_default_def dict_set_def)
  ultimately show ?thesis
    by (simp add: nim_extra_def Let_def set_extra_other nim_thinking_def set_default_def pd.lookup_None_iff)
qed

lemma nim_sampling_other:
  "j \<notin> {''temperature'', ''top_p'', ''stop'', ''presence_penalty'', ''frequency_penalty'', ''seed'', ''parallel_tool_calls''} \<Longrightarrow>
     dict_get j (nim_sampling nim body) = dict_get j body"
  by (auto simp: nim_sampling_def Let_def split: option.split)

lemma sanitize_other: "j \<notin> {''tools'', NIM_TOOL_ARGUMENT_ALIASES_KEY} \<Longrightarrow>
    dict_get j (sanitize_nim_tool_schemas body) = dict_get j body"
  by (auto simp: sanitize_nim_tool_schemas_def Let_def split: option.split json.split prod.split)

lemma base_max_tokens:
  assumes "openai_base_body env msg rq th = Inr body"
  shows "dict_get ''max_tokens'' body = map_option JInt (int_or_default (rq_max_tokens rq) None)"
proof -
  have "build_base_request_body env rq None (replay_of th) = Inr body"
    using assms by (auto simp: openai_base_body_def split: sum.splits py_error.splits)
  then show ?thesis
    by (auto simp: build_base_request_body_def Let_def get_set_if_not_none set_if_not_none_def [of "''max_tokens''"]
      split: if_split_asm option.splits)
qed

lemma nim_token_limit_base:
  assumes "dict_get ''max_tokens'' body = map_option JInt (int_or_default (rq_max_tokens rq) None)"
  shows "nim_token_limit rq nim body =
    (case rq_max_tokens rq of None \<Rightarrow> nim_max_tokens nim
     | Some r \<Rightarrow> if nim_max_tokens nim \<noteq> 0 then min r (nim_max_tokens nim) else r)"
  using assms by (auto simp: nim_token_limit_def int_or_default_def split: option.splits)

text \<open>
  C0. The body for NIM asks for the request's number of tokens cut to the limit of the settings, or
  for that limit when the request has none; with thinking on the reasoning budget is the same number
  unless the caller sent template arguments of its own; and every other extra field the caller
  sent keeps its value.
\<close>

theorem nim_body_limit:
  assumes "nim_build_request_body env msg rq nim th = Inr body" "0 < nim_max_tokens nim"
  defines "m \<equiv> (case rq_max_tokens rq of None \<Rightarrow> nim_max_tokens nim | Some r \<Rightarrow> min r (nim_max_tokens nim))"
  shows "dict_get ''max_tokens'' body = Some (JInt m) \<and> m \<le> nim_max_tokens nim \<and>
     (\<exists>extra. dict_get ''extra_body'' body = Some (JObj extra) \<and>
        (th \<and> given_kwargs rq = None \<longrightarrow>
           dict_get ''chat_template_kwargs'' extra =
             Some (JObj [(''thinking'', JBool True), (''enable_thinking'', JBool True), (''reasoning_budget'', JInt m)])) \<and>
        (\<forall>sent j x. rq_extra_body rq = Some sent \<longrightarrow> dict_get j sent = Some x \<longrightarrow> j \<noteq> ''chat_template_kwargs'' \<longrightarrow>
           dict_get j extra = Some x))"
proof -
  obtain base where base: "openai_base_body env msg rq th = Inr base"
    using assms(1) by (cases "openai_base_body env msg rq th") (auto simp: nim_build_request_body_def)
  let ?s = "sanitize_nim_tool_schemas base"
  have lim: "nim_token_limit rq nim ?s = m"
    using nim_token_limit_base [of ?s rq nim] base_max_tokens [OF base] assms(2)
    by (simp add: sanitize_other NIM_TOOL_ARGUMENT_ALIASES_KEY_def m_def split: option.split)
  have body: "body = (let b = nim_sampling nim (dict_set ''max_tokens'' (JInt m) ?s); extra = nim_extra rq nim th m in
      if extra \<noteq> [] then dict_set ''extra_body'' (JObj extra) b else b)"
    using assms(1) unfolding nim_build_request_body_def base Let_def bind_built.simps lim by simp
  have ne: "nim_extra rq nim th m \<noteq> []"
  proof
    assume "nim_extra rq nim th m = []"
    moreover have "dict_get ''ignore_eos'' (nim_extra rq nim th m) \<noteq> None"
      unfolding nim_extra_def Let_def by (rule set_extra_present) simp
    ultimately show False by simp
  qed
  have "dict_get ''max_tokens'' body = Some (JInt m)" "dict_get ''extra_body'' body = Some (JObj (nim_extra rq nim th m))"
    using ne by (simp_all add: body Let_def nim_sampling_other)
  moreover have "m \<le> nim_max_tokens nim" by (simp add: m_def split: option.split)
  ultimately show ?thesis using nim_extra_budget nim_extra_keeps by auto
qed

subsection \<open>The downgraded bodies\<close>

lemma clone_strip_other: "clone_strip_extra_body body strip = Some body' \<Longrightarrow> k \<noteq> ''extra_body'' \<Longrightarrow> dict_get k body' = dict_get k body"
  by (auto simp: clone_strip_extra_body_def split: option.split_asm json.split_asm prod.split_asm if_split_asm)

lemma clone_strip_again:
  assumes "clone_strip_extra_body body strip = Some body'"
    and "\<And>extra extra' r. strip extra = (extra', r) \<Longrightarrow> \<not> snd (strip extra')"
  shows "clone_strip_extra_body body' strip = None"
proof -
  obtain extra extra' where e: "dict_get ''extra_body'' body = Some (JObj extra)" "strip extra = (extra', True)"
    "body' = (if extra' = [] then dict_del ''extra_body'' body else dict_set ''extra_body'' (JObj extra') body)"
    using assms(1)
    by (auto simp: clone_strip_extra_body_def split: option.split_asm json.split_asm prod.split_asm if_split_asm)
  show ?thesis using e(3) assms(2) [OF e(2)] by (cases "strip extra'") (simp add: clone_strip_extra_body_def)
qed

lemma strip_budget_again: "strip_reasoning_budget_fields extra = (extra', r) \<Longrightarrow> \<not> snd (strip_reasoning_budget_fields extra')"
  by (auto simp: strip_reasoning_budget_fields_def Let_def popped_def get_null_def split: option.split_asm json.split_asm)

lemma strip_template_again: "strip_chat_template_field extra = (extra', r) \<Longrightarrow> \<not> snd (strip_chat_template_field extra')"
  by (auto simp: strip_chat_template_field_def popped_def get_null_def)

lemma strip_reasoning_none: "\<not> list_ex has_reasoning (map strip_reasoning_of msgs)"
  by (auto simp: list_ex_iff has_reasoning_def strip_reasoning_of_def popped_def get_null_def split: json.split)

lemma reasoning_content_again:
  assumes "clone_body_without_reasoning_content body = Some body'"
  shows "clone_body_without_reasoning_content body' = None" "k \<noteq> ''messages'' \<Longrightarrow> dict_get k body' = dict_get k body"
  using assms strip_reasoning_none
  by (auto simp: clone_body_without_reasoning_content_def split: option.split_asm json.split_asm if_split_asm)

text \<open>
  C0. A rejected body is downgraded once: the downgraded body differs in \<open>extra_body\<close> and
  \<open>messages\<close> only, and the same error gives no further body to try.
\<close>

theorem nim_downgrades_once:
  assumes "nim_get_retry_request_body e body = Some body'"
  shows "nim_get_retry_request_body e body' = None \<and>
     (\<forall>k. k \<notin> {''extra_body'', ''messages''} \<longrightarrow> dict_get k body' = dict_get k body)"
proof -
  note again = clone_strip_again [of body _ body', OF _ strip_budget_again] clone_strip_again [of body _ body', OF _ strip_template_again]
  show ?thesis
    using assms again reasoning_content_again [of body body'] clone_strip_other [of body _ body']
    unfolding nim_get_retry_request_body_def clone_body_without_reasoning_budget_def clone_body_without_chat_template_def
    by (auto split: if_split_asm)
qed

subsection \<open>A request\<close>

definition demo_nim_request :: messages_request where
  "demo_nim_request =
     \<lparr>rq_model = ''m'', rq_max_tokens = Some 100000,
      rq_messages = [\<lparr>msg_role = ''user'', msg_content = JStr ''hi'', msg_reasoning_content = None\<rparr>], rq_system = None,
      rq_stop_sequences = None, rq_stream = None, rq_temperature = None, rq_top_p = None, rq_top_k = None,
      rq_metadata = None, rq_tools = None, rq_tool_choice = None, rq_thinking = None, rq_context_management = None,
      rq_output_config = None, rq_mcp_servers = None, rq_extra_body = Some [(''seed'', JInt 7)], rq_extra = []\<rparr>"

lemma demo_nim_base: "openai_base_body env msg demo_nim_request True =
    Inr [(''model'', JStr ''m''), (''messages'', JList [JObj [(''role'', JStr ''user''), (''content'', JStr ''hi'')]]),
         (''max_tokens'', JInt 100000)]"
  by (simp add: openai_base_body_def build_base_request_body_def demo_nim_request_def convert_messages_def convert_step_def
      replay_deferred_def waits_def convert_text_message_def set_if_not_none_def int_or_default_def dict_set_def
      clean_reasoning_content_def Let_def)

lemma nim_body_limit_witness:
  "\<exists>body. nim_build_request_body demo_text ''refused'' demo_nim_request default_nim_settings True = Inr body \<and>
     dict_get ''max_tokens'' body = Some (JInt ANTHROPIC_DEFAULT_MAX_OUTPUT_TOKENS)"
proof -
  obtain body where b: "nim_build_request_body demo_text ''refused'' demo_nim_request default_nim_settings True = Inr body"
    unfolding nim_build_request_body_def demo_nim_base by simp
  show ?thesis
    using nim_body_limit [OF b] b
    by (simp add: default_nim_settings_def demo_nim_request_def ANTHROPIC_DEFAULT_MAX_OUTPUT_TOKENS_def)
qed

definition demo_rejection :: upstream_error where
  "demo_rejection = \<lparr>ue_bad_request = True, ue_status_code = Some 400, ue_text = ''Unknown reasoning_budget'', ue_body = None\<rparr>"

definition demo_rejected_body :: jdict where
  "demo_rejected_body = [(''model'', JStr ''m''), (''extra_body'', JObj [(''reasoning_budget'', JInt 10)])]"

lemma demo_downgrade: "nim_get_retry_request_body demo_rejection demo_rejected_body = Some [(''model'', JStr ''m'')]"
  by code_simp

lemma nim_downgrades_once_witness: "nim_get_retry_request_body demo_rejection [(''model'', JStr ''m'')] = None"
  using nim_downgrades_once [OF demo_downgrade] by simp

end
