(* ===== verification/CliEvents.thy ===== *)
theory CliEvents
  imports NativeRequest
begin

section \<open>Events of the command line (\<open>messaging/event_parser.py\<close>, \<open>cli_event_constants.py\<close>)\<close>

text \<open>
  The events the CLI prints, one JSON value each, are turned into the small events the transcript is
  built from.  An event is the dictionary the code builds.
\<close>

definition get_or :: "string \<Rightarrow> json \<Rightarrow> jdict \<Rightarrow> json" where
  "get_or k dflt d = (case dict_get k d of None \<Rightarrow> dflt | Some v \<Rightarrow> v)"

definition is_str :: "string \<Rightarrow> json \<Rightarrow> bool" where
  "is_str s v \<longleftrightarrow> v = JStr s"

text \<open>\<open>str(d.get(k, "") or "")\<close>\<close>

definition str_or_empty :: "text_env \<Rightarrow> string \<Rightarrow> jdict \<Rightarrow> string" where
  "str_or_empty env k d = (let v = get_or k (JStr []) d in if json_truthy v then py_str (te_repr env) v else [])"

definition event_of :: "string \<Rightarrow> jdict \<Rightarrow> jdict" where
  "event_of ty d = (''type'', JStr ty) # d"

subsection \<open>Whole messages\<close>

definition message_block_event :: "text_env \<Rightarrow> json \<Rightarrow> jdict list" where
  "message_block_event env c =
     (case c of
        JObj c \<Rightarrow>
          (let ctype = get_null ''type'' c in
           if is_str ''text'' ctype then [event_of ''text_chunk'' [(''text'', get_or ''text'' (JStr []) c)]]
           else if is_str ''thinking'' ctype then [event_of ''thinking_chunk'' [(''text'', get_or ''thinking'' (JStr []) c)]]
           else if is_str ''tool_use'' ctype then
             [event_of ''tool_use''
               [(''id'', JStr (py_strip (str_or_empty env ''id'' c))), (''name'', get_or ''name'' (JStr []) c),
                (''input'', get_null ''input'' c)]]
           else if is_str ''tool_result'' ctype then
             [event_of ''tool_result''
               [(''tool_use_id'', JStr (py_strip (str_or_empty env ''tool_use_id'' c))), (''content'', get_null ''content'' c),
                (''is_error'', JBool (json_truthy (get_or ''is_error'' (JBool False) c)))]]
           else [])
      | _ \<Rightarrow> [])"

definition content_object :: "jdict \<Rightarrow> json" where
  "content_object d = (case get_null ''content'' d of JList bs \<Rightarrow> JObj [(''content'', JList bs)] | _ \<Rightarrow> JNull)"

definition or_else :: "json \<Rightarrow> json \<Rightarrow> json" where
  "or_else v w = (if json_truthy v then v else w)"

text \<open>The message of an assistant, user or result event; \<open>None\<close> and falsy values are the same.\<close>

definition event_message :: "jdict \<Rightarrow> json" where
  "event_message event =
     (let etype = get_null ''type'' event in
      if is_str ''assistant'' etype \<or> is_str ''user'' etype then get_null ''message'' event
      else if is_str ''result'' etype then
        or_else (or_else
          (case get_null ''result'' event of
             JObj res \<Rightarrow> or_else (get_null ''message'' res) (content_object res)
           | _ \<Rightarrow> JNull)
          (get_null ''message'' event)) (content_object event)
      else JNull)"

definition message_events :: "text_env \<Rightarrow> jdict \<Rightarrow> jdict list" where
  "message_events env event =
     (case event_message event of
        JObj m \<Rightarrow>
          (case get_or ''content'' (JList []) m of
             JList bs \<Rightarrow> concat (map (message_block_event env) bs)
           | _ \<Rightarrow> [])
      | _ \<Rightarrow> [])"

subsection \<open>Streaming events, errors and the exit\<close>

definition raw_index :: "jdict \<Rightarrow> json" where
  "raw_index event = get_or ''index'' (JInt (-1)) event"

definition delta_events :: "jdict \<Rightarrow> jdict list" where
  "delta_events event =
     (case get_or ''delta'' (JObj []) event of
        JObj delta \<Rightarrow>
          (let ty = get_null ''type'' delta in
           if is_str ''text_delta'' ty then
             [event_of ''text_delta'' [(''index'', raw_index event), (''text'', get_or ''text'' (JStr []) delta)]]
           else if is_str ''thinking_delta'' ty then
             [event_of ''thinking_delta'' [(''index'', raw_index event), (''text'', get_or ''thinking'' (JStr []) delta)]]
           else if is_str ''input_json_delta'' ty then
             [event_of ''tool_use_delta'' [(''index'', raw_index event), (''partial_json'', get_or ''partial_json'' (JStr []) delta)]]
           else [])
      | _ \<Rightarrow> [])"

definition start_events :: "text_env \<Rightarrow> jdict \<Rightarrow> jdict list" where
  "start_events env event =
     (case get_or ''content_block'' (JObj []) event of
        JObj block \<Rightarrow>
          (let btype = get_null ''type'' block in
           if is_str ''thinking'' btype then [event_of ''thinking_start'' [(''index'', raw_index event)]]
           else if is_str ''text'' btype then [event_of ''text_start'' [(''index'', raw_index event)]]
           else if is_str ''tool_use'' btype then
             [event_of ''tool_use_start''
               [(''index'', raw_index event), (''id'', JStr (py_strip (str_or_empty env ''id'' block))),
                (''name'', get_or ''name'' (JStr []) block), (''input'', get_null ''input'' block)]]
           else [])
      | _ \<Rightarrow> [])"

text \<open>\<open>code == 0\<close>: \<open>False\<close> and the float zeros are equal to \<open>0\<close>.\<close>

definition is_zero :: "json \<Rightarrow> bool" where
  "is_zero v = (case v of JInt i \<Rightarrow> i = 0 | JBool b \<Rightarrow> \<not> b | JFloat s \<Rightarrow> \<not> json_truthy v | _ \<Rightarrow> False)"

definition exit_events :: "text_env \<Rightarrow> jdict \<Rightarrow> jdict list" where
  "exit_events env event =
     (let code = get_or ''code'' (JInt 0) event; stderr = get_null ''stderr'' event in
      if is_zero code then [event_of ''complete'' [(''status'', JStr ''success'')]]
      else
        [event_of ''error''
           [(''message'', or_else stderr (JStr (''Process exited with code '' @ py_str (te_repr env) code)))],
         event_of ''complete'' [(''status'', JStr ''failed'')]])"

definition parse_cli_event :: "text_env \<Rightarrow> json \<Rightarrow> jdict list" where
  "parse_cli_event env event =
     (case event of
        JObj event \<Rightarrow>
          (let etype = get_null ''type'' event in
           if is_str ''system'' etype then []
           else if is_str ''prompt_enhancement'' etype then
             [event_of ''prompt_enhancement''
               [(''status'', get_or ''status'' (JStr []) event), (''enhanced_prompt'', get_or ''enhanced_prompt'' (JStr []) event)]]
           else if message_events env event \<noteq> [] then message_events env event
           else if is_str ''content_block_delta'' etype then delta_events event
           else if is_str ''content_block_start'' etype then start_events env event
           else if is_str ''content_block_stop'' etype then [event_of ''block_stop'' [(''index'', raw_index event)]]
           else if is_str ''error'' etype then
             [event_of ''error''
               [(''message'', case get_null ''error'' event of
                                JObj err \<Rightarrow> get_null ''message'' err
                              | v \<Rightarrow> JStr (py_str (te_repr env) v))]]
           else if is_str ''exit'' etype then exit_events env event
           else [])
      | _ \<Rightarrow> [])"

subsection \<open>Status lines (\<open>messaging/cli_event_constants.py\<close>)\<close>

definition TRANSCRIPT_EVENT_TYPES :: "string list" where
  "TRANSCRIPT_EVENT_TYPES =
     [''thinking_start'', ''thinking_delta'', ''thinking_chunk'', ''thinking_stop'', ''text_start'', ''text_delta'',
      ''text_chunk'', ''text_stop'', ''tool_use_start'', ''tool_use_delta'', ''tool_use_stop'', ''tool_use'',
      ''tool_result'', ''block_stop'', ''error'']"

text \<open>
  A status line is the call of \<open>format_status\<close> that makes it: a name for its symbol, the
  label and the suffix.  The symbols are outside the characters of a HOL string.
\<close>

datatype symbol = Brain | Hourglass | Robot | Sparkles | CheckMark | CrossMark | StopSign | Boom | Clipboard | Arrows

datatype status_line = StatusLine symbol string "string option"

definition EVENT_STATUS_MAP :: "(string, symbol \<times> string) pydict" where
  "EVENT_STATUS_MAP =
     [(''thinking_start'', (Brain, ''Claude is thinking...'')), (''thinking_delta'', (Brain, ''Claude is thinking...'')),
      (''thinking_chunk'', (Brain, ''Claude is thinking...'')), (''text_start'', (Brain, ''Claude is working...'')),
      (''text_delta'', (Brain, ''Claude is working...'')), (''text_chunk'', (Brain, ''Claude is working...'')),
      (''tool_result'', (Hourglass, ''Executing tools...''))]"

definition get_status_for_event :: "text_env \<Rightarrow> string \<Rightarrow> jdict \<Rightarrow> status_line option" where
  "get_status_for_event env ptype parsed =
     (case dict_get ptype EVENT_STATUS_MAP of
        Some (icon, label) \<Rightarrow> Some (StatusLine icon label None)
      | None \<Rightarrow>
          if ptype \<in> {''tool_use_start'', ''tool_use_delta'', ''tool_use''} then
            (if get_null ''name'' parsed = JStr ''Task'' then Some (StatusLine Robot ''Subagent working...'' None)
             else Some (StatusLine Hourglass ''Executing tools...'' None))
          else if ptype = ''prompt_enhancement'' then
            (let enhanced = py_strip (py_str (te_repr env) (get_or ''enhanced_prompt'' (JStr []) parsed));
                 suffix = (if 280 < length enhanced then take 277 enhanced @ ''...'' else enhanced)
             in Some (StatusLine Sparkles ''Prompt enhanced'' (if suffix = [] then None else Some suffix)))
          else None)"

end
