(* ===== verification/Transcript.thy ===== *)
theory Transcript
  imports CliEvents "HOL-Library.List_Lexorder" "HOL-Library.Char_ord"
begin

section \<open>The transcript (\<open>messaging/transcript.py\<close>)\<close>

text \<open>
  The transcript buffer: an ordered list of segments, the blocks that are open by their index, and
  the stack of subagents.  A tool call segment is shared by the list, its subagent and the open
  blocks; it lives in a store and the others hold its place.  A text or thinking block that is open
  holds the place of its segment in the list.  Stacks have their top first.  The indented
  \<open>json.dumps\<close> of a tool result is an argument.
\<close>

subsection \<open>Segments\<close>

record tool_call_segment =
  tl_tool_use_id :: string
  tl_name :: string
  tl_closed :: bool
  tl_indent_level :: nat

datatype segment =
    ThinkingSegment string
  | TextSegment string
  | ToolCallSegment nat
  | ToolResultSegment string "string option" string bool
  | SubagentSegment string nat "string list" "nat option"
  | ErrorSegment string

record transcript =
  tr_segments :: "segment list"
  tr_tools :: "tool_call_segment list"
  tr_open_thinking :: "(int, nat) pydict"
  tr_open_text :: "(int, nat) pydict"
  tr_open_tools :: "(int, nat) pydict"
  tr_tool_names :: "(string, string) pydict"
  tr_show_tool_results :: bool
  tr_subagent_stack :: "string list"
  tr_subagent_segments :: "nat list"

definition new_transcript :: "bool \<Rightarrow> transcript" where
  "new_transcript show_tool_results =
     \<lparr>tr_segments = [], tr_tools = [], tr_open_thinking = [], tr_open_text = [], tr_open_tools = [], tr_tool_names = [],
      tr_show_tool_results = show_tool_results, tr_subagent_stack = [], tr_subagent_segments = []\<rparr>"

definition in_subagent :: "transcript \<Rightarrow> bool" where
  "in_subagent t \<longleftrightarrow> tr_subagent_stack t \<noteq> []"

definition add_segment :: "segment \<Rightarrow> transcript \<Rightarrow> nat \<times> transcript" where
  "add_segment seg t = (length (tr_segments t), t\<lparr>tr_segments := tr_segments t @ [seg]\<rparr>)"

definition new_tool_call :: "string \<Rightarrow> string \<Rightarrow> nat \<Rightarrow> transcript \<Rightarrow> nat \<times> transcript" where
  "new_tool_call tool_use_id name indent t =
     (length (tr_tools t),
      t\<lparr>tr_tools := tr_tools t @
          [\<lparr>tl_tool_use_id = tool_use_id, tl_name = (if name = [] then ''tool'' else name), tl_closed = False,
            tl_indent_level = indent\<rparr>]\<rparr>)"

subsection \<open>Subagents\<close>

definition task_heading_from_input :: "text_env \<Rightarrow> json \<Rightarrow> string" where
  "task_heading_from_input env inp =
     (case inp of
        JObj d \<Rightarrow>
          (let desc = py_strip (str_or_empty env ''description'' d);
               subagent_type = py_strip (str_or_empty env ''subagent_type'' d);
               typ = py_strip (str_or_empty env ''type'' d)
           in if desc \<noteq> [] then desc else if subagent_type \<noteq> [] then subagent_type
              else if typ \<noteq> [] then typ else ''Subagent'')
      | _ \<Rightarrow> ''Subagent'')"

definition subagent_push :: "string \<Rightarrow> nat \<Rightarrow> transcript \<Rightarrow> transcript" where
  "subagent_push tool_id seg t =
     (let tool_id = py_strip tool_id;
          tool_id = (if tool_id = [] then ''__task_'' @ show_nat (length (tr_subagent_stack t) + 1) else tool_id)
      in t\<lparr>tr_subagent_stack := tool_id # tr_subagent_stack t,
           tr_subagent_segments := seg # tr_subagent_segments t\<rparr>)"

definition ids_roughly_match :: "string \<Rightarrow> string \<Rightarrow> bool" where
  "ids_roughly_match waiting answered \<longleftrightarrow>
     waiting \<noteq> [] \<and> answered \<noteq> [] \<and> (waiting = answered \<or> prefix answered waiting \<or> prefix waiting answered)"

text \<open>The topmost entry that matches.\<close>

fun stack_index :: "string \<Rightarrow> string list \<Rightarrow> nat option" where
  "stack_index tool_id [] = None"
| "stack_index tool_id (s # ss) =
     (if ids_roughly_match s tool_id then Some 0 else map_option Suc (stack_index tool_id ss))"

definition pop_to :: "nat \<Rightarrow> transcript \<Rightarrow> transcript" where
  "pop_to i t = t\<lparr>tr_subagent_stack := drop (Suc i) (tr_subagent_stack t),
                  tr_subagent_segments := drop (Suc i) (tr_subagent_segments t)\<rparr>"

definition subagent_pop :: "string \<Rightarrow> transcript \<Rightarrow> bool \<times> transcript" where
  "subagent_pop tool_id t =
     (let tool_id = py_strip tool_id in
      case tr_subagent_stack t of
        [] \<Rightarrow> (False, t)
      | newest # _ \<Rightarrow>
          if tool_id \<noteq> [] then
            (if ids_roughly_match newest tool_id then (True, pop_to 0 t)
             else case stack_index tool_id (tr_subagent_stack t) of
                None \<Rightarrow> (False, t)
              | Some i \<Rightarrow> (True, pop_to i t))
          else if py_startswith ''__task_'' newest then (True, pop_to 0 t)
          else (False, t))"

definition set_current_tool_call :: "nat \<Rightarrow> string \<Rightarrow> string \<Rightarrow> transcript \<Rightarrow> nat \<times> transcript" where
  "set_current_tool_call parent tool_id name t =
     (let name = (if name = [] then ''tool'' else name) in
      case new_tool_call tool_id name 1 t of
        (r, t) \<Rightarrow>
          (r, t\<lparr>tr_segments := (tr_segments t)[parent :=
                 case tr_segments t ! parent of
                   SubagentSegment description tool_calls tools_used _ \<Rightarrow>
                     SubagentSegment description (Suc tool_calls) (List.insert name tools_used) (Some r)
                 | seg \<Rightarrow> seg]\<rparr>))"

subsection \<open>Blocks\<close>

definition tool_use_stop :: "int \<Rightarrow> transcript \<Rightarrow> transcript" where
  "tool_use_stop idx t =
     (case dict_get idx (tr_open_tools t) of
        None \<Rightarrow> t
      | Some r \<Rightarrow> t\<lparr>tr_open_tools := dict_del idx (tr_open_tools t),
                     tr_tools := (tr_tools t)[r := (tr_tools t ! r)\<lparr>tl_closed := True\<rparr>]\<rparr>)"

definition thinking_stop :: "int \<Rightarrow> transcript \<Rightarrow> transcript" where
  "thinking_stop idx t = (if 0 \<le> idx then t\<lparr>tr_open_thinking := dict_del idx (tr_open_thinking t)\<rparr> else t)"

definition text_stop :: "int \<Rightarrow> transcript \<Rightarrow> transcript" where
  "text_stop idx t = (if 0 \<le> idx then t\<lparr>tr_open_text := dict_del idx (tr_open_text t)\<rparr> else t)"

definition block_stop :: "int \<Rightarrow> transcript \<Rightarrow> transcript" where
  "block_stop idx t =
     (if dict_has idx (tr_open_tools t) then tool_use_stop idx t
      else if dict_has idx (tr_open_thinking t) then thinking_stop idx t
      else if dict_has idx (tr_open_text t) then text_stop idx t
      else t)"

text \<open>Starting a block closes a block that is still open under its index.\<close>

definition close_reused :: "int \<Rightarrow> transcript \<Rightarrow> transcript" where
  "close_reused idx t = (if 0 \<le> idx then block_stop idx t else t)"

definition thinking_start :: "int \<Rightarrow> transcript \<Rightarrow> transcript" where
  "thinking_start idx t =
     (case add_segment (ThinkingSegment []) (close_reused idx t) of
        (i, t) \<Rightarrow> if 0 \<le> idx then t\<lparr>tr_open_thinking := dict_set idx i (tr_open_thinking t)\<rparr> else t)"

definition text_start :: "int \<Rightarrow> transcript \<Rightarrow> transcript" where
  "text_start idx t =
     (case add_segment (TextSegment []) (close_reused idx t) of
        (i, t) \<Rightarrow> if 0 \<le> idx then t\<lparr>tr_open_text := dict_set idx i (tr_open_text t)\<rparr> else t)"

fun append_text :: "string \<Rightarrow> segment \<Rightarrow> segment" where
  "append_text s (ThinkingSegment x) = ThinkingSegment (x @ s)"
| "append_text s (TextSegment x) = TextSegment (x @ s)"
| "append_text s seg = seg"

definition append_at :: "nat \<Rightarrow> string \<Rightarrow> transcript \<Rightarrow> transcript" where
  "append_at i s t = t\<lparr>tr_segments := (tr_segments t)[i := append_text s (tr_segments t ! i)]\<rparr>"

definition thinking_delta :: "int \<Rightarrow> string \<Rightarrow> transcript \<Rightarrow> transcript" where
  "thinking_delta idx s t =
     (case dict_get idx (tr_open_thinking t) of
        Some i \<Rightarrow> append_at i s t
      | None \<Rightarrow>
          (case add_segment (ThinkingSegment []) t of
             (i, t) \<Rightarrow> append_at i s
               (if 0 \<le> idx then t\<lparr>tr_open_thinking := dict_set idx i (tr_open_thinking t)\<rparr> else t)))"

definition text_delta :: "int \<Rightarrow> string \<Rightarrow> transcript \<Rightarrow> transcript" where
  "text_delta idx s t =
     (case dict_get idx (tr_open_text t) of
        Some i \<Rightarrow> append_at i s t
      | None \<Rightarrow>
          (case add_segment (TextSegment []) t of
             (i, t) \<Rightarrow> append_at i s
               (if 0 \<le> idx then t\<lparr>tr_open_text := dict_set idx i (tr_open_text t)\<rparr> else t)))"

subsection \<open>Tool calls and results\<close>

definition register_tool :: "string \<Rightarrow> string \<Rightarrow> transcript \<Rightarrow> transcript" where
  "register_tool tool_id name t =
     (if tool_id \<noteq> [] then t\<lparr>tr_tool_names := dict_set tool_id name (tr_tool_names t)\<rparr> else t)"

definition start_task :: "text_env \<Rightarrow> string \<Rightarrow> json \<Rightarrow> transcript \<Rightarrow> transcript" where
  "start_task env tool_id inp t =
     (case add_segment (SubagentSegment (task_heading_from_input env inp) 0 [] None) t of
        (i, t) \<Rightarrow> subagent_push tool_id i t)"

definition add_tool_call :: "string \<Rightarrow> string \<Rightarrow> transcript \<Rightarrow> nat \<times> transcript" where
  "add_tool_call tool_id name t =
     (case (in_subagent t, tr_subagent_segments t) of
        (True, parent # _) \<Rightarrow> set_current_tool_call parent tool_id name t
      | _ \<Rightarrow>
          (case new_tool_call tool_id name 0 t of
             (r, t) \<Rightarrow> (r, snd (add_segment (ToolCallSegment r) t))))"

definition tool_use_start :: "text_env \<Rightarrow> int \<Rightarrow> string \<Rightarrow> string \<Rightarrow> json \<Rightarrow> transcript \<Rightarrow> transcript" where
  "tool_use_start env idx tool_id name inp t =
     (let t = register_tool tool_id name (close_reused idx t) in
      if name = ''Task'' then start_task env tool_id inp t
      else case add_tool_call tool_id name t of
        (r, t) \<Rightarrow> if 0 \<le> idx then t\<lparr>tr_open_tools := dict_set idx r (tr_open_tools t)\<rparr> else t)"

definition apply_tool_use :: "text_env \<Rightarrow> string \<Rightarrow> string \<Rightarrow> json \<Rightarrow> transcript \<Rightarrow> transcript" where
  "apply_tool_use env tool_id name inp t =
     (let t = register_tool tool_id name t in
      if name = ''Task'' then start_task env tool_id inp t
      else case add_tool_call tool_id name t of
        (r, t) \<Rightarrow> t\<lparr>tr_tools := (tr_tools t)[r := (tr_tools t ! r)\<lparr>tl_closed := True\<rparr>]\<rparr>)"

definition close_task :: "string \<Rightarrow> string option \<Rightarrow> transcript \<Rightarrow> transcript" where
  "close_task tool_id name t =
     (if tr_subagent_stack t = [] then t
      else case subagent_pop tool_id t of
        (popped, t) \<Rightarrow>
          let newest = (case tr_subagent_stack t of [] \<Rightarrow> [] | s # _ \<Rightarrow> s) in
          if \<not> popped \<and> tool_id \<noteq> [] \<and> py_startswith ''__task_'' newest \<and> name \<in> {None, Some ''Task''} \<and>
             py_in ''task'' (py_lower tool_id)
          then snd (subagent_pop [] t) else t)"

definition tool_result :: "(json \<Rightarrow> string) \<Rightarrow> string \<Rightarrow> json \<Rightarrow> bool \<Rightarrow> transcript \<Rightarrow> transcript" where
  "tool_result pretty tool_id content is_error t =
     (let name = dict_get tool_id (tr_tool_names t); t = close_task tool_id name t in
      if \<not> tr_show_tool_results t then t
      else snd (add_segment (ToolResultSegment tool_id name
        (case content of JStr s \<Rightarrow> s | v \<Rightarrow> pretty v) is_error) t))"

subsection \<open>Applying an event\<close>

text \<open>\<open>int(ev.get("index", -1))\<close>; numbers written as text or with a fraction are left out.\<close>

definition index_of :: "jdict \<Rightarrow> int result" where
  "index_of ev =
     (case raw_index ev of
        JInt i \<Rightarrow> Inr i
      | JBool b \<Rightarrow> Inr (if b then 1 else 0)
      | JStr s \<Rightarrow> Inl IllTyped
      | JFloat s \<Rightarrow> Inl IllTyped
      | _ \<Rightarrow> Inl TypeError)"

definition at_index :: "jdict \<Rightarrow> (int \<Rightarrow> transcript) \<Rightarrow> transcript result" where
  "at_index ev f = bind_result (index_of ev) (\<lambda>idx. Inr (f idx))"

definition apply_event :: "text_env \<Rightarrow> (json \<Rightarrow> string) \<Rightarrow> jdict \<Rightarrow> transcript \<Rightarrow> transcript result" where
  "apply_event env pretty ev t =
     (let et = (case get_null ''type'' ev of JStr s \<Rightarrow> s | _ \<Rightarrow> []);
          txt = py_str (te_repr env) (get_or ''text'' (JStr []) ev);
          tool_id = py_strip (str_or_empty env ''id'' ev);
          name = (let n = str_or_empty env ''name'' ev in if n = [] then ''tool'' else n);
          inp = get_null ''input'' ev
      in
      if in_subagent t \<and> et \<in> {''thinking_start'', ''thinking_delta'', ''thinking_chunk'', ''text_start'', ''text_delta'', ''text_chunk''}
      then Inr t
      else if et = ''thinking_start'' then at_index ev (\<lambda>idx. thinking_start idx t)
      else if et = ''thinking_delta'' \<or> et = ''thinking_chunk'' then at_index ev (\<lambda>idx. thinking_delta idx txt t)
      else if et = ''thinking_stop'' then at_index ev (\<lambda>idx. thinking_stop idx t)
      else if et = ''text_start'' then at_index ev (\<lambda>idx. text_start idx t)
      else if et = ''text_delta'' \<or> et = ''text_chunk'' then at_index ev (\<lambda>idx. text_delta idx txt t)
      else if et = ''text_stop'' then at_index ev (\<lambda>idx. text_stop idx t)
      else if et = ''tool_use_start'' then at_index ev (\<lambda>idx. tool_use_start env idx tool_id name inp t)
      else if et = ''tool_use_delta'' then Inr t
      else if et = ''tool_use_stop'' then at_index ev (\<lambda>idx. tool_use_stop idx t)
      else if et = ''block_stop'' then at_index ev (\<lambda>idx. block_stop idx t)
      else if et = ''tool_use'' then Inr (apply_tool_use env tool_id name inp t)
      else if et = ''tool_result'' then
        Inr (tool_result pretty (py_strip (str_or_empty env ''tool_use_id'' ev)) (get_null ''content'' ev)
               (json_truthy (get_or ''is_error'' (JBool False) ev)) t)
      else if et = ''error'' then
        Inr (let m = py_str (te_repr env) (get_or ''message'' (JStr []) ev) in
             snd (add_segment (ErrorSegment (if m = [] then ''Unknown error'' else m)) t))
      else Inr t)"

subsection \<open>Rendering\<close>

text \<open>The formatting functions of the platform, the limits, and the symbols outside the characters of
  a HOL string.\<close>

record render_ctx =
  rc_bold :: "string \<Rightarrow> string"
  rc_code_inline :: "string \<Rightarrow> string"
  rc_escape_code :: "string \<Rightarrow> string"
  rc_escape_text :: "string \<Rightarrow> string"
  rc_render_markdown :: "string \<Rightarrow> string"
  rc_thinking_tail_max :: "int option"
  rc_tool_output_tail_max :: "int option"
  rc_text_tail_max :: "int option"
  rc_symbol :: "segment \<Rightarrow> string"

text \<open>\<open>raw[-n:]\<close>\<close>

definition py_tail :: "int \<Rightarrow> string \<Rightarrow> string" where
  "py_tail n raw = (if 0 < n then drop (length raw - nat n) raw else drop (nat (- n)) raw)"

definition cut_front :: "int option \<Rightarrow> string \<Rightarrow> string" where
  "cut_front limit raw =
     (case limit of
        None \<Rightarrow> raw
      | Some m \<Rightarrow> if m < int (length raw) then ''...'' @ py_tail (m - 3) raw else raw)"

definition fenced :: "string \<Rightarrow> string" where
  "fenced inner = LFs @ ''```'' @ LFs @ inner @ LFs @ ''```''"

definition render_tool_call :: "render_ctx \<Rightarrow> nat \<Rightarrow> tool_call_segment \<Rightarrow> string" where
  "render_tool_call ctx r call =
     concat (replicate (tl_indent_level call) ''  '') @ rc_symbol ctx (ToolCallSegment r) @ '' '' @
     rc_bold ctx ''Tool call:'' @ '' '' @ rc_code_inline ctx (tl_name call)"

definition render_segment :: "render_ctx \<Rightarrow> transcript \<Rightarrow> segment \<Rightarrow> string" where
  "render_segment ctx t seg =
     (case seg of
        ThinkingSegment raw \<Rightarrow>
          rc_symbol ctx seg @ '' '' @ rc_bold ctx ''Thinking'' @
          fenced (rc_escape_code ctx (cut_front (rc_thinking_tail_max ctx) raw))
      | TextSegment raw \<Rightarrow> rc_render_markdown ctx (cut_front (rc_text_tail_max ctx) raw)
      | ToolCallSegment r \<Rightarrow> render_tool_call ctx r (tr_tools t ! r)
      | ToolResultSegment tool_id name content is_error \<Rightarrow>
          rc_symbol ctx seg @ '' '' @ rc_bold ctx (if is_error then ''Tool error:'' else ''Tool result:'') @
          (if truthy_str name then '' '' @ rc_code_inline ctx (the name) else []) @
          fenced (rc_escape_code ctx (cut_front (rc_tool_output_tail_max ctx) content))
      | SubagentSegment description tool_calls tools_used current \<Rightarrow>
          py_join LFs
            ([rc_symbol ctx seg @ '' '' @ rc_bold ctx ''Subagent:'' @ '' '' @ rc_code_inline ctx description] @
             (case current of None \<Rightarrow> [] | Some r \<Rightarrow> filter (\<lambda>l. l \<noteq> []) [render_tool_call ctx r (tr_tools t ! r)]) @
             [''  '' @ rc_bold ctx ''Tools used:'' @ '' '' @ rc_code_inline ctx (''{'' @ py_join '', '' (sort tools_used) @ ''}''),
              ''  '' @ rc_bold ctx ''Tool calls:'' @ '' '' @ rc_code_inline ctx (show_nat tool_calls)])
      | ErrorSegment message \<Rightarrow>
          rc_symbol ctx seg @ '' '' @ rc_bold ctx ''Error:'' @ '' '' @ rc_code_inline ctx message)"

definition status_suffix :: "string option \<Rightarrow> string" where
  "status_suffix status = (if truthy_str status then LFLF @ the status else [])"

definition prefix_marker :: "render_ctx \<Rightarrow> string" where
  "prefix_marker ctx = rc_escape_text ctx (''... (truncated)'' @ LFs)"

definition join_parts :: "render_ctx \<Rightarrow> string option \<Rightarrow> string list \<Rightarrow> bool \<Rightarrow> string" where
  "join_parts ctx status parts add_marker =
     (let body = py_join LFs parts;
          body = (if add_marker \<and> body \<noteq> [] then prefix_marker ctx @ body else body)
      in body @ status_suffix status)"

text \<open>The loop that drops the oldest parts: the first candidate that fits, or the last part dropped.\<close>

fun drop_oldest :: "render_ctx \<Rightarrow> string option \<Rightarrow> int \<Rightarrow> string list \<Rightarrow> string option \<Rightarrow> string option + string" where
  "drop_oldest ctx status limit [] last_part = Inl last_part"
| "drop_oldest ctx status limit (p # ps) last_part =
     (let candidate = join_parts ctx status (p # ps) True in
      if int (length candidate) \<le> limit then Inr candidate
      else drop_oldest ctx status limit ps (Some p))"

definition nothing_fits :: "render_ctx \<Rightarrow> string option \<Rightarrow> int \<Rightarrow> string option \<Rightarrow> string" where
  "nothing_fits ctx status limit last_part =
     (let marker = prefix_marker ctx; suffix = status_suffix status;
          budget = limit - int (length marker) - int (length suffix);
          tail_candidate =
            (case last_part of
               Some p \<Rightarrow>
                 if p \<noteq> [] \<and> 20 < budget
                 then Some (marker @ (if budget < int (length p) then ''...'' @ py_tail (budget - 3) p else p) @ suffix)
                 else None
             | None \<Rightarrow> None);
          minimal = marker @ dropWhile (\<lambda>c. c = CHR 0x0A) suffix
      in case tail_candidate of
           Some c \<Rightarrow>
             if int (length c) \<le> limit then c
             else if int (length minimal) \<le> limit then minimal else (case status of None \<Rightarrow> [] | Some s \<Rightarrow> s)
         | None \<Rightarrow>
             if last_part \<noteq> None \<and> int (length minimal) \<le> limit then minimal
             else (case status of None \<Rightarrow> [] | Some s \<Rightarrow> s))"

definition rendered_parts :: "render_ctx \<Rightarrow> transcript \<Rightarrow> string list" where
  "rendered_parts ctx t = filter (\<lambda>s. s \<noteq> []) (map (render_segment ctx t) (tr_segments t))"

definition render_transcript :: "render_ctx \<Rightarrow> int \<Rightarrow> string option \<Rightarrow> transcript \<Rightarrow> string" where
  "render_transcript ctx limit status t =
     (let parts = rendered_parts ctx t; candidate = join_parts ctx status parts False in
      if int (length candidate) \<le> limit then candidate
      else case drop_oldest ctx status limit parts None of
        Inr c \<Rightarrow> c
      | Inl last_part \<Rightarrow> nothing_fits ctx status limit last_part)"

end
