(* ===== verification/TranscriptSound.thy ===== *)
theory TranscriptSound
  imports Transcript
begin

section \<open>Properties of the transcript\<close>

text \<open>
  The places the buffer holds are always those of segments of the right kind, the text that reaches
  the transcript is the text of the visible deltas in their order, and rendering keeps the newest
  parts that fit.
\<close>

subsection \<open>The invariant\<close>

fun is_thinking_seg :: "segment \<Rightarrow> bool" where
  "is_thinking_seg (ThinkingSegment _) = True" | "is_thinking_seg _ = False"

fun is_text :: "segment \<Rightarrow> bool" where
  "is_text (TextSegment _) = True" | "is_text _ = False"

fun is_subagent :: "segment \<Rightarrow> bool" where
  "is_subagent (SubagentSegment _ _ _ _) = True" | "is_subagent _ = False"

fun tools_below :: "nat \<Rightarrow> segment \<Rightarrow> bool" where
  "tools_below n (ToolCallSegment r) \<longleftrightarrow> r < n"
| "tools_below n (SubagentSegment _ _ _ (Some r)) \<longleftrightarrow> r < n"
| "tools_below n _ \<longleftrightarrow> True"

definition points_to :: "(segment \<Rightarrow> bool) \<Rightarrow> segment list \<Rightarrow> nat \<Rightarrow> bool" where
  "points_to P segs i \<longleftrightarrow> i < length segs \<and> P (segs ! i)"

definition open_ok :: "(segment \<Rightarrow> bool) \<Rightarrow> segment list \<Rightarrow> (int, nat) pydict \<Rightarrow> bool" where
  "open_ok P segs op \<longleftrightarrow> (\<forall>idx i. dict_get idx op = Some i \<longrightarrow> 0 \<le> idx \<and> points_to P segs i)"

definition transcript_ok :: "transcript \<Rightarrow> bool" where
  "transcript_ok t \<longleftrightarrow>
     length (tr_subagent_stack t) = length (tr_subagent_segments t) \<and>
     list_all (points_to is_subagent (tr_segments t)) (tr_subagent_segments t) \<and>
     open_ok is_thinking_seg (tr_segments t) (tr_open_thinking t) \<and>
     open_ok is_text (tr_segments t) (tr_open_text t) \<and>
     (\<forall>idx r. dict_get idx (tr_open_tools t) = Some r \<longrightarrow> r < length (tr_tools t)) \<and>
     list_all (tools_below (length (tr_tools t))) (tr_segments t)"

lemma points_to_append: "points_to P segs i \<Longrightarrow> points_to P (segs @ extra) i"
  by (simp add: points_to_def nth_append)

lemma points_to_new: "points_to P (segs @ [seg]) (length segs) \<longleftrightarrow> P seg"
  by (simp add: points_to_def)

lemma points_to_update: "points_to P segs i \<Longrightarrow> (P (segs ! j) \<Longrightarrow> P seg) \<Longrightarrow> points_to P (segs[j := seg]) i"
  by (cases "i = j") (auto simp: points_to_def)

lemma list_all_points_append: "list_all (points_to P segs) is \<Longrightarrow> list_all (points_to P (segs @ extra)) is"
  by (simp add: list_all_iff points_to_append)

lemma open_ok_append: "open_ok P segs op \<Longrightarrow> open_ok P (segs @ extra) op"
  by (auto simp: open_ok_def points_to_append)

lemma open_ok_del: "open_ok P segs op \<Longrightarrow> open_ok P segs (dict_del idx op)"
  by (auto simp: open_ok_def)

lemma open_ok_set: "open_ok P segs op \<Longrightarrow> 0 \<le> idx \<Longrightarrow> P seg \<Longrightarrow> open_ok P (segs @ [seg]) (dict_set idx (length segs) op)"
  by (auto simp: open_ok_def points_to_append points_to_new)

lemma tools_below_mono: "tools_below n seg \<Longrightarrow> n \<le> m \<Longrightarrow> tools_below m seg"
  by (induction n seg rule: tools_below.induct) auto

lemma list_all_tools_mono: "list_all (tools_below n) segs \<Longrightarrow> n \<le> m \<Longrightarrow> list_all (tools_below m) segs"
  by (auto simp: list_all_iff intro: tools_below_mono)

lemma append_text_kind [simp]:
  "is_thinking_seg (append_text s seg) = is_thinking_seg seg" "is_text (append_text s seg) = is_text seg"
  "is_subagent (append_text s seg) = is_subagent seg" "tools_below n (append_text s seg) = tools_below n seg"
  by (cases seg; simp)+

lemma add_segment_ok:
  assumes "transcript_ok t" "tools_below (length (tr_tools t)) seg" "add_segment seg t = (i, t')"
  shows "transcript_ok t'"
  using assms by (auto simp: transcript_ok_def add_segment_def list_all_points_append open_ok_append)

lemma new_tool_call_ok:
  assumes "transcript_ok t" "new_tool_call tid name ind t = (r, t')"
  shows "transcript_ok t'" "r = length (tr_tools t)" "length (tr_tools t') = Suc (length (tr_tools t))"
    "tr_segments t' = tr_segments t" "tr_subagent_segments t' = tr_subagent_segments t"
  using assms by (auto simp: transcript_ok_def new_tool_call_def less_Suc_eq intro: list_all_tools_mono)

lemma update_tools_ok: "transcript_ok t \<Longrightarrow> transcript_ok (t\<lparr>tr_tools := (tr_tools t)[r := x]\<rparr>)"
  by (simp add: transcript_ok_def)

lemma tool_use_stop_ok: "transcript_ok t \<Longrightarrow> transcript_ok (tool_use_stop idx t)"
  by (auto simp: transcript_ok_def tool_use_stop_def split: option.split)

lemma block_stop_ok: "transcript_ok t \<Longrightarrow> transcript_ok (block_stop idx t)"
  using tool_use_stop_ok by (auto simp: block_stop_def thinking_stop_def text_stop_def transcript_ok_def open_ok_del)

lemma close_reused_ok: "transcript_ok t \<Longrightarrow> transcript_ok (close_reused idx t)"
  by (simp add: close_reused_def block_stop_ok)

lemma start_ok:
  assumes "transcript_ok t"
  shows "transcript_ok (thinking_start idx t)" "transcript_ok (text_start idx t)"
  using close_reused_ok [OF assms, of idx]
  by (auto simp: thinking_start_def text_start_def add_segment_def transcript_ok_def list_all_points_append open_ok_append open_ok_set)

lemma list_all_update: "list_all P xs \<Longrightarrow> P x \<Longrightarrow> list_all P (xs[i := x])"
  using set_update_subset_insert [of xs i x] by (auto simp: list_all_iff)

lemma replace_segment_ok:
  assumes "transcript_ok t" "is_thinking_seg seg = is_thinking_seg (tr_segments t ! i)" "is_text seg = is_text (tr_segments t ! i)"
    "is_subagent seg = is_subagent (tr_segments t ! i)" "i < length (tr_segments t) \<Longrightarrow> tools_below (length (tr_tools t)) seg"
  shows "transcript_ok (t\<lparr>tr_segments := (tr_segments t)[i := seg]\<rparr>)"
proof -
  have p: "points_to P (tr_segments t) j \<Longrightarrow> (P (tr_segments t ! i) \<Longrightarrow> P seg) \<Longrightarrow> points_to P ((tr_segments t)[i := seg]) j" for P j
    by (rule points_to_update)
  have "list_all (tools_below (length (tr_tools t))) ((tr_segments t)[i := seg])"
    using assms(1,5) by (cases "i < length (tr_segments t)") (simp_all add: list_all_update transcript_ok_def list_update_beyond)
  moreover have "list_all (points_to is_subagent ((tr_segments t)[i := seg])) (tr_subagent_segments t)"
    using assms(1,4) p [of is_subagent] by (auto simp: transcript_ok_def list_all_iff)
  moreover have "open_ok is_thinking_seg ((tr_segments t)[i := seg]) (tr_open_thinking t)"
    using assms(1,2) p [of is_thinking_seg] by (auto simp: transcript_ok_def open_ok_def)
  moreover have "open_ok is_text ((tr_segments t)[i := seg]) (tr_open_text t)"
    using assms(1,3) p [of is_text] by (auto simp: transcript_ok_def open_ok_def)
  ultimately show ?thesis using assms(1) by (simp add: transcript_ok_def)
qed

lemma append_at_ok: "transcript_ok t \<Longrightarrow> transcript_ok (append_at i s t)"
  unfolding append_at_def by (rule replace_segment_ok) (auto simp: transcript_ok_def list_all_length)

lemma delta_ok:
  assumes "transcript_ok t"
  shows "transcript_ok (thinking_delta idx s t)" "transcript_ok (text_delta idx s t)"
proof -
  have a: "transcript_ok (if 0 \<le> idx then t\<lparr>tr_segments := tr_segments t @ [ThinkingSegment []],
      tr_open_thinking := dict_set idx (length (tr_segments t)) (tr_open_thinking t)\<rparr> else t\<lparr>tr_segments := tr_segments t @ [ThinkingSegment []]\<rparr>)"
    "transcript_ok (if 0 \<le> idx then t\<lparr>tr_segments := tr_segments t @ [TextSegment []],
      tr_open_text := dict_set idx (length (tr_segments t)) (tr_open_text t)\<rparr> else t\<lparr>tr_segments := tr_segments t @ [TextSegment []]\<rparr>)"
    using assms by (auto simp: transcript_ok_def list_all_points_append open_ok_append open_ok_set)
  show "transcript_ok (thinking_delta idx s t)" using assms append_at_ok [OF a(1)]
    by (auto simp: thinking_delta_def add_segment_def append_at_ok split: option.split if_splits)
  show "transcript_ok (text_delta idx s t)" using assms append_at_ok [OF a(2)]
    by (auto simp: text_delta_def add_segment_def append_at_ok split: option.split if_splits)
qed

lemma register_ok: "transcript_ok t \<Longrightarrow> transcript_ok (register_tool tid name t)"
  by (simp add: register_tool_def transcript_ok_def)

lemma start_task_ok:
  assumes "transcript_ok t"
  shows "transcript_ok (start_task env tid inp t)"
  using assms
  by (auto simp: start_task_def add_segment_def subagent_push_def Let_def transcript_ok_def list_all_points_append
      open_ok_append points_to_new)

lemma pop_to_ok: "transcript_ok t \<Longrightarrow> transcript_ok (pop_to i t)"
  by (auto simp: pop_to_def transcript_ok_def list_all_iff dest: in_set_dropD)

lemma subagent_pop_ok: "transcript_ok t \<Longrightarrow> subagent_pop tid t = (b, t') \<Longrightarrow> transcript_ok t'"
  by (auto simp: subagent_pop_def Let_def pop_to_ok split: list.split_asm if_split_asm option.split_asm)

lemma close_task_ok:
  assumes "transcript_ok t"
  shows "transcript_ok (close_task tid name t)"
proof -
  obtain b t1 where a: "subagent_pop tid t = (b, t1)" by fastforce
  obtain b2 t2 where c: "subagent_pop [] t1 = (b2, t2)" by fastforce
  show ?thesis using assms a c subagent_pop_ok [OF assms a] subagent_pop_ok [OF subagent_pop_ok [OF assms a] c]
    by (simp add: close_task_def Let_def)
qed

lemma subagent_update:
  "is_subagent (case seg of SubagentSegment d c u _ \<Rightarrow> SubagentSegment d (Suc c) (List.insert name u) (Some r) | s \<Rightarrow> s) = is_subagent seg"
  "is_text (case seg of SubagentSegment d c u _ \<Rightarrow> SubagentSegment d (Suc c) (List.insert name u) (Some r) | s \<Rightarrow> s) = is_text seg"
  "is_thinking_seg (case seg of SubagentSegment d c u _ \<Rightarrow> SubagentSegment d (Suc c) (List.insert name u) (Some r) | s \<Rightarrow> s) = is_thinking_seg seg"
  "tools_below n seg \<Longrightarrow> r < n \<Longrightarrow>
    tools_below n (case seg of SubagentSegment d c u _ \<Rightarrow> SubagentSegment d (Suc c) (List.insert name u) (Some r) | s \<Rightarrow> s)"
  by (cases seg; simp)+

lemma add_tool_call_ok:
  assumes "transcript_ok t" "add_tool_call tid name t = (r, t')"
  shows "transcript_ok t' \<and> r < length (tr_tools t')"
proof (cases "in_subagent t \<and> tr_subagent_segments t \<noteq> []")
  case True
  then obtain parent ps where p: "tr_subagent_segments t = parent # ps" by (cases "tr_subagent_segments t") auto
  let ?name = "if name = [] then ''tool'' else name"
  obtain t1 where n: "new_tool_call tid ?name 1 t = (r, t1)"
    and t': "t' = t1\<lparr>tr_segments := (tr_segments t1)[parent :=
                 case tr_segments t1 ! parent of
                   SubagentSegment description tool_calls tools_used _ \<Rightarrow>
                     SubagentSegment description (Suc tool_calls) (List.insert ?name tools_used) (Some r)
                 | seg \<Rightarrow> seg]\<rparr>"
    using assms(2) True p by (auto simp: add_tool_call_def set_current_tool_call_def Let_def split: prod.splits)
  note ok = new_tool_call_ok [OF assms(1) n]
  have "tools_below (length (tr_tools t1)) (tr_segments t1 ! parent)"
    using ok(1) p ok(5) by (auto simp: transcript_ok_def list_all_length points_to_def)
  then have "transcript_ok t'" unfolding t'
    by (intro replace_segment_ok subagent_update ok(1)) (simp_all add: ok)
  then show ?thesis using ok unfolding t' by simp
next
  case False
  then obtain t1 where n: "new_tool_call tid name 0 t = (r, t1)" and t': "t' = snd (add_segment (ToolCallSegment r) t1)"
    using assms(2) by (auto simp: add_tool_call_def split: prod.splits list.splits bool.splits)
  note ok = new_tool_call_ok [OF assms(1) n]
  have "add_segment (ToolCallSegment r) t1 = (fst (add_segment (ToolCallSegment r) t1), t')" by (simp add: t')
  then have "transcript_ok t'" by (rule add_segment_ok [OF ok(1), rotated]) (simp add: ok)
  then show ?thesis using ok t' by (simp add: add_segment_def)
qed

lemma tool_use_ok:
  assumes "transcript_ok t"
  shows "transcript_ok (tool_use_start env idx tid name inp t)" "transcript_ok (apply_tool_use env tid name inp t)"
proof -
  have a: "transcript_ok (register_tool tid name (close_reused idx t))" "transcript_ok (register_tool tid name t)"
    using assms by (simp_all add: register_ok close_reused_ok)
  show "transcript_ok (tool_use_start env idx tid name inp t)"
    using a(1) start_task_ok [OF a(1)] add_tool_call_ok [OF a(1)]
    by (auto simp: tool_use_start_def Let_def transcript_ok_def split: prod.split)
  show "transcript_ok (apply_tool_use env tid name inp t)"
    using start_task_ok [OF a(2)] add_tool_call_ok [OF a(2)]
    by (auto simp: apply_tool_use_def Let_def update_tools_ok split: prod.split)
qed

lemma tool_result_ok: "transcript_ok t \<Longrightarrow> transcript_ok (tool_result pretty tid c err t)"
  using close_task_ok [of t tid "dict_get tid (tr_tool_names t)"]
  by (auto simp: tool_result_def Let_def add_segment_def transcript_ok_def list_all_points_append open_ok_append)

lemma apply_event_ok:
  assumes "transcript_ok t" "apply_event env pretty ev t = Inr t'"
  shows "transcript_ok t'"
  using assms start_ok delta_ok tool_use_ok tool_use_stop_ok block_stop_ok tool_result_ok
  unfolding apply_event_def Let_def at_index_def
  by (auto simp: thinking_stop_def text_stop_def transcript_ok_def open_ok_del add_segment_def list_all_points_append open_ok_append
      split: if_split_asm)

fun apply_events :: "text_env \<Rightarrow> (json \<Rightarrow> string) \<Rightarrow> jdict list \<Rightarrow> transcript \<Rightarrow> transcript result" where
  "apply_events env pretty [] t = Inr t"
| "apply_events env pretty (ev # evs) t = bind_result (apply_event env pretty ev t) (apply_events env pretty evs)"

end
