(* ===== verification/TranscriptText.thy ===== *)
theory TranscriptText
  imports TranscriptSound
begin

section \<open>What the transcript shows\<close>

text \<open>
  The text of the segments, against the deltas that were applied, and what rendering keeps of them.
\<close>

subsection \<open>The text of the segments\<close>

fun text_of :: "segment \<Rightarrow> string option" where
  "text_of (TextSegment s) = Some s" | "text_of _ = None"

definition text_view :: "transcript \<Rightarrow> string option list" where
  "text_view t = map text_of (tr_segments t)"

definition said_in :: "string option list \<Rightarrow> string" where
  "said_in v = concat (map (\<lambda>s. case s of None \<Rightarrow> [] | Some x \<Rightarrow> x) v)"

definition shown_text :: "transcript \<Rightarrow> string" where
  "shown_text t = said_in (text_view t)"

text \<open>No text segment follows one that is open.\<close>

definition tidy :: "transcript \<Rightarrow> bool" where
  "tidy t \<longleftrightarrow> (\<forall>idx i. dict_get idx (tr_open_text t) = Some i \<longrightarrow>
     (\<forall>j. i < j \<longrightarrow> j < length (tr_segments t) \<longrightarrow> text_view t ! j = None))"

text \<open>A step that touches no text: segments of other kinds are added, text blocks are at most closed.\<close>

definition quiet_at :: "transcript \<Rightarrow> transcript \<Rightarrow> bool" where
  "quiet_at t t' \<longleftrightarrow> (\<exists>n. text_view t' = text_view t @ replicate n None) \<and>
     (\<forall>idx i. dict_get idx (tr_open_text t') = Some i \<longrightarrow> dict_get idx (tr_open_text t) = Some i)"

lemma said_in_simps [simp]:
  "said_in [] = []" "said_in (v @ w) = said_in v @ said_in w" "said_in (None # v) = said_in v" "said_in (Some s # v) = s @ said_in v"
  "said_in (replicate n None) = []"
  by (simp_all add: said_in_def)

lemma length_view [simp]: "length (text_view t) = length (tr_segments t)"
  by (simp add: text_view_def)

lemma quiet_refl: "quiet_at t t"
  by (auto simp: quiet_at_def intro: exI [of _ 0])

lemma quiet_trans: "quiet_at t u \<Longrightarrow> quiet_at u v \<Longrightarrow> quiet_at t v"
  by (fastforce simp: quiet_at_def replicate_add [symmetric])

lemma quiet_shown: "quiet_at t t' \<Longrightarrow> shown_text t' = shown_text t"
  by (auto simp: quiet_at_def shown_text_def)

lemma quiet_tidy:
  assumes "quiet_at t t'" "tidy t" "transcript_ok t"
  shows "tidy t'"
  unfolding tidy_def
proof (intro allI impI)
  fix idx i j
  assume h: "dict_get idx (tr_open_text t') = Some i" "i < j" "j < length (tr_segments t')"
  obtain n where v: "text_view t' = text_view t @ replicate n None" using assms(1) by (auto simp: quiet_at_def)
  have "dict_get idx (tr_open_text t) = Some i" using assms(1) h(1) by (auto simp: quiet_at_def)
  moreover have "length (tr_segments t') = length (tr_segments t) + n" using arg_cong [OF v, of length] by simp
  ultimately show "text_view t' ! j = None"
    using assms(2) h unfolding v by (auto simp: tidy_def nth_append)
qed

lemma quiet_add: "text_of seg = None \<Longrightarrow> quiet_at t (snd (add_segment seg t))"
  by (auto simp: quiet_at_def add_segment_def text_view_def intro: exI [of _ 1])

lemma quiet_replace: "text_of seg = text_of (tr_segments t ! i) \<Longrightarrow> quiet_at t (t\<lparr>tr_segments := (tr_segments t)[i := seg]\<rparr>)"
  by (cases "i < length (tr_segments t)")
    (auto simp: quiet_at_def text_view_def map_update list_update_beyond intro!: exI [of _ 0] list_update_same_conv [THEN iffD2])

lemma quiet_same: "tr_segments t' = tr_segments t \<Longrightarrow> tr_open_text t' = tr_open_text t \<Longrightarrow> quiet_at t t'"
  by (auto simp: quiet_at_def text_view_def intro: exI [of _ 0])

lemma quiet_block_stop: "quiet_at t (block_stop idx t)"
  by (auto simp: block_stop_def thinking_stop_def text_stop_def tool_use_stop_def quiet_at_def text_view_def
      intro: exI [of _ 0] split: option.split if_splits)

lemma quiet_close_reused: "quiet_at t (close_reused idx t)"
  by (simp add: close_reused_def quiet_block_stop quiet_refl)

lemma quiet_thinking_start: "quiet_at t (thinking_start idx t)"
proof -
  let ?u = "close_reused idx t"
  have "quiet_at ?u (snd (add_segment (ThinkingSegment []) ?u))" by (rule quiet_add) simp
  then have "quiet_at t (snd (add_segment (ThinkingSegment []) ?u))" by (rule quiet_trans [OF quiet_close_reused])
  then show ?thesis
    by (rule quiet_trans) (auto simp: thinking_start_def add_segment_def intro: quiet_same)
qed

lemma quiet_append_thinking: "is_thinking_seg (tr_segments t ! i) \<Longrightarrow> quiet_at t (append_at i s t)"
  unfolding append_at_def by (cases "tr_segments t ! i") (auto intro!: quiet_replace)

lemma quiet_thinking_delta:
  assumes "transcript_ok t"
  shows "quiet_at t (thinking_delta idx s t)"
proof (cases "dict_get idx (tr_open_thinking t)")
  case (Some i)
  then show ?thesis using assms
    by (auto simp: thinking_delta_def transcript_ok_def open_ok_def points_to_def intro!: quiet_append_thinking)
next
  case None
  obtain i u where a: "add_segment (ThinkingSegment []) t = (i, u)" by fastforce
  let ?v = "if 0 \<le> idx then u\<lparr>tr_open_thinking := dict_set idx i (tr_open_thinking u)\<rparr> else u"
  have "quiet_at t u" using quiet_add [of "ThinkingSegment []" t] a by simp
  moreover have "quiet_at u ?v" by (auto intro: quiet_same)
  moreover have "quiet_at ?v (append_at i s ?v)"
    using a by (intro quiet_append_thinking) (auto simp: add_segment_def)
  ultimately have "quiet_at t (append_at i s ?v)" by (blast intro: quiet_trans)
  moreover have "thinking_delta idx s t = append_at i s ?v" using None a by (simp add: thinking_delta_def)
  ultimately show ?thesis by simp
qed

lemma quiet_start_task: "quiet_at t (start_task env tid inp t)"
proof -
  let ?seg = "SubagentSegment (task_heading_from_input env inp) 0 [] None"
  have "quiet_at t (snd (add_segment ?seg t))" by (rule quiet_add) simp
  then show ?thesis
    by (rule quiet_trans) (auto simp: start_task_def add_segment_def subagent_push_def Let_def intro: quiet_same)
qed

lemma quiet_add_tool_call: "quiet_at t (snd (add_tool_call tid name t))"
proof (cases "in_subagent t \<and> tr_subagent_segments t \<noteq> []")
  case True
  then obtain parent ps where p: "tr_subagent_segments t = parent # ps" by (cases "tr_subagent_segments t") auto
  let ?name = "if name = [] then ''tool'' else name"
  obtain r u where n: "new_tool_call tid ?name 1 t = (r, u)" by fastforce
  have "quiet_at t u" using n by (auto simp: new_tool_call_def intro: quiet_same)
  moreover have "quiet_at u (snd (add_tool_call tid name t))"
    using True p n
    by (auto simp: add_tool_call_def set_current_tool_call_def Let_def intro!: quiet_replace split: segment.split)
  ultimately show ?thesis by (rule quiet_trans)
next
  case False
  obtain r u where n: "new_tool_call tid name 0 t = (r, u)" by fastforce
  have "quiet_at t u" using n by (auto simp: new_tool_call_def intro: quiet_same)
  moreover have "quiet_at u (snd (add_tool_call tid name t))"
    using False n quiet_add [of "ToolCallSegment r" u] by (auto simp: add_tool_call_def split: list.split bool.split)
  ultimately show ?thesis by (rule quiet_trans)
qed

lemma quiet_register: "quiet_at t (register_tool tid name t)"
  by (auto simp: register_tool_def intro: quiet_same)

lemma quiet_tool_use: "quiet_at t (tool_use_start env idx tid name inp t)" "quiet_at t (apply_tool_use env tid name inp t)"
proof -
  have r: "quiet_at t (register_tool tid name (close_reused idx t))" "quiet_at t (register_tool tid name t)"
    using quiet_trans [OF quiet_close_reused quiet_register] quiet_register by blast+
  have more: "quiet_at u (snd (add_tool_call tid name u)\<lparr>tr_open_tools := o'\<rparr>)" "quiet_at u (snd (add_tool_call tid name u)\<lparr>tr_tools := l'\<rparr>)" for u o' l'
    using quiet_trans [OF quiet_add_tool_call quiet_same] by simp_all
  show "quiet_at t (tool_use_start env idx tid name inp t)"
    using quiet_trans [OF r(1)] quiet_start_task quiet_add_tool_call more(1)
    by (auto simp: tool_use_start_def Let_def split_def)
  show "quiet_at t (apply_tool_use env tid name inp t)"
    using quiet_trans [OF r(2)] quiet_start_task more(2)
    by (auto simp: apply_tool_use_def Let_def split_def)
qed

lemma subagent_pop_segments: "tr_segments (snd (subagent_pop tid t)) = tr_segments t" "tr_open_text (snd (subagent_pop tid t)) = tr_open_text t"
  by (auto simp: subagent_pop_def Let_def pop_to_def split: list.split option.split)

lemma quiet_tool_result: "quiet_at t (tool_result pretty tid c err t)"
proof -
  have "quiet_at t (close_task tid name t)" for name
    using subagent_pop_segments by (auto simp: close_task_def Let_def split_def intro: quiet_same)
  then show ?thesis
    using quiet_trans [OF _ quiet_add] by (auto simp: tool_result_def Let_def)
qed

subsection \<open>Every visible delta is shown, in order\<close>

definition event_type :: "jdict \<Rightarrow> string" where
  "event_type ev = (case get_null ''type'' ev of JStr s \<Rightarrow> s | _ \<Rightarrow> [])"

definition visible_text :: "text_env \<Rightarrow> jdict \<Rightarrow> transcript \<Rightarrow> string" where
  "visible_text env ev t =
     (if \<not> in_subagent t \<and> event_type ev \<in> {''text_delta'', ''text_chunk''}
      then py_str (te_repr env) (get_or ''text'' (JStr []) ev) else [])"

text \<open>A text block is started or continued only while no other one is open.\<close>

definition one_text_block :: "jdict \<Rightarrow> transcript \<Rightarrow> bool" where
  "one_text_block ev t \<longleftrightarrow>
     (event_type ev \<in> {''text_start'', ''text_delta'', ''text_chunk''} \<and> \<not> in_subagent t \<longrightarrow>
       (case index_of ev of Inl e \<Rightarrow> True | Inr idx \<Rightarrow> set (dict_keys (tr_open_text t)) \<subseteq> {idx}))"

fun heard :: "text_env \<Rightarrow> (json \<Rightarrow> string) \<Rightarrow> jdict list \<Rightarrow> transcript \<Rightarrow> string" where
  "heard env pretty [] t = []"
| "heard env pretty (ev # evs) t =
     visible_text env ev t @ (case apply_event env pretty ev t of Inl e \<Rightarrow> [] | Inr t' \<Rightarrow> heard env pretty evs t')"

fun sequential :: "text_env \<Rightarrow> (json \<Rightarrow> string) \<Rightarrow> jdict list \<Rightarrow> transcript \<Rightarrow> bool" where
  "sequential env pretty [] t \<longleftrightarrow> True"
| "sequential env pretty (ev # evs) t \<longleftrightarrow>
     one_text_block ev t \<and> (case apply_event env pretty ev t of Inl e \<Rightarrow> True | Inr t' \<Rightarrow> sequential env pretty evs t')"

lemma only_open:
  assumes "set (dict_keys op) \<subseteq> {idx}" "dict_get k op = Some (v::nat)"
  shows "k = idx"
  using pd.lookup_SomeD [OF assms(2)] assms(1) by auto

lemma start_new_text:
  assumes "set (dict_keys (tr_open_text t)) \<subseteq> {idx}" "transcript_ok t"
  shows "tidy (text_start idx t)" "shown_text (text_start idx t) = shown_text t"
proof -
  let ?u = "close_reused idx t"
  have q: "quiet_at t ?u" by (rule quiet_close_reused)
  have k: "k = idx" if "dict_get k (tr_open_text ?u) = Some i" for k i
    using q that assms(1) by (auto simp: quiet_at_def dest: only_open)
  have pos: "0 \<le> k" if "dict_get k (tr_open_text ?u) = Some i" for k i
    using close_reused_ok [OF assms(2), of idx] that by (auto simp: transcript_ok_def open_ok_def)
  show "shown_text (text_start idx t) = shown_text t"
    using quiet_shown [OF q] by (auto simp: text_start_def add_segment_def shown_text_def text_view_def)
  show "tidy (text_start idx t)"
    using k pos by (fastforce simp: text_start_def add_segment_def tidy_def text_view_def)
qed

lemma said_in_update_last:
  assumes "i < length v" "v ! i = Some x" "\<And>j. i < j \<Longrightarrow> j < length v \<Longrightarrow> v ! j = None"
  shows "said_in (v[i := Some (x @ s)]) = said_in v @ s"
proof -
  have "drop (Suc i) v = replicate (length v - Suc i) None"
    using assms(3) by (intro nth_equalityI) auto
  then obtain n where v: "v = take i v @ Some x # replicate n None"
    using assms(1,2) by (metis id_take_nth_drop)
  have "v[i := Some (x @ s)] = take i v @ Some (x @ s) # replicate n None"
    using assms(1) by (subst v) (simp add: list_update_append)
  then have "said_in (v[i := Some (x @ s)]) = said_in (take i v) @ x @ s" by simp
  moreover have "said_in v = said_in (take i v) @ x" by (subst v) simp
  ultimately show ?thesis by simp
qed

lemma append_last_text:
  assumes "i < length (tr_segments t)" "tr_segments t ! i = TextSegment x"
    "\<And>j. i < j \<Longrightarrow> j < length (tr_segments t) \<Longrightarrow> text_view t ! j = None"
  shows "shown_text (append_at i s t) = shown_text t @ s" "text_view (append_at i s t) = (text_view t)[i := Some (x @ s)]"
proof -
  show v: "text_view (append_at i s t) = (text_view t)[i := Some (x @ s)]"
    using assms(1,2) by (simp add: append_at_def text_view_def map_update)
  have "text_view t ! i = Some x" using assms(1,2) by (simp add: text_view_def)
  then show "shown_text (append_at i s t) = shown_text t @ s"
    unfolding shown_text_def v using assms by (intro said_in_update_last) simp_all
qed

lemma tidy_append:
  assumes "tidy t"
  shows "tidy (append_at i s t)"
proof -
  have n: "text_of (append_text s seg) = None \<longleftrightarrow> text_of seg = None" for seg by (cases seg) auto
  have "text_view (append_at i s t) ! j = None \<longleftrightarrow> text_view t ! j = None" if "j < length (tr_segments t)" for j
    using that by (cases "i = j") (auto simp: append_at_def text_view_def n)
  then show ?thesis using assms by (auto simp: tidy_def append_at_def)
qed

lemma text_delta_shown:
  assumes "set (dict_keys (tr_open_text t)) \<subseteq> {idx}" "transcript_ok t" "tidy t"
  shows "tidy (text_delta idx s t)" "shown_text (text_delta idx s t) = shown_text t @ s"
proof -
  have "tidy (text_delta idx s t) \<and> shown_text (text_delta idx s t) = shown_text t @ s"
  proof (cases "dict_get idx (tr_open_text t)")
    case (Some i)
    then have i: "i < length (tr_segments t)" "is_text (tr_segments t ! i)"
      using assms(2) by (auto simp: transcript_ok_def open_ok_def points_to_def)
    then obtain x where x: "tr_segments t ! i = TextSegment x" by (cases "tr_segments t ! i") auto
    have "shown_text (append_at i s t) = shown_text t @ s"
      using assms(3) Some by (intro append_last_text [OF i(1) x]) (auto simp: tidy_def)
    then show ?thesis using Some tidy_append [OF assms(3)] by (simp add: text_delta_def)
  next
    case None
    then have e: "dict_get k (tr_open_text t) = None" for k
      using assms(1) by (cases "dict_get k (tr_open_text t)") (auto dest: only_open)
    obtain i u where a: "add_segment (TextSegment []) t = (i, u)" by fastforce
    let ?v = "if 0 \<le> idx then u\<lparr>tr_open_text := dict_set idx i (tr_open_text u)\<rparr> else u"
    have d: "text_delta idx s t = append_at i s ?v" using None a by (simp add: text_delta_def)
    have i: "i = length (tr_segments t)" and seg: "tr_segments ?v = tr_segments t @ [TextSegment []]"
      using a by (auto simp: add_segment_def)
    have "tidy ?v" using a e by (auto simp: add_segment_def tidy_def)
    moreover have "shown_text (append_at i s ?v) = shown_text ?v @ s"
      by (rule append_last_text [where x = "[]"]) (simp_all add: i seg)
    moreover have "shown_text ?v = shown_text t" by (simp add: shown_text_def text_view_def seg)
    ultimately show ?thesis unfolding d by (simp add: tidy_append)
  qed
  then show "tidy (text_delta idx s t)" "shown_text (text_delta idx s t) = shown_text t @ s" by simp_all
qed

lemma apply_event_shows:
  assumes "transcript_ok t" "tidy t" "one_text_block ev t" "apply_event env pretty ev t = Inr t'"
  shows "tidy t' \<and> shown_text t' = shown_text t @ visible_text env ev t"
proof -
  have stop: "quiet_at t (thinking_stop idx t)" "quiet_at t (text_stop idx t)" "quiet_at t (tool_use_stop idx t)" for idx
    by (auto simp: thinking_stop_def text_stop_def tool_use_stop_def quiet_at_def text_view_def intro: exI [of _ 0] split: option.split)
  have error: "quiet_at t (snd (add_segment (ErrorSegment m) t))" for m by (rule quiet_add) simp
  have q: "tidy u \<and> shown_text u = shown_text t" if "quiet_at t u" for u
    using quiet_tidy [OF that assms(2,1)] quiet_shown [OF that] by simp
  consider (delta) idx where "\<not> in_subagent t" "event_type ev \<in> {''text_delta'', ''text_chunk''}" "index_of ev = Inr idx"
      "t' = text_delta idx (py_str (te_repr env) (get_or ''text'' (JStr []) ev)) t"
    | (start) idx where "\<not> in_subagent t" "event_type ev = ''text_start''" "index_of ev = Inr idx" "t' = text_start idx t"
    | (silent) "quiet_at t t'" "visible_text env ev t = []"
    using assms(4) stop error quiet_thinking_start quiet_thinking_delta [OF assms(1)] quiet_tool_use quiet_tool_result
      quiet_block_stop quiet_refl
    unfolding apply_event_def Let_def at_index_def event_type_def [symmetric] visible_text_def
    by (auto split: if_split_asm)
  then show ?thesis
  proof cases
    case delta
    then have "set (dict_keys (tr_open_text t)) \<subseteq> {idx}" using assms(3) by (auto simp: one_text_block_def)
    from text_delta_shown [OF this assms(1,2)] delta show ?thesis by (simp add: visible_text_def)
  next
    case start
    then have "set (dict_keys (tr_open_text t)) \<subseteq> {idx}" using assms(3) by (auto simp: one_text_block_def)
    from start_new_text [OF this assms(1)] start show ?thesis by (simp add: visible_text_def)
  next
    case silent
    then show ?thesis using q by simp
  qed
qed

lemma apply_events_show:
  "transcript_ok t \<Longrightarrow> tidy t \<Longrightarrow> sequential env pretty evs t \<Longrightarrow> apply_events env pretty evs t = Inr t' \<Longrightarrow>
     transcript_ok t' \<and> tidy t' \<and> shown_text t' = shown_text t @ heard env pretty evs t"
proof (induction evs arbitrary: t)
  case Nil
  then show ?case by simp
next
  case (Cons ev evs)
  then obtain u where u: "apply_event env pretty ev t = Inr u" "apply_events env pretty evs u = Inr t'" by auto
  have one: "one_text_block ev t" "sequential env pretty evs u" using Cons.prems(3) u(1) by simp_all
  from apply_event_shows [OF Cons.prems(1,2) one(1) u(1)]
  show ?case using Cons.IH [OF apply_event_ok [OF Cons.prems(1) u(1)] _ one(2) u(2)] u(1) by simp
qed

lemma new_transcript_ok: "transcript_ok (new_transcript show)" "tidy (new_transcript show)" "shown_text (new_transcript show) = []"
  by (simp_all add: new_transcript_def transcript_ok_def open_ok_def tidy_def shown_text_def text_view_def)

text \<open>C19. 
  C0. From an empty transcript, the text of its text segments, read in order, is the text of the
  text events outside subagents, read in order: nothing is lost, repeated or moved, as long as no
  text block is started while another one is open.
\<close>

theorem transcript_shows_text:
  assumes "apply_events env pretty evs (new_transcript show) = Inr t" "sequential env pretty evs (new_transcript show)"
  shows "shown_text t = heard env pretty evs (new_transcript show)"
  using apply_events_show [OF new_transcript_ok(1,2) assms(2,1)] new_transcript_ok(3) by simp

text \<open>
  C0. Whatever events are applied to an empty transcript, every place the buffer holds is that of a
  segment of the right kind: open text and thinking blocks, shared tool calls and the subagents, whose
  two stacks stay as long as each other.
\<close>

theorem transcript_places_valid:
  "apply_events env pretty evs (new_transcript show) = Inr t \<Longrightarrow> transcript_ok t"
proof -
  have "transcript_ok u \<Longrightarrow> apply_events env pretty evs u = Inr t \<Longrightarrow> transcript_ok t" for u
    by (induction evs arbitrary: u) (auto dest: apply_event_ok)
  then show "apply_events env pretty evs (new_transcript show) = Inr t \<Longrightarrow> transcript_ok t"
    using new_transcript_ok(1) by blast
qed

end
