(* ===== verification/TranscriptRender.thy ===== *)
theory TranscriptRender
  imports TranscriptText ConvertSound
begin

section \<open>What rendering keeps, and examples\<close>

definition part_fits :: "render_ctx \<Rightarrow> string option \<Rightarrow> int \<Rightarrow> string list \<Rightarrow> nat \<Rightarrow> bool" where
  "part_fits ctx status limit parts k \<longleftrightarrow> int (length (join_parts ctx status (drop k parts) True)) \<le> limit"

lemma drop_oldest_exact:
  "drop_oldest ctx status limit parts l = r \<Longrightarrow>
     (case r of
        Inr c \<Rightarrow> \<exists>k<length parts. c = join_parts ctx status (drop k parts) True \<and> part_fits ctx status limit parts k \<and>
                  (\<forall>j<k. \<not> part_fits ctx status limit parts j)
      | Inl l' \<Rightarrow> (\<forall>k<length parts. \<not> part_fits ctx status limit parts k) \<and> l' = (if parts = [] then l else Some (last parts)))"
proof (induction parts arbitrary: l)
  case Nil
  then show ?case by auto
next
  case (Cons p ps)
  show ?case
  proof (cases "part_fits ctx status limit (p # ps) 0")
    case True
    then have r: "r = Inr (join_parts ctx status (p # ps) True)"
      using Cons.prems by (simp add: part_fits_def Let_def)
    show ?thesis unfolding r sum.case
      by (rule exI [of _ 0]) (use True in simp)
  next
    case False
    then have rest: "drop_oldest ctx status limit ps (Some p) = r"
      using Cons.prems by (simp add: part_fits_def Let_def)
    have shift: "part_fits ctx status limit (p # ps) (Suc k) = part_fits ctx status limit ps k" for k
      by (simp add: part_fits_def)
    show ?thesis
    proof (cases r)
      case (Inr c)
      then obtain k where k: "k < length ps" "c = join_parts ctx status (drop k ps) True" "part_fits ctx status limit ps k"
        "\<forall>j<k. \<not> part_fits ctx status limit ps j" using Cons.IH [OF rest] by auto
      have "\<forall>j<Suc k. \<not> part_fits ctx status limit (p # ps) j"
        using False k(4) shift by (auto simp: less_Suc_eq_0_disj)
      then show ?thesis using Inr k shift by (auto intro!: exI [of _ "Suc k"])
    next
      case (Inl l')
      then show ?thesis using Cons.IH [OF rest] False shift by (auto simp: less_Suc_eq_0_disj)
    qed
  qed
qed

lemma nothing_fits_short:
  "int (length (nothing_fits ctx status limit l)) \<le> limit \<or> nothing_fits ctx status limit l = (case status of None \<Rightarrow> [] | Some s \<Rightarrow> s)"
  unfolding nothing_fits_def Let_def by (simp split: option.split)

text \<open>
  C0. Rendering shows everything when it fits; otherwise it shows the marker and the longest run of
  newest parts that fits with it; and when not even the newest part fits, what it shows fits, or is
  the status line alone.
\<close>

theorem render_keeps_newest:
  "let r = render_transcript ctx limit status t; parts = rendered_parts ctx t in
     int (length (join_parts ctx status parts False)) \<le> limit \<and> r = join_parts ctx status parts False \<or>
     limit < int (length (join_parts ctx status parts False)) \<and>
       ((\<exists>k. k < length parts \<and> r = join_parts ctx status (drop k parts) True \<and> part_fits ctx status limit parts k \<and>
            \<not> (\<exists>j. j < k \<and> part_fits ctx status limit parts j)) \<or>
        \<not> (\<exists>k. k < length parts \<and> part_fits ctx status limit parts k) \<and>
          (int (length r) \<le> limit \<or> r = (case status of None \<Rightarrow> [] | Some s \<Rightarrow> s)))"
  (is "let r = ?r; parts = ?parts in ?P r parts")
proof -
  define r parts where "r = ?r" and "parts = ?parts"
  have "?P r parts"
  proof (cases "int (length (join_parts ctx status parts False)) \<le> limit")
    case True
    then show ?thesis by (simp add: r_def parts_def render_transcript_def Let_def)
  next
    case False
    obtain d where d: "drop_oldest ctx status limit parts None = d" by blast
    have r: "r = (case d of Inr c \<Rightarrow> c | Inl l \<Rightarrow> nothing_fits ctx status limit l)"
      using False d by (simp add: r_def parts_def render_transcript_def Let_def)
    show ?thesis
    proof (cases d)
      case (Inr c)
      then show ?thesis using drop_oldest_exact [OF d] False r by auto
    next
      case (Inl l)
      then have r': "r = nothing_fits ctx status limit l" using r by simp
      have "\<not> (\<exists>k. k < length parts \<and> part_fits ctx status limit parts k)" using drop_oldest_exact [OF d] Inl by auto
      then show ?thesis using nothing_fits_short [of ctx status limit l] False unfolding r' by simp
    qed
  qed
  then show ?thesis by (simp add: r_def parts_def Let_def)
qed

subsection \<open>Examples\<close>

definition demo_events :: "jdict list" where
  "demo_events =
     [event_of ''text_start'' [(''index'', JInt 0)],
      event_of ''text_delta'' [(''index'', JInt 0), (''text'', JStr ''Hi'')],
      event_of ''block_stop'' [(''index'', JInt 0)],
      event_of ''tool_use'' [(''id'', JStr ''call_1''), (''name'', JStr ''Task''), (''input'', JNull)],
      event_of ''text_chunk'' [(''text'', JStr ''inner'')],
      event_of ''tool_result'' [(''tool_use_id'', JStr ''call_1''), (''content'', JStr ''ok''), (''is_error'', JBool False)],
      event_of ''text_chunk'' [(''text'', JStr '' there'')]]"

definition demo_transcript :: transcript where
  "demo_transcript =
     \<lparr>tr_segments = [TextSegment ''Hi'', SubagentSegment ''Subagent'' 0 [] None, TextSegment '' there''], tr_tools = [],
      tr_open_thinking = [], tr_open_text = [], tr_open_tools = [], tr_tool_names = [(''call_1'', ''Task'')],
      tr_show_tool_results = False, tr_subagent_stack = [], tr_subagent_segments = []\<rparr>"

lemma demo_applied: "apply_events demo_text (\<lambda>_. ''{}'') demo_events (new_transcript False) = Inr demo_transcript"
  by code_simp

lemma demo_sequential: "sequential demo_text (\<lambda>_. ''{}'') demo_events (new_transcript False)"
  by code_simp

lemma transcript_shows_text_witness: "heard demo_text (\<lambda>_. ''{}'') demo_events (new_transcript False) = ''Hi there''"
  unfolding transcript_shows_text [OF demo_applied demo_sequential, symmetric]
  by (simp add: shown_text_def text_view_def demo_transcript_def)

lemma transcript_places_valid_witness: "transcript_ok demo_transcript"
  by (rule transcript_places_valid [OF demo_applied])

text \<open>
  Ids match when one begins with the other: the result of the inner call \<open>call_12\<close> ends the
  subagent of the task \<open>call_1\<close>, and what the subagent says next is shown.
\<close>

lemma inner_result_ends_task:
  "(case apply_events demo_text (\<lambda>_. ''{}'')
      [event_of ''tool_use'' [(''id'', JStr ''call_1''), (''name'', JStr ''Task''), (''input'', JNull)],
       event_of ''tool_use'' [(''id'', JStr ''call_12''), (''name'', JStr ''Read''), (''input'', JNull)],
       event_of ''tool_result'' [(''tool_use_id'', JStr ''call_12''), (''content'', JStr ''ok''), (''is_error'', JBool False)],
       event_of ''text_chunk'' [(''text'', JStr ''inner'')]] (new_transcript False) of
    Inl e \<Rightarrow> ''''
  | Inr t \<Rightarrow> shown_text t) = ''inner''"
  by code_simp

end
