(* ===== verification/NodeEvents.thy ===== *)
theory NodeEvents
  imports TranscriptRender TreeProperties
begin

section \<open>One CLI run for a node (\<open>messaging/node_event_pipeline.py\<close>, \<open>ui_updates.py\<close>, \<open>handler.py\<close>)\<close>

text \<open>
  What happens to a node while its CLI process runs: the events of the process go through the parser
  into the transcript, the status message is edited, the node's state and session are kept in the
  tree, and errors go to the pending children.  The process is an argument: the events it prints,
  each with a reading of the clock in milliseconds, and how it ends.  The tree is the one that is
  registered for the node; it is not removed during the run.  Log lines and trace events are left out.
\<close>

subsection \<open>The state of a run\<close>

record run_env =
  re_text :: text_env
  re_pretty :: "json \<Rightarrow> string"
  re_ctx :: render_ctx
  re_limit :: int
  re_format :: "status_line \<Rightarrow> string"
  re_preview :: "py_error \<Rightarrow> string"

text \<open>An edit of a message: chat, message and text.\<close>

type_synonym edit = "string \<times> string \<times> string"

record node_run =
  nr_repo :: tree_repository
  nr_saved :: "(string \<times> message_tree) list"
  nr_transcript :: transcript
  nr_last_ui_update :: int
  nr_last_displayed :: "string option"
  nr_edits :: "edit list"
  nr_last_status :: "status_line option"
  nr_had_events :: bool
  nr_captured_session :: "string option"
  nr_temp_session :: "string option"
  nr_registered :: "(string \<times> string) list"

definition node_tree :: "string \<Rightarrow> node_run \<Rightarrow> message_tree option" where
  "node_tree nid r = tr_get_tree_for_node nid (nr_repo r)"

subsection \<open>Editing the status message\<close>

definition send_edit :: "string \<Rightarrow> string \<Rightarrow> string \<Rightarrow> node_run \<Rightarrow> node_run" where
  "send_edit chat msg txt r = r\<lparr>nr_edits := nr_edits r @ [(chat, msg, txt)]\<rparr>"

definition update_ui ::
  "run_env \<Rightarrow> string \<Rightarrow> string \<Rightarrow> int \<Rightarrow> status_line option \<Rightarrow> bool \<Rightarrow> node_run \<Rightarrow> node_run" where
  "update_ui env chat msg now status force r =
     (if \<not> force \<and> now - nr_last_ui_update r < 1000 then r
      else
        let r = r\<lparr>nr_last_ui_update := now\<rparr>;
            display = render_transcript (re_ctx env) (re_limit env) (map_option (re_format env) status) (nr_transcript r)
        in if display \<noteq> [] \<and> Some display \<noteq> nr_last_displayed r
           then send_edit chat msg display (r\<lparr>nr_last_displayed := Some display\<rparr>)
           else r)"

subsection \<open>The tree\<close>

definition update_node_state ::
  "string \<Rightarrow> message_state \<Rightarrow> string option \<Rightarrow> string option \<Rightarrow> int \<Rightarrow> node_run \<Rightarrow> node_run" where
  "update_node_state nid st session err now r =
     (case node_tree nid r of
        None \<Rightarrow> r
      | Some t \<Rightarrow> r\<lparr>nr_repo := tr_put_tree (mt_root_id t) (mt_update_state nid st session err now t) (nr_repo r)\<rparr>)"

definition save_node_tree :: "string \<Rightarrow> node_run \<Rightarrow> node_run" where
  "save_node_tree nid r =
     (case node_tree nid r of None \<Rightarrow> r | Some t \<Rightarrow> r\<lparr>nr_saved := nr_saved r @ [(mt_root_id t, t)]\<rparr>)"

definition child_edit :: "run_env \<Rightarrow> string \<Rightarrow> message_tree \<Rightarrow> string \<Rightarrow> edit list" where
  "child_edit env txt t c =
     (case mt_get_node c t of
        None \<Rightarrow> []
      | Some n \<Rightarrow> [(im_chat_id (nd_incoming n), nd_status_message_id n, re_format env (StatusLine CrossMark ''Cancelled:'' (Some txt)))])"

text \<open>\<open>_propagate_error_to_children\<close>; \<open>None\<close>: the traversal of the children does not end.\<close>

definition propagate_error_to_children :: "run_env \<Rightarrow> string \<Rightarrow> string \<Rightarrow> string \<Rightarrow> int \<Rightarrow> node_run \<Rightarrow> node_run option" where
  "propagate_error_to_children env nid msg child_status now r =
     (case mgr_mark_node_error nid msg True now (nr_repo r) of
        None \<Rightarrow> None
      | Some (affected, repo) \<Rightarrow>
          (let r = r\<lparr>nr_repo := repo\<rparr> in
           case node_tree nid r of
             None \<Rightarrow> Some r
           | Some t \<Rightarrow> Some (r\<lparr>nr_edits := nr_edits r @ concat (map (child_edit env child_status t) (drop 1 affected))\<rparr>)))"

subsection \<open>Session events\<close>

definition register_session :: "string \<Rightarrow> string \<Rightarrow> node_run \<Rightarrow> node_run" where
  "register_session temp real r = r\<lparr>nr_registered := nr_registered r @ [(temp, real)]\<rparr>"

definition handle_session_info_event :: "jdict \<Rightarrow> string \<Rightarrow> int \<Rightarrow> node_run \<Rightarrow> node_run result" where
  "handle_session_info_event event nid now r =
     (if get_null ''type'' event \<noteq> JStr ''session_info'' then Inr r
      else case (get_null ''session_id'' event, nr_temp_session r) of
        (JStr real, Some temp) \<Rightarrow>
          if real = [] \<or> temp = [] then Inr r
          else
            (let r = register_session temp real r;
                 r = (if node_tree nid r \<noteq> None
                      then save_node_tree nid (update_node_state nid IN_PROGRESS (Some real) None now r) else r)
             in Inr (r\<lparr>nr_captured_session := Some real, nr_temp_session := None\<rparr>))
      | (JNull, _) \<Rightarrow> Inr r
      | (_, None) \<Rightarrow> Inr r
      | _ \<Rightarrow> Inl IllTyped)"

subsection \<open>A parsed event\<close>

definition apply_to_run :: "run_env \<Rightarrow> jdict \<Rightarrow> node_run \<Rightarrow> node_run result" where
  "apply_to_run env ev r =
     bind_result (apply_event (re_text env) (re_pretty env) ev (nr_transcript r)) (\<lambda>t. Inr (r\<lparr>nr_transcript := t\<rparr>))"

definition complete_run :: "run_env \<Rightarrow> string \<Rightarrow> string \<Rightarrow> string \<Rightarrow> int \<Rightarrow> node_run \<Rightarrow> node_run result" where
  "complete_run env nid chat msg now r =
     bind_result
       (if \<not> nr_had_events r
        then apply_to_run env (event_of ''text_chunk'' [(''text'', JStr ''Done.'')]) r else Inr r)
       (\<lambda>r.
          let r = update_ui env chat msg now (Some (StatusLine CheckMark ''Complete'' None)) True r
          in if node_tree nid r \<noteq> None \<and> truthy_str (nr_captured_session r)
             then Inr (save_node_tree nid (update_node_state nid COMPLETED (nr_captured_session r) None now r))
             else Inr r)"

text \<open>\<open>None\<close>: a traversal does not end.  The text of an error that is no string is left out.\<close>

definition process_parsed_cli_event ::
  "run_env \<Rightarrow> string \<Rightarrow> string \<Rightarrow> string \<Rightarrow> int \<Rightarrow> jdict \<Rightarrow> node_run \<Rightarrow> node_run result option" where
  "process_parsed_cli_event env nid chat msg now parsed r =
     (let ptype = event_type parsed in
      case (if ptype \<in> set TRANSCRIPT_EVENT_TYPES
            then bind_result (apply_to_run env parsed r) (\<lambda>r. Inr (r\<lparr>nr_had_events := True\<rparr>)) else Inr r) of
        Inl e \<Rightarrow> Some (Inl e)
      | Inr r \<Rightarrow>
          (case get_status_for_event (re_text env) ptype parsed of
             Some status \<Rightarrow>
               Some (Inr ((update_ui env chat msg now (Some status) False r)\<lparr>nr_last_status := Some status\<rparr>))
           | None \<Rightarrow>
               if ptype = ''block_stop'' then Some (Inr (update_ui env chat msg now (nr_last_status r) True r))
               else if ptype = ''complete'' then Some (complete_run env nid chat msg now r)
               else if ptype = ''error'' then
                 (let r = update_ui env chat msg now (Some (StatusLine CrossMark ''Error'' None)) True r in
                  if node_tree nid r = None then Some (Inr r)
                  else case get_or ''message'' (JStr ''Unknown error'') parsed of
                    JStr m \<Rightarrow> map_option Inr (propagate_error_to_children env nid m ''Parent task failed'' now r)
                  | _ \<Rightarrow> Some (Inl IllTyped))
               else Some (Inr r)))"

fun process_parsed ::
  "run_env \<Rightarrow> string \<Rightarrow> string \<Rightarrow> string \<Rightarrow> int \<Rightarrow> jdict list \<Rightarrow> node_run \<Rightarrow> (py_error option \<times> node_run) option" where
  "process_parsed env nid chat msg now [] r = Some (None, r)"
| "process_parsed env nid chat msg now (p # ps) r =
     (case process_parsed_cli_event env nid chat msg now p r of
        None \<Rightarrow> None
      | Some (Inl e) \<Rightarrow> Some (Some e, r)
      | Some (Inr r) \<Rightarrow> process_parsed env nid chat msg now ps r)"

subsection \<open>The run\<close>

fun read_events ::
  "run_env \<Rightarrow> string \<Rightarrow> string \<Rightarrow> string \<Rightarrow> (int \<times> json) list \<Rightarrow> node_run \<Rightarrow> (py_error option \<times> node_run) option" where
  "read_events env nid chat msg [] r = Some (None, r)"
| "read_events env nid chat msg ((now, event) # evs) r =
     (case event of
        JObj d \<Rightarrow>
          (case handle_session_info_event d nid now r of
             Inl e \<Rightarrow> Some (Some e, r)
           | Inr r \<Rightarrow>
               if get_null ''type'' d = JStr ''session_info'' then read_events env nid chat msg evs r
               else case process_parsed env nid chat msg now (parse_cli_event (re_text env) event) r of
                 None \<Rightarrow> None
               | Some (Some e, r) \<Rightarrow> Some (Some e, r)
               | Some (None, r) \<Rightarrow> read_events env nid chat msg evs r)
      | _ \<Rightarrow> read_events env nid chat msg evs r)"

datatype cli_end = StreamEnds | TaskCancelled | StreamRaises string

definition show_error :: "run_env \<Rightarrow> string \<Rightarrow> node_run \<Rightarrow> node_run" where
  "show_error env message r =
     (case apply_to_run env (event_of ''error'' [(''message'', JStr message)]) r of Inl e \<Rightarrow> r | Inr r \<Rightarrow> r)"

definition run_cancelled :: "run_env \<Rightarrow> string \<Rightarrow> string \<Rightarrow> string \<Rightarrow> int \<Rightarrow> node_run \<Rightarrow> node_run" where
  "run_cancelled env nid chat msg now r =
     (let reason = (case node_tree nid r of
                      None \<Rightarrow> JNull
                    | Some t \<Rightarrow> (case mt_get_node nid t of
                        None \<Rightarrow> JNull
                      | Some n \<Rightarrow> (case nd_context n of JObj c \<Rightarrow> get_null ''cancel_reason'' c | _ \<Rightarrow> JNull)));
          r = (if reason = JStr ''stop'' then update_ui env chat msg now (Some (StatusLine StopSign ''Stopped.'' None)) True r
               else update_ui env chat msg now (Some (StatusLine CrossMark ''Cancelled'' None)) True
                      (show_error env ''Task was cancelled'' r))
      in update_node_state nid ERROR None (Some ''Cancelled by user'') now r)"

definition run_failed :: "run_env \<Rightarrow> string \<Rightarrow> string \<Rightarrow> string \<Rightarrow> int \<Rightarrow> string \<Rightarrow> node_run \<Rightarrow> node_run option" where
  "run_failed env nid chat msg now preview r =
     (let r = update_ui env chat msg now (Some (StatusLine Boom ''Task Failed'' None)) True (show_error env preview r) in
      if node_tree nid r = None then Some r
      else propagate_error_to_children env nid preview ''Parent task failed'' now r)"

text \<open>\<open>_process_node_impl\<close> from the moment the session is there: the session it got is new
  (a temporary id) or one that is known.\<close>

definition process_node ::
  "run_env \<Rightarrow> string \<Rightarrow> string \<Rightarrow> string \<Rightarrow> int \<Rightarrow> string \<times> bool \<Rightarrow> (int \<times> json) list \<Rightarrow> int \<times> cli_end
    \<Rightarrow> tree_repository \<Rightarrow> node_run option" where
  "process_node env nid chat msg start session evs finish repo =
     (let r = \<lparr>nr_repo = repo, nr_saved = [], nr_transcript = new_transcript False, nr_last_ui_update = 0,
               nr_last_displayed = None, nr_edits = [], nr_last_status = None, nr_had_events = False,
               nr_captured_session = (if snd session then None else Some (fst session)),
               nr_temp_session = (if snd session then Some (fst session) else None), nr_registered = []\<rparr>;
          r = update_node_state nid IN_PROGRESS None None start r
      in case read_events env nid chat msg evs r of
           None \<Rightarrow> None
         | Some (Some e, r) \<Rightarrow> run_failed env nid chat msg (fst finish) (re_preview env e) r
         | Some (None, r) \<Rightarrow>
             (case snd finish of
                StreamEnds \<Rightarrow> Some r
              | TaskCancelled \<Rightarrow> Some (run_cancelled env nid chat msg (fst finish) r)
              | StreamRaises preview \<Rightarrow> run_failed env nid chat msg (fst finish) preview r))"

subsection \<open>A process that fails\<close>

definition node_state :: "string \<Rightarrow> node_run \<Rightarrow> message_state option" where
  "node_state nid r = (case node_tree nid r of None \<Rightarrow> None | Some t \<Rightarrow> map_option nd_state (mt_get_node nid t))"

definition exit_failed :: "jdict \<Rightarrow> bool" where
  "exit_failed d \<longleftrightarrow> get_null ''type'' d = JStr ''exit'' \<and> \<not> is_zero (get_or ''code'' (JInt 0) d)"

definition exit_message :: "run_env \<Rightarrow> jdict \<Rightarrow> json" where
  "exit_message env d =
     or_else (get_null ''stderr'' d) (JStr (''Process exited with code '' @ py_str (te_repr (re_text env)) (get_or ''code'' (JInt 0) d)))"

lemma parse_failed_exit:
  assumes "exit_failed d"
  shows "parse_cli_event (re_text env) (JObj d) =
    [event_of ''error'' [(''message'', exit_message env d)], event_of ''complete'' [(''status'', JStr ''failed'')]]"
  using assms
  by (simp add: exit_failed_def parse_cli_event_def is_str_def message_events_def event_message_def exit_events_def exit_message_def Let_def)

lemma node_tree_update_ui [simp]: "node_tree nid (update_ui env chat msg now st f r) = node_tree nid r"
  by (simp add: node_tree_def update_ui_def Let_def send_edit_def)

lemma update_ui_captured [simp]: "nr_captured_session (update_ui env chat msg now st f r) = nr_captured_session r"
  "nr_repo (update_ui env chat msg now st f r) = nr_repo r" "nr_had_events (update_ui env chat msg now st f r) = nr_had_events r"
  "nr_transcript (update_ui env chat msg now st f r) = nr_transcript r"
  by (simp_all add: update_ui_def Let_def send_edit_def)

lemma update_ui_displays:
  assumes "display = render_transcript (re_ctx env) (re_limit env) (map_option (re_format env) st) (nr_transcript r)" "display \<noteq> []"
  shows "nr_last_displayed (update_ui env chat msg now st True r) = Some display"
  using assms by (auto simp: update_ui_def Let_def send_edit_def)

lemma apply_error_event: "\<exists>t'. apply_event env pretty (event_of ''error'' [(''message'', m)]) t = Inr t'"
  by (simp add: apply_event_def event_of_def get_null_def Let_def)

lemma mark_error_index: "mgr_mark_node_error nid m True now r = Some (ids, r') \<Longrightarrow> tr_node_to_tree r' = tr_node_to_tree r"
  by (auto simp: mgr_mark_node_error_def tr_put_tree_def Let_def split: option.split_asm prod.split_asm)

lemma propagate_keeps_node:
  assumes "repo_ok (nr_repo r)" "node_tree nid r = Some t" "nid \<in> set (node_ids t)" "m \<noteq> []"
  obtains r' t' n where "propagate_error_to_children env nid m txt now r = Some r'" "node_tree nid r' = Some t'"
    "mt_get_node nid t' = Some n" "nr_captured_session r' = nr_captured_session r" "nr_had_events r' = nr_had_events r"
    "nr_transcript r' = nr_transcript r" "repo_ok (nr_repo r')"
proof -
  have tree: "tr_get_tree_for_node nid (nr_repo r) = Some t" using assms(2) by (simp add: node_tree_def)
  obtain ids repo t' where e: "mgr_mark_node_error nid m True now (nr_repo r) = Some (ids, repo)" "repo_ok repo"
    "tr_get_tree (mt_root_id t) repo = Some t'"
    "\<forall>k. mt_get_node k t' = map_option
       (\<lambda>n. if k = nid then node_error m now n
            else if k \<in> pending_below t nid then node_error (''Parent failed: '' @ m) now n else n) (mt_get_node k t)"
    using mark_node_error_effect [OF assms(1) tree assms(3,4), of now] by blast
  have "tr_node_to_tree repo = tr_node_to_tree (nr_repo r)" by (rule mark_error_index [OF e(1)])
  then have got: "tr_get_tree_for_node nid repo = Some t'"
    using tree e(3) repo_ok_tree_for_node [OF assms(1) tree]
    by (auto simp: tr_get_tree_for_node_def split: option.split_asm if_split_asm)
  obtain n where n: "mt_get_node nid t' = Some n" using assms(3) e(4) node_ids_iff by fastforce
  show thesis
    by (rule that [of "r\<lparr>nr_repo := repo, nr_edits := nr_edits r @ concat (map (child_edit env txt t') (drop 1 ids))\<rparr>" t' n])
      (use e got n in \<open>simp_all add: propagate_error_to_children_def node_tree_def\<close>)
qed

lemma event_type_simps [simp]: "event_type (event_of ty d) = ty" "get_or k dflt (event_of ty d) = (if k = ''type'' then JStr ty else get_or k dflt d)"
  by (simp_all add: event_type_def event_of_def get_null_def get_or_def)

lemma process_error:
  assumes "repo_ok (nr_repo r)" "node_tree nid r = Some t" "nid \<in> set (node_ids t)" "m \<noteq> []"
  obtains r' t' n where "process_parsed_cli_event env nid chat msg now (event_of ''error'' [(''message'', JStr m)]) r = Some (Inr r')"
    "node_tree nid r' = Some t'" "mt_get_node nid t' = Some n" "nr_captured_session r' = nr_captured_session r"
    "nr_had_events r'" "repo_ok (nr_repo r')"
proof -
  obtain tr where tr: "apply_event (re_text env) (re_pretty env) (event_of ''error'' [(''message'', JStr m)]) (nr_transcript r) = Inr tr"
    using apply_error_event by blast
  let ?r1 = "r\<lparr>nr_transcript := tr, nr_had_events := True\<rparr>"
  let ?r2 = "update_ui env chat msg now (Some (StatusLine CrossMark ''Error'' None)) True ?r1"
  have r2: "repo_ok (nr_repo ?r2)" "node_tree nid ?r2 = Some t" using assms(1,2) by (simp_all add: node_tree_def)
  obtain r' t' n where p: "propagate_error_to_children env nid m ''Parent task failed'' now ?r2 = Some r'" "node_tree nid r' = Some t'"
    "mt_get_node nid t' = Some n" "nr_captured_session r' = nr_captured_session ?r2" "nr_had_events r' = nr_had_events ?r2"
    "repo_ok (nr_repo r')"
    using propagate_keeps_node [OF r2 assms(3,4)] by metis
  have "process_parsed_cli_event env nid chat msg now (event_of ''error'' [(''message'', JStr m)]) r = Some (Inr r')"
    using tr p(1) r2(2)
    by (simp add: process_parsed_cli_event_def Let_def TRANSCRIPT_EVENT_TYPES_def apply_to_run_def get_status_for_event_def
        EVENT_STATUS_MAP_def) (simp add: get_or_def)
  with p show thesis by (intro that) simp_all
qed

lemma update_node_state_node:
  assumes "node_tree nid r = Some t" "mt_get_node nid t = Some n" "repo_ok (nr_repo r)"
  shows "node_state nid (save_node_tree nid (update_node_state nid st sid err now r)) = Some st"
proof -
  have tree: "tr_get_tree_for_node nid (nr_repo r) = Some t" using assms(1) by (simp add: node_tree_def)
  let ?t = "mt_update_state nid st sid err now t"
  have "tr_get_tree_for_node nid (tr_put_tree (mt_root_id t) ?t (nr_repo r)) = Some ?t"
    using tree repo_ok_tree_for_node(3) [OF assms(3) tree]
    by (auto simp: tr_get_tree_for_node_def tr_get_tree_def tr_put_tree_def split: if_splits)
  moreover have "map_option nd_state (mt_get_node nid ?t) = Some st"
    using assms(2) by (simp add: mt_update_state_def mt_get_node_def Let_def)
  ultimately show ?thesis using assms(1)
    by (auto simp: node_state_def node_tree_def update_node_state_def save_node_tree_def)
qed

text \<open>C11. 
  C0. A process that exits with an error leaves its node completed: once its session is known, the
  node, just marked as failed together with its pending children, is set to completed and saved, and
  the status message says "Complete" (unless the rendering is empty).
\<close>

theorem failed_exit_leaves_completed:
  assumes "repo_ok (nr_repo r)" "node_tree nid r = Some t" "nid \<in> set (node_ids t)"
    and "nr_captured_session r = Some sid" "sid \<noteq> []"
    and "exit_failed d" "exit_message env d = JStr m" "m \<noteq> []"
  shows "\<exists>r' display. read_events env nid chat msg [(now, JObj d)] r = Some (None, r') \<and>
     node_state nid r' = Some COMPLETED \<and>
     display = render_transcript (re_ctx env) (re_limit env) (Some (re_format env (StatusLine CheckMark ''Complete'' None))) (nr_transcript r') \<and>
     (display = [] \<or> nr_last_displayed r' = Some display)"
proof -
  obtain r1 t1 n1 where r1: "process_parsed_cli_event env nid chat msg now (event_of ''error'' [(''message'', JStr m)]) r = Some (Inr r1)"
    "node_tree nid r1 = Some t1" "mt_get_node nid t1 = Some n1" "nr_captured_session r1 = nr_captured_session r"
    "nr_had_events r1" "repo_ok (nr_repo r1)"
    by (rule process_error [OF assms(1-3,8)])
  let ?r2 = "update_ui env chat msg now (Some (StatusLine CheckMark ''Complete'' None)) True r1"
  let ?r3 = "save_node_tree nid (update_node_state nid COMPLETED (nr_captured_session ?r2) None now ?r2)"
  have "complete_run env nid chat msg now r1 = Inr ?r3"
    using r1 assms(4,5) by (simp add: complete_run_def Let_def)
  then have complete: "process_parsed_cli_event env nid chat msg now (event_of ''complete'' [(''status'', JStr ''failed'')]) r1 = Some (Inr ?r3)"
    by (simp add: process_parsed_cli_event_def Let_def TRANSCRIPT_EVENT_TYPES_def get_status_for_event_def EVENT_STATUS_MAP_def)
  have parsed: "process_parsed env nid chat msg now (parse_cli_event (re_text env) (JObj d)) r = Some (None, ?r3)"
    using parse_failed_exit [OF assms(6), of env] assms(7) r1(1) complete by simp
  have "handle_session_info_event d nid now r = Inr r" "get_null ''type'' d \<noteq> JStr ''session_info''"
    using assms(6) by (auto simp: handle_session_info_event_def exit_failed_def)
  then have run: "read_events env nid chat msg [(now, JObj d)] r = Some (None, ?r3)"
    using parsed by simp
  have kept: "nr_transcript ?r3 = nr_transcript r1" "nr_last_displayed ?r3 = nr_last_displayed ?r2"
    by (simp_all add: save_node_tree_def update_node_state_def split: option.split)
  have "node_state nid ?r3 = Some COMPLETED" by (rule update_node_state_node) (use r1 in simp_all)
  then show ?thesis
    using run kept update_ui_displays [OF refl, where env = env and st = "Some (StatusLine CheckMark ''Complete'' None)" and r = r1]
    by (metis (no_types, lifting) option.simps(9))
qed

definition demo_run_env :: run_env where
  "demo_run_env =
     \<lparr>re_text = demo_text, re_pretty = (\<lambda>_. ''{}''),
      re_ctx = \<lparr>rc_bold = id, rc_code_inline = id, rc_escape_code = id, rc_escape_text = id, rc_render_markdown = id,
                rc_thinking_tail_max = Some 1000, rc_tool_output_tail_max = Some 1600, rc_text_tail_max = Some 2000,
                rc_symbol = (\<lambda>_. ''*'')\<rparr>,
      re_limit = 3900, re_format = (\<lambda>s. case s of StatusLine icon label sfx \<Rightarrow> label), re_preview = (\<lambda>_. ''failed'')\<rparr>"

definition demo_run :: node_run where
  "demo_run =
     \<lparr>nr_repo = sample_repo, nr_saved = [], nr_transcript = new_transcript False, nr_last_ui_update = 0,
      nr_last_displayed = None, nr_edits = [], nr_last_status = None, nr_had_events = False,
      nr_captured_session = Some ''s'', nr_temp_session = None, nr_registered = []\<rparr>"

definition demo_exit :: jdict where
  "demo_exit = [(''type'', JStr ''exit''), (''code'', JInt 1), (''stderr'', JStr ''boom'')]"

lemma failed_exit_leaves_completed_witness:
  "\<exists>r'. read_events demo_run_env ''r'' ''chat'' ''status'' [(9, JObj demo_exit)] demo_run = Some (None, r') \<and>
     node_state ''r'' r' = Some COMPLETED"
proof -
  have "node_tree ''r'' demo_run = Some sample_tree" "''r'' \<in> set (node_ids sample_tree)"
    using sample_lookup [of "''r''"] by (simp_all add: node_tree_def demo_run_def sample_node_ids)
  moreover have "exit_failed demo_exit" "exit_message demo_run_env demo_exit = JStr ''boom''"
    by (simp_all add: exit_failed_def exit_message_def demo_exit_def get_null_def get_or_def is_zero_def or_else_def json_truthy_def)
  moreover have "repo_ok (nr_repo demo_run)" "nr_captured_session demo_run = Some ''s''"
    using sample_repo_ok by (simp_all add: demo_run_def)
  ultimately show ?thesis
    using failed_exit_leaves_completed [of demo_run "''r''" sample_tree "''s''" demo_exit demo_run_env "''boom''"] by fast
qed

end
