(* ===== verification/SessionManager.thy ===== *)
theory SessionManager
  imports Prelude
begin

section \<open>The pool of CLI sessions (\<open>cli/manager.py\<close>)\<close>

text \<open>
  A session object is its number: the manager creates them, keeps those that run under their real id
  or, until the CLI reports it, under a temporary one, and stops those it drops.  The temporary ids
  come from \<open>uuid4\<close> and are arguments.  The calls of \<open>stop\<close> are recorded in their order; they
  return.  Each method runs under the lock, the stop of an overwritten session right after it.
\<close>

record session_manager =
  sm_sessions :: "(string, nat) pydict"
  sm_pending :: "(string, nat) pydict"
  sm_temp_to_real :: "(string, string) pydict"
  sm_real_to_temp :: "(string, string) pydict"
  sm_created :: nat
  sm_stopped :: "nat list"

definition sm_init :: session_manager where
  "sm_init = \<lparr>sm_sessions = [], sm_pending = [], sm_temp_to_real = [], sm_real_to_temp = [], sm_created = 0, sm_stopped = []\<rparr>"

definition drop_stale_ids :: "string \<Rightarrow> session_manager \<Rightarrow> session_manager" where
  "drop_stale_ids sid m =
     (let m = (case dict_get sid (sm_temp_to_real m) of
                 None \<Rightarrow> m
               | Some real \<Rightarrow> m\<lparr>sm_temp_to_real := dict_del sid (sm_temp_to_real m),
                                sm_real_to_temp := dict_del real (sm_real_to_temp m)\<rparr>)
      in case dict_get sid (sm_real_to_temp m) of
           None \<Rightarrow> m
         | Some temp \<Rightarrow> m\<lparr>sm_real_to_temp := dict_del sid (sm_real_to_temp m),
                          sm_temp_to_real := dict_del temp (sm_temp_to_real m)\<rparr>)"

definition create_session :: "string \<Rightarrow> session_manager \<Rightarrow> (nat \<times> string \<times> bool) \<times> session_manager" where
  "create_session temp_id m =
     ((sm_created m, temp_id, True),
      m\<lparr>sm_pending := dict_set temp_id (sm_created m) (sm_pending m), sm_created := Suc (sm_created m)\<rparr>)"

definition lookup_id :: "string \<Rightarrow> session_manager \<Rightarrow> string" where
  "lookup_id sid m = (case dict_get sid (sm_temp_to_real m) of None \<Rightarrow> sid | Some real \<Rightarrow> real)"

definition get_or_create_session ::
  "string option \<Rightarrow> string \<Rightarrow> session_manager \<Rightarrow> (nat \<times> string \<times> bool) \<times> session_manager" where
  "get_or_create_session session_id temp_id m =
     (if \<not> truthy_str session_id then create_session temp_id m
      else
        let sid = the session_id; lid = lookup_id sid m in
        case dict_get lid (sm_sessions m) of
          Some s \<Rightarrow> ((s, lid, False), m)
        | None \<Rightarrow>
            (case dict_get lid (sm_pending m) of
               Some s \<Rightarrow> ((s, lid, False), m)
             | None \<Rightarrow> create_session temp_id (drop_stale_ids sid m)))"

definition stop_session :: "nat \<Rightarrow> session_manager \<Rightarrow> session_manager" where
  "stop_session s m = m\<lparr>sm_stopped := sm_stopped m @ [s]\<rparr>"

definition register_real_session_id :: "string \<Rightarrow> string \<Rightarrow> session_manager \<Rightarrow> bool \<times> session_manager" where
  "register_real_session_id temp_id real_id m =
     (case dict_get temp_id (sm_pending m) of
        None \<Rightarrow> (False, m)
      | Some s \<Rightarrow>
          (let old = dict_get real_id (sm_sessions m);
               m = m\<lparr>sm_pending := dict_del temp_id (sm_pending m)\<rparr>;
               overwritten = (old \<noteq> None \<and> old \<noteq> Some s);
               m = (if overwritten
                    then case dict_get real_id (sm_real_to_temp m) of
                        None \<Rightarrow> m
                      | Some old_temp \<Rightarrow>
                          m\<lparr>sm_real_to_temp := dict_del real_id (sm_real_to_temp m),
                            sm_temp_to_real := dict_del old_temp (sm_temp_to_real m)\<rparr>
                    else m);
               m = m\<lparr>sm_sessions := dict_set real_id s (sm_sessions m),
                     sm_temp_to_real := dict_set temp_id real_id (sm_temp_to_real m),
                     sm_real_to_temp := dict_set real_id temp_id (sm_real_to_temp m)\<rparr>
           in (True, if overwritten then stop_session (the old) m else m)))"

definition sm_remove_session :: "string \<Rightarrow> session_manager \<Rightarrow> bool \<times> session_manager" where
  "sm_remove_session sid m =
     (case dict_get sid (sm_pending m) of
        Some s \<Rightarrow> (True, stop_session s (m\<lparr>sm_pending := dict_del sid (sm_pending m)\<rparr>))
      | None \<Rightarrow>
          (case dict_get sid (sm_sessions m) of
             Some s \<Rightarrow>
               (let m = stop_session s (m\<lparr>sm_sessions := dict_del sid (sm_sessions m)\<rparr>) in
                (True, case dict_get sid (sm_real_to_temp m) of
                   None \<Rightarrow> m
                 | Some temp \<Rightarrow> m\<lparr>sm_real_to_temp := dict_del sid (sm_real_to_temp m),
                                  sm_temp_to_real := dict_del temp (sm_temp_to_real m)\<rparr>))
           | None \<Rightarrow> (False, m)))"

definition sm_stop_all :: "session_manager \<Rightarrow> session_manager" where
  "sm_stop_all m =
     m\<lparr>sm_stopped := sm_stopped m @ dict_values (sm_sessions m) @ dict_values (sm_pending m),
       sm_sessions := [], sm_pending := [], sm_temp_to_real := [], sm_real_to_temp := []\<rparr>"

definition get_stats :: "(nat \<Rightarrow> bool) \<Rightarrow> session_manager \<Rightarrow> nat \<times> nat \<times> nat" where
  "get_stats busy m =
     (length (sm_sessions m), length (sm_pending m), length (filter busy (dict_values (sm_sessions m))))"

subsection \<open>The invariant\<close>

definition one_to_one :: "('k, 'v) pydict \<Rightarrow> bool" where
  "one_to_one d \<longleftrightarrow> (\<forall>k k' v. dict_get k d = Some v \<longrightarrow> dict_get k' d = Some v \<longrightarrow> k = k')"

definition values_of :: "('k, 'v) pydict \<Rightarrow> 'v set" where
  "values_of d = {v. \<exists>k. dict_get k d = Some v}"

definition linked :: "('k, 'v) pydict \<Rightarrow> ('v, 'k) pydict \<Rightarrow> bool" where
  "linked d e \<longleftrightarrow> (\<forall>k v. dict_get k d = Some v \<longleftrightarrow> dict_get v e = Some k)"

definition holds :: "nat \<Rightarrow> session_manager \<Rightarrow> bool" where
  "holds s m \<longleftrightarrow> (\<exists>k. dict_get k (sm_sessions m) = Some s) \<or> (\<exists>k. dict_get k (sm_pending m) = Some s)"

text \<open>The sessions: each one created is held once or was stopped once.\<close>

definition pool_ok :: "session_manager \<Rightarrow> bool" where
  "pool_ok m \<longleftrightarrow>
     dict_ok (sm_sessions m) \<and> dict_ok (sm_pending m) \<and> one_to_one (sm_sessions m) \<and> one_to_one (sm_pending m) \<and>
     values_of (sm_sessions m) \<inter> values_of (sm_pending m) = {} \<and>
     distinct (sm_stopped m) \<and>
     (\<forall>s. s < sm_created m \<longleftrightarrow> holds s m \<or> s \<in> set (sm_stopped m)) \<and>
     (\<forall>s. holds s m \<longrightarrow> s \<notin> set (sm_stopped m))"

text \<open>The ids: the two maps are inverse, a real id stands for a session, a pending id for nothing else.\<close>

definition ids_ok :: "session_manager \<Rightarrow> bool" where
  "ids_ok m \<longleftrightarrow>
     linked (sm_temp_to_real m) (sm_real_to_temp m) \<and>
     (\<forall>r t. dict_get r (sm_real_to_temp m) = Some t \<longrightarrow> dict_get r (sm_sessions m) \<noteq> None) \<and>
     (\<forall>t. dict_get t (sm_pending m) \<noteq> None \<longrightarrow> dict_get t (sm_temp_to_real m) = None)"

definition manager_ok :: "session_manager \<Rightarrow> bool" where
  "manager_ok m \<longleftrightarrow> pool_ok m \<and> ids_ok m"

lemma linked_del: "linked d e \<Longrightarrow> dict_get k d = Some v \<Longrightarrow> linked (dict_del k d) (dict_del v e)"
  unfolding linked_def by (metis option.inject option.simps(3) pd.lookup_remove)

lemma linked_set: "linked d e \<Longrightarrow> dict_get k d = None \<Longrightarrow> dict_get v e = None \<Longrightarrow> linked (dict_set k v d) (dict_set v k e)"
  unfolding linked_def by (metis option.inject option.simps(3) pd.lookup_store)

lemma linked_sym: "linked d e \<Longrightarrow> linked e d"
  by (auto simp: linked_def)

datatype session_op =
    GetOrCreate "string option" string
  | RegisterReal string string
  | RemoveSession string
  | StopAll

fun session_step :: "session_op \<Rightarrow> session_manager \<Rightarrow> session_manager" where
  "session_step (GetOrCreate sid temp) m = snd (get_or_create_session sid temp m)"
| "session_step (RegisterReal temp real) m = snd (register_real_session_id temp real m)"
| "session_step (RemoveSession sid) m = snd (sm_remove_session sid m)"
| "session_step StopAll m = sm_stop_all m"

text \<open>A temporary id is in use by no other session.\<close>

fun fresh_op :: "session_op \<Rightarrow> session_manager \<Rightarrow> bool" where
  "fresh_op (GetOrCreate sid temp) m \<longleftrightarrow> dict_get temp (sm_pending m) = None \<and> dict_get temp (sm_temp_to_real m) = None"
| "fresh_op _ m \<longleftrightarrow> True"

lemma values_of_set: "dict_get k d = None \<Longrightarrow> values_of (dict_set k v d) = insert v (values_of d)"
  by (force simp: values_of_def split: if_splits)

lemma values_of_empty [simp]: "values_of [] = {}"
  by (simp add: values_of_def)

lemma in_values_del: "one_to_one d \<Longrightarrow> dict_get k d = Some v \<Longrightarrow> dict_get j d = Some x \<Longrightarrow> x \<noteq> v \<longleftrightarrow> j \<noteq> k"
  by (auto simp: one_to_one_def)

lemma values_of_del: "one_to_one d \<Longrightarrow> dict_get k d = Some v \<Longrightarrow> values_of (dict_del k d) = values_of d - {v}"
  unfolding values_of_def by (auto simp: in_values_del) (auto simp: one_to_one_def)

lemma values_of_replace:
  "one_to_one d \<Longrightarrow> dict_get k d = Some v \<Longrightarrow> values_of (dict_set k w d) = insert w (values_of d - {v})"
proof -
  assume a: "one_to_one d" "dict_get k d = Some v"
  have "x \<in> values_of (dict_set k w d) \<longleftrightarrow> x = w \<or> x \<in> values_of (dict_del k d)" for x
    unfolding values_of_def by (auto split: if_splits)
  then show ?thesis using values_of_del [OF a] by auto
qed

lemma one_to_one_set: "one_to_one d \<Longrightarrow> w \<notin> values_of d \<Longrightarrow> one_to_one (dict_set k w d)"
  by (auto simp: one_to_one_def values_of_def)

lemma one_to_one_del: "one_to_one d \<Longrightarrow> one_to_one (dict_del k d)"
  by (auto simp: one_to_one_def)

lemma holds_values: "holds s m \<longleftrightarrow> s \<in> values_of (sm_sessions m) \<or> s \<in> values_of (sm_pending m)"
  by (auto simp: holds_def values_of_def)

lemma manager_ok_init: "manager_ok sm_init"
  by (simp add: manager_ok_def pool_ok_def ids_ok_def linked_def sm_init_def holds_def one_to_one_def)

text \<open>Forgetting a pair of ids.\<close>

definition unlink :: "string \<Rightarrow> string \<Rightarrow> session_manager \<Rightarrow> session_manager" where
  "unlink temp real m =
     m\<lparr>sm_temp_to_real := dict_del temp (sm_temp_to_real m), sm_real_to_temp := dict_del real (sm_real_to_temp m)\<rparr>"

lemma unlink_simps [simp]:
  "sm_sessions (unlink temp real m) = sm_sessions m" "sm_pending (unlink temp real m) = sm_pending m"
  "sm_created (unlink temp real m) = sm_created m" "sm_stopped (unlink temp real m) = sm_stopped m"
  by (simp_all add: unlink_def)

lemma unlink_ok:
  assumes "ids_ok m" "dict_get real (sm_real_to_temp m) = Some temp"
  shows "ids_ok (unlink temp real m)"
proof -
  have "linked (sm_temp_to_real (unlink temp real m)) (sm_real_to_temp (unlink temp real m))"
    using assms linked_sym [OF linked_del [OF linked_sym, OF _ assms(2)]] by (simp add: ids_ok_def unlink_def)
  then show ?thesis using assms(1) by (simp add: ids_ok_def unlink_def)
qed

lemma unlink_pool [simp]: "pool_ok (unlink temp real m) = pool_ok m"
  by (simp add: pool_ok_def holds_def)

lemma drop_stale_cases:
  assumes "ids_ok m"
  shows "ids_ok (drop_stale_ids sid m)" "pool_ok (drop_stale_ids sid m) = pool_ok m"
    "sm_pending (drop_stale_ids sid m) = sm_pending m"
    "dict_get t (sm_temp_to_real m) = None \<Longrightarrow> dict_get t (sm_temp_to_real (drop_stale_ids sid m)) = None"
proof -
  define m1 where "m1 = (case dict_get sid (sm_temp_to_real m) of None \<Rightarrow> m | Some real \<Rightarrow> unlink sid real m)"
  have d: "drop_stale_ids sid m = (case dict_get sid (sm_real_to_temp m1) of None \<Rightarrow> m1 | Some temp \<Rightarrow> unlink temp sid m1)"
    by (auto simp: drop_stale_ids_def m1_def Let_def unlink_def split: option.split)
  have m1: "ids_ok m1" "pool_ok m1 = pool_ok m" "sm_pending m1 = sm_pending m"
    using assms unlink_ok [OF assms] by (auto simp: m1_def ids_ok_def linked_def split: option.split)
  show "ids_ok (drop_stale_ids sid m)" "pool_ok (drop_stale_ids sid m) = pool_ok m"
    "sm_pending (drop_stale_ids sid m) = sm_pending m"
    using m1 unlink_ok [OF m1(1)] by (auto simp: d split: option.split)
  show "dict_get t (sm_temp_to_real m) = None \<Longrightarrow> dict_get t (sm_temp_to_real (drop_stale_ids sid m)) = None"
    by (auto simp: d m1_def unlink_def split: option.split)
qed

lemma pool_rewrite:
  "pool_ok m \<longleftrightarrow>
     dict_ok (sm_sessions m) \<and> dict_ok (sm_pending m) \<and> one_to_one (sm_sessions m) \<and> one_to_one (sm_pending m) \<and>
     values_of (sm_sessions m) \<inter> values_of (sm_pending m) = {} \<and> distinct (sm_stopped m) \<and>
     {..<sm_created m} = values_of (sm_sessions m) \<union> values_of (sm_pending m) \<union> set (sm_stopped m) \<and>
     (values_of (sm_sessions m) \<union> values_of (sm_pending m)) \<inter> set (sm_stopped m) = {}"
  by (auto simp: pool_ok_def holds_values)

lemma create_ok:
  assumes "manager_ok m" "dict_get temp (sm_pending m) = None" "dict_get temp (sm_temp_to_real m) = None"
  shows "manager_ok (snd (create_session temp m))"
proof -
  let ?m = "snd (create_session temp m)"
  have p: "pool_ok m" using assms(1) by (simp add: manager_ok_def)
  then have new: "sm_created m \<notin> values_of (sm_sessions m) \<union> values_of (sm_pending m) \<union> set (sm_stopped m)"
    unfolding pool_rewrite by (metis lessThan_iff less_irrefl)
  have "{..<sm_created ?m} = insert (sm_created m) {..<sm_created m}" by (auto simp: create_session_def)
  then have "pool_ok ?m" using p new assms(2) unfolding pool_rewrite
    by (auto simp: create_session_def values_of_set one_to_one_set)
  moreover have "ids_ok ?m" using assms by (auto simp: manager_ok_def ids_ok_def create_session_def)
  ultimately show ?thesis by (simp add: manager_ok_def)
qed

lemma get_or_create_ok:
  assumes "manager_ok m" "fresh_op (GetOrCreate sid temp) m"
  shows "manager_ok (snd (get_or_create_session sid temp m))"
proof -
  let ?d = "drop_stale_ids (the sid) m"
  have ids: "ids_ok m" using assms(1) by (simp add: manager_ok_def)
  have "manager_ok ?d" "dict_get temp (sm_pending ?d) = None" "dict_get temp (sm_temp_to_real ?d) = None"
    using assms drop_stale_cases(1-3) [OF ids, of "the sid"] drop_stale_cases(4) [OF ids, of temp "the sid"]
    by (auto simp: manager_ok_def)
  note c = create_ok [OF this] create_ok [OF assms(1), of temp]
  show ?thesis
    using assms c by (auto simp: get_or_create_session_def Let_def split: option.split)
qed

lemma stop_pool: "pool_ok m \<Longrightarrow> s < sm_created m \<Longrightarrow> s \<notin> set (sm_stopped m) \<Longrightarrow>
    values_of (sm_sessions m') = values_of (sm_sessions m) - {s} \<Longrightarrow> values_of (sm_pending m') = values_of (sm_pending m) - {s} \<Longrightarrow>
    dict_ok (sm_sessions m') \<Longrightarrow> dict_ok (sm_pending m') \<Longrightarrow> one_to_one (sm_sessions m') \<Longrightarrow> one_to_one (sm_pending m') \<Longrightarrow>
    sm_created m' = sm_created m \<Longrightarrow> sm_stopped m' = sm_stopped m @ [s] \<Longrightarrow> pool_ok m'"
  unfolding pool_rewrite by auto

lemma in_values: "dict_get k d = Some v \<Longrightarrow> v \<in> values_of d"
  by (auto simp: values_of_def)

lemma remove_ok:
  assumes "manager_ok m"
  shows "manager_ok (snd (sm_remove_session sid m))"
proof -
  have p: "pool_ok m" and i: "ids_ok m" using assms by (simp_all add: manager_ok_def)
  show ?thesis
  proof (cases "dict_get sid (sm_pending m)")
    case (Some s)
    let ?m = "stop_session s (m\<lparr>sm_pending := dict_del sid (sm_pending m)\<rparr>)"
    have s: "s < sm_created m" "s \<notin> set (sm_stopped m)" "s \<notin> values_of (sm_sessions m)"
      using p in_values [OF Some] unfolding pool_rewrite by (auto simp: set_eq_iff)
    have "pool_ok ?m"
      by (rule stop_pool [OF p s(1,2)])
        (use p Some s(3) in \<open>auto simp: pool_rewrite stop_session_def values_of_del one_to_one_del\<close>)
    moreover have "ids_ok ?m" using i by (auto simp: ids_ok_def stop_session_def)
    ultimately show ?thesis using Some by (simp add: sm_remove_session_def manager_ok_def)
  next
    case none: None
    show ?thesis
    proof (cases "dict_get sid (sm_sessions m)")
      case None
      then show ?thesis using none assms by (simp add: sm_remove_session_def)
    next
      case (Some s)
      let ?m = "stop_session s (m\<lparr>sm_sessions := dict_del sid (sm_sessions m)\<rparr>)"
      have s: "s < sm_created m" "s \<notin> set (sm_stopped m)" "s \<notin> values_of (sm_pending m)"
        using p in_values [OF Some] unfolding pool_rewrite by (auto simp: set_eq_iff)
      have pool: "pool_ok ?m"
        by (rule stop_pool [OF p s(1,2)])
          (use p Some s(3) in \<open>auto simp: pool_rewrite stop_session_def values_of_del one_to_one_del\<close>)
      have r: "snd (sm_remove_session sid m) = (case dict_get sid (sm_real_to_temp m) of None \<Rightarrow> ?m | Some temp \<Rightarrow> unlink temp sid ?m)"
        using none Some by (simp add: sm_remove_session_def Let_def stop_session_def unlink_def split: option.split)
      have "ids_ok (snd (sm_remove_session sid m))"
      proof (cases "dict_get sid (sm_real_to_temp m)")
        case None
        then show ?thesis using i unfolding r by (auto simp: ids_ok_def stop_session_def)
      next
        case t: (Some temp)
        have "linked (sm_temp_to_real (unlink temp sid m)) (sm_real_to_temp (unlink temp sid m))"
          using unlink_ok [OF i t] by (simp add: ids_ok_def)
        then show ?thesis using i t unfolding r by (auto simp: ids_ok_def stop_session_def unlink_def)
      qed
      moreover have "pool_ok (snd (sm_remove_session sid m))" using pool unfolding r by (simp split: option.split)
      ultimately show ?thesis by (simp add: manager_ok_def)
    qed
  qed
qed

lemma stop_all_ok:
  assumes "manager_ok m"
  shows "manager_ok (sm_stop_all m)"
proof -
  have p: "pool_ok m" using assms by (simp add: manager_ok_def)
  have v: "set (dict_values d) = values_of d" "distinct (dict_values d)" if "dict_ok d" "one_to_one d" for d :: "(string, nat) pydict"
  proof -
    have g: "(k, x) \<in> set d \<longleftrightarrow> dict_get k d = Some x" for k x
      using dict_mem_get [OF that(1)] dict_get_mem by metis
    show "set (dict_values d) = values_of d" by (force simp: dict_values_def values_of_def g [symmetric])
    show "distinct (dict_values d)"
      using that g unfolding dict_values_def dict_ok_def dict_keys_def one_to_one_def
      by (auto simp: distinct_map inj_on_def) 
  qed
  have "pool_ok (sm_stop_all m)"
    using p v [of "sm_sessions m"] v [of "sm_pending m"] unfolding pool_rewrite
    by (auto simp: sm_stop_all_def values_of_def [of "[]"] one_to_one_def)
  then show ?thesis by (simp add: manager_ok_def ids_ok_def linked_def sm_stop_all_def)
qed

lemma register_real_ok:
  assumes "manager_ok m"
  shows "manager_ok (snd (register_real_session_id temp real m))"
proof (cases "dict_get temp (sm_pending m)")
  case None
  then show ?thesis using assms by (simp add: register_real_session_id_def)
next
  case (Some s)
  have p: "pool_ok m" and i: "ids_ok m" using assms by (simp_all add: manager_ok_def)
  have s: "s \<in> values_of (sm_pending m)" "s \<notin> values_of (sm_sessions m)"
    using p in_values [OF Some] unfolding pool_rewrite by auto
  have fresh: "dict_get temp (sm_temp_to_real m) = None" using i Some by (auto simp: ids_ok_def)
  let ?u = "m\<lparr>sm_pending := dict_del temp (sm_pending m)\<rparr>"
  let ?set = "\<lambda>m. m\<lparr>sm_sessions := dict_set real s (sm_sessions m), sm_temp_to_real := dict_set temp real (sm_temp_to_real m),
      sm_real_to_temp := dict_set real temp (sm_real_to_temp m)\<rparr>"
  have u: "ids_ok ?u" using i by (auto simp: ids_ok_def)
  have set_ok: "ids_ok (?set v)"
    if "ids_ok v" "dict_get temp (sm_temp_to_real v) = None" "dict_get real (sm_real_to_temp v) = None"
      "dict_get temp (sm_pending v) = None" for v
    using that linked_set [of "sm_temp_to_real v" "sm_real_to_temp v" temp real] by (auto simp: ids_ok_def)
  show ?thesis
  proof (cases "dict_get real (sm_sessions m)")
    case None
    then have no: "dict_get real (sm_real_to_temp m) = None"
      using i by (cases "dict_get real (sm_real_to_temp m)") (auto simp: ids_ok_def)
    have r: "snd (register_real_session_id temp real m) = ?set ?u"
      using Some None by (simp add: register_real_session_id_def Let_def)
    have "pool_ok (?set ?u)" using p Some None s unfolding pool_rewrite
      by (auto simp: values_of_set values_of_del one_to_one_set one_to_one_del)
    moreover have "ids_ok (?set ?u)" by (rule set_ok [OF u]) (simp_all add: fresh no)
    ultimately show ?thesis unfolding r by (simp add: manager_ok_def)
  next
    case old: (Some x)
    have x: "x \<in> values_of (sm_sessions m)" "x \<noteq> s" using in_values [OF old] s by auto
    then have xs: "x < sm_created m" "x \<notin> set (sm_stopped m)" "x \<notin> values_of (sm_pending m)"
      using p unfolding pool_rewrite by (auto simp: set_eq_iff)
    let ?w = "case dict_get real (sm_real_to_temp m) of None \<Rightarrow> ?u | Some t \<Rightarrow> unlink t real ?u"
    have w: "sm_sessions ?w = sm_sessions m" "sm_pending ?w = dict_del temp (sm_pending m)" "sm_created ?w = sm_created m"
      "sm_stopped ?w = sm_stopped m" "dict_get temp (sm_temp_to_real ?w) = None" "dict_get real (sm_real_to_temp ?w) = None"
      using fresh by (auto simp: unlink_def split: option.split)
    have r: "snd (register_real_session_id temp real m) = stop_session x (?set ?w)"
      using Some old x(2) by (simp add: register_real_session_id_def Let_def unlink_def split: option.split)
    have "ids_ok ?w" using u unlink_ok [OF u] by (auto split: option.split)
    then have "ids_ok (?set ?w)" by (rule set_ok) (simp_all add: w)
    then have "ids_ok (stop_session x (?set ?w))" by (simp add: ids_ok_def stop_session_def)
    moreover have "pool_ok (stop_session x (?set ?w))"
      using p Some old s x(2) xs unfolding pool_rewrite
      by (auto simp: stop_session_def w values_of_replace values_of_del one_to_one_del
          intro!: one_to_one_set)
    ultimately show ?thesis unfolding r by (simp add: manager_ok_def)
  qed
qed

subsection \<open>Every run of the manager\<close>

fun run_sessions :: "session_op list \<Rightarrow> session_manager \<Rightarrow> session_manager" where
  "run_sessions [] m = m"
| "run_sessions (p # ps) m = run_sessions ps (session_step p m)"

fun fresh_run :: "session_op list \<Rightarrow> session_manager \<Rightarrow> bool" where
  "fresh_run [] m \<longleftrightarrow> True"
| "fresh_run (p # ps) m \<longleftrightarrow> fresh_op p m \<and> fresh_run ps (session_step p m)"

lemma step_ok: "manager_ok m \<Longrightarrow> fresh_op p m \<Longrightarrow> manager_ok (session_step p m)"
  by (cases p) (simp_all add: get_or_create_ok register_real_ok remove_ok stop_all_ok del: fresh_op.simps)

lemma run_ok: "manager_ok m \<Longrightarrow> fresh_run ps m \<Longrightarrow> manager_ok (run_sessions ps m)"
  by (induction ps arbitrary: m) (auto simp: step_ok)

text \<open>C23. 
  C0. Whatever the callers do, no CLI process is lost: after any sequence of operations, with
  temporary ids that are not in use, each session ever created is either held under exactly one id or
  was stopped, exactly once.
\<close>

theorem no_session_lost:
  assumes "fresh_run ps sm_init" "m = run_sessions ps sm_init"
  shows "(\<forall>s. s < sm_created m \<longleftrightarrow> s \<in> values_of (sm_sessions m) \<union> values_of (sm_pending m) \<union> set (sm_stopped m)) \<and>
     values_of (sm_sessions m) \<inter> values_of (sm_pending m) = {} \<and>
     (values_of (sm_sessions m) \<union> values_of (sm_pending m)) \<inter> set (sm_stopped m) = {} \<and>
     one_to_one (sm_sessions m) \<and> one_to_one (sm_pending m) \<and> distinct (sm_stopped m)"
proof -
  have p: "pool_ok m" using run_ok [OF manager_ok_init assms(1)] assms(2) by (simp add: manager_ok_def)
  then have "{..<sm_created m} = values_of (sm_sessions m) \<union> values_of (sm_pending m) \<union> set (sm_stopped m)"
    by (simp add: pool_rewrite)
  then have "s < sm_created m \<longleftrightarrow> s \<in> values_of (sm_sessions m) \<union> values_of (sm_pending m) \<union> set (sm_stopped m)" for s
    by (metis lessThan_iff)
  then show ?thesis using p unfolding pool_rewrite by blast
qed

text \<open>
  C0. Once the CLI has reported its real id, the session is found again under that id and under the
  temporary one, and no new session is made; before, it is found under the temporary id.
\<close>

theorem session_found_again:
  assumes "manager_ok m" "dict_get temp (sm_pending m) = Some s" "temp \<noteq> []" "real \<noteq> []"
    and "dict_get temp (sm_sessions m) = None" "dict_get real (sm_temp_to_real m) = None" "real \<noteq> temp"
  defines "m' \<equiv> snd (register_real_session_id temp real m)"
  shows "get_or_create_session (Some temp) fresh m = ((s, temp, False), m) \<and>
     get_or_create_session (Some real) fresh m' = ((s, real, False), m') \<and>
     get_or_create_session (Some temp) fresh m' = ((s, real, False), m')"
proof -
  have i: "ids_ok m" using assms(1) by (simp add: manager_ok_def)
  have before: "dict_get temp (sm_temp_to_real m) = None" using i assms(2) by (auto simp: ids_ok_def)
  have "sm_sessions m' = dict_set real s (sm_sessions m)" "dict_get temp (sm_temp_to_real m') = Some real"
    "dict_get real (sm_temp_to_real m') = None"
    using assms(2,6,7) before
    by (auto simp: m'_def register_real_session_id_def Let_def stop_session_def split: option.split)
  then show ?thesis using assms(2-5) before by (simp add: get_or_create_session_def lookup_id_def)
qed

definition demo_ops :: "session_op list" where
  "demo_ops = [GetOrCreate None ''p1'', RegisterReal ''p1'' ''s1'', GetOrCreate None ''p2'', RegisterReal ''p2'' ''s1'',
     GetOrCreate (Some ''s1'') ''p3'', RemoveSession ''s1'', GetOrCreate (Some ''s1'') ''p4'']"

lemma demo_ops_fresh: "fresh_run demo_ops sm_init"
  by code_simp

lemma no_session_lost_witness:
  "distinct (sm_stopped (run_sessions demo_ops sm_init)) \<and>
   values_of (sm_pending (run_sessions demo_ops sm_init)) \<inter> set (sm_stopped (run_sessions demo_ops sm_init)) = {}"
  using no_session_lost [OF demo_ops_fresh refl] by blast

lemma demo_stopped: "sm_stopped (run_sessions demo_ops sm_init) = [0, 1] \<and> sm_created (run_sessions demo_ops sm_init) = 3"
  by code_simp

lemma session_found_again_witness:
  "fst (get_or_create_session (Some ''s1'') ''p9''
     (snd (register_real_session_id ''p1'' ''s1'' (snd (get_or_create_session None ''p1'' sm_init))))) = (0, ''s1'', False)"
proof -
  let ?m = "snd (get_or_create_session None ''p1'' sm_init)"
  have "manager_ok ?m" by (rule get_or_create_ok [OF manager_ok_init]) (simp add: sm_init_def)
  moreover have "dict_get ''p1'' (sm_pending ?m) = Some 0" "dict_get ''p1'' (sm_sessions ?m) = None"
    "dict_get ''s1'' (sm_temp_to_real ?m) = None"
    by (simp_all add: get_or_create_session_def create_session_def sm_init_def)
  ultimately show ?thesis using session_found_again [of ?m "''p1''" 0 "''s1''" "''p9''"] by simp
qed

end
