(* ===== verification/WebEgress.thy ===== *)
theory WebEgress
  imports PyText "HOL-Library.Word"
begin

section \<open>Where a web fetch may connect to (\<open>api/web_tools/egress.py\<close>)\<close>

text \<open>
  The check of a user's URL before a connection: scheme, host name, literal address, resolved
  addresses.  \<open>urlparse\<close>, the reading of an address from text and \<open>getaddrinfo\<close> are fields of an
  environment; the \<open>n\<close>th lookup may answer differently from the others.  An address is a word of its
  width, and \<open>is_global\<close> of the standard library is written out over its networks (Python 3.14).  An
  exception is the name of its type.
\<close>

subsection \<open>Addresses\<close>

datatype ip_addr = V4 "32 word" | V6 "128 word"

definition in_net :: "nat \<Rightarrow> 'a::len word \<Rightarrow> 'a word \<Rightarrow> bool" where
  "in_net len base a \<longleftrightarrow> drop_bit (LENGTH('a) - len) a = drop_bit (LENGTH('a) - len) base"

text \<open>The networks as a pair of prefix length and base address.\<close>

definition ip4 :: "nat \<Rightarrow> nat \<Rightarrow> nat \<Rightarrow> nat \<Rightarrow> 32 word" where
  "ip4 a b c d = of_nat (((a * 256 + b) * 256 + c) * 256 + d)"

definition private4 :: "(nat \<times> 32 word) list" where
  "private4 = [(8, ip4 0 0 0 0), (8, ip4 10 0 0 0), (8, ip4 127 0 0 0), (16, ip4 169 254 0 0), (12, ip4 172 16 0 0),
     (24, ip4 192 0 0 0), (31, ip4 192 0 0 170), (24, ip4 192 0 2 0), (16, ip4 192 168 0 0), (15, ip4 198 18 0 0),
     (24, ip4 198 51 100 0), (24, ip4 203 0 113 0), (4, ip4 240 0 0 0), (32, ip4 255 255 255 255)]"

definition private4_exceptions :: "(nat \<times> 32 word) list" where
  "private4_exceptions = [(32, ip4 192 0 0 9), (32, ip4 192 0 0 10)]"

definition in_any :: "(nat \<times> 'a::len word) list \<Rightarrow> 'a word \<Rightarrow> bool" where
  "in_any nets a \<longleftrightarrow> list_ex (\<lambda>(len, base). in_net len base a) nets"

definition is_global4 :: "32 word \<Rightarrow> bool" where
  "is_global4 a \<longleftrightarrow>
     \<not> in_net 10 (ip4 100 64 0 0) a \<and> \<not> (in_any private4 a \<and> \<not> in_any private4_exceptions a)"

text \<open>An IPv6 network is written by the 32 leading bits and, where needed, all of its address.\<close>

definition ip6 :: "nat \<Rightarrow> nat \<Rightarrow> nat \<Rightarrow> 128 word" where
  "ip6 h0 h1 h2 = push_bit 80 (of_nat ((h0 * 65536 + h1) * 65536 + h2))"

definition private6 :: "(nat \<times> 128 word) list" where
  "private6 = [(128, 1), (128, 0), (96, push_bit 32 65535), (48, ip6 0x64 0xff9b 1), (64, ip6 0x100 0 0),
     (23, ip6 0x2001 0 0), (32, ip6 0x2001 0xdb8 0), (16, ip6 0x2002 0 0), (20, ip6 0x3fff 0 0),
     (7, ip6 0xfc00 0 0), (10, ip6 0xfe80 0 0)]"

definition private6_exceptions :: "(nat \<times> 128 word) list" where
  "private6_exceptions = [(128, ip6 0x2001 1 0 + 1), (128, ip6 0x2001 1 0 + 2), (32, ip6 0x2001 3 0), (48, ip6 0x2001 4 0x112),
     (28, ip6 0x2001 0x20 0), (28, ip6 0x2001 0x30 0)]"

definition ipv4_mapped :: "128 word \<Rightarrow> (32 word) option" where
  "ipv4_mapped a = (if drop_bit 32 a = 65535 then Some (ucast a) else None)"

fun is_global :: "ip_addr \<Rightarrow> bool" where
  "is_global (V4 a) = is_global4 a"
| "is_global (V6 a) =
     (case ipv4_mapped a of
        Some b \<Rightarrow> is_global4 b
      | None \<Rightarrow> \<not> (in_any private6 a \<and> \<not> in_any private6_exceptions a))"

subsection \<open>The environment\<close>

type_synonym 'a web = "string + 'a"

fun bind_web :: "'a web \<Rightarrow> ('a \<Rightarrow> 'b web) \<Rightarrow> 'b web" where
  "bind_web (Inl e) f = Inl e"
| "bind_web (Inr x) f = f x"

lemma bind_web_Inr_iff [simp]: "bind_web r f = Inr y \<longleftrightarrow> (\<exists>x. r = Inr x \<and> f x = Inr y)"
  by (cases r) auto

text \<open>The result of \<open>urlparse\<close>; its property \<open>port\<close> may raise.\<close>

record parsed_url =
  pu_scheme :: string
  pu_hostname :: "string option"
  pu_port :: "int option web"

text \<open>A row of \<open>getaddrinfo\<close>: \<open>sockaddr\<close> has an address, a port and, for IPv6, the flow and scope.\<close>

datatype addr_family = AF_INET | AF_INET6 | AF_OTHER

record addr_row =
  ar_family :: addr_family
  ar_proto :: int
  ar_host :: string
  ar_port :: int
  ar_rest :: "int list"

datatype lookup_failure = OSError | OtherException string

record net_env =
  ne_urlparse :: "string \<Rightarrow> parsed_url web"
  ne_ip_address :: "string \<Rightarrow> ip_addr option"    \<comment> \<open>\<open>None\<close> is \<open>ValueError\<close>\<close>
  ne_getaddrinfo :: "nat \<Rightarrow> string \<Rightarrow> int \<Rightarrow> lookup_failure + addr_row list"

record egress_policy =
  allow_private_network_targets :: bool
  allowed_schemes :: "string set"

subsection \<open>The check\<close>

definition violation :: string where "violation = ''WebFetchEgressViolation''"

definition port_for_url :: "parsed_url \<Rightarrow> int web" where
  "port_for_url p =
     bind_web (pu_port p) (\<lambda>port.
       Inr (case port of Some n \<Rightarrow> n | None \<Rightarrow> if py_lower (pu_scheme p) = ''https'' then 443 else 80))"

definition stream_getaddrinfo_or_raise :: "net_env \<Rightarrow> nat \<Rightarrow> string \<Rightarrow> int \<Rightarrow> addr_row list web" where
  "stream_getaddrinfo_or_raise ne n host port =
     (case ne_getaddrinfo ne n host port of
        Inl OSError \<Rightarrow> Inl violation
      | Inl (OtherException e) \<Rightarrow> Inl e
      | Inr rows \<Rightarrow> Inr rows)"

definition py_endswith :: "string \<Rightarrow> string \<Rightarrow> bool" where
  "py_endswith suf s = prefix (rev suf) (rev s)"

definition local_name :: "string \<Rightarrow> bool" where
  "local_name host \<longleftrightarrow> (let h = py_lower host in
     h = ''localhost'' \<or> py_endswith ''.localhost'' h \<or> py_endswith ''.local'' h)"

fun check_resolved :: "(string \<Rightarrow> ip_addr option) \<Rightarrow> addr_row list \<Rightarrow> unit web" where
  "check_resolved ip_of [] = Inr ()"
| "check_resolved ip_of (r # rows) =
     (case ip_of (ar_host r) of
        None \<Rightarrow> check_resolved ip_of rows
      | Some ip \<Rightarrow> if \<not> is_global ip then Inl violation else check_resolved ip_of rows)"

definition validated_host :: "net_env \<Rightarrow> nat \<Rightarrow> bool \<Rightarrow> string \<Rightarrow> int \<Rightarrow> addr_row list web" where
  "validated_host ne n allow_private host port =
     (if allow_private then stream_getaddrinfo_or_raise ne n host port
      else if local_name host then Inl violation
      else case ne_ip_address ne host of
        Some ip \<Rightarrow> if \<not> is_global ip then Inl violation else stream_getaddrinfo_or_raise ne n host port
      | None \<Rightarrow>
          bind_web (stream_getaddrinfo_or_raise ne n host port) (\<lambda>rows.
            bind_web (check_resolved (ne_ip_address ne) rows) (\<lambda>_. Inr rows)))"

definition get_validated_stream_addrinfos_for_egress ::
  "net_env \<Rightarrow> nat \<Rightarrow> string \<Rightarrow> egress_policy \<Rightarrow> addr_row list web" where
  "get_validated_stream_addrinfos_for_egress ne n url policy =
     bind_web (ne_urlparse ne url) (\<lambda>parsed.
       if py_lower (pu_scheme parsed) \<notin> allowed_schemes policy then Inl violation
       else case pu_hostname parsed of
         None \<Rightarrow> Inl violation
       | Some host \<Rightarrow>
           if host = [] then Inl violation
           else bind_web (port_for_url parsed) (\<lambda>port.
             validated_host ne n (allow_private_network_targets policy) host port))"

definition enforce_web_fetch_egress :: "net_env \<Rightarrow> nat \<Rightarrow> string \<Rightarrow> egress_policy \<Rightarrow> unit web" where
  "enforce_web_fetch_egress ne n url policy =
     bind_web (get_validated_stream_addrinfos_for_egress ne n url policy) (\<lambda>_. Inr ())"

subsection \<open>What the check rules out\<close>

text \<open>
  The addresses a fetch must never reach: this host, private and link-local networks (the cloud metadata
  address among them), shared carrier addresses, and the IPv6 forms of these.
\<close>

definition internal_nets4 :: "(nat \<times> 32 word) list" where
  "internal_nets4 = [(8, ip4 127 0 0 0), (8, ip4 10 0 0 0), (12, ip4 172 16 0 0), (16, ip4 192 168 0 0),
     (16, ip4 169 254 0 0), (10, ip4 100 64 0 0), (8, ip4 0 0 0 0)]"

fun internal_address :: "ip_addr \<Rightarrow> bool" where
  "internal_address (V4 a) = in_any internal_nets4 a"
| "internal_address (V6 a) =
     (a = 1 \<or> in_net 7 (ip6 0xfc00 0 0) a \<or> in_net 10 (ip6 0xfe80 0 0) a \<or>
      (\<exists>b \<in> set_option (ipv4_mapped a). in_any internal_nets4 b))"

lemma in_net_disjoint:
  fixes a :: "'a::len word"
  assumes "in_net l b a" "in_net l' b' a" "l \<le> l'" "l' \<le> LENGTH('a)"
  shows "in_net l b b'"
proof -
  have shift: "drop_bit (LENGTH('a) - l) x = drop_bit (l' - l) (drop_bit (LENGTH('a) - l') x)" for x :: "'a word"
    using assms(3,4) by (simp add: drop_bit_drop_bit)
  show ?thesis using assms(1,2) unfolding in_net_def by (simp add: shift)
qed

lemma global4_not_internal:
  assumes "is_global4 a"
  shows "\<not> in_any internal_nets4 a"
proof
  assume i: "in_any internal_nets4 a"
  then have p: "in_net 10 (ip4 100 64 0 0) a \<or> in_any private4 a"
    by (auto simp: in_any_def internal_nets4_def private4_def)
  with assms have e: "in_any private4_exceptions a" and c: "\<not> in_net 10 (ip4 100 64 0 0) a"
    by (auto simp: is_global4_def)
  from e have "a = ip4 192 0 0 9 \<or> a = ip4 192 0 0 10"
    by (auto simp: in_any_def private4_exceptions_def in_net_def)
  with i show False
    by (auto simp: in_any_def internal_nets4_def in_net_def ip4_def drop_bit_eq_div)
qed

lemma in_net_widen:
  fixes a :: "'a::len word"
  assumes "in_net l' b' a" "l \<le> l'" "l' \<le> LENGTH('a)" "in_net l b b'"
  shows "in_net l b a"
proof -
  have shift: "drop_bit (LENGTH('a) - l) x = drop_bit (l' - l) (drop_bit (LENGTH('a) - l') x)" for x :: "'a word"
    using assms(2,3) by (simp add: drop_bit_drop_bit)
  show ?thesis using assms(1,4) unfolding in_net_def by (simp add: shift)
qed

lemma exceptions6_in: "in_any private6_exceptions a \<Longrightarrow> in_net 16 (ip6 0x2001 0 0) a"
  unfolding in_any_def private6_exceptions_def
  by (auto elim!: in_net_widen) (simp_all add: in_net_def ip6_def)

lemma not_internal6:
  assumes "in_net l b a" "16 \<le> l" "l \<le> 128" "b \<noteq> 1"
    and "\<not> in_net 7 (ip6 0xfc00 0 0) b" "\<not> in_net 10 (ip6 0xfe80 0 0) b" "\<not> in_net l b 1"
  shows "a \<noteq> 1 \<and> \<not> in_net 7 (ip6 0xfc00 0 0) a \<and> \<not> in_net 10 (ip6 0xfe80 0 0) a"
  using assms in_net_disjoint [of 7 "ip6 0xfc00 0 0" a l b] in_net_disjoint [of 10 "ip6 0xfe80 0 0" a l b] by auto

lemma mapped_in_net: "ipv4_mapped a = Some b \<Longrightarrow> in_net 96 (push_bit 32 65535) a"
  by (auto simp: ipv4_mapped_def in_net_def split: if_splits)

lemma global_not_internal:
  assumes "is_global ip"
  shows "\<not> internal_address ip"
proof (cases ip)
  case (V4 a)
  with assms show ?thesis by (simp add: global4_not_internal)
next
  case (V6 a)
  show ?thesis
  proof (cases "ipv4_mapped a")
    case (Some b)
    then have "a \<noteq> 1 \<and> \<not> in_net 7 (ip6 0xfc00 0 0) a \<and> \<not> in_net 10 (ip6 0xfe80 0 0) a"
      by (intro not_internal6 [OF mapped_in_net]) (simp_all add: in_net_def ip6_def)
    with Some V6 assms show ?thesis by (simp add: global4_not_internal)
  next
    case None
    then consider "\<not> in_any private6 a" | "in_any private6_exceptions a" using V6 assms by auto
    then have "a \<noteq> 1 \<and> \<not> in_net 7 (ip6 0xfc00 0 0) a \<and> \<not> in_net 10 (ip6 0xfe80 0 0) a"
    proof cases
      case 1
      then show ?thesis by (auto simp: in_any_def private6_def in_net_def)
    next
      case 2
      then show ?thesis
        by (intro not_internal6 [OF exceptions6_in]) (simp_all add: in_net_def ip6_def)
    qed
    with None V6 show ?thesis by simp
  qed
qed

text \<open>Rows that passed: each readable address is global.\<close>

lemma check_resolved_ok:
  "check_resolved ip_of rows = Inr u \<longleftrightarrow> (\<forall>r \<in> set rows. \<forall>ip. ip_of (ar_host r) = Some ip \<longrightarrow> is_global ip)"
  by (induction rows) (auto split: option.splits)

text \<open>What holds of a URL that passed and of the rows its connection is pinned to.\<close>

definition url_checked :: "net_env \<Rightarrow> egress_policy \<Rightarrow> string \<Rightarrow> addr_row list \<Rightarrow> bool" where
  "url_checked ne policy url rows \<longleftrightarrow>
     (\<exists>p host. ne_urlparse ne url = Inr p \<and> pu_hostname p = Some host \<and> host \<noteq> [] \<and>
        py_lower (pu_scheme p) \<in> allowed_schemes policy \<and>
        (allow_private_network_targets policy \<or>
           \<not> local_name host \<and>
           (case ne_ip_address ne host of
              Some ip \<Rightarrow> \<not> internal_address ip
            | None \<Rightarrow> \<forall>r \<in> set rows. \<forall>ip. ne_ip_address ne (ar_host r) = Some ip \<longrightarrow> \<not> internal_address ip)))"

lemma validated_host_ok:
  assumes "validated_host ne n priv host port = Inr rows"
  shows "priv \<or> \<not> local_name host \<and>
    (case ne_ip_address ne host of
       Some ip \<Rightarrow> \<not> internal_address ip
     | None \<Rightarrow> \<forall>r \<in> set rows. \<forall>ip. ne_ip_address ne (ar_host r) = Some ip \<longrightarrow> \<not> internal_address ip)"
  using assms global_not_internal
  by (cases "ne_ip_address ne host") (auto simp: validated_host_def check_resolved_ok split: if_splits)

lemma validated_url_checked:
  assumes "get_validated_stream_addrinfos_for_egress ne n url policy = Inr rows"
  shows "url_checked ne policy url rows"
proof -
  obtain p host port where p: "ne_urlparse ne url = Inr p" "pu_hostname p = Some host" "host \<noteq> []"
      "py_lower (pu_scheme p) \<in> allowed_schemes policy"
      "validated_host ne n (allow_private_network_targets policy) host port = Inr rows"
    using assms by (auto simp: get_validated_stream_addrinfos_for_egress_def split: if_splits option.splits)
  show ?thesis
    unfolding url_checked_def using p validated_host_ok [OF p(5)] by blast
qed

text \<open>Multicast and translated private addresses count as global.\<close>

lemma multicast_is_global: "is_global (V4 (ip4 224 0 0 1))" "is_global (V6 (ip6 0xff02 0 0 + 1))"
  by (simp_all add: is_global4_def in_any_def private4_def private4_exceptions_def private6_def in_net_def ip4_def ip6_def
      ipv4_mapped_def)

lemma nat64_is_global: "is_global (V6 (ip6 0x64 0xff9b 0 + ucast (ip4 127 0 0 1)))"
  by (simp add: in_any_def private6_def in_net_def ip4_def ip6_def ipv4_mapped_def)

end
