(* ===== verification/WebFetch.thy ===== *)
theory WebFetch
  imports WebEgress
begin

section \<open>Fetching a page (\<open>api/web_tools/outbound.py\<close>)\<close>

text \<open>
  The pinned rows of a connection, the capped readers and the redirect loop.  The web is a field of the
  environment: the \<open>n\<close>th request for a URL over the given rows gives a response or the exception of the
  client.  A body is the list of chunks the client yields, ended by nothing or an exception.
\<close>

subsection \<open>Rows for the resolver\<close>

record resolve_result =
  rr_hostname :: string
  rr_host :: string
  rr_port :: int
  rr_family :: addr_family
  rr_proto :: int

definition resolve_result_of :: "string \<Rightarrow> addr_row \<Rightarrow> string \<times> int \<Rightarrow> resolve_result" where
  "resolve_result_of host r hp =
     \<lparr>rr_hostname = host, rr_host = fst hp, rr_port = snd hp, rr_family = ar_family r, rr_proto = ar_proto r\<rparr>"

text \<open>\<open>socket.getnameinfo\<close> with its port read as a number is the argument \<open>nameinfo\<close>.\<close>

fun getaddrinfo_rows_to_resolve_results ::
  "(addr_row \<Rightarrow> (string \<times> int) web) \<Rightarrow> string \<Rightarrow> addr_row list \<Rightarrow> resolve_result list web" where
  "getaddrinfo_rows_to_resolve_results nameinfo host [] = Inr []"
| "getaddrinfo_rows_to_resolve_results nameinfo host (r # rows) =
     (let rest = getaddrinfo_rows_to_resolve_results nameinfo host rows;
          out = (\<lambda>hp. bind_web rest (\<lambda>rs. Inr (resolve_result_of host r hp # rs))) in
      if ar_family r = AF_INET6 then
        (case ar_rest r of
           [] \<Rightarrow> rest
         | [_] \<Rightarrow> Inl ''IndexError''
         | _ # scope # _ \<Rightarrow>
             if scope \<noteq> 0 then bind_web (nameinfo r) out else out (ar_host r, ar_port r))
      else if ar_family r \<noteq> AF_INET then Inl ''AssertionError''
      else out (ar_host r, ar_port r))"

subsection \<open>Capped readers\<close>

text \<open>A body: the chunks and the exception after them, if any.\<close>

record body =
  bo_chunks :: "string list"
  bo_error :: "string option"

definition body_end :: "string option \<Rightarrow> 'a \<Rightarrow> 'a web" where
  "body_end err x = (case err of None \<Rightarrow> Inr x | Some e \<Rightarrow> Inl e)"

text \<open>\<open>_iter_response_body_under_cap\<close>: the pieces it yields.\<close>

fun iter_under_cap :: "nat \<Rightarrow> nat \<Rightarrow> string list \<Rightarrow> string option \<Rightarrow> string list web" where
  "iter_under_cap received max_bytes [] err = body_end err []"
| "iter_under_cap received max_bytes (chunk # chunks) err =
     (if received \<ge> max_bytes then Inr []
      else if length chunk \<le> max_bytes - received then
        (if received + length chunk \<ge> max_bytes then Inr [chunk]
         else bind_web (iter_under_cap (received + length chunk) max_bytes chunks err) (\<lambda>ps. Inr (chunk # ps)))
      else Inr [take (max_bytes - received) chunk])"

definition iter_response_body_under_cap :: "body \<Rightarrow> nat \<Rightarrow> string list web" where
  "iter_response_body_under_cap b max_bytes =
     (if max_bytes \<le> 0 then Inr [] else iter_under_cap 0 max_bytes (bo_chunks b) (bo_error b))"

definition drain_response_body_capped :: "body \<Rightarrow> nat \<Rightarrow> unit web" where
  "drain_response_body_capped b max_bytes = bind_web (iter_response_body_under_cap b max_bytes) (\<lambda>_. Inr ())"

definition read_response_body_capped :: "body \<Rightarrow> nat \<Rightarrow> string web" where
  "read_response_body_capped b max_bytes =
     bind_web (iter_response_body_under_cap b max_bytes) (\<lambda>ps. Inr (concat ps))"

fun read_parts :: "nat \<Rightarrow> string list \<Rightarrow> nat \<Rightarrow> string list \<Rightarrow> string option \<Rightarrow> string list web" where
  "read_parts received parts max_bytes [] err = body_end err parts"
| "read_parts received parts max_bytes (chunk # chunks) err =
     (if received \<ge> max_bytes then Inr parts
      else if length chunk \<le> max_bytes - received
      then read_parts (received + length chunk) (parts @ [chunk]) max_bytes chunks err
      else Inr (parts @ [take (max_bytes - received) chunk]))"

definition read_aiohttp_body_capped :: "body \<Rightarrow> nat \<Rightarrow> string web" where
  "read_aiohttp_body_capped b max_bytes =
     bind_web (read_parts 0 [] max_bytes (bo_chunks b) (bo_error b)) (\<lambda>ps. Inr (concat ps))"

text \<open>The number of chunks that were taken from the body is returned, to bound what is read.\<close>

fun drain_chunks :: "nat \<Rightarrow> nat \<Rightarrow> string list \<Rightarrow> string option \<Rightarrow> nat web" where
  "drain_chunks received max_bytes [] err = body_end err 0"
| "drain_chunks received max_bytes (chunk # chunks) err =
     (if received + length chunk \<ge> max_bytes then Inr 1
      else bind_web (drain_chunks (received + length chunk) max_bytes chunks err) (\<lambda>n. Inr (Suc n)))"

definition drain_aiohttp_body_capped :: "body \<Rightarrow> nat \<Rightarrow> nat web" where
  "drain_aiohttp_body_capped b max_bytes =
     (if max_bytes \<le> 0 then Inr 0 else drain_chunks 0 max_bytes (bo_chunks b) (bo_error b))"

subsection \<open>The redirect loop\<close>

definition MAX_WEB_FETCH_REDIRECTS :: nat where "MAX_WEB_FETCH_REDIRECTS = 10"
definition MAX_WEB_FETCH_RESPONSE_BYTES :: nat where "MAX_WEB_FETCH_RESPONSE_BYTES = 2 * 1024 * 1024"
definition REDIRECT_RESPONSE_BODY_CAP_BYTES :: nat where "REDIRECT_RESPONSE_BODY_CAP_BYTES = 65536"
definition MAX_FETCH_CHARS :: nat where "MAX_FETCH_CHARS = 24000"
definition MAX_SEARCH_RESULTS :: nat where "MAX_SEARCH_RESULTS = 10"
definition WEB_FETCH_REDIRECT_STATUSES :: "int list" where "WEB_FETCH_REDIRECT_STATUSES = [301, 302, 303, 307, 308]"

text \<open>\<open>hr_raise\<close> is what \<open>raise_for_status()\<close> raises; \<open>hr_encoding\<close> what \<open>get_encoding()\<close> gives or raises.\<close>

record http_response =
  hr_status :: int
  hr_url :: string
  hr_location :: "string option"
  hr_content_type :: "string option"
  hr_raise :: "string option"
  hr_encoding :: "string option web"
  hr_body :: body

record web_env = net_env +
  we_nameinfo :: "addr_row \<Rightarrow> (string \<times> int) web"
  we_get :: "nat \<Rightarrow> string \<Rightarrow> resolve_result list \<Rightarrow> http_response web"
  we_urljoin :: "string \<Rightarrow> string \<Rightarrow> string web"
  we_decode :: "string \<Rightarrow> string \<Rightarrow> string web"      \<comment> \<open>encoding, bytes, errors replaced\<close>

text \<open>A connection: the URL and the rows it is pinned to.\<close>

type_synonym connection = "string \<times> resolve_result list"

text \<open>One turn: the page's pieces, or the URL to go on with.\<close>

datatype hop = Redirect string | Page string string string string  \<comment> \<open>URL, content type, encoding, bytes\<close>

definition follow_redirect :: "web_env \<Rightarrow> nat \<Rightarrow> http_response \<Rightarrow> hop web" where
  "follow_redirect we hops r =
     bind_web (drain_aiohttp_body_capped (hr_body r) REDIRECT_RESPONSE_BODY_CAP_BYTES) (\<lambda>_.
       if hops \<ge> MAX_WEB_FETCH_REDIRECTS then Inl violation
       else case hr_location r of
         None \<Rightarrow> Inl violation
       | Some loc \<Rightarrow>
           if py_strip loc = [] then Inl violation
           else bind_web (we_urljoin we (hr_url r) (py_strip loc)) (\<lambda>u. Inr (Redirect u)))"

definition read_page :: "http_response \<Rightarrow> hop web" where
  "read_page r =
     (case hr_raise r of
        Some e \<Rightarrow> Inl e
      | None \<Rightarrow>
          bind_web (hr_encoding r) (\<lambda>enc.
            bind_web (read_aiohttp_body_capped (hr_body r) MAX_WEB_FETCH_RESPONSE_BYTES) (\<lambda>bytes.
              Inr (Page (hr_url r) (case hr_content_type r of Some c \<Rightarrow> c | None \<Rightarrow> ''text/plain'')
                     (case enc of Some e \<Rightarrow> if e = [] then ''utf-8'' else e | None \<Rightarrow> ''utf-8'') bytes))))"

definition host_of_url :: "web_env \<Rightarrow> string \<Rightarrow> string web" where
  "host_of_url we url =
     bind_web (ne_urlparse we url) (\<lambda>p. Inr (case pu_hostname p of Some h \<Rightarrow> h | None \<Rightarrow> []))"

definition pinned_rows :: "web_env \<Rightarrow> egress_policy \<Rightarrow> nat \<Rightarrow> string \<Rightarrow> resolve_result list web" where
  "pinned_rows we egress hops url =
     bind_web (get_validated_stream_addrinfos_for_egress (net_env.truncate we) hops url egress) (\<lambda>rows.
       bind_web (host_of_url we url) (\<lambda>host.
         getaddrinfo_rows_to_resolve_results (we_nameinfo we) host rows))"

text \<open>One pass of the loop: the connection it opens, if any, and how it ends.\<close>

definition fetch_hop :: "web_env \<Rightarrow> egress_policy \<Rightarrow> nat \<Rightarrow> string \<Rightarrow> connection list \<times> hop web" where
  "fetch_hop we egress hops url =
     (case pinned_rows we egress hops url of
        Inl e \<Rightarrow> ([], Inl e)
      | Inr results \<Rightarrow>
          ([(url, results)],
           bind_web (we_get we hops url results) (\<lambda>r.
             if hr_status r \<in> set WEB_FETCH_REDIRECT_STATUSES then follow_redirect we hops r else read_page r)))"

lemma redirect_bounded: "snd (fetch_hop we egress hops url) = Inr (Redirect u) \<Longrightarrow> hops < MAX_WEB_FETCH_REDIRECTS"
  by (auto simp: fetch_hop_def follow_redirect_def read_page_def split: sum.splits if_splits option.splits)

function fetch_loop :: "web_env \<Rightarrow> egress_policy \<Rightarrow> nat \<Rightarrow> string \<Rightarrow> connection list \<times> hop web" where
  "fetch_loop we egress hops url =
     (let step = fetch_hop we egress hops url in
      case snd step of
        Inr (Redirect u) \<Rightarrow> (let rest = fetch_loop we egress (Suc hops) u in (fst step @ fst rest, snd rest))
      | _ \<Rightarrow> step)"
  by pat_completeness auto

termination
  by (relation "measure (\<lambda>(_, _, hops, _). MAX_WEB_FETCH_REDIRECTS - hops)")
     (auto dest: redirect_bounded intro: diff_less_mono2)

declare fetch_loop.simps [simp del]

text \<open>The rest of \<open>_run_web_fetch\<close> turns the page into the tool's document; the HTML handlers are in \<open>WebTools\<close>.\<close>

subsection \<open>The capped readers return the front of the body\<close>

lemma read_parts_exact:
  "read_parts received parts n chunks None =
     Inr ps \<Longrightarrow> concat ps = concat parts @ take (n - received) (concat chunks)"
proof (induction received parts n chunks "None :: string option" rule: read_parts.induct)
  case (2 received parts n chunk chunks)
  then show ?case by (auto split: if_splits)
qed (simp add: body_end_def)

lemma read_parts_total: "\<exists>ps. read_parts received parts n chunks None = Inr ps"
  by (induction received parts n chunks "None :: string option" rule: read_parts.induct) (auto simp: body_end_def)

lemma read_parts_bounded:
  "read_parts received parts n chunks err = Inr ps \<Longrightarrow> length (concat parts) = received \<Longrightarrow> received \<le> n \<Longrightarrow>
     length (concat ps) \<le> n"
proof (induction received parts n chunks err rule: read_parts.induct)
  case (2 received parts n chunk chunks err)
  show ?case
  proof (cases "received < n \<and> length chunk \<le> n - received")
    case True
    then have "received + length chunk \<le> n" by linarith
    with 2 True show ?thesis by simp
  next
    case False
    with 2 show ?thesis by (auto split: if_splits)
  qed
qed (auto simp: body_end_def split: option.splits)

lemma iter_under_cap_exact:
  "received < n \<Longrightarrow> \<exists>ps. iter_under_cap received n chunks None = Inr ps \<and> concat ps = take (n - received) (concat chunks)"
proof (induction received n chunks "None :: string option" rule: iter_under_cap.induct)
  case (2 received n chunk chunks)
  show ?case
  proof (cases "length chunk \<le> n - received \<and> received + length chunk < n")
    case True
    with 2 show ?thesis by fastforce
  next
    case False
    with 2(2) show ?thesis by auto
  qed
qed (simp add: body_end_def)

lemma readers_exact:
  assumes "bo_error b = None"
  shows "read_aiohttp_body_capped b n = Inr (take n (concat (bo_chunks b)))"
    and "read_response_body_capped b n = Inr (take n (concat (bo_chunks b)))"
proof -
  obtain ps where ps: "read_parts 0 [] n (bo_chunks b) None = Inr ps" using read_parts_total by blast
  from read_parts_exact [OF ps] have "concat ps = take n (concat (bo_chunks b))" by simp
  with ps assms show "read_aiohttp_body_capped b n = Inr (take n (concat (bo_chunks b)))"
    by (simp add: read_aiohttp_body_capped_def)
  show "read_response_body_capped b n = Inr (take n (concat (bo_chunks b)))"
    using assms iter_under_cap_exact [of 0 n "bo_chunks b"]
    by (auto simp: read_response_body_capped_def iter_response_body_under_cap_def)
qed

lemma aiohttp_reader_bounded: "read_aiohttp_body_capped b n = Inr bytes \<Longrightarrow> length bytes \<le> n"
  by (auto simp: read_aiohttp_body_capped_def dest!: read_parts_bounded)

subsection \<open>The connections of a fetch\<close>

lemma fetch_loop_induct [case_names hop]:
  assumes "\<And>hops url. (\<And>u. snd (fetch_hop we egress hops url) = Inr (Redirect u) \<Longrightarrow> P (Suc hops) u) \<Longrightarrow> P hops url"
  shows "P hops url"
  using assms by (induction we egress hops url rule: fetch_loop.induct) metis

lemma fetch_loop_cases:
  obtains (redirect) u where "snd (fetch_hop we egress hops url) = Inr (Redirect u)"
      "fetch_loop we egress hops url =
         (fst (fetch_hop we egress hops url) @ fst (fetch_loop we egress (Suc hops) u), snd (fetch_loop we egress (Suc hops) u))"
  | (final) "\<forall>u. snd (fetch_hop we egress hops url) \<noteq> Inr (Redirect u)"
      "fetch_loop we egress hops url = fetch_hop we egress hops url"
proof (cases "\<exists>u. snd (fetch_hop we egress hops url) = Inr (Redirect u)")
  case True
  then obtain u where "snd (fetch_hop we egress hops url) = Inr (Redirect u)" by blast
  with redirect show thesis by (simp add: fetch_loop.simps [of we egress hops url] Let_def)
next
  case False
  with final show thesis
    by (auto simp: fetch_loop.simps [of we egress hops url] Let_def split: sum.splits hop.splits)
qed

lemma hop_connection:
  "(u, results) \<in> set (fst (fetch_hop we egress hops url)) \<Longrightarrow> u = url \<and> pinned_rows we egress hops url = Inr results"
  by (auto simp: fetch_hop_def split: sum.splits)

lemma loop_connection:
  "(u, results) \<in> set (fst (fetch_loop we egress hops url)) \<Longrightarrow> \<exists>n. pinned_rows we egress n u = Inr results"
proof (induction hops url rule: fetch_loop_induct [of we egress])
  case (hop hops url)
  show ?case
  proof (cases rule: fetch_loop_cases [of we egress hops url])
    case (redirect v)
    with hop show ?thesis by (auto dest: hop_connection)
  next
    case final
    with hop show ?thesis by (auto dest: hop_connection)
  qed
qed

lemma hop_one_connection: "length (fst (fetch_hop we egress hops url)) \<le> 1"
  by (simp add: fetch_hop_def split: sum.splits)

lemma loop_length:
  "hops \<le> MAX_WEB_FETCH_REDIRECTS \<Longrightarrow>
     length (fst (fetch_loop we egress hops url)) \<le> Suc MAX_WEB_FETCH_REDIRECTS - hops"
proof (induction hops url rule: fetch_loop_induct [of we egress])
  case (hop hops url)
  show ?case
  proof (cases rule: fetch_loop_cases [of we egress hops url])
    case (redirect v)
    then show ?thesis
      using hop redirect_bounded [OF redirect(1)] hop_one_connection [of we egress hops url] by fastforce
  next
    case final
    then show ?thesis using hop hop_one_connection [of we egress hops url] by simp
  qed
qed

lemma loop_ends: "snd (fetch_loop we egress hops url) \<noteq> Inr (Redirect u)"
proof (induction hops url rule: fetch_loop_induct [of we egress])
  case (hop hops url)
  show ?case by (cases rule: fetch_loop_cases [of we egress hops url]) (use hop in auto)
qed

lemma hop_page: "snd (fetch_hop we egress hops url) = Inr (Page u ct enc bytes) \<Longrightarrow> length bytes \<le> MAX_WEB_FETCH_RESPONSE_BYTES"
  by (auto simp: fetch_hop_def follow_redirect_def read_page_def dest: aiohttp_reader_bounded
      split: sum.splits if_splits option.splits)

lemma loop_page:
  "snd (fetch_loop we egress hops url) = Inr (Page u ct enc bytes) \<Longrightarrow> length bytes \<le> MAX_WEB_FETCH_RESPONSE_BYTES"
proof (induction hops url rule: fetch_loop_induct [of we egress])
  case (hop hops url)
  show ?case by (cases rule: fetch_loop_cases [of we egress hops url]) (use hop hop_page in auto)
qed

text \<open>The rows the resolver returns are those of the lookup, under the host of the URL.\<close>

lemma resolve_results_from_rows:
  "getaddrinfo_rows_to_resolve_results nameinfo host rows = Inr results \<Longrightarrow> rr \<in> set results \<Longrightarrow>
     rr_hostname rr = host \<and> (\<exists>r \<in> set rows. rr_host rr = ar_host r \<or> (\<exists>p. nameinfo r = Inr (rr_host rr, p)))"
proof (induction rows arbitrary: results)
  case (Cons r rows)
  have tail: "\<And>rs. getaddrinfo_rows_to_resolve_results nameinfo host rows = Inr rs \<Longrightarrow> rr \<in> set rs \<Longrightarrow> ?case"
    using Cons.IH by fastforce
  show ?case
    using Cons.prems tail
    by (fastforce simp: Let_def resolve_result_of_def split: if_splits list.splits)
qed simp

end
