(* ===== verification/WebTools.thy ===== *)
theory WebTools
  imports WebFetch RequestShortcuts StreamContract OpenAiConvert
begin

section \<open>The web tools' answers (\<open>api/web_tools/parsers.py\<close>, \<open>outbound.py\<close>, \<open>streaming.py\<close>)\<close>

text \<open>
  The HTML handlers, the reading of a query or URL from the user's text, the two tools and the stream
  that answers a forced tool.  The tokenizer of \<open>HTMLParser.feed\<close> is an argument: it gives the calls of
  the handlers.
\<close>

subsection \<open>HTML handlers\<close>

datatype html_event =
    StartTag string "(string \<times> string option) list"
  | EndTag string
  | HtmlData string

record html_env =
  he_query :: "string \<Rightarrow> string web"                               \<comment> \<open>\<open>urlparse(href).query\<close>\<close>
  he_parse_qs :: "string \<Rightarrow> (string, string list) pydict web"
  he_unquote :: "string \<Rightarrow> string"
  he_unescape :: "string \<Rightarrow> string"
  he_feed :: "string \<Rightarrow> html_event list"

text \<open>\<open>" ".join(s.split())\<close>\<close>

definition squeeze :: "string \<Rightarrow> string" where
  "squeeze s = py_join '' '' (split_space [] s)"

text \<open>\<open>SearchResultParser\<close>; a result is its title and its URL.\<close>

record search_parser =
  sp_results :: "(string \<times> string) list"
  sp_href :: "string option"
  sp_title_parts :: "string list"

definition search_init :: search_parser where
  "search_init = \<lparr>sp_results = [], sp_href = None, sp_title_parts = []\<rparr>"

text \<open>\<open>dict(attrs).get("href")\<close>: the last attribute of the name counts.\<close>

definition attr_of :: "string \<Rightarrow> (string \<times> string option) list \<Rightarrow> string option" where
  "attr_of k attrs = (case map_of (rev attrs) k of Some v \<Rightarrow> v | None \<Rightarrow> None)"

definition search_starttag :: "html_env \<Rightarrow> string \<Rightarrow> (string \<times> string option) list \<Rightarrow> search_parser \<Rightarrow> search_parser web" where
  "search_starttag he tag attrs s =
     (if tag \<noteq> ''a'' then Inr s
      else case attr_of ''href'' attrs of
        None \<Rightarrow> Inr s
      | Some href \<Rightarrow>
          if href = [] \<or> \<not> py_in ''uddg='' href then Inr s
          else bind_web (he_query he href) (\<lambda>q. bind_web (he_parse_qs he q) (\<lambda>query.
            case (case dict_get ''uddg'' query of Some vs \<Rightarrow> vs | None \<Rightarrow> [[]]) of
              [] \<Rightarrow> Inl ''IndexError''
            | uddg # _ \<Rightarrow>
                if uddg = [] then Inr s
                else Inr (s\<lparr>sp_href := Some (he_unquote he uddg), sp_title_parts := []\<rparr>))))"

definition search_data :: "string \<Rightarrow> search_parser \<Rightarrow> search_parser" where
  "search_data d s = (if sp_href s \<noteq> None then s\<lparr>sp_title_parts := sp_title_parts s @ [d]\<rparr> else s)"

definition search_endtag :: "html_env \<Rightarrow> string \<Rightarrow> search_parser \<Rightarrow> search_parser" where
  "search_endtag he tag s =
     (case sp_href s of
        None \<Rightarrow> s
      | Some href \<Rightarrow>
          if tag \<noteq> ''a'' then s
          else
            let title = squeeze (concat (sp_title_parts s));
                results = (if title \<noteq> [] \<and> href \<notin> snd ` set (sp_results s)
                           then sp_results s @ [(he_unescape he title, href)] else sp_results s)
            in \<lparr>sp_results = results, sp_href = None, sp_title_parts = []\<rparr>)"

fun search_event :: "html_env \<Rightarrow> html_event \<Rightarrow> search_parser \<Rightarrow> search_parser web" where
  "search_event he (StartTag tag attrs) s = search_starttag he tag attrs s"
| "search_event he (EndTag tag) s = Inr (search_endtag he tag s)"
| "search_event he (HtmlData d) s = Inr (search_data d s)"

fun search_events :: "html_env \<Rightarrow> html_event list \<Rightarrow> search_parser \<Rightarrow> search_parser web" where
  "search_events he [] s = Inr s"
| "search_events he (e # es) s = bind_web (search_event he e s) (search_events he es)"

text \<open>\<open>HTMLTextParser\<close>\<close>

record text_parser =
  tp_title :: string
  tp_text_parts :: "string list"
  tp_in_title :: bool
  tp_skip_depth :: nat

definition text_init :: text_parser where
  "text_init = \<lparr>tp_title = [], tp_text_parts = [], tp_in_title = False, tp_skip_depth = 0\<rparr>"

definition skip_tags :: "string list" where
  "skip_tags = [''script'', ''style'', ''noscript'']"

fun text_event :: "html_event \<Rightarrow> text_parser \<Rightarrow> text_parser" where
  "text_event (StartTag tag _) s =
     (if tag \<in> set skip_tags then s\<lparr>tp_skip_depth := Suc (tp_skip_depth s)\<rparr>
      else if tag = ''title'' then s\<lparr>tp_in_title := True\<rparr> else s)"
| "text_event (EndTag tag) s =
     (if tag \<in> set skip_tags \<and> tp_skip_depth s \<noteq> 0 then s\<lparr>tp_skip_depth := tp_skip_depth s - 1\<rparr>
      else if tag = ''title'' then s\<lparr>tp_in_title := False\<rparr> else s)"
| "text_event (HtmlData d) s =
     (let t = squeeze d in
      if t = [] then s
      else if tp_in_title s then s\<lparr>tp_title := py_strip (tp_title s @ '' '' @ t)\<rparr>
      else if tp_skip_depth s = 0 then s\<lparr>tp_text_parts := tp_text_parts s @ [t]\<rparr> else s)"

definition text_events :: "html_event list \<Rightarrow> text_parser \<Rightarrow> text_parser" where
  "text_events es s = fold text_event es s"

subsection \<open>Reading the user's text\<close>

definition content_item :: "text_env \<Rightarrow> json \<Rightarrow> string" where
  "content_item env item = py_str (te_repr env) (json_get_or ''text'' (JStr []) item)"

definition content_text :: "text_env \<Rightarrow> json \<Rightarrow> string" where
  "content_text env content =
     (case content of
        JStr s \<Rightarrow> s
      | JList items \<Rightarrow> py_join [CHR 0x0A] (filter (\<lambda>p. p \<noteq> []) (map (content_item env) items))
      | _ \<Rightarrow> py_str (te_repr env) content)"

text \<open>\<open>s.strip(chars)\<close>\<close>

definition strip_chars :: "char list \<Rightarrow> string \<Rightarrow> string" where
  "strip_chars cs s = rev (dropWhile (\<lambda>c. c \<in> set cs) (rev (dropWhile (\<lambda>c. c \<in> set cs) s)))"

text \<open>
  \<open>re.search(r"query:\s*(.+)", ...)\<close> without case, across lines: the first \<open>query:\<close> that something follows.
  The group starts after the blanks, or is the last of them when nothing else follows.
\<close>

definition query_group :: "string \<Rightarrow> string option" where
  "query_group s =
     (if py_lower (take 6 s) = ''query:'' \<and> drop 6 s \<noteq> []
      then let rest = dropWhile py_space (drop 6 s) in Some (if rest = [] then [last (drop 6 s)] else rest)
      else None)"

fun search_query :: "string \<Rightarrow> string option" where
  "search_query [] = None"
| "search_query (c # cs) =
     (case query_group (c # cs) of Some g \<Rightarrow> Some g | None \<Rightarrow> search_query cs)"

definition extract_query :: "string \<Rightarrow> string" where
  "extract_query t =
     (case search_query t of
        Some g \<Rightarrow> strip_chars [CHR 0x22, CHR 0x27] (py_strip g)
      | None \<Rightarrow> py_strip t)"

text \<open>\<open>re.search(r"https?://\S+", text)\<close>\<close>

definition url_match :: "string \<Rightarrow> string option" where
  "url_match s =
     (let after = (if prefix ''https://'' s then Some 8 else if prefix ''http://'' s then Some 7 else None) in
      case after of
        None \<Rightarrow> None
      | Some n \<Rightarrow> (let more = takeWhile (\<lambda>c. \<not> py_space c) (drop n s) in
                  if more = [] then None else Some (take n s @ more)))"

fun search_url :: "string \<Rightarrow> string option" where
  "search_url [] = None"
| "search_url (c # cs) = (case url_match (c # cs) of Some u \<Rightarrow> Some u | None \<Rightarrow> search_url cs)"

definition extract_url :: "string \<Rightarrow> string" where
  "extract_url t =
     (case search_url t of
        Some u \<Rightarrow> rev (dropWhile (\<lambda>c. c \<in> set '').,]'') (rev u))
      | None \<Rightarrow> py_strip t)"

fun last_user_text :: "text_env \<Rightarrow> message list \<Rightarrow> string" where
  "last_user_text env [] = []"
| "last_user_text env (m # ms) =
     (if msg_role m = ''user'' then content_text env (msg_content m) else last_user_text env ms)"

definition request_text :: "text_env \<Rightarrow> messages_request \<Rightarrow> string" where
  "request_text env rq = py_join [CHR 0x0A] (map (\<lambda>m. content_text env (msg_content m)) (rq_messages rq))"

definition forced_tool_turn_text :: "text_env \<Rightarrow> messages_request \<Rightarrow> string" where
  "forced_tool_turn_text env rq = last_user_text env (rev (rq_messages rq))"

subsection \<open>The two tools\<close>

record fetched_page =
  fp_url :: string
  fp_title :: string
  fp_data :: string

definition page_document :: "html_env \<Rightarrow> string \<Rightarrow> string \<Rightarrow> string \<Rightarrow> fetched_page" where
  "page_document he url content_type txt =
     (if py_in ''html'' (py_lower content_type) then
        let p = text_events (he_feed he txt) text_init in
        \<lparr>fp_url = url, fp_title = (if tp_title p \<noteq> [] then tp_title p else url),
         fp_data = take MAX_FETCH_CHARS (py_join [CHR 0x0A] (tp_text_parts p))\<rparr>
      else \<lparr>fp_url = url, fp_title = url, fp_data = take MAX_FETCH_CHARS txt\<rparr>)"

definition run_web_fetch :: "web_env \<Rightarrow> html_env \<Rightarrow> egress_policy \<Rightarrow> string \<Rightarrow> connection list \<times> fetched_page web" where
  "run_web_fetch we he egress url =
     (let got = fetch_loop we egress 0 url in
      (fst got,
       bind_web (snd got) (\<lambda>h.
         case h of
           Page u ct enc bytes \<Rightarrow> bind_web (we_decode we enc bytes) (\<lambda>txt. Inr (page_document he u ct txt))
         | Redirect _ \<Rightarrow> Inl [])))"

text \<open>The answer of the search page is an argument: its status error or its body.\<close>

definition run_web_search :: "web_env \<Rightarrow> html_env \<Rightarrow> (string \<Rightarrow> (string option \<times> body) web) \<Rightarrow> string \<Rightarrow> (string \<times> string) list web" where
  "run_web_search we he get_search query =
     bind_web (get_search query) (\<lambda>(status_error, bd).
       case status_error of
         Some e \<Rightarrow> Inl e
       | None \<Rightarrow>
           bind_web (read_response_body_capped bd MAX_WEB_FETCH_RESPONSE_BYTES) (\<lambda>bytes.
             bind_web (we_decode we ''utf-8'' bytes) (\<lambda>txt.
               bind_web (search_events he (he_feed he txt) search_init) (\<lambda>s.
                 Inr (take MAX_SEARCH_RESULTS (sp_results s))))))"

definition web_tool_client_error_summary :: "string \<Rightarrow> string \<Rightarrow> bool \<Rightarrow> string" where
  "web_tool_client_error_summary tool_name error verbose =
     (if verbose then tool_name @ '' failed: '' @ error else ''Web tool request failed.'')"

subsection \<open>The stream of a forced tool\<close>

record web_stream_env =
  ws_we :: web_env
  ws_he :: html_env
  ws_text :: text_env
  ws_egress :: egress_policy
  ws_search :: "string \<Rightarrow> (string option \<times> body) web"
  ws_message_id :: string
  ws_tool_id :: string
  ws_now :: string

fun numbered_results :: "nat \<Rightarrow> (string \<times> string) list \<Rightarrow> string list" where
  "numbered_results n [] = []"
| "numbered_results n (r # rs) = (show_nat n @ ''. '' @ fst r @ [CHR 0x0A] @ snd r) # numbered_results (Suc n) rs"

definition search_summary :: "string \<Rightarrow> (string \<times> string) list \<Rightarrow> string" where
  "search_summary query results =
     (if results = [] then ''No web search results found for: '' @ query
      else py_join [CHR 0x0A, CHR 0x0A] ((''Search results for: '' @ query) # numbered_results 1 results))"

definition search_result_json :: "string \<times> string \<Rightarrow> json" where
  "search_result_json r = JObj [(''type'', JStr ''web_search_result''), (''title'', JStr (fst r)), (''url'', JStr (snd r))]"

definition fetch_result_json :: "string \<Rightarrow> fetched_page \<Rightarrow> json" where
  "fetch_result_json now p = JObj
     [(''type'', JStr ''web_fetch_result''), (''url'', JStr (fp_url p)),
      (''content'', JObj
         [(''type'', JStr ''document''),
          (''source'', JObj [(''type'', JStr ''text''), (''media_type'', JStr ''text/plain''), (''data'', JStr (fp_data p))]),
          (''title'', JStr (fp_title p)), (''citations'', JObj [(''enabled'', JBool True)])]),
      (''retrieved_at'', JStr now)]"

definition result_block_type :: "string \<Rightarrow> string" where
  "result_block_type tool = (if tool = ''web_search'' then ''web_search_tool_result'' else ''web_fetch_tool_result'')"

definition error_payload_type :: "string \<Rightarrow> string" where
  "error_payload_type tool = (if tool = ''web_search'' then ''web_search_tool_result_error'' else ''web_fetch_tool_error'')"

text \<open>The tool's result: the content of the result block and the summary for the model, or the exception.\<close>

definition run_tool :: "web_stream_env \<Rightarrow> string \<Rightarrow> string \<Rightarrow> (json \<times> string) web" where
  "run_tool ws tool arg =
     (if tool = ''web_search'' then
        bind_web (run_web_search (ws_we ws) (ws_he ws) (ws_search ws) arg) (\<lambda>results.
          Inr (JList (map search_result_json results), search_summary arg results))
      else
        bind_web (snd (run_web_fetch (ws_we ws) (ws_he ws) (ws_egress ws) arg)) (\<lambda>p.
          Inr (fetch_result_json (ws_now ws) p, take MAX_FETCH_CHARS (fp_data p))))"

definition tool_outcome :: "web_stream_env \<Rightarrow> bool \<Rightarrow> string \<Rightarrow> string \<Rightarrow> json \<times> string" where
  "tool_outcome ws verbose tool arg =
     (case run_tool ws tool arg of
        Inr r \<Rightarrow> r
      | Inl e \<Rightarrow>
          (JObj [(''type'', JStr (error_payload_type tool)), (''error_code'', JStr ''unavailable'')],
           web_tool_client_error_summary tool e verbose))"

definition block_start_event :: "int \<Rightarrow> (string \<times> json) list \<Rightarrow> sse_event" where
  "block_start_event i block = sse_ev ''content_block_start''
     [(''type'', JStr ''content_block_start''), (''index'', JInt i), (''content_block'', JObj block)]"

definition tool_argument :: "string \<Rightarrow> string \<Rightarrow> string \<times> string" where
  "tool_argument tool txt =
     (if tool = ''web_search'' then (''query'', extract_query txt) else (''url'', extract_url txt))"

definition opening_events :: "web_stream_env \<Rightarrow> messages_request \<Rightarrow> int \<Rightarrow> string \<Rightarrow> string \<times> string \<Rightarrow> sse_event list" where
  "opening_events ws rq tokens tool arg =
     [sse_ev ''message_start''
        [(''type'', JStr ''message_start''),
         (''message'', JObj
            [(''id'', JStr (ws_message_id ws)), (''type'', JStr ''message''), (''role'', JStr ''assistant''),
             (''content'', JList []), (''model'', JStr (rq_model rq)), (''stop_reason'', JNull), (''stop_sequence'', JNull),
             (''usage'', JObj [(''input_tokens'', JInt tokens), (''output_tokens'', JInt 1)])])],
      block_start_event 0
        [(''type'', JStr ''server_tool_use''), (''id'', JStr (ws_tool_id ws)), (''name'', JStr tool),
         (''input'', JObj [(fst arg, JStr (snd arg))])],
      content_block_stop 0]"

definition closing_events :: "web_stream_env \<Rightarrow> int \<Rightarrow> string \<Rightarrow> json \<Rightarrow> string \<Rightarrow> sse_event list" where
  "closing_events ws tokens tool content summary =
     [block_start_event 1
        [(''type'', JStr (result_block_type tool)), (''tool_use_id'', JStr (ws_tool_id ws)), (''content'', content)],
      content_block_stop 1,
      block_start_event 2 [(''type'', JStr ''text''), (''text'', JStr [])],
      content_block_delta 2 ''text_delta'' summary,
      content_block_stop 2,
      sse_ev ''message_delta''
        [(''type'', JStr ''message_delta''),
         (''delta'', JObj [(''stop_reason'', JStr ''end_turn''), (''stop_sequence'', JNull)]),
         (''usage'', JObj
            [(''input_tokens'', JInt tokens), (''output_tokens'', JInt (max 1 (int (length summary) div 4))),
             (''server_tool_use'', JObj
                [((if tool = ''web_search'' then ''web_search_requests'' else ''web_fetch_requests''), JInt 1)])])],
      message_stop]"

definition stream_web_server_tool_response :: "web_stream_env \<Rightarrow> messages_request \<Rightarrow> int \<Rightarrow> bool \<Rightarrow> sse_event list" where
  "stream_web_server_tool_response ws rq tokens verbose =
     (case forced_server_tool_name rq of
        None \<Rightarrow> []
      | Some tool \<Rightarrow>
          if \<not> has_tool_named rq tool then []
          else
            let arg = tool_argument tool (forced_tool_turn_text (ws_text ws) rq);
                out = tool_outcome ws verbose tool (snd arg)
            in opening_events ws rq tokens tool arg @ closing_events ws tokens tool (fst out) (snd out))"

end
