(* ===== verification/WebToolsSound.thy ===== *)
theory WebToolsSound
  imports WebTools
begin

section \<open>What the web tools promise\<close>

text \<open>
  A fetch reaches only addresses outside the internal networks, follows a bounded number of redirects and reads a bounded
  body; the stream of a tool passes the stream contract whatever the tool did.
\<close>

subsection \<open>Safety of the connections\<close>

lemma pinned_rows_checked:
  assumes "pinned_rows we egress n url = Inr results"
  obtains p host rows where "ne_urlparse we url = Inr p" "pu_hostname p = Some host"
    "url_checked (net_env.truncate we) egress url rows"
    "getaddrinfo_rows_to_resolve_results (we_nameinfo we) host rows = Inr results"
proof -
  obtain rows host where r: "get_validated_stream_addrinfos_for_egress (net_env.truncate we) n url egress = Inr rows"
      "host_of_url we url = Inr host" "getaddrinfo_rows_to_resolve_results (we_nameinfo we) host rows = Inr results"
    using assms by (auto simp: pinned_rows_def)
  from validated_url_checked [OF r(1)] have c: "url_checked (net_env.truncate we) egress url rows" .
  then obtain p h where "ne_urlparse we url = Inr p" "pu_hostname p = Some h"
    by (auto simp: url_checked_def net_env.truncate_def)
  with r c show thesis using that by (auto simp: host_of_url_def)
qed

text \<open>C8. 
  C0. A web fetch, over all its redirects, opens connections only for URLs of an allowed scheme whose host is not a
  local name; where the host is a literal address it is not an internal one (loopback, private, link-local, shared,
  or an IPv6 form of these), and otherwise the resolver of the connection answers for this host alone and with no
  readable address that is internal, however the name server changes its answers.
\<close>

theorem fetch_stays_outside:
  assumes nameinfo: "\<And>r h p. we_nameinfo we r = Inr (h, p) \<Longrightarrow> ne_ip_address we h = ne_ip_address we (ar_host r)"
    and "\<not> allow_private_network_targets egress"
    and "(u, results) \<in> set (fst (run_web_fetch we he egress url))"
  shows "\<exists>p host. ne_urlparse we u = Inr p \<and> pu_hostname p = Some host \<and>
    py_lower (pu_scheme p) \<in> allowed_schemes egress \<and> \<not> local_name host \<and>
    (\<forall>rr \<in> set results. rr_hostname rr = host) \<and>
    (case ne_ip_address we host of
       Some ip \<Rightarrow> \<not> internal_address ip
     | None \<Rightarrow> \<forall>rr \<in> set results. \<forall>ip. ne_ip_address we (rr_host rr) = Some ip \<longrightarrow> \<not> internal_address ip)"
proof -
  obtain n where "pinned_rows we egress n u = Inr results"
    using assms(3) loop_connection by (force simp: run_web_fetch_def Let_def)
  then obtain p host rows where r: "ne_urlparse we u = Inr p" "pu_hostname p = Some host"
      "url_checked (net_env.truncate we) egress u rows"
      "getaddrinfo_rows_to_resolve_results (we_nameinfo we) host rows = Inr results"
    by (rule pinned_rows_checked)
  have same: "rr_hostname rr = host \<and> (\<exists>row \<in> set rows. ne_ip_address we (rr_host rr) = ne_ip_address we (ar_host row))"
    if "rr \<in> set results" for rr
    using resolve_results_from_rows [OF r(4) that] nameinfo by metis
  from r(1,2,3) assms(2) have c: "py_lower (pu_scheme p) \<in> allowed_schemes egress" "\<not> local_name host"
      "case ne_ip_address we host of
         Some ip \<Rightarrow> \<not> internal_address ip
       | None \<Rightarrow> \<forall>row \<in> set rows. \<forall>ip. ne_ip_address we (ar_host row) = Some ip \<longrightarrow> \<not> internal_address ip"
    by (auto simp: url_checked_def net_env.truncate_def split: option.splits)
  show ?thesis
  proof (intro exI [of _ p] exI [of _ host] conjI)
    show "case ne_ip_address we host of
         Some ip \<Rightarrow> \<not> internal_address ip
       | None \<Rightarrow> \<forall>rr \<in> set results. \<forall>ip. ne_ip_address we (rr_host rr) = Some ip \<longrightarrow> \<not> internal_address ip"
      using c(3) same by (cases "ne_ip_address we host") (auto, metis)
  qed (use r c same in auto)
qed

text \<open>A small web: \<open>http://a/\<close> redirects to \<open>http://b/\<close>, which answers; the name of \<open>c\<close> leads inside.\<close>

definition demo_parse :: "string \<Rightarrow> parsed_url web" where
  "demo_parse u = Inr \<lparr>pu_scheme = takeWhile (\<lambda>c. c \<noteq> CHR '':'') u, pu_hostname = Some (take 1 (drop 7 u)), pu_port = Inr None\<rparr>"

definition demo_ip :: "string \<Rightarrow> ip_addr option" where
  "demo_ip h = (if h = ''93.184.215.14'' then Some (V4 (ip4 93 184 215 14)) else if h = ''10.0.0.1'' then Some (V4 (ip4 10 0 0 1)) else None)"

definition demo_row :: "string \<Rightarrow> int \<Rightarrow> addr_row" where
  "demo_row addr port = \<lparr>ar_family = AF_INET, ar_proto = 6, ar_host = addr, ar_port = port, ar_rest = []\<rparr>"

definition demo_get :: "nat \<Rightarrow> string \<Rightarrow> resolve_result list \<Rightarrow> http_response web" where
  "demo_get n u rows =
     (let r = \<lparr>hr_status = 200, hr_url = u, hr_location = None, hr_content_type = Some ''text/plain'', hr_raise = None,
               hr_encoding = Inr None, hr_body = \<lparr>bo_chunks = [''he'', ''llo''], bo_error = None\<rparr>\<rparr> in
      Inr (if u = ''http://a/'' then r\<lparr>hr_status := 302, hr_location := Some '' http://b/''\<rparr> else r))"

definition demo_web :: web_env where
  "demo_web = \<lparr>ne_urlparse = demo_parse, ne_ip_address = demo_ip,
     ne_getaddrinfo = (\<lambda>n h p. Inr [demo_row (if h = ''c'' then ''10.0.0.1'' else ''93.184.215.14'') p]),
     we_nameinfo = (\<lambda>r. Inr (ar_host r, ar_port r)), we_get = demo_get, we_urljoin = (\<lambda>b l. Inr l),
     we_decode = (\<lambda>e s. Inr s)\<rparr>"

definition demo_he :: html_env where
  "demo_he = \<lparr>he_query = (\<lambda>s. Inr s), he_parse_qs = (\<lambda>s. Inr []), he_unquote = id, he_unescape = id, he_feed = (\<lambda>s. [])\<rparr>"

definition demo_egress :: egress_policy where
  "demo_egress = \<lparr>allow_private_network_targets = False, allowed_schemes = {''http'', ''https''}\<rparr>"

definition demo_pin :: "string \<Rightarrow> resolve_result" where
  "demo_pin h = \<lparr>rr_hostname = h, rr_host = ''93.184.215.14'', rr_port = 80, rr_family = AF_INET, rr_proto = 6\<rparr>"

lemmas demo_defs = demo_parse_def demo_ip_def demo_row_def demo_web_def demo_egress_def demo_pin_def
  pinned_rows_def get_validated_stream_addrinfos_for_egress_def validated_host_def host_of_url_def
  stream_getaddrinfo_or_raise_def port_for_url_def net_env.truncate_def local_name_def py_endswith_def
  py_lower_def char_lower_def resolve_result_of_def

lemma demo_global: "is_global (V4 (ip4 93 184 215 14))" "\<not> is_global (V4 (ip4 10 0 0 1))"
  by (simp_all add: is_global4_def in_any_def private4_def private4_exceptions_def in_net_def ip4_def)

lemma demo_pinned:
  "pinned_rows demo_web demo_egress n ''http://a/'' = Inr [demo_pin ''a'']"
  "pinned_rows demo_web demo_egress n ''http://b/'' = Inr [demo_pin ''b'']"
  "pinned_rows demo_web demo_egress n ''http://c/'' = Inl violation"
  using demo_global by (simp_all add: demo_defs Let_def del: is_global.simps)

lemma demo_hops:
  "fetch_hop demo_web demo_egress 0 ''http://a/'' = ([(''http://a/'', [demo_pin ''a''])], Inr (Redirect ''http://b/''))"
  "fetch_hop demo_web demo_egress 1 ''http://b/'' =
     ([(''http://b/'', [demo_pin ''b''])], Inr (Page ''http://b/'' ''text/plain'' ''utf-8'' ''hello''))"
  unfolding fetch_hop_def demo_pinned
  by (simp_all add: demo_web_def demo_get_def Let_def WEB_FETCH_REDIRECT_STATUSES_def follow_redirect_def read_page_def
      drain_aiohttp_body_capped_def read_aiohttp_body_capped_def body_end_def REDIRECT_RESPONSE_BODY_CAP_BYTES_def
      MAX_WEB_FETCH_REDIRECTS_def MAX_WEB_FETCH_RESPONSE_BYTES_def py_strip_def py_lstrip_def py_rstrip_def py_space_def)

lemma demo_fetch:
  "run_web_fetch demo_web demo_he demo_egress ''http://a/'' =
     ([(''http://a/'', [demo_pin ''a'']), (''http://b/'', [demo_pin ''b''])],
      Inr \<lparr>fp_url = ''http://b/'', fp_title = ''http://b/'', fp_data = ''hello''\<rparr>)"
proof -
  have "fetch_loop demo_web demo_egress 0 ''http://a/'' =
     ([(''http://a/'', [demo_pin ''a'']), (''http://b/'', [demo_pin ''b''])],
      Inr (Page ''http://b/'' ''text/plain'' ''utf-8'' ''hello''))"
    using demo_hops by (simp add: fetch_loop.simps [of _ _ 0] fetch_loop.simps [of _ _ "Suc 0"] Let_def)
  then show ?thesis
    by (simp add: run_web_fetch_def page_document_def demo_web_def py_in_def py_lower_def char_lower_def MAX_FETCH_CHARS_def)
qed

theorem fetch_stays_outside_witness:
  "\<exists>p host. ne_urlparse demo_web ''http://b/'' = Inr p \<and> pu_hostname p = Some host \<and>
    py_lower (pu_scheme p) \<in> allowed_schemes demo_egress \<and> \<not> local_name host \<and>
    (\<forall>rr \<in> set [demo_pin ''b'']. rr_hostname rr = host) \<and>
    (case ne_ip_address demo_web host of
       Some ip \<Rightarrow> \<not> internal_address ip
     | None \<Rightarrow> \<forall>rr \<in> set [demo_pin ''b'']. \<forall>ip. ne_ip_address demo_web (rr_host rr) = Some ip \<longrightarrow> \<not> internal_address ip)"
  by (rule fetch_stays_outside [where he = demo_he and url = "''http://a/''"])
     (unfold demo_fetch, simp_all add: demo_web_def demo_egress_def)

subsection \<open>Bounds\<close>

text \<open>C37. 
  C0. A web fetch returns, after at most eleven connections (ten redirects), for every web, even one that redirects for
  ever; and the document it returns has at most 24000 characters.
\<close>

theorem fetch_bounded:
  "length (fst (run_web_fetch we he egress url)) \<le> 11 \<and>
   (case snd (fetch_loop we egress 0 url) of
      Inl e \<Rightarrow> snd (run_web_fetch we he egress url) = Inl e
    | Inr (Redirect u) \<Rightarrow> False
    | Inr (Page u ct enc bytes) \<Rightarrow> length bytes \<le> 2 * 1024 * 1024 \<and>
        snd (run_web_fetch we he egress url) = bind_web (we_decode we enc bytes) (\<lambda>txt. Inr (page_document he u ct txt))) \<and>
   (case snd (run_web_fetch we he egress url) of Inl e \<Rightarrow> True | Inr d \<Rightarrow> length (fp_data d) \<le> 24000)"
  using loop_length [of 0 we egress url] loop_ends [of we egress 0 url] loop_page [of we egress 0 url]
  by (auto simp: run_web_fetch_def Let_def MAX_WEB_FETCH_REDIRECTS_def MAX_WEB_FETCH_RESPONSE_BYTES_def page_document_def
      MAX_FETCH_CHARS_def split: sum.splits hop.splits)

subsection \<open>The results of a search\<close>

lemma search_starttag_results: "search_starttag he tag attrs s = Inr s' \<Longrightarrow> sp_results s' = sp_results s"
proof (cases "attr_of ''href'' attrs")
  case (Some href)
  have "sp_results s' = sp_results s"
    if "(case vs of [] \<Rightarrow> Inl ''IndexError''
         | uddg # _ \<Rightarrow> if uddg = [] then Inr s
             else Inr (s\<lparr>sp_href := Some (he_unquote he uddg), sp_title_parts := []\<rparr>)) = (Inr s' :: search_parser web)" for vs
    using that by (cases vs) (auto split: if_splits)
  then show "search_starttag he tag attrs s = Inr s' \<Longrightarrow> sp_results s' = sp_results s"
    unfolding search_starttag_def Some by (auto simp del: not_None_eq split: if_splits)
qed (simp add: search_starttag_def split: if_splits)

lemma search_event_distinct:
  "search_event he e s = Inr s' \<Longrightarrow> distinct (map snd (sp_results s)) \<Longrightarrow> distinct (map snd (sp_results s'))"
  by (cases e) (auto simp: search_data_def search_endtag_def Let_def dest: search_starttag_results split: if_splits option.splits)

lemma search_results_distinct:
  "search_events he es s = Inr s' \<Longrightarrow> distinct (map snd (sp_results s)) \<Longrightarrow> distinct (map snd (sp_results s'))"
  by (induction es arbitrary: s) (auto dest: search_event_distinct)

lemma web_search_distinct:
  assumes "run_web_search we he get_search query = Inr results"
  shows "distinct (map snd results) \<and> length results \<le> 10"
  using assms search_results_distinct [of he _ search_init]
  by (auto simp: run_web_search_def MAX_SEARCH_RESULTS_def search_init_def take_map [symmetric] split: option.splits)

subsection \<open>The stream of a tool\<close>

lemma contract_web_start:
  "i \<notin> set (dict_keys (cs_open c)) \<Longrightarrow> i \<notin> cs_seen c \<Longrightarrow> ty \<in> ALLOWED_BLOCK_START_TYPES - {''text''} \<Longrightarrow>
     contract_event repr a (block_start_event i ((''type'', JStr ty) # d)) c =
       Inr \<lparr>cs_open = dict_set i ty (cs_open c), cs_seen = insert i (cs_seen c)\<rparr>"
  by (simp add: contract_event_def contract_start_def block_start_event_def event_index_def Let_def)

lemma contract_web_text:
  "i \<notin> set (dict_keys (cs_open c)) \<Longrightarrow> i \<notin> cs_seen c \<Longrightarrow>
     contract_event repr a (block_start_event i [(''type'', JStr ''text''), (''text'', JStr [])]) c =
       Inr \<lparr>cs_open = dict_set i ''text'' (cs_open c), cs_seen = insert i (cs_seen c)\<rparr>"
  by (simp add: contract_event_def contract_start_def block_start_event_def event_index_def Let_def ALLOWED_BLOCK_START_TYPES_def)

lemma web_block_types: "result_block_type t \<in> ALLOWED_BLOCK_START_TYPES - {''text''}" "''server_tool_use'' \<in> ALLOWED_BLOCK_START_TYPES - {''text''}"
  by (simp_all add: result_block_type_def ALLOWED_BLOCK_START_TYPES_def)

lemma web_events_contract:
  "contract_events repr a (opening_events ws rq tokens tool arg @ closing_events ws tokens tool c s) contract_init =
     Inr \<lparr>cs_open = [], cs_seen = {0, 1, 2}\<rparr>"
proof -
  have delta: "contract_event repr a (content_block_delta i ''text_delta'' s) d = Inr d"
    if "dict_get i (cs_open d) = Some ''text''" for i d
    using contract_delta_event [where i = i and c = d and kind = "''text''" and repr = repr and a = a and s = s] that by (simp add: delta_of_def)
  have empty: "dict_del i (dict_set i v []) = []" for i :: int and v :: string
    by (simp add: dict_del_def dict_set_def)
  have m: "contract_event repr a (sse_ev n d) c = Inr c" if "n = ''message_start'' \<or> n = ''message_delta'' \<or> n = ''message_stop''" for n d c
    using that by (intro contract_other_event) auto
  show ?thesis
    using web_block_types(1) [of tool] web_block_types(2)
    by (simp add: opening_events_def closing_events_def message_stop_def m contract_web_start contract_web_text contract_stop_event delta
        contract_init_def empty)
       auto
qed

text \<open>
  C0. The answer to a forced web tool is a well-formed Anthropic stream whatever the tool did (it found something, the
  page was refused or the connection failed), its text is exactly the summary, and after a failure the summary names
  at most the tool and the type of the exception.
\<close>

theorem web_tool_stream_sound:
  assumes "forced_server_tool_name rq = Some tool" "has_tool_named rq tool"
  shows "assert_anthropic_stream_contract repr False (stream_web_server_tool_response ws rq tokens verbose) = Inr () \<and>
    text_content repr (stream_web_server_tool_response ws rq tokens verbose) =
      (case run_tool ws tool (snd (tool_argument tool (forced_tool_turn_text (ws_text ws) rq))) of
         Inr r \<Rightarrow> snd r
       | Inl e \<Rightarrow> if verbose then tool @ '' failed: '' @ e else ''Web tool request failed.'')"
proof -
  define arg where "arg = tool_argument tool (forced_tool_turn_text (ws_text ws) rq)"
  define c where "c = fst (tool_outcome ws verbose tool (snd arg))"
  define s where "s = snd (tool_outcome ws verbose tool (snd arg))"
  have e: "stream_web_server_tool_response ws rq tokens verbose =
      opening_events ws rq tokens tool arg @ closing_events ws tokens tool c s"
    using assms by (simp add: stream_web_server_tool_response_def Let_def arg_def c_def s_def)
  have s: "s = (case run_tool ws tool (snd arg) of
         Inr r \<Rightarrow> snd r
       | Inl e \<Rightarrow> if verbose then tool @ '' failed: '' @ e else ''Web tool request failed.'')"
    by (simp add: s_def tool_outcome_def web_tool_client_error_summary_def split: sum.splits)
  have "assert_anthropic_stream_contract repr False (stream_web_server_tool_response ws rq tokens verbose) = Inr ()"
    unfolding assert_anthropic_stream_contract_def e web_events_contract
    by (simp add: opening_events_def closing_events_def message_stop_def)
  moreover have "text_content repr (opening_events ws rq tokens tool arg @ closing_events ws tokens tool c s) = s"
    by (simp add: text_content_def opening_events_def closing_events_def text_parts_def Let_def message_stop_def
        block_start_event_def content_block_delta_def content_block_stop_def result_block_type_def)
  ultimately show ?thesis using e s by (simp add: arg_def)
qed

definition demo_fetch_request :: messages_request where
  "demo_fetch_request = \<lparr>rq_model = ''m'', rq_max_tokens = None,
     rq_messages = [\<lparr>msg_role = ''user'', msg_content = JStr ''see http://a/.'', msg_reasoning_content = None\<rparr>], rq_system = None,
     rq_stop_sequences = None, rq_stream = None, rq_temperature = None, rq_top_p = None, rq_top_k = None,
     rq_metadata = None, rq_tools = Some [\<lparr>td_name = ''web_fetch'', td_type = None, td_description = None, td_input_schema = None\<rparr>],
     rq_tool_choice = Some (JObj [(''type'', JStr ''tool''), (''name'', JStr ''web_fetch'')]), rq_thinking = None,
     rq_context_management = None, rq_output_config = None, rq_mcp_servers = None, rq_extra_body = None, rq_extra = []\<rparr>"

definition demo_ws :: web_stream_env where
  "demo_ws = \<lparr>ws_we = demo_web, ws_he = demo_he,
     ws_text = \<lparr>te_dumps = (\<lambda>_. []), te_dumps_raw = (\<lambda>_. []), te_repr = (\<lambda>_. [])\<rparr>,
     ws_egress = demo_egress, ws_search = (\<lambda>_. Inl ''ConnectError''), ws_message_id = ''msg_1'', ws_tool_id = ''srvtoolu_1'',
     ws_now = ''now''\<rparr>"

lemma demo_argument: "tool_argument ''web_fetch'' (forced_tool_turn_text (ws_text demo_ws) demo_fetch_request) = (''url'', ''http://a/'')"
  by (simp add: tool_argument_def forced_tool_turn_text_def demo_fetch_request_def content_text_def extract_url_def url_match_def
      py_space_def)

theorem web_tool_stream_sound_witness:
  "assert_anthropic_stream_contract (\<lambda>_. []) False (stream_web_server_tool_response demo_ws demo_fetch_request 5 False) = Inr () \<and>
   text_content (\<lambda>_. []) (stream_web_server_tool_response demo_ws demo_fetch_request 5 False) = ''hello''"
proof -
  have f: "forced_server_tool_name demo_fetch_request = Some ''web_fetch''" "has_tool_named demo_fetch_request ''web_fetch''"
    by (simp_all add: forced_server_tool_name_def has_tool_named_def tools_of_def demo_fetch_request_def)
  have "run_tool demo_ws ''web_fetch'' ''http://a/'' = Inr (fetch_result_json ''now''
      \<lparr>fp_url = ''http://b/'', fp_title = ''http://b/'', fp_data = ''hello''\<rparr>, ''hello'')"
    by (simp add: run_tool_def demo_ws_def demo_fetch MAX_FETCH_CHARS_def)
  then show ?thesis
    using web_tool_stream_sound [OF f, of "\<lambda>_. []" demo_ws 5 False] by (simp add: demo_argument)
qed

end
