(* ===== verification/LimiterQueue.thy ===== *)
theory LimiterQueue
  imports PyText
begin

section \<open>The compacting queue of the messaging limiter (\<open>messaging/limiter.py\<close>)\<close>

text \<open>
  Outgoing updates wait under a key: a list of the keys in order and, per key, the function to run and the
  futures that wait for it.  A later submission under a waiting key replaces the function and adds its futures.  Functions
  and futures are any values; futures are numbers later on.
\<close>

record ('f, 'u) limiter_queue =
  lq_list :: "string list"
  lq_map :: "(string, 'f \<times> 'u list) pydict"

definition lq_empty :: "('f, 'u) limiter_queue" where
  "lq_empty = \<lparr>lq_list = [], lq_map = []\<rparr>"

definition enqueue_internal_multi ::
  "'f \<Rightarrow> 'u list \<Rightarrow> string \<Rightarrow> bool \<Rightarrow> ('f, 'u) limiter_queue \<Rightarrow> ('f, 'u) limiter_queue" where
  "enqueue_internal_multi func futures key front q =
     (case dict_get key (lq_map q) of
        Some (_, old) \<Rightarrow> q\<lparr>lq_map := dict_set key (func, old @ futures) (lq_map q)\<rparr>
      | None \<Rightarrow>
          \<lparr>lq_list = (if front then key # lq_list q else lq_list q @ [key]),
           lq_map = dict_set key (func, futures) (lq_map q)\<rparr>)"

definition enqueue_internal :: "'f \<Rightarrow> 'u \<Rightarrow> string \<Rightarrow> bool \<Rightarrow> ('f, 'u) limiter_queue \<Rightarrow> ('f, 'u) limiter_queue" where
  "enqueue_internal func future key front q = enqueue_internal_multi func [future] key front q"

text \<open>What the worker takes: \<open>popleft\<close> of the keys, then \<open>pop\<close> of the key; \<open>None\<close> while it waits.\<close>

definition take_task :: "('f, 'u) limiter_queue \<Rightarrow> (string \<times> 'f \<times> 'u list) option result \<times> ('f, 'u) limiter_queue" where
  "take_task q =
     (case lq_list q of
        [] \<Rightarrow> (Inr None, q)
      | key # keys \<Rightarrow>
          (case dict_get key (lq_map q) of
             None \<Rightarrow> (Inl KeyError, q\<lparr>lq_list := keys\<rparr>)
           | Some (func, futures) \<Rightarrow>
               (Inr (Some (key, func, futures)), \<lparr>lq_list = keys, lq_map = dict_del key (lq_map q)\<rparr>)))"

definition queue_consistent :: "('f, 'u) limiter_queue \<Rightarrow> bool" where
  "queue_consistent q \<longleftrightarrow> distinct (lq_list q) \<and> set (lq_list q) = set (dict_keys (lq_map q)) \<and> dict_ok (lq_map q)"

lemma queue_consistent_empty [simp]: "queue_consistent lq_empty"
  by (simp add: queue_consistent_def lq_empty_def)

lemma queue_consistent_enqueue:
  assumes "queue_consistent q"
  shows "queue_consistent (enqueue_internal_multi func futures key front q)"
proof (cases "dict_get key (lq_map q)")
  case None
  then have "key \<notin> set (lq_list q)" using assms pd.lookup_None_iff [of key "lq_map q"] by (simp add: queue_consistent_def)
  with None assms show ?thesis by (auto simp: enqueue_internal_multi_def queue_consistent_def)
next
  case (Some p)
  then have "key \<in> set (dict_keys (lq_map q))" by (rule pd.lookup_SomeD)
  with Some assms show ?thesis by (cases p) (auto simp: enqueue_internal_multi_def queue_consistent_def)
qed

lemma queue_consistent_take:
  assumes "queue_consistent q" "take_task q = (r, q')"
  shows "queue_consistent q'"
proof (cases "lq_list q")
  case Nil
  with assms show ?thesis by (simp add: take_task_def)
next
  case (Cons key keys)
  then have "key \<in> set (dict_keys (lq_map q))" using assms(1) by (auto simp: queue_consistent_def)
  then obtain f us where "dict_get key (lq_map q) = Some (f, us)"
    using pd.lookup_None_iff [of key "lq_map q"] by (cases "dict_get key (lq_map q)") auto
  with Cons assms show ?thesis by (auto simp: take_task_def queue_consistent_def)
qed

subsection \<open>The specification: a log of submissions\<close>

text \<open>
  The log has each submission that has not been taken, in order.  The worker is due the key of the first; it gets the
  function of the last submission under this key and the futures of all of them.
\<close>

type_synonym ('f, 'u) submission = "string \<times> 'f \<times> 'u list"

definition under :: "string \<Rightarrow> ('f, 'u) submission list \<Rightarrow> ('f, 'u) submission list" where
  "under key log = filter (\<lambda>s. fst s = key) log"

definition log_add :: "'f \<Rightarrow> 'u list \<Rightarrow> string \<Rightarrow> bool \<Rightarrow> ('f, 'u) submission list \<Rightarrow> ('f, 'u) submission list" where
  "log_add func futures key front log =
     (if front \<and> under key log = [] then (key, func, futures) # log else log @ [(key, func, futures)])"

definition log_take :: "('f, 'u) submission list \<Rightarrow> (string \<times> 'f \<times> 'u list) option \<times> ('f, 'u) submission list" where
  "log_take log =
     (case log of
        [] \<Rightarrow> (None, [])
      | (key, _) # _ \<Rightarrow>
          (Some (key, fst (snd (last (under key log))), concat (map (snd \<circ> snd) (under key log))),
           filter (\<lambda>s. fst s \<noteq> key) log))"

text \<open>The order in which the keys of a log were first submitted.\<close>

fun first_keys :: "('f, 'u) submission list \<Rightarrow> string list" where
  "first_keys [] = []"
| "first_keys (s # log) = fst s # removeAll (fst s) (first_keys log)"

lemma set_first_keys: "set (first_keys log) = fst ` set log"
  by (induction log) auto

lemma first_keys_append: "first_keys (log @ [s]) = (if fst s \<in> fst ` set log then first_keys log else first_keys log @ [fst s])"
  by (induction log) (auto simp: set_first_keys)

lemma first_keys_filter: "first_keys (filter (\<lambda>s. fst s \<noteq> k) log) = removeAll k (first_keys log)"
  by (induction log) (auto simp: removeAll_filter_not_eq intro!: filter_cong)

lemma under_Nil_iff: "under key log = [] \<longleftrightarrow> key \<notin> fst ` set log"
  by (auto simp: under_def filter_empty_conv)

lemma under_append: "under key (log @ [(k, f, us)]) = under key log @ (if k = key then [(k, f, us)] else [])"
  by (simp add: under_def)

lemma under_Cons: "under key ((k, f, us) # log) = (if k = key then (k, f, us) # under key log else under key log)"
  by (simp add: under_def)

lemma under_filter: "under key (filter (\<lambda>s. fst s \<noteq> k) log) = (if k = key then [] else under key log)"
  by (auto simp: under_def filter_empty_conv intro!: filter_cong)

text \<open>The queue holds the log, grouped.\<close>

definition groups :: "('f, 'u) limiter_queue \<Rightarrow> ('f, 'u) submission list \<Rightarrow> bool" where
  "groups q log \<longleftrightarrow> lq_list q = first_keys log \<and>
     (\<forall>key. dict_get key (lq_map q) =
        (if under key log = [] then None
         else Some (fst (snd (last (under key log))), concat (map (snd \<circ> snd) (under key log)))))"

lemma groups_empty: "groups lq_empty []"
  by (simp add: groups_def lq_empty_def under_def)

lemma groups_add:
  assumes "groups q log"
  shows "groups (enqueue_internal_multi f us k front q) (log_add f us k front log)"
proof (cases "under k log = []")
  case True
  then have "dict_get k (lq_map q) = None" and n: "k \<notin> fst ` set log"
    using assms by (auto simp: groups_def under_Nil_iff)
  moreover have "first_keys ((k, f, us) # log) = k # first_keys log"
    using n by (simp add: set_first_keys removeAll_id)
  ultimately show ?thesis
    using assms True n
    by (auto simp: groups_def enqueue_internal_multi_def log_add_def first_keys_append under_append under_def)
next
  case False
  then have "dict_get k (lq_map q) = Some (fst (snd (last (under k log))), concat (map (snd \<circ> snd) (under k log)))"
    and n: "k \<in> fst ` set log"
    using assms by (auto simp: groups_def under_Nil_iff)
  with assms False show ?thesis
    by (simp add: groups_def enqueue_internal_multi_def log_add_def first_keys_append under_append)
qed

lemma groups_take:
  assumes "groups q log"
  shows "fst (take_task q) = Inr (fst (log_take log)) \<and> groups (snd (take_task q)) (snd (log_take log))"
proof (cases log)
  case Nil
  with assms show ?thesis by (auto simp: groups_def take_task_def log_take_def)
next
  case (Cons s rest)
  obtain k f us where s: "s = (k, f, us)" by (cases s)
  have u: "under k log \<noteq> []" by (simp add: under_def Cons s)
  have l: "lq_list q = k # removeAll k (first_keys rest)" using assms by (simp add: groups_def Cons s)
  have g: "dict_get k (lq_map q) = Some (fst (snd (last (under k log))), concat (map (snd \<circ> snd) (under k log)))"
    using assms u by (simp add: groups_def)
  have f: "first_keys (filter (\<lambda>s. fst s \<noteq> k) log) = removeAll k (first_keys rest)"
    unfolding first_keys_filter by (simp add: Cons s)
  show ?thesis
    using assms l g f by (simp add: take_task_def log_take_def Cons s groups_def under_filter under_Cons)
qed

subsection \<open>Sequences of operations\<close>

datatype ('f, 'u) queue_op = Submit 'f "'u list" string bool | Take

text \<open>What the worker gets over a sequence of operations, from the queue and from the log.\<close>

fun queue_run :: "('f, 'u) limiter_queue \<Rightarrow> ('f, 'u) queue_op list \<Rightarrow> (string \<times> 'f \<times> 'u list) option result list" where
  "queue_run q [] = []"
| "queue_run q (Submit f us k front # ops) = queue_run (enqueue_internal_multi f us k front q) ops"
| "queue_run q (Take # ops) = fst (take_task q) # queue_run (snd (take_task q)) ops"

fun log_run :: "('f, 'u) submission list \<Rightarrow> ('f, 'u) queue_op list \<Rightarrow> (string \<times> 'f \<times> 'u list) option list" where
  "log_run log [] = []"
| "log_run log (Submit f us k front # ops) = log_run (log_add f us k front log) ops"
| "log_run log (Take # ops) = fst (log_take log) # log_run (snd (log_take log)) ops"

lemma queue_run_groups: "groups q log \<Longrightarrow> queue_run q ops = map Inr (log_run log ops)"
proof (induction ops arbitrary: q log)
  case (Cons op ops)
  then show ?case by (cases op) (auto simp: groups_add dest: groups_take)
qed simp

text \<open>C22. 
  C0. The compacting queue is a first-in-first-out log that hands out one key at a time: over any submissions and
  takes, the worker never meets a missing key, and gets the key that has waited longest, the function
  submitted last under it, and the futures of all its submissions in their order.
\<close>

theorem compaction_refines_log: "queue_run lq_empty ops = map Inr (log_run [] ops)"
  by (rule queue_run_groups [OF groups_empty])

end
