(* ===== verification/LimiterTasks.thy ===== *)
theory LimiterTasks
  imports LimiterQueue RateWindow RequestShortcuts
begin

section \<open>The worker and the clients of the messaging limiter (\<open>messaging/limiter.py\<close>)\<close>

text \<open>
  The tasks of the event loop around the queue: the worker that takes a key, waits out a pause and the window, runs the
  function and settles the futures; and the clients of \<open>enqueue\<close> and \<open>fire_and_forget\<close>, with the retries
  of the latter.  A step is what a task does between two suspension points.  The result of a function comes with the
  step that ends it.  A future is its position in the list of futures; clock readings are rationals.
\<close>

subsection \<open>Failures\<close>

text \<open>An exception of a function: its text and, for a flood wait of the platform, its \<open>seconds\<close>.\<close>

record failure =
  fl_text :: string
  fl_seconds :: "int option"

datatype 'r outcome = Returned 'r | Raised failure | RaisedCancelled

text \<open>\<open>int(s)\<close> of a word: a sign and digits, single underscores between digits.\<close>

definition is_digit :: "char \<Rightarrow> bool" where
  "is_digit c = (let n = of_char c :: nat in 48 \<le> n \<and> n \<le> 57)"

fun digits_value :: "int \<Rightarrow> string \<Rightarrow> int option" where
  "digits_value n [] = Some n"
| "digits_value n (c # cs) =
     (if is_digit c then digits_value (10 * n + of_char c - 48) cs
      else if c = CHR ''_'' then
        (case cs of d # _ \<Rightarrow> if is_digit d then digits_value n cs else None | [] \<Rightarrow> None)
      else None)"

definition unsigned_int :: "string \<Rightarrow> int option" where
  "unsigned_int s = (case s of c # _ \<Rightarrow> if is_digit c then digits_value 0 s else None | [] \<Rightarrow> None)"

definition py_int_of :: "string \<Rightarrow> int option" where
  "py_int_of s =
     (case s of
        c # cs \<Rightarrow>
          if c = CHR ''-'' then map_option uminus (unsigned_int cs)
          else if c = CHR ''+'' then unsigned_int cs else unsigned_int s
      | [] \<Rightarrow> None)"

text \<open>\<open>error_msg.split("after ")[1]\<close>, when it is there\<close>

definition after_part :: "string \<Rightarrow> string option" where
  "after_part msg =
     (case py_find ''after '' msg of
        None \<Rightarrow> None
      | Some i \<Rightarrow> (let rest = drop (i + 6) msg in
                  Some (case py_find ''after '' rest of None \<Rightarrow> rest | Some j \<Rightarrow> take j rest)))"

text \<open>How long a failure pauses the worker, \<open>None\<close> when it is not a flood wait.\<close>

definition flood_seconds :: "failure \<Rightarrow> int option" where
  "flood_seconds e =
     (let msg = py_lower (fl_text e) in
      if \<not> (py_in ''flood'' msg \<or> py_in ''wait'' msg) then None
      else Some (case fl_seconds e of
             Some n \<Rightarrow> n
           | None \<Rightarrow>
               (case after_part msg of
                  None \<Rightarrow> 30
                | Some p \<Rightarrow>
                    (case split_space [] p of
                       [] \<Rightarrow> 30
                     | w # _ \<Rightarrow> (case py_int_of w of Some n \<Rightarrow> n | None \<Rightarrow> 30)))))"

definition transient :: "failure \<Rightarrow> bool" where
  "transient e \<longleftrightarrow> (\<exists>x \<in> set [''connect'', ''timeout'', ''broken'']. py_in x (py_lower (fl_text e)))"

subsection \<open>State\<close>

datatype 'r future = Pending | Resolved 'r | Failed failure | FutureCancelled

datatype 'f worker = Idle | Taken 'f "nat list" | Running 'f "nat list" | Stopped

datatype client_phase = Ready rat | Awaiting nat | Ended

text \<open>\<open>cl_retries\<close>: the client is \<open>fire_and_forget\<close>; a caller that awaits \<open>enqueue\<close> does not retry.\<close>

record 'f client =
  cl_func :: 'f
  cl_key :: string
  cl_retries :: bool
  cl_attempt :: nat
  cl_phase :: client_phase

text \<open>\<open>lm_tries\<close> and \<open>lm_starts\<close> are the history: when the window was tried, what was started and when.\<close>

record ('f, 'r) limiter =
  lm_queue :: "('f, nat) limiter_queue"
  lm_futures :: "'r future list"
  lm_worker :: "'f worker"
  lm_shutdown :: bool
  lm_paused_until :: rat
  lm_window :: window
  lm_clients :: "'f client list"
  lm_now :: rat
  lm_tries :: "rat list"
  lm_starts :: "(rat \<times> 'f) list"

definition limiter_new :: "window \<Rightarrow> ('f, 'r) limiter" where
  "limiter_new w = \<lparr>lm_queue = lq_empty, lm_futures = [], lm_worker = Idle, lm_shutdown = False, lm_paused_until = 0,
     lm_window = w, lm_clients = [], lm_now = 0, lm_tries = [], lm_starts = []\<rparr>"

subsection \<open>Steps\<close>

text \<open>\<open>if not f.done(): f.set_result(...)\<close> for each future\<close>

definition settle_one :: "'r future \<Rightarrow> nat \<Rightarrow> 'r future list \<Rightarrow> 'r future list" where
  "settle_one x u fs = (if u < length fs \<and> fs ! u = Pending then fs[u := x] else fs)"

definition settle :: "'r future \<Rightarrow> nat list \<Rightarrow> 'r future list \<Rightarrow> 'r future list" where
  "settle x us fs = fold (settle_one x) us fs"

datatype ('f, 'r) task_step =
    NewClient 'f string bool
  | ClientEnqueues nat rat
  | ClientWakes nat rat
  | FutureCancels nat
  | WorkerTakes
  | WorkerTries rat
  | FunctionEnds rat "'r outcome"
  | ShutsDown

definition client_enqueues :: "nat \<Rightarrow> ('f, 'r) limiter \<Rightarrow> ('f, 'r) limiter" where
  "client_enqueues i s =
     (let c = lm_clients s ! i; u = length (lm_futures s) in
      s\<lparr>lm_futures := lm_futures s @ [Pending],
        lm_queue := enqueue_internal (cl_func c) u (cl_key c) False (lm_queue s),
        lm_clients := (lm_clients s)[i := c\<lparr>cl_phase := Awaiting u\<rparr>]\<rparr>)"

text \<open>The end of \<open>await self.enqueue(...)\<close>: a result or another error ends the client, a transient one is retried.\<close>

definition client_after :: "rat \<Rightarrow> 'r future \<Rightarrow> 'f client \<Rightarrow> 'f client" where
  "client_after now x c =
     (case x of
        Failed e \<Rightarrow>
          if cl_retries c \<and> cl_attempt c < 2 \<and> transient e
          then c\<lparr>cl_phase := Ready (now + 2 ^ cl_attempt c), cl_attempt := Suc (cl_attempt c)\<rparr>
          else c\<lparr>cl_phase := Ended\<rparr>
      | _ \<Rightarrow> c\<lparr>cl_phase := Ended\<rparr>)"

definition worker_takes :: "('f, 'r) limiter \<Rightarrow> ('f, 'r) limiter option" where
  "worker_takes s =
     (case take_task (lm_queue s) of
        (Inr (Some (key, func, futures)), q) \<Rightarrow> Some (s\<lparr>lm_queue := q, lm_worker := Taken func futures\<rparr>)
      | (Inr None, q) \<Rightarrow> None
      | (Inl e, q) \<Rightarrow> Some (s\<lparr>lm_queue := q\<rparr>))"

text \<open>A turn of \<open>acquire\<close> after the pause: the function starts, or the worker sleeps on.\<close>

definition worker_tries :: "rat \<Rightarrow> 'f \<Rightarrow> nat list \<Rightarrow> ('f, 'r) limiter \<Rightarrow> ('f, 'r) limiter" where
  "worker_tries now func futures s =
     (case attempt now (lm_window s) of
        (None, w) \<Rightarrow> s\<lparr>lm_window := w, lm_worker := Running func futures, lm_now := now, lm_tries := lm_tries s @ [now],
                       lm_starts := lm_starts s @ [(now, func)]\<rparr>
      | (Some _, w) \<Rightarrow> s\<lparr>lm_window := w, lm_now := now, lm_tries := lm_tries s @ [now]\<rparr>)"

definition function_ends :: "rat \<Rightarrow> 'r outcome \<Rightarrow> nat list \<Rightarrow> ('f, 'r) limiter \<Rightarrow> ('f, 'r) limiter" where
  "function_ends now out futures s =
     (case out of
        Returned r \<Rightarrow> s\<lparr>lm_futures := settle (Resolved r) futures (lm_futures s), lm_worker := Idle, lm_now := now\<rparr>
      | Raised e \<Rightarrow>
          s\<lparr>lm_futures := settle (Failed e) futures (lm_futures s), lm_worker := Idle, lm_now := now,
            lm_paused_until := (case flood_seconds e of Some n \<Rightarrow> now + of_int n | None \<Rightarrow> lm_paused_until s)\<rparr>
      | RaisedCancelled \<Rightarrow> s\<lparr>lm_worker := Stopped, lm_now := now\<rparr>)"

fun limiter_step :: "('f, 'r) task_step \<Rightarrow> ('f, 'r) limiter \<Rightarrow> ('f, 'r) limiter option" where
  "limiter_step (NewClient f key retries) s =
     Some (s\<lparr>lm_clients := lm_clients s @
       [\<lparr>cl_func = f, cl_key = key, cl_retries = retries, cl_attempt = 0, cl_phase = Ready (lm_now s)\<rparr>]\<rparr>)"
| "limiter_step (ClientEnqueues i now) s =
     (if i < length (lm_clients s) \<and> lm_now s \<le> now then
        (case cl_phase (lm_clients s ! i) of
           Ready t \<Rightarrow> if t \<le> now then Some (client_enqueues i (s\<lparr>lm_now := now\<rparr>)) else None
         | _ \<Rightarrow> None)
      else None)"
| "limiter_step (ClientWakes i now) s =
     (if i < length (lm_clients s) \<and> lm_now s \<le> now then
        (case cl_phase (lm_clients s ! i) of
           Awaiting u \<Rightarrow>
             if u < length (lm_futures s) \<and> lm_futures s ! u \<noteq> Pending
             then Some (s\<lparr>lm_now := now, lm_clients := (lm_clients s)[i := client_after now (lm_futures s ! u) (lm_clients s ! i)]\<rparr>)
             else None
         | _ \<Rightarrow> None)
      else None)"
| "limiter_step (FutureCancels u) s = Some (s\<lparr>lm_futures := settle_one FutureCancelled u (lm_futures s)\<rparr>)"
| "limiter_step WorkerTakes s =
     (if lm_worker s = Idle \<and> \<not> lm_shutdown s then worker_takes s else None)"
| "limiter_step (WorkerTries now) s =
     (case lm_worker s of
        Taken f us \<Rightarrow> if lm_now s \<le> now \<and> lm_paused_until s \<le> now then Some (worker_tries now f us s) else None
      | _ \<Rightarrow> None)"
| "limiter_step (FunctionEnds now out) s =
     (case lm_worker s of
        Running f us \<Rightarrow> if lm_now s \<le> now then Some (function_ends now out us s) else None
      | _ \<Rightarrow> None)"
| "limiter_step ShutsDown s = Some (s\<lparr>lm_shutdown := True, lm_worker := Stopped\<rparr>)"

fun limiter_run :: "('f, 'r) task_step list \<Rightarrow> ('f, 'r) limiter \<Rightarrow> ('f, 'r) limiter option" where
  "limiter_run [] s = Some s"
| "limiter_run (e # es) s = (case limiter_step e s of None \<Rightarrow> None | Some s' \<Rightarrow> limiter_run es s')"

inductive limiter_reaches :: "window \<Rightarrow> ('f, 'r) limiter \<Rightarrow> bool" for w where
  start: "limiter_reaches w (limiter_new w)"
| step: "limiter_reaches w s \<Longrightarrow> limiter_step e s = Some s' \<Longrightarrow> limiter_reaches w s'"

lemma run_reaches: "limiter_run es s = Some s' \<Longrightarrow> limiter_reaches w s \<Longrightarrow> limiter_reaches w s'"
  by (induction es arbitrary: s) (auto split: option.splits intro: limiter_reaches.step)

end
