(* ===== verification/LimiterSound.thy ===== *)
theory LimiterSound
  imports LimiterTasks "HOL-Library.Multiset"
begin

section \<open>What the messaging limiter promises, and what it does not\<close>

text \<open>
  No future is lost while the worker lives, the worker settles all of them, starts stay within the window; after the
  worker stopped nothing is settled any more, and a retry can overwrite a newer update.
\<close>

subsection \<open>Where futures wait\<close>

definition queued_futures :: "('f, nat) limiter_queue \<Rightarrow> nat list" where
  "queued_futures q = concat (map (snd \<circ> snd) (lq_map q))"

fun held_futures :: "'f worker \<Rightarrow> nat list" where
  "held_futures (Taken f us) = us"
| "held_futures (Running f us) = us"
| "held_futures _ = []"

definition waiting :: "('f, 'r) limiter \<Rightarrow> nat list" where
  "waiting s = queued_futures (lm_queue s) @ held_futures (lm_worker s)"

definition limiter_ok :: "('f, 'r) limiter \<Rightarrow> bool" where
  "limiter_ok s \<longleftrightarrow> queue_consistent (lm_queue s) \<and> distinct (waiting s) \<and>
     (\<forall>u \<in> set (waiting s). u < length (lm_futures s)) \<and>
     (lm_worker s \<noteq> Stopped \<longrightarrow> (\<forall>u < length (lm_futures s). lm_futures s ! u = Pending \<longrightarrow> u \<in> set (waiting s)))"

lemma mset_dict_extend:
  "dict_get k d = Some (f, old) \<Longrightarrow>
     mset (concat (map (snd \<circ> snd) (dict_set k (f', old @ us) d))) = mset us + mset (concat (map (snd \<circ> snd) d))"
  by (induction d) (auto simp: dict_set_def split: if_splits)

lemma mset_dict_new:
  "dict_get k d = None \<Longrightarrow> mset (concat (map (snd \<circ> snd) (dict_set k (f, us) d))) = mset us + mset (concat (map (snd \<circ> snd) d))"
  by (induction d) (auto simp: dict_set_def split: if_splits)

lemma dict_del_missing: "k \<notin> set (dict_keys d) \<Longrightarrow> dict_del k d = d"
  by (induction d) (auto simp: dict_del_def AList.delete_eq dict_keys_def)

lemma mset_dict_take:
  "dict_get k d = Some (f, us) \<Longrightarrow> dict_ok d \<Longrightarrow>
     mset (concat (map (snd \<circ> snd) d)) = mset us + mset (concat (map (snd \<circ> snd) (dict_del k d)))"
proof (induction d)
  case (Cons e d)
  obtain k' p where e: "e = (k', p)" by (cases e)
  show ?case
  proof (cases "k' = k")
    case True
    with Cons.prems e have "dict_del k (e # d) = d"
      using dict_del_missing [of k d] by (simp add: dict_ok_def dict_del_def AList.delete_eq)
    with True Cons.prems e show ?thesis by simp
  next
    case False
    with Cons e show ?thesis by (simp add: dict_ok_def dict_del_def AList.delete_eq)
  qed
qed simp

lemma queued_enqueue: "mset (queued_futures (enqueue_internal f u k front q)) = add_mset u (mset (queued_futures q))"
proof (cases "dict_get k (lq_map q)")
  case None
  then show ?thesis
    using mset_dict_new [of k "lq_map q" f "[u]"]
    by (simp add: enqueue_internal_def enqueue_internal_multi_def queued_futures_def)
next
  case (Some p)
  then show ?thesis
    using mset_dict_extend [of k "lq_map q" "fst p" "snd p" f "[u]"]
    by (cases p) (simp add: enqueue_internal_def enqueue_internal_multi_def queued_futures_def)
qed

lemma take_cases:
  assumes "queue_consistent q"
  obtains (empty) "lq_list q = []" "take_task q = (Inr None, q)"
  | (task) k f us q' where "lq_list q = k # lq_list q'" "take_task q = (Inr (Some (k, f, us)), q')" "queue_consistent q'"
      "mset (queued_futures q) = mset us + mset (queued_futures q')"
proof (cases "lq_list q")
  case Nil
  with empty show thesis by (simp add: take_task_def)
next
  case (Cons k ks)
  then have "k \<in> set (dict_keys (lq_map q))" "dict_ok (lq_map q)" using assms by (auto simp: queue_consistent_def)
  then obtain f us where g: "dict_get k (lq_map q) = Some (f, us)"
    using pd.lookup_None_iff [of k "lq_map q"] by (cases "dict_get k (lq_map q)") auto
  let ?q' = "\<lparr>lq_list = ks, lq_map = dict_del k (lq_map q)\<rparr>"
  have t: "take_task q = (Inr (Some (k, f, us)), ?q')" using Cons g by (simp add: take_task_def)
  have "mset (queued_futures q) = mset us + mset (queued_futures ?q')"
    unfolding queued_futures_def using mset_dict_take [OF g \<open>dict_ok (lq_map q)\<close>] by simp
  with t task [of k ?q' f us] queue_consistent_take [OF assms t] Cons show thesis by simp
qed

subsection \<open>Settling\<close>

lemma settle_one_nth:
  "length (settle_one x u fs) = length fs"
  "v < length fs \<Longrightarrow> settle_one x u fs ! v = (if v = u \<and> fs ! v = Pending then x else fs ! v)"
  by (auto simp: settle_one_def nth_list_update)

lemma settle_nth:
  "length (settle x us fs) = length fs"
  "v < length fs \<Longrightarrow> x \<noteq> Pending \<Longrightarrow> settle x us fs ! v = (if v \<in> set us \<and> fs ! v = Pending then x else fs ! v)"
  unfolding settle_def
  by (induction us arbitrary: fs) (auto simp: settle_one_nth)

subsection \<open>The invariant\<close>

lemma limiter_okI:
  assumes "queue_consistent (lm_queue s)" "distinct (waiting s)" "\<And>u. u \<in> set (waiting s) \<Longrightarrow> u < length (lm_futures s)"
    "\<And>u. lm_worker s \<noteq> Stopped \<Longrightarrow> u < length (lm_futures s) \<Longrightarrow> lm_futures s ! u = Pending \<Longrightarrow> u \<in> set (waiting s)"
  shows "limiter_ok s"
  using assms by (simp add: limiter_ok_def)

lemma limiter_okD:
  assumes "limiter_ok s"
  shows "queue_consistent (lm_queue s)" "distinct (waiting s)" "u \<in> set (waiting s) \<Longrightarrow> u < length (lm_futures s)"
    "lm_worker s \<noteq> Stopped \<Longrightarrow> u < length (lm_futures s) \<Longrightarrow> lm_futures s ! u = Pending \<Longrightarrow> u \<in> set (waiting s)"
  using assms by (simp_all add: limiter_ok_def)

text \<open>A step that leaves the queue and what the worker holds as they are and settles futures keeps the invariant.\<close>

lemma limiter_ok_same:
  assumes "limiter_ok s" "lm_queue s' = lm_queue s" "held_futures (lm_worker s') = held_futures (lm_worker s)"
    "length (lm_futures s') = length (lm_futures s)" "lm_worker s' \<noteq> Stopped \<Longrightarrow> lm_worker s \<noteq> Stopped"
    "\<And>u. u < length (lm_futures s) \<Longrightarrow> lm_futures s' ! u = Pending \<Longrightarrow> lm_futures s ! u = Pending"
  shows "limiter_ok s'"
proof -
  have w: "waiting s' = waiting s" using assms(2,3) by (simp add: waiting_def)
  show ?thesis using limiter_okD [OF assms(1)] assms w by (intro limiter_okI) auto
qed

lemma limiter_ok_new: "limiter_ok (limiter_new w)"
  by (simp add: limiter_ok_def limiter_new_def waiting_def queued_futures_def lq_empty_def queue_consistent_def)

lemma limiter_ok_enqueues:
  assumes "limiter_ok s"
  shows "limiter_ok (client_enqueues i s)"
proof -
  let ?s = "client_enqueues i s" and ?u = "length (lm_futures s)"
  have f: "lm_futures ?s = lm_futures s @ [Pending]" "lm_worker ?s = lm_worker s"
    by (simp_all add: client_enqueues_def Let_def)
  have m: "mset (waiting ?s) = add_mset ?u (mset (waiting s))"
    by (simp add: waiting_def client_enqueues_def Let_def queued_enqueue)
  then have set: "set (waiting ?s) = insert ?u (set (waiting s))" by (metis set_mset_mset set_mset_add_mset_insert)
  have "?u \<notin> set (waiting s)" using limiter_okD(3) [OF assms] by blast
  then have d: "distinct (waiting ?s)"
    using limiter_okD(2) [OF assms] m by (metis distinct.simps(2) mset.simps(2) mset_eq_imp_distinct_iff)
  have q: "queue_consistent (lm_queue ?s)"
    using limiter_okD(1) [OF assms] by (simp add: client_enqueues_def Let_def enqueue_internal_def queue_consistent_enqueue)
  show ?thesis
  proof (rule limiter_okI [OF q d])
    fix u assume "u \<in> set (waiting ?s)"
    then show "u < length (lm_futures ?s)" using limiter_okD(3) [OF assms, of u] by (auto simp: set f)
  next
    fix u assume "lm_worker ?s \<noteq> Stopped" "u < length (lm_futures ?s)" "lm_futures ?s ! u = Pending"
    then show "u \<in> set (waiting ?s)"
      using limiter_okD(4) [OF assms, of u] by (auto simp: set f nth_append less_Suc_eq split: if_splits)
  qed
qed

lemma limiter_ok_takes:
  assumes "limiter_ok s" "lm_worker s = Idle" "worker_takes s = Some s'"
  shows "limiter_ok s'"
using limiter_okD(1) [OF assms(1)]
proof (cases rule: take_cases)
  case empty
  with assms show ?thesis by (simp add: worker_takes_def)
next
  case (task k f us q')
  then have s': "s' = s\<lparr>lm_queue := q', lm_worker := Taken f us\<rparr>" using assms(3) by (simp add: worker_takes_def)
  have m: "mset (waiting s') = mset (waiting s)" using task assms(2) by (simp add: waiting_def s' ac_simps)
  have e: "set (waiting s') = set (waiting s)" by (metis m set_mset_mset)
  have d: "distinct (waiting s')" using limiter_okD(2) [OF assms(1)] m by (metis mset_eq_imp_distinct_iff)
  show ?thesis
    using limiter_okD(3,4) [OF assms(1)] task(3) d e assms(2) by (intro limiter_okI) (auto simp: s')
qed

lemma limiter_ok_settled:
  assumes "limiter_ok s" "held_futures (lm_worker s) = us" "lm_worker s \<noteq> Stopped" "x \<noteq> Pending"
    "lm_queue s' = lm_queue s" "lm_futures s' = settle x us (lm_futures s)" "lm_worker s' = Idle"
  shows "limiter_ok s'"
proof -
  have w: "waiting s = waiting s' @ us" using assms by (simp add: waiting_def)
  show ?thesis
  proof (rule limiter_okI)
    show "queue_consistent (lm_queue s')" "distinct (waiting s')" using limiter_okD(1,2) [OF assms(1)] assms(5) w by auto
    show "u < length (lm_futures s')" if "u \<in> set (waiting s')" for u
      using that limiter_okD(3) [OF assms(1), of u] w assms(6) by (simp add: settle_nth)
    fix u
    assume "u < length (lm_futures s')" "lm_futures s' ! u = Pending"
    then have "u < length (lm_futures s)" "lm_futures s ! u = Pending" "u \<notin> set us"
      using assms(4,6) by (auto simp: settle_nth split: if_splits)
    then show "u \<in> set (waiting s')" using limiter_okD(4) [OF assms(1,3), of u] w by auto
  qed
qed

lemma limiter_ok_ends:
  assumes "limiter_ok s" "lm_worker s = Running f us"
  shows "limiter_ok (function_ends now out us s)"
proof (cases out)
  case (Returned r)
  with assms show ?thesis by (intro limiter_ok_settled [OF assms(1), where us = us and x = "Resolved r"]) (simp_all add: function_ends_def)
next
  case (Raised e)
  with assms show ?thesis by (intro limiter_ok_settled [OF assms(1), where us = us and x = "Failed e"]) (simp_all add: function_ends_def)
next
  case RaisedCancelled
  then have "waiting s = waiting (function_ends now out us s) @ us" using assms(2) by (simp add: waiting_def function_ends_def)
  with RaisedCancelled limiter_okD [OF assms(1)] show ?thesis by (intro limiter_okI) (auto simp: function_ends_def)
qed

lemma limiter_ok_step:
  assumes "limiter_ok s" "limiter_step e s = Some s'"
  shows "limiter_ok s'"
proof (cases e)
  case (NewClient f k r)
  with assms show ?thesis by (auto intro: limiter_ok_same [OF assms(1)])
next
  case (ClientEnqueues i now)
  have "limiter_ok (s\<lparr>lm_now := now\<rparr>)" by (rule limiter_ok_same [OF assms(1)]) simp_all
  with ClientEnqueues assms show ?thesis by (auto split: if_splits client_phase.splits intro: limiter_ok_enqueues)
next
  case (ClientWakes i now)
  with assms show ?thesis by (auto split: if_splits client_phase.splits intro: limiter_ok_same [OF assms(1)])
next
  case (FutureCancels u)
  with assms show ?thesis by (auto simp: settle_one_nth split: if_splits intro!: limiter_ok_same [OF assms(1)])
next
  case WorkerTakes
  with assms show ?thesis by (auto split: if_splits intro: limiter_ok_takes)
next
  case (WorkerTries now)
  with assms show ?thesis
    by (auto simp: worker_tries_def split: worker.splits if_splits option.splits prod.splits intro!: limiter_ok_same [OF assms(1)])
next
  case (FunctionEnds now out)
  with assms show ?thesis by (auto split: worker.splits if_splits intro: limiter_ok_ends)
next
  case ShutsDown
  then have s': "s' = s\<lparr>lm_shutdown := True, lm_worker := Stopped\<rparr>" using assms(2) by simp
  have "waiting s = waiting s' @ held_futures (lm_worker s)" by (simp add: waiting_def s')
  with limiter_okD [OF assms(1)] show ?thesis by (intro limiter_okI) (auto simp: s')
qed

lemma limiter_reaches_ok: "limiter_reaches w s \<Longrightarrow> limiter_ok s"
  by (induction rule: limiter_reaches.induct) (auto intro: limiter_ok_new limiter_ok_step)

text \<open>
  C0. While its worker lives, the limiter forgets no message: in every reachable state each future that is still pending
  waits in exactly one place, under a key of the queue or with the worker, and every key of the queue is
  there once and has its function.
\<close>

theorem limiter_loses_no_future:
  assumes "limiter_reaches w s" "lm_worker s \<noteq> Stopped" "u < length (lm_futures s)" "lm_futures s ! u = Pending"
  shows "count (mset (queued_futures (lm_queue s) @ held_futures (lm_worker s))) u = 1 \<and>
    distinct (lq_list (lm_queue s)) \<and> set (lq_list (lm_queue s)) = set (dict_keys (lq_map (lm_queue s)))"
proof -
  have ok: "limiter_ok s" by (rule limiter_reaches_ok [OF assms(1)])
  have "u \<in> set (waiting s)" using limiter_okD(4) [OF ok] assms by blast
  then have "count (mset (waiting s)) u = 1" using limiter_okD(2) [OF ok] by (metis distinct_count_atmost_1)
  then show ?thesis using limiter_okD(1) [OF ok] by (simp add: waiting_def queue_consistent_def)
qed

subsection \<open>The starts stay within the window\<close>

lemma attempts_snoc:
  "attempts (ts @ [t]) l =
     (case attempt t (snd (attempts ts l)) of
        (None, l') \<Rightarrow> (fst (attempts ts l) @ [t], l') | (Some _, l') \<Rightarrow> (fst (attempts ts l), l'))"
  by (induction ts arbitrary: l) (auto split: prod.splits option.splits)

definition history_ok :: "window \<Rightarrow> ('f, 'r) limiter \<Rightarrow> bool" where
  "history_ok w s \<longleftrightarrow> sorted (lm_tries s) \<and> (\<forall>t \<in> set (lm_tries s). t \<le> lm_now s) \<and>
     attempts (lm_tries s) w = (map fst (lm_starts s), lm_window s)"

lemma history_ok_same:
  "history_ok w s \<Longrightarrow> lm_tries s' = lm_tries s \<Longrightarrow> lm_starts s' = lm_starts s \<Longrightarrow> lm_window s' = lm_window s \<Longrightarrow>
     lm_now s \<le> lm_now s' \<Longrightarrow> history_ok w s'"
  by (auto simp: history_ok_def intro: order_trans)

lemma worker_takes_same:
  assumes "worker_takes s = Some s'"
  shows "lm_tries s' = lm_tries s \<and> lm_starts s' = lm_starts s \<and> lm_window s' = lm_window s \<and> lm_now s' = lm_now s \<and>
    lm_futures s' = lm_futures s \<and> lm_clients s' = lm_clients s \<and> lm_paused_until s' = lm_paused_until s \<and> lm_shutdown s' = lm_shutdown s"
  using assms by (auto simp: worker_takes_def split: prod.splits sum.splits option.splits)

lemma history_ok_step:
  assumes "history_ok w s" "limiter_step e s = Some s'"
  shows "history_ok w s'"
proof (cases e)
  case (WorkerTries now)
  then obtain f us where s': "s' = worker_tries now f us s" "lm_now s \<le> now"
    using assms(2) by (auto split: worker.splits if_splits)
  have l: "sorted (lm_tries s @ [now])" using assms(1) s'(2) by (fastforce simp: history_ok_def sorted_append)
  obtain r w' where a: "attempt now (lm_window s) = (r, w')" by (metis prod.exhaust)
  show ?thesis using assms(1) l a s' by (cases r) (auto simp: history_ok_def worker_tries_def attempts_snoc)
next
  case WorkerTakes
  then show ?thesis using assms by (auto split: if_splits dest!: worker_takes_same intro: history_ok_same [OF assms(1)])
next
  case (FunctionEnds now out)
  then show ?thesis using assms
    by (auto simp: function_ends_def split: worker.splits if_splits outcome.splits intro!: history_ok_same [OF assms(1)])
qed (use assms in \<open>auto simp: client_enqueues_def Let_def split: if_splits client_phase.splits intro!: history_ok_same [OF assms(1)]\<close>)

lemma history_ok_new: "history_ok w (limiter_new w)"
  by (simp add: history_ok_def limiter_new_def)

lemma limiter_reaches_history: "limiter_reaches w s \<Longrightarrow> history_ok w s"
  by (induction rule: limiter_reaches.induct)
     (rule history_ok_new, rule history_ok_step)

text \<open>
  C0. However submissions, retries and cancellations interleave, at most \<open>rate_limit\<close> functions are started in any interval of
  the length of the window.
\<close>

theorem limiter_keeps_rate:
  assumes "window_new limit width = Inr w" "limiter_reaches w s"
  shows "window_count t width (map fst (lm_starts s)) \<le> nat limit"
proof -
  have h: "sorted (lm_tries s)" "fst (attempts (lm_tries s) w) = map fst (lm_starts s)"
    using limiter_reaches_history [OF assms(2)] by (simp_all add: history_ok_def)
  show ?thesis
    using wg.run_bounded [OF window_new_fresh [OF assms(1)] h(1), of t] window_new_keeps [OF assms(1)] h(2) by simp
qed

subsection \<open>After the worker stopped\<close>

definition frozen :: "('f, 'r) limiter \<Rightarrow> ('f, 'r) limiter \<Rightarrow> bool" where
  "frozen s s' \<longleftrightarrow> lm_worker s' = Stopped \<and> lm_starts s' = lm_starts s \<and> length (lm_futures s) \<le> length (lm_futures s') \<and>
     (\<forall>u < length (lm_futures s'). (u < length (lm_futures s) \<longrightarrow> lm_futures s ! u \<in> {Pending, FutureCancelled}) \<longrightarrow>
        lm_futures s' ! u \<in> {Pending, FutureCancelled})"

lemma frozen_refl: "lm_worker s = Stopped \<Longrightarrow> frozen s s"
  by (simp add: frozen_def)

lemma frozen_trans: "frozen s t \<Longrightarrow> frozen t u \<Longrightarrow> frozen s u"
  unfolding frozen_def by (metis le_trans less_le_trans)

lemma frozen_step:
  assumes "lm_worker s = Stopped" "limiter_step e s = Some s'"
  shows "frozen s s'"
  using assms
  by (cases e) (auto simp: frozen_def client_enqueues_def Let_def settle_one_nth nth_append split: if_splits client_phase.splits)

lemma frozen_run: "lm_worker s = Stopped \<Longrightarrow> limiter_run es s = Some s' \<Longrightarrow> frozen s s'"
proof (induction es arbitrary: s)
  case (Cons e es)
  then obtain t where t: "limiter_step e s = Some t" "limiter_run es t = Some s'" by (auto split: option.splits)
  have f: "frozen s t" by (rule frozen_step [OF Cons.prems(1) t(1)])
  then have "lm_worker t = Stopped" by (simp add: frozen_def)
  from frozen_trans [OF f Cons.IH [OF this t(2)]] show ?case .
qed (simp add: frozen_refl)

text \<open>
  C0. After its worker stopped, by a shutdown or because a function was cancelled from within, the limiter still accepts
  messages but none that was waiting and none that comes later is ever sent or given a result: whoever awaits one
  waits for ever, unless it is cancelled.
\<close>

theorem stopped_limiter_hangs:
  assumes "lm_worker s = Stopped" "limiter_run es s = Some s'" "u < length (lm_futures s')"
    "u < length (lm_futures s) \<longrightarrow> lm_futures s ! u = Pending"
  shows "lm_worker s' = Stopped \<and> lm_starts s' = lm_starts s \<and> lm_futures s' ! u \<in> {Pending, FutureCancelled}"
  using frozen_run [OF assms(1,2)] assms(3,4) by (auto simp: frozen_def)

definition demo_window :: window where
  "demo_window = \<lparr>wl_limit = 1, wl_window = 1, wl_times = []\<rparr>"

definition hang_steps :: "(string, string) task_step list" where
  "hang_steps = [NewClient ''a'' ''k'' False, ClientEnqueues 0 0, ShutsDown]"

definition hang_later :: "(string, string) task_step list" where
  "hang_later = [NewClient ''b'' ''m'' False, ClientEnqueues 1 5]"

definition hung :: "(string, string) limiter" where
  "hung = the (limiter_run hang_steps (limiter_new demo_window))"

definition hung_later :: "(string, string) limiter" where
  "hung_later = the (limiter_run hang_later hung)"

lemmas run_defs = limiter_new_def demo_window_def client_enqueues_def enqueue_internal_def enqueue_internal_multi_def
  lq_empty_def dict_set_def Let_def

theorem stopped_limiter_hangs_witness:
  "lm_worker hung_later = Stopped \<and> lm_starts hung_later = lm_starts hung \<and>
     lm_futures hung_later ! 1 \<in> {Pending, FutureCancelled}"
  by (rule stopped_limiter_hangs [where es = hang_later])
     (simp_all add: hung_later_def hung_def hang_later_def hang_steps_def run_defs)

subsection \<open>A retry brings back an old update\<close>

text \<open>
  Two edits of one message: the first fails for a moment, the second is sent while the first waits for its retry.
\<close>

definition connection_lost :: failure where
  "connection_lost = \<lparr>fl_text = ''Connection reset'', fl_seconds = None\<rparr>"

definition stale_steps :: "(string, string) task_step list" where
  "stale_steps =
     [NewClient ''old text'' ''edit:7'' True, ClientEnqueues 0 0, WorkerTakes, WorkerTries 0, FunctionEnds 0 (Raised connection_lost),
      ClientWakes 0 0,
      NewClient ''new text'' ''edit:7'' True, ClientEnqueues 1 0, WorkerTakes, WorkerTries 1, FunctionEnds 1 (Returned ''ok''),
      ClientWakes 1 1,
      ClientEnqueues 0 1, WorkerTakes, WorkerTries 2, FunctionEnds 2 (Returned ''ok'')]"

lemma stale_evaluated:
  "map_option (\<lambda>s. (lm_starts s, lm_futures s)) (limiter_run stale_steps (limiter_new demo_window)) =
     Some ([(0, ''old text''), (1, ''new text''), (2, ''old text'')],
           [Failed connection_lost, Resolved ''ok'', Resolved ''ok''])"
  by code_simp

text \<open>C10. 
  C0. The limiter does not keep its promise that only the latest version of a message is processed: there is a run in
  which an edit fails for a moment, a newer edit of the same message under the same key is sent, and the retry
  of the older edit is then sent over it and succeeds.
\<close>

theorem retry_overwrites_newer:
  "\<exists>s. limiter_reaches demo_window s \<and>
     lm_starts s = [(0, ''old text''), (1, ''new text''), (2, ''old text'')] \<and> lm_futures s ! 2 = Resolved ''ok'' \<and>
     map cl_key (lm_clients s) = [''edit:7'', ''edit:7'']"
proof -
  obtain s where s: "limiter_run stale_steps (limiter_new demo_window) = Some s"
      "lm_starts s = [(0, ''old text''), (1, ''new text''), (2, ''old text'')]"
      "lm_futures s = [Failed connection_lost, Resolved ''ok'', Resolved ''ok'']"
    using stale_evaluated by auto
  have "map_option (\<lambda>s. map cl_key (lm_clients s)) (limiter_run stale_steps (limiter_new demo_window)) = Some [''edit:7'', ''edit:7'']"
    by code_simp
  then have "map cl_key (lm_clients s) = [''edit:7'', ''edit:7'']" using s(1) by simp
  with s run_reaches [OF s(1) limiter_reaches.start] show ?thesis by auto
qed

subsection \<open>The worker alone settles everything\<close>

definition work_left :: "('f, 'r) limiter \<Rightarrow> nat" where
  "work_left s = length (lq_list (lm_queue s)) + (if lm_worker s = Idle then 0 else 1)"

definition alive :: "('f, 'r) limiter \<Rightarrow> bool" where
  "alive s \<longleftrightarrow> lm_worker s \<noteq> Stopped \<and> \<not> lm_shutdown s"

fun worker_step :: "('f, 'r) task_step \<Rightarrow> bool" where
  "worker_step WorkerTakes = True"
| "worker_step (WorkerTries _) = True"
| "worker_step (FunctionEnds _ _) = True"
| "worker_step _ = False"

fun outcomes :: "('f, 'r) task_step list \<Rightarrow> 'r outcome list" where
  "outcomes [] = []"
| "outcomes (FunctionEnds _ out # es) = out # outcomes es"
| "outcomes (e # es) = outcomes es"

lemma outcomes_append: "outcomes (es @ fs) = outcomes es @ outcomes fs"
  by (induction es rule: outcomes.induct) auto

lemma run_append: "limiter_run (es @ fs) s = Option.bind (limiter_run es s) (limiter_run fs)"
  by (induction es arbitrary: s) (auto split: option.splits)

lemma admitted_later:
  assumes "fresh_window w" "limiter_reaches w s"
  obtains t w' where "lm_now s \<le> t" "lm_paused_until s \<le> t" "attempt t (lm_window s) = (None, w')"
proof -
  have h: "sorted (lm_tries s)" "\<forall>t \<in> set (lm_tries s). t \<le> lm_now s" "attempts (lm_tries s) w = (map fst (lm_starts s), lm_window s)"
    using limiter_reaches_history [OF assms(2)] by (simp_all add: history_ok_def)
  obtain n where n: "sorted (n # lm_tries s)" using h(1) by (cases "lm_tries s") auto
  let ?m = "last (n # lm_tries s)"
  have k: "keeps (map fst (lm_starts s)) ?m (lm_window s)"
    using attempts_keep [OF fresh_keeps [OF assms(1)] n h(3)] by simp
  define t where "t = max (max (lm_now s) (lm_paused_until s)) ?m + wl_window (lm_window s)"
  have pos: "0 < wl_window (lm_window s)" by (rule keepsD(4) [OF k])
  have "g \<le> t - wl_window (lm_window s)" if "g \<in> set (map fst (lm_starts s))" for g
    using keepsD(2) [OF k that] by (simp add: t_def le_max_iff_disj)
  then have e: "filter (\<lambda>g. t - wl_window (lm_window s) < g) (map fst (lm_starts s)) = []"
    by (auto simp: filter_empty_conv not_less)
  have le: "?m \<le> t" using pos by (simp add: t_def le_max_iff_disj add_increasing2 max_def)
  have "fst (attempt t (lm_window s)) = None"
    unfolding attempt_exact [OF k le] e using keepsD(3) [OF k] by simp
  moreover have "lm_now s \<le> t" "lm_paused_until s \<le> t" using pos by (auto simp: t_def max_def)
  ultimately show thesis using that by (metis prod.collapse)
qed

lemma run_running:
  assumes "alive s" "lm_worker s = Running f us" "out \<noteq> RaisedCancelled"
  shows "\<exists>s'. limiter_run [FunctionEnds (lm_now s) out] s = Some s' \<and> alive s' \<and> Suc (work_left s') = work_left s"
  using assms by (cases out) (auto simp: function_ends_def alive_def work_left_def)

lemma run_taken:
  assumes "fresh_window w" "limiter_reaches w s" "alive s" "lm_worker s = Taken f us" "out \<noteq> RaisedCancelled"
  shows "\<exists>t t' s'. limiter_run [WorkerTries t, FunctionEnds t' out] s = Some s' \<and> alive s' \<and> Suc (work_left s') = work_left s"
proof -
  obtain t w' where t: "lm_now s \<le> t" "lm_paused_until s \<le> t" "attempt t (lm_window s) = (None, w')"
    using admitted_later [OF assms(1,2)] by blast
  let ?s = "worker_tries t f us s"
  have "limiter_step (WorkerTries t) s = Some ?s" "lm_worker ?s = Running f us" "alive ?s" "work_left ?s = work_left s"
    using assms t by (simp_all add: worker_tries_def alive_def work_left_def)
  with run_running [of ?s f us out] assms(5) show ?thesis by (intro exI [of _ t] exI [of _ "lm_now ?s"]) auto
qed

lemma run_idle:
  assumes "fresh_window w" "limiter_reaches w s" "alive s" "lm_worker s = Idle" "work_left s \<noteq> 0" "out \<noteq> RaisedCancelled"
  shows "\<exists>t t' s'. limiter_run [WorkerTakes, WorkerTries t, FunctionEnds t' out] s = Some s' \<and> alive s' \<and> Suc (work_left s') = work_left s"
proof -
  have "lq_list (lm_queue s) \<noteq> []" using assms(4,5) by (auto simp: work_left_def)
  then obtain k f us q' where q: "lq_list (lm_queue s) = k # lq_list q'" "take_task (lm_queue s) = (Inr (Some (k, f, us)), q')"
    using limiter_okD(1) [OF limiter_reaches_ok [OF assms(2)]] by (auto elim: take_cases)
  let ?s = "s\<lparr>lm_queue := q', lm_worker := Taken f us\<rparr>"
  have s: "limiter_step WorkerTakes s = Some ?s" using assms(3,4) q by (simp add: worker_takes_def alive_def)
  have "alive ?s" "work_left ?s = work_left s" using assms(3,4) q(1) by (simp_all add: alive_def work_left_def)
  then show ?thesis
    using run_taken [OF assms(1) limiter_reaches.step [OF assms(2) s], of f us out] assms(6) s by auto
qed

lemma one_round:
  assumes "fresh_window w" "limiter_reaches w s" "alive s" "work_left s \<noteq> 0" "out \<noteq> RaisedCancelled"
  shows "\<exists>es s'. limiter_run es s = Some s' \<and> list_all worker_step es \<and> outcomes es = [out] \<and> alive s' \<and> Suc (work_left s') = work_left s"
proof (cases "lm_worker s")
  case Idle
  from run_idle [OF assms(1-3) Idle assms(4,5)] obtain t t' s' where
    "limiter_run [WorkerTakes, WorkerTries t, FunctionEnds t' out] s = Some s'" "alive s'" "Suc (work_left s') = work_left s"
    by blast
  then show ?thesis by (intro exI [of _ "[WorkerTakes, WorkerTries t, FunctionEnds t' out]"]) simp
next
  case (Taken f us)
  from run_taken [OF assms(1-3) Taken assms(5)] obtain t t' s' where
    "limiter_run [WorkerTries t, FunctionEnds t' out] s = Some s'" "alive s'" "Suc (work_left s') = work_left s"
    by blast
  then show ?thesis by (intro exI [of _ "[WorkerTries t, FunctionEnds t' out]"]) simp
next
  case (Running f us)
  from run_running [OF assms(3) Running assms(5)] obtain s' where
    "limiter_run [FunctionEnds (lm_now s) out] s = Some s'" "alive s'" "Suc (work_left s') = work_left s"
    by blast
  then show ?thesis by (intro exI [of _ "[FunctionEnds (lm_now s) out]"]) simp
qed (use assms in \<open>simp add: alive_def\<close>)

text \<open>Any step of the worker but a cancelled function end uses up what it counts for.\<close>

lemma worker_step_counts:
  assumes "limiter_ok s" "alive s" "worker_step e" "limiter_step e s = Some s'" "RaisedCancelled \<notin> set (outcomes [e])"
  shows "alive s' \<and> work_left s' + length (outcomes [e]) = work_left s"
proof (cases e)
  case WorkerTakes
  then have i: "lm_worker s = Idle" "worker_takes s = Some s'" using assms(4) by (auto split: if_splits)
  have c: "queue_consistent (lm_queue s)" by (rule limiter_okD(1) [OF assms(1)])
  have "take_task (lm_queue s) = (Inr None, lm_queue s) \<or>
      (\<exists>k f us q'. lq_list (lm_queue s) = k # lq_list q' \<and> take_task (lm_queue s) = (Inr (Some (k, f, us)), q'))"
    using c by (auto elim: take_cases)
  then show ?thesis using i WorkerTakes assms(2)
    by (auto simp: worker_takes_def alive_def work_left_def)
next
  case (WorkerTries t)
  then show ?thesis using assms(2,4)
    by (auto simp: worker_tries_def alive_def work_left_def split: worker.splits if_splits option.splits prod.splits)
next
  case (FunctionEnds t out)
  then show ?thesis using assms(2,4,5)
    by (cases out) (auto simp: function_ends_def alive_def work_left_def split: worker.splits if_splits)
qed (use assms(3) in simp_all)

lemma worker_run_counts:
  assumes "limiter_reaches w s" "alive s" "list_all worker_step es" "limiter_run es s = Some s'"
    and "RaisedCancelled \<notin> set (outcomes es)"
  shows "alive s' \<and> work_left s' + length (outcomes es) = work_left s"
  using assms
proof (induction es arbitrary: s)
  case Nil
  then show ?case by simp
next
  case (Cons e es)
  obtain t where t: "limiter_step e s = Some t" "limiter_run es t = Some s'"
    using Cons.prems(4) by (auto split: option.splits)
  have o: "outcomes (e # es) = outcomes [e] @ outcomes es" using outcomes_append [of "[e]" es] by simp
  have "alive t \<and> work_left t + length (outcomes [e]) = work_left s"
    using worker_step_counts [OF limiter_reaches_ok [OF Cons.prems(1)] Cons.prems(2) _ t(1)] Cons.prems(3,5) o by simp
  then show ?case
    using Cons.IH [OF limiter_reaches.step [OF Cons.prems(1) t(1)] _ _ t(2)] Cons.prems(3,5) o by simp
qed

lemma no_work_settled:
  assumes "limiter_reaches w s" "alive s" "work_left s = 0"
  shows "\<forall>u < length (lm_futures s). lm_futures s ! u \<noteq> Pending"
proof -
  have ok: "limiter_ok s" by (rule limiter_reaches_ok [OF assms(1)])
  have i: "lm_worker s = Idle" "lq_list (lm_queue s) = []" using assms(3) by (auto simp: work_left_def split: if_splits)
  then have "dict_keys (lq_map (lm_queue s)) = []" using limiter_okD(1) [OF ok] by (simp add: queue_consistent_def)
  then have "waiting s = []" using i by (simp add: waiting_def queued_futures_def dict_keys_def)
  then show ?thesis using limiter_okD(4) [OF ok] i by auto
qed

lemma worker_can_finish:
  assumes "fresh_window w" "limiter_reaches w s" "alive s" "length outs = work_left s" "RaisedCancelled \<notin> set outs"
  shows "\<exists>es s'. limiter_run es s = Some s' \<and> list_all worker_step es \<and> outcomes es = outs \<and> alive s' \<and> work_left s' = 0"
  using assms(2-)
proof (induction outs arbitrary: s)
  case Nil
  then show ?case by (intro exI [of _ "[]"]) simp
next
  case (Cons out outs)
  then obtain es t where r: "limiter_run es s = Some t" "list_all worker_step es" "outcomes es = [out]" "alive t"
      "Suc (work_left t) = work_left s"
    using one_round [OF assms(1) Cons.prems(1,2), of out] by auto
  have "limiter_reaches w t" by (rule run_reaches [OF r(1) Cons.prems(1)])
  from Cons.IH [OF this r(4)] Cons.prems(3,4) r(5) obtain es' s' where
    "limiter_run es' t = Some s'" "list_all worker_step es'" "outcomes es' = outs" "alive s'" "work_left s' = 0"
    by auto
  with r show ?case by (intro exI [of _ "es @ es'"]) (simp add: run_append outcomes_append)
qed

text \<open>C24. While it is not shut down and no function ends with a cancellation (which stops the worker), the worker alone
  settles everything. Take any reachable state with \<open>n\<close> keys to serve, and any steps of the worker alone in which \<open>k\<close> functions
  have returned or raised: then \<open>k \<le> n\<close>; when \<open>k = n\<close> no future is pending; and whatever results or errors the
  remaining \<open>n - k\<close> functions end with, the worker has steps that end them so, after which no future is pending.\<close>

theorem worker_settles_all:
  assumes "fresh_window w" "limiter_reaches w s" "lm_worker s \<noteq> Stopped" "\<not> lm_shutdown s"
    and "limiter_run es s = Some t" "list_all worker_step es" "RaisedCancelled \<notin> set (outcomes es)"
  shows "length (outcomes es) \<le> work_left s \<and>
    (length (outcomes es) = work_left s \<longrightarrow> (\<forall>u < length (lm_futures t). lm_futures t ! u \<noteq> Pending)) \<and>
    (\<forall>outs. length (outcomes es) + length outs = work_left s \<and> RaisedCancelled \<notin> set outs \<longrightarrow>
      (\<exists>es' s'. limiter_run (es @ es') s = Some s' \<and> list_all worker_step es' \<and> outcomes es' = outs \<and>
        (\<forall>u < length (lm_futures s'). lm_futures s' ! u \<noteq> Pending)))"
proof -
  have "alive s" using assms(3,4) by (simp add: alive_def)
  from worker_run_counts [OF assms(2) this assms(6,5,7)]
  have t: "alive t" "work_left t + length (outcomes es) = work_left s" by simp_all
  have r: "limiter_reaches w t" by (rule run_reaches [OF assms(5,2)])
  have "\<exists>es' s'. limiter_run (es @ es') s = Some s' \<and> list_all worker_step es' \<and> outcomes es' = outs \<and>
      (\<forall>u < length (lm_futures s'). lm_futures s' ! u \<noteq> Pending)"
    if outs: "length (outcomes es) + length outs = work_left s" "RaisedCancelled \<notin> set outs" for outs
  proof -
    obtain es' s' where f: "limiter_run es' t = Some s'" "list_all worker_step es'" "outcomes es' = outs" "alive s'" "work_left s' = 0"
      using worker_can_finish [OF assms(1) r t(1), of outs] outs t(2) by auto
    from no_work_settled [OF run_reaches [OF f(1) r] f(4,5)] f(1-3) assms(5) show ?thesis
      by (intro exI [of _ es'] exI [of _ s']) (simp add: run_append)
  qed
  moreover have "\<forall>u < length (lm_futures t). lm_futures t ! u \<noteq> Pending" if "length (outcomes es) = work_left s"
    by (rule no_work_settled [OF r t(1)]) (use that t(2) in simp)
  ultimately show ?thesis using t(2) by simp
qed

definition one_waits :: "(string, string) limiter" where
  "one_waits = the (limiter_run [NewClient ''a'' ''k'' False, ClientEnqueues 0 0] (limiter_new demo_window))"

lemma one_waits_reached: "limiter_reaches demo_window one_waits"
  by (rule run_reaches [where es = "[NewClient ''a'' ''k'' False, ClientEnqueues 0 0]", OF _ limiter_reaches.start])
     (simp add: one_waits_def run_defs)

theorem worker_settles_all_witness:
  "work_left one_waits = 1 \<and> (\<exists>es' s'. limiter_run ([WorkerTakes, WorkerTries 0] @ es') one_waits = Some s' \<and>
     list_all worker_step es' \<and> outcomes es' = [Returned ''ok''] \<and>
     (\<forall>u < length (lm_futures s'). lm_futures s' ! u \<noteq> Pending))"
proof -
  have "limiter_run [WorkerTakes, WorkerTries 0] one_waits \<noteq> None" by code_simp
  then obtain t where t: "limiter_run [WorkerTakes, WorkerTries 0] one_waits = Some t" by blast
  have n: "work_left one_waits = 1" by (simp add: one_waits_def run_defs work_left_def)
  have "lm_worker one_waits \<noteq> Stopped" "\<not> lm_shutdown one_waits" by (simp_all add: one_waits_def run_defs)
  from worker_settles_all [OF _ one_waits_reached this t] n show ?thesis
    by (simp add: fresh_window_def demo_window_def)
qed

theorem limiter_loses_no_future_witness:
  "count (mset (queued_futures (lm_queue one_waits) @ held_futures (lm_worker one_waits))) 0 = 1 \<and>
    distinct (lq_list (lm_queue one_waits)) \<and> set (lq_list (lm_queue one_waits)) = set (dict_keys (lq_map (lm_queue one_waits)))"
  by (rule limiter_loses_no_future [OF one_waits_reached]) (simp_all add: one_waits_def run_defs)

end
