(* ===== verification/SessionStore.thy ===== *)
theory SessionStore
  imports OpenAiConvert
begin

section \<open>The session store (\<open>messaging/session.py\<close>)\<close>

text \<open>
  Trees, the map from nodes to trees and the log of message ids, with the operations under the lock, and the saving around
  them: a debounced timer, writes outside the lock, and the file.  \<open>str\<close> of a JSON value is \<open>te_repr\<close> of the
  environment; a file whose \<open>trees\<close> or \<open>node_to_tree\<close> is not an object, which the program never writes, is left out.
\<close>

record log_record =
  lr_message_id :: string
  lr_ts :: string
  lr_direction :: string
  lr_kind :: string

record session_store =
  ss_trees :: jdict
  ss_node_to_tree :: jdict
  ss_message_log :: "(string, log_record list) pydict"
  ss_message_log_ids :: "(string, string set) pydict"
  ss_dirty :: bool
  ss_timer :: bool
  ss_cap :: "int option"

definition store_init :: "int option \<Rightarrow> session_store" where
  "store_init cap = \<lparr>ss_trees = [], ss_node_to_tree = [], ss_message_log = [], ss_message_log_ids = [],
     ss_dirty = False, ss_timer = False, ss_cap = cap\<rparr>"

definition make_chat_key :: "string \<Rightarrow> string \<Rightarrow> string" where
  "make_chat_key platform chat_id = platform @ '':'' @ chat_id"

subsection \<open>Loading and the snapshot\<close>

definition record_json :: "log_record \<Rightarrow> json" where
  "record_json r = JObj [(''message_id'', JStr (lr_message_id r)), (''ts'', JStr (lr_ts r)),
     (''direction'', JStr (lr_direction r)), (''kind'', JStr (lr_kind r))]"

definition snapshot :: "session_store \<Rightarrow> json" where
  "snapshot s = JObj
     [(''trees'', JObj (ss_trees s)), (''node_to_tree'', JObj (ss_node_to_tree s)),
      (''message_log'', JObj (map (\<lambda>(k, rs). (k, JList (map record_json rs))) (ss_message_log s)))]"

text \<open>\<open>str(it.get(k) or "")\<close>\<close>

definition text_field :: "text_env \<Rightarrow> string \<Rightarrow> jdict \<Rightarrow> string" where
  "text_field env k it =
     (case dict_get k it of
        Some v \<Rightarrow> if json_truthy v then (case v of JStr s \<Rightarrow> s | _ \<Rightarrow> te_repr env v) else []
      | None \<Rightarrow> [])"

text \<open>The records of one chat: not an object, no id and an id seen before are skipped.\<close>

fun clean_items :: "text_env \<Rightarrow> string set \<Rightarrow> json list \<Rightarrow> log_record list \<times> string set" where
  "clean_items env seen [] = ([], seen)"
| "clean_items env seen (JObj it # items) =
     (case dict_get ''message_id'' it of
        Some v \<Rightarrow>
          (if v = JNull then clean_items env seen items
           else
             let mid = (case v of JStr s \<Rightarrow> s | _ \<Rightarrow> te_repr env v) in
             if mid \<in> seen then clean_items env seen items
             else
               let rest = clean_items env (insert mid seen) items in
               (\<lparr>lr_message_id = mid, lr_ts = text_field env ''ts'' it, lr_direction = text_field env ''direction'' it,
                 lr_kind = text_field env ''kind'' it\<rparr> # fst rest, snd rest))
      | None \<Rightarrow> clean_items env seen items)"
| "clean_items env seen (_ # items) = clean_items env seen items"

fun load_log ::
  "text_env \<Rightarrow> jdict \<Rightarrow> (string, log_record list) pydict \<times> (string, string set) pydict \<Rightarrow>
   (string, log_record list) pydict \<times> (string, string set) pydict" where
  "load_log env [] acc = acc"
| "load_log env ((chat_key, JList items) # raw) (log, ids) =
     (let got = clean_items env {} items in
      load_log env raw (dict_set chat_key (fst got) log, dict_set chat_key (snd got) ids))"
| "load_log env (_ # raw) acc = load_log env raw acc"

text \<open>The optional message log of the file.\<close>

definition with_log :: "text_env \<Rightarrow> jdict \<Rightarrow> session_store \<Rightarrow> session_store" where
  "with_log env data s =
     (case dict_get ''message_log'' data of
        Some (JObj raw) \<Rightarrow>
          s\<lparr>ss_message_log := fst (load_log env raw ([], [])), ss_message_log_ids := snd (load_log env raw ([], []))\<rparr>
      | _ \<Rightarrow> s)"

text \<open>
  \<open>_load\<close> on the contents of the file: \<open>None\<close> is a missing file or one that is not JSON.
\<close>

definition load_store :: "text_env \<Rightarrow> int option \<Rightarrow> json option \<Rightarrow> session_store option" where
  "load_store env cap file =
     (case file of
        Some (JObj data) \<Rightarrow>
          (case (case dict_get ''trees'' data of None \<Rightarrow> JObj [] | Some v \<Rightarrow> v,
                 case dict_get ''node_to_tree'' data of None \<Rightarrow> JObj [] | Some v \<Rightarrow> v) of
             (JObj trees, JObj nodes) \<Rightarrow>
               Some (with_log env data ((store_init cap)\<lparr>ss_trees := trees, ss_node_to_tree := nodes\<rparr>))
           | _ \<Rightarrow> None)
      | _ \<Rightarrow> Some (store_init cap))"

subsection \<open>Operations under the lock\<close>

definition schedule_save :: "session_store \<Rightarrow> session_store" where
  "schedule_save s = s\<lparr>ss_dirty := True, ss_timer := True\<rparr>"

definition get_or_nil :: "string \<Rightarrow> (string, 'a list) pydict \<Rightarrow> 'a list" where
  "get_or_nil k d = (case dict_get k d of Some v \<Rightarrow> v | None \<Rightarrow> [])"

definition ids_of :: "string \<Rightarrow> (string, string set) pydict \<Rightarrow> string set" where
  "ids_of k d = (case dict_get k d of Some v \<Rightarrow> v | None \<Rightarrow> {})"

text \<open>\<open>items[-cap:]\<close>\<close>

definition last_items :: "nat \<Rightarrow> 'a list \<Rightarrow> 'a list" where
  "last_items n xs = drop (length xs - n) xs"

definition apply_cap :: "string \<Rightarrow> session_store \<Rightarrow> session_store" where
  "apply_cap chat_key s =
     (case ss_cap s of
        Some cap \<Rightarrow>
          (let items = get_or_nil chat_key (ss_message_log s) in
           if cap > 0 \<and> int (length items) > cap then
             s\<lparr>ss_message_log := dict_set chat_key (last_items (nat cap) items) (ss_message_log s),
               ss_message_log_ids := dict_set chat_key (lr_message_id ` set (last_items (nat cap) items)) (ss_message_log_ids s)\<rparr>
           else s)
      | None \<Rightarrow> s)"

definition record_message_id ::
  "string \<Rightarrow> string \<Rightarrow> string \<Rightarrow> string option \<Rightarrow> string \<Rightarrow> string \<Rightarrow> session_store \<Rightarrow> session_store" where
  "record_message_id now platform chat_id message_id direction kind s =
     (case message_id of
        None \<Rightarrow> s
      | Some mid \<Rightarrow>
          let k = make_chat_key platform chat_id;
              seen = ids_of k (ss_message_log_ids s);
              s = s\<lparr>ss_message_log_ids := dict_set k seen (ss_message_log_ids s)\<rparr>
          in if mid \<in> seen then s
             else
               let rec = \<lparr>lr_message_id = mid, lr_ts = now, lr_direction = direction, lr_kind = kind\<rparr>;
                   s = s\<lparr>ss_message_log := dict_set k (get_or_nil k (ss_message_log s) @ [rec]) (ss_message_log s),
                         ss_message_log_ids := dict_set k (insert mid seen) (ss_message_log_ids s)\<rparr>
               in schedule_save (apply_cap k s))"

definition get_message_ids_for_chat :: "string \<Rightarrow> string \<Rightarrow> session_store \<Rightarrow> string list" where
  "get_message_ids_for_chat platform chat_id s =
     map lr_message_id (get_or_nil (make_chat_key platform chat_id) (ss_message_log s))"

text \<open>The keys of \<open>tree_data.get("nodes", {})\<close>\<close>

definition node_ids_of :: "json \<Rightarrow> string list" where
  "node_ids_of tree_data = (case json_get ''nodes'' tree_data of Some (JObj d) \<Rightarrow> dict_keys d | _ \<Rightarrow> [])"

definition save_tree :: "string \<Rightarrow> json \<Rightarrow> session_store \<Rightarrow> session_store" where
  "save_tree root_id tree_data s =
     schedule_save (s\<lparr>ss_trees := dict_set root_id tree_data (ss_trees s),
       ss_node_to_tree := fold (\<lambda>n d. dict_set n (JStr root_id) d) (node_ids_of tree_data) (ss_node_to_tree s)\<rparr>)"

definition store_get_tree :: "string \<Rightarrow> session_store \<Rightarrow> json option" where
  "store_get_tree root_id s = dict_get root_id (ss_trees s)"

definition register_node :: "string \<Rightarrow> string \<Rightarrow> session_store \<Rightarrow> session_store" where
  "register_node node_id root_id s =
     schedule_save (s\<lparr>ss_node_to_tree := dict_set node_id (JStr root_id) (ss_node_to_tree s)\<rparr>)"

definition remove_node_mappings :: "string list \<Rightarrow> session_store \<Rightarrow> session_store" where
  "remove_node_mappings ids s = schedule_save (s\<lparr>ss_node_to_tree := fold dict_del ids (ss_node_to_tree s)\<rparr>)"

definition store_remove_tree :: "string \<Rightarrow> session_store \<Rightarrow> session_store" where
  "store_remove_tree root_id s =
     (let data = dict_get root_id (ss_trees s); s = s\<lparr>ss_trees := dict_del root_id (ss_trees s)\<rparr> in
      case data of
        Some d \<Rightarrow>
          if json_truthy d
          then schedule_save (s\<lparr>ss_node_to_tree := fold dict_del (node_ids_of d) (ss_node_to_tree s)\<rparr>)
          else s
      | None \<Rightarrow> s)"

definition get_all_trees :: "session_store \<Rightarrow> jdict" where "get_all_trees s = ss_trees s"

definition get_node_mapping :: "session_store \<Rightarrow> jdict" where "get_node_mapping s = ss_node_to_tree s"

definition sync_from_tree_data :: "jdict \<Rightarrow> jdict \<Rightarrow> session_store \<Rightarrow> session_store" where
  "sync_from_tree_data trees nodes s = schedule_save (s\<lparr>ss_trees := trees, ss_node_to_tree := nodes\<rparr>)"

text \<open>\<open>_flush_save\<close> and the part of \<open>clear_all\<close> under the lock: the new state and the snapshot to write.\<close>

definition flush_save :: "session_store \<Rightarrow> session_store \<times> json" where
  "flush_save s = (s\<lparr>ss_timer := False, ss_dirty := False\<rparr>, snapshot s)"

definition clear_all_locked :: "session_store \<Rightarrow> session_store \<times> json" where
  "clear_all_locked s =
     flush_save (s\<lparr>ss_trees := [], ss_node_to_tree := [], ss_message_log := [], ss_message_log_ids := []\<rparr>)"

text \<open>\<open>_save_from_timer\<close> under the lock: nothing to write when the store is clean.\<close>

definition save_from_timer_locked :: "session_store \<Rightarrow> session_store \<times> json option" where
  "save_from_timer_locked s =
     (if \<not> ss_dirty s then (s\<lparr>ss_timer := False\<rparr>, None)
      else (s\<lparr>ss_timer := False, ss_dirty := False\<rparr>, Some (snapshot s)))"

subsection \<open>Threads and the file\<close>

text \<open>
  The operations of the front end are methods run under the lock; a timer callback or a flush takes its snapshot under the
  lock and writes it later (a callback may still run after its timer was cancelled).  \<open>sy_writers\<close> are the snapshots on their way.  A write replaces the file atomically, or
  fails and marks the store as dirty.
\<close>

datatype store_op =
    RecordId string string string "string option" string string
  | SaveTree string json
  | RegisterNode string string
  | RemoveMappings "string list"
  | RemoveTree string
  | SyncTrees jdict jdict

fun apply_store_op :: "store_op \<Rightarrow> session_store \<Rightarrow> session_store" where
  "apply_store_op (RecordId now p c mid d k) s = record_message_id now p c mid d k s"
| "apply_store_op (SaveTree r d) s = save_tree r d s"
| "apply_store_op (RegisterNode n r) s = register_node n r s"
| "apply_store_op (RemoveMappings ids) s = remove_node_mappings ids s"
| "apply_store_op (RemoveTree r) s = store_remove_tree r s"
| "apply_store_op (SyncTrees ts ns) s = sync_from_tree_data ts ns s"

record store_system =
  sy_store :: session_store
  sy_writers :: "json list"
  sy_file :: "json option"

datatype store_step = Operate store_op | TimerFires | Flushes | ClearsAll | WriteEnds nat bool

definition start_write :: "json \<Rightarrow> store_system \<Rightarrow> store_system" where
  "start_write d y = y\<lparr>sy_writers := sy_writers y @ [d]\<rparr>"

fun sys_step :: "store_step \<Rightarrow> store_system \<Rightarrow> store_system option" where
  "sys_step (Operate op) y = Some (y\<lparr>sy_store := apply_store_op op (sy_store y)\<rparr>)"
| "sys_step TimerFires y =
     (case save_from_timer_locked (sy_store y) of
        (s, None) \<Rightarrow> Some (y\<lparr>sy_store := s\<rparr>)
      | (s, Some d) \<Rightarrow> Some (start_write d (y\<lparr>sy_store := s\<rparr>)))"
| "sys_step Flushes y =
     (case flush_save (sy_store y) of (s, d) \<Rightarrow> Some (start_write d (y\<lparr>sy_store := s\<rparr>)))"
| "sys_step ClearsAll y =
     (case clear_all_locked (sy_store y) of (s, d) \<Rightarrow> Some (start_write d (y\<lparr>sy_store := s\<rparr>)))"
| "sys_step (WriteEnds i ok) y =
     (if i < length (sy_writers y) then
        let d = sy_writers y ! i; y = y\<lparr>sy_writers := take i (sy_writers y) @ drop (Suc i) (sy_writers y)\<rparr> in
        Some (if ok then y\<lparr>sy_file := Some d\<rparr> else y\<lparr>sy_store := (sy_store y)\<lparr>ss_dirty := True\<rparr>\<rparr>)
      else None)"

fun store_run :: "store_step list \<Rightarrow> store_system \<Rightarrow> store_system option" where
  "store_run [] y = Some y"
| "store_run (e # es) y = (case sys_step e y of None \<Rightarrow> None | Some y' \<Rightarrow> store_run es y')"

end
