(* ===== verification/SessionStoreSound.thy ===== *)
theory SessionStoreSound
  imports SessionStore
begin

section \<open>What the session store keeps, and what it can lose\<close>

text \<open>
  The file read back gives the store; the log of a chat has no duplicates and respects its cap; saving is complete when
  writes do not overlap, and an overlapping write can bring back what was cleared.
\<close>

subsection \<open>Well-formed stores\<close>

definition log_ids :: "log_record list \<Rightarrow> string list" where
  "log_ids rs = map lr_message_id rs"

definition store_wf :: "session_store \<Rightarrow> bool" where
  "store_wf s \<longleftrightarrow> dict_ok (ss_message_log s) \<and>
     (\<forall>k. distinct (log_ids (get_or_nil k (ss_message_log s))) \<and>
          ids_of k (ss_message_log_ids s) = set (log_ids (get_or_nil k (ss_message_log s))))"

lemma set_log_ids [simp]: "set (log_ids rs) = lr_message_id ` set rs"
  by (simp add: log_ids_def)

lemma store_wfD:
  assumes "store_wf s"
  shows "dict_ok (ss_message_log s)" "distinct (log_ids (get_or_nil k (ss_message_log s)))"
    "ids_of k (ss_message_log_ids s) = set (log_ids (get_or_nil k (ss_message_log s)))"
  using assms by (simp_all add: store_wf_def)

lemma store_wf_init: "store_wf (store_init cap)"
  by (simp add: store_wf_def store_init_def get_or_nil_def ids_of_def log_ids_def)

lemma store_wf_same:
  "store_wf s \<Longrightarrow> ss_message_log s' = ss_message_log s \<Longrightarrow> ss_message_log_ids s' = ss_message_log_ids s \<Longrightarrow> store_wf s'"
  by (simp add: store_wf_def)

lemma get_or_nil_set: "get_or_nil k (dict_set j v d) = (if k = j then v else get_or_nil k d)"
  by (simp add: get_or_nil_def)

lemma ids_of_set: "ids_of k (dict_set j v d) = (if k = j then v else ids_of k d)"
  by (simp add: ids_of_def)

lemma set_last_items: "set (last_items n xs) \<subseteq> set xs"
  by (simp add: last_items_def set_drop_subset)

lemma distinct_last_items: "distinct (log_ids xs) \<Longrightarrow> distinct (log_ids (last_items n xs))"
  by (simp add: last_items_def log_ids_def drop_map [symmetric])

lemma store_wf_cap:
  assumes "store_wf s"
  shows "store_wf (apply_cap k s)"
  using assms
  by (auto simp: apply_cap_def Let_def store_wf_def get_or_nil_set ids_of_set distinct_last_items split: option.split)

lemma store_wf_record:
  assumes "store_wf s"
  shows "store_wf (record_message_id now p c mid d k s)"
proof (cases mid)
  case None
  with assms show ?thesis by (simp add: record_message_id_def)
next
  case (Some m)
  let ?k = "make_chat_key p c"
  let ?seen = "ids_of ?k (ss_message_log_ids s)"
  let ?r = "\<lparr>lr_message_id = m, lr_ts = now, lr_direction = d, lr_kind = k\<rparr>"
  let ?log = "dict_set ?k (get_or_nil ?k (ss_message_log s) @ [?r]) (ss_message_log s)"
  let ?ids = "dict_set ?k (insert m ?seen) (dict_set ?k ?seen (ss_message_log_ids s))"
  show ?thesis
  proof (cases "m \<in> ?seen")
    case True
    with Some assms show ?thesis by (simp add: record_message_id_def Let_def store_wf_def ids_of_set)
  next
    case False
    have "store_wf (s\<lparr>ss_message_log := ?log, ss_message_log_ids := ?ids\<rparr>)"
      using store_wfD [OF assms] False
      by (auto simp: store_wf_def get_or_nil_set ids_of_set log_ids_def)
    from store_wf_cap [OF this, of ?k] show ?thesis
      using Some False by (simp add: record_message_id_def Let_def schedule_save_def store_wf_def)
  qed
qed

lemma store_wf_op: "store_wf s \<Longrightarrow> store_wf (apply_store_op op s)"
  by (cases op)
     (simp_all add: store_wf_record store_wf_same save_tree_def register_node_def remove_node_mappings_def store_remove_tree_def
       sync_from_tree_data_def schedule_save_def Let_def split: option.split)

subsection \<open>Reading the file back\<close>

lemma text_field_record [simp]:
  "text_field env ''ts'' [(''message_id'', m), (''ts'', JStr t), (''direction'', JStr d), (''kind'', JStr k)] = t"
  "text_field env ''direction'' [(''message_id'', m), (''ts'', JStr t), (''direction'', JStr d), (''kind'', JStr k)] = d"
  "text_field env ''kind'' [(''message_id'', m), (''ts'', JStr t), (''direction'', JStr d), (''kind'', JStr k)] = k"
  by (simp_all add: text_field_def json_truthy_def)

lemma clean_items_records:
  "distinct (log_ids rs) \<Longrightarrow> seen \<inter> set (log_ids rs) = {} \<Longrightarrow>
     clean_items env seen (map record_json rs) = (rs, seen \<union> set (log_ids rs))"
  by (induction rs arbitrary: seen) (auto simp: record_json_def Let_def log_ids_def)

lemma clean_items_distinct:
  "distinct (log_ids (fst (clean_items env seen items))) \<and> seen \<inter> set (log_ids (fst (clean_items env seen items))) = {} \<and>
     snd (clean_items env seen items) = seen \<union> set (log_ids (fst (clean_items env seen items)))"
proof (induction env seen items rule: clean_items.induct)
  case (2 env seen it items)
  then show ?case by (auto simp: Let_def log_ids_def split: option.splits if_splits)
qed (simp_all add: log_ids_def)

definition logs_agree :: "(string, log_record list) pydict \<times> (string, string set) pydict \<Rightarrow> bool" where
  "logs_agree acc \<longleftrightarrow> dict_ok (fst acc) \<and>
     (\<forall>k. distinct (log_ids (get_or_nil k (fst acc))) \<and> ids_of k (snd acc) = set (log_ids (get_or_nil k (fst acc))))"

lemma load_log_agree: "logs_agree acc \<Longrightarrow> logs_agree (load_log env raw acc)"
proof (induction env raw acc rule: load_log.induct)
  case (2 env chat_key items raw log ids)
  have "logs_agree (dict_set chat_key (fst (clean_items env {} items)) log, dict_set chat_key (snd (clean_items env {} items)) ids)"
    using 2(2) clean_items_distinct [of env "{}" items] by (auto simp: logs_agree_def get_or_nil_set ids_of_set)
  with 2(1) show ?case by (simp add: Let_def)
qed (simp_all)

lemma with_log_wf:
  assumes "store_wf s"
  shows "store_wf (with_log env data s)"
proof -
  have "logs_agree ([], [])" by (simp add: logs_agree_def get_or_nil_def ids_of_def log_ids_def)
  then have "logs_agree (load_log env raw ([], []))" for raw by (rule load_log_agree)
  then have "store_wf (s\<lparr>ss_message_log := fst (load_log env raw ([], [])), ss_message_log_ids := snd (load_log env raw ([], []))\<rparr>)" for raw
    by (simp add: logs_agree_def store_wf_def)
  with assms show ?thesis by (simp add: with_log_def split: option.split json.split)
qed

lemma with_log_fields: "ss_cap (with_log env data s) = ss_cap s" "ss_dirty (with_log env data s) = ss_dirty s"
  by (simp_all add: with_log_def split: option.split json.split)

lemma load_store_fresh:
  assumes "load_store env cap f = Some s"
  shows "store_wf s \<and> ss_cap s = cap \<and> \<not> ss_dirty s"
proof -
  let ?P = "\<lambda>s. store_wf s \<and> ss_cap s = cap \<and> \<not> ss_dirty s"
  have init: "?P (store_init cap)" using store_wf_init [of cap] by (simp add: store_init_def)
  have ok: "?P (with_log env data ((store_init cap)\<lparr>ss_trees := trees, ss_node_to_tree := nodes\<rparr>))" for data trees nodes
    using init by (simp add: with_log_wf with_log_fields store_wf_same [OF store_wf_init])
  have two: "?P s"
    if "(case (t, n) of (JObj trees, JObj nodes) \<Rightarrow>
           Some (with_log env data ((store_init cap)\<lparr>ss_trees := trees, ss_node_to_tree := nodes\<rparr>)) | _ \<Rightarrow> None) = Some s" for t n data
    using that ok by (cases t; cases n) auto
  show ?thesis
  proof (cases f)
    case (Some v)
    then show ?thesis using assms two init by (cases v) (auto simp: load_store_def)
  qed (use assms init in \<open>auto simp: load_store_def\<close>)
qed

lemma load_log_snapshot:
  assumes "\<forall>(k, rs) \<in> set log. distinct (log_ids rs)" "distinct (dict_keys (done_log @ log))"
    "dict_keys ids = dict_keys done_log"
  shows "load_log env (map (\<lambda>(k, rs). (k, JList (map record_json rs))) log) (done_log, ids) =
     (done_log @ log, ids @ map (\<lambda>(k, rs). (k, set (log_ids rs))) log)"
  using assms
proof (induction log arbitrary: done_log ids)
  case (Cons e log)
  obtain k rs where e: "e = (k, rs)" by (cases e)
  have k: "k \<notin> set (dict_keys done_log)" "k \<notin> set (dict_keys ids)" using Cons.prems(2,3) by (auto simp: e dict_keys_def)
  have c: "clean_items env {} (map record_json rs) = (rs, set (log_ids rs))"
    using clean_items_records [of rs "{}" env] Cons.prems(1) by (simp add: e)
  show ?case
    using Cons.IH [of "done_log @ [(k, rs)]" "ids @ [(k, set (log_ids rs))]"] Cons.prems k
    by (simp add: e c dict_set_last Let_def dict_keys_def)
qed simp

lemma session_store_roundtrip_aux:
  assumes "store_wf s"
  shows "\<exists>s'. load_store env (ss_cap s) (Some (snapshot s)) = Some s' \<and> ss_trees s' = ss_trees s \<and>
    ss_node_to_tree s' = ss_node_to_tree s \<and> ss_message_log s' = ss_message_log s \<and>
    (\<forall>k. ids_of k (ss_message_log_ids s') = ids_of k (ss_message_log_ids s)) \<and> \<not> ss_dirty s'"
proof -
  let ?raw = "map (\<lambda>(k, rs). (k, JList (map record_json rs))) (ss_message_log s)"
  have d: "distinct (dict_keys (ss_message_log s))" using store_wfD(1) [OF assms] by (simp add: dict_ok_def)
  have r: "distinct (log_ids rs)" if "(k, rs) \<in> set (ss_message_log s)" for k rs
  proof -
    have "dict_get k (ss_message_log s) = Some rs" using that store_wfD(1) [OF assms] by (rule dict_mem_get [rotated])
    then show ?thesis using store_wfD(2) [OF assms, of k] by (simp add: get_or_nil_def)
  qed
  have l: "load_log env ?raw ([], []) = (ss_message_log s, map (\<lambda>(k, rs). (k, set (log_ids rs))) (ss_message_log s))"
    using load_log_snapshot [of "ss_message_log s" "[]" "[]" env] r d by auto
  have g: "dict_get k (map (\<lambda>(k, rs). (k, f rs)) log) = map_option f (dict_get k log)"
    for k and f :: "log_record list \<Rightarrow> string set" and log :: "(string, log_record list) pydict"
    by (induction log) auto
  have i: "ids_of k (map (\<lambda>(k, rs). (k, set (log_ids rs))) log) = set (log_ids (get_or_nil k log))" for k and log :: "(string, log_record list) pydict"
    by (simp add: ids_of_def get_or_nil_def g log_ids_def split: option.split)
  show ?thesis
    using l i store_wfD(3) [OF assms] by (simp add: load_store_def with_log_def snapshot_def Let_def store_init_def)
qed

text \<open>
  C0. Reading back the file the store writes gives the same trees, node mapping and message log, in the same order, and
  the index of known ids rebuilt, for every well-formed store.
\<close>

theorem session_store_roundtrip:
  assumes "store_wf s"
  shows "\<exists>s'. load_store env (ss_cap s) (Some (snapshot s)) = Some s' \<and> ss_trees s' = ss_trees s \<and>
    ss_node_to_tree s' = ss_node_to_tree s \<and> ss_message_log s' = ss_message_log s \<and>
    (\<forall>k. ids_of k (ss_message_log_ids s') = ids_of k (ss_message_log_ids s)) \<and> \<not> ss_dirty s'"
  by (rule session_store_roundtrip_aux [OF assms])

definition demo_log :: session_store where
  "demo_log = record_message_id ''t'' ''telegram'' ''5'' (Some ''10'') ''in'' ''user''
     (record_message_id ''t'' ''telegram'' ''5'' (Some ''9'') ''out'' ''status'' (store_init (Some 2)))"

theorem session_store_roundtrip_witness:
  "\<exists>s'. load_store \<lparr>te_dumps = (\<lambda>_. []), te_dumps_raw = (\<lambda>_. []), te_repr = (\<lambda>_. [])\<rparr> (ss_cap demo_log) (Some (snapshot demo_log)) = Some s' \<and>
    ss_trees s' = ss_trees demo_log \<and> ss_node_to_tree s' = ss_node_to_tree demo_log \<and> ss_message_log s' = ss_message_log demo_log \<and>
    (\<forall>k. ids_of k (ss_message_log_ids s') = ids_of k (ss_message_log_ids demo_log)) \<and> \<not> ss_dirty s'"
  by (rule session_store_roundtrip) (simp add: demo_log_def store_wf_record store_wf_init)

subsection \<open>The log of a chat\<close>

lemma cap_keeps:
  "get_or_nil j (ss_message_log (apply_cap k s)) =
     (case ss_cap s of
        Some cap \<Rightarrow> if j = k \<and> cap > 0 then last_items (nat cap) (get_or_nil k (ss_message_log s)) else get_or_nil j (ss_message_log s)
      | None \<Rightarrow> get_or_nil j (ss_message_log s))"
  by (auto simp: apply_cap_def Let_def get_or_nil_set last_items_def split: option.split)

text \<open>
  C0. Recording a message id appends it to the log of its chat unless it is there, drops the oldest beyond the cap, and
  changes the log of no other chat; ids are never listed twice.
\<close>

theorem record_message_exact:
  assumes "store_wf s"
  shows "get_message_ids_for_chat p c (record_message_id now p c (Some m) d k s) =
      (let ids = get_message_ids_for_chat p c s; more = ids @ [m] in
       if m \<in> set ids then ids
       else case ss_cap s of Some cap \<Rightarrow> if cap > 0 then drop (length more - nat cap) more else more | None \<Rightarrow> more) \<and>
    distinct (get_message_ids_for_chat p c (record_message_id now p c (Some m) d k s)) \<and>
    (make_chat_key p' c' \<noteq> make_chat_key p c \<longrightarrow>
       get_message_ids_for_chat p' c' (record_message_id now p c (Some m) d k s) = get_message_ids_for_chat p' c' s)"
proof -
  have "distinct (get_message_ids_for_chat p c (record_message_id now p c (Some m) d k s))"
    using store_wfD(2) [OF store_wf_record [OF assms]] by (simp add: get_message_ids_for_chat_def log_ids_def)
  moreover have "m \<in> ids_of (make_chat_key p c) (ss_message_log_ids s) \<longleftrightarrow> m \<in> set (get_message_ids_for_chat p c s)"
    using store_wfD(3) [OF assms] by (simp add: get_message_ids_for_chat_def log_ids_def)
  ultimately show ?thesis
    by (auto simp: record_message_id_def get_message_ids_for_chat_def Let_def schedule_save_def cap_keeps get_or_nil_set last_items_def drop_map
        split: option.split)
qed

subsection \<open>Saving\<close>

text \<open>What is kept in the file, and when the file has it.\<close>

definition same_contents :: "session_store \<Rightarrow> session_store \<Rightarrow> bool" where
  "same_contents s s' \<longleftrightarrow> ss_trees s' = ss_trees s \<and> ss_node_to_tree s' = ss_node_to_tree s \<and> ss_message_log s' = ss_message_log s"

definition file_has :: "text_env \<Rightarrow> json option \<Rightarrow> session_store \<Rightarrow> bool" where
  "file_has env f s \<longleftrightarrow> (\<exists>s'. load_store env (ss_cap s) f = Some s' \<and> same_contents s s')"

text \<open>Writes one after the other: a write starts only when none is on its way.\<close>

fun starts_write :: "store_step \<Rightarrow> bool" where
  "starts_write (Operate _) = False"
| "starts_write (WriteEnds _ _) = False"
| "starts_write _ = True"

fun serial_run :: "store_step list \<Rightarrow> store_system \<Rightarrow> store_system option" where
  "serial_run [] y = Some y"
| "serial_run (e # es) y =
     (if starts_write e \<and> sy_writers y \<noteq> [] then None
      else case sys_step e y of None \<Rightarrow> None | Some y' \<Rightarrow> serial_run es y')"

text \<open>The trees are never empty objects, as \<open>to_dict\<close> makes them.\<close>

definition trees_truthy :: "jdict \<Rightarrow> bool" where
  "trees_truthy ts \<longleftrightarrow> (\<forall>r d. dict_get r ts = Some d \<longrightarrow> json_truthy d)"

fun step_truthy :: "store_step \<Rightarrow> bool" where
  "step_truthy (Operate (SaveTree r d)) = json_truthy d"
| "step_truthy (Operate (SyncTrees ts ns)) = trees_truthy ts"
| "step_truthy _ = True"

definition sync_ok :: "text_env \<Rightarrow> store_system \<Rightarrow> bool" where
  "sync_ok env y \<longleftrightarrow> store_wf (sy_store y) \<and> trees_truthy (ss_trees (sy_store y)) \<and> length (sy_writers y) \<le> 1 \<and>
     (\<not> ss_dirty (sy_store y) \<longrightarrow>
        (case sy_writers y of [] \<Rightarrow> file_has env (sy_file y) (sy_store y) | d # _ \<Rightarrow> d = snapshot (sy_store y)))"

lemma snapshot_file: "store_wf s \<Longrightarrow> file_has env (Some (snapshot s)) s"
  unfolding file_has_def same_contents_def using session_store_roundtrip_aux [of s env] by blast

lemma snapshot_same: "same_contents s s' \<Longrightarrow> snapshot s' = snapshot s"
  by (simp add: same_contents_def snapshot_def)

lemma file_has_same: "file_has env f s \<Longrightarrow> same_contents s s' \<Longrightarrow> ss_cap s' = ss_cap s \<Longrightarrow> file_has env f s'"
  by (auto simp: file_has_def same_contents_def)

lemma apply_cap_fields:
  "ss_trees (apply_cap k s) = ss_trees s" "ss_node_to_tree (apply_cap k s) = ss_node_to_tree s" "ss_cap (apply_cap k s) = ss_cap s"
  by (simp_all add: apply_cap_def Let_def split: option.split)

text \<open>An operation marks the store as dirty or changes nothing that is saved.\<close>

lemma op_effect:
  assumes "trees_truthy (ss_trees s)" "step_truthy (Operate op)"
  shows "trees_truthy (ss_trees (apply_store_op op s)) \<and> ss_cap (apply_store_op op s) = ss_cap s \<and>
    (ss_dirty (apply_store_op op s) \<or> (same_contents s (apply_store_op op s) \<and> ss_dirty (apply_store_op op s) = ss_dirty s))"
proof (cases op)
  case (RecordId now p c mid d k)
  with assms show ?thesis
    by (auto simp: record_message_id_def Let_def schedule_save_def apply_cap_fields same_contents_def split: option.split)
next
  case (RemoveTree r)
  show ?thesis
  proof (cases "dict_get r (ss_trees s)")
    case None
    then have "dict_del r (ss_trees s) = ss_trees s"
      using pd.lookup_None_iff [of r "ss_trees s"] by (simp add: dict_del_def dict_keys_def AList.delete_id)
    with None RemoveTree assms show ?thesis by (simp add: store_remove_tree_def same_contents_def)
  next
    case (Some d)
    then have "json_truthy d" using assms(1) by (simp add: trees_truthy_def)
    with Some RemoveTree assms show ?thesis by (auto simp: store_remove_tree_def schedule_save_def trees_truthy_def split: if_splits)
  qed
qed (use assms in \<open>auto simp: save_tree_def register_node_def remove_node_mappings_def sync_from_tree_data_def schedule_save_def
      trees_truthy_def split: if_splits\<close>)

lemma start_write_ok:
  assumes "sy_writers y = []" "store_wf s" "trees_truthy (ss_trees s)"
  shows "sync_ok env (start_write (snapshot s) (y\<lparr>sy_store := s\<lparr>ss_timer := False, ss_dirty := False\<rparr>\<rparr>))"
  using assms by (simp add: sync_ok_def start_write_def store_wf_def snapshot_def)

lemma sync_ok_step:
  assumes "sync_ok env y" "step_truthy e" "sys_step e y = Some y'" "\<not> (starts_write e \<and> sy_writers y \<noteq> [])"
  shows "sync_ok env y'"
proof (cases e)
  case (Operate op)
  let ?s = "apply_store_op op (sy_store y)"
  have y': "y' = y\<lparr>sy_store := ?s\<rparr>" using assms(3) Operate by simp
  have o: "trees_truthy (ss_trees ?s) \<and> ss_cap ?s = ss_cap (sy_store y) \<and>
      (ss_dirty ?s \<or> (same_contents (sy_store y) ?s \<and> ss_dirty ?s = ss_dirty (sy_store y)))"
    using op_effect [of "sy_store y" op] assms(1,2) Operate by (simp add: sync_ok_def)
  have "store_wf ?s" using assms(1) by (auto simp: sync_ok_def store_wf_op)
  with o assms(1) show ?thesis
    by (auto simp: y' sync_ok_def snapshot_same file_has_same split: list.splits)
next
  case TimerFires
  show ?thesis
  proof (cases "ss_dirty (sy_store y)")
    case True
    then have "y' = start_write (snapshot (sy_store y)) (y\<lparr>sy_store := (sy_store y)\<lparr>ss_timer := False, ss_dirty := False\<rparr>\<rparr>)"
      using assms(3) TimerFires by (simp add: save_from_timer_locked_def)
    then show ?thesis using start_write_ok [of y "sy_store y"] assms(1,4) TimerFires by (simp add: sync_ok_def)
  next
    case False
    let ?s = "(sy_store y)\<lparr>ss_timer := False\<rparr>"
    have y': "y' = y\<lparr>sy_store := ?s\<rparr>" using False assms(3) TimerFires by (simp add: save_from_timer_locked_def)
    have c: "same_contents (sy_store y) ?s" by (simp add: same_contents_def)
    show ?thesis
      using assms(1) False snapshot_same [OF c] file_has_same [OF _ c]
      by (auto simp: y' sync_ok_def store_wf_def split: list.splits)
  qed
next
  case Flushes
  then show ?thesis using start_write_ok [of y "sy_store y"] assms by (auto simp: flush_save_def sync_ok_def)
next
  case ClearsAll
  let ?s = "(sy_store y)\<lparr>ss_trees := [], ss_node_to_tree := [], ss_message_log := [], ss_message_log_ids := []\<rparr>"
  have "store_wf ?s" "trees_truthy (ss_trees ?s)"
    by (simp_all add: store_wf_def get_or_nil_def ids_of_def log_ids_def trees_truthy_def)
  with ClearsAll show ?thesis
    using start_write_ok [of y ?s] assms(3,4) by (simp add: clear_all_locked_def flush_save_def)
next
  case (WriteEnds i b)
  then obtain d where d: "i = 0" "sy_writers y = [d]"
    using assms(1,3) by (cases "sy_writers y") (auto simp: sync_ok_def split: if_splits)
  show ?thesis
    using assms(1,3) WriteEnds d snapshot_file [of "sy_store y" env]
    by (cases b) (auto simp: sync_ok_def store_wf_def Let_def)
qed

lemma sync_ok_run:
  "serial_run es y = Some y' \<Longrightarrow> sync_ok env y \<Longrightarrow> list_all step_truthy es \<Longrightarrow> sync_ok env y'"
  by (induction es arbitrary: y) (auto split: if_splits option.splits dest: sync_ok_step)

text \<open>The store as the program starts: read from the file.\<close>

definition started :: "session_store \<Rightarrow> json option \<Rightarrow> store_system" where
  "started s f = \<lparr>sy_store = s, sy_writers = [], sy_file = f\<rparr>"

text \<open>C36. 
  C0. When writes do not overlap, nothing is lost: after any operations, timers, flushes, clears and failed writes, a store
  that is not marked dirty and has no write on its way is what a restart would read from the file.
\<close>

theorem serial_saves_complete:
  assumes "load_store env cap f = Some s" "trees_truthy (ss_trees s)" "list_all step_truthy es"
    and "serial_run es (started s f) = Some y" "\<not> ss_dirty (sy_store y)" "sy_writers y = []"
  shows "\<exists>s'. load_store env (ss_cap (sy_store y)) (sy_file y) = Some s' \<and> same_contents (sy_store y) s'"
proof -
  have "sync_ok env (started s f)"
    using assms(1,2) load_store_fresh [OF assms(1)] by (auto simp: sync_ok_def started_def file_has_def same_contents_def)
  from sync_ok_run [OF assms(4) this assms(3)] show ?thesis
    using assms(5,6) by (simp add: sync_ok_def file_has_def)
qed

text \<open>The data of a tree, and a run in which a write of the timer ends after that of \<open>clear_all\<close>.\<close>

definition demo_tree :: json where
  "demo_tree = JObj [(''root_id'', JStr ''1''), (''nodes'', JObj [(''1'', JObj [(''node_id'', JStr ''1'')])])]"

definition clear_race :: "store_step list" where
  "clear_race = [Operate (SaveTree ''1'' demo_tree), TimerFires, ClearsAll, WriteEnds 1 True, WriteEnds 0 True]"

text \<open>C33. 
  C0. Writes can overlap, and then cleared data comes back: there is a run in which \<open>clear_all\<close> ends, the store is empty,
  clean and has nothing left to write, and yet the file, and so the next start, has the tree that was cleared.
\<close>

theorem cleared_sessions_come_back:
  "\<exists>y s. store_run clear_race (started (store_init None) None) = Some y \<and> ss_trees (sy_store y) = [] \<and>
     \<not> ss_dirty (sy_store y) \<and> \<not> ss_timer (sy_store y) \<and> sy_writers y = [] \<and>
     load_store env None (sy_file y) = Some s \<and> ss_trees s = [(''1'', demo_tree)]"
  by (simp add: clear_race_def started_def store_init_def save_tree_def schedule_save_def save_from_timer_locked_def start_write_def
      clear_all_locked_def flush_save_def snapshot_def load_store_def with_log_def dict_set_def Let_def)

definition serial_demo :: "store_step list" where
  "serial_demo = [Operate (SaveTree ''1'' demo_tree), TimerFires, WriteEnds 0 False, Flushes, WriteEnds 0 True]"

definition serial_end :: store_system where
  "serial_end = the (serial_run serial_demo (started (store_init None) None))"

theorem serial_saves_complete_witness:
  "\<exists>s'. load_store \<lparr>te_dumps = (\<lambda>_. []), te_dumps_raw = (\<lambda>_. []), te_repr = (\<lambda>_. [])\<rparr> (ss_cap (sy_store serial_end)) (sy_file serial_end) = Some s' \<and>
     same_contents (sy_store serial_end) s'"
  by (rule serial_saves_complete [where cap = None and f = None and s = "store_init None" and es = serial_demo])
     (simp_all add: serial_end_def serial_demo_def started_def store_init_def save_tree_def schedule_save_def save_from_timer_locked_def
       start_write_def flush_save_def load_store_def trees_truthy_def demo_tree_def json_truthy_def Let_def)

end
