(* ===== verification/AdminFields.thy ===== *)
theory AdminFields
  imports ProviderCatalog
begin

section \<open>The settings of the admin page (\<open>api/admin_config.py\<close>)\<close>

text \<open>
  The sections and the fields of the admin page, in the order of the code and in parts.  A field
  starts from the defaults of the data class.
\<close>

datatype field_type =
    TextField | SecretField | NumberField | BooleanField | TriBooleanField | SelectField | TextareaField

record config_section_spec =
  cs_section_id :: string
  cs_label :: string
  cs_description :: string
  cs_advanced :: bool

record config_field_spec =
  cf_key :: string
  cf_label :: string
  cf_section_id :: string
  cf_field_type :: field_type
  cf_settings_attr :: "string option"
  cf_default :: string
  cf_options :: "string list"
  cf_secret :: bool
  cf_advanced :: bool
  cf_restart_required :: bool
  cf_session_sensitive :: bool
  cf_description :: string

definition section_spec :: "string \<Rightarrow> string \<Rightarrow> string \<Rightarrow> bool \<Rightarrow> config_section_spec" where
  "section_spec i l d a = \<lparr>cs_section_id = i, cs_label = l, cs_description = d, cs_advanced = a\<rparr>"

definition field_spec :: "string \<Rightarrow> string \<Rightarrow> string \<Rightarrow> config_field_spec" where
  "field_spec key label sect = \<lparr>cf_key = key, cf_label = label, cf_section_id = sect, cf_field_type = TextField,
     cf_settings_attr = None, cf_default = [], cf_options = [], cf_secret = False, cf_advanced = False,
     cf_restart_required = False, cf_session_sensitive = False, cf_description = []\<rparr>"

definition SECTIONS :: "config_section_spec list" where
  "SECTIONS = [
     section_spec ''providers'' ''Providers'' ''Provider keys, local endpoints, and proxy settings.'' False,
     section_spec ''models'' ''Model Routing'' ''Provider-prefixed models used for Claude model tiers.'' False,
     section_spec ''thinking'' ''Thinking'' ''Global and tier-specific thinking behavior.'' False,
     section_spec ''runtime'' ''Runtime'' ''Server API token, rate limits, timeouts, and process settings.'' False,
     section_spec ''messaging'' ''Messaging'' ''Discord, Telegram, CLI workspace, and session settings.'' False,
     section_spec ''voice'' ''Voice'' ''Voice note transcription settings.'' False,
     section_spec ''web_tools'' ''Web Tools'' ''Local Anthropic web_search and web_fetch behavior.'' False,
     section_spec ''diagnostics'' ''Diagnostics'' ''Logging and debugging flags.'' True,
     section_spec ''smoke'' ''Smoke Tests'' ''Optional live smoke-test model overrides.'' True]"

definition fields_1 :: "config_field_spec list" where
  "fields_1 = [
     (field_spec ''NVIDIA_NIM_API_KEY'' ''NVIDIA NIM API Key'' ''providers'')\<lparr>
        cf_field_type := SecretField, cf_settings_attr := Some ''nvidia_nim_api_key'', cf_secret := True, cf_description := ''Used by NVIDIA NIM chat and optional NIM voice transcription.''\<rparr>,
     (field_spec ''OPENROUTER_API_KEY'' ''OpenRouter API Key'' ''providers'')\<lparr>
        cf_field_type := SecretField, cf_settings_attr := Some ''open_router_api_key'', cf_secret := True\<rparr>,
     (field_spec ''MISTRAL_API_KEY'' ''Mistral API Key'' ''providers'')\<lparr>
        cf_field_type := SecretField, cf_settings_attr := Some ''mistral_api_key'', cf_secret := True, cf_description := ''Mistral La Plateforme (api.mistral.ai); Experiment plan is free tier with rate limits.''\<rparr>,
     (field_spec ''CODESTRAL_API_KEY'' ''Codestral API Key'' ''providers'')\<lparr>
        cf_field_type := SecretField, cf_settings_attr := Some ''codestral_api_key'', cf_secret := True, cf_description := (''Mistral Codestral endpoint (codestral.mistral.ai); distinct from Mistral La Plateforme '' @ [CHR 0x60] @ [CHR 0x60] @ ''MISTRAL_API_KEY'' @ [CHR 0x60] @ [CHR 0x60] @ ''. See Mistral docs for coding/FIM domains.'')\<rparr>,
     (field_spec ''DEEPSEEK_API_KEY'' ''DeepSeek API Key'' ''providers'')\<lparr>
        cf_field_type := SecretField, cf_settings_attr := Some ''deepseek_api_key'', cf_secret := True\<rparr>,
     (field_spec ''KIMI_API_KEY'' ''Kimi API Key'' ''providers'')\<lparr>
        cf_field_type := SecretField, cf_settings_attr := Some ''kimi_api_key'', cf_secret := True\<rparr>,
     (field_spec ''WAFER_API_KEY'' ''Wafer API Key'' ''providers'')\<lparr>
        cf_field_type := SecretField, cf_settings_attr := Some ''wafer_api_key'', cf_secret := True\<rparr>,
     (field_spec ''OPENCODE_API_KEY'' ''OpenCode API Key'' ''providers'')\<lparr>
        cf_field_type := SecretField, cf_settings_attr := Some ''opencode_api_key'', cf_secret := True, cf_description := ''OpenCode Zen curated gateway (opencode.ai/zen/v1) and OpenCode Go subscription gateway (opencode.ai/zen/go/v1); single key from opencode.ai/auth.''\<rparr>,
     (field_spec ''ZAI_API_KEY'' ''Z.ai API Key'' ''providers'')\<lparr>
        cf_field_type := SecretField, cf_settings_attr := Some ''zai_api_key'', cf_secret := True, cf_description := ''Z.ai Coding Plan API key.''\<rparr>,
     (field_spec ''FIREWORKS_API_KEY'' ''Fireworks API Key'' ''providers'')\<lparr>
        cf_field_type := SecretField, cf_settings_attr := Some ''fireworks_api_key'', cf_secret := True, cf_description := ''Fireworks AI inference API key.''\<rparr>,
     (field_spec ''GEMINI_API_KEY'' ''Gemini API Key'' ''providers'')\<lparr>
        cf_field_type := SecretField, cf_settings_attr := Some ''gemini_api_key'', cf_secret := True, cf_description := ''Google AI Studio Gemini API key (Google AI Studio / Gemini API [OpenAI-compatible](https://ai.google.dev/gemini-api/docs/openai)); free tier has per-model rate limits and data may be used for improvement outside the UK/CH/EEA/EU.''\<rparr>,
     (field_spec ''GROQ_API_KEY'' ''Groq API Key'' ''providers'')\<lparr>
        cf_field_type := SecretField, cf_settings_attr := Some ''groq_api_key'', cf_secret := True, cf_description := ''GroqCloud OpenAI-compatible API key ([console.groq.com/keys](https://console.groq.com/keys)); see Groq [OpenAI compatibility docs](https://console.groq.com/docs/openai).''\<rparr>,
     (field_spec ''CEREBRAS_API_KEY'' ''Cerebras API Key'' ''providers'')\<lparr>
        cf_field_type := SecretField, cf_settings_attr := Some ''cerebras_api_key'', cf_secret := True, cf_description := ''Cerebras Inference API key (create in [Cloud Console](https://cloud.cerebras.ai)); see [Quickstart](https://inference-docs.cerebras.ai/quickstart) and [OpenAI compatibility](https://inference-docs.cerebras.ai/resources/openai).''\<rparr>,
     (field_spec ''LM_STUDIO_BASE_URL'' ''LM Studio Base URL'' ''providers'')\<lparr>
        cf_settings_attr := Some ''lm_studio_base_url'', cf_default := ''http://localhost:1234/v1''\<rparr>]"

definition fields_2 :: "config_field_spec list" where
  "fields_2 = [
     (field_spec ''LLAMACPP_BASE_URL'' ''llama.cpp Base URL'' ''providers'')\<lparr>
        cf_settings_attr := Some ''llamacpp_base_url'', cf_default := ''http://localhost:8080/v1''\<rparr>,
     (field_spec ''OLLAMA_BASE_URL'' ''Ollama Base URL'' ''providers'')\<lparr>
        cf_settings_attr := Some ''ollama_base_url'', cf_default := ''http://localhost:11434''\<rparr>,
     (field_spec ''AUTO_DETECT_SYSTEM_PROXY'' ''Auto Detect System Proxy'' ''providers'')\<lparr>
        cf_field_type := BooleanField, cf_settings_attr := Some ''auto_detect_system_proxy'', cf_default := ''true'', cf_advanced := True, cf_description := ''Use the OS proxy for remote providers when their provider-specific proxy field is blank.''\<rparr>,
     (field_spec ''NVIDIA_NIM_PROXY'' ''NVIDIA NIM Proxy'' ''providers'')\<lparr>
        cf_field_type := SecretField, cf_settings_attr := Some ''nvidia_nim_proxy'', cf_secret := True, cf_advanced := True\<rparr>,
     (field_spec ''OPENROUTER_PROXY'' ''OpenRouter Proxy'' ''providers'')\<lparr>
        cf_field_type := SecretField, cf_settings_attr := Some ''open_router_proxy'', cf_secret := True, cf_advanced := True\<rparr>,
     (field_spec ''DEEPSEEK_PROXY'' ''DeepSeek Proxy'' ''providers'')\<lparr>
        cf_field_type := SecretField, cf_settings_attr := Some ''deepseek_proxy'', cf_secret := True, cf_advanced := True\<rparr>,
     (field_spec ''MISTRAL_PROXY'' ''Mistral Proxy'' ''providers'')\<lparr>
        cf_field_type := SecretField, cf_settings_attr := Some ''mistral_proxy'', cf_secret := True, cf_advanced := True\<rparr>,
     (field_spec ''CODESTRAL_PROXY'' ''Codestral Proxy'' ''providers'')\<lparr>
        cf_field_type := SecretField, cf_settings_attr := Some ''codestral_proxy'', cf_secret := True, cf_advanced := True\<rparr>,
     (field_spec ''LMSTUDIO_PROXY'' ''LM Studio Proxy'' ''providers'')\<lparr>
        cf_field_type := SecretField, cf_settings_attr := Some ''lmstudio_proxy'', cf_secret := True, cf_advanced := True\<rparr>,
     (field_spec ''LLAMACPP_PROXY'' ''llama.cpp Proxy'' ''providers'')\<lparr>
        cf_field_type := SecretField, cf_settings_attr := Some ''llamacpp_proxy'', cf_secret := True, cf_advanced := True\<rparr>,
     (field_spec ''KIMI_PROXY'' ''Kimi Proxy'' ''providers'')\<lparr>
        cf_field_type := SecretField, cf_settings_attr := Some ''kimi_proxy'', cf_secret := True, cf_advanced := True\<rparr>,
     (field_spec ''WAFER_PROXY'' ''Wafer Proxy'' ''providers'')\<lparr>
        cf_field_type := SecretField, cf_settings_attr := Some ''wafer_proxy'', cf_secret := True, cf_advanced := True\<rparr>,
     (field_spec ''OPENCODE_PROXY'' ''OpenCode Zen Proxy'' ''providers'')\<lparr>
        cf_field_type := SecretField, cf_settings_attr := Some ''opencode_proxy'', cf_secret := True, cf_advanced := True\<rparr>,
     (field_spec ''OPENCODE_GO_PROXY'' ''OpenCode Go Proxy'' ''providers'')\<lparr>
        cf_field_type := SecretField, cf_settings_attr := Some ''opencode_go_proxy'', cf_secret := True, cf_advanced := True\<rparr>,
     (field_spec ''ZAI_PROXY'' ''Z.ai Proxy'' ''providers'')\<lparr>
        cf_field_type := SecretField, cf_settings_attr := Some ''zai_proxy'', cf_secret := True, cf_advanced := True\<rparr>,
     (field_spec ''FIREWORKS_PROXY'' ''Fireworks Proxy'' ''providers'')\<lparr>
        cf_field_type := SecretField, cf_settings_attr := Some ''fireworks_proxy'', cf_secret := True, cf_advanced := True\<rparr>]"

definition fields_3 :: "config_field_spec list" where
  "fields_3 = [
     (field_spec ''GEMINI_PROXY'' ''Gemini Proxy'' ''providers'')\<lparr>
        cf_field_type := SecretField, cf_settings_attr := Some ''gemini_proxy'', cf_secret := True, cf_advanced := True\<rparr>,
     (field_spec ''GROQ_PROXY'' ''Groq Proxy'' ''providers'')\<lparr>
        cf_field_type := SecretField, cf_settings_attr := Some ''groq_proxy'', cf_secret := True, cf_advanced := True\<rparr>,
     (field_spec ''CEREBRAS_PROXY'' ''Cerebras Proxy'' ''providers'')\<lparr>
        cf_field_type := SecretField, cf_settings_attr := Some ''cerebras_proxy'', cf_secret := True, cf_advanced := True\<rparr>,
     (field_spec ''MODEL'' ''Default Model'' ''models'')\<lparr>
        cf_settings_attr := Some ''model'', cf_default := ''deepseek/deepseek-v4-pro'', cf_description := ''Fallback provider/model route for all Claude model names.''\<rparr>,
     (field_spec ''MODEL_FALLBACKS'' ''Model Fallbacks'' ''models'')\<lparr>
        cf_settings_attr := Some ''model_fallbacks'', cf_description := ''Comma-separated provider/model refs used when a provider is marked unhealthy.''\<rparr>,
     (field_spec ''MODEL_OPUS'' ''Opus Override'' ''models'')\<lparr>
        cf_settings_attr := Some ''model_opus'', cf_description := ''Optional provider/model route for Opus requests.''\<rparr>,
     (field_spec ''MODEL_SONNET'' ''Sonnet Override'' ''models'')\<lparr>
        cf_settings_attr := Some ''model_sonnet'', cf_description := ''Optional provider/model route for Sonnet requests.''\<rparr>,
     (field_spec ''MODEL_HAIKU'' ''Haiku Override'' ''models'')\<lparr>
        cf_settings_attr := Some ''model_haiku'', cf_description := ''Optional provider/model route for Haiku requests.''\<rparr>,
     (field_spec ''ENABLE_MODEL_THINKING'' ''Enable Thinking'' ''thinking'')\<lparr>
        cf_field_type := BooleanField, cf_settings_attr := Some ''enable_model_thinking'', cf_default := ''true''\<rparr>,
     (field_spec ''ENABLE_OPUS_THINKING'' ''Opus Thinking'' ''thinking'')\<lparr>
        cf_field_type := TriBooleanField, cf_settings_attr := Some ''enable_opus_thinking'', cf_description := ''Blank inherits Enable Thinking.''\<rparr>,
     (field_spec ''ENABLE_SONNET_THINKING'' ''Sonnet Thinking'' ''thinking'')\<lparr>
        cf_field_type := TriBooleanField, cf_settings_attr := Some ''enable_sonnet_thinking'', cf_description := ''Blank inherits Enable Thinking.''\<rparr>,
     (field_spec ''ENABLE_HAIKU_THINKING'' ''Haiku Thinking'' ''thinking'')\<lparr>
        cf_field_type := TriBooleanField, cf_settings_attr := Some ''enable_haiku_thinking'', cf_description := ''Blank inherits Enable Thinking.''\<rparr>,
     (field_spec ''ANTHROPIC_AUTH_TOKEN'' ''API/CLI Auth Token'' ''runtime'')\<lparr>
        cf_field_type := SecretField, cf_settings_attr := Some ''anthropic_auth_token'', cf_default := ''freecc'', cf_secret := True, cf_description := ''Protects Claude/API access. It is not admin-page login.''\<rparr>,
     (field_spec ''PROVIDER_RATE_LIMIT'' ''Provider Rate Limit'' ''runtime'')\<lparr>
        cf_field_type := NumberField, cf_settings_attr := Some ''provider_rate_limit'', cf_default := ''1''\<rparr>,
     (field_spec ''PROVIDER_RATE_WINDOW'' ''Provider Rate Window'' ''runtime'')\<lparr>
        cf_field_type := NumberField, cf_settings_attr := Some ''provider_rate_window'', cf_default := ''3''\<rparr>,
     (field_spec ''PROVIDER_MAX_CONCURRENCY'' ''Provider Max Concurrency'' ''runtime'')\<lparr>
        cf_field_type := NumberField, cf_settings_attr := Some ''provider_max_concurrency'', cf_default := ''5''\<rparr>,
     (field_spec ''HTTP_READ_TIMEOUT'' ''HTTP Read Timeout'' ''runtime'')\<lparr>
        cf_field_type := NumberField, cf_settings_attr := Some ''http_read_timeout'', cf_default := ''300''\<rparr>,
     (field_spec ''HTTP_WRITE_TIMEOUT'' ''HTTP Write Timeout'' ''runtime'')\<lparr>
        cf_field_type := NumberField, cf_settings_attr := Some ''http_write_timeout'', cf_default := ''60''\<rparr>]"

definition fields_4 :: "config_field_spec list" where
  "fields_4 = [
     (field_spec ''HTTP_CONNECT_TIMEOUT'' ''HTTP Connect Timeout'' ''runtime'')\<lparr>
        cf_field_type := NumberField, cf_settings_attr := Some ''http_connect_timeout'', cf_default := ''60''\<rparr>,
     (field_spec ''HOST'' ''Server Host'' ''runtime'')\<lparr>
        cf_settings_attr := Some ''host'', cf_default := ''0.0.0.0'', cf_restart_required := True\<rparr>,
     (field_spec ''PORT'' ''Server Port'' ''runtime'')\<lparr>
        cf_field_type := NumberField, cf_settings_attr := Some ''port'', cf_default := ''8082'', cf_restart_required := True\<rparr>,
     (field_spec ''MESSAGING_PLATFORM'' ''Messaging Platform'' ''messaging'')\<lparr>
        cf_field_type := SelectField, cf_settings_attr := Some ''messaging_platform'', cf_default := ''discord'', cf_options := [''telegram'', ''discord'', ''none''], cf_session_sensitive := True\<rparr>,
     (field_spec ''MESSAGING_RATE_LIMIT'' ''Messaging Rate Limit'' ''messaging'')\<lparr>
        cf_field_type := NumberField, cf_settings_attr := Some ''messaging_rate_limit'', cf_default := ''1'', cf_session_sensitive := True\<rparr>,
     (field_spec ''MESSAGING_RATE_WINDOW'' ''Messaging Rate Window'' ''messaging'')\<lparr>
        cf_field_type := NumberField, cf_settings_attr := Some ''messaging_rate_window'', cf_default := ''1'', cf_session_sensitive := True\<rparr>,
     (field_spec ''TELEGRAM_BOT_TOKEN'' ''Telegram Bot Token'' ''messaging'')\<lparr>
        cf_field_type := SecretField, cf_settings_attr := Some ''telegram_bot_token'', cf_secret := True, cf_session_sensitive := True\<rparr>,
     (field_spec ''ALLOWED_TELEGRAM_USER_ID'' ''Allowed Telegram User ID'' ''messaging'')\<lparr>
        cf_settings_attr := Some ''allowed_telegram_user_id'', cf_session_sensitive := True\<rparr>,
     (field_spec ''DISCORD_BOT_TOKEN'' ''Discord Bot Token'' ''messaging'')\<lparr>
        cf_field_type := SecretField, cf_settings_attr := Some ''discord_bot_token'', cf_secret := True, cf_session_sensitive := True\<rparr>,
     (field_spec ''ALLOWED_DISCORD_CHANNELS'' ''Allowed Discord Channels'' ''messaging'')\<lparr>
        cf_settings_attr := Some ''allowed_discord_channels'', cf_session_sensitive := True\<rparr>,
     (field_spec ''ALLOWED_DIR'' ''Allowed Directory'' ''messaging'')\<lparr>
        cf_settings_attr := Some ''allowed_dir'', cf_session_sensitive := True\<rparr>,
     (field_spec ''MAX_MESSAGE_LOG_ENTRIES_PER_CHAT'' ''Max Message Log Entries'' ''messaging'')\<lparr>
        cf_field_type := NumberField, cf_settings_attr := Some ''max_message_log_entries_per_chat'', cf_advanced := True, cf_session_sensitive := True\<rparr>,
     (field_spec ''VOICE_NOTE_ENABLED'' ''Voice Notes'' ''voice'')\<lparr>
        cf_field_type := BooleanField, cf_settings_attr := Some ''voice_note_enabled'', cf_default := ''false'', cf_session_sensitive := True\<rparr>,
     (field_spec ''WHISPER_DEVICE'' ''Whisper Device'' ''voice'')\<lparr>
        cf_field_type := SelectField, cf_settings_attr := Some ''whisper_device'', cf_default := ''nvidia_nim'', cf_options := [''cpu'', ''cuda'', ''nvidia_nim''], cf_session_sensitive := True\<rparr>,
     (field_spec ''WHISPER_MODEL'' ''Whisper Model'' ''voice'')\<lparr>
        cf_settings_attr := Some ''whisper_model'', cf_default := ''openai/whisper-large-v3'', cf_session_sensitive := True\<rparr>,
     (field_spec ''HF_TOKEN'' ''Hugging Face Token'' ''voice'')\<lparr>
        cf_field_type := SecretField, cf_settings_attr := Some ''hf_token'', cf_secret := True, cf_session_sensitive := True\<rparr>,
     (field_spec ''FAST_PREFIX_DETECTION'' ''Fast Prefix Detection'' ''runtime'')\<lparr>
        cf_field_type := BooleanField, cf_settings_attr := Some ''fast_prefix_detection'', cf_default := ''true'', cf_advanced := True\<rparr>]"

definition fields_5 :: "config_field_spec list" where
  "fields_5 = [
     (field_spec ''ENABLE_NETWORK_PROBE_MOCK'' ''Network Probe Mock'' ''runtime'')\<lparr>
        cf_field_type := BooleanField, cf_settings_attr := Some ''enable_network_probe_mock'', cf_default := ''true'', cf_advanced := True\<rparr>,
     (field_spec ''ENABLE_TITLE_GENERATION_SKIP'' ''Title Generation Skip'' ''runtime'')\<lparr>
        cf_field_type := BooleanField, cf_settings_attr := Some ''enable_title_generation_skip'', cf_default := ''true'', cf_advanced := True\<rparr>,
     (field_spec ''ENABLE_SUGGESTION_MODE_SKIP'' ''Suggestion Mode Skip'' ''runtime'')\<lparr>
        cf_field_type := BooleanField, cf_settings_attr := Some ''enable_suggestion_mode_skip'', cf_default := ''true'', cf_advanced := True\<rparr>,
     (field_spec ''ENABLE_FILEPATH_EXTRACTION_MOCK'' ''Filepath Extraction Mock'' ''runtime'')\<lparr>
        cf_field_type := BooleanField, cf_settings_attr := Some ''enable_filepath_extraction_mock'', cf_default := ''true'', cf_advanced := True\<rparr>,
     (field_spec ''ENABLE_WEB_SERVER_TOOLS'' ''Web Server Tools'' ''web_tools'')\<lparr>
        cf_field_type := BooleanField, cf_settings_attr := Some ''enable_web_server_tools'', cf_default := ''true''\<rparr>,
     (field_spec ''WEB_FETCH_ALLOWED_SCHEMES'' ''Allowed Web Fetch Schemes'' ''web_tools'')\<lparr>
        cf_settings_attr := Some ''web_fetch_allowed_schemes'', cf_default := ''http,https''\<rparr>,
     (field_spec ''WEB_FETCH_ALLOW_PRIVATE_NETWORKS'' ''Allow Private Networks'' ''web_tools'')\<lparr>
        cf_field_type := BooleanField, cf_settings_attr := Some ''web_fetch_allow_private_networks'', cf_default := ''false''\<rparr>,
     (field_spec ''DEBUG_PLATFORM_EDITS'' ''Debug Platform Edits'' ''diagnostics'')\<lparr>
        cf_field_type := BooleanField, cf_settings_attr := Some ''debug_platform_edits'', cf_default := ''false'', cf_advanced := True\<rparr>,
     (field_spec ''DEBUG_SUBAGENT_STACK'' ''Debug Subagent Stack'' ''diagnostics'')\<lparr>
        cf_field_type := BooleanField, cf_settings_attr := Some ''debug_subagent_stack'', cf_default := ''false'', cf_advanced := True\<rparr>,
     (field_spec ''LOG_RAW_API_PAYLOADS'' ''Log Raw API Payloads'' ''diagnostics'')\<lparr>
        cf_field_type := BooleanField, cf_settings_attr := Some ''log_raw_api_payloads'', cf_default := ''false'', cf_advanced := True\<rparr>,
     (field_spec ''LOG_RAW_SSE_EVENTS'' ''Log Raw SSE Events'' ''diagnostics'')\<lparr>
        cf_field_type := BooleanField, cf_settings_attr := Some ''log_raw_sse_events'', cf_default := ''false'', cf_advanced := True\<rparr>,
     (field_spec ''LOG_API_ERROR_TRACEBACKS'' ''Log API Error Tracebacks'' ''diagnostics'')\<lparr>
        cf_field_type := BooleanField, cf_settings_attr := Some ''log_api_error_tracebacks'', cf_default := ''false'', cf_advanced := True\<rparr>,
     (field_spec ''LOG_RAW_MESSAGING_CONTENT'' ''Log Raw Messaging Content'' ''diagnostics'')\<lparr>
        cf_field_type := BooleanField, cf_settings_attr := Some ''log_raw_messaging_content'', cf_default := ''false'', cf_advanced := True\<rparr>,
     (field_spec ''LOG_RAW_CLI_DIAGNOSTICS'' ''Log Raw CLI Diagnostics'' ''diagnostics'')\<lparr>
        cf_field_type := BooleanField, cf_settings_attr := Some ''log_raw_cli_diagnostics'', cf_default := ''false'', cf_advanced := True\<rparr>,
     (field_spec ''LOG_MESSAGING_ERROR_DETAILS'' ''Log Messaging Error Details'' ''diagnostics'')\<lparr>
        cf_field_type := BooleanField, cf_settings_attr := Some ''log_messaging_error_details'', cf_default := ''false'', cf_advanced := True\<rparr>,
     (field_spec ''FCC_SMOKE_MODEL_NVIDIA_NIM'' ''Smoke NVIDIA NIM Model'' ''smoke'')\<lparr>
        cf_advanced := True\<rparr>,
     (field_spec ''FCC_SMOKE_MODEL_OPEN_ROUTER'' ''Smoke OpenRouter Model'' ''smoke'')\<lparr>
        cf_advanced := True\<rparr>]"

definition fields_6 :: "config_field_spec list" where
  "fields_6 = [
     (field_spec ''FCC_SMOKE_MODEL_MISTRAL'' ''Smoke Mistral Model'' ''smoke'')\<lparr>
        cf_advanced := True\<rparr>,
     (field_spec ''FCC_SMOKE_MODEL_MISTRAL_CODESTRAL'' ''Smoke Mistral Codestral Model'' ''smoke'')\<lparr>
        cf_advanced := True\<rparr>,
     (field_spec ''FCC_SMOKE_MODEL_DEEPSEEK'' ''Smoke DeepSeek Model'' ''smoke'')\<lparr>
        cf_advanced := True\<rparr>,
     (field_spec ''FCC_SMOKE_MODEL_LMSTUDIO'' ''Smoke LM Studio Model'' ''smoke'')\<lparr>
        cf_advanced := True\<rparr>,
     (field_spec ''FCC_SMOKE_MODEL_LLAMACPP'' ''Smoke llama.cpp Model'' ''smoke'')\<lparr>
        cf_advanced := True\<rparr>,
     (field_spec ''FCC_SMOKE_MODEL_OLLAMA'' ''Smoke Ollama Model'' ''smoke'')\<lparr>
        cf_advanced := True\<rparr>,
     (field_spec ''FCC_SMOKE_MODEL_KIMI'' ''Smoke Kimi Model'' ''smoke'')\<lparr>
        cf_advanced := True\<rparr>,
     (field_spec ''FCC_SMOKE_MODEL_WAFER'' ''Smoke Wafer Model'' ''smoke'')\<lparr>
        cf_advanced := True\<rparr>,
     (field_spec ''FCC_SMOKE_MODEL_OPENCODE'' ''Smoke OpenCode Zen Model'' ''smoke'')\<lparr>
        cf_advanced := True\<rparr>,
     (field_spec ''FCC_SMOKE_MODEL_OPENCODE_GO'' ''Smoke OpenCode Go Model'' ''smoke'')\<lparr>
        cf_advanced := True\<rparr>,
     (field_spec ''FCC_SMOKE_MODEL_ZAI'' ''Smoke Z.ai Model'' ''smoke'')\<lparr>
        cf_advanced := True\<rparr>,
     (field_spec ''FCC_SMOKE_MODEL_FIREWORKS'' ''Smoke Fireworks Model'' ''smoke'')\<lparr>
        cf_advanced := True\<rparr>,
     (field_spec ''FCC_SMOKE_MODEL_GEMINI'' ''Smoke Gemini Model'' ''smoke'')\<lparr>
        cf_advanced := True\<rparr>,
     (field_spec ''FCC_SMOKE_MODEL_GROQ'' ''Smoke Groq Model'' ''smoke'')\<lparr>
        cf_advanced := True\<rparr>,
     (field_spec ''FCC_SMOKE_MODEL_CEREBRAS'' ''Smoke Cerebras Model'' ''smoke'')\<lparr>
        cf_advanced := True\<rparr>,
     (field_spec ''FCC_SMOKE_NIM_MODELS'' ''Smoke NIM Models'' ''smoke'')\<lparr>
        cf_advanced := True\<rparr>,
     (field_spec ''FCC_SMOKE_NIM_EXTRA_MODELS'' ''Smoke NIM Extra Models'' ''smoke'')\<lparr>
        cf_advanced := True\<rparr>,
     (field_spec ''FCC_SMOKE_OPENROUTER_FREE_MODELS'' ''Smoke OpenRouter Free Models'' ''smoke'')\<lparr>
        cf_advanced := True\<rparr>,
     (field_spec ''FCC_SMOKE_OPENROUTER_FREE_EXTRA_MODELS'' ''Smoke OpenRouter Free Extra Models'' ''smoke'')\<lparr>
        cf_advanced := True\<rparr>]"

definition FIELDS :: "config_field_spec list" where
  "FIELDS = fields_1 @ fields_2 @ fields_3 @ fields_4 @ fields_5 @ fields_6"

text \<open>\<open>{field.key: field for field in FIELDS}\<close>; the keys are distinct.\<close>

definition FIELD_BY_KEY :: "(string, config_field_spec) pydict" where
  "FIELD_BY_KEY = map (\<lambda>f. (cf_key f, f)) FIELDS"

end
