(* ===== verification/AdminConfig.thy ===== *)
theory AdminConfig
  imports AdminFields WebEgress StreamContract
begin

section \<open>Reading and writing the managed settings (\<open>api/admin_config.py\<close>, \<open>api/admin_routes.py\<close>)\<close>

text \<open>
  The layers a setting can come from, the response of the admin page, the effect of an update and the file it
  writes.  The dotenv reader is not the program's: a file is what it read, as a dictionary.  \<open>str\<close> of a submitted
  value that is not a string is the argument \<open>repr\<close>, the validation by the settings model an argument too.
\<close>

datatype source_type = SDefault | STemplate | SRepoEnv | SManagedEnv | SExplicitEnvFile | SProcess

fun source_name :: "source_type \<Rightarrow> string" where
  "source_name SDefault = ''default''"
| "source_name STemplate = ''template''"
| "source_name SRepoEnv = ''repo_env''"
| "source_name SManagedEnv = ''managed_env''"
| "source_name SExplicitEnvFile = ''explicit_env_file''"
| "source_name SProcess = ''process''"

type_synonym env_values = "(string, string) pydict"

text \<open>\<open>ae_explicit\<close> is there when \<open>FCC_ENV_FILE\<close> is set; a missing file is an empty dictionary.\<close>

record admin_env =
  ae_template :: env_values
  ae_repo :: env_values
  ae_managed :: env_values
  ae_explicit :: "env_values option"
  ae_environ :: env_values
  ae_paths :: "string \<times> string \<times> string option"     \<comment> \<open>managed, repository, explicit\<close>

definition MASKED_SECRET :: string where "MASKED_SECRET = ''********''"

definition set_default :: "'k \<Rightarrow> 'v \<Rightarrow> ('k, 'v) pydict \<Rightarrow> ('k, 'v) pydict" where
  "set_default k v d = (if dict_has k d then d else dict_set k v d)"

definition get_str :: "'k \<Rightarrow> string \<Rightarrow> ('k, string) pydict \<Rightarrow> string" where
  "get_str k dflt d = (case dict_get k d of Some v \<Rightarrow> v | None \<Rightarrow> dflt)"

definition with_defaults :: "env_values \<Rightarrow> env_values" where
  "with_defaults d = fold (\<lambda>f. set_default (cf_key f) (cf_default f)) FIELDS d"

definition template_values :: "admin_env \<Rightarrow> env_values" where
  "template_values ae = with_defaults (ae_template ae)"

definition configured_env_files :: "admin_env \<Rightarrow> (source_type \<times> env_values) list" where
  "configured_env_files ae =
     [(SRepoEnv, ae_repo ae), (SManagedEnv, ae_managed ae)] @
     (case ae_explicit ae of Some d \<Rightarrow> [(SExplicitEnvFile, d)] | None \<Rightarrow> [])"

definition is_locked_source :: "source_type \<Rightarrow> bool" where
  "is_locked_source s \<longleftrightarrow> s = SProcess \<or> s = SExplicitEnvFile"

subsection \<open>The effective value of each field\<close>

type_synonym layered = "env_values \<times> (string, source_type) pydict"

definition put_value :: "source_type \<Rightarrow> string \<Rightarrow> string \<Rightarrow> layered \<Rightarrow> layered" where
  "put_value src k v st = (dict_set k v (fst st), dict_set k src (snd st))"

definition apply_file :: "source_type \<times> env_values \<Rightarrow> layered \<Rightarrow> layered" where
  "apply_file sf st = fold (\<lambda>kv st. if dict_has (fst kv) FIELD_BY_KEY then put_value (fst sf) (fst kv) (snd kv) st else st) (snd sf) st"

definition apply_environ :: "env_values \<Rightarrow> layered \<Rightarrow> layered" where
  "apply_environ env st =
     fold (\<lambda>k st. case dict_get k env of Some v \<Rightarrow> put_value SProcess k v st | None \<Rightarrow> st) (dict_keys FIELD_BY_KEY) st"

definition layers :: "admin_env \<Rightarrow> layered" where
  "layers ae =
     apply_environ (ae_environ ae)
       (fold apply_file (configured_env_files ae)
         (template_values ae,
          map (\<lambda>k. (k, if dict_has k (template_values ae) then STemplate else SDefault)) (dict_keys FIELD_BY_KEY)))"

type_synonym value_state = "(string, string \<times> source_type) pydict"

definition load_value_state :: "admin_env \<Rightarrow> value_state" where
  "load_value_state ae =
     map (\<lambda>k. (k, (get_str k [] (fst (layers ae)),
                   case dict_get k (snd (layers ae)) of Some s \<Rightarrow> s | None \<Rightarrow> SDefault))) (dict_keys FIELD_BY_KEY)"

subsection \<open>The response\<close>

definition display_value :: "config_field_spec \<Rightarrow> string \<Rightarrow> string" where
  "display_value f v = (if cf_secret f \<and> v \<noteq> [] then MASKED_SECRET else v)"

fun field_type_name :: "field_type \<Rightarrow> string" where
  "field_type_name TextField = ''text''"
| "field_type_name SecretField = ''secret''"
| "field_type_name NumberField = ''number''"
| "field_type_name BooleanField = ''boolean''"
| "field_type_name TriBooleanField = ''tri_boolean''"
| "field_type_name SelectField = ''select''"
| "field_type_name TextareaField = ''textarea''"

definition field_entry :: "value_state \<Rightarrow> config_field_spec \<Rightarrow> json result" where
  "field_entry state f =
     (case dict_get (cf_key f) state of
        None \<Rightarrow> Inl KeyError
      | Some (v, src) \<Rightarrow> Inr (JObj
          [(''key'', JStr (cf_key f)), (''label'', JStr (cf_label f)), (''section'', JStr (cf_section_id f)),
           (''type'', JStr (field_type_name (cf_field_type f))), (''value'', JStr (display_value f v)),
           (''configured'', JBool (py_strip v \<noteq> [])), (''source'', JStr (source_name src)),
           (''locked'', JBool (is_locked_source src)), (''secret'', JBool (cf_secret f)), (''advanced'', JBool (cf_advanced f)),
           (''restart_required'', JBool (cf_restart_required f)), (''session_sensitive'', JBool (cf_session_sensitive f)),
           (''options'', JList (map JStr (cf_options f))), (''description'', JStr (cf_description f))]))"

fun entries :: "value_state \<Rightarrow> config_field_spec list \<Rightarrow> json list result" where
  "entries state [] = Inr []"
| "entries state (f # fs) = bind_result (field_entry state f) (\<lambda>e. bind_result (entries state fs) (\<lambda>es. Inr (e # es)))"

definition section_entry :: "config_section_spec \<Rightarrow> json" where
  "section_entry s = JObj [(''id'', JStr (cs_section_id s)), (''label'', JStr (cs_label s)),
     (''description'', JStr (cs_description s)), (''advanced'', JBool (cs_advanced s))]"

fun value_for_settings_attr :: "value_state \<Rightarrow> string \<Rightarrow> config_field_spec list \<Rightarrow> string" where
  "value_for_settings_attr state attr [] = []"
| "value_for_settings_attr state attr (f # fs) =
     (if cf_settings_attr f = Some attr
      then (case dict_get (cf_key f) state of Some (v, _) \<Rightarrow> v | None \<Rightarrow> cf_default f)
      else value_for_settings_attr state attr fs)"

definition provider_status :: "value_state \<Rightarrow> string \<times> descriptor \<Rightarrow> json" where
  "provider_status state p =
     (case pd_credential_env (snd p) of
        None \<Rightarrow>
          let base_url = (case pd_base_url_attr (snd p) of None \<Rightarrow> [] | Some a \<Rightarrow> value_for_settings_attr state a FIELDS);
              missing = py_strip base_url = [] in
          JObj [(''provider_id'', JStr (fst p)), (''kind'', JStr ''local''),
            (''status'', JStr (if missing then ''missing_url'' else ''unknown'')),
            (''label'', JStr (if missing then ''Missing URL'' else ''Not checked'')),
            (''base_url'', JStr (if base_url \<noteq> [] then base_url
               else case pd_default_base_url (snd p) of Some u \<Rightarrow> u | None \<Rightarrow> []))]
      | Some env \<Rightarrow>
          let configured = py_strip (case dict_get env state of Some (v, _) \<Rightarrow> v | None \<Rightarrow> []) \<noteq> [] in
          JObj [(''provider_id'', JStr (fst p)), (''kind'', JStr ''remote''),
            (''status'', JStr (if configured then ''configured'' else ''missing_key'')),
            (''label'', JStr (if configured then ''Configured'' else ''Missing key'')), (''credential_env'', JStr env)])"

definition provider_config_status :: "value_state \<Rightarrow> json list" where
  "provider_config_status state = map (provider_status state) PROVIDER_CATALOG"

text \<open>\<open>load_config_response\<close> on the state it loads.\<close>

definition config_response :: "string \<times> string \<times> string option \<Rightarrow> value_state \<Rightarrow> json result" where
  "config_response paths state =
     bind_result (entries state FIELDS) (\<lambda>fields.
       Inr (JObj
         [(''sections'', JList (map section_entry SECTIONS)), (''fields'', JList fields),
          (''paths'', JObj [(''managed'', JStr (fst paths)), (''repo'', JStr (fst (snd paths))),
             (''explicit'', case snd (snd paths) of Some p \<Rightarrow> JStr p | None \<Rightarrow> JNull)]),
          (''provider_status'', JList (provider_config_status state))]))"

definition load_config_response :: "admin_env \<Rightarrow> json result" where
  "load_config_response ae = config_response (ae_paths ae) (load_value_state ae)"

subsection \<open>Updates\<close>

definition normalize_for_env :: "(json \<Rightarrow> string) \<Rightarrow> json \<Rightarrow> string" where
  "normalize_for_env repr v =
     (case v of JNull \<Rightarrow> [] | JBool b \<Rightarrow> if b then ''true'' else ''false'' | _ \<Rightarrow> py_str repr v)"

text \<open>The values before the updates: of the managed file over the template, or of the layers below it.\<close>

definition base_values :: "admin_env \<Rightarrow> value_state \<Rightarrow> env_values" where
  "base_values ae state =
     (let values = template_values ae in
      if ae_managed ae \<noteq> []
      then fold (\<lambda>kv d. if dict_has (fst kv) values then dict_set (fst kv) (snd kv) d else d) (ae_managed ae) values
      else fold (\<lambda>(k, v, src) d. if src \<in> {SRepoEnv, STemplate, SDefault} then dict_set k v d else d) state values)"

definition apply_update :: "(json \<Rightarrow> string) \<Rightarrow> value_state \<Rightarrow> string \<times> json \<Rightarrow> env_values \<Rightarrow> env_values" where
  "apply_update repr state u d =
     (case dict_get (fst u) FIELD_BY_KEY of
        None \<Rightarrow> d
      | Some f \<Rightarrow>
          if (case dict_get (fst u) state of Some (_, src) \<Rightarrow> is_locked_source src | None \<Rightarrow> False) then d
          else if cf_secret f \<and> snd u = JStr MASKED_SECRET then d
          else dict_set (fst u) (normalize_for_env repr (snd u)) d)"

definition target_values_with_updates :: "(json \<Rightarrow> string) \<Rightarrow> admin_env \<Rightarrow> (string, json) pydict \<Rightarrow> env_values" where
  "target_values_with_updates repr ae updates =
     (let state = load_value_state ae in
      with_defaults (fold (apply_update repr state) updates (base_values ae state)))"

definition effective_values_for_validation :: "admin_env \<Rightarrow> env_values \<Rightarrow> env_values" where
  "effective_values_for_validation ae target =
     fold (\<lambda>(k, v, src) d. if is_locked_source src then dict_set k v d else d) (load_value_state ae) target"

text \<open>\<open>input_key\<close> gives the alias of an attribute of the settings model, \<open>check\<close> its errors as location and message.\<close>

definition settings_kwargs :: "(string \<Rightarrow> string) \<Rightarrow> env_values \<Rightarrow> env_values" where
  "settings_kwargs input_key values =
     fold (\<lambda>f d. case cf_settings_attr f of
             None \<Rightarrow> d | Some a \<Rightarrow> dict_set (input_key a) (get_str (cf_key f) [] values) d) FIELDS []"

definition format_validation_errors :: "(string list \<times> string) list \<Rightarrow> string list" where
  "format_validation_errors es =
     map (\<lambda>(loc, msg). let l = py_join ''.'' loc in if l \<noteq> [] then l @ '': '' @ msg else msg) es"

definition validate_values ::
  "(string \<Rightarrow> string) \<Rightarrow> (env_values \<Rightarrow> (string list \<times> string) list option) \<Rightarrow> env_values \<Rightarrow> bool \<times> string list" where
  "validate_values input_key check values =
     (case check (settings_kwargs input_key values) of
        None \<Rightarrow> (True, [])
      | Some es \<Rightarrow> (False, format_validation_errors es))"

subsection \<open>The file\<close>

fun escape_char :: "char \<Rightarrow> string" where
  "escape_char c = (if c = CHR 0x5C then [CHR 0x5C, CHR 0x5C] else if c = CHR 0x22 then [CHR 0x5C, CHR 0x22] else [c])"

definition needs_quotes :: "string \<Rightarrow> bool" where
  "needs_quotes v \<longleftrightarrow> list_ex py_space v \<or> list_ex (\<lambda>c. c \<in> {CHR 0x22, CHR ''#'', CHR ''='', CHR ''$''}) v"

definition quote_env_value :: "string \<Rightarrow> string" where
  "quote_env_value v =
     (if v = [] then []
      else if needs_quotes v then [CHR 0x22] @ concat (map escape_char v) @ [CHR 0x22] else v)"

definition field_line :: "bool \<Rightarrow> env_values \<Rightarrow> config_field_spec \<Rightarrow> string" where
  "field_line masked values f =
     (let v = get_str (cf_key f) (cf_default f) values;
          v = (if masked \<and> cf_secret f \<and> v \<noteq> [] then MASKED_SECRET else v)
      in cf_key f @ ''='' @ quote_env_value v)"

definition section_lines :: "bool \<Rightarrow> env_values \<Rightarrow> config_section_spec \<Rightarrow> string list" where
  "section_lines masked values s =
     [''# '' @ cs_label s] @ map (field_line masked values) (filter (\<lambda>f. cf_section_id f = cs_section_id s) FIELDS) @ [[]]"

definition render_env_file :: "bool \<Rightarrow> env_values \<Rightarrow> string" where
  "render_env_file masked values =
     py_rstrip (py_join [CHR 0x0A]
       ([''# Managed by SEPCC /admin.'', ''# Edit in the server UI when possible.'', []] @
        concat (map (section_lines masked values) SECTIONS))) @ [CHR 0x0A]"

record validation =
  va_valid :: bool
  va_errors :: "string list"
  va_preview :: string

definition validate_updates ::
  "(json \<Rightarrow> string) \<Rightarrow> (string \<Rightarrow> string) \<Rightarrow> (env_values \<Rightarrow> (string list \<times> string) list option) \<Rightarrow> admin_env \<Rightarrow>
   (string, json) pydict \<Rightarrow> validation" where
  "validate_updates repr input_key check ae updates =
     (let target = target_values_with_updates repr ae updates;
          v = validate_values input_key check (effective_values_for_validation ae target)
      in \<lparr>va_valid = fst v, va_errors = snd v, va_preview = render_env_file True target\<rparr>)"

definition changed_pending_fields :: "(json \<Rightarrow> string) \<Rightarrow> admin_env \<Rightarrow> (string, json) pydict \<Rightarrow> string list" where
  "changed_pending_fields repr ae updates =
     map fst (filter (\<lambda>(k, v).
       (case dict_get k FIELD_BY_KEY of
          None \<Rightarrow> False
        | Some f \<Rightarrow> (cf_restart_required f \<or> cf_session_sensitive f) \<and>
            normalize_for_env repr v \<noteq> (case dict_get k (load_value_state ae) of Some (w, _) \<Rightarrow> w | None \<Rightarrow> []))) updates)"

text \<open>The answer of \<open>write_managed_env\<close> and the text it writes, if any.\<close>

record applied =
  ap_applied :: bool
  ap_validation :: validation
  ap_pending :: "string list"

definition write_managed_env ::
  "(json \<Rightarrow> string) \<Rightarrow> (string \<Rightarrow> string) \<Rightarrow> (env_values \<Rightarrow> (string list \<times> string) list option) \<Rightarrow> admin_env \<Rightarrow>
   (string, json) pydict \<Rightarrow> applied \<times> string option" where
  "write_managed_env repr input_key check ae updates =
     (let v = validate_updates repr input_key check ae updates in
      if \<not> va_valid v then (\<lparr>ap_applied = False, ap_validation = v, ap_pending = []\<rparr>, None)
      else
        let target = target_values_with_updates repr ae updates in
        (\<lparr>ap_applied = True, ap_validation = \<lparr>va_valid = True, va_errors = [], va_preview = render_env_file True target\<rparr>,
          ap_pending = changed_pending_fields repr ae updates\<rparr>,
         Some (render_env_file False target)))"

definition env_keys :: "string set" where "env_keys = cf_key ` set FIELDS"

definition fields_with_attrs :: "config_field_spec list" where
  "fields_with_attrs = filter (\<lambda>f. cf_settings_attr f \<noteq> None) FIELDS"

subsection \<open>The routes\<close>

definition is_loopback :: "ip_addr \<Rightarrow> bool" where
  "is_loopback ip =
     (case ip of
        V4 a \<Rightarrow> in_net 8 (ip4 127 0 0 0) a
      | V6 a \<Rightarrow> (case ipv4_mapped a of Some b \<Rightarrow> in_net 8 (ip4 127 0 0 0) b | None \<Rightarrow> a = 1))"

definition strip_brackets :: "string \<Rightarrow> string" where
  "strip_brackets s = rev (dropWhile (\<lambda>c. c \<in> set ''[]'') (rev (dropWhile (\<lambda>c. c \<in> set ''[]'') s)))"

definition is_loopback_host :: "(string \<Rightarrow> ip_addr option) \<Rightarrow> string option \<Rightarrow> bool" where
  "is_loopback_host ip_of host =
     (case host of
        None \<Rightarrow> False
      | Some h \<Rightarrow>
          let n = py_lower (strip_brackets (py_strip h)) in
          if n = ''localhost'' then True
          else (case ip_of n of Some ip \<Rightarrow> is_loopback ip | None \<Rightarrow> False))"

text \<open>\<open>hostname_of\<close> is \<open>urlsplit(origin).hostname\<close>.\<close>

definition origin_is_local :: "(string \<Rightarrow> ip_addr option) \<Rightarrow> (string \<Rightarrow> string option) \<Rightarrow> string option \<Rightarrow> bool" where
  "origin_is_local ip_of hostname_of origin =
     (case origin of None \<Rightarrow> True | Some o' \<Rightarrow> o' = [] \<or> is_loopback_host ip_of (hostname_of o'))"

definition require_loopback_admin ::
  "(string \<Rightarrow> ip_addr option) \<Rightarrow> (string \<Rightarrow> string option) \<Rightarrow> string option \<Rightarrow> string option \<Rightarrow> (int \<times> string) option" where
  "require_loopback_admin ip_of hostname_of client_host origin =
     (if \<not> is_loopback_host ip_of client_host then Some (403, ''Admin UI is local-only'')
      else if \<not> origin_is_local ip_of hostname_of origin then Some (403, ''Admin UI is local-only'')
      else None)"

definition filtered_values :: "(string, json) pydict \<Rightarrow> (string, json) pydict" where
  "filtered_values values = filter (\<lambda>kv. dict_has (fst kv) FIELD_BY_KEY) values"

definition local_provider_url :: "string \<Rightarrow> env_values \<Rightarrow> string" where
  "local_provider_url provider_id values =
     (if provider_id = ''lmstudio'' then get_str ''LM_STUDIO_BASE_URL'' [] values
      else if provider_id = ''llamacpp'' then get_str ''LLAMACPP_BASE_URL'' [] values
      else if provider_id = ''ollama'' then get_str ''OLLAMA_BASE_URL'' [] values
      else [])"

text \<open>\<open>get\<close> asks a URL: a status code or the name of an exception.\<close>

definition check_local_provider :: "(string \<Rightarrow> string + int) \<Rightarrow> string \<Rightarrow> string \<Rightarrow> string \<Rightarrow> json" where
  "check_local_provider get provider_id base_url path =
     (let clean_url = rev (dropWhile (\<lambda>c. c = CHR ''/'') (rev (py_strip base_url)));
          answer = (\<lambda>status label rest. JObj ([(''provider_id'', JStr provider_id), (''status'', JStr status), (''label'', JStr label),
                     (''base_url'', JStr base_url)] @ rest)) in
      if clean_url = [] then answer ''missing_url'' ''Missing URL'' []
      else case get (clean_url @ path) of
        Inr code \<Rightarrow>
          if 200 \<le> code \<and> code < 300 then answer ''reachable'' ''Reachable'' [(''status_code'', JInt code)]
          else answer ''offline'' ''Offline'' [(''status_code'', JInt code)]
      | Inl e \<Rightarrow> answer ''offline'' ''Offline'' [(''error_type'', JStr e)])"

definition LOCAL_PROVIDER_PATHS :: "(string, string) pydict" where
  "LOCAL_PROVIDER_PATHS = [(''lmstudio'', ''/models''), (''llamacpp'', ''/models''), (''ollama'', ''/api/tags'')]"

definition local_provider_status :: "(string \<Rightarrow> string + int) \<Rightarrow> env_values \<Rightarrow> json list" where
  "local_provider_status get values =
     map (\<lambda>(p, path). check_local_provider get p (local_provider_url p values) path) LOCAL_PROVIDER_PATHS"

end
