(* ===== verification/AdminSound.thy ===== *)
theory AdminSound
  imports AdminConfig
begin

section \<open>What the admin page promises, and a setting it loses\<close>

text \<open>
  The precedence of the layers, secrets that never reach a response, the exact effect of an update, and the settings of the
  repository's file that a save replaces by defaults.
\<close>

subsection \<open>Facts of the tables\<close>

lemma field_keys_distinct: "distinct (map cf_key FIELDS)"
  by code_simp

lemma field_sections_known: "list_all (\<lambda>f. cf_section_id f \<in> set (map cs_section_id SECTIONS)) FIELDS"
  by code_simp

lemma secret_fields_typed: "list_all (\<lambda>f. cf_secret f \<longleftrightarrow> cf_field_type f = SecretField) FIELDS"
  by code_simp

lemma credentials_secret:
  "list_all (\<lambda>p. case pd_credential_env (snd p) of
      None \<Rightarrow> True | Some e \<Rightarrow> list_ex (\<lambda>f. cf_key f = e \<and> cf_secret f) FIELDS) PROVIDER_CATALOG"
  by code_simp

lemma base_urls_public:
  "list_all (\<lambda>p. case pd_base_url_attr (snd p) of
      None \<Rightarrow> True | Some a \<Rightarrow> list_all (\<lambda>f. cf_settings_attr f = Some a \<longrightarrow> \<not> cf_secret f) FIELDS) PROVIDER_CATALOG"
  by code_simp

lemma keys_FIELD_BY_KEY: "dict_keys FIELD_BY_KEY = map cf_key FIELDS"
  by (simp add: FIELD_BY_KEY_def dict_keys_def)

lemma FIELD_BY_KEY_ok: "dict_ok FIELD_BY_KEY"
  using field_keys_distinct by (simp add: dict_ok_def keys_FIELD_BY_KEY)

lemma field_get: "f \<in> set FIELDS \<Longrightarrow> dict_get (cf_key f) FIELD_BY_KEY = Some f"
  by (rule dict_mem_get [OF FIELD_BY_KEY_ok]) (simp add: FIELD_BY_KEY_def)

subsection \<open>Folds over dictionaries\<close>

lemma get_set_default: "dict_get k (set_default j v d) = (if k = j \<and> dict_get j d = None then Some v else dict_get k d)"
  using pd.lookup_None_iff [of j d] by (auto simp: set_default_def)

lemma get_with_defaults:
  assumes "f \<in> set FIELDS"
  shows "dict_get (cf_key f) (with_defaults d) = Some (get_str (cf_key f) (cf_default f) d)"
proof -
  have other: "dict_get k (fold (\<lambda>f. set_default (cf_key f) (cf_default f)) fs d) = dict_get k d"
    if "k \<notin> cf_key ` set fs" for k fs d
    using that by (induction fs arbitrary: d) (auto simp: get_set_default)
  have "dict_get (cf_key f) (fold (\<lambda>f. set_default (cf_key f) (cf_default f)) fs d) = Some (get_str (cf_key f) (cf_default f) d)"
    if "f \<in> set fs" "distinct (map cf_key fs)" for fs
    using that
  proof (induction fs arbitrary: d)
    case (Cons g fs)
    show ?case
    proof (cases "f = g")
      case True
      then have "cf_key f \<notin> cf_key ` set fs" using Cons.prems(2) by auto
      with True show ?thesis by (simp add: other get_set_default get_str_def split: option.split)
    next
      case False
      then have "f \<in> set fs" using Cons.prems(1) by simp
      then have "cf_key f \<noteq> cf_key g" using Cons.prems(2) by (metis distinct.simps(2) image_eqI list.simps(9) list.set_map)
      with False Cons.prems show ?thesis by (simp add: Cons.IH get_set_default get_str_def)
    qed
  qed simp
  from this [OF assms field_keys_distinct] show ?thesis by (simp add: with_defaults_def)
qed

text \<open>A fold of puts over the entries of a dictionary reads as the dictionary first.\<close>

lemma get_fold_set:
  assumes "dict_ok e"
  shows "dict_get k (fold (\<lambda>kv d. if P (fst kv) then dict_set (fst kv) (snd kv) d else d) e d) =
    (if P k then (case dict_get k e of Some v \<Rightarrow> Some v | None \<Rightarrow> dict_get k d) else dict_get k d)"
  using assms
proof (induction e arbitrary: d)
  case (Cons p e)
  obtain j v where p: "p = (j, v)" by (cases p)
  have "dict_get j e = None" "dict_ok e"
    using Cons.prems pd.lookup_None_iff [of j e] by (auto simp: p dict_ok_def)
  with Cons.IH show ?case by (auto simp: p split: option.split)
qed simp

lemma put_value_get:
  "dict_get k (fst (put_value src j v st)) = (if k = j then Some v else dict_get k (fst st))"
  "dict_get k (snd (put_value src j v st)) = (if k = j then Some src else dict_get k (snd st))"
  by (simp_all add: put_value_def)

lemma apply_file_Cons:
  "apply_file (src, (j, v) # e) st = apply_file (src, e) (if dict_has j FIELD_BY_KEY then put_value src j v st else st)"
  by (simp add: apply_file_def cong: if_cong)

lemma apply_file_get:
  assumes "dict_ok e" "dict_has k FIELD_BY_KEY"
  shows "dict_get k (fst (apply_file (src, e) st)) = (case dict_get k e of Some v \<Rightarrow> Some v | None \<Rightarrow> dict_get k (fst st))"
    and "dict_get k (snd (apply_file (src, e) st)) = (case dict_get k e of Some v \<Rightarrow> Some src | None \<Rightarrow> dict_get k (snd st))"
proof -
  have "dict_get k (fst (apply_file (src, e) st)) = (case dict_get k e of Some v \<Rightarrow> Some v | None \<Rightarrow> dict_get k (fst st)) \<and>
      dict_get k (snd (apply_file (src, e) st)) = (case dict_get k e of Some v \<Rightarrow> Some src | None \<Rightarrow> dict_get k (snd st))"
    using assms(1)
  proof (induction e arbitrary: st)
    case (Cons p e)
    obtain j v where p: "p = (j, v)" by (cases p)
    have "dict_get j e = None" "dict_ok e"
      using Cons.prems pd.lookup_None_iff [of j e] by (auto simp: p dict_ok_def)
    with Cons.IH show ?case
      using assms(2) by (auto simp: p apply_file_Cons put_value_get split: option.split)
  qed (simp add: apply_file_def)
  then show "dict_get k (fst (apply_file (src, e) st)) = (case dict_get k e of Some v \<Rightarrow> Some v | None \<Rightarrow> dict_get k (fst st))"
    and "dict_get k (snd (apply_file (src, e) st)) = (case dict_get k e of Some v \<Rightarrow> Some src | None \<Rightarrow> dict_get k (snd st))"
    by simp_all
qed

lemma apply_environ_get:
  assumes "dict_has k FIELD_BY_KEY"
  shows "dict_get k (fst (apply_environ env st)) = (case dict_get k env of Some v \<Rightarrow> Some v | None \<Rightarrow> dict_get k (fst st)) \<and>
    dict_get k (snd (apply_environ env st)) = (case dict_get k env of Some v \<Rightarrow> Some SProcess | None \<Rightarrow> dict_get k (snd st))"
proof -
  have "dict_get k (fst (fold (\<lambda>k st. case dict_get k env of Some v \<Rightarrow> put_value SProcess k v st | None \<Rightarrow> st) ks st)) =
        (if k \<in> set ks then (case dict_get k env of Some v \<Rightarrow> Some v | None \<Rightarrow> dict_get k (fst st)) else dict_get k (fst st)) \<and>
      dict_get k (snd (fold (\<lambda>k st. case dict_get k env of Some v \<Rightarrow> put_value SProcess k v st | None \<Rightarrow> st) ks st)) =
        (if k \<in> set ks then (case dict_get k env of Some v \<Rightarrow> Some SProcess | None \<Rightarrow> dict_get k (snd st)) else dict_get k (snd st))" for ks
    by (induction ks arbitrary: st) (auto simp: put_value_def split: option.splits)
  with assms show ?thesis by (simp add: apply_environ_def)
qed

subsection \<open>The precedence of the layers\<close>

definition files_ok :: "admin_env \<Rightarrow> bool" where
  "files_ok ae \<longleftrightarrow> dict_ok (ae_repo ae) \<and> dict_ok (ae_managed ae) \<and> (\<forall>d \<in> set_option (ae_explicit ae). dict_ok d)"

definition layer_of :: "admin_env \<Rightarrow> config_field_spec \<Rightarrow> string \<times> source_type" where
  "layer_of ae f =
     (let k = cf_key f in
      case dict_get k (ae_environ ae) of Some v \<Rightarrow> (v, SProcess)
      | None \<Rightarrow> (case Option.bind (ae_explicit ae) (dict_get k) of Some v \<Rightarrow> (v, SExplicitEnvFile)
      | None \<Rightarrow> (case dict_get k (ae_managed ae) of Some v \<Rightarrow> (v, SManagedEnv)
      | None \<Rightarrow> (case dict_get k (ae_repo ae) of Some v \<Rightarrow> (v, SRepoEnv)
      | None \<Rightarrow> (get_str k (cf_default f) (ae_template ae), STemplate)))))"

lemma state_get:
  assumes "files_ok ae" "f \<in> set FIELDS"
  shows "dict_get (cf_key f) (load_value_state ae) = Some (layer_of ae f)"
proof -
  let ?k = "cf_key f"
  let ?st = "(template_values ae, map (\<lambda>k. (k, if dict_has k (template_values ae) then STemplate else SDefault)) (dict_keys FIELD_BY_KEY))"
  have h: "dict_has ?k FIELD_BY_KEY" using assms(2) by (simp add: keys_FIELD_BY_KEY)
  have m: "dict_get k (map (\<lambda>k. (k, g k)) ks) = (if k \<in> set ks then Some (g k) else None)" for k :: string and g :: "string \<Rightarrow> 'v" and ks
    by (induction ks) auto
  have m': "dict_get k (map (\<lambda>k. (k, g k)) ks) = (if k \<in> set ks then Some (g k) else None)" for k :: string and g :: "string \<Rightarrow> source_type" and ks
    by (induction ks) auto
  have t: "dict_get ?k (template_values ae) = Some (get_str ?k (cf_default f) (ae_template ae))"
    unfolding template_values_def by (rule get_with_defaults [OF assms(2)])
  have s: "dict_get ?k (snd ?st) = Some STemplate"
    using h t pd.lookup_SomeD [OF t] by (simp add: m')
  have l: "dict_get ?k (fst (layers ae)) = Some (fst (layer_of ae f)) \<and> dict_get ?k (snd (layers ae)) = Some (snd (layer_of ae f))"
    using assms(1) h t s
    by (cases "ae_explicit ae")
       (auto simp: layers_def configured_env_files_def apply_environ_get apply_file_get files_ok_def layer_of_def Let_def
         split: option.split)
  have m2: "dict_get k (map (\<lambda>k. (k, g k)) ks) = (if k \<in> set ks then Some (g k) else None)" for k :: string and g :: "string \<Rightarrow> string \<times> source_type" and ks
    by (induction ks) auto
  show ?thesis
    using h l unfolding load_value_state_def by (simp add: m2 get_str_def)
qed

subsection \<open>Secrets do not reach a response\<close>

text \<open>Two states that differ in the values of secrets only, and neither in whether they are empty nor in whether they are blank.\<close>

definition alike :: "bool \<Rightarrow> string \<Rightarrow> string \<Rightarrow> bool" where
  "alike secret v v' \<longleftrightarrow> (if secret then (v = [] \<longleftrightarrow> v' = []) \<and> (py_strip v = [] \<longleftrightarrow> py_strip v' = []) else v = v')"

definition states_alike :: "value_state \<Rightarrow> value_state \<Rightarrow> bool" where
  "states_alike st st' \<longleftrightarrow> (\<forall>f \<in> set FIELDS.
     \<exists>v v' src. dict_get (cf_key f) st = Some (v, src) \<and> dict_get (cf_key f) st' = Some (v', src) \<and> alike (cf_secret f) v v')"

definition values_alike :: "env_values \<Rightarrow> env_values \<Rightarrow> bool" where
  "values_alike d d' \<longleftrightarrow> (\<forall>f \<in> set FIELDS.
     alike (cf_secret f) (get_str (cf_key f) (cf_default f) d) (get_str (cf_key f) (cf_default f) d'))"

lemma field_entry_alike:
  assumes "states_alike st st'" "f \<in> set FIELDS"
  shows "field_entry st f = field_entry st' f"
proof -
  obtain v v' src where "dict_get (cf_key f) st = Some (v, src)" "dict_get (cf_key f) st' = Some (v', src)" "alike (cf_secret f) v v'"
    using assms by (auto simp: states_alike_def)
  then show ?thesis by (cases "cf_secret f") (simp_all add: field_entry_def alike_def display_value_def)
qed

lemma entries_alike: "states_alike st st' \<Longrightarrow> set fs \<subseteq> set FIELDS \<Longrightarrow> entries st fs = entries st' fs"
  by (induction fs) (simp_all add: field_entry_alike)

lemma attr_value_alike:
  assumes "states_alike st st'" "list_all (\<lambda>f. cf_settings_attr f = Some a \<longrightarrow> \<not> cf_secret f) fs" "set fs \<subseteq> set FIELDS"
  shows "value_for_settings_attr st a fs = value_for_settings_attr st' a fs"
  using assms(2,3)
proof (induction fs)
  case (Cons f fs)
  obtain v v' src where "dict_get (cf_key f) st = Some (v, src)" "dict_get (cf_key f) st' = Some (v', src)" "alike (cf_secret f) v v'"
    using assms(1) Cons.prems(2) by (auto simp: states_alike_def)
  with Cons show ?case by (auto simp: alike_def)
qed simp

lemma provider_status_alike:
  assumes "states_alike st st'" "p \<in> set PROVIDER_CATALOG"
  shows "provider_status st p = provider_status st' p"
proof (cases "pd_credential_env (snd p)")
  case None
  have "value_for_settings_attr st a FIELDS = value_for_settings_attr st' a FIELDS" if "pd_base_url_attr (snd p) = Some a" for a
    using base_urls_public assms that by (intro attr_value_alike) (fastforce simp: list_all_iff split: option.splits)+
  with None show ?thesis by (cases "pd_base_url_attr (snd p)") (simp_all add: provider_status_def)
next
  case (Some e)
  then obtain f where f: "f \<in> set FIELDS" "cf_key f = e" "cf_secret f"
    using credentials_secret assms(2) by (fastforce simp: list_all_iff list_ex_iff)
  then obtain v v' src where "dict_get e st = Some (v, src)" "dict_get e st' = Some (v', src)" "alike True v v'"
    using assms(1) by (fastforce simp: states_alike_def)
  with Some show ?thesis by (simp add: provider_status_def alike_def)
qed

lemma response_alike: "states_alike st st' \<Longrightarrow> config_response paths st = config_response paths st'"
proof -
  assume a: "states_alike st st'"
  have "provider_config_status st = provider_config_status st'"
    unfolding provider_config_status_def by (rule map_cong [OF refl]) (rule provider_status_alike [OF a])
  then show ?thesis using entries_alike [OF a order_refl] by (simp add: config_response_def)
qed

lemma field_line_alike:
  assumes "values_alike d d'" "f \<in> set FIELDS"
  shows "field_line True d f = field_line True d' f"
proof -
  have "alike (cf_secret f) (get_str (cf_key f) (cf_default f) d) (get_str (cf_key f) (cf_default f) d')"
    using assms by (simp add: values_alike_def)
  then show ?thesis by (cases "cf_secret f") (auto simp: field_line_def alike_def Let_def)
qed

lemma preview_alike: "values_alike d d' \<Longrightarrow> render_env_file True d = render_env_file True d'"
proof -
  assume a: "values_alike d d'"
  have "section_lines True d = section_lines True d'"
    by (rule ext) (simp add: section_lines_def field_line_alike [OF a] cong: map_cong)
  then show ?thesis by (simp only: render_env_file_def)
qed

text \<open>C13. 
  C0. The admin page discloses no secret: its configuration response is the same for any two environments that differ only in
  the values of secret settings (not in which are set), so are the statuses of the providers, and so is the
  preview of the file for any two sets of values that differ only so.
\<close>

theorem admin_hides_secrets:
  assumes "states_alike (load_value_state ae) (load_value_state ae')" "ae_paths ae' = ae_paths ae" "values_alike d d'"
  shows "load_config_response ae = load_config_response ae' \<and> render_env_file True d = render_env_file True d'"
  using response_alike [OF assms(1)] assms(2) preview_alike [OF assms(3)] by (simp add: load_config_response_def)

definition no_env :: admin_env where
  "no_env = \<lparr>ae_template = [], ae_repo = [], ae_managed = [], ae_explicit = None, ae_environ = [], ae_paths = (''m'', ''r'', None)\<rparr>"

definition groq_env :: "string \<Rightarrow> admin_env" where
  "groq_env key = no_env\<lparr>ae_repo := [(''GROQ_API_KEY'', key)]\<rparr>"

lemma groq_env_layer:
  "layer_of (groq_env key) f = (if cf_key f = ''GROQ_API_KEY'' then (key, SRepoEnv) else (cf_default f, STemplate))"
  by (simp add: layer_of_def groq_env_def no_env_def get_str_def Let_def)

lemma groq_secret: "list_all (\<lambda>f. cf_key f = ''GROQ_API_KEY'' \<longrightarrow> cf_secret f) FIELDS"
  by code_simp

theorem admin_hides_secrets_witness:
  "load_config_response (groq_env ''gsk-1'') = load_config_response (groq_env ''gsk-22'') \<and>
   render_env_file True [(''GROQ_API_KEY'', ''gsk-1'')] = render_env_file True [(''GROQ_API_KEY'', ''gsk-22'')]"
proof (rule admin_hides_secrets)
  have b: "py_strip ''gsk-1'' \<noteq> []" "py_strip ''gsk-22'' \<noteq> []"
    by (simp_all add: py_strip_def py_lstrip_def py_rstrip_def py_space_def)
  have ok: "files_ok (groq_env key)" for key
    by (simp add: files_ok_def groq_env_def no_env_def dict_ok_def)
  show "states_alike (load_value_state (groq_env ''gsk-1'')) (load_value_state (groq_env ''gsk-22''))"
    unfolding states_alike_def using groq_secret b
    by (auto simp: state_get [OF ok] groq_env_layer alike_def list_all_iff)
  show "values_alike [(''GROQ_API_KEY'', ''gsk-1'')] [(''GROQ_API_KEY'', ''gsk-22'')]"
    unfolding values_alike_def using groq_secret b by (auto simp: get_str_def alike_def list_all_iff)
qed (simp add: groq_env_def no_env_def)

subsection \<open>What a save writes\<close>

text \<open>The value of a field before the updates.\<close>

definition base_value :: "admin_env \<Rightarrow> config_field_spec \<Rightarrow> string" where
  "base_value ae f =
     (let t = get_str (cf_key f) (cf_default f) (ae_template ae) in
      if ae_managed ae \<noteq> [] then get_str (cf_key f) t (ae_managed ae)
      else if snd (layer_of ae f) \<in> {SRepoEnv, STemplate, SDefault} then fst (layer_of ae f) else t)"

lemma template_get: "f \<in> set FIELDS \<Longrightarrow> dict_get (cf_key f) (template_values ae) = Some (get_str (cf_key f) (cf_default f) (ae_template ae))"
  unfolding template_values_def by (rule get_with_defaults)

lemma state_keys: "dict_keys (load_value_state ae) = map cf_key FIELDS"
  by (simp add: load_value_state_def dict_keys_def keys_FIELD_BY_KEY [unfolded dict_keys_def] comp_def)

lemma state_ok: "dict_ok (load_value_state ae)"
  using field_keys_distinct by (simp add: dict_ok_def state_keys)

lemma fold_state_get:
  assumes "dict_ok st"
  shows "dict_get k (fold (\<lambda>(k, v, src) d. if P src then dict_set k v d else d) st d) =
    (case dict_get k st of Some (v, src) \<Rightarrow> if P src then Some v else dict_get k d | None \<Rightarrow> dict_get k d)"
  using assms
proof (induction st arbitrary: d)
  case (Cons p st)
  obtain j v src where p: "p = (j, v, src)" by (cases p)
  have "dict_get j st = None" "dict_ok st"
    using Cons.prems pd.lookup_None_iff [of j st] by (auto simp: p dict_ok_def)
  with Cons.IH show ?case by (auto simp: p split: option.split)
qed simp

lemma base_get:
  assumes "files_ok ae" "f \<in> set FIELDS"
  shows "dict_get (cf_key f) (base_values ae (load_value_state ae)) = Some (base_value ae f)"
proof (cases "ae_managed ae = []")
  case True
  then show ?thesis
    using template_get [OF assms(2), of ae] state_get [OF assms] fold_state_get [OF state_ok, of "cf_key f" "\<lambda>src. src \<in> {SRepoEnv, STemplate, SDefault}" ae "template_values ae"]
    by (cases "layer_of ae f") (simp add: base_values_def base_value_def Let_def)
next
  case False
  have "dict_ok (ae_managed ae)" using assms(1) by (simp add: files_ok_def)
  from get_fold_set [OF this, of "cf_key f" "\<lambda>k. dict_has k (template_values ae)" "template_values ae"] False show ?thesis
    using template_get [OF assms(2), of ae] pd.lookup_SomeD [OF template_get [OF assms(2), of ae]]
    by (simp add: base_values_def base_value_def Let_def get_str_def split: option.split)
qed

text \<open>The effect of the updates on one field.\<close>

definition updated_value :: "(json \<Rightarrow> string) \<Rightarrow> admin_env \<Rightarrow> (string, json) pydict \<Rightarrow> config_field_spec \<Rightarrow> string" where
  "updated_value repr ae updates f =
     (case dict_get (cf_key f) updates of
        None \<Rightarrow> base_value ae f
      | Some v \<Rightarrow>
          if is_locked_source (snd (layer_of ae f)) \<or> cf_secret f \<and> v = JStr MASKED_SECRET then base_value ae f
          else normalize_for_env repr v)"

lemma apply_updates_other:
  "k \<notin> set (dict_keys updates) \<Longrightarrow> dict_get k (fold (apply_update repr st) updates d) = dict_get k d"
proof (induction updates arbitrary: d)
  case (Cons u updates)
  obtain j v where u: "u = (j, v)" by (cases u)
  have "dict_get k (apply_update repr st u d) = dict_get k d"
    using Cons.prems by (auto simp: u apply_update_def split: option.split prod.split)
  with Cons show ?case by (simp add: u)
qed simp

lemma apply_updates_get:
  assumes "files_ok ae" "f \<in> set FIELDS" "dict_ok updates" "dict_get (cf_key f) d = Some (base_value ae f)"
  shows "dict_get (cf_key f) (fold (apply_update repr (load_value_state ae)) updates d) = Some (updated_value repr ae updates f)"
  using assms(3,4)
proof (induction updates arbitrary: d)
  case Nil
  then show ?case by (simp add: updated_value_def)
next
  case (Cons u updates)
  obtain j v where u: "u = (j, v)" by (cases u)
  have n: "j \<notin> set (dict_keys updates)" "dict_ok updates" using Cons.prems(1) by (auto simp: u dict_ok_def)
  show ?case
  proof (cases "j = cf_key f")
    case True
    have "dict_get (cf_key f) (apply_update repr (load_value_state ae) u d) = Some (updated_value repr ae (u # updates) f)"
      using True Cons.prems(2) state_get [OF assms(1,2)] field_get [OF assms(2)]
      by (cases "layer_of ae f") (simp add: u apply_update_def updated_value_def)
    with apply_updates_other [OF n(1)] True show ?thesis by simp
  next
    case False
    then have "dict_get (cf_key f) (apply_update repr (load_value_state ae) u d) = Some (base_value ae f)"
      using Cons.prems(2) by (auto simp: u apply_update_def split: option.split prod.split)
    from Cons.IH [OF n(2) this] False show ?thesis by (simp add: u updated_value_def)
  qed
qed

lemma target_get:
  assumes "files_ok ae" "f \<in> set FIELDS" "dict_ok updates"
  shows "dict_get (cf_key f) (target_values_with_updates repr ae updates) = Some (updated_value repr ae updates f)"
  unfolding target_values_with_updates_def Let_def get_with_defaults [OF assms(2)]
  by (simp add: get_str_def apply_updates_get [OF assms base_get [OF assms(1,2)]])

text \<open>
  C0. A save changes exactly what it is asked to: a field gets the submitted value unless a layer above locks it or the value is
  the mask of its secret, and keeps the value of the managed file, or of the layers below when there is none, otherwise.
\<close>

theorem save_exact:
  assumes "files_ok ae" "f \<in> set FIELDS" "dict_ok updates"
  shows "dict_get (cf_key f) (target_values_with_updates repr ae updates) =
    Some (case dict_get (cf_key f) updates of
        None \<Rightarrow> base_value ae f
      | Some v \<Rightarrow>
          if is_locked_source (snd (layer_of ae f)) \<or> cf_secret f \<and> v = JStr MASKED_SECRET then base_value ae f
          else normalize_for_env repr v)"
  using target_get [OF assms] by (simp add: updated_value_def)

text \<open>C32. 
  C0. A save loses settings of the repository's file: a setting whose effective value comes from there, with a managed file that
  has other settings, is replaced by its template value in the file the save writes, whatever is saved, and the
  written value then hides that of the repository.
\<close>

theorem save_loses_repo_setting:
  assumes "files_ok ae" "f \<in> set FIELDS" "dict_ok updates" "dict_get (cf_key f) updates = None"
    and "dict_get (cf_key f) (load_value_state ae) = Some (v, SRepoEnv)" "ae_managed ae \<noteq> []"
    and "dict_ok written" "dict_get (cf_key f) written = dict_get (cf_key f) (target_values_with_updates repr ae updates)"
  shows "dict_get (cf_key f) (load_value_state (ae\<lparr>ae_managed := written\<rparr>)) =
    Some (get_str (cf_key f) (cf_default f) (ae_template ae), SManagedEnv)"
proof -
  have l: "layer_of ae f = (v, SRepoEnv)" using state_get [OF assms(1,2)] assms(5) by simp
  then have none: "dict_get (cf_key f) (ae_managed ae) = None" "dict_get (cf_key f) (ae_environ ae) = None"
      "Option.bind (ae_explicit ae) (dict_get (cf_key f)) = None"
    by (auto simp: layer_of_def Let_def split: option.splits)
  have "base_value ae f = get_str (cf_key f) (cf_default f) (ae_template ae)"
    using none(1) assms(6) by (simp add: base_value_def Let_def get_str_def)
  then have w: "dict_get (cf_key f) written = Some (get_str (cf_key f) (cf_default f) (ae_template ae))"
    using target_get [OF assms(1-3), of repr] assms(4,8) by (simp add: updated_value_def)
  have "files_ok (ae\<lparr>ae_managed := written\<rparr>)" using assms(1,7) by (simp add: files_ok_def)
  from state_get [OF this assms(2)] show ?thesis
    using none w by (simp add: layer_of_def Let_def)
qed

definition nim_field :: config_field_spec where
  "nim_field = hd FIELDS"

lemma nim_field_facts: "nim_field \<in> set FIELDS" "cf_key nim_field = ''NVIDIA_NIM_API_KEY''" "cf_default nim_field = []"
  by (simp_all add: nim_field_def FIELDS_def fields_1_def field_spec_def)

definition repo_key_env :: admin_env where
  "repo_key_env = no_env\<lparr>ae_repo := [(''NVIDIA_NIM_API_KEY'', ''nvapi-1'')], ae_managed := [(''PORT'', ''9000'')]\<rparr>"

lemma repo_key_facts: "files_ok repo_key_env" "layer_of repo_key_env nim_field = (''nvapi-1'', SRepoEnv)"
    "base_value repo_key_env nim_field = []"
  by (simp_all add: files_ok_def repo_key_env_def no_env_def dict_ok_def layer_of_def base_value_def nim_field_facts Let_def get_str_def)

theorem save_exact_witness:
  "dict_get (cf_key nim_field) (target_values_with_updates (\<lambda>_. []) repo_key_env [(''PORT'', JStr ''9001'')]) = Some []"
  using save_exact [OF repo_key_facts(1) nim_field_facts(1), of "[(''PORT'', JStr ''9001'')]" "\<lambda>_. []"]
  by (simp add: nim_field_facts(2) repo_key_facts(3) dict_ok_def)

theorem save_loses_repo_setting_witness:
  "dict_get (cf_key nim_field) (load_value_state (repo_key_env\<lparr>ae_managed := [(''NVIDIA_NIM_API_KEY'', [])]\<rparr>)) =
    Some (get_str (cf_key nim_field) (cf_default nim_field) (ae_template repo_key_env), SManagedEnv)"
proof (rule save_loses_repo_setting [where v = "''nvapi-1''" and updates = "[(''PORT'', JStr ''9001'')]" and repr = "\<lambda>_. []"])
  show "dict_get (cf_key nim_field) [(''NVIDIA_NIM_API_KEY'', [])] =
      dict_get (cf_key nim_field) (target_values_with_updates (\<lambda>_. []) repo_key_env [(''PORT'', JStr ''9001'')])"
    using target_get [OF repo_key_facts(1) nim_field_facts(1), of "[(''PORT'', JStr ''9001'')]" "\<lambda>_. []"]
    by (simp add: nim_field_facts(2) updated_value_def repo_key_facts(3) dict_ok_def)
  show "dict_get (cf_key nim_field) (load_value_state repo_key_env) = Some (''nvapi-1'', SRepoEnv)"
    using state_get [OF repo_key_facts(1) nim_field_facts(1)] repo_key_facts(2) by simp
qed (simp_all add: repo_key_facts nim_field_facts dict_ok_def, simp add: repo_key_env_def)

end
