(* ===== verification/Spec2Isabelle.thy ===== *)
theory Spec2Isabelle
  imports TreeProcessor StreamText NativeSound NativeClients HeuristicSound Recovery ProxyService ConvertTurns NimRequest NodeEvents SessionManager WebToolsSound LimiterSound SessionStoreSound AdminSound
begin

text \<open>
  \<^bold>\<open>A verification library for the proxy and its message trees.\<close>

  The program is a proxy that offers Anthropic's Messages API and answers from many providers, and a
  messaging front end that runs agent sessions for chat threads.  Requests come in through
  \<open>api/\<close>, are routed to a provider by \<open>api/model_router.py\<close> and \<open>providers/registry.py\<close>, are converted by
  \<open>core/anthropic/\<close> and the providers, and the upstream's answer is streamed back as Anthropic events.
  Chat messages form trees in \<open>messaging/trees/\<close>, each of which processes one node at a time.

  \<^bold>\<open>Shared vocabulary.\<close>  \<open>Prelude\<close> has Python's insertion-ordered dictionaries (an interface as a locale,
  interpreted on association lists), exceptions as values (\<open>'a result\<close>), JSON values and string operations;
  \<open>PyText\<close> the remaining string methods.

  \<^bold>\<open>Message trees\<close> (\<open>messaging/trees/data.py\<close>, \<open>queue_manager.py\<close>).  \<open>SnapshotQueue\<close> is the queue of a tree,
  \<open>MessageTree\<close> its nodes and operations, \<open>Worklist\<close> the traversals with their termination, \<open>TreeInvariant\<close> the
  well-formedness every operation keeps, \<open>TreeJson\<close> saving and loading, \<open>TreeRepository\<close> and
  \<open>TreeQueueManager\<close> the index of all trees, \<open>TreeCancel\<close> and \<open>TreeProperties\<close> cancellation, removal and their
  exact effects: \<open>cancel_tree\<close> marks by a rule that asks for a node's state only outside the queue, so it also
  overwrites nodes that failed while they were queued.  \<open>TreeProcessor\<close> models the event loop as a step relation of interleaved tasks: exclusion,
  first-in-first-out order, draining, and the runs in which cancellation breaks them: a tree freed by
  \<open>cancel_tree\<close> before its task has unwound ends with two uncancelled tasks at work.

  \<^bold>\<open>Requests\<close> (\<open>api/\<close>).  \<open>ApiRequests\<close> has the validated request and the normalisation of system messages,
  \<open>ProviderCatalog\<close> and \<open>ModelRouting\<close> the catalog, the settings and the router, \<open>RequestShortcuts\<close> the probes that
  are answered locally, \<open>ModelsList\<close> the advertised models, \<open>ProxyService\<close> the handler of a message: key check,
  shortcuts, candidates, circuit breaker, health report of the stream.

  \<^bold>\<open>Conversion\<close> (\<open>core/anthropic/conversion.py\<close>).  \<open>OpenAiConvert\<close> is the conversion of a request to a chat
  completion; \<open>ConvertSound\<close> shows that it loses no tool call or result and fails exactly for unsupported
  blocks, \<open>ConvertTurns\<close> that an answered conversation follows the chat API's protocol and keeps its text.

  \<^bold>\<open>Streams.\<close>  \<open>ThinkTag\<close> is the parser of thinking tags and its independence of chunking.  \<open>Sse\<close> builds events,
  \<open>StreamContract\<close> is the checker of the program's stream contract, \<open>SseSound\<close>, \<open>OpenAiStream\<close>, \<open>StreamSound\<close> and
  \<open>StreamText\<close> the chat-completion stream (\<open>providers/openai_compat.py\<close>), its contract and its content;
  \<open>HeuristicTools\<close> and \<open>HeuristicSound\<close> its parser of tool calls written as text, and what that loses.
  The contract holds whatever the upstream, the heuristic parser and the tokenizer do, with one exit: the
  tokenizer may refuse a text (tiktoken does for its special tokens), and its \<open>ValueError\<close> then escapes the
  generator before the message's end, with all blocks closed (\<open>special_token_cuts_answer\<close>).  The content
  is stated for the program's own heuristic parser (\<open>with_parser\<close> puts it into the stream's environment):
  the client reads a subsequence of the upstream's text, and exactly that text when it holds none of the
  parser's marks.  \<open>SseWire\<close> is the text form of events and \<open>EmittedTracker\<close> the tracker that reads it back and ends a broken
  stream; \<open>NativePolicy\<close> and \<open>NativeSound\<close> the repair of native streams.  \<open>NativeTransport\<close> and
  \<open>NativeTransportSound\<close> are the native transport as a whole (\<open>providers/anthropic_messages.py\<close>): retries, lines,
  policy, tracker and error tails; \<open>NativeClients\<close> the nine providers on it.  That a broken native answer is
  completed is shown for whole events in one frame each (a name line and a line of JSON, whatever
  writer made it), a prefix that keeps the contract and has started its message, and, for
  OpenRouter, has not ended it; comments and late failures are where it does not hold.

  \<^bold>\<open>Providers.\<close>  \<open>RateWindow\<close> and \<open>ProviderRetry\<close> are the sliding window and the retrying limiter,
  \<open>ProviderErrors\<close> and \<open>ErrorMapping\<close> exceptions and their mapping, \<open>ProviderHealth\<close> the circuit breaker,
  \<open>Recovery\<close> the recovery loop, \<open>ModelListing\<close>, \<open>ProviderRegistry\<close> and \<open>ModelValidation\<close> the registry.

  \<^bold>\<open>Upstream request bodies.\<close>  \<open>NativeRequest\<close> and \<open>NativeRequestSound\<close> are the bodies of the native Messages
  providers (\<open>core/anthropic/native_messages_request.py\<close>, OpenRouter with exactly which extra fields it
  refuses, Wafer, ZAI), \<open>DeepSeekRequest\<close> those of
  DeepSeek with its unsupported blocks and thinking history.  \<open>NimSchema\<close>, \<open>NimSound\<close>, \<open>NimTools\<close> and \<open>NimRequest\<close>
  are NVIDIA NIM's tool schemas (what is sent is judged by a list of schema keywords of its own, not by the
  sanitizer's key sets; booleans under \<open>dependencies\<close>, which the sanitizer does not visit, are sent), the renaming of tool arguments and its undoing, and the body with its retries.
  \<open>OpenAiRequests\<close> has the bodies of the other chat-completion providers.

  \<^bold>\<open>Messaging front end\<close> (\<open>messaging/\<close>, \<open>cli/manager.py\<close>).  \<open>CliEvents\<close> parses the events of an agent session,
  \<open>Transcript\<close>, \<open>TranscriptSound\<close>, \<open>TranscriptText\<close> and \<open>TranscriptRender\<close> are the transcript buffer, what it shows
  and what its truncation keeps; \<open>NodeEvents\<close> is the processing of a node's event stream, \<open>SessionManager\<close> the
  pool of sessions.  \<open>LimiterQueue\<close>, \<open>LimiterTasks\<close> and \<open>LimiterSound\<close> are the messaging limiter: the compacting
  queue with its locale, the worker and its callers as steps, and the futures it settles (as long as it is neither shut down nor a function
  ends with a cancellation) or loses.
  \<open>SessionStore\<close> and \<open>SessionStoreSound\<close> are the session file with its debounced saves.

  \<^bold>\<open>Web tools\<close> (\<open>api/web_tools/\<close>).  \<open>WebEgress\<close> is the egress policy, \<open>WebFetch\<close> the fetch with pinned addresses and
  redirects, \<open>WebTools\<close> the request detection, the HTML parsers and the event stream, \<open>WebToolsSound\<close> that no fetch
  leaves the policy, how many requests it makes, and the contract of the stream.

  \<^bold>\<open>Admin settings\<close> (\<open>api/admin_config.py\<close>).  \<open>AdminFields\<close> is the table of fields as the source lists it,
  \<open>AdminConfig\<close> the configuration response, validation and saving, \<open>AdminSound\<close> what they hide, keep and lose.

  \<^bold>\<open>State and effects.\<close>  Objects are records that operations return updated; exceptions are values of a sum
  type with a branch for each raise; a generator is the list of what it yields, its exception and its new state;
  tasks of the event loop are steps between suspension points.  Loops are structural recursion or functions with
  a termination proof.  Two loops are bounded by fuel: \<open>acquire\<close> of the sliding window, for which two attempts of
  a lone task are shown to be enough, and the retry loop, whose fuel is the number of attempts the code's own
  \<open>range\<close> allows.

  \<^bold>\<open>Parameters.\<close>  What is not the program's own is an argument: the tokenizer (absent, or a partial function), HTTP transports, the provider
  factories, \<open>json.dumps\<close>/\<open>json.loads\<close> and \<open>repr\<close>.  Hypotheses on them
  (a dumped payload is one line and is read back) are named in the properties that use them.

  \<^bold>\<open>Not modelled.\<close>  FastAPI wiring, logging and tracing, the HTML of the admin pages, the command line
  launchers, the platform adapters (Telegram, Discord, voice) and their markdown renderers (driven by a
  third-party parser), subprocess management, the code graph and debugger helpers, hooks and the smoke tests:
  they are input and output around the parts above.  Client disconnects are left out of the streams; time is an
  argument where it decides (window, retry, health).
\<close>

end
